(* ===== verification/Prelude.thy ===== *)
theory Prelude
  imports Main "HOL-Library.Word" "HOL-Library.AList"
begin

text \<open>
  Shared ground of the development: the Go values the components exchange and the lemmas on them.

  \<^item> bytes are \<open>8 word\<close>, a byte slice is a list of them; \<open>uint32\<close> and \<open>uint64\<close> are words, so
    that arithmetic wraps as in Go;
  \<^item> an \<open>error\<close> is a value: \<open>Err\<close> for \<open>errors.New\<close>, \<open>Wrap\<close> for \<open>fmt.Errorf("...: %w", err)\<close>,
    and \<open>Panic\<close> for a run-time panic (nil dereference, write to a nil map, bad key length). A panic
    inside \<open>Wrap\<close> is still a panic, with the texts of the returns it passed on the way;
  \<^item> a Go map is an association list with distinct keys. Go leaves the iteration order open; a
    statement proved for every list that represents a map holds for every order;
  \<^item> \<open>encoding/binary\<close> (little and big endian), \<open>encoding/hex\<close> and the \<open>%d\<close> verb are
    written out, with their round trips and injectivity.
\<close>

section \<open>Types\<close>

type_synonym byte = "8 word"
type_synonym bytes = "byte list"
type_synonym u32 = "32 word"
type_synonym u64 = "64 word"

datatype go_error = Err string | Wrap string go_error | Panic string

type_synonym 'a res = "go_error + 'a"

text \<open>The text of an error, as \<open>err.Error()\<close> and \<open>%v\<close> give it.\<close>

fun err_text :: "go_error \<Rightarrow> string" where
  "err_text (Err s) = s"
| "err_text (Wrap m e) = m @ '': '' @ err_text e"
| "err_text (Panic s) = s"

named_theorems gomap_simps \<open>facts on Go maps represented as association lists\<close>
named_theorems enc_simps \<open>facts on byte encodings\<close>

section \<open>Results\<close>

text \<open>\<open>wrapped msg r\<close> is \<open>if err != nil { return fmt.Errorf("msg: %w", err) }\<close> on the result \<open>r\<close>.\<close>

definition wrapped :: "string \<Rightarrow> 'a res \<Rightarrow> 'a res" where
  "wrapped msg r = (case r of Inl e \<Rightarrow> Inl (Wrap msg e) | Inr x \<Rightarrow> Inr x)"

text \<open>\<open>rbind r f\<close> is \<open>x, err := r; if err != nil { return err }\<close> followed by \<open>f x\<close>.\<close>

definition rbind :: "'a res \<Rightarrow> ('a \<Rightarrow> 'b res) \<Rightarrow> 'b res" where
  "rbind r f = (case r of Inl e \<Rightarrow> Inl e | Inr x \<Rightarrow> f x)"

definition is_ok :: "'a res \<Rightarrow> bool" where
  "is_ok r = (case r of Inl _ \<Rightarrow> False | Inr _ \<Rightarrow> True)"

text \<open>Two results of Go methods that mutate their receiver: the new receiver and what is returned.\<close>

type_synonym ('s, 'a) eff = "'s \<times> 'a res"

text \<open>A slice that may be nil, read as bytes: ranging over, appending or hashing nil is as for the
  empty slice.\<close>

definition slice :: "bytes option \<Rightarrow> bytes" where
  "slice s = (case s of None \<Rightarrow> [] | Some b \<Rightarrow> b)"

lemma wrapped_simps [simp]:
  "wrapped m (Inr x) = Inr x" "wrapped m (Inl e) = Inl (Wrap m e)"
  by (simp_all add: wrapped_def)

lemma wrapped_Inr_iff [simp]: "wrapped m r = Inr x \<longleftrightarrow> r = Inr x"
  by (cases r) auto

lemma rbind_simps [simp]: "rbind (Inr x) f = f x" "rbind (Inl e) f = Inl e"
  by (simp_all add: rbind_def)

lemma rbind_Inr_iff: "rbind r f = Inr y \<longleftrightarrow> (\<exists>x. r = Inr x \<and> f x = Inr y)"
  by (cases r) auto

lemma is_ok_simps [simp]: "is_ok (Inr x)" "\<not> is_ok (Inl e)"
  by (simp_all add: is_ok_def)

lemma is_ok_iff: "is_ok r \<longleftrightarrow> (\<exists>x. r = Inr x)"
  by (cases r) auto

lemma slice_simps [simp]: "slice None = []" "slice (Some b) = b"
  by (simp_all add: slice_def)

section \<open>Go maps\<close>

type_synonym ('k, 'v) gomap = "('k \<times> 'v) list"

definition gm_get :: "('k, 'v) gomap \<Rightarrow> 'k \<Rightarrow> 'v option" where
  "gm_get m k = map_of m k"

definition gm_set :: "'k \<Rightarrow> 'v \<Rightarrow> ('k, 'v) gomap \<Rightarrow> ('k, 'v) gomap" where
  "gm_set k v m = AList.update k v m"

definition gm_del :: "'k \<Rightarrow> ('k, 'v) gomap \<Rightarrow> ('k, 'v) gomap" where
  "gm_del k m = AList.delete k m"

definition gm_len :: "('k, 'v) gomap \<Rightarrow> nat" where
  "gm_len m = length m"

definition gm_ok :: "('k, 'v) gomap \<Rightarrow> bool" where
  "gm_ok m = distinct (map fst m)"

definition gm_dom :: "('k, 'v) gomap \<Rightarrow> 'k set" where
  "gm_dom m = fst ` set m"

lemma gm_get_empty [simp]: "gm_get [] k = None"
  by (simp add: gm_get_def)

lemma gm_get_set [simp, gomap_simps]: "gm_get (gm_set k v m) k' = (if k' = k then Some v else gm_get m k')"
  by (simp add: gm_get_def gm_set_def update_conv')

lemma gm_get_del [simp, gomap_simps]: "gm_get (gm_del k m) k' = (if k' = k then None else gm_get m k')"
  by (simp add: gm_get_def gm_del_def delete_conv')

lemma gm_get_map [gomap_simps]: "gm_get (map (\<lambda>(k, v). (k, f k v)) m) k = map_option (f k) (gm_get m k)"
  unfolding gm_get_def by (induction m) auto

lemma gm_ok_empty [simp]: "gm_ok []"
  by (simp add: gm_ok_def)

lemma gm_ok_set [simp]: "gm_ok m \<Longrightarrow> gm_ok (gm_set k v m)"
  by (simp add: gm_ok_def gm_set_def distinct_update)

lemma gm_ok_del [simp]: "gm_ok m \<Longrightarrow> gm_ok (gm_del k m)"
  by (simp add: gm_ok_def gm_del_def distinct_delete)

lemma gm_len_empty [simp]: "gm_len [] = 0"
  by (simp add: gm_len_def)

lemma gm_len_set [gomap_simps]:
  "gm_len (gm_set k v m) = (if gm_get m k = None then Suc (gm_len m) else gm_len m)"
  unfolding gm_len_def gm_set_def gm_get_def by (induction m) auto

lemma gm_len_del_le: "gm_len (gm_del k m) \<le> gm_len m"
  by (simp add: gm_len_def gm_del_def length_delete_le)

lemma gm_len_del:
  "gm_ok m \<Longrightarrow> gm_len (gm_del k m) = (if gm_get m k = None then gm_len m else gm_len m - 1)"
proof (induction m)
  case Nil
  then show ?case by (simp add: gm_len_def gm_del_def)
next
  case (Cons p m)
  obtain a b where p: "p = (a, b)" by (cases p)
  have ok: "gm_ok m" "a \<notin> fst ` set m" using Cons.prems p by (auto simp: gm_ok_def)
  show ?case
  proof (cases "a = k")
    case True
    have "AList.delete k m = m" using ok(2) True by (simp add: delete_idem)
    then show ?thesis using True p by (simp add: gm_len_def gm_del_def gm_get_def)
  next
    case False
    have "gm_get m k \<noteq> None \<Longrightarrow> gm_len m > 0" by (cases m) (auto simp: gm_len_def)
    then show ?thesis
      using Cons.IH ok(1) False p
      by (auto simp: gm_len_def gm_del_def gm_get_def)
  qed
qed

lemma gm_dom_get: "k \<in> gm_dom m \<longleftrightarrow> gm_get m k \<noteq> None"
  by (simp add: gm_dom_def gm_get_def map_of_eq_None_iff)

lemma gm_get_in_set: "gm_get m k = Some v \<Longrightarrow> (k, v) \<in> set m"
  by (simp add: gm_get_def map_of_SomeD)

lemma gm_in_set_get: "gm_ok m \<Longrightarrow> (k, v) \<in> set m \<longleftrightarrow> gm_get m k = Some v"
  by (auto simp: gm_get_def gm_ok_def dest: map_of_SomeD)

lemma gm_len_card: "gm_ok m \<Longrightarrow> gm_len m = card (gm_dom m)"
  unfolding gm_len_def gm_dom_def gm_ok_def by (metis distinct_card length_map set_map)

section \<open>Byte order\<close>

text \<open>\<open>le_bytes n w\<close> is \<open>binary.LittleEndian.PutUint\<close> into \<open>n\<close> bytes, \<open>le_uint\<close> reads it back;
  big endian is the reverse.\<close>

definition le_bytes :: "nat \<Rightarrow> 'a::len word \<Rightarrow> bytes" where
  "le_bytes n w = map (\<lambda>i. ucast (drop_bit (8 * i) w)) [0..<n]"

definition be_bytes :: "nat \<Rightarrow> 'a::len word \<Rightarrow> bytes" where
  "be_bytes n w = rev (le_bytes n w)"

unbundle bit_operations_syntax

fun le_uint :: "bytes \<Rightarrow> 'a::len word" where
  "le_uint [] = 0"
| "le_uint (b # bs) = ucast b OR push_bit 8 (le_uint bs)"

definition be_uint :: "bytes \<Rightarrow> 'a::len word" where
  "be_uint bs = le_uint (rev bs)"

lemma length_le_bytes [simp]: "length (le_bytes n w) = n"
  by (simp add: le_bytes_def)

lemma length_be_bytes [simp]: "length (be_bytes n w) = n"
  by (simp add: be_bytes_def)

lemma bit_le_uint:
  "bit (le_uint bs :: 'a::len word) n \<longleftrightarrow>
     n < LENGTH('a) \<and> n div 8 < length bs \<and> bit (bs ! (n div 8)) (n mod 8)"
proof (induction bs arbitrary: n)
  case Nil
  then show ?case by simp
next
  case (Cons b bs)
  show ?case
  proof (cases "n < 8")
    case True
    then show ?thesis by (auto simp: bit_or_iff bit_push_bit_iff bit_ucast_iff)
  next
    case False
    then have *: "n div 8 = Suc ((n - 8) div 8)" "n mod 8 = (n - 8) mod 8"
      by (auto simp: le_div_geq le_mod_geq)
    have "\<not> bit (ucast b :: 'a word) n"
      using False by (auto simp: bit_ucast_iff dest: bit_imp_le_length)
    then show ?thesis
      using False Cons.IH[of "n - 8"] * by (auto simp: bit_or_iff bit_push_bit_iff)
  qed
qed

lemma le_uint_le_bytes:
  "LENGTH('a::len) \<le> 8 * n \<Longrightarrow> le_uint (le_bytes n (w :: 'a word)) = w"
proof (rule bit_eqI)
  fix k
  assume len: "LENGTH('a) \<le> 8 * n" and "possible_bit TYPE('a word) k"
  then have k: "k < LENGTH('a)" by simp
  then have d: "k div 8 < n" using len by auto
  have "8 * (k div 8) + k mod 8 = k" by simp
  then show "bit (le_uint (le_bytes n w) :: 'a word) k = bit w k"
    using k d by (simp add: bit_le_uint le_bytes_def bit_ucast_iff bit_drop_bit_eq)
qed

lemma le_bytes_le_uint:
  "8 * length bs \<le> LENGTH('a::len) \<Longrightarrow> le_bytes (length bs) (le_uint bs :: 'a word) = bs"
proof (rule nth_equalityI)
  fix i
  assume len: "8 * length bs \<le> LENGTH('a)" and "i < length (le_bytes (length bs) (le_uint bs :: 'a word))"
  then have i: "i < length bs" by simp
  show "le_bytes (length bs) (le_uint bs :: 'a word) ! i = bs ! i"
  proof (rule bit_eqI)
    fix k assume "possible_bit TYPE(byte) k"
    then have k: "k < 8" by simp
    have "8 * i + k < LENGTH('a)" using len i k by simp
    then show "bit (le_bytes (length bs) (le_uint bs :: 'a word) ! i) k = bit (bs ! i) k"
      using i k by (simp add: le_bytes_def bit_ucast_iff bit_drop_bit_eq bit_le_uint)
  qed
qed simp

lemma le_uint_roundtrip32 [simp, enc_simps]: "le_uint (le_bytes 4 (w :: u32)) = w"
  by (rule le_uint_le_bytes) simp

lemma le_uint_roundtrip64 [simp, enc_simps]: "le_uint (le_bytes 8 (w :: u64)) = w"
  by (rule le_uint_le_bytes) simp

lemma be_uint_roundtrip32 [simp, enc_simps]: "be_uint (be_bytes 4 (w :: u32)) = w"
  by (simp add: be_uint_def be_bytes_def)

lemma be_uint_roundtrip64 [simp, enc_simps]: "be_uint (be_bytes 8 (w :: u64)) = w"
  by (simp add: be_uint_def be_bytes_def)

section \<open>Hexadecimal and decimal text\<close>

definition hexdigit :: "nat \<Rightarrow> char" where
  "hexdigit n = (if n < 10 then char_of (48 + n) else char_of (87 + n))"

text \<open>\<open>hex.EncodeToString\<close> and the \<open>%x\<close> verb on a byte slice.\<close>

definition hex_encode :: "bytes \<Rightarrow> string" where
  "hex_encode bs = concat (map (\<lambda>b. [hexdigit (unat b div 16), hexdigit (unat b mod 16)]) bs)"

text \<open>The \<open>%d\<close> verb on an unsigned integer.\<close>

fun dec_of_nat :: "nat \<Rightarrow> string" where
  "dec_of_nat n = (if n < 10 then [hexdigit n] else dec_of_nat (n div 10) @ [hexdigit (n mod 10)])"

declare dec_of_nat.simps [simp del]

lemma of_char_hexdigit: "n < 16 \<Longrightarrow> of_char (hexdigit n) = (if n < 10 then 48 + n else 87 + n)"
  by (auto simp: hexdigit_def)

lemma hexdigit_inj: "a < 16 \<Longrightarrow> b < 16 \<Longrightarrow> hexdigit a = hexdigit b \<longleftrightarrow> a = b"
proof
  assume "a < 16" "b < 16" "hexdigit a = hexdigit b"
  then have "(of_char (hexdigit a) :: nat) = of_char (hexdigit b)" by simp
  then show "a = b" using \<open>a < 16\<close> \<open>b < 16\<close> by (auto simp: of_char_hexdigit split: if_splits)
qed simp

lemma unat_byte_less [simp]: "unat (b :: byte) < 256"
  by (rule order_less_le_trans[OF unsigned_less]) simp

lemma unat_of_char: "unat (of_char c :: byte) = of_char c"
proof -
  have "(of_char c :: byte) = of_nat (of_char c)" by (simp add: of_nat_of_char)
  moreover have "of_char c < (256 :: nat)" by simp
  ultimately show ?thesis by (simp add: unat_of_nat)
qed

lemma hex_encode_Nil [simp]: "hex_encode [] = []"
  by (simp add: hex_encode_def)

lemma hex_encode_Cons [simp]:
  "hex_encode (b # bs) = hexdigit (unat b div 16) # hexdigit (unat b mod 16) # hex_encode bs"
  by (simp add: hex_encode_def)

lemma hex_byte_inj:
  fixes a b :: byte
  assumes "hexdigit (unat a div 16) = hexdigit (unat b div 16)"
    and "hexdigit (unat a mod 16) = hexdigit (unat b mod 16)"
  shows "a = b"
proof -
  have "unat a div 16 < 16" "unat b div 16 < 16"
    by (simp_all add: less_mult_imp_div_less)
  then have "unat a div 16 = unat b div 16" "unat a mod 16 = unat b mod 16"
    using assms by (simp_all add: hexdigit_inj)
  then have "unat a = unat b" by (metis div_mult_mod_eq)
  then show ?thesis by (rule word_unat_eq_iff[THEN iffD2])
qed

lemma length_hex_encode: "length (hex_encode bs) = 2 * length bs"
  by (induction bs) simp_all

lemma hex_encode_inj [simp]: "hex_encode a = hex_encode b \<longleftrightarrow> a = b"
proof (induction a arbitrary: b)
  case Nil
  then show ?case by (cases b) auto
next
  case (Cons x a)
  then show ?case by (cases b) (auto dest: hex_byte_inj)
qed

lemma hexdigit_not_colon: "n < 16 \<Longrightarrow> hexdigit n \<noteq> CHR '':''"
proof
  assume "n < 16" "hexdigit n = CHR '':''"
  then have "(of_char (hexdigit n) :: nat) = 58" by simp
  then show False using \<open>n < 16\<close> by (auto simp: of_char_hexdigit split: if_splits)
qed

text \<open>\<open>hex.DecodeString\<close>: both cases of letters, an error for another character or for an odd length.\<close>

definition unhex :: "char \<Rightarrow> byte option" where
  "unhex c = (let n = (of_char c :: nat) in
     if 48 \<le> n \<and> n \<le> 57 then Some (of_nat (n - 48))
     else if 97 \<le> n \<and> n \<le> 102 then Some (of_nat (n - 87))
     else if 65 \<le> n \<and> n \<le> 70 then Some (of_nat (n - 55)) else None)"

fun hex_decode :: "string \<Rightarrow> bytes res" where
  "hex_decode [] = Inr []"
| "hex_decode [c] = (case unhex c of None \<Rightarrow> Inl (Err ''encoding/hex: invalid byte'') | Some _ \<Rightarrow> Inl (Err ''encoding/hex: odd length hex string''))"
| "hex_decode (c # d # cs) =
     (case (unhex c, unhex d) of
        (Some a, Some b) \<Rightarrow> rbind (hex_decode cs) (\<lambda>bs. Inr ((16 * a + b) # bs))
      | _ \<Rightarrow> Inl (Err ''encoding/hex: invalid byte''))"

lemma unhex_hexdigit: "n < 16 \<Longrightarrow> unhex (hexdigit n) = Some (of_nat n)"
  by (auto simp: unhex_def of_char_hexdigit Let_def)

lemma hex_decode_encode [simp]: "hex_decode (hex_encode b) = Inr b"
proof (induction b)
  case (Cons x b)
  have lt: "unat x div 16 < 16" "unat x mod 16 < 16" by (simp_all add: less_mult_imp_div_less)
  have "16 * of_nat (unat x div 16) + of_nat (unat x mod 16) = (of_nat (16 * (unat x div 16) + unat x mod 16) :: byte)"
    by (simp only: of_nat_add of_nat_mult of_nat_numeral)
  also have "\<dots> = x" unfolding mult_div_mod_eq by simp
  finally have "16 * of_nat (unat x div 16) + of_nat (unat x mod 16) = x" .
  then show ?case using Cons lt by (simp only: hex_encode_Cons hex_decode.simps unhex_hexdigit prod.case option.case rbind_simps)
qed simp

lemma hex_encode_no_colon: "CHR '':'' \<notin> set (hex_encode bs)"
proof (induction bs)
  case (Cons b bs)
  have "unat b div 16 < 16" by (simp add: less_mult_imp_div_less)
  then have "hexdigit (unat b div 16) \<noteq> CHR '':''" "hexdigit (unat b mod 16) \<noteq> CHR '':''"
    by (simp_all add: hexdigit_not_colon)
  then show ?case using Cons by (auto dest: sym)
qed simp

definition dec_val :: "string \<Rightarrow> nat" where
  "dec_val s = foldl (\<lambda>acc c. acc * 10 + (of_char c - 48)) 0 s"

lemma dec_val_of_nat: "dec_val (dec_of_nat n) = n"
proof (induction n rule: dec_of_nat.induct)
  case (1 n)
  show ?case
  proof (cases "n < 10")
    case True
    then show ?thesis by (subst dec_of_nat.simps) (simp add: dec_val_def of_char_hexdigit)
  next
    case False
    then have "dec_val (dec_of_nat (n div 10)) = n div 10" using 1 by simp
    then show ?thesis
      using False by (subst dec_of_nat.simps) (simp add: dec_val_def of_char_hexdigit)
  qed
qed

lemma dec_of_nat_inj [simp]: "dec_of_nat a = dec_of_nat b \<longleftrightarrow> a = b"
  by (metis dec_val_of_nat)

definition dec_of_int :: "int \<Rightarrow> string" where
  "dec_of_int i = (if i < 0 then ''-'' @ dec_of_nat (nat (- i)) else dec_of_nat (nat i))"

text \<open>A text with a separator that the left part does not contain splits uniquely.\<close>

lemma append_sep_inj:
  assumes "x \<notin> set a" "x \<notin> set b" "a @ x # c = b @ x # d"
  shows "a = b \<and> c = d"
  using assms by (induction a arbitrary: b) (auto simp: Cons_eq_append_conv append_eq_Cons_conv)

section \<open>Words\<close>

lemma u_less_unat: "(a :: 'a::len word) < b \<longleftrightarrow> unat a < unat b"
  by (rule word_less_nat_alt)

lemma unat_of_nat_u32: "n < 2 ^ 32 \<Longrightarrow> unat (of_nat n :: u32) = n"
  by (simp add: unat_of_nat)

lemma unat_Suc_less:
  assumes "(a :: 'a::len word) < b"
  shows "unat (a + 1) = Suc (unat a)"
proof -
  have "unat a < unat b" using assms by (simp add: u_less_unat)
  moreover have "unat b < 2 ^ LENGTH('a)" by (rule unsigned_less)
  ultimately have "Suc (unat a) < 2 ^ LENGTH('a)" by linarith
  then show ?thesis by (simp add: unat_word_ariths)
qed

section \<open>Invariants of step relations\<close>

text \<open>What every state machine of the library needs once: an invariant that each step keeps holds in
  every state reached from a state where it holds.\<close>

locale kept_invariant =
  fixes step :: "'s \<Rightarrow> 's \<Rightarrow> bool" and inv :: "'s \<Rightarrow> bool"
  assumes kept: "inv s \<Longrightarrow> step s t \<Longrightarrow> inv t"
begin

lemma reachable_inv: "step\<^sup>*\<^sup>* s t \<Longrightarrow> inv s \<Longrightarrow> inv t"
  by (induction rule: rtranclp_induct) (auto intro: kept)

end

end
