(* ===== verification/Crypto.thy ===== *)
theory Crypto
  imports Prelude
begin

text \<open>
  The cryptographic primitives the program calls and \<open>pkg/crypto\<close>, the thin layer over them.

  X25519, HKDF, ChaCha20-Poly1305, HMAC, SHA-256 and Ed25519 are not code of the repository: they
  are the fields of a record \<open>prims\<close> that every definition using them takes as an argument. What
  the program relies on is stated by named predicates over that record (\<open>dh_commutes\<close>,
  \<open>aead_correct\<close>, \<open>key_sizes\<close>, \<open>sig_correct\<close>), each a documented property of the primitive. The
  record \<open>toy\<close> is one concrete instance; it is used only to show that the predicates can hold
  together.
\<close>

section \<open>The primitives\<close>

record prims =
  X25519 :: "bytes \<Rightarrow> bytes \<Rightarrow> bytes res"
  Basepoint :: bytes
  hkdf_sha256 :: "bytes \<Rightarrow> bytes \<Rightarrow> bytes \<Rightarrow> nat \<Rightarrow> bytes res"
    \<comment> \<open>secret, salt, info, number of bytes read\<close>
  hmac_sha256 :: "bytes \<Rightarrow> bytes \<Rightarrow> bytes"
  sha256 :: "bytes \<Rightarrow> bytes"
  chacha_new :: "bytes \<Rightarrow> unit res"
  chacha_seal :: "bytes \<Rightarrow> bytes \<Rightarrow> bytes \<Rightarrow> bytes \<Rightarrow> bytes"
    \<comment> \<open>key, nonce, plaintext, associated data\<close>
  chacha_open :: "bytes \<Rightarrow> bytes \<Rightarrow> bytes \<Rightarrow> bytes \<Rightarrow> bytes res"
  xchacha_new :: "bytes \<Rightarrow> unit res"
  xchacha_seal :: "bytes \<Rightarrow> bytes \<Rightarrow> bytes \<Rightarrow> bytes \<Rightarrow> bytes"
  xchacha_open :: "bytes \<Rightarrow> bytes \<Rightarrow> bytes \<Rightarrow> bytes \<Rightarrow> bytes res"
  ed_sign :: "bytes \<Rightarrow> bytes \<Rightarrow> bytes"
  ed_verify :: "bytes \<Rightarrow> bytes \<Rightarrow> bytes \<Rightarrow> bool"
  ed_public :: "bytes \<Rightarrow> bytes"

text \<open>Diffie-Hellman: both sides compute the same value from their private key and the other's
  public key.\<close>

definition dh_commutes :: "prims \<Rightarrow> bool" where
  "dh_commutes P \<longleftrightarrow> (\<forall>a b A B. X25519 P a (Basepoint P) = Inr A \<longrightarrow> X25519 P b (Basepoint P) = Inr B \<longrightarrow>
     X25519 P a B = X25519 P b A)"

text \<open>Authenticated encryption: opening what was sealed under the same key, nonce and associated
  data gives the plaintext back.\<close>

definition aead_correct :: "prims \<Rightarrow> bool" where
  "aead_correct P \<longleftrightarrow>
     (\<forall>k n m a. length k = 32 \<longrightarrow> length n = 12 \<longrightarrow> chacha_open P k n (chacha_seal P k n m a) a = Inr m) \<and>
     (\<forall>k n m a. length k = 32 \<longrightarrow> length n = 24 \<longrightarrow> xchacha_open P k n (xchacha_seal P k n m a) a = Inr m)"

text \<open>Key and output sizes: an AEAD takes any 32-byte key, HMAC-SHA256 and SHA-256 return 32 bytes,
  HKDF-SHA256 yields up to 255 blocks of 32 bytes.\<close>

definition key_sizes :: "prims \<Rightarrow> bool" where
  "key_sizes P \<longleftrightarrow>
     (\<forall>k. length k = 32 \<longrightarrow> chacha_new P k = Inr () \<and> xchacha_new P k = Inr ()) \<and>
     (\<forall>k d. length (hmac_sha256 P k d) = 32) \<and> (\<forall>d. length (sha256 P d) = 32) \<and>
     (\<forall>s salt i n. n \<le> 255 * 32 \<longrightarrow> (\<exists>out. hkdf_sha256 P s salt i n = Inr out \<and> length out = n))"

text \<open>Signatures: 64 bytes, and a signature made with a private key verifies under its public key.\<close>

definition sig_correct :: "prims \<Rightarrow> bool" where
  "sig_correct P \<longleftrightarrow> (\<forall>sk m. length sk = 64 \<longrightarrow>
     length (ed_sign P sk m) = 64 \<and> length (ed_public P sk) = 32 \<and>
     ed_verify P (ed_public P sk) m (ed_sign P sk m))"

text \<open>Documented facts of the primitives: X25519 takes and returns 32 bytes, and a sealed message is never empty.\<close>

definition dh_sizes :: "prims \<Rightarrow> bool" where
  "dh_sizes P \<longleftrightarrow> (\<forall>a B S. X25519 P a B = Inr S \<longrightarrow> length a = 32 \<and> length B = 32 \<and> length S = 32)"

definition seal_nonempty :: "prims \<Rightarrow> bool" where
  "seal_nonempty P \<longleftrightarrow> (\<forall>k n m a. length k = 32 \<longrightarrow> xchacha_seal P k n m a \<noteq> [])"

section \<open>pkg/crypto: key agreement and encryption\<close>

definition ErrDecryptionFailed :: go_error where "ErrDecryptionFailed = Err ''decryption failed''"
definition ErrInvalidKeySize :: go_error where "ErrInvalidKeySize = Err ''invalid key size''"
definition ErrInvalidNonceSize :: go_error where "ErrInvalidNonceSize = Err ''invalid nonce size''"
definition ErrInvalidPrivateKey :: go_error where "ErrInvalidPrivateKey = Err ''invalid private key''"

definition NonceSize :: nat where "NonceSize = 24"
definition KeySize :: nat where "KeySize = 32"
definition SharedSecretSize :: nat where "SharedSecretSize = 32"
definition SignatureSize :: nat where "SignatureSize = 64"
definition PrivateKeySize :: nat where "PrivateKeySize = 64"
definition PublicKeySize :: nat where "PublicKeySize = 32"

lemmas crypto_sizes = NonceSize_def KeySize_def SharedSecretSize_def SignatureSize_def
  PrivateKeySize_def PublicKeySize_def

definition ComputeSharedSecret :: "prims \<Rightarrow> bytes \<Rightarrow> bytes \<Rightarrow> bytes res" where
  "ComputeSharedSecret P privKey pubKey =
     (if length privKey \<noteq> SharedSecretSize then Inl (Err ''private key must be 32 bytes'')
      else if length pubKey \<noteq> SharedSecretSize then Inl (Err ''public key must be 32 bytes'')
      else wrapped ''X25519 key agreement failed'' (X25519 P privKey pubKey))"

text \<open>\<open>rnd\<close> is what the system's random reader gives for this call, of the size asked for.\<close>

definition GenerateNonce :: "bytes res \<Rightarrow> bytes res" where
  "GenerateNonce rnd = wrapped ''failed to generate nonce'' rnd"

definition GenerateKey :: "bytes res \<Rightarrow> bytes res" where
  "GenerateKey rnd = wrapped ''failed to generate key'' rnd"

definition Encrypt_X :: "prims \<Rightarrow> bytes \<Rightarrow> bytes \<Rightarrow> bytes \<Rightarrow> bytes res" where
  "Encrypt_X P key nonce plaintext =
     (if length key \<noteq> KeySize then Inl (Wrap ''key must be 32 bytes'' ErrInvalidKeySize)
      else if length nonce \<noteq> NonceSize then Inl (Wrap ''nonce must be 24 bytes'' ErrInvalidNonceSize)
      else case xchacha_new P key of
        Inl e \<Rightarrow> Inl (Wrap ''failed to create cipher'' e)
      | Inr _ \<Rightarrow> Inr (xchacha_seal P key nonce plaintext []))"

definition Decrypt_X :: "prims \<Rightarrow> bytes \<Rightarrow> bytes \<Rightarrow> bytes \<Rightarrow> bytes res" where
  "Decrypt_X P key nonce ciphertext =
     (if length key \<noteq> KeySize then Inl (Wrap ''key must be 32 bytes'' ErrInvalidKeySize)
      else if length nonce \<noteq> NonceSize then Inl (Wrap ''nonce must be 24 bytes'' ErrInvalidNonceSize)
      else case xchacha_new P key of
        Inl e \<Rightarrow> Inl (Wrap ''failed to create cipher'' e)
      | Inr _ \<Rightarrow> (case xchacha_open P key nonce ciphertext [] of
          Inl e \<Rightarrow> Inl ErrDecryptionFailed
        | Inr m \<Rightarrow> Inr m))"

definition DeriveKey :: "prims \<Rightarrow> bytes \<Rightarrow> bytes \<Rightarrow> bytes \<Rightarrow> int \<Rightarrow> bytes res" where
  "DeriveKey P ikm salt info len =
     (if len \<le> 0 then Inl (Err ''key length must be positive'')
      else wrapped ''failed to derive key'' (hkdf_sha256 P ikm salt info (nat len)))"

definition GenerateX25519KeyPair :: "prims \<Rightarrow> bytes res \<Rightarrow> (bytes \<times> bytes) res" where
  "GenerateX25519KeyPair P rnd =
     (case rnd of
        Inl e \<Rightarrow> Inl (Wrap ''failed to generate private key'' e)
      | Inr privKey \<Rightarrow> (case X25519 P privKey (Basepoint P) of
          Inl e \<Rightarrow> Inl (Wrap ''failed to compute public key'' e)
        | Inr pubKey \<Rightarrow> Inr (pubKey, privKey)))"

definition str_bytes :: "string \<Rightarrow> bytes" where
  "str_bytes s = map of_char s"

text \<open>\<open>copy(dst, src)\<close> into a fresh array of 32 bytes.\<close>

definition copy32 :: "bytes \<Rightarrow> bytes" where
  "copy32 src = take 32 src @ replicate (32 - length src) 0"

lemma copy32_id [simp]: "length b = 32 \<Longrightarrow> copy32 b = b"
  by (simp add: copy32_def)

definition EncryptWithSharedSecret :: "prims \<Rightarrow> bytes res \<Rightarrow> bytes \<Rightarrow> bytes \<Rightarrow> (bytes \<times> bytes) res" where
  "EncryptWithSharedSecret P rnd sharedSecret plaintext =
     (if length sharedSecret \<noteq> SharedSecretSize then Inl (Err ''shared secret must be 32 bytes'')
      else case DeriveKey P sharedSecret [] (str_bytes ''encryption'') (int KeySize) of
        Inl e \<Rightarrow> Inl (Wrap ''failed to derive encryption key'' e)
      | Inr key \<Rightarrow> (case GenerateNonce rnd of
          Inl e \<Rightarrow> Inl e
        | Inr nonce \<Rightarrow> (case Encrypt_X P key nonce plaintext of
            Inl e \<Rightarrow> Inl e
          | Inr ciphertext \<Rightarrow> Inr (nonce, ciphertext))))"

definition DecryptWithSharedSecret :: "prims \<Rightarrow> bytes \<Rightarrow> bytes \<Rightarrow> bytes \<Rightarrow> bytes res" where
  "DecryptWithSharedSecret P sharedSecret nonce ciphertext =
     (if length sharedSecret \<noteq> SharedSecretSize then Inl (Err ''shared secret must be 32 bytes'')
      else case DeriveKey P sharedSecret [] (str_bytes ''encryption'') (int KeySize) of
        Inl e \<Rightarrow> Inl (Wrap ''failed to derive encryption key'' e)
      | Inr key \<Rightarrow> Decrypt_X P key nonce ciphertext)"

section \<open>pkg/crypto: signatures\<close>

definition Sign :: "prims \<Rightarrow> bytes \<Rightarrow> bytes \<Rightarrow> bytes res" where
  "Sign P privKey message =
     (if length privKey \<noteq> PrivateKeySize then Inl (Wrap ''expected 64 bytes'' ErrInvalidPrivateKey)
      else Inr (ed_sign P privKey message))"

definition Verify :: "prims \<Rightarrow> bytes \<Rightarrow> bytes \<Rightarrow> bytes \<Rightarrow> bool" where
  "Verify P pubKey message signature =
     (if length pubKey \<noteq> PublicKeySize then False
      else if length signature \<noteq> SignatureSize then False
      else ed_verify P pubKey message signature)"

text \<open>The standard library's own entry points, which panic on a key of the wrong size.\<close>

definition ed25519_Sign :: "prims \<Rightarrow> bytes \<Rightarrow> bytes \<Rightarrow> bytes res" where
  "ed25519_Sign P privKey message =
     (if length privKey \<noteq> PrivateKeySize then Inl (Panic ''ed25519: bad private key length'')
      else Inr (ed_sign P privKey message))"

definition ed25519_Verify :: "prims \<Rightarrow> bytes \<Rightarrow> bytes \<Rightarrow> bytes \<Rightarrow> bool res" where
  "ed25519_Verify P pubKey message signature =
     (if length pubKey \<noteq> PublicKeySize then Inl (Panic ''ed25519: bad public key length'')
      else Inr (ed_verify P pubKey message signature))"

definition ValidatePrivateKey :: "prims \<Rightarrow> bytes \<Rightarrow> bool" where
  "ValidatePrivateKey P privKey =
     (if length privKey \<noteq> PrivateKeySize then False
      else case Sign P privKey (str_bytes ''test'') of
        Inl _ \<Rightarrow> False
      | Inr signature \<Rightarrow> Verify P (ed_public P privKey) (str_bytes ''test'') signature)"

definition ValidatePublicKey :: "bytes \<Rightarrow> bool" where
  "ValidatePublicKey pubKey = (length pubKey = PublicKeySize)"

section \<open>Lemmas\<close>

lemma dh_commutesD:
  "dh_commutes P \<Longrightarrow> X25519 P a (Basepoint P) = Inr A \<Longrightarrow> X25519 P b (Basepoint P) = Inr B \<Longrightarrow>
   X25519 P a B = X25519 P b A"
  unfolding dh_commutes_def by blast

lemma key_sizes_hkdf:
  "key_sizes P \<Longrightarrow> n \<le> 255 * 32 \<Longrightarrow> \<exists>out. hkdf_sha256 P s salt i n = Inr out \<and> length out = n"
  by (simp add: key_sizes_def)

lemma key_sizes_simps:
  assumes "key_sizes P"
  shows "length k = 32 \<Longrightarrow> chacha_new P k = Inr ()" "length k = 32 \<Longrightarrow> xchacha_new P k = Inr ()"
    "length (hmac_sha256 P k d) = 32" "length (sha256 P d) = 32"
  using assms by (simp_all add: key_sizes_def)

lemma aead_open_seal:
  "aead_correct P \<Longrightarrow> length k = 32 \<Longrightarrow> length n = 12 \<Longrightarrow> chacha_open P k n (chacha_seal P k n m a) a = Inr m"
  by (simp add: aead_correct_def)

lemma xaead_open_seal:
  "aead_correct P \<Longrightarrow> length k = 32 \<Longrightarrow> length n = 24 \<Longrightarrow> xchacha_open P k n (xchacha_seal P k n m a) a = Inr m"
  by (simp add: aead_correct_def)

lemma sig_correctD:
  assumes "sig_correct P" "length sk = 64"
  shows "length (ed_sign P sk m) = 64" "length (ed_public P sk) = 32"
    "ed_verify P (ed_public P sk) m (ed_sign P sk m)"
  using assms by (simp_all add: sig_correct_def)

lemma ed25519_Verify_Sign:
  assumes "sig_correct P" "length sk = 64"
  shows "\<exists>sig. ed25519_Sign P sk m = Inr sig \<and> ed25519_Verify P (ed_public P sk) m sig = Inr True \<and> length sig = 64"
  using assms by (simp add: ed25519_Sign_def ed25519_Verify_def crypto_sizes sig_correctD)

section \<open>A concrete instance\<close>

text \<open>Not a cipher: an instance with the stated laws, small enough to evaluate. Its \<open>open\<close> rejects
  every ciphertext not sealed under the same key and nonce.\<close>

definition vec_add :: "bytes \<Rightarrow> bytes \<Rightarrow> bytes" where
  "vec_add a b = map (\<lambda>(x, y). x + y) (zip a b)"

definition pad32 :: "bytes \<Rightarrow> bytes" where
  "pad32 b = take 32 (b @ replicate 32 0)"

definition toy_seal :: "bytes \<Rightarrow> bytes \<Rightarrow> bytes \<Rightarrow> bytes \<Rightarrow> bytes" where
  "toy_seal k n m a = k @ n @ m"

definition toy_open :: "bytes \<Rightarrow> bytes \<Rightarrow> bytes \<Rightarrow> bytes \<Rightarrow> bytes res" where
  "toy_open k n c a = (if take (length k + length n) c = k @ n then Inr (drop (length k + length n) c)
     else Inl (Err ''message authentication failed''))"

definition toy_new :: "bytes \<Rightarrow> unit res" where
  "toy_new k = (if length k = 32 then Inr () else Inl (Err ''bad key length''))"

definition toy :: prims where
  "toy = \<lparr>
     X25519 = (\<lambda>a B. if length a = 32 \<and> length B = 32 then Inr (vec_add a B) else Inl (Err ''bad length'')),
     Basepoint = replicate 32 0,
     hkdf_sha256 = (\<lambda>s salt i n. Inr (take n (vec_add (pad32 s) (pad32 (salt @ i)) @ replicate n 0))),
     hmac_sha256 = (\<lambda>k d. vec_add (pad32 k) (pad32 d)),
     sha256 = pad32,
     chacha_new = toy_new, chacha_seal = toy_seal, chacha_open = toy_open,
     xchacha_new = toy_new, xchacha_seal = toy_seal, xchacha_open = toy_open,
     ed_sign = (\<lambda>sk m. take 64 (m @ replicate 64 0)),
     ed_verify = (\<lambda>pk m sig. sig = take 64 (m @ replicate 64 0)),
     ed_public = take 32\<rparr>"

lemma toy_simps [simp]:
  "X25519 toy a B = (if length a = 32 \<and> length B = 32 then Inr (vec_add a B) else Inl (Err ''bad length''))"
  "Basepoint toy = replicate 32 0"
  "hkdf_sha256 toy s salt i n = Inr (take n (vec_add (pad32 s) (pad32 (salt @ i)) @ replicate n 0))"
  "hmac_sha256 toy k d = vec_add (pad32 k) (pad32 d)"
  "sha256 toy = pad32"
  "chacha_new toy = toy_new" "chacha_seal toy = toy_seal" "chacha_open toy = toy_open"
  "xchacha_new toy = toy_new" "xchacha_seal toy = toy_seal" "xchacha_open toy = toy_open"
  "ed_sign toy sk m = take 64 (m @ replicate 64 0)"
  "ed_verify toy pk m sg = (sg = take 64 (m @ replicate 64 0))"
  "ed_public toy = take 32"
  by (simp_all add: toy_def)

lemma length_vec_add [simp]: "length (vec_add a b) = min (length a) (length b)"
  by (simp add: vec_add_def)

lemma length_pad32 [simp]: "length (pad32 b) = 32"
  by (simp add: pad32_def)

lemma vec_add_commute: "vec_add a b = vec_add b a"
  unfolding vec_add_def by (rule nth_equalityI) (auto simp: add.commute)

lemma vec_add_zero: "length a = 32 \<Longrightarrow> vec_add a (replicate 32 0) = a"
  unfolding vec_add_def by (rule nth_equalityI) auto

lemma toy_dh: "dh_commutes toy"
  by (auto simp: dh_commutes_def vec_add_zero intro: vec_add_commute split: if_splits)

lemma toy_aead: "aead_correct toy"
  by (simp add: aead_correct_def toy_seal_def toy_open_def)

lemma toy_key_sizes: "key_sizes toy"
  by (simp add: key_sizes_def toy_new_def min_def)

lemma toy_sig: "sig_correct toy"
  by (simp add: sig_correct_def min_def)

lemma toy_dh_sizes: "dh_sizes toy" "seal_nonempty toy"
  by (auto simp: dh_sizes_def seal_nonempty_def toy_seal_def split: if_splits)

lemmas toy_laws = toy_dh toy_aead toy_key_sizes toy_sig

section \<open>Properties\<close>

text \<open>Shared-secret encryption round trip: whatever 32-byte secret two parties share, a
  message encrypted with a fresh 24-byte nonce always encrypts, and decrypting the resulting pair
  under the same secret gives the plaintext.\<close>

theorem shared_secret_roundtrip:
  assumes "key_sizes P" "aead_correct P" "length secret = 32" "length nonce = 24"
  shows "\<exists>ct. EncryptWithSharedSecret P (Inr nonce) secret m = Inr (nonce, ct) \<and>
    DecryptWithSharedSecret P secret nonce ct = Inr m"
proof -
  obtain key where key: "hkdf_sha256 P secret [] (str_bytes ''encryption'') 32 = Inr key" "length key = 32"
    using key_sizes_hkdf[OF assms(1), of 32] by fastforce
  then show ?thesis
    using assms by (simp add: EncryptWithSharedSecret_def DecryptWithSharedSecret_def DeriveKey_def
      GenerateNonce_def Encrypt_X_def Decrypt_X_def crypto_sizes key_sizes_simps xaead_open_seal)
qed

theorem shared_secret_roundtrip_witness:
  "\<exists>ct. EncryptWithSharedSecret toy (Inr (replicate 24 7)) (replicate 32 1) [1, 2, 3] = Inr (replicate 24 7, ct) \<and>
    DecryptWithSharedSecret toy (replicate 32 1) (replicate 24 7) ct = Inr [1, 2, 3]"
  by (rule shared_secret_roundtrip[OF toy_key_sizes toy_aead]) simp_all

end
