(* ===== verification/X3DH.thy ===== *)
theory X3DH
  imports Crypto
begin

text \<open>
  \<open>pkg/ratchet/x3dh.go\<close>: the X3DH key agreement, the state of a Double Ratchet session with its two
  constructors, and the key derivation functions of the ratchet.

  Pointers to key arrays that may be nil are \<open>bytes option\<close>; the keys the code always dereferences
  are \<open>bytes\<close>. \<open>rnd\<close> is the outcome of reading 32 bytes from the system's random source, \<open>now\<close> the
  clock. Zeroing of buffers that are dropped afterwards has no effect on the returned values and is
  left out.
\<close>

section \<open>Constants and key derivation\<close>

definition CipherSuiteXChaCha20Poly1305 :: u32 where "CipherSuiteXChaCha20Poly1305 = 1"
definition KeySize32 :: nat where "KeySize32 = 32"
definition MaxSkippedKeys :: nat where "MaxSkippedKeys = 256"

definition KDF_RK :: "prims \<Rightarrow> bytes \<Rightarrow> bytes \<Rightarrow> bytes \<times> bytes" where
  "KDF_RK P rootKey dhOutput =
     (case hkdf_sha256 P dhOutput rootKey (str_bytes ''BabylonTowerRatchet'') 64 of
        Inl _ \<Rightarrow> (replicate 32 0, replicate 32 0)
      | Inr output \<Rightarrow> (take 32 output, take 32 (drop 32 output)))"

definition KDF_CK :: "prims \<Rightarrow> bytes \<Rightarrow> bytes \<times> bytes" where
  "KDF_CK P chainKey = (hmac_sha256 P chainKey [1], hmac_sha256 P chainKey [2])"

definition DeriveNonce :: "prims \<Rightarrow> bytes \<Rightarrow> u32 \<Rightarrow> bytes res" where
  "DeriveNonce P messageKey counter =
     wrapped ''failed to derive nonce''
       (hkdf_sha256 P messageKey (str_bytes ''nonce'') (le_bytes 4 counter) 12)"

definition generateX25519KeyPair :: "prims \<Rightarrow> bytes res \<Rightarrow> (bytes \<times> bytes) res" where
  "generateX25519KeyPair P rnd =
     rbind (wrapped ''failed to generate random seed'' rnd) (\<lambda>priv.
     rbind (wrapped ''X25519 derivation failed'' (X25519 P priv (Basepoint P))) (\<lambda>pub.
       Inr (priv, pub)))"

section \<open>X3DH\<close>

record X3DHResult =
  x3_SharedSecret :: bytes
  x3_AuthenticatedData :: bytes
  x3_UsedOPKID :: u64
  x3_CipherSuite :: u32
  x3_EphemeralPub :: "bytes option"

text \<open>Step 4 of both sides: the concatenated DH values, with DH4 only if a one-time prekey is used.\<close>

definition x3dh_input :: "bytes \<Rightarrow> bytes \<Rightarrow> bytes \<Rightarrow> bytes option \<Rightarrow> bytes" where
  "x3dh_input dh1 dh2 dh3 dh4 =
     (case dh4 of Some d \<Rightarrow> dh1 @ dh2 @ dh3 @ d | None \<Rightarrow> dh1 @ dh2 @ dh3)"

definition X3DHInitiator ::
  "prims \<Rightarrow> bytes res \<Rightarrow> bytes \<Rightarrow> bytes \<Rightarrow> bytes \<Rightarrow> bytes \<Rightarrow> bytes option \<Rightarrow> X3DHResult res" where
  "X3DHInitiator P rnd localIKDHPriv localIKDHPub remoteIKDHPub remoteSPKPub remoteOPKPub =
     rbind (wrapped ''failed to generate ephemeral key'' (generateX25519KeyPair P rnd)) (\<lambda>(ekPriv, ekPub).
     rbind (wrapped ''DH1 computation failed'' (X25519 P localIKDHPriv remoteSPKPub)) (\<lambda>dh1.
     rbind (wrapped ''DH2 computation failed'' (X25519 P ekPriv remoteIKDHPub)) (\<lambda>dh2.
     rbind (wrapped ''DH3 computation failed'' (X25519 P ekPriv remoteSPKPub)) (\<lambda>dh3.
     rbind (case remoteOPKPub of
              None \<Rightarrow> Inr None
            | Some opk \<Rightarrow> (case X25519 P ekPriv opk of
                  Inl e \<Rightarrow> Inl (Wrap ''DH4 computation failed'' e) | Inr d \<Rightarrow> Inr (Some d))) (\<lambda>dh4.
     rbind (wrapped ''failed to derive shared secret''
              (hkdf_sha256 P (x3dh_input dh1 dh2 dh3 dh4) (replicate KeySize32 0)
                 (str_bytes ''BabylonTowerX3DH'' @ localIKDHPub @ remoteIKDHPub) KeySize32)) (\<lambda>sk.
       Inr \<lparr>x3_SharedSecret = sk,
            x3_AuthenticatedData = localIKDHPub @ remoteIKDHPub,
            x3_UsedOPKID = 0,
            x3_CipherSuite = CipherSuiteXChaCha20Poly1305,
            x3_EphemeralPub = Some ekPub\<rparr>))))))"

definition X3DHResponder ::
  "prims \<Rightarrow> bytes \<Rightarrow> bytes \<Rightarrow> bytes \<Rightarrow> bytes option \<Rightarrow> bytes \<Rightarrow> bytes \<Rightarrow> X3DHResult res" where
  "X3DHResponder P localIKDHPriv localIKDHPub localSPKPriv localOPKPriv remoteIKDHPub ekPub =
     rbind (wrapped ''DH1 computation failed'' (X25519 P localSPKPriv remoteIKDHPub)) (\<lambda>dh1.
     rbind (wrapped ''DH2 computation failed'' (X25519 P localIKDHPriv ekPub)) (\<lambda>dh2.
     rbind (wrapped ''DH3 computation failed'' (X25519 P localSPKPriv ekPub)) (\<lambda>dh3.
     rbind (case localOPKPriv of
              None \<Rightarrow> Inr None
            | Some opk \<Rightarrow> (case X25519 P opk ekPub of
                  Inl e \<Rightarrow> Inl (Wrap ''DH4 computation failed'' e) | Inr d \<Rightarrow> Inr (Some d))) (\<lambda>dh4.
     rbind (wrapped ''failed to derive shared secret''
              (hkdf_sha256 P (x3dh_input dh1 dh2 dh3 dh4) (replicate KeySize32 0)
                 (str_bytes ''BabylonTowerX3DH'' @ remoteIKDHPub @ localIKDHPub) KeySize32)) (\<lambda>sk.
       Inr \<lparr>x3_SharedSecret = sk,
            x3_AuthenticatedData = remoteIKDHPub @ localIKDHPub,
            x3_UsedOPKID = 0,
            x3_CipherSuite = CipherSuiteXChaCha20Poly1305,
            x3_EphemeralPub = None\<rparr>)))))"

section \<open>The session state\<close>

record DoubleRatchetState =
  dr_SessionID :: string
  dr_LocalIdentityPub :: bytes
  dr_RemoteIdentityPub :: bytes
  dr_DHSendingKeyPriv :: "bytes option"
  dr_DHSendingKeyPub :: "bytes option"
  dr_DHReceivingKeyPub :: "bytes option"
  dr_RootKey :: bytes
  dr_SendingChainKey :: "bytes option"
  dr_SendingChainCount :: u32
  dr_PreviousSendingChainLen :: u32
  dr_ReceivingChainKey :: "bytes option"
  dr_ReceivingChainCount :: u32
  dr_SkippedKeys :: "(string, bytes) gomap"
  dr_CreatedAt :: u64
  dr_LastUsedAt :: u64
  dr_CipherSuiteID :: u32
  dr_IsInitiator :: bool

definition NewDoubleRatchetStateInitiator ::
  "prims \<Rightarrow> bytes res \<Rightarrow> u64 \<Rightarrow> string \<Rightarrow> bytes \<Rightarrow> bytes \<Rightarrow> bytes \<Rightarrow> bytes \<Rightarrow> DoubleRatchetState res" where
  "NewDoubleRatchetStateInitiator P rnd now sessionID localIdentityPub remoteIdentityPub sharedSecret remoteSPKPub =
     rbind (wrapped ''failed to generate ratchet key pair'' (generateX25519KeyPair P rnd)) (\<lambda>(priv, pub).
     rbind (wrapped ''initial DH ratchet failed'' (X25519 P priv remoteSPKPub)) (\<lambda>dhOutput.
       (let (newRootKey, newChainKey) = KDF_RK P sharedSecret dhOutput in
        Inr \<lparr>dr_SessionID = sessionID,
             dr_LocalIdentityPub = localIdentityPub,
             dr_RemoteIdentityPub = remoteIdentityPub,
             dr_DHSendingKeyPriv = Some priv,
             dr_DHSendingKeyPub = Some pub,
             dr_DHReceivingKeyPub = Some remoteSPKPub,
             dr_RootKey = newRootKey,
             dr_SendingChainKey = Some newChainKey,
             dr_SendingChainCount = 0,
             dr_PreviousSendingChainLen = 0,
             dr_ReceivingChainKey = None,
             dr_ReceivingChainCount = 0,
             dr_SkippedKeys = [],
             dr_CreatedAt = now,
             dr_LastUsedAt = now,
             dr_CipherSuiteID = CipherSuiteXChaCha20Poly1305,
             dr_IsInitiator = True\<rparr>)))"

definition NewDoubleRatchetStateResponder ::
  "u64 \<Rightarrow> string \<Rightarrow> bytes \<Rightarrow> bytes \<Rightarrow> bytes \<Rightarrow> bytes \<Rightarrow> bytes \<Rightarrow> DoubleRatchetState" where
  "NewDoubleRatchetStateResponder now sessionID localIdentityPub remoteIdentityPub sharedSecret localSPKPriv localSPKPub =
     \<lparr>dr_SessionID = sessionID,
      dr_LocalIdentityPub = localIdentityPub,
      dr_RemoteIdentityPub = remoteIdentityPub,
      dr_DHSendingKeyPriv = Some localSPKPriv,
      dr_DHSendingKeyPub = Some localSPKPub,
      dr_DHReceivingKeyPub = None,
      dr_RootKey = sharedSecret,
      dr_SendingChainKey = None,
      dr_SendingChainCount = 0,
      dr_PreviousSendingChainLen = 0,
      dr_ReceivingChainKey = None,
      dr_ReceivingChainCount = 0,
      dr_SkippedKeys = [],
      dr_CreatedAt = now,
      dr_LastUsedAt = now,
      dr_CipherSuiteID = CipherSuiteXChaCha20Poly1305,
      dr_IsInitiator = False\<rparr>"

section \<open>Lemmas\<close>

lemma generateX25519KeyPair_Inr_iff:
  "generateX25519KeyPair P rnd = Inr (a, A) \<longleftrightarrow> rnd = Inr a \<and> X25519 P a (Basepoint P) = Inr A"
  by (auto simp: generateX25519KeyPair_def rbind_Inr_iff)

lemma DeriveNonce_ok: "key_sizes P \<Longrightarrow> \<exists>n. DeriveNonce P k c = Inr n \<and> length n = 12"
  using key_sizes_hkdf[of P 12] by (fastforce simp: DeriveNonce_def)

lemma length_KDF_CK:
  assumes "key_sizes P"
  shows "length (fst (KDF_CK P k)) = 32" "length (snd (KDF_CK P k)) = 32"
  using assms by (simp_all add: KDF_CK_def key_sizes_simps)

section \<open>Properties\<close>

text \<open>C1. X3DH agreement: when the initiator's handshake succeeds against the responder's published
  identity key, signed prekey and (optionally) one-time prekey, the responder's computation on the
  ephemeral key it receives succeeds too and both hold the same shared secret and the same
  associated data, with or without a one-time prekey.\<close>

theorem x3dh_agreement:
  assumes dh: "dh_commutes P"
    and keys: "X25519 P a (Basepoint P) = Inr A" "X25519 P b (Basepoint P) = Inr B"
      "X25519 P s (Basepoint P) = Inr S"
    and opk: "case (opk, OPK) of (None, None) \<Rightarrow> True
      | (Some k, Some K) \<Rightarrow> X25519 P k (Basepoint P) = Inr K | _ \<Rightarrow> False"
    and init: "X3DHInitiator P rnd a A B S OPK = Inr r1"
  shows "\<exists>r2 E. x3_EphemeralPub r1 = Some E \<and> X3DHResponder P b B s opk A E = Inr r2 \<and>
    x3_SharedSecret r2 = x3_SharedSecret r1 \<and> x3_AuthenticatedData r2 = x3_AuthenticatedData r1"
proof -
  from init obtain e E where e: "X25519 P e (Basepoint P) = Inr E" "rnd = Inr e"
    "generateX25519KeyPair P rnd = Inr (e, E)"
    by (auto simp: X3DHInitiator_def rbind_Inr_iff generateX25519KeyPair_Inr_iff)
  have "X25519 P s A = X25519 P a S" "X25519 P b E = X25519 P e B" "X25519 P s E = X25519 P e S"
    using dh_commutesD[OF dh] keys e(1) by blast+
  moreover have "case (opk, OPK) of (Some k, Some K) \<Rightarrow> X25519 P k E = X25519 P e K | _ \<Rightarrow> True"
    using opk dh_commutesD[OF dh _ e(1)] by (auto split: option.splits)
  ultimately have "\<exists>r2. X3DHResponder P b B s opk A E = Inr r2 \<and>
    x3_SharedSecret r2 = x3_SharedSecret r1 \<and> x3_AuthenticatedData r2 = x3_AuthenticatedData r1"
    using init e opk unfolding X3DHInitiator_def X3DHResponder_def
    by (auto simp: rbind_Inr_iff split: option.splits sum.splits)
  moreover have "x3_EphemeralPub r1 = Some E"
    using init e by (auto simp: X3DHInitiator_def rbind_Inr_iff)
  ultimately show ?thesis by blast
qed

theorem x3dh_agreement_witness:
  "\<exists>r2 E. x3_EphemeralPub (projr (X3DHInitiator toy (Inr (replicate 32 5)) (replicate 32 1) (replicate 32 1)
      (replicate 32 2) (replicate 32 3) (Some (replicate 32 4)))) = Some E \<and>
    X3DHResponder toy (replicate 32 2) (replicate 32 2) (replicate 32 3) (Some (replicate 32 4)) (replicate 32 1) E = Inr r2 \<and>
    x3_SharedSecret r2 = x3_SharedSecret (projr (X3DHInitiator toy (Inr (replicate 32 5)) (replicate 32 1) (replicate 32 1)
      (replicate 32 2) (replicate 32 3) (Some (replicate 32 4)))) \<and>
    x3_AuthenticatedData r2 = x3_AuthenticatedData (projr (X3DHInitiator toy (Inr (replicate 32 5)) (replicate 32 1)
      (replicate 32 1) (replicate 32 2) (replicate 32 3) (Some (replicate 32 4))))"
  by (rule x3dh_agreement[OF toy_dh, where rnd = "Inr (replicate 32 5)" and a = "replicate 32 1"
        and S = "replicate 32 3" and OPK = "Some (replicate 32 4)"])
    (simp_all add: vec_add_zero X3DHInitiator_def generateX25519KeyPair_def)

end
