(* ===== verification/Ratchet.thy ===== *)
theory Ratchet
  imports X3DH
begin

text \<open>
  \<open>pkg/ratchet/ratchet.go\<close>: encryption and decryption of the Double Ratchet, with the symmetric
  chains, the DH ratchet steps and the cache of skipped message keys.

  The methods of \<open>*DoubleRatchetState\<close> mutate the session even when they fail, so each is a
  function from the state to the new state and a result. A nil key pointer that the code slices is
  the \<open>Panic\<close> branch. The loops over chain positions are recursive with the distance to the target
  as measure.
\<close>

section \<open>Messages and skipped keys\<close>

record RatchetHeader =
  rh_DHRatchetPub :: "bytes option"
  rh_PreviousChainLen :: u32
  rh_MessageNumber :: u32

record EncryptedMessage =
  em_Header :: RatchetHeader
  em_Ciphertext :: bytes
  em_Nonce :: bytes

definition skippedKeyString :: "bytes option \<Rightarrow> u32 \<Rightarrow> string" where
  "skippedKeyString dhPub counter =
     (case dhPub of
        None \<Rightarrow> ''nil:'' @ dec_of_nat (unat counter)
      | Some k \<Rightarrow> hex_encode k @ '':'' @ dec_of_nat (unat counter))"

definition getSkippedKey :: "RatchetHeader \<Rightarrow> DoubleRatchetState \<Rightarrow> DoubleRatchetState \<times> bytes option" where
  "getSkippedKey header s =
     (let key = skippedKeyString (rh_DHRatchetPub header) (rh_MessageNumber header);
          skippedKey = gm_get (dr_SkippedKeys s) key
      in (if skippedKey \<noteq> None then s\<lparr>dr_SkippedKeys := gm_del key (dr_SkippedKeys s)\<rparr> else s, skippedKey))"

text \<open>\<open>if len(s.SkippedKeys) < MaxSkippedKeys { s.SkippedKeys[key] = skippedKey }\<close>\<close>

definition cache_key :: "string \<Rightarrow> bytes \<Rightarrow> (string, bytes) gomap \<Rightarrow> (string, bytes) gomap" where
  "cache_key key k m = (if gm_len m < MaxSkippedKeys then gm_set key k m else m)"

section \<open>Symmetric chains\<close>

text \<open>One turn of the loop of \<open>advanceReceivingChain\<close> and of \<open>cacheSkippedKeys\<close>: the two bodies
  differ only in zeroing a key that does not fit the cache.\<close>

definition advance_step :: "prims \<Rightarrow> DoubleRatchetState \<Rightarrow> DoubleRatchetState" where
  "advance_step P s =
     (let (newChainKey, skippedKey) = KDF_CK P (slice (dr_ReceivingChainKey s));
          key = skippedKeyString (dr_DHReceivingKeyPub s) (dr_ReceivingChainCount s)
      in s\<lparr>dr_ReceivingChainKey := Some newChainKey,
           dr_SkippedKeys := cache_key key skippedKey (dr_SkippedKeys s),
           dr_ReceivingChainCount := dr_ReceivingChainCount s + 1\<rparr>)"

lemma advance_step_count [simp]:
  "dr_ReceivingChainCount (advance_step P s) = dr_ReceivingChainCount s + 1"
  by (simp add: advance_step_def KDF_CK_def)

function advance_loop :: "prims \<Rightarrow> u32 \<Rightarrow> DoubleRatchetState \<Rightarrow> DoubleRatchetState" where
  "advance_loop P targetNum s =
     (if dr_ReceivingChainCount s < targetNum then advance_loop P targetNum (advance_step P s) else s)"
  by pat_completeness auto
termination
  by (relation "measure (\<lambda>(P, t, s). unat t - unat (dr_ReceivingChainCount s))")
    (auto simp: unat_Suc_less u_less_unat)

declare advance_loop.simps [simp del]

definition advanceReceivingChain ::
  "prims \<Rightarrow> u32 \<Rightarrow> DoubleRatchetState \<Rightarrow> (DoubleRatchetState, unit) eff" where
  "advanceReceivingChain P targetNum s = (advance_loop P targetNum s, Inr ())"

text \<open>The loop of \<open>skipMessages\<close> keeps its counter and chain key in local variables and writes only
  the cache.\<close>

function skip_loop ::
  "prims \<Rightarrow> bytes option \<Rightarrow> u32 \<Rightarrow> u32 \<Rightarrow> bytes \<Rightarrow> (string, bytes) gomap \<Rightarrow> (string, bytes) gomap" where
  "skip_loop P dhPub targetNum currentCount currentChainKey m =
     (if currentCount < targetNum then
        (let (newChainKey, skippedKey) = KDF_CK P currentChainKey in
         skip_loop P dhPub targetNum (currentCount + 1) newChainKey
           (cache_key (skippedKeyString dhPub currentCount) skippedKey m))
      else m)"
  by pat_completeness auto
termination
  by (relation "measure (\<lambda>(P, d, t, c, k, m). unat t - unat c)")
    (auto simp: unat_Suc_less u_less_unat)

declare skip_loop.simps [simp del]

definition skipMessages ::
  "prims \<Rightarrow> RatchetHeader \<Rightarrow> DoubleRatchetState \<Rightarrow> (DoubleRatchetState, unit) eff" where
  "skipMessages P header s =
     (case dr_ReceivingChainKey s of
        None \<Rightarrow> (s, Inl (Err ''receiving chain not initialized''))
      | Some ck \<Rightarrow>
          (s\<lparr>dr_SkippedKeys := skip_loop P (dr_DHReceivingKeyPub s) (rh_MessageNumber header)
               (dr_ReceivingChainCount s) ck (dr_SkippedKeys s)\<rparr>, Inr ()))"

definition cacheSkippedKeys :: "prims \<Rightarrow> u32 \<Rightarrow> DoubleRatchetState \<Rightarrow> DoubleRatchetState" where
  "cacheSkippedKeys P prevChainLen s =
     (if dr_ReceivingChainKey s = None then s else advance_loop P prevChainLen s)"

section \<open>DH ratchet steps\<close>

definition equalKeys :: "bytes \<Rightarrow> bytes \<Rightarrow> bool" where
  "equalKeys a b = (if length a \<noteq> length b then False else a = b)"

definition dhRatchetSend ::
  "prims \<Rightarrow> bytes res \<Rightarrow> DoubleRatchetState \<Rightarrow> (DoubleRatchetState, unit) eff" where
  "dhRatchetSend P rnd s =
     (case dr_DHReceivingKeyPub s of
        None \<Rightarrow> (s, Inl (Err ''no receiving key set''))
      | Some recvPub \<Rightarrow>
     (case generateX25519KeyPair P rnd of
        Inl e \<Rightarrow> (s, Inl e)
      | Inr (newPriv, newPub) \<Rightarrow>
     (case X25519 P newPriv recvPub of
        Inl e \<Rightarrow> (s, Inl e)
      | Inr dhOutput \<Rightarrow>
          (let (newRootKey, newChainKey) = KDF_RK P (dr_RootKey s) dhOutput in
           (s\<lparr>dr_PreviousSendingChainLen := dr_SendingChainCount s,
              dr_DHSendingKeyPriv := Some newPriv,
              dr_DHSendingKeyPub := Some newPub,
              dr_RootKey := newRootKey,
              dr_SendingChainKey := Some newChainKey,
              dr_SendingChainCount := 0\<rparr>, Inr ())))))"

definition dhRatchetReceive ::
  "prims \<Rightarrow> bytes res \<Rightarrow> u32 \<Rightarrow> bytes \<Rightarrow> DoubleRatchetState \<Rightarrow> (DoubleRatchetState, unit) eff" where
  "dhRatchetReceive P rnd prevChainLen headerPub s =
     (let s1 = cacheSkippedKeys P prevChainLen s in
      case dr_DHSendingKeyPriv s1 of
        None \<Rightarrow> (s1, Inl (Panic ''nil pointer dereference''))
      | Some priv \<Rightarrow>
     (case X25519 P priv headerPub of
        Inl e \<Rightarrow> (s1, Inl e)
      | Inr dhOutput \<Rightarrow>
          (let (newRootKey, newChainKey) = KDF_RK P (dr_RootKey s1) dhOutput in
           dhRatchetSend P rnd
             (s1\<lparr>dr_RootKey := newRootKey,
                 dr_ReceivingChainKey := Some newChainKey,
                 dr_ReceivingChainCount := 0,
                 dr_DHReceivingKeyPub := Some headerPub\<rparr>))))"

section \<open>Encrypt and Decrypt\<close>

definition Encrypt ::
  "prims \<Rightarrow> bytes res \<Rightarrow> u64 \<Rightarrow> bytes \<Rightarrow> bytes \<Rightarrow> DoubleRatchetState \<Rightarrow> (DoubleRatchetState, EncryptedMessage) eff" where
  "Encrypt P rnd now plaintext associatedData s =
     (case (if dr_SendingChainKey s = None then dhRatchetSend P rnd s else (s, Inr ())) of
        (s1, Inl e) \<Rightarrow> (s1, Inl (Wrap ''DH ratchet failed'' e))
      | (s1, Inr _) \<Rightarrow>
     (let (newChainKey, messageKey) = KDF_CK P (slice (dr_SendingChainKey s1));
          s2 = s1\<lparr>dr_SendingChainKey := Some newChainKey\<rparr>
      in case DeriveNonce P messageKey (dr_SendingChainCount s2) of
        Inl e \<Rightarrow> (s2, Inl e)
      | Inr nonce \<Rightarrow>
     (case chacha_new P messageKey of
        Inl e \<Rightarrow> (s2, Inl (Wrap ''failed to create AEAD'' e))
      | Inr _ \<Rightarrow>
     (let ciphertext = chacha_seal P messageKey nonce plaintext associatedData;
          header = \<lparr>rh_DHRatchetPub = dr_DHSendingKeyPub s2,
                    rh_PreviousChainLen = dr_PreviousSendingChainLen s2,
                    rh_MessageNumber = dr_SendingChainCount s2\<rparr>
      in (s2\<lparr>dr_SendingChainCount := dr_SendingChainCount s2 + 1, dr_LastUsedAt := now\<rparr>,
          Inr \<lparr>em_Header = header, em_Ciphertext = ciphertext, em_Nonce = nonce\<rparr>)))))"

definition decryptWithKey :: "prims \<Rightarrow> bytes \<Rightarrow> u32 \<Rightarrow> bytes \<Rightarrow> bytes \<Rightarrow> bytes res" where
  "decryptWithKey P messageKey counter ciphertext associatedData =
     rbind (DeriveNonce P messageKey counter) (\<lambda>nonce.
     rbind (chacha_new P messageKey) (\<lambda>_.
     wrapped ''decryption failed'' (chacha_open P messageKey nonce ciphertext associatedData)))"

text \<open>The part of \<open>Decrypt\<close> before the skipped-key lookup.\<close>

definition decrypt_ratchet ::
  "prims \<Rightarrow> bytes res \<Rightarrow> RatchetHeader \<Rightarrow> DoubleRatchetState \<Rightarrow> (DoubleRatchetState, unit) eff" where
  "decrypt_ratchet P rnd header s =
     (case rh_DHRatchetPub header of
        None \<Rightarrow> (s, Inr ())
      | Some headerPub \<Rightarrow>
     (case dr_DHReceivingKeyPub s of
        Some recvPub \<Rightarrow>
          (if \<not> equalKeys headerPub recvPub then
             (case dhRatchetReceive P rnd (rh_PreviousChainLen header) headerPub s of
                (s1, Inl e) \<Rightarrow> (s1, Inl (Wrap ''DH ratchet failed'' e))
              | (s1, Inr _) \<Rightarrow> (s1, Inr ()))
           else (s, Inr ()))
      | None \<Rightarrow>
          (let s1 = s\<lparr>dr_DHReceivingKeyPub := Some headerPub\<rparr> in
           case dr_DHSendingKeyPriv s1 of
             None \<Rightarrow> (s1, Inl (Panic ''nil pointer dereference''))
           | Some priv \<Rightarrow>
          (case X25519 P priv headerPub of
             Inl e \<Rightarrow> (s1, Inl (Wrap ''initial DH ratchet failed'' e))
           | Inr dhOutput \<Rightarrow>
               (let (newRootKey, newChainKey) = KDF_RK P (dr_RootKey s1) dhOutput in
                (s1\<lparr>dr_RootKey := newRootKey,
                    dr_ReceivingChainKey := Some newChainKey,
                    dr_ReceivingChainCount := 0\<rparr>, Inr ()))))))"

text \<open>The part of \<open>Decrypt\<close> after the skipped-key lookup: catch up with the chain, take the next
  message key and open the ciphertext with it.\<close>

definition decrypt_chain ::
  "prims \<Rightarrow> u64 \<Rightarrow> RatchetHeader \<Rightarrow> bytes \<Rightarrow> bytes \<Rightarrow> DoubleRatchetState \<Rightarrow> (DoubleRatchetState, bytes) eff" where
  "decrypt_chain P now header ciphertext associatedData s =
     (case (if rh_MessageNumber header > dr_ReceivingChainCount s then skipMessages P header s else (s, Inr ())) of
        (s1, Inl e) \<Rightarrow> (s1, Inl (Wrap ''failed to skip messages'' e))
      | (s1, Inr _) \<Rightarrow>
     (case advanceReceivingChain P (rh_MessageNumber header) s1 of
        (s2, Inl e) \<Rightarrow> (s2, Inl (Wrap ''failed to advance chain'' e))
      | (s2, Inr _) \<Rightarrow>
     (let (newChainKey, messageKey) = KDF_CK P (slice (dr_ReceivingChainKey s2)) in
      (s2\<lparr>dr_ReceivingChainKey := Some newChainKey,
          dr_ReceivingChainCount := dr_ReceivingChainCount s2 + 1,
          dr_LastUsedAt := now\<rparr>,
       decryptWithKey P messageKey (rh_MessageNumber header) ciphertext associatedData))))"

definition Decrypt ::
  "prims \<Rightarrow> bytes res \<Rightarrow> u64 \<Rightarrow> RatchetHeader \<Rightarrow> bytes \<Rightarrow> bytes \<Rightarrow> DoubleRatchetState \<Rightarrow> (DoubleRatchetState, bytes) eff" where
  "Decrypt P rnd now header ciphertext associatedData s =
     (case decrypt_ratchet P rnd header s of
        (s1, Inl e) \<Rightarrow> (s1, Inl e)
      | (s1, Inr _) \<Rightarrow>
     (case getSkippedKey header s1 of
        (s2, None) \<Rightarrow> decrypt_chain P now header ciphertext associatedData s2
      | (s2, Some skippedKey) \<Rightarrow>
     (case decryptWithKey P skippedKey (rh_MessageNumber header) ciphertext associatedData of
        Inr plaintext \<Rightarrow> (s2, Inr plaintext)
      | Inl _ \<Rightarrow> decrypt_chain P now header ciphertext associatedData s2)))"

section \<open>Serializable form\<close>

record SkippedKey =
  sk_DHRatchetPub :: bytes
  sk_Counter :: u32
  sk_Key :: bytes

record SessionState =
  ss_SessionID :: string
  ss_LocalIdentityPub :: bytes
  ss_RemoteIdentityPub :: bytes
  ss_DHSendingKeyPub :: "bytes option"
  ss_DHReceivingPub :: "bytes option"
  ss_RootKey :: bytes
  ss_SendingChainKey :: "bytes option"
  ss_SendingChainCounter :: u32
  ss_ReceivingChainKey :: "bytes option"
  ss_ReceivingChainCounter :: u32
  ss_SkippedKeys :: "SkippedKey list"
  ss_CreatedAt :: u64
  ss_LastUsedAt :: u64
  ss_CipherSuiteID :: u32
  ss_IsInitiator :: bool

definition GetSessionState :: "DoubleRatchetState \<Rightarrow> SessionState" where
  "GetSessionState s =
     \<lparr>ss_SessionID = dr_SessionID s,
      ss_LocalIdentityPub = dr_LocalIdentityPub s,
      ss_RemoteIdentityPub = dr_RemoteIdentityPub s,
      ss_DHSendingKeyPub = dr_DHSendingKeyPub s,
      ss_DHReceivingPub = dr_DHReceivingKeyPub s,
      ss_RootKey = dr_RootKey s,
      ss_SendingChainKey = dr_SendingChainKey s,
      ss_SendingChainCounter = dr_SendingChainCount s,
      ss_ReceivingChainKey = dr_ReceivingChainKey s,
      ss_ReceivingChainCounter = dr_ReceivingChainCount s,
      ss_SkippedKeys = map (\<lambda>(_, key). \<lparr>sk_DHRatchetPub = [], sk_Counter = 0, sk_Key = key\<rparr>) (dr_SkippedKeys s),
      ss_CreatedAt = dr_CreatedAt s,
      ss_LastUsedAt = dr_LastUsedAt s,
      ss_CipherSuiteID = dr_CipherSuiteID s,
      ss_IsInitiator = dr_IsInitiator s\<rparr>"

section \<open>Lemmas on skipped keys and chains\<close>

lemma skippedKeyString_inj:
  "skippedKeyString (Some a) i = skippedKeyString (Some b) j \<longleftrightarrow> a = b \<and> i = j"
proof
  assume "skippedKeyString (Some a) i = skippedKeyString (Some b) j"
  then have "hex_encode a = hex_encode b \<and> dec_of_nat (unat i) = dec_of_nat (unat j)"
    using append_sep_inj[of "CHR '':''" "hex_encode a" "hex_encode b" "dec_of_nat (unat i)" "dec_of_nat (unat j)"]
    by (simp add: skippedKeyString_def hex_encode_no_colon)
  then show "a = b \<and> i = j" by (simp add: word_unat_eq_iff)
qed simp

text \<open>The chain a sender and a receiver walk: the \<open>n\<close>-th chain key and the \<open>n\<close>-th message key.\<close>

fun chain_key :: "prims \<Rightarrow> bytes \<Rightarrow> nat \<Rightarrow> bytes" where
  "chain_key P k 0 = k"
| "chain_key P k (Suc n) = fst (KDF_CK P (chain_key P k n))"

definition msg_key :: "prims \<Rightarrow> bytes \<Rightarrow> nat \<Rightarrow> bytes" where
  "msg_key P k n = snd (KDF_CK P (chain_key P k n))"

lemma KDF_CK_chain: "KDF_CK P (chain_key P k n) = (chain_key P k (Suc n), msg_key P k n)"
  by (simp add: msg_key_def)

lemma length_msg_key: "key_sizes P \<Longrightarrow> length (msg_key P k n) = 32"
  by (simp add: msg_key_def length_KDF_CK)

lemma decryptWithKey_sealed:
  assumes "key_sizes P" "aead_correct P" "length k = 32" "DeriveNonce P k c = Inr n"
  shows "decryptWithKey P k c (chacha_seal P k n m a) a = Inr m"
proof -
  have "length n = 12" using DeriveNonce_ok[OF assms(1), of k c] assms(4) by auto
  then show ?thesis
    using assms by (simp add: decryptWithKey_def key_sizes_simps aead_open_seal)
qed

end
