(* ===== verification/RatchetDelivery.thy ===== *)
theory RatchetDelivery
  imports Ratchet
begin

text \<open>
  Delivery on one sending chain of the Double Ratchet, in any order.

  The abstract receiver is the set \<open>D\<close> of chain positions already delivered. \<open>recv_inv\<close> relates it
  to the session: the receiving chain stands at its counter, and the cache holds exactly the keys of
  the positions passed over and not yet delivered. One \<open>Decrypt\<close> refines "insert this position";
  from it follow delivery in every order and the bound of the cache.
\<close>

section \<open>Sequences of messages\<close>

fun encrypt_all ::
  "prims \<Rightarrow> bytes res \<Rightarrow> u64 \<Rightarrow> bytes \<Rightarrow> bytes list \<Rightarrow> DoubleRatchetState \<Rightarrow> EncryptedMessage res list" where
  "encrypt_all P rnd now ad [] s = []"
| "encrypt_all P rnd now ad (m # ms) s =
     (case Encrypt P rnd now m ad s of (s', r) \<Rightarrow> r # encrypt_all P rnd now ad ms s')"

fun decrypt_all ::
  "prims \<Rightarrow> bytes res \<Rightarrow> u64 \<Rightarrow> bytes \<Rightarrow> EncryptedMessage list \<Rightarrow> DoubleRatchetState \<Rightarrow> bytes res list" where
  "decrypt_all P rnd now ad [] s = []"
| "decrypt_all P rnd now ad (m # ms) s =
     (case Decrypt P rnd now (em_Header m) (em_Ciphertext m) ad s of
        (s', r) \<Rightarrow> r # decrypt_all P rnd now ad ms s')"

text \<open>\<open>msg\<close> is what a sender with ratchet key \<open>pub\<close> puts on the wire at position \<open>n\<close> of the chain
  that starts at \<open>k0\<close>.\<close>

definition sealed_at ::
  "prims \<Rightarrow> bytes \<Rightarrow> bytes \<Rightarrow> nat \<Rightarrow> bytes \<Rightarrow> bytes \<Rightarrow> EncryptedMessage \<Rightarrow> bool" where
  "sealed_at P pub k0 n m ad msg \<longleftrightarrow>
     rh_DHRatchetPub (em_Header msg) = Some pub \<and> rh_MessageNumber (em_Header msg) = of_nat n \<and>
     (\<exists>nonce. DeriveNonce P (msg_key P k0 n) (of_nat n) = Inr nonce \<and>
        em_Ciphertext msg = chacha_seal P (msg_key P k0 n) nonce m ad)"

section \<open>The cache of skipped keys\<close>

text \<open>The cache holds the keys of the positions below \<open>hi\<close> that are not in \<open>D\<close>, and \<open>L\<close> keys of
  other chains.\<close>

definition cached ::
  "prims \<Rightarrow> bytes \<Rightarrow> bytes \<Rightarrow> nat \<Rightarrow> nat set \<Rightarrow> nat \<Rightarrow> (string, bytes) gomap \<Rightarrow> bool" where
  "cached P pub k0 L D hi m \<longleftrightarrow> gm_ok m \<and>
     (\<forall>i::u32. gm_get m (skippedKeyString (Some pub) i) =
        (if unat i < hi \<and> unat i \<notin> D then Some (msg_key P k0 (unat i)) else None)) \<and>
     gm_len m = L + (hi - card D)"

definition recv_inv ::
  "prims \<Rightarrow> bytes \<Rightarrow> bytes \<Rightarrow> nat \<Rightarrow> nat set \<Rightarrow> DoubleRatchetState \<Rightarrow> bool" where
  "recv_inv P pub k0 L D s \<longleftrightarrow>
     dr_DHReceivingKeyPub s = Some pub \<and>
     dr_ReceivingChainKey s = Some (chain_key P k0 (unat (dr_ReceivingChainCount s))) \<and>
     D \<subseteq> {..<unat (dr_ReceivingChainCount s)} \<and>
     cached P pub k0 L D (unat (dr_ReceivingChainCount s)) (dr_SkippedKeys s)"

lemma card_below: "D \<subseteq> {..<n} \<Longrightarrow> card D \<le> (n::nat)"
  by (metis card_lessThan card_mono finite_lessThan)

lemma cached_extend:
  assumes "cached P pub k0 L D (unat c) m" "D \<subseteq> {..<unat c}" "L + (Suc (unat c) - card D) \<le> MaxSkippedKeys"
    and "unat (c + 1) = Suc (unat c)"
  shows "cached P pub k0 L D (unat (c + 1)) (cache_key (skippedKeyString (Some pub) c) (msg_key P k0 (unat c)) m)"
proof -
  have le: "card D \<le> unat c" and c: "unat c \<notin> D" using assms(2) card_below by auto
  then have "gm_len m < MaxSkippedKeys" using assms(1,3) by (simp add: cached_def)
  moreover have "i = c \<longleftrightarrow> unat i = unat c" for i by (rule word_unat_eq_iff)
  ultimately show ?thesis
    using assms le c unfolding cached_def cache_key_def
    by (auto simp: skippedKeyString_inj gm_len_set less_Suc_eq)
qed

lemma cached_again:
  assumes "cached P pub k0 L D hi m" "unat c < hi" "unat c \<notin> D"
  shows "cached P pub k0 L D hi (cache_key (skippedKeyString (Some pub) c) (msg_key P k0 (unat c)) m)"
  using assms unfolding cached_def cache_key_def by (auto simp: skippedKeyString_inj gm_len_set)

lemma cached_deliver_old:
  assumes "cached P pub k0 L D hi m" "unat c < hi" "unat c \<notin> D" "D \<subseteq> {..<hi}"
  shows "cached P pub k0 L (insert (unat c) D) hi (gm_del (skippedKeyString (Some pub) c) m)"
proof -
  have fin: "finite D" using assms(4) finite_subset by blast
  have "card (insert (unat c) D) \<le> hi" using assms(2,4) by (intro card_below) auto
  then have "Suc (card D) \<le> hi" using fin assms(3) by simp
  moreover have "i = c \<longleftrightarrow> unat i = unat c" for i by (rule word_unat_eq_iff)
  ultimately show ?thesis
    using assms fin unfolding cached_def by (auto simp: skippedKeyString_inj gm_len_del)
qed

lemma cached_deliver_next:
  assumes "cached P pub k0 L D n m" "D \<subseteq> {..<n}"
  shows "cached P pub k0 L (insert n D) (Suc n) m"
proof -
  have "finite D" "n \<notin> D" using assms(2) finite_subset by auto
  then show ?thesis using assms unfolding cached_def by (auto simp: less_Suc_eq)
qed

section \<open>The loops\<close>

lemma skip_loop_cached:
  assumes "cached P pub k0 L D (unat c) m" "D \<subseteq> {..<unat c}" "c \<le> t"
    "L + (unat t - card D) \<le> MaxSkippedKeys"
  shows "cached P pub k0 L D (unat t) (skip_loop P (Some pub) t c (chain_key P k0 (unat c)) m)"
  using assms
proof (induction "unat t - unat c" arbitrary: c m)
  case 0
  then have "c = t" by (simp add: word_le_nat_alt word_unat_eq_iff)
  then show ?case using 0 by (subst skip_loop.simps) simp
next
  case (Suc d)
  then have lt: "c < t" by (simp add: u_less_unat)
  then have suc: "unat (c + 1) = Suc (unat c)" by (rule unat_Suc_less)
  have le: "Suc (unat c) \<le> unat t" using lt by (simp add: u_less_unat)
  have "cached P pub k0 L D (unat (c + 1)) (cache_key (skippedKeyString (Some pub) c) (msg_key P k0 (unat c)) m)"
    using Suc.prems suc le by (intro cached_extend) auto
  then have "cached P pub k0 L D (unat t) (skip_loop P (Some pub) t (c + 1) (chain_key P k0 (unat (c + 1)))
      (cache_key (skippedKeyString (Some pub) c) (msg_key P k0 (unat c)) m))"
    using Suc suc le by (intro Suc.hyps(1)) (auto simp: word_le_nat_alt)
  then show ?case
    using lt suc by (subst skip_loop.simps) (simp add: KDF_CK_chain del: chain_key.simps)
qed

lemma advance_loop_cached:
  assumes "dr_DHReceivingKeyPub s = Some pub" "dr_ReceivingChainCount s \<le> t"
    "dr_ReceivingChainKey s = Some (chain_key P k0 (unat (dr_ReceivingChainCount s)))"
    "D \<subseteq> {..<unat (dr_ReceivingChainCount s)}" "cached P pub k0 L D (unat t) (dr_SkippedKeys s)"
  shows "recv_inv P pub k0 L D (advance_loop P t s) \<and> dr_ReceivingChainCount (advance_loop P t s) = t"
  using assms
proof (induction "unat t - unat (dr_ReceivingChainCount s)" arbitrary: s)
  case 0
  then have "dr_ReceivingChainCount s = t" by (simp add: word_le_nat_alt word_unat_eq_iff)
  then show ?case using 0 by (subst (1 2) advance_loop.simps) (simp add: recv_inv_def)
next
  case (Suc d)
  let ?c = "dr_ReceivingChainCount s"
  have lt: "?c < t" using Suc.hyps(2) by (simp add: u_less_unat)
  then have suc: "unat (?c + 1) = Suc (unat ?c)" by (rule unat_Suc_less)
  have lt': "unat ?c < unat t" using lt by (simp add: u_less_unat)
  have step: "advance_step P s = s\<lparr>dr_ReceivingChainKey := Some (chain_key P k0 (unat (?c + 1))),
      dr_SkippedKeys := cache_key (skippedKeyString (Some pub) ?c) (msg_key P k0 (unat ?c)) (dr_SkippedKeys s),
      dr_ReceivingChainCount := ?c + 1\<rparr>"
    using Suc.prems suc by (simp add: advance_step_def KDF_CK_chain del: chain_key.simps)
  have "cached P pub k0 L D (unat t)
      (cache_key (skippedKeyString (Some pub) ?c) (msg_key P k0 (unat ?c)) (dr_SkippedKeys s))"
    using Suc.prems lt' by (intro cached_again) auto
  then have "recv_inv P pub k0 L D (advance_loop P t (advance_step P s)) \<and>
      dr_ReceivingChainCount (advance_loop P t (advance_step P s)) = t"
    using Suc.hyps(2) Suc.prems suc lt' unfolding step
    by (intro Suc.hyps(1)) (auto simp: word_le_nat_alt less_Suc_eq)
  then show ?case using lt by (subst (1 2) advance_loop.simps) simp
qed

section \<open>One delivery\<close>

lemma opens_sealed:
  assumes "key_sizes P" "aead_correct P" "sealed_at P pub k0 n m ad msg"
  shows "decryptWithKey P (msg_key P k0 n) (of_nat n) (em_Ciphertext msg) ad = Inr m"
  using assms by (auto simp: sealed_at_def decryptWithKey_sealed length_msg_key)

lemma decrypt_chain_new:
  assumes inv: "recv_inv P pub k0 L D s" and laws: "key_sizes P" "aead_correct P"
    and msg: "sealed_at P pub k0 n m ad msg"
    and n: "Suc n < 2 ^ 32" "unat (dr_ReceivingChainCount s) \<le> n" "L + (n - card D) \<le> MaxSkippedKeys"
  shows "\<exists>s'. decrypt_chain P now (em_Header msg) (em_Ciphertext msg) ad s = (s', Inr m) \<and>
    recv_inv P pub k0 L (insert n D) s'"
proof -
  let ?c = "dr_ReceivingChainCount s" and ?t = "of_nat n :: u32"
  have t: "unat ?t = n" using n(1) by (simp add: unat_of_nat_u32)
  have t1: "unat (?t + 1) = Suc n" using n(1) t by (simp add: unat_word_ariths)
  define s1 where "s1 = (if ?t > ?c then s\<lparr>dr_SkippedKeys := skip_loop P (Some pub) ?t ?c
      (chain_key P k0 (unat ?c)) (dr_SkippedKeys s)\<rparr> else s)"
  have "cached P pub k0 L D (unat ?t) (dr_SkippedKeys s1)"
  proof (cases "?t > ?c")
    case True
    then show ?thesis
      using inv n(3) t skip_loop_cached[of P pub k0 L D ?c _ ?t] by (simp add: s1_def recv_inv_def)
  next
    case False
    then have "?c = ?t" using n(2) t by (simp add: u_less_unat word_unat_eq_iff)
    then show ?thesis using inv by (simp add: s1_def recv_inv_def)
  qed
  then have "recv_inv P pub k0 L D (advance_loop P ?t s1) \<and> dr_ReceivingChainCount (advance_loop P ?t s1) = ?t"
    using inv n(2) t by (intro advance_loop_cached) (auto simp: s1_def recv_inv_def word_le_nat_alt)
  then have adv: "recv_inv P pub k0 L D (advance_loop P ?t s1)"
    "dr_ReceivingChainCount (advance_loop P ?t s1) = ?t" by simp_all
  have eq: "decrypt_chain P now (em_Header msg) (em_Ciphertext msg) ad s =
    ((advance_loop P ?t s1)\<lparr>dr_ReceivingChainKey := Some (chain_key P k0 (Suc n)),
       dr_ReceivingChainCount := ?t + 1, dr_LastUsedAt := now\<rparr>,
     decryptWithKey P (msg_key P k0 n) ?t (em_Ciphertext msg) ad)"
    using inv adv msg t unfolding s1_def
    by (auto simp: decrypt_chain_def skipMessages_def advanceReceivingChain_def recv_inv_def sealed_at_def
        KDF_CK_chain simp del: chain_key.simps)
  moreover have "decryptWithKey P (msg_key P k0 n) ?t (em_Ciphertext msg) ad = Inr m"
    using opens_sealed[OF laws msg] .
  ultimately show ?thesis
    using adv t t1 cached_deliver_next[of P pub k0 L D n]
    by (auto simp: recv_inv_def less_Suc_eq simp del: chain_key.simps)
qed

lemma Decrypt_delivers:
  assumes inv: "recv_inv P pub k0 L D s" and laws: "key_sizes P" "aead_correct P"
    and msg: "sealed_at P pub k0 n m ad msg"
    and n: "Suc n < 2 ^ 32" "n \<notin> D" "L + (n - card D) \<le> MaxSkippedKeys"
  shows "\<exists>s'. Decrypt P rnd now (em_Header msg) (em_Ciphertext msg) ad s = (s', Inr m) \<and>
    recv_inv P pub k0 L (insert n D) s'"
proof -
  let ?t = "of_nat n :: u32"
  have t: "unat ?t = n" using n(1) by (simp add: unat_of_nat_u32)
  have ratchet: "decrypt_ratchet P rnd (em_Header msg) s = (s, Inr ())"
    using inv msg by (simp add: decrypt_ratchet_def recv_inv_def sealed_at_def equalKeys_def)
  have get: "gm_get (dr_SkippedKeys s) (skippedKeyString (Some pub) ?t) =
      (if n < unat (dr_ReceivingChainCount s) then Some (msg_key P k0 n) else None)"
    using inv n(2) t by (simp add: recv_inv_def cached_def)
  show ?thesis
  proof (cases "n < unat (dr_ReceivingChainCount s)")
    case True
    have "decryptWithKey P (msg_key P k0 n) ?t (em_Ciphertext msg) ad = Inr m"
      using opens_sealed[OF laws msg] .
    then have "Decrypt P rnd now (em_Header msg) (em_Ciphertext msg) ad s =
        (s\<lparr>dr_SkippedKeys := gm_del (skippedKeyString (Some pub) ?t) (dr_SkippedKeys s)\<rparr>, Inr m)"
      using ratchet get msg True by (simp add: Decrypt_def getSkippedKey_def sealed_at_def)
    moreover have "cached P pub k0 L (insert n D) (unat (dr_ReceivingChainCount s))
        (gm_del (skippedKeyString (Some pub) ?t) (dr_SkippedKeys s))"
      using cached_deliver_old[of P pub k0 L D _ _ ?t] inv n(2) t True by (simp add: recv_inv_def)
    ultimately show ?thesis using inv True by (simp add: recv_inv_def)
  next
    case False
    then have "Decrypt P rnd now (em_Header msg) (em_Ciphertext msg) ad s =
        decrypt_chain P now (em_Header msg) (em_Ciphertext msg) ad s"
      using ratchet get msg by (simp add: Decrypt_def getSkippedKey_def sealed_at_def)
    then show ?thesis using decrypt_chain_new[OF inv laws msg n(1) _ n(3)] False by simp
  qed
qed

section \<open>The sender\<close>

lemma Encrypt_seals:
  assumes "key_sizes P" "dr_SendingChainKey s = Some (chain_key P k0 n)" "dr_SendingChainCount s = of_nat n"
    "dr_DHSendingKeyPub s = Some pub"
  shows "\<exists>s' msg. Encrypt P rnd now m ad s = (s', Inr msg) \<and> sealed_at P pub k0 n m ad msg \<and>
    dr_SendingChainKey s' = Some (chain_key P k0 (Suc n)) \<and> dr_SendingChainCount s' = of_nat (Suc n) \<and>
    dr_DHSendingKeyPub s' = Some pub"
proof -
  obtain nonce where "DeriveNonce P (msg_key P k0 n) (of_nat n) = Inr nonce"
    using DeriveNonce_ok[OF assms(1)] by blast
  moreover have "chacha_new P (msg_key P k0 n) = Inr ()"
    using assms(1) by (simp add: key_sizes_simps length_msg_key)
  ultimately show ?thesis
    using assms by (simp add: Encrypt_def KDF_CK_chain sealed_at_def add.commute del: chain_key.simps)
qed

lemma encrypt_all_seals:
  assumes "key_sizes P" "dr_SendingChainKey s = Some (chain_key P k0 n)" "dr_SendingChainCount s = of_nat n"
    "dr_DHSendingKeyPub s = Some pub"
  shows "\<exists>msgs. encrypt_all P rnd now ad ms s = map Inr msgs \<and> length msgs = length ms \<and>
    (\<forall>i < length ms. sealed_at P pub k0 (n + i) (ms ! i) ad (msgs ! i))"
  using assms(2-)
proof (induction ms arbitrary: s n)
  case Nil
  then show ?case by simp
next
  case (Cons m ms)
  obtain s' msg where s': "Encrypt P rnd now m ad s = (s', Inr msg)" "sealed_at P pub k0 n m ad msg"
    "dr_SendingChainKey s' = Some (chain_key P k0 (Suc n))" "dr_SendingChainCount s' = of_nat (Suc n)"
    "dr_DHSendingKeyPub s' = Some pub"
    using Encrypt_seals[OF assms(1) Cons.prems] by blast
  obtain msgs where msgs: "encrypt_all P rnd now ad ms s' = map Inr msgs" "length msgs = length ms"
    "\<forall>i < length ms. sealed_at P pub k0 (Suc n + i) (ms ! i) ad (msgs ! i)"
    using Cons.IH[OF s'(3-5)] by blast
  have "\<forall>i < length (m # ms). sealed_at P pub k0 (n + i) ((m # ms) ! i) ad ((msg # msgs) ! i)"
    using s'(2) msgs(3) by (auto simp: less_Suc_eq_0_disj)
  then show ?case using s'(1) msgs by (intro exI[of _ "msg # msgs"]) simp
qed

section \<open>Any order\<close>

lemma decrypt_all_any_order:
  assumes laws: "key_sizes P" "aead_correct P"
    and msgs: "\<forall>i < N. sealed_at P pub k0 i (ms ! i) ad (msgs ! i)" "L + N \<le> MaxSkippedKeys"
    and "recv_inv P pub k0 L D s" "distinct order" "set order \<subseteq> {..<N}" "set order \<inter> D = {}"
  shows "decrypt_all P rnd now ad (map ((!) msgs) order) s = map (\<lambda>i. Inr (ms ! i)) order"
  using assms(5-)
proof (induction order arbitrary: s D)
  case Nil
  then show ?case by simp
next
  case (Cons i order)
  have i: "i < N" "Suc i < 2 ^ 32" using Cons.prems msgs(2) by (auto simp: MaxSkippedKeys_def)
  have "L + (i - card D) \<le> MaxSkippedKeys" using i(1) msgs(2) by simp
  then obtain s' where s': "Decrypt P rnd now (em_Header (msgs ! i)) (em_Ciphertext (msgs ! i)) ad s = (s', Inr (ms ! i))"
    "recv_inv P pub k0 L (insert i D) s'"
    using Decrypt_delivers[OF Cons.prems(1) laws _ i(2)] msgs(1) i(1) Cons.prems(4) by (meson disjoint_iff list.set_intros(1))
  have "decrypt_all P rnd now ad (map ((!) msgs) order) s' = map (\<lambda>i. Inr (ms ! i)) order"
    using Cons.IH[OF s'(2)] Cons.prems by auto
  then show ?case using s'(1) by simp
qed

end
