(* ===== verification/RatchetSession.thy ===== *)
theory RatchetSession
  imports RatchetDelivery
begin

text \<open>
  Whole sessions of the Double Ratchet: from the constructors of both parties, through any
  conversation, to what a replayed or late message does to the state.

  A conversation is a list of turns; in each, one party encrypts and the other decrypts. Between
  turns a session is in one of three phases: \<open>initial\<close> (nothing sent), \<open>opened\<close> (only the initiator
  has sent), \<open>turned X Y\<close> (X follows Y's sending chain and holds a new ratchet key Y has not seen).
\<close>

section \<open>Conversations\<close>

record turn =
  t_fromA :: bool
  t_msg :: bytes
  t_ad :: bytes
  t_rndE :: bytes
  t_rndD :: bytes
  t_now :: u64

definition transmit ::
  "prims \<Rightarrow> turn \<Rightarrow> DoubleRatchetState \<Rightarrow> DoubleRatchetState \<Rightarrow> (DoubleRatchetState \<times> DoubleRatchetState) \<times> bytes res" where
  "transmit P t X Y =
     (case Encrypt P (Inr (t_rndE t)) (t_now t) (t_msg t) (t_ad t) X of
        (X', Inl e) \<Rightarrow> ((X', Y), Inl e)
      | (X', Inr msg) \<Rightarrow>
          (case Decrypt P (Inr (t_rndD t)) (t_now t) (em_Header msg) (em_Ciphertext msg) (t_ad t) Y of
             (Y', r) \<Rightarrow> ((X', Y'), r)))"

fun converse :: "prims \<Rightarrow> turn list \<Rightarrow> DoubleRatchetState \<Rightarrow> DoubleRatchetState \<Rightarrow> bytes res list" where
  "converse P [] A B = []"
| "converse P (t # ts) A B =
     (if t_fromA t then (case transmit P t A B of ((A', B'), r) \<Rightarrow> r # converse P ts A' B')
      else (case transmit P t B A of ((B', A'), r) \<Rightarrow> r # converse P ts A' B'))"

definition turn_keys :: "turn list \<Rightarrow> bytes list" where
  "turn_keys ts = concat (map (\<lambda>t. [t_rndE t, t_rndD t]) ts)"

text \<open>X25519 succeeds on the keys of the session (it fails only on low-order points), and different
  private keys have different public keys.\<close>

definition dh_total :: "prims \<Rightarrow> bytes set \<Rightarrow> bool" where
  "dh_total P ks \<longleftrightarrow> (\<forall>x\<in>ks. is_ok (X25519 P x (Basepoint P)) \<and>
     (\<forall>y\<in>ks. \<forall>Y. X25519 P y (Basepoint P) = Inr Y \<longrightarrow> is_ok (X25519 P x Y)))"

section \<open>Single steps\<close>

lemma Encrypt_next:
  assumes "key_sizes P" "dr_SendingChainKey s = Some ck"
  shows "\<exists>nonce. DeriveNonce P (snd (KDF_CK P ck)) (dr_SendingChainCount s) = Inr nonce \<and>
    Encrypt P rnd now m ad s =
      (s\<lparr>dr_SendingChainKey := Some (fst (KDF_CK P ck)), dr_SendingChainCount := dr_SendingChainCount s + 1,
         dr_LastUsedAt := now\<rparr>,
       Inr \<lparr>em_Header = \<lparr>rh_DHRatchetPub = dr_DHSendingKeyPub s,
              rh_PreviousChainLen = dr_PreviousSendingChainLen s, rh_MessageNumber = dr_SendingChainCount s\<rparr>,
            em_Ciphertext = chacha_seal P (snd (KDF_CK P ck)) nonce m ad, em_Nonce = nonce\<rparr>)"
proof -
  obtain nonce where "DeriveNonce P (snd (KDF_CK P ck)) (dr_SendingChainCount s) = Inr nonce"
    using DeriveNonce_ok[OF assms(1)] by blast
  then show ?thesis
    using assms by (simp add: Encrypt_def split_beta key_sizes_simps length_KDF_CK)
qed

lemma Decrypt_next:
  assumes laws: "key_sizes P" "aead_correct P"
    and "decrypt_ratchet P rnd h s = (s1, Inr ())" "dr_SkippedKeys s1 = []"
    "dr_ReceivingChainKey s1 = Some ck" "dr_ReceivingChainCount s1 = rh_MessageNumber h"
    "DeriveNonce P (snd (KDF_CK P ck)) (rh_MessageNumber h) = Inr nonce"
  shows "Decrypt P rnd now h (chacha_seal P (snd (KDF_CK P ck)) nonce m ad) ad s =
    (s1\<lparr>dr_ReceivingChainKey := Some (fst (KDF_CK P ck)), dr_ReceivingChainCount := dr_ReceivingChainCount s1 + 1,
        dr_LastUsedAt := now\<rparr>, Inr m)"
proof -
  have "advance_loop P (rh_MessageNumber h) s1 = s1"
    using assms by (subst advance_loop.simps) simp
  then show ?thesis
    using assms decryptWithKey_sealed[OF laws _ assms(7)] length_KDF_CK[OF laws(1)]
    by (simp add: Decrypt_def getSkippedKey_def decrypt_chain_def advanceReceivingChain_def split_beta)
qed

lemma dhRatchetSend_ok:
  assumes "dr_DHReceivingKeyPub s = Some R" "X25519 P x (Basepoint P) = Inr X" "X25519 P x R = Inr dh"
    "KDF_RK P (dr_RootKey s) dh = (rk, ck)"
  shows "dhRatchetSend P (Inr x) s =
    (s\<lparr>dr_PreviousSendingChainLen := dr_SendingChainCount s, dr_DHSendingKeyPriv := Some x,
       dr_DHSendingKeyPub := Some X, dr_RootKey := rk, dr_SendingChainKey := Some ck,
       dr_SendingChainCount := 0\<rparr>, Inr ())"
  using assms by (simp add: dhRatchetSend_def generateX25519KeyPair_def)

section \<open>Phases of a session\<close>

definition keypair :: "prims \<Rightarrow> DoubleRatchetState \<Rightarrow> bytes \<Rightarrow> bytes \<Rightarrow> bool" where
  "keypair P s x X \<longleftrightarrow>
     dr_DHSendingKeyPriv s = Some x \<and> dr_DHSendingKeyPub s = Some X \<and> X25519 P x (Basepoint P) = Inr X"

definition follows :: "DoubleRatchetState \<Rightarrow> DoubleRatchetState \<Rightarrow> bool" where
  "follows X Y \<longleftrightarrow> dr_SendingChainKey X \<noteq> None \<and> dr_ReceivingChainKey Y = dr_SendingChainKey X \<and>
     dr_ReceivingChainCount Y = dr_SendingChainCount X \<and> dr_DHReceivingKeyPub Y = dr_DHSendingKeyPub X"

definition ahead :: "prims \<Rightarrow> bytes set \<Rightarrow> DoubleRatchetState \<Rightarrow> DoubleRatchetState \<Rightarrow> bool" where
  "ahead P U X Y \<longleftrightarrow> (\<exists>x Xp y Yp dh ck. keypair P X x Xp \<and> keypair P Y y Yp \<and> x \<in> U \<and> y \<in> U \<and>
     dr_DHReceivingKeyPub X = Some Yp \<and> X25519 P x Yp = Inr dh \<and>
     KDF_RK P (dr_RootKey Y) dh = (dr_RootKey X, ck) \<and> dr_SendingChainKey X = Some ck \<and>
     dr_SendingChainCount X = 0 \<and> dr_PreviousSendingChainLen X = dr_ReceivingChainCount Y \<and>
     dr_DHReceivingKeyPub Y \<noteq> Some Xp)"

definition turned :: "prims \<Rightarrow> bytes set \<Rightarrow> DoubleRatchetState \<Rightarrow> DoubleRatchetState \<Rightarrow> bool" where
  "turned P U X Y \<longleftrightarrow> follows Y X \<and> ahead P U X Y \<and> dr_SkippedKeys X = [] \<and> dr_SkippedKeys Y = [] \<and>
     dr_DHReceivingKeyPub Y \<noteq> None"

definition opened :: "prims \<Rightarrow> bytes set \<Rightarrow> DoubleRatchetState \<Rightarrow> DoubleRatchetState \<Rightarrow> bool" where
  "opened P U A B \<longleftrightarrow> follows A B \<and> (\<exists>a Ap s Sp. keypair P A a Ap \<and> keypair P B s Sp \<and> a \<in> U \<and> s \<in> U \<and>
     dr_DHReceivingKeyPub A = Some Sp) \<and> dr_RootKey A = dr_RootKey B \<and> dr_SendingChainKey B = None \<and>
     dr_SendingChainCount B = 0 \<and> dr_ReceivingChainKey A = None \<and> dr_SkippedKeys A = [] \<and> dr_SkippedKeys B = []"

definition initial :: "prims \<Rightarrow> bytes set \<Rightarrow> DoubleRatchetState \<Rightarrow> DoubleRatchetState \<Rightarrow> bool" where
  "initial P U A B \<longleftrightarrow> (\<exists>a Ap s Sp dh ck. keypair P A a Ap \<and> keypair P B s Sp \<and> a \<in> U \<and> s \<in> U \<and>
     dr_DHReceivingKeyPub A = Some Sp \<and> X25519 P a Sp = Inr dh \<and>
     KDF_RK P (dr_RootKey B) dh = (dr_RootKey A, ck) \<and> dr_SendingChainKey A = Some ck \<and>
     dr_SendingChainCount A = 0) \<and> dr_DHReceivingKeyPub B = None \<and> dr_SendingChainKey B = None \<and>
     dr_SendingChainCount B = 0 \<and> dr_ReceivingChainKey A = None \<and> dr_SkippedKeys A = [] \<and> dr_SkippedKeys B = []"

lemmas phase_defs = keypair_def follows_def ahead_def turned_def opened_def initial_def

text \<open>A turn on a chain the receiver already follows.\<close>

lemma transmit_follows:
  assumes laws: "key_sizes P" "aead_correct P" and "follows X Y" "dr_SkippedKeys Y = []"
  shows "\<exists>ck. transmit P t X Y =
    ((X\<lparr>dr_SendingChainKey := Some ck, dr_SendingChainCount := dr_SendingChainCount X + 1, dr_LastUsedAt := t_now t\<rparr>,
      Y\<lparr>dr_ReceivingChainKey := Some ck, dr_ReceivingChainCount := dr_ReceivingChainCount Y + 1, dr_LastUsedAt := t_now t\<rparr>),
     Inr (t_msg t))"
proof -
  obtain ck where ck: "dr_SendingChainKey X = Some ck" using assms(3) by (auto simp: follows_def)
  obtain nonce where nonce: "DeriveNonce P (snd (KDF_CK P ck)) (dr_SendingChainCount X) = Inr nonce"
    and enc: "Encrypt P (Inr (t_rndE t)) (t_now t) (t_msg t) (t_ad t) X =
      (X\<lparr>dr_SendingChainKey := Some (fst (KDF_CK P ck)), dr_SendingChainCount := dr_SendingChainCount X + 1,
         dr_LastUsedAt := t_now t\<rparr>,
       Inr \<lparr>em_Header = \<lparr>rh_DHRatchetPub = dr_DHSendingKeyPub X,
              rh_PreviousChainLen = dr_PreviousSendingChainLen X, rh_MessageNumber = dr_SendingChainCount X\<rparr>,
            em_Ciphertext = chacha_seal P (snd (KDF_CK P ck)) nonce (t_msg t) (t_ad t), em_Nonce = nonce\<rparr>)"
    using Encrypt_next[OF laws(1) ck] by blast
  have "decrypt_ratchet P (Inr (t_rndD t)) \<lparr>rh_DHRatchetPub = dr_DHSendingKeyPub X,
      rh_PreviousChainLen = dr_PreviousSendingChainLen X, rh_MessageNumber = dr_SendingChainCount X\<rparr> Y = (Y, Inr ())"
    using assms(3) by (auto simp: decrypt_ratchet_def follows_def equalKeys_def split: option.splits)
  from Decrypt_next[OF laws this assms(4), of ck nonce "t_now t" "t_msg t" "t_ad t"] show ?thesis
    using enc ck nonce assms(3) by (intro exI[of _ "fst (KDF_CK P ck)"]) (simp add: transmit_def follows_def)
qed

text \<open>The first turn of the initiator.\<close>

lemma transmit_initial:
  assumes laws: "key_sizes P" "aead_correct P" "dh_commutes P" and "initial P U A B"
  shows "\<exists>A' B'. transmit P t A B = ((A', B'), Inr (t_msg t)) \<and> opened P U A' B'"
proof -
  from assms(4) obtain a Ap s Sp dh ck where i: "keypair P A a Ap" "keypair P B s Sp" "a \<in> U" "s \<in> U"
    "dr_DHReceivingKeyPub A = Some Sp" "X25519 P a Sp = Inr dh"
    "KDF_RK P (dr_RootKey B) dh = (dr_RootKey A, ck)" "dr_SendingChainKey A = Some ck" "dr_SendingChainCount A = 0"
    by (auto simp: initial_def)
  have dh: "X25519 P s Ap = Inr dh" using dh_commutesD[OF laws(3), of s Sp a Ap] i by (simp add: keypair_def)
  obtain nonce where nonce: "DeriveNonce P (snd (KDF_CK P ck)) 0 = Inr nonce"
    and enc: "Encrypt P (Inr (t_rndE t)) (t_now t) (t_msg t) (t_ad t) A =
      (A\<lparr>dr_SendingChainKey := Some (fst (KDF_CK P ck)), dr_SendingChainCount := 1, dr_LastUsedAt := t_now t\<rparr>,
       Inr \<lparr>em_Header = \<lparr>rh_DHRatchetPub = Some Ap, rh_PreviousChainLen = dr_PreviousSendingChainLen A,
              rh_MessageNumber = 0\<rparr>,
            em_Ciphertext = chacha_seal P (snd (KDF_CK P ck)) nonce (t_msg t) (t_ad t), em_Nonce = nonce\<rparr>)"
    using Encrypt_next[OF laws(1) i(8)] i(1,9) by (fastforce simp: keypair_def)
  have dec: "decrypt_ratchet P (Inr (t_rndD t)) \<lparr>rh_DHRatchetPub = Some Ap,
      rh_PreviousChainLen = dr_PreviousSendingChainLen A, rh_MessageNumber = 0\<rparr> B =
    (B\<lparr>dr_DHReceivingKeyPub := Some Ap, dr_RootKey := dr_RootKey A, dr_ReceivingChainKey := Some ck,
       dr_ReceivingChainCount := 0\<rparr>, Inr ())"
    using assms(4) i dh by (simp add: decrypt_ratchet_def keypair_def initial_def)
  have "dr_SkippedKeys B = []" using assms(4) by (simp add: initial_def)
  then show ?thesis
    using Decrypt_next[OF laws(1,2) dec, of ck nonce] enc nonce i assms(4)
    by (auto simp: transmit_def opened_def follows_def keypair_def initial_def)
qed

text \<open>A turn of the party that is ahead: the receiver turns its own ratchet.\<close>

lemma transmit_ahead:
  assumes laws: "key_sizes P" "aead_correct P" "dh_commutes P" and "turned P U X Y"
    and fresh: "X25519 P (t_rndD t) (Basepoint P) = Inr Z" "t_rndD t \<in> U'" "U \<subseteq> U'"
      "\<forall>u\<in>U. X25519 P u (Basepoint P) \<noteq> Inr Z" "\<forall>u\<in>U. \<forall>W. X25519 P u (Basepoint P) = Inr W \<longrightarrow> is_ok (X25519 P (t_rndD t) W)"
  shows "\<exists>X' Y'. transmit P t X Y = ((X', Y'), Inr (t_msg t)) \<and> turned P U' Y' X'"
proof -
  from assms(4) obtain x Xp y Yp dh ck where i: "keypair P X x Xp" "keypair P Y y Yp" "x \<in> U" "y \<in> U"
    "dr_DHReceivingKeyPub X = Some Yp" "X25519 P x Yp = Inr dh"
    "KDF_RK P (dr_RootKey Y) dh = (dr_RootKey X, ck)" "dr_SendingChainKey X = Some ck" "dr_SendingChainCount X = 0"
    "dr_PreviousSendingChainLen X = dr_ReceivingChainCount Y" "dr_DHReceivingKeyPub Y \<noteq> Some Xp"
    by (auto simp: turned_def ahead_def)
  obtain Rp where Rp: "dr_DHReceivingKeyPub Y = Some Rp" using assms(4) by (auto simp: turned_def)
  have dh: "X25519 P y Xp = Inr dh" using dh_commutesD[OF laws(3), of y Yp x Xp] i by (simp add: keypair_def)
  obtain dh2 where dh2: "X25519 P (t_rndD t) Xp = Inr dh2"
    using fresh(5) i by (auto simp: keypair_def is_ok_iff)
  obtain rk2 ck2 where rk2: "KDF_RK P (dr_RootKey X) dh2 = (rk2, ck2)" by fastforce
  obtain nonce where nonce: "DeriveNonce P (snd (KDF_CK P ck)) 0 = Inr nonce"
    and enc: "Encrypt P (Inr (t_rndE t)) (t_now t) (t_msg t) (t_ad t) X =
      (X\<lparr>dr_SendingChainKey := Some (fst (KDF_CK P ck)), dr_SendingChainCount := 1, dr_LastUsedAt := t_now t\<rparr>,
       Inr \<lparr>em_Header = \<lparr>rh_DHRatchetPub = Some Xp, rh_PreviousChainLen = dr_ReceivingChainCount Y,
              rh_MessageNumber = 0\<rparr>,
            em_Ciphertext = chacha_seal P (snd (KDF_CK P ck)) nonce (t_msg t) (t_ad t), em_Nonce = nonce\<rparr>)"
    using Encrypt_next[OF laws(1) i(8)] i(1,9,10) by (fastforce simp: keypair_def)
  have "advance_loop P (dr_ReceivingChainCount Y) Y = Y" by (subst advance_loop.simps) simp
  then have "cacheSkippedKeys P (dr_ReceivingChainCount Y) Y = Y" by (simp add: cacheSkippedKeys_def)
  then have dec: "decrypt_ratchet P (Inr (t_rndD t)) \<lparr>rh_DHRatchetPub = Some Xp,
      rh_PreviousChainLen = dr_ReceivingChainCount Y, rh_MessageNumber = 0\<rparr> Y =
    (Y\<lparr>dr_ReceivingChainKey := Some ck, dr_ReceivingChainCount := 0, dr_DHReceivingKeyPub := Some Xp,
       dr_PreviousSendingChainLen := dr_SendingChainCount Y, dr_DHSendingKeyPriv := Some (t_rndD t),
       dr_DHSendingKeyPub := Some Z, dr_RootKey := rk2, dr_SendingChainKey := Some ck2,
       dr_SendingChainCount := 0\<rparr>, Inr ())"
    using i dh Rp dhRatchetSend_ok[OF _ fresh(1) dh2] rk2
    by (simp add: decrypt_ratchet_def dhRatchetReceive_def keypair_def equalKeys_def)
  have yp: "Z \<noteq> Yp" using fresh(4) i by (auto simp: keypair_def)
  show ?thesis
    using Decrypt_next[OF laws(1,2) dec, of ck nonce] enc nonce i assms(4) fresh dh2 rk2 yp
    by (auto simp: transmit_def turned_def ahead_def follows_def keypair_def)
qed

text \<open>The first reply of the responder: both parties turn their ratchets.\<close>

lemma transmit_reply:
  assumes laws: "key_sizes P" "aead_correct P" "dh_commutes P" and op: "opened P U A B"
    and fresh: "X25519 P y (Basepoint P) = Inr Y" "X25519 P z (Basepoint P) = Inr Z" "y = t_rndE t" "z = t_rndD t"
      "y \<in> U'" "z \<in> U'" "\<forall>u\<in>U. X25519 P u (Basepoint P) \<noteq> Inr Y" "\<forall>u\<in>U. X25519 P u (Basepoint P) \<noteq> Inr Z"
      "\<forall>u\<in>U. \<forall>W. X25519 P u (Basepoint P) = Inr W \<longrightarrow> is_ok (X25519 P y W)" "is_ok (X25519 P z Y)"
  shows "\<exists>A' B'. transmit P t B A = ((B', A'), Inr (t_msg t)) \<and> turned P U' A' B'"
proof -
  from op obtain a Ap s Sp ca where i: "keypair P A a Ap" "keypair P B s Sp" "a \<in> U" "s \<in> U"
    "dr_DHReceivingKeyPub A = Some Sp" "dr_SendingChainKey A = Some ca"
    by (auto simp: opened_def follows_def)
  obtain dh where dh: "X25519 P y Ap = Inr dh" using fresh(9) i by (auto simp: keypair_def is_ok_iff)
  have dha: "X25519 P a Y = Inr dh" using dh_commutesD[OF laws(3), of a Ap y Y] i fresh(1) dh by (simp add: keypair_def)
  obtain dh2 where dh2: "X25519 P z Y = Inr dh2" using fresh(10) by (auto simp: is_ok_iff)
  obtain rk ck where rk: "KDF_RK P (dr_RootKey A) dh = (rk, ck)" by fastforce
  obtain rk2 ck2 where rk2: "KDF_RK P rk dh2 = (rk2, ck2)" by fastforce
  let ?B1 = "B\<lparr>dr_PreviousSendingChainLen := 0, dr_DHSendingKeyPriv := Some y, dr_DHSendingKeyPub := Some Y,
      dr_RootKey := rk, dr_SendingChainKey := Some ck, dr_SendingChainCount := 0\<rparr>"
  have snd: "dhRatchetSend P (Inr y) B = (?B1, Inr ())"
    using dhRatchetSend_ok[OF _ fresh(1) dh] op rk i by (simp add: opened_def follows_def keypair_def)
  obtain nonce where nonce: "DeriveNonce P (snd (KDF_CK P ck)) 0 = Inr nonce"
    and enc1: "Encrypt P (Inr (t_rndE t)) (t_now t) (t_msg t) (t_ad t) ?B1 =
      (?B1\<lparr>dr_SendingChainKey := Some (fst (KDF_CK P ck)), dr_SendingChainCount := 1, dr_LastUsedAt := t_now t\<rparr>,
       Inr \<lparr>em_Header = \<lparr>rh_DHRatchetPub = Some Y, rh_PreviousChainLen = 0, rh_MessageNumber = 0\<rparr>,
            em_Ciphertext = chacha_seal P (snd (KDF_CK P ck)) nonce (t_msg t) (t_ad t), em_Nonce = nonce\<rparr>)"
    using Encrypt_next[OF laws(1), of ?B1 ck] by fastforce
  have enc: "Encrypt P (Inr (t_rndE t)) (t_now t) (t_msg t) (t_ad t) B =
      Encrypt P (Inr (t_rndE t)) (t_now t) (t_msg t) (t_ad t) ?B1"
    using snd op fresh(3) by (simp add: Encrypt_def opened_def)
  have "cacheSkippedKeys P 0 A = A" using op by (simp add: cacheSkippedKeys_def opened_def)
  moreover have yp: "Y \<noteq> Sp" "Z \<noteq> Ap" using fresh(7,8) i by (auto simp: keypair_def)
  ultimately have dec: "decrypt_ratchet P (Inr z) \<lparr>rh_DHRatchetPub = Some Y, rh_PreviousChainLen = 0,
      rh_MessageNumber = 0\<rparr> A =
    (A\<lparr>dr_ReceivingChainKey := Some ck, dr_ReceivingChainCount := 0, dr_DHReceivingKeyPub := Some Y,
       dr_PreviousSendingChainLen := dr_SendingChainCount A, dr_DHSendingKeyPriv := Some z,
       dr_DHSendingKeyPub := Some Z, dr_RootKey := rk2, dr_SendingChainKey := Some ck2,
       dr_SendingChainCount := 0\<rparr>, Inr ())"
    using i dha rk dhRatchetSend_ok[OF _ fresh(2) dh2] rk2
    by (simp add: decrypt_ratchet_def dhRatchetReceive_def keypair_def equalKeys_def)
  show ?thesis
    using Decrypt_next[OF laws(1,2) dec, of ck nonce] enc enc1 nonce i op fresh dh2 rk rk2 yp
    by (auto simp: transmit_def opened_def turned_def ahead_def follows_def keypair_def)
qed

section \<open>Every conversation decrypts\<close>

definition conv_phase :: "prims \<Rightarrow> bytes set \<Rightarrow> DoubleRatchetState \<Rightarrow> DoubleRatchetState \<Rightarrow> bool" where
  "conv_phase P U A B \<longleftrightarrow> opened P U A B \<or> turned P U A B \<or> turned P U B A"

lemma fresh_key:
  assumes "dh_total P ks" "inj_on (\<lambda>x. X25519 P x (Basepoint P)) ks" "r \<in> ks" "U \<subseteq> ks" "r \<notin> U"
  shows "\<exists>Z. X25519 P r (Basepoint P) = Inr Z \<and> (\<forall>u\<in>U. X25519 P u (Basepoint P) \<noteq> Inr Z) \<and>
    (\<forall>u\<in>U. \<forall>W. X25519 P u (Basepoint P) = Inr W \<longrightarrow> is_ok (X25519 P r W))"
proof -
  from assms(1,3) obtain Z where Z: "X25519 P r (Basepoint P) = Inr Z" by (auto simp: dh_total_def is_ok_iff)
  moreover have "\<forall>u\<in>U. X25519 P u (Basepoint P) \<noteq> Inr Z"
    using inj_onD[OF assms(2)] assms(3-5) Z by (metis subsetD)
  moreover have "\<forall>u\<in>U. \<forall>W. X25519 P u (Basepoint P) = Inr W \<longrightarrow> is_ok (X25519 P r W)"
    using assms(1,3,4) by (auto simp: dh_total_def)
  ultimately show ?thesis by blast
qed

lemma turned_mono: "turned P U X Y \<Longrightarrow> U \<subseteq> U' \<Longrightarrow> turned P U' X Y"
  unfolding turned_def ahead_def by blast

lemma opened_mono: "opened P U X Y \<Longrightarrow> U \<subseteq> U' \<Longrightarrow> opened P U' X Y"
  unfolding opened_def by blast

lemma transmit_opened:
  assumes "key_sizes P" "aead_correct P" "opened P U A B"
  shows "\<exists>A' B'. transmit P t A B = ((A', B'), Inr (t_msg t)) \<and> opened P U A' B'"
proof -
  have "follows A B" "dr_SkippedKeys B = []" using assms(3) by (simp_all add: opened_def)
  from transmit_follows[OF assms(1,2) this, of t] show ?thesis
    using assms(3) by (auto simp: opened_def follows_def keypair_def)
qed

lemma transmit_turned:
  assumes "key_sizes P" "aead_correct P" "turned P U X Y"
  shows "\<exists>X' Y'. transmit P t Y X = ((Y', X'), Inr (t_msg t)) \<and> turned P U X' Y'"
proof -
  have "follows Y X" "dr_SkippedKeys X = []" using assms(3) by (simp_all add: turned_def)
  from transmit_follows[OF assms(1,2) this, of t] show ?thesis
    using assms(3) by (auto simp: turned_def ahead_def follows_def keypair_def)
qed

lemma transmit_turned_back:
  assumes laws: "key_sizes P" "aead_correct P" "dh_commutes P" and ph: "turned P U X Y"
    and ks: "dh_total P ks" "inj_on (\<lambda>x. X25519 P x (Basepoint P)) ks"
    and t: "{t_rndE t, t_rndD t} \<union> U \<subseteq> ks" "t_rndD t \<notin> U"
  shows "\<exists>X' Y'. transmit P t X Y = ((X', Y'), Inr (t_msg t)) \<and> turned P (U \<union> {t_rndE t, t_rndD t}) Y' X'"
proof -
  obtain Z where "X25519 P (t_rndD t) (Basepoint P) = Inr Z" "\<forall>u\<in>U. X25519 P u (Basepoint P) \<noteq> Inr Z"
    "\<forall>u\<in>U. \<forall>W. X25519 P u (Basepoint P) = Inr W \<longrightarrow> is_ok (X25519 P (t_rndD t) W)"
    using fresh_key[OF ks, of "t_rndD t" U] t by auto
  then show ?thesis by (intro transmit_ahead[OF laws ph]) auto
qed

lemma transmit_opened_back:
  assumes laws: "key_sizes P" "aead_correct P" "dh_commutes P" and ph: "opened P U A B"
    and ks: "dh_total P ks" "inj_on (\<lambda>x. X25519 P x (Basepoint P)) ks"
    and t: "{t_rndE t, t_rndD t} \<union> U \<subseteq> ks" "t_rndE t \<notin> U" "t_rndD t \<notin> U"
  shows "\<exists>A' B'. transmit P t B A = ((B', A'), Inr (t_msg t)) \<and> turned P (U \<union> {t_rndE t, t_rndD t}) A' B'"
proof -
  obtain Y Z where k: "X25519 P (t_rndE t) (Basepoint P) = Inr Y" "\<forall>u\<in>U. X25519 P u (Basepoint P) \<noteq> Inr Y"
    "\<forall>u\<in>U. \<forall>W. X25519 P u (Basepoint P) = Inr W \<longrightarrow> is_ok (X25519 P (t_rndE t) W)"
    "X25519 P (t_rndD t) (Basepoint P) = Inr Z" "\<forall>u\<in>U. X25519 P u (Basepoint P) \<noteq> Inr Z"
    using fresh_key[OF ks, of "t_rndE t" U] fresh_key[OF ks, of "t_rndD t" U] t by auto
  have "is_ok (X25519 P (t_rndD t) Y)" using ks(1) t(1) k(1) unfolding dh_total_def by blast
  then show ?thesis
    using k by (intro transmit_reply[OF laws ph, of "t_rndE t" Y "t_rndD t" Z]) auto
qed

lemma converse_phase:
  assumes laws: "key_sizes P" "aead_correct P" "dh_commutes P"
    and ks: "dh_total P ks" "inj_on (\<lambda>x. X25519 P x (Basepoint P)) ks"
    and "conv_phase P U A B" "U \<union> set (turn_keys ts) \<subseteq> ks" "distinct (turn_keys ts)" "set (turn_keys ts) \<inter> U = {}"
  shows "converse P ts A B = map (\<lambda>t. Inr (t_msg t)) ts"
  using assms(6-)
proof (induction ts arbitrary: A B U)
  case Nil
  then show ?case by simp
next
  case (Cons t ts)
  let ?U = "U \<union> {t_rndE t, t_rndD t}"
  have t: "{t_rndE t, t_rndD t} \<union> U \<subseteq> ks" "t_rndE t \<notin> U" "t_rndD t \<notin> U"
    using Cons.prems by (auto simp: turn_keys_def)
  note bwd = transmit_turned_back[OF laws _ ks t(1,3)] transmit_opened_back[OF laws _ ks t]
  note fwd = transmit_turned[OF laws(1,2)] transmit_opened[OF laws(1,2)]
  have sub: "U \<subseteq> ?U" by auto
  have IH: "conv_phase P ?U A' B' \<Longrightarrow> converse P ts A' B' = map (\<lambda>t. Inr (t_msg t)) ts" for A' B'
    using Cons.prems by (intro Cons.IH) (auto simp: turn_keys_def)
  show ?case
  proof (cases "t_fromA t")
    case True
    have "\<exists>A' B'. transmit P t A B = ((A', B'), Inr (t_msg t)) \<and> conv_phase P ?U A' B'"
      using Cons.prems(1) fwd(2)[of U A B t] fwd(1)[of U B A t] bwd(1)[of A B] opened_mono[OF _ sub] turned_mono[OF _ sub]
      unfolding conv_phase_def by blast
    then show ?thesis using True IH by auto
  next
    case False
    have "\<exists>A' B'. transmit P t B A = ((B', A'), Inr (t_msg t)) \<and> conv_phase P ?U A' B'"
      using Cons.prems(1) fwd(1)[of U A B t] bwd(1)[of B A] bwd(2)[of A B] opened_mono[OF _ sub] turned_mono[OF _ sub]
      unfolding conv_phase_def by blast
    then show ?thesis using False IH by auto
  qed
qed

lemma new_session_initial:
  assumes "NewDoubleRatchetStateInitiator P (Inr a) now sid ida idb secret SPK = Inr A"
    "X25519 P spk (Basepoint P) = Inr SPK"
  shows "initial P {a, spk} A (NewDoubleRatchetStateResponder now' sid' idb ida secret spk SPK)"
  using assms by (auto simp: NewDoubleRatchetStateInitiator_def NewDoubleRatchetStateResponder_def initial_def
      keypair_def generateX25519KeyPair_def rbind_Inr_iff Let_def split_beta)

section \<open>Reachable sessions\<close>

text \<open>A session as the program can bring it about: created by either constructor, then any sequence
  of \<open>Encrypt\<close> and \<open>Decrypt\<close> calls on arbitrary inputs, failed calls included.\<close>

inductive reach :: "prims \<Rightarrow> DoubleRatchetState \<Rightarrow> bool" for P where
  initiator: "NewDoubleRatchetStateInitiator P rnd now sid ida idb secret spkPub = Inr s \<Longrightarrow> reach P s"
| responder: "reach P (NewDoubleRatchetStateResponder now sid ida idb secret spk spkPub)"
| encrypt: "reach P s \<Longrightarrow> Encrypt P rnd now m ad s = (s', r) \<Longrightarrow> reach P s'"
| decrypt: "reach P s \<Longrightarrow> Decrypt P rnd now h ct ad s = (s', r') \<Longrightarrow> reach P s'"

definition bounded_cache :: "(string, bytes) gomap \<Rightarrow> bool" where
  "bounded_cache m \<longleftrightarrow> gm_ok m \<and> gm_len m \<le> MaxSkippedKeys"

lemma bounded_cache_key: "bounded_cache m \<Longrightarrow> bounded_cache (cache_key k v m)"
  by (auto simp: bounded_cache_def cache_key_def gm_len_set)

lemma bounded_cache_del: "bounded_cache m \<Longrightarrow> bounded_cache (gm_del k m)"
  using gm_len_del_le[of k m] by (auto simp: bounded_cache_def)

lemma bounded_advance: "bounded_cache (dr_SkippedKeys s) \<Longrightarrow> bounded_cache (dr_SkippedKeys (advance_loop P t s))"
proof (induction P t s rule: advance_loop.induct)
  case (1 P t s)
  have "bounded_cache (dr_SkippedKeys (advance_step P s))"
    using 1(2) by (auto simp: advance_step_def split_beta intro: bounded_cache_key)
  then show ?case using 1 by (subst advance_loop.simps) simp
qed

lemma bounded_skip: "bounded_cache m \<Longrightarrow> bounded_cache (skip_loop P d t c k m)"
proof (induction P d t c k m rule: skip_loop.induct)
  case (1 P d t c k m)
  obtain nk sk where "KDF_CK P k = (nk, sk)" by fastforce
  then show ?case
    using 1 bounded_cache_key by (subst skip_loop.simps) simp
qed

lemma dhRatchetSend_cache: "dr_SkippedKeys (fst (dhRatchetSend P rnd s)) = dr_SkippedKeys s"
  by (simp add: dhRatchetSend_def split_beta split: option.split sum.split prod.split)

lemma dhRatchetReceive_cache:
  "bounded_cache (dr_SkippedKeys s) \<Longrightarrow> bounded_cache (dr_SkippedKeys (fst (dhRatchetReceive P rnd n k s)))"
  by (auto simp: dhRatchetReceive_def cacheSkippedKeys_def dhRatchetSend_cache split_beta Let_def
      intro: bounded_advance split: option.split sum.split)

lemma Encrypt_cache: "dr_SkippedKeys (fst (Encrypt P rnd now m ad s)) = dr_SkippedKeys s"
  using dhRatchetSend_cache[of P rnd s]
  by (auto simp: Encrypt_def split_beta Let_def split: sum.split prod.split)

lemma decrypt_ratchet_cache:
  "bounded_cache (dr_SkippedKeys s) \<Longrightarrow> bounded_cache (dr_SkippedKeys (fst (decrypt_ratchet P rnd h s)))"
  using dhRatchetReceive_cache[of s P rnd]
  by (auto simp: decrypt_ratchet_def split_beta Let_def split: option.split sum.split prod.split)

lemma decrypt_chain_cache:
  "bounded_cache (dr_SkippedKeys s) \<Longrightarrow> bounded_cache (dr_SkippedKeys (fst (decrypt_chain P now h ct ad s)))"
  by (auto simp: decrypt_chain_def skipMessages_def advanceReceivingChain_def split_beta Let_def
      intro!: bounded_advance bounded_skip split: option.split sum.split prod.split)

lemma getSkippedKey_cache:
  "bounded_cache (dr_SkippedKeys s) \<Longrightarrow> bounded_cache (dr_SkippedKeys (fst (getSkippedKey h s)))"
  by (simp add: getSkippedKey_def Let_def bounded_cache_del)

lemma Decrypt_cache:
  assumes "bounded_cache (dr_SkippedKeys s)"
  shows "bounded_cache (dr_SkippedKeys (fst (Decrypt P rnd now h ct ad s)))"
proof (cases "decrypt_ratchet P rnd h s")
  case (Pair s1 r1)
  then have 1: "bounded_cache (dr_SkippedKeys s1)" using decrypt_ratchet_cache[OF assms, of P rnd h] by simp
  obtain s2 k where 2: "getSkippedKey h s1 = (s2, k)" by fastforce
  then have "bounded_cache (dr_SkippedKeys s2)" using getSkippedKey_cache[OF 1, of h] by simp
  then show ?thesis
    using 1 2 Pair decrypt_chain_cache[of s2 P now h ct ad]
    by (auto simp: Decrypt_def split: sum.split option.split)
qed

section \<open>What a stale or late message does\<close>

text \<open>A message of the current chain whose key is no longer cached takes the next chain key.\<close>

lemma Decrypt_stale:
  assumes "decrypt_ratchet P rnd h s = (s, Inr ())" "rh_MessageNumber h \<le> dr_ReceivingChainCount s"
    "gm_get (dr_SkippedKeys s) (skippedKeyString (rh_DHRatchetPub h) (rh_MessageNumber h)) = None"
  shows "Decrypt P rnd now h ct ad s =
    (s\<lparr>dr_ReceivingChainKey := Some (fst (KDF_CK P (slice (dr_ReceivingChainKey s)))),
       dr_ReceivingChainCount := dr_ReceivingChainCount s + 1, dr_LastUsedAt := now\<rparr>,
     decryptWithKey P (snd (KDF_CK P (slice (dr_ReceivingChainKey s)))) (rh_MessageNumber h) ct ad)"
proof -
  have "advance_loop P (rh_MessageNumber h) s = s" using assms(2) by (subst advance_loop.simps) (simp add: not_less)
  moreover have "\<not> dr_ReceivingChainCount s < rh_MessageNumber h" using assms(2) by simp
  ultimately show ?thesis
    using assms by (simp add: Decrypt_def getSkippedKey_def decrypt_chain_def advanceReceivingChain_def split_beta)
qed

lemma advance_loop_frame:
  "dr_DHReceivingKeyPub (advance_loop P t s) = dr_DHReceivingKeyPub s \<and> dr_RootKey (advance_loop P t s) = dr_RootKey s \<and>
   dr_DHSendingKeyPriv (advance_loop P t s) = dr_DHSendingKeyPriv s"
proof (induction P t s rule: advance_loop.induct)
  case (1 P t s)
  then show ?case by (subst (1 2 3) advance_loop.simps) (simp add: advance_step_def split_beta)
qed

lemma advance_loop_other_chain:
  assumes "dr_DHReceivingKeyPub s = Some R" "X \<noteq> R"
  shows "gm_get (dr_SkippedKeys (advance_loop P t s)) (skippedKeyString (Some X) n) =
    gm_get (dr_SkippedKeys s) (skippedKeyString (Some X) n)"
  using assms(1)
proof (induction P t s rule: advance_loop.induct)
  case (1 P t s)
  have "dr_DHReceivingKeyPub (advance_step P s) = Some R"
    "gm_get (dr_SkippedKeys (advance_step P s)) (skippedKeyString (Some X) n) =
     gm_get (dr_SkippedKeys s) (skippedKeyString (Some X) n)"
    using 1(2) assms(2) by (auto simp: advance_step_def split_beta cache_key_def skippedKeyString_inj)
  then show ?case using 1 by (subst advance_loop.simps) simp
qed

section \<open>Properties\<close>

text \<open>C2. Out-of-order delivery: the initiator sends up to 256 messages of its first chain to a
  fresh responder. Whatever subset of them arrives, in whatever order, every message that arrives
  decrypts to its plaintext: the receiver's cache of skipped keys loses nothing.\<close>

theorem ratchet_any_order_delivery:
  assumes laws: "key_sizes P" "aead_correct P" "dh_commutes P"
    and spk: "X25519 P spk (Basepoint P) = Inr SPK"
    and A: "NewDoubleRatchetStateInitiator P (Inr a) tA sid ida idb secret SPK = Inr A"
    and ms: "length ms \<le> 256" "distinct order" "set order \<subseteq> {..<length ms}"
  shows "\<exists>msgs. encrypt_all P r1 t1 ad ms A = map Inr msgs \<and> length msgs = length ms \<and>
    decrypt_all P r2 t2 ad (map ((!) msgs) order)
      (NewDoubleRatchetStateResponder tB sid' idb ida secret spk SPK) = map (\<lambda>i. Inr (ms ! i)) order"
proof -
  let ?B = "NewDoubleRatchetStateResponder tB sid' idb ida secret spk SPK"
  from A obtain Ap dh rk ck where A': "X25519 P a (Basepoint P) = Inr Ap" "X25519 P a SPK = Inr dh"
    "KDF_RK P secret dh = (rk, ck)" "dr_DHSendingKeyPub A = Some Ap" "dr_SendingChainKey A = Some (chain_key P ck 0)"
    "dr_SendingChainCount A = of_nat 0"
    by (cases "KDF_RK P secret (projr (X25519 P a SPK))")
      (auto simp: NewDoubleRatchetStateInitiator_def generateX25519KeyPair_def rbind_Inr_iff)
  have dh: "X25519 P spk Ap = Inr dh" using dh_commutesD[OF laws(3) spk A'(1)] A'(2) by simp
  obtain msgs where msgs: "encrypt_all P r1 t1 ad ms A = map Inr msgs" "length msgs = length ms"
    "\<forall>i < length ms. sealed_at P Ap ck i (ms ! i) ad (msgs ! i)"
    using encrypt_all_seals[OF laws(1) A'(5,6,4), of r1 t1 ad ms] by auto
  let ?B1 = "?B\<lparr>dr_DHReceivingKeyPub := Some Ap, dr_RootKey := rk, dr_ReceivingChainKey := Some ck,
    dr_ReceivingChainCount := 0\<rparr>"
  have inv: "recv_inv P Ap ck 0 {} ?B1"
    by (simp add: recv_inv_def cached_def NewDoubleRatchetStateResponder_def)
  have first: "Decrypt P r2 t2 (em_Header msg) (em_Ciphertext msg) ad ?B =
      Decrypt P r2 t2 (em_Header msg) (em_Ciphertext msg) ad ?B1"
    if "sealed_at P Ap ck n m ad msg" for n m msg
    using that dh A'(3)
    by (simp add: Decrypt_def decrypt_ratchet_def sealed_at_def NewDoubleRatchetStateResponder_def equalKeys_def)
  have "decrypt_all P r2 t2 ad (map ((!) msgs) order) ?B = decrypt_all P r2 t2 ad (map ((!) msgs) order) ?B1"
  proof (cases order)
    case (Cons i rest)
    then have "sealed_at P Ap ck i (ms ! i) ad (msgs ! i)" using ms(3) msgs(3) by simp
    then show ?thesis using Cons first by simp
  qed simp
  moreover have "decrypt_all P r2 t2 ad (map ((!) msgs) order) ?B1 = map (\<lambda>i. Inr (ms ! i)) order"
    using decrypt_all_any_order[OF laws(1,2) msgs(3) _ inv ms(2,3)] ms(1) by (simp add: MaxSkippedKeys_def)
  ultimately show ?thesis using msgs(1,2) by auto
qed

theorem ratchet_any_order_delivery_witness:
  "\<exists>msgs. encrypt_all toy (Inr []) 0 [9] [[1], [2], [3]]
      (projr (NewDoubleRatchetStateInitiator toy (Inr (replicate 32 5)) 0 ''s'' [1] [2] (replicate 32 7) (replicate 32 3)))
      = map Inr msgs \<and> length msgs = length [[1::byte], [2], [3]] \<and>
    decrypt_all toy (Inr []) 0 [9] (map ((!) msgs) [2, 0, 1])
      (NewDoubleRatchetStateResponder 0 ''s'' [2] [1] (replicate 32 7) (replicate 32 3) (replicate 32 3))
      = map (\<lambda>i. Inr ([[1], [2], [3]] ! i)) [2, 0, 1]"
  by (rule ratchet_any_order_delivery[OF toy_key_sizes toy_aead toy_dh, where a = "replicate 32 5" and sid = "''s''"
        and ida = "[1]" and idb = "[2]" and tA = 0])
    (auto simp: vec_add_zero NewDoubleRatchetStateInitiator_def generateX25519KeyPair_def split_beta Let_def)

text \<open>C3. Conversations: after an X3DH handshake the initiator speaks first; then the parties take
  turns in any pattern, each message delivered before the next is sent. With fresh ratchet keys every
  message of the conversation, however long, decrypts to what was sent, through all DH ratchet steps
  of both sides.\<close>

theorem conversation_correct:
  assumes laws: "key_sizes P" "aead_correct P" "dh_commutes P"
    and spk: "X25519 P spk (Basepoint P) = Inr SPK"
    and A: "NewDoubleRatchetStateInitiator P (Inr a) tA sid ida idb secret SPK = Inr A"
    and ks: "dh_total P ({a, spk} \<union> set (turn_keys ts))"
      "inj_on (\<lambda>x. X25519 P x (Basepoint P)) ({a, spk} \<union> set (turn_keys ts))"
      "distinct (turn_keys ts)" "set (turn_keys ts) \<inter> {a, spk} = {}"
    and first: "case ts of [] \<Rightarrow> True | t # _ \<Rightarrow> t_fromA t"
  shows "converse P ts A (NewDoubleRatchetStateResponder tB sid' idb ida secret spk SPK) = map (\<lambda>t. Inr (t_msg t)) ts"
proof (cases ts)
  case (Cons t ts')
  let ?B = "NewDoubleRatchetStateResponder tB sid' idb ida secret spk SPK"
  obtain A' B' where tr: "transmit P t A ?B = ((A', B'), Inr (t_msg t))" "opened P {a, spk} A' B'"
    using transmit_initial[OF laws new_session_initial[OF A spk]] by blast
  have "converse P ts' A' B' = map (\<lambda>t. Inr (t_msg t)) ts'"
    using ks tr(2) Cons by (intro converse_phase[OF laws ks(1,2), of "{a, spk}"]) (auto simp: conv_phase_def turn_keys_def)
  then show ?thesis using tr(1) first Cons by simp
qed simp

theorem conversation_correct_witness:
  "converse toy
     [\<lparr>t_fromA = True, t_msg = [1], t_ad = [], t_rndE = replicate 32 10, t_rndD = replicate 32 11, t_now = 1\<rparr>,
      \<lparr>t_fromA = False, t_msg = [2], t_ad = [], t_rndE = replicate 32 12, t_rndD = replicate 32 13, t_now = 2\<rparr>,
      \<lparr>t_fromA = True, t_msg = [3], t_ad = [], t_rndE = replicate 32 14, t_rndD = replicate 32 15, t_now = 3\<rparr>]
     (projr (NewDoubleRatchetStateInitiator toy (Inr (replicate 32 5)) 0 ''s'' [1] [2] (replicate 32 7) (replicate 32 3)))
     (NewDoubleRatchetStateResponder 0 ''s'' [2] [1] (replicate 32 7) (replicate 32 3) (replicate 32 3))
   = map (\<lambda>t. Inr (t_msg t))
     [\<lparr>t_fromA = True, t_msg = [1], t_ad = [], t_rndE = replicate 32 10, t_rndD = replicate 32 11, t_now = 1\<rparr>,
      \<lparr>t_fromA = False, t_msg = [2], t_ad = [], t_rndE = replicate 32 12, t_rndD = replicate 32 13, t_now = 2\<rparr>,
      \<lparr>t_fromA = True, t_msg = [3], t_ad = [], t_rndE = replicate 32 14, t_rndD = replicate 32 15, t_now = 3\<rparr>]"
  by (rule conversation_correct[OF toy_key_sizes toy_aead toy_dh, where a = "replicate 32 5" and sid = "''s''"
        and ida = "[1]" and idb = "[2]" and tA = 0])
    (auto simp: vec_add_zero NewDoubleRatchetStateInitiator_def generateX25519KeyPair_def split_beta Let_def
      turn_keys_def dh_total_def inj_on_def)

text \<open>C4. Bounded memory under attack: in every session the program can reach, whatever headers and
  ciphertexts are fed to \<open>Decrypt\<close>, the cache of skipped keys has at most \<open>MaxSkippedKeys\<close> = 256
  entries and no key twice.\<close>

theorem skipped_keys_bounded:
  "reach P s \<Longrightarrow> gm_ok (dr_SkippedKeys s) \<and> gm_len (dr_SkippedKeys s) \<le> 256"
proof -
  assume "reach P s"
  then have "bounded_cache (dr_SkippedKeys s)"
  proof (induction rule: reach.induct)
    case (initiator rnd now sid ida idb secret spkPub s)
    then show ?case
      by (auto simp: NewDoubleRatchetStateInitiator_def rbind_Inr_iff bounded_cache_def split_beta Let_def)
  next
    case (responder now sid ida idb secret spk spkPub)
    then show ?case by (simp add: NewDoubleRatchetStateResponder_def bounded_cache_def)
  next
    case (encrypt s rnd now m ad s' r)
    then show ?case using Encrypt_cache[of P rnd now m ad s] by simp
  next
    case (decrypt s rnd now h ct ad s' r')
    then show ?case using Decrypt_cache[of s P rnd now h ct ad] by simp
  qed
  then show ?thesis by (simp add: bounded_cache_def MaxSkippedKeys_def)
qed

theorem skipped_keys_bounded_witness:
  "gm_ok (dr_SkippedKeys (NewDoubleRatchetStateResponder 0 ''s'' [1] [2] [3] [4] [5])) \<and>
   gm_len (dr_SkippedKeys (NewDoubleRatchetStateResponder 0 ''s'' [1] [2] [3] [4] [5])) \<le> 256"
  by (rule skipped_keys_bounded[OF reach.responder[of toy]])

text \<open>A replayed message desynchronises the chain: when a message already delivered arrives a
  second time, \<open>Decrypt\<close> uses up the next chain key \<open>c\<close> on it, and the genuine message number \<open>c\<close>
  that follows is opened with the message key \<open>c + 1\<close> instead of its own. The code neither
  rejects a message number below the counter nor restores the state after a failed decryption.\<close>

theorem replay_desynchronises:
  assumes inv: "recv_inv P pub k0 L D s" and n: "n \<in> D"
    and h: "rh_DHRatchetPub h = Some pub" "rh_MessageNumber h = of_nat n"
    and c: "c = unat (dr_ReceivingChainCount s)" "c + 2 < 2 ^ 32"
    and h': "rh_DHRatchetPub h' = Some pub" "rh_MessageNumber h' = of_nat c"
  shows "\<exists>s1. Decrypt P rnd now h ct ad s = (s1, decryptWithKey P (msg_key P k0 c) (of_nat n) ct ad) \<and>
    snd (Decrypt P rnd' now' h' ct' ad' s1) = decryptWithKey P (msg_key P k0 (Suc c)) (of_nat c) ct' ad'"
proof -
  have nc: "n < c" using inv n c(1) by (auto simp: recv_inv_def)
  then have un: "unat (of_nat n :: u32) = n" using c(2) by (simp add: unat_of_nat_u32)
  have uc: "unat (of_nat c :: u32) = c" "dr_ReceivingChainCount s = of_nat c" "unat (of_nat c + 1 :: u32) = Suc c"
    using c by (simp_all add: unat_of_nat_u32 unat_word_ariths)
  have inv': "dr_DHReceivingKeyPub s = Some pub" "dr_ReceivingChainKey s = Some (chain_key P k0 c)"
    "gm_get (dr_SkippedKeys s) (skippedKeyString (Some pub) (of_nat n)) = None"
    "gm_get (dr_SkippedKeys s) (skippedKeyString (Some pub) (of_nat c)) = None"
    using inv n un uc(1) c(1) by (auto simp: recv_inv_def cached_def)
  let ?s1 = "s\<lparr>dr_ReceivingChainKey := Some (chain_key P k0 (Suc c)),
       dr_ReceivingChainCount := of_nat c + 1, dr_LastUsedAt := now\<rparr>"
  have cur: "decrypt_ratchet P r g u = (u, Inr ())"
    if "rh_DHRatchetPub g = Some pub" "dr_DHReceivingKeyPub u = Some pub" for r g u
    using that by (simp add: decrypt_ratchet_def equalKeys_def)
  have "Decrypt P rnd now h ct ad s = (?s1, decryptWithKey P (msg_key P k0 c) (of_nat n) ct ad)"
    using Decrypt_stale[of P rnd h s now ct ad, OF cur] h inv' nc un uc
    by (simp add: word_le_nat_alt KDF_CK_chain del: chain_key.simps)
  moreover have "snd (Decrypt P rnd' now' h' ct' ad' ?s1) = decryptWithKey P (msg_key P k0 (Suc c)) (of_nat c) ct' ad'"
    using Decrypt_stale[of P rnd' h' ?s1 now' ct' ad', OF cur] h' inv' uc
    by (simp add: word_le_nat_alt KDF_CK_chain del: chain_key.simps)
  ultimately show ?thesis by blast
qed

theorem replay_desynchronises_witness:
  "\<exists>s1. Decrypt toy (Inr []) 5 \<lparr>rh_DHRatchetPub = Some [8], rh_PreviousChainLen = 0, rh_MessageNumber = of_nat 0\<rparr> [1] []
      ((NewDoubleRatchetStateResponder 0 ''s'' [2] [1] [7] [3] [3])
        \<lparr>dr_DHReceivingKeyPub := Some [8], dr_ReceivingChainKey := Some (chain_key toy [4] 1), dr_ReceivingChainCount := 1\<rparr>)
      = (s1, decryptWithKey toy (msg_key toy [4] 1) (of_nat 0) [1] []) \<and>
    snd (Decrypt toy (Inr []) 6 \<lparr>rh_DHRatchetPub = Some [8], rh_PreviousChainLen = 0, rh_MessageNumber = of_nat 1\<rparr> [2] [] s1)
      = decryptWithKey toy (msg_key toy [4] (Suc 1)) (of_nat 1) [2] []"
  by (rule replay_desynchronises[where D = "{0}" and L = 0 and pub = "[8]"])
    (auto simp: recv_inv_def cached_def NewDoubleRatchetStateResponder_def)

text \<open>A late message of an earlier chain resets the receiving chain: even when its key is cached
  and its plaintext is returned, \<open>Decrypt\<close> has already treated the old ratchet key in the header
  as a new one. It leaves the session with the old key as receiving key, a receiving chain derived
  from the current root key and that old key, and the counter at 0, so the sender's current chain is
  lost. The skipped-key lookup comes after the DH ratchet step instead of before it.\<close>

theorem late_message_resets_chain:
  assumes s: "dr_DHReceivingKeyPub s = Some R" "X \<noteq> R" "dr_DHSendingKeyPriv s = Some p"
    and h: "rh_DHRatchetPub h = Some X"
    and key: "gm_get (dr_SkippedKeys s) (skippedKeyString (Some X) (rh_MessageNumber h)) = Some k"
      "decryptWithKey P k (rh_MessageNumber h) ct ad = Inr m"
    and dh: "X25519 P p X = Inr d" "X25519 P r (Basepoint P) = Inr Z" "X25519 P r X = Inr d'"
  shows "\<exists>s'. Decrypt P (Inr r) now h ct ad s = (s', Inr m) \<and> dr_DHReceivingKeyPub s' = Some X \<and>
    dr_ReceivingChainCount s' = 0 \<and> dr_ReceivingChainKey s' = Some (snd (KDF_RK P (dr_RootKey s) d))"
proof -
  let ?s1 = "cacheSkippedKeys P (rh_PreviousChainLen h) s"
  have s1: "dr_DHSendingKeyPriv ?s1 = Some p" "dr_RootKey ?s1 = dr_RootKey s"
    "gm_get (dr_SkippedKeys ?s1) (skippedKeyString (Some X) (rh_MessageNumber h)) = Some k"
    using advance_loop_frame[of P _ s] advance_loop_other_chain[OF s(1,2)] s key(1)
    by (simp_all add: cacheSkippedKeys_def)
  obtain rk ck where rk: "KDF_RK P (dr_RootKey s) d = (rk, ck)" by fastforce
  obtain rk2 ck2 where rk2: "KDF_RK P rk d' = (rk2, ck2)" by fastforce
  have "\<exists>s2. decrypt_ratchet P (Inr r) h s = (s2, Inr ()) \<and> dr_DHReceivingKeyPub s2 = Some X \<and>
      dr_ReceivingChainCount s2 = 0 \<and> dr_ReceivingChainKey s2 = Some ck \<and> dr_SkippedKeys s2 = dr_SkippedKeys ?s1"
    using s h s1 dh rk dhRatchetSend_ok[OF _ dh(2,3)] rk2
    by (simp add: decrypt_ratchet_def dhRatchetReceive_def equalKeys_def Let_def)
  then show ?thesis
    using h s1(3) key(2) rk by (auto simp: Decrypt_def getSkippedKey_def)
qed

theorem late_message_resets_chain_witness:
  "\<exists>s'. Decrypt toy (Inr (replicate 32 9)) 5 \<lparr>rh_DHRatchetPub = Some (replicate 32 4), rh_PreviousChainLen = 0, rh_MessageNumber = 0\<rparr>
      (toy_seal (replicate 32 6) (projr (DeriveNonce toy (replicate 32 6) 0)) [42] []) []
      ((NewDoubleRatchetStateResponder 0 ''s'' [2] [1] (replicate 32 7) (replicate 32 3) (replicate 32 3))
        \<lparr>dr_DHReceivingKeyPub := Some (replicate 32 5),
         dr_SkippedKeys := [(skippedKeyString (Some (replicate 32 4)) 0, replicate 32 6)]\<rparr>) = (s', Inr [42]) \<and>
    dr_DHReceivingKeyPub s' = Some (replicate 32 4) \<and> dr_ReceivingChainCount s' = 0 \<and>
    dr_ReceivingChainKey s' = Some (snd (KDF_RK toy (replicate 32 7) (vec_add (replicate 32 3) (replicate 32 4))))"
  using late_message_resets_chain[where P = toy and X = "replicate 32 4" and R = "replicate 32 5" and p = "replicate 32 3"
      and r = "replicate 32 9" and m = "[42]" and k = "replicate 32 6" and now = 5 and ad = "[]"
      and d = "vec_add (replicate 32 3) (replicate 32 4)" and Z = "replicate 32 9" and d' = "vec_add (replicate 32 9) (replicate 32 4)"
      and h = "\<lparr>rh_DHRatchetPub = Some (replicate 32 4), rh_PreviousChainLen = 0, rh_MessageNumber = 0\<rparr>"
      and ct = "toy_seal (replicate 32 6) (projr (DeriveNonce toy (replicate 32 6) 0)) [42] []"
      and s = "(NewDoubleRatchetStateResponder 0 ''s'' [2] [1] (replicate 32 7) (replicate 32 3) (replicate 32 3))
        \<lparr>dr_DHReceivingKeyPub := Some (replicate 32 5),
         dr_SkippedKeys := [(skippedKeyString (Some (replicate 32 4)) 0, replicate 32 6)]\<rparr>"]
  by (simp add: NewDoubleRatchetStateResponder_def vec_add_zero gm_get_def decryptWithKey_def DeriveNonce_def
      toy_new_def toy_open_def toy_seal_def replicate_eq_replicate)

end
