(* ===== verification/Wire.thy ===== *)
theory Wire
  imports Prelude
begin

text \<open>
  The protobuf messages that the components exchange and store (\<open>pkg/proto/message.pb.go\<close>, the
  fields of the generated structs) and the protobuf library itself, which is not code of the
  repository: \<open>proto.Marshal\<close> and \<open>proto.Unmarshal\<close> for one message type are the two fields of a
  record \<open>codec\<close>, and \<open>codec_ok\<close> is the documented round trip. A nil byte slice is the empty
  slice: the code reads these fields by length and content only. Enums are \<open>int32\<close> in Go, so they
  are words here and may hold any value.
\<close>

section \<open>Messages\<close>

type_synonym GroupType = "32 word"
type_synonym GroupRole = "32 word"

record Contact =
  ct_PublicKey :: bytes
  ct_DisplayName :: string
  ct_CreatedAt :: u64
  ct_X25519PublicKey :: bytes
  ct_PeerId :: string
  ct_Multiaddrs :: "string list"
  ct_LastSeen :: u64

record Envelope =
  ev_Ciphertext :: bytes
  ev_EphemeralPubkey :: bytes
  ev_Nonce :: bytes

record SignedEnvelope =
  se_Envelope :: bytes
  se_Signature :: bytes
  se_SenderPubkey :: bytes
  se_EncryptedEphemeralPriv :: bytes

record pb_GroupMember =
  pm_Ed25519Pubkey :: bytes
  pm_X25519Pubkey :: bytes
  pm_DisplayName :: string
  pm_JoinedAt :: u64
  pm_Role :: GroupRole

record pb_GroupState =
  pg_GroupId :: bytes
  pg_Epoch :: u64
  pg_Name :: string
  pg_Description :: string
  pg_AvatarCid :: string
  pg_Type :: GroupType
  pg_Members :: "pb_GroupMember list"
  pg_CreatorPubkey :: bytes
  pg_CreatedAt :: u64
  pg_UpdatedAt :: u64
  pg_StateSignature :: bytes
  pg_PreviousHash :: bytes

record SenderKeyDistribution =
  skd_GroupId :: bytes
  skd_Epoch :: u64
  skd_SenderPub :: bytes
  skd_ChainKey :: bytes
  skd_SigningKey :: bytes
  skd_ChainIndex :: u32

text \<open>The \<open>Content\<close> oneof of a group payload: \<open>Some\<close> for the ciphertext alternative, \<open>None\<close> for any
  other or none.\<close>

record GroupPayload =
  gp_Epoch :: u64
  gp_ChainIndex :: u32
  gp_Ciphertext :: "bytes option"
  gp_SenderGroupSignature :: bytes

record pb_ModerationAction =
  pma_TargetMemberPubkey :: bytes
  pma_ActionType :: string
  pma_Reason :: string
  pma_DurationSeconds :: u64
  pma_TargetMessageId :: bytes
  pma_ModeratorPubkey :: bytes
  pma_Timestamp :: u64
  pma_Signature :: bytes

record ChannelState =
  ch_ChannelId :: bytes
  ch_Name :: string
  ch_Description :: string
  ch_AvatarCid :: string
  ch_Type :: GroupType
  ch_OwnerPubkey :: bytes
  ch_CreatedAt :: u64
  ch_UpdatedAt :: u64
  ch_LatestPostCid :: bytes
  ch_SubscriberCount :: u64
  ch_StateSignature :: bytes

record TextMessage =
  tm_Text :: string
  tm_Language :: string

record MediaMessage =
  mdm_Cid :: string
  mdm_ContentType :: string
  mdm_SizeBytes :: u64
  mdm_Filename :: string
  mdm_Thumbnail :: bytes
  mdm_MediaKey :: bytes
  mdm_MediaHash :: bytes
  mdm_Width :: u32
  mdm_Height :: u32
  mdm_DurationMs :: u32

record EditMessage =
  em_TargetMessageId :: bytes
  em_NewText :: string
  em_EditTimestamp :: u64

record pb_DeleteMessage =
  dlm_TargetMessageId :: bytes

text \<open>The \<open>Content\<close> oneof of a channel post; a post without content has \<open>None\<close>.\<close>

datatype isChannelPost_Content =
    ChannelPost_Text TextMessage
  | ChannelPost_Media MediaMessage
  | ChannelPost_Edit EditMessage
  | ChannelPost_DeleteMsg pb_DeleteMessage

record ChannelPost =
  cp_PostId :: bytes
  cp_ChannelId :: bytes
  cp_AuthorPubkey :: bytes
  cp_Timestamp :: u64
  cp_Content :: "isChannelPost_Content option"
  cp_PreviousPostCid :: bytes
  cp_Signature :: bytes

section \<open>The protobuf library\<close>

record 'm codec =
  marshal :: "'m \<Rightarrow> bytes res"
  unmarshal :: "bytes \<Rightarrow> 'm res"

text \<open>Every message can be marshalled, and unmarshalling what was marshalled gives it back.\<close>

definition codec_ok :: "'m codec \<Rightarrow> bool" where
  "codec_ok C \<longleftrightarrow> (\<forall>m. \<exists>b. marshal C m = Inr b \<and> unmarshal C b = Inr m)"

lemma codec_okD: "codec_ok C \<Longrightarrow> \<exists>b. marshal C m = Inr b \<and> unmarshal C b = Inr m"
  by (simp add: codec_ok_def)

lemma codec_ok_marshal:
  assumes "codec_ok C"
  obtains b where "marshal C m = Inr b" "unmarshal C b = Inr m"
  using codec_okD[OF assms] by blast

lemma codec_unmarshal_marshal:
  "codec_ok C \<Longrightarrow> marshal C m = Inr b \<Longrightarrow> unmarshal C b = Inr m"
  by (metis codec_okD sum.inject(2))

end
