(* ===== verification/RefCodec.thy ===== *)
theory RefCodec
  imports Wire
begin

text \<open>
  A reference serialisation. Protobuf and JSON are parameters of the model; this theory builds one
  concrete, executable codec for every message type from a few combinators and proves its round
  trip, so that the hypotheses on the codecs are shown to hold together. Lists are written with a
  tag byte before each element, so the combinators need no length bound.
\<close>

type_synonym 'a ser = "('a \<Rightarrow> bytes) \<times> (bytes \<Rightarrow> ('a \<times> bytes) option)"

definition ser_ok :: "'a ser \<Rightarrow> bool" where
  "ser_ok s \<longleftrightarrow> (\<forall>x r. snd s (fst s x @ r) = Some (x, r))"

lemma ser_okD: "ser_ok s \<Longrightarrow> snd s (fst s x @ r) = Some (x, r)"
  by (simp add: ser_ok_def)

section \<open>Combinators\<close>

definition s_byte :: "byte ser" where
  "s_byte = (\<lambda>b. [b], \<lambda>bs. case bs of [] \<Rightarrow> None | b # r \<Rightarrow> Some (b, r))"

definition s_u32 :: "u32 ser" where
  "s_u32 = (le_bytes 4, \<lambda>bs. if length bs < 4 then None else Some (le_uint (take 4 bs), drop 4 bs))"

definition s_u64 :: "u64 ser" where
  "s_u64 = (le_bytes 8, \<lambda>bs. if length bs < 8 then None else Some (le_uint (take 8 bs), drop 8 bs))"

definition s_pair :: "'a ser \<Rightarrow> 'b ser \<Rightarrow> ('a \<times> 'b) ser" where
  "s_pair s t = (\<lambda>(x, y). fst s x @ fst t y,
     \<lambda>bs. case snd s bs of None \<Rightarrow> None | Some (x, r) \<Rightarrow>
       (case snd t r of None \<Rightarrow> None | Some (y, r') \<Rightarrow> Some ((x, y), r')))"

definition s_iso :: "('b \<Rightarrow> 'a) \<Rightarrow> ('a \<Rightarrow> 'b) \<Rightarrow> 'a ser \<Rightarrow> 'b ser" where
  "s_iso f g s = (fst s \<circ> f, \<lambda>bs. map_option (\<lambda>(x, r). (g x, r)) (snd s bs))"

fun put_list :: "('a \<Rightarrow> bytes) \<Rightarrow> 'a list \<Rightarrow> bytes" where
  "put_list p [] = [0]"
| "put_list p (x # xs) = 1 # p x @ put_list p xs"

fun get_list :: "(bytes \<Rightarrow> ('a \<times> bytes) option) \<Rightarrow> nat \<Rightarrow> bytes \<Rightarrow> ('a list \<times> bytes) option" where
  "get_list g 0 bs = None"
| "get_list g (Suc n) [] = None"
| "get_list g (Suc n) (b # r) =
     (if b = 0 then Some ([], r)
      else case g r of None \<Rightarrow> None | Some (x, r') \<Rightarrow>
        (case get_list g n r' of None \<Rightarrow> None | Some (xs, r'') \<Rightarrow> Some (x # xs, r'')))"

definition s_list :: "'a ser \<Rightarrow> 'a list ser" where
  "s_list s = (put_list (fst s), \<lambda>bs. get_list (snd s) (length bs) bs)"

definition s_bytes :: "bytes ser" where "s_bytes = s_list s_byte"

definition s_char :: "char ser" where
  "s_char = s_iso (\<lambda>c. of_char c) (\<lambda>b. char_of (unat b)) s_byte"

definition s_string :: "string ser" where "s_string = s_list s_char"

definition s_int :: "int ser" where
  "s_int = s_iso (\<lambda>i. (if i < 0 then 1 else 0, dec_of_nat (nat \<bar>i\<bar>)))
     (\<lambda>(sg, s). if sg = 0 then int (dec_val s) else - int (dec_val s)) (s_pair s_byte s_string)"

definition s_opt :: "'a ser \<Rightarrow> 'a option ser" where
  "s_opt s = s_iso (\<lambda>x. case x of None \<Rightarrow> [] | Some y \<Rightarrow> [y])
     (\<lambda>l. case l of [] \<Rightarrow> None | y # _ \<Rightarrow> Some y) (s_list s)"

definition s_bool :: "bool ser" where
  "s_bool = s_iso (\<lambda>b. if b then 1 else 0) (\<lambda>x. x = 1) s_byte"

definition s_sum :: "'a ser \<Rightarrow> 'b ser \<Rightarrow> ('a + 'b) ser" where
  "s_sum s t = (\<lambda>x. case x of Inl a \<Rightarrow> 0 # fst s a | Inr b \<Rightarrow> 1 # fst t b,
     \<lambda>bs. case bs of [] \<Rightarrow> None
       | tag # r \<Rightarrow> if tag = 0 then map_option (\<lambda>(a, r'). (Inl a, r')) (snd s r) else map_option (\<lambda>(b, r'). (Inr b, r')) (snd t r))"

definition codec_of :: "'m ser \<Rightarrow> 'm codec" where
  "codec_of s = \<lparr>marshal = (\<lambda>m. Inr (fst s m)),
     unmarshal = (\<lambda>b. case snd s b of Some (m, []) \<Rightarrow> Inr m | _ \<Rightarrow> Inl (Err ''malformed message''))\<rparr>"

named_theorems ser_intros \<open>round trips of the serialisation combinators\<close>

lemma s_byte_ok [ser_intros]: "ser_ok s_byte"
  by (simp add: ser_ok_def s_byte_def)

lemma s_u32_ok [ser_intros]: "ser_ok s_u32"
  by (simp add: ser_ok_def s_u32_def)

lemma s_u64_ok [ser_intros]: "ser_ok s_u64"
  by (simp add: ser_ok_def s_u64_def)

lemma s_pair_ok [ser_intros]: "ser_ok s \<Longrightarrow> ser_ok t \<Longrightarrow> ser_ok (s_pair s t)"
  by (simp add: ser_ok_def s_pair_def)

lemma s_iso_ok: "ser_ok s \<Longrightarrow> (\<And>x. g (f x) = x) \<Longrightarrow> ser_ok (s_iso f g s)"
  by (simp add: ser_ok_def s_iso_def)

lemma get_put_list:
  "ser_ok s \<Longrightarrow> length xs < n \<Longrightarrow> get_list (snd s) n (put_list (fst s) xs @ r) = Some (xs, r)"
proof (induction xs arbitrary: n)
  case Nil
  then show ?case by (cases n) simp_all
next
  case (Cons x xs)
  then show ?case by (cases n) (simp_all add: ser_okD)
qed

lemma length_put_list: "length xs < length (put_list p xs)"
  by (induction xs) simp_all

lemma s_list_ok [ser_intros]: "ser_ok s \<Longrightarrow> ser_ok (s_list s)"
proof -
  assume s: "ser_ok s"
  have "get_list (snd s) (length (put_list (fst s) xs @ r)) (put_list (fst s) xs @ r) = Some (xs, r)" for xs r
    by (rule get_put_list[OF s]) (use length_put_list[of xs "fst s"] in simp)
  then show ?thesis by (simp add: ser_ok_def s_list_def)
qed

lemma s_bytes_ok [ser_intros]: "ser_ok s_bytes"
  unfolding s_bytes_def by (intro ser_intros)

lemma s_char_ok [ser_intros]: "ser_ok s_char"
  unfolding s_char_def by (rule s_iso_ok[OF s_byte_ok]) (simp add: unat_of_char)

lemma s_string_ok [ser_intros]: "ser_ok s_string"
  unfolding s_string_def by (intro ser_intros)

lemma s_int_ok [ser_intros]: "ser_ok s_int"
  unfolding s_int_def
  by (rule s_iso_ok[OF s_pair_ok[OF s_byte_ok s_string_ok]]) (simp add: dec_val_of_nat)

lemma s_opt_ok [ser_intros]: "ser_ok s \<Longrightarrow> ser_ok (s_opt s)"
  unfolding s_opt_def by (rule s_iso_ok[OF s_list_ok]) (simp_all split: option.split)

lemma s_bool_ok [ser_intros]: "ser_ok s_bool"
  unfolding s_bool_def by (rule s_iso_ok[OF s_byte_ok]) simp

lemma s_sum_ok [ser_intros]: "ser_ok s \<Longrightarrow> ser_ok t \<Longrightarrow> ser_ok (s_sum s t)"
  by (simp add: ser_ok_def s_sum_def split: sum.split)

lemma codec_of_ok: "ser_ok s \<Longrightarrow> codec_ok (codec_of s)"
  using ser_okD[of s _ "[]"] by (simp add: codec_ok_def codec_of_def)

lemma put_bytes_length: "length (fst s_bytes xs) = 2 * length xs + 1"
  unfolding s_bytes_def s_list_def by (induction xs) (simp_all add: s_byte_def)

lemma put_string_length: "length (fst s_string xs) = 2 * length xs + 1"
  unfolding s_string_def s_list_def by (induction xs) (simp_all add: s_char_def s_iso_def s_byte_def)

section \<open>The message types\<close>

definition ser_Contact :: "Contact ser" where
  "ser_Contact = s_iso
     (\<lambda>c. (ct_PublicKey c, ct_DisplayName c, ct_CreatedAt c, ct_X25519PublicKey c, ct_PeerId c, ct_Multiaddrs c, ct_LastSeen c))
     (\<lambda>(a, b, c, d, e, f, g). \<lparr>ct_PublicKey = a, ct_DisplayName = b, ct_CreatedAt = c, ct_X25519PublicKey = d,
        ct_PeerId = e, ct_Multiaddrs = f, ct_LastSeen = g\<rparr>)
     (s_pair s_bytes (s_pair s_string (s_pair s_u64 (s_pair s_bytes (s_pair s_string (s_pair (s_list s_string) s_u64))))))"

definition ser_Envelope :: "Envelope ser" where
  "ser_Envelope = s_iso (\<lambda>e. (ev_Ciphertext e, ev_EphemeralPubkey e, ev_Nonce e))
     (\<lambda>(a, b, c). \<lparr>ev_Ciphertext = a, ev_EphemeralPubkey = b, ev_Nonce = c\<rparr>) (s_pair s_bytes (s_pair s_bytes s_bytes))"

definition ser_SignedEnvelope :: "SignedEnvelope ser" where
  "ser_SignedEnvelope = s_iso (\<lambda>e. (se_Envelope e, se_Signature e, se_SenderPubkey e, se_EncryptedEphemeralPriv e))
     (\<lambda>(a, b, c, d). \<lparr>se_Envelope = a, se_Signature = b, se_SenderPubkey = c, se_EncryptedEphemeralPriv = d\<rparr>)
     (s_pair s_bytes (s_pair s_bytes (s_pair s_bytes s_bytes)))"

definition ser_GroupMember :: "pb_GroupMember ser" where
  "ser_GroupMember = s_iso (\<lambda>m. (pm_Ed25519Pubkey m, pm_X25519Pubkey m, pm_DisplayName m, pm_JoinedAt m, pm_Role m))
     (\<lambda>(a, b, c, d, e). \<lparr>pm_Ed25519Pubkey = a, pm_X25519Pubkey = b, pm_DisplayName = c, pm_JoinedAt = d, pm_Role = e\<rparr>)
     (s_pair s_bytes (s_pair s_bytes (s_pair s_string (s_pair s_u64 s_u32))))"

definition ser_GroupState :: "pb_GroupState ser" where
  "ser_GroupState = s_iso
     (\<lambda>g. (pg_GroupId g, pg_Epoch g, pg_Name g, pg_Description g, pg_AvatarCid g, pg_Type g, pg_Members g,
        pg_CreatorPubkey g, pg_CreatedAt g, pg_UpdatedAt g, pg_StateSignature g, pg_PreviousHash g))
     (\<lambda>(a, b, c, d, e, f, g, h, i, j, k, l). \<lparr>pg_GroupId = a, pg_Epoch = b, pg_Name = c, pg_Description = d,
        pg_AvatarCid = e, pg_Type = f, pg_Members = g, pg_CreatorPubkey = h, pg_CreatedAt = i, pg_UpdatedAt = j,
        pg_StateSignature = k, pg_PreviousHash = l\<rparr>)
     (s_pair s_bytes (s_pair s_u64 (s_pair s_string (s_pair s_string (s_pair s_string (s_pair s_u32
       (s_pair (s_list ser_GroupMember) (s_pair s_bytes (s_pair s_u64 (s_pair s_u64 (s_pair s_bytes s_bytes)))))))))))"

definition ser_SenderKeyDistribution :: "SenderKeyDistribution ser" where
  "ser_SenderKeyDistribution = s_iso
     (\<lambda>k. (skd_GroupId k, skd_Epoch k, skd_SenderPub k, skd_ChainKey k, skd_SigningKey k, skd_ChainIndex k))
     (\<lambda>(a, b, c, d, e, f). \<lparr>skd_GroupId = a, skd_Epoch = b, skd_SenderPub = c, skd_ChainKey = d, skd_SigningKey = e,
        skd_ChainIndex = f\<rparr>)
     (s_pair s_bytes (s_pair s_u64 (s_pair s_bytes (s_pair s_bytes (s_pair s_bytes s_u32)))))"

definition ser_ModerationAction :: "pb_ModerationAction ser" where
  "ser_ModerationAction = s_iso
     (\<lambda>a. (pma_TargetMemberPubkey a, pma_ActionType a, pma_Reason a, pma_DurationSeconds a, pma_TargetMessageId a,
        pma_ModeratorPubkey a, pma_Timestamp a, pma_Signature a))
     (\<lambda>(a, b, c, d, e, f, g, h). \<lparr>pma_TargetMemberPubkey = a, pma_ActionType = b, pma_Reason = c,
        pma_DurationSeconds = d, pma_TargetMessageId = e, pma_ModeratorPubkey = f, pma_Timestamp = g, pma_Signature = h\<rparr>)
     (s_pair s_bytes (s_pair s_string (s_pair s_string (s_pair s_u64 (s_pair s_bytes (s_pair s_bytes (s_pair s_u64 s_bytes)))))))"

definition ser_ChannelState :: "ChannelState ser" where
  "ser_ChannelState = s_iso
     (\<lambda>c. (ch_ChannelId c, ch_Name c, ch_Description c, ch_AvatarCid c, ch_Type c, ch_OwnerPubkey c, ch_CreatedAt c,
        ch_UpdatedAt c, ch_LatestPostCid c, ch_SubscriberCount c, ch_StateSignature c))
     (\<lambda>(a, b, c, d, e, f, g, h, i, j, k). \<lparr>ch_ChannelId = a, ch_Name = b, ch_Description = c, ch_AvatarCid = d,
        ch_Type = e, ch_OwnerPubkey = f, ch_CreatedAt = g, ch_UpdatedAt = h, ch_LatestPostCid = i,
        ch_SubscriberCount = j, ch_StateSignature = k\<rparr>)
     (s_pair s_bytes (s_pair s_string (s_pair s_string (s_pair s_string (s_pair s_u32 (s_pair s_bytes (s_pair s_u64
       (s_pair s_u64 (s_pair s_bytes (s_pair s_u64 s_bytes))))))))))"

definition ser_TextMessage :: "TextMessage ser" where
  "ser_TextMessage = s_iso (\<lambda>r. (tm_Text r, tm_Language r))
     (\<lambda>(x0, x1). \<lparr>tm_Text = x0, tm_Language = x1\<rparr>)
     (s_pair s_string s_string)"

definition ser_MediaMessage :: "MediaMessage ser" where
  "ser_MediaMessage = s_iso (\<lambda>r. (mdm_Cid r, mdm_ContentType r, mdm_SizeBytes r, mdm_Filename r, mdm_Thumbnail r, mdm_MediaKey r, mdm_MediaHash r, mdm_Width r, mdm_Height r, mdm_DurationMs r))
     (\<lambda>(x0, x1, x2, x3, x4, x5, x6, x7, x8, x9). \<lparr>mdm_Cid = x0, mdm_ContentType = x1, mdm_SizeBytes = x2, mdm_Filename = x3, mdm_Thumbnail = x4, mdm_MediaKey = x5, mdm_MediaHash = x6, mdm_Width = x7, mdm_Height = x8, mdm_DurationMs = x9\<rparr>)
     (s_pair s_string (s_pair s_string (s_pair s_u64 (s_pair s_string (s_pair s_bytes (s_pair s_bytes (s_pair s_bytes (s_pair s_u32 (s_pair s_u32 s_u32)))))))))"

definition ser_EditMessage :: "EditMessage ser" where
  "ser_EditMessage = s_iso (\<lambda>r. (em_TargetMessageId r, em_NewText r, em_EditTimestamp r))
     (\<lambda>(x0, x1, x2). \<lparr>em_TargetMessageId = x0, em_NewText = x1, em_EditTimestamp = x2\<rparr>)
     (s_pair s_bytes (s_pair s_string s_u64))"

definition ser_pb_DeleteMessage :: "pb_DeleteMessage ser" where
  "ser_pb_DeleteMessage = s_iso dlm_TargetMessageId (\<lambda>x. \<lparr>dlm_TargetMessageId = x\<rparr>) s_bytes"

lemma ser_TextMessage_ok [ser_intros]: "ser_ok ser_TextMessage"
  unfolding ser_TextMessage_def by (rule s_iso_ok, intro ser_intros, simp)

lemma ser_MediaMessage_ok [ser_intros]: "ser_ok ser_MediaMessage"
  unfolding ser_MediaMessage_def by (rule s_iso_ok, intro ser_intros, simp)

lemma ser_EditMessage_ok [ser_intros]: "ser_ok ser_EditMessage"
  unfolding ser_EditMessage_def by (rule s_iso_ok, intro ser_intros, simp)

lemma ser_pb_DeleteMessage_ok [ser_intros]: "ser_ok ser_pb_DeleteMessage"
  unfolding ser_pb_DeleteMessage_def by (rule s_iso_ok, intro ser_intros, simp)

definition ser_Content :: "isChannelPost_Content ser" where
  "ser_Content = s_iso
     (\<lambda>c. case c of ChannelPost_Text m \<Rightarrow> Inl (Inl m) | ChannelPost_Media m \<Rightarrow> Inl (Inr m)
        | ChannelPost_Edit m \<Rightarrow> Inr (Inl m) | ChannelPost_DeleteMsg m \<Rightarrow> Inr (Inr m))
     (\<lambda>x. case x of Inl (Inl m) \<Rightarrow> ChannelPost_Text m | Inl (Inr m) \<Rightarrow> ChannelPost_Media m
        | Inr (Inl m) \<Rightarrow> ChannelPost_Edit m | Inr (Inr m) \<Rightarrow> ChannelPost_DeleteMsg m)
     (s_sum (s_sum ser_TextMessage ser_MediaMessage) (s_sum ser_EditMessage ser_pb_DeleteMessage))"

lemma ser_Content_ok [ser_intros]: "ser_ok ser_Content"
  unfolding ser_Content_def by (rule s_iso_ok, intro ser_intros) (simp split: isChannelPost_Content.split)

definition ser_ChannelPost :: "ChannelPost ser" where
  "ser_ChannelPost = s_iso
     (\<lambda>p. (cp_PostId p, cp_ChannelId p, cp_AuthorPubkey p, cp_Timestamp p, cp_Content p, cp_PreviousPostCid p, cp_Signature p))
     (\<lambda>(a, b, c, d, e, f, g). \<lparr>cp_PostId = a, cp_ChannelId = b, cp_AuthorPubkey = c, cp_Timestamp = d, cp_Content = e,
        cp_PreviousPostCid = f, cp_Signature = g\<rparr>)
     (s_pair s_bytes (s_pair s_bytes (s_pair s_bytes (s_pair s_u64 (s_pair (s_opt ser_Content) (s_pair s_bytes s_bytes))))))"

lemma ser_messages_ok:
  "ser_ok ser_Contact" "ser_ok ser_Envelope" "ser_ok ser_SignedEnvelope" "ser_ok ser_GroupMember"
  "ser_ok ser_SenderKeyDistribution" "ser_ok ser_ModerationAction" "ser_ok ser_ChannelState" "ser_ok ser_ChannelPost"
  unfolding ser_Contact_def ser_Envelope_def ser_SignedEnvelope_def ser_GroupMember_def
    ser_SenderKeyDistribution_def ser_ModerationAction_def ser_ChannelState_def ser_ChannelPost_def
  by (rule s_iso_ok, intro ser_intros, simp)+

lemma ser_GroupState_ok: "ser_ok ser_GroupState"
  unfolding ser_GroupState_def
  by (rule s_iso_ok, intro ser_intros ser_messages_ok, simp)

end
