(* ===== verification/GroupState.thy ===== *)
theory GroupState
  imports Crypto RefCodec "HOL-Library.List_Lexorder" "HOL-Library.Multiset"
begin

text \<open>
  \<open>pkg/groups/state.go\<close>: the state of a group, its conversion to protobuf, hashing and signing, the
  validation of state updates, split-brain resolution, membership, and the sender-key chain.
  Protobuf marshalling of a group state is the parameter \<open>K\<close>, the cryptographic primitives are \<open>P\<close>,
  the clock and the random reader are arguments. Numbers printed into error texts are dropped.
\<close>

section \<open>Types\<close>

definition GroupIDSize :: nat where "GroupIDSize = 32"
definition MaxGroupNameLength :: nat where "MaxGroupNameLength = 128"
definition MaxGroupDescriptionLength :: nat where "MaxGroupDescriptionLength = 512"
definition MaxGroupMembers :: nat where "MaxGroupMembers = 1000"

definition PrivateGroup :: GroupType where "PrivateGroup = 0"
definition PublicGroup :: GroupType where "PublicGroup = 1"
definition PrivateChannel :: GroupType where "PrivateChannel = 2"
definition PublicChannel :: GroupType where "PublicChannel = 3"

definition Member :: GroupRole where "Member = 0"
definition Admin :: GroupRole where "Admin = 1"
definition Owner :: GroupRole where "Owner = 2"

record GroupMember =
  mb_Ed25519Pubkey :: bytes
  mb_X25519Pubkey :: bytes
  mb_DisplayName :: string
  mb_JoinedAt :: u64
  mb_Role :: GroupRole

record GroupState =
  gs_GroupID :: bytes
  gs_Epoch :: u64
  gs_Name :: string
  gs_Description :: string
  gs_AvatarCID :: string
  gs_Type :: GroupType
  gs_Members :: "GroupMember list"
  gs_CreatorPubkey :: bytes
  gs_CreatedAt :: u64
  gs_UpdatedAt :: u64
  gs_StateSignature :: bytes
  gs_PreviousStateHash :: bytes

record GroupStateUpdate =
  gu_NewState :: GroupState
  gu_PreviousStateHash :: bytes
  gu_UpdaterPubkey :: bytes
  gu_UpdaterSignature :: bytes

record SenderKey =
  snk_GroupID :: bytes
  snk_SenderPubkey :: bytes
  snk_ChainKey :: bytes
  snk_SigningKey :: bytes
  snk_SigningKeyPriv :: bytes
  snk_ChainIndex :: u32
  snk_Epoch :: u64

section \<open>Operations on a group state\<close>

definition NewGroupState ::
    "bytes res \<Rightarrow> u64 \<Rightarrow> string \<Rightarrow> string \<Rightarrow> GroupType \<Rightarrow> bytes \<Rightarrow> bytes \<Rightarrow> GroupState res" where
  "NewGroupState rnd now name description groupType creatorPubkey creatorX25519Pubkey =
     (case rnd of
        Inl e \<Rightarrow> Inl (Wrap ''failed to generate group ID'' e)
      | Inr groupID \<Rightarrow>
          if length name > MaxGroupNameLength then Inl (Err ''group name exceeds maximum length'')
          else if length description > MaxGroupDescriptionLength then Inl (Err ''group description exceeds maximum length'')
          else Inr \<lparr>gs_GroupID = groupID, gs_Epoch = 1, gs_Name = name, gs_Description = description,
            gs_AvatarCID = '''', gs_Type = groupType,
            gs_Members = [\<lparr>mb_Ed25519Pubkey = creatorPubkey, mb_X25519Pubkey = creatorX25519Pubkey,
               mb_DisplayName = ''Creator'', mb_JoinedAt = now, mb_Role = Owner\<rparr>],
            gs_CreatorPubkey = creatorPubkey, gs_CreatedAt = now, gs_UpdatedAt = now,
            gs_StateSignature = [], gs_PreviousStateHash = []\<rparr>)"

definition member_to_proto :: "GroupMember \<Rightarrow> pb_GroupMember" where
  "member_to_proto m = \<lparr>pm_Ed25519Pubkey = mb_Ed25519Pubkey m, pm_X25519Pubkey = mb_X25519Pubkey m,
     pm_DisplayName = mb_DisplayName m, pm_JoinedAt = mb_JoinedAt m, pm_Role = mb_Role m\<rparr>"

definition GroupState_ToProto :: "GroupState \<Rightarrow> pb_GroupState" where
  "GroupState_ToProto gs = \<lparr>pg_GroupId = gs_GroupID gs, pg_Epoch = gs_Epoch gs, pg_Name = gs_Name gs,
     pg_Description = gs_Description gs, pg_AvatarCid = gs_AvatarCID gs, pg_Type = gs_Type gs,
     pg_Members = map member_to_proto (gs_Members gs), pg_CreatorPubkey = gs_CreatorPubkey gs,
     pg_CreatedAt = gs_CreatedAt gs, pg_UpdatedAt = gs_UpdatedAt gs,
     pg_StateSignature = gs_StateSignature gs, pg_PreviousHash = gs_PreviousStateHash gs\<rparr>"

definition member_from_proto :: "pb_GroupMember \<Rightarrow> GroupMember" where
  "member_from_proto m = \<lparr>mb_Ed25519Pubkey = pm_Ed25519Pubkey m, mb_X25519Pubkey = pm_X25519Pubkey m,
     mb_DisplayName = pm_DisplayName m, mb_JoinedAt = pm_JoinedAt m, mb_Role = pm_Role m\<rparr>"

definition FromProto :: "pb_GroupState \<Rightarrow> GroupState" where
  "FromProto p = \<lparr>gs_GroupID = pg_GroupId p, gs_Epoch = pg_Epoch p, gs_Name = pg_Name p,
     gs_Description = pg_Description p, gs_AvatarCID = pg_AvatarCid p, gs_Type = pg_Type p,
     gs_Members = map member_from_proto (pg_Members p), gs_CreatorPubkey = pg_CreatorPubkey p,
     gs_CreatedAt = pg_CreatedAt p, gs_UpdatedAt = pg_UpdatedAt p,
     gs_StateSignature = pg_StateSignature p, gs_PreviousStateHash = pg_PreviousHash p\<rparr>"

definition Serialize :: "pb_GroupState codec \<Rightarrow> GroupState \<Rightarrow> bytes res" where
  "Serialize K gs = wrapped ''failed to marshal group state'' (marshal K (GroupState_ToProto gs))"

definition ComputeHash :: "prims \<Rightarrow> pb_GroupState codec \<Rightarrow> GroupState \<Rightarrow> bytes res" where
  "ComputeHash P K gs = (case Serialize K gs of Inl e \<Rightarrow> Inl e | Inr data \<Rightarrow> Inr (sha256 P data))"

text \<open>The copy without the signature that is signed and verified.\<close>

definition unsigned_copy :: "GroupState \<Rightarrow> GroupState" where
  "unsigned_copy gs = gs\<lparr>gs_StateSignature := []\<rparr>"

definition GroupState_Sign :: "prims \<Rightarrow> pb_GroupState codec \<Rightarrow> bytes \<Rightarrow> GroupState \<Rightarrow> (GroupState, unit) eff" where
  "GroupState_Sign P K privKey gs =
     (case Serialize K (unsigned_copy gs) of
        Inl e \<Rightarrow> (gs, Inl (Wrap ''failed to serialize state'' e))
      | Inr data \<Rightarrow> (case ed25519_Sign P privKey data of
          Inl e \<Rightarrow> (gs, Inl e)
        | Inr signature \<Rightarrow> (gs\<lparr>gs_StateSignature := signature\<rparr>, Inr ())))"

definition VerifySignature :: "prims \<Rightarrow> pb_GroupState codec \<Rightarrow> bytes \<Rightarrow> GroupState \<Rightarrow> bool res" where
  "VerifySignature P K pubKey gs =
     (if length (gs_StateSignature gs) = 0 then Inr False
      else case Serialize K (unsigned_copy gs) of
        Inl e \<Rightarrow> Inr False
      | Inr data \<Rightarrow> ed25519_Verify P pubKey data (gs_StateSignature gs))"

definition updater_is_admin :: "bytes \<Rightarrow> GroupMember list \<Rightarrow> bool" where
  "updater_is_admin pk ms = list_ex (\<lambda>m. mb_Ed25519Pubkey m = pk \<and> (mb_Role m = Admin \<or> mb_Role m = Owner)) ms"

definition ValidateStateUpdate ::
    "prims \<Rightarrow> pb_GroupState codec \<Rightarrow> GroupStateUpdate \<Rightarrow> GroupState \<Rightarrow> unit res" where
  "ValidateStateUpdate P K update currentState =
     (case ComputeHash P K currentState of
        Inl e \<Rightarrow> Inl (Wrap ''failed to compute current state hash'' e)
      | Inr currentHash \<Rightarrow>
          if length (gu_PreviousStateHash update) > 0 \<and> length (gs_PreviousStateHash currentState) > 0
             \<and> gu_PreviousStateHash update \<noteq> currentHash
          then Inl (Err ''previous state hash mismatch'')
          else if gs_Epoch (gu_NewState update) \<le> gs_Epoch currentState
          then Inl (Err ''epoch must be strictly increasing'')
          else if \<not> updater_is_admin (gu_UpdaterPubkey update) (gs_Members currentState)
          then Inl (Err ''updater is not an admin or owner'')
          else case Serialize K (unsigned_copy (gu_NewState update)) of
            Inl e \<Rightarrow> Inl (Wrap ''failed to serialize new state'' e)
          | Inr data \<Rightarrow> (case ed25519_Verify P (gu_UpdaterPubkey update) data (gu_UpdaterSignature update) of
              Inl e \<Rightarrow> Inl e
            | Inr ok \<Rightarrow> if \<not> ok then Inl (Err ''invalid updater signature'') else Inr ()))"

fun split_brain_loop :: "GroupState \<Rightarrow> GroupState list \<Rightarrow> GroupState" where
  "split_brain_loop best [] = best"
| "split_brain_loop best (state # rest) =
     (if gs_Epoch state > gs_Epoch best then split_brain_loop state rest
      else if gs_Epoch state = gs_Epoch best then
        (if gs_CreatorPubkey state < gs_CreatorPubkey best then split_brain_loop state rest
         else split_brain_loop best rest)
      else split_brain_loop best rest)"

definition ResolveSplitBrain :: "GroupState list \<Rightarrow> GroupState option" where
  "ResolveSplitBrain states =
     (case states of
        [] \<Rightarrow> None
      | [s] \<Rightarrow> Some s
      | s # rest \<Rightarrow> Some (split_brain_loop s rest))"

definition IsMember :: "bytes \<Rightarrow> GroupState \<Rightarrow> bool" where
  "IsMember pubkey gs = list_ex (\<lambda>m. mb_Ed25519Pubkey m = pubkey) (gs_Members gs)"

definition GetMemberRole :: "bytes \<Rightarrow> GroupState \<Rightarrow> GroupRole" where
  "GetMemberRole pubkey gs =
     (case find (\<lambda>m. mb_Ed25519Pubkey m = pubkey) (gs_Members gs) of None \<Rightarrow> - 1 | Some m \<Rightarrow> mb_Role m)"

definition GroupState_AddMember :: "u64 \<Rightarrow> GroupMember \<Rightarrow> GroupState \<Rightarrow> (GroupState, unit) eff" where
  "GroupState_AddMember now member gs =
     (if length (gs_Members gs) \<ge> MaxGroupMembers then (gs, Inl (Err ''group has reached maximum member limit''))
      else if list_ex (\<lambda>m. mb_Ed25519Pubkey m = mb_Ed25519Pubkey member) (gs_Members gs)
      then (gs, Inl (Err ''member already in group''))
      else (gs\<lparr>gs_Members := gs_Members gs @ [member], gs_UpdatedAt := now\<rparr>, Inr ()))"

fun drop_first :: "bytes \<Rightarrow> GroupMember list \<Rightarrow> GroupMember list option" where
  "drop_first pubkey [] = None"
| "drop_first pubkey (m # ms) =
     (if mb_Ed25519Pubkey m = pubkey then Some ms else map_option ((#) m) (drop_first pubkey ms))"

definition GroupState_RemoveMember :: "u64 \<Rightarrow> bytes \<Rightarrow> GroupState \<Rightarrow> (GroupState, unit) eff" where
  "GroupState_RemoveMember now pubkey gs =
     (case drop_first pubkey (gs_Members gs) of
        None \<Rightarrow> (gs, Inl (Err ''member not found''))
      | Some ms \<Rightarrow>
          if pubkey = gs_CreatorPubkey gs then (gs, Inl (Err ''cannot remove group creator''))
          else (gs\<lparr>gs_Members := ms, gs_UpdatedAt := now\<rparr>, Inr ()))"

section \<open>Sender keys\<close>

definition GenerateSenderKey :: "prims \<Rightarrow> bytes res \<Rightarrow> bytes res \<Rightarrow> bytes \<Rightarrow> bytes \<Rightarrow> SenderKey res" where
  "GenerateSenderKey P rnd keygen groupID senderPubkey =
     (case rnd of
        Inl e \<Rightarrow> Inl (Wrap ''failed to generate chain key'' e)
      | Inr chainKey \<Rightarrow> (case keygen of
          Inl e \<Rightarrow> Inl (Wrap ''failed to generate signing key'' e)
        | Inr signingKeyPriv \<Rightarrow> Inr \<lparr>snk_GroupID = groupID, snk_SenderPubkey = senderPubkey, snk_ChainKey = chainKey,
            snk_SigningKey = ed_public P signingKeyPriv, snk_SigningKeyPriv = signingKeyPriv,
            snk_ChainIndex = 0, snk_Epoch = 1\<rparr>))"

definition DeriveMessageKey :: "prims \<Rightarrow> SenderKey \<Rightarrow> SenderKey \<times> bytes" where
  "DeriveMessageKey P sk =
     (sk\<lparr>snk_ChainKey := sha256 P (snk_ChainKey sk @ str_bytes ''bt-sk-chain'' @ str_bytes ''advance''),
         snk_ChainIndex := snk_ChainIndex sk + 1\<rparr>,
      sha256 P (snk_ChainKey sk @ str_bytes ''bt-sk-msg'' @ be_bytes 4 (snk_ChainIndex sk)))"

definition SenderKey_ToProto :: "SenderKey \<Rightarrow> SenderKeyDistribution" where
  "SenderKey_ToProto sk = \<lparr>skd_GroupId = snk_GroupID sk, skd_Epoch = snk_Epoch sk, skd_SenderPub = snk_SenderPubkey sk,
     skd_ChainKey = snk_ChainKey sk, skd_SigningKey = snk_SigningKey sk, skd_ChainIndex = snk_ChainIndex sk\<rparr>"

definition SenderKeyFromProto :: "SenderKeyDistribution \<Rightarrow> bytes \<Rightarrow> SenderKey" where
  "SenderKeyFromProto p signingKeyPriv = \<lparr>snk_GroupID = skd_GroupId p, snk_SenderPubkey = skd_SenderPub p,
     snk_ChainKey = skd_ChainKey p, snk_SigningKey = skd_SigningKey p, snk_SigningKeyPriv = signingKeyPriv,
     snk_ChainIndex = skd_ChainIndex p, snk_Epoch = skd_Epoch p\<rparr>"

section \<open>Lemmas\<close>

lemma member_proto_inverse [simp]: "member_from_proto (member_to_proto m) = m" "member_to_proto (member_from_proto p) = p"
  by (simp_all add: member_from_proto_def member_to_proto_def)

lemma proto_inverse [simp]: "FromProto (GroupState_ToProto gs) = gs" "GroupState_ToProto (FromProto p) = p"
  by (simp_all add: FromProto_def GroupState_ToProto_def comp_def)

lemma Serialize_ok:
  assumes "codec_ok K"
  obtains b where "Serialize K gs = Inr b" "unmarshal K b = Inr (GroupState_ToProto gs)"
  using codec_ok_marshal[OF assms, of "GroupState_ToProto gs"] by (auto simp: Serialize_def)

lemma ComputeHash_ok: "codec_ok K \<Longrightarrow> \<exists>h. ComputeHash P K gs = Inr h"
  by (rule Serialize_ok[of K gs]) (simp_all add: ComputeHash_def)

lemma unsigned_copy_idem [simp]: "unsigned_copy (gs\<lparr>gs_StateSignature := s\<rparr>) = unsigned_copy gs"
  by (simp add: unsigned_copy_def)

lemma Sign_spec:
  assumes "codec_ok K" "sig_correct P" "length priv = 64"
  obtains data sig where "Serialize K (unsigned_copy gs) = Inr data"
    "GroupState_Sign P K priv gs = (gs\<lparr>gs_StateSignature := sig\<rparr>, Inr ())" "length sig = 64"
    "ed25519_Verify P (ed_public P priv) data sig = Inr True"
proof -
  obtain data where data: "Serialize K (unsigned_copy gs) = Inr data" by (rule Serialize_ok[OF assms(1)])
  obtain sig where "ed25519_Sign P priv data = Inr sig" "ed25519_Verify P (ed_public P priv) data sig = Inr True" "length sig = 64"
    using ed25519_Verify_Sign[OF assms(2,3)] by blast
  then show ?thesis using data that by (simp add: GroupState_Sign_def)
qed

text \<open>Split-brain resolution picks the best state under the order: higher epoch first, then the
  smaller creator key.\<close>

definition better :: "GroupState \<Rightarrow> GroupState \<Rightarrow> bool" where
  "better a b \<longleftrightarrow> gs_Epoch a > gs_Epoch b \<or> gs_Epoch a = gs_Epoch b \<and> gs_CreatorPubkey a \<le> gs_CreatorPubkey b"

lemma better_refl [simp]: "better a a"
  by (simp add: better_def)

lemma better_trans: "better a b \<Longrightarrow> better b c \<Longrightarrow> better a c"
  by (auto simp: better_def)

lemma better_antisym: "better a b \<Longrightarrow> better b a \<Longrightarrow> gs_Epoch a = gs_Epoch b \<and> gs_CreatorPubkey a = gs_CreatorPubkey b"
  by (auto simp: better_def)

lemma split_brain_loop_best:
  "split_brain_loop best states \<in> set (best # states) \<and> (\<forall>s \<in> set (best # states). better (split_brain_loop best states) s)"
proof (induction best states rule: split_brain_loop.induct)
  case (2 best state rest)
  have tot: "better state best \<or> better best state" by (auto simp: better_def)
  show ?case
    using 2 by (auto simp: better_def split: if_splits)
qed simp

lemma ResolveSplitBrain_best:
  assumes "states \<noteq> []"
  obtains w where "ResolveSplitBrain states = Some w" "w \<in> set states" "\<forall>s \<in> set states. better w s"
proof (cases states)
  case (Cons s rest)
  then have "ResolveSplitBrain states = Some (split_brain_loop s rest)"
    by (simp add: ResolveSplitBrain_def split: list.split)
  then show ?thesis using that split_brain_loop_best[of s rest] Cons by blast
qed (use assms in simp)

text \<open>Updates applied one after the other, each validated against the state before it.\<close>

fun accept_all :: "prims \<Rightarrow> pb_GroupState codec \<Rightarrow> GroupStateUpdate list \<Rightarrow> GroupState \<Rightarrow> GroupState res" where
  "accept_all P K [] gs = Inr gs"
| "accept_all P K (u # us) gs =
     (case ValidateStateUpdate P K u gs of Inl e \<Rightarrow> Inl e | Inr _ \<Rightarrow> accept_all P K us (gu_NewState u))"

lemma ValidateStateUpdate_epoch: "ValidateStateUpdate P K u gs = Inr () \<Longrightarrow> gs_Epoch gs < gs_Epoch (gu_NewState u)"
  by (auto simp: ValidateStateUpdate_def split: sum.splits if_splits)

lemma accept_all_epochs:
  "accept_all P K us gs = Inr gs' \<Longrightarrow>
   unat (gs_Epoch gs) + length us \<le> unat (gs_Epoch gs') \<and> (\<forall>u\<in>set us. gs_Epoch (gu_NewState u) \<le> gs_Epoch gs')"
proof (induction us arbitrary: gs)
  case (Cons u us)
  have v: "ValidateStateUpdate P K u gs = Inr ()" and rest: "accept_all P K us (gu_NewState u) = Inr gs'"
    using Cons.prems by (auto split: sum.splits)
  have "gs_Epoch gs < gs_Epoch (gu_NewState u)" by (rule ValidateStateUpdate_epoch[OF v])
  then have "unat (gs_Epoch gs) < unat (gs_Epoch (gu_NewState u))" by (simp add: u_less_unat)
  moreover have "unat (gs_Epoch (gu_NewState u)) + length us \<le> unat (gs_Epoch gs')"
    "\<forall>u\<in>set us. gs_Epoch (gu_NewState u) \<le> gs_Epoch gs'" using Cons.IH[OF rest] by auto
  moreover have "gs_Epoch (gu_NewState u) \<le> gs_Epoch gs'"
    using calculation(2) by (simp add: word_le_nat_alt)
  ultimately show ?case by auto
qed simp

text \<open>Membership changes on a state.\<close>

datatype member_op = MAdd u64 GroupMember | MRemove u64 bytes

fun member_exec :: "member_op \<Rightarrow> GroupState \<Rightarrow> GroupState" where
  "member_exec (MAdd now m) gs = fst (GroupState_AddMember now m gs)"
| "member_exec (MRemove now pk) gs = fst (GroupState_RemoveMember now pk gs)"

definition member_keys :: "GroupState \<Rightarrow> bytes list" where
  "member_keys gs = map mb_Ed25519Pubkey (gs_Members gs)"

definition members_ok :: "GroupState \<Rightarrow> bool" where
  "members_ok gs \<longleftrightarrow> distinct (member_keys gs) \<and> length (gs_Members gs) \<le> MaxGroupMembers \<and>
     gs_CreatorPubkey gs \<in> set (member_keys gs)"

lemma drop_first_keys:
  "drop_first pk ms = Some ms' \<Longrightarrow> distinct (map mb_Ed25519Pubkey ms) \<Longrightarrow>
   map mb_Ed25519Pubkey ms' = filter (\<lambda>k. k \<noteq> pk) (map mb_Ed25519Pubkey ms) \<and> pk \<in> set (map mb_Ed25519Pubkey ms) \<and>
   length ms' < length ms"
proof (induction ms arbitrary: ms')
  case (Cons m ms)
  show ?case
  proof (cases "mb_Ed25519Pubkey m = pk")
    case True
    then have "pk \<notin> set (map mb_Ed25519Pubkey ms)" using Cons.prems by auto
    then have "filter (\<lambda>k. k \<noteq> pk) (map mb_Ed25519Pubkey ms) = map mb_Ed25519Pubkey ms"
      by (intro filter_True) auto
    then show ?thesis using True Cons.prems by simp
  qed (use Cons in auto)
qed simp

lemma drop_first_None: "drop_first pk ms = None \<longleftrightarrow> pk \<notin> mb_Ed25519Pubkey ` set ms"
  by (induction ms) auto

lemma members_ok_Add: "members_ok gs \<Longrightarrow> members_ok (fst (GroupState_AddMember now m gs))"
  by (auto simp: members_ok_def GroupState_AddMember_def member_keys_def list_ex_iff)

lemma members_ok_Remove:
  assumes "members_ok gs"
  shows "members_ok (fst (GroupState_RemoveMember now pk gs))"
proof (cases "drop_first pk (gs_Members gs)")
  case (Some ms)
  have "member_keys (gs\<lparr>gs_Members := ms, gs_UpdatedAt := now\<rparr>) = filter (\<lambda>k. k \<noteq> pk) (member_keys gs)"
    "length ms < length (gs_Members gs)"
    using drop_first_keys[OF Some] assms by (auto simp: members_ok_def member_keys_def)
  then show ?thesis using assms Some
    by (auto simp: members_ok_def GroupState_RemoveMember_def)
qed (use assms in \<open>simp add: GroupState_RemoveMember_def\<close>)

lemma members_ok_New: "NewGroupState rnd now n d t pk x = Inr gs \<Longrightarrow> members_ok gs"
  by (auto simp: NewGroupState_def members_ok_def member_keys_def MaxGroupMembers_def split: sum.splits if_splits)

lemma members_ok_run: "members_ok gs \<Longrightarrow> members_ok (fold member_exec ops gs)"
proof (induction ops arbitrary: gs)
  case (Cons op ops)
  then show ?case by (cases op) (simp_all add: members_ok_Add members_ok_Remove)
qed simp

text \<open>The stream of message keys of a sender key.\<close>

fun key_stream :: "prims \<Rightarrow> nat \<Rightarrow> SenderKey \<Rightarrow> bytes list" where
  "key_stream P 0 sk = []"
| "key_stream P (Suc n) sk = (let (sk', k) = DeriveMessageKey P sk in k # key_stream P n sk')"

fun sender_chain :: "prims \<Rightarrow> bytes \<Rightarrow> nat \<Rightarrow> bytes" where
  "sender_chain P ck 0 = ck"
| "sender_chain P ck (Suc n) = sha256 P (sender_chain P ck n @ str_bytes ''bt-sk-chain'' @ str_bytes ''advance'')"

lemma sender_chain_shift: "sender_chain P (sha256 P (ck @ str_bytes ''bt-sk-chain'' @ str_bytes ''advance'')) n = sender_chain P ck (Suc n)"
  by (induction n) simp_all

lemma key_stream_closed:
  "key_stream P n sk = map (\<lambda>i. sha256 P (sender_chain P (snk_ChainKey sk) i @ str_bytes ''bt-sk-msg'' @
      be_bytes 4 (snk_ChainIndex sk + of_nat i))) [0..<n]"
proof (induction n arbitrary: sk)
  case (Suc n)
  have "map f [0..<Suc n] = f 0 # map (\<lambda>i. f (Suc i)) [0..<n]" for f :: "nat \<Rightarrow> bytes"
    by (simp add: upt_conv_Cons map_Suc_upt[symmetric] comp_def del: upt_Suc)
  then show ?case
    by (simp add: DeriveMessageKey_def Suc.IH sender_chain_shift add.assoc del: upt_Suc sender_chain.simps(2))
qed simp

fun derive_n :: "prims \<Rightarrow> nat \<Rightarrow> SenderKey \<Rightarrow> SenderKey" where
  "derive_n P 0 sk = sk"
| "derive_n P (Suc n) sk = derive_n P n (fst (DeriveMessageKey P sk))"

lemma derive_n_closed:
  "derive_n P n sk = sk\<lparr>snk_ChainKey := sender_chain P (snk_ChainKey sk) n, snk_ChainIndex := snk_ChainIndex sk + of_nat n\<rparr>"
  by (induction n arbitrary: sk) (simp_all add: DeriveMessageKey_def sender_chain_shift add.assoc del: sender_chain.simps(2))

lemma key_stream_drop: "key_stream P n (derive_n P i sk) = drop i (key_stream P (i + n) sk)"
  by (induction i arbitrary: sk) (simp_all add: case_prod_beta Let_def)

lemma key_stream_cong:
  "snk_ChainKey a = snk_ChainKey b \<Longrightarrow> snk_ChainIndex a = snk_ChainIndex b \<Longrightarrow> key_stream P n a = key_stream P n b"
  by (simp add: key_stream_closed)

section \<open>Properties\<close>

text \<open>C24. State updates cannot be replayed: when a sequence of updates is accepted one after the
  other, every one of them raises the epoch, so the epoch grows by at least the number of updates,
  and each update of the sequence is rejected when presented again to the final state.\<close>

theorem accepted_updates_no_replay:
  assumes "accept_all P K us gs = Inr gs'"
  shows "unat (gs_Epoch gs) + length us \<le> unat (gs_Epoch gs')
    \<and> (\<forall>u\<in>set us. ValidateStateUpdate P K u gs' \<noteq> Inr ())"
proof -
  have "ValidateStateUpdate P K u gs' \<noteq> Inr ()" if "u \<in> set us" for u
    using ValidateStateUpdate_epoch[of P K u gs'] accept_all_epochs[OF assms] that by (meson leD)
  then show ?thesis using accept_all_epochs[OF assms] by blast
qed

definition example_state :: "u64 \<Rightarrow> GroupState" where
  "example_state n = \<lparr>gs_GroupID = replicate 32 1, gs_Epoch = n, gs_Name = ''g'', gs_Description = '''',
     gs_AvatarCID = '''', gs_Type = PrivateGroup,
     gs_Members = [\<lparr>mb_Ed25519Pubkey = replicate 32 5, mb_X25519Pubkey = replicate 32 0, mb_DisplayName = ''a'',
        mb_JoinedAt = 0, mb_Role = Owner\<rparr>],
     gs_CreatorPubkey = replicate 32 5, gs_CreatedAt = 0, gs_UpdatedAt = 0, gs_StateSignature = [],
     gs_PreviousStateHash = []\<rparr>"

definition example_update :: GroupStateUpdate where
  "example_update = \<lparr>gu_NewState = example_state 2, gu_PreviousStateHash = [], gu_UpdaterPubkey = replicate 32 5,
     gu_UpdaterSignature = take 64 (fst ser_GroupState (GroupState_ToProto (unsigned_copy (example_state 2))) @ replicate 64 0)\<rparr>"

abbreviation ref_group_codec :: "pb_GroupState codec" where
  "ref_group_codec \<equiv> codec_of ser_GroupState"

lemma ref_Serialize: "Serialize ref_group_codec gs = Inr (fst ser_GroupState (GroupState_ToProto gs))"
  by (simp add: Serialize_def codec_of_def)

lemma example_accepted: "ValidateStateUpdate toy ref_group_codec (example_update\<lparr>gu_PreviousStateHash := h\<rparr>) (example_state 1) = Inr ()"
  by (simp add: ValidateStateUpdate_def ComputeHash_def ref_Serialize example_update_def example_state_def
      updater_is_admin_def Owner_def Admin_def ed25519_Verify_def crypto_sizes word_le_nat_alt)

theorem accepted_updates_no_replay_witness:
  "ValidateStateUpdate toy ref_group_codec example_update (example_state 2) \<noteq> Inr ()"
proof -
  have "accept_all toy ref_group_codec [example_update] (example_state 1) = Inr (example_state 2)"
    using example_accepted[of "[]"] by (simp add: example_update_def)
  from accepted_updates_no_replay[OF this] show ?thesis by simp
qed



text \<open>The first update of a group is not bound to the state it was made for: a freshly created
  state has no previous hash, so \<open>ValidateStateUpdate\<close> gives the same answer whatever previous hash
  the update names.\<close>

theorem first_update_unbound:
  assumes "NewGroupState rnd now name desc typ creator x = Inr gs"
  shows "ValidateStateUpdate P K (u\<lparr>gu_PreviousStateHash := h\<rparr>) gs = ValidateStateUpdate P K u gs"
proof -
  have "gs_PreviousStateHash gs = []" using assms by (auto simp: NewGroupState_def split: sum.splits if_splits)
  then show ?thesis by (simp add: ValidateStateUpdate_def split: sum.split)
qed

theorem first_update_unbound_witness:
  "\<exists>gs. NewGroupState (Inr (replicate 32 1)) 0 ''g'' '''' PrivateGroup [] [] = Inr gs \<and>
    ValidateStateUpdate toy ref_group_codec (example_update\<lparr>gu_PreviousStateHash := [9, 9]\<rparr>) gs =
    ValidateStateUpdate toy ref_group_codec example_update gs"
proof -
  obtain gs where gs: "NewGroupState (Inr (replicate 32 1)) 0 ''g'' '''' PrivateGroup [] [] = Inr gs"
    by (simp add: NewGroupState_def MaxGroupNameLength_def)
  show ?thesis using first_update_unbound[OF gs] gs by blast
qed





text \<open>A signed group state verifies at the receiver: signing with a 64-byte private key succeeds,
  changes nothing but the signature, and after the state is converted to protobuf, marshalled,
  unmarshalled and converted back, it is the same state and its signature verifies under the
  signer's public key.\<close>

theorem signed_state_verifies:
  assumes "codec_ok K" "sig_correct P" "length priv = 64"
  shows "\<exists>sig b. GroupState_Sign P K priv gs = (gs\<lparr>gs_StateSignature := sig\<rparr>, Inr ())
    \<and> Serialize K (gs\<lparr>gs_StateSignature := sig\<rparr>) = Inr b
    \<and> unmarshal K b = Inr (GroupState_ToProto (gs\<lparr>gs_StateSignature := sig\<rparr>))
    \<and> VerifySignature P K (ed_public P priv) (FromProto (GroupState_ToProto (gs\<lparr>gs_StateSignature := sig\<rparr>))) = Inr True"
proof -
  obtain data sig where s: "Serialize K (unsigned_copy gs) = Inr data"
    "GroupState_Sign P K priv gs = (gs\<lparr>gs_StateSignature := sig\<rparr>, Inr ())" "length sig = 64"
    "ed25519_Verify P (ed_public P priv) data sig = Inr True" by (rule Sign_spec[OF assms])
  obtain b where b: "Serialize K (gs\<lparr>gs_StateSignature := sig\<rparr>) = Inr b"
    "unmarshal K b = Inr (GroupState_ToProto (gs\<lparr>gs_StateSignature := sig\<rparr>))" by (rule Serialize_ok[OF assms(1)])
  have "sig \<noteq> []" using s(3) by auto
  then have "VerifySignature P K (ed_public P priv) (FromProto (GroupState_ToProto (gs\<lparr>gs_StateSignature := sig\<rparr>))) = Inr True"
    using s(1,4) by (simp add: VerifySignature_def)
  then show ?thesis using s(2) b by blast
qed

theorem signed_state_verifies_witness:
  "\<exists>sig. GroupState_Sign toy ref_group_codec (replicate 64 5) (example_state 1) =
      ((example_state 1)\<lparr>gs_StateSignature := sig\<rparr>, Inr ())
    \<and> VerifySignature toy ref_group_codec (ed_public toy (replicate 64 5)) ((example_state 1)\<lparr>gs_StateSignature := sig\<rparr>) = Inr True"
  using signed_state_verifies[OF codec_of_ok[OF ser_GroupState_ok] toy_sig, of "replicate 64 5" "example_state 1"]
  unfolding proto_inverse length_replicate by blast

text \<open>C31. Sender keys stay in step: a member who imports a sender key distributed after the sender
  has used \<open>i\<close> message keys derives, from then on, exactly the sender's next keys, and the \<open>j\<close>-th key
  of the stream is a hash of the \<open>j\<close>-th chain key and the running index.\<close>

theorem sender_key_streams_agree:
  "key_stream P n (SenderKeyFromProto (SenderKey_ToProto (derive_n P i sk)) priv) = drop i (key_stream P (i + n) sk)
   \<and> key_stream P n sk = map (\<lambda>j. sha256 P (sender_chain P (snk_ChainKey sk) j @ str_bytes ''bt-sk-msg'' @
       be_bytes 4 (snk_ChainIndex sk + of_nat j))) [0..<n]"
proof -
  have "key_stream P n (SenderKeyFromProto (SenderKey_ToProto (derive_n P i sk)) priv) = key_stream P n (derive_n P i sk)"
    by (rule key_stream_cong) (simp_all add: SenderKeyFromProto_def SenderKey_ToProto_def)
  then show ?thesis unfolding key_stream_drop using key_stream_closed by blast
qed

end
