(* ===== verification/MemStorage.thy ===== *)
theory MemStorage
  imports Wire
begin

text \<open>
  \<open>pkg/storage/storage.go\<close> (the record types of the \<open>Storage\<close> interface) and
  \<open>pkg/storage/memory.go\<close>, its in-memory implementation, operation by operation.

  Messages and records are held by value: the store keeps the pointer it is given, and no code of
  the storage layer writes through it except \<open>SaveChannelPost\<close>, whose write to the stored channel
  is written out. The four maps that \<open>Clone\<close> leaves nil are options. The wall clock is an argument
  of the operations that read it; a zero \<open>time.Time\<close> is \<open>None\<close>.

  The locales \<open>keyed_store\<close> and \<open>listed_store\<close> state what clients rely on for each keyed part of
  the interface, and every such part of the memory store is an interpretation of them.
\<close>

section \<open>Record types (storage.go)\<close>

definition ErrGroupNotFound :: go_error where "ErrGroupNotFound = Err ''group not found''"
definition ErrSenderKeyNotFound :: go_error where "ErrSenderKeyNotFound = Err ''sender key not found''"

type_synonym go_time = "int option"

record PeerRecord =
  pr_PeerID :: string
  pr_Multiaddrs :: "string list"
  pr_FirstSeen :: go_time
  pr_LastSeen :: go_time
  pr_LastConnected :: go_time
  pr_ConnectCount :: int
  pr_FailCount :: int
  pr_Source :: string
  pr_Protocols :: "string list"
  pr_LatencyMs :: int

record BlacklistEntry =
  be_PeerID :: string
  be_Reason :: string
  be_BlacklistedAt :: go_time
  be_ExpiresAt :: go_time

definition IsExpired :: "int \<Rightarrow> BlacklistEntry \<Rightarrow> bool" where
  "IsExpired now b = (case be_ExpiresAt b of None \<Rightarrow> False | Some t \<Rightarrow> now > t)"

record MessageWithKey =
  mk_Envelope :: SignedEnvelope
  mk_Timestamp :: u64
  mk_Nonce :: bytes

section \<open>MemoryStorage\<close>

record MemoryStorage =
  ms_contacts :: "(bytes, Contact) gomap"
  ms_messages :: "(bytes, SignedEnvelope list) gomap"
  ms_peers :: "(string, PeerRecord) gomap"
  ms_configs :: "(string, string) gomap"
  ms_blacklist :: "(string, BlacklistEntry) gomap"
  ms_groups :: "(bytes, pb_GroupState) gomap option"
  ms_senderKeys :: "(bytes, (bytes, SenderKeyDistribution) gomap) gomap option"
  ms_channels :: "(bytes, ChannelState) gomap option"
  ms_channelPosts :: "(bytes, (bytes, ChannelPost) gomap) gomap option"

definition NewMemoryStorage :: MemoryStorage where
  "NewMemoryStorage = \<lparr>ms_contacts = [], ms_messages = [], ms_peers = [], ms_configs = [],
     ms_blacklist = [], ms_groups = Some [], ms_senderKeys = Some [], ms_channels = Some [],
     ms_channelPosts = Some []\<rparr>"

text \<open>A map that may be nil: reading and deleting treat nil as empty, writing panics.\<close>

definition nm_get :: "('k, 'v) gomap option \<Rightarrow> 'k \<Rightarrow> 'v option" where
  "nm_get m k = (case m of None \<Rightarrow> None | Some m \<Rightarrow> gm_get m k)"

definition nm_del :: "'k \<Rightarrow> ('k, 'v) gomap option \<Rightarrow> ('k, 'v) gomap option" where
  "nm_del k m = map_option (gm_del k) m"

definition nm_vals :: "('k, 'v) gomap option \<Rightarrow> 'v list" where
  "nm_vals m = (case m of None \<Rightarrow> [] | Some m \<Rightarrow> map snd m)"

definition nil_map_write :: go_error where "nil_map_write = Panic ''assignment to entry in nil map''"

section \<open>Contacts\<close>

definition AddContact :: "Contact \<Rightarrow> MemoryStorage \<Rightarrow> MemoryStorage" where
  "AddContact contact s = s\<lparr>ms_contacts := gm_set (ct_PublicKey contact) contact (ms_contacts s)\<rparr>"

definition GetContact :: "bytes \<Rightarrow> MemoryStorage \<Rightarrow> Contact option" where
  "GetContact pubKey s = gm_get (ms_contacts s) pubKey"

text \<open>\<open>b58\<close> is \<open>base58.Decode\<close> of the third-party package.\<close>

definition GetContactByBase58 :: "(string \<Rightarrow> bytes res) \<Rightarrow> string \<Rightarrow> MemoryStorage \<Rightarrow> Contact option res" where
  "GetContactByBase58 b58 str s =
     (case b58 str of
        Inl e \<Rightarrow> Inl (Wrap ''failed to decode base58 public key'' e)
      | Inr pubKey \<Rightarrow> Inr (GetContact pubKey s))"

definition GetContactX25519Key :: "bytes \<Rightarrow> MemoryStorage \<Rightarrow> bytes res" where
  "GetContactX25519Key pubKey s =
     (case GetContact pubKey s of
        None \<Rightarrow> Inl (Err ''contact not found'')
      | Some contact \<Rightarrow>
          if length (ct_X25519PublicKey contact) = 0 then Inl (Err ''contact X25519 public key not stored'')
          else Inr (ct_X25519PublicKey contact))"

definition ListContacts :: "MemoryStorage \<Rightarrow> Contact list" where
  "ListContacts s = map snd (ms_contacts s)"

definition DeleteContact :: "bytes \<Rightarrow> MemoryStorage \<Rightarrow> MemoryStorage" where
  "DeleteContact pubKey s = s\<lparr>ms_contacts := gm_del pubKey (ms_contacts s)\<rparr>"

definition ContactCount :: "MemoryStorage \<Rightarrow> nat" where
  "ContactCount s = gm_len (ms_contacts s)"

section \<open>Messages\<close>

definition AddMessage :: "bytes \<Rightarrow> SignedEnvelope \<Rightarrow> MemoryStorage \<Rightarrow> MemoryStorage" where
  "AddMessage contactPubKey envelope s =
     s\<lparr>ms_messages := gm_set contactPubKey
        ((case gm_get (ms_messages s) contactPubKey of None \<Rightarrow> [] | Some ms \<Rightarrow> ms) @ [envelope]) (ms_messages s)\<rparr>"

text \<open>Go's \<open>int\<close> has 64 bits: a sum wraps.\<close>

definition int64 :: "int \<Rightarrow> int" where
  "int64 x = sint (word_of_int x :: 64 word)"

definition GetMessages :: "bytes \<Rightarrow> int \<Rightarrow> int \<Rightarrow> MemoryStorage \<Rightarrow> SignedEnvelope list res" where
  "GetMessages contactPubKey limit offset s =
     (case gm_get (ms_messages s) contactPubKey of
        None \<Rightarrow> Inr []
      | Some allMessages \<Rightarrow>
          if offset \<ge> int (length allMessages) then Inr []
          else
            let start = offset;
                end1 = int (length allMessages);
                end2 = (if limit > 0 \<and> int64 (start + limit) < end1 then int64 (start + limit) else end1)
            in if start < 0 \<or> end2 < start then Inl (Panic ''slice bounds out of range'')
               else Inr (take (nat (end2 - start)) (drop (nat start) allMessages)))"

definition GetMessagesWithTimestamps :: "bytes \<Rightarrow> int \<Rightarrow> int \<Rightarrow> MemoryStorage \<Rightarrow> MessageWithKey list res" where
  "GetMessagesWithTimestamps contactPubKey limit offset s =
     (case GetMessages contactPubKey limit offset s of
        Inl e \<Rightarrow> Inl e
      | Inr envelopes \<Rightarrow> Inr (map (\<lambda>env. \<lparr>mk_Envelope = env, mk_Timestamp = 0, mk_Nonce = []\<rparr>) envelopes))"

definition DeleteMessages :: "bytes \<Rightarrow> MemoryStorage \<Rightarrow> MemoryStorage" where
  "DeleteMessages contactPubKey s = s\<lparr>ms_messages := gm_del contactPubKey (ms_messages s)\<rparr>"

definition MessageCount :: "bytes \<Rightarrow> MemoryStorage \<Rightarrow> nat" where
  "MessageCount contactPubKey s =
     (case gm_get (ms_messages s) contactPubKey of None \<Rightarrow> 0 | Some ms \<Rightarrow> length ms)"

section \<open>Whole-store operations\<close>

definition Clear :: "MemoryStorage \<Rightarrow> MemoryStorage" where
  "Clear s = s\<lparr>ms_contacts := [], ms_messages := []\<rparr>"

definition gm_copy :: "('k, 'v) gomap \<Rightarrow> ('k, 'v) gomap" where
  "gm_copy m = foldl (\<lambda>c (k, v). gm_set k v c) [] m"

definition Clone :: "MemoryStorage \<Rightarrow> MemoryStorage" where
  "Clone s = \<lparr>ms_contacts = gm_copy (ms_contacts s), ms_messages = gm_copy (ms_messages s),
     ms_peers = gm_copy (ms_peers s), ms_configs = gm_copy (ms_configs s),
     ms_blacklist = gm_copy (ms_blacklist s),
     ms_groups = None, ms_senderKeys = None, ms_channels = None, ms_channelPosts = None\<rparr>"

section \<open>Peers\<close>

definition AddPeer :: "PeerRecord \<Rightarrow> MemoryStorage \<Rightarrow> MemoryStorage" where
  "AddPeer peer s = s\<lparr>ms_peers := gm_set (pr_PeerID peer) peer (ms_peers s)\<rparr>"

definition GetPeer :: "string \<Rightarrow> MemoryStorage \<Rightarrow> PeerRecord option" where
  "GetPeer peerID s = gm_get (ms_peers s) peerID"

fun ListPeers_loop :: "int \<Rightarrow> PeerRecord list \<Rightarrow> PeerRecord list \<Rightarrow> PeerRecord list" where
  "ListPeers_loop limit acc [] = acc"
| "ListPeers_loop limit acc (peer # rest) =
     (let peers = acc @ [peer]
      in if limit > 0 \<and> int (length peers) \<ge> limit then peers else ListPeers_loop limit peers rest)"

definition ListPeers :: "int \<Rightarrow> MemoryStorage \<Rightarrow> PeerRecord list" where
  "ListPeers limit s = ListPeers_loop limit [] (map snd (ms_peers s))"

definition ListPeersBySource :: "string \<Rightarrow> MemoryStorage \<Rightarrow> PeerRecord list" where
  "ListPeersBySource source s = filter (\<lambda>p. pr_Source p = source) (map snd (ms_peers s))"

definition DeletePeer :: "string \<Rightarrow> MemoryStorage \<Rightarrow> MemoryStorage" where
  "DeletePeer peerID s = s\<lparr>ms_peers := gm_del peerID (ms_peers s)\<rparr>"

definition PrunePeers :: "int \<Rightarrow> int \<Rightarrow> MemoryStorage \<Rightarrow> MemoryStorage" where
  "PrunePeers maxAgeDays keepCount s = s"

section \<open>Configuration\<close>

definition GetConfig :: "string \<Rightarrow> MemoryStorage \<Rightarrow> string" where
  "GetConfig key s = (case gm_get (ms_configs s) key of None \<Rightarrow> '''' | Some v \<Rightarrow> v)"

definition SetConfig :: "string \<Rightarrow> string \<Rightarrow> MemoryStorage \<Rightarrow> MemoryStorage" where
  "SetConfig key v s = s\<lparr>ms_configs := gm_set key v (ms_configs s)\<rparr>"

definition DeleteConfig :: "string \<Rightarrow> MemoryStorage \<Rightarrow> MemoryStorage" where
  "DeleteConfig key s = s\<lparr>ms_configs := gm_del key (ms_configs s)\<rparr>"

section \<open>Blacklist\<close>

definition BlacklistPeer :: "int \<Rightarrow> string \<Rightarrow> string \<Rightarrow> MemoryStorage \<Rightarrow> MemoryStorage" where
  "BlacklistPeer now peerID reason s = s\<lparr>ms_blacklist := gm_set peerID
     \<lparr>be_PeerID = peerID, be_Reason = reason, be_BlacklistedAt = Some now, be_ExpiresAt = None\<rparr> (ms_blacklist s)\<rparr>"

definition IsBlacklisted :: "int \<Rightarrow> string \<Rightarrow> MemoryStorage \<Rightarrow> bool" where
  "IsBlacklisted now peerID s =
     (case gm_get (ms_blacklist s) peerID of
        None \<Rightarrow> False
      | Some entry \<Rightarrow> if IsExpired now entry then False else True)"

definition ListBlacklisted :: "int \<Rightarrow> MemoryStorage \<Rightarrow> BlacklistEntry list" where
  "ListBlacklisted now s = filter (\<lambda>e. \<not> IsExpired now e) (map snd (ms_blacklist s))"

definition RemoveFromBlacklist :: "string \<Rightarrow> MemoryStorage \<Rightarrow> MemoryStorage" where
  "RemoveFromBlacklist peerID s = s\<lparr>ms_blacklist := gm_del peerID (ms_blacklist s)\<rparr>"

section \<open>Groups and sender keys\<close>

definition SaveGroup :: "pb_GroupState \<Rightarrow> MemoryStorage \<Rightarrow> (MemoryStorage, unit) eff" where
  "SaveGroup grp s =
     (case ms_groups s of
        None \<Rightarrow> (s, Inl nil_map_write)
      | Some m \<Rightarrow> (s\<lparr>ms_groups := Some (gm_set (pg_GroupId grp) grp m)\<rparr>, Inr ()))"

definition GetGroup :: "bytes \<Rightarrow> MemoryStorage \<Rightarrow> pb_GroupState res" where
  "GetGroup groupID s =
     (case nm_get (ms_groups s) groupID of None \<Rightarrow> Inl ErrGroupNotFound | Some grp \<Rightarrow> Inr grp)"

definition ListGroups :: "MemoryStorage \<Rightarrow> pb_GroupState list" where
  "ListGroups s = nm_vals (ms_groups s)"

definition DeleteGroup :: "bytes \<Rightarrow> MemoryStorage \<Rightarrow> MemoryStorage" where
  "DeleteGroup groupID s = s\<lparr>ms_groups := nm_del groupID (ms_groups s)\<rparr>"

definition SaveSenderKey :: "SenderKeyDistribution \<Rightarrow> MemoryStorage \<Rightarrow> (MemoryStorage, unit) eff" where
  "SaveSenderKey sk s =
     (case ms_senderKeys s of
        None \<Rightarrow> (s, Inl nil_map_write)
      | Some m \<Rightarrow>
          let groupKey = skd_GroupId sk;
              m1 = (case gm_get m groupKey of None \<Rightarrow> gm_set groupKey [] m | Some _ \<Rightarrow> m);
              inner = (case gm_get m1 groupKey of None \<Rightarrow> [] | Some i \<Rightarrow> i)
          in (s\<lparr>ms_senderKeys := Some (gm_set groupKey (gm_set (skd_SenderPub sk) sk inner) m1)\<rparr>, Inr ()))"

definition GetSenderKey :: "bytes \<Rightarrow> bytes \<Rightarrow> MemoryStorage \<Rightarrow> SenderKeyDistribution res" where
  "GetSenderKey groupID senderPubkey s =
     (case nm_get (ms_senderKeys s) groupID of
        None \<Rightarrow> Inl ErrSenderKeyNotFound
      | Some skMap \<Rightarrow> (case gm_get skMap senderPubkey of
          None \<Rightarrow> Inl ErrSenderKeyNotFound
        | Some sk \<Rightarrow> Inr sk))"

definition ListSenderKeys :: "bytes \<Rightarrow> MemoryStorage \<Rightarrow> SenderKeyDistribution list" where
  "ListSenderKeys groupID s =
     (case nm_get (ms_senderKeys s) groupID of None \<Rightarrow> [] | Some skMap \<Rightarrow> map snd skMap)"

definition DeleteSenderKey :: "bytes \<Rightarrow> bytes \<Rightarrow> MemoryStorage \<Rightarrow> MemoryStorage" where
  "DeleteSenderKey groupID senderPubkey s =
     (case nm_get (ms_senderKeys s) groupID of
        None \<Rightarrow> s
      | Some skMap \<Rightarrow> s\<lparr>ms_senderKeys := map_option (gm_set groupID (gm_del senderPubkey skMap)) (ms_senderKeys s)\<rparr>)"

definition DeleteAllSenderKeys :: "bytes \<Rightarrow> MemoryStorage \<Rightarrow> MemoryStorage" where
  "DeleteAllSenderKeys groupID s = s\<lparr>ms_senderKeys := nm_del groupID (ms_senderKeys s)\<rparr>"

section \<open>Channels\<close>

definition SaveChannel :: "ChannelState \<Rightarrow> MemoryStorage \<Rightarrow> (MemoryStorage, unit) eff" where
  "SaveChannel channel s =
     (case ms_channels s of
        None \<Rightarrow> (s, Inl nil_map_write)
      | Some m \<Rightarrow> (s\<lparr>ms_channels := Some (gm_set (ch_ChannelId channel) channel m)\<rparr>, Inr ()))"

definition GetChannel :: "bytes \<Rightarrow> MemoryStorage \<Rightarrow> ChannelState res" where
  "GetChannel channelID s =
     (case nm_get (ms_channels s) channelID of None \<Rightarrow> Inl ErrGroupNotFound | Some channel \<Rightarrow> Inr channel)"

definition ListChannels :: "MemoryStorage \<Rightarrow> ChannelState list" where
  "ListChannels s = nm_vals (ms_channels s)"

definition DeleteChannel :: "bytes \<Rightarrow> MemoryStorage \<Rightarrow> MemoryStorage" where
  "DeleteChannel channelID s = s\<lparr>ms_channels := nm_del channelID (ms_channels s)\<rparr>"

text \<open>The channel found under the post's channel id is written through its pointer.\<close>

definition SaveChannelPost :: "ChannelPost \<Rightarrow> MemoryStorage \<Rightarrow> (MemoryStorage, unit) eff" where
  "SaveChannelPost post s =
     (case ms_channelPosts s of
        None \<Rightarrow> (s, Inl nil_map_write)
      | Some m \<Rightarrow>
          let channelKey = cp_ChannelId post;
              m1 = (case gm_get m channelKey of None \<Rightarrow> gm_set channelKey [] m | Some _ \<Rightarrow> m);
              inner = (case gm_get m1 channelKey of None \<Rightarrow> [] | Some i \<Rightarrow> i);
              s1 = s\<lparr>ms_channelPosts := Some (gm_set channelKey (gm_set (cp_PostId post) post inner) m1)\<rparr>
          in (case nm_get (ms_channels s1) channelKey of
                None \<Rightarrow> (s1, Inr ())
              | Some channel \<Rightarrow>
                  (s1\<lparr>ms_channels := map_option (gm_set channelKey
                      (channel\<lparr>ch_LatestPostCid := cp_PreviousPostCid post, ch_UpdatedAt := cp_Timestamp post\<rparr>))
                      (ms_channels s1)\<rparr>, Inr ())))"

definition GetChannelPosts :: "bytes \<Rightarrow> int \<Rightarrow> int \<Rightarrow> MemoryStorage \<Rightarrow> ChannelPost list res" where
  "GetChannelPosts channelID limit offset s =
     (case nm_get (ms_channelPosts s) channelID of
        None \<Rightarrow> Inr []
      | Some postsMap \<Rightarrow>
          let posts = map snd postsMap
          in if offset \<ge> int (length posts) then Inr []
             else if offset < 0 then Inl (Panic ''slice bounds out of range'')
             else
               let posts2 = drop (nat offset) posts
               in Inr (if limit > 0 \<and> int (length posts2) > limit then take (nat limit) posts2 else posts2))"

definition GetLatestChannelPostCID :: "bytes \<Rightarrow> MemoryStorage \<Rightarrow> bytes option" where
  "GetLatestChannelPostCID channelID s = map_option ch_LatestPostCid (nm_get (ms_channels s) channelID)"

section \<open>The interface of a keyed store\<close>

text \<open>A history of saves and deletions, run on a store and on the abstract map it stands for.\<close>

datatype ('k, 'v) store_op = Put 'v | Del 'k

fun store_run :: "('v \<Rightarrow> 's \<Rightarrow> 's) \<Rightarrow> ('k \<Rightarrow> 's \<Rightarrow> 's) \<Rightarrow> ('k, 'v) store_op list \<Rightarrow> 's \<Rightarrow> 's" where
  "store_run put del [] s = s"
| "store_run put del (Put v # ops) s = store_run put del ops (put v s)"
| "store_run put del (Del k # ops) s = store_run put del ops (del k s)"

fun map_run :: "('v \<Rightarrow> 'k) \<Rightarrow> ('k, 'v) store_op list \<Rightarrow> ('k \<Rightarrow> 'v option) \<Rightarrow> 'k \<Rightarrow> 'v option" where
  "map_run key [] m = m"
| "map_run key (Put v # ops) m = map_run key ops (m(key v \<mapsto> v))"
| "map_run key (Del k # ops) m = map_run key ops (m(k := None))"

locale keyed_store =
  fixes key :: "'v \<Rightarrow> 'k" and put :: "'v \<Rightarrow> 's \<Rightarrow> 's" and get :: "'k \<Rightarrow> 's \<Rightarrow> 'v option"
    and del :: "'k \<Rightarrow> 's \<Rightarrow> 's" and ok :: "'s \<Rightarrow> bool"
  assumes get_put: "ok s \<Longrightarrow> get k (put v s) = (if k = key v then Some v else get k s)"
    and get_del: "ok s \<Longrightarrow> get k (del k' s) = (if k = k' then None else get k s)"
    and ok_put: "ok s \<Longrightarrow> ok (put v s)"
    and ok_del: "ok s \<Longrightarrow> ok (del k s)"
begin

lemma ok_run: "ok s \<Longrightarrow> ok (store_run put del ops s)"
proof (induction ops arbitrary: s)
  case (Cons op ops)
  then show ?case by (cases op) (simp_all add: ok_put ok_del)
qed simp

lemma put_upd: "ok s \<Longrightarrow> (\<lambda>k. get k (put v s)) = (\<lambda>k. get k s)(key v \<mapsto> v)"
  by (rule ext) (simp add: get_put)

lemma del_upd: "ok s \<Longrightarrow> (\<lambda>k. get k (del k' s)) = (\<lambda>k. get k s)(k' := None)"
  by (rule ext) (simp add: get_del)

lemma run_refines_map:
  "ok s \<Longrightarrow> (\<lambda>k. get k (store_run put del ops s)) = map_run key ops (\<lambda>k. get k s)"
proof (induction ops arbitrary: s)
  case (Cons op ops)
  then show ?case
    by (cases op) (simp_all add: ok_put ok_del put_upd del_upd)
qed simp

end

text \<open>A store whose content can be enumerated as well.\<close>

locale listed_store = keyed_store key put get del ok
  for key :: "'v \<Rightarrow> 'k" and put :: "'v \<Rightarrow> 's \<Rightarrow> 's" and get :: "'k \<Rightarrow> 's \<Rightarrow> 'v option"
    and del :: "'k \<Rightarrow> 's \<Rightarrow> 's" and ok :: "'s \<Rightarrow> bool" +
  fixes lst :: "'s \<Rightarrow> 'v list"
  assumes set_lst: "ok s \<Longrightarrow> set (lst s) = {v. get (key v) s = Some v}"
    and distinct_lst: "ok s \<Longrightarrow> distinct (map key (lst s))"
begin

lemma lst_run:
  assumes "ok s"
  shows "set (lst (store_run put del ops s)) = {v. map_run key ops (\<lambda>k. get k s) (key v) = Some v}"
    and "distinct (map key (lst (store_run put del ops s)))"
proof -
  have "get k (store_run put del ops s) = map_run key ops (\<lambda>k. get k s) k" for k
    using run_refines_map[OF assms, of ops] by metis
  then show "set (lst (store_run put del ops s)) = {v. map_run key ops (\<lambda>k. get k s) (key v) = Some v}"
    by (simp add: set_lst ok_run assms)
  show "distinct (map key (lst (store_run put del ops s)))"
    by (simp add: distinct_lst ok_run assms)
qed

end

section \<open>The invariant of the memory store\<close>

definition keyed_by :: "('v \<Rightarrow> 'k) \<Rightarrow> ('k, 'v) gomap \<Rightarrow> bool" where
  "keyed_by f m = (gm_ok m \<and> (\<forall>(k, v) \<in> set m. f v = k))"

definition nested_by :: "('v \<Rightarrow> 'g) \<Rightarrow> ('v \<Rightarrow> 'k) \<Rightarrow> ('g, ('k, 'v) gomap) gomap \<Rightarrow> bool" where
  "nested_by f g m = (gm_ok m \<and> (\<forall>(a, i) \<in> set m. keyed_by g i \<and> (\<forall>(k, v) \<in> set i. f v = a)))"

definition mem_ok :: "MemoryStorage \<Rightarrow> bool" where
  "mem_ok s \<longleftrightarrow> keyed_by ct_PublicKey (ms_contacts s) \<and> gm_ok (ms_messages s) \<and>
     keyed_by pr_PeerID (ms_peers s) \<and> gm_ok (ms_configs s) \<and> keyed_by be_PeerID (ms_blacklist s) \<and>
     (case ms_groups s of None \<Rightarrow> False | Some m \<Rightarrow> keyed_by pg_GroupId m) \<and>
     (case ms_senderKeys s of None \<Rightarrow> False | Some m \<Rightarrow> nested_by skd_GroupId skd_SenderPub m) \<and>
     (case ms_channels s of None \<Rightarrow> False | Some m \<Rightarrow> keyed_by ch_ChannelId m) \<and>
     (case ms_channelPosts s of None \<Rightarrow> False | Some m \<Rightarrow> nested_by cp_ChannelId cp_PostId m)"

lemma gm_ball: "gm_ok m \<Longrightarrow> (\<forall>(k, v) \<in> set m. P k v) \<longleftrightarrow> (\<forall>k v. gm_get m k = Some v \<longrightarrow> P k v)"
  by (auto simp: gm_in_set_get)

lemma keyed_by_Nil [simp]: "keyed_by f []"
  by (simp add: keyed_by_def)

lemma keyed_by_get: "keyed_by f m \<Longrightarrow> gm_get m k = Some v \<Longrightarrow> f v = k"
  by (auto simp: keyed_by_def dest: gm_get_in_set)

lemma keyed_by_intro: "gm_ok m \<Longrightarrow> (\<And>k v. gm_get m k = Some v \<Longrightarrow> f v = k) \<Longrightarrow> keyed_by f m"
  by (auto simp: keyed_by_def gm_in_set_get)

lemma keyed_by_iff: "keyed_by f m \<longleftrightarrow> gm_ok m \<and> (\<forall>k v. gm_get m k = Some v \<longrightarrow> f v = k)"
  using keyed_by_get keyed_by_intro by (metis keyed_by_def)

lemma keyed_by_set: "keyed_by f m \<Longrightarrow> f v = k \<Longrightarrow> keyed_by f (gm_set k v m)"
  by (auto simp: keyed_by_iff)

lemma keyed_by_del: "keyed_by f m \<Longrightarrow> keyed_by f (gm_del k m)"
  by (auto simp: keyed_by_iff)

lemma keyed_by_vals: "keyed_by f m \<Longrightarrow> set (map snd m) = {v. gm_get m (f v) = Some v}"
  by (force simp: keyed_by_def gm_in_set_get[symmetric])

lemma keyed_by_distinct: "keyed_by f m \<Longrightarrow> distinct (map f (map snd m))"
proof -
  assume a: "keyed_by f m"
  have "map f (map snd m) = map fst m" using a by (auto simp: keyed_by_def)
  then show ?thesis using a by (simp only: keyed_by_def gm_ok_def)
qed

lemma nested_by_Nil [simp]: "nested_by f g []"
  by (simp add: nested_by_def)

lemma keyed_ball: "(keyed_by g i \<and> (\<forall>(k, v) \<in> set i. f v = a)) =
    (keyed_by g i \<and> (\<forall>k v. gm_get i k = Some v \<longrightarrow> f v = a))"
  using gm_ball[of i "\<lambda>k v. f v = a"] by (meson keyed_by_def)

lemma nested_by_iff: "nested_by f g m \<longleftrightarrow>
    gm_ok m \<and> (\<forall>a i. gm_get m a = Some i \<longrightarrow> keyed_by g i \<and> (\<forall>k v. gm_get i k = Some v \<longrightarrow> f v = a))"
  unfolding nested_by_def keyed_ball
  using gm_ball[of m "\<lambda>a i. keyed_by g i \<and> (\<forall>k v. gm_get i k = Some v \<longrightarrow> f v = a)"] by blast

lemma nested_by_set:
  assumes "nested_by f g m" "keyed_by g i" "\<And>k v. gm_get i k = Some v \<Longrightarrow> f v = a"
  shows "nested_by f g (gm_set a i m)"
  using assms unfolding nested_by_iff by simp

lemma nested_by_del: "nested_by f g m \<Longrightarrow> nested_by f g (gm_del a m)"
  unfolding nested_by_iff by simp

lemma nested_by_getD: "nested_by f g m \<Longrightarrow> gm_get m a = Some i \<Longrightarrow> keyed_by g i"
  "nested_by f g m \<Longrightarrow> gm_get m a = Some i \<Longrightarrow> gm_get i k = Some v \<Longrightarrow> f v = a"
  unfolding nested_by_iff by blast+

lemmas mem_defs = AddContact_def DeleteContact_def AddMessage_def DeleteMessages_def AddPeer_def
  DeletePeer_def SetConfig_def DeleteConfig_def BlacklistPeer_def RemoveFromBlacklist_def
  SaveGroup_def DeleteGroup_def SaveSenderKey_def DeleteSenderKey_def DeleteAllSenderKeys_def
  SaveChannel_def DeleteChannel_def SaveChannelPost_def nm_get_def nm_del_def

lemma mem_ok_New: "mem_ok NewMemoryStorage"
  by (simp add: mem_ok_def NewMemoryStorage_def)

lemma mem_ok_simple:
  assumes "mem_ok s"
  shows "mem_ok (AddContact c s)" "mem_ok (DeleteContact pk s)" "mem_ok (AddMessage pk e s)"
    "mem_ok (DeleteMessages pk s)" "mem_ok (AddPeer p s)" "mem_ok (DeletePeer pid s)"
    "mem_ok (SetConfig k v s)" "mem_ok (DeleteConfig k s)" "mem_ok (BlacklistPeer now pid r s)"
    "mem_ok (RemoveFromBlacklist pid s)" "mem_ok (fst (SaveGroup g s))" "mem_ok (DeleteGroup gid s)"
    "mem_ok (fst (SaveChannel ch s))" "mem_ok (DeleteChannel cid s)" "mem_ok (DeleteAllSenderKeys gid s)"
  using assms
  by (auto simp: mem_ok_def mem_defs keyed_by_set keyed_by_del nested_by_del split: option.splits)

lemma nested_insert:
  assumes "nested_by f g m" "f v = a" "g v = k"
  shows "nested_by f g (gm_set a (gm_set k v (case gm_get (case gm_get m a of None \<Rightarrow> gm_set a [] m | Some _ \<Rightarrow> m) a of
      None \<Rightarrow> [] | Some i \<Rightarrow> i)) (case gm_get m a of None \<Rightarrow> gm_set a [] m | Some _ \<Rightarrow> m))"
proof (cases "gm_get m a")
  case None
  have "nested_by f g (gm_set a [] m)" using assms(1) by (rule nested_by_set) simp_all
  then have "nested_by f g (gm_set a (gm_set k v []) (gm_set a [] m))"
    by (rule nested_by_set) (use assms in \<open>auto simp: keyed_by_set split: if_splits\<close>)
  then show ?thesis using None by simp
next
  case (Some i)
  then have "nested_by f g (gm_set a (gm_set k v i) m)"
    using assms nested_by_getD[OF assms(1) Some] by (intro nested_by_set) (auto simp: keyed_by_set split: if_splits)
  then show ?thesis using Some by simp
qed

lemma mem_ok_SaveSenderKey: "mem_ok s \<Longrightarrow> mem_ok (fst (SaveSenderKey sk s))"
  by (cases "ms_senderKeys s")
    (simp_all add: mem_ok_def SaveSenderKey_def nested_insert Let_def del: gm_get_set)

lemma mem_ok_DeleteSenderKey: "mem_ok s \<Longrightarrow> mem_ok (DeleteSenderKey g k s)"
proof (cases "nm_get (ms_senderKeys s) g")
  case (Some i)
  assume ok: "mem_ok s"
  then obtain m where m: "ms_senderKeys s = Some m" "nested_by skd_GroupId skd_SenderPub m"
    by (auto simp: mem_ok_def split: option.splits)
  have i: "gm_get m g = Some i" using Some m(1) by (simp add: nm_get_def)
  have "nested_by skd_GroupId skd_SenderPub (gm_set g (gm_del k i) m)"
    using m(2) nested_by_getD[OF m(2) i] by (intro nested_by_set) (auto simp: keyed_by_del split: if_splits)
  then show ?thesis using ok Some m(1) by (simp add: mem_ok_def DeleteSenderKey_def)
qed (simp add: DeleteSenderKey_def)

lemma mem_ok_SaveChannelPost: "mem_ok s \<Longrightarrow> mem_ok (fst (SaveChannelPost p s))"
proof -
  assume ok: "mem_ok s"
  then obtain m c where m: "ms_channelPosts s = Some m" "nested_by cp_ChannelId cp_PostId m"
    "ms_channels s = Some c" "keyed_by ch_ChannelId c"
    by (auto simp: mem_ok_def split: option.splits)
  show ?thesis
  proof (cases "gm_get c (cp_ChannelId p)")
    case None
    then show ?thesis using ok m
      by (simp add: mem_ok_def SaveChannelPost_def nested_insert Let_def nm_get_def del: gm_get_set)
  next
    case (Some ch)
    then have "ch_ChannelId ch = cp_ChannelId p" using m(4) by (auto dest: keyed_by_get)
    then show ?thesis using ok m Some
      by (simp add: mem_ok_def SaveChannelPost_def nested_insert Let_def nm_get_def keyed_by_set del: gm_get_set)
  qed
qed

lemmas mem_ok_ops = mem_ok_simple mem_ok_SaveSenderKey mem_ok_DeleteSenderKey mem_ok_SaveChannelPost

section \<open>The memory store implements the interface\<close>

definition group_view :: "bytes \<Rightarrow> MemoryStorage \<Rightarrow> pb_GroupState option" where
  "group_view g s = (case GetGroup g s of Inl _ \<Rightarrow> None | Inr v \<Rightarrow> Some v)"

definition channel_view :: "bytes \<Rightarrow> MemoryStorage \<Rightarrow> ChannelState option" where
  "channel_view c s = (case GetChannel c s of Inl _ \<Rightarrow> None | Inr v \<Rightarrow> Some v)"

definition sender_view :: "bytes \<times> bytes \<Rightarrow> MemoryStorage \<Rightarrow> SenderKeyDistribution option" where
  "sender_view gk s = (case GetSenderKey (fst gk) (snd gk) s of Inl _ \<Rightarrow> None | Inr v \<Rightarrow> Some v)"

lemma group_view_nm: "group_view g s = nm_get (ms_groups s) g"
  by (simp add: group_view_def GetGroup_def split: option.split)

lemma channel_view_nm: "channel_view c s = nm_get (ms_channels s) c"
  by (simp add: channel_view_def GetChannel_def split: option.split)

lemma sender_view_nm:
  "sender_view (g, k) s = (case nm_get (ms_senderKeys s) g of None \<Rightarrow> None | Some m \<Rightarrow> gm_get m k)"
  by (simp add: sender_view_def GetSenderKey_def split: option.split)

interpretation contacts: listed_store ct_PublicKey AddContact GetContact DeleteContact mem_ok ListContacts
proof unfold_locales
  fix s assume "mem_ok s"
  then have k: "keyed_by ct_PublicKey (ms_contacts s)" by (simp add: mem_ok_def)
  show "set (ListContacts s) = {v. GetContact (ct_PublicKey v) s = Some v}"
    using keyed_by_vals[OF k] by (simp add: ListContacts_def GetContact_def)
  show "distinct (map ct_PublicKey (ListContacts s))"
    using keyed_by_distinct[OF k] by (simp add: ListContacts_def)
qed (simp_all add: mem_ok_ops, simp_all add: AddContact_def GetContact_def DeleteContact_def)

interpretation peers: keyed_store pr_PeerID AddPeer GetPeer DeletePeer mem_ok
  by unfold_locales (simp_all add: mem_ok_ops, simp_all add: AddPeer_def GetPeer_def DeletePeer_def)

interpretation gstore: listed_store pg_GroupId "\<lambda>g s. fst (SaveGroup g s)" group_view DeleteGroup mem_ok ListGroups
proof unfold_locales
  fix s assume "mem_ok s"
  then obtain m where m: "ms_groups s = Some m" and k: "keyed_by pg_GroupId m"
    by (auto simp: mem_ok_def split: option.splits)
  show "set (ListGroups s) = {v. group_view (pg_GroupId v) s = Some v}"
    using keyed_by_vals[OF k] m by (simp add: ListGroups_def group_view_nm nm_vals_def nm_get_def)
  show "distinct (map pg_GroupId (ListGroups s))"
    using keyed_by_distinct[OF k] m by (simp add: ListGroups_def nm_vals_def)
qed (simp_all add: mem_ok_ops,
     auto simp: mem_ok_def group_view_nm SaveGroup_def DeleteGroup_def nm_get_def nm_del_def split: option.splits)

interpretation cstore: listed_store ch_ChannelId "\<lambda>c s. fst (SaveChannel c s)" channel_view DeleteChannel mem_ok ListChannels
proof unfold_locales
  fix s assume "mem_ok s"
  then obtain m where m: "ms_channels s = Some m" and k: "keyed_by ch_ChannelId m"
    by (auto simp: mem_ok_def split: option.splits)
  show "set (ListChannels s) = {v. channel_view (ch_ChannelId v) s = Some v}"
    using keyed_by_vals[OF k] m by (simp add: ListChannels_def channel_view_nm nm_vals_def nm_get_def)
  show "distinct (map ch_ChannelId (ListChannels s))"
    using keyed_by_distinct[OF k] m by (simp add: ListChannels_def nm_vals_def)
qed (simp_all add: mem_ok_ops,
     auto simp: mem_ok_def channel_view_nm SaveChannel_def DeleteChannel_def nm_get_def nm_del_def split: option.splits)

interpretation skstore: keyed_store "\<lambda>sk. (skd_GroupId sk, skd_SenderPub sk)" "\<lambda>sk s. fst (SaveSenderKey sk s)"
    sender_view "\<lambda>gk s. DeleteSenderKey (fst gk) (snd gk) s" mem_ok
proof unfold_locales
  fix s k and v :: SenderKeyDistribution and k'
  assume "mem_ok s"
  then obtain m where m: "ms_senderKeys s = Some m" by (auto simp: mem_ok_def split: option.splits)
  show "sender_view k (fst (SaveSenderKey v s)) =
      (if k = (skd_GroupId v, skd_SenderPub v) then Some v else sender_view k s)"
    using m by (cases k) (auto simp: sender_view_nm SaveSenderKey_def nm_get_def Let_def split: option.split)
  show "sender_view k (DeleteSenderKey (fst k') (snd k') s) = (if k = k' then None else sender_view k s)"
    using m by (cases k; cases k') (auto simp: sender_view_nm DeleteSenderKey_def nm_get_def split: option.split)
qed (simp_all add: mem_ok_ops)

section \<open>Histories\<close>

datatype mem_op =
    OAddContact Contact | ODeleteContact bytes | OAddMessage bytes SignedEnvelope | ODeleteMessages bytes
  | OAddPeer PeerRecord | ODeletePeer string | OSetConfig string string | ODeleteConfig string
  | OBlacklistPeer int string string | ORemoveFromBlacklist string
  | OSaveGroup pb_GroupState | ODeleteGroup bytes
  | OSaveSenderKey SenderKeyDistribution | ODeleteSenderKey bytes bytes | ODeleteAllSenderKeys bytes
  | OSaveChannel ChannelState | ODeleteChannel bytes | OSaveChannelPost ChannelPost

fun mem_exec :: "mem_op \<Rightarrow> MemoryStorage \<Rightarrow> MemoryStorage" where
  "mem_exec (OAddContact c) = AddContact c"
| "mem_exec (ODeleteContact pk) = DeleteContact pk"
| "mem_exec (OAddMessage pk e) = AddMessage pk e"
| "mem_exec (ODeleteMessages pk) = DeleteMessages pk"
| "mem_exec (OAddPeer p) = AddPeer p"
| "mem_exec (ODeletePeer pid) = DeletePeer pid"
| "mem_exec (OSetConfig k v) = SetConfig k v"
| "mem_exec (ODeleteConfig k) = DeleteConfig k"
| "mem_exec (OBlacklistPeer now pid r) = BlacklistPeer now pid r"
| "mem_exec (ORemoveFromBlacklist pid) = RemoveFromBlacklist pid"
| "mem_exec (OSaveGroup g) = fst \<circ> SaveGroup g"
| "mem_exec (ODeleteGroup gid) = DeleteGroup gid"
| "mem_exec (OSaveSenderKey sk) = fst \<circ> SaveSenderKey sk"
| "mem_exec (ODeleteSenderKey g k) = DeleteSenderKey g k"
| "mem_exec (ODeleteAllSenderKeys g) = DeleteAllSenderKeys g"
| "mem_exec (OSaveChannel c) = fst \<circ> SaveChannel c"
| "mem_exec (ODeleteChannel c) = DeleteChannel c"
| "mem_exec (OSaveChannelPost p) = fst \<circ> SaveChannelPost p"

definition mem_run :: "mem_op list \<Rightarrow> MemoryStorage \<Rightarrow> MemoryStorage" where
  "mem_run ops s = fold mem_exec ops s"

fun contact_op :: "mem_op \<Rightarrow> (bytes, Contact) store_op list" where
  "contact_op (OAddContact c) = [Put c]"
| "contact_op (ODeleteContact pk) = [Del pk]"
| "contact_op _ = []"

fun group_op :: "mem_op \<Rightarrow> (bytes, pb_GroupState) store_op list" where
  "group_op (OSaveGroup g) = [Put g]"
| "group_op (ODeleteGroup gid) = [Del gid]"
| "group_op _ = []"

fun message_op :: "bytes \<Rightarrow> mem_op \<Rightarrow> SignedEnvelope list \<Rightarrow> SignedEnvelope list" where
  "message_op pk (OAddMessage pk' e) ms = (if pk' = pk then ms @ [e] else ms)"
| "message_op pk (ODeleteMessages pk') ms = (if pk' = pk then [] else ms)"
| "message_op pk _ ms = ms"

lemma mem_ok_exec: "mem_ok s \<Longrightarrow> mem_ok (mem_exec op s)"
  by (cases op) (simp_all add: mem_ok_ops)

lemma mem_run_simps [simp]: "mem_run [] s = s" "mem_run (op # ops) s = mem_run ops (mem_exec op s)"
  by (simp_all add: mem_run_def)

lemma mem_ok_run: "mem_ok s \<Longrightarrow> mem_ok (mem_run ops s)"
  by (induction ops arbitrary: s) (simp_all add: mem_ok_exec)

lemma GetContact_frame: "contact_op op = [] \<Longrightarrow> GetContact k (mem_exec op s) = GetContact k s"
  by (cases op) (auto simp: GetContact_def mem_defs Let_def split: option.splits)

lemma group_frame: "group_op op = [] \<Longrightarrow> group_view k (mem_exec op s) = group_view k s"
  by (cases op) (auto simp: group_view_nm mem_defs Let_def split: option.splits)

lemma map_run_append: "map_run key (a @ b) m = map_run key b (map_run key a m)"
proof (induction a arbitrary: m)
  case (Cons op a)
  then show ?case by (cases op) (simp_all add: fun_upd_def)
qed simp

lemma contact_step: "mem_ok s \<Longrightarrow>
    (\<lambda>k. GetContact k (mem_exec op s)) = map_run ct_PublicKey (contact_op op) (\<lambda>k. GetContact k s)"
  by (cases "contact_op op = []")
    (simp_all add: GetContact_frame, cases op, simp_all add: contacts.put_upd contacts.del_upd)

lemma group_step: "mem_ok s \<Longrightarrow>
    (\<lambda>k. group_view k (mem_exec op s)) = map_run pg_GroupId (group_op op) (\<lambda>k. group_view k s)"
  by (cases "group_op op = []")
    (simp_all add: group_frame, cases op, simp_all add: gstore.put_upd gstore.del_upd)

lemma contact_history: "mem_ok s \<Longrightarrow> (\<lambda>k. GetContact k (mem_run ops s)) =
    map_run ct_PublicKey (concat (map contact_op ops)) (\<lambda>k. GetContact k s)"
  by (induction ops arbitrary: s) (simp_all add: map_run_append mem_ok_exec contact_step)

lemma group_history: "mem_ok s \<Longrightarrow> (\<lambda>k. group_view k (mem_run ops s)) =
    map_run pg_GroupId (concat (map group_op ops)) (\<lambda>k. group_view k s)"
  by (induction ops arbitrary: s) (simp_all add: map_run_append mem_ok_exec group_step)

definition stored_messages :: "bytes \<Rightarrow> MemoryStorage \<Rightarrow> SignedEnvelope list" where
  "stored_messages pk s = (case gm_get (ms_messages s) pk of None \<Rightarrow> [] | Some ms \<Rightarrow> ms)"

lemma message_step: "stored_messages pk (mem_exec op s) = message_op pk op (stored_messages pk s)"
  by (cases op) (auto simp: stored_messages_def mem_defs Let_def split: option.splits)

lemma message_history: "stored_messages pk (mem_run ops s) = fold (message_op pk) ops (stored_messages pk s)"
  by (induction ops arbitrary: s) (simp_all add: message_step)

lemma int64_id: "- (2 ^ 63) \<le> x \<Longrightarrow> x < 2 ^ 63 \<Longrightarrow> int64 x = x"
  by (simp add: int64_def signed_of_int signed_take_bit_int_eq_self)

lemma int64_wrap: "2 ^ 63 \<le> x \<Longrightarrow> x < 2 ^ 64 \<Longrightarrow> int64 x = x - 2 ^ 64"
proof -
  assume x: "2 ^ 63 \<le> x" "x < 2 ^ 64"
  have "(word_of_int x :: 64 word) = word_of_int (x - 2 ^ 64)"
    by (rule word_of_int_eq_iff[THEN iffD2]) (simp add: take_bit_eq_mod)
  then have "int64 x = int64 (x - 2 ^ 64)" by (simp only: int64_def)
  then show ?thesis using int64_id[of "x - 2 ^ 64"] x by simp
qed

lemma GetMessages_page:
  assumes "0 < limit" "0 \<le> offset" "offset + limit < 2 ^ 63"
  shows "GetMessages pk limit offset s = Inr (take (nat limit) (drop (nat offset) (stored_messages pk s)))"
proof (cases "gm_get (ms_messages s) pk")
  case None
  then show ?thesis by (simp add: GetMessages_def stored_messages_def)
next
  case (Some ms)
  have i: "int64 (offset + limit) = offset + limit" using assms by (intro int64_id) simp_all
  show ?thesis
  proof (cases "offset < int (length ms)")
    case True
    then show ?thesis using Some assms(1,2)
      by (simp add: GetMessages_def stored_messages_def i Let_def nat_add_distrib)
  qed (use Some assms in \<open>simp add: GetMessages_def stored_messages_def\<close>)
qed

lemma concat_pages:
  "concat (map (\<lambda>i. take n (drop (i * n) xs)) [0..<k]) = take (k * n) xs"
  by (induction k) (simp_all add: take_add[of "_ * n" n, symmetric] add.commute[of n])

lemma gm_get_Cons: "gm_get ((a, b) # m) k = (if k = a then Some b else gm_get m k)"
  by (simp add: gm_get_def)

lemma gm_get_copy: "gm_ok m \<Longrightarrow> gm_get (gm_copy m) k = gm_get m k"
proof -
  have "gm_ok m \<Longrightarrow> gm_get (foldl (\<lambda>c (k, v). gm_set k v c) c m) k =
      (case gm_get m k of None \<Rightarrow> gm_get c k | Some v \<Rightarrow> Some v)" for c
  proof (induction m arbitrary: c)
    case (Cons p m)
    obtain a b where p: "p = (a, b)" by (cases p)
    have "gm_ok m" "gm_get m a = None"
      using Cons.prems p by (auto simp: gm_ok_def gm_get_def map_of_eq_None_iff)
    then show ?case using Cons.IH[of "gm_set a b c"] p
      by (auto simp: gm_get_Cons split: option.splits)
  qed simp
  then show "gm_ok m \<Longrightarrow> gm_get (gm_copy m) k = gm_get m k"
    by (simp add: gm_copy_def split: option.split)
qed

section \<open>Properties\<close>

text \<open>C7. The in-memory store refines three abstract maps under every history of its mutating
  operations, in any interleaving: \<open>GetContact\<close> and \<open>GetGroup\<close> return what the saves and deletions
  of contacts and groups alone leave in an abstract map (the last save of a key wins, a deletion
  removes it, operations on other parts never interfere), the listings enumerate exactly the live
  entries without repeating a key, and the messages of a contact are those added since their last
  deletion, in the order they were added.\<close>

theorem memory_store_refines_maps:
  fixes ops :: "mem_op list"
  defines "s \<equiv> mem_run ops NewMemoryStorage"
  shows "(\<lambda>k. GetContact k s) = map_run ct_PublicKey (concat (map contact_op ops)) (\<lambda>_. None)
    \<and> (\<lambda>g. case GetGroup g s of Inl _ \<Rightarrow> None | Inr v \<Rightarrow> Some v) =
        map_run pg_GroupId (concat (map group_op ops)) (\<lambda>_. None)
    \<and> set (ListContacts s) = {c. GetContact (ct_PublicKey c) s = Some c}
    \<and> length (ListContacts s) = ContactCount s \<and> distinct (map ct_PublicKey (ListContacts s))
    \<and> set (ListGroups s) = {g. GetGroup (pg_GroupId g) s = Inr g} \<and> distinct (map pg_GroupId (ListGroups s))
    \<and> (\<forall>pk. stored_messages pk s = fold (message_op pk) ops [])"
proof -
  have ok: "mem_ok s" unfolding s_def by (rule mem_ok_run[OF mem_ok_New])
  have new: "GetContact k NewMemoryStorage = None" "group_view k NewMemoryStorage = None"
    "stored_messages k NewMemoryStorage = []" for k
    by (simp_all add: NewMemoryStorage_def GetContact_def group_view_nm nm_get_def stored_messages_def)
  have gv: "GetGroup (pg_GroupId g) s = Inr g \<longleftrightarrow> group_view (pg_GroupId g) s = Some g" for g
    by (simp add: group_view_def split: sum.split)
  have "(\<lambda>k. GetContact k s) = map_run ct_PublicKey (concat (map contact_op ops)) (\<lambda>_. None)"
    using contact_history[OF mem_ok_New, of ops] by (simp add: s_def new)
  moreover have "(\<lambda>g. case GetGroup g s of Inl _ \<Rightarrow> None | Inr v \<Rightarrow> Some v) =
      map_run pg_GroupId (concat (map group_op ops)) (\<lambda>_. None)"
    using group_history[OF mem_ok_New, of ops] by (simp add: s_def new) (simp add: group_view_def)
  moreover have "length (ListContacts s) = ContactCount s"
    by (simp add: ListContacts_def ContactCount_def gm_len_def)
  moreover have "\<forall>pk. stored_messages pk s = fold (message_op pk) ops []"
    by (simp add: s_def message_history new)
  ultimately show ?thesis
    using contacts.set_lst[OF ok] contacts.distinct_lst[OF ok] gstore.set_lst[OF ok] gstore.distinct_lst[OF ok]
    by (simp add: gv)
qed

text \<open>Paging through a conversation: for any page size, asking \<open>GetMessages\<close> for consecutive
  pages always succeeds and the pages, put together, are exactly the first messages of the stored
  conversation in order; once enough pages are read that is the whole conversation, nothing lost
  or repeated. The hypothesis is that no page end exceeds the range of Go's \<open>int\<close>.\<close>

theorem message_pages_cover:
  assumes "0 < n" "int (k * n + n) < 2 ^ 63"
  shows "\<exists>pages. (\<forall>i<k. GetMessages pk (int n) (int (i * n)) s = Inr (pages i)) \<and>
      concat (map pages [0..<k]) = take (k * n) (stored_messages pk s) \<and>
      (MessageCount pk s \<le> k * n \<longrightarrow> concat (map pages [0..<k]) = stored_messages pk s)"
proof -
  define pages where "pages i = take n (drop (i * n) (stored_messages pk s))" for i
  have "GetMessages pk (int n) (int (i * n)) s = Inr (pages i)" if "i < k" for i
  proof -
    have "i * n \<le> k * n" using that by simp
    then have "int (i * n) + int n < 2 ^ 63" using assms(2) by linarith
    then show ?thesis using assms(1) GetMessages_page[of "int n" "int (i * n)" pk s]
      by (simp add: pages_def nat_mult_distrib)
  qed
  moreover have "concat (map pages [0..<k]) = take (k * n) (stored_messages pk s)"
    unfolding pages_def by (rule concat_pages)
  moreover have "MessageCount pk s = length (stored_messages pk s)"
    by (simp add: MessageCount_def stored_messages_def split: option.split)
  ultimately show ?thesis by (intro exI[of _ pages]) simp
qed

theorem message_pages_cover_witness:
  "\<exists>pages. (\<forall>i<3. GetMessages [1] (int 2) (int (i * 2)) NewMemoryStorage = Inr (pages i)) \<and>
      concat (map pages [0..<3]) = take (3 * 2) (stored_messages [1] NewMemoryStorage) \<and>
      (MessageCount [1] NewMemoryStorage \<le> 3 * 2 \<longrightarrow>
        concat (map pages [0..<3]) = stored_messages [1] NewMemoryStorage)"
  by (rule message_pages_cover) simp_all

text \<open>Every branch of \<open>GetMessages\<close> on a stored conversation: past the end it is empty, a
  negative offset panics, no limit gives the rest, and with a limit it is one page, except that a
  limit so large that \<open>offset + limit\<close> leaves the 64-bit range makes the end negative and panics
  although the offset is valid.\<close>

theorem GetMessages_branches:
  assumes "gm_get (ms_messages s) pk = Some ms" "- (2 ^ 63) \<le> offset" "limit < 2 ^ 63" "length ms < 2 ^ 63"
  shows "GetMessages pk limit offset s =
    (if offset \<ge> int (length ms) then Inr []
     else if offset < 0 then Inl (Panic ''slice bounds out of range'')
     else if limit \<le> 0 then Inr (drop (nat offset) ms)
     else if offset + limit < 2 ^ 63 then Inr (take (nat limit) (drop (nat offset) ms))
     else Inl (Panic ''slice bounds out of range''))"
proof -
  consider "offset \<ge> int (length ms)" | "offset < int (length ms)" "offset < 0"
    | "0 \<le> offset" "offset < int (length ms)" "limit \<le> 0"
    | "0 \<le> offset" "offset < int (length ms)" "0 < limit" "offset + limit < 2 ^ 63"
    | "0 \<le> offset" "offset < int (length ms)" "0 < limit" "2 ^ 63 \<le> offset + limit" by linarith
  then show ?thesis
  proof cases
    case 4
    then show ?thesis using assms(1) GetMessages_page[of limit offset pk s] by (simp add: stored_messages_def)
  next
    case 5
    have "int64 (offset + limit) = offset + limit - 2 ^ 64"
      using 5 assms(3,4) by (intro int64_wrap) simp_all
    then show ?thesis using 5 assms by (simp add: GetMessages_def Let_def)
  qed (use assms(1) in \<open>simp_all add: GetMessages_def Let_def nat_diff_distrib\<close>)
qed

theorem GetMessages_branches_witness:
  "GetMessages [1] (2 ^ 63 - 1) 1 (AddMessage [1] \<lparr>se_Envelope = [9], se_Signature = [], se_SenderPubkey = [], se_EncryptedEphemeralPriv = []\<rparr>
     (AddMessage [1] \<lparr>se_Envelope = [9], se_Signature = [], se_SenderPubkey = [], se_EncryptedEphemeralPriv = []\<rparr> NewMemoryStorage)) =
     Inl (Panic ''slice bounds out of range'')"
  by (subst GetMessages_branches[where ms = "[\<lparr>se_Envelope = [9], se_Signature = [], se_SenderPubkey = [], se_EncryptedEphemeralPriv = []\<rparr>,
      \<lparr>se_Envelope = [9], se_Signature = [], se_SenderPubkey = [], se_EncryptedEphemeralPriv = []\<rparr>]"]) (simp_all add: AddMessage_def NewMemoryStorage_def)

text \<open>\<open>Clone\<close> is documented as a deep copy of the storage. It copies contacts, messages, peers,
  configuration and blacklist exactly, but the clone has no groups, sender keys, channels or posts,
  and saving any of those into it panics.\<close>

theorem Clone_copies_half:
  fixes ops :: "mem_op list"
  defines "s \<equiv> mem_run ops NewMemoryStorage"
  shows "(\<forall>k. GetContact k (Clone s) = GetContact k s) \<and> (\<forall>k. stored_messages k (Clone s) = stored_messages k s)
    \<and> (\<forall>k. GetPeer k (Clone s) = GetPeer k s) \<and> (\<forall>k. GetConfig k (Clone s) = GetConfig k s)
    \<and> (\<forall>now k. IsBlacklisted now k (Clone s) = IsBlacklisted now k s)
    \<and> (\<forall>g. GetGroup g (Clone s) = Inl ErrGroupNotFound)
    \<and> (\<forall>g. snd (SaveGroup g (Clone s)) = Inl nil_map_write)
    \<and> (\<forall>sk. snd (SaveSenderKey sk (Clone s)) = Inl nil_map_write)
    \<and> (\<forall>c. snd (SaveChannel c (Clone s)) = Inl nil_map_write)
    \<and> (\<forall>p. snd (SaveChannelPost p (Clone s)) = Inl nil_map_write)"
proof -
  have ok: "mem_ok s" unfolding s_def by (rule mem_ok_run[OF mem_ok_New])
  then have "gm_ok (ms_contacts s)" "gm_ok (ms_messages s)" "gm_ok (ms_peers s)" "gm_ok (ms_configs s)"
    "gm_ok (ms_blacklist s)" by (simp_all add: mem_ok_def keyed_by_def)
  then show ?thesis
    by (simp add: Clone_def GetContact_def stored_messages_def GetPeer_def GetConfig_def IsBlacklisted_def
        GetGroup_def SaveGroup_def SaveSenderKey_def SaveChannel_def SaveChannelPost_def nm_get_def gm_get_copy)
qed

end
