(* ===== verification/Badger.thy ===== *)
theory Badger
  imports Prelude "HOL-Library.List_Lexorder" "HOL-Library.Sublist"
begin

text \<open>
  The embedded key-value database (\<open>github.com/dgraph-io/badger/v3\<close>), which is not code of the
  repository. Its operations are the fields of a record that the definitions using it take as an
  argument: \<open>txn.Get\<close> in a \<open>View\<close> (\<open>None\<close> is \<open>badger.ErrKeyNotFound\<close>), iteration over a key prefix,
  and the commit of the writes collected in an \<open>Update\<close>. \<open>kv_ok\<close> states the documented behaviour:
  reads see the committed map, a commit applies all its writes in order, and iteration yields the
  entries under the prefix in ascending byte order of their keys. \<open>alist_db\<close> is a concrete instance.

  A database that reports an I/O error is outside \<open>kv_ok\<close>; the definitions carry its errors, each
  wrapped as the source does.
\<close>

datatype kv_write = WSet bytes bytes | WDel bytes

record 'd badger =
  db_get :: "'d \<Rightarrow> bytes \<Rightarrow> bytes option res"
  db_scan :: "'d \<Rightarrow> bytes \<Rightarrow> (bytes \<times> bytes) list res"
  db_commit :: "'d \<Rightarrow> kv_write list \<Rightarrow> 'd res"

fun apply_write :: "kv_write \<Rightarrow> (bytes \<Rightarrow> bytes option) \<Rightarrow> bytes \<Rightarrow> bytes option" where
  "apply_write (WSet k v) m = m(k \<mapsto> v)"
| "apply_write (WDel k) m = m(k := None)"

definition apply_writes :: "kv_write list \<Rightarrow> (bytes \<Rightarrow> bytes option) \<Rightarrow> bytes \<Rightarrow> bytes option" where
  "apply_writes ws m = fold apply_write ws m"

definition kv_ok :: "'d badger \<Rightarrow> ('d \<Rightarrow> bytes \<Rightarrow> bytes option) \<Rightarrow> bool" where
  "kv_ok B view \<longleftrightarrow>
     (\<forall>d k. db_get B d k = Inr (view d k)) \<and>
     (\<forall>d ws. \<exists>d'. db_commit B d ws = Inr d' \<and> view d' = apply_writes ws (view d)) \<and>
     (\<forall>d p. \<exists>kvs. db_scan B d p = Inr kvs \<and> sorted (map fst kvs) \<and> distinct (map fst kvs) \<and>
        set kvs = {(k, v). view d k = Some v \<and> prefix p k})"

section \<open>Uses of the database\<close>

text \<open>\<open>db.Update\<close> with the given writes, its error wrapped.\<close>

definition db_update :: "'d badger \<Rightarrow> string \<Rightarrow> kv_write list \<Rightarrow> 'd \<Rightarrow> ('d, unit) eff" where
  "db_update B msg ws d = (case db_commit B d ws of Inl e \<Rightarrow> (d, Inl (Wrap msg e)) | Inr d' \<Rightarrow> (d', Inr ()))"

text \<open>\<open>txn.Get\<close> inside an \<open>Update\<close> sees the pending writes of the transaction.\<close>

fun write_key :: "kv_write \<Rightarrow> bytes" where
  "write_key (WSet k v) = k"
| "write_key (WDel k) = k"

definition txn_get :: "'d badger \<Rightarrow> 'd \<Rightarrow> kv_write list \<Rightarrow> bytes \<Rightarrow> bytes option res" where
  "txn_get B d ws k =
     (case find (\<lambda>w. write_key w = k) (rev ws) of
        None \<Rightarrow> db_get B d k
      | Some (WSet _ v) \<Rightarrow> Inr (Some v)
      | Some (WDel _) \<Rightarrow> Inr None)"

text \<open>A loop over items that stops at the first error.\<close>

fun each :: "('a \<Rightarrow> 'b res) \<Rightarrow> 'a list \<Rightarrow> 'b list res" where
  "each f [] = Inr []"
| "each f (x # xs) = (case f x of Inl e \<Rightarrow> Inl e | Inr y \<Rightarrow> (case each f xs of Inl e \<Rightarrow> Inl e | Inr ys \<Rightarrow> Inr (y # ys)))"

lemma apply_writes_simps [simp]:
  "apply_writes [] m = m" "apply_writes (w # ws) m = apply_writes ws (apply_write w m)"
  by (simp_all add: apply_writes_def)

lemma apply_writes_deletes:
  "apply_writes (map WDel ks) m k = (if k \<in> set ks then None else m k)"
  by (induction ks arbitrary: m) auto

lemma kv_get: "kv_ok B view \<Longrightarrow> db_get B d k = Inr (view d k)"
  by (simp add: kv_ok_def)

lemma kv_commit:
  assumes "kv_ok B view"
  obtains d' where "db_commit B d ws = Inr d'" "view d' = apply_writes ws (view d)"
  using assms unfolding kv_ok_def by blast

lemma kv_update:
  assumes "kv_ok B view"
  shows "snd (db_update B msg ws d) = Inr ()" "view (fst (db_update B msg ws d)) = apply_writes ws (view d)"
  by (rule kv_commit[OF assms, of d ws], simp add: db_update_def)+

lemma kv_scan:
  assumes "kv_ok B view"
  obtains kvs where "db_scan B d p = Inr kvs" "sorted (map fst kvs)" "distinct (map fst kvs)"
    "set kvs = {(k, v). view d k = Some v \<and> prefix p k}"
  using assms unfolding kv_ok_def by blast

lemma each_Inr: "(\<And>x. x \<in> set xs \<Longrightarrow> f x = Inr (g x)) \<Longrightarrow> each f xs = Inr (map g xs)"
  by (induction xs) simp_all

lemma each_length: "each f xs = Inr ys \<Longrightarrow> length ys = length xs"
  by (induction xs arbitrary: ys) (auto split: sum.splits)

section \<open>A concrete instance\<close>

definition alist_db :: "(bytes, bytes) gomap badger" where
  "alist_db = \<lparr>db_get = (\<lambda>d k. Inr (map_of d k)),
     db_scan = (\<lambda>d p. Inr (sort_key fst (filter (\<lambda>(k, v). prefix p k) (AList.clearjunk d)))),
     db_commit = (\<lambda>d ws. Inr (fold (\<lambda>w m. case w of WSet k v \<Rightarrow> AList.update k v m | WDel k \<Rightarrow> AList.delete k m) ws d))\<rparr>"

lemma alist_commit_view: "map_of (fold (\<lambda>w m. case w of WSet k v \<Rightarrow> AList.update k v m | WDel k \<Rightarrow> AList.delete k m) ws d) =
    apply_writes ws (map_of d)"
proof (induction ws arbitrary: d)
  case (Cons w ws)
  then show ?case by (cases w) (simp_all add: update_conv' delete_conv' fun_upd_def)
qed simp

lemma alist_db_ok: "kv_ok alist_db map_of"
proof -
  have mem: "(k, v) \<in> set (AList.clearjunk d) \<longleftrightarrow> map_of d k = Some v" for k v and d :: "(bytes, bytes) gomap"
    by (metis map_of_eq_Some_iff distinct_clearjunk map_of_clearjunk)
  have "set (filter (\<lambda>(k, v). prefix p k) (AList.clearjunk d)) = {(k, v). map_of d k = Some v \<and> prefix p k}"
    for d :: "(bytes, bytes) gomap" and p
    by (auto simp: mem)
  moreover have "distinct (map fst (sort_key fst (filter (\<lambda>(k, v). prefix p k) (AList.clearjunk d))))"
    for d :: "(bytes, bytes) gomap" and p
  proof -
    have "distinct (map fst (filter (\<lambda>(k, v). prefix p k) (AList.clearjunk d)))"
      by (simp add: distinct_map_filter distinct_clearjunk)
    then show ?thesis
      by (simp add: distinct_map)
  qed
  ultimately show ?thesis
    unfolding kv_ok_def alist_db_def by (simp add: alist_commit_view)
qed

end
