(* ===== verification/KeySpace.thy ===== *)
theory KeySpace
  imports Badger Crypto
begin

text \<open>
  Facts on database keys that every component on Badger needs: strings as bytes, hexadecimal parts
  ended by a colon, and that a scan depends only on the entries under its prefix.
\<close>

section \<open>Strings as bytes\<close>

lemma str_bytes_inj [simp]: "str_bytes a = str_bytes b \<longleftrightarrow> a = b"
proof -
  have "inj (of_char :: char \<Rightarrow> byte)" by (rule injI) (metis of_char_eqI unat_of_char)
  then show ?thesis by (simp add: str_bytes_def inj_map_eq_map)
qed

lemma str_bytes_append: "str_bytes (a @ b) = str_bytes a @ str_bytes b"
  by (simp add: str_bytes_def)

lemma length_str_bytes [simp]: "length (str_bytes s) = length s"
  by (simp add: str_bytes_def)

lemma str_bytes_Cons [simp]: "str_bytes (c # s) = of_char c # str_bytes s"
  by (simp add: str_bytes_def)

lemma str_bytes_Nil [simp]: "str_bytes [] = []"
  by (simp add: str_bytes_def)

lemma hex_bytes_no_colon: "(0x3A :: byte) \<notin> set (str_bytes (hex_encode x))"
proof
  assume "(0x3A :: byte) \<in> set (str_bytes (hex_encode x))"
  then obtain ch where ch: "ch \<in> set (hex_encode x)" "(0x3A :: byte) = of_char ch" by (auto simp: str_bytes_def)
  then have "unat (0x3A :: byte) = (of_char ch :: nat)" by (simp only: unat_of_char)
  then have "of_char ch = (of_char (CHR '':'') :: nat)" by simp
  then have "ch = CHR '':''" by (rule of_char_eqI)
  then show False using ch(1) hex_encode_no_colon[of x] by simp
qed

lemma sep_inj:
  "str_bytes (hex_encode a) @ 0x3A # x = str_bytes (hex_encode c) @ 0x3A # y \<longleftrightarrow> a = c \<and> x = y"
  using append_sep_inj[OF hex_bytes_no_colon hex_bytes_no_colon, of a x c y] by auto

section \<open>Scans\<close>

lemma scan_unique:
  assumes "sorted (map fst a)" "distinct (map fst a)" "sorted (map fst b)" "distinct (map fst b)" "set a = set (b :: (bytes \<times> bytes) list)"
  shows "a = b"
proof -
  have eq: "map fst a = map fst b"
    using assms by (intro sorted_distinct_set_unique) simp_all
  have "map_of a = map_of b" using assms by (metis map_of_inject_set)
  then have "map snd a = map snd b" using eq assms(2,4)
    by (metis (no_types, lifting) length_map map_of_zip_map map_snd_zip map_fst_zip zip_map_fst_snd map_of_zip_inject)
  then show ?thesis using eq by (metis zip_map_fst_snd)
qed

lemma scan_cong:
  assumes "kv_ok B view" "\<And>k. prefix p k \<Longrightarrow> view d k = view d' k"
  shows "db_scan B d p = db_scan B d' p"
proof -
  obtain a where a: "db_scan B d p = Inr a" "sorted (map fst a)" "distinct (map fst a)"
    "set a = {(k, v). view d k = Some v \<and> prefix p k}" by (rule kv_scan[OF assms(1)])
  obtain b where b: "db_scan B d' p = Inr b" "sorted (map fst b)" "distinct (map fst b)"
    "set b = {(k, v). view d' k = Some v \<and> prefix p k}" by (rule kv_scan[OF assms(1)])
  have "a = b" using a b assms(2) by (intro scan_unique) auto
  then show ?thesis using a(1) b(1) by simp
qed

text \<open>\<open>db.Update\<close> whose error is returned as it is.\<close>

definition db_run :: "'d badger \<Rightarrow> kv_write list \<Rightarrow> 'd \<Rightarrow> ('d, unit) eff" where
  "db_run B ws d = (case db_commit B d ws of Inl e \<Rightarrow> (d, Inl e) | Inr d' \<Rightarrow> (d', Inr ()))"

lemma kv_run:
  assumes "kv_ok B view"
  shows "snd (db_run B ws d) = Inr ()" "view (fst (db_run B ws d)) = apply_writes ws (view d)"
  by (rule kv_commit[OF assms, of d ws], simp add: db_run_def)+

end
