(* ===== verification/BadgerStorage.thy ===== *)
theory BadgerStorage
  imports MemStorage RefCodec KeySpace
begin

text \<open>
  \<open>pkg/storage/badger.go\<close>, \<open>groups.go\<close> and \<open>channels.go\<close>: the persistent implementation of the
  \<open>Storage\<close> interface over Badger. The state of the store is the database alone; every operation
  takes the database operations \<open>B\<close> and the message codecs \<open>C\<close> (protobuf for messages, JSON for peer
  records and blacklist entries), and returns the database it leaves and its result.

  The debug log statements that print the first eight bytes of an identifier are kept, because
  slicing a shorter identifier panics after the write was committed. A key slice is taken to have no
  spare capacity. Not modelled: \<open>PrunePeers\<close> (it orders peers by a floating-point quotient), opening
  and closing the database.
\<close>

record codecs =
  c_contact :: "Contact codec"
  c_signed :: "SignedEnvelope codec"
  c_envelope :: "Envelope codec"
  c_group :: "pb_GroupState codec"
  c_sender :: "SenderKeyDistribution codec"
  c_channel :: "ChannelState codec"
  c_post :: "ChannelPost codec"
  c_action :: "pb_ModerationAction codec"
  c_peer :: "PeerRecord codec"
  c_black :: "BlacklistEntry codec"

definition codecs_ok :: "codecs \<Rightarrow> bool" where
  "codecs_ok C \<longleftrightarrow> codec_ok (c_contact C) \<and> codec_ok (c_signed C) \<and> codec_ok (c_envelope C) \<and>
     codec_ok (c_group C) \<and> codec_ok (c_sender C) \<and> codec_ok (c_channel C) \<and> codec_ok (c_post C) \<and>
     codec_ok (c_action C) \<and> codec_ok (c_peer C) \<and> codec_ok (c_black C)"

section \<open>Keys\<close>

definition messageKey :: "bytes \<Rightarrow> u64 \<Rightarrow> bytes \<Rightarrow> bytes" where
  "messageKey contactPubKey timestamp nonce = str_bytes ''m:'' @ contactPubKey @ be_bytes 8 timestamp @ nonce"

definition contactKey :: "bytes \<Rightarrow> bytes" where
  "contactKey pubKey = str_bytes ''c:'' @ pubKey"

definition peerKey :: "string \<Rightarrow> bytes" where
  "peerKey peerID = str_bytes ''p:'' @ str_bytes peerID"

definition configKey :: "string \<Rightarrow> bytes" where
  "configKey key = str_bytes ''cfg:'' @ str_bytes key"

definition blacklistKey :: "string \<Rightarrow> bytes" where
  "blacklistKey peerID = str_bytes ''bl:'' @ str_bytes peerID"

definition groupKey :: "bytes \<Rightarrow> bytes" where
  "groupKey groupID = str_bytes ''g:'' @ str_bytes (hex_encode groupID)"

definition senderKeyKey :: "bytes \<Rightarrow> bytes \<Rightarrow> bytes" where
  "senderKeyKey groupID senderPubkey =
     str_bytes ''sk:'' @ str_bytes (hex_encode groupID) @ str_bytes '':'' @ str_bytes (hex_encode senderPubkey)"

definition channelKey :: "bytes \<Rightarrow> bytes" where
  "channelKey channelID = str_bytes ''ch:'' @ str_bytes (hex_encode channelID)"

definition channelPostKey :: "bytes \<Rightarrow> bytes \<Rightarrow> bytes" where
  "channelPostKey channelID postID =
     str_bytes ''chp:'' @ str_bytes (hex_encode channelID) @ str_bytes '':'' @ str_bytes (hex_encode postID)"

section \<open>Shared shapes of the operations\<close>

text \<open>Marshal a message, then \<open>db.Update\<close> with one \<open>Set\<close>.\<close>

definition store_msg :: "'d badger \<Rightarrow> 'm codec \<Rightarrow> string \<Rightarrow> string \<Rightarrow> bytes \<Rightarrow> 'm \<Rightarrow> 'd \<Rightarrow> ('d, unit) eff" where
  "store_msg B K e1 e2 key msg d =
     (case marshal K msg of
        Inl e \<Rightarrow> (d, Inl (Wrap e1 e))
      | Inr data \<Rightarrow> db_update B e2 [WSet key data] d)"

text \<open>\<open>db.View\<close> with one \<open>Get\<close> and an unmarshal; \<open>missing\<close> is what the caller makes of
  \<open>badger.ErrKeyNotFound\<close>.\<close>

definition load_msg :: "'d badger \<Rightarrow> 'm codec \<Rightarrow> string \<Rightarrow> 'r res \<Rightarrow> ('m \<Rightarrow> 'r) \<Rightarrow> bytes \<Rightarrow> 'd \<Rightarrow> 'r res" where
  "load_msg B K e1 missing found key d =
     (case db_get B d key of
        Inl e \<Rightarrow> Inl (Wrap e1 e)
      | Inr None \<Rightarrow> missing
      | Inr (Some data) \<Rightarrow> (case unmarshal K data of Inl e \<Rightarrow> Inl (Wrap e1 e) | Inr msg \<Rightarrow> Inr (found msg)))"

text \<open>\<open>db.View\<close> with an iteration over a prefix, unmarshalling every value.\<close>

definition list_msgs :: "'d badger \<Rightarrow> 'm codec \<Rightarrow> string \<Rightarrow> bytes \<Rightarrow> 'd \<Rightarrow> 'm list res" where
  "list_msgs B K e1 pre d =
     (case db_scan B d pre of
        Inl e \<Rightarrow> Inl (Wrap e1 e)
      | Inr kvs \<Rightarrow> wrapped e1 (each (unmarshal K \<circ> snd) kvs))"

text \<open>\<open>db.Update\<close> that collects the keys under a prefix and deletes them.\<close>

definition delete_prefix :: "'d badger \<Rightarrow> string \<Rightarrow> bytes \<Rightarrow> 'd \<Rightarrow> ('d, unit) eff" where
  "delete_prefix B e1 pre d =
     (case db_scan B d pre of
        Inl e \<Rightarrow> (d, Inl (Wrap e1 e))
      | Inr kvs \<Rightarrow> db_update B e1 (map (WDel \<circ> fst) kvs) d)"

text \<open>\<open>logger.Debugw(..., hex.EncodeToString(id[:8]))\<close> after a successful write.\<close>

definition log8 :: "bytes \<Rightarrow> ('d, unit) eff \<Rightarrow> ('d, unit) eff" where
  "log8 ident r = (case r of (d, Inl e) \<Rightarrow> (d, Inl e)
     | (d, Inr _) \<Rightarrow> if length ident < 8 then (d, Inl (Panic ''slice bounds out of range'')) else (d, Inr ()))"

section \<open>Contacts\<close>

definition Badger_AddContact :: "'d badger \<Rightarrow> codecs \<Rightarrow> Contact \<Rightarrow> 'd \<Rightarrow> ('d, unit) eff" where
  "Badger_AddContact B C contact d =
     store_msg B (c_contact C) ''failed to marshal contact'' ''failed to store contact''
       (contactKey (ct_PublicKey contact)) contact d"

definition Badger_GetContact :: "'d badger \<Rightarrow> codecs \<Rightarrow> bytes \<Rightarrow> 'd \<Rightarrow> Contact option res" where
  "Badger_GetContact B C pubKey d =
     load_msg B (c_contact C) ''failed to retrieve contact'' (Inr None) Some (contactKey pubKey) d"

definition Badger_GetContactByBase58 ::
    "'d badger \<Rightarrow> codecs \<Rightarrow> (string \<Rightarrow> bytes res) \<Rightarrow> string \<Rightarrow> 'd \<Rightarrow> Contact option res" where
  "Badger_GetContactByBase58 B C b58 str d =
     (case b58 str of
        Inl e \<Rightarrow> Inl (Wrap ''failed to decode base58 public key'' e)
      | Inr pubKey \<Rightarrow> Badger_GetContact B C pubKey d)"

definition Badger_GetContactX25519Key :: "'d badger \<Rightarrow> codecs \<Rightarrow> bytes \<Rightarrow> 'd \<Rightarrow> bytes res" where
  "Badger_GetContactX25519Key B C pubKey d =
     (case Badger_GetContact B C pubKey d of
        Inl e \<Rightarrow> Inl e
      | Inr None \<Rightarrow> Inl (Err ''contact not found'')
      | Inr (Some contact) \<Rightarrow>
          if length (ct_X25519PublicKey contact) = 0 then Inl (Err ''contact X25519 public key not stored'')
          else Inr (ct_X25519PublicKey contact))"

definition Badger_ListContacts :: "'d badger \<Rightarrow> codecs \<Rightarrow> 'd \<Rightarrow> Contact list res" where
  "Badger_ListContacts B C d = list_msgs B (c_contact C) ''failed to list contacts'' (str_bytes ''c:'') d"

definition Badger_DeleteContact :: "'d badger \<Rightarrow> bytes \<Rightarrow> 'd \<Rightarrow> ('d, unit) eff" where
  "Badger_DeleteContact B pubKey d = db_update B ''failed to delete contact'' [WDel (contactKey pubKey)] d"

section \<open>Messages\<close>

definition Badger_AddMessage ::
    "'d badger \<Rightarrow> codecs \<Rightarrow> u64 \<Rightarrow> bytes \<Rightarrow> SignedEnvelope \<Rightarrow> 'd \<Rightarrow> ('d, unit) eff" where
  "Badger_AddMessage B C now contactPubKey envelope d =
     (case unmarshal (c_envelope C) (se_Envelope envelope) of
        Inl e \<Rightarrow> (d, Inl (Wrap ''failed to parse envelope'' e))
      | Inr env \<Rightarrow>
          store_msg B (c_signed C) ''failed to marshal envelope'' ''failed to store message''
            (messageKey contactPubKey now (ev_Nonce env)) envelope d)"

definition messages_prefix :: "bytes \<Rightarrow> bytes" where
  "messages_prefix contactPubKey = str_bytes ''m:'' @ contactPubKey"

text \<open>The loop over the iterator; \<open>klen\<close> is \<open>len(contactPubKey)\<close>.\<close>

fun messages_loop :: "SignedEnvelope codec \<Rightarrow> nat \<Rightarrow> int \<Rightarrow> int \<Rightarrow> int \<Rightarrow> int \<Rightarrow> MessageWithKey list \<Rightarrow>
    (bytes \<times> bytes) list \<Rightarrow> MessageWithKey list res" where
  "messages_loop K klen limit offset count skipped messages [] = Inr messages"
| "messages_loop K klen limit offset count skipped messages ((key, data) # rest) =
     (if skipped < offset then messages_loop K klen limit offset count (skipped + 1) messages rest
      else if limit > 0 \<and> count \<ge> limit then Inr messages
      else
        let tsStart = 2 + klen; nonceStart = tsStart + 8
        in if length key < tsStart + 8 then messages_loop K klen limit offset count skipped messages rest
           else if nonceStart \<ge> length key then messages_loop K klen limit offset count skipped messages rest
           else (case unmarshal K data of
               Inl e \<Rightarrow> Inl e
             | Inr envelope \<Rightarrow> messages_loop K klen limit offset (count + 1) skipped
                 (messages @ [\<lparr>mk_Envelope = envelope, mk_Timestamp = be_uint (take 8 (drop tsStart key)),
                    mk_Nonce = drop nonceStart key\<rparr>]) rest))"

definition Badger_GetMessagesWithTimestamps ::
    "'d badger \<Rightarrow> codecs \<Rightarrow> bytes \<Rightarrow> int \<Rightarrow> int \<Rightarrow> 'd \<Rightarrow> MessageWithKey list res" where
  "Badger_GetMessagesWithTimestamps B C contactPubKey limit offset d =
     wrapped ''failed to retrieve messages''
       (case db_scan B d (messages_prefix contactPubKey) of
          Inl e \<Rightarrow> Inl e
        | Inr kvs \<Rightarrow> messages_loop (c_signed C) (length contactPubKey) limit offset 0 0 [] kvs)"

definition Badger_GetMessages :: "'d badger \<Rightarrow> codecs \<Rightarrow> bytes \<Rightarrow> int \<Rightarrow> int \<Rightarrow> 'd \<Rightarrow> SignedEnvelope list res" where
  "Badger_GetMessages B C contactPubKey limit offset d =
     (case Badger_GetMessagesWithTimestamps B C contactPubKey limit offset d of
        Inl e \<Rightarrow> Inl e
      | Inr messages \<Rightarrow> Inr (map mk_Envelope messages))"

definition Badger_DeleteMessages :: "'d badger \<Rightarrow> bytes \<Rightarrow> 'd \<Rightarrow> ('d, unit) eff" where
  "Badger_DeleteMessages B contactPubKey d =
     delete_prefix B ''failed to delete messages'' (messages_prefix contactPubKey) d"

section \<open>Peers and configuration\<close>

definition Badger_AddPeer :: "'d badger \<Rightarrow> codecs \<Rightarrow> PeerRecord \<Rightarrow> 'd \<Rightarrow> ('d, unit) eff" where
  "Badger_AddPeer B C peer d =
     store_msg B (c_peer C) ''failed to marshal peer record'' ''failed to store peer'' (peerKey (pr_PeerID peer)) peer d"

definition Badger_GetPeer :: "'d badger \<Rightarrow> codecs \<Rightarrow> string \<Rightarrow> 'd \<Rightarrow> PeerRecord option res" where
  "Badger_GetPeer B C peerID d =
     load_msg B (c_peer C) ''failed to retrieve peer'' (Inr None) Some (peerKey peerID) d"

fun Badger_ListPeers_loop :: "PeerRecord codec \<Rightarrow> int \<Rightarrow> int \<Rightarrow> PeerRecord list \<Rightarrow> (bytes \<times> bytes) list \<Rightarrow> PeerRecord list res" where
  "Badger_ListPeers_loop K limit count peers [] = Inr peers"
| "Badger_ListPeers_loop K limit count peers ((key, data) # rest) =
     (if limit > 0 \<and> count \<ge> limit then Inr peers
      else case unmarshal K data of
        Inl e \<Rightarrow> Inl e
      | Inr peer \<Rightarrow> Badger_ListPeers_loop K limit (count + 1) (peers @ [peer]) rest)"

definition Badger_ListPeers :: "'d badger \<Rightarrow> codecs \<Rightarrow> int \<Rightarrow> 'd \<Rightarrow> PeerRecord list res" where
  "Badger_ListPeers B C limit d =
     wrapped ''failed to list peers''
       (case db_scan B d (str_bytes ''p:'') of
          Inl e \<Rightarrow> Inl e
        | Inr kvs \<Rightarrow> Badger_ListPeers_loop (c_peer C) limit 0 [] kvs)"

definition Badger_ListPeersBySource :: "'d badger \<Rightarrow> codecs \<Rightarrow> string \<Rightarrow> 'd \<Rightarrow> PeerRecord list res" where
  "Badger_ListPeersBySource B C source d =
     (case list_msgs B (c_peer C) ''failed to list peers by source'' (str_bytes ''p:'') d of
        Inl e \<Rightarrow> Inl e
      | Inr peers \<Rightarrow> Inr (filter (\<lambda>p. pr_Source p = source) peers))"

definition Badger_DeletePeer :: "'d badger \<Rightarrow> string \<Rightarrow> 'd \<Rightarrow> ('d, unit) eff" where
  "Badger_DeletePeer B peerID d = db_update B ''failed to delete peer'' [WDel (peerKey peerID)] d"

definition bytes_str :: "bytes \<Rightarrow> string" where
  "bytes_str b = map (\<lambda>x. char_of (unat x)) b"

definition Badger_GetConfig :: "'d badger \<Rightarrow> string \<Rightarrow> 'd \<Rightarrow> string res" where
  "Badger_GetConfig B key d =
     (case db_get B d (configKey key) of
        Inl e \<Rightarrow> Inl (Wrap ''failed to retrieve config'' e)
      | Inr None \<Rightarrow> Inr ''''
      | Inr (Some data) \<Rightarrow> Inr (bytes_str data))"

definition Badger_SetConfig :: "'d badger \<Rightarrow> string \<Rightarrow> string \<Rightarrow> 'd \<Rightarrow> ('d, unit) eff" where
  "Badger_SetConfig B key v d = db_update B ''failed to store config'' [WSet (configKey key) (str_bytes v)] d"

definition Badger_DeleteConfig :: "'d badger \<Rightarrow> string \<Rightarrow> 'd \<Rightarrow> ('d, unit) eff" where
  "Badger_DeleteConfig B key d = db_update B ''failed to delete config'' [WDel (configKey key)] d"

section \<open>Blacklist\<close>

definition Badger_BlacklistPeer :: "'d badger \<Rightarrow> codecs \<Rightarrow> int \<Rightarrow> string \<Rightarrow> string \<Rightarrow> 'd \<Rightarrow> ('d, unit) eff" where
  "Badger_BlacklistPeer B C now peerID reason d =
     store_msg B (c_black C) ''failed to marshal blacklist entry'' ''failed to store blacklist entry'' (blacklistKey peerID)
       \<lparr>be_PeerID = peerID, be_Reason = reason, be_BlacklistedAt = Some now, be_ExpiresAt = None\<rparr> d"

text \<open>The clean-up of an expired entry runs in its own goroutine; the database it leaves is the
  first component.\<close>

definition Badger_IsBlacklisted :: "'d badger \<Rightarrow> codecs \<Rightarrow> int \<Rightarrow> string \<Rightarrow> 'd \<Rightarrow> ('d, bool) eff" where
  "Badger_IsBlacklisted B C now peerID d =
     (case load_msg B (c_black C) ''failed to check blacklist'' (Inr None) Some (blacklistKey peerID) d of
        Inl e \<Rightarrow> (d, Inl e)
      | Inr None \<Rightarrow> (d, Inr False)
      | Inr (Some entry) \<Rightarrow>
          if IsExpired now entry then (fst (Badger_DeleteConfig B (bytes_str (blacklistKey peerID)) d), Inr False)
          else (d, Inr True))"

definition Badger_ListBlacklisted :: "'d badger \<Rightarrow> codecs \<Rightarrow> int \<Rightarrow> 'd \<Rightarrow> BlacklistEntry list res" where
  "Badger_ListBlacklisted B C now d =
     (case list_msgs B (c_black C) ''failed to list blacklisted peers'' (str_bytes ''bl:'') d of
        Inl e \<Rightarrow> Inl e
      | Inr entries \<Rightarrow> Inr (filter (\<lambda>e. \<not> IsExpired now e) entries))"

definition Badger_RemoveFromBlacklist :: "'d badger \<Rightarrow> string \<Rightarrow> 'd \<Rightarrow> ('d, unit) eff" where
  "Badger_RemoveFromBlacklist B peerID d = db_update B ''failed to remove from blacklist'' [WDel (blacklistKey peerID)] d"

section \<open>Groups and sender keys (groups.go)\<close>

definition Badger_SaveGroup :: "'d badger \<Rightarrow> codecs \<Rightarrow> pb_GroupState \<Rightarrow> 'd \<Rightarrow> ('d, unit) eff" where
  "Badger_SaveGroup B C grp d =
     log8 (pg_GroupId grp)
       (store_msg B (c_group C) ''failed to marshal group state'' ''failed to store group'' (groupKey (pg_GroupId grp)) grp d)"

definition Badger_GetGroup :: "'d badger \<Rightarrow> codecs \<Rightarrow> bytes \<Rightarrow> 'd \<Rightarrow> pb_GroupState res" where
  "Badger_GetGroup B C groupID d =
     load_msg B (c_group C) ''failed to get group'' (Inl ErrGroupNotFound) id (groupKey groupID) d"

definition Badger_ListGroups :: "'d badger \<Rightarrow> codecs \<Rightarrow> 'd \<Rightarrow> pb_GroupState list res" where
  "Badger_ListGroups B C d = list_msgs B (c_group C) ''failed to list groups'' (str_bytes ''g:'') d"

definition Badger_DeleteGroup :: "'d badger \<Rightarrow> bytes \<Rightarrow> 'd \<Rightarrow> ('d, unit) eff" where
  "Badger_DeleteGroup B groupID d =
     log8 groupID (db_update B ''failed to delete group'' [WDel (groupKey groupID)] d)"

definition Badger_SaveSenderKey :: "'d badger \<Rightarrow> codecs \<Rightarrow> SenderKeyDistribution \<Rightarrow> 'd \<Rightarrow> ('d, unit) eff" where
  "Badger_SaveSenderKey B C sk d =
     log8 (skd_SenderPub sk) (log8 (skd_GroupId sk)
       (store_msg B (c_sender C) ''failed to marshal sender key'' ''failed to store sender key''
         (senderKeyKey (skd_GroupId sk) (skd_SenderPub sk)) sk d))"

definition Badger_GetSenderKey :: "'d badger \<Rightarrow> codecs \<Rightarrow> bytes \<Rightarrow> bytes \<Rightarrow> 'd \<Rightarrow> SenderKeyDistribution res" where
  "Badger_GetSenderKey B C groupID senderPubkey d =
     load_msg B (c_sender C) ''failed to get sender key'' (Inl ErrSenderKeyNotFound) id (senderKeyKey groupID senderPubkey) d"

definition senderKeys_prefix :: "bytes \<Rightarrow> bytes" where
  "senderKeys_prefix groupID = str_bytes ''sk:'' @ str_bytes (hex_encode groupID) @ str_bytes '':''"

definition Badger_ListSenderKeys :: "'d badger \<Rightarrow> codecs \<Rightarrow> bytes \<Rightarrow> 'd \<Rightarrow> SenderKeyDistribution list res" where
  "Badger_ListSenderKeys B C groupID d =
     list_msgs B (c_sender C) ''failed to list sender keys'' (senderKeys_prefix groupID) d"

definition Badger_DeleteSenderKey :: "'d badger \<Rightarrow> bytes \<Rightarrow> bytes \<Rightarrow> 'd \<Rightarrow> ('d, unit) eff" where
  "Badger_DeleteSenderKey B groupID senderPubkey d =
     db_update B ''failed to delete sender key'' [WDel (senderKeyKey groupID senderPubkey)] d"

definition Badger_DeleteAllSenderKeys :: "'d badger \<Rightarrow> bytes \<Rightarrow> 'd \<Rightarrow> ('d, unit) eff" where
  "Badger_DeleteAllSenderKeys B groupID d =
     delete_prefix B ''failed to delete sender keys'' (senderKeys_prefix groupID) d"

section \<open>Channels (channels.go)\<close>

definition Badger_SaveChannel :: "'d badger \<Rightarrow> codecs \<Rightarrow> ChannelState \<Rightarrow> 'd \<Rightarrow> ('d, unit) eff" where
  "Badger_SaveChannel B C channel d =
     log8 (ch_ChannelId channel)
       (store_msg B (c_channel C) ''failed to marshal channel state'' ''failed to store channel''
         (channelKey (ch_ChannelId channel)) channel d)"

definition Badger_GetChannel :: "'d badger \<Rightarrow> codecs \<Rightarrow> bytes \<Rightarrow> 'd \<Rightarrow> ChannelState res" where
  "Badger_GetChannel B C channelID d =
     load_msg B (c_channel C) ''failed to get channel'' (Inl ErrGroupNotFound) id (channelKey channelID) d"

definition Badger_ListChannels :: "'d badger \<Rightarrow> codecs \<Rightarrow> 'd \<Rightarrow> ChannelState list res" where
  "Badger_ListChannels B C d = list_msgs B (c_channel C) ''failed to list channels'' (str_bytes ''ch:'') d"

definition Badger_DeleteChannel :: "'d badger \<Rightarrow> bytes \<Rightarrow> 'd \<Rightarrow> ('d, unit) eff" where
  "Badger_DeleteChannel B channelID d =
     log8 channelID (db_update B ''failed to delete channel'' [WDel (channelKey channelID)] d)"

definition getChannelTxn :: "'d badger \<Rightarrow> codecs \<Rightarrow> 'd \<Rightarrow> kv_write list \<Rightarrow> bytes \<Rightarrow> ChannelState res" where
  "getChannelTxn B C d ws channelID =
     (case txn_get B d ws (channelKey channelID) of
        Inl e \<Rightarrow> Inl e
      | Inr None \<Rightarrow> Inl (Err ''Key not found'')
      | Inr (Some data) \<Rightarrow> unmarshal (c_channel C) data)"

definition Badger_SaveChannelPost :: "'d badger \<Rightarrow> codecs \<Rightarrow> ChannelPost \<Rightarrow> 'd \<Rightarrow> ('d, unit) eff" where
  "Badger_SaveChannelPost B C post d =
     (case marshal (c_post C) post of
        Inl e \<Rightarrow> (d, Inl (Wrap ''failed to marshal channel post'' e))
      | Inr data \<Rightarrow>
          let ws = [WSet (channelPostKey (cp_ChannelId post) (cp_PostId post)) data];
              ws2 = (case getChannelTxn B C d ws (cp_ChannelId post) of
                  Inl _ \<Rightarrow> ws
                | Inr channel \<Rightarrow>
                    (case marshal (c_channel C) (channel\<lparr>ch_LatestPostCid := cp_PreviousPostCid post,
                        ch_UpdatedAt := cp_Timestamp post\<rparr>) of
                       Inl _ \<Rightarrow> ws
                     | Inr channelData \<Rightarrow> ws @ [WSet (channelKey (cp_ChannelId post)) channelData]))
          in log8 (cp_ChannelId post) (log8 (cp_PostId post)
               (db_update B ''failed to store channel post'' ws2 d)))"

definition channelPosts_prefix :: "bytes \<Rightarrow> bytes" where
  "channelPosts_prefix channelID = str_bytes ''chp:'' @ str_bytes (hex_encode channelID) @ str_bytes '':''"

fun posts_loop :: "ChannelPost codec \<Rightarrow> bytes \<Rightarrow> int \<Rightarrow> int \<Rightarrow> int \<Rightarrow> ChannelPost list \<Rightarrow> (bytes \<times> bytes) list \<Rightarrow>
    ChannelPost list res" where
  "posts_loop K pre limit offset count posts [] = Inr posts"
| "posts_loop K pre limit offset count posts ((key, data) # rest) =
     (if length key > length pre \<and> drop (length pre) key = str_bytes ''idx'' then posts_loop K pre limit offset count posts rest
      else if count < offset then posts_loop K pre limit offset (count + 1) posts rest
      else if limit > 0 \<and> int (length posts) \<ge> limit then Inr posts
      else case unmarshal K data of
        Inl e \<Rightarrow> Inl e
      | Inr post \<Rightarrow> posts_loop K pre limit offset count (posts @ [post]) rest)"

definition Badger_GetChannelPosts :: "'d badger \<Rightarrow> codecs \<Rightarrow> bytes \<Rightarrow> int \<Rightarrow> int \<Rightarrow> 'd \<Rightarrow> ChannelPost list res" where
  "Badger_GetChannelPosts B C channelID limit offset d =
     wrapped ''failed to list channel posts''
       (case db_scan B d (channelPosts_prefix channelID) of
          Inl e \<Rightarrow> Inl e
        | Inr kvs \<Rightarrow> posts_loop (c_post C) (channelPosts_prefix channelID) limit offset 0 [] kvs)"

definition Badger_GetLatestChannelPostCID :: "'d badger \<Rightarrow> codecs \<Rightarrow> bytes \<Rightarrow> 'd \<Rightarrow> bytes res" where
  "Badger_GetLatestChannelPostCID B C channelID d =
     load_msg B (c_channel C) ''failed to get latest post CID'' (Inr []) ch_LatestPostCid (channelKey channelID) d"

section \<open>Text as bytes\<close>

lemma bytes_str_str_bytes [simp]: "bytes_str (str_bytes s) = s"
  by (induction s) (simp_all add: bytes_str_def str_bytes_def unat_of_char)

section \<open>The key space\<close>

text \<open>The slots of the database, one constructor per kind of key.\<close>

datatype slot = SContact bytes | SPeer string | SConfig string | SBlack string | SGroup bytes
  | SSender bytes bytes | SChannel bytes | SPost bytes bytes | SMsg bytes u64 bytes

fun slot_key :: "slot \<Rightarrow> bytes" where
  "slot_key (SContact k) = contactKey k"
| "slot_key (SPeer p) = peerKey p"
| "slot_key (SConfig k) = configKey k"
| "slot_key (SBlack p) = blacklistKey p"
| "slot_key (SGroup g) = groupKey g"
| "slot_key (SSender g k) = senderKeyKey g k"
| "slot_key (SChannel c) = channelKey c"
| "slot_key (SPost c p) = channelPostKey c p"
| "slot_key (SMsg k t n) = messageKey k t n"

fun slot_kind :: "slot \<Rightarrow> nat" where
  "slot_kind (SContact k) = 0" | "slot_kind (SPeer p) = 1" | "slot_kind (SConfig k) = 2"
| "slot_kind (SBlack p) = 3" | "slot_kind (SGroup g) = 4" | "slot_kind (SSender g k) = 5"
| "slot_kind (SChannel c) = 6" | "slot_kind (SPost c p) = 7" | "slot_kind (SMsg k t n) = 8"

lemmas key_defs = contactKey_def peerKey_def configKey_def blacklistKey_def groupKey_def senderKeyKey_def
  channelKey_def channelPostKey_def messageKey_def

lemma slot_key_kind: "slot_key a = slot_key b \<Longrightarrow> slot_kind a = slot_kind b"
  by (cases a; cases b) (simp_all add: key_defs)

lemma slot_key_inj: "slot_key a = slot_key b \<Longrightarrow> slot_kind a < 8 \<Longrightarrow> a = b"
  using slot_key_kind[of a b] by (cases a; cases b) (simp_all add: key_defs sep_inj)

section \<open>The abstract store and the memory implementation\<close>

text \<open>What both implementations promise: a map from slots to values, changed by each operation of the
  interface. Conversations are left out here: the two implementations order messages differently.\<close>

datatype store_val = VContact Contact | VPeer PeerRecord | VConfig string | VBlack BlacklistEntry
  | VGroup pb_GroupState | VSender SenderKeyDistribution | VChannel ChannelState | VPost ChannelPost

type_synonym slots = "slot \<Rightarrow> store_val option"

definition post_update :: "ChannelPost \<Rightarrow> ChannelState \<Rightarrow> ChannelState" where
  "post_update post ch = ch\<lparr>ch_LatestPostCid := cp_PreviousPostCid post, ch_UpdatedAt := cp_Timestamp post\<rparr>"

fun slot_op :: "mem_op \<Rightarrow> slots \<Rightarrow> slots" where
  "slot_op (OAddContact c) m = m(SContact (ct_PublicKey c) \<mapsto> VContact c)"
| "slot_op (ODeleteContact k) m = m(SContact k := None)"
| "slot_op (OAddMessage k e) m = m"
| "slot_op (ODeleteMessages k) m = m"
| "slot_op (OAddPeer p) m = m(SPeer (pr_PeerID p) \<mapsto> VPeer p)"
| "slot_op (ODeletePeer p) m = m(SPeer p := None)"
| "slot_op (OSetConfig k v) m = m(SConfig k \<mapsto> VConfig v)"
| "slot_op (ODeleteConfig k) m = m(SConfig k := None)"
| "slot_op (OBlacklistPeer now p r) m = m(SBlack p \<mapsto> VBlack \<lparr>be_PeerID = p, be_Reason = r,
     be_BlacklistedAt = Some now, be_ExpiresAt = None\<rparr>)"
| "slot_op (ORemoveFromBlacklist p) m = m(SBlack p := None)"
| "slot_op (OSaveGroup g) m = m(SGroup (pg_GroupId g) \<mapsto> VGroup g)"
| "slot_op (ODeleteGroup g) m = m(SGroup g := None)"
| "slot_op (OSaveSenderKey sk) m = m(SSender (skd_GroupId sk) (skd_SenderPub sk) \<mapsto> VSender sk)"
| "slot_op (ODeleteSenderKey g k) m = m(SSender g k := None)"
| "slot_op (ODeleteAllSenderKeys g) m = (\<lambda>x. case x of SSender g' k \<Rightarrow> if g' = g then None else m x | _ \<Rightarrow> m x)"
| "slot_op (OSaveChannel c) m = m(SChannel (ch_ChannelId c) \<mapsto> VChannel c)"
| "slot_op (ODeleteChannel c) m = m(SChannel c := None)"
| "slot_op (OSaveChannelPost p) m =
     (let m1 = m(SPost (cp_ChannelId p) (cp_PostId p) \<mapsto> VPost p)
      in case m1 (SChannel (cp_ChannelId p)) of
           Some (VChannel ch) \<Rightarrow> m1(SChannel (cp_ChannelId p) \<mapsto> VChannel (post_update p ch))
         | _ \<Rightarrow> m1)"

fun mem_slot :: "MemoryStorage \<Rightarrow> slots" where
  "mem_slot s (SContact k) = map_option VContact (GetContact k s)"
| "mem_slot s (SPeer p) = map_option VPeer (GetPeer p s)"
| "mem_slot s (SConfig k) = map_option VConfig (gm_get (ms_configs s) k)"
| "mem_slot s (SBlack p) = map_option VBlack (gm_get (ms_blacklist s) p)"
| "mem_slot s (SGroup g) = map_option VGroup (group_view g s)"
| "mem_slot s (SSender g k) = map_option VSender (sender_view (g, k) s)"
| "mem_slot s (SChannel c) = map_option VChannel (channel_view c s)"
| "mem_slot s (SPost c p) = (case nm_get (ms_channelPosts s) c of None \<Rightarrow> None | Some m \<Rightarrow> map_option VPost (gm_get m p))"
| "mem_slot s (SMsg k t n) = None"

lemmas mem_views = GetContact_def GetPeer_def group_view_nm sender_view_nm channel_view_nm

lemma mem_slot_step_basic:
  assumes "mem_ok s"
  shows "mem_slot (AddContact c s) = slot_op (OAddContact c) (mem_slot s)"
    "mem_slot (DeleteContact k s) = slot_op (ODeleteContact k) (mem_slot s)"
    "mem_slot (AddMessage k e s) = slot_op (OAddMessage k e) (mem_slot s)"
    "mem_slot (DeleteMessages k s) = slot_op (ODeleteMessages k) (mem_slot s)"
    "mem_slot (AddPeer p s) = slot_op (OAddPeer p) (mem_slot s)"
    "mem_slot (DeletePeer pid s) = slot_op (ODeletePeer pid) (mem_slot s)"
    "mem_slot (SetConfig ck v s) = slot_op (OSetConfig ck v) (mem_slot s)"
    "mem_slot (DeleteConfig ck s) = slot_op (ODeleteConfig ck) (mem_slot s)"
    "mem_slot (BlacklistPeer now pid r s) = slot_op (OBlacklistPeer now pid r) (mem_slot s)"
    "mem_slot (RemoveFromBlacklist pid s) = slot_op (ORemoveFromBlacklist pid) (mem_slot s)"
  by (rule ext, case_tac x, simp_all add: mem_defs mem_views)+

lemma mem_slot_step_maps:
  assumes "mem_ok s"
  shows "mem_slot (fst (SaveGroup g s)) = slot_op (OSaveGroup g) (mem_slot s)"
    "mem_slot (DeleteGroup gid s) = slot_op (ODeleteGroup gid) (mem_slot s)"
    "mem_slot (fst (SaveChannel c s)) = slot_op (OSaveChannel c) (mem_slot s)"
    "mem_slot (DeleteChannel cid s) = slot_op (ODeleteChannel cid) (mem_slot s)"
  using assms
  by (rule_tac [!] ext, case_tac [!] x)
    (auto simp: mem_defs mem_views mem_ok_def split: option.splits)

lemma mem_slot_step_sender:
  assumes "mem_ok s"
  shows "mem_slot (fst (SaveSenderKey sk s)) = slot_op (OSaveSenderKey sk) (mem_slot s)"
    "mem_slot (DeleteSenderKey g k s) = slot_op (ODeleteSenderKey g k) (mem_slot s)"
    "mem_slot (DeleteAllSenderKeys g s) = slot_op (ODeleteAllSenderKeys g) (mem_slot s)"
  using assms
  by (rule_tac [!] ext, case_tac [!] x)
    (auto simp: mem_defs mem_views mem_ok_def Let_def split: option.splits)

lemma mem_slot_step_post:
  assumes "mem_ok s"
  shows "mem_slot (fst (SaveChannelPost p s)) = slot_op (OSaveChannelPost p) (mem_slot s)"
proof -
  obtain m c where m: "ms_channelPosts s = Some m" "ms_channels s = Some c"
    using assms by (auto simp: mem_ok_def split: option.splits)
  show ?thesis
  proof (cases "gm_get c (cp_ChannelId p)")
    case None
    then show ?thesis using m
      by (intro ext, case_tac x) (auto simp: SaveChannelPost_def mem_views nm_get_def Let_def split: option.splits)
  next
    case (Some ch)
    then show ?thesis using m
      by (intro ext, case_tac x)
        (auto simp: SaveChannelPost_def mem_views nm_get_def post_update_def Let_def split: option.splits)
  qed
qed

lemma mem_slot_step: "mem_ok s \<Longrightarrow> mem_slot (mem_exec op s) = slot_op op (mem_slot s)"
  by (cases op) (simp_all only: mem_exec.simps comp_apply mem_slot_step_basic mem_slot_step_maps
      mem_slot_step_sender mem_slot_step_post)

lemma mem_slot_run: "mem_ok s \<Longrightarrow> mem_slot (mem_run ops s) = fold slot_op ops (mem_slot s)"
  by (induction ops arbitrary: s) (simp_all add: mem_slot_step mem_ok_exec)

section \<open>The Badger implementation\<close>

text \<open>The decoding of a stored value by the kind of its slot, and the relation between a database and
  the abstract store.\<close>

definition ok_opt :: "'a res \<Rightarrow> 'a option" where
  "ok_opt r = (case r of Inl _ \<Rightarrow> None | Inr x \<Rightarrow> Some x)"

fun dec :: "codecs \<Rightarrow> slot \<Rightarrow> bytes \<Rightarrow> store_val option" where
  "dec C (SContact _) b = map_option VContact (ok_opt (unmarshal (c_contact C) b))"
| "dec C (SPeer _) b = map_option VPeer (ok_opt (unmarshal (c_peer C) b))"
| "dec C (SConfig _) b = Some (VConfig (bytes_str b))"
| "dec C (SBlack _) b = map_option VBlack (ok_opt (unmarshal (c_black C) b))"
| "dec C (SGroup _) b = map_option VGroup (ok_opt (unmarshal (c_group C) b))"
| "dec C (SSender _ _) b = map_option VSender (ok_opt (unmarshal (c_sender C) b))"
| "dec C (SChannel _) b = map_option VChannel (ok_opt (unmarshal (c_channel C) b))"
| "dec C (SPost _ _) b = map_option VPost (ok_opt (unmarshal (c_post C) b))"
| "dec C (SMsg _ _ _) b = None"

definition slot_ok :: "codecs \<Rightarrow> slot \<Rightarrow> bytes option \<Rightarrow> store_val option \<Rightarrow> bool" where
  "slot_ok C x stored v = (case stored of None \<Rightarrow> v = None | Some b \<Rightarrow> v \<noteq> None \<and> v = dec C x b)"

definition db_rep :: "('d \<Rightarrow> bytes \<Rightarrow> bytes option) \<Rightarrow> codecs \<Rightarrow> 'd \<Rightarrow> slots \<Rightarrow> bool" where
  "db_rep view C d m \<longleftrightarrow> (\<forall>x. slot_kind x < 8 \<longrightarrow> slot_ok C x (view d (slot_key x)) (m x))"

lemma ok_opt_simps [simp]: "ok_opt (Inr x) = Some x" "ok_opt (Inl e) = None"
  by (simp_all add: ok_opt_def)

lemma slot_ok_simps [simp]:
  "slot_ok C x None w \<longleftrightarrow> w = None" "slot_ok C x (Some b) (Some v) \<longleftrightarrow> dec C x b = Some v"
  by (auto simp: slot_ok_def)

lemma slot_key_eq: "slot_kind a < 8 \<Longrightarrow> slot_key a = slot_key b \<longleftrightarrow> a = b"
  using slot_key_inj by metis

lemma rep_set:
  assumes "db_rep view C d m" "view d' = (view d)(slot_key y \<mapsto> b)" "dec C y b = Some v" "slot_kind y < 8"
  shows "db_rep view C d' (m(y \<mapsto> v))"
  using assms by (auto simp: db_rep_def slot_key_eq)

lemma rep_del:
  assumes "db_rep view C d m" "view d' = (view d)(slot_key y := None)" "slot_kind y < 8"
  shows "db_rep view C d' (m(y := None))"
  using assms by (auto simp: db_rep_def slot_key_eq)

lemma rep_frame:
  assumes "db_rep view C d m" "\<And>x. slot_kind x < 8 \<Longrightarrow> view d' (slot_key x) = view d (slot_key x)"
  shows "db_rep view C d' m"
  using assms by (simp add: db_rep_def)

lemma fst_log8 [simp]: "fst (log8 i r) = fst r"
  by (cases r) (simp add: log8_def split: sum.split)

text \<open>A single \<open>Set\<close> or \<open>Delete\<close>, as every simple operation makes.\<close>

lemma store_msg_view:
  assumes "kv_ok B view" "codec_ok K"
  obtains b where "marshal K msg = Inr b" "unmarshal K b = Inr msg"
    "view (fst (store_msg B K e1 e2 key msg d)) = (view d)(key \<mapsto> b)" "snd (store_msg B K e1 e2 key msg d) = Inr ()"
proof -
  obtain b where b: "marshal K msg = Inr b" "unmarshal K b = Inr msg" by (rule codec_ok_marshal[OF assms(2)])
  show ?thesis
    by (rule that[OF b]) (simp_all add: store_msg_def b kv_update[OF assms(1)])
qed

lemma rep_store:
  assumes "kv_ok B view" "codec_ok K" "db_rep view C d m" "slot_kind y < 8"
    "\<And>b. unmarshal K b = Inr msg \<Longrightarrow> dec C y b = Some v" "key = slot_key y"
  shows "db_rep view C (fst (store_msg B K e1 e2 key msg d)) (m(y \<mapsto> v))"
proof -
  obtain b where "unmarshal K b = Inr msg"
    "view (fst (store_msg B K e1 e2 (slot_key y) msg d)) = (view d)(slot_key y \<mapsto> b)"
    by (rule store_msg_view[OF assms(1,2)])
  then show ?thesis using assms(5,6) by (intro rep_set[OF assms(3) _ _ assms(4)]) auto
qed

lemma rep_delete:
  assumes "kv_ok B view" "db_rep view C d m" "slot_kind y < 8" "key = slot_key y"
  shows "db_rep view C (fst (db_update B e [WDel key] d)) (m(y := None))"
  by (rule rep_del[OF assms(2) _ assms(3)]) (simp add: kv_update[OF assms(1)] assms(4))

lemma delete_prefix_view:
  assumes "kv_ok B view"
  shows "view (fst (delete_prefix B e pre d)) = (\<lambda>k. if prefix pre k then None else view d k)"
    "snd (delete_prefix B e pre d) = Inr ()"
proof -
  obtain kvs where kvs: "db_scan B d pre = Inr kvs" "set kvs = {(k, v). view d k = Some v \<and> prefix pre k}"
    by (rule kv_scan[OF assms])
  have dom: "k \<in> fst ` set kvs \<longleftrightarrow> prefix pre k \<and> view d k \<noteq> None" for k
    unfolding kvs(2) by force
  show "view (fst (delete_prefix B e pre d)) = (\<lambda>k. if prefix pre k then None else view d k)"
    by (rule ext) (auto simp: delete_prefix_def kvs(1) kv_update[OF assms] map_map[symmetric] apply_writes_deletes dom
        simp del: map_map)
  show "snd (delete_prefix B e pre d) = Inr ()"
    by (simp add: delete_prefix_def kvs(1) kv_update[OF assms])
qed

fun Badger_exec :: "'d badger \<Rightarrow> codecs \<Rightarrow> u64 \<Rightarrow> mem_op \<Rightarrow> 'd \<Rightarrow> ('d, unit) eff" where
  "Badger_exec B C now (OAddContact c) d = Badger_AddContact B C c d"
| "Badger_exec B C now (ODeleteContact k) d = Badger_DeleteContact B k d"
| "Badger_exec B C now (OAddMessage k e) d = Badger_AddMessage B C now k e d"
| "Badger_exec B C now (ODeleteMessages k) d = Badger_DeleteMessages B k d"
| "Badger_exec B C now (OAddPeer p) d = Badger_AddPeer B C p d"
| "Badger_exec B C now (ODeletePeer p) d = Badger_DeletePeer B p d"
| "Badger_exec B C now (OSetConfig k v) d = Badger_SetConfig B k v d"
| "Badger_exec B C now (ODeleteConfig k) d = Badger_DeleteConfig B k d"
| "Badger_exec B C now (OBlacklistPeer t p r) d = Badger_BlacklistPeer B C t p r d"
| "Badger_exec B C now (ORemoveFromBlacklist p) d = Badger_RemoveFromBlacklist B p d"
| "Badger_exec B C now (OSaveGroup g) d = Badger_SaveGroup B C g d"
| "Badger_exec B C now (ODeleteGroup g) d = Badger_DeleteGroup B g d"
| "Badger_exec B C now (OSaveSenderKey sk) d = Badger_SaveSenderKey B C sk d"
| "Badger_exec B C now (ODeleteSenderKey g k) d = Badger_DeleteSenderKey B g k d"
| "Badger_exec B C now (ODeleteAllSenderKeys g) d = Badger_DeleteAllSenderKeys B g d"
| "Badger_exec B C now (OSaveChannel c) d = Badger_SaveChannel B C c d"
| "Badger_exec B C now (ODeleteChannel c) d = Badger_DeleteChannel B c d"
| "Badger_exec B C now (OSaveChannelPost p) d = Badger_SaveChannelPost B C p d"

definition Badger_run :: "'d badger \<Rightarrow> codecs \<Rightarrow> (u64 \<times> mem_op) list \<Rightarrow> 'd \<Rightarrow> 'd" where
  "Badger_run B C ops d = fold (\<lambda>(now, op) d. fst (Badger_exec B C now op d)) ops d"

lemmas badger_writes = Badger_AddContact_def Badger_DeleteContact_def Badger_AddPeer_def Badger_DeletePeer_def
  Badger_DeleteConfig_def Badger_BlacklistPeer_def Badger_RemoveFromBlacklist_def Badger_SaveGroup_def
  Badger_DeleteGroup_def Badger_SaveSenderKey_def Badger_DeleteSenderKey_def Badger_SaveChannel_def
  Badger_DeleteChannel_def

lemma codecs_okD:
  assumes "codecs_ok C"
  shows "codec_ok (c_contact C)" "codec_ok (c_signed C)" "codec_ok (c_envelope C)" "codec_ok (c_group C)"
    "codec_ok (c_sender C)" "codec_ok (c_channel C)" "codec_ok (c_post C)" "codec_ok (c_action C)"
    "codec_ok (c_peer C)" "codec_ok (c_black C)"
  using assms by (simp_all add: codecs_ok_def)

lemma rep_step_store:
  assumes "kv_ok B view" "codecs_ok C" "db_rep view C d m"
  shows "db_rep view C (fst (Badger_AddContact B C c d)) (slot_op (OAddContact c) m)"
    "db_rep view C (fst (Badger_AddPeer B C p d)) (slot_op (OAddPeer p) m)"
    "db_rep view C (fst (Badger_BlacklistPeer B C t pid r d)) (slot_op (OBlacklistPeer t pid r) m)"
    "db_rep view C (fst (Badger_SaveGroup B C g d)) (slot_op (OSaveGroup g) m)"
    "db_rep view C (fst (Badger_SaveSenderKey B C sk d)) (slot_op (OSaveSenderKey sk) m)"
    "db_rep view C (fst (Badger_SaveChannel B C ch d)) (slot_op (OSaveChannel ch) m)"
  using codecs_okD[OF assms(2)]
  by (simp_all add: badger_writes) (rule rep_store[OF assms(1) _ assms(3)]; simp)+

lemma rep_step_delete:
  assumes "kv_ok B view" "db_rep view C d m"
  shows "db_rep view C (fst (Badger_DeleteContact B k d)) (slot_op (ODeleteContact k) m)"
    "db_rep view C (fst (Badger_DeletePeer B p d)) (slot_op (ODeletePeer p) m)"
    "db_rep view C (fst (Badger_DeleteConfig B ck d)) (slot_op (ODeleteConfig ck) m)"
    "db_rep view C (fst (Badger_RemoveFromBlacklist B p d)) (slot_op (ORemoveFromBlacklist p) m)"
    "db_rep view C (fst (Badger_DeleteGroup B g d)) (slot_op (ODeleteGroup g) m)"
    "db_rep view C (fst (Badger_DeleteSenderKey B g sk d)) (slot_op (ODeleteSenderKey g sk) m)"
    "db_rep view C (fst (Badger_DeleteChannel B ch d)) (slot_op (ODeleteChannel ch) m)"
  by (simp_all add: badger_writes) (rule rep_delete[OF assms]; simp)+

lemma rep_step_config:
  assumes "kv_ok B view" "db_rep view C d m"
  shows "db_rep view C (fst (Badger_SetConfig B k v d)) (slot_op (OSetConfig k v) m)"
  by (simp, rule rep_set[OF assms(2), where b = "str_bytes v"])
    (simp_all add: Badger_SetConfig_def kv_update[OF assms(1)])

lemma rep_step_message:
  assumes "kv_ok B view" "codecs_ok C" "db_rep view C d m"
  shows "db_rep view C (fst (Badger_AddMessage B C now k e d)) m"
proof (cases "unmarshal (c_envelope C) (se_Envelope e)")
  case (Inr env)
  have neq: "slot_key x \<noteq> messageKey k now (ev_Nonce env)" if "slot_kind x < 8" for x
    using slot_key_kind[of x "SMsg k now (ev_Nonce env)"] that by auto
  obtain b where "view (fst (store_msg B (c_signed C) ''failed to marshal envelope'' ''failed to store message''
      (messageKey k now (ev_Nonce env)) e d)) = (view d)(messageKey k now (ev_Nonce env) \<mapsto> b)"
    by (rule store_msg_view[OF assms(1) codecs_okD(2)[OF assms(2)]])
  then show ?thesis using Inr neq by (intro rep_frame[OF assms(3)]) (simp add: Badger_AddMessage_def)
qed (use assms(3) in \<open>simp add: Badger_AddMessage_def\<close>)

lemma rep_step_delete_messages:
  assumes "kv_ok B view" "db_rep view C d m"
  shows "db_rep view C (fst (Badger_DeleteMessages B k d)) m"
proof (rule rep_frame[OF assms(2)])
  fix x assume "slot_kind x < 8"
  then have "\<not> prefix (messages_prefix k) (slot_key x)"
    by (cases x) (simp_all add: key_defs messages_prefix_def)
  then show "view (fst (Badger_DeleteMessages B k d)) (slot_key x) = view d (slot_key x)"
    by (simp add: Badger_DeleteMessages_def delete_prefix_view[OF assms(1)])
qed

lemma senderKeys_prefix_slot:
  "prefix (senderKeys_prefix g) (slot_key x) \<longleftrightarrow> (\<exists>k. x = SSender g k)"
  by (cases x) (auto simp: key_defs senderKeys_prefix_def prefix_def sep_inj)

lemma rep_step_delete_senders:
  assumes "kv_ok B view" "db_rep view C d m"
  shows "db_rep view C (fst (Badger_DeleteAllSenderKeys B g d)) (slot_op (ODeleteAllSenderKeys g) m)"
  unfolding db_rep_def
proof (intro allI impI)
  fix x assume "slot_kind x < 8"
  then have "slot_ok C x (view d (slot_key x)) (m x)" using assms(2) by (simp add: db_rep_def)
  then show "slot_ok C x (view (fst (Badger_DeleteAllSenderKeys B g d)) (slot_key x)) (slot_op (ODeleteAllSenderKeys g) m x)"
    by (auto simp: Badger_DeleteAllSenderKeys_def delete_prefix_view[OF assms(1)] senderKeys_prefix_slot
        simp del: slot_key.simps split: slot.splits)
qed

lemma rep_slot:
  assumes "db_rep view C d m" "slot_kind x < 8"
  shows "slot_ok C x (view d (slot_key x)) (m x)"
  using assms by (simp add: db_rep_def)

lemma rep_step_post:
  assumes "kv_ok B view" "codecs_ok C" "db_rep view C d m"
  shows "db_rep view C (fst (Badger_SaveChannelPost B C p d)) (slot_op (OSaveChannelPost p) m)"
proof -
  let ?pk = "SPost (cp_ChannelId p) (cp_PostId p)" and ?ck = "SChannel (cp_ChannelId p)"
  obtain b where b: "marshal (c_post C) p = Inr b" "unmarshal (c_post C) b = Inr p"
    using codec_ok_marshal[OF codecs_okD(7)[OF assms(2)]] by blast
  have neq: "channelPostKey (cp_ChannelId p) (cp_PostId p) \<noteq> channelKey (cp_ChannelId p)"
    using slot_key_kind[of ?pk ?ck] by auto
  have chan: "getChannelTxn B C d [WSet (channelPostKey (cp_ChannelId p) (cp_PostId p)) b] (cp_ChannelId p) =
      (case view d (channelKey (cp_ChannelId p)) of None \<Rightarrow> Inl (Err ''Key not found'') | Some c \<Rightarrow> unmarshal (c_channel C) c)"
    using neq by (simp add: getChannelTxn_def txn_get_def kv_get[OF assms(1)] split: option.split)
  have ck: "slot_ok C ?ck (view d (channelKey (cp_ChannelId p))) (m ?ck)"
    using rep_slot[OF assms(3), of ?ck] by simp
  show ?thesis
  proof (cases "view d (channelKey (cp_ChannelId p))")
    case None
    then have "m ?ck = None" using ck by simp
    then show ?thesis
      using None b neq by (simp add: Badger_SaveChannelPost_def chan)
        (rule rep_set[OF assms(3), where b = b]; simp add: kv_update[OF assms(1)])
  next
    case (Some c)
    then obtain ch where ch: "unmarshal (c_channel C) c = Inr ch" "m ?ck = Some (VChannel ch)"
      using ck by (auto simp: slot_ok_def ok_opt_def split: sum.splits)
    obtain c2 where c2: "marshal (c_channel C) (post_update p ch) = Inr c2" "unmarshal (c_channel C) c2 = Inr (post_update p ch)"
      using codec_ok_marshal[OF codecs_okD(6)[OF assms(2)]] by blast
    obtain d1 where d1: "view d1 = (view d)(slot_key ?pk \<mapsto> b)"
      using kv_update(2)[OF assms(1), of "[]" "[WSet (slot_key ?pk) b]" d] by auto
    have r1: "db_rep view C d1 (m(?pk \<mapsto> VPost p))"
      by (rule rep_set[OF assms(3) d1]) (simp_all add: b)
    have "db_rep view C (fst (Badger_SaveChannelPost B C p d)) ((m(?pk \<mapsto> VPost p))(?ck \<mapsto> VChannel (post_update p ch)))"
      by (rule rep_set[OF r1, where b = c2])
        (use Some ch b c2 d1 in \<open>simp_all add: Badger_SaveChannelPost_def chan post_update_def kv_update[OF assms(1)]\<close>)
    then show ?thesis using ch(2) by simp
  qed
qed

lemmas rep_steps = rep_step_store rep_step_delete rep_step_config rep_step_delete_senders rep_step_post

lemma rep_step:
  assumes "kv_ok B view" "codecs_ok C" "db_rep view C d m"
  shows "db_rep view C (fst (Badger_exec B C now op d)) (slot_op op m)"
  using rep_steps[OF assms(1)] rep_step_message[OF assms] rep_step_delete_messages[OF assms(1,3)] assms
  by (cases op) (simp_all only: Badger_exec.simps slot_op.simps(3,4))

lemma rep_run:
  assumes "kv_ok B view" "codecs_ok C"
  shows "db_rep view C d m \<Longrightarrow> db_rep view C (Badger_run B C ops d) (fold slot_op (map snd ops) m)"
proof (induction ops arbitrary: d m)
  case (Cons o1 ops)
  obtain now op where o1: "o1 = (now, op)" by (cases o1)
  have "db_rep view C (fst (Badger_exec B C now op d)) (slot_op op m)" by (rule rep_step[OF assms Cons.prems])
  then show ?case using Cons.IH o1 by (simp add: Badger_run_def)
qed (simp add: Badger_run_def)

section \<open>Reading back\<close>

lemma load_msg_kv:
  assumes "kv_ok B view"
  shows "load_msg B K e1 missing found key d =
    (case view d key of None \<Rightarrow> missing | Some b \<Rightarrow> (case unmarshal K b of Inl e \<Rightarrow> Inl (Wrap e1 e) | Inr msg \<Rightarrow> Inr (found msg)))"
  by (simp add: load_msg_def kv_get[OF assms] split: option.split)

lemma badger_reads:
  assumes kv: "kv_ok B view" and rep: "db_rep view C d (mem_slot s)"
  shows "Badger_GetContact B C k d = Inr (GetContact k s)"
    "Badger_GetPeer B C pid d = Inr (GetPeer pid s)"
    "Badger_GetConfig B ck d = Inr (GetConfig ck s)"
    "snd (Badger_IsBlacklisted B C now pid d) = Inr (IsBlacklisted now pid s)"
    "Badger_GetGroup B C gid d = GetGroup gid s"
    "Badger_GetSenderKey B C gid k d = GetSenderKey gid k s"
    "Badger_GetChannel B C cid d = GetChannel cid s"
    "Badger_GetLatestChannelPostCID B C cid d = Inr (case GetLatestChannelPostCID cid s of None \<Rightarrow> [] | Some c \<Rightarrow> c)"
proof -
  note load = load_msg_kv[OF kv]
  note sums = slot_ok_def ok_opt_def
  show "Badger_GetContact B C k d = Inr (GetContact k s)"
    using rep_slot[OF rep, of "SContact k"]
    by (auto simp: Badger_GetContact_def load sums split: option.splits sum.splits)
  show "Badger_GetPeer B C pid d = Inr (GetPeer pid s)"
    using rep_slot[OF rep, of "SPeer pid"]
    by (auto simp: Badger_GetPeer_def load sums split: option.splits sum.splits)
  show "Badger_GetConfig B ck d = Inr (GetConfig ck s)"
    using rep_slot[OF rep, of "SConfig ck"]
    by (auto simp: Badger_GetConfig_def GetConfig_def kv_get[OF kv] sums split: option.splits)
  show "snd (Badger_IsBlacklisted B C now pid d) = Inr (IsBlacklisted now pid s)"
    using rep_slot[OF rep, of "SBlack pid"]
    by (auto simp: Badger_IsBlacklisted_def IsBlacklisted_def load sums split: option.splits sum.splits)
  show "Badger_GetGroup B C gid d = GetGroup gid s"
    using rep_slot[OF rep, of "SGroup gid"]
    by (auto simp: Badger_GetGroup_def GetGroup_def group_view_nm load sums split: option.splits sum.splits)
  show "Badger_GetSenderKey B C gid k d = GetSenderKey gid k s"
    using rep_slot[OF rep, of "SSender gid k"]
    by (auto simp: Badger_GetSenderKey_def GetSenderKey_def sender_view_nm load sums split: option.splits sum.splits)
  show "Badger_GetChannel B C cid d = GetChannel cid s"
    using rep_slot[OF rep, of "SChannel cid"]
    by (auto simp: Badger_GetChannel_def GetChannel_def channel_view_nm load sums split: option.splits sum.splits)
  show "Badger_GetLatestChannelPostCID B C cid d = Inr (case GetLatestChannelPostCID cid s of None \<Rightarrow> [] | Some c \<Rightarrow> c)"
    using rep_slot[OF rep, of "SChannel cid"]
    by (auto simp: Badger_GetLatestChannelPostCID_def GetLatestChannelPostCID_def channel_view_nm load sums
        split: option.splits sum.splits)
qed

section \<open>Byte order and time order\<close>

text \<open>The value of bytes read big endian, and that the byte order of keys is the order of the
  timestamps in them.\<close>

fun be_val :: "bytes \<Rightarrow> nat" where
  "be_val [] = 0"
| "be_val (b # bs) = unat b * 256 ^ length bs + be_val bs"

lemma be_val_less: "be_val bs < 256 ^ length bs"
proof (induction bs)
  case (Cons b bs)
  have "be_val (b # bs) < Suc (unat b) * 256 ^ length bs" using Cons by simp
  also have "\<dots> \<le> 256 * 256 ^ length bs"
    by (rule mult_right_mono) (use unat_byte_less[of b] in linarith, simp)
  finally show ?case by simp
qed simp

lemma be_val_mono: "length a = length b \<Longrightarrow> a \<le> b \<Longrightarrow> be_val a \<le> be_val b"
proof (induction a b rule: list_induct2)
  case (Cons x xs y ys)
  show ?case
  proof (cases "x = y")
    case False
    then have "unat x < unat y" using Cons.prems by (simp add: u_less_unat)
    then have "Suc (unat x) * 256 ^ length xs \<le> unat y * 256 ^ length ys"
      using Cons.hyps by (intro mult_mono) simp_all
    then show ?thesis using be_val_less[of xs] by simp
  qed (use Cons in simp)
qed simp

lemma be_val_snoc: "be_val (xs @ [b]) = be_val xs * 256 + unat b"
  by (induction xs) (simp_all add: algebra_simps)

lemma unat_le_uint_step:
  assumes "unat w * 256 < 2 ^ 64"
  shows "unat (ucast (b :: byte) OR push_bit 8 w :: u64) = unat w * 256 + unat b"
proof -
  have "(ucast b AND push_bit 8 w :: u64) = 0"
    by (rule bit_eqI) (auto simp: bit_and_iff bit_push_bit_iff bit_ucast_iff dest: bit_imp_le_length)
  then have or: "(ucast b OR push_bit 8 w :: u64) = ucast b + push_bit 8 w"
    by (simp add: disjunctive_add_eq_or)
  have p: "unat (push_bit 8 w) = unat w * 256"
    using assms by (simp add: push_bit_eq_mult unat_word_ariths)
  have u: "unat (ucast b :: u64) = unat b"
    by (simp add: unsigned_ucast_eq take_bit_nat_eq_self order_less_trans[OF unat_byte_less])
  have d: "unat w * 256 + unat b < 2 ^ 64"
  proof -
    have "unat w < 2 ^ 56" using assms by simp
    then have "unat w * 256 + 256 \<le> 2 ^ 64" by simp
    then show ?thesis using unat_byte_less[of b] by linarith
  qed
  have "unat (ucast b + push_bit 8 w :: u64) = (unat (ucast b :: u64) + unat (push_bit 8 w)) mod 2 ^ 64"
    by (simp add: unat_word_ariths)
  also have "\<dots> = unat w * 256 + unat b" using d by (simp add: p u)
  finally show ?thesis by (simp add: or)
qed

lemma unat_le_uint: "length bs \<le> 8 \<Longrightarrow> unat (le_uint bs :: u64) = be_val (rev bs)"
proof (induction bs)
  case (Cons b bs)
  have "be_val (rev bs) < 256 ^ length bs" using be_val_less[of "rev bs"] by simp
  also have "\<dots> \<le> 256 ^ 7" using Cons.prems by (intro power_increasing) simp_all
  finally have "unat (le_uint bs :: u64) * 256 < 2 ^ 64" using Cons by simp
  then show ?case using Cons by (simp add: unat_le_uint_step be_val_snoc)
qed simp

lemma be_uint_mono:
  assumes "length a = 8" "length b = 8" "a \<le> b"
  shows "(be_uint a :: u64) \<le> be_uint b"
proof -
  have "unat (be_uint a :: u64) \<le> unat (be_uint b :: u64)"
    using assms be_val_mono[of a b] by (simp add: be_uint_def unat_le_uint)
  then show ?thesis by (simp add: word_le_nat_alt)
qed

lemma prefix_le_iff: "p @ a \<le> p @ b \<longleftrightarrow> a \<le> (b :: bytes)"
  by (induction p) simp_all

lemma take_le: "(a :: bytes) \<le> b \<Longrightarrow> take n a \<le> take n b"
proof (induction n arbitrary: a b)
  case (Suc n)
  then show ?case by (cases a; cases b) auto
qed simp

section \<open>Conversations\<close>

definition key_time :: "nat \<Rightarrow> bytes \<Rightarrow> u64" where
  "key_time klen key = be_uint (take 8 (drop (2 + klen) key))"

lemma key_time_mono:
  assumes "prefix p k" "prefix p k'" "length p = 2 + klen" "2 + klen + 8 \<le> length k" "2 + klen + 8 \<le> length k'" "k \<le> k'"
  shows "key_time klen k \<le> key_time klen k'"
proof -
  obtain r r' where r: "k = p @ r" "k' = p @ r'" using assms(1,2) by (auto simp: prefix_def)
  then have "r \<le> r'" using assms(6) by (simp add: prefix_le_iff)
  then show ?thesis using r assms(3-5) by (auto simp: key_time_def intro!: be_uint_mono take_le)
qed

lemma messages_loop_new:
  "messages_loop K klen limit offset count skipped acc kvs = Inr ms \<Longrightarrow>
   \<exists>new. ms = acc @ new \<and>
     (\<forall>m\<in>set new. \<exists>(k, v)\<in>set kvs. 2 + klen + 8 \<le> length k \<and> mk_Timestamp m = key_time klen k) \<and>
     (sorted (map fst kvs) \<and> length p = 2 + klen \<and> (\<forall>(k, v)\<in>set kvs. prefix p k) \<longrightarrow> sorted (map mk_Timestamp new))"
proof (induction K klen limit offset count skipped acc kvs rule: messages_loop.induct)
  case (2 K klen limit offset count skipped messages key data rest)
  consider (skip) "skipped < offset" | (stop) "\<not> skipped < offset" "limit > 0 \<and> count \<ge> limit"
    | (short) "\<not> skipped < offset" "\<not> (limit > 0 \<and> count \<ge> limit)" "length key \<le> 2 + klen + 8"
    | (take) e where "\<not> skipped < offset" "\<not> (limit > 0 \<and> count \<ge> limit)" "2 + klen + 8 < length key" "unmarshal K data = Inr e"
    | (bad) e where "\<not> skipped < offset" "\<not> (limit > 0 \<and> count \<ge> limit)" "2 + klen + 8 < length key" "unmarshal K data = Inl e"
    by (cases "unmarshal K data"; metis not_le)
  then show ?case
  proof cases
    case skip
    then show ?thesis using 2(1)[OF skip] 2(5) by fastforce
  next
    case stop
    then show ?thesis using 2(5) by auto
  next
    case short
    then have "messages_loop K klen limit offset count skipped messages rest = Inr ms"
      using 2(5) by (auto simp: Let_def split: if_splits)
    then show ?thesis using 2(2,3)[OF short(1,2) refl refl] short(3) by fastforce
  next
    case take
    let ?m = "\<lparr>mk_Envelope = e, mk_Timestamp = be_uint (take 8 (drop (2 + klen) key)), mk_Nonce = drop (2 + klen + 8) key\<rparr>"
    have "messages_loop K klen limit offset (count + 1) skipped (messages @ [?m]) rest = Inr ms"
      using 2(5) take by (simp add: Let_def)
    then obtain new where new: "ms = (messages @ [?m]) @ new"
      "\<forall>m\<in>set new. \<exists>(k, v)\<in>set rest. 2 + klen + 8 \<le> length k \<and> mk_Timestamp m = key_time klen k"
      "sorted (map fst rest) \<and> length p = 2 + klen \<and> (\<forall>(k, v)\<in>set rest. prefix p k) \<longrightarrow> sorted (map mk_Timestamp new)"
      using 2(4)[OF take(1,2) refl refl _ _ take(4)] take(3) by auto
    have "key_time klen key \<le> mk_Timestamp m" if s: "sorted (map fst ((key, data) # rest))" "length p = 2 + klen"
      "\<forall>(k, v)\<in>set ((key, data) # rest). prefix p k" and m: "m \<in> set new" for m
    proof -
      obtain k v where kv: "(k, v) \<in> set rest" "2 + klen + 8 \<le> length k" "mk_Timestamp m = key_time klen k"
        using new(2) m by fastforce
      have "key \<le> k" using s(1) kv(1) by force
      moreover have "prefix p key" "prefix p k" using s(3) kv(1) by auto
      ultimately show ?thesis using key_time_mono[of p key k klen] s(2) kv take(3) by simp
    qed
    then show ?thesis using new take(3)
      by (intro exI[of _ "?m # new"]) (auto simp: key_time_def)
  next
    case bad
    then show ?thesis using 2(5) by (auto simp: Let_def split: if_splits)
  qed
qed auto

definition messages_ok :: "('d \<Rightarrow> bytes \<Rightarrow> bytes option) \<Rightarrow> codecs \<Rightarrow> 'd \<Rightarrow> bool" where
  "messages_ok view C d \<longleftrightarrow> (\<forall>k b. view d k = Some b \<longrightarrow> prefix (str_bytes ''m:'') k \<longrightarrow> is_ok (unmarshal (c_signed C) b))"

lemma mok_set:
  "messages_ok view C d \<Longrightarrow> view d' = (view d)(k \<mapsto> b) \<Longrightarrow>
   \<not> prefix (str_bytes ''m:'') k \<or> is_ok (unmarshal (c_signed C) b) \<Longrightarrow> messages_ok view C d'"
  by (auto simp: messages_ok_def)

lemma mok_sub:
  "messages_ok view C d \<Longrightarrow> (\<And>k b. view d' k = Some b \<Longrightarrow> view d k = Some b) \<Longrightarrow> messages_ok view C d'"
  unfolding messages_ok_def by blast

lemma slot_not_message: "slot_kind x < 8 \<Longrightarrow> \<not> prefix (str_bytes ''m:'') (slot_key x)"
  by (cases x) (simp_all add: key_defs)

lemma mok_store:
  assumes "kv_ok B view" "codec_ok K" "messages_ok view C d" "slot_kind y < 8"
  shows "messages_ok view C (fst (store_msg B K e1 e2 (slot_key y) msg d))"
  by (rule store_msg_view[OF assms(1,2), of msg e1 e2 "slot_key y" d])
    (use slot_not_message[OF assms(4)] in \<open>auto intro: mok_set[OF assms(3)]\<close>)

lemma mok_delete:
  assumes "kv_ok B view" "messages_ok view C d"
  shows "messages_ok view C (fst (db_update B e [WDel key] d))" "messages_ok view C (fst (delete_prefix B e pre d))"
  by (rule mok_sub[OF assms(2)], simp add: kv_update[OF assms(1)] delete_prefix_view[OF assms(1)] split: if_splits)+

lemma mok_step_store:
  assumes "kv_ok B view" "codecs_ok C" "messages_ok view C d"
  shows "messages_ok view C (fst (Badger_AddContact B C c d))" "messages_ok view C (fst (Badger_AddPeer B C p d))"
    "messages_ok view C (fst (Badger_BlacklistPeer B C t pid r d))" "messages_ok view C (fst (Badger_SaveGroup B C g d))"
    "messages_ok view C (fst (Badger_SaveSenderKey B C sk d))" "messages_ok view C (fst (Badger_SaveChannel B C ch d))"
  using codecs_okD[OF assms(2)]
    mok_store[OF assms(1) _ assms(3), of _ "SContact (ct_PublicKey c)"]
    mok_store[OF assms(1) _ assms(3), of _ "SPeer (pr_PeerID p)"]
    mok_store[OF assms(1) _ assms(3), of _ "SBlack pid"]
    mok_store[OF assms(1) _ assms(3), of _ "SGroup (pg_GroupId g)"]
    mok_store[OF assms(1) _ assms(3), of _ "SSender (skd_GroupId sk) (skd_SenderPub sk)"]
    mok_store[OF assms(1) _ assms(3), of _ "SChannel (ch_ChannelId ch)"]
  by (simp_all add: badger_writes)

lemma mok_step_post:
  assumes "kv_ok B view" "codecs_ok C" "messages_ok view C d"
  shows "messages_ok view C (fst (Badger_SaveChannelPost B C p d))"
proof -
  let ?pk = "slot_key (SPost (cp_ChannelId p) (cp_PostId p))" and ?ck = "slot_key (SChannel (cp_ChannelId p))"
  obtain b where b: "marshal (c_post C) p = Inr b"
    using codec_ok_marshal[OF codecs_okD(7)[OF assms(2)]] by blast
  have nm: "\<not> prefix (str_bytes ''m:'') ?pk" "\<not> prefix (str_bytes ''m:'') ?ck"
    by (rule slot_not_message, simp)+
  have "view (fst (Badger_SaveChannelPost B C p d)) \<in> {(view d)(?pk \<mapsto> b)} \<union> {(view d)(?pk \<mapsto> b, ?ck \<mapsto> c) | c. True}"
    using b by (auto simp: Badger_SaveChannelPost_def Let_def kv_update[OF assms(1)] split: sum.splits)
  then show ?thesis using nm assms(3) by (auto simp: messages_ok_def split: if_splits)
qed

lemma mok_step_message:
  assumes "kv_ok B view" "codecs_ok C" "messages_ok view C d"
  shows "messages_ok view C (fst (Badger_AddMessage B C now k e d))"
proof (cases "unmarshal (c_envelope C) (se_Envelope e)")
  case (Inr env)
  obtain b where "unmarshal (c_signed C) b = Inr e"
    "view (fst (store_msg B (c_signed C) ''failed to marshal envelope'' ''failed to store message''
      (messageKey k now (ev_Nonce env)) e d)) = (view d)(messageKey k now (ev_Nonce env) \<mapsto> b)"
    by (rule store_msg_view[OF assms(1) codecs_okD(2)[OF assms(2)]])
  then show ?thesis using Inr by (auto simp: Badger_AddMessage_def intro: mok_set[OF assms(3)])
qed (use assms(3) in \<open>simp add: Badger_AddMessage_def\<close>)

lemma mok_step:
  assumes "kv_ok B view" "codecs_ok C" "messages_ok view C d"
  shows "messages_ok view C (fst (Badger_exec B C now op d))"
proof -
  have "messages_ok view C (fst (Badger_SetConfig B k v d))" for k v
    by (rule mok_set[OF assms(3), of _ "slot_key (SConfig k)" "str_bytes v"])
      (use slot_not_message[of "SConfig k"] in \<open>auto simp: Badger_SetConfig_def kv_update[OF assms(1)]\<close>)
  then show ?thesis
    using mok_step_store[OF assms] mok_step_post[OF assms] mok_step_message[OF assms] mok_delete[OF assms(1,3)]
    by (cases op) (simp_all add: Badger_DeleteContact_def Badger_DeletePeer_def Badger_DeleteConfig_def
        Badger_RemoveFromBlacklist_def Badger_DeleteGroup_def Badger_DeleteSenderKey_def Badger_DeleteChannel_def
        Badger_DeleteMessages_def Badger_DeleteAllSenderKeys_def)
qed

lemma mok_run:
  assumes "kv_ok B view" "codecs_ok C"
  shows "messages_ok view C d \<Longrightarrow> messages_ok view C (Badger_run B C ops d)"
proof (induction ops arbitrary: d)
  case (Cons o1 ops)
  then show ?case by (cases o1) (simp add: Badger_run_def mok_step[OF assms])
qed (simp add: Badger_run_def)

definition stored_entry :: "SignedEnvelope codec \<Rightarrow> nat \<Rightarrow> bytes \<times> bytes \<Rightarrow> MessageWithKey" where
  "stored_entry K klen kv = \<lparr>mk_Envelope = (case unmarshal K (snd kv) of Inr e \<Rightarrow> e),
     mk_Timestamp = key_time klen (fst kv), mk_Nonce = drop (2 + klen + 8) (fst kv)\<rparr>"

lemma messages_loop_all:
  "(\<forall>kv\<in>set kvs. is_ok (unmarshal K (snd kv))) \<Longrightarrow>
   messages_loop K klen 0 0 count 0 acc kvs =
     Inr (acc @ map (stored_entry K klen) (filter (\<lambda>kv. 2 + klen + 8 < length (fst kv)) kvs))"
proof (induction kvs arbitrary: acc count)
  case (Cons kv kvs)
  obtain k v where kv: "kv = (k, v)" by (cases kv)
  then obtain e where "unmarshal K v = Inr e" using Cons.prems by (auto simp: is_ok_iff)
  then show ?case using Cons kv by (auto simp: Let_def stored_entry_def key_time_def)
qed simp

lemma drop_prefix_length: "length p = n \<Longrightarrow> drop n (p @ r) = r"
  by simp

lemma messageKey_parts:
  "prefix (messages_prefix pk) (messageKey pk t n)" "key_time (length pk) (messageKey pk t n) = t"
  "drop (10 + length pk) (messageKey pk t n) = n" "length (messageKey pk t n) = 10 + length pk + length n"
proof -
  have "messageKey pk t n = (str_bytes ''m:'' @ pk @ be_bytes 8 t) @ n" by (simp add: messageKey_def)
  then show "drop (10 + length pk) (messageKey pk t n) = n"
    by (simp only:) (rule drop_prefix_length, simp)
qed (simp_all add: messages_prefix_def messageKey_def key_time_def)

lemma messageKey_split:
  assumes "prefix (messages_prefix pk) k" "2 + length pk + 8 < length k"
  shows "\<exists>t n. k = messageKey pk t n \<and> n \<noteq> [] \<and> key_time (length pk) k = t \<and> drop (10 + length pk) k = n"
proof -
  obtain r where r: "k = messages_prefix pk @ r" using assms(1) by (auto simp: prefix_def)
  then have len: "8 < length r" using assms(2) by (simp add: messages_prefix_def)
  have "le_bytes 8 (le_uint (rev (take 8 r)) :: u64) = rev (take 8 r)"
    using le_bytes_le_uint[of "rev (take 8 r)", where 'a = 64] len by simp
  then have "be_bytes 8 (be_uint (take 8 r) :: u64) = take 8 r"
    by (simp add: be_bytes_def be_uint_def)
  then have "k = messageKey pk (be_uint (take 8 r)) (drop 8 r)"
    using r by (simp add: messageKey_def messages_prefix_def)
  then show ?thesis using len by (intro exI[of _ "be_uint (take 8 r)"] exI[of _ "drop 8 r"]) (simp add: messageKey_parts)
qed

text \<open>What a full read of a conversation returns.\<close>

lemma read_conversation:
  assumes "kv_ok B view" "messages_ok view C d"
  shows "\<exists>ms. Badger_GetMessagesWithTimestamps B C pk 0 0 d = Inr ms \<and> sorted (map mk_Timestamp ms) \<and>
    (\<forall>m. m \<in> set ms \<longleftrightarrow> mk_Nonce m \<noteq> [] \<and> (\<exists>b. view d (messageKey pk (mk_Timestamp m) (mk_Nonce m)) = Some b \<and>
       unmarshal (c_signed C) b = Inr (mk_Envelope m)))"
proof -
  let ?K = "c_signed C" and ?n = "length pk"
  obtain kvs where kvs: "db_scan B d (messages_prefix pk) = Inr kvs" "sorted (map fst kvs)" 
    "set kvs = {(k, v). view d k = Some v \<and> prefix (messages_prefix pk) k}"
    by (rule kv_scan[OF assms(1)])
  have ok: "is_ok (unmarshal ?K (snd kv))" if "kv \<in> set kvs" for kv
  proof -
    have "view d (fst kv) = Some (snd kv)" "prefix (messages_prefix pk) (fst kv)" using that kvs(3) by auto
    moreover from this have "prefix (str_bytes ''m:'') (fst kv)" by (auto simp: messages_prefix_def prefix_def)
    ultimately show ?thesis using assms(2) by (simp add: messages_ok_def)
  qed
  define ms where "ms = map (stored_entry ?K ?n) (filter (\<lambda>kv. 2 + ?n + 8 < length (fst kv)) kvs)"
  have loop: "messages_loop ?K ?n 0 0 0 0 [] kvs = Inr ms" using messages_loop_all[of kvs ?K ?n 0 "[]"] ok ms_def by simp
  then have "Badger_GetMessagesWithTimestamps B C pk 0 0 d = Inr ms"
    by (simp add: Badger_GetMessagesWithTimestamps_def kvs(1))
  moreover have "sorted (map mk_Timestamp ms)"
    using messages_loop_new[OF loop, of "messages_prefix pk"] kvs(2,3) by (auto simp: messages_prefix_def)
  moreover have "m \<in> set ms \<longleftrightarrow> mk_Nonce m \<noteq> [] \<and>
      (\<exists>b. view d (messageKey pk (mk_Timestamp m) (mk_Nonce m)) = Some b \<and> unmarshal ?K b = Inr (mk_Envelope m))" (is "_ \<longleftrightarrow> ?R") for m
  proof
    assume "m \<in> set ms"
    then obtain k v where kv: "m = stored_entry ?K ?n (k, v)" "(k, v) \<in> set kvs" "2 + ?n + 8 < length k"
      by (auto simp: ms_def)
    then obtain t n where k: "k = messageKey pk t n" "n \<noteq> []" "key_time ?n k = t" "drop (10 + ?n) k = n"
      using messageKey_split[of pk k] kvs(3) by auto
    obtain e where "unmarshal ?K v = Inr e" using ok[OF kv(2)] by (auto simp: is_ok_iff)
    then show ?R using kv k kvs(3) by (auto simp: stored_entry_def)
  next
    assume ?R
    then obtain b where b: "mk_Nonce m \<noteq> []" "view d (messageKey pk (mk_Timestamp m) (mk_Nonce m)) = Some b"
      "unmarshal ?K b = Inr (mk_Envelope m)" by blast
    let ?kv = "(messageKey pk (mk_Timestamp m) (mk_Nonce m), b)"
    have "m = stored_entry ?K ?n ?kv" using b by (cases m) (simp add: stored_entry_def messageKey_parts)
    moreover have "?kv \<in> set (filter (\<lambda>kv. 2 + ?n + 8 < length (fst kv)) kvs)"
      using b kvs(3) by (simp add: messageKey_parts)
    ultimately show "m \<in> set ms" unfolding ms_def set_map by (rule image_eqI)
  qed
  ultimately show ?thesis by blast
qed

lemma messages_prefix_disjoint:
  "length pk = length pk' \<Longrightarrow> prefix (messages_prefix pk) k \<Longrightarrow> prefix (messages_prefix pk') k \<Longrightarrow> pk = pk'"
  by (auto simp: messages_prefix_def prefix_def)

section \<open>Reference codecs\<close>

definition ser_PeerRecord :: "PeerRecord ser" where
  "ser_PeerRecord = s_iso
     (\<lambda>p. (pr_PeerID p, pr_Multiaddrs p, pr_FirstSeen p, pr_LastSeen p, pr_LastConnected p, pr_ConnectCount p,
        pr_FailCount p, pr_Source p, pr_Protocols p, pr_LatencyMs p))
     (\<lambda>(a, b, c, d, e, f, g, h, i, j). \<lparr>pr_PeerID = a, pr_Multiaddrs = b, pr_FirstSeen = c, pr_LastSeen = d,
        pr_LastConnected = e, pr_ConnectCount = f, pr_FailCount = g, pr_Source = h, pr_Protocols = i, pr_LatencyMs = j\<rparr>)
     (s_pair s_string (s_pair (s_list s_string) (s_pair (s_opt s_int) (s_pair (s_opt s_int) (s_pair (s_opt s_int)
       (s_pair s_int (s_pair s_int (s_pair s_string (s_pair (s_list s_string) s_int)))))))))"

definition ser_BlacklistEntry :: "BlacklistEntry ser" where
  "ser_BlacklistEntry = s_iso (\<lambda>b. (be_PeerID b, be_Reason b, be_BlacklistedAt b, be_ExpiresAt b))
     (\<lambda>(a, b, c, d). \<lparr>be_PeerID = a, be_Reason = b, be_BlacklistedAt = c, be_ExpiresAt = d\<rparr>)
     (s_pair s_string (s_pair s_string (s_pair (s_opt s_int) (s_opt s_int))))"

definition ref_codecs :: codecs where
  "ref_codecs = \<lparr>c_contact = codec_of ser_Contact, c_signed = codec_of ser_SignedEnvelope,
     c_envelope = codec_of ser_Envelope, c_group = codec_of ser_GroupState,
     c_sender = codec_of ser_SenderKeyDistribution, c_channel = codec_of ser_ChannelState,
     c_post = codec_of ser_ChannelPost, c_action = codec_of ser_ModerationAction,
     c_peer = codec_of ser_PeerRecord, c_black = codec_of ser_BlacklistEntry\<rparr>"

lemma ref_codecs_ok: "codecs_ok ref_codecs"
proof -
  have "ser_ok ser_PeerRecord" "ser_ok ser_BlacklistEntry"
    unfolding ser_PeerRecord_def ser_BlacklistEntry_def by (rule s_iso_ok, intro ser_intros, simp)+
  then show ?thesis
    by (simp add: codecs_ok_def ref_codecs_def codec_of_ok ser_messages_ok ser_GroupState_ok)
qed

section \<open>Properties\<close>



text \<open>C6. Conversations survive in the Badger store: after any history, adding a message succeeds,
  and a full read of the conversation then succeeds, returns messages in the order of their
  timestamps, and contains the new message with its timestamp and nonce exactly when the nonce of its
  envelope is not empty: a message with an empty nonce is stored and never returned.\<close>

theorem conversation_read_back:
  fixes B :: "'d badger" and C :: codecs and d0 :: 'd and ops :: "(u64 \<times> mem_op) list"
  assumes "kv_ok B view" "codecs_ok C" "view d0 = (\<lambda>_. None)" "unmarshal (c_envelope C) (se_Envelope e) = Inr env"
  defines "d \<equiv> Badger_run B C ops d0"
  shows "snd (Badger_AddMessage B C now pk e d) = Inr () \<and>
    (\<exists>ms. Badger_GetMessagesWithTimestamps B C pk 0 0 (fst (Badger_AddMessage B C now pk e d)) = Inr ms \<and>
      sorted (map mk_Timestamp ms) \<and>
      (\<lparr>mk_Envelope = e, mk_Timestamp = now, mk_Nonce = ev_Nonce env\<rparr> \<in> set ms \<longleftrightarrow> ev_Nonce env \<noteq> []))"
proof -
  let ?d = "fst (Badger_AddMessage B C now pk e d)" and ?k = "messageKey pk now (ev_Nonce env)"
  have "messages_ok view C d0" using assms(3) by (simp add: messages_ok_def)
  then have ok: "messages_ok view C ?d"
    unfolding d_def by (intro mok_step_message[OF assms(1,2)] mok_run[OF assms(1,2)])
  obtain b where b: "unmarshal (c_signed C) b = Inr e"
    "view (fst (store_msg B (c_signed C) ''failed to marshal envelope'' ''failed to store message'' ?k e d)) = (view d)(?k \<mapsto> b)"
    "snd (store_msg B (c_signed C) ''failed to marshal envelope'' ''failed to store message'' ?k e d) = Inr ()"
    by (rule store_msg_view[OF assms(1) codecs_okD(2)[OF assms(2)]])
  then have "view ?d ?k = Some b" "snd (Badger_AddMessage B C now pk e d) = Inr ()"
    using assms(4) by (simp_all add: Badger_AddMessage_def)
  then show ?thesis using read_conversation[OF assms(1) ok, of pk] b(1) by fastforce
qed

theorem conversation_read_back_witness:
  "let e = \<lparr>se_Envelope = fst ser_Envelope \<lparr>ev_Ciphertext = [1], ev_EphemeralPubkey = [2], ev_Nonce = [3]\<rparr>,
             se_Signature = [4], se_SenderPubkey = [5], se_EncryptedEphemeralPriv = []\<rparr>
   in \<exists>ms. Badger_GetMessagesWithTimestamps alist_db ref_codecs [7] 0 0
        (fst (Badger_AddMessage alist_db ref_codecs 9 [7] e (Badger_run alist_db ref_codecs [] []))) = Inr ms \<and>
      \<lparr>mk_Envelope = e, mk_Timestamp = 9, mk_Nonce = [3]\<rparr> \<in> set ms"
proof -
  let ?env = "\<lparr>ev_Ciphertext = [1], ev_EphemeralPubkey = [2], ev_Nonce = [3]\<rparr> :: Envelope"
  let ?e = "\<lparr>se_Envelope = fst ser_Envelope ?env, se_Signature = [4], se_SenderPubkey = [5],
      se_EncryptedEphemeralPriv = []\<rparr> :: SignedEnvelope"
  have "unmarshal (c_envelope ref_codecs) (se_Envelope ?e) = Inr ?env"
    using ser_okD[OF ser_messages_ok(2), of ?env "[]"] by (simp add: ref_codecs_def codec_of_def)
  from conversation_read_back[OF alist_db_ok ref_codecs_ok map_of.simps(1) this, of 9 "[7]" "[]"]
  show ?thesis by (auto simp: Let_def)
qed

text \<open>Deleting a conversation: after \<open>DeleteMessages\<close> the conversation reads as empty, and every
  page of every other conversation with a key of the same length, as all public keys have, reads
  exactly as before.\<close>

theorem DeleteMessages_isolated:
  fixes B :: "'d badger" and pk :: bytes and d :: 'd
  assumes "kv_ok B view" "pk' \<noteq> pk" "length pk' = length pk"
  defines "d' \<equiv> fst (Badger_DeleteMessages B pk d)"
  shows "snd (Badger_DeleteMessages B pk d) = Inr ()
    \<and> Badger_GetMessagesWithTimestamps B C pk limit offset d' = Inr []
    \<and> Badger_GetMessagesWithTimestamps B C pk' limit offset d' = Badger_GetMessagesWithTimestamps B C pk' limit offset d"
proof -
  have v: "view d' = (\<lambda>k. if prefix (messages_prefix pk) k then None else view d k)"
    by (simp add: d'_def Badger_DeleteMessages_def delete_prefix_view[OF assms(1)])
  obtain kvs where kvs: "db_scan B d' (messages_prefix pk) = Inr kvs"
    "set kvs = {(k, v). view d' k = Some v \<and> prefix (messages_prefix pk) k}" by (rule kv_scan[OF assms(1)])
  have "kvs = []" using kvs(2) by (auto simp: v set_empty[symmetric] simp del: set_empty split: if_splits)
  moreover have "db_scan B d' (messages_prefix pk') = db_scan B d (messages_prefix pk')"
    using messages_prefix_disjoint[OF assms(3)] assms(2) by (intro scan_cong[OF assms(1)]) (auto simp: v)
  ultimately show ?thesis
    using kvs(1) by (simp add: Badger_GetMessagesWithTimestamps_def Badger_DeleteMessages_def delete_prefix_view[OF assms(1)] assms(3))
qed

theorem DeleteMessages_isolated_witness:
  "Badger_GetMessagesWithTimestamps alist_db ref_codecs [1] 0 0 (fst (Badger_DeleteMessages alist_db [1] [(messageKey [1] 5 [6], [7])])) = Inr []"
  using DeleteMessages_isolated[OF alist_db_ok, of "[2]" "[1]"] by simp

text \<open>An expired blacklist entry is never removed: \<open>IsBlacklisted\<close> answers that the peer is not
  blacklisted and starts the clean-up meant to remove the entry, but the clean-up deletes a
  configuration key, so the entry stays in the database and a configuration value with the name of
  the blacklist key is lost instead.\<close>

theorem expired_entry_stays:
  assumes "kv_ok B view" "view d (blacklistKey pid) = Some b" "unmarshal (c_black C) b = Inr entry" "IsExpired now entry"
  shows "snd (Badger_IsBlacklisted B C now pid d) = Inr False
    \<and> view (fst (Badger_IsBlacklisted B C now pid d)) (blacklistKey pid) = Some b
    \<and> Badger_GetConfig B (bytes_str (blacklistKey pid)) (fst (Badger_IsBlacklisted B C now pid d)) = Inr ''''"
proof -
  have "slot_key (SBlack pid) \<noteq> slot_key (SConfig (bytes_str (blacklistKey pid)))"
    using slot_key_kind[of "SBlack pid" "SConfig (bytes_str (blacklistKey pid))"] by auto
  then show ?thesis
    using assms by (simp add: Badger_IsBlacklisted_def load_msg_kv[OF assms(1)] Badger_DeleteConfig_def
        kv_update[OF assms(1)] Badger_GetConfig_def kv_get[OF assms(1)])
qed

theorem expired_entry_stays_witness:
  "let entry = \<lparr>be_PeerID = ''p'', be_Reason = ''r'', be_BlacklistedAt = Some 1, be_ExpiresAt = Some 2\<rparr>;
       d = [(blacklistKey ''p'', fst ser_BlacklistEntry entry)]
   in snd (Badger_IsBlacklisted alist_db ref_codecs 3 ''p'' d) = Inr False
      \<and> map_of (fst (Badger_IsBlacklisted alist_db ref_codecs 3 ''p'' d)) (blacklistKey ''p'') = Some (fst ser_BlacklistEntry entry)"
proof -
  let ?e = "\<lparr>be_PeerID = ''p'', be_Reason = ''r'', be_BlacklistedAt = Some 1, be_ExpiresAt = Some 2\<rparr> :: BlacklistEntry"
  have "ser_ok ser_BlacklistEntry"
    unfolding ser_BlacklistEntry_def by (rule s_iso_ok, intro ser_intros, simp)
  then have "unmarshal (c_black ref_codecs) (fst ser_BlacklistEntry ?e) = Inr ?e"
    using ser_okD[of ser_BlacklistEntry ?e "[]"] by (simp add: ref_codecs_def codec_of_def)
  from expired_entry_stays[OF alist_db_ok _ this, of "[(blacklistKey ''p'', fst ser_BlacklistEntry ?e)]" "''p''" 3]
  show ?thesis by (simp add: IsExpired_def Let_def)
qed

end
