(* ===== verification/GroupService.thy ===== *)
theory GroupService
  imports GroupState BadgerStorage
begin

text \<open>
  \<open>pkg/groups/service.go\<close>: the private-group service. Its state is the record \<open>Service\<close>: the Badger
  store, the identity keys, the cache of groups and the cache of sender keys, both keyed by
  hexadecimal text as in the source. Every operation returns the service it leaves, also on its
  error paths, because the source writes its caches and storage before some of its error returns.
  Clock readings and random bytes are arguments. The loop of \<open>DecryptGroupMessage\<close> that advances a
  chain is a partial function: \<open>None\<close> is a call that never returns.
\<close>

definition GErrGroupNotFound :: go_error where "GErrGroupNotFound = Err ''group not found''"
definition GErrMemberNotFound :: go_error where "GErrMemberNotFound = Err ''member not found''"
definition GErrAlreadyMember :: go_error where "GErrAlreadyMember = Err ''already a member''"
definition GErrNotAuthorized :: go_error where "GErrNotAuthorized = Err ''not authorized''"
definition GErrInvalidEpoch :: go_error where "GErrInvalidEpoch = Err ''invalid epoch''"
definition GErrSenderKeyNotFound :: go_error where "GErrSenderKeyNotFound = Err ''sender key not found''"

record 'd Service =
  sv_storage :: 'd
  sv_identitySignPub :: bytes
  sv_identitySignPriv :: bytes
  sv_identityX25519Pub :: bytes
  sv_groups :: "(string, GroupState) gomap"
  sv_senderKeys :: "(string, (string, SenderKey) gomap) gomap"

text \<open>\<open>opts\<close> is the list of keys given by \<open>WithX25519PublicKey\<close>, the only option; the last one wins.\<close>

definition NewService :: "'d \<Rightarrow> bytes \<Rightarrow> bytes \<Rightarrow> bytes list \<Rightarrow> 'd Service" where
  "NewService storage signPub signPriv opts =
     fold (\<lambda>x s. s\<lparr>sv_identityX25519Pub := x\<rparr>) opts
       \<lparr>sv_storage = storage, sv_identitySignPub = signPub, sv_identitySignPriv = signPriv, sv_identityX25519Pub = [],
        sv_groups = [], sv_senderKeys = []\<rparr>"

section \<open>Helpers\<close>

definition storeGroup :: "'d badger \<Rightarrow> codecs \<Rightarrow> GroupState \<Rightarrow> 'd Service \<Rightarrow> ('d Service, unit) eff" where
  "storeGroup B C state s =
     (case Badger_SaveGroup B C (GroupState_ToProto state) (sv_storage s) of (d, r) \<Rightarrow> (s\<lparr>sv_storage := d\<rparr>, r))"

definition storeSenderKey :: "'d badger \<Rightarrow> codecs \<Rightarrow> SenderKey \<Rightarrow> 'd Service \<Rightarrow> ('d Service, unit) eff" where
  "storeSenderKey B C sk s =
     (case Badger_SaveSenderKey B C (SenderKey_ToProto sk) (sv_storage s) of (d, r) \<Rightarrow> (s\<lparr>sv_storage := d\<rparr>, r))"

definition initializeSenderKeysForGroup :: "bytes \<Rightarrow> 'd Service \<Rightarrow> 'd Service" where
  "initializeSenderKeysForGroup groupID s =
     (case gm_get (sv_senderKeys s) (hex_encode groupID) of
        None \<Rightarrow> s\<lparr>sv_senderKeys := gm_set (hex_encode groupID) [] (sv_senderKeys s)\<rparr>
      | Some _ \<Rightarrow> s)"

definition sender_key_of :: "bytes \<Rightarrow> bytes \<Rightarrow> 'd Service \<Rightarrow> SenderKey option" where
  "sender_key_of groupID pubkey s =
     (case gm_get (sv_senderKeys s) (hex_encode groupID) of None \<Rightarrow> None | Some m \<Rightarrow> gm_get m (hex_encode pubkey))"

text \<open>\<open>s.senderKeys[groupKey][pubkeyHex] = senderKey\<close>, a panic when the group has no map.\<close>

definition put_sender_key :: "bytes \<Rightarrow> bytes \<Rightarrow> SenderKey \<Rightarrow> 'd Service \<Rightarrow> ('d Service, unit) eff" where
  "put_sender_key groupID pubkey sk s =
     (case gm_get (sv_senderKeys s) (hex_encode groupID) of
        None \<Rightarrow> (s, Inl nil_map_write)
      | Some m \<Rightarrow> (s\<lparr>sv_senderKeys := gm_set (hex_encode groupID) (gm_set (hex_encode pubkey) sk m) (sv_senderKeys s)\<rparr>, Inr ()))"

definition isMemberWithRole :: "GroupState \<Rightarrow> bytes \<Rightarrow> GroupRole list \<Rightarrow> bool" where
  "isMemberWithRole state pubkey roles =
     (case find (\<lambda>m. mb_Ed25519Pubkey m = pubkey) (gs_Members state) of
        None \<Rightarrow> False
      | Some m \<Rightarrow> list_ex (\<lambda>r. mb_Role m = r) roles)"

fun rotate_loop :: "prims \<Rightarrow> 'd badger \<Rightarrow> codecs \<Rightarrow> (nat \<Rightarrow> bytes res \<times> bytes res) \<Rightarrow> nat \<Rightarrow> GroupState \<Rightarrow>
    GroupMember list \<Rightarrow> 'd Service \<Rightarrow> ('d Service, unit) eff" where
  "rotate_loop P B C rnd i state [] s = (s, Inr ())"
| "rotate_loop P B C rnd i state (member # rest) s =
     (case GenerateSenderKey P (fst (rnd i)) (snd (rnd i)) (gs_GroupID state) (mb_Ed25519Pubkey member) of
        Inl e \<Rightarrow> (s, Inl (Wrap ''failed to generate sender key for member'' e))
      | Inr generated \<Rightarrow>
          let sk = generated\<lparr>snk_Epoch := gs_Epoch state\<rparr>;
              senderKey = (case sender_key_of (gs_GroupID state) (mb_Ed25519Pubkey member) s of
                  None \<Rightarrow> sk
                | Some memberKey \<Rightarrow> sk\<lparr>snk_ChainIndex := snk_ChainIndex memberKey\<rparr>)
          in (case put_sender_key (gs_GroupID state) (mb_Ed25519Pubkey member) senderKey s of
                (s1, Inl e) \<Rightarrow> (s1, Inl e)
              | (s1, Inr _) \<Rightarrow> (case storeSenderKey B C senderKey s1 of
                    (s2, Inl e) \<Rightarrow> (s2, Inl (Wrap ''failed to store rotated sender key'' e))
                  | (s2, Inr _) \<Rightarrow> rotate_loop P B C rnd (Suc i) state rest s2)))"

definition rotateAllSenderKeys :: "prims \<Rightarrow> 'd badger \<Rightarrow> codecs \<Rightarrow> (nat \<Rightarrow> bytes res \<times> bytes res) \<Rightarrow> GroupState \<Rightarrow>
    'd Service \<Rightarrow> ('d Service, unit) eff" where
  "rotateAllSenderKeys P B C rnd state s = rotate_loop P B C rnd 0 state (gs_Members state) s"

section \<open>Groups\<close>

definition CreateGroup :: "prims \<Rightarrow> 'd badger \<Rightarrow> codecs \<Rightarrow> bytes res \<Rightarrow> u64 \<Rightarrow> bytes res \<Rightarrow> bytes res \<Rightarrow>
    string \<Rightarrow> string \<Rightarrow> GroupType \<Rightarrow> 'd Service \<Rightarrow> ('d Service, GroupState) eff" where
  "CreateGroup P B C rndID now rndChain keygen name description groupType s =
     (let x25519Pubkey = (if length (sv_identityX25519Pub s) = 0 then replicate 32 0 else sv_identityX25519Pub s)
      in case NewGroupState rndID now name description groupType (sv_identitySignPub s) x25519Pubkey of
        Inl e \<Rightarrow> (s, Inl (Wrap ''failed to create group state'' e))
      | Inr state0 \<Rightarrow> (case GroupState_Sign P (c_group C) (sv_identitySignPriv s) state0 of
          (state, Inl e) \<Rightarrow> (s, Inl (Wrap ''failed to sign group state'' e))
        | (state, Inr _) \<Rightarrow> (case storeGroup B C state s of
            (s1, Inl e) \<Rightarrow> (s1, Inl (Wrap ''failed to store group'' e))
          | (s1, Inr _) \<Rightarrow> (case GenerateSenderKey P rndChain keygen (gs_GroupID state) (sv_identitySignPub s) of
              Inl e \<Rightarrow> (s1, Inl (Wrap ''failed to generate sender key'' e))
            | Inr senderKey \<Rightarrow>
                let s2 = fst (put_sender_key (gs_GroupID state) (sv_identitySignPub s) senderKey
                            (initializeSenderKeysForGroup (gs_GroupID state) s1))
                in (case storeSenderKey B C senderKey s2 of
                    (s3, Inl e) \<Rightarrow> (s3, Inl (Wrap ''failed to store sender key'' e))
                  | (s3, Inr _) \<Rightarrow>
                      (s3\<lparr>sv_groups := gm_set (hex_encode (gs_GroupID state)) state (sv_groups s3)\<rparr>, Inr state))))))"

text \<open>\<open>nowJoined\<close> and \<open>nowUpdated\<close> are the two readings of the clock.\<close>

definition added_state :: "u64 \<Rightarrow> u64 \<Rightarrow> bytes \<Rightarrow> bytes \<Rightarrow> bytes \<Rightarrow> string \<Rightarrow> GroupRole \<Rightarrow> GroupState \<Rightarrow> GroupState" where
  "added_state nowJoined nowUpdated previousHash memberPubkey memberX25519Pubkey displayName role state =
     state\<lparr>gs_Epoch := gs_Epoch state + 1,
       gs_Members := gs_Members state @ [\<lparr>mb_Ed25519Pubkey = memberPubkey, mb_X25519Pubkey = memberX25519Pubkey,
         mb_DisplayName = displayName, mb_JoinedAt = nowJoined, mb_Role = role\<rparr>],
       gs_UpdatedAt := nowUpdated, gs_StateSignature := [], gs_PreviousStateHash := previousHash\<rparr>"

definition Service_AddMember :: "prims \<Rightarrow> 'd badger \<Rightarrow> codecs \<Rightarrow> u64 \<Rightarrow> u64 \<Rightarrow> bytes \<Rightarrow> bytes \<Rightarrow> bytes \<Rightarrow> string \<Rightarrow>
    GroupRole \<Rightarrow> 'd Service \<Rightarrow> ('d Service, GroupState) eff" where
  "Service_AddMember P B C nowJoined nowUpdated groupID memberPubkey memberX25519Pubkey displayName role s =
     (case gm_get (sv_groups s) (hex_encode groupID) of
        None \<Rightarrow> (s, Inl GErrGroupNotFound)
      | Some state \<Rightarrow>
          if \<not> isMemberWithRole state (sv_identitySignPub s) [Admin, Owner] then (s, Inl GErrNotAuthorized)
          else if IsMember memberPubkey state then (s, Inl GErrAlreadyMember)
          else (case ComputeHash P (c_group C) state of
              Inl e \<Rightarrow> (s, Inl (Wrap ''failed to compute state hash'' e))
            | Inr previousHash \<Rightarrow>
                (case GroupState_Sign P (c_group C) (sv_identitySignPriv s)
                    (added_state nowJoined nowUpdated previousHash memberPubkey memberX25519Pubkey displayName role state) of
                   (newState, Inl e) \<Rightarrow> (s, Inl (Wrap ''failed to sign new state'' e))
                 | (newState, Inr _) \<Rightarrow> (case storeGroup B C newState s of
                     (s1, Inl e) \<Rightarrow> (s1, Inl (Wrap ''failed to store updated group'' e))
                   | (s1, Inr _) \<Rightarrow>
                       (s1\<lparr>sv_groups := gm_set (hex_encode groupID) newState (sv_groups s1)\<rparr>, Inr newState)))))"

definition removed_state :: "u64 \<Rightarrow> bytes \<Rightarrow> bytes \<Rightarrow> GroupState \<Rightarrow> GroupState" where
  "removed_state now previousHash memberPubkey state =
     state\<lparr>gs_Epoch := gs_Epoch state + 1,
       gs_Members := filter (\<lambda>m. mb_Ed25519Pubkey m \<noteq> memberPubkey) (gs_Members state),
       gs_UpdatedAt := now, gs_StateSignature := [], gs_PreviousStateHash := previousHash\<rparr>"

text \<open>\<open>make([]GroupMember, 0, len(state.Members)-1)\<close> panics on a state without members; a caller that
  passed the role check is a member, so the capacity is never negative here.\<close>

definition Service_RemoveMember :: "prims \<Rightarrow> 'd badger \<Rightarrow> codecs \<Rightarrow> u64 \<Rightarrow> (nat \<Rightarrow> bytes res \<times> bytes res) \<Rightarrow> bytes \<Rightarrow> bytes \<Rightarrow>
    'd Service \<Rightarrow> ('d Service, GroupState) eff" where
  "Service_RemoveMember P B C now rnd groupID memberPubkey s =
     (case gm_get (sv_groups s) (hex_encode groupID) of
        None \<Rightarrow> (s, Inl GErrGroupNotFound)
      | Some state \<Rightarrow>
          if \<not> isMemberWithRole state (sv_identitySignPub s) [Admin, Owner] then (s, Inl GErrNotAuthorized)
          else (case ComputeHash P (c_group C) state of
              Inl e \<Rightarrow> (s, Inl (Wrap ''failed to compute state hash'' e))
            | Inr previousHash \<Rightarrow>
                (case GroupState_Sign P (c_group C) (sv_identitySignPriv s) (removed_state now previousHash memberPubkey state) of
                   (newState, Inl e) \<Rightarrow> (s, Inl (Wrap ''failed to sign new state'' e))
                 | (newState, Inr _) \<Rightarrow> (case storeGroup B C newState s of
                     (s1, Inl e) \<Rightarrow> (s1, Inl (Wrap ''failed to store updated group'' e))
                   | (s1, Inr _) \<Rightarrow>
                       (case rotateAllSenderKeys P B C rnd newState
                            (s1\<lparr>sv_groups := gm_set (hex_encode groupID) newState (sv_groups s1)\<rparr>) of
                          (s2, Inl e) \<Rightarrow> (s2, Inl (Wrap ''failed to rotate sender keys'' e))
                        | (s2, Inr _) \<Rightarrow> (s2, Inr newState))))))"

definition Service_GetGroup :: "bytes \<Rightarrow> 'd Service \<Rightarrow> GroupState res" where
  "Service_GetGroup groupID s =
     (case gm_get (sv_groups s) (hex_encode groupID) of None \<Rightarrow> Inl GErrGroupNotFound | Some state \<Rightarrow> Inr state)"

definition Service_ListGroups :: "'d Service \<Rightarrow> GroupState list" where
  "Service_ListGroups s = map snd (sv_groups s)"

definition GetSenderKeyDistributionMessage :: "bytes \<Rightarrow> bytes \<Rightarrow> 'd Service \<Rightarrow> SenderKeyDistribution res" where
  "GetSenderKeyDistributionMessage groupID memberPubkey s =
     (case gm_get (sv_senderKeys s) (hex_encode groupID) of
        None \<Rightarrow> Inl GErrGroupNotFound
      | Some senderKeyMap \<Rightarrow> (case gm_get senderKeyMap (hex_encode (sv_identitySignPub s)) of
          None \<Rightarrow> Inl GErrSenderKeyNotFound
        | Some senderKey \<Rightarrow> Inr (SenderKey_ToProto senderKey)))"

definition ImportSenderKey :: "SenderKeyDistribution \<Rightarrow> bytes \<Rightarrow> 'd Service \<Rightarrow> 'd Service" where
  "ImportSenderKey distribution signingKeyPriv s =
     (let senderKey = SenderKeyFromProto distribution signingKeyPriv
      in fst (put_sender_key (snk_GroupID senderKey) (snk_SenderPubkey senderKey) senderKey
           (initializeSenderKeysForGroup (snk_GroupID senderKey) s)))"

section \<open>Messages\<close>

definition EncryptGroupMessage :: "prims \<Rightarrow> 'd badger \<Rightarrow> codecs \<Rightarrow> bytes \<Rightarrow> bytes \<Rightarrow> 'd Service \<Rightarrow> ('d Service, GroupPayload) eff" where
  "EncryptGroupMessage P B C groupID plaintext s =
     (case gm_get (sv_senderKeys s) (hex_encode groupID) of
        None \<Rightarrow> (s, Inl GErrGroupNotFound)
      | Some senderKeyMap \<Rightarrow> (case gm_get senderKeyMap (hex_encode (sv_identitySignPub s)) of
          None \<Rightarrow> (s, Inl GErrSenderKeyNotFound)
        | Some senderKey0 \<Rightarrow>
            let (senderKey, msgKey) = DeriveMessageKey P senderKey0;
                s1 = fst (put_sender_key groupID (sv_identitySignPub s) senderKey s)
            in (case hkdf_sha256 P msgKey (str_bytes ''nonce'') [] 24 of
                Inl e \<Rightarrow> (s1, Inl (Wrap ''failed to generate nonce'' e))
              | Inr nonce \<Rightarrow> (case xchacha_new P msgKey of
                  Inl e \<Rightarrow> (s1, Inl (Wrap ''failed to create cipher'' e))
                | Inr _ \<Rightarrow>
                    let ciphertext = xchacha_seal P msgKey nonce plaintext groupID
                    in (case ed25519_Sign P (snk_SigningKeyPriv senderKey) (groupID @ ciphertext) of
                        Inl e \<Rightarrow> (s1, Inl e)
                      | Inr signature \<Rightarrow> (case storeSenderKey B C senderKey s1 of
                          (s2, Inl e) \<Rightarrow> (s2, Inl (Wrap ''failed to store updated sender key'' e))
                        | (s2, Inr _) \<Rightarrow> (s2, Inr \<lparr>gp_Epoch = snk_Epoch senderKey, gp_ChainIndex = snk_ChainIndex senderKey - 1,
                            gp_Ciphertext = Some ciphertext, gp_SenderGroupSignature = signature\<rparr>)))))))"

partial_function (option) advance_to :: "prims \<Rightarrow> u32 \<Rightarrow> SenderKey \<Rightarrow> SenderKey option" where
  "advance_to P target sk =
     (if snk_ChainIndex sk \<le> target then advance_to P target (fst (DeriveMessageKey P sk)) else Some sk)"

definition deriveMessageKeyAtIndex :: "prims \<Rightarrow> SenderKey \<Rightarrow> u32 \<Rightarrow> bytes res" where
  "deriveMessageKeyAtIndex P senderKey targetIndex =
     (if targetIndex \<noteq> snk_ChainIndex senderKey - 1 then Inl (Err ''out-of-order message key derivation not implemented'')
      else Inr (sha256 P (snk_ChainKey senderKey @ str_bytes ''bt-sk-msg'' @ be_bytes 4 targetIndex)))"

text \<open>What follows the advance of the chain: key, nonce, decryption and signature check.\<close>

definition open_payload :: "prims \<Rightarrow> bytes \<Rightarrow> SenderKey \<Rightarrow> GroupPayload \<Rightarrow> bytes res" where
  "open_payload P groupID senderKey payload =
     (case deriveMessageKeyAtIndex P senderKey (gp_ChainIndex payload) of
        Inl e \<Rightarrow> Inl (Wrap ''failed to derive message key at index'' e)
      | Inr msgKey \<Rightarrow> (case hkdf_sha256 P msgKey (str_bytes ''nonce'') (be_bytes 4 (gp_ChainIndex payload)) 24 of
          Inl e \<Rightarrow> Inl (Wrap ''failed to generate nonce'' e)
        | Inr nonce \<Rightarrow> (case xchacha_new P msgKey of
            Inl e \<Rightarrow> Inl (Wrap ''failed to create cipher'' e)
          | Inr _ \<Rightarrow>
              let ciphertext = slice (gp_Ciphertext payload)
              in if length ciphertext = 0 then Inl (Err ''no ciphertext in payload'')
                 else (case xchacha_open P msgKey nonce ciphertext groupID of
                     Inl e \<Rightarrow> Inl (Wrap ''decryption failed'' e)
                   | Inr plaintext \<Rightarrow> (case ed25519_Verify P (snk_SigningKey senderKey) (groupID @ ciphertext)
                         (gp_SenderGroupSignature payload) of
                       Inl e \<Rightarrow> Inl e
                     | Inr ok \<Rightarrow> if \<not> ok then Inl (Err ''signature verification failed'') else Inr plaintext)))))"

definition DecryptGroupMessage :: "prims \<Rightarrow> bytes \<Rightarrow> bytes \<Rightarrow> GroupPayload \<Rightarrow> 'd Service \<Rightarrow> ('d Service, bytes) eff option" where
  "DecryptGroupMessage P groupID senderPubkey payload s =
     (case gm_get (sv_senderKeys s) (hex_encode groupID) of
        None \<Rightarrow> Some (s, Inl GErrGroupNotFound)
      | Some senderKeyMap \<Rightarrow> (case gm_get senderKeyMap (hex_encode senderPubkey) of
          None \<Rightarrow> Some (s, Inl GErrSenderKeyNotFound)
        | Some senderKey0 \<Rightarrow>
            if gp_Epoch payload \<noteq> snk_Epoch senderKey0 then Some (s, Inl GErrInvalidEpoch)
            else if gp_ChainIndex payload < snk_ChainIndex senderKey0
            then Some (s, Inl (Err ''skipped message key not implemented''))
            else (case advance_to P (gp_ChainIndex payload) senderKey0 of
                None \<Rightarrow> None
              | Some senderKey \<Rightarrow>
                  Some (fst (put_sender_key groupID senderPubkey senderKey s), open_payload P groupID senderKey payload))))"

section \<open>Lemmas on storage and caches\<close>

lemma log8_ok: "8 \<le> length i \<Longrightarrow> snd r = Inr () \<Longrightarrow> log8 i r = r"
  by (cases r) (simp add: log8_def)

lemma storeGroup_ok:
  assumes "kv_ok B view" "codecs_ok C" "8 \<le> length (gs_GroupID state)"
  obtains d b where "storeGroup B C state s = (s\<lparr>sv_storage := d\<rparr>, Inr ())"
    "view d = (view (sv_storage s))(groupKey (gs_GroupID state) \<mapsto> b)" "unmarshal (c_group C) b = Inr (GroupState_ToProto state)"
proof -
  let ?r = "store_msg B (c_group C) ''failed to marshal group state'' ''failed to store group''
      (groupKey (gs_GroupID state)) (GroupState_ToProto state) (sv_storage s)"
  obtain b where b: "unmarshal (c_group C) b = Inr (GroupState_ToProto state)"
    "view (fst ?r) = (view (sv_storage s))(groupKey (gs_GroupID state) \<mapsto> b)" "snd ?r = Inr ()"
    by (rule store_msg_view[OF assms(1) codecs_okD(4)[OF assms(2)]])
  have id: "pg_GroupId (GroupState_ToProto state) = gs_GroupID state" by (simp add: GroupState_ToProto_def)
  have "storeGroup B C state s = (s\<lparr>sv_storage := fst ?r\<rparr>, Inr ())"
    using assms(3) b(3) by (simp add: storeGroup_def Badger_SaveGroup_def id log8_ok case_prod_beta)
  then show ?thesis using that b by blast
qed

lemma storeSenderKey_ok:
  assumes "kv_ok B view" "codecs_ok C" "8 \<le> length (snk_GroupID sk)" "8 \<le> length (snk_SenderPubkey sk)"
  obtains d b where "storeSenderKey B C sk s = (s\<lparr>sv_storage := d\<rparr>, Inr ())"
    "view d = (view (sv_storage s))(senderKeyKey (snk_GroupID sk) (snk_SenderPubkey sk) \<mapsto> b)"
    "unmarshal (c_sender C) b = Inr (SenderKey_ToProto sk)"
proof -
  let ?k = "senderKeyKey (snk_GroupID sk) (snk_SenderPubkey sk)"
  let ?r = "store_msg B (c_sender C) ''failed to marshal sender key'' ''failed to store sender key'' ?k (SenderKey_ToProto sk) (sv_storage s)"
  obtain b where b: "unmarshal (c_sender C) b = Inr (SenderKey_ToProto sk)"
    "view (fst ?r) = (view (sv_storage s))(?k \<mapsto> b)" "snd ?r = Inr ()"
    by (rule store_msg_view[OF assms(1) codecs_okD(5)[OF assms(2)]])
  have id: "skd_GroupId (SenderKey_ToProto sk) = snk_GroupID sk" "skd_SenderPub (SenderKey_ToProto sk) = snk_SenderPubkey sk"
    by (simp_all add: SenderKey_ToProto_def)
  have "storeSenderKey B C sk s = (s\<lparr>sv_storage := fst ?r\<rparr>, Inr ())"
    using assms(3,4) b(3) by (simp add: storeSenderKey_def Badger_SaveSenderKey_def id log8_ok case_prod_beta)
  then show ?thesis using that b by blast
qed

lemma sender_put [simp]:
  "snd (put_sender_key g k sk s) = Inr () \<Longrightarrow>
   sender_key_of g' k' (fst (put_sender_key g k sk s)) = (if g' = g \<and> k' = k then Some sk else sender_key_of g' k' s)"
  by (auto simp: put_sender_key_def sender_key_of_def split: option.splits)

lemma put_sender_ok: "gm_get (sv_senderKeys s) (hex_encode g) \<noteq> None \<Longrightarrow> snd (put_sender_key g k sk s) = Inr ()"
  by (auto simp: put_sender_key_def)

lemma put_sender_frame [simp]:
  "sv_storage (fst (put_sender_key g k sk s)) = sv_storage s" "sv_groups (fst (put_sender_key g k sk s)) = sv_groups s"
  "sv_identitySignPub (fst (put_sender_key g k sk s)) = sv_identitySignPub s"
  "sv_identitySignPriv (fst (put_sender_key g k sk s)) = sv_identitySignPriv s"
  "gm_get (sv_senderKeys s) h \<noteq> None \<Longrightarrow> gm_get (sv_senderKeys (fst (put_sender_key g k sk s))) h \<noteq> None"
  by (auto simp: put_sender_key_def split: option.split)

lemma init_frame [simp]:
  "sv_storage (initializeSenderKeysForGroup g s) = sv_storage s" "sv_groups (initializeSenderKeysForGroup g s) = sv_groups s"
  "gm_get (sv_senderKeys (initializeSenderKeysForGroup g s)) (hex_encode g) \<noteq> None"
  "sender_key_of g' k (initializeSenderKeysForGroup g s) = sender_key_of g' k s"
  by (auto simp: initializeSenderKeysForGroup_def sender_key_of_def split: option.split)

lemma sender_key_of_storage [simp]:
  "sender_key_of g k (s\<lparr>sv_storage := d\<rparr>) = sender_key_of g k s" "sender_key_of g k (s\<lparr>sv_groups := m\<rparr>) = sender_key_of g k s"
  by (simp_all add: sender_key_of_def)

lemma role_is_admin: "isMemberWithRole state pk [Admin, Owner] \<Longrightarrow> updater_is_admin pk (gs_Members state)"
  unfolding isMemberWithRole_def updater_is_admin_def
  by (induction "gs_Members state" arbitrary: state) (auto simp: list_ex_iff find_Some_iff split: option.splits)

section \<open>Key rotation\<close>

text \<open>A member's cached sender key after a rotation: of the new epoch, with a newly drawn chain key.\<close>

definition fresh_key :: "(nat \<Rightarrow> bytes res \<times> bytes res) \<Rightarrow> GroupState \<Rightarrow> bytes \<Rightarrow> 'd Service \<Rightarrow> bool" where
  "fresh_key rnd state k s \<longleftrightarrow> (\<exists>sk j. sender_key_of (gs_GroupID state) k s = Some sk \<and>
     snk_Epoch sk = gs_Epoch state \<and> fst (rnd j) = Inr (snk_ChainKey sk))"

lemma rotate_step:
  assumes "kv_ok B view" "codecs_ok C" "rnd i = (Inr ck, Inr priv)" "8 \<le> length (gs_GroupID state)"
    "gm_get (sv_senderKeys s) (hex_encode (gs_GroupID state)) \<noteq> None" "8 \<le> length (mb_Ed25519Pubkey m)"
  obtains s2 where "rotate_loop P B C rnd i state (m # ms) s = rotate_loop P B C rnd (Suc i) state ms s2"
    "sv_groups s2 = sv_groups s" "gm_get (sv_senderKeys s2) (hex_encode (gs_GroupID state)) \<noteq> None"
    "fresh_key rnd state (mb_Ed25519Pubkey m) s2"
    "\<And>k. k \<noteq> mb_Ed25519Pubkey m \<Longrightarrow> sender_key_of (gs_GroupID state) k s2 = sender_key_of (gs_GroupID state) k s"
proof -
  let ?g = "gs_GroupID state" and ?k = "mb_Ed25519Pubkey m"
  define sk where "sk = (let g = \<lparr>snk_GroupID = ?g, snk_SenderPubkey = ?k, snk_ChainKey = ck, snk_SigningKey = ed_public P priv,
      snk_SigningKeyPriv = priv, snk_ChainIndex = 0, snk_Epoch = gs_Epoch state\<rparr>
    in case sender_key_of ?g ?k s of None \<Rightarrow> g | Some mk \<Rightarrow> g\<lparr>snk_ChainIndex := snk_ChainIndex mk\<rparr>)"
  have sk: "snk_GroupID sk = ?g" "snk_SenderPubkey sk = ?k" "snk_ChainKey sk = ck" "snk_Epoch sk = gs_Epoch state"
    by (simp_all add: sk_def Let_def split: option.split)
  define s1 where "s1 = fst (put_sender_key ?g ?k sk s)"
  have ok: "snd (put_sender_key ?g ?k sk s) = Inr ()" by (rule put_sender_ok[OF assms(5)])
  then have put: "put_sender_key ?g ?k sk s = (s1, Inr ())" by (simp add: s1_def prod_eq_iff)
  obtain d where st: "storeSenderKey B C sk s1 = (s1\<lparr>sv_storage := d\<rparr>, Inr ())"
    using storeSenderKey_ok[OF assms(1,2), of sk s1] assms(4,6) sk by auto
  have "rotate_loop P B C rnd i state (m # ms) s = rotate_loop P B C rnd (Suc i) state ms (s1\<lparr>sv_storage := d\<rparr>)"
    using put st by (simp add: GenerateSenderKey_def assms(3) sk_def Let_def split: option.splits)
  moreover have "fresh_key rnd state ?k (s1\<lparr>sv_storage := d\<rparr>)"
    using ok sk assms(3) by (auto simp: fresh_key_def s1_def intro!: exI[of _ i])
  ultimately show ?thesis
    using that[of "s1\<lparr>sv_storage := d\<rparr>"] ok put_sender_frame(5)[OF assms(5), of ?g ?k sk] by (simp add: s1_def)
qed

lemma rotate_loop_ok:
  assumes "kv_ok B view" "codecs_ok C" "\<forall>i. \<exists>ck priv. rnd i = (Inr ck, Inr priv)" "8 \<le> length (gs_GroupID state)"
  shows "gm_get (sv_senderKeys s) (hex_encode (gs_GroupID state)) \<noteq> None \<Longrightarrow> \<forall>m\<in>set ms. 8 \<le> length (mb_Ed25519Pubkey m) \<Longrightarrow>
    \<exists>s'. rotate_loop P B C rnd i state ms s = (s', Inr ()) \<and> sv_groups s' = sv_groups s \<and>
      (\<forall>k\<in>mb_Ed25519Pubkey ` set ms. fresh_key rnd state k s') \<and>
      (\<forall>k. k \<notin> mb_Ed25519Pubkey ` set ms \<longrightarrow> sender_key_of (gs_GroupID state) k s' = sender_key_of (gs_GroupID state) k s)"
proof (induction ms arbitrary: i s)
  case (Cons m ms)
  let ?g = "gs_GroupID state" and ?k = "mb_Ed25519Pubkey m"
  obtain ck priv where r: "rnd i = (Inr ck, Inr priv)" using assms(3) by blast
  have pm: "\<forall>m\<in>set ms. 8 \<le> length (mb_Ed25519Pubkey m)" and km: "8 \<le> length ?k" using Cons.prems(2) by auto
  obtain s2 where s2: "rotate_loop P B C rnd i state (m # ms) s = rotate_loop P B C rnd (Suc i) state ms s2"
    "sv_groups s2 = sv_groups s" "gm_get (sv_senderKeys s2) (hex_encode ?g) \<noteq> None" "fresh_key rnd state ?k s2"
    "\<And>k. k \<noteq> ?k \<Longrightarrow> sender_key_of ?g k s2 = sender_key_of ?g k s"
    by (rule rotate_step[where rnd = rnd and i = i and P = P and ms = ms, OF assms(1,2) r assms(4) Cons.prems(1) km]) blast
  obtain s' where s': "rotate_loop P B C rnd (Suc i) state ms s2 = (s', Inr ())" "sv_groups s' = sv_groups s2"
    "\<forall>k\<in>mb_Ed25519Pubkey ` set ms. fresh_key rnd state k s'"
    "\<And>k. k \<notin> mb_Ed25519Pubkey ` set ms \<Longrightarrow> sender_key_of ?g k s' = sender_key_of ?g k s2"
    using Cons.IH[OF s2(3) pm, of "Suc i"] by blast
  have "fresh_key rnd state ?k s'" if "?k \<notin> mb_Ed25519Pubkey ` set ms"
    using s'(4)[OF that] s2(4) by (simp add: fresh_key_def)
  then have "\<forall>k\<in>mb_Ed25519Pubkey ` set (m # ms). fresh_key rnd state k s'"
    using s'(3) by (metis image_insert insertE list.simps(15))
  moreover have "\<forall>k. k \<notin> mb_Ed25519Pubkey ` set (m # ms) \<longrightarrow> sender_key_of ?g k s' = sender_key_of ?g k s"
    using s'(4) s2(5) by auto
  ultimately show ?case using s2(1,2) s'(1,2) by auto
qed simp

section \<open>Advancing a sender chain\<close>

lemma advance_to_returns:
  "target \<noteq> - 1 \<Longrightarrow> unat (target + 1) = unat (snk_ChainIndex sk) + n \<Longrightarrow> advance_to P target sk = Some (derive_n P n sk)"
proof (induction n arbitrary: sk)
  case 0
  have "unat (target + 1) = Suc (unat target)" using 0(1) by (metis add.commute unatSuc add_eq_0_iff)
  then have "\<not> snk_ChainIndex sk \<le> target" using 0(2) by (simp add: word_le_nat_alt)
  then show ?case by (simp add: advance_to.simps)
next
  case (Suc n)
  have t: "unat (target + 1) = Suc (unat target)" using Suc.prems(1) by (metis add.commute unatSuc add_eq_0_iff)
  then have le: "snk_ChainIndex sk \<le> target" using Suc.prems(2) by (simp add: word_le_nat_alt)
  have "snk_ChainIndex sk < target + 1" using t le by (simp add: u_less_unat word_le_nat_alt)
  then have "unat (snk_ChainIndex sk + 1) = Suc (unat (snk_ChainIndex sk))" by (rule unat_Suc_less)
  then have "advance_to P target (fst (DeriveMessageKey P sk)) = Some (derive_n P n (fst (DeriveMessageKey P sk)))"
    using Suc.prems by (intro Suc.IH) (simp_all add: DeriveMessageKey_def)
  then show ?case using le by (simp add: advance_to.simps[of P target sk])
qed

lemma advance_to_diverges_aux:
  assumes "advance_to P target sk = Some sk'"
  shows "target \<noteq> - 1"
proof -
  have "snd (fst ((P, target), sk)) \<noteq> - 1"
  proof (rule advance_to.raw_induct[of "\<lambda>x y. snd (fst x) \<noteq> - 1", OF _ assms])
    fix adv :: "prims \<Rightarrow> u32 \<Rightarrow> SenderKey \<Rightarrow> SenderKey option" and P target sk sk'
    assume ih: "\<And>P target sk sk'. adv P target sk = Some sk' \<Longrightarrow> snd (fst ((P, target), sk)) \<noteq> - 1"
      and "(if snk_ChainIndex sk \<le> target then adv P target (fst (DeriveMessageKey P sk)) else Some sk) = Some sk'"
    then show "snd (fst ((P, target), sk)) \<noteq> - 1"
      using ih[of P target] by (auto split: if_splits)
  qed
  then show ?thesis by simp
qed

lemma advance_to_diverges: "advance_to P (- 1) sk = None"
  using advance_to_diverges_aux[of P "- 1" sk] by (cases "advance_to P (- 1) sk") auto

section \<open>Properties\<close>

lemma badger_group_read:
  assumes "kv_ok B view" "view d (groupKey g) = Some b" "unmarshal (c_group C) b = Inr p"
  shows "Badger_GetGroup B C g d = Inr p"
  using assms by (simp add: Badger_GetGroup_def load_msg_kv[OF assms(1)])

lemma badger_sender_read:
  assumes "kv_ok B view" "view d (senderKeyKey g k) = Some b" "unmarshal (c_sender C) b = Inr p"
  shows "Badger_GetSenderKey B C g k d = Inr p"
  using assms by (simp add: Badger_GetSenderKey_def load_msg_kv[OF assms(1)])

lemma group_sender_keys_differ [simp]: "groupKey g \<noteq> senderKeyKey g' k"
  using slot_key_kind[of "SGroup g" "SSender g' k"] by auto

text \<open>The identity of a service: a 64-byte private key and its public key.\<close>

definition identity_ok :: "prims \<Rightarrow> 'd Service \<Rightarrow> bool" where
  "identity_ok P s \<longleftrightarrow> length (sv_identitySignPriv s) = 64 \<and> sv_identitySignPub s = ed_public P (sv_identitySignPriv s)"

lemma identity_pub: "sig_correct P \<Longrightarrow> identity_ok P s \<Longrightarrow> length (sv_identitySignPub s) = 32"
  by (simp add: identity_ok_def sig_correctD)

text \<open>Creating a group: with working storage and random bytes and admissible name and description,
  \<open>CreateGroup\<close> succeeds; the new group is in the cache and, as the same state, in the database; its
  signature verifies under the creator's key; its only member is the creator as owner; and the
  creator's sender key, at index 0, is in the cache and in the database.\<close>

theorem CreateGroup_correct:
  assumes kv: "kv_ok B view" "codecs_ok C" and sig: "sig_correct P" "identity_ok P s"
    and g: "length gid = 32" and n: "length name \<le> 128" "length desc \<le> 512"
  shows "\<exists>s' state. CreateGroup P B C (Inr gid) now (Inr ck) (Inr priv) name desc typ s = (s', Inr state)
    \<and> Service_GetGroup gid s' = Inr state
    \<and> Badger_GetGroup B C gid (sv_storage s') = Inr (GroupState_ToProto state)
    \<and> VerifySignature P (c_group C) (sv_identitySignPub s) state = Inr True
    \<and> map mb_Ed25519Pubkey (gs_Members state) = [sv_identitySignPub s] \<and> GetMemberRole (sv_identitySignPub s) state = Owner
    \<and> (\<exists>sk. sender_key_of gid (sv_identitySignPub s) s' = Some sk \<and> snk_ChainKey sk = ck \<and> snk_ChainIndex sk = 0
        \<and> Badger_GetSenderKey B C gid (sv_identitySignPub s) (sv_storage s') = Inr (SenderKey_ToProto sk))"
proof -
  let ?pub = "sv_identitySignPub s"
  have pub: "length ?pub = 32" by (rule identity_pub[OF sig])
  define x where "x = (if length (sv_identityX25519Pub s) = 0 then replicate 32 0 else sv_identityX25519Pub s)"
  obtain st0 where st0: "NewGroupState (Inr gid) now name desc typ ?pub x = Inr st0" "gs_GroupID st0 = gid"
    "gs_Members st0 = [\<lparr>mb_Ed25519Pubkey = ?pub, mb_X25519Pubkey = x, mb_DisplayName = ''Creator'', mb_JoinedAt = now, mb_Role = Owner\<rparr>]"
    using n by (simp add: NewGroupState_def MaxGroupNameLength_def MaxGroupDescriptionLength_def)
  obtain data sg where sgn: "Serialize (c_group C) (unsigned_copy st0) = Inr data"
    "GroupState_Sign P (c_group C) (sv_identitySignPriv s) st0 = (st0\<lparr>gs_StateSignature := sg\<rparr>, Inr ())"
    "length sg = 64" "ed25519_Verify P (ed_public P (sv_identitySignPriv s)) data sg = Inr True"
    using Sign_spec[OF codecs_okD(4)[OF kv(2)] sig(1), of "sv_identitySignPriv s" st0] sig(2) by (auto simp: identity_ok_def)
  define st where "st = st0\<lparr>gs_StateSignature := sg\<rparr>"
  have gid: "gs_GroupID st = gid" by (simp add: st_def st0)
  have v: "VerifySignature P (c_group C) ?pub st = Inr True"
    using sgn sig(2) by (auto simp: st_def VerifySignature_def identity_ok_def)
  obtain d b where sg1: "storeGroup B C st s = (s\<lparr>sv_storage := d\<rparr>, Inr ())"
    "view d = (view (sv_storage s))(groupKey gid \<mapsto> b)" "unmarshal (c_group C) b = Inr (GroupState_ToProto st)"
    using storeGroup_ok[OF kv, of st s] g gid by auto
  define sk where "sk = \<lparr>snk_GroupID = gid, snk_SenderPubkey = ?pub, snk_ChainKey = ck, snk_SigningKey = ed_public P priv,
      snk_SigningKeyPriv = priv, snk_ChainIndex = 0, snk_Epoch = 1\<rparr>"
  define s2 where "s2 = fst (put_sender_key gid ?pub sk (initializeSenderKeysForGroup gid (s\<lparr>sv_storage := d\<rparr>)))"
  have put: "snd (put_sender_key gid ?pub sk (initializeSenderKeysForGroup gid (s\<lparr>sv_storage := d\<rparr>))) = Inr ()"
    by (rule put_sender_ok) simp
  obtain d2 b2 where sk2: "storeSenderKey B C sk s2 = (s2\<lparr>sv_storage := d2\<rparr>, Inr ())"
    "view d2 = (view d)(senderKeyKey gid ?pub \<mapsto> b2)" "unmarshal (c_sender C) b2 = Inr (SenderKey_ToProto sk)"
    using storeSenderKey_ok[OF kv, of sk s2] g pub by (auto simp: sk_def s2_def)
  define s' where "s' = s2\<lparr>sv_storage := d2, sv_groups := gm_set (hex_encode gid) st (sv_groups s2)\<rparr>"
  have run: "CreateGroup P B C (Inr gid) now (Inr ck) (Inr priv) name desc typ s = (s', Inr st)"
    using st0(1) sgn(2) sg1(1) sk2(1)
    by (simp add: CreateGroup_def x_def st_def[symmetric] gid GenerateSenderKey_def sk_def[symmetric] s2_def[symmetric] s'_def Let_def)
  have "sender_key_of gid ?pub s' = Some sk" using put by (simp add: s'_def s2_def)
  moreover have "Badger_GetSenderKey B C gid ?pub (sv_storage s') = Inr (SenderKey_ToProto sk)"
    using sk2(2,3) by (intro badger_sender_read[OF kv(1)]) (auto simp: s'_def)
  moreover have "Badger_GetGroup B C gid (sv_storage s') = Inr (GroupState_ToProto st)"
    using sg1(2,3) sk2(2) by (intro badger_group_read[OF kv(1)]) (auto simp: s'_def)
  ultimately show ?thesis using run v st0(3)
    by (intro exI[of _ s'] exI[of _ st] conjI) (auto simp: Service_GetGroup_def s'_def st_def GetMemberRole_def sk_def)
qed

definition example_service :: "(bytes, bytes) gomap Service" where
  "example_service = NewService [] (replicate 32 5) (replicate 64 5) []"

lemma example_identity: "identity_ok toy example_service"
  by (simp add: identity_ok_def example_service_def NewService_def)

theorem CreateGroup_correct_witness:
  "\<exists>s' state. CreateGroup toy alist_db ref_codecs (Inr (replicate 32 1)) 0 (Inr (replicate 32 2)) (Inr (replicate 64 3))
      ''g'' '''' PrivateGroup example_service = (s', Inr state) \<and> Service_GetGroup (replicate 32 1) s' = Inr state"
  using CreateGroup_correct[OF alist_db_ok ref_codecs_ok toy_sig example_identity, of "replicate 32 1" "''g''" "''''"]
  by simp blast

text \<open>The update message that announces a new state.\<close>

definition update_of :: "bytes \<Rightarrow> GroupState \<Rightarrow> GroupStateUpdate" where
  "update_of updater new = \<lparr>gu_NewState = new, gu_PreviousStateHash = gs_PreviousStateHash new,
     gu_UpdaterPubkey = updater, gu_UpdaterSignature = gs_StateSignature new\<rparr>"

lemma signed_update_accepted:
  assumes "codec_ok K" "sig_correct P" "identity_ok P s" "ComputeHash P K st = Inr (gs_PreviousStateHash new)"
    "gs_Epoch st < gs_Epoch new" "isMemberWithRole st (sv_identitySignPub s) [Admin, Owner]"
  obtains sg where "GroupState_Sign P K (sv_identitySignPriv s) new = (new\<lparr>gs_StateSignature := sg\<rparr>, Inr ())"
    "ValidateStateUpdate P K (update_of (sv_identitySignPub s) (new\<lparr>gs_StateSignature := sg\<rparr>)) st = Inr ()"
proof -
  have priv: "length (sv_identitySignPriv s) = 64" "sv_identitySignPub s = ed_public P (sv_identitySignPriv s)"
    using assms(3) by (simp_all add: identity_ok_def)
  obtain data sg where sg: "Serialize K (unsigned_copy new) = Inr data"
    "GroupState_Sign P K (sv_identitySignPriv s) new = (new\<lparr>gs_StateSignature := sg\<rparr>, Inr ())"
    "ed25519_Verify P (ed_public P (sv_identitySignPriv s)) data sg = Inr True" by (rule Sign_spec[OF assms(1,2) priv(1)])
  have "ValidateStateUpdate P K (update_of (sv_identitySignPub s) (new\<lparr>gs_StateSignature := sg\<rparr>)) st = Inr ()"
    using assms(4,5) sg priv(2) role_is_admin[OF assms(6)] by (simp add: ValidateStateUpdate_def update_of_def)
  then show ?thesis using that sg(2) by blast
qed

lemma epoch_succ: "gs_Epoch st \<noteq> - 1 \<Longrightarrow> gs_Epoch st < gs_Epoch st + 1"
  by (metis add.commute add_eq_0_iff lessI u_less_unat unatSuc)

text \<open>C26. Adding a member: an admin or owner who adds someone not yet in the group succeeds; the new
  state has the old members and the new one, is in the cache and in the database, and the update made
  from it is accepted by \<open>ValidateStateUpdate\<close> at every member that holds the old state.\<close>

theorem AddMember_accepted:
  assumes kv: "kv_ok B view" "codecs_ok C" and sig: "sig_correct P" "identity_ok P s"
    and st: "gm_get (sv_groups s) (hex_encode gid) = Some st" "gs_GroupID st = gid" "8 \<le> length gid"
    and role: "isMemberWithRole st (sv_identitySignPub s) [Admin, Owner]" "\<not> IsMember mk st" "gs_Epoch st \<noteq> - 1"
  shows "\<exists>s' new. Service_AddMember P B C t1 t2 gid mk mx dn r s = (s', Inr new)
    \<and> ValidateStateUpdate P (c_group C) (update_of (sv_identitySignPub s) new) st = Inr ()
    \<and> Service_GetGroup gid s' = Inr new \<and> Badger_GetGroup B C gid (sv_storage s') = Inr (GroupState_ToProto new)
    \<and> member_keys new = member_keys st @ [mk] \<and> gs_Epoch new = gs_Epoch st + 1"
proof -
  obtain h where h: "ComputeHash P (c_group C) st = Inr h" using ComputeHash_ok[OF codecs_okD(4)[OF kv(2)]] by blast
  let ?n = "added_state t1 t2 h mk mx dn r st"
  obtain sg where sg: "GroupState_Sign P (c_group C) (sv_identitySignPriv s) ?n = (?n\<lparr>gs_StateSignature := sg\<rparr>, Inr ())"
    "ValidateStateUpdate P (c_group C) (update_of (sv_identitySignPub s) (?n\<lparr>gs_StateSignature := sg\<rparr>)) st = Inr ()"
    by (rule signed_update_accepted[OF codecs_okD(4)[OF kv(2)] sig _ _ role(1), of ?n])
      (simp_all add: added_state_def h epoch_succ[OF role(3)])
  let ?new = "?n\<lparr>gs_StateSignature := sg\<rparr>"
  have gid: "gs_GroupID ?new = gid" by (simp add: added_state_def st)
  obtain d b where d: "storeGroup B C ?new s = (s\<lparr>sv_storage := d\<rparr>, Inr ())"
    "view d = (view (sv_storage s))(groupKey gid \<mapsto> b)" "unmarshal (c_group C) b = Inr (GroupState_ToProto ?new)"
    using storeGroup_ok[OF kv, of ?new s] gid st(3) by metis
  let ?s' = "s\<lparr>sv_storage := d, sv_groups := gm_set (hex_encode gid) ?new (sv_groups s)\<rparr>"
  have "Service_AddMember P B C t1 t2 gid mk mx dn r s = (?s', Inr ?new)"
    using st role h sg(1) d(1) by (simp add: Service_AddMember_def)
  moreover have "Badger_GetGroup B C gid (sv_storage ?s') = Inr (GroupState_ToProto ?new)"
    using d(2,3) by (intro badger_group_read[OF kv(1)]) simp_all
  moreover have "member_keys ?new = member_keys st @ [mk]" "gs_Epoch ?new = gs_Epoch st + 1"
    by (simp_all add: member_keys_def added_state_def)
  ultimately show ?thesis using sg(2) by (intro exI[of _ ?s'] exI[of _ ?new] conjI) (simp_all add: Service_GetGroup_def)
qed

definition example_cached :: "(bytes, bytes) gomap Service" where
  "example_cached = example_service\<lparr>sv_groups := [(hex_encode (replicate 32 1), example_state 1)],
     sv_senderKeys := [(hex_encode (replicate 32 1), [])]\<rparr>"

lemma example_cached_facts:
  "identity_ok toy example_cached" "gm_get (sv_groups example_cached) (hex_encode (replicate 32 1)) = Some (example_state 1)"
  "gs_GroupID (example_state 1) = replicate 32 1" "isMemberWithRole (example_state 1) (sv_identitySignPub example_cached) [Admin, Owner]"
  "gs_Epoch (example_state 1) \<noteq> - 1" "8 \<le> length (replicate 32 (1 :: byte))"
  "gm_get (sv_senderKeys example_cached) (hex_encode (replicate 32 1)) = Some []"
  by (simp_all add: example_cached_def example_service_def NewService_def identity_ok_def example_state_def gm_get_def
      isMemberWithRole_def)

theorem AddMember_accepted_witness:
  "\<exists>s' new. Service_AddMember toy alist_db ref_codecs 1 1 (replicate 32 1) [8] [9] ''bob'' Member example_cached = (s', Inr new)
    \<and> member_keys new = [replicate 32 5, [8]]"
proof -
  have "\<not> IsMember [8] (example_state 1)" by (simp add: IsMember_def example_state_def numeral_nat)
  moreover have "member_keys (example_state 1) = [replicate 32 5]" by (simp add: member_keys_def example_state_def)
  ultimately show ?thesis
    using AddMember_accepted[OF alist_db_ok ref_codecs_ok toy_sig example_cached_facts(1,2,3,6,4) _ example_cached_facts(5)]
    by fastforce
qed

text \<open>C27. Removing a member: an admin or owner who removes a key succeeds, whoever holds it, the creator
  included; no member with that key is left, the update is accepted by the others, and every
  remaining member has a fresh sender key of the new epoch, while the removed member's cached sender
  key stays as it was, so messages under it are still decrypted.\<close>

theorem RemoveMember_rotates:
  assumes kv: "kv_ok B view" "codecs_ok C" and sig: "sig_correct P" "identity_ok P s"
    and st: "gm_get (sv_groups s) (hex_encode gid) = Some st" "gs_GroupID st = gid" "8 \<le> length gid"
    and role: "isMemberWithRole st (sv_identitySignPub s) [Admin, Owner]" "gs_Epoch st \<noteq> - 1"
    and keys: "gm_get (sv_senderKeys s) (hex_encode gid) \<noteq> None" "\<forall>m\<in>set (gs_Members st). 8 \<le> length (mb_Ed25519Pubkey m)"
      "\<forall>i. \<exists>ck priv. rnd i = (Inr ck, Inr priv)"
  shows "\<exists>s' new. Service_RemoveMember P B C now rnd gid mk s = (s', Inr new)
    \<and> Service_GetGroup gid s' = Inr new \<and> member_keys new = filter (\<lambda>k. k \<noteq> mk) (member_keys st)
    \<and> ValidateStateUpdate P (c_group C) (update_of (sv_identitySignPub s) new) st = Inr ()
    \<and> (\<forall>k\<in>set (member_keys new). fresh_key rnd new k s')
    \<and> sender_key_of gid mk s' = sender_key_of gid mk s"
proof -
  obtain h where h: "ComputeHash P (c_group C) st = Inr h" using ComputeHash_ok[OF codecs_okD(4)[OF kv(2)]] by blast
  let ?n = "removed_state now h mk st"
  obtain sg where sg: "GroupState_Sign P (c_group C) (sv_identitySignPriv s) ?n = (?n\<lparr>gs_StateSignature := sg\<rparr>, Inr ())"
    "ValidateStateUpdate P (c_group C) (update_of (sv_identitySignPub s) (?n\<lparr>gs_StateSignature := sg\<rparr>)) st = Inr ()"
    by (rule signed_update_accepted[OF codecs_okD(4)[OF kv(2)] sig _ _ role(1), of ?n])
      (simp_all add: removed_state_def h epoch_succ[OF role(2)])
  define new where "new = ?n\<lparr>gs_StateSignature := sg\<rparr>"
  have new: "gs_GroupID new = gid" "gs_Members new = filter (\<lambda>m. mb_Ed25519Pubkey m \<noteq> mk) (gs_Members st)"
    by (simp_all add: new_def removed_state_def st)
  have mem: "member_keys new = filter (\<lambda>k. k \<noteq> mk) (member_keys st)"
    by (simp add: member_keys_def new(2) filter_map comp_def)
  obtain d where d: "storeGroup B C new s = (s\<lparr>sv_storage := d\<rparr>, Inr ())"
    using storeGroup_ok[OF kv, of new s] new(1) st(3) by metis
  let ?s1 = "s\<lparr>sv_storage := d, sv_groups := gm_set (hex_encode gid) new (sv_groups s)\<rparr>"
  have len: "8 \<le> length (gs_GroupID new)" using new(1) st(3) by simp
  have pre: "gm_get (sv_senderKeys ?s1) (hex_encode (gs_GroupID new)) \<noteq> None"
    "\<forall>m\<in>set (gs_Members new). 8 \<le> length (mb_Ed25519Pubkey m)" using keys new by auto
  obtain s' where s': "rotate_loop P B C rnd 0 new (gs_Members new) ?s1 = (s', Inr ())" "sv_groups s' = sv_groups ?s1"
    "\<forall>k\<in>mb_Ed25519Pubkey ` set (gs_Members new). fresh_key rnd new k s'"
    "\<forall>k. k \<notin> mb_Ed25519Pubkey ` set (gs_Members new) \<longrightarrow> sender_key_of (gs_GroupID new) k s' = sender_key_of (gs_GroupID new) k ?s1"
    using rotate_loop_ok[OF kv keys(3) len pre] by blast
  have "Service_RemoveMember P B C now rnd gid mk s = (s', Inr new)"
    using st role h sg(1) d s'(1) by (simp add: Service_RemoveMember_def rotateAllSenderKeys_def new_def)
  moreover have "mk \<notin> mb_Ed25519Pubkey ` set (gs_Members new)" by (auto simp: new(2))
  then have "sender_key_of gid mk s' = sender_key_of gid mk s" using s'(4) new(1) by simp
  moreover have "\<forall>k\<in>set (member_keys new). fresh_key rnd new k s'" using s'(3) by (simp add: member_keys_def)
  ultimately show ?thesis using sg(2) mem s'(2)
    by (intro exI[of _ s'] exI[of _ new] conjI) (simp_all add: Service_GetGroup_def new_def[symmetric])
qed

theorem RemoveMember_rotates_witness:
  "\<exists>s' new. Service_RemoveMember toy alist_db ref_codecs 1 (\<lambda>i. (Inr (replicate 32 6), Inr (replicate 64 7))) (replicate 32 1)
      (replicate 32 5) example_cached = (s', Inr new) \<and> member_keys new = []"
proof -
  have m: "\<forall>m\<in>set (gs_Members (example_state 1)). 8 \<le> length (mb_Ed25519Pubkey m)"
    "member_keys (example_state 1) = [replicate 32 5]" by (simp_all add: example_state_def member_keys_def)
  have k: "gm_get (sv_senderKeys example_cached) (hex_encode (replicate 32 1)) \<noteq> None" by (simp add: example_cached_facts)
  have r: "\<forall>i. \<exists>ck priv. (\<lambda>i :: nat. (Inr (replicate 32 6), Inr (replicate 64 7)) :: bytes res \<times> bytes res) i = (Inr ck, Inr priv)"
    by simp
  show ?thesis
    using RemoveMember_rotates[OF alist_db_ok ref_codecs_ok toy_sig example_cached_facts(1,2,3,6,4,5) k m(1) r, of 1 "replicate 32 5"]
      m(2) by auto
qed

text \<open>A call that is refused changes nothing: adding or removing in an unknown group, by someone who
  is neither admin nor owner, or adding a present member, returns the matching error and leaves
  caches and database exactly as they were.\<close>

theorem group_refusals_change_nothing:
  "(gm_get (sv_groups s) (hex_encode gid) = None \<longrightarrow>
      Service_AddMember P B C t1 t2 gid mk mx dn r s = (s, Inl GErrGroupNotFound) \<and>
      Service_RemoveMember P B C now rnd gid mk s = (s, Inl GErrGroupNotFound)) \<and>
   (\<forall>st. gm_get (sv_groups s) (hex_encode gid) = Some st \<longrightarrow>
      (\<not> updater_is_admin (sv_identitySignPub s) (gs_Members st) \<longrightarrow>
         Service_AddMember P B C t1 t2 gid mk mx dn r s = (s, Inl GErrNotAuthorized) \<and>
         Service_RemoveMember P B C now rnd gid mk s = (s, Inl GErrNotAuthorized)) \<and>
      (isMemberWithRole st (sv_identitySignPub s) [Admin, Owner] \<and> IsMember mk st \<longrightarrow>
         Service_AddMember P B C t1 t2 gid mk mx dn r s = (s, Inl GErrAlreadyMember)))"
  using role_is_admin by (auto simp: Service_AddMember_def Service_RemoveMember_def)

theorem group_refusals_change_nothing_witness:
  "Service_AddMember toy alist_db ref_codecs 0 0 [9] [1] [2] ''x'' Member example_service = (example_service, Inl GErrGroupNotFound)
   \<and> Service_AddMember toy alist_db ref_codecs 0 0 (replicate 32 1) (replicate 32 5) [2] ''x'' Member example_cached =
       (example_cached, Inl GErrAlreadyMember)"
proof -
  have "gm_get (sv_groups example_service) (hex_encode [9]) = None" by (simp add: example_service_def NewService_def)
  moreover have "IsMember (replicate 32 5) (example_state 1)" by (simp add: IsMember_def example_state_def)
  ultimately show ?thesis
    using group_refusals_change_nothing[of example_service "[9]"]
      group_refusals_change_nothing[of example_cached "replicate 32 1"] example_cached_facts(2,4) by simp
qed

text \<open>Decrypting a group message returns for every payload but one: with a sender key in the cache,
  \<open>DecryptGroupMessage\<close> returns whenever the chain index of the payload is below the largest 32-bit
  value, and never returns, while it holds the service's lock, when a payload of the right epoch has
  that largest value as its index, because the loop counter wraps around to 0.\<close>

theorem DecryptGroupMessage_returns_iff:
  assumes "sender_key_of gid pk s = Some sk" "gp_Epoch payload = snk_Epoch sk"
  shows "DecryptGroupMessage P gid pk payload s = None \<longleftrightarrow> gp_ChainIndex payload = - 1"
proof -
  obtain m where m: "gm_get (sv_senderKeys s) (hex_encode gid) = Some m" "gm_get m (hex_encode pk) = Some sk"
    using assms(1) by (auto simp: sender_key_of_def split: option.splits)
  show ?thesis
  proof (cases "gp_ChainIndex payload = - 1")
    case True
    have "\<not> (- 1 :: u32) < snk_ChainIndex sk" by (simp add: not_less)
    then show ?thesis using True m assms(2) by (simp add: DecryptGroupMessage_def advance_to_diverges)
  next
    case False
    have "\<exists>sk'. advance_to P (gp_ChainIndex payload) sk = Some sk'" if "\<not> gp_ChainIndex payload < snk_ChainIndex sk"
    proof -
      have "unat (gp_ChainIndex payload + 1) = Suc (unat (gp_ChainIndex payload))"
        using False by (metis add.commute unatSuc add_eq_0_iff)
      then have "unat (gp_ChainIndex payload + 1) =
          unat (snk_ChainIndex sk) + (unat (gp_ChainIndex payload + 1) - unat (snk_ChainIndex sk))"
        using that by (simp add: u_less_unat)
      then show ?thesis using advance_to_returns[OF False] by blast
    qed
    then show ?thesis using False m assms(2) by (auto simp: DecryptGroupMessage_def)
  qed
qed

definition example_sender :: SenderKey where
  "example_sender = \<lparr>snk_GroupID = replicate 32 1, snk_SenderPubkey = replicate 32 5, snk_ChainKey = replicate 32 2,
     snk_SigningKey = replicate 32 3, snk_SigningKeyPriv = replicate 64 3, snk_ChainIndex = 0, snk_Epoch = 1\<rparr>"

theorem DecryptGroupMessage_returns_iff_witness:
  "DecryptGroupMessage toy (replicate 32 1) (replicate 32 5)
     \<lparr>gp_Epoch = 1, gp_ChainIndex = 0xFFFFFFFF, gp_Ciphertext = Some [1], gp_SenderGroupSignature = []\<rparr>
     (ImportSenderKey (SenderKey_ToProto example_sender) [] example_service) = None"
proof -
  have "sender_key_of (replicate 32 1) (replicate 32 5) (ImportSenderKey (SenderKey_ToProto example_sender) [] example_service) =
      Some (SenderKeyFromProto (SenderKey_ToProto example_sender) [])"
    by (simp add: ImportSenderKey_def Let_def put_sender_ok SenderKeyFromProto_def SenderKey_ToProto_def example_sender_def)
  from DecryptGroupMessage_returns_iff[OF this] show ?thesis
    by (simp add: SenderKeyFromProto_def SenderKey_ToProto_def example_sender_def)
qed

text \<open>The key a message is sealed under, and the key the receiver of the next message derives.\<close>

definition sent_key :: "prims \<Rightarrow> SenderKey \<Rightarrow> bytes" where
  "sent_key P sk = sha256 P (snk_ChainKey sk @ str_bytes ''bt-sk-msg'' @ be_bytes 4 (snk_ChainIndex sk))"

definition receiver_key :: "prims \<Rightarrow> SenderKey \<Rightarrow> bytes" where
  "receiver_key P sk = sha256 P (sha256 P (snk_ChainKey sk @ str_bytes ''bt-sk-chain'' @ str_bytes ''advance'') @
     str_bytes ''bt-sk-msg'' @ be_bytes 4 (snk_ChainIndex sk))"

lemma sender_key_ofD:
  assumes "sender_key_of gid pk s = Some sk"
  obtains m where "gm_get (sv_senderKeys s) (hex_encode gid) = Some m" "gm_get m (hex_encode pk) = Some sk"
  using assms by (auto simp: sender_key_of_def split: option.splits)

lemma EncryptGroupMessage_payload:
  assumes "EncryptGroupMessage P B C gid m s = (s', Inr payload)" "sender_key_of gid (sv_identitySignPub s) s = Some sk"
  shows "gp_ChainIndex payload = snk_ChainIndex sk" "gp_Epoch payload = snk_Epoch sk"
    "\<exists>nonce. hkdf_sha256 P (sent_key P sk) (str_bytes ''nonce'') [] 24 = Inr nonce \<and>
       gp_Ciphertext payload = Some (xchacha_seal P (sent_key P sk) nonce m gid)"
proof -
  obtain mp where "gm_get (sv_senderKeys s) (hex_encode gid) = Some mp" "gm_get mp (hex_encode (sv_identitySignPub s)) = Some sk"
    by (rule sender_key_ofD[OF assms(2)])
  then show "gp_ChainIndex payload = snk_ChainIndex sk" "gp_Epoch payload = snk_Epoch sk"
    "\<exists>nonce. hkdf_sha256 P (sent_key P sk) (str_bytes ''nonce'') [] 24 = Inr nonce \<and>
       gp_Ciphertext payload = Some (xchacha_seal P (sent_key P sk) nonce m gid)"
    using assms(1) by (auto simp: EncryptGroupMessage_def DeriveMessageKey_def sent_key_def Let_def split: sum.splits prod.splits)
qed

lemma EncryptGroupMessage_succeeds:
  assumes "kv_ok B view" "codecs_ok C" "key_sizes P" "sender_key_of gid (sv_identitySignPub s) s = Some sk"
    "8 \<le> length (snk_GroupID sk)" "8 \<le> length (snk_SenderPubkey sk)" "length (snk_SigningKeyPriv sk) = 64"
  shows "\<exists>s' payload. EncryptGroupMessage P B C gid m s = (s', Inr payload)"
proof -
  obtain mp where mp: "gm_get (sv_senderKeys s) (hex_encode gid) = Some mp" "gm_get mp (hex_encode (sv_identitySignPub s)) = Some sk"
    by (rule sender_key_ofD[OF assms(4)])
  obtain sk2 k where sk2: "DeriveMessageKey P sk = (sk2, k)" by fastforce
  then have f: "snk_GroupID sk2 = snk_GroupID sk" "snk_SenderPubkey sk2 = snk_SenderPubkey sk"
    "snk_SigningKeyPriv sk2 = snk_SigningKeyPriv sk" "length k = 32"
    using assms(3) by (auto simp: DeriveMessageKey_def key_sizes_simps)
  obtain nonce where n: "hkdf_sha256 P k (str_bytes ''nonce'') [] 24 = Inr nonce"
    using key_sizes_hkdf[OF assms(3), of 24] by force
  define s1 where "s1 = fst (put_sender_key gid (sv_identitySignPub s) sk2 s)"
  obtain d where "storeSenderKey B C sk2 s1 = (s1\<lparr>sv_storage := d\<rparr>, Inr ())"
    using storeSenderKey_ok[OF assms(1,2), of sk2 s1] assms(5,6) f(1,2) by metis
  then show ?thesis
    using mp sk2 f n assms(7) by (simp add: EncryptGroupMessage_def s1_def key_sizes_simps[OF assms(3)] ed25519_Sign_def
        crypto_sizes Let_def)
qed

lemma DecryptGroupMessage_in_order:
  assumes "sender_key_of gid pk r = Some sk" "gp_ChainIndex payload = snk_ChainIndex sk" "gp_Epoch payload = snk_Epoch sk"
    "snk_ChainIndex sk \<noteq> - 1"
  shows "\<exists>r'. DecryptGroupMessage P gid pk payload r = Some (r', open_payload P gid (fst (DeriveMessageKey P sk)) payload)"
proof -
  obtain m where m: "gm_get (sv_senderKeys r) (hex_encode gid) = Some m" "gm_get m (hex_encode pk) = Some sk"
    by (rule sender_key_ofD[OF assms(1)])
  have "unat (snk_ChainIndex sk + 1) = Suc (unat (snk_ChainIndex sk))"
    using assms(4) by (metis add.commute unatSuc add_eq_0_iff)
  then have "advance_to P (snk_ChainIndex sk) sk = Some (fst (DeriveMessageKey P sk))"
    using advance_to_returns[of "snk_ChainIndex sk" sk 1 P] assms(4) by simp
  then show ?thesis using m assms by (simp add: DecryptGroupMessage_def)
qed

text \<open>Sender and receiver of a group message use different keys. A message is encrypted under the
  message key of its chain index and a nonce derived with empty info; the receiver, holding the
  sender key exactly as distributed before the message, advances its chain past the message first
  and then derives the key from the advanced chain key, and the nonce with the chain index as info.
  So the ciphertext is opened under another key and nonce, and any failure of that opening is the
  result of the call: group messages do not round-trip.\<close>

theorem group_message_wrong_key:
  assumes "EncryptGroupMessage P B C gid m s = (s', Inr payload)" "sender_key_of gid (sv_identitySignPub s) s = Some sk"
    and "sender_key_of gid pk r = Some (SenderKeyFromProto (SenderKey_ToProto sk) priv)" "snk_ChainIndex sk \<noteq> - 1"
  shows "(\<exists>nonce. hkdf_sha256 P (sent_key P sk) (str_bytes ''nonce'') [] 24 = Inr nonce
      \<and> gp_Ciphertext payload = Some (xchacha_seal P (sent_key P sk) nonce m gid))
    \<and> (\<forall>nonce e. hkdf_sha256 P (receiver_key P sk) (str_bytes ''nonce'') (be_bytes 4 (snk_ChainIndex sk)) 24 = Inr nonce \<and>
         xchacha_new P (receiver_key P sk) = Inr () \<and> slice (gp_Ciphertext payload) \<noteq> [] \<and>
         xchacha_open P (receiver_key P sk) nonce (slice (gp_Ciphertext payload)) gid = Inl e \<longrightarrow>
         (\<exists>r'. DecryptGroupMessage P gid pk payload r = Some (r', Inl (Wrap ''decryption failed'' e))))"
proof -
  let ?sk = "SenderKeyFromProto (SenderKey_ToProto sk) priv"
  note enc = EncryptGroupMessage_payload[OF assms(1,2)]
  have f: "snk_ChainIndex ?sk = snk_ChainIndex sk" "snk_ChainKey ?sk = snk_ChainKey sk" "snk_Epoch ?sk = snk_Epoch sk"
    by (simp_all add: SenderKeyFromProto_def SenderKey_ToProto_def)
  obtain r' where dec: "DecryptGroupMessage P gid pk payload r = Some (r', open_payload P gid (fst (DeriveMessageKey P ?sk)) payload)"
    using DecryptGroupMessage_in_order[OF assms(3)] enc(1,2) f assms(4) by metis
  have "open_payload P gid (fst (DeriveMessageKey P ?sk)) payload = Inl (Wrap ''decryption failed'' e)"
    if "hkdf_sha256 P (receiver_key P sk) (str_bytes ''nonce'') (be_bytes 4 (snk_ChainIndex sk)) 24 = Inr nonce"
      "xchacha_new P (receiver_key P sk) = Inr ()" "slice (gp_Ciphertext payload) \<noteq> []"
      "xchacha_open P (receiver_key P sk) nonce (slice (gp_Ciphertext payload)) gid = Inl e" for nonce e
    using that by (simp add: open_payload_def deriveMessageKeyAtIndex_def DeriveMessageKey_def receiver_key_def f enc(1) Let_def)
  then show ?thesis using enc(3) by (auto simp: dec)
qed

definition example_sender1 :: SenderKey where
  "example_sender1 = example_sender\<lparr>snk_ChainIndex := 1\<rparr>"

theorem group_message_wrong_key_witness:
  "\<exists>s' payload r' e.
     EncryptGroupMessage toy alist_db ref_codecs (replicate 32 1) [42]
       (fst (put_sender_key (replicate 32 1) (replicate 32 5) example_sender1 example_cached)) = (s', Inr payload)
   \<and> DecryptGroupMessage toy (replicate 32 1) (replicate 32 5) payload
       (ImportSenderKey (SenderKey_ToProto example_sender1) [] example_service) = Some (r', Inl (Wrap ''decryption failed'' e))"
proof -
  let ?g = "replicate 32 1 :: bytes" and ?k = "replicate 32 5 :: bytes"
  let ?s = "fst (put_sender_key ?g ?k example_sender1 example_cached)"
  let ?r = "ImportSenderKey (SenderKey_ToProto example_sender1) [] example_service"
  have pub: "sv_identitySignPub ?s = ?k" by (simp add: example_cached_def example_service_def NewService_def)
  have own: "sender_key_of ?g (sv_identitySignPub ?s) ?s = Some example_sender1"
    unfolding pub using put_sender_ok[of example_cached ?g ?k example_sender1] by (simp add: example_cached_facts)
  have len: "8 \<le> length (snk_GroupID example_sender1)" "8 \<le> length (snk_SenderPubkey example_sender1)"
    "length (snk_SigningKeyPriv example_sender1) = 64" by (simp_all add: example_sender1_def example_sender_def)
  obtain s' payload where enc: "EncryptGroupMessage toy alist_db ref_codecs ?g [42] ?s = (s', Inr payload)"
    using EncryptGroupMessage_succeeds[OF alist_db_ok ref_codecs_ok toy_key_sizes own len] by blast
  have imp: "sender_key_of ?g ?k ?r = Some (SenderKeyFromProto (SenderKey_ToProto example_sender1) [])"
    by (simp add: ImportSenderKey_def Let_def put_sender_ok SenderKeyFromProto_def SenderKey_ToProto_def
        example_sender1_def example_sender_def)
  have rk: "receiver_key toy example_sender1 = replicate 32 2" "sent_key toy example_sender1 = replicate 32 2"
    by (simp_all add: receiver_key_def sent_key_def example_sender1_def example_sender_def pad32_def)
  have i: "snk_ChainIndex example_sender1 = 1" by (simp add: example_sender1_def)
  let ?n0 = "take 24 (vec_add (pad32 (replicate 32 2)) (pad32 (str_bytes ''nonce'')) @ replicate 24 0)"
  let ?n1 = "take 24 (vec_add (pad32 (replicate 32 2)) (pad32 (str_bytes ''nonce'' @ be_bytes 4 (1 :: u32))) @ replicate 24 0)"
  note wrong = group_message_wrong_key[OF enc own imp, unfolded i rk]
  have c: "slice (gp_Ciphertext payload) = replicate 32 2 @ ?n0 @ [42]"
    using wrong by (auto simp: toy_seal_def)
  have "?n0 \<noteq> ?n1" by code_simp
  then have "xchacha_open toy (replicate 32 2) ?n1 (slice (gp_Ciphertext payload)) ?g = Inl (Err ''message authentication failed'')"
    by (simp add: c toy_open_def)
  moreover have "slice (gp_Ciphertext payload) \<noteq> []" by (simp add: c)
  ultimately show ?thesis using wrong enc by (auto simp: toy_new_def)
qed

end
