(* ===== verification/PublicGroup.thy ===== *)
theory PublicGroup
  imports GroupService
begin

text \<open>
  \<open>pkg/groups/public.go\<close>: public groups with moderation, rate limiting and proof of work. The service
  reaches its storage through the \<open>Storage\<close> interface, of which it calls \<open>SaveGroup\<close> only: that
  method is the argument \<open>save\<close>, and the locale \<open>group_backend\<close> states what the service relies on;
  the in-memory store is its interpretation. The cached group states are written through their
  pointers, so every error return carries the state as far as it was changed.
\<close>

section \<open>Types\<close>

definition ErrAlreadyBanned :: go_error where "ErrAlreadyBanned = Err ''member already banned''"
definition ErrAlreadyMuted :: go_error where "ErrAlreadyMuted = Err ''member already muted''"

record BannedMember =
  bm_Pubkey :: bytes
  bm_BannedAt :: u64
  bm_Reason :: string
  bm_Moderator :: bytes

record MutedMember =
  mm_Pubkey :: bytes
  mm_MutedAt :: u64
  mm_DurationSec :: u64
  mm_ExpiresAt :: u64
  mm_Reason :: string
  mm_Moderator :: bytes

record ModerationAction =
  ma_TargetMemberPubkey :: bytes
  ma_ActionType :: string
  ma_Reason :: string
  ma_DurationSeconds :: u64
  ma_TargetMessageID :: bytes
  ma_ModeratorPubkey :: bytes
  ma_Timestamp :: u64
  ma_Signature :: bytes

record 's PublicGroupService =
  ps_storage :: 's
  ps_identitySignPub :: bytes
  ps_identitySignPriv :: bytes
  ps_groups :: "(string, GroupState) gomap"
  ps_banned :: "(string, (string, BannedMember) gomap) gomap"
  ps_muted :: "(string, (string, MutedMember) gomap) gomap"
  ps_rateLimits :: "(string, (string, u64 list) gomap) gomap"

definition NewPublicGroupService :: "'s \<Rightarrow> bytes \<Rightarrow> bytes \<Rightarrow> 's PublicGroupService" where
  "NewPublicGroupService storage pub priv = \<lparr>ps_storage = storage, ps_identitySignPub = pub, ps_identitySignPriv = priv,
     ps_groups = [], ps_banned = [], ps_muted = [], ps_rateLimits = []\<rparr>"

text \<open>\<open>m[group][key]\<close> on a map of maps, and its assignment, a panic when the inner map is nil.\<close>

definition inner_get :: "('g, ('k, 'v) gomap) gomap \<Rightarrow> 'g \<Rightarrow> 'k \<Rightarrow> 'v option" where
  "inner_get m g k = (case gm_get m g of None \<Rightarrow> None | Some i \<Rightarrow> gm_get i k)"

definition inner_set :: "'g \<Rightarrow> 'k \<Rightarrow> 'v \<Rightarrow> ('g, ('k, 'v) gomap) gomap \<Rightarrow> ('g, ('k, 'v) gomap) gomap res" where
  "inner_set g k v m = (case gm_get m g of None \<Rightarrow> Inl nil_map_write | Some i \<Rightarrow> Inr (gm_set g (gm_set k v i) m))"

section \<open>Moderation actions\<close>

definition ModerationAction_ToProto :: "ModerationAction \<Rightarrow> pb_ModerationAction" where
  "ModerationAction_ToProto a = \<lparr>pma_TargetMemberPubkey = ma_TargetMemberPubkey a, pma_ActionType = ma_ActionType a,
     pma_Reason = ma_Reason a, pma_DurationSeconds = ma_DurationSeconds a, pma_TargetMessageId = ma_TargetMessageID a,
     pma_ModeratorPubkey = ma_ModeratorPubkey a, pma_Timestamp = ma_Timestamp a, pma_Signature = ma_Signature a\<rparr>"

definition ModerationActionFromProto :: "pb_ModerationAction \<Rightarrow> ModerationAction" where
  "ModerationActionFromProto p = \<lparr>ma_TargetMemberPubkey = pma_TargetMemberPubkey p, ma_ActionType = pma_ActionType p,
     ma_Reason = pma_Reason p, ma_DurationSeconds = pma_DurationSeconds p, ma_TargetMessageID = pma_TargetMessageId p,
     ma_ModeratorPubkey = pma_ModeratorPubkey p, ma_Timestamp = pma_Timestamp p, ma_Signature = pma_Signature p\<rparr>"

definition ModerationAction_Serialize :: "pb_ModerationAction codec \<Rightarrow> ModerationAction \<Rightarrow> bytes res" where
  "ModerationAction_Serialize K a = marshal K ((ModerationAction_ToProto a)\<lparr>pma_Signature := []\<rparr>)"

definition ModerationAction_Sign ::
    "prims \<Rightarrow> pb_ModerationAction codec \<Rightarrow> bytes \<Rightarrow> ModerationAction \<Rightarrow> (ModerationAction, unit) eff" where
  "ModerationAction_Sign P K privKey a =
     (case ModerationAction_Serialize K a of
        Inl e \<Rightarrow> (a, Inl (Wrap ''failed to serialize'' e))
      | Inr data \<Rightarrow> (case ed25519_Sign P privKey data of
          Inl e \<Rightarrow> (a, Inl e)
        | Inr signature \<Rightarrow> (a\<lparr>ma_Signature := signature\<rparr>, Inr ())))"

definition ModerationAction_Verify :: "prims \<Rightarrow> pb_ModerationAction codec \<Rightarrow> bytes \<Rightarrow> ModerationAction \<Rightarrow> bool res" where
  "ModerationAction_Verify P K pubKey a =
     (case ModerationAction_Serialize K a of
        Inl e \<Rightarrow> Inr False
      | Inr data \<Rightarrow> ed25519_Verify P pubKey data (ma_Signature a))"

section \<open>Operations\<close>

definition ps_storeGroup :: "(pb_GroupState \<Rightarrow> 's \<Rightarrow> ('s, unit) eff) \<Rightarrow> GroupState \<Rightarrow> 's PublicGroupService \<Rightarrow>
    ('s PublicGroupService, unit) eff" where
  "ps_storeGroup save state s =
     (case save (GroupState_ToProto state) (ps_storage s) of (d, r) \<Rightarrow> (s\<lparr>ps_storage := d\<rparr>, r))"

definition CreatePublicGroup :: "prims \<Rightarrow> codecs \<Rightarrow> (pb_GroupState \<Rightarrow> 's \<Rightarrow> ('s, unit) eff) \<Rightarrow> bytes res \<Rightarrow> u64 \<Rightarrow>
    string \<Rightarrow> string \<Rightarrow> 's PublicGroupService \<Rightarrow> ('s PublicGroupService, GroupState) eff" where
  "CreatePublicGroup P C save rnd now name description s =
     (case NewGroupState rnd now name description PublicGroup (ps_identitySignPub s) (replicate 32 0) of
        Inl e \<Rightarrow> (s, Inl (Wrap ''failed to create group state'' e))
      | Inr state0 \<Rightarrow> (case GroupState_Sign P (c_group C) (ps_identitySignPriv s) state0 of
          (state, Inl e) \<Rightarrow> (s, Inl (Wrap ''failed to sign group state'' e))
        | (state, Inr _) \<Rightarrow> (case ps_storeGroup save state s of
            (s1, Inl e) \<Rightarrow> (s1, Inl (Wrap ''failed to store group'' e))
          | (s1, Inr _) \<Rightarrow>
              let groupKey = hex_encode (gs_GroupID state)
              in (s1\<lparr>ps_groups := gm_set groupKey state (ps_groups s1), ps_banned := gm_set groupKey [] (ps_banned s1),
                    ps_muted := gm_set groupKey [] (ps_muted s1), ps_rateLimits := gm_set groupKey [] (ps_rateLimits s1)\<rparr>,
                  Inr state))))"

text \<open>\<open>t1\<close>, \<open>t2\<close> and \<open>t3\<close> are the readings of the clock for the action, inside \<open>RemoveMember\<close>, and for the
  state.\<close>

definition BanMember :: "prims \<Rightarrow> codecs \<Rightarrow> (pb_GroupState \<Rightarrow> 's \<Rightarrow> ('s, unit) eff) \<Rightarrow> u64 \<Rightarrow> u64 \<Rightarrow> u64 \<Rightarrow> bytes \<Rightarrow> bytes \<Rightarrow>
    string \<Rightarrow> 's PublicGroupService \<Rightarrow> ('s PublicGroupService, ModerationAction) eff" where
  "BanMember P C save t1 t2 t3 groupID memberPubkey reason s =
     (let gk = hex_encode groupID; mk = hex_encode memberPubkey
      in case gm_get (ps_groups s) gk of
        None \<Rightarrow> (s, Inl GErrGroupNotFound)
      | Some state \<Rightarrow>
          if \<not> isMemberWithRole state (ps_identitySignPub s) [Admin, Owner] then (s, Inl GErrNotAuthorized)
          else if inner_get (ps_banned s) gk mk \<noteq> None then (s, Inl ErrAlreadyBanned)
          else (case ModerationAction_Sign P (c_action C) (ps_identitySignPriv s)
                 \<lparr>ma_TargetMemberPubkey = memberPubkey, ma_ActionType = ''ban'', ma_Reason = reason, ma_DurationSeconds = 0,
                  ma_TargetMessageID = [], ma_ModeratorPubkey = ps_identitySignPub s, ma_Timestamp = t1, ma_Signature = []\<rparr> of
              (action, Inl e) \<Rightarrow> (s, Inl (Wrap ''failed to sign moderation action'' e))
            | (action, Inr _) \<Rightarrow> (case inner_set gk mk \<lparr>bm_Pubkey = memberPubkey, bm_BannedAt = ma_Timestamp action,
                    bm_Reason = reason, bm_Moderator = ps_identitySignPub s\<rparr> (ps_banned s) of
                Inl e \<Rightarrow> (s, Inl e)
              | Inr banned \<Rightarrow>
                  let s1 = s\<lparr>ps_banned := banned\<rparr>
                  in (case GroupState_RemoveMember t2 memberPubkey state of
                      (state1, Inl e) \<Rightarrow> (s1, Inl (Wrap ''failed to remove member'' e))
                    | (state1, Inr _) \<Rightarrow>
                        (case GroupState_Sign P (c_group C) (ps_identitySignPriv s)
                              (state1\<lparr>gs_Epoch := gs_Epoch state1 + 1, gs_UpdatedAt := t3\<rparr>) of
                           (state2, r) \<Rightarrow>
                             let s2 = s1\<lparr>ps_groups := gm_set gk state2 (ps_groups s1)\<rparr>
                             in (case r of
                                 Inl e \<Rightarrow> (s2, Inl (Wrap ''failed to sign updated state'' e))
                               | Inr _ \<Rightarrow> (case ps_storeGroup save state2 s2 of
                                   (s3, Inl e) \<Rightarrow> (s3, Inl (Wrap ''failed to store updated group'' e))
                                 | (s3, Inr _) \<Rightarrow> (s3, Inr action))))))))"

definition MuteMember :: "prims \<Rightarrow> codecs \<Rightarrow> u64 \<Rightarrow> bytes \<Rightarrow> bytes \<Rightarrow> string \<Rightarrow> u64 \<Rightarrow> 's PublicGroupService \<Rightarrow>
    ('s PublicGroupService, ModerationAction) eff" where
  "MuteMember P C now groupID memberPubkey reason durationSec s =
     (let gk = hex_encode groupID; mk = hex_encode memberPubkey
      in case gm_get (ps_groups s) gk of
        None \<Rightarrow> (s, Inl GErrGroupNotFound)
      | Some state \<Rightarrow>
          if \<not> isMemberWithRole state (ps_identitySignPub s) [Admin, Owner] then (s, Inl GErrNotAuthorized)
          else
            let expiresAt = now + durationSec
            in if (case inner_get (ps_muted s) gk mk of None \<Rightarrow> False | Some muted \<Rightarrow> mm_ExpiresAt muted > now)
               then (s, Inl ErrAlreadyMuted)
               else (case ModerationAction_Sign P (c_action C) (ps_identitySignPriv s)
                      \<lparr>ma_TargetMemberPubkey = memberPubkey, ma_ActionType = ''mute'', ma_Reason = reason,
                       ma_DurationSeconds = durationSec, ma_TargetMessageID = [], ma_ModeratorPubkey = ps_identitySignPub s,
                       ma_Timestamp = now, ma_Signature = []\<rparr> of
                   (action, Inl e) \<Rightarrow> (s, Inl (Wrap ''failed to sign moderation action'' e))
                 | (action, Inr _) \<Rightarrow> (case inner_set gk mk \<lparr>mm_Pubkey = memberPubkey, mm_MutedAt = now,
                         mm_DurationSec = durationSec, mm_ExpiresAt = expiresAt, mm_Reason = reason,
                         mm_Moderator = ps_identitySignPub s\<rparr> (ps_muted s) of
                     Inl e \<Rightarrow> (s, Inl e)
                   | Inr muted \<Rightarrow> (s\<lparr>ps_muted := muted\<rparr>, Inr action))))"

definition DeleteMessage :: "prims \<Rightarrow> codecs \<Rightarrow> u64 \<Rightarrow> bytes \<Rightarrow> bytes \<Rightarrow> string \<Rightarrow> 's PublicGroupService \<Rightarrow> ModerationAction res" where
  "DeleteMessage P C now groupID messageID reason s =
     (case gm_get (ps_groups s) (hex_encode groupID) of
        None \<Rightarrow> Inl GErrGroupNotFound
      | Some state \<Rightarrow>
          if \<not> isMemberWithRole state (ps_identitySignPub s) [Admin, Owner] then Inl GErrNotAuthorized
          else (case ModerationAction_Sign P (c_action C) (ps_identitySignPriv s)
                 \<lparr>ma_TargetMemberPubkey = [], ma_ActionType = ''delete_message'', ma_Reason = reason, ma_DurationSeconds = 0,
                  ma_TargetMessageID = messageID, ma_ModeratorPubkey = ps_identitySignPub s, ma_Timestamp = now, ma_Signature = []\<rparr> of
              (action, Inl e) \<Rightarrow> Inl (Wrap ''failed to sign moderation action'' e)
            | (action, Inr _) \<Rightarrow> Inr action))"

definition IsBanned :: "bytes \<Rightarrow> bytes \<Rightarrow> 's PublicGroupService \<Rightarrow> bool" where
  "IsBanned groupID memberPubkey s = (inner_get (ps_banned s) (hex_encode groupID) (hex_encode memberPubkey) \<noteq> None)"

definition IsMuted :: "u64 \<Rightarrow> bytes \<Rightarrow> bytes \<Rightarrow> 's PublicGroupService \<Rightarrow> 's PublicGroupService \<times> bool" where
  "IsMuted now groupID memberPubkey s =
     (let gk = hex_encode groupID; mk = hex_encode memberPubkey
      in case inner_get (ps_muted s) gk mk of
        None \<Rightarrow> (s, False)
      | Some muted \<Rightarrow>
          if mm_ExpiresAt muted \<le> now
          then (s\<lparr>ps_muted := (case gm_get (ps_muted s) gk of None \<Rightarrow> ps_muted s
                 | Some i \<Rightarrow> gm_set gk (gm_del mk i) (ps_muted s))\<rparr>, False)
          else (s, True))"

definition CheckRateLimit :: "u64 \<Rightarrow> bytes \<Rightarrow> bytes \<Rightarrow> u64 \<Rightarrow> u64 \<Rightarrow> 's PublicGroupService \<Rightarrow> ('s PublicGroupService, bool) eff" where
  "CheckRateLimit now groupID senderPubkey maxMessages windowSec s =
     (let gk = hex_encode groupID; sk = hex_encode senderPubkey
      in case inner_get (ps_rateLimits s) gk sk of
        None \<Rightarrow> (case inner_set gk sk [now] (ps_rateLimits s) of
            Inl e \<Rightarrow> (s, Inl e)
          | Inr rl \<Rightarrow> (s\<lparr>ps_rateLimits := rl\<rparr>, Inr True))
      | Some timestamps \<Rightarrow>
          let cutoff = now - windowSec; validTimestamps = filter (\<lambda>ts. ts > cutoff) timestamps
          in if (of_nat (length validTimestamps) :: u64) \<ge> maxMessages
             then (case inner_set gk sk validTimestamps (ps_rateLimits s) of
                 Inl e \<Rightarrow> (s, Inl e)
               | Inr rl \<Rightarrow> (s\<lparr>ps_rateLimits := rl\<rparr>, Inr False))
             else (case inner_set gk sk (validTimestamps @ [now]) (ps_rateLimits s) of
                 Inl e \<Rightarrow> (s, Inl e)
               | Inr rl \<Rightarrow> (s\<lparr>ps_rateLimits := rl\<rparr>, Inr True)))"

definition GetModerationActions :: "bytes \<Rightarrow> int \<Rightarrow> 's PublicGroupService \<Rightarrow> ModerationAction list res" where
  "GetModerationActions groupID limit s =
     (let gk = hex_encode groupID;
          bans = (case gm_get (ps_banned s) gk of None \<Rightarrow> [] | Some m \<Rightarrow> map snd m);
          mutes = (case gm_get (ps_muted s) gk of None \<Rightarrow> [] | Some m \<Rightarrow> map snd m);
          actions = map (\<lambda>b. \<lparr>ma_TargetMemberPubkey = bm_Pubkey b, ma_ActionType = ''ban'', ma_Reason = bm_Reason b,
              ma_DurationSeconds = 0, ma_TargetMessageID = [], ma_ModeratorPubkey = bm_Moderator b,
              ma_Timestamp = bm_BannedAt b, ma_Signature = []\<rparr>) bans
            @ map (\<lambda>u. \<lparr>ma_TargetMemberPubkey = mm_Pubkey u, ma_ActionType = ''mute'', ma_Reason = mm_Reason u,
              ma_DurationSeconds = mm_DurationSec u, ma_TargetMessageID = [], ma_ModeratorPubkey = mm_Moderator u,
              ma_Timestamp = mm_MutedAt u, ma_Signature = []\<rparr>) mutes
      in if int (length actions) > limit
         then (if limit < 0 then Inl (Panic ''slice bounds out of range'') else Inr (take (nat limit) actions))
         else Inr actions)"

section \<open>Proof of work\<close>

definition pow_meets :: "prims \<Rightarrow> bytes \<Rightarrow> byte \<Rightarrow> bytes \<Rightarrow> bool" where
  "pow_meets P data difficulty nonce = (hd (sha256 P (data @ nonce)) < difficulty)"

function pow_loop :: "prims \<Rightarrow> bytes \<Rightarrow> byte \<Rightarrow> u64 \<Rightarrow> bytes res" where
  "pow_loop P data difficulty nonce0 =
     (let nonce = nonce0 + 1
      in if pow_meets P data difficulty (le_bytes 8 nonce) then Inr (le_bytes 8 nonce)
         else if nonce > 1000000 then Inl (Err ''proof of work failed after max attempts'')
         else pow_loop P data difficulty nonce)"
  by pat_completeness auto
termination
proof (relation "measure (\<lambda>(P, data, difficulty, n). 1000002 - unat (n + 1))")
  fix P :: prims and data :: bytes and difficulty :: byte and n nonce :: u64
  assume "nonce = n + 1" "\<not> 1000000 < nonce"
  then have n: "unat nonce \<le> 1000000" by (simp add: u_less_unat)
  then have "nonce < 1000001" by (simp add: u_less_unat)
  then have "unat (nonce + 1) = Suc (unat nonce)" by (rule unat_Suc_less)
  with n show "((P, data, difficulty, nonce), P, data, difficulty, n) \<in> measure (\<lambda>(P, data, difficulty, n). 1000002 - unat (n + 1))"
    using \<open>nonce = n + 1\<close> by simp
qed simp

declare pow_loop.simps [simp del]

definition ComputeProofOfWork :: "prims \<Rightarrow> bytes \<Rightarrow> byte \<Rightarrow> bytes res" where
  "ComputeProofOfWork P data difficulty = pow_loop P data difficulty 0"

definition VerifyProofOfWork :: "prims \<Rightarrow> bytes \<Rightarrow> bytes \<Rightarrow> byte \<Rightarrow> bool" where
  "VerifyProofOfWork P data nonce difficulty =
     (if length nonce \<noteq> 8 then False else pow_meets P data difficulty nonce)"

definition GenerateRandomID :: "bytes res \<Rightarrow> bytes res" where
  "GenerateRandomID rnd = (case rnd of Inl e \<Rightarrow> Inl e | Inr b \<Rightarrow> Inr b)"

section \<open>The storage the service relies on\<close>

text \<open>What the service's persistence rests on: a save of an admissible store succeeds and a later read
  returns the saved group.\<close>

locale group_backend =
  fixes save :: "pb_GroupState \<Rightarrow> 's \<Rightarrow> ('s, unit) eff" and load :: "bytes \<Rightarrow> 's \<Rightarrow> pb_GroupState res" and ok :: "'s \<Rightarrow> bool"
  assumes save_ok: "ok d \<Longrightarrow> snd (save g d) = Inr ()"
    and ok_save: "ok d \<Longrightarrow> ok (fst (save g d))"
    and load_save: "ok d \<Longrightarrow> load k (fst (save g d)) = (if k = pg_GroupId g then Inr g else load k d)"
begin

lemma storeGroup_spec:
  assumes "ok (ps_storage s)"
  obtains d where "ps_storeGroup save state s = (s\<lparr>ps_storage := d\<rparr>, Inr ())" "ok d"
    "load (gs_GroupID state) d = Inr (GroupState_ToProto state)"
proof -
  let ?r = "save (GroupState_ToProto state) (ps_storage s)"
  have "pg_GroupId (GroupState_ToProto state) = gs_GroupID state" by (simp add: GroupState_ToProto_def)
  then have "load (gs_GroupID state) (fst ?r) = Inr (GroupState_ToProto state)" by (simp add: load_save[OF assms])
  moreover have "ps_storeGroup save state s = (s\<lparr>ps_storage := fst ?r\<rparr>, Inr ())"
    using save_ok[OF assms] by (simp add: ps_storeGroup_def case_prod_beta)
  ultimately show ?thesis using that ok_save[OF assms] by blast
qed

lemma BanMember_success:
  assumes "codecs_ok C" "sig_correct P" "length (ps_identitySignPriv s) = 64" "ok (ps_storage s)"
    and st: "gm_get (ps_groups s) (hex_encode gid) = Some st" "gs_GroupID st = gid"
    and role: "isMemberWithRole st (ps_identitySignPub s) [Admin, Owner]" "\<not> IsBanned gid mk s"
      "gm_get (ps_banned s) (hex_encode gid) = Some bans" and mem: "IsMember mk st" "mk \<noteq> gs_CreatorPubkey st" "distinct (member_keys st)"
  obtains s' act new where "BanMember P C save t1 t2 t3 gid mk reason s = (s', Inr act)" "IsBanned gid mk s'"
    "gm_get (ps_groups s') (hex_encode gid) = Some new" "member_keys new = filter (\<lambda>k. k \<noteq> mk) (member_keys st)"
    "gs_Epoch new = gs_Epoch st + 1" "load gid (ps_storage s') = Inr (GroupState_ToProto new)"
proof -
  let ?gk = "hex_encode gid" and ?mk = "hex_encode mk" and ?priv = "ps_identitySignPriv s"
  let ?a = "\<lparr>ma_TargetMemberPubkey = mk, ma_ActionType = ''ban'', ma_Reason = reason, ma_DurationSeconds = 0,
      ma_TargetMessageID = [], ma_ModeratorPubkey = ps_identitySignPub s, ma_Timestamp = t1, ma_Signature = []\<rparr>"
  obtain act where act: "ModerationAction_Sign P (c_action C) ?priv ?a = (act, Inr ())" "ma_Timestamp act = t1"
  proof -
    obtain b where "marshal (c_action C) ((ModerationAction_ToProto ?a)\<lparr>pma_Signature := []\<rparr>) = Inr b"
      using codec_ok_marshal[OF codecs_okD(8)[OF assms(1)]] by blast
    then show ?thesis using that assms(3) by (simp add: ModerationAction_Sign_def ModerationAction_Serialize_def ed25519_Sign_def crypto_sizes)
  qed
  obtain ms where ms: "drop_first mk (gs_Members st) = Some ms"
    using mem(1) drop_first_None[of mk "gs_Members st"] by (auto simp: IsMember_def list_ex_iff)
  define r1 where "r1 = st\<lparr>gs_Members := ms, gs_UpdatedAt := t2\<rparr>"
  have rm: "GroupState_RemoveMember t2 mk st = (r1, Inr ())" using ms mem(2) by (simp add: GroupState_RemoveMember_def r1_def)
  define st1 where "st1 = r1\<lparr>gs_Epoch := gs_Epoch r1 + 1, gs_UpdatedAt := t3\<rparr>"
  obtain data sg where sg: "GroupState_Sign P (c_group C) ?priv st1 = (st1\<lparr>gs_StateSignature := sg\<rparr>, Inr ())"
    by (rule Sign_spec[OF codecs_okD(4)[OF assms(1)] assms(2,3), of st1])
  define new where "new = st1\<lparr>gs_StateSignature := sg\<rparr>"
  define s2 where "s2 = s\<lparr>ps_banned := gm_set ?gk (gm_set ?mk \<lparr>bm_Pubkey = mk, bm_BannedAt = t1, bm_Reason = reason,
      bm_Moderator = ps_identitySignPub s\<rparr> bans) (ps_banned s), ps_groups := gm_set ?gk new (ps_groups s)\<rparr>"
  obtain d where d: "ps_storeGroup save new s2 = (s2\<lparr>ps_storage := d\<rparr>, Inr ())" "load (gs_GroupID new) d = Inr (GroupState_ToProto new)"
    using storeGroup_spec[of s2 new] assms(4) by (auto simp: s2_def)
  have "BanMember P C save t1 t2 t3 gid mk reason s = (s2\<lparr>ps_storage := d\<rparr>, Inr act)"
    using st role act rm sg d(1)
    by (simp add: BanMember_def IsBanned_def inner_set_def st1_def[symmetric] new_def[symmetric] s2_def[symmetric] Let_def)
  moreover have "member_keys new = filter (\<lambda>k. k \<noteq> mk) (member_keys st)"
    using drop_first_keys[OF ms] mem(3) by (simp add: new_def st1_def r1_def member_keys_def)
  ultimately show ?thesis using that d(2) st(2)
    by (simp add: IsBanned_def inner_get_def s2_def new_def st1_def r1_def)
qed

end

interpretation mem_backend: group_backend SaveGroup GetGroup mem_ok
proof unfold_locales
  fix d g k assume ok: "mem_ok d"
  then obtain m where m: "ms_groups d = Some m" by (auto simp: mem_ok_def split: option.splits)
  show "snd (SaveGroup g d) = Inr ()" using m by (simp add: SaveGroup_def)
  show "mem_ok (fst (SaveGroup g d))" by (rule mem_ok_simple(11)[OF ok])
  show "GetGroup k (fst (SaveGroup g d)) = (if k = pg_GroupId g then Inr g else GetGroup k d)"
    using m by (simp add: SaveGroup_def GetGroup_def nm_get_def)
qed

section \<open>Properties\<close>

text \<open>Banning: when an admin or owner bans a member who is not the creator, the call succeeds, the
  member is banned and out of the group, the epoch rises by one, and the in-memory store holds the
  new state.\<close>

theorem BanMember_correct:
  fixes s :: "MemoryStorage PublicGroupService"
  assumes "codecs_ok C" "sig_correct P" "length (ps_identitySignPriv s) = 64" "mem_ok (ps_storage s)"
    "gm_get (ps_groups s) (hex_encode gid) = Some st" "gs_GroupID st = gid"
    "isMemberWithRole st (ps_identitySignPub s) [Admin, Owner]" "\<not> IsBanned gid mk s"
    "gm_get (ps_banned s) (hex_encode gid) = Some bans" "IsMember mk st" "mk \<noteq> gs_CreatorPubkey st" "distinct (member_keys st)"
  shows "\<exists>s' act new. BanMember P C SaveGroup t1 t2 t3 gid mk reason s = (s', Inr act) \<and> IsBanned gid mk s'
    \<and> gm_get (ps_groups s') (hex_encode gid) = Some new \<and> member_keys new = filter (\<lambda>k. k \<noteq> mk) (member_keys st)
    \<and> gs_Epoch new = gs_Epoch st + 1 \<and> GetGroup gid (ps_storage s') = Inr (GroupState_ToProto new)"
  by (rule mem_backend.BanMember_success[OF assms, of t1 t2 t3 reason]) blast

definition example_group :: GroupState where
  "example_group = (example_state 1)\<lparr>gs_Members := gs_Members (example_state 1) @
     [\<lparr>mb_Ed25519Pubkey = [8], mb_X25519Pubkey = [], mb_DisplayName = ''bob'', mb_JoinedAt = 0, mb_Role = Member\<rparr>]\<rparr>"

definition example_public :: "MemoryStorage PublicGroupService" where
  "example_public = (NewPublicGroupService NewMemoryStorage (replicate 32 5) (replicate 64 5))
     \<lparr>ps_groups := [(hex_encode (replicate 32 1), example_group)],
      ps_banned := [(hex_encode (replicate 32 1), [])], ps_muted := [(hex_encode (replicate 32 1), [])],
      ps_rateLimits := [(hex_encode (replicate 32 1), [])]\<rparr>"

lemma example_public_facts:
  "length (ps_identitySignPriv example_public) = 64" "mem_ok (ps_storage example_public)"
  "gm_get (ps_groups example_public) (hex_encode (replicate 32 1)) = Some example_group" "gs_GroupID example_group = replicate 32 1"
  "isMemberWithRole example_group (ps_identitySignPub example_public) [Admin, Owner]" "\<not> IsBanned (replicate 32 1) k example_public"
  "gm_get (ps_banned example_public) (hex_encode (replicate 32 1)) = Some []"
  "gm_get (ps_muted example_public) (hex_encode (replicate 32 1)) = Some []"
  "gm_get (ps_rateLimits example_public) (hex_encode (replicate 32 1)) = Some []"
  "IsMember [8] example_group" "[8] \<noteq> gs_CreatorPubkey example_group" "distinct (member_keys example_group)"
  "gs_CreatorPubkey example_group = replicate 32 5"
proof -
  have "replicate 32 (5 :: byte) \<noteq> [8]" by (auto dest: arg_cong[of _ _ length])
  then show "[8] \<noteq> gs_CreatorPubkey example_group" "distinct (member_keys example_group)"
    by (auto simp: example_group_def example_state_def member_keys_def dest: sym)
qed (simp_all add: example_public_def NewPublicGroupService_def mem_ok_New gm_get_def example_group_def example_state_def
      isMemberWithRole_def IsBanned_def inner_get_def IsMember_def)

theorem BanMember_correct_witness:
  "\<exists>s' act. BanMember toy ref_codecs SaveGroup 1 1 1 (replicate 32 1) [8] ''spam'' example_public = (s', Inr act) \<and>
     IsBanned (replicate 32 1) [8] s'"
  using BanMember_correct[OF ref_codecs_ok toy_sig example_public_facts(1,2,3,4,5,6,7,10,11,12), of 1 1 1 "''spam''"] by blast

lemma action_sign_ok:
  assumes "codecs_ok C" "sig_correct P" "length priv = 64" "ma_Signature a = []"
  obtains sg where "ModerationAction_Sign P (c_action C) priv a = (a\<lparr>ma_Signature := sg\<rparr>, Inr ())"
    "ModerationAction_Verify P (c_action C) (ed_public P priv) (a\<lparr>ma_Signature := sg\<rparr>) = Inr True"
proof -
  obtain b where b: "marshal (c_action C) ((ModerationAction_ToProto a)\<lparr>pma_Signature := []\<rparr>) = Inr b"
    using codec_ok_marshal[OF codecs_okD(8)[OF assms(1)]] by blast
  obtain sg where sg: "ed25519_Sign P priv b = Inr sg" "ed25519_Verify P (ed_public P priv) b sg = Inr True"
    using ed25519_Verify_Sign[OF assms(2,3)] by blast
  have p: "(ModerationAction_ToProto (a\<lparr>ma_Signature := sg\<rparr>))\<lparr>pma_Signature := []\<rparr> = (ModerationAction_ToProto a)\<lparr>pma_Signature := []\<rparr>"
    by (simp add: ModerationAction_ToProto_def)
  show ?thesis
    by (rule that[of sg]) (simp_all add: ModerationAction_Sign_def ModerationAction_Verify_def ModerationAction_Serialize_def b sg p)
qed

text \<open>A failed ban still bans: banning the creator, or someone who is not a member, returns an error
  and leaves the group as it was, but the key is recorded as banned all the same, so that a second
  attempt is refused because the member is already banned.\<close>

theorem failed_ban_still_bans:
  assumes "codecs_ok C" "sig_correct P" "length (ps_identitySignPriv s) = 64"
    and st: "gm_get (ps_groups s) (hex_encode gid) = Some st"
    and role: "isMemberWithRole st (ps_identitySignPub s) [Admin, Owner]" "\<not> IsBanned gid mk s"
      "gm_get (ps_banned s) (hex_encode gid) = Some bans" and mem: "mk = gs_CreatorPubkey st \<or> \<not> IsMember mk st"
  shows "\<exists>s' e. BanMember P C save t1 t2 t3 gid mk reason s = (s', Inl (Wrap ''failed to remove member'' e))
    \<and> IsBanned gid mk s' \<and> ps_groups s' = ps_groups s \<and> ps_storage s' = ps_storage s
    \<and> snd (BanMember P C save t1' t2' t3' gid mk reason' s') = Inl ErrAlreadyBanned"
proof -
  let ?a = "\<lparr>ma_TargetMemberPubkey = mk, ma_ActionType = ''ban'', ma_Reason = reason, ma_DurationSeconds = 0,
      ma_TargetMessageID = [], ma_ModeratorPubkey = ps_identitySignPub s, ma_Timestamp = t1, ma_Signature = []\<rparr>"
  obtain sg where sg: "ModerationAction_Sign P (c_action C) (ps_identitySignPriv s) ?a = (?a\<lparr>ma_Signature := sg\<rparr>, Inr ())"
    using action_sign_ok[OF assms(1,2,3), of ?a] by auto
  obtain e where e: "GroupState_RemoveMember t2 mk st = (st, Inl e)"
    using mem drop_first_None[of mk "gs_Members st"]
    by (cases "drop_first mk (gs_Members st)") (auto simp: GroupState_RemoveMember_def IsMember_def list_ex_iff)
  define s' where "s' = s\<lparr>ps_banned := gm_set (hex_encode gid) (gm_set (hex_encode mk) \<lparr>bm_Pubkey = mk, bm_BannedAt = t1,
      bm_Reason = reason, bm_Moderator = ps_identitySignPub s\<rparr> bans) (ps_banned s)\<rparr>"
  have "BanMember P C save t1 t2 t3 gid mk reason s = (s', Inl (Wrap ''failed to remove member'' e))"
    using st role sg e by (simp add: BanMember_def IsBanned_def inner_set_def s'_def Let_def)
  moreover have b: "inner_get (ps_banned s') (hex_encode gid) (hex_encode mk) \<noteq> None" by (simp add: s'_def inner_get_def)
  moreover have "ps_groups s' = ps_groups s" "ps_storage s' = ps_storage s" "ps_identitySignPub s' = ps_identitySignPub s"
    by (simp_all add: s'_def)
  moreover from this have "snd (BanMember P C save t1' t2' t3' gid mk reason' s') = Inl ErrAlreadyBanned"
    using st role(1) b by (simp add: BanMember_def Let_def)
  ultimately show ?thesis by (auto simp: IsBanned_def)
qed

theorem failed_ban_still_bans_witness:
  "\<exists>s' e. BanMember toy ref_codecs SaveGroup 1 1 1 (replicate 32 1) (replicate 32 5) ''mistake'' example_public =
     (s', Inl (Wrap ''failed to remove member'' e)) \<and> IsBanned (replicate 32 1) (replicate 32 5) s'"
  using failed_ban_still_bans[OF ref_codecs_ok toy_sig example_public_facts(1,3,5,6,7) disjI1[OF example_public_facts(13)[symmetric]],
      of SaveGroup 1 1 1 "''mistake''"] by blast

text \<open>Muting: when an admin or owner mutes someone who has no running mute, the call succeeds, the
  returned action verifies under the moderator's key, and from then on \<open>IsMuted\<close> is true exactly
  before the time \<open>now + duration\<close>, computed with 64-bit wrap-around: a duration that overflows mutes
  nobody at the time of the call. Asking does not disturb the answer for any other member.\<close>

theorem MuteMember_until:
  assumes "codecs_ok C" "sig_correct P" "length (ps_identitySignPriv s) = 64" "ps_identitySignPub s = ed_public P (ps_identitySignPriv s)"
    and st: "gm_get (ps_groups s) (hex_encode gid) = Some st"
    and role: "isMemberWithRole st (ps_identitySignPub s) [Admin, Owner]" "\<not> snd (IsMuted now gid mk s)"
      "gm_get (ps_muted s) (hex_encode gid) = Some mutes"
  shows "\<exists>s' act. MuteMember P C now gid mk reason dur s = (s', Inr act)
    \<and> ModerationAction_Verify P (c_action C) (ps_identitySignPub s) act = Inr True
    \<and> (\<forall>t. snd (IsMuted t gid mk s') \<longleftrightarrow> t < now + dur)
    \<and> (\<forall>t t' mk'. mk' \<noteq> mk \<longrightarrow> snd (IsMuted t gid mk' (fst (IsMuted t' gid mk s'))) = snd (IsMuted t gid mk' s))"
proof -
  let ?a = "\<lparr>ma_TargetMemberPubkey = mk, ma_ActionType = ''mute'', ma_Reason = reason, ma_DurationSeconds = dur,
      ma_TargetMessageID = [], ma_ModeratorPubkey = ps_identitySignPub s, ma_Timestamp = now, ma_Signature = []\<rparr>"
  obtain sg where sg: "ModerationAction_Sign P (c_action C) (ps_identitySignPriv s) ?a = (?a\<lparr>ma_Signature := sg\<rparr>, Inr ())"
    "ModerationAction_Verify P (c_action C) (ed_public P (ps_identitySignPriv s)) (?a\<lparr>ma_Signature := sg\<rparr>) = Inr True"
    using action_sign_ok[OF assms(1,2,3), of ?a] by auto
  have free: "\<not> (case inner_get (ps_muted s) (hex_encode gid) (hex_encode mk) of None \<Rightarrow> False | Some m \<Rightarrow> mm_ExpiresAt m > now)"
    using role(2) by (auto simp: IsMuted_def Let_def split: option.splits if_splits)
  define s' where "s' = s\<lparr>ps_muted := gm_set (hex_encode gid) (gm_set (hex_encode mk) \<lparr>mm_Pubkey = mk, mm_MutedAt = now,
      mm_DurationSec = dur, mm_ExpiresAt = now + dur, mm_Reason = reason, mm_Moderator = ps_identitySignPub s\<rparr> mutes) (ps_muted s)\<rparr>"
  have "MuteMember P C now gid mk reason dur s = (s', Inr (?a\<lparr>ma_Signature := sg\<rparr>))"
    using st role(1,3) sg(1) free by (simp add: MuteMember_def inner_set_def s'_def Let_def)
  moreover have "snd (IsMuted t gid mk s') \<longleftrightarrow> t < now + dur" for t
    by (auto simp: IsMuted_def s'_def inner_get_def Let_def)
  moreover have "snd (IsMuted t gid mk' (fst (IsMuted t' gid mk s'))) = snd (IsMuted t gid mk' s)" if "mk' \<noteq> mk" for t t' mk'
    using that role(3) by (auto simp: IsMuted_def s'_def inner_get_def Let_def split: option.split)
  ultimately show ?thesis using sg(2) assms(4) by (intro exI[of _ s'] exI[of _ "?a\<lparr>ma_Signature := sg\<rparr>"]) simp
qed

theorem MuteMember_until_witness:
  "\<exists>s' act. MuteMember toy ref_codecs 100 (replicate 32 1) [8] ''spam'' (- 50) example_public = (s', Inr act) \<and>
     \<not> snd (IsMuted 100 (replicate 32 1) [8] s')"
proof -
  have p: "ps_identitySignPub example_public = ed_public toy (ps_identitySignPriv example_public)"
    by (simp add: example_public_def NewPublicGroupService_def)
  have m: "\<not> snd (IsMuted 100 (replicate 32 1) [8] example_public)"
    by (simp add: IsMuted_def inner_get_def example_public_facts)
  have "\<not> (100 :: u64) < 100 + - 50" by (simp add: u_less_unat)
  then show ?thesis
    using MuteMember_until[OF ref_codecs_ok toy_sig example_public_facts(1) p example_public_facts(3,5) m example_public_facts(8),
        of "''spam''" "- 50"] by blast
qed

section \<open>Rate limiting\<close>

text \<open>A series of calls for one sender at the given times; the second component collects the times of the
  calls that were allowed.\<close>

definition rate_step :: "bytes \<Rightarrow> bytes \<Rightarrow> u64 \<Rightarrow> u64 \<Rightarrow> 's PublicGroupService \<times> u64 list \<Rightarrow> u64 \<Rightarrow> 's PublicGroupService \<times> u64 list" where
  "rate_step gid pk mx w sa t =
     (case CheckRateLimit t gid pk mx w (fst sa) of
        (s1, Inr b) \<Rightarrow> (s1, if b then snd sa @ [t] else snd sa)
      | (s1, Inl _) \<Rightarrow> (s1, snd sa))"

definition rate_run :: "bytes \<Rightarrow> bytes \<Rightarrow> u64 \<Rightarrow> u64 \<Rightarrow> u64 list \<Rightarrow> 's PublicGroupService \<Rightarrow> 's PublicGroupService \<times> u64 list" where
  "rate_run gid pk mx w ts s = foldl (rate_step gid pk mx w) (s, []) ts"

text \<open>The stored timestamps stand for the allowed calls as far as any present or later window reaches.\<close>

definition rate_inv :: "bytes \<Rightarrow> bytes \<Rightarrow> u64 \<Rightarrow> u64 \<Rightarrow> 's PublicGroupService \<times> u64 list \<Rightarrow> bool" where
  "rate_inv gid pk mx lo sa \<longleftrightarrow> (\<exists>lim L. gm_get (ps_rateLimits (fst sa)) (hex_encode gid) = Some lim \<and>
     gm_get lim (hex_encode pk) = Some L \<and> (\<forall>c\<ge>lo. filter (\<lambda>x. c < x) L = filter (\<lambda>x. c < x) (snd sa)) \<and>
     length (filter (\<lambda>x. lo < x) (snd sa)) \<le> unat mx)"

lemma filter_greater_mono:
  fixes c d :: u64
  assumes "c \<le> d"
  shows "filter (\<lambda>x. d < x) (filter (\<lambda>x. c < x) xs) = filter (\<lambda>x. d < x) xs"
    "length (filter (\<lambda>x. d < x) xs) \<le> length (filter (\<lambda>x. c < x) xs)"
  using assms by (induction xs) auto

lemma u64_length_ge: "n \<le> unat (m :: u64) \<Longrightarrow> (of_nat n :: u64) \<ge> m \<longleftrightarrow> n \<ge> unat m"
proof -
  assume "n \<le> unat m"
  moreover have "unat m < 2 ^ LENGTH(64)" by (rule unsigned_less)
  ultimately have "n < 2 ^ 64" by simp
  then show ?thesis by (simp add: word_le_nat_alt unat_of_nat)
qed

lemma u64_diff_mono: "(a :: u64) \<le> b \<Longrightarrow> w \<le> a \<Longrightarrow> a - w \<le> b - w"
  by (simp add: word_le_nat_alt unat_sub_if')

lemma rate_call:
  assumes "rate_inv gid pk mx lo (s, acc)" "lo \<le> t - w"
  shows "\<exists>s'. CheckRateLimit t gid pk mx w s = (s', Inr (length (filter (\<lambda>x. t - w < x) acc) < unat mx))
    \<and> rate_inv gid pk mx (t - w) (s', if length (filter (\<lambda>x. t - w < x) acc) < unat mx then acc @ [t] else acc)"
proof -
  let ?gk = "hex_encode gid" and ?sk = "hex_encode pk" and ?c = "t - w"
  obtain lim L where L: "gm_get (ps_rateLimits s) ?gk = Some lim" "gm_get lim ?sk = Some L"
    "\<And>c. c \<ge> lo \<Longrightarrow> filter (\<lambda>x. c < x) L = filter (\<lambda>x. c < x) acc" "length (filter (\<lambda>x. lo < x) acc) \<le> unat mx"
    using assms(1) by (auto simp: rate_inv_def)
  have v: "filter (\<lambda>x. ?c < x) L = filter (\<lambda>x. ?c < x) acc" using L(3) assms(2) by blast
  have le: "length (filter (\<lambda>x. ?c < x) acc) \<le> unat mx" using filter_greater_mono(2)[OF assms(2), of acc] L(4) by linarith
  have ge: "(of_nat (length (filter (\<lambda>x. ?c < x) acc)) :: u64) \<ge> mx \<longleftrightarrow> \<not> length (filter (\<lambda>x. ?c < x) acc) < unat mx"
    using u64_length_ge[OF le] by (simp add: not_less)
  define new where "new = (if length (filter (\<lambda>x. ?c < x) acc) < unat mx then filter (\<lambda>x. ?c < x) acc @ [t] else filter (\<lambda>x. ?c < x) acc)"
  let ?s' = "s\<lparr>ps_rateLimits := gm_set ?gk (gm_set ?sk new lim) (ps_rateLimits s)\<rparr>"
  have "CheckRateLimit t gid pk mx w s = (?s', Inr (length (filter (\<lambda>x. ?c < x) acc) < unat mx))"
    using L(1,2) v ge by (simp add: CheckRateLimit_def inner_get_def inner_set_def new_def Let_def)
  moreover have "rate_inv gid pk mx ?c (?s', if length (filter (\<lambda>x. ?c < x) acc) < unat mx then acc @ [t] else acc)"
    using le filter_greater_mono(1)[of ?c _ acc] by (auto simp: rate_inv_def new_def)
  ultimately show ?thesis by blast
qed

lemma rate_first:
  assumes "gm_get (ps_rateLimits s) (hex_encode gid) = Some lim" "gm_get lim (hex_encode pk) = None" "1 \<le> unat mx"
  shows "rate_inv gid pk mx lo (rate_step gid pk mx w (s, []) t)"
  using assms by (auto simp: rate_step_def CheckRateLimit_def inner_get_def inner_set_def rate_inv_def Let_def)

lemma rate_run_inv:
  assumes "gm_get (ps_rateLimits s) (hex_encode gid) = Some lim" "gm_get lim (hex_encode pk) = None" "1 \<le> unat mx"
  shows "ts \<noteq> [] \<Longrightarrow> sorted ts \<Longrightarrow> \<forall>t\<in>set ts. w \<le> t \<Longrightarrow>
    rate_inv gid pk mx (last ts - w) (rate_run gid pk mx w ts s)"
proof (induction ts rule: rev_induct)
  case (snoc t ts)
  show ?case
  proof (cases "ts = []")
    case True
    then show ?thesis using rate_first[OF assms, of _ w t] by (simp add: rate_run_def)
  next
    case False
    obtain s1 acc where run: "rate_run gid pk mx w ts s = (s1, acc)" by fastforce
    have inv: "rate_inv gid pk mx (last ts - w) (s1, acc)"
      using snoc False run by (simp add: sorted_append)
    have "last ts \<le> t" "w \<le> last ts" using snoc.prems False by (auto simp: sorted_append)
    then have "last ts - w \<le> t - w" by (rule u64_diff_mono)
    from rate_call[OF inv this] show ?thesis using run by (auto simp: rate_run_def rate_step_def)
  qed
qed simp

text \<open>C32. Rate limiting is an exact sliding window: for calls of one sender at non-decreasing times, with
  a limit of at least one and a window no longer than the clock, the calls allowed within the window
  before the last call never exceed the limit, and the next call is allowed exactly when fewer than
  the limit were allowed within its own window.\<close>

theorem rate_limit_sliding_window:
  assumes "gm_get (ps_rateLimits s) (hex_encode gid) = Some lim" "gm_get lim (hex_encode pk) = None" "1 \<le> unat mx"
    and "ts \<noteq> []" "sorted (ts @ [t])" "\<forall>t\<in>set ts. w \<le> t"
  shows "\<exists>s' allowed. rate_run gid pk mx w ts s = (s', allowed)
    \<and> length (filter (\<lambda>x. last ts - w < x) allowed) \<le> unat mx
    \<and> snd (CheckRateLimit t gid pk mx w s') = Inr (length (filter (\<lambda>x. t - w < x) allowed) < unat mx)"
proof -
  obtain s' acc where run: "rate_run gid pk mx w ts s = (s', acc)" by fastforce
  have inv: "rate_inv gid pk mx (last ts - w) (s', acc)"
    using rate_run_inv[OF assms(1-3,4), of w] assms(5,6) run by (simp add: sorted_append)
  have "last ts \<le> t" "w \<le> last ts" using assms(4-6) by (auto simp: sorted_append)
  then have "last ts - w \<le> t - w" by (rule u64_diff_mono)
  from rate_call[OF inv this] show ?thesis using run inv by (auto simp: rate_inv_def)
qed

theorem rate_limit_sliding_window_witness:
  "\<exists>s' allowed. rate_run (replicate 32 1) [8] 2 10 [100, 101, 102] example_public = (s', allowed)
    \<and> length (filter (\<lambda>x. 92 < x) allowed) \<le> 2"
proof -
  have "sorted ([100, 101, 102] @ [102 :: u64])" by (simp add: word_le_nat_alt)
  from rate_limit_sliding_window[OF example_public_facts(9) gm_get_empty _ _ this, of 2 10 "[8]"]
  show ?thesis by (auto simp: word_le_nat_alt)
qed

section \<open>Proof of work\<close>

lemma pow_loop_sound: "pow_loop P data d n = Inr nonce \<Longrightarrow> VerifyProofOfWork P data nonce d"
proof (induction P data d n rule: pow_loop.induct)
  case (1 P data d n)
  then show ?case by (subst (asm) (2) pow_loop.simps) (auto simp: VerifyProofOfWork_def Let_def split: if_splits)
qed

lemma pow_loop_complete:
  "k < n \<Longrightarrow> n \<le> 1000001 \<Longrightarrow> pow_meets P data d (le_bytes 8 (of_nat n :: u64)) \<Longrightarrow> is_ok (pow_loop P data d (of_nat k))"
proof (induction "n - k" arbitrary: k)
  case (Suc j)
  have step: "(of_nat k :: u64) + 1 = of_nat (Suc k)" by (simp add: add.commute)
  show ?case
  proof (cases "pow_meets P data d (le_bytes 8 (of_nat (Suc k) :: u64))")
    case False
    then have "n \<noteq> Suc k" using Suc.prems(3) by auto
    then have k: "Suc k < n" using Suc.prems(1) by simp
    then have "unat (of_nat (Suc k) :: u64) \<le> 1000000" using Suc.prems(2) by (simp add: unat_of_nat del: of_nat_Suc)
    then have "\<not> (of_nat (Suc k) :: u64) > 1000000" by (simp add: u_less_unat not_less del: of_nat_Suc)
    then show ?thesis using Suc.hyps(1)[of "Suc k"] Suc.hyps(2) Suc.prems k False
      by (subst pow_loop.simps) (simp add: step Let_def del: of_nat_Suc)
  qed (subst pow_loop.simps, simp add: step Let_def del: of_nat_Suc)
qed simp

text \<open>Proof of work: the search always returns; a nonce it returns passes verification; and it
  fails only if none of the first 1000001 nonces, encoded in eight bytes, would pass.\<close>

theorem proof_of_work_correct:
  "(\<forall>nonce. ComputeProofOfWork P data d = Inr nonce \<longrightarrow> VerifyProofOfWork P data nonce d)
   \<and> (\<forall>e n. ComputeProofOfWork P data d = Inl e \<and> 1 \<le> n \<and> n \<le> 1000001 \<longrightarrow>
        \<not> VerifyProofOfWork P data (le_bytes 8 (of_nat n :: u64)) d)"
proof -
  have "is_ok (ComputeProofOfWork P data d)" if "1 \<le> n" "n \<le> 1000001" "VerifyProofOfWork P data (le_bytes 8 (of_nat n :: u64)) d" for n
    using pow_loop_complete[of 0 n P data d] that by (simp add: ComputeProofOfWork_def VerifyProofOfWork_def)
  then show ?thesis using pow_loop_sound by (fastforce simp: ComputeProofOfWork_def)
qed

theorem proof_of_work_correct_witness:
  "ComputeProofOfWork toy [0] 1 = Inr (le_bytes 8 (1 :: u64)) \<and> VerifyProofOfWork toy [0] (le_bytes 8 (1 :: u64)) 1"
proof -
  have "ComputeProofOfWork toy [0] 1 = Inr (le_bytes 8 (1 :: u64))"
    by (simp add: ComputeProofOfWork_def pow_loop.simps pow_meets_def pad32_def)
  then show ?thesis using proof_of_work_correct[of toy "[0]" 1] by simp
qed

end
