(* ===== verification/GoTime.thy ===== *)
theory GoTime
  imports Prelude
begin

text \<open>
  The part of Go's package \<open>time\<close> that the components use: a \<open>time.Time\<close> is a number of nanoseconds since
  the epoch, a \<open>time.Duration\<close> an \<open>int64\<close> number of nanoseconds. \<open>Unix()\<close> rounds down to seconds.
\<close>

type_synonym time = int

text \<open>\<open>Sub\<close> of two times saturates at the bounds of an \<open>int64\<close>.\<close>

definition time_sub :: "time \<Rightarrow> time \<Rightarrow> int" where
  "time_sub t u = max (- (2 ^ 63)) (min (2 ^ 63 - 1) (t - u))"

definition unix :: "time \<Rightarrow> u64" where
  "unix t = word_of_int (t div 1000000000)"

definition unixTime :: "u64 \<Rightarrow> time" where
  "unixTime secs = sint secs * 1000000000"

text \<open>\<open>time.Duration(secs) * time.Second\<close> wraps around at 64 bits.\<close>

definition seconds :: "u64 \<Rightarrow> int" where
  "seconds secs = sint (secs * 1000000000 :: u64)"

text \<open>\<open>t.Unix() / 3600\<close>: Go's division truncates towards zero.\<close>

definition hour_bucket :: "time \<Rightarrow> int" where
  "hour_bucket t = (let s = t div 1000000000 in if s < 0 then - ((- s) div 3600) else s div 3600)"

definition whole_second :: "time \<Rightarrow> time" where "whole_second t = t div 1000000000 * 1000000000"

text \<open>The seconds fit an \<open>int64\<close>.\<close>

definition time_ok :: "time \<Rightarrow> bool" where
  "time_ok t \<longleftrightarrow> - (2 ^ 63) \<le> t div 1000000000 \<and> t div 1000000000 < 2 ^ 63"

lemma sint_of_int64: "- (2 ^ 63) \<le> k \<Longrightarrow> k < 2 ^ 63 \<Longrightarrow> sint (word_of_int k :: u64) = k"
  by (simp add: signed_of_int signed_take_bit_int_eq_self)

lemma unixTime_unix: "time_ok t \<Longrightarrow> unixTime (unix t) = whole_second t"
  by (simp add: time_ok_def unixTime_def unix_def whole_second_def sint_of_int64)

lemma unix_zero: "time_ok t \<Longrightarrow> unix t = 0 \<longleftrightarrow> t div 1000000000 = 0"
  unfolding time_ok_def unix_def by (metis sint_of_int64 sint_0 word_of_int_0)

end
