(* ===== verification/CallSession.thy ===== *)
theory CallSession
  imports Crypto RefCodec GoTime
begin

text \<open>
  \<open>pkg/rtc/session.go\<close>: call sessions and the session manager. A \<open>time.Time\<close> is a number of nanoseconds
  since the epoch, \<open>*time.Time\<close> an option; the clock, the random reader and the UUID generator are
  arguments. The manager calls its callbacks while it holds its lock. A callback is a function on the
  state \<open>'w\<close> of whoever installed it, and may block forever on a lock of its own: operations that
  call one return an option, \<open>None\<close> when they never return. An error \<open>fmt.Errorf("%w: text", err)\<close> is
  \<open>Wrap text err\<close>.
\<close>

section \<open>Types and constants\<close>

definition CallStateIdle :: string where "CallStateIdle = ''idle''"
definition CallStateOffered :: string where "CallStateOffered = ''offered''"
definition CallStateAccepted :: string where "CallStateAccepted = ''accepted''"
definition CallStateConnecting :: string where "CallStateConnecting = ''connecting''"
definition CallStateActive :: string where "CallStateActive = ''active''"
definition CallStateEnded :: string where "CallStateEnded = ''ended''"

lemmas call_states = CallStateIdle_def CallStateOffered_def CallStateAccepted_def CallStateConnecting_def
  CallStateActive_def CallStateEnded_def

definition CallTypeAudio :: string where "CallTypeAudio = ''audio''"
definition CallTypeVideo :: string where "CallTypeVideo = ''video''"

definition HangupNormal :: string where "HangupNormal = ''normal''"
definition HangupTimeout :: string where "HangupTimeout = ''timeout''"
definition HangupError :: string where "HangupError = ''error''"

definition OfferTimeout :: int where "OfferTimeout = 60 * 1000000000"

definition ErrCallNotFound :: go_error where "ErrCallNotFound = Err ''call not found''"
definition ErrCallAlreadyExists :: go_error where "ErrCallAlreadyExists = Err ''call already exists''"
definition ErrInvalidCallState :: go_error where "ErrInvalidCallState = Err ''invalid call state''"

record CallSession =
  cs_CallID :: string
  cs_LocalIdentity :: bytes
  cs_RemoteIdentity :: "bytes option"
  cs_CallType :: string
  cs_State :: string
  cs_CreatedAt :: time
  cs_UpdatedAt :: time
  cs_ExpiresAt :: time
  cs_LocalSDP :: string
  cs_RemoteSDP :: string
  cs_LocalICECandidates :: "string list"
  cs_RemoteICECandidates :: "string list"
  cs_MediaKey :: bytes
  cs_SSRCLocal :: u32
  cs_SSRCRemote :: u32
  cs_ConnectedAt :: "time option"
  cs_EndedAt :: "time option"
  cs_HangupReason :: string

record SessionManager =
  sm_sessions :: "(string, CallSession) gomap"
  sm_identity :: bytes
  sm_running :: bool

record 'w session_callbacks =
  onICECandidate :: "(CallSession \<Rightarrow> string \<Rightarrow> 'w \<Rightarrow> 'w option) option"
  onCallEnded :: "(CallSession \<Rightarrow> 'w \<Rightarrow> 'w option) option"
  onStateChanged :: "(CallSession \<Rightarrow> string \<Rightarrow> string \<Rightarrow> 'w \<Rightarrow> 'w option) option"

type_synonym ('s, 'a) beff = "('s \<times> 'a res) option"

definition NewSessionManager :: "bytes \<Rightarrow> SessionManager" where
  "NewSessionManager pub = \<lparr>sm_sessions = [], sm_identity = pub, sm_running = True\<rparr>"

section \<open>Creating and finding sessions\<close>

text \<open>Both loops over the sessions look for the same thing: a session with the peer that is not ended.\<close>

definition live_with :: "bytes option \<Rightarrow> CallSession \<Rightarrow> bool" where
  "live_with remoteIdentity session \<longleftrightarrow> cs_RemoteIdentity session \<noteq> None \<and>
     hex_encode (slice (cs_RemoteIdentity session)) = hex_encode (slice remoteIdentity) \<and> cs_State session \<noteq> CallStateEnded"

definition generateSSRC :: "bytes res \<Rightarrow> int \<Rightarrow> u32" where
  "generateSSRC rnd nano = (case rnd of Inl _ \<Rightarrow> word_of_int nano | Inr b \<Rightarrow> be_uint (take 4 b))"

definition new_session :: "string \<Rightarrow> bytes \<Rightarrow> bytes option \<Rightarrow> string \<Rightarrow> time \<Rightarrow> string \<Rightarrow> u32 \<Rightarrow> u32 \<Rightarrow> CallSession" where
  "new_session callID local remote callType now sdp ssrcLocal ssrcRemote =
     \<lparr>cs_CallID = callID, cs_LocalIdentity = local, cs_RemoteIdentity = remote, cs_CallType = callType,
      cs_State = CallStateOffered, cs_CreatedAt = now, cs_UpdatedAt = now, cs_ExpiresAt = now + OfferTimeout,
      cs_LocalSDP = '''', cs_RemoteSDP = sdp, cs_LocalICECandidates = [], cs_RemoteICECandidates = [], cs_MediaKey = [],
      cs_SSRCLocal = ssrcLocal, cs_SSRCRemote = ssrcRemote, cs_ConnectedAt = None, cs_EndedAt = None, cs_HangupReason = ''''\<rparr>"

definition CreateOutgoingCall :: "string \<Rightarrow> time \<Rightarrow> u32 \<Rightarrow> bytes option \<Rightarrow> string \<Rightarrow> SessionManager \<Rightarrow> (SessionManager, CallSession) eff" where
  "CreateOutgoingCall uuid now ssrc remoteIdentity callType sm =
     (if \<exists>(_, session)\<in>set (sm_sessions sm). live_with remoteIdentity session then (sm, Inl ErrCallAlreadyExists)
      else let session = new_session uuid (sm_identity sm) remoteIdentity callType now '''' ssrc 0
           in (sm\<lparr>sm_sessions := gm_set uuid session (sm_sessions sm)\<rparr>, Inr session))"

text \<open>The session is stored before the log line takes the first 16 digits of the peer's key, so a
  shorter key panics with the session in the map.\<close>

definition CreateIncomingCall ::
    "time \<Rightarrow> u32 \<Rightarrow> u32 \<Rightarrow> string \<Rightarrow> bytes option \<Rightarrow> string \<Rightarrow> string \<Rightarrow> SessionManager \<Rightarrow> (SessionManager, CallSession) eff" where
  "CreateIncomingCall now ssrcRemote ssrcLocal callID remoteIdentity callType sdp sm =
     (if gm_get (sm_sessions sm) callID \<noteq> None then (sm, Inl ErrCallAlreadyExists)
      else let session = new_session callID (sm_identity sm) remoteIdentity callType now sdp ssrcLocal ssrcRemote;
               sm1 = sm\<lparr>sm_sessions := gm_set callID session (sm_sessions sm)\<rparr>
           in if length (hex_encode (slice remoteIdentity)) < 16 then (sm1, Inl (Panic ''slice bounds out of range''))
              else (sm1, Inr session))"

definition GetSession :: "string \<Rightarrow> SessionManager \<Rightarrow> CallSession res" where
  "GetSession callID sm = (case gm_get (sm_sessions sm) callID of None \<Rightarrow> Inl ErrCallNotFound | Some session \<Rightarrow> Inr session)"

definition GetActiveSessionWithPeer :: "bytes option \<Rightarrow> SessionManager \<Rightarrow> CallSession res" where
  "GetActiveSessionWithPeer remoteIdentity sm =
     (case find (live_with remoteIdentity) (map snd (sm_sessions sm)) of None \<Rightarrow> Inl ErrCallNotFound | Some session \<Rightarrow> Inr session)"

definition GetAllActiveSessions :: "SessionManager \<Rightarrow> CallSession list" where
  "GetAllActiveSessions sm = filter (\<lambda>session. cs_State session \<noteq> CallStateEnded) (map snd (sm_sessions sm))"

section \<open>Changing sessions\<close>

text \<open>A write through the pointer to a stored session.\<close>

definition put_session :: "CallSession \<Rightarrow> string \<Rightarrow> SessionManager \<Rightarrow> SessionManager" where
  "put_session session callID sm = sm\<lparr>sm_sessions := gm_set callID session (sm_sessions sm)\<rparr>"

definition with_session :: "string \<Rightarrow> (CallSession \<Rightarrow> CallSession) \<Rightarrow> SessionManager \<Rightarrow> (SessionManager, unit) eff" where
  "with_session callID f sm =
     (case gm_get (sm_sessions sm) callID of
        None \<Rightarrow> (sm, Inl ErrCallNotFound)
      | Some session \<Rightarrow> (put_session (f session) callID sm, Inr ()))"

text \<open>The switch of \<open>UpdateState\<close>: \<open>None\<close> is the early return for a call that has ended already.\<close>

definition next_state :: "time \<Rightarrow> string \<Rightarrow> CallSession \<Rightarrow> CallSession option res" where
  "next_state now newState session =
     (if newState = CallStateAccepted then
        (if cs_State session \<noteq> CallStateOffered then Inl (Wrap (''cannot accept call in state '' @ cs_State session) ErrInvalidCallState)
         else Inr (Some (session\<lparr>cs_State := CallStateAccepted\<rparr>)))
      else if newState = CallStateConnecting then
        (if cs_State session \<noteq> CallStateAccepted \<and> cs_State session \<noteq> CallStateOffered
         then Inl (Wrap (''cannot connect call in state '' @ cs_State session) ErrInvalidCallState)
         else Inr (Some (session\<lparr>cs_State := CallStateConnecting\<rparr>)))
      else if newState = CallStateActive then
        (if cs_State session \<noteq> CallStateConnecting \<and> cs_State session \<noteq> CallStateAccepted
         then Inl (Wrap (''cannot activate call in state '' @ cs_State session) ErrInvalidCallState)
         else Inr (Some (session\<lparr>cs_ConnectedAt := Some now, cs_State := CallStateActive\<rparr>)))
      else if newState = CallStateEnded then
        (if cs_State session = CallStateEnded then Inr None
         else Inr (Some (session\<lparr>cs_EndedAt := Some now, cs_State := CallStateEnded\<rparr>)))
      else Inr (Some (session\<lparr>cs_State := newState\<rparr>)))"

definition UpdateState :: "'w session_callbacks \<Rightarrow> time \<Rightarrow> time \<Rightarrow> string \<Rightarrow> string \<Rightarrow> SessionManager \<times> 'w \<Rightarrow> (SessionManager \<times> 'w, unit) beff" where
  "UpdateState CB now updated callID newState smw =
     (case smw of (sm, w) \<Rightarrow> case gm_get (sm_sessions sm) callID of
        None \<Rightarrow> Some ((sm, w), Inl ErrCallNotFound)
      | Some session \<Rightarrow> (case next_state now newState session of
          Inl e \<Rightarrow> Some ((sm, w), Inl e)
        | Inr None \<Rightarrow> Some ((sm, w), Inr ())
        | Inr (Some session1) \<Rightarrow>
            let session2 = session1\<lparr>cs_UpdatedAt := updated\<rparr>; sm1 = put_session session2 callID sm
            in case onStateChanged CB of
                 None \<Rightarrow> Some ((sm1, w), Inr ())
               | Some callback \<Rightarrow> (case callback session2 (cs_State session) newState w of
                   None \<Rightarrow> None | Some w1 \<Rightarrow> Some ((sm1, w1), Inr ()))))"

definition SetLocalSDP :: "time \<Rightarrow> string \<Rightarrow> string \<Rightarrow> SessionManager \<Rightarrow> (SessionManager, unit) eff" where
  "SetLocalSDP now callID sdp = with_session callID (\<lambda>session. session\<lparr>cs_LocalSDP := sdp, cs_UpdatedAt := now\<rparr>)"

definition SetRemoteSDP :: "time \<Rightarrow> string \<Rightarrow> string \<Rightarrow> SessionManager \<Rightarrow> (SessionManager, unit) eff" where
  "SetRemoteSDP now callID sdp = with_session callID (\<lambda>session. session\<lparr>cs_RemoteSDP := sdp, cs_UpdatedAt := now\<rparr>)"

definition AddLocalICECandidate ::
    "'w session_callbacks \<Rightarrow> time \<Rightarrow> string \<Rightarrow> string \<Rightarrow> SessionManager \<times> 'w \<Rightarrow> (SessionManager \<times> 'w, unit) beff" where
  "AddLocalICECandidate CB now callID candidate smw =
     (case smw of (sm, w) \<Rightarrow> case gm_get (sm_sessions sm) callID of
        None \<Rightarrow> Some ((sm, w), Inl ErrCallNotFound)
      | Some session \<Rightarrow>
          let session1 = session\<lparr>cs_LocalICECandidates := cs_LocalICECandidates session @ [candidate], cs_UpdatedAt := now\<rparr>;
              sm1 = put_session session1 callID sm
          in case onICECandidate CB of
               None \<Rightarrow> Some ((sm1, w), Inr ())
             | Some callback \<Rightarrow> (case callback session1 candidate w of None \<Rightarrow> None | Some w1 \<Rightarrow> Some ((sm1, w1), Inr ())))"

definition AddRemoteICECandidate :: "time \<Rightarrow> string \<Rightarrow> string \<Rightarrow> SessionManager \<Rightarrow> (SessionManager, unit) eff" where
  "AddRemoteICECandidate now callID candidate = with_session callID
     (\<lambda>session. session\<lparr>cs_RemoteICECandidates := cs_RemoteICECandidates session @ [candidate], cs_UpdatedAt := now\<rparr>)"

definition DeriveMediaKey :: "prims \<Rightarrow> string \<Rightarrow> bytes \<Rightarrow> SessionManager \<Rightarrow> (SessionManager, bytes) eff" where
  "DeriveMediaKey P callID sessionRootKey sm =
     (case gm_get (sm_sessions sm) callID of
        None \<Rightarrow> (sm, Inl ErrCallNotFound)
      | Some session \<Rightarrow> (case DeriveKey P sessionRootKey (str_bytes callID) (str_bytes ''bt-media-v1'') 32 of
          Inl e \<Rightarrow> (sm, Inl (Wrap ''failed to derive media key'' e))
        | Inr mediaKey \<Rightarrow> (put_session (session\<lparr>cs_MediaKey := mediaKey\<rparr>) callID sm, Inr mediaKey)))"

text \<open>The callback for the end of a call.\<close>

definition notify_ended :: "'w session_callbacks \<Rightarrow> CallSession \<Rightarrow> 'w \<Rightarrow> 'w option" where
  "notify_ended CB session w = (case onCallEnded CB of None \<Rightarrow> Some w | Some callback \<Rightarrow> callback session w)"

definition ended :: "time \<Rightarrow> string \<Rightarrow> CallSession \<Rightarrow> CallSession" where
  "ended now reason session = session\<lparr>cs_EndedAt := Some now, cs_HangupReason := reason, cs_State := CallStateEnded\<rparr>"

definition EndCall :: "'w session_callbacks \<Rightarrow> time \<Rightarrow> string \<Rightarrow> string \<Rightarrow> SessionManager \<times> 'w \<Rightarrow> (SessionManager \<times> 'w, unit) beff" where
  "EndCall CB now callID reason smw =
     (case smw of (sm, w) \<Rightarrow> case gm_get (sm_sessions sm) callID of
        None \<Rightarrow> Some ((sm, w), Inl ErrCallNotFound)
      | Some session \<Rightarrow>
          if cs_State session = CallStateEnded then Some ((sm, w), Inr ())
          else let session1 = (ended now reason session)\<lparr>cs_UpdatedAt := now\<rparr>
               in case notify_ended CB session1 w of
                    None \<Rightarrow> None | Some w1 \<Rightarrow> Some ((put_session session1 callID sm, w1), Inr ()))"

definition DeleteSession :: "string \<Rightarrow> SessionManager \<Rightarrow> (SessionManager, unit) eff" where
  "DeleteSession callID sm =
     (if gm_get (sm_sessions sm) callID = None then (sm, Inl ErrCallNotFound)
      else (sm\<lparr>sm_sessions := gm_del callID (sm_sessions sm)\<rparr>, Inr ()))"

text \<open>One tick of \<open>cleanupExpiredOffers\<close>, over the entries of the map.\<close>

fun cleanup_loop :: "'w session_callbacks \<Rightarrow> time \<Rightarrow> (string \<times> CallSession) list \<Rightarrow> SessionManager \<times> 'w \<Rightarrow> (SessionManager \<times> 'w) option" where
  "cleanup_loop CB now [] smw = Some smw"
| "cleanup_loop CB now ((callID, session) # rest) (sm, w) =
     (if cs_State session = CallStateOffered \<and> now > cs_ExpiresAt session then
        (case notify_ended CB (ended now HangupTimeout session) w of
           None \<Rightarrow> None
         | Some w1 \<Rightarrow> cleanup_loop CB now rest (sm\<lparr>sm_sessions := gm_del callID (sm_sessions sm)\<rparr>, w1))
      else cleanup_loop CB now rest (sm, w))"

definition cleanupExpiredOffers :: "'w session_callbacks \<Rightarrow> time \<Rightarrow> SessionManager \<times> 'w \<Rightarrow> (SessionManager \<times> 'w) option" where
  "cleanupExpiredOffers CB now smw =
     (if sm_running (fst smw) then cleanup_loop CB now (sm_sessions (fst smw)) smw else Some smw)"

text \<open>\<open>Stop\<close> reads the clock once per session.\<close>

definition SessionManager_Stop :: "(string \<Rightarrow> time) \<Rightarrow> SessionManager \<Rightarrow> SessionManager" where
  "SessionManager_Stop now sm = sm\<lparr>sm_running := False,
     sm_sessions := map (\<lambda>(callID, session). (callID,
       if cs_State session \<noteq> CallStateEnded then ended (now callID) HangupNormal session else session)) (sm_sessions sm)\<rparr>"

section \<open>Sessions as messages\<close>

record RTCOffer =
  ro_Sdp :: string
  ro_CallId :: string
  ro_Video :: bool

record RTCAnswer =
  ra_Sdp :: string
  ra_CallId :: string

record RTCIceCandidate =
  ri_Candidate :: string
  ri_SdpMid :: string
  ri_SdpMlineIdx :: u32
  ri_CallId :: string

record RTCHangup =
  rg_CallId :: string
  rg_Reason :: string

record pb_CallSession =
  pc_CallId :: string
  pc_LocalIdentity :: bytes
  pc_RemoteIdentity :: bytes
  pc_CallType :: string
  pc_State :: string
  pc_CreatedAt :: u64
  pc_UpdatedAt :: u64
  pc_ExpiresAt :: u64
  pc_LocalSdp :: string
  pc_RemoteSdp :: string
  pc_LocalIceCandidates :: "string list"
  pc_RemoteIceCandidates :: "string list"
  pc_MediaKey :: bytes
  pc_SsrcLocal :: u32
  pc_SsrcRemote :: u32
  pc_ConnectedAt :: u64
  pc_EndedAt :: u64
  pc_HangupReason :: string

definition ToRTCOffer :: "CallSession \<Rightarrow> RTCOffer" where
  "ToRTCOffer s = \<lparr>ro_Sdp = cs_LocalSDP s, ro_CallId = cs_CallID s, ro_Video = (cs_CallType s = CallTypeVideo)\<rparr>"

definition ToRTCAnswer :: "CallSession \<Rightarrow> RTCAnswer" where
  "ToRTCAnswer s = \<lparr>ra_Sdp = cs_LocalSDP s, ra_CallId = cs_CallID s\<rparr>"

definition ToRTCIceCandidate :: "string \<Rightarrow> string \<Rightarrow> u32 \<Rightarrow> CallSession \<Rightarrow> RTCIceCandidate" where
  "ToRTCIceCandidate candidate sdpMid mlineIdx s =
     \<lparr>ri_Candidate = candidate, ri_SdpMid = sdpMid, ri_SdpMlineIdx = mlineIdx, ri_CallId = cs_CallID s\<rparr>"

definition ToRTCHangup :: "string \<Rightarrow> CallSession \<Rightarrow> RTCHangup" where
  "ToRTCHangup reason s = \<lparr>rg_CallId = cs_CallID s, rg_Reason = reason\<rparr>"

definition Duration :: "time \<Rightarrow> CallSession \<Rightarrow> int" where
  "Duration now s = (case cs_ConnectedAt s of
      None \<Rightarrow> 0
    | Some connected \<Rightarrow> time_sub (case cs_EndedAt s of None \<Rightarrow> now | Some e \<Rightarrow> e) connected)"

definition CallSession_IsExpired :: "time \<Rightarrow> CallSession \<Rightarrow> bool" where
  "CallSession_IsExpired now s \<longleftrightarrow> cs_State s = CallStateOffered \<and> now > cs_ExpiresAt s"

definition opt_unix :: "time option \<Rightarrow> u64" where
  "opt_unix v = (case v of None \<Rightarrow> 0 | Some t \<Rightarrow> unix t)"

definition opt_time :: "u64 \<Rightarrow> time option" where
  "opt_time v = (if v > 0 then Some (unixTime v) else None)"

definition session_proto :: "CallSession \<Rightarrow> pb_CallSession" where
  "session_proto s = \<lparr>pc_CallId = cs_CallID s, pc_LocalIdentity = cs_LocalIdentity s, pc_RemoteIdentity = slice (cs_RemoteIdentity s),
     pc_CallType = cs_CallType s, pc_State = cs_State s, pc_CreatedAt = unix (cs_CreatedAt s), pc_UpdatedAt = unix (cs_UpdatedAt s),
     pc_ExpiresAt = unix (cs_ExpiresAt s), pc_LocalSdp = cs_LocalSDP s, pc_RemoteSdp = cs_RemoteSDP s,
     pc_LocalIceCandidates = cs_LocalICECandidates s, pc_RemoteIceCandidates = cs_RemoteICECandidates s, pc_MediaKey = cs_MediaKey s,
     pc_SsrcLocal = cs_SSRCLocal s, pc_SsrcRemote = cs_SSRCRemote s,
     pc_ConnectedAt = opt_unix (cs_ConnectedAt s), pc_EndedAt = opt_unix (cs_EndedAt s), pc_HangupReason = cs_HangupReason s\<rparr>"

definition Marshal :: "pb_CallSession codec \<Rightarrow> CallSession \<Rightarrow> bytes res" where
  "Marshal K s = marshal K (session_proto s)"

text \<open>Protobuf leaves an empty bytes field nil.\<close>

definition decoded :: "bytes \<Rightarrow> bytes option" where
  "decoded b = (if b = [] then None else Some b)"

definition UnmarshalCallSession :: "pb_CallSession codec \<Rightarrow> bytes \<Rightarrow> CallSession res" where
  "UnmarshalCallSession K data = rbind (unmarshal K data) (\<lambda>p. Inr
     \<lparr>cs_CallID = pc_CallId p, cs_LocalIdentity = pc_LocalIdentity p,
      cs_RemoteIdentity = decoded (pc_RemoteIdentity p), cs_CallType = pc_CallType p,
      cs_State = pc_State p, cs_CreatedAt = unixTime (pc_CreatedAt p), cs_UpdatedAt = unixTime (pc_UpdatedAt p),
      cs_ExpiresAt = unixTime (pc_ExpiresAt p), cs_LocalSDP = pc_LocalSdp p, cs_RemoteSDP = pc_RemoteSdp p,
      cs_LocalICECandidates = pc_LocalIceCandidates p, cs_RemoteICECandidates = pc_RemoteIceCandidates p,
      cs_MediaKey = pc_MediaKey p, cs_SSRCLocal = pc_SsrcLocal p, cs_SSRCRemote = pc_SsrcRemote p,
      cs_ConnectedAt = opt_time (pc_ConnectedAt p), cs_EndedAt = opt_time (pc_EndedAt p), cs_HangupReason = pc_HangupReason p\<rparr>)"

section \<open>The life of a call\<close>

text \<open>The steps of the manager. \<open>UpdateState\<close> appears with the four states its switch handles; the other
  names go through its default branch and are treated apart.\<close>

inductive sm_step :: "prims \<Rightarrow> 'w session_callbacks \<Rightarrow> SessionManager \<times> 'w \<Rightarrow> SessionManager \<times> 'w \<Rightarrow> bool" for P CB where
  outgoing: "gm_get (sm_sessions sm) uuid = None \<Longrightarrow> CreateOutgoingCall uuid now ssrc peer ct sm = (sm', r) \<Longrightarrow> sm_step P CB (sm, w) (sm', w)"
| incoming: "CreateIncomingCall now ssrcR ssrcL cid peer ct sdp sm = (sm', r) \<Longrightarrow> sm_step P CB (sm, w) (sm', w)"
| update: "UpdateState CB now upd cid st smw = Some (smw', r') \<Longrightarrow>
    st \<in> {CallStateAccepted, CallStateConnecting, CallStateActive, CallStateEnded} \<Longrightarrow> sm_step P CB smw smw'"
| local_sdp: "SetLocalSDP now cid sdp sm = (sm', r') \<Longrightarrow> sm_step P CB (sm, w) (sm', w)"
| remote_sdp: "SetRemoteSDP now cid sdp sm = (sm', r') \<Longrightarrow> sm_step P CB (sm, w) (sm', w)"
| local_ice: "AddLocalICECandidate CB now cid cand smw = Some (smw', r') \<Longrightarrow> sm_step P CB smw smw'"
| remote_ice: "AddRemoteICECandidate now cid cand sm = (sm', r') \<Longrightarrow> sm_step P CB (sm, w) (sm', w)"
| media: "DeriveMediaKey P cid root sm = (sm', r'') \<Longrightarrow> sm_step P CB (sm, w) (sm', w)"
| hangup: "EndCall CB now cid reason smw = Some (smw', r') \<Longrightarrow> sm_step P CB smw smw'"
| delete: "DeleteSession cid sm = (sm', r') \<Longrightarrow> sm_step P CB (sm, w) (sm', w)"
| tick: "cleanupExpiredOffers CB now smw = Some smw' \<Longrightarrow> sm_step P CB smw smw'"
| stop: "sm_step P CB (sm, w) (SessionManager_Stop clock sm, w)"

text \<open>The abstract machine of one call; \<open>None\<close> is a call the manager does not know.\<close>

inductive call_move :: "string option \<Rightarrow> string option \<Rightarrow> bool" where
  stay: "call_move v v"
| offer: "call_move None (Some CallStateOffered)"
| accept: "call_move (Some CallStateOffered) (Some CallStateAccepted)"
| connect: "st \<in> {CallStateOffered, CallStateAccepted} \<Longrightarrow> call_move (Some st) (Some CallStateConnecting)"
| activate: "st \<in> {CallStateAccepted, CallStateConnecting} \<Longrightarrow> call_move (Some st) (Some CallStateActive)"
| finish: "st \<noteq> CallStateEnded \<Longrightarrow> call_move (Some st) (Some CallStateEnded)"
| forget: "call_move (Some st) None"

inductive_cases ended_moves: "call_move (Some CallStateEnded) v"

lemma ended_is_final: "call_move (Some CallStateEnded) v \<Longrightarrow> v = Some CallStateEnded \<or> v = None"
  by (erule ended_moves) (auto simp: call_states)

definition state_of :: "string \<Rightarrow> SessionManager \<Rightarrow> string option" where
  "state_of cid sm = map_option cs_State (gm_get (sm_sessions sm) cid)"

definition session_ok :: "string \<Rightarrow> CallSession \<Rightarrow> bool" where
  "session_ok cid s \<longleftrightarrow> cs_CallID s = cid \<and> cs_ExpiresAt s = cs_CreatedAt s + OfferTimeout \<and>
     (cs_State s = CallStateActive \<longrightarrow> cs_ConnectedAt s \<noteq> None) \<and> (cs_State s = CallStateEnded \<longrightarrow> cs_EndedAt s \<noteq> None)"

definition calls_ok :: "SessionManager \<Rightarrow> bool" where
  "calls_ok sm \<longleftrightarrow> gm_ok (sm_sessions sm) \<and> (\<forall>cid s. gm_get (sm_sessions sm) cid = Some s \<longrightarrow> session_ok cid s)"

text \<open>Every operation on an existing session replaces it by one that is well formed again and whose
  state is a move away: the two facts are proved together, once for the write and once for the removal.\<close>

definition good_step :: "SessionManager \<Rightarrow> SessionManager \<Rightarrow> bool" where
  "good_step sm sm' \<longleftrightarrow> (calls_ok sm \<longrightarrow> calls_ok sm') \<and> (\<forall>cid. call_move (state_of cid sm) (state_of cid sm'))"

lemma good_step_refl [simp]: "good_step sm sm"
  by (simp add: good_step_def stay)

lemma good_step_put:
  assumes "gm_get (sm_sessions sm) cid = Some s" "session_ok cid s \<Longrightarrow> session_ok cid s'"
    "call_move (Some (cs_State s)) (Some (cs_State s'))"
  shows "good_step sm (put_session s' cid sm)"
  using assms by (auto simp: good_step_def calls_ok_def state_of_def put_session_def stay)

lemma good_step_new:
  "gm_get (sm_sessions sm) cid = None \<Longrightarrow> cs_State s = CallStateOffered \<Longrightarrow> session_ok cid s \<Longrightarrow>
    good_step sm (sm\<lparr>sm_sessions := gm_set cid s (sm_sessions sm)\<rparr>)"
  by (auto simp: good_step_def calls_ok_def state_of_def intro: stay offer)

lemma good_step_del: "good_step sm (sm\<lparr>sm_sessions := gm_del cid (sm_sessions sm)\<rparr>)"
proof -
  have "call_move v None" for v by (cases v) (auto intro: stay forget)
  then show ?thesis by (auto simp: good_step_def calls_ok_def state_of_def intro: stay)
qed

lemma new_session_ok: "session_ok cid (new_session cid l r ct now sdp a b)" "cs_State (new_session cid l r ct now sdp a b) = CallStateOffered"
  by (simp_all add: session_ok_def new_session_def call_states)

lemma next_state_good:
  assumes "next_state now st s = Inr (Some s')" "st \<in> {CallStateAccepted, CallStateConnecting, CallStateActive, CallStateEnded}"
  shows "call_move (Some (cs_State s)) (Some (cs_State s'))" "session_ok cid s \<Longrightarrow> session_ok cid s'"
  using assms by (auto simp: next_state_def session_ok_def call_states split: if_splits
      intro: call_move.intros[unfolded call_states])

lemma UpdateState_good:
  assumes "UpdateState CB now upd cid st (sm, w) = Some ((sm', w'), r)"
    "st \<in> {CallStateAccepted, CallStateConnecting, CallStateActive, CallStateEnded}"
  shows "good_step sm sm'"
proof (cases "gm_get (sm_sessions sm) cid")
  case (Some s)
  show ?thesis
  proof (cases "\<exists>s1. next_state now st s = Inr (Some s1)")
    case True
    then obtain s1 where s1: "next_state now st s = Inr (Some s1)" by blast
    then have "sm' = put_session (s1\<lparr>cs_UpdatedAt := upd\<rparr>) cid sm"
      using assms Some by (auto simp: UpdateState_def Let_def split: option.splits)
    moreover have "session_ok cid s \<Longrightarrow> session_ok cid (s1\<lparr>cs_UpdatedAt := upd\<rparr>)"
      using next_state_good(2)[OF s1 assms(2)] by (simp add: session_ok_def)
    ultimately show ?thesis using good_step_put[OF Some] next_state_good(1)[OF s1 assms(2)] by simp
  next
    case False
    then have "sm' = sm" using assms Some by (auto simp: UpdateState_def split: sum.splits option.splits)
    then show ?thesis by simp
  qed
qed (use assms in \<open>simp add: UpdateState_def\<close>)

lemma with_session_good:
  assumes "with_session cid f sm = (sm', r)" "\<And>s. cs_State (f s) = cs_State s" "\<And>s. session_ok cid s \<Longrightarrow> session_ok cid (f s)"
  shows "good_step sm sm'"
  using assms good_step_put[of sm cid] by (auto simp: with_session_def stay split: option.splits)

lemma ended_good: "session_ok cid s \<Longrightarrow> session_ok cid (ended now reason s)" "cs_State (ended now reason s) = CallStateEnded"
  by (simp_all add: ended_def session_ok_def call_states)

lemma EndCall_good: "EndCall CB now cid reason (sm, w) = Some ((sm', w'), r) \<Longrightarrow> good_step sm sm'"
proof (cases "gm_get (sm_sessions sm) cid")
  case (Some s)
  assume "EndCall CB now cid reason (sm, w) = Some ((sm', w'), r)"
  then have "sm' = sm \<or> cs_State s \<noteq> CallStateEnded \<and> sm' = put_session ((ended now reason s)\<lparr>cs_UpdatedAt := now\<rparr>) cid sm"
    using Some by (auto simp: EndCall_def Let_def split: if_splits option.splits)
  moreover have "session_ok cid s \<Longrightarrow> session_ok cid ((ended now reason s)\<lparr>cs_UpdatedAt := now\<rparr>)"
    using ended_good(1)[of cid s now reason] by (simp add: session_ok_def)
  moreover have "cs_State s \<noteq> CallStateEnded \<Longrightarrow>
      call_move (Some (cs_State s)) (Some (cs_State ((ended now reason s)\<lparr>cs_UpdatedAt := now\<rparr>)))"
    by (simp add: ended_good(2) finish)
  ultimately show ?thesis using good_step_put[OF Some] by auto
qed (simp add: EndCall_def)

lemma call_move_None: "call_move v None"
  by (cases v) (auto intro: stay forget)

text \<open>A tick only removes sessions.\<close>

lemma cleanup_loop_sessions:
  "cleanup_loop CB now es (sm, w) = Some (sm', w') \<Longrightarrow>
    (\<forall>cid. gm_get (sm_sessions sm') cid = (if \<exists>s. (cid, s) \<in> set es \<and> CallSession_IsExpired now s then None else gm_get (sm_sessions sm) cid))
    \<and> (gm_ok (sm_sessions sm) \<longrightarrow> gm_ok (sm_sessions sm'))"
proof (induction es arbitrary: sm w)
  case (Cons e es)
  obtain cid s where e: "e = (cid, s)" by (cases e)
  show ?case
  proof (cases "CallSession_IsExpired now s")
    case True
    then obtain w1 where "cleanup_loop CB now es (sm\<lparr>sm_sessions := gm_del cid (sm_sessions sm)\<rparr>, w1) = Some (sm', w')"
      using Cons.prems e by (auto simp: CallSession_IsExpired_def split: option.splits)
    from Cons.IH[OF this] show ?thesis using True e by auto
  next
    case False
    then have "cleanup_loop CB now es (sm, w) = Some (sm', w')" using Cons.prems e by (auto simp: CallSession_IsExpired_def)
    from Cons.IH[OF this] show ?thesis using False e by auto
  qed
qed simp

lemma cleanup_good: "cleanupExpiredOffers CB now (sm, w) = Some (sm', w') \<Longrightarrow> good_step sm sm'"
  using cleanup_loop_sessions[of CB now "sm_sessions sm" sm w sm' w']
  by (auto simp: cleanupExpiredOffers_def good_step_def calls_ok_def state_of_def call_move_None stay split: if_splits)

lemma Stop_good: "good_step sm (SessionManager_Stop clock sm)"
proof -
  let ?f = "\<lambda>cid s. if cs_State s \<noteq> CallStateEnded then ended (clock cid) HangupNormal s else s"
  have get: "gm_get (sm_sessions (SessionManager_Stop clock sm)) cid = map_option (?f cid) (gm_get (sm_sessions sm) cid)" for cid
    by (simp add: SessionManager_Stop_def gm_get_map)
  have ok: "gm_ok (sm_sessions (SessionManager_Stop clock sm)) = gm_ok (sm_sessions sm)"
    by (simp add: SessionManager_Stop_def gm_ok_def comp_def case_prod_beta)
  have "call_move (Some (cs_State s)) (Some (cs_State (?f cid s)))" for cid s
    using ended_good(2) by (auto intro: stay finish)
  then have "call_move (state_of cid sm) (state_of cid (SessionManager_Stop clock sm))" for cid
    by (auto simp: state_of_def get stay option.map_comp comp_def split: option.splits) (cases "gm_get (sm_sessions sm) cid", auto intro: stay)
  then show ?thesis using get ok ended_good(1) by (auto simp: good_step_def calls_ok_def)
qed

lemmas session_writes = SetLocalSDP_def SetRemoteSDP_def AddRemoteICECandidate_def

lemma sm_step_good: "sm_step P CB smw smw' \<Longrightarrow> good_step (fst smw) (fst smw')"
proof (induction rule: sm_step.induct)
  case (outgoing sm uuid now ssrc peer ct sm' r w)
  then show ?case using good_step_new new_session_ok by (auto simp: CreateOutgoingCall_def Let_def split: if_splits)
next
  case (incoming now ssrcR ssrcL cid peer ct sdp sm sm' r w)
  then show ?case using good_step_new new_session_ok by (auto simp: CreateIncomingCall_def Let_def split: if_splits)
next
  case (update now upd cid st smw smw' r')
  then show ?case using UpdateState_good by (cases smw, cases smw') fastforce
next
  case (local_sdp now cid sdp sm sm' r' w)
  then show ?case by (auto simp: session_writes session_ok_def elim!: with_session_good)
next
  case (remote_sdp now cid sdp sm sm' r' w)
  then show ?case by (auto simp: session_writes session_ok_def elim!: with_session_good)
next
  case (local_ice now cid cand smw smw' r')
  obtain sm w where smw: "smw = (sm, w)" by (cases smw)
  show ?case
  proof (cases "gm_get (sm_sessions sm) cid")
    case (Some s)
    then have "fst smw' = put_session (s\<lparr>cs_LocalICECandidates := cs_LocalICECandidates s @ [cand], cs_UpdatedAt := now\<rparr>) cid sm"
      using local_ice smw by (auto simp: AddLocalICECandidate_def Let_def split: option.splits)
    moreover have "good_step sm \<dots>" by (rule good_step_put[OF Some]) (simp_all add: session_ok_def stay)
    ultimately show ?thesis using smw by simp
  qed (use local_ice smw in \<open>auto simp: AddLocalICECandidate_def\<close>)
next
  case (remote_ice now cid cand sm sm' r' w)
  then show ?case by (auto simp: session_writes session_ok_def elim!: with_session_good)
next
  case (media cid root sm sm' r'' w)
  then show ?case using good_step_put[of sm cid]
    by (auto simp: DeriveMediaKey_def session_ok_def stay split: option.splits sum.splits)
next
  case (hangup now cid reason smw smw' r')
  then show ?case using EndCall_good by (cases smw, cases smw') fastforce
next
  case (delete cid sm sm' r' w)
  then show ?case using good_step_del by (auto simp: DeleteSession_def split: if_splits)
next
  case (tick now smw smw')
  then show ?case using cleanup_good by (cases smw, cases smw') fastforce
next
  case (stop sm w clock)
  then show ?case by (simp add: Stop_good)
qed

interpretation calls: kept_invariant "sm_step P CB" "\<lambda>smw. calls_ok (fst smw)" for P CB
proof unfold_locales
  fix s t :: "SessionManager \<times> 'a"
  assume "calls_ok (fst s)" "sm_step P CB s t"
  then show "calls_ok (fst t)" using sm_step_good[of P CB s t] by (simp add: good_step_def)
qed

section \<open>Properties\<close>


definition no_callbacks :: "'w session_callbacks" where
  "no_callbacks = \<lparr>onICECandidate = None, onCallEnded = None, onStateChanged = None\<rparr>"


text \<open>The default branch of \<open>UpdateState\<close> accepts any other name from any state: an ended call can be
  put back to offered, with its end time still set.\<close>

lemma UpdateState_default:
  assumes "gm_get (sm_sessions sm) cid = Some s" "st \<notin> {CallStateAccepted, CallStateConnecting, CallStateActive, CallStateEnded}"
  shows "UpdateState no_callbacks now upd cid st (sm, w) =
    Some ((put_session (s\<lparr>cs_State := st, cs_UpdatedAt := upd\<rparr>) cid sm, w), Inr ())"
  using assms by (simp add: UpdateState_def next_state_def no_callbacks_def)

text \<open>Expiry. One tick of the clean-up, with callbacks that return, ends exactly the expired offers:
  each of them is removed from the manager and reported to the callback once, as ended by timeout, in
  the order of the map, and every other session is untouched.\<close>

theorem cleanup_ends_expired_offers:
  assumes "onCallEnded CB = Some (\<lambda>s w. Some (f s w))" "gm_ok (sm_sessions sm)" "sm_running sm"
  shows "\<exists>sm'. cleanupExpiredOffers CB now (sm, w) =
      Some (sm', fold f (map (ended now HangupTimeout) (filter (CallSession_IsExpired now) (map snd (sm_sessions sm)))) w)
    \<and> (\<forall>cid. gm_get (sm_sessions sm') cid = (case gm_get (sm_sessions sm) cid of None \<Rightarrow> None
         | Some s \<Rightarrow> if CallSession_IsExpired now s then None else Some s))"
proof -
  have run: "\<exists>sm'. cleanup_loop CB now es (sm, w) =
      Some (sm', fold f (map (ended now HangupTimeout) (filter (CallSession_IsExpired now) (map snd es))) w)" for es sm w
  proof (induction es arbitrary: sm w)
    case (Cons e es)
    then show ?case using assms(1) by (cases e) (simp add: notify_ended_def CallSession_IsExpired_def)
  qed simp
  obtain sm' where sm': "cleanup_loop CB now (sm_sessions sm) (sm, w) =
      Some (sm', fold f (map (ended now HangupTimeout) (filter (CallSession_IsExpired now) (map snd (sm_sessions sm)))) w)"
    using run by blast
  have "(\<exists>s. (cid, s) \<in> set (sm_sessions sm) \<and> CallSession_IsExpired now s) \<longleftrightarrow>
      (\<exists>s. gm_get (sm_sessions sm) cid = Some s \<and> CallSession_IsExpired now s)" for cid
    using gm_in_set_get[OF assms(2)] by metis
  then show ?thesis using sm' cleanup_loop_sessions[OF sm'] assms(3)
    by (auto simp: cleanupExpiredOffers_def split: option.splits)
qed

definition example_calls :: SessionManager where
  "example_calls = \<lparr>sm_sessions = [(''a'', new_session ''a'' [9] (Some [1]) CallTypeAudio 0 '''' 1 2),
     (''b'', new_session ''b'' [9] (Some [2]) CallTypeAudio OfferTimeout '''' 1 2)], sm_identity = [9], sm_running = True\<rparr>"

theorem cleanup_ends_expired_offers_witness:
  "\<exists>sm'. cleanupExpiredOffers \<lparr>onICECandidate = None, onCallEnded = Some (\<lambda>s w. Some (w @ [cs_CallID s])), onStateChanged = None\<rparr>
     (OfferTimeout + 1) (example_calls, []) = Some (sm', [''a'']) \<and> gm_get (sm_sessions sm') ''a'' = None \<and> gm_get (sm_sessions sm') ''b'' \<noteq> None"
proof -
  have "gm_ok (sm_sessions example_calls)" "sm_running example_calls" by (simp_all add: example_calls_def gm_ok_def)
  moreover have "filter (CallSession_IsExpired (OfferTimeout + 1)) (map snd (sm_sessions example_calls)) =
      [new_session ''a'' [9] (Some [1]) CallTypeAudio 0 '''' 1 2]"
    by (simp add: example_calls_def CallSession_IsExpired_def new_session_def OfferTimeout_def)
  moreover have "gm_get (sm_sessions example_calls) ''a'' = Some (new_session ''a'' [9] (Some [1]) CallTypeAudio 0 '''' 1 2)"
    "gm_get (sm_sessions example_calls) ''b'' = Some (new_session ''b'' [9] (Some [2]) CallTypeAudio OfferTimeout '''' 1 2)"
    by (simp_all add: example_calls_def gm_get_def)
  moreover have "CallSession_IsExpired (OfferTimeout + 1) (new_session ''a'' [9] (Some [1]) CallTypeAudio 0 '''' 1 2)"
    "\<not> CallSession_IsExpired (OfferTimeout + 1) (new_session ''b'' [9] (Some [2]) CallTypeAudio OfferTimeout '''' 1 2)"
    by (simp_all add: CallSession_IsExpired_def new_session_def OfferTimeout_def)
  moreover have "cs_CallID (ended t h (new_session ''a'' [9] (Some [1]) CallTypeAudio 0 '''' 1 2)) = ''a''" for t h
    by (simp add: ended_def new_session_def)
  ultimately show ?thesis
    using cleanup_ends_expired_offers[of "\<lparr>onICECandidate = None, onCallEnded = Some (\<lambda>s w. Some (w @ [cs_CallID s])), onStateChanged = None\<rparr>"
        "\<lambda>s w. w @ [cs_CallID s]" example_calls "OfferTimeout + 1" "[]"]
    by auto
qed

section \<open>Storing a session\<close>

definition opt_second :: "time option \<Rightarrow> time option" where
  "opt_second v = (case v of None \<Rightarrow> None | Some t \<Rightarrow> if t div 1000000000 = 0 then None else Some (whole_second t))"

definition stored_session :: "CallSession \<Rightarrow> CallSession" where
  "stored_session s = s\<lparr>cs_CreatedAt := whole_second (cs_CreatedAt s), cs_UpdatedAt := whole_second (cs_UpdatedAt s),
     cs_ExpiresAt := whole_second (cs_ExpiresAt s), cs_ConnectedAt := opt_second (cs_ConnectedAt s), cs_EndedAt := opt_second (cs_EndedAt s)\<rparr>"

lemma opt_time_unix: "pred_option time_ok v \<Longrightarrow> opt_time (opt_unix v) = opt_second v"
  by (cases v) (auto simp: opt_second_def opt_time_def opt_unix_def unix_zero unixTime_unix word_neq_0_conv[symmetric])

text \<open>A call session survives storage: it can always be marshalled, and unmarshalling gives the session
  back with every time rounded down to the second; a connection or end time within the first second of the epoch is
  lost.\<close>

theorem call_session_roundtrip:
  assumes "codec_ok K" "time_ok (cs_CreatedAt s)" "time_ok (cs_UpdatedAt s)" "time_ok (cs_ExpiresAt s)"
    "pred_option time_ok (cs_ConnectedAt s)" "pred_option time_ok (cs_EndedAt s)" "cs_RemoteIdentity s \<noteq> Some []"
  shows "\<exists>b. Marshal K s = Inr b \<and> UnmarshalCallSession K b = Inr (stored_session s)"
proof -
  obtain b where "marshal K (session_proto s) = Inr b" "unmarshal K b = Inr (session_proto s)"
    using codec_okD[OF assms(1)] by blast
  moreover have "decoded (slice (cs_RemoteIdentity s)) = cs_RemoteIdentity s"
    using assms(7) by (cases "cs_RemoteIdentity s") (auto simp: decoded_def)
  ultimately show ?thesis
    using unixTime_unix[OF assms(2)] unixTime_unix[OF assms(3)] unixTime_unix[OF assms(4)]
      opt_time_unix[OF assms(5)] opt_time_unix[OF assms(6)]
    by (simp add: Marshal_def UnmarshalCallSession_def session_proto_def stored_session_def)
qed

definition ser_CallSession :: "pb_CallSession ser" where
  "ser_CallSession = s_iso
     (\<lambda>c. (pc_CallId c, pc_LocalIdentity c, pc_RemoteIdentity c, pc_CallType c, pc_State c, pc_CreatedAt c, pc_UpdatedAt c,
        pc_ExpiresAt c, pc_LocalSdp c, pc_RemoteSdp c, pc_LocalIceCandidates c, pc_RemoteIceCandidates c, pc_MediaKey c,
        pc_SsrcLocal c, pc_SsrcRemote c, pc_ConnectedAt c, pc_EndedAt c, pc_HangupReason c))
     (\<lambda>(a, b, c, d, e, f, g, h, i, j, k, l, m, n, p, q, r, s). \<lparr>pc_CallId = a, pc_LocalIdentity = b, pc_RemoteIdentity = c,
        pc_CallType = d, pc_State = e, pc_CreatedAt = f, pc_UpdatedAt = g, pc_ExpiresAt = h, pc_LocalSdp = i, pc_RemoteSdp = j,
        pc_LocalIceCandidates = k, pc_RemoteIceCandidates = l, pc_MediaKey = m, pc_SsrcLocal = n, pc_SsrcRemote = p,
        pc_ConnectedAt = q, pc_EndedAt = r, pc_HangupReason = s\<rparr>)
     (s_pair s_string (s_pair s_bytes (s_pair s_bytes (s_pair s_string (s_pair s_string (s_pair s_u64 (s_pair s_u64
       (s_pair s_u64 (s_pair s_string (s_pair s_string (s_pair (s_list s_string) (s_pair (s_list s_string) (s_pair s_bytes
       (s_pair s_u32 (s_pair s_u32 (s_pair s_u64 (s_pair s_u64 s_string)))))))))))))))))"

lemma ser_CallSession_ok: "ser_ok ser_CallSession"
  unfolding ser_CallSession_def by (rule s_iso_ok, intro ser_intros, simp)

theorem call_session_roundtrip_witness:
  "\<exists>b. Marshal (codec_of ser_CallSession) (new_session ''a'' [9] (Some [1]) CallTypeAudio 5000000007 '''' 1 2) = Inr b
    \<and> UnmarshalCallSession (codec_of ser_CallSession) b =
        Inr (stored_session (new_session ''a'' [9] (Some [1]) CallTypeAudio 5000000007 '''' 1 2))"
  by (rule call_session_roundtrip[OF codec_of_ok[OF ser_CallSession_ok]])
    (simp_all add: new_session_def time_ok_def OfferTimeout_def)

end
