(* ===== verification/Signaling.thy ===== *)
theory Signaling
  imports CallSession
begin

text \<open>
  \<open>pkg/rtc/signaling.go\<close>: offers, answers, candidates and hangups over the messaging protocol. The
  service works on the session manager and on the state \<open>'w\<close> of the owner of its callbacks.
  \<open>sendSignalingMessage\<close> is a placeholder in the code: it writes a log line, which panics on a key of
  fewer than 8 bytes, and sends nothing. An error with two wrapped errors keeps the first.
\<close>

definition ErrInvalidSignalingMessage :: go_error where "ErrInvalidSignalingMessage = Err ''invalid signaling message''"
definition ErrPeerInCall :: go_error where "ErrPeerInCall = Err ''peer is already in a call''"

type_synonym MessageType = u32

definition MessageType_RTC_OFFER :: MessageType where "MessageType_RTC_OFFER = 80"
definition MessageType_RTC_ANSWER :: MessageType where "MessageType_RTC_ANSWER = 81"
definition MessageType_RTC_ICE_CANDIDATE :: MessageType where "MessageType_RTC_ICE_CANDIDATE = 82"
definition MessageType_RTC_HANGUP :: MessageType where "MessageType_RTC_HANGUP = 83"

lemmas rtc_types = MessageType_RTC_OFFER_def MessageType_RTC_ANSWER_def MessageType_RTC_ICE_CANDIDATE_def MessageType_RTC_HANGUP_def

record rtc_codecs =
  k_offer :: "RTCOffer codec"
  k_answer :: "RTCAnswer codec"
  k_ice :: "RTCIceCandidate codec"
  k_hangup :: "RTCHangup codec"

record 'w signaling_callbacks =
  onIncomingOffer :: "(string \<Rightarrow> bytes option \<Rightarrow> string \<Rightarrow> string \<Rightarrow> SessionManager \<times> 'w \<Rightarrow> (SessionManager \<times> 'w) option) option"
  onIncomingAnswer :: "(string \<Rightarrow> bytes option \<Rightarrow> string \<Rightarrow> SessionManager \<times> 'w \<Rightarrow> (SessionManager \<times> 'w) option) option"
  onIncomingICE :: "(string \<Rightarrow> bytes option \<Rightarrow> string \<Rightarrow> string \<Rightarrow> u32 \<Rightarrow> SessionManager \<times> 'w \<Rightarrow> (SessionManager \<times> 'w) option) option"
  onIncomingHangup :: "(string \<Rightarrow> bytes option \<Rightarrow> string \<Rightarrow> SessionManager \<times> 'w \<Rightarrow> (SessionManager \<times> 'w) option) option"

text \<open>A callback that is nil is skipped; the handler then returns nil.\<close>

definition notify :: "('f \<Rightarrow> 's \<Rightarrow> 's option) \<Rightarrow> 'f option \<Rightarrow> 's \<Rightarrow> ('s, unit) beff" where
  "notify call cb s = (case cb of
      None \<Rightarrow> Some (s, Inr ())
    | Some f \<Rightarrow> (case call f s of None \<Rightarrow> None | Some s1 \<Rightarrow> Some (s1, Inr ())))"

section \<open>Sending\<close>

definition sendSignalingMessage :: "bytes option \<Rightarrow> MessageType \<Rightarrow> bytes \<Rightarrow> unit res" where
  "sendSignalingMessage recipientPubKey messageType payload =
     (if length (hex_encode (slice recipientPubKey)) < 16 then Inl (Panic ''slice bounds out of range'') else Inr ())"

text \<open>What a pointer to a stored session shows after the session was changed.\<close>

definition deref :: "CallSession \<Rightarrow> SessionManager \<Rightarrow> CallSession" where
  "deref session sm = (case gm_get (sm_sessions sm) (cs_CallID session) of None \<Rightarrow> session | Some s \<Rightarrow> s)"

text \<open>\<open>c\<close> gives the successive readings of the clock.\<close>

definition SendOffer :: "rtc_codecs \<Rightarrow> 'w session_callbacks \<Rightarrow> (nat \<Rightarrow> time) \<Rightarrow> string \<Rightarrow> u32 \<Rightarrow> bytes option \<Rightarrow> string \<Rightarrow> string \<Rightarrow>
    SessionManager \<times> 'w \<Rightarrow> (SessionManager \<times> 'w, CallSession) beff" where
  "SendOffer K CB c uuid ssrc remoteIdentity callType sdp smw =
     (case smw of (sm, w) \<Rightarrow> case GetActiveSessionWithPeer remoteIdentity sm of
        Inr _ \<Rightarrow> Some ((sm, w), Inl ErrPeerInCall)
      | Inl _ \<Rightarrow> (case CreateOutgoingCall uuid (c 0) ssrc remoteIdentity callType sm of
          (sm1, Inl e) \<Rightarrow> Some ((sm1, w), Inl (Wrap ''failed to create call session'' e))
        | (sm1, Inr session) \<Rightarrow> (case SetLocalSDP (c 1) (cs_CallID session) sdp sm1 of
            (sm2, Inl e) \<Rightarrow> Some ((sm2, w), Inl (Wrap ''failed to set local SDP'' e))
          | (sm2, Inr _) \<Rightarrow> (case marshal (k_offer K) (ToRTCOffer (deref session sm2)) of
              Inl e \<Rightarrow> Some ((sm2, w), Inl (Wrap ''failed to marshal offer'' e))
            | Inr offerBytes \<Rightarrow> (case sendSignalingMessage remoteIdentity MessageType_RTC_OFFER offerBytes of
                Inl (Panic m) \<Rightarrow> Some ((sm2, w), Inl (Panic m))
              | Inl e \<Rightarrow> (case EndCall CB (c 2) (cs_CallID session) HangupError (sm2, w) of
                  None \<Rightarrow> None
                | Some ((sm3, w3), _) \<Rightarrow>
                    Some ((fst (DeleteSession (cs_CallID session) sm3), w3), Inl (Wrap ''failed to send offer'' e)))
              | Inr _ \<Rightarrow> Some ((sm2, w), Inr (deref session sm2)))))))"

definition SendAnswer :: "rtc_codecs \<Rightarrow> time \<Rightarrow> string \<Rightarrow> string \<Rightarrow> SessionManager \<Rightarrow> (SessionManager, unit) eff" where
  "SendAnswer K now callID sdp sm =
     (case GetSession callID sm of
        Inl _ \<Rightarrow> (sm, Inl ErrCallNotFound)
      | Inr session \<Rightarrow> (case SetLocalSDP now callID sdp sm of
          (sm1, Inl e) \<Rightarrow> (sm1, Inl (Wrap ''failed to set local SDP'' e))
        | (sm1, Inr _) \<Rightarrow> (case marshal (k_answer K) (ToRTCAnswer (deref session sm1)) of
            Inl e \<Rightarrow> (sm1, Inl (Wrap ''failed to marshal answer'' e))
          | Inr answerBytes \<Rightarrow> (case sendSignalingMessage (cs_RemoteIdentity session) MessageType_RTC_ANSWER answerBytes of
              Inl (Panic m) \<Rightarrow> (sm1, Inl (Panic m))
            | Inl e \<Rightarrow> (sm1, Inl (Wrap ''failed to send answer'' e))
            | Inr _ \<Rightarrow> (sm1, Inr ())))))"

definition SendICECandidate :: "rtc_codecs \<Rightarrow> string \<Rightarrow> string \<Rightarrow> string \<Rightarrow> u32 \<Rightarrow> SessionManager \<Rightarrow> unit res" where
  "SendICECandidate K callID candidate sdpMid mlineIdx sm =
     (case GetSession callID sm of
        Inl _ \<Rightarrow> Inl ErrCallNotFound
      | Inr session \<Rightarrow> (case marshal (k_ice K) (ToRTCIceCandidate candidate sdpMid mlineIdx session) of
          Inl e \<Rightarrow> Inl (Wrap ''failed to marshal ICE candidate'' e)
        | Inr iceBytes \<Rightarrow> (case sendSignalingMessage (cs_RemoteIdentity session) MessageType_RTC_ICE_CANDIDATE iceBytes of
            Inl (Panic m) \<Rightarrow> Inl (Panic m)
          | Inl e \<Rightarrow> Inl (Wrap ''failed to send ICE candidate'' e)
          | Inr _ \<Rightarrow> Inr ())))"

text \<open>A failed transmission of a hangup is only logged.\<close>

definition SendHangup :: "rtc_codecs \<Rightarrow> string \<Rightarrow> string \<Rightarrow> SessionManager \<Rightarrow> unit res" where
  "SendHangup K callID reason sm =
     (case GetSession callID sm of
        Inl _ \<Rightarrow> Inl ErrCallNotFound
      | Inr session \<Rightarrow> (case marshal (k_hangup K) (ToRTCHangup reason session) of
          Inl e \<Rightarrow> Inl (Wrap ''failed to marshal hangup'' e)
        | Inr hangupBytes \<Rightarrow> (case sendSignalingMessage (cs_RemoteIdentity session) MessageType_RTC_HANGUP hangupBytes of
            Inl (Panic m) \<Rightarrow> Inl (Panic m) | _ \<Rightarrow> Inr ())))"

section \<open>Receiving\<close>

definition handleOffer :: "rtc_codecs \<Rightarrow> 'w signaling_callbacks \<Rightarrow> (nat \<Rightarrow> time) \<Rightarrow> u32 \<Rightarrow> u32 \<Rightarrow> bytes option \<Rightarrow> bytes \<Rightarrow>
    SessionManager \<times> 'w \<Rightarrow> (SessionManager \<times> 'w, unit) beff" where
  "handleOffer K SC c ssrcRemote ssrcLocal senderIdentity payload smw =
     (case unmarshal (k_offer K) payload of
        Inl e \<Rightarrow> Some (smw, Inl (Wrap ''failed to unmarshal offer'' ErrInvalidSignalingMessage))
      | Inr offer \<Rightarrow>
          let callType = (if ro_Video offer then CallTypeVideo else CallTypeAudio)
          in case CreateIncomingCall (c 0) ssrcRemote ssrcLocal (ro_CallId offer) senderIdentity callType (ro_Sdp offer) (fst smw) of
               (sm1, Inl (Panic m)) \<Rightarrow> Some ((sm1, snd smw), Inl (Panic m))
             | (sm1, Inl e) \<Rightarrow> Some ((sm1, snd smw), Inl (Wrap ''failed to create incoming call session'' e))
             | (sm1, Inr _) \<Rightarrow> notify (\<lambda>f. f (ro_CallId offer) senderIdentity callType (ro_Sdp offer)) (onIncomingOffer SC) (sm1, snd smw))"

definition handleAnswer :: "rtc_codecs \<Rightarrow> 'w signaling_callbacks \<Rightarrow> bytes option \<Rightarrow> bytes \<Rightarrow>
    SessionManager \<times> 'w \<Rightarrow> (SessionManager \<times> 'w, unit) beff" where
  "handleAnswer K SC senderIdentity payload smw =
     (case unmarshal (k_answer K) payload of
        Inl e \<Rightarrow> Some (smw, Inl (Wrap ''failed to unmarshal answer'' ErrInvalidSignalingMessage))
      | Inr answer \<Rightarrow> (case GetSession (ra_CallId answer) (fst smw) of
          Inl _ \<Rightarrow> Some (smw, Inl (Wrap ''answer for unknown call'' ErrCallNotFound))
        | Inr _ \<Rightarrow> notify (\<lambda>f. f (ra_CallId answer) senderIdentity (ra_Sdp answer)) (onIncomingAnswer SC) smw))"

definition handleICECandidate :: "rtc_codecs \<Rightarrow> 'w signaling_callbacks \<Rightarrow> (nat \<Rightarrow> time) \<Rightarrow> bytes option \<Rightarrow> bytes \<Rightarrow>
    SessionManager \<times> 'w \<Rightarrow> (SessionManager \<times> 'w, unit) beff" where
  "handleICECandidate K SC c senderIdentity payload smw =
     (case unmarshal (k_ice K) payload of
        Inl e \<Rightarrow> Some (smw, Inl (Wrap ''failed to unmarshal ICE candidate'' ErrInvalidSignalingMessage))
      | Inr ice \<Rightarrow> (case GetSession (ri_CallId ice) (fst smw) of
          Inl _ \<Rightarrow> Some (smw, Inl (Wrap ''ICE candidate for unknown call'' ErrCallNotFound))
        | Inr session \<Rightarrow>
            if hex_encode (slice (cs_RemoteIdentity session)) \<noteq> hex_encode (slice senderIdentity)
            then Some (smw, Inl (Wrap ''ICE candidate from unexpected sender'' ErrInvalidSignalingMessage))
            else (case AddRemoteICECandidate (c 0) (ri_CallId ice) (ri_Candidate ice) (fst smw) of
                (sm1, Inl e) \<Rightarrow> Some ((sm1, snd smw), Inl (Wrap ''failed to add ICE candidate'' e))
              | (sm1, Inr _) \<Rightarrow> notify (\<lambda>f. f (ri_CallId ice) senderIdentity (ri_Candidate ice) (ri_SdpMid ice) (ri_SdpMlineIdx ice))
                  (onIncomingICE SC) (sm1, snd smw))))"

definition handleHangup :: "rtc_codecs \<Rightarrow> 'w session_callbacks \<Rightarrow> 'w signaling_callbacks \<Rightarrow> (nat \<Rightarrow> time) \<Rightarrow> bytes option \<Rightarrow> bytes \<Rightarrow>
    SessionManager \<times> 'w \<Rightarrow> (SessionManager \<times> 'w, unit) beff" where
  "handleHangup K CB SC c senderIdentity payload smw =
     (case unmarshal (k_hangup K) payload of
        Inl e \<Rightarrow> Some (smw, Inl (Wrap ''failed to unmarshal hangup'' ErrInvalidSignalingMessage))
      | Inr hangup \<Rightarrow> (case GetSession (rg_CallId hangup) (fst smw) of
          Inl _ \<Rightarrow> Some (smw, Inr ())
        | Inr session \<Rightarrow>
            if hex_encode (slice (cs_RemoteIdentity session)) \<noteq> hex_encode (slice senderIdentity)
            then Some (smw, Inl (Wrap ''hangup from unexpected sender'' ErrInvalidSignalingMessage))
            else (case EndCall CB (c 0) (rg_CallId hangup) (rg_Reason hangup) smw of
                None \<Rightarrow> None
              | Some (smw1, _) \<Rightarrow> notify (\<lambda>f. f (rg_CallId hangup) senderIdentity (rg_Reason hangup)) (onIncomingHangup SC) smw1)))"

definition HandleSignalingMessage ::
    "rtc_codecs \<Rightarrow> 'w session_callbacks \<Rightarrow> 'w signaling_callbacks \<Rightarrow> (nat \<Rightarrow> time) \<Rightarrow> u32 \<Rightarrow> u32 \<Rightarrow> bytes option \<Rightarrow> MessageType \<Rightarrow> bytes \<Rightarrow>
    SessionManager \<times> 'w \<Rightarrow> (SessionManager \<times> 'w, unit) beff" where
  "HandleSignalingMessage K CB SC c ssrcRemote ssrcLocal senderIdentity messageType payload smw =
     (if messageType = MessageType_RTC_OFFER then handleOffer K SC c ssrcRemote ssrcLocal senderIdentity payload smw
      else if messageType = MessageType_RTC_ANSWER then handleAnswer K SC senderIdentity payload smw
      else if messageType = MessageType_RTC_ICE_CANDIDATE then handleICECandidate K SC c senderIdentity payload smw
      else if messageType = MessageType_RTC_HANGUP then handleHangup K CB SC c senderIdentity payload smw
      else Some (smw, Inl (Wrap ''unknown RTC message type'' ErrInvalidSignalingMessage)))"

definition Signaling_IsInCall :: "SessionManager \<Rightarrow> bool" where
  "Signaling_IsInCall sm \<longleftrightarrow> length (GetAllActiveSessions sm) > 0"

definition IsInCallWithPeer :: "bytes option \<Rightarrow> SessionManager \<Rightarrow> bool" where
  "IsInCallWithPeer remoteIdentity sm \<longleftrightarrow> is_ok (GetActiveSessionWithPeer remoteIdentity sm)"

end
