(* ===== verification/CallManager.thy ===== *)
theory CallManager
  imports Signaling
begin

text \<open>
  \<open>pkg/rtc/manager.go\<close>: the call manager on top of the session manager and the signaling service. Its
  mutex is part of the state: \<open>cm_locked\<close> says that the running operation holds it, and taking it
  again blocks forever (Go's mutexes are not re-entrant), which is the result \<open>None\<close>. Between
  operations it is free. The callbacks of the application are recorded as events; the goroutines an operation
  starts are recorded in \<open>cm_pending\<close> and run as steps of their own.
\<close>

section \<open>Types\<close>

record CallConfig =
  cc_AutoAnswer :: bool
  cc_AutoAnswerTimeout :: int
  cc_CallTimeout :: int
  cc_EnableVideo :: bool
  cc_MaxICECandidates :: int
  cc_ICEGatherTimeout :: int

datatype call_event =
    CallStarted string "bytes option" string
  | CallConnected string
  | CallEnded string string int
  | IncomingCall string "bytes option" string string

datatype goroutine = AutoAnswering string | TimingOut string

record CallManager =
  cm_currentCallID :: string
  cm_locked :: bool
  cm_config :: CallConfig
  cm_onCallStarted :: bool
  cm_onCallConnected :: bool
  cm_onCallEnded :: bool
  cm_onIncomingCall :: bool
  cm_events :: "call_event list"
  cm_pending :: "goroutine list"

definition ICEGatherTimeout :: int where "ICEGatherTimeout = 30 * 1000000000"

definition DefaultCallConfig :: CallConfig where
  "DefaultCallConfig = \<lparr>cc_AutoAnswer = False, cc_AutoAnswerTimeout = 0, cc_CallTimeout = 0, cc_EnableVideo = True,
     cc_MaxICECandidates = 20, cc_ICEGatherTimeout = ICEGatherTimeout\<rparr>"

definition NewCallManager :: "bytes \<Rightarrow> CallConfig option \<Rightarrow> SessionManager \<times> CallManager" where
  "NewCallManager pub config = (NewSessionManager pub,
     \<lparr>cm_currentCallID = '''', cm_locked = False, cm_config = (case config of None \<Rightarrow> DefaultCallConfig | Some cfg \<Rightarrow> cfg),
      cm_onCallStarted = False, cm_onCallConnected = False, cm_onCallEnded = False, cm_onIncomingCall = False,
      cm_events = [], cm_pending = []\<rparr>)"

definition lock :: "CallManager \<Rightarrow> CallManager option" where
  "lock cm = (if cm_locked cm then None else Some (cm\<lparr>cm_locked := True\<rparr>))"

definition unlock :: "CallManager \<Rightarrow> CallManager" where
  "unlock cm = cm\<lparr>cm_locked := False\<rparr>"

definition emit :: "bool \<Rightarrow> call_event \<Rightarrow> CallManager \<Rightarrow> CallManager" where
  "emit registered ev cm = (if registered then cm\<lparr>cm_events := cm_events cm @ [ev]\<rparr> else cm)"

definition spawn :: "goroutine \<Rightarrow> CallManager \<Rightarrow> CallManager" where
  "spawn g cm = cm\<lparr>cm_pending := cm_pending cm @ [g]\<rparr>"

definition leave_call :: "string \<Rightarrow> CallManager \<Rightarrow> CallManager" where
  "leave_call callID cm = (if cm_currentCallID cm = callID then cm\<lparr>cm_currentCallID := ''''\<rparr> else cm)"

section \<open>Handlers\<close>

definition handleStateChanged :: "CallSession \<Rightarrow> string \<Rightarrow> string \<Rightarrow> CallManager \<Rightarrow> CallManager option" where
  "handleStateChanged session oldState newState cm =
     Some (if newState = CallStateActive then emit (cm_onCallConnected cm) (CallConnected (cs_CallID session)) cm else cm)"

definition handleSessionEnded :: "time \<Rightarrow> CallSession \<Rightarrow> CallManager \<Rightarrow> CallManager option" where
  "handleSessionEnded now session cm =
     (case lock cm of
        None \<Rightarrow> None
      | Some cm1 \<Rightarrow>
          let cm2 = unlock (leave_call (cs_CallID session) cm1)
          in Some (emit (cm_onCallEnded cm2) (CallEnded (cs_CallID session) (cs_HangupReason session) (Duration now session)) cm2))"

definition session_handlers :: "time \<Rightarrow> CallManager session_callbacks" where
  "session_handlers now = \<lparr>onICECandidate = None, onCallEnded = Some (handleSessionEnded now), onStateChanged = Some handleStateChanged\<rparr>"

definition handleIncomingOffer :: "string \<Rightarrow> bytes option \<Rightarrow> string \<Rightarrow> string \<Rightarrow> SessionManager \<times> CallManager \<Rightarrow>
    (SessionManager \<times> CallManager) option" where
  "handleIncomingOffer callID remoteIdentity callType sdp smw =
     (case smw of (sm, cm) \<Rightarrow>
        let cm1 = emit (cm_onIncomingCall cm) (IncomingCall callID remoteIdentity callType sdp) cm
        in Some (sm, if cc_AutoAnswer (cm_config cm1) then spawn (AutoAnswering callID) cm1 else cm1))"

text \<open>A refused change of state is only logged.\<close>

definition handleIncomingAnswer :: "(nat \<Rightarrow> time) \<Rightarrow> string \<Rightarrow> bytes option \<Rightarrow> string \<Rightarrow> SessionManager \<times> CallManager \<Rightarrow>
    (SessionManager \<times> CallManager) option" where
  "handleIncomingAnswer c callID remoteIdentity sdp smw =
     map_option fst (UpdateState (session_handlers (c 0)) (c 0) (c 1) callID CallStateConnecting smw)"

definition handleIncomingICE :: "string \<Rightarrow> bytes option \<Rightarrow> string \<Rightarrow> string \<Rightarrow> u32 \<Rightarrow> SessionManager \<times> CallManager \<Rightarrow>
    (SessionManager \<times> CallManager) option" where
  "handleIncomingICE callID remoteIdentity candidate sdpMid mlineIdx smw = Some smw"

definition handleIncomingHangup :: "string \<Rightarrow> bytes option \<Rightarrow> string \<Rightarrow> SessionManager \<times> CallManager \<Rightarrow>
    (SessionManager \<times> CallManager) option" where
  "handleIncomingHangup callID remoteIdentity reason smw =
     (case smw of (sm, cm) \<Rightarrow> case lock cm of None \<Rightarrow> None | Some cm1 \<Rightarrow> Some (sm, unlock (leave_call callID cm1)))"

definition signaling_handlers :: "(nat \<Rightarrow> time) \<Rightarrow> CallManager signaling_callbacks" where
  "signaling_handlers c = \<lparr>onIncomingOffer = Some handleIncomingOffer, onIncomingAnswer = Some (handleIncomingAnswer c),
     onIncomingICE = Some handleIncomingICE, onIncomingHangup = Some handleIncomingHangup\<rparr>"

definition receive :: "rtc_codecs \<Rightarrow> (nat \<Rightarrow> time) \<Rightarrow> u32 \<Rightarrow> u32 \<Rightarrow> bytes option \<Rightarrow> MessageType \<Rightarrow> bytes \<Rightarrow>
    SessionManager \<times> CallManager \<Rightarrow> (SessionManager \<times> CallManager, unit) beff" where
  "receive K c = HandleSignalingMessage K (session_handlers (c 0)) (signaling_handlers c) c"

section \<open>Operations\<close>

definition nl :: string where "nl = [CHR 0x0A]"

definition sdp_media :: string where
  "sdp_media = ''c=IN IP4 127.0.0.1'' @ nl @ ''t=0 0'' @ nl @ ''m=audio 9 UDP/TLS/RTP/SAVPF 111'' @ nl @
     ''a=rtpmap:111 opus/48000/2'' @ nl @ ''a=fmtp:111 minptime=10;useinbandfec=1'' @ nl @
     ''m=video 9 UDP/TLS/RTP/SAVPF 96'' @ nl @ ''a=rtpmap:96 VP8/90000'' @ nl"

definition generateSDPOffer :: "string \<Rightarrow> string" where
  "generateSDPOffer callType = ''v=0'' @ nl @ ''o=- 0 0 IN IP4 127.0.0.1'' @ nl @ ''s=Babylon Tower '' @ callType @ '' Call'' @ nl @ sdp_media"

definition generateSDPAnswer :: "string \<Rightarrow> string \<Rightarrow> string" where
  "generateSDPAnswer callType remoteSDP =
     ''v=0'' @ nl @ ''o=- 0 0 IN IP4 127.0.0.1'' @ nl @ ''s=Babylon Tower '' @ callType @ '' Call (Answer)'' @ nl @ sdp_media"

text \<open>\<open>cm.mu.Lock(); defer cm.mu.Unlock()\<close> around a body.\<close>

definition locked :: "(SessionManager \<times> CallManager \<Rightarrow> (SessionManager \<times> CallManager, 'a) beff) \<Rightarrow>
    SessionManager \<times> CallManager \<Rightarrow> (SessionManager \<times> CallManager, 'a) beff" where
  "locked body smw =
     (case smw of (sm, cm) \<Rightarrow> case lock cm of
        None \<Rightarrow> None
      | Some cm1 \<Rightarrow> (case body (sm, cm1) of None \<Rightarrow> None | Some ((sm2, cm2), r) \<Rightarrow> Some ((sm2, unlock cm2), r)))"

definition StartOutgoingCall :: "rtc_codecs \<Rightarrow> (nat \<Rightarrow> time) \<Rightarrow> string \<Rightarrow> u32 \<Rightarrow> bytes option \<Rightarrow> string \<Rightarrow>
    SessionManager \<times> CallManager \<Rightarrow> (SessionManager \<times> CallManager, string) beff" where
  "StartOutgoingCall K c uuid ssrc remoteIdentity callType0 = locked (\<lambda>(sm, cm).
     if cm_currentCallID cm \<noteq> '''' then Some ((sm, cm), Inl (Err (''already in call: '' @ cm_currentCallID cm)))
     else
       let callType = (if callType0 = CallTypeVideo \<and> \<not> cc_EnableVideo (cm_config cm) then CallTypeAudio else callType0)
       in case SendOffer K (session_handlers (c 2)) c uuid ssrc remoteIdentity callType (generateSDPOffer callType) (sm, cm) of
            None \<Rightarrow> None
          | Some (smw1, Inl (Panic m)) \<Rightarrow> Some (smw1, Inl (Panic m))
          | Some (smw1, Inl e) \<Rightarrow> Some (smw1, Inl (Wrap ''failed to send offer'' e))
          | Some ((sm1, cm1), Inr session) \<Rightarrow>
              let cm2 = cm1\<lparr>cm_currentCallID := cs_CallID session\<rparr>;
                  cm3 = emit (cm_onCallStarted cm2) (CallStarted (cs_CallID session) remoteIdentity callType) cm2
              in Some ((sm1, if cc_CallTimeout (cm_config cm3) > 0 then spawn (TimingOut (cs_CallID session)) cm3 else cm3),
                       Inr (cs_CallID session)))"

definition AnswerIncomingCall :: "rtc_codecs \<Rightarrow> (nat \<Rightarrow> time) \<Rightarrow> string \<Rightarrow>
    SessionManager \<times> CallManager \<Rightarrow> (SessionManager \<times> CallManager, unit) beff" where
  "AnswerIncomingCall K c callID = locked (\<lambda>(sm, cm).
     if cm_currentCallID cm \<noteq> '''' then Some ((sm, cm), Inl (Err (''already in call: '' @ cm_currentCallID cm)))
     else (case GetSession callID sm of
        Inl _ \<Rightarrow> Some ((sm, cm), Inl ErrCallNotFound)
      | Inr session \<Rightarrow> (case UpdateState (session_handlers (c 0)) (c 0) (c 1) callID CallStateAccepted (sm, cm) of
          None \<Rightarrow> None
        | Some (smw1, Inl e) \<Rightarrow> Some (smw1, Inl (Wrap ''failed to update call state'' e))
        | Some ((sm1, cm1), Inr _) \<Rightarrow>
            (case SendAnswer K (c 2) callID (generateSDPAnswer (cs_CallType session) (cs_RemoteSDP session)) sm1 of
               (sm2, Inl (Panic m)) \<Rightarrow> Some ((sm2, cm1), Inl (Panic m))
             | (sm2, Inl e) \<Rightarrow> Some ((sm2, cm1), Inl (Wrap ''failed to send answer'' e))
             | (sm2, Inr _) \<Rightarrow>
                 let cm2 = cm1\<lparr>cm_currentCallID := callID\<rparr>
                 in Some ((sm2, emit (cm_onCallStarted cm2) (CallStarted callID (cs_RemoteIdentity session) (cs_CallType session)) cm2), Inr ())))))"

text \<open>Sending the hangup and ending the call locally, shared by the three ways to end a call. Only a
  panic of \<open>SendHangup\<close> stops the operation; its errors are logged.\<close>

definition hang_up :: "rtc_codecs \<Rightarrow> time \<Rightarrow> string \<Rightarrow> string \<Rightarrow> SessionManager \<times> CallManager \<Rightarrow> (SessionManager \<times> CallManager, unit) beff" where
  "hang_up K now callID reason smw =
     (case SendHangup K callID reason (fst smw) of
        Inl (Panic m) \<Rightarrow> Some (smw, Inl (Panic m))
      | _ \<Rightarrow> (case EndCall (session_handlers now) now callID reason smw of
          None \<Rightarrow> None
        | Some (smw1, Inl e) \<Rightarrow> Some (smw1, Inl (Wrap ''failed to end call'' e))
        | Some (smw1, Inr _) \<Rightarrow> Some (smw1, Inr ())))"

definition RejectIncomingCall :: "rtc_codecs \<Rightarrow> time \<Rightarrow> string \<Rightarrow> string \<Rightarrow> SessionManager \<times> CallManager \<Rightarrow> (SessionManager \<times> CallManager, unit) beff" where
  "RejectIncomingCall K now callID reason smw =
     (case GetSession callID (fst smw) of
        Inl _ \<Rightarrow> Some (smw, Inl ErrCallNotFound)
      | Inr _ \<Rightarrow> hang_up K now callID reason smw)"

definition EndCallByID :: "rtc_codecs \<Rightarrow> time \<Rightarrow> string \<Rightarrow> string \<Rightarrow> SessionManager \<times> CallManager \<Rightarrow> (SessionManager \<times> CallManager, unit) beff" where
  "EndCallByID K now callID reason smw =
     (case hang_up K now callID reason smw of
        None \<Rightarrow> None
      | Some (smw1, Inl e) \<Rightarrow> Some (smw1, Inl e)
      | Some (smw1, Inr _) \<Rightarrow> locked (\<lambda>(sm, cm). Some ((sm, leave_call callID cm), Inr ())) smw1)"

definition CallManager_EndCall :: "rtc_codecs \<Rightarrow> time \<Rightarrow> string \<Rightarrow> SessionManager \<times> CallManager \<Rightarrow> (SessionManager \<times> CallManager, unit) beff" where
  "CallManager_EndCall K now reason smw =
     (if cm_locked (snd smw) then None
      else if cm_currentCallID (snd smw) = '''' then Some (smw, Inl (Err ''no active call''))
      else EndCallByID K now (cm_currentCallID (snd smw)) reason smw)"

definition CallManager_SendICECandidate :: "rtc_codecs \<Rightarrow> string \<Rightarrow> string \<Rightarrow> u32 \<Rightarrow> SessionManager \<times> CallManager \<Rightarrow> unit res" where
  "CallManager_SendICECandidate K candidate sdpMid mlineIdx smw =
     (if cm_currentCallID (snd smw) = '''' then Inl (Err ''no active call'')
      else SendICECandidate K (cm_currentCallID (snd smw)) candidate sdpMid mlineIdx (fst smw))"

definition GetActiveCall :: "SessionManager \<times> CallManager \<Rightarrow> CallSession res" where
  "GetActiveCall smw = (if cm_currentCallID (snd smw) = '''' then Inl (Err ''no active call'')
     else GetSession (cm_currentCallID (snd smw)) (fst smw))"

definition CallManager_IsInCall :: "SessionManager \<times> CallManager \<Rightarrow> bool" where
  "CallManager_IsInCall smw \<longleftrightarrow> cm_currentCallID (snd smw) \<noteq> ''''"

text \<open>The loop of \<open>Stop\<close> over the sessions that are not ended; the clock is read per session.\<close>

fun stop_loop :: "rtc_codecs \<Rightarrow> (string \<Rightarrow> time) \<Rightarrow> CallSession list \<Rightarrow> SessionManager \<times> CallManager \<Rightarrow> (SessionManager \<times> CallManager, unit) beff" where
  "stop_loop K t [] smw = Some (smw, Inr ())"
| "stop_loop K t (session # rest) smw =
     (case hang_up K (t (cs_CallID session)) (cs_CallID session) HangupNormal smw of
        None \<Rightarrow> None
      | Some (smw1, Inl (Panic m)) \<Rightarrow> Some (smw1, Inl (Panic m))
      | Some (smw1, _) \<Rightarrow> stop_loop K t rest smw1)"

text \<open>\<open>Stop\<close> cancels the context, which only the timeouts watch.\<close>

fun is_auto_answer :: "goroutine \<Rightarrow> bool" where
  "is_auto_answer (AutoAnswering _) = True"
| "is_auto_answer (TimingOut _) = False"

definition CallManager_Stop :: "rtc_codecs \<Rightarrow> (string \<Rightarrow> time) \<Rightarrow> SessionManager \<times> CallManager \<Rightarrow> (SessionManager \<times> CallManager, unit) beff" where
  "CallManager_Stop K t = locked (\<lambda>(sm, cm).
     case stop_loop K t (GetAllActiveSessions sm) (sm, cm) of
       None \<Rightarrow> None
     | Some (smw1, Inl e) \<Rightarrow> Some (smw1, Inl e)
     | Some ((sm1, cm1), Inr _) \<Rightarrow> Some ((SessionManager_Stop t sm1, cm1\<lparr>cm_pending := filter is_auto_answer (cm_pending cm1)\<rparr>), Inr ()))"

text \<open>A goroutine that was started, when its delay is over.\<close>

fun run_goroutine :: "rtc_codecs \<Rightarrow> (nat \<Rightarrow> time) \<Rightarrow> goroutine \<Rightarrow> SessionManager \<times> CallManager \<Rightarrow> (SessionManager \<times> CallManager, unit) beff" where
  "run_goroutine K c (AutoAnswering callID) smw = AnswerIncomingCall K c callID smw"
| "run_goroutine K c (TimingOut callID) smw = EndCallByID K (c 0) callID HangupTimeout smw"

section \<open>The current call\<close>

inductive cm_step :: "rtc_codecs \<Rightarrow> SessionManager \<times> CallManager \<Rightarrow> SessionManager \<times> CallManager \<Rightarrow> bool" for K where
  start_call: "uuid \<noteq> '''' \<Longrightarrow> StartOutgoingCall K c uuid ssrc peer ct smw = Some (smw', r) \<Longrightarrow> cm_step K smw smw'"
| answer: "AnswerIncomingCall K c cid smw = Some (smw', r') \<Longrightarrow> cm_step K smw smw'"
| reject: "RejectIncomingCall K now cid reason smw = Some (smw', r') \<Longrightarrow> cm_step K smw smw'"
| end_call: "CallManager_EndCall K now reason smw = Some (smw', r') \<Longrightarrow> cm_step K smw smw'"
| end_by_id: "EndCallByID K now cid reason smw = Some (smw', r') \<Longrightarrow> cm_step K smw smw'"
| message: "receive K c ssrcR ssrcL sender mt payload smw = Some (smw', r') \<Longrightarrow> cm_step K smw smw'"
| goroutine: "g \<in> set (cm_pending (snd smw)) \<Longrightarrow> run_goroutine K c g smw = Some (smw', r') \<Longrightarrow> cm_step K smw smw'"
| clean_up: "cleanupExpiredOffers (session_handlers now) now smw = Some smw' \<Longrightarrow> cm_step K smw smw'"
| register: "cm_step K (sm, cm) (sm, cm\<lparr>cm_onCallStarted := a, cm_onCallConnected := b, cm_onCallEnded := d, cm_onIncomingCall := e\<rparr>)"
| stop_all: "CallManager_Stop K t smw = Some (smw', r') \<Longrightarrow> cm_step K smw smw'"

text \<open>What holds whether or not the lock is taken: \<open>cur\<close> is the current call.\<close>

definition core :: "SessionManager \<Rightarrow> string \<Rightarrow> bool" where
  "core sm cur \<longleftrightarrow> calls_ok sm \<and> (\<forall>cid s. gm_get (sm_sessions sm) cid = Some s \<longrightarrow> cs_State s \<noteq> CallStateActive) \<and>
     (cur = '''' \<or> (\<exists>s. gm_get (sm_sessions sm) cur = Some s \<and> cs_State s \<noteq> CallStateEnded))"

definition silent :: "CallManager \<Rightarrow> bool" where
  "silent cm \<longleftrightarrow> (\<forall>cid. CallConnected cid \<notin> set (cm_events cm))"

definition manager_ok :: "SessionManager \<times> CallManager \<Rightarrow> bool" where
  "manager_ok smw \<longleftrightarrow> core (fst smw) (cm_currentCallID (snd smw)) \<and> silent (snd smw) \<and> \<not> cm_locked (snd smw)"

text \<open>The same inside a critical section, where the lock is held.\<close>

definition inner_ok :: "SessionManager \<times> CallManager \<Rightarrow> bool" where
  "inner_ok smw \<longleftrightarrow> core (fst smw) (cm_currentCallID (snd smw)) \<and> silent (snd smw)"

lemma lock_simps [simp]:
  "cm_currentCallID (unlock cm) = cm_currentCallID cm" "cm_locked (unlock cm) = False" "cm_events (unlock cm) = cm_events cm"
  "cm_currentCallID (emit b ev cm) = cm_currentCallID cm" "cm_locked (emit b ev cm) = cm_locked cm"
  "cm_currentCallID (spawn g cm) = cm_currentCallID cm" "cm_locked (spawn g cm) = cm_locked cm" "cm_events (spawn g cm) = cm_events cm"
  "cm_locked (leave_call cid cm) = cm_locked cm" "cm_events (leave_call cid cm) = cm_events cm"
  "cm_currentCallID (leave_call cid cm) = (if cm_currentCallID cm = cid then '''' else cm_currentCallID cm)"
  "cm_onCallEnded (unlock cm) = cm_onCallEnded cm" "cm_onCallEnded (leave_call cid cm) = cm_onCallEnded cm"
  by (simp_all add: unlock_def emit_def spawn_def leave_call_def)

lemma silent_simps [simp]:
  "silent (unlock cm) = silent cm" "silent (spawn g cm) = silent cm" "silent (leave_call cid cm) = silent cm"
  "silent (cm\<lparr>cm_locked := l\<rparr>) = silent cm" "silent (cm\<lparr>cm_currentCallID := cur\<rparr>) = silent cm"
  by (simp_all add: silent_def)

lemma silent_emit: "silent cm \<Longrightarrow> (\<forall>cid. ev \<noteq> CallConnected cid) \<Longrightarrow> silent (emit b ev cm)"
  by (auto simp: silent_def emit_def)

lemma core_leave: "core sm cur \<Longrightarrow> core sm ''''"
  by (simp add: core_def)

lemma core_put:
  assumes "core sm cur" "gm_get (sm_sessions sm) cid = Some s" "session_ok cid s \<Longrightarrow> session_ok cid s'"
    "cs_State s' \<noteq> CallStateActive" "cs_State s' = CallStateEnded \<Longrightarrow> cs_State s = CallStateEnded \<or> cur \<noteq> cid \<or> cur = ''''"
  shows "core (put_session s' cid sm) cur"
  using assms by (auto simp: core_def calls_ok_def put_session_def)

lemma core_new:
  "core sm cur \<Longrightarrow> core (sm\<lparr>sm_sessions := gm_set cid (new_session cid l r ct now sdp a b) (sm_sessions sm)\<rparr>) cur"
  using new_session_ok[of cid l r ct now sdp a b] by (auto simp: core_def calls_ok_def call_states)

lemma core_del: "core sm cur \<Longrightarrow> cur \<noteq> cid \<Longrightarrow> core (sm\<lparr>sm_sessions := gm_del cid (sm_sessions sm)\<rparr>) cur"
  by (auto simp: core_def calls_ok_def)

lemma core_with_session:
  assumes "core sm cur" "\<And>s. cs_State (f s) = cs_State s" "\<And>s. session_ok cid s \<Longrightarrow> session_ok cid (f s)"
  shows "core (fst (with_session cid f sm)) cur"
proof (cases "gm_get (sm_sessions sm) cid")
  case (Some s)
  then have "cs_State s \<noteq> CallStateActive" using assms(1) by (auto simp: core_def)
  then show ?thesis using Some core_put[OF assms(1) Some assms(3)] assms(2) by (simp add: with_session_def)
qed (use assms(1) in \<open>simp add: with_session_def\<close>)

lemma core_SetLocalSDP: "core sm cur \<Longrightarrow> core (fst (SetLocalSDP now cid sdp sm)) cur"
  unfolding SetLocalSDP_def by (rule core_with_session) (auto simp: session_ok_def)

lemma core_AddRemoteICECandidate: "core sm cur \<Longrightarrow> core (fst (AddRemoteICECandidate now cid cand sm)) cur"
  unfolding AddRemoteICECandidate_def by (rule core_with_session) (auto simp: session_ok_def)

text \<open>The handler for state changes never blocks, and answers nothing for the states the manager sets.\<close>

lemma UpdateState_manager:
  assumes "core sm (cm_currentCallID cm)" "st \<in> {CallStateAccepted, CallStateConnecting}"
  shows "\<exists>sm' r. UpdateState (session_handlers t) now upd cid st (sm, cm) = Some ((sm', cm), r) \<and> core sm' (cm_currentCallID cm)
    \<and> (r = Inr () \<longrightarrow> state_of cid sm' = Some st)"
proof (cases "gm_get (sm_sessions sm) cid")
  case None
  then show ?thesis using assms by (simp add: UpdateState_def)
next
  case (Some s)
  show ?thesis
  proof (cases "next_state now st s")
    case (Inl e)
    then show ?thesis using assms Some by (simp add: UpdateState_def)
  next
    case (Inr v)
    have "v = Some (s\<lparr>cs_State := st\<rparr>)" using Inr assms(2) by (auto simp: next_state_def call_states split: if_splits)
    moreover have "core (put_session (s\<lparr>cs_State := st, cs_UpdatedAt := upd\<rparr>) cid sm) (cm_currentCallID cm)"
      using assms(2) by (intro core_put[OF assms(1) Some]) (auto simp: session_ok_def call_states)
    moreover have "st \<noteq> CallStateActive" using assms(2) by (auto simp: call_states)
    ultimately show ?thesis using Some Inr assms(2)
      by (auto simp: UpdateState_def session_handlers_def handleStateChanged_def Let_def state_of_def put_session_def)
  qed
qed

text \<open>Ending a call with the lock free clears it as the current call; with the lock taken, a live call
  blocks.\<close>

lemma EndCall_manager:
  assumes "manager_ok (sm, cm)"
  shows "\<exists>smw' r. EndCall (session_handlers t) now cid reason (sm, cm) = Some (smw', r) \<and> manager_ok smw'"
proof (cases "\<exists>s. gm_get (sm_sessions sm) cid = Some s \<and> cs_State s \<noteq> CallStateEnded")
  case True
  then obtain s where s: "gm_get (sm_sessions sm) cid = Some s" "cs_State s \<noteq> CallStateEnded" by blast
  let ?s = "(ended now reason s)\<lparr>cs_UpdatedAt := now\<rparr>"
  have id: "cs_CallID ?s = cid" using s(1) assms by (auto simp: manager_ok_def core_def calls_ok_def session_ok_def ended_def)
  have ev: "handleSessionEnded t ?s cm = Some (emit (cm_onCallEnded cm) (CallEnded cid (cs_HangupReason ?s) (Duration t ?s))
      (unlock (leave_call cid (cm\<lparr>cm_locked := True\<rparr>))))"
    using assms id by (simp add: handleSessionEnded_def lock_def manager_ok_def Let_def)
  have "core (put_session ?s cid sm) (if cm_currentCallID cm = cid then '''' else cm_currentCallID cm)"
    using assms s by (intro core_put[OF _ s(1)]) (auto simp: manager_ok_def core_def session_ok_def ended_def call_states)
  then show ?thesis using s ev assms
    by (auto simp: EndCall_def notify_ended_def session_handlers_def Let_def manager_ok_def silent_emit)
next
  case False
  then show ?thesis using assms by (auto simp: EndCall_def split: option.splits)
qed

lemma EndCall_blocks:
  assumes "cm_locked cm" "gm_get (sm_sessions sm) cid = Some s" "cs_State s \<noteq> CallStateEnded"
  shows "EndCall (session_handlers t) now cid reason (sm, cm) = None"
  using assms by (simp add: EndCall_def notify_ended_def session_handlers_def handleSessionEnded_def lock_def Let_def)

lemma hang_up_manager: "manager_ok smw \<Longrightarrow> hang_up K now cid reason smw = Some (smw', r) \<Longrightarrow> manager_ok smw'"
  using EndCall_manager[of "fst smw" "snd smw" now now cid reason]
  by (auto simp: hang_up_def split: sum.splits go_error.splits)

text \<open>With the lock held, ending a call either blocks or changes nothing.\<close>

lemma hang_up_locked:
  assumes "cm_locked cm" "hang_up K now cid reason (sm, cm) = Some (smw', r)"
  shows "smw' = (sm, cm)"
proof (cases "\<exists>s. gm_get (sm_sessions sm) cid = Some s \<and> cs_State s \<noteq> CallStateEnded")
  case True
  then show ?thesis using assms EndCall_blocks[OF assms(1)] by (auto simp: hang_up_def split: sum.splits go_error.splits)
next
  case False
  then have "\<exists>r. EndCall (session_handlers now) now cid reason (sm, cm) = Some ((sm, cm), r)"
    by (auto simp: EndCall_def split: option.splits)
  then show ?thesis using assms(2) by (auto simp: hang_up_def split: sum.splits go_error.splits)
qed

lemma locked_ok:
  assumes "manager_ok smw" "locked body smw = Some (smw', r)"
    "\<And>sm cm smw1. inner_ok (sm, cm) \<Longrightarrow> cm_locked cm \<Longrightarrow> body (sm, cm) = Some (smw1, r) \<Longrightarrow> inner_ok smw1"
  shows "manager_ok smw'"
proof -
  obtain sm cm where smw: "smw = (sm, cm)" by (cases smw)
  have in_ok: "inner_ok (sm, cm\<lparr>cm_locked := True\<rparr>)" using assms(1) smw by (simp add: manager_ok_def inner_ok_def)
  obtain sm2 cm2 where b: "body (sm, cm\<lparr>cm_locked := True\<rparr>) = Some ((sm2, cm2), r)" "smw' = (sm2, unlock cm2)"
    using assms(1,2) smw by (auto simp: locked_def lock_def manager_ok_def split: option.splits)
  then show ?thesis using assms(3)[OF in_ok _ b(1)] by (simp add: manager_ok_def inner_ok_def)
qed

lemma send_panics: "sendSignalingMessage p t b = Inl e \<Longrightarrow> \<exists>m. e = Panic m"
  by (auto simp: sendSignalingMessage_def split: if_splits)

lemma state_of_SetLocalSDP: "state_of cid (fst (SetLocalSDP now c sdp sm)) = state_of cid sm"
  by (auto simp: SetLocalSDP_def with_session_def put_session_def state_of_def split: option.splits)

lemma SendOffer_manager:
  assumes "core sm cur" "SendOffer K CB c uuid ssrc peer ct sdp (sm, w) = Some ((sm', w'), r)"
  shows "w' = w \<and> core sm' cur \<and> (\<forall>session. r = Inr session \<longrightarrow> state_of uuid sm' = Some CallStateOffered \<and> cs_CallID session = uuid)"
proof (cases "GetActiveSessionWithPeer peer sm")
  case (Inr x)
  then show ?thesis using assms by (auto simp: SendOffer_def)
next
  case (Inl x)
  let ?new = "new_session uuid (sm_identity sm) peer ct (c 0) '''' ssrc 0"
  obtain sm1 r1 where c: "CreateOutgoingCall uuid (c 0) ssrc peer ct sm = (sm1, r1)" by fastforce
  show ?thesis
  proof (cases r1)
    case Inl2: (Inl e)
    then have "sm1 = sm" using c by (auto simp: CreateOutgoingCall_def Let_def split: if_splits)
    then show ?thesis using Inl Inl2 c assms by (auto simp: SendOffer_def)
  next
    case Inr2: (Inr session)
    have s: "session = ?new" "sm1 = sm\<lparr>sm_sessions := gm_set uuid ?new (sm_sessions sm)\<rparr>"
      using c Inr2 by (auto simp: CreateOutgoingCall_def Let_def split: if_splits)
    have id: "cs_CallID session = uuid" using s(1) by (simp add: new_session_def)
    obtain sm2 r2 where c2: "SetLocalSDP (c 1) uuid sdp sm1 = (sm2, r2)" by fastforce
    have core2: "core sm2 cur" using core_SetLocalSDP[OF core_new[OF assms(1)]] s(2) c2 by (metis fst_conv)
    have st2: "state_of uuid sm2 = Some CallStateOffered"
      using state_of_SetLocalSDP[of uuid "c 1" uuid sdp sm1] c2 s(2) new_session_ok(2) by (simp add: state_of_def)
    have ok2: "calls_ok sm2" using core2 by (simp add: core_def)
    have "cs_CallID (deref session sm2) = uuid"
      using ok2 id by (auto simp: deref_def calls_ok_def session_ok_def split: option.splits)
    then have "w' = w \<and> sm' = sm2 \<and> (\<forall>x. r = Inr x \<longrightarrow> cs_CallID x = uuid)"
      using assms(2) Inl Inr2 c c2 id by (auto simp: SendOffer_def split: sum.splits go_error.splits dest: send_panics)
    then show ?thesis using core2 st2 by simp
  qed
qed

lemma SendAnswer_manager:
  assumes "core sm cur"
  shows "core (fst (SendAnswer K now cid sdp sm)) cur" "state_of x (fst (SendAnswer K now cid sdp sm)) = state_of x sm"
proof -
  have "fst (SendAnswer K now cid sdp sm) = sm \<or> fst (SendAnswer K now cid sdp sm) = fst (SetLocalSDP now cid sdp sm)"
    by (auto simp: SendAnswer_def split: sum.splits prod.splits go_error.splits)
  then show "core (fst (SendAnswer K now cid sdp sm)) cur" "state_of x (fst (SendAnswer K now cid sdp sm)) = state_of x sm"
    using core_SetLocalSDP[OF assms] assms state_of_SetLocalSDP by metis+
qed

lemma core_enter: "core sm cur \<Longrightarrow> state_of cid sm = Some st \<Longrightarrow> st \<noteq> CallStateEnded \<Longrightarrow> core sm cid"
  by (auto simp: core_def state_of_def)

lemma StartOutgoingCall_manager:
  assumes "manager_ok smw" "StartOutgoingCall K c uuid ssrc peer ct smw = Some (smw', r)"
  shows "manager_ok smw'"
  using assms(1) assms(2)[unfolded StartOutgoingCall_def]
proof (rule locked_ok, goal_cases)
  case (1 sm cm smw1)
  have core: "core sm (cm_currentCallID cm)" using 1(1) by (simp add: inner_ok_def)
  show ?case
  proof (cases "cm_currentCallID cm = ''''")
    case True
    let ?ct = "if ct = CallTypeVideo \<and> \<not> cc_EnableVideo (cm_config cm) then CallTypeAudio else ct"
    obtain sm1 cm1 r1 where o: "SendOffer K (session_handlers (c 2)) c uuid ssrc peer ?ct (generateSDPOffer ?ct) (sm, cm) = Some ((sm1, cm1), r1)"
      using 1(3) True by (auto simp: Let_def split: option.splits)
    note so = SendOffer_manager[OF core o]
    have "core sm1 uuid" if "r1 = Inr s" for s
      using so that core_enter[of sm1 _ uuid CallStateOffered] by (auto simp: call_states)
    then show ?thesis using 1 True o so
      by (auto simp: inner_ok_def Let_def silent_emit split: sum.splits go_error.splits if_splits)
  qed (use 1 in auto)
qed

lemma AnswerIncomingCall_manager:
  assumes "manager_ok smw" "AnswerIncomingCall K c cid smw = Some (smw', r)"
  shows "manager_ok smw'"
  using assms(1) assms(2)[unfolded AnswerIncomingCall_def]
proof (rule locked_ok, goal_cases)
  case (1 sm cm smw1)
  have core: "core sm (cm_currentCallID cm)" using 1(1) by (simp add: inner_ok_def)
  obtain sm1 r1 where u: "UpdateState (session_handlers (c 0)) (c 0) (c 1) cid CallStateAccepted (sm, cm) = Some ((sm1, cm), r1)"
    "core sm1 (cm_currentCallID cm)" "r1 = Inr () \<longrightarrow> state_of cid sm1 = Some CallStateAccepted"
    using UpdateState_manager[OF core, of CallStateAccepted] by blast
  have "core (fst (SendAnswer K (c 2) cid sdp sm1)) cid" if "r1 = Inr ()" for sdp
    using core_enter[OF SendAnswer_manager(1)[OF u(2)]] SendAnswer_manager(2)[OF u(2)] u(3) that by (simp add: call_states)
  moreover have "core (fst (SendAnswer K (c 2) cid sdp sm1)) (cm_currentCallID cm)" for sdp by (rule SendAnswer_manager(1)[OF u(2)])
  ultimately show ?case using 1 u
    by (auto simp: inner_ok_def Let_def silent_emit split: sum.splits go_error.splits if_splits prod.splits)
      (metis fst_conv old.unit.exhaust)+
qed

lemma handleIncomingAnswer_manager: "manager_ok smw \<Longrightarrow> handleIncomingAnswer c cid peer sdp smw = Some smw' \<Longrightarrow> manager_ok smw'"
  using UpdateState_manager[of "fst smw" "snd smw" CallStateConnecting "c 0" "c 0" "c 1" cid]
  by (cases smw) (auto simp: handleIncomingAnswer_def manager_ok_def)

lemma receive_manager:
  assumes "manager_ok smw" "receive K c ssrcR ssrcL sender mt payload smw = Some (smw', r)"
  shows "manager_ok smw'"
proof -
  have offer: "manager_ok smw'" if "handleOffer K (signaling_handlers c) c ssrcR ssrcL sender payload smw = Some (smw', r)"
    using that assms(1) core_new
    by (cases smw) (auto simp: handleOffer_def CreateIncomingCall_def signaling_handlers_def handleIncomingOffer_def manager_ok_def Let_def
        notify_def silent_emit split: sum.splits if_splits go_error.splits)
  have answer: "manager_ok smw'" if "handleAnswer K (signaling_handlers c) sender payload smw = Some (smw', r)"
    using that assms(1) handleIncomingAnswer_manager
    by (auto simp: handleAnswer_def signaling_handlers_def notify_def split: sum.splits option.splits)
  have ice: "manager_ok smw'" if "handleICECandidate K (signaling_handlers c) c sender payload smw = Some (smw', r)"
    using that assms(1) core_AddRemoteICECandidate[of "fst smw" "cm_currentCallID (snd smw)" "c 0"]
    by (auto simp: handleICECandidate_def signaling_handlers_def notify_def handleIncomingICE_def manager_ok_def
        split: sum.splits option.splits if_splits prod.splits) (metis fst_conv)+
  have hangup: "manager_ok smw'" if h: "handleHangup K (session_handlers (c 0)) (signaling_handlers c) c sender payload smw = Some (smw', r)"
  proof -
    have leave: "manager_ok (sm, cm) \<Longrightarrow> handleIncomingHangup cid p rs (sm, cm) = Some t \<Longrightarrow> manager_ok t" for sm cm cid p rs t
      using core_leave by (auto simp: handleIncomingHangup_def lock_def manager_ok_def unlock_def leave_call_def silent_def split: if_splits)
    show ?thesis using h assms(1) EndCall_manager[of "fst smw" "snd smw" "c 0" "c 0"] leave
      by (auto simp: handleHangup_def signaling_handlers_def notify_def split: sum.splits option.splits if_splits)
        (metis prod.collapse option.inject prod.inject)+
  qed
  show ?thesis using assms offer answer ice hangup
    by (auto simp: receive_def HandleSignalingMessage_def split: if_splits)
qed

lemma cleanup_loop_manager:
  "manager_ok (sm, cm) \<Longrightarrow> \<forall>(cid, s)\<in>set es. cs_CallID s = cid \<Longrightarrow>
    cleanup_loop (session_handlers t) now es (sm, cm) = Some smw' \<Longrightarrow> manager_ok smw'"
proof (induction es arbitrary: sm cm)
  case (Cons e es)
  obtain cid s where e: "e = (cid, s)" by (cases e)
  show ?case
  proof (cases "CallSession_IsExpired now s")
    case True
    let ?s = "ended now HangupTimeout s"
    let ?cm = "emit (cm_onCallEnded cm) (CallEnded cid (cs_HangupReason ?s) (Duration t ?s)) (unlock (leave_call cid (cm\<lparr>cm_locked := True\<rparr>)))"
    have "cs_CallID ?s = cid" using Cons.prems(2) e by (simp add: ended_def)
    then have h: "handleSessionEnded t ?s cm = Some ?cm"
      using Cons.prems(1) by (simp add: handleSessionEnded_def lock_def manager_ok_def Let_def)
    have "core (sm\<lparr>sm_sessions := gm_del cid (sm_sessions sm)\<rparr>) (if cm_currentCallID cm = cid then '''' else cm_currentCallID cm)"
      using Cons.prems(1) core_del[of sm "cm_currentCallID cm" cid]
      by (auto simp: manager_ok_def core_def calls_ok_def)
    then have "manager_ok (sm\<lparr>sm_sessions := gm_del cid (sm_sessions sm)\<rparr>, ?cm)"
      using Cons.prems(1) by (auto simp: manager_ok_def silent_emit split: if_splits)
    then show ?thesis using Cons.IH Cons.prems(2,3) True e h
      by (simp add: CallSession_IsExpired_def notify_ended_def session_handlers_def)
  next
    case False
    then show ?thesis using Cons e by (auto simp: CallSession_IsExpired_def)
  qed
qed simp

lemma calls_ok_ids: "calls_ok sm \<Longrightarrow> (cid, s) \<in> set (sm_sessions sm) \<Longrightarrow> cs_CallID s = cid \<and> gm_get (sm_sessions sm) cid = Some s"
  by (simp add: calls_ok_def gm_in_set_get session_ok_def)

lemma cleanup_manager:
  assumes "manager_ok smw" "cleanupExpiredOffers (session_handlers t) now smw = Some smw'"
  shows "manager_ok smw'"
proof -
  obtain sm cm where smw: "smw = (sm, cm)" by (cases smw)
  have "\<forall>(cid, s)\<in>set (sm_sessions sm). cs_CallID s = cid"
    using assms(1) smw calls_ok_ids[of sm] by (auto simp: manager_ok_def core_def)
  then show ?thesis using assms smw cleanup_loop_manager[of sm cm "sm_sessions sm" t now smw']
    by (simp add: cleanupExpiredOffers_def split: if_splits)
qed

lemma stop_loop_locked:
  "cm_locked cm \<Longrightarrow> stop_loop K t ss (sm, cm) = Some (smw', r) \<Longrightarrow> smw' = (sm, cm)"
  by (induction ss) (auto split: option.splits sum.splits go_error.splits dest: hang_up_locked)

lemma hang_up_live:
  assumes "cm_locked cm" "gm_get (sm_sessions sm) cid = Some s" "cs_State s \<noteq> CallStateEnded"
  shows "hang_up K now cid reason (sm, cm) = None \<or> (\<exists>m. hang_up K now cid reason (sm, cm) = Some ((sm, cm), Inl (Panic m)))"
  using EndCall_blocks[OF assms] by (auto simp: hang_up_def split: sum.splits go_error.splits)

lemma stop_loop_live:
  assumes "cm_locked cm" "ss \<noteq> []" "\<forall>s\<in>set ss. \<exists>x. gm_get (sm_sessions sm) (cs_CallID s) = Some x \<and> cs_State x \<noteq> CallStateEnded"
  shows "stop_loop K t ss (sm, cm) = None \<or> (\<exists>m. stop_loop K t ss (sm, cm) = Some ((sm, cm), Inl (Panic m)))"
proof -
  obtain s rest x where ss: "ss = s # rest" "gm_get (sm_sessions sm) (cs_CallID s) = Some x" "cs_State x \<noteq> CallStateEnded"
    using assms(2,3) by (cases ss) auto
  then show ?thesis using hang_up_live[OF assms(1) ss(2,3), of K "t (cs_CallID s)" HangupNormal] by auto
qed

lemma active_sessions_live:
  "calls_ok sm \<Longrightarrow> s \<in> set (GetAllActiveSessions sm) \<Longrightarrow> \<exists>x. gm_get (sm_sessions sm) (cs_CallID s) = Some x \<and> cs_State x \<noteq> CallStateEnded"
  by (auto simp: GetAllActiveSessions_def dest: calls_ok_ids)

lemma core_Stop: "core sm cur \<Longrightarrow> GetAllActiveSessions sm = [] \<Longrightarrow> core (SessionManager_Stop t sm) cur"
proof -
  assume "core sm cur" "GetAllActiveSessions sm = []"
  then have "sm_sessions (SessionManager_Stop t sm) = sm_sessions sm"
    by (auto simp: SessionManager_Stop_def GetAllActiveSessions_def filter_empty_conv intro!: map_idI)
  then show "core (SessionManager_Stop t sm) cur" using \<open>core sm cur\<close> by (simp add: core_def calls_ok_def)
qed

lemma Stop_manager:
  assumes "manager_ok smw" "CallManager_Stop K t smw = Some (smw', r)"
  shows "manager_ok smw'"
  using assms(1) assms(2)[unfolded CallManager_Stop_def]
proof (rule locked_ok, goal_cases)
  case (1 sm cm smw1)
  obtain smw2 r2 where l: "stop_loop K t (GetAllActiveSessions sm) (sm, cm) = Some (smw2, r2)" using 1(3) by (auto split: option.splits)
  have smw2: "smw2 = (sm, cm)" using stop_loop_locked[OF 1(2) l] .
  show ?case
  proof (cases "GetAllActiveSessions sm = []")
    case True
    then show ?thesis using 1 core_Stop[OF _ True] by (auto simp: inner_ok_def silent_def)
  next
    case False
    have "calls_ok sm" using 1(1) by (simp add: inner_ok_def core_def)
    then obtain m where "r2 = Inl (Panic m)" using stop_loop_live[OF 1(2) False, of sm K t] active_sessions_live l by auto
    then show ?thesis using 1 l smw2 by simp
  qed
qed

lemma EndCallByID_manager:
  assumes "manager_ok smw" "EndCallByID K now cid reason smw = Some (smw', r)"
  shows "manager_ok smw'"
proof (cases "\<exists>smw1. hang_up K now cid reason smw = Some (smw1, Inr ())")
  case True
  then obtain smw1 where h: "hang_up K now cid reason smw = Some (smw1, Inr ())" by blast
  have "locked (\<lambda>(sm, cm). Some ((sm, leave_call cid cm), Inr ())) smw1 = Some (smw', r)" using assms(2) h by (simp add: EndCallByID_def)
  then show ?thesis by (rule locked_ok[OF hang_up_manager[OF assms(1) h]]) (auto simp: inner_ok_def intro: core_leave)
next
  case False
  then have "\<exists>e. hang_up K now cid reason smw = Some (smw', Inl e)"
    using assms(2) by (auto simp: EndCallByID_def split: option.splits sum.splits)
  then show ?thesis using hang_up_manager[OF assms(1)] by blast
qed

lemma run_goroutine_manager: "manager_ok smw \<Longrightarrow> run_goroutine K c g smw = Some (smw', r) \<Longrightarrow> manager_ok smw'"
  by (cases g) (auto dest: AnswerIncomingCall_manager EndCallByID_manager)

lemmas manager_steps = StartOutgoingCall_manager AnswerIncomingCall_manager hang_up_manager EndCallByID_manager receive_manager
  run_goroutine_manager cleanup_manager Stop_manager

lemma cm_step_manager: "cm_step K smw smw' \<Longrightarrow> manager_ok smw \<Longrightarrow> manager_ok smw'"
proof (induction rule: cm_step.induct)
  case (reject now cid reason smw smw' r')
  then show ?case by (auto simp: RejectIncomingCall_def split: sum.splits dest: hang_up_manager)
next
  case (end_call now reason smw smw' r')
  then show ?case by (auto simp: CallManager_EndCall_def split: if_splits dest: EndCallByID_manager)
next
  case (register sm cm a b d e)
  then show ?case by (simp add: manager_ok_def silent_def)
qed (blast dest: manager_steps)+

interpretation manager: kept_invariant "cm_step K" manager_ok for K
  by unfold_locales (rule cm_step_manager)

section \<open>Properties\<close>

text \<open>C16. The current call. After any history of the call manager, with messages from anybody, expiring offers
  and timers included, its lock is free, the session manager is well formed, and the current call, if
  there is one, is a known session that has not ended: \<open>GetActiveCall\<close> never fails during a call. No call is ever
  active and no connection is ever reported, because nothing moves a call from connecting to active.\<close>

theorem current_call_alive:
  assumes "(cm_step K)\<^sup>*\<^sup>* (NewCallManager pub cfg) (sm, cm)"
  shows "\<not> cm_locked cm \<and> calls_ok sm
    \<and> (CallManager_IsInCall (sm, cm) \<longrightarrow> (\<exists>s. GetActiveCall (sm, cm) = Inr s \<and> cs_State s \<noteq> CallStateEnded))
    \<and> (\<forall>cid. state_of cid sm \<noteq> Some CallStateActive \<and> CallConnected cid \<notin> set (cm_events cm))"
proof -
  have "manager_ok (NewCallManager pub cfg)"
    by (simp add: NewCallManager_def NewSessionManager_def manager_ok_def core_def calls_ok_def silent_def)
  from manager.reachable_inv[OF assms this] show ?thesis
    by (auto simp: manager_ok_def core_def silent_def state_of_def CallManager_IsInCall_def GetActiveCall_def GetSession_def)
qed

definition rtc_ref_codecs :: rtc_codecs where
  "rtc_ref_codecs = \<lparr>
     k_offer = codec_of (s_iso (\<lambda>m. (ro_Sdp m, ro_CallId m, if ro_Video m then 1 else 0))
       (\<lambda>(a, b, c). \<lparr>ro_Sdp = a, ro_CallId = b, ro_Video = (c = 1)\<rparr>) (s_pair s_string (s_pair s_string s_byte))),
     k_answer = codec_of (s_iso (\<lambda>m. (ra_Sdp m, ra_CallId m)) (\<lambda>(a, b). \<lparr>ra_Sdp = a, ra_CallId = b\<rparr>) (s_pair s_string s_string)),
     k_ice = codec_of (s_iso (\<lambda>m. (ri_Candidate m, ri_SdpMid m, ri_SdpMlineIdx m, ri_CallId m))
       (\<lambda>(a, b, c, d). \<lparr>ri_Candidate = a, ri_SdpMid = b, ri_SdpMlineIdx = c, ri_CallId = d\<rparr>)
       (s_pair s_string (s_pair s_string (s_pair s_u32 s_string)))),
     k_hangup = codec_of (s_iso (\<lambda>m. (rg_CallId m, rg_Reason m)) (\<lambda>(a, b). \<lparr>rg_CallId = a, rg_Reason = b\<rparr>) (s_pair s_string s_string))\<rparr>"

lemma rtc_ref_codecs_ok: "codec_ok (k_offer rtc_ref_codecs)" "codec_ok (k_answer rtc_ref_codecs)" "codec_ok (k_hangup rtc_ref_codecs)"
  unfolding rtc_ref_codecs_def by (simp, rule codec_of_ok, rule s_iso_ok, intro ser_intros, simp)+

definition example_call :: "SessionManager \<times> CallManager" where
  "example_call = fst (the (StartOutgoingCall rtc_ref_codecs (\<lambda>_. 0) ''id'' 1 (Some (replicate 8 3)) CallTypeAudio (NewCallManager [9] None)))"

lemma example_call_started:
  "\<exists>r. StartOutgoingCall rtc_ref_codecs (\<lambda>_. 0) ''id'' 1 (Some (replicate 8 3)) CallTypeAudio (NewCallManager [9] None) = Some (example_call, r)"
  "cm_currentCallID (snd example_call) = ''id''" "state_of ''id'' (fst example_call) = Some CallStateOffered"
  "\<not> cm_locked (snd example_call)" "GetAllActiveSessions (fst example_call) \<noteq> []"
  "\<forall>s\<in>set (GetAllActiveSessions (fst example_call)). cs_RemoteIdentity s = Some (replicate 8 3)"
proof -
  let ?s = "new_session ''id'' [9] (Some (replicate 8 3)) CallTypeAudio 0 '''' 1 0"
  let ?s' = "?s\<lparr>cs_LocalSDP := generateSDPOffer CallTypeAudio, cs_UpdatedAt := 0\<rparr>"
  obtain b where b: "marshal (k_offer rtc_ref_codecs) (ToRTCOffer ?s') = Inr b" using codec_okD[OF rtc_ref_codecs_ok(1)] by blast
  have "CallTypeAudio \<noteq> CallTypeVideo" by (simp add: CallTypeAudio_def CallTypeVideo_def)
  then have "StartOutgoingCall rtc_ref_codecs (\<lambda>_. 0) ''id'' 1 (Some (replicate 8 3)) CallTypeAudio (NewCallManager [9] None) =
      Some (((NewSessionManager [9])\<lparr>sm_sessions := [(''id'', ?s')]\<rparr>, (snd (NewCallManager [9] None))\<lparr>cm_currentCallID := ''id''\<rparr>), Inr ''id'')"
    using b by (simp add: StartOutgoingCall_def locked_def lock_def unlock_def NewCallManager_def NewSessionManager_def SendOffer_def
        GetActiveSessionWithPeer_def CreateOutgoingCall_def SetLocalSDP_def with_session_def put_session_def gm_set_def gm_get_def
        new_session_def deref_def sendSignalingMessage_def DefaultCallConfig_def emit_def Let_def length_hex_encode)
  then show "\<exists>r. StartOutgoingCall rtc_ref_codecs (\<lambda>_. 0) ''id'' 1 (Some (replicate 8 3)) CallTypeAudio (NewCallManager [9] None) = Some (example_call, r)"
    "cm_currentCallID (snd example_call) = ''id''" "state_of ''id'' (fst example_call) = Some CallStateOffered"
    "\<not> cm_locked (snd example_call)" "GetAllActiveSessions (fst example_call) \<noteq> []"
    "\<forall>s\<in>set (GetAllActiveSessions (fst example_call)). cs_RemoteIdentity s = Some (replicate 8 3)"
    by (simp_all add: example_call_def state_of_def gm_get_def new_session_def NewCallManager_def GetAllActiveSessions_def call_states)
qed

lemma example_call_reachable: "(cm_step rtc_ref_codecs)\<^sup>*\<^sup>* (NewCallManager [9] None) example_call"
  using example_call_started(1) start_call[of "''id''"] by blast

theorem current_call_alive_witness:
  "\<exists>s. GetActiveCall example_call = Inr s \<and> cs_State s \<noteq> CallStateEnded"
  using current_call_alive[of rtc_ref_codecs "[9]" None "fst example_call" "snd example_call"] example_call_reachable example_call_started(2)
  by (simp add: CallManager_IsInCall_def)

text \<open>C39. Stopping during a call blocks forever. In every reachable state in which the peers' keys have at
  least 8 bytes, \<open>Stop\<close> returns exactly when no call is open: it holds the manager's mutex while it ends the open
  calls, and the callback for an ended call takes the same mutex.\<close>

theorem Stop_returns_iff_no_call:
  assumes "(cm_step K)\<^sup>*\<^sup>* (NewCallManager pub cfg) (sm, cm)"
    "\<forall>s\<in>set (GetAllActiveSessions sm). 8 \<le> length (slice (cs_RemoteIdentity s))"
  shows "CallManager_Stop K t (sm, cm) = None \<longleftrightarrow> GetAllActiveSessions sm \<noteq> []"
proof -
  have "manager_ok (NewCallManager pub cfg)"
    by (simp add: NewCallManager_def NewSessionManager_def manager_ok_def core_def calls_ok_def silent_def)
  then have ok: "calls_ok sm" "\<not> cm_locked cm" using manager.reachable_inv[OF assms(1)] by (auto simp: manager_ok_def core_def)
  let ?cm = "cm\<lparr>cm_locked := True\<rparr>"
  show ?thesis
  proof (cases "GetAllActiveSessions sm")
    case Nil
    then show ?thesis using ok(2) by (simp add: CallManager_Stop_def locked_def lock_def)
  next
    case (Cons s ss)
    obtain x where x: "gm_get (sm_sessions sm) (cs_CallID s) = Some x" "cs_State x \<noteq> CallStateEnded"
      using active_sessions_live[OF ok(1), of s] Cons by auto
    have "s \<in> snd ` set (sm_sessions sm)" using Cons by (metis (no_types) GetAllActiveSessions_def filter_is_subset list.set_intros(1) set_map subsetD)
    then have "s = x" using calls_ok_ids[OF ok(1)] x by fastforce
    then have "16 \<le> length (hex_encode (slice (cs_RemoteIdentity x)))" using assms(2) Cons by (simp add: length_hex_encode)
    then have "\<not> (\<exists>m. SendHangup K (cs_CallID s) HangupNormal sm = Inl (Panic m))"
      using x by (auto simp: SendHangup_def GetSession_def sendSignalingMessage_def split: sum.splits)
    then have "hang_up K (t (cs_CallID s)) (cs_CallID s) HangupNormal (sm, ?cm) = None"
      using EndCall_blocks[of ?cm sm "cs_CallID s" x] x by (auto simp: hang_up_def split: sum.splits go_error.splits)
    then show ?thesis using Cons ok(2) by (simp add: CallManager_Stop_def locked_def lock_def)
  qed
qed

theorem Stop_returns_iff_no_call_witness: "CallManager_Stop rtc_ref_codecs (\<lambda>_. 1) example_call = None"
  using Stop_returns_iff_no_call[of rtc_ref_codecs "[9]" None "fst example_call" "snd example_call" "\<lambda>_. 1"]
    example_call_reachable example_call_started(5,6)
  by simp

text \<open>Who may answer. An answer moves an offered or accepted call to connecting whoever sent it: the sender
  is not compared with the peer of the call, and the session description of the answer is dropped. A hangup or a
  candidate is checked: from anyone but the peer it is refused and changes nothing.\<close>

theorem answer_from_anyone:
  assumes "gm_get (sm_sessions sm) cid = Some s" "cs_State s \<in> {CallStateOffered, CallStateAccepted}"
    "unmarshal (k_answer K) answer = Inr \<lparr>ra_Sdp = sdp, ra_CallId = cid\<rparr>" "unmarshal (k_hangup K) hangup = Inr \<lparr>rg_CallId = cid, rg_Reason = reason\<rparr>"
    "slice sender \<noteq> slice (cs_RemoteIdentity s)"
  shows "receive K c a b sender MessageType_RTC_ANSWER answer (sm, cm) =
      Some ((put_session (s\<lparr>cs_State := CallStateConnecting, cs_UpdatedAt := c 1\<rparr>) cid sm, cm), Inr ())
    \<and> receive K c a b sender MessageType_RTC_HANGUP hangup (sm, cm) =
      Some ((sm, cm), Inl (Wrap ''hangup from unexpected sender'' ErrInvalidSignalingMessage))"
proof -
  have "next_state (c 0) CallStateConnecting s = Inr (Some (s\<lparr>cs_State := CallStateConnecting\<rparr>))"
    using assms(2) by (auto simp: next_state_def call_states)
  moreover have "CallStateConnecting \<noteq> CallStateActive" by (simp add: call_states)
  ultimately have "handleIncomingAnswer c cid sender sdp (sm, cm) = Some (put_session (s\<lparr>cs_State := CallStateConnecting, cs_UpdatedAt := c 1\<rparr>) cid sm, cm)"
    using assms(1) by (simp add: handleIncomingAnswer_def UpdateState_def session_handlers_def handleStateChanged_def Let_def)
  then show ?thesis using assms
    by (simp add: receive_def HandleSignalingMessage_def rtc_types handleAnswer_def handleHangup_def GetSession_def notify_def signaling_handlers_def)
qed

theorem answer_from_anyone_witness:
  "\<exists>answer sm'. receive rtc_ref_codecs (\<lambda>_. 5) 1 2 (Some [7]) MessageType_RTC_ANSWER answer example_call = Some ((sm', snd example_call), Inr ())
    \<and> state_of ''id'' sm' = Some CallStateConnecting"
proof -
  obtain s where s: "gm_get (sm_sessions (fst example_call)) ''id'' = Some s" "cs_State s = CallStateOffered"
    using example_call_started(3) by (auto simp: state_of_def)
  have "calls_ok (fst example_call)"
    using manager.reachable_inv[OF example_call_reachable]
    by (simp add: manager_ok_def NewCallManager_def NewSessionManager_def core_def calls_ok_def silent_def)
  then have "s \<in> set (GetAllActiveSessions (fst example_call))"
    using s gm_get_in_set[OF s(1)] by (force simp: GetAllActiveSessions_def call_states)
  then have peer: "slice (Some [7]) \<noteq> slice (cs_RemoteIdentity s)" using example_call_started(6) by (simp add: numeral_nat)
  obtain ans han where m: "unmarshal (k_answer rtc_ref_codecs) ans = Inr \<lparr>ra_Sdp = [], ra_CallId = ''id''\<rparr>"
    "unmarshal (k_hangup rtc_ref_codecs) han = Inr \<lparr>rg_CallId = ''id'', rg_Reason = []\<rparr>"
    using codec_okD[OF rtc_ref_codecs_ok(2)] codec_okD[OF rtc_ref_codecs_ok(3)] by meson
  show ?thesis
    using answer_from_anyone[OF s(1) _ m peer, of "\<lambda>_. 5" 1 2 "snd example_call"] s(2)
    by (auto simp: state_of_def put_session_def intro!: exI[of _ ans])
qed

end
