(* ===== verification/MailboxStorage.thy ===== *)
theory MailboxStorage
  imports KeySpace GoTime RefCodec
begin

text \<open>
  \<open>pkg/mailbox/storage.go\<close>: messages kept for recipients that are offline, with quotas and rate counters, on a Badger
  database. Each operation reads the clock through its arguments; where a loop reads it per item, one
  reading stands for all. The keys \<open>CleanupExpired\<close> collects are taken as they were when the iterator
  stood on them.
\<close>

section \<open>Types\<close>

record MailboxConfig =
  mc_MaxMessagesPerTarget :: u32
  mc_MaxMessageSize :: u64
  mc_MaxTotalBytesPerTarget :: u64
  mc_DefaultTtlSeconds :: u64
  mc_DepositRateLimit :: u32
  mc_EnableContentRouting :: bool

record StoredMailboxMessage =
  sx_MessageId :: bytes
  sx_SenderPubkey :: bytes
  sx_Envelope :: bytes
  sx_StoredAt :: u64
  sx_ExpiresAt :: u64
  sx_Size :: u64

record StoredMessage =
  sd_MessageID :: bytes
  sd_Envelope :: bytes
  sd_SenderPubkey :: bytes
  sd_StoredAt :: time
  sd_ExpiresAt :: time
  sd_Size :: u64

record MailboxMetadata =
  md_MessageCount :: u32
  md_TotalBytes :: u64
  md_OldestTime :: u64
  md_NewestTime :: u64

record MailboxStats =
  st_TargetPubkey :: bytes
  st_StoredCount :: u32
  st_UsedBytes :: u64
  st_CapacityBytes :: u64
  st_OldestTimestamp :: u64
  st_NewestTimestamp :: u64

definition defaultConfig :: MailboxConfig where
  "defaultConfig = \<lparr>mc_MaxMessagesPerTarget = 500, mc_MaxMessageSize = 262144, mc_MaxTotalBytesPerTarget = 67108864,
     mc_DefaultTtlSeconds = 604800, mc_DepositRateLimit = 100, mc_EnableContentRouting = False\<rparr>"

text \<open>Keys.\<close>

definition mailboxPrefix :: bytes where "mailboxPrefix = str_bytes ''mbx:''"

definition mbxPrefix :: "bytes \<Rightarrow> bytes" where
  "mbxPrefix targetPubkey = mailboxPrefix @ str_bytes (hex_encode targetPubkey) @ str_bytes '':''"

definition mbxKey :: "bytes \<Rightarrow> bytes \<Rightarrow> bytes" where
  "mbxKey targetPubkey messageID = mbxPrefix targetPubkey @ str_bytes (hex_encode messageID)"

definition metaKey :: "bytes \<Rightarrow> bytes" where
  "metaKey targetPubkey = str_bytes ''mbxmeta:'' @ str_bytes (hex_encode targetPubkey)"

definition rateKey :: "bytes \<Rightarrow> bytes \<Rightarrow> int \<Rightarrow> bytes" where
  "rateKey senderPubkey targetPubkey hourBucket = str_bytes ''mbxrate:'' @ str_bytes (hex_encode senderPubkey) @ str_bytes '':'' @
     str_bytes (hex_encode targetPubkey) @ str_bytes '':'' @ str_bytes (dec_of_int hourBucket)"

section \<open>Metadata\<close>

definition no_metadata :: MailboxMetadata where
  "no_metadata = \<lparr>md_MessageCount = 0, md_TotalBytes = 0, md_OldestTime = 0, md_NewestTime = 0\<rparr>"

definition parse_metadata :: "bytes \<Rightarrow> MailboxMetadata" where
  "parse_metadata data =
     (if length data \<ge> 28 then
        \<lparr>md_MessageCount = le_uint (take 4 data), md_TotalBytes = le_uint (take 8 (drop 4 data)),
         md_OldestTime = le_uint (take 8 (drop 12 data)), md_NewestTime = le_uint (take 8 (drop 20 data))\<rparr>
      else no_metadata)"

definition print_metadata :: "MailboxMetadata \<Rightarrow> bytes" where
  "print_metadata m = le_bytes 4 (md_MessageCount m) @ le_bytes 8 (md_TotalBytes m) @ le_bytes 8 (md_OldestTime m) @ le_bytes 8 (md_NewestTime m)"

text \<open>\<open>None\<close> is the nil pointer that comes with \<open>badger.ErrKeyNotFound\<close>.\<close>

definition getMetadata :: "'d badger \<Rightarrow> bytes \<Rightarrow> 'd \<Rightarrow> MailboxMetadata option res" where
  "getMetadata B targetPubkey d =
     (case db_get B d (metaKey targetPubkey) of
        Inl e \<Rightarrow> Inl e
      | Inr None \<Rightarrow> Inr None
      | Inr (Some data) \<Rightarrow> Inr (Some (parse_metadata data)))"

text \<open>The write that \<open>updateMetadata\<close> adds to the transaction; a failed read counts as no metadata.\<close>

definition updateMetadata :: "'d badger \<Rightarrow> time \<Rightarrow> bytes \<Rightarrow> u64 \<Rightarrow> kv_write list \<Rightarrow> 'd \<Rightarrow> kv_write" where
  "updateMetadata B now targetPubkey len pending d =
     (let m = (case txn_get B d pending (metaKey targetPubkey) of Inr (Some data) \<Rightarrow> parse_metadata data | _ \<Rightarrow> no_metadata);
          n = unix now
      in WSet (metaKey targetPubkey) (print_metadata
           \<lparr>md_MessageCount = md_MessageCount m + 1, md_TotalBytes = md_TotalBytes m + len,
            md_OldestTime = (if md_OldestTime m = 0 \<or> n < md_OldestTime m then n else md_OldestTime m), md_NewestTime = n\<rparr>))"

section \<open>Storing and reading\<close>

definition evictOldest :: "'d badger \<Rightarrow> bytes \<Rightarrow> nat \<Rightarrow> 'd \<Rightarrow> ('d, unit) eff" where
  "evictOldest B targetPubkey count d =
     (case db_scan B d (mbxPrefix targetPubkey) of
        Inl e \<Rightarrow> (d, Inl e)
      | Inr kvs \<Rightarrow> db_run B (map (WDel \<circ> fst) (take count kvs)) d)"

definition checkQuota :: "'d badger \<Rightarrow> MailboxConfig \<Rightarrow> bytes \<Rightarrow> 'd \<Rightarrow> ('d, unit) eff" where
  "checkQuota B config targetPubkey d =
     (case getMetadata B targetPubkey d of
        Inl e \<Rightarrow> (d, Inl e)
      | Inr None \<Rightarrow> (d, Inr ())
      | Inr (Some metadata) \<Rightarrow>
          if md_MessageCount metadata \<ge> mc_MaxMessagesPerTarget config
          then (d, Inl (Err ''message count limit reached for target''))
          else if md_TotalBytes metadata + mc_MaxMessageSize config > mc_MaxTotalBytesPerTarget config
          then (case evictOldest B targetPubkey 1 d of
              (d1, Inl e) \<Rightarrow> (d1, Inl (Err ''storage quota exceeded for target''))
            | (d1, Inr _) \<Rightarrow> (d1, Inr ()))
          else (d, Inr ()))"

definition stored_record :: "time \<Rightarrow> bytes \<Rightarrow> bytes \<Rightarrow> bytes \<Rightarrow> u64 \<Rightarrow> StoredMailboxMessage" where
  "stored_record now messageID senderPubkey envelope ttlSeconds =
     \<lparr>sx_MessageId = messageID, sx_SenderPubkey = senderPubkey, sx_Envelope = envelope, sx_StoredAt = unix now,
      sx_ExpiresAt = unix (now + seconds ttlSeconds), sx_Size = of_nat (length envelope)\<rparr>"

definition StoreMessage :: "'d badger \<Rightarrow> StoredMailboxMessage codec \<Rightarrow> MailboxConfig \<Rightarrow> time \<Rightarrow> time \<Rightarrow> bytes \<Rightarrow> bytes \<Rightarrow> bytes \<Rightarrow> bytes \<Rightarrow> u64 \<Rightarrow>
    'd \<Rightarrow> ('d, unit) eff" where
  "StoreMessage B K config now now2 targetPubkey messageID senderPubkey envelope ttlSeconds d =
     (case checkQuota B config targetPubkey d of
        (d1, Inl e) \<Rightarrow> (d1, Inl e)
      | (d1, Inr _) \<Rightarrow> (case marshal K (stored_record now messageID senderPubkey envelope ttlSeconds) of
          Inl e \<Rightarrow> (d1, Inl (Wrap ''failed to marshal stored message'' e))
        | Inr data \<Rightarrow>
            let w = WSet (mbxKey targetPubkey messageID) data
            in db_run B [w, updateMetadata B now2 targetPubkey (of_nat (length envelope)) [w] d1] d1))"

definition from_record :: "StoredMailboxMessage \<Rightarrow> StoredMessage" where
  "from_record s = \<lparr>sd_MessageID = sx_MessageId s, sd_Envelope = sx_Envelope s, sd_SenderPubkey = sx_SenderPubkey s,
     sd_StoredAt = unixTime (sx_StoredAt s), sd_ExpiresAt = unixTime (sx_ExpiresAt s), sd_Size = sx_Size s\<rparr>"

definition GetMessage :: "'d badger \<Rightarrow> StoredMailboxMessage codec \<Rightarrow> bytes \<Rightarrow> bytes \<Rightarrow> 'd \<Rightarrow> StoredMessage res" where
  "GetMessage B K targetPubkey messageID d =
     (case db_get B d (mbxKey targetPubkey messageID) of
        Inl e \<Rightarrow> Inl e
      | Inr None \<Rightarrow> Inl (Err ''message not found'')
      | Inr (Some data) \<Rightarrow> (case unmarshal K data of Inl e \<Rightarrow> Inl e | Inr stored \<Rightarrow> Inr (from_record stored)))"

definition live :: "time \<Rightarrow> StoredMailboxMessage \<Rightarrow> bool" where
  "live now s \<longleftrightarrow> \<not> unixTime (sx_ExpiresAt s) < now"

definition ListMessages :: "'d badger \<Rightarrow> StoredMailboxMessage codec \<Rightarrow> time \<Rightarrow> bytes \<Rightarrow> 'd \<Rightarrow> StoredMessage list res" where
  "ListMessages B K now targetPubkey d =
     (case db_scan B d (mbxPrefix targetPubkey) of
        Inl e \<Rightarrow> Inl e
      | Inr kvs \<Rightarrow> (case each (unmarshal K \<circ> snd) kvs of
          Inl e \<Rightarrow> Inl e
        | Inr stored \<Rightarrow> Inr (map from_record (filter (live now) stored))))"

text \<open>The count of deleted messages is computed and dropped: the metadata stays as it is.\<close>

definition Mailbox_DeleteMessages :: "'d badger \<Rightarrow> bytes \<Rightarrow> bytes list \<Rightarrow> 'd \<Rightarrow> ('d, unit) eff" where
  "Mailbox_DeleteMessages B targetPubkey messageIDs d = db_run B (map (\<lambda>msgID. WDel (mbxKey targetPubkey msgID)) messageIDs) d"

definition CleanupExpired :: "'d badger \<Rightarrow> StoredMailboxMessage codec \<Rightarrow> time \<Rightarrow> 'd \<Rightarrow> ('d, nat) eff" where
  "CleanupExpired B K now d =
     (case db_scan B d mailboxPrefix of
        Inl e \<Rightarrow> (d, Inl e)
      | Inr kvs \<Rightarrow>
          let expired = filter (\<lambda>(key, data). case unmarshal K data of Inl _ \<Rightarrow> False | Inr stored \<Rightarrow> now > unixTime (sx_ExpiresAt stored)) kvs
          in (case db_run B (map (WDel \<circ> fst) expired) d of
                (d1, Inl e) \<Rightarrow> (d1, Inl e)
              | (d1, Inr _) \<Rightarrow> (d1, Inr (length expired))))"

definition GetStats :: "'d badger \<Rightarrow> MailboxConfig \<Rightarrow> bytes \<Rightarrow> 'd \<Rightarrow> MailboxStats res" where
  "GetStats B config targetPubkey d =
     (case getMetadata B targetPubkey d of
        Inl e \<Rightarrow> Inl e
      | Inr None \<Rightarrow> Inr \<lparr>st_TargetPubkey = targetPubkey, st_StoredCount = 0, st_UsedBytes = 0,
          st_CapacityBytes = mc_MaxTotalBytesPerTarget config, st_OldestTimestamp = 0, st_NewestTimestamp = 0\<rparr>
      | Inr (Some m) \<Rightarrow> Inr \<lparr>st_TargetPubkey = targetPubkey, st_StoredCount = md_MessageCount m, st_UsedBytes = md_TotalBytes m,
          st_CapacityBytes = mc_MaxTotalBytesPerTarget config, st_OldestTimestamp = md_OldestTime m, st_NewestTimestamp = md_NewestTime m\<rparr>)"

section \<open>Persistent rate counters\<close>

definition Mailbox_CheckRateLimit :: "'d badger \<Rightarrow> MailboxConfig \<Rightarrow> time \<Rightarrow> bytes \<Rightarrow> bytes \<Rightarrow> 'd \<Rightarrow> bool res" where
  "Mailbox_CheckRateLimit B config now senderPubkey targetPubkey d =
     (case db_get B d (rateKey senderPubkey targetPubkey (hour_bucket now)) of
        Inl e \<Rightarrow> Inl e
      | Inr None \<Rightarrow> Inr (0 \<ge> mc_DepositRateLimit config)
      | Inr (Some data) \<Rightarrow>
          if length data < 4 then Inl (Panic ''index out of range'')
          else Inr ((le_uint (take 4 data) :: u32) \<ge> mc_DepositRateLimit config))"

definition IncrementRateLimit :: "'d badger \<Rightarrow> time \<Rightarrow> bytes \<Rightarrow> bytes \<Rightarrow> 'd \<Rightarrow> ('d, unit) eff" where
  "IncrementRateLimit B now senderPubkey targetPubkey d =
     (let key = rateKey senderPubkey targetPubkey (hour_bucket now);
          count = (case db_get B d key of Inr (Some data) \<Rightarrow> if length data \<ge> 4 then le_uint (take 4 data) else 0 | _ \<Rightarrow> (0 :: u32))
      in db_run B [WSet key (le_bytes 4 (count + 1))] d)"

section \<open>The key space of the mailbox\<close>

lemma mbx_prefix_iff: "prefix (mbxPrefix t') (mbxKey t i) \<longleftrightarrow> t' = t"
proof
  assume "prefix (mbxPrefix t') (mbxKey t i)"
  then obtain r where "str_bytes (hex_encode t') @ 0x3A # r = str_bytes (hex_encode t) @ 0x3A # str_bytes (hex_encode i)"
    by (auto simp: prefix_def mbxKey_def mbxPrefix_def)
  then show "t' = t" by (simp add: sep_inj)
qed (simp add: mbxKey_def)

lemma mbxKey_inj [simp]: "mbxKey t i = mbxKey t' i' \<longleftrightarrow> t = t' \<and> i = i'"
proof
  assume eq: "mbxKey t i = mbxKey t' i'"
  then have "t = t'" using mbx_prefix_iff[of t t' i'] mbx_prefix_iff[of t t i] by simp
  then show "t = t' \<and> i = i'" using eq by (simp add: mbxKey_def)
qed simp

lemma mbx_prefix_mbx: "prefix (mbxPrefix t) k \<Longrightarrow> prefix mailboxPrefix k"
  unfolding mbxPrefix_def by (metis append_prefixD)

lemma metaKey_facts [simp]: "metaKey t = metaKey t' \<longleftrightarrow> t = t'" "metaKey t \<noteq> mbxKey t' i" "mbxKey t' i \<noteq> metaKey t"
  "\<not> prefix mailboxPrefix (metaKey t)" "prefix mailboxPrefix (mbxKey t i)"
  by (auto simp: metaKey_def mbxKey_def mbxPrefix_def mailboxPrefix_def)

lemma metadata_roundtrip [simp]: "parse_metadata (print_metadata m) = m"
  by (cases m) (simp add: parse_metadata_def print_metadata_def)

section \<open>Histories\<close>

datatype mbx_op = MStore time time bytes bytes bytes bytes u64 | MDelete bytes "bytes list" | MCleanup time

text \<open>The second component counts the successful stores per target.\<close>

fun mbx_exec :: "'d badger \<Rightarrow> StoredMailboxMessage codec \<Rightarrow> MailboxConfig \<Rightarrow> mbx_op \<Rightarrow> 'd \<times> (bytes \<Rightarrow> nat) \<Rightarrow> 'd \<times> (bytes \<Rightarrow> nat)" where
  "mbx_exec B K cfg (MStore now now2 t i s e ttl) (d, n) =
     (case StoreMessage B K cfg now now2 t i s e ttl d of (d', r) \<Rightarrow> (d', if is_ok r then n(t := Suc (n t)) else n))"
| "mbx_exec B K cfg (MDelete t ids) (d, n) = (fst (Mailbox_DeleteMessages B t ids d), n)"
| "mbx_exec B K cfg (MCleanup now) (d, n) = (fst (CleanupExpired B K now d), n)"

definition mbx_run :: "'d badger \<Rightarrow> StoredMailboxMessage codec \<Rightarrow> MailboxConfig \<Rightarrow> mbx_op list \<Rightarrow> 'd \<Rightarrow> 'd \<times> (bytes \<Rightarrow> nat)" where
  "mbx_run B K cfg ops d = fold (mbx_exec B K cfg) ops (d, \<lambda>_. 0)"

text \<open>Every entry under the mailbox prefix is a message stored under its own identifier, and the
  metadata of a target counts its stores.\<close>

definition mbx_ok :: "StoredMailboxMessage codec \<Rightarrow> (bytes \<Rightarrow> bytes option) \<Rightarrow> bool" where
  "mbx_ok K v \<longleftrightarrow> (\<forall>k b. v k = Some b \<and> prefix mailboxPrefix k \<longrightarrow>
     (\<exists>t s. k = mbxKey t (sx_MessageId s) \<and> unmarshal K b = Inr s))"

definition count_ok :: "MailboxConfig \<Rightarrow> (bytes \<Rightarrow> bytes option) \<Rightarrow> (bytes \<Rightarrow> nat) \<Rightarrow> bool" where
  "count_ok cfg v n \<longleftrightarrow> (\<forall>t. case v (metaKey t) of None \<Rightarrow> n t = 0
     | Some b \<Rightarrow> unat (md_MessageCount (parse_metadata b)) = n t \<and> 0 < n t) \<and>
     (\<forall>t. n t \<le> max 1 (unat (mc_MaxMessagesPerTarget cfg)))"

lemma mbx_ok_delete: "mbx_ok K v \<Longrightarrow> mbx_ok K (apply_writes (map WDel ks) v)"
  by (auto simp: mbx_ok_def apply_writes_deletes)

lemma count_ok_delete:
  "count_ok cfg v n \<Longrightarrow> \<forall>k\<in>set ks. prefix mailboxPrefix k \<Longrightarrow> count_ok cfg (apply_writes (map WDel ks) v) n"
proof -
  assume "count_ok cfg v n" "\<forall>k\<in>set ks. prefix mailboxPrefix k"
  moreover from this have "apply_writes (map WDel ks) v (metaKey t) = v (metaKey t)" for t
    by (auto simp: apply_writes_deletes)
  ultimately show ?thesis by (simp add: count_ok_def)
qed

text \<open>What \<open>StoreMessage\<close> does: it is refused when the counter is at the limit; otherwise it may evict
  one message of the target and then writes the message and the new metadata.\<close>

lemma checkQuota_view:
  assumes kv: "kv_ok B view" and q: "checkQuota B cfg t d = (d1, r)"
  shows "(r \<noteq> Inr () \<longrightarrow> d1 = d) \<and> (\<exists>ks. view d1 = apply_writes (map WDel ks) (view d) \<and> (\<forall>k\<in>set ks. prefix (mbxPrefix t) k))
    \<and> (r = Inr () \<longleftrightarrow> (case view d (metaKey t) of None \<Rightarrow> True
        | Some b \<Rightarrow> md_MessageCount (parse_metadata b) < mc_MaxMessagesPerTarget cfg))"
proof -
  obtain kvs where kvs: "db_scan B d (mbxPrefix t) = Inr kvs" "set kvs = {(k, v). view d k = Some v \<and> prefix (mbxPrefix t) k}"
    by (rule kv_scan[OF kv])
  let ?ks = "map fst (take 1 kvs)"
  have ks: "\<forall>k\<in>set ?ks. prefix (mbxPrefix t) k" using kvs(2) by (auto dest!: in_set_takeD)
  obtain d2 where e: "evictOldest B t 1 d = (d2, Inr ())" "view d2 = apply_writes (map WDel ?ks) (view d)"
    using kv_run[OF kv, of "map (WDel \<circ> fst) (take 1 kvs)" d] kvs(1) by (cases "db_run B (map (WDel \<circ> fst) (take 1 kvs)) d") (auto simp: evictOldest_def)
  have evicted: "\<exists>ks. view d2 = apply_writes (map WDel ks) (view d) \<and> (\<forall>k\<in>set ks. prefix (mbxPrefix t) k)"
    using e(2) ks by blast
  have none: "\<exists>ks. view d = apply_writes (map WDel ks) (view d) \<and> (\<forall>k\<in>set ks. prefix (mbxPrefix t) k)" by (rule exI[of _ "[]"]) simp
  show ?thesis
  proof (cases "view d (metaKey t)")
    case None
    then show ?thesis using q none by (simp add: checkQuota_def getMetadata_def kv_get[OF kv])
  next
    case (Some b)
    show ?thesis
    proof (cases "md_MessageCount (parse_metadata b) \<ge> mc_MaxMessagesPerTarget cfg")
      case True
      then show ?thesis using Some q none by (auto simp: checkQuota_def getMetadata_def kv_get[OF kv])
    next
      case False
      then show ?thesis using Some q none e(1) evicted
        by (auto simp: checkQuota_def getMetadata_def kv_get[OF kv] not_le split: if_splits)
    qed
  qed
qed

definition at_limit :: "MailboxConfig \<Rightarrow> bytes \<Rightarrow> (bytes \<Rightarrow> bytes option) \<Rightarrow> bool" where
  "at_limit cfg t v = (case v (metaKey t) of None \<Rightarrow> False
     | Some b \<Rightarrow> md_MessageCount (parse_metadata b) \<ge> mc_MaxMessagesPerTarget cfg)"

lemma StoreMessage_refused:
  assumes "kv_ok B view" "at_limit cfg t (view d)"
  shows "StoreMessage B K cfg now now2 t i s e ttl d = (d, Inl (Err ''message count limit reached for target''))"
  using assms by (auto simp: StoreMessage_def checkQuota_def getMetadata_def kv_get[OF assms(1)] at_limit_def split: option.splits)

lemma StoreMessage_view:
  assumes kv: "kv_ok B view" and K: "codec_ok K" and lim: "\<not> at_limit cfg t (view d)"
  shows "\<exists>d' ks b m. StoreMessage B K cfg now now2 t i s e ttl d = (d', Inr ()) \<and> (\<forall>k\<in>set ks. prefix (mbxPrefix t) k)
    \<and> unmarshal K b = Inr (stored_record now i s e ttl)
    \<and> view d' = (apply_writes (map WDel ks) (view d))(mbxKey t i \<mapsto> b, metaKey t \<mapsto> print_metadata m)
    \<and> md_MessageCount m = (case view d (metaKey t) of None \<Rightarrow> 1 | Some x \<Rightarrow> md_MessageCount (parse_metadata x) + 1)"
proof -
  obtain d1 r where q: "checkQuota B cfg t d = (d1, r)" by fastforce
  note cq = checkQuota_view[OF kv q]
  have r: "r = Inr ()" using cq lim by (auto simp: at_limit_def not_le split: option.splits)
  obtain ks where ks: "view d1 = apply_writes (map WDel ks) (view d)" "\<forall>k\<in>set ks. prefix (mbxPrefix t) k" using cq by blast
  have "metaKey t \<notin> set ks" using ks(2) mbx_prefix_mbx metaKey_facts(4) by blast
  then have meta: "view d1 (metaKey t) = view d (metaKey t)" using ks(1) by (simp add: apply_writes_deletes)
  obtain b where b: "marshal K (stored_record now i s e ttl) = Inr b" "unmarshal K b = Inr (stored_record now i s e ttl)"
    using codec_okD[OF K] by blast
  have "txn_get B d1 [WSet (mbxKey t i) b] (metaKey t) = Inr (view d (metaKey t))"
    using meta by (simp add: txn_get_def kv_get[OF kv])
  then obtain m where m: "updateMetadata B now2 t (of_nat (length e)) [WSet (mbxKey t i) b] d1 = WSet (metaKey t) (print_metadata m)"
    "md_MessageCount m = (case view d (metaKey t) of None \<Rightarrow> 1 | Some x \<Rightarrow> md_MessageCount (parse_metadata x) + 1)"
    by (cases "view d (metaKey t)") (auto simp: updateMetadata_def Let_def no_metadata_def)
  let ?ws = "[WSet (mbxKey t i) b, WSet (metaKey t) (print_metadata m)]"
  have "StoreMessage B K cfg now now2 t i s e ttl d = db_run B ?ws d1"
    using q r b(1) m(1) by (simp add: StoreMessage_def)
  then have "StoreMessage B K cfg now now2 t i s e ttl d = (fst (db_run B ?ws d1), Inr ())"
    using kv_run(1)[OF kv, of ?ws d1] by (metis prod.collapse)
  moreover have "view (fst (db_run B ?ws d1)) = (view d1)(mbxKey t i \<mapsto> b, metaKey t \<mapsto> print_metadata m)"
    using kv_run(2)[OF kv, of ?ws d1] by simp
  ultimately show ?thesis using ks b(2) m(2) by (intro exI conjI) auto
qed

lemma mbx_ok_put: "mbx_ok K v \<Longrightarrow> unmarshal K b = Inr s \<Longrightarrow> mbx_ok K (v(mbxKey t (sx_MessageId s) \<mapsto> b, metaKey t \<mapsto> x))"
  unfolding mbx_ok_def by (metis fun_upd_apply metaKey_facts(4) option.inject)

lemma count_ok_get: "count_ok cfg v n \<Longrightarrow> n t = (case v (metaKey t) of None \<Rightarrow> 0 | Some b \<Rightarrow> unat (md_MessageCount (parse_metadata b)))"
  unfolding count_ok_def by (cases "v (metaKey t)") (auto dest!: conjunct1 spec[of _ t])

lemma count_ok_put:
  "count_ok cfg v n \<Longrightarrow> unat (md_MessageCount m) = Suc (n t) \<Longrightarrow> Suc (n t) \<le> max 1 (unat (mc_MaxMessagesPerTarget cfg)) \<Longrightarrow>
    count_ok cfg (v(mbxKey t i \<mapsto> b, metaKey t \<mapsto> print_metadata m)) (n(t := Suc (n t)))"
  unfolding count_ok_def by (auto split: option.split_asm option.split) (metis option.distinct(1))

lemma StoreMessage_inv:
  assumes kv: "kv_ok B view" and K: "codec_ok K" and inv: "mbx_ok K (view d)" "count_ok cfg (view d) n"
    and run: "StoreMessage B K cfg now now2 t i s e ttl d = (d', r)"
  shows "mbx_ok K (view d') \<and> count_ok cfg (view d') (if is_ok r then n(t := Suc (n t)) else n)"
proof (cases "at_limit cfg t (view d)")
  case True
  then show ?thesis using StoreMessage_refused[OF kv True] run inv by auto
next
  case False
  obtain ks b m where v: "r = Inr ()" "\<forall>k\<in>set ks. prefix (mbxPrefix t) k" "unmarshal K b = Inr (stored_record now i s e ttl)"
    "view d' = (apply_writes (map WDel ks) (view d))(mbxKey t i \<mapsto> b, metaKey t \<mapsto> print_metadata m)"
    "md_MessageCount m = (case view d (metaKey t) of None \<Rightarrow> 1 | Some x \<Rightarrow> md_MessageCount (parse_metadata x) + 1)"
    using StoreMessage_view[OF kv K False, of now now2 i s e ttl] run by auto
  have "mbx_ok K (view d')"
    using mbx_ok_put[OF mbx_ok_delete[OF inv(1), of ks] v(3), of t] v(4) by (simp add: stored_record_def)
  moreover have "unat (md_MessageCount m) = Suc (n t) \<and> Suc (n t) \<le> max 1 (unat (mc_MaxMessagesPerTarget cfg))"
  proof (cases "view d (metaKey t)")
    case None
    then show ?thesis using count_ok_get[OF inv(2), of t] v(5) by simp
  next
    case (Some x)
    then have "md_MessageCount (parse_metadata x) < mc_MaxMessagesPerTarget cfg" using False by (simp add: at_limit_def)
    then show ?thesis using v(5) Some count_ok_get[OF inv(2), of t] by (simp add: unat_Suc_less u_less_unat)
  qed
  moreover have "count_ok cfg (apply_writes (map WDel ks) (view d)) n"
    using count_ok_delete[OF inv(2)] v(2) mbx_prefix_mbx by blast
  ultimately show ?thesis using count_ok_put v(1,4) by simp
qed

lemma mbx_exec_inv:
  assumes kv: "kv_ok B view" and K: "codec_ok K" and inv: "mbx_ok K (view (fst dn))" "count_ok cfg (view (fst dn)) (snd dn)"
  shows "mbx_ok K (view (fst (mbx_exec B K cfg op dn))) \<and> count_ok cfg (view (fst (mbx_exec B K cfg op dn))) (snd (mbx_exec B K cfg op dn))"
proof -
  obtain d n where dn: "dn = (d, n)" by (cases dn)
  show ?thesis
  proof (cases op)
    case (MStore now now2 t i s e ttl)
    obtain d' r where "StoreMessage B K cfg now now2 t i s e ttl d = (d', r)" by fastforce
    then show ?thesis using StoreMessage_inv[OF kv K, of d cfg n now now2 t i s e ttl d' r] inv MStore dn by simp
  next
    case (MDelete t ids)
    have "map (\<lambda>m. WDel (mbxKey t m)) ids = map WDel (map (mbxKey t) ids)" by simp
    then show ?thesis using MDelete dn inv kv_run(2)[OF kv] mbx_ok_delete count_ok_delete metaKey_facts(5)
      by (auto simp: Mailbox_DeleteMessages_def simp del: map_map)
  next
    case (MCleanup now)
    obtain kvs where kvs: "db_scan B d mailboxPrefix = Inr kvs" "set kvs = {(k, v). view d k = Some v \<and> prefix mailboxPrefix k}"
      by (rule kv_scan[OF kv])
    let ?ex = "filter (\<lambda>(key, data). case unmarshal K data of Inl _ \<Rightarrow> False | Inr stored \<Rightarrow> now > unixTime (sx_ExpiresAt stored)) kvs"
    have "fst (CleanupExpired B K now d) = fst (db_run B (map WDel (map fst ?ex)) d)"
      using kvs(1) by (auto simp: CleanupExpired_def Let_def split: prod.splits sum.splits)
    moreover have "\<forall>k\<in>set (map fst ?ex). prefix mailboxPrefix k" using kvs(2) by auto
    ultimately show ?thesis using MCleanup dn inv kv_run(2)[OF kv] mbx_ok_delete count_ok_delete by (simp del: map_map)
  qed
qed

lemma mbx_run_inv:
  assumes "kv_ok B view" "codec_ok K" "view d0 = (\<lambda>_. None)"
  shows "mbx_ok K (view (fst (mbx_run B K cfg ops d0))) \<and> count_ok cfg (view (fst (mbx_run B K cfg ops d0))) (snd (mbx_run B K cfg ops d0))"
proof (induction ops rule: rev_induct)
  case Nil
  then show ?case using assms(3) by (simp add: mbx_run_def mbx_ok_def count_ok_def)
next
  case (snoc op ops)
  then show ?case using mbx_exec_inv[OF assms(1,2)] by (simp add: mbx_run_def)
qed

lemma mbx_prefix_disjoint: "prefix (mbxPrefix t) k \<Longrightarrow> prefix (mbxPrefix t') k \<Longrightarrow> t = t'"
  by (auto simp: prefix_def mbxPrefix_def sep_inj)

text \<open>The messages held for a recipient.\<close>

definition held :: "StoredMailboxMessage codec \<Rightarrow> (bytes \<Rightarrow> bytes option) \<Rightarrow> bytes \<Rightarrow> StoredMailboxMessage \<Rightarrow> bool" where
  "held K v t s \<longleftrightarrow> (\<exists>b. v (mbxKey t (sx_MessageId s)) = Some b \<and> unmarshal K b = Inr s)"

lemma ListMessages_set:
  assumes kv: "kv_ok B view" and ok: "mbx_ok K (view d)"
  shows "\<exists>ms. ListMessages B K at t d = Inr ms \<and>
    set ms = from_record ` {s. held K (view d) t s \<and> live at s}"
proof -
  obtain kvs where kvs: "db_scan B d (mbxPrefix t) = Inr kvs" "set kvs = {(k, v). view d k = Some v \<and> prefix (mbxPrefix t) k}"
    by (rule kv_scan[OF kv])
  have dec: "\<exists>s. fst kv = mbxKey t (sx_MessageId s) \<and> unmarshal K (snd kv) = Inr s" if "kv \<in> set kvs" for kv
  proof -
    have kv': "view d (fst kv) = Some (snd kv)" "prefix (mbxPrefix t) (fst kv)" using that kvs(2) by auto
    then obtain t' s where "fst kv = mbxKey t' (sx_MessageId s)" "unmarshal K (snd kv) = Inr s"
      using ok mbx_prefix_mbx[OF kv'(2)] unfolding mbx_ok_def by blast
    then show ?thesis using kv'(2) mbx_prefix_iff by metis
  qed
  let ?f = "\<lambda>kv. projr (unmarshal K (snd kv))"
  have f: "(unmarshal K \<circ> snd) kv = Inr (?f kv)" if "kv \<in> set kvs" for kv
    using dec[OF that] by auto
  have "ListMessages B K at t d = Inr (map from_record (filter (live at) (map ?f kvs)))"
    using each_Inr[of kvs "unmarshal K \<circ> snd" ?f] f kvs(1) by (simp add: ListMessages_def)
  moreover have "set (map ?f kvs) = {s. \<exists>b. view d (mbxKey t (sx_MessageId s)) = Some b \<and> unmarshal K b = Inr s}"
  proof (intro equalityI subsetI)
    fix s assume "s \<in> set (map ?f kvs)"
    then obtain kv where kv: "kv \<in> set kvs" "s = ?f kv" by auto
    then have "unmarshal K (snd kv) = Inr s" "view d (fst kv) = Some (snd kv)" using f kvs(2) by auto
    then show "s \<in> {s. \<exists>b. view d (mbxKey t (sx_MessageId s)) = Some b \<and> unmarshal K b = Inr s}" using dec[OF kv(1)] by auto
  next
    fix s assume "s \<in> {s. \<exists>b. view d (mbxKey t (sx_MessageId s)) = Some b \<and> unmarshal K b = Inr s}"
    then obtain b where "view d (mbxKey t (sx_MessageId s)) = Some b" "unmarshal K b = Inr s" by auto
    then have "(mbxKey t (sx_MessageId s), b) \<in> set kvs" "?f (mbxKey t (sx_MessageId s), b) = s" using kvs(2) mbx_prefix_iff by auto
    then show "s \<in> set (map ?f kvs)" using imageI[of "(mbxKey t (sx_MessageId s), b)" "set kvs" ?f] by simp
  qed
  ultimately show ?thesis unfolding held_def by auto
qed

lemma ListMessages_cong:
  assumes "kv_ok B view" "\<And>k. prefix (mbxPrefix t) k \<Longrightarrow> view d k = view d' k"
  shows "ListMessages B K at t d = ListMessages B K at t d'"
  using scan_cong[OF assms] by (simp add: ListMessages_def)

lemma mbx_exec_count: "snd dn t \<le> snd (mbx_exec B K cfg op dn) t"
  by (cases op; cases dn) (auto split: prod.splits)

lemma mbx_run_count: "snd (mbx_run B K cfg ops d0) t \<le> snd (mbx_run B K cfg (ops @ later) d0) t"
proof (induction later rule: rev_induct)
  case (snoc op later)
  have "snd (mbx_run B K cfg (ops @ later @ [op]) d0) = snd (mbx_exec B K cfg op (mbx_run B K cfg (ops @ later) d0))"
    by (simp add: mbx_run_def)
  then show ?case using snoc mbx_exec_count[of "mbx_run B K cfg (ops @ later) d0" t B K cfg op] by simp
qed simp

section \<open>Properties\<close>

text \<open>The mailbox keeps what it accepts. After any history, a message that is stored is listed for its
  recipient until it expires, with its identifier, envelope and sender; deleting it by its identifier
  removes exactly that message from the recipient's list; and neither changes what is listed for any other recipient.\<close>

theorem mailbox_keeps_messages:
  fixes B :: "'d badger" and d0 :: 'd
  assumes "kv_ok B view" "codec_ok K" "view d0 = (\<lambda>_. None)"
    and "StoreMessage B K cfg now now2 t i s e ttl (fst (mbx_run B K cfg ops d0)) = (d', Inr ())"
  shows "\<exists>ms ms'. ListMessages B K at t d' = Inr ms
    \<and> (from_record (stored_record now i s e ttl) \<in> set ms \<longleftrightarrow> at \<le> unixTime (unix (now + seconds ttl)))
    \<and> ListMessages B K at t (fst (Mailbox_DeleteMessages B t [i] d')) = Inr ms' \<and> set ms' = {m \<in> set ms. sd_MessageID m \<noteq> i}
    \<and> (\<forall>t'. t' \<noteq> t \<longrightarrow> ListMessages B K at t' d' = ListMessages B K at t' (fst (mbx_run B K cfg ops d0))
        \<and> ListMessages B K at t' (fst (Mailbox_DeleteMessages B t [i] d')) = ListMessages B K at t' d')"
proof -
  let ?d = "fst (mbx_run B K cfg ops d0)" and ?rec = "stored_record now i s e ttl"
  let ?d'' = "fst (Mailbox_DeleteMessages B t [i] d')"
  have lim: "\<not> at_limit cfg t (view ?d)" using StoreMessage_refused[OF assms(1), of cfg t ?d] assms(4) by auto
  obtain ks b m where v: "\<forall>k\<in>set ks. prefix (mbxPrefix t) k" "unmarshal K b = Inr ?rec"
    "view d' = (apply_writes (map WDel ks) (view ?d))(mbxKey t i \<mapsto> b, metaKey t \<mapsto> print_metadata m)"
    using StoreMessage_view[OF assms(1,2) lim, of now now2 i s e ttl] assms(4) by auto
  have ok: "mbx_ok K (view d')"
    using StoreMessage_inv[OF assms(1,2) _ _ assms(4)] mbx_run_inv[OF assms(1-3)] by blast
  have v'': "view ?d'' = (view d')(mbxKey t i := None)"
    using kv_run(2)[OF assms(1), of "[WDel (mbxKey t i)]"] by (simp add: Mailbox_DeleteMessages_def)
  have ok'': "mbx_ok K (view ?d'')" using mbx_ok_delete[OF ok, of "[mbxKey t i]"] v'' by simp
  have id: "sx_MessageId ?rec = i" by (simp add: stored_record_def)
  obtain ms where ms: "ListMessages B K at t d' = Inr ms"
    "set ms = from_record ` {s. held K (view d') t s \<and> live at s}"
    using ListMessages_set[OF assms(1) ok] by blast
  obtain ms' where ms': "ListMessages B K at t ?d'' = Inr ms'"
    "set ms' = from_record ` {s. held K (view ?d'') t s \<and> live at s}"
    using ListMessages_set[OF assms(1) ok''] by blast
  have here: "view d' (mbxKey t i) = Some b" using v(3) by simp
  have "from_record ?rec \<in> set ms \<longleftrightarrow> at \<le> unixTime (unix (now + seconds ttl))"
  proof
    assume "from_record ?rec \<in> set ms"
    then obtain s' where "from_record ?rec = from_record s'" "live at s'" using ms(2) by auto
    then show "at \<le> unixTime (unix (now + seconds ttl))" by (auto simp: from_record_def live_def stored_record_def)
  next
    assume "at \<le> unixTime (unix (now + seconds ttl))"
    then have "live at ?rec" by (simp add: live_def stored_record_def)
    moreover have "held K (view d') t ?rec" using here v(2) id by (simp add: held_def)
    ultimately show "from_record ?rec \<in> set ms" unfolding ms(2) by blast
  qed
  moreover have "set ms' = {m \<in> set ms. sd_MessageID m \<noteq> i}"
  proof -
    have "held K (view ?d'') t s \<longleftrightarrow> held K (view d') t s \<and> sx_MessageId s \<noteq> i" for s using v'' by (simp add: held_def)
    moreover have "sd_MessageID (from_record s) = sx_MessageId s" for s by (simp add: from_record_def)
    ultimately show ?thesis unfolding ms(2) ms'(2) by auto
  qed
  moreover have "ListMessages B K at t' d' = ListMessages B K at t' ?d \<and> ListMessages B K at t' ?d'' = ListMessages B K at t' d'" if "t' \<noteq> t" for t'
  proof -
    have "k \<notin> set ks \<and> k \<noteq> mbxKey t i \<and> k \<noteq> metaKey t" if k: "prefix (mbxPrefix t') k" for k
      using v(1) k that mbx_prefix_disjoint[of t' k t] mbx_prefix_iff mbx_prefix_mbx[OF k] \<open>t' \<noteq> t\<close> metaKey_facts(4) by metis
    then show ?thesis using v(3) v'' by (auto intro!: ListMessages_cong[OF assms(1)] simp: apply_writes_deletes)
  qed
  ultimately show ?thesis using ms(1) ms'(1) by auto
qed

definition ser_Stored :: "StoredMailboxMessage ser" where
  "ser_Stored = s_iso (\<lambda>m. (sx_MessageId m, sx_SenderPubkey m, sx_Envelope m, sx_StoredAt m, sx_ExpiresAt m, sx_Size m))
     (\<lambda>(a, b, c, d, e, f). \<lparr>sx_MessageId = a, sx_SenderPubkey = b, sx_Envelope = c, sx_StoredAt = d, sx_ExpiresAt = e, sx_Size = f\<rparr>)
     (s_pair s_bytes (s_pair s_bytes (s_pair s_bytes (s_pair s_u64 (s_pair s_u64 s_u64)))))"

lemma ser_Stored_ok: "codec_ok (codec_of ser_Stored)"
  unfolding ser_Stored_def by (rule codec_of_ok, rule s_iso_ok, intro ser_intros, simp)

text \<open>A first store into an empty database.\<close>

lemma first_store:
  "\<exists>d' b m. StoreMessage alist_db (codec_of ser_Stored) cfg now now2 t i s e ttl [] = (d', Inr ())
    \<and> map_of d' = [mbxKey t i \<mapsto> b, metaKey t \<mapsto> print_metadata m]"
proof -
  have "apply_writes (map WDel ks) Map.empty = Map.empty" for ks by (rule ext) (simp add: apply_writes_deletes)
  then show ?thesis
    using StoreMessage_view[OF alist_db_ok ser_Stored_ok, of cfg t "[]" now now2 i s e ttl] by (auto simp: at_limit_def)
qed

theorem mailbox_keeps_messages_witness:
  "\<exists>d' ms. StoreMessage alist_db (codec_of ser_Stored) defaultConfig 0 0 [1] [2] [3] [4] 604800 [] = (d', Inr ())
    \<and> ListMessages alist_db (codec_of ser_Stored) 5000000000 [1] d' = Inr ms
    \<and> from_record (stored_record 0 [2] [3] [4] 604800) \<in> set ms"
proof -
  obtain d' where d': "StoreMessage alist_db (codec_of ser_Stored) defaultConfig 0 0 [1] [2] [3] [4] 604800 [] = (d', Inr ())"
    using first_store by blast
  have "(5000000000 :: int) \<le> unixTime (unix (0 + seconds 604800))" by (simp add: unixTime_def unix_def seconds_def)
  then show ?thesis
    using mailbox_keeps_messages[OF alist_db_ok ser_Stored_ok, of "[]" defaultConfig 0 0 "[1]" "[2]" "[3]" "[4]" 604800 "[]" d' 5000000000] d'
    by (auto simp: mbx_run_def)
qed

text \<open>The quota counts messages for ever. After any history the message count of a recipient is the
  number of messages ever stored for it, whatever was deleted, expired or evicted since; so once the
  configured maximum has been stored, every further store for that recipient is refused, after any further operations, even when its
  mailbox is empty.\<close>

theorem mailbox_quota_never_freed:
  fixes B :: "'d badger" and d0 :: 'd
  assumes "kv_ok B view" "codec_ok K" "view d0 = (\<lambda>_. None)" "0 < mc_MaxMessagesPerTarget cfg"
  shows "(\<exists>st. GetStats B cfg t (fst (mbx_run B K cfg ops d0)) = Inr st \<and> unat (st_StoredCount st) = snd (mbx_run B K cfg ops d0) t)
    \<and> (snd (mbx_run B K cfg ops d0) t = unat (mc_MaxMessagesPerTarget cfg) \<longrightarrow>
        (\<forall>later d. d = fst (mbx_run B K cfg (ops @ later) d0) \<longrightarrow>
           StoreMessage B K cfg now now2 t i s e ttl d = (d, Inl (Err ''message count limit reached for target''))))"
proof -
  let ?r = "\<lambda>ops. mbx_run B K cfg ops d0"
  have inv: "count_ok cfg (view (fst (?r ops))) (snd (?r ops))" for ops using mbx_run_inv[OF assms(1-3)] by blast
  have count: "snd (?r ops) t = (case view (fst (?r ops)) (metaKey t) of None \<Rightarrow> 0 | Some b \<Rightarrow> unat (md_MessageCount (parse_metadata b)))" for ops
    by (rule count_ok_get[OF inv])
  have stats: "\<exists>st. GetStats B cfg t (fst (?r ops)) = Inr st \<and> unat (st_StoredCount st) = snd (?r ops) t"
    using count[of ops] by (auto simp: GetStats_def getMetadata_def kv_get[OF assms(1)] split: option.splits)
  have "at_limit cfg t (view (fst (?r (ops @ later))))" if "snd (?r ops) t = unat (mc_MaxMessagesPerTarget cfg)" for later
  proof -
    have "unat (mc_MaxMessagesPerTarget cfg) \<le> snd (?r (ops @ later)) t" using mbx_run_count[of B K cfg ops d0 t later] that by simp
    moreover have "0 < unat (mc_MaxMessagesPerTarget cfg)" using assms(4) by (simp add: u_less_unat)
    ultimately show ?thesis using count[of "ops @ later"] by (auto simp: at_limit_def word_le_nat_alt split: option.splits)
  qed
  then show ?thesis using stats StoreMessage_refused[OF assms(1)] by blast
qed

theorem mailbox_quota_never_freed_witness:
  "\<exists>d. mbx_run alist_db (codec_of ser_Stored) (defaultConfig\<lparr>mc_MaxMessagesPerTarget := 1\<rparr>) [MStore 0 0 [1] [2] [3] [4] 9, MDelete [1] [[2]]] [] = (d, (\<lambda>_. 0)([1] := 1))
    \<and> ListMessages alist_db (codec_of ser_Stored) 0 [1] d = Inr []
    \<and> StoreMessage alist_db (codec_of ser_Stored) (defaultConfig\<lparr>mc_MaxMessagesPerTarget := 1\<rparr>) 0 0 [1] [5] [3] [4] 9 d =
        (d, Inl (Err ''message count limit reached for target''))"
proof -
  let ?cfg = "defaultConfig\<lparr>mc_MaxMessagesPerTarget := 1\<rparr>" and ?K = "codec_of ser_Stored"
  obtain d1 b m where d1: "StoreMessage alist_db ?K ?cfg 0 0 [1] [2] [3] [4] 9 [] = (d1, Inr ())"
    "map_of d1 = [mbxKey [1] [2] \<mapsto> b, metaKey [1] \<mapsto> print_metadata m]" using first_store by blast
  let ?d = "fst (Mailbox_DeleteMessages alist_db [1] [[2]] d1)"
  have run: "mbx_run alist_db ?K ?cfg [MStore 0 0 [1] [2] [3] [4] 9] [] = (d1, (\<lambda>_. 0)([1] := 1))"
    "mbx_run alist_db ?K ?cfg ([MStore 0 0 [1] [2] [3] [4] 9] @ [MDelete [1] [[2]]]) [] = (?d, (\<lambda>_. 0)([1] := 1))"
    using d1 by (simp_all add: mbx_run_def)
  have "map_of ?d = [metaKey [1] \<mapsto> print_metadata m]"
    using kv_run(2)[OF alist_db_ok, of "[WDel (mbxKey [1] [2])]" d1] d1(2) by (auto simp: Mailbox_DeleteMessages_def)
  then have "mbx_ok ?K (map_of ?d)" "\<not> held ?K (map_of ?d) [1] s" for s by (auto simp: mbx_ok_def held_def)
  then have "ListMessages alist_db ?K 0 [1] ?d = Inr []" using ListMessages_set[OF alist_db_ok, of ?K ?d 0 "[1]"] by auto
  moreover have "StoreMessage alist_db ?K ?cfg 0 0 [1] [5] [3] [4] 9 ?d = (?d, Inl (Err ''message count limit reached for target''))"
    using mailbox_quota_never_freed[OF alist_db_ok ser_Stored_ok, of "[]" ?cfg "[1]" "[MStore 0 0 [1] [2] [3] [4] 9]" 0 0 "[5]" "[3]" "[4]" 9] run
    by (auto simp del: append.simps dest!: spec[of _ "[MDelete [1] [[2]]]"])
  ultimately show ?thesis using run(2) by auto
qed

end
