(* ===== verification/Mailbox.thy ===== *)
theory Mailbox
  imports MailboxStorage
begin

text \<open>
  \<open>pkg/mailbox/deposit.go\<close> and \<open>retrieval.go\<close>: the mailbox protocol, server and client. A libp2p stream is
  the bytes it carries: the server reads a request from its input and writes to a \<open>bufio.Writer\<close>, whose
  buffer reaches the stream only when it is flushed or full. The client gets the stream to a peer as an argument \<open>link\<close>, a function from
  the bytes sent to the bytes that come back. The clock is a function from the number of the reading.
\<close>

section \<open>Messages\<close>

record BabylonEnvelope =
  be_ProtocolVersion :: u32
  be_MessageType :: u32
  be_SenderIdentity :: bytes
  be_RecipientIdentity :: bytes
  be_Timestamp :: u64
  be_MessageId :: bytes
  be_GroupId :: bytes
  be_ChannelId :: bytes
  be_Payload :: bytes
  be_SenderDeviceId :: bytes
  be_Signature :: bytes
  be_CipherSuiteId :: u32
  be_X3DhHeader :: bytes

record DepositRequest =
  dq_TargetPubkey :: bytes
  dq_Envelope :: bytes
  dq_RequestId :: u64
  dq_Timestamp :: u64
  dq_SenderSignature :: bytes

record DepositResponse =
  dp_RequestId :: u64
  dp_Accepted :: bool
  dp_RejectionReason :: string
  dp_StoredUntil :: u64
  dp_MailboxSignature :: bytes

record RetrievalRequest =
  rq_RecipientPubkey :: bytes
  rq_Nonce :: bytes
  rq_Timestamp :: u64
  rq_RecipientSignature :: bytes

record RetrievalResponse =
  rp_Nonce :: bytes
  rp_MessageIds :: "bytes list"
  rp_Envelopes :: "bytes list"
  rp_Count :: u64
  rp_MailboxSignature :: bytes

record AcknowledgmentRequest =
  aq_RecipientPubkey :: bytes
  aq_MessageIds :: "bytes list"
  aq_Timestamp :: u64
  aq_RecipientSignature :: bytes

record AcknowledgmentResponse =
  ap_MessageIds :: "bytes list"
  ap_Success :: bool
  ap_FailureReason :: string
  ap_MailboxSignature :: bytes

record mailbox_codecs =
  km_stored :: "StoredMailboxMessage codec"
  km_envelope :: "BabylonEnvelope codec"
  km_dreq :: "DepositRequest codec"
  km_dresp :: "DepositResponse codec"
  km_rreq :: "RetrievalRequest codec"
  km_rresp :: "RetrievalResponse codec"
  km_areq :: "AcknowledgmentRequest codec"
  km_aresp :: "AcknowledgmentResponse codec"

definition mailbox_codecs_ok :: "mailbox_codecs \<Rightarrow> bool" where
  "mailbox_codecs_ok M \<longleftrightarrow> codec_ok (km_stored M) \<and> codec_ok (km_envelope M) \<and> codec_ok (km_dreq M) \<and> codec_ok (km_dresp M) \<and>
     codec_ok (km_rreq M) \<and> codec_ok (km_rresp M) \<and> codec_ok (km_areq M) \<and> codec_ok (km_aresp M)"

section \<open>Buffered output\<close>

record bufio =
  bw_buf :: bytes
  bw_out :: bytes

definition buffer_size :: nat where "buffer_size = 4096"

definition bw_write :: "bytes \<Rightarrow> bufio \<Rightarrow> bufio" where
  "bw_write p w =
     (if length p \<le> buffer_size - length (bw_buf w) then w\<lparr>bw_buf := bw_buf w @ p\<rparr>
      else if bw_buf w = [] then w\<lparr>bw_out := bw_out w @ p\<rparr>
      else
        let n = buffer_size - length (bw_buf w); out = bw_out w @ bw_buf w @ take n p; rest = drop n p
        in if length rest \<le> buffer_size then \<lparr>bw_buf = rest, bw_out = out\<rparr> else \<lparr>bw_buf = [], bw_out = out @ rest\<rparr>)"

definition bw_write_byte :: "byte \<Rightarrow> bufio \<Rightarrow> bufio" where
  "bw_write_byte b w =
     (if length (bw_buf w) \<ge> buffer_size then \<lparr>bw_buf = [b], bw_out = bw_out w @ bw_buf w\<rparr>
      else w\<lparr>bw_buf := bw_buf w @ [b]\<rparr>)"

definition bw_flush :: "bufio \<Rightarrow> bufio" where
  "bw_flush w = \<lparr>bw_buf = [], bw_out = bw_out w @ bw_buf w\<rparr>"

definition new_writer :: bufio where "new_writer = \<lparr>bw_buf = [], bw_out = []\<rparr>"

text \<open>\<open>writeResponse\<close> and \<open>writeRequest\<close> are the same: a type byte, the length, the message.\<close>

definition writeResponse :: "'m codec \<Rightarrow> byte \<Rightarrow> 'm \<Rightarrow> bufio \<Rightarrow> (bufio, unit) eff" where
  "writeResponse K msgType msg w =
     (case marshal K msg of
        Inl e \<Rightarrow> (w, Inl e)
      | Inr data \<Rightarrow> (bw_write data (bw_write (be_bytes 4 (of_nat (length data) :: u32)) (bw_write_byte msgType w)), Inr ()))"

text \<open>\<open>io.ReadFull\<close>, and a length followed by that many bytes.\<close>

definition ReadFull :: "nat \<Rightarrow> bytes \<Rightarrow> (bytes \<times> bytes) res" where
  "ReadFull n bs = (if n \<le> length bs then Inr (take n bs, drop n bs) else if bs = [] then Inl (Err ''EOF'') else Inl (Err ''unexpected EOF''))"

definition read_frame :: "bytes \<Rightarrow> bytes res" where
  "read_frame bs = rbind (ReadFull 4 bs) (\<lambda>(lengthBytes, r). rbind (ReadFull (unat (be_uint lengthBytes :: u32)) r) (\<lambda>(data, _). Inr data))"

section \<open>The deposit handler\<close>

record rateLimitEntry =
  re_count :: u32
  re_hourBucket :: int

record 'd DepositHandler =
  dh_db :: 'd
  dh_storageConfig :: MailboxConfig
  dh_config :: MailboxConfig
  dh_privKey :: bytes
  dh_rateLimit :: "(string, (string, rateLimitEntry) gomap) gomap"

definition NewDepositHandler :: "'d \<Rightarrow> MailboxConfig \<Rightarrow> bytes \<Rightarrow> 'd DepositHandler" where
  "NewDepositHandler db config priv = \<lparr>dh_db = db, dh_storageConfig = config, dh_config = config, dh_privKey = priv, dh_rateLimit = []\<rparr>"

definition validateDepositRequest :: "prims \<Rightarrow> mailbox_codecs \<Rightarrow> MailboxConfig \<Rightarrow> DepositRequest \<Rightarrow> unit res" where
  "validateDepositRequest P M config req =
     (if (of_nat (length (dq_Envelope req)) :: u64) > mc_MaxMessageSize config then Inl (Err ''envelope too large'')
      else if length (dq_SenderSignature req) = 0 then Inl (Err ''missing sender signature'')
      else case unmarshal (km_envelope M) (dq_Envelope req) of
        Inl _ \<Rightarrow> Inl (Err ''failed to parse envelope'')
      | Inr envelope \<Rightarrow> (case marshal (km_dreq M) (req\<lparr>dq_SenderSignature := []\<rparr>) of
          Inl _ \<Rightarrow> Inl (Err ''failed to marshal for verification'')
        | Inr dataForSigning \<Rightarrow>
            if length (be_SenderIdentity envelope) = 32 \<and> \<not> Verify P (be_SenderIdentity envelope) dataForSigning (dq_SenderSignature req)
            then Inl (Err ''invalid sender signature'') else Inr ()))"

definition rate_entry :: "bytes \<Rightarrow> bytes \<Rightarrow> 'd DepositHandler \<Rightarrow> rateLimitEntry option" where
  "rate_entry senderPubkey targetPubkey dh =
     (case gm_get (dh_rateLimit dh) (hex_encode senderPubkey) of None \<Rightarrow> None | Some m \<Rightarrow> gm_get m (hex_encode targetPubkey))"

definition isRateLimited :: "time \<Rightarrow> bytes \<Rightarrow> bytes \<Rightarrow> 'd DepositHandler \<Rightarrow> bool" where
  "isRateLimited now senderPubkey targetPubkey dh =
     (case rate_entry senderPubkey targetPubkey dh of
        None \<Rightarrow> False
      | Some entry \<Rightarrow> re_hourBucket entry = hour_bucket now \<and> re_count entry \<ge> mc_DepositRateLimit (dh_config dh))"

definition incrementRateLimit :: "time \<Rightarrow> bytes \<Rightarrow> bytes \<Rightarrow> 'd DepositHandler \<Rightarrow> 'd DepositHandler" where
  "incrementRateLimit now senderPubkey targetPubkey dh =
     (let sk = hex_encode senderPubkey; tk = hex_encode targetPubkey;
          m = (case gm_get (dh_rateLimit dh) sk of None \<Rightarrow> [] | Some m \<Rightarrow> m);
          count = (case gm_get m tk of
              None \<Rightarrow> 1
            | Some existing \<Rightarrow> if re_hourBucket existing = hour_bucket now then re_count existing + 1 else 1)
      in dh\<lparr>dh_rateLimit := gm_set sk (gm_set tk \<lparr>re_count = count, re_hourBucket = hour_bucket now\<rparr> m) (dh_rateLimit dh)\<rparr>)"

text \<open>\<open>None\<close> is the nil slice.\<close>

definition extractSenderPubkey :: "mailbox_codecs \<Rightarrow> bytes \<Rightarrow> bytes option" where
  "extractSenderPubkey M envelopeData =
     (case unmarshal (km_envelope M) envelopeData of
        Inl _ \<Rightarrow> None
      | Inr envelope \<Rightarrow> if length (be_SenderDeviceId envelope) > 0 then Some (be_SenderDeviceId envelope) else None)"

definition extractMessageID :: "prims \<Rightarrow> mailbox_codecs \<Rightarrow> bytes res \<Rightarrow> bytes \<Rightarrow> bytes" where
  "extractMessageID P M rnd envelopeData =
     (case unmarshal (km_envelope M) envelopeData of
        Inl _ \<Rightarrow> (case rnd of Inl _ \<Rightarrow> str_bytes ''msg-parse-error'' | Inr ident \<Rightarrow> ident)
      | Inr envelope \<Rightarrow>
          if length (be_MessageId envelope) > 0 then be_MessageId envelope else take 16 (sha256 P envelopeData))"

definition signResponse :: "prims \<Rightarrow> mailbox_codecs \<Rightarrow> bytes \<Rightarrow> DepositResponse \<Rightarrow> bytes res" where
  "signResponse P M priv resp =
     rbind (marshal (km_dresp M) \<lparr>dp_RequestId = dp_RequestId resp, dp_Accepted = dp_Accepted resp, dp_RejectionReason = '''',
        dp_StoredUntil = dp_StoredUntil resp, dp_MailboxSignature = []\<rparr>) (Sign P priv)"

text \<open>An error response is written into the buffer and not flushed.\<close>

definition writeErrorResponse :: "mailbox_codecs \<Rightarrow> u64 \<Rightarrow> string \<Rightarrow> bufio \<Rightarrow> bufio" where
  "writeErrorResponse M requestID reason w = fst (writeResponse (km_dresp M) 1
     \<lparr>dp_RequestId = requestID, dp_Accepted = False, dp_RejectionReason = reason, dp_StoredUntil = 0, dp_MailboxSignature = []\<rparr> w)"

definition handleDepositRequest :: "prims \<Rightarrow> 'd badger \<Rightarrow> mailbox_codecs \<Rightarrow> (nat \<Rightarrow> time) \<Rightarrow> bytes res \<Rightarrow> bytes \<Rightarrow> bufio \<Rightarrow> 'd DepositHandler \<Rightarrow>
    'd DepositHandler \<times> bufio" where
  "handleDepositRequest P B M c rnd input w dh =
     (case read_frame input of
        Inl _ \<Rightarrow> (dh, w)
      | Inr data \<Rightarrow> (case unmarshal (km_dreq M) data of
          Inl _ \<Rightarrow> (dh, writeErrorResponse M 0 ''invalid request format'' w)
        | Inr req \<Rightarrow> (case validateDepositRequest P M (dh_config dh) req of
            Inl e \<Rightarrow> (dh, writeErrorResponse M (dq_RequestId req) (err_text e) w)
          | Inr _ \<Rightarrow> (case extractSenderPubkey M (dq_Envelope req) of
              None \<Rightarrow> (dh, writeErrorResponse M (dq_RequestId req) ''failed to extract sender pubkey'' w)
            | Some senderPubkey \<Rightarrow>
                if isRateLimited (c 0) senderPubkey (dq_TargetPubkey req) dh
                then (dh, writeErrorResponse M (dq_RequestId req) ''rate limit exceeded'' w)
                else
                  let ttlSeconds = mc_DefaultTtlSeconds (dh_config dh)
                  in (case StoreMessage B (km_stored M) (dh_storageConfig dh) (c 1) (c 2) (dq_TargetPubkey req)
                        (extractMessageID P M rnd (dq_Envelope req)) senderPubkey (dq_Envelope req) ttlSeconds (dh_db dh) of
                      (d1, Inl e) \<Rightarrow> (dh\<lparr>dh_db := d1\<rparr>, writeErrorResponse M (dq_RequestId req) (''storage error: '' @ err_text e) w)
                    | (d1, Inr _) \<Rightarrow>
                        let dh1 = incrementRateLimit (c 3) senderPubkey (dq_TargetPubkey req) (dh\<lparr>dh_db := d1\<rparr>);
                            resp = \<lparr>dp_RequestId = dq_RequestId req, dp_Accepted = True, dp_RejectionReason = '''',
                              dp_StoredUntil = unix (c 4 + seconds ttlSeconds), dp_MailboxSignature = []\<rparr>
                        in (case signResponse P M (dh_privKey dh1) resp of
                            Inl _ \<Rightarrow> (dh1, writeErrorResponse M (dq_RequestId req) ''signing error'' w)
                          | Inr signature \<Rightarrow> (case writeResponse (km_dresp M) 1 (resp\<lparr>dp_MailboxSignature := signature\<rparr>) w of
                              (w1, Inl _) \<Rightarrow> (dh1, w1)
                            | (w1, Inr _) \<Rightarrow> (dh1, bw_flush w1))))))))"

section \<open>Retrieval and acknowledgment\<close>

definition validateRetrievalRequest :: "prims \<Rightarrow> mailbox_codecs \<Rightarrow> RetrievalRequest \<Rightarrow> unit res" where
  "validateRetrievalRequest P M req =
     (if length (rq_RecipientPubkey req) \<noteq> 32 then Inl (Err ''invalid recipient pubkey length'')
      else if length (rq_Nonce req) \<noteq> 32 then Inl (Err ''invalid nonce length'')
      else if length (rq_RecipientSignature req) = 0 then Inl (Err ''missing recipient signature'')
      else case marshal (km_rreq M) (req\<lparr>rq_RecipientSignature := []\<rparr>) of
        Inl _ \<Rightarrow> Inl (Err ''failed to marshal for verification'')
      | Inr dataForSigning \<Rightarrow>
          if \<not> Verify P (rq_RecipientPubkey req) dataForSigning (rq_RecipientSignature req) then Inl (Err ''invalid recipient signature'')
          else Inr ())"

definition validateAckRequest :: "prims \<Rightarrow> mailbox_codecs \<Rightarrow> AcknowledgmentRequest \<Rightarrow> unit res" where
  "validateAckRequest P M req =
     (if length (aq_RecipientPubkey req) \<noteq> 32 then Inl (Err ''invalid recipient pubkey length'')
      else if length (aq_RecipientSignature req) = 0 then Inl (Err ''missing recipient signature'')
      else case marshal (km_areq M) (req\<lparr>aq_RecipientSignature := []\<rparr>) of
        Inl _ \<Rightarrow> Inl (Err ''failed to marshal for verification'')
      | Inr dataForSigning \<Rightarrow>
          if \<not> Verify P (aq_RecipientPubkey req) dataForSigning (aq_RecipientSignature req) then Inl (Err ''invalid recipient signature'')
          else Inr ())"

definition writeRetrievalErrorResponse :: "mailbox_codecs \<Rightarrow> bytes \<Rightarrow> string \<Rightarrow> bufio \<Rightarrow> bufio" where
  "writeRetrievalErrorResponse M nonce reason w = fst (writeResponse (km_rresp M) 2
     \<lparr>rp_Nonce = nonce, rp_MessageIds = [], rp_Envelopes = [], rp_Count = 0, rp_MailboxSignature = []\<rparr> w)"

definition writeAckErrorResponse :: "mailbox_codecs \<Rightarrow> bytes list \<Rightarrow> string \<Rightarrow> bufio \<Rightarrow> bufio" where
  "writeAckErrorResponse M messageIDs reason w = fst (writeResponse (km_aresp M) 3
     \<lparr>ap_MessageIds = messageIDs, ap_Success = False, ap_FailureReason = reason, ap_MailboxSignature = []\<rparr> w)"

definition signRetrievalResponse :: "prims \<Rightarrow> mailbox_codecs \<Rightarrow> bytes \<Rightarrow> RetrievalResponse \<Rightarrow> bytes res" where
  "signRetrievalResponse P M priv resp =
     rbind (marshal (km_rresp M) \<lparr>rp_Nonce = rp_Nonce resp, rp_MessageIds = [], rp_Envelopes = [], rp_Count = rp_Count resp,
        rp_MailboxSignature = []\<rparr>) (Sign P priv)"

definition signAckResponse :: "prims \<Rightarrow> mailbox_codecs \<Rightarrow> bytes \<Rightarrow> AcknowledgmentResponse \<Rightarrow> bytes res" where
  "signAckResponse P M priv resp =
     rbind (marshal (km_aresp M) \<lparr>ap_MessageIds = ap_MessageIds resp, ap_Success = ap_Success resp, ap_FailureReason = '''',
        ap_MailboxSignature = []\<rparr>) (Sign P priv)"

definition handleRetrievalRequest :: "prims \<Rightarrow> 'd badger \<Rightarrow> mailbox_codecs \<Rightarrow> time \<Rightarrow> bytes \<Rightarrow> bufio \<Rightarrow> 'd DepositHandler \<Rightarrow>
    'd DepositHandler \<times> bufio" where
  "handleRetrievalRequest P B M now input w dh =
     (case read_frame input of
        Inl _ \<Rightarrow> (dh, w)
      | Inr data \<Rightarrow> (case unmarshal (km_rreq M) data of
          Inl _ \<Rightarrow> (dh, writeRetrievalErrorResponse M [] ''invalid request format'' w)
        | Inr req \<Rightarrow> (case validateRetrievalRequest P M req of
            Inl e \<Rightarrow> (dh, writeRetrievalErrorResponse M (rq_Nonce req) (err_text e) w)
          | Inr _ \<Rightarrow> (case ListMessages B (km_stored M) now (rq_RecipientPubkey req) (dh_db dh) of
              Inl e \<Rightarrow> (dh, writeRetrievalErrorResponse M (rq_Nonce req) (''storage error: '' @ err_text e) w)
            | Inr messages \<Rightarrow>
                let resp = \<lparr>rp_Nonce = rq_Nonce req, rp_MessageIds = map sd_MessageID messages, rp_Envelopes = map sd_Envelope messages,
                      rp_Count = of_nat (length messages), rp_MailboxSignature = []\<rparr>
                in (case signRetrievalResponse P M (dh_privKey dh) resp of
                    Inl _ \<Rightarrow> (dh, writeRetrievalErrorResponse M (rq_Nonce req) ''signing error'' w)
                  | Inr signature \<Rightarrow> (case writeResponse (km_rresp M) 2 (resp\<lparr>rp_MailboxSignature := signature\<rparr>) w of
                      (w1, Inl _) \<Rightarrow> (dh, w1)
                    | (w1, Inr _) \<Rightarrow> (dh, bw_flush w1)))))))"

definition handleAckRequest :: "prims \<Rightarrow> 'd badger \<Rightarrow> mailbox_codecs \<Rightarrow> bytes \<Rightarrow> bufio \<Rightarrow> 'd DepositHandler \<Rightarrow> 'd DepositHandler \<times> bufio" where
  "handleAckRequest P B M input w dh =
     (case read_frame input of
        Inl _ \<Rightarrow> (dh, w)
      | Inr data \<Rightarrow> (case unmarshal (km_areq M) data of
          Inl _ \<Rightarrow> (dh, writeAckErrorResponse M [] ''invalid request format'' w)
        | Inr req \<Rightarrow> (case validateAckRequest P M req of
            Inl e \<Rightarrow> (dh, writeAckErrorResponse M (aq_MessageIds req) (err_text e) w)
          | Inr _ \<Rightarrow> (case Mailbox_DeleteMessages B (aq_RecipientPubkey req) (aq_MessageIds req) (dh_db dh) of
              (d1, Inl e) \<Rightarrow> (dh\<lparr>dh_db := d1\<rparr>, writeAckErrorResponse M (aq_MessageIds req) (''deletion error: '' @ err_text e) w)
            | (d1, Inr _) \<Rightarrow>
                let dh1 = dh\<lparr>dh_db := d1\<rparr>;
                    resp = \<lparr>ap_MessageIds = aq_MessageIds req, ap_Success = True, ap_FailureReason = '''', ap_MailboxSignature = []\<rparr>
                in (case signAckResponse P M (dh_privKey dh1) resp of
                    Inl _ \<Rightarrow> (dh1, writeAckErrorResponse M (aq_MessageIds req) ''signing error'' w)
                  | Inr signature \<Rightarrow> (case writeResponse (km_aresp M) 3 (resp\<lparr>ap_MailboxSignature := signature\<rparr>) w of
                      (w1, Inl _) \<Rightarrow> (dh1, w1)
                    | (w1, Inr _) \<Rightarrow> (dh1, bw_flush w1)))))))"

text \<open>The handler of a stream: what it reads, and what has reached the peer when it closes the stream.\<close>

definition handleStream :: "prims \<Rightarrow> 'd badger \<Rightarrow> mailbox_codecs \<Rightarrow> (nat \<Rightarrow> time) \<Rightarrow> bytes res \<Rightarrow> bytes \<Rightarrow> 'd DepositHandler \<Rightarrow>
    'd DepositHandler \<times> bytes" where
  "handleStream P B M c rnd input dh =
     (case input of
        [] \<Rightarrow> (dh, [])
      | msgType # rest \<Rightarrow>
          let (dh1, w) = (if msgType = 1 then handleDepositRequest P B M c rnd rest new_writer dh
                 else if msgType = 2 then handleRetrievalRequest P B M (c 0) rest new_writer dh
                 else if msgType = 3 then handleAckRequest P B M rest new_writer dh
                 else (dh, new_writer))
          in (dh1, bw_out w))"

section \<open>The client\<close>

text \<open>A stream to a mailbox node carries the bytes of a request to it and brings back the bytes it answers
  with; \<open>'s\<close> is the state of the other side. \<open>peer.Decode\<close> and \<open>host.NewStream\<close> are libp2p's.\<close>

type_synonym 's stream = "bytes \<Rightarrow> 's \<Rightarrow> 's \<times> bytes"

record 's mailbox_host =
  mh_decode :: "string \<Rightarrow> bytes res"
  mh_NewStream :: "bytes \<Rightarrow> 's stream res"

definition generateRequestID :: "time \<Rightarrow> u64" where
  "generateRequestID now = be_uint (be_bytes 8 (word_of_int now :: u64))"

definition mustMarshal :: "'m codec \<Rightarrow> 'm \<Rightarrow> bytes res" where
  "mustMarshal K msg = (case marshal K msg of Inl e \<Rightarrow> Inl (Panic (err_text e)) | Inr data \<Rightarrow> Inr data)"

definition readResponse :: "'m codec \<Rightarrow> bytes \<Rightarrow> 'm res" where
  "readResponse K bs = rbind (read_frame bs) (unmarshal K)"

definition open_stream :: "'s mailbox_host \<Rightarrow> string \<Rightarrow> 's stream res" where
  "open_stream H mailboxPeerID =
     (case mh_decode H mailboxPeerID of
        Inl e \<Rightarrow> Inl (Wrap ''invalid mailbox peer ID'' e)
      | Inr peerID \<Rightarrow> wrapped ''failed to open stream'' (mh_NewStream H peerID))"

text \<open>Sending a request and reading the answer to it.\<close>

definition exchange :: "'q codec \<Rightarrow> 'p codec \<Rightarrow> byte \<Rightarrow> 'q \<Rightarrow> 's stream \<Rightarrow> 's \<Rightarrow> ('s, 'p) eff" where
  "exchange KQ KP msgType req stream s =
     (case writeResponse KQ msgType req new_writer of
        (_, Inl e) \<Rightarrow> (s, Inl (Wrap ''failed to send request'' e))
      | (w, Inr _) \<Rightarrow> (case stream (bw_out (bw_flush w)) s of
          (s1, []) \<Rightarrow> (s1, Inl (Wrap ''failed to read response type'' (Err ''EOF'')))
        | (s1, t # rest) \<Rightarrow>
            if t \<noteq> msgType then (s1, Inl (Err ''unexpected response type''))
            else (s1, wrapped ''failed to read response'' (readResponse KP rest))))"

definition DepositToMailbox :: "prims \<Rightarrow> mailbox_codecs \<Rightarrow> 's mailbox_host \<Rightarrow> (nat \<Rightarrow> time) \<Rightarrow> string \<Rightarrow> bytes \<Rightarrow> BabylonEnvelope \<Rightarrow> bytes \<Rightarrow>
    's \<Rightarrow> ('s, DepositResponse) eff" where
  "DepositToMailbox P M H c mailboxPeerID targetPubkey envelope senderPriv s =
     (case open_stream H mailboxPeerID of
        Inl e \<Rightarrow> (s, Inl e)
      | Inr stream \<Rightarrow> (case marshal (km_envelope M) envelope of
          Inl e \<Rightarrow> (s, Inl (Wrap ''failed to marshal envelope'' e))
        | Inr envelopeData \<Rightarrow>
            let req = \<lparr>dq_TargetPubkey = targetPubkey, dq_Envelope = envelopeData, dq_RequestId = generateRequestID (c 0),
                  dq_Timestamp = unix (c 1), dq_SenderSignature = []\<rparr>
            in (case mustMarshal (km_dreq M) req of
                Inl e \<Rightarrow> (s, Inl e)
              | Inr data \<Rightarrow> (case Sign P senderPriv data of
                  Inl e \<Rightarrow> (s, Inl (Wrap ''failed to sign request'' e))
                | Inr signature \<Rightarrow> exchange (km_dreq M) (km_dresp M) 1 (req\<lparr>dq_SenderSignature := signature\<rparr>) stream s))))"

definition RetrieveFromMailbox :: "prims \<Rightarrow> mailbox_codecs \<Rightarrow> 's mailbox_host \<Rightarrow> time \<Rightarrow> bytes res \<Rightarrow> string \<Rightarrow> bytes \<Rightarrow> bytes \<Rightarrow>
    's \<Rightarrow> ('s, RetrievalResponse) eff" where
  "RetrieveFromMailbox P M H now rnd mailboxPeerID pub priv s =
     (case open_stream H mailboxPeerID of
        Inl e \<Rightarrow> (s, Inl e)
      | Inr stream \<Rightarrow> (case rnd of
          Inl e \<Rightarrow> (s, Inl (Wrap ''failed to generate nonce'' e))
        | Inr nonce \<Rightarrow>
            let req = \<lparr>rq_RecipientPubkey = pub, rq_Nonce = nonce, rq_Timestamp = unix now, rq_RecipientSignature = []\<rparr>
            in (case mustMarshal (km_rreq M) req of
                Inl e \<Rightarrow> (s, Inl e)
              | Inr data \<Rightarrow> (case Sign P priv data of
                  Inl e \<Rightarrow> (s, Inl (Wrap ''failed to sign request'' e))
                | Inr signature \<Rightarrow> exchange (km_rreq M) (km_rresp M) 2 (req\<lparr>rq_RecipientSignature := signature\<rparr>) stream s))))"

definition AcknowledgeMessages :: "prims \<Rightarrow> mailbox_codecs \<Rightarrow> 's mailbox_host \<Rightarrow> time \<Rightarrow> string \<Rightarrow> bytes \<Rightarrow> bytes \<Rightarrow> bytes list \<Rightarrow>
    's \<Rightarrow> ('s, AcknowledgmentResponse) eff" where
  "AcknowledgeMessages P M H now mailboxPeerID pub priv messageIDs s =
     (case open_stream H mailboxPeerID of
        Inl e \<Rightarrow> (s, Inl e)
      | Inr stream \<Rightarrow>
          let req = \<lparr>aq_RecipientPubkey = pub, aq_MessageIds = messageIDs, aq_Timestamp = unix now, aq_RecipientSignature = []\<rparr>
          in (case mustMarshal (km_areq M) req of
              Inl e \<Rightarrow> (s, Inl e)
            | Inr data \<Rightarrow> (case Sign P priv data of
                Inl e \<Rightarrow> (s, Inl (Wrap ''failed to sign request'' e))
              | Inr signature \<Rightarrow> exchange (km_areq M) (km_aresp M) 3 (req\<lparr>aq_RecipientSignature := signature\<rparr>) stream s)))"

section \<open>Frames\<close>

definition frame :: "byte \<Rightarrow> bytes \<Rightarrow> bytes" where
  "frame t data = t # be_bytes 4 (of_nat (length data) :: u32) @ data"

lemma read_frame_frame: "length data < 2 ^ 32 \<Longrightarrow> read_frame (be_bytes 4 (of_nat (length data) :: u32) @ data) = Inr data"
  by (simp add: read_frame_def ReadFull_def unat_of_nat_u32)

text \<open>What a writer has taken, in order, is what has gone out followed by what is buffered.\<close>

definition bw_all :: "bufio \<Rightarrow> bytes" where "bw_all w = bw_out w @ bw_buf w"

lemma bw_all_simps:
  "bw_all (bw_write p w) = bw_all w @ p" "bw_all (bw_write_byte b w) = bw_all w @ [b]" "bw_out (bw_flush w) = bw_all w" "bw_all new_writer = []"
  by (auto simp: bw_all_def bw_write_def bw_write_byte_def bw_flush_def new_writer_def Let_def)

lemma writeResponse_new:
  "marshal K msg = Inr data \<Longrightarrow> \<exists>w. writeResponse K t msg new_writer = (w, Inr ()) \<and> bw_out (bw_flush w) = frame t data
    \<and> (length data + 5 \<le> buffer_size \<longrightarrow> bw_out w = [])"
  by (simp add: writeResponse_def bw_all_simps frame_def)
     (simp add: bw_write_def bw_write_byte_def new_writer_def buffer_size_def)

lemma exchange_sends:
  assumes "marshal KQ req = Inr data"
  shows "exchange KQ KP t req stream s = (case stream (frame t data) s of
      (s1, []) \<Rightarrow> (s1, Inl (Wrap ''failed to read response type'' (Err ''EOF'')))
    | (s1, t' # rest) \<Rightarrow> if t' \<noteq> t then (s1, Inl (Err ''unexpected response type'')) else (s1, wrapped ''failed to read response'' (readResponse KP rest)))"
  using writeResponse_new[OF assms, of t] by (auto simp: exchange_def)

lemma exchange_answered:
  assumes "marshal KQ req = Inr data" "stream (frame t data) s = (s', frame t answer)" "length answer < 2 ^ 32" "unmarshal KP answer = Inr resp"
  shows "exchange KQ KP t req stream s = (s', Inr resp)"
  using assms(2-4) by (simp add: exchange_sends[OF assms(1)] readResponse_def read_frame_frame frame_def[of t answer])

section \<open>Requests and responses on the wire\<close>

definition enc :: "'m codec \<Rightarrow> 'm \<Rightarrow> bytes" where
  "enc K m = (case marshal K m of Inl _ \<Rightarrow> [] | Inr b \<Rightarrow> b)"

text \<open>The length prefix of a frame has 32 bits.\<close>

definition fits :: "'m codec \<Rightarrow> 'm \<Rightarrow> bool" where "fits K m \<longleftrightarrow> length (enc K m) < 2 ^ 32"

lemma codec_enc:
  assumes "codec_ok K"
  shows "marshal K m = Inr (enc K m)" "unmarshal K (enc K m) = Inr m"
  using codec_okD[OF assms, of m] by (auto simp: enc_def)

definition deposit_request :: "prims \<Rightarrow> mailbox_codecs \<Rightarrow> (nat \<Rightarrow> time) \<Rightarrow> bytes \<Rightarrow> bytes \<Rightarrow> bytes \<Rightarrow> DepositRequest" where
  "deposit_request P M c t e priv = (let req = \<lparr>dq_TargetPubkey = t, dq_Envelope = e, dq_RequestId = generateRequestID (c 0),
     dq_Timestamp = unix (c 1), dq_SenderSignature = []\<rparr> in req\<lparr>dq_SenderSignature := ed_sign P priv (enc (km_dreq M) req)\<rparr>)"

definition deposit_response :: "prims \<Rightarrow> mailbox_codecs \<Rightarrow> bytes \<Rightarrow> u64 \<Rightarrow> u64 \<Rightarrow> DepositResponse" where
  "deposit_response P M priv rid until = (let resp = \<lparr>dp_RequestId = rid, dp_Accepted = True, dp_RejectionReason = '''', dp_StoredUntil = until,
     dp_MailboxSignature = []\<rparr> in resp\<lparr>dp_MailboxSignature := ed_sign P priv (enc (km_dresp M) resp)\<rparr>)"

definition retrieval_request :: "prims \<Rightarrow> mailbox_codecs \<Rightarrow> time \<Rightarrow> bytes \<Rightarrow> bytes \<Rightarrow> RetrievalRequest" where
  "retrieval_request P M now nonce priv = (let req = \<lparr>rq_RecipientPubkey = ed_public P priv, rq_Nonce = nonce, rq_Timestamp = unix now,
     rq_RecipientSignature = []\<rparr> in req\<lparr>rq_RecipientSignature := ed_sign P priv (enc (km_rreq M) req)\<rparr>)"

definition retrieval_response :: "prims \<Rightarrow> mailbox_codecs \<Rightarrow> bytes \<Rightarrow> bytes \<Rightarrow> StoredMessage list \<Rightarrow> RetrievalResponse" where
  "retrieval_response P M priv nonce ms = \<lparr>rp_Nonce = nonce, rp_MessageIds = map sd_MessageID ms, rp_Envelopes = map sd_Envelope ms,
     rp_Count = of_nat (length ms), rp_MailboxSignature = ed_sign P priv (enc (km_rresp M)
       \<lparr>rp_Nonce = nonce, rp_MessageIds = [], rp_Envelopes = [], rp_Count = of_nat (length ms), rp_MailboxSignature = []\<rparr>)\<rparr>"

definition ack_request :: "prims \<Rightarrow> mailbox_codecs \<Rightarrow> time \<Rightarrow> bytes list \<Rightarrow> bytes \<Rightarrow> AcknowledgmentRequest" where
  "ack_request P M now ids priv = (let req = \<lparr>aq_RecipientPubkey = ed_public P priv, aq_MessageIds = ids, aq_Timestamp = unix now,
     aq_RecipientSignature = []\<rparr> in req\<lparr>aq_RecipientSignature := ed_sign P priv (enc (km_areq M) req)\<rparr>)"

definition ack_response :: "prims \<Rightarrow> mailbox_codecs \<Rightarrow> bytes \<Rightarrow> bytes list \<Rightarrow> AcknowledgmentResponse" where
  "ack_response P M priv ids = (let resp = \<lparr>ap_MessageIds = ids, ap_Success = True, ap_FailureReason = '''', ap_MailboxSignature = []\<rparr>
     in resp\<lparr>ap_MailboxSignature := ed_sign P priv (enc (km_aresp M) resp)\<rparr>)"

text \<open>What the client sends.\<close>

lemma client_calls:
  assumes M: "mailbox_codecs_ok M" and priv: "length priv = 64" and opened: "open_stream H peer = Inr stream"
  shows "DepositToMailbox P M H c peer t env priv s =
      exchange (km_dreq M) (km_dresp M) 1 (deposit_request P M c t (enc (km_envelope M) env) priv) stream s" (is ?d)
    and "RetrieveFromMailbox P M H now (Inr nonce) peer (ed_public P priv) priv s =
      exchange (km_rreq M) (km_rresp M) 2 (retrieval_request P M now nonce priv) stream s" (is ?r)
    and "AcknowledgeMessages P M H now peer (ed_public P priv) priv ids s =
      exchange (km_areq M) (km_aresp M) 3 (ack_request P M now ids priv) stream s" (is ?a)
proof -
  have K: "codec_ok (km_envelope M)" "codec_ok (km_dreq M)" "codec_ok (km_rreq M)" "codec_ok (km_areq M)"
    using M by (simp_all add: mailbox_codecs_ok_def)
  show ?d using priv opened by (simp add: DepositToMailbox_def codec_enc[OF K(1)] codec_enc[OF K(2)] mustMarshal_def Sign_def crypto_sizes
    deposit_request_def)
  show ?r using priv opened by (simp add: RetrieveFromMailbox_def codec_enc[OF K(3)] mustMarshal_def Sign_def crypto_sizes retrieval_request_def)
  show ?a using priv opened by (simp add: AcknowledgeMessages_def codec_enc[OF K(4)] mustMarshal_def Sign_def crypto_sizes ack_request_def)
qed

text \<open>What the server answers to a request it accepts.\<close>

lemma flushed_response:
  assumes "codec_ok K"
  shows "\<exists>w. writeResponse K t m new_writer = (w, Inr ()) \<and> bw_out (bw_flush w) = frame t (enc K m)"
  using writeResponse_new[OF codec_enc(1)[OF assms], of t m] by blast

lemma handleStream_frame:
  "handleStream P B M c rnd (frame t data) dh = (let (dh1, w) = (if t = 1 then handleDepositRequest P B M c rnd (tl (frame t data)) new_writer dh
     else if t = 2 then handleRetrievalRequest P B M (c 0) (tl (frame t data)) new_writer dh
     else if t = 3 then handleAckRequest P B M (tl (frame t data)) new_writer dh else (dh, new_writer)) in (dh1, bw_out w))"
  by (simp add: handleStream_def frame_def)

lemma deposit_served:
  assumes M: "mailbox_codecs_ok M" and priv: "length (dh_privKey dh) = 64" and req: "fits (km_dreq M) req"
    and ok: "validateDepositRequest P M (dh_config dh) req = Inr ()" "extractSenderPubkey M (dq_Envelope req) = Some sender"
      "\<not> isRateLimited (c 0) sender (dq_TargetPubkey req) dh"
    and stored: "StoreMessage B (km_stored M) (dh_storageConfig dh) (c 1) (c 2) (dq_TargetPubkey req)
      (extractMessageID P M rnd (dq_Envelope req)) sender (dq_Envelope req) (mc_DefaultTtlSeconds (dh_config dh)) (dh_db dh) = (d1, Inr ())"
  shows "handleStream P B M c rnd (frame 1 (enc (km_dreq M) req)) dh =
    (incrementRateLimit (c 3) sender (dq_TargetPubkey req) (dh\<lparr>dh_db := d1\<rparr>),
     frame 1 (enc (km_dresp M) (deposit_response P M (dh_privKey dh) (dq_RequestId req) (unix (c 4 + seconds (mc_DefaultTtlSeconds (dh_config dh)))))))"
proof -
  have K: "codec_ok (km_dreq M)" "codec_ok (km_dresp M)" using M by (simp_all add: mailbox_codecs_ok_def)
  have f: "read_frame (tl (frame 1 (enc (km_dreq M) req))) = Inr (enc (km_dreq M) req)"
    using req by (simp add: frame_def fits_def read_frame_frame)
  let ?resp = "deposit_response P M (dh_privKey dh) (dq_RequestId req) (unix (c 4 + seconds (mc_DefaultTtlSeconds (dh_config dh))))"
  obtain w where w: "writeResponse (km_dresp M) 1 ?resp new_writer = (w, Inr ())" "bw_out (bw_flush w) = frame 1 (enc (km_dresp M) ?resp)"
    using flushed_response[OF K(2)] by blast
  have pk: "dh_privKey (incrementRateLimit (c 3) sender (dq_TargetPubkey req) (dh\<lparr>dh_db := d1\<rparr>)) = dh_privKey dh"
    by (simp add: incrementRateLimit_def Let_def)
  show ?thesis
    using f ok stored w priv
    by (simp add: handleStream_frame handleDepositRequest_def codec_enc[OF K(1)] codec_enc[OF K(2)] signResponse_def Sign_def crypto_sizes
        deposit_response_def pk Let_def)
qed

lemma retrieval_served:
  assumes M: "mailbox_codecs_ok M" and priv: "length (dh_privKey dh) = 64" and req: "fits (km_rreq M) req"
    and ok: "validateRetrievalRequest P M req = Inr ()" "ListMessages B (km_stored M) (c 0) (rq_RecipientPubkey req) (dh_db dh) = Inr ms"
  shows "handleStream P B M c rnd (frame 2 (enc (km_rreq M) req)) dh =
    (dh, frame 2 (enc (km_rresp M) (retrieval_response P M (dh_privKey dh) (rq_Nonce req) ms)))"
proof -
  have K: "codec_ok (km_rreq M)" "codec_ok (km_rresp M)" using M by (simp_all add: mailbox_codecs_ok_def)
  have f: "read_frame (tl (frame 2 (enc (km_rreq M) req))) = Inr (enc (km_rreq M) req)"
    using req by (simp add: frame_def fits_def read_frame_frame)
  obtain w where w: "writeResponse (km_rresp M) 2 (retrieval_response P M (dh_privKey dh) (rq_Nonce req) ms) new_writer = (w, Inr ())"
      "bw_out (bw_flush w) = frame 2 (enc (km_rresp M) (retrieval_response P M (dh_privKey dh) (rq_Nonce req) ms))"
    using flushed_response[OF K(2)] by blast
  show ?thesis
    using f ok w priv
    by (simp add: handleStream_frame handleRetrievalRequest_def codec_enc[OF K(1)] codec_enc[OF K(2)] signRetrievalResponse_def Sign_def
        crypto_sizes retrieval_response_def Let_def)
qed

lemma ack_served:
  assumes M: "mailbox_codecs_ok M" and priv: "length (dh_privKey dh) = 64" and req: "fits (km_areq M) req"
    and ok: "validateAckRequest P M req = Inr ()" "Mailbox_DeleteMessages B (aq_RecipientPubkey req) (aq_MessageIds req) (dh_db dh) = (d1, Inr ())"
  shows "handleStream P B M c rnd (frame 3 (enc (km_areq M) req)) dh =
    (dh\<lparr>dh_db := d1\<rparr>, frame 3 (enc (km_aresp M) (ack_response P M (dh_privKey dh) (aq_MessageIds req))))"
proof -
  have K: "codec_ok (km_areq M)" "codec_ok (km_aresp M)" using M by (simp_all add: mailbox_codecs_ok_def)
  have f: "read_frame (tl (frame 3 (enc (km_areq M) req))) = Inr (enc (km_areq M) req)"
    using req by (simp add: frame_def fits_def read_frame_frame)
  obtain w where w: "writeResponse (km_aresp M) 3 (ack_response P M (dh_privKey dh) (aq_MessageIds req)) new_writer = (w, Inr ())"
      "bw_out (bw_flush w) = frame 3 (enc (km_aresp M) (ack_response P M (dh_privKey dh) (aq_MessageIds req)))"
    using flushed_response[OF K(2)] by blast
  show ?thesis
    using f ok w priv
    by (simp add: handleStream_frame handleAckRequest_def codec_enc[OF K(1)] codec_enc[OF K(2)] signAckResponse_def Sign_def
        crypto_sizes ack_response_def Let_def)
qed

lemma own_requests_valid:
  assumes M: "mailbox_codecs_ok M" and P: "sig_correct P" and priv: "length priv = 64"
  shows "length nonce = 32 \<Longrightarrow> validateRetrievalRequest P M (retrieval_request P M now nonce priv) = Inr ()"
    and "validateAckRequest P M (ack_request P M now ids priv) = Inr ()"
    and "be_SenderIdentity env = ed_public P priv \<Longrightarrow> length (enc (km_envelope M) env) < 2 ^ 64 \<Longrightarrow>
      length (enc (km_envelope M) env) \<le> unat (mc_MaxMessageSize cfg) \<Longrightarrow>
      validateDepositRequest P M cfg (deposit_request P M c t (enc (km_envelope M) env) priv) = Inr ()"
proof -
  have K: "codec_ok (km_envelope M)" "codec_ok (km_dreq M)" "codec_ok (km_rreq M)" "codec_ok (km_areq M)"
    using M by (simp_all add: mailbox_codecs_ok_def)
  note sg = sig_correctD[OF P priv]
  have ne: "ed_sign P priv m \<noteq> []" for m using sg(1)[of m] by auto
  show "length nonce = 32 \<Longrightarrow> validateRetrievalRequest P M (retrieval_request P M now nonce priv) = Inr ()"
    by (simp add: validateRetrievalRequest_def retrieval_request_def Let_def codec_enc[OF K(3)] Verify_def sg ne crypto_sizes)
  show "validateAckRequest P M (ack_request P M now ids priv) = Inr ()"
    by (simp add: validateAckRequest_def ack_request_def Let_def codec_enc[OF K(4)] Verify_def sg ne crypto_sizes)
  assume env: "be_SenderIdentity env = ed_public P priv" "length (enc (km_envelope M) env) < 2 ^ 64"
    "length (enc (km_envelope M) env) \<le> unat (mc_MaxMessageSize cfg)"
  then have "\<not> mc_MaxMessageSize cfg < (of_nat (length (enc (km_envelope M) env)) :: u64)"
    by (simp add: word_less_nat_alt unat_of_nat)
  then show "validateDepositRequest P M cfg (deposit_request P M c t (enc (km_envelope M) env) priv) = Inr ()"
    using env(1) by (simp add: validateDepositRequest_def deposit_request_def Let_def codec_enc[OF K(1)] codec_enc[OF K(2)] Verify_def sg ne crypto_sizes)
qed

lemma exchange_served:
  assumes "codec_ok KQ" "codec_ok KP" "fits KP resp" "stream (frame t (enc KQ req)) s = (s', frame t (enc KP resp))"
  shows "exchange KQ KP t req stream s = (s', Inr resp)"
  using exchange_answered[where stream = stream, OF codec_enc(1)[OF assms(1)] assms(4) _ codec_enc(2)[OF assms(2)]] assms(3) by (simp add: fits_def)

text \<open>The three calls of a client against a mailbox node that serves them.\<close>

lemma Retrieve_returns:
  assumes M: "mailbox_codecs_ok M" and P: "sig_correct P" and priv: "length priv = 64" "length nonce = 32" "length (dh_privKey dh) = 64"
    and opened: "open_stream H peer = Inr (handleStream P B M c rnd)"
    and sizes: "fits (km_rreq M) (retrieval_request P M now nonce priv)" "fits (km_rresp M) (retrieval_response P M (dh_privKey dh) nonce ms)"
    and ms: "ListMessages B (km_stored M) (c 0) (ed_public P priv) (dh_db dh) = Inr ms"
  shows "RetrieveFromMailbox P M H now (Inr nonce) peer (ed_public P priv) priv dh = (dh, Inr (retrieval_response P M (dh_privKey dh) nonce ms))"
proof -
  have K: "codec_ok (km_rreq M)" "codec_ok (km_rresp M)" using M by (simp_all add: mailbox_codecs_ok_def)
  have rq: "rq_RecipientPubkey (retrieval_request P M now nonce priv) = ed_public P priv" "rq_Nonce (retrieval_request P M now nonce priv) = nonce"
    by (simp_all add: retrieval_request_def Let_def)
  show ?thesis
    unfolding client_calls(2)[OF M priv(1) opened]
    using retrieval_served[OF M priv(3) sizes(1) own_requests_valid(1)[OF M P priv(1,2)], of B c ms rnd] ms rq
    by (intro exchange_served K sizes(2)) simp
qed

lemma Acknowledge_returns:
  assumes M: "mailbox_codecs_ok M" and P: "sig_correct P" and priv: "length priv = 64" "length (dh_privKey dh) = 64"
    and opened: "open_stream H peer = Inr (handleStream P B M c rnd)"
    and sizes: "fits (km_areq M) (ack_request P M now ids priv)" "fits (km_aresp M) (ack_response P M (dh_privKey dh) ids)"
    and del: "Mailbox_DeleteMessages B (ed_public P priv) ids (dh_db dh) = (d1, Inr ())"
  shows "AcknowledgeMessages P M H now peer (ed_public P priv) priv ids dh = (dh\<lparr>dh_db := d1\<rparr>, Inr (ack_response P M (dh_privKey dh) ids))"
proof -
  have K: "codec_ok (km_areq M)" "codec_ok (km_aresp M)" using M by (simp_all add: mailbox_codecs_ok_def)
  have rq: "aq_RecipientPubkey (ack_request P M now ids priv) = ed_public P priv" "aq_MessageIds (ack_request P M now ids priv) = ids"
    by (simp_all add: ack_request_def Let_def)
  show ?thesis
    unfolding client_calls(3)[OF M priv(1) opened]
    using ack_served[OF M priv(2) sizes(1) own_requests_valid(2)[OF M P priv(1)], of B d1 c rnd] del rq
    by (intro exchange_served K sizes(2)) simp
qed

lemma Deposit_returns:
  assumes M: "mailbox_codecs_ok M" and P: "sig_correct P" and priv: "length priv = 64" "length (dh_privKey dh) = 64"
    and opened: "open_stream H peer = Inr (handleStream P B M sc rnd)"
    and env: "be_SenderIdentity env = ed_public P priv" "be_SenderDeviceId env \<noteq> []" "be_MessageId env \<noteq> []"
    and sizes: "fits (km_dreq M) (deposit_request P M c t (enc (km_envelope M) env) priv)" "length (enc (km_envelope M) env) < 2 ^ 64"
      "length (enc (km_envelope M) env) \<le> unat (mc_MaxMessageSize (dh_config dh))"
      "fits (km_dresp M) (deposit_response P M (dh_privKey dh) (generateRequestID (c 0)) (unix (sc 4 + seconds (mc_DefaultTtlSeconds (dh_config dh)))))"
    and rate: "\<not> isRateLimited (sc 0) (be_SenderDeviceId env) t dh"
    and stored: "StoreMessage B (km_stored M) (dh_storageConfig dh) (sc 1) (sc 2) t (be_MessageId env) (be_SenderDeviceId env)
      (enc (km_envelope M) env) (mc_DefaultTtlSeconds (dh_config dh)) (dh_db dh) = (d1, Inr ())"
  shows "DepositToMailbox P M H c peer t env priv dh =
    (incrementRateLimit (sc 3) (be_SenderDeviceId env) t (dh\<lparr>dh_db := d1\<rparr>),
     Inr (deposit_response P M (dh_privKey dh) (generateRequestID (c 0)) (unix (sc 4 + seconds (mc_DefaultTtlSeconds (dh_config dh))))))"
proof -
  have K: "codec_ok (km_dreq M)" "codec_ok (km_dresp M)" "codec_ok (km_envelope M)" using M by (simp_all add: mailbox_codecs_ok_def)
  let ?req = "deposit_request P M c t (enc (km_envelope M) env) priv"
  have rq: "dq_TargetPubkey ?req = t" "dq_Envelope ?req = enc (km_envelope M) env" "dq_RequestId ?req = generateRequestID (c 0)"
    by (simp_all add: deposit_request_def Let_def)
  have ex: "extractSenderPubkey M (enc (km_envelope M) env) = Some (be_SenderDeviceId env)"
    "extractMessageID P M rnd (enc (km_envelope M) env) = be_MessageId env"
    using env(2,3) by (simp_all add: extractSenderPubkey_def extractMessageID_def codec_enc[OF K(3)])
  show ?thesis
    unfolding client_calls(1)[OF M priv(1) opened]
    using deposit_served[OF M priv(2) sizes(1) own_requests_valid(3)[OF M P priv(1) env(1) sizes(2,3)], of "be_SenderDeviceId env" sc B rnd d1]
      ex rate stored rq
    by (intro exchange_served K sizes(4)) simp
qed

section \<open>Properties\<close>

lemma incrementRateLimit_fields [simp]:
  "dh_db (incrementRateLimit now s t dh) = dh_db dh" "dh_privKey (incrementRateLimit now s t dh) = dh_privKey dh"
  "dh_config (incrementRateLimit now s t dh) = dh_config dh" "dh_storageConfig (incrementRateLimit now s t dh) = dh_storageConfig dh"
  by (simp_all add: incrementRateLimit_def Let_def)

lemma retrieval_response_mem:
  "m \<in> set ms \<Longrightarrow> (sd_MessageID m, sd_Envelope m) \<in> set (zip (rp_MessageIds (retrieval_response P M priv nonce ms)) (rp_Envelopes (retrieval_response P M priv nonce ms)))"
  by (simp add: retrieval_response_def zip_map_map zip_same_conv_map)

lemma delete_listed:
  assumes "kv_ok B view" "mbx_ok K (view d)" "Mailbox_DeleteMessages B t [i] d = (d', r)" "ListMessages B K at t d' = Inr ms"
  shows "i \<notin> sd_MessageID ` set ms"
proof -
  have v: "view d' = (view d)(mbxKey t i := None)"
    using kv_run(2)[OF assms(1), of "[WDel (mbxKey t i)]" d] assms(3) by (simp add: Mailbox_DeleteMessages_def)
  have ok: "mbx_ok K (view d')" using mbx_ok_delete[OF assms(2), of "[mbxKey t i]"] v by simp
  have "set ms = from_record ` {s. held K (view d') t s \<and> live at s}" using ListMessages_set[OF assms(1) ok, of at t] assms(4) by auto
  then show ?thesis using v by (auto simp: held_def from_record_def)
qed

text \<open>C11. A message deposited at a mailbox reaches its recipient. Against a mailbox node with any history of stores and
  deletions, when the envelope is within the size limit, signed by the sender it names, and neither the hourly
  rate of that sender nor the quota of the recipient is used up: the sender's call returns a signed acceptance;
  the recipient's retrieval returns, until the message has expired, the message under its identifier with the
  envelope exactly as it was sent; and after the recipient has acknowledged it, the message is no longer
  returned. Frames carry at most \<open>2^32 - 1\<close> bytes, so the encoded messages have to fit.\<close>

theorem mailbox_delivery:
  fixes B :: "'d badger" and dh :: "'d DepositHandler"
  assumes B: "kv_ok B view" and M: "mailbox_codecs_ok M" and P: "sig_correct P"
    and node: "view d0 = (\<lambda>_. None)" "dh_db dh = fst (mbx_run B (km_stored M) (dh_storageConfig dh) ops d0)" "length (dh_privKey dh) = 64"
    and keys: "length spriv = 64" "length rpriv = 64" "length nonce = 32"
    and env: "be_SenderIdentity env = ed_public P spriv" "be_SenderDeviceId env \<noteq> []" "be_MessageId env = i" "i \<noteq> []"
      "enc (km_envelope M) env = e" "length e < 2 ^ 64" "length e \<le> unat (mc_MaxMessageSize (dh_config dh))"
    and free: "\<not> isRateLimited (sc 0) (be_SenderDeviceId env) (ed_public P rpriv) dh"
      "\<not> at_limit (dh_storageConfig dh) (ed_public P rpriv) (view (dh_db dh))"
    and streams: "open_stream H peer = Inr (handleStream P B M sc rnd)" "open_stream H' peer = Inr (handleStream P B M sc' rnd)"
    and sizes: "fits (km_dreq M) (deposit_request P M c (ed_public P rpriv) e spriv)"
      "fits (km_dresp M) (deposit_response P M (dh_privKey dh) (generateRequestID (c 0)) (unix (sc 4 + seconds (mc_DefaultTtlSeconds (dh_config dh)))))"
      "fits (km_rreq M) (retrieval_request P M now nonce rpriv)"
      "fits (km_areq M) (ack_request P M now [i] rpriv)" "fits (km_aresp M) (ack_response P M (dh_privKey dh) [i])"
  shows "\<exists>dh1 dh2 resp ack ms ms2.
      DepositToMailbox P M H c peer (ed_public P rpriv) env spriv dh = (dh1, Inr resp) \<and> dp_Accepted resp
    \<and> ListMessages B (km_stored M) (sc' 0) (ed_public P rpriv) (dh_db dh1) = Inr ms
    \<and> (fits (km_rresp M) (retrieval_response P M (dh_privKey dh) nonce ms) \<longrightarrow>
        RetrieveFromMailbox P M H' now (Inr nonce) peer (ed_public P rpriv) rpriv dh1 = (dh1, Inr (retrieval_response P M (dh_privKey dh) nonce ms)))
    \<and> (sc' 0 \<le> unixTime (unix (sc 1 + seconds (mc_DefaultTtlSeconds (dh_config dh)))) \<longrightarrow>
        (i, e) \<in> set (zip (rp_MessageIds (retrieval_response P M (dh_privKey dh) nonce ms)) (rp_Envelopes (retrieval_response P M (dh_privKey dh) nonce ms))))
    \<and> AcknowledgeMessages P M H' now peer (ed_public P rpriv) rpriv [i] dh1 = (dh2, Inr ack) \<and> ap_Success ack
    \<and> ListMessages B (km_stored M) (sc' 0) (ed_public P rpriv) (dh_db dh2) = Inr ms2 \<and> i \<notin> sd_MessageID ` set ms2"
proof -
  let ?t = "ed_public P rpriv" and ?K = "km_stored M" and ?ttl = "mc_DefaultTtlSeconds (dh_config dh)"
  have K: "codec_ok ?K" using M by (simp add: mailbox_codecs_ok_def)
  have inv: "mbx_ok ?K (view (dh_db dh))" "count_ok (dh_storageConfig dh) (view (dh_db dh)) (snd (mbx_run B ?K (dh_storageConfig dh) ops d0))"
    using mbx_run_inv[OF B K node(1)] node(2) by auto
  obtain d1 ks b m where st: "StoreMessage B ?K (dh_storageConfig dh) (sc 1) (sc 2) ?t i (be_SenderDeviceId env) e ?ttl (dh_db dh) = (d1, Inr ())"
    "unmarshal ?K b = Inr (stored_record (sc 1) i (be_SenderDeviceId env) e ?ttl)"
    "view d1 = (apply_writes (map WDel ks) (view (dh_db dh)))(mbxKey ?t i \<mapsto> b, metaKey ?t \<mapsto> print_metadata m)"
    using StoreMessage_view[OF B K free(2)] by blast
  let ?dh1 = "incrementRateLimit (sc 3) (be_SenderDeviceId env) ?t (dh\<lparr>dh_db := d1\<rparr>)"
  have dep: "DepositToMailbox P M H c peer ?t env spriv dh =
      (?dh1, Inr (deposit_response P M (dh_privKey dh) (generateRequestID (c 0)) (unix (sc 4 + seconds ?ttl))))"
    using Deposit_returns[OF M P keys(1) node(3) streams(1) env(1,2)] env(3-7) sizes(1,2) free(1) st(1) by simp
  have ok1: "mbx_ok ?K (view d1)" using StoreMessage_inv[OF B K inv st(1)] by blast
  obtain ms where ms: "ListMessages B ?K (sc' 0) ?t d1 = Inr ms"
    "set ms = from_record ` {s. held ?K (view d1) ?t s \<and> live (sc' 0) s}"
    using ListMessages_set[OF B ok1] by blast
  have retr: "fits (km_rresp M) (retrieval_response P M (dh_privKey dh) nonce ms) \<Longrightarrow>
      RetrieveFromMailbox P M H' now (Inr nonce) peer ?t rpriv ?dh1 = (?dh1, Inr (retrieval_response P M (dh_privKey dh) nonce ms))"
    using Retrieve_returns[OF M P keys(2,3) _ streams(2) sizes(3), of ?dh1 ms] node(3) ms(1) by simp
  let ?rec = "stored_record (sc 1) i (be_SenderDeviceId env) e ?ttl"
  have "from_record ?rec \<in> set ms" if "sc' 0 \<le> unixTime (unix (sc 1 + seconds ?ttl))"
    unfolding ms(2) using st(2,3) that by (intro imageI) (simp add: held_def live_def stored_record_def)
  then have mem: "(i, e) \<in> set (zip (rp_MessageIds (retrieval_response P M (dh_privKey dh) nonce ms)) (rp_Envelopes (retrieval_response P M (dh_privKey dh) nonce ms)))"
    if "sc' 0 \<le> unixTime (unix (sc 1 + seconds ?ttl))"
    using retrieval_response_mem[of "from_record ?rec" ms] that by (simp add: from_record_def stored_record_def)
  obtain d2 where d2: "Mailbox_DeleteMessages B ?t [i] d1 = (d2, Inr ())"
    using kv_run(1)[OF B, of "[WDel (mbxKey ?t i)]" d1] unfolding Mailbox_DeleteMessages_def by (cases "db_run B [WDel (mbxKey ?t i)] d1") auto
  have ack: "AcknowledgeMessages P M H' now peer ?t rpriv [i] ?dh1 = (?dh1\<lparr>dh_db := d2\<rparr>, Inr (ack_response P M (dh_privKey dh) [i]))"
    using Acknowledge_returns[OF M P keys(2) _ streams(2) sizes(4), of ?dh1 d2] node(3) sizes(5) d2 by simp
  have "view d2 = (view d1)(mbxKey ?t i := None)"
    using kv_run(2)[OF B, of "[WDel (mbxKey ?t i)]" d1] d2 by (simp add: Mailbox_DeleteMessages_def)
  then have "mbx_ok ?K (view d2)" using mbx_ok_delete[OF ok1, of "[mbxKey ?t i]"] by simp
  then obtain ms2 where ms2: "ListMessages B ?K (sc' 0) ?t d2 = Inr ms2" using ListMessages_set[OF B] by blast
  show ?thesis
    using dep ms(1) retr mem ack ms2 delete_listed[OF B ok1 d2 ms2]
    by (intro exI conjI) (assumption | simp add: deposit_response_def ack_response_def Let_def)+
qed

text \<open>The reference serialisation of the protocol's messages.\<close>

definition ser_BabylonEnvelope :: "BabylonEnvelope ser" where
  "ser_BabylonEnvelope = s_iso
     (\<lambda>m. (be_ProtocolVersion m, be_MessageType m, be_SenderIdentity m, be_RecipientIdentity m, be_Timestamp m, be_MessageId m, be_GroupId m,
        be_ChannelId m, be_Payload m, be_SenderDeviceId m, be_Signature m, be_CipherSuiteId m, be_X3DhHeader m))
     (\<lambda>(a, b, c, d, e, f, g, h, i, j, k, l, m). \<lparr>be_ProtocolVersion = a, be_MessageType = b, be_SenderIdentity = c, be_RecipientIdentity = d,
        be_Timestamp = e, be_MessageId = f, be_GroupId = g, be_ChannelId = h, be_Payload = i, be_SenderDeviceId = j, be_Signature = k,
        be_CipherSuiteId = l, be_X3DhHeader = m\<rparr>)
     (s_pair s_u32 (s_pair s_u32 (s_pair s_bytes (s_pair s_bytes (s_pair s_u64 (s_pair s_bytes (s_pair s_bytes (s_pair s_bytes
       (s_pair s_bytes (s_pair s_bytes (s_pair s_bytes (s_pair s_u32 s_bytes))))))))))))"

definition ser_DepositRequest :: "DepositRequest ser" where
  "ser_DepositRequest = s_iso (\<lambda>m. (dq_TargetPubkey m, dq_Envelope m, dq_RequestId m, dq_Timestamp m, dq_SenderSignature m))
     (\<lambda>(a, b, c, d, e). \<lparr>dq_TargetPubkey = a, dq_Envelope = b, dq_RequestId = c, dq_Timestamp = d, dq_SenderSignature = e\<rparr>)
     (s_pair s_bytes (s_pair s_bytes (s_pair s_u64 (s_pair s_u64 s_bytes))))"

definition ser_DepositResponse :: "DepositResponse ser" where
  "ser_DepositResponse = s_iso
     (\<lambda>m. (dp_RequestId m, if dp_Accepted m then 1 else 0, dp_RejectionReason m, dp_StoredUntil m, dp_MailboxSignature m))
     (\<lambda>(a, b, c, d, e). \<lparr>dp_RequestId = a, dp_Accepted = (b = 1), dp_RejectionReason = c, dp_StoredUntil = d, dp_MailboxSignature = e\<rparr>)
     (s_pair s_u64 (s_pair s_byte (s_pair s_string (s_pair s_u64 s_bytes))))"

definition ser_RetrievalRequest :: "RetrievalRequest ser" where
  "ser_RetrievalRequest = s_iso (\<lambda>m. (rq_RecipientPubkey m, rq_Nonce m, rq_Timestamp m, rq_RecipientSignature m))
     (\<lambda>(a, b, c, d). \<lparr>rq_RecipientPubkey = a, rq_Nonce = b, rq_Timestamp = c, rq_RecipientSignature = d\<rparr>)
     (s_pair s_bytes (s_pair s_bytes (s_pair s_u64 s_bytes)))"

definition ser_RetrievalResponse :: "RetrievalResponse ser" where
  "ser_RetrievalResponse = s_iso (\<lambda>m. (rp_Nonce m, rp_MessageIds m, rp_Envelopes m, rp_Count m, rp_MailboxSignature m))
     (\<lambda>(a, b, c, d, e). \<lparr>rp_Nonce = a, rp_MessageIds = b, rp_Envelopes = c, rp_Count = d, rp_MailboxSignature = e\<rparr>)
     (s_pair s_bytes (s_pair (s_list s_bytes) (s_pair (s_list s_bytes) (s_pair s_u64 s_bytes))))"

definition ser_AckRequest :: "AcknowledgmentRequest ser" where
  "ser_AckRequest = s_iso (\<lambda>m. (aq_RecipientPubkey m, aq_MessageIds m, aq_Timestamp m, aq_RecipientSignature m))
     (\<lambda>(a, b, c, d). \<lparr>aq_RecipientPubkey = a, aq_MessageIds = b, aq_Timestamp = c, aq_RecipientSignature = d\<rparr>)
     (s_pair s_bytes (s_pair (s_list s_bytes) (s_pair s_u64 s_bytes)))"

definition ser_AckResponse :: "AcknowledgmentResponse ser" where
  "ser_AckResponse = s_iso (\<lambda>m. (ap_MessageIds m, if ap_Success m then 1 else 0, ap_FailureReason m, ap_MailboxSignature m))
     (\<lambda>(a, b, c, d). \<lparr>ap_MessageIds = a, ap_Success = (b = 1), ap_FailureReason = c, ap_MailboxSignature = d\<rparr>)
     (s_pair (s_list s_bytes) (s_pair s_byte (s_pair s_string s_bytes)))"

definition mailbox_ref :: mailbox_codecs where
  "mailbox_ref = \<lparr>km_stored = codec_of ser_Stored, km_envelope = codec_of ser_BabylonEnvelope, km_dreq = codec_of ser_DepositRequest,
     km_dresp = codec_of ser_DepositResponse, km_rreq = codec_of ser_RetrievalRequest, km_rresp = codec_of ser_RetrievalResponse,
     km_areq = codec_of ser_AckRequest, km_aresp = codec_of ser_AckResponse\<rparr>"

lemma mailbox_sers_ok:
  "ser_ok ser_BabylonEnvelope" "ser_ok ser_DepositRequest" "ser_ok ser_DepositResponse" "ser_ok ser_RetrievalRequest"
  "ser_ok ser_RetrievalResponse" "ser_ok ser_AckRequest" "ser_ok ser_AckResponse"
  unfolding ser_BabylonEnvelope_def ser_DepositRequest_def ser_DepositResponse_def ser_RetrievalRequest_def ser_RetrievalResponse_def
    ser_AckRequest_def ser_AckResponse_def
  by (rule s_iso_ok, intro ser_intros, simp)+

lemma mailbox_ref_ok: "mailbox_codecs_ok mailbox_ref"
  using ser_Stored_ok by (simp add: mailbox_codecs_ok_def mailbox_ref_def codec_of_ok mailbox_sers_ok)

lemma put_ids_length: "length (fst (s_list s_bytes) [xs]) = 2 * length xs + 3" "fst s_string [] = [0]"
  by (simp_all add: s_list_def put_bytes_length s_string_def)

lemmas frame_sizes = fits_def enc_def codec_of_def s_iso_def s_pair_def s_u32_def s_u64_def s_byte_def put_bytes_length put_ids_length
  mailbox_ref_def Let_def

definition example_envelope :: BabylonEnvelope where
  "example_envelope = \<lparr>be_ProtocolVersion = 1, be_MessageType = 1, be_SenderIdentity = replicate 32 5, be_RecipientIdentity = replicate 32 6,
     be_Timestamp = 0, be_MessageId = [7], be_GroupId = [], be_ChannelId = [], be_Payload = [1, 2, 3], be_SenderDeviceId = [8], be_Signature = [],
     be_CipherSuiteId = 1, be_X3DhHeader = []\<rparr>"

lemma example_envelope_size: "length (enc (km_envelope mailbox_ref) example_envelope) = 167"
  by (simp add: frame_sizes ser_BabylonEnvelope_def example_envelope_def)

definition example_node :: "(bytes, bytes) gomap DepositHandler" where
  "example_node = NewDepositHandler [] defaultConfig (replicate 64 9)"

definition host_of :: "'s stream \<Rightarrow> 's mailbox_host" where
  "host_of stream = \<lparr>mh_decode = (\<lambda>p. Inr (str_bytes p)), mh_NewStream = (\<lambda>_. Inr stream)\<rparr>"

lemma open_host_of: "open_stream (host_of stream) peer = Inr stream"
  by (simp add: open_stream_def host_of_def)

theorem mailbox_delivery_witness:
  "\<exists>dh1 dh2 resp ack. DepositToMailbox toy mailbox_ref (host_of (handleStream toy alist_db mailbox_ref (\<lambda>_. 0) (Inr []))) (\<lambda>_. 0) ''peer''
      (replicate 32 6) example_envelope (replicate 64 5) example_node = (dh1, Inr resp) \<and> dp_Accepted resp
    \<and> AcknowledgeMessages toy mailbox_ref (host_of (handleStream toy alist_db mailbox_ref (\<lambda>_. 1) (Inr []))) 0 ''peer''
      (replicate 32 6) (replicate 64 6) [[7]] dh1 = (dh2, Inr ack) \<and> ap_Success ack"
proof -
  note sz = frame_sizes ser_DepositRequest_def ser_DepositResponse_def ser_RetrievalRequest_def ser_AckRequest_def ser_AckResponse_def
  have e: "length (enc (km_envelope mailbox_ref) example_envelope) = 167" by (rule example_envelope_size)
  have node: "dh_db example_node = []" "dh_privKey example_node = replicate 64 9" "dh_config example_node = defaultConfig"
    "dh_storageConfig example_node = defaultConfig" "dh_rateLimit example_node = []"
    by (simp_all add: example_node_def NewDepositHandler_def)
  have "dh_db example_node = fst (mbx_run alist_db (km_stored mailbox_ref) (dh_storageConfig example_node) [] [])"
    by (simp add: node mbx_run_def)
  moreover have "fits (km_dreq mailbox_ref) (deposit_request toy mailbox_ref (\<lambda>_. 0) (ed_public toy (replicate 64 6))
      (enc (km_envelope mailbox_ref) example_envelope) (replicate 64 5))"
    using e by (simp add: deposit_request_def fits_def enc_def[of "km_dreq mailbox_ref"]) (simp add: mailbox_ref_def codec_of_def ser_DepositRequest_def
      s_iso_def s_pair_def s_u64_def put_bytes_length min_def Let_def)
  moreover have "fits (km_dresp mailbox_ref) (deposit_response toy mailbox_ref (dh_privKey example_node) (generateRequestID ((\<lambda>_. 0) 0))
      (unix ((\<lambda>_. 0) 4 + seconds (mc_DefaultTtlSeconds (dh_config example_node)))))"
    by (simp add: deposit_response_def sz)
  moreover have "fits (km_rreq mailbox_ref) (retrieval_request toy mailbox_ref 0 (replicate 32 1) (replicate 64 6))"
    by (simp add: retrieval_request_def sz)
  moreover have "fits (km_areq mailbox_ref) (ack_request toy mailbox_ref 0 [[7]] (replicate 64 6))" by (simp add: ack_request_def sz)
  moreover have "fits (km_aresp mailbox_ref) (ack_response toy mailbox_ref (dh_privKey example_node) [[7]])" by (simp add: ack_response_def sz)
  moreover have "\<not> isRateLimited ((\<lambda>_. 0) 0) (be_SenderDeviceId example_envelope) (ed_public toy (replicate 64 6)) example_node"
    by (simp add: isRateLimited_def rate_entry_def node)
  moreover have "\<not> at_limit (dh_storageConfig example_node) (ed_public toy (replicate 64 6)) (map_of (dh_db example_node))"
    by (simp add: at_limit_def node)
  moreover have "be_SenderIdentity example_envelope = ed_public toy (replicate 64 5)" "be_SenderDeviceId example_envelope \<noteq> []"
    "be_MessageId example_envelope = [7]" "[7] \<noteq> ([] :: bytes)" by (simp_all add: example_envelope_def)
  ultimately show ?thesis
    using mailbox_delivery[OF alist_db_ok mailbox_ref_ok toy_sig, of "[]" example_node "[]" "replicate 64 5" "replicate 64 6" "replicate 32 1"
        example_envelope "[7]" _ "\<lambda>_. 0" _ _ "Inr []" _ "\<lambda>_. 1" "\<lambda>_. 0" 0, OF _ _ _ _ _ _ _ _ _ _ refl _ _ _ _ open_host_of open_host_of]
      e node by (simp add: defaultConfig_def) blast
qed

text \<open>The request a stream brings.\<close>

definition received :: "'m codec \<Rightarrow> bytes \<Rightarrow> 'm \<Rightarrow> bool" where
  "received K q req \<longleftrightarrow> (\<exists>data. read_frame q = Inr data \<and> unmarshal K data = Inr req)"

lemma retrieval_validated:
  "validateRetrievalRequest P M req = Inr () \<Longrightarrow> \<exists>b. marshal (km_rreq M) (req\<lparr>rq_RecipientSignature := []\<rparr>) = Inr b
    \<and> Verify P (rq_RecipientPubkey req) b (rq_RecipientSignature req)"
  by (simp add: validateRetrievalRequest_def split: if_splits sum.splits)

lemma ack_validated:
  "validateAckRequest P M req = Inr () \<Longrightarrow> \<exists>b. marshal (km_areq M) (req\<lparr>aq_RecipientSignature := []\<rparr>) = Inr b
    \<and> Verify P (aq_RecipientPubkey req) b (aq_RecipientSignature req)"
  by (simp add: validateAckRequest_def split: if_splits sum.splits)

lemma retrieval_state: "fst (handleRetrievalRequest P B M now q w dh) = dh"
  by (simp add: handleRetrievalRequest_def Let_def split: sum.splits prod.splits)

text \<open>What is answered to a retrieval depends on the database only through the list of a recipient whose signature was verified.\<close>

lemma retrieval_reads:
  assumes "snd (handleRetrievalRequest P B M now q w dh) \<noteq> snd (handleRetrievalRequest P B M now q w (dh\<lparr>dh_db := d\<rparr>))"
  shows "\<exists>req. received (km_rreq M) q req \<and> validateRetrievalRequest P M req = Inr ()
    \<and> ListMessages B (km_stored M) now (rq_RecipientPubkey req) (dh_db dh) \<noteq> ListMessages B (km_stored M) now (rq_RecipientPubkey req) d"
proof (rule ccontr)
  assume no: "\<not> ?thesis"
  show False
  proof (cases "\<exists>req. received (km_rreq M) q req \<and> validateRetrievalRequest P M req = Inr ()")
    case True
    then obtain req data where "read_frame q = Inr data" "unmarshal (km_rreq M) data = Inr req" "validateRetrievalRequest P M req = Inr ()"
      "ListMessages B (km_stored M) now (rq_RecipientPubkey req) (dh_db dh) = ListMessages B (km_stored M) now (rq_RecipientPubkey req) d"
      using no by (auto simp: received_def)
    then show False using assms by (auto simp: handleRetrievalRequest_def Let_def split: sum.splits prod.splits)
  next
    case False
    then show False using assms by (auto simp: handleRetrievalRequest_def received_def split: sum.splits)
  qed
qed

lemma ack_deletes:
  assumes "kv_ok B view" "view (dh_db (fst (handleAckRequest P B M q w dh))) k \<noteq> view (dh_db dh) k"
  shows "\<exists>req i. received (km_areq M) q req \<and> validateAckRequest P M req = Inr () \<and> i \<in> set (aq_MessageIds req) \<and> k = mbxKey (aq_RecipientPubkey req) i"
proof -
  obtain data req where r: "read_frame q = Inr data" "unmarshal (km_areq M) data = Inr req" "validateAckRequest P M req = Inr ()"
    using assms(2) by (auto simp: handleAckRequest_def split: sum.splits)
  have "dh_db (fst (handleAckRequest P B M q w dh)) = fst (Mailbox_DeleteMessages B (aq_RecipientPubkey req) (aq_MessageIds req) (dh_db dh))"
    using r by (simp add: handleAckRequest_def Let_def split: sum.splits prod.splits)
  then have "view (dh_db (fst (handleAckRequest P B M q w dh))) = apply_writes (map WDel (map (mbxKey (aq_RecipientPubkey req)) (aq_MessageIds req))) (view (dh_db dh))"
    using kv_run(2)[OF assms(1)] by (simp add: Mailbox_DeleteMessages_def comp_def)
  then have "k \<in> mbxKey (aq_RecipientPubkey req) ` set (aq_MessageIds req)"
    using assms(2) by (auto simp: apply_writes_deletes simp del: map_map split: if_splits)
  then show ?thesis using r by (auto simp: received_def)
qed


definition forged_ack :: AcknowledgmentRequest where
  "forged_ack = \<lparr>aq_RecipientPubkey = replicate 32 6, aq_MessageIds = [[7]], aq_Timestamp = 0, aq_RecipientSignature = replicate 64 0\<rparr>"


text \<open>What a deposit does to the node: nothing, or one store and one count.\<close>

lemma StoreMessage_cases:
  assumes "kv_ok B view" "codec_ok K"
  obtains "StoreMessage B K cfg now now2 t i s e ttl d = (d, Inl (Err ''message count limit reached for target''))"
    | d1 where "StoreMessage B K cfg now now2 t i s e ttl d = (d1, Inr ())"
  using StoreMessage_refused[OF assms(1), of cfg t d K now now2 i s e ttl] StoreMessage_view[OF assms, of cfg t d now now2 i s e ttl] by blast

lemma validateDepositRequest_errors:
  "validateDepositRequest P M cfg req = Inl e \<Longrightarrow> length (err_text e) \<le> 100"
  by (auto simp: validateDepositRequest_def split: if_splits sum.splits)

definition rejection :: "u64 \<Rightarrow> string \<Rightarrow> DepositResponse" where
  "rejection rid reason = \<lparr>dp_RequestId = rid, dp_Accepted = False, dp_RejectionReason = reason, dp_StoredUntil = 0, dp_MailboxSignature = []\<rparr>"

definition rejected :: "mailbox_codecs \<Rightarrow> bufio \<Rightarrow> bool" where
  "rejected M w \<longleftrightarrow> w = new_writer \<or> (\<exists>rid reason. length reason \<le> 100 \<and> w = writeErrorResponse M rid reason new_writer)"

lemma rejectedI: "length reason \<le> 100 \<Longrightarrow> rejected M (writeErrorResponse M rid reason new_writer)"
  by (auto simp: rejected_def)

lemma deposit_outcome:
  assumes B: "kv_ok B view" and M: "mailbox_codecs_ok M" and priv: "length (dh_privKey dh) = 64"
    and run: "handleDepositRequest P B M c rnd q new_writer dh = (dh', w)"
  shows "dh' = dh \<and> rejected M w
    \<or> (\<exists>req s d1 i. received (km_dreq M) q req \<and> extractSenderPubkey M (dq_Envelope req) = Some s
        \<and> \<not> isRateLimited (c 0) s (dq_TargetPubkey req) dh
        \<and> StoreMessage B (km_stored M) (dh_storageConfig dh) (c 1) (c 2) (dq_TargetPubkey req) i s (dq_Envelope req)
            (mc_DefaultTtlSeconds (dh_config dh)) (dh_db dh) = (d1, Inr ())
        \<and> dh' = incrementRateLimit (c 3) s (dq_TargetPubkey req) (dh\<lparr>dh_db := d1\<rparr>)
        \<and> bw_out w = frame 1 (enc (km_dresp M) (deposit_response P M (dh_privKey dh) (dq_RequestId req)
            (unix (c 4 + seconds (mc_DefaultTtlSeconds (dh_config dh)))))))"
proof -
  have K: "codec_ok (km_stored M)" "codec_ok (km_dresp M)" using M by (simp_all add: mailbox_codecs_ok_def)
  show ?thesis
  proof (cases "\<exists>req. received (km_dreq M) q req")
    case False
    then show ?thesis using run by (auto simp: handleDepositRequest_def received_def rejected_def intro!: exI split: sum.splits)
  next
    case True
    then obtain data req where rq: "read_frame q = Inr data" "unmarshal (km_dreq M) data = Inr req" "received (km_dreq M) q req"
      by (auto simp: received_def)
    show ?thesis
    proof (cases "validateDepositRequest P M (dh_config dh) req")
      case (Inl e)
      then show ?thesis using run rq validateDepositRequest_errors[OF Inl] by (auto simp: handleDepositRequest_def intro: rejectedI)
    next
      case valid: (Inr u)
      show ?thesis
      proof (cases "extractSenderPubkey M (dq_Envelope req)")
        case None
        then show ?thesis using run rq valid by (auto simp: handleDepositRequest_def intro: rejectedI)
      next
        case (Some s)
        show ?thesis
        proof (cases "isRateLimited (c 0) s (dq_TargetPubkey req) dh")
          case True
          then show ?thesis using run rq valid Some by (auto simp: handleDepositRequest_def intro: rejectedI)
        next
          case free: False
          show ?thesis
          proof (rule StoreMessage_cases[OF B K(1), of "dh_storageConfig dh" "c 1" "c 2" "dq_TargetPubkey req" "extractMessageID P M rnd (dq_Envelope req)" s
              "dq_Envelope req" "mc_DefaultTtlSeconds (dh_config dh)" "dh_db dh"], goal_cases)
            case 1
            then show ?thesis using run rq valid Some free by (auto simp: handleDepositRequest_def intro: rejectedI)
          next
            case (2 d1)
            let ?resp = "deposit_response P M (dh_privKey dh) (dq_RequestId req) (unix (c 4 + seconds (mc_DefaultTtlSeconds (dh_config dh))))"
            obtain w1 where "writeResponse (km_dresp M) 1 ?resp new_writer = (w1, Inr ())" "bw_out (bw_flush w1) = frame 1 (enc (km_dresp M) ?resp)"
              using flushed_response[OF K(2)] by blast
            then have "dh' = incrementRateLimit (c 3) s (dq_TargetPubkey req) (dh\<lparr>dh_db := d1\<rparr>)" "bw_out w = frame 1 (enc (km_dresp M) ?resp)"
              using run rq valid Some free 2 priv
              by (auto simp: handleDepositRequest_def signResponse_def codec_enc[OF K(2)] Sign_def crypto_sizes deposit_response_def Let_def)
            then show ?thesis using rq(3) Some free 2 by blast
          qed
        qed
      qed
    qed
  qed
qed

lemma rejected_silent:
  assumes "codec_ok (km_dresp M)" "\<forall>rid reason. length reason \<le> 100 \<longrightarrow> length (enc (km_dresp M) (rejection rid reason)) + 5 \<le> buffer_size" "rejected M w"
  shows "bw_out w = []"
proof -
  have "bw_out (writeErrorResponse M rid reason new_writer) = []" if "length reason \<le> 100" for rid reason
    using writeResponse_new[OF codec_enc(1)[OF assms(1)], of 1 "rejection rid reason"] assms(2) that
    by (auto simp: writeErrorResponse_def rejection_def)
  then show ?thesis using assms(3) by (auto simp: rejected_def new_writer_def)
qed

lemma handleStream_deposit:
  "handleStream P B M c rnd (1 # q) dh = (fst (handleDepositRequest P B M c rnd q new_writer dh), bw_out (snd (handleDepositRequest P B M c rnd q new_writer dh)))"
  by (simp add: handleStream_def split_beta)

text \<open>A rejected deposit is not answered. When the encoded rejection fits the 4096-byte buffer of the writer, as one
  with a short reason does, a client that deposits a message at a mailbox node sees one of two things: an acceptance, or the end of the stream, with the
  node left unchanged. The error response is written to the buffer and the stream closed without a flush, so the reason never arrives.\<close>

theorem rejection_never_arrives:
  fixes B :: "'d badger" and dh :: "'d DepositHandler"
  assumes B: "kv_ok B view" and M: "mailbox_codecs_ok M" and keys: "length spriv = 64" "length (dh_privKey dh) = 64"
    and opened: "open_stream H peer = Inr (handleStream P B M sc rnd)"
    and small: "\<forall>rid reason. length reason \<le> 100 \<longrightarrow> length (enc (km_dresp M) (rejection rid reason)) + 5 \<le> buffer_size"
    and accept: "\<forall>rid until. fits (km_dresp M) (deposit_response P M (dh_privKey dh) rid until)"
  shows "DepositToMailbox P M H c peer t env spriv dh = (dh, Inl (Wrap ''failed to read response type'' (Err ''EOF'')))
    \<or> (\<exists>dh' resp. DepositToMailbox P M H c peer t env spriv dh = (dh', Inr resp) \<and> dp_Accepted resp)"
proof -
  have K: "codec_ok (km_dreq M)" "codec_ok (km_dresp M)" using M by (simp_all add: mailbox_codecs_ok_def)
  let ?req = "deposit_request P M c t (enc (km_envelope M) env) spriv"
  let ?q = "tl (frame 1 (enc (km_dreq M) ?req))"
  have fr: "frame 1 (enc (km_dreq M) ?req) = 1 # ?q" by (simp add: frame_def)
  obtain dh' w where run: "handleDepositRequest P B M sc rnd ?q new_writer dh = (dh', w)" by fastforce
  have s: "handleStream P B M sc rnd (frame 1 (enc (km_dreq M) ?req)) dh = (dh', bw_out w)"
    by (subst fr) (simp add: handleStream_deposit run)
  have call: "DepositToMailbox P M H c peer t env spriv dh = exchange (km_dreq M) (km_dresp M) 1 ?req (handleStream P B M sc rnd) dh"
    by (rule client_calls(1)[OF M keys(1) opened])
  from deposit_outcome[OF B M keys(2) run] show ?thesis
  proof (elim disjE exE conjE, goal_cases)
    case 1
    then show ?case using rejected_silent[OF K(2) small] s by (simp add: call exchange_sends[OF codec_enc(1)[OF K(1)]])
  next
    case (2 req s' d1 i)
    let ?resp = "deposit_response P M (dh_privKey dh) (dq_RequestId req) (unix (sc 4 + seconds (mc_DefaultTtlSeconds (dh_config dh))))"
    have "DepositToMailbox P M H c peer t env spriv dh = (dh', Inr ?resp)"
      unfolding call using accept s 2(6) by (intro exchange_served K) simp_all
    then show ?case by (simp add: deposit_response_def Let_def)
  qed
qed

theorem rejection_never_arrives_witness:
  "DepositToMailbox toy mailbox_ref (host_of (handleStream toy alist_db mailbox_ref (\<lambda>_. 0) (Inr []))) (\<lambda>_. 0) ''peer''
     (replicate 32 6) (example_envelope\<lparr>be_SenderIdentity := replicate 32 4\<rparr>) (replicate 64 5) (example_node\<lparr>dh_config := defaultConfig\<lparr>mc_MaxMessageSize := 0\<rparr>\<rparr>) =
   (example_node\<lparr>dh_config := defaultConfig\<lparr>mc_MaxMessageSize := 0\<rparr>\<rparr>, Inl (Wrap ''failed to read response type'' (Err ''EOF'')))"
proof -
  let ?dh = "example_node\<lparr>dh_config := defaultConfig\<lparr>mc_MaxMessageSize := 0\<rparr>\<rparr>" and ?env = "example_envelope\<lparr>be_SenderIdentity := replicate 32 4\<rparr>"
  let ?H = "host_of (handleStream toy alist_db mailbox_ref (\<lambda>_. 0) (Inr []))"
  have priv: "length (dh_privKey ?dh) = 64" by (simp add: example_node_def NewDepositHandler_def)
  have K: "codec_ok (km_dreq mailbox_ref)" "codec_ok (km_envelope mailbox_ref)" "codec_ok (km_dresp mailbox_ref)"
    using mailbox_ref_ok by (simp_all add: mailbox_codecs_ok_def)
  have small: "\<forall>rid reason. length reason \<le> 100 \<longrightarrow> length (enc (km_dresp mailbox_ref) (rejection rid reason)) + 5 \<le> buffer_size"
    by (simp add: frame_sizes ser_DepositResponse_def rejection_def put_string_length buffer_size_def)
  have acc: "\<forall>rid until. fits (km_dresp mailbox_ref) (deposit_response toy mailbox_ref (dh_privKey ?dh) rid until)"
    by (simp add: deposit_response_def frame_sizes ser_DepositResponse_def)
  let ?req = "deposit_request toy mailbox_ref (\<lambda>_. 0) (replicate 32 6) (enc (km_envelope mailbox_ref) ?env) (replicate 64 5)"
  have sz: "length (enc (km_envelope mailbox_ref) ?env) = 167" by (simp add: frame_sizes ser_BabylonEnvelope_def example_envelope_def)
  have "fits (km_dreq mailbox_ref) ?req"
    using sz by (simp add: deposit_request_def fits_def enc_def[of "km_dreq mailbox_ref"]) (simp add: mailbox_ref_def codec_of_def ser_DepositRequest_def
      s_iso_def s_pair_def s_u64_def put_bytes_length min_def Let_def)
  then have fr: "read_frame (tl (frame 1 (enc (km_dreq mailbox_ref) ?req))) = Inr (enc (km_dreq mailbox_ref) ?req)"
    by (simp add: frame_def fits_def read_frame_frame)
  have "validateDepositRequest toy mailbox_ref (dh_config ?dh) ?req = Inl (Err ''envelope too large'')"
    using sz by (simp add: validateDepositRequest_def deposit_request_def Let_def)
  then have "fst (handleStream toy alist_db mailbox_ref (\<lambda>_. 0) (Inr []) (frame 1 (enc (km_dreq mailbox_ref) ?req)) ?dh) = ?dh
      \<and> snd (handleStream toy alist_db mailbox_ref (\<lambda>_. 0) (Inr []) (frame 1 (enc (km_dreq mailbox_ref) ?req)) ?dh) = []"
    using fr rejected_silent[OF K(3) small rejectedI[of "''envelope too large''"]]
    by (simp add: handleStream_frame handleDepositRequest_def codec_enc[OF K(1)])
  then have "\<not> is_ok (snd (DepositToMailbox toy mailbox_ref ?H (\<lambda>_. 0) ''peer'' (replicate 32 6) ?env (replicate 64 5) ?dh))"
    unfolding client_calls(1)[OF mailbox_ref_ok length_replicate open_host_of] exchange_sends[OF codec_enc(1)[OF K(1)]]
    by (simp add: split_beta)
  then show ?thesis
    using rejection_never_arrives[OF alist_db_ok mailbox_ref_ok length_replicate[of 64 5] priv open_host_of small acc,
      where sc = "\<lambda>_. 0" and rnd = "Inr []" and c = "\<lambda>_. 0" and peer = "''peer''" and t = "replicate 32 6" and env = ?env]
    by fastforce
qed

section \<open>The hourly rate\<close>

lemma rate_entry_increment:
  "rate_entry s t (incrementRateLimit now s' t' dh) =
    (if s = s' \<and> t = t' then Some \<lparr>re_count = (case rate_entry s t dh of None \<Rightarrow> 1
        | Some x \<Rightarrow> if re_hourBucket x = hour_bucket now then re_count x + 1 else 1), re_hourBucket = hour_bucket now\<rparr>
     else rate_entry s t dh)"
  by (auto simp: rate_entry_def incrementRateLimit_def Let_def split: option.splits)

lemma handleAck_fields:
  "dh_config (fst (handleAckRequest P B M q w dh)) = dh_config dh" "dh_privKey (fst (handleAckRequest P B M q w dh)) = dh_privKey dh"
  "dh_rateLimit (fst (handleAckRequest P B M q w dh)) = dh_rateLimit dh"
  by (simp_all add: handleAckRequest_def Let_def split: sum.splits prod.splits)

lemma handleStream_rate:
  assumes "kv_ok B view" "mailbox_codecs_ok M" "length (dh_privKey dh) = 64"
  shows "dh_rateLimit (fst (handleStream P B M c rnd input dh)) = dh_rateLimit dh
    \<or> (\<exists>s t d1. \<not> isRateLimited (c 0) s t dh \<and> fst (handleStream P B M c rnd input dh) = incrementRateLimit (c 3) s t (dh\<lparr>dh_db := d1\<rparr>))"
proof (cases input)
  case Nil
  then show ?thesis by (simp add: handleStream_def)
next
  case (Cons ty q)
  consider "ty = 1" | "ty = 3" | "ty \<noteq> 1" "ty \<noteq> 3" by blast
  then show ?thesis
  proof cases
    case 1
    obtain dh' w where run: "handleDepositRequest P B M c rnd q new_writer dh = (dh', w)" by fastforce
    then show ?thesis using deposit_outcome[OF assms run] 1 Cons by (auto simp: handleStream_deposit)
  next
    case 2
    then show ?thesis using Cons handleAck_fields(3)[of P B M q new_writer dh] by (simp add: handleStream_def split_beta)
  next
    case 3
    then show ?thesis using Cons retrieval_state[of P B M "c 0" q new_writer dh] by (auto simp: handleStream_def split: prod.splits)
  qed
qed

lemma handleStream_config:
  assumes "kv_ok B view" "mailbox_codecs_ok M" "length (dh_privKey dh) = 64"
  shows "dh_config (fst (handleStream P B M c rnd input dh)) = dh_config dh \<and> dh_privKey (fst (handleStream P B M c rnd input dh)) = dh_privKey dh"
proof (cases input)
  case Nil
  then show ?thesis by (simp add: handleStream_def)
next
  case (Cons ty q)
  obtain dh' w where run: "handleDepositRequest P B M c rnd q new_writer dh = (dh', w)" by fastforce
  have "dh_config dh' = dh_config dh \<and> dh_privKey dh' = dh_privKey dh" using deposit_outcome[OF assms run] by auto
  then show ?thesis using Cons run handleAck_fields[of P B M q new_writer dh] retrieval_state[of P B M "c 0" q new_writer dh]
    by (simp add: handleStream_def split_beta)
qed

text \<open>The streams among a sequence that are counted for a sender and a recipient.\<close>

fun counted :: "prims \<Rightarrow> 'd badger \<Rightarrow> mailbox_codecs \<Rightarrow> bytes \<Rightarrow> bytes \<Rightarrow> ((nat \<Rightarrow> time) \<times> bytes res \<times> bytes) list \<Rightarrow> 'd DepositHandler \<Rightarrow> nat" where
  "counted P B M s t [] dh = 0"
| "counted P B M s t ((c, rnd, input) # xs) dh =
     (let dh' = fst (handleStream P B M c rnd input dh)
      in (if rate_entry s t dh' \<noteq> rate_entry s t dh then 1 else 0) + counted P B M s t xs dh')"

definition used :: "int \<Rightarrow> bytes \<Rightarrow> bytes \<Rightarrow> 'd DepositHandler \<Rightarrow> nat" where
  "used h s t dh = (case rate_entry s t dh of None \<Rightarrow> 0 | Some x \<Rightarrow> if re_hourBucket x = h then unat (re_count x) else 0)"

lemma used_step:
  assumes "kv_ok B view" "mailbox_codecs_ok M" "length (dh_privKey dh) = 64" "\<forall>i. hour_bucket (c i) = h"
  shows "(let dh' = fst (handleStream P B M c rnd input dh) in
    if rate_entry s t dh' \<noteq> rate_entry s t dh
    then used h s t dh' = Suc (used h s t dh) \<and> used h s t dh' \<le> max 1 (unat (mc_DepositRateLimit (dh_config dh)))
    else used h s t dh' = used h s t dh)"
  using handleStream_rate[OF assms(1-3), of P c rnd input]
proof (elim disjE exE conjE, goal_cases)
  case 1
  then show ?case by (simp add: rate_entry_def used_def Let_def)
next
  case (2 s' t' d1)
  show ?case
  proof (cases "s = s' \<and> t = t'")
    case False
    then show ?thesis using 2(2) by (auto simp: rate_entry_increment used_def Let_def rate_entry_def[of s t "dh\<lparr>dh_db := d1\<rparr>"] rate_entry_def[of s t dh])
  next
    case True
    have same: "rate_entry s t (dh\<lparr>dh_db := d1\<rparr>) = rate_entry s t dh" by (simp add: rate_entry_def)
    show ?thesis
    proof (cases "rate_entry s t dh")
      case None
      then show ?thesis using 2(2) True assms(4) same by (simp add: rate_entry_increment used_def Let_def)
    next
      case (Some x)
      have lim: "re_hourBucket x = h \<Longrightarrow> re_count x < mc_DepositRateLimit (dh_config dh)"
        using 2(1) Some True assms(4) by (auto simp: isRateLimited_def)
      then have "re_hourBucket x = h \<Longrightarrow> unat (re_count x + 1) = Suc (unat (re_count x)) \<and> Suc (unat (re_count x)) \<le> unat (mc_DepositRateLimit (dh_config dh))"
        by (simp add: unat_Suc_less u_less_unat Suc_le_eq)
      moreover have "x \<noteq> \<lparr>re_count = re_count x + 1, re_hourBucket = h\<rparr>" by (metis add_cancel_left_right rateLimitEntry.select_convs(1) zero_neq_one)
      moreover have "re_hourBucket x \<noteq> h \<Longrightarrow> x \<noteq> \<lparr>re_count = 1, re_hourBucket = h\<rparr>" by auto
      ultimately show ?thesis using 2(2) True assms(4) Some same by (auto simp: rate_entry_increment used_def Let_def)
    qed
  qed
qed

lemma counted_used:
  assumes "kv_ok B view" "mailbox_codecs_ok M" "\<forall>(c, _)\<in>set xs. \<forall>i. hour_bucket (c i) = h" "length (dh_privKey dh) = 64"
    "used h s t dh \<le> max 1 (unat (mc_DepositRateLimit (dh_config dh)))"
  shows "used h s t dh + counted P B M s t xs dh \<le> max 1 (unat (mc_DepositRateLimit (dh_config dh)))"
  using assms(3-5)
proof (induction xs arbitrary: dh)
  case (Cons x xs)
  obtain c rnd input where x: "x = (c, rnd, input)" by (cases x)
  let ?dh' = "fst (handleStream P B M c rnd input dh)"
  have hc: "\<forall>i. hour_bucket (c i) = h" using Cons.prems(1) x by auto
  note step = used_step[OF assms(1,2) Cons.prems(2) hc, of P rnd input s t]
  have "used h s t ?dh' + counted P B M s t xs ?dh' \<le> max 1 (unat (mc_DepositRateLimit (dh_config dh)))"
    using Cons.IH[of ?dh'] Cons.prems handleStream_config[OF assms(1,2) Cons.prems(2), of P c rnd input] step by (auto simp: Let_def split: if_splits)
  then show ?case using step x by (auto simp: Let_def split: if_splits)
qed simp

lemma increment_counts: "rate_entry s t (incrementRateLimit now s t dh) \<noteq> rate_entry s t dh"
proof (cases "rate_entry s t dh")
  case (Some x)
  have "x \<noteq> \<lparr>re_count = re_count x + 1, re_hourBucket = hour_bucket now\<rparr>" by (metis add_cancel_left_right rateLimitEntry.select_convs(1) zero_neq_one)
  then show ?thesis using Some by (auto simp: rate_entry_increment)
qed (simp add: rate_entry_increment)

lemma StoreMessage_touches:
  assumes B: "kv_ok B view" and K: "codec_ok K" and "StoreMessage B K cfg now now2 t i s e ttl d = (d1, Inr ())" "view d1 (mbxKey t' i') \<noteq> view d (mbxKey t' i')"
  shows "t' = t"
proof -
  have "\<not> at_limit cfg t (view d)" using StoreMessage_refused[OF B, of cfg t d] assms(3) by auto
  then obtain ks b m where v: "\<forall>k\<in>set ks. prefix (mbxPrefix t) k"
    "view d1 = (apply_writes (map WDel ks) (view d))(mbxKey t i \<mapsto> b, metaKey t \<mapsto> print_metadata m)"
    using StoreMessage_view[OF B K, of cfg t d now now2 i s e ttl] assms(3) by auto
  then show ?thesis using assms(4) mbx_prefix_iff by (auto simp: apply_writes_deletes split: if_splits)
qed



end
