(* ===== verification/MailboxNode.thy ===== *)
theory MailboxNode
  imports Mailbox
begin

text \<open>
  \<open>pkg/mailbox/announcement.go\<close> and \<open>manager.go\<close>: how mailbox nodes are announced in and found through the DHT, and the manager that ties storage,
  protocol and announcements together. The DHT is the record \<open>mailbox_dht\<close> over its own state (\<open>None\<close> from \<open>GetValue\<close> is \<open>routing.ErrNotFound\<close>),
  other nodes are reached through the streams of \<open>Mailbox\<close>. The storage is the one of the deposit handler, which the manager shares. The timers that
  call \<open>republishAll\<close> and \<open>CleanupExpired\<close> are not part of the model.
\<close>

section \<open>Announcements\<close>

record MailboxAnnouncement =
  an_MailboxPeerId :: bytes
  an_TargetPubkey :: bytes
  an_CapacityBytes :: u64
  an_MaxMessageSize :: u64
  an_MaxMessages :: u32
  an_TtlSeconds :: u64
  an_AnnouncedAt :: u64
  an_Signature :: bytes
  an_Capabilities :: "string list"
  an_ReputationScore :: u64

record 'h mailbox_dht =
  md_PutValue :: "string \<Rightarrow> bytes \<Rightarrow> 'h \<Rightarrow> ('h, unit) eff"
  md_GetValue :: "string \<Rightarrow> 'h \<Rightarrow> bytes option res"

record AnnouncementManager =
  am_hostID :: bytes
  am_privKey :: bytes
  am_announcements :: "(string, MailboxAnnouncement) gomap"

definition MailboxDHTPrefix :: string where "MailboxDHTPrefix = ''bt-mailbox-v1:''"

definition NewAnnouncementManager :: "bytes \<Rightarrow> bytes \<Rightarrow> AnnouncementManager" where
  "NewAnnouncementManager hostID priv = \<lparr>am_hostID = hostID, am_privKey = priv, am_announcements = []\<rparr>"

definition dhtKeyForTarget :: "prims \<Rightarrow> bytes \<Rightarrow> string" where
  "dhtKeyForTarget P targetPubkey = ''/bt/mailbox/'' @ hex_encode (sha256 P (str_bytes MailboxDHTPrefix @ targetPubkey))"

definition unsigned_announcement :: "MailboxAnnouncement \<Rightarrow> MailboxAnnouncement" where
  "unsigned_announcement a = a\<lparr>an_Signature := []\<rparr>"

definition signAnnouncement :: "prims \<Rightarrow> MailboxAnnouncement codec \<Rightarrow> AnnouncementManager \<Rightarrow> MailboxAnnouncement \<Rightarrow> bytes res" where
  "signAnnouncement P K am a = rbind (marshal K (unsigned_announcement a)) (\<lambda>data. Sign P (am_privKey am) data)"

text \<open>The signer's key is not part of an announcement: it is checked against the key of the target, when that has the size of a key.\<close>

definition verifyAnnouncementSignature :: "prims \<Rightarrow> MailboxAnnouncement codec \<Rightarrow> MailboxAnnouncement \<Rightarrow> bool" where
  "verifyAnnouncementSignature P K a =
     (if an_Signature a = [] then False
      else case marshal K (unsigned_announcement a) of
        Inl _ \<Rightarrow> False
      | Inr data \<Rightarrow> if length (an_TargetPubkey a) = PublicKeySize then Verify P (an_TargetPubkey a) data (an_Signature a) else True)"

definition new_announcement :: "time \<Rightarrow> bytes \<Rightarrow> bytes \<Rightarrow> MailboxConfig \<Rightarrow> MailboxAnnouncement" where
  "new_announcement now hostID targetPubkey config = \<lparr>an_MailboxPeerId = hostID, an_TargetPubkey = targetPubkey, an_CapacityBytes = mc_MaxTotalBytesPerTarget config,
     an_MaxMessageSize = mc_MaxMessageSize config, an_MaxMessages = mc_MaxMessagesPerTarget config, an_TtlSeconds = mc_DefaultTtlSeconds config,
     an_AnnouncedAt = unix now, an_Signature = [], an_Capabilities = [''mailbox-v1''], an_ReputationScore = 100\<rparr>"

definition AnnounceMailbox :: "prims \<Rightarrow> MailboxAnnouncement codec \<Rightarrow> 'h mailbox_dht \<Rightarrow> time \<Rightarrow> bytes \<Rightarrow> MailboxConfig \<Rightarrow>
    AnnouncementManager \<times> 'h \<Rightarrow> (AnnouncementManager \<times> 'h, MailboxAnnouncement) eff" where
  "AnnounceMailbox P K D now targetPubkey config amh =
     (case amh of (am, h) \<Rightarrow>
        let a = new_announcement now (am_hostID am) targetPubkey config
        in case signAnnouncement P K am a of
             Inl e \<Rightarrow> (amh, Inl (Wrap ''failed to sign announcement'' e))
           | Inr signature \<Rightarrow>
               let a1 = a\<lparr>an_Signature := signature\<rparr>;
                   am1 = am\<lparr>am_announcements := gm_set (hex_encode targetPubkey) a1 (am_announcements am)\<rparr>
               in (case marshal K a1 of
                     Inl e \<Rightarrow> ((am1, h), Inl (Wrap ''failed to marshal announcement'' e))
                   | Inr data \<Rightarrow> (case md_PutValue D (dhtKeyForTarget P targetPubkey) data h of
                       (h1, Inl e) \<Rightarrow> ((am1, h1), Inl (Wrap ''failed to publish announcement to DHT'' e))
                     | (h1, Inr _) \<Rightarrow> ((am1, h1), Inr a1))))"

definition FindMailboxes :: "prims \<Rightarrow> MailboxAnnouncement codec \<Rightarrow> 'h mailbox_dht \<Rightarrow> bytes \<Rightarrow> 'h \<Rightarrow> MailboxAnnouncement list res" where
  "FindMailboxes P K D targetPubkey h =
     (case md_GetValue D (dhtKeyForTarget P targetPubkey) h of
        Inl e \<Rightarrow> Inl (Wrap ''failed to fetch from DHT'' e)
      | Inr None \<Rightarrow> Inr []
      | Inr (Some value) \<Rightarrow> (case unmarshal K value of
          Inl e \<Rightarrow> Inl (Wrap ''failed to unmarshal announcement'' e)
        | Inr a \<Rightarrow> if \<not> verifyAnnouncementSignature P K a then Inl (Err ''invalid announcement signature'') else Inr [a]))"

definition Announcement_GetAnnouncement :: "bytes \<Rightarrow> AnnouncementManager \<Rightarrow> MailboxAnnouncement option" where
  "Announcement_GetAnnouncement targetPubkey am = gm_get (am_announcements am) (hex_encode targetPubkey)"

definition RemoveAnnouncement :: "bytes \<Rightarrow> AnnouncementManager \<Rightarrow> AnnouncementManager" where
  "RemoveAnnouncement targetPubkey am = am\<lparr>am_announcements := gm_del (hex_encode targetPubkey) (am_announcements am)\<rparr>"

text \<open>The loop of \<open>republishAll\<close> changes the announcements in place; \<open>c i\<close> is the clock at the \<open>i\<close>-th turn.\<close>

fun republish_loop :: "prims \<Rightarrow> MailboxAnnouncement codec \<Rightarrow> 'h mailbox_dht \<Rightarrow> (nat \<Rightarrow> time) \<Rightarrow> nat \<Rightarrow> string list \<Rightarrow> AnnouncementManager \<times> 'h \<Rightarrow> AnnouncementManager \<times> 'h" where
  "republish_loop P K D c i [] amh = amh"
| "republish_loop P K D c i (k # ks) (am, h) =
     (case gm_get (am_announcements am) k of
        None \<Rightarrow> republish_loop P K D c (Suc i) ks (am, h)
      | Some a \<Rightarrow>
          let a1 = a\<lparr>an_AnnouncedAt := unix (c i)\<rparr>
          in case signAnnouncement P K am a1 of
               Inl _ \<Rightarrow> republish_loop P K D c (Suc i) ks (am\<lparr>am_announcements := gm_set k a1 (am_announcements am)\<rparr>, h)
             | Inr signature \<Rightarrow>
                 let a2 = a1\<lparr>an_Signature := signature\<rparr>;
                     am2 = am\<lparr>am_announcements := gm_set k a2 (am_announcements am)\<rparr>
                 in (case marshal K a2 of
                       Inl _ \<Rightarrow> republish_loop P K D c (Suc i) ks (am2, h)
                     | Inr data \<Rightarrow> republish_loop P K D c (Suc i) ks (am2, fst (md_PutValue D (dhtKeyForTarget P (an_TargetPubkey a2)) data h))))"

definition republishAll :: "prims \<Rightarrow> MailboxAnnouncement codec \<Rightarrow> 'h mailbox_dht \<Rightarrow> (nat \<Rightarrow> time) \<Rightarrow> AnnouncementManager \<times> 'h \<Rightarrow> AnnouncementManager \<times> 'h" where
  "republishAll P K D c amh = republish_loop P K D c 0 (map fst (am_announcements (fst amh))) amh"

section \<open>The manager\<close>

record mailbox_options =
  mo_Enabled :: bool
  mo_MaxMessagesPerTarget :: u32
  mo_MaxMessageSize :: u64
  mo_MaxTotalBytesPerTarget :: u64
  mo_DefaultTTLSeconds :: u64
  mo_DepositRateLimit :: u32
  mo_EnableContentRouting :: bool

definition Mailbox_DefaultConfig :: mailbox_options where
  "Mailbox_DefaultConfig = \<lparr>mo_Enabled = True, mo_MaxMessagesPerTarget = 500, mo_MaxMessageSize = 262144, mo_MaxTotalBytesPerTarget = 67108864,
     mo_DefaultTTLSeconds = 604800, mo_DepositRateLimit = 100, mo_EnableContentRouting = False\<rparr>"

record 'd Manager =
  mm_pubKey :: bytes
  mm_privKey :: bytes
  mm_handler :: "'d DepositHandler"
  mm_config :: MailboxConfig
  mm_announcement :: "AnnouncementManager option"
  mm_isMailbox :: bool

definition proto_config :: "mailbox_options \<Rightarrow> MailboxConfig" where
  "proto_config config = \<lparr>mc_MaxMessagesPerTarget = mo_MaxMessagesPerTarget config, mc_MaxMessageSize = mo_MaxMessageSize config,
     mc_MaxTotalBytesPerTarget = mo_MaxTotalBytesPerTarget config, mc_DefaultTtlSeconds = mo_DefaultTTLSeconds config,
     mc_DepositRateLimit = mo_DepositRateLimit config, mc_EnableContentRouting = mo_EnableContentRouting config\<rparr>"

definition NewManager :: "bytes \<Rightarrow> bytes \<Rightarrow> bytes \<Rightarrow> 'd \<Rightarrow> mailbox_options \<Rightarrow> 'd Manager" where
  "NewManager hostID pub priv db config =
     \<lparr>mm_pubKey = pub, mm_privKey = priv, mm_handler = NewDepositHandler db (proto_config config) priv, mm_config = proto_config config,
      mm_announcement = (if mo_Enabled config then Some (NewAnnouncementManager hostID priv) else None), mm_isMailbox = mo_Enabled config\<rparr>"

definition Manager_Start :: "prims \<Rightarrow> MailboxAnnouncement codec \<Rightarrow> 'h mailbox_dht \<Rightarrow> time \<Rightarrow> 'd Manager \<times> 'h \<Rightarrow> ('d Manager \<times> 'h, unit) eff" where
  "Manager_Start P K D now mh =
     (case mh of (m, h) \<Rightarrow>
        if \<not> mm_isMailbox m then (mh, Inr ())
        else case mm_announcement m of
          None \<Rightarrow> (mh, Inl (Panic ''nil pointer dereference''))
        | Some am \<Rightarrow> (case AnnounceMailbox P K D now (mm_pubKey m) (mm_config m) (am, h) of
            ((am1, h1), Inl e) \<Rightarrow> ((m\<lparr>mm_announcement := Some am1\<rparr>, h1), Inl (Wrap ''failed to announce mailbox'' e))
          | ((am1, h1), Inr _) \<Rightarrow> ((m\<lparr>mm_announcement := Some am1\<rparr>, h1), Inr ())))"

definition findMailboxNodes :: "prims \<Rightarrow> MailboxAnnouncement codec \<Rightarrow> 'h mailbox_dht \<Rightarrow> bytes \<Rightarrow> 'd Manager \<Rightarrow> 'h \<Rightarrow> MailboxAnnouncement list res" where
  "findMailboxNodes P K D targetPubkey m h = (case mm_announcement m of None \<Rightarrow> Inr [] | Some _ \<Rightarrow> FindMailboxes P K D targetPubkey h)"

fun panics :: "go_error \<Rightarrow> bool" where
  "panics (Err s) = False"
| "panics (Wrap s e) = panics e"
| "panics (Panic s) = True"

text \<open>\<open>string(b)\<close>: the bytes as they are.\<close>

definition string_of_bytes :: "bytes \<Rightarrow> string" where "string_of_bytes b = map (\<lambda>x. char_of (unat x)) b"

text \<open>The loop of \<open>DepositMessage\<close> over the first three nodes; \<open>c i\<close> gives the clock of the \<open>i\<close>-th attempt. A panic ends the call.\<close>

fun deposit_loop :: "prims \<Rightarrow> mailbox_codecs \<Rightarrow> 's mailbox_host \<Rightarrow> (nat \<Rightarrow> nat \<Rightarrow> time) \<Rightarrow> nat \<Rightarrow> MailboxAnnouncement list \<Rightarrow> go_error option \<Rightarrow> bytes \<Rightarrow> BabylonEnvelope \<Rightarrow>
    bytes \<Rightarrow> 's \<Rightarrow> ('s, unit) eff" where
  "deposit_loop P M H c i [] lastErr recipient envelope priv s =
     (s, Inl (case lastErr of Some e \<Rightarrow> e | None \<Rightarrow> Err ''failed to deposit to any mailbox''))"
| "deposit_loop P M H c i (a # as) lastErr recipient envelope priv s =
     (case DepositToMailbox P M H (c i) (string_of_bytes (an_MailboxPeerId a)) recipient envelope priv s of
        (s1, Inl e) \<Rightarrow> if panics e then (s1, Inl e) else deposit_loop P M H c (Suc i) as (Some e) recipient envelope priv s1
      | (s1, Inr resp) \<Rightarrow> if dp_Accepted resp then (s1, Inr ()) else deposit_loop P M H c (Suc i) as lastErr recipient envelope priv s1)"

definition DepositMessage :: "prims \<Rightarrow> mailbox_codecs \<Rightarrow> MailboxAnnouncement codec \<Rightarrow> 'h mailbox_dht \<Rightarrow> 's mailbox_host \<Rightarrow> (nat \<Rightarrow> nat \<Rightarrow> time) \<Rightarrow> bytes \<Rightarrow> BabylonEnvelope \<Rightarrow>
    'd Manager \<Rightarrow> 'h \<Rightarrow> 's \<Rightarrow> ('s, unit) eff" where
  "DepositMessage P M K D H c recipientPubkey envelope m h s =
     (case findMailboxNodes P K D recipientPubkey m h of
        Inl e \<Rightarrow> (s, Inl (Wrap ''failed to find mailboxes'' e))
      | Inr mailboxes \<Rightarrow>
          if mailboxes = [] then (s, Inl (Err ''no mailbox nodes available for recipient''))
          else deposit_loop P M H c 0 (take 3 mailboxes) None recipientPubkey envelope (mm_privKey m) s)"

text \<open>Envelopes that do not parse are skipped.\<close>

definition parse_envelopes :: "mailbox_codecs \<Rightarrow> bytes list \<Rightarrow> BabylonEnvelope list" where
  "parse_envelopes M bs = List.map_filter (\<lambda>b. case unmarshal (km_envelope M) b of Inl _ \<Rightarrow> None | Inr e \<Rightarrow> Some e) bs"

fun retrieve_loop :: "prims \<Rightarrow> mailbox_codecs \<Rightarrow> 's mailbox_host \<Rightarrow> (nat \<Rightarrow> time) \<Rightarrow> (nat \<Rightarrow> bytes res) \<Rightarrow> nat \<Rightarrow> MailboxAnnouncement list \<Rightarrow>
    BabylonEnvelope list \<Rightarrow> bytes list \<Rightarrow> bytes \<Rightarrow> bytes \<Rightarrow> 's \<Rightarrow> ('s, BabylonEnvelope list \<times> bytes list) eff" where
  "retrieve_loop P M H c rnd i [] envs ids pub priv s = (s, Inr (envs, ids))"
| "retrieve_loop P M H c rnd i (a # as) envs ids pub priv s =
     (case RetrieveFromMailbox P M H (c i) (rnd i) (string_of_bytes (an_MailboxPeerId a)) pub priv s of
        (s1, Inl e) \<Rightarrow> if panics e then (s1, Inl e) else retrieve_loop P M H c rnd (Suc i) as envs ids pub priv s1
      | (s1, Inr resp) \<Rightarrow> retrieve_loop P M H c rnd (Suc i) as (envs @ parse_envelopes M (rp_Envelopes resp)) (ids @ rp_MessageIds resp) pub priv s1)"

fun ack_loop :: "prims \<Rightarrow> mailbox_codecs \<Rightarrow> 's mailbox_host \<Rightarrow> (nat \<Rightarrow> time) \<Rightarrow> nat \<Rightarrow> MailboxAnnouncement list \<Rightarrow> bytes list \<Rightarrow> bytes \<Rightarrow> bytes \<Rightarrow> 's \<Rightarrow> ('s, unit) eff" where
  "ack_loop P M H c i [] ids pub priv s = (s, Inr ())"
| "ack_loop P M H c i (a # as) ids pub priv s =
     (case AcknowledgeMessages P M H (c i) (string_of_bytes (an_MailboxPeerId a)) pub priv ids s of
        (s1, Inl e) \<Rightarrow> if panics e then (s1, Inl e) else ack_loop P M H c (Suc i) as ids pub priv s1
      | (s1, Inr _) \<Rightarrow> ack_loop P M H c (Suc i) as ids pub priv s1)"

text \<open>A call on a nil announcement manager panics when it reads the DHT of it.\<close>

definition ownMailboxes :: "prims \<Rightarrow> MailboxAnnouncement codec \<Rightarrow> 'h mailbox_dht \<Rightarrow> 'd Manager \<Rightarrow> 'h \<Rightarrow> MailboxAnnouncement list res" where
  "ownMailboxes P K D m h = (case mm_announcement m of None \<Rightarrow> Inl (Panic ''nil pointer dereference'') | Some _ \<Rightarrow> FindMailboxes P K D (mm_pubKey m) h)"

definition retrieveFromRemoteMailboxes :: "prims \<Rightarrow> mailbox_codecs \<Rightarrow> MailboxAnnouncement codec \<Rightarrow> 'h mailbox_dht \<Rightarrow> 's mailbox_host \<Rightarrow> (nat \<Rightarrow> time) \<Rightarrow> (nat \<Rightarrow> bytes res) \<Rightarrow>
    'd Manager \<Rightarrow> 'h \<Rightarrow> 's \<Rightarrow> ('s, BabylonEnvelope list) eff" where
  "retrieveFromRemoteMailboxes P M K D H c rnd m h s =
     (case ownMailboxes P K D m h of
        Inl e \<Rightarrow> (s, Inl e)
      | Inr mailboxes \<Rightarrow>
          if mailboxes = [] then (s, Inr [])
          else (case retrieve_loop P M H c rnd 0 mailboxes [] [] (mm_pubKey m) (mm_privKey m) s of
              (s1, Inl e) \<Rightarrow> (s1, Inl e)
            | (s1, Inr (envs, ids)) \<Rightarrow>
                if ids = [] then (s1, Inr envs)
                else (case ack_loop P M H c (length mailboxes) mailboxes ids (mm_pubKey m) (mm_privKey m) s1 of
                    (s2, Inl e) \<Rightarrow> (s2, Inl e)
                  | (s2, Inr _) \<Rightarrow> (s2, Inr envs))))"

definition RetrieveMessages :: "prims \<Rightarrow> 'd badger \<Rightarrow> mailbox_codecs \<Rightarrow> MailboxAnnouncement codec \<Rightarrow> 'h mailbox_dht \<Rightarrow> 's mailbox_host \<Rightarrow> (nat \<Rightarrow> time) \<Rightarrow> (nat \<Rightarrow> bytes res) \<Rightarrow>
    'd Manager \<Rightarrow> 'h \<Rightarrow> 's \<Rightarrow> ('s, BabylonEnvelope list) eff" where
  "RetrieveMessages P B M K D H c rnd m h s =
     (if \<not> mm_isMailbox m then retrieveFromRemoteMailboxes P M K D H c rnd m h s
      else (s, rbind (ListMessages B (km_stored M) (c 0) (mm_pubKey m) (dh_db (mm_handler m))) (\<lambda>messages.
             Inr (parse_envelopes M (map sd_Envelope messages)))))"

definition acknowledgeOnRemoteMailboxes :: "prims \<Rightarrow> mailbox_codecs \<Rightarrow> MailboxAnnouncement codec \<Rightarrow> 'h mailbox_dht \<Rightarrow> 's mailbox_host \<Rightarrow> (nat \<Rightarrow> time) \<Rightarrow> bytes list \<Rightarrow>
    'd Manager \<Rightarrow> 'h \<Rightarrow> 's \<Rightarrow> ('s, unit) eff" where
  "acknowledgeOnRemoteMailboxes P M K D H c messageIDs m h s =
     (case ownMailboxes P K D m h of
        Inl e \<Rightarrow> (s, Inl e)
      | Inr mailboxes \<Rightarrow> ack_loop P M H c 0 mailboxes messageIDs (mm_pubKey m) (mm_privKey m) s)"

definition Manager_AcknowledgeMessages :: "prims \<Rightarrow> 'd badger \<Rightarrow> mailbox_codecs \<Rightarrow> MailboxAnnouncement codec \<Rightarrow> 'h mailbox_dht \<Rightarrow> 's mailbox_host \<Rightarrow> (nat \<Rightarrow> time) \<Rightarrow> bytes list \<Rightarrow>
    'h \<Rightarrow> 'd Manager \<times> 's \<Rightarrow> ('d Manager \<times> 's, unit) eff" where
  "Manager_AcknowledgeMessages P B M K D H c messageIDs h ms =
     (case ms of (m, s) \<Rightarrow>
        if \<not> mm_isMailbox m then (case acknowledgeOnRemoteMailboxes P M K D H c messageIDs m h s of (s1, r) \<Rightarrow> ((m, s1), r))
        else (case Mailbox_DeleteMessages B (mm_pubKey m) messageIDs (dh_db (mm_handler m)) of
            (d, r) \<Rightarrow> ((m\<lparr>mm_handler := (mm_handler m)\<lparr>dh_db := d\<rparr>\<rparr>, s), r)))"

definition Manager_GetStats :: "'d badger \<Rightarrow> 'd Manager \<Rightarrow> MailboxStats res" where
  "Manager_GetStats B m =
     (if \<not> mm_isMailbox m then Inr \<lparr>st_TargetPubkey = [], st_StoredCount = 0, st_UsedBytes = 0, st_CapacityBytes = 0, st_OldestTimestamp = 0, st_NewestTimestamp = 0\<rparr>
      else GetStats B (dh_storageConfig (mm_handler m)) (mm_pubKey m) (dh_db (mm_handler m)))"

definition IsMailbox :: "'d Manager \<Rightarrow> bool" where "IsMailbox m = mm_isMailbox m"

definition AnnounceAsMailbox :: "prims \<Rightarrow> MailboxAnnouncement codec \<Rightarrow> 'h mailbox_dht \<Rightarrow> time \<Rightarrow> bytes \<Rightarrow> 'd Manager \<times> 'h \<Rightarrow> ('d Manager \<times> 'h, unit) eff" where
  "AnnounceAsMailbox P K D now targetPubkey mh =
     (case mh of (m, h) \<Rightarrow> (case mm_announcement m of
        None \<Rightarrow> (mh, Inl (Err ''mailbox not enabled''))
      | Some am \<Rightarrow>
          if \<not> mm_isMailbox m then (mh, Inl (Err ''mailbox not enabled''))
          else (case AnnounceMailbox P K D now targetPubkey (mm_config m) (am, h) of
              ((am1, h1), r) \<Rightarrow> ((m\<lparr>mm_announcement := Some am1\<rparr>, h1), rbind r (\<lambda>_. Inr ())))))"

definition Manager_GetAnnouncement :: "bytes \<Rightarrow> 'd Manager \<Rightarrow> MailboxAnnouncement option" where
  "Manager_GetAnnouncement targetPubkey m = (case mm_announcement m of None \<Rightarrow> None | Some am \<Rightarrow> Announcement_GetAnnouncement targetPubkey am)"

section \<open>Announcing and finding\<close>

text \<open>What is relied on from the DHT: a value that was put is what is got.\<close>

definition dht_keeps :: "'h mailbox_dht \<Rightarrow> bool" where
  "dht_keeps D \<longleftrightarrow> (\<forall>k v h h'. md_PutValue D k v h = (h', Inr ()) \<longrightarrow> md_GetValue D k h' = Inr (Some v))"

lemma dht_keepsD: "dht_keeps D \<Longrightarrow> md_PutValue D k v h = (h', Inr ()) \<Longrightarrow> md_GetValue D k h' = Inr (Some v)"
  by (simp add: dht_keeps_def)

definition signed_announcement :: "prims \<Rightarrow> MailboxAnnouncement codec \<Rightarrow> bytes \<Rightarrow> MailboxAnnouncement \<Rightarrow> MailboxAnnouncement" where
  "signed_announcement P K priv a = a\<lparr>an_Signature := ed_sign P priv (enc K (unsigned_announcement a))\<rparr>"

lemma unsigned_signed [simp]: "unsigned_announcement (signed_announcement P K priv a) = unsigned_announcement a"
  by (simp add: unsigned_announcement_def signed_announcement_def)

lemma signed_fields [simp]:
  "an_TargetPubkey (signed_announcement P K priv a) = an_TargetPubkey a" "an_MailboxPeerId (signed_announcement P K priv a) = an_MailboxPeerId a"
  "an_Signature (signed_announcement P K priv a) = ed_sign P priv (enc K (unsigned_announcement a))"
  by (simp_all add: signed_announcement_def)

lemma signAnnouncement_eq:
  assumes "codec_ok K" "length (am_privKey am) = 64"
  shows "signAnnouncement P K am a = Inr (ed_sign P (am_privKey am) (enc K (unsigned_announcement a)))"
  using assms by (simp add: signAnnouncement_def codec_enc Sign_def crypto_sizes)

text \<open>What a call of \<open>AnnounceMailbox\<close> does when the node's key has its size: the announcement is signed and filed, whatever the DHT answers.\<close>

lemma AnnounceMailbox_eq:
  assumes "codec_ok K" "length (am_privKey am) = 64"
    and a: "a = signed_announcement P K (am_privKey am) (new_announcement now (am_hostID am) target config)"
    and put: "md_PutValue D (dhtKeyForTarget P target) (enc K a) h = (h1, r)"
  shows "AnnounceMailbox P K D now target config (am, h) =
    ((am\<lparr>am_announcements := gm_set (hex_encode target) a (am_announcements am)\<rparr>, h1),
     case r of Inl e \<Rightarrow> Inl (Wrap ''failed to publish announcement to DHT'' e) | Inr _ \<Rightarrow> Inr a)"
  using assms by (simp add: AnnounceMailbox_def signAnnouncement_eq codec_enc Let_def signed_announcement_def split: sum.splits)

lemma AnnounceMailbox_published:
  assumes K: "codec_ok K" and D: "dht_keeps D" and key: "length (am_privKey am) = 64"
    and ok: "AnnounceMailbox P K D now target config (am, h) = ((am1, h1), Inr a)"
  shows "a = signed_announcement P K (am_privKey am) (new_announcement now (am_hostID am) target config)"
    "md_GetValue D (dhtKeyForTarget P target) h1 = Inr (Some (enc K a))" "am1 = am\<lparr>am_announcements := gm_set (hex_encode target) a (am_announcements am)\<rparr>"
proof -
  let ?a = "signed_announcement P K (am_privKey am) (new_announcement now (am_hostID am) target config)"
  obtain h2 r where put: "md_PutValue D (dhtKeyForTarget P target) (enc K ?a) h = (h2, r)" by (cases "md_PutValue D (dhtKeyForTarget P target) (enc K ?a) h")
  note eq = AnnounceMailbox_eq[OF K key refl put]
  show a: "a = ?a" and "am1 = am\<lparr>am_announcements := gm_set (hex_encode target) a (am_announcements am)\<rparr>"
    using ok unfolding eq by (auto split: sum.splits)
  have "md_PutValue D (dhtKeyForTarget P target) (enc K a) h = (h1, Inr ())"
    using ok put unfolding eq by (auto split: sum.splits)
  then show "md_GetValue D (dhtKeyForTarget P target) h1 = Inr (Some (enc K a))" by (rule dht_keepsD[OF D])
qed

lemma FindMailboxes_got:
  assumes "codec_ok K" "md_GetValue D (dhtKeyForTarget P target) h = Inr (Some (enc K a))"
  shows "FindMailboxes P K D target h = (if verifyAnnouncementSignature P K a then Inr [a] else Inl (Err ''invalid announcement signature''))"
  using assms by (simp add: FindMailboxes_def codec_enc)

lemma verify_signed:
  assumes "codec_ok K" "sig_correct P" "length priv = 64" and a: "a = signed_announcement P K priv b"
  shows "verifyAnnouncementSignature P K a \<longleftrightarrow>
    (length (an_TargetPubkey b) = 32 \<longrightarrow> ed_verify P (an_TargetPubkey b) (enc K (unsigned_announcement b)) (an_Signature a))"
proof -
  have "length (an_Signature a) = 64" using assms by (simp add: sig_correctD)
  then show ?thesis using assms(1) a by (auto simp: verifyAnnouncementSignature_def codec_enc Verify_def crypto_sizes)
qed

lemma verify_own:
  assumes "codec_ok K" "sig_correct P" "length priv = 64" "an_TargetPubkey b = ed_public P priv"
  shows "verifyAnnouncementSignature P K (signed_announcement P K priv b)"
  using assms by (simp add: verify_signed sig_correctD)

text \<open>Republishing the one announcement of a node: the time and the signature are the only things that change.\<close>

definition dht_atomic :: "'h mailbox_dht \<Rightarrow> bool" where
  "dht_atomic D \<longleftrightarrow> (\<forall>k v h h' e. md_PutValue D k v h = (h', Inl e) \<longrightarrow> md_GetValue D k h' = md_GetValue D k h \<or> md_GetValue D k h' = Inr (Some v))"

lemma put_old_or_new:
  assumes "dht_keeps D" "dht_atomic D" "md_PutValue D k v h = (h', r)"
  shows "md_GetValue D k h' = md_GetValue D k h \<or> md_GetValue D k h' = Inr (Some v)"
proof (cases r)
  case (Inl e)
  then show ?thesis using assms by (simp add: dht_atomic_def)
next
  case (Inr u)
  then show ?thesis using dht_keepsD[OF assms(1), of k v h h'] assms(3) by simp
qed

lemma republish_one:
  assumes K: "codec_ok K" "length (am_privKey am) = 64" and one: "am_announcements am = [(k, signed_announcement P K (am_privKey am) b)]"
    and new: "a = signed_announcement P K (am_privKey am) (b\<lparr>an_AnnouncedAt := unix (c 0)\<rparr>)"
  shows "republishAll P K D c (am, h) = (am\<lparr>am_announcements := [(k, a)]\<rparr>, fst (md_PutValue D (dhtKeyForTarget P (an_TargetPubkey b)) (enc K a) h))"
proof -
  have "(signed_announcement P K (am_privKey am) b)\<lparr>an_AnnouncedAt := unix (c 0), an_Signature := ed_sign P (am_privKey am)
      (enc K (unsigned_announcement ((signed_announcement P K (am_privKey am) b)\<lparr>an_AnnouncedAt := unix (c 0)\<rparr>)))\<rparr> = a"
    by (simp add: new signed_announcement_def unsigned_announcement_def)
  then show ?thesis
    using K one by (simp add: republishAll_def Let_def signAnnouncement_eq codec_enc gm_get_def gm_set_def signed_announcement_def)
qed


section \<open>A DHT and a codec for the witnesses\<close>

definition ser_MailboxAnnouncement :: "MailboxAnnouncement ser" where
  "ser_MailboxAnnouncement = s_iso (\<lambda>r. (an_MailboxPeerId r, an_TargetPubkey r, an_CapacityBytes r, an_MaxMessageSize r, an_MaxMessages r, an_TtlSeconds r, an_AnnouncedAt r, an_Signature r, an_Capabilities r, an_ReputationScore r))
     (\<lambda>(x0, x1, x2, x3, x4, x5, x6, x7, x8, x9). \<lparr>an_MailboxPeerId = x0, an_TargetPubkey = x1, an_CapacityBytes = x2, an_MaxMessageSize = x3, an_MaxMessages = x4, an_TtlSeconds = x5, an_AnnouncedAt = x6, an_Signature = x7, an_Capabilities = x8, an_ReputationScore = x9\<rparr>)
     (s_pair s_bytes (s_pair s_bytes (s_pair s_u64 (s_pair s_u64 (s_pair s_u32 (s_pair s_u64 (s_pair s_u64 (s_pair s_bytes (s_pair (s_list s_string) s_u64)))))))))"

lemma ser_MailboxAnnouncement_ok [ser_intros]: "ser_ok ser_MailboxAnnouncement"
  unfolding ser_MailboxAnnouncement_def by (rule s_iso_ok, intro ser_intros, simp)

definition ref_announcement :: "MailboxAnnouncement codec" where "ref_announcement = codec_of ser_MailboxAnnouncement"

lemma ref_announcement_ok: "codec_ok ref_announcement"
  unfolding ref_announcement_def by (rule codec_of_ok, intro ser_intros)

definition table_dht :: "(string \<Rightarrow> bytes option) mailbox_dht" where
  "table_dht = \<lparr>md_PutValue = (\<lambda>k v h. (h(k := Some v), Inr ())), md_GetValue = (\<lambda>k h. Inr (h k))\<rparr>"

lemma table_dht_ok: "dht_keeps table_dht" "dht_atomic table_dht"
  by (auto simp: dht_keeps_def dht_atomic_def table_dht_def)

definition node_priv :: bytes where "node_priv = replicate 64 5"

lemma node_priv_size [simp]: "length node_priv = 64"
  by (simp add: node_priv_def)

definition node_manager :: "unit Manager" where "node_manager = NewManager [1, 2] (ed_public toy node_priv) node_priv () Mailbox_DefaultConfig"

lemma table_put [simp]: "md_PutValue table_dht k v h = (h(k := Some v), Inr ())"
  by (simp add: table_dht_def)

lemma node_manager_starts: "snd (Manager_Start toy ref_announcement table_dht now (node_manager, h)) = Inr ()"
proof -
  let ?am = "NewAnnouncementManager [1, 2] node_priv"
  have "length (am_privKey ?am) = 64" by (simp add: NewAnnouncementManager_def)
  from AnnounceMailbox_eq[OF ref_announcement_ok this refl table_put, of toy now "ed_public toy node_priv" "proto_config Mailbox_DefaultConfig" h]
  show ?thesis by (simp add: Manager_Start_def node_manager_def NewManager_def Mailbox_DefaultConfig_def del: toy_simps)
qed


section \<open>Which announcements count\<close>

text \<open>A signature made with one key does not verify under another.\<close>

definition sig_exclusive :: "prims \<Rightarrow> bytes \<Rightarrow> bool" where
  "sig_exclusive P priv \<longleftrightarrow> (\<forall>pk m. pk \<noteq> ed_public P priv \<longrightarrow> \<not> ed_verify P pk m (ed_sign P priv m))"

text \<open>C40.A node can be the mailbox of nobody but itself: \<open>AnnounceAsMailbox\<close> for the key of another identity is published and filed as if it were fine, and
  from then on every search for a mailbox of that identity fails, until somebody else replaces the record.\<close>

theorem other_mailbox_never_found:
  assumes P: "sig_correct P" "sig_exclusive P priv" and K: "codec_ok K" and D: "dht_keeps D" and key: "length priv = 64"
    and target: "length target = 32" "target \<noteq> ed_public P priv"
    and m: "mm_announcement m = Some am" "am_privKey am = priv" "mm_isMailbox m"
    and ann: "AnnounceAsMailbox P K D now target (m, h) = ((m1, h1), Inr ())"
  shows "Manager_GetAnnouncement target m1 \<noteq> None \<and> FindMailboxes P K D target h1 = Inl (Err ''invalid announcement signature'')
    \<and> (\<forall>m2. mm_announcement m2 \<noteq> None \<longrightarrow> DepositMessage P M K D H c target envelope m2 h1 s =
        (s, Inl (Wrap ''failed to find mailboxes'' (Err ''invalid announcement signature''))))"
proof -
  obtain am1 a where a: "AnnounceMailbox P K D now target (mm_config m) (am, h) = ((am1, h1), Inr a)" "mm_announcement m1 = Some am1"
    using ann m by (auto simp: AnnounceAsMailbox_def rbind_def split: prod.splits sum.splits)
  have k: "length (am_privKey am) = 64" using key m by simp
  note pub = AnnounceMailbox_published[OF K D k a(1)]
  have "\<not> verifyAnnouncementSignature P K a"
    using verify_signed[OF K P(1) key, of a] pub(1) m(2) target P(2) by (simp add: new_announcement_def sig_exclusive_def)
  then have f: "FindMailboxes P K D target h1 = Inl (Err ''invalid announcement signature'')" using FindMailboxes_got[OF K pub(2)] by simp
  then show ?thesis
    using pub(3) a(2) by (auto simp: Manager_GetAnnouncement_def Announcement_GetAnnouncement_def DepositMessage_def findMailboxNodes_def split: option.splits)
qed

text \<open>For the witness, a signature that names its key.\<close>

definition keyed_sig :: prims where
  "keyed_sig = toy\<lparr>ed_sign := (\<lambda>sk m. take 32 (sk @ replicate 32 0) @ take 32 (m @ replicate 32 0)), ed_verify := (\<lambda>pk m sg. sg = pk @ take 32 (m @ replicate 32 0))\<rparr>"

lemma keyed_sig_ok: "sig_correct keyed_sig" "sig_exclusive keyed_sig node_priv"
  by (auto simp: sig_correct_def sig_exclusive_def keyed_sig_def min_def)

theorem other_mailbox_never_found_witness:
  "\<exists>m1 h1. AnnounceAsMailbox keyed_sig ref_announcement table_dht 0 (replicate 32 7) (node_manager, Map.empty) = ((m1, h1), Inr ()) \<and>
    FindMailboxes keyed_sig ref_announcement table_dht (replicate 32 7) h1 = Inl (Err ''invalid announcement signature'')"
proof -
  let ?am = "NewAnnouncementManager [1, 2] node_priv"
  have am: "length (am_privKey ?am) = 64" "am_privKey ?am = node_priv" by (simp_all add: NewAnnouncementManager_def)
  have m: "mm_announcement node_manager = Some ?am" "mm_isMailbox node_manager" by (simp_all add: node_manager_def NewManager_def Mailbox_DefaultConfig_def)
  obtain m1 h1 where ann: "AnnounceAsMailbox keyed_sig ref_announcement table_dht 0 (replicate 32 7) (node_manager, Map.empty) = ((m1, h1), Inr ())"
    using AnnounceMailbox_eq[OF ref_announcement_ok am(1) refl table_put, of keyed_sig 0 "replicate 32 7" "mm_config node_manager" Map.empty] m
    by (simp add: AnnounceAsMailbox_def)
  have t: "length (replicate 32 (7 :: byte)) = 32" "replicate 32 (7 :: byte) \<noteq> ed_public keyed_sig node_priv" by (simp_all add: keyed_sig_def node_priv_def)
  show ?thesis
    using other_mailbox_never_found[OF keyed_sig_ok ref_announcement_ok table_dht_ok(1) node_priv_size t m(1) am(2) m(2) ann, THEN conjunct2, THEN conjunct1] ann by blast
qed

text \<open>The search compares nothing with the key it was asked for: an announcement that an attacker made for its own key and put under the record of a victim is
  returned as a mailbox of the victim, and a deposit for the victim is sent to the node the attacker names.\<close>

theorem announcement_hijack:
  assumes P: "sig_correct P" and K: "codec_ok K" and D: "dht_keeps D" and key: "length priv = 64"
    and a: "a = signed_announcement P K priv (new_announcement now attackerID (ed_public P priv) config)"
    and put: "md_PutValue D (dhtKeyForTarget P victim) (enc K a) h = (h1, Inr ())"
    and m: "mm_announcement m \<noteq> None"
  shows "FindMailboxes P K D victim h1 = Inr [a]
    \<and> (\<forall>s1 resp. DepositToMailbox P M H (c 0) (string_of_bytes attackerID) victim envelope (mm_privKey m) s = (s1, Inr resp) \<longrightarrow> dp_Accepted resp \<longrightarrow>
        DepositMessage P M K D H c victim envelope m h1 s = (s1, Inr ()))"
proof -
  have "verifyAnnouncementSignature P K a" unfolding a by (rule verify_own[OF K P key]) (simp add: new_announcement_def)
  then have f: "FindMailboxes P K D victim h1 = Inr [a]" using FindMailboxes_got[OF K dht_keepsD[OF D put]] by simp
  have "an_MailboxPeerId a = attackerID" by (simp add: a new_announcement_def)
  then show ?thesis using f m by (auto simp: DepositMessage_def findMailboxNodes_def)
qed

theorem announcement_hijack_witness:
  "\<exists>a h1. FindMailboxes toy ref_announcement table_dht (replicate 32 9) h1 = Inr [a] \<and> an_MailboxPeerId a = [6] \<and> an_TargetPubkey a = ed_public toy node_priv"
proof -
  have m: "mm_announcement node_manager \<noteq> None" by (simp add: node_manager_def NewManager_def Mailbox_DefaultConfig_def)
  define a where "a = signed_announcement toy ref_announcement node_priv (new_announcement 0 [6] (ed_public toy node_priv) (proto_config Mailbox_DefaultConfig))"
  have "an_MailboxPeerId a = [6]" "an_TargetPubkey a = ed_public toy node_priv" by (simp_all add: a_def new_announcement_def del: toy_simps)
  then show ?thesis
    using announcement_hijack[OF toy_sig ref_announcement_ok table_dht_ok(1) node_priv_size a_def table_put m, where victim = "replicate 32 9" and h = Map.empty, THEN conjunct1] by blast
qed

text \<open>A node that is not a mailbox itself cannot use mailboxes: it never finds one to deposit to, and retrieving or acknowledging messages panics, whatever the
  DHT holds.\<close>

theorem client_without_mailbox:
  assumes "\<not> mo_Enabled config" and m: "m = NewManager hostID pub priv db config"
  shows "DepositMessage P M K D H c recipient envelope m h s = (s, Inl (Err ''no mailbox nodes available for recipient''))
    \<and> (\<exists>e. RetrieveMessages P B M K D H c' rnd m h s = (s, Inl (Panic e))) \<and> (\<exists>e. Manager_AcknowledgeMessages P B M K D H c' ids h (m, s) = ((m, s), Inl (Panic e)))"
  using assms by (simp add: DepositMessage_def findMailboxNodes_def RetrieveMessages_def retrieveFromRemoteMailboxes_def ownMailboxes_def
    Manager_AcknowledgeMessages_def acknowledgeOnRemoteMailboxes_def NewManager_def)

theorem client_without_mailbox_witness:
  "\<exists>e. RetrieveMessages toy alist_db mailbox_ref ref_announcement table_dht (host_of (\<lambda>b s. (s, []))) (\<lambda>_. 0) (\<lambda>_. Inr [])
     (NewManager [1] [2] [3] [] (Mailbox_DefaultConfig\<lparr>mo_Enabled := False\<rparr>)) Map.empty () = ((), Inl (Panic e))"
proof -
  have "\<not> mo_Enabled (Mailbox_DefaultConfig\<lparr>mo_Enabled := False\<rparr>)" by simp
  from client_without_mailbox[OF this refl, THEN conjunct2, THEN conjunct1] show ?thesis .
qed

end
