(* ===== verification/MessageEnvelope.thy ===== *)
theory MessageEnvelope
  imports BadgerStorage GoTime
begin

text \<open>
  \<open>pkg/messaging/envelope.go\<close>: building, signing, verifying and opening the envelope of a direct message, and
  the encryption of the ephemeral key that lets a sender read its own messages. A pointer that may
  be nil is an option. Debug log lines are left out, except where taking the first eight
  bytes of a key can panic.
\<close>

record Message =
  mg_Text :: string
  mg_Timestamp :: u64

definition ErrInvalidSignature :: go_error where "ErrInvalidSignature = Err ''invalid signature''"
definition ErrInvalidEnvelope :: go_error where "ErrInvalidEnvelope = Err ''invalid envelope''"
definition MErrDecryptionFailed :: go_error where "MErrDecryptionFailed = Err ''decryption failed''"

text \<open>\<open>wrapped\<close>, but a panic is not an error value and passes through.\<close>

definition rewrapped :: "string \<Rightarrow> 'a res \<Rightarrow> 'a res" where
  "rewrapped m r = (case r of Inl (Panic p) \<Rightarrow> Inl (Panic p) | Inl e \<Rightarrow> Inl (Wrap m e) | Inr x \<Rightarrow> Inr x)"

lemma rewrapped_simps [simp]: "rewrapped m (Inr x) = Inr x" "rewrapped m r = Inr x \<longleftrightarrow> r = Inr x"
  by (auto simp: rewrapped_def split: sum.splits go_error.splits)

definition BuildMessage :: "string \<Rightarrow> u64 \<Rightarrow> Message" where
  "BuildMessage body timestamp = \<lparr>mg_Text = body, mg_Timestamp = timestamp\<rparr>"

definition BuildMessageNow :: "time \<Rightarrow> string \<Rightarrow> Message" where
  "BuildMessageNow now body = BuildMessage body (unix now)"

definition generateEphemeralKeyPair :: "prims \<Rightarrow> bytes res \<Rightarrow> (bytes \<times> bytes) res" where
  "generateEphemeralKeyPair P rnd =
     (case rnd of
        Inl e \<Rightarrow> Inl (Wrap ''failed to generate private key'' e)
      | Inr privKey \<Rightarrow> (case X25519 P (copy32 privKey) (Basepoint P) of
          Inl e \<Rightarrow> Inl (Wrap ''failed to compute public key'' e)
        | Inr result \<Rightarrow> Inr (copy32 result, privKey)))"

text \<open>Randomness for the ephemeral key and for the nonce.\<close>

definition BuildEnvelope :: "prims \<Rightarrow> bytes res \<Rightarrow> bytes res \<Rightarrow> bytes \<Rightarrow> bytes \<Rightarrow> (Envelope \<times> bytes) res" where
  "BuildEnvelope P rndKey rndNonce plaintext recipientX25519PubKey =
     (if length recipientX25519PubKey \<noteq> SharedSecretSize then Inl (Err ''invalid recipient public key length'')
      else case generateEphemeralKeyPair P rndKey of
        Inl e \<Rightarrow> Inl (Wrap ''failed to generate ephemeral key'' e)
      | Inr (ephemeralPub, ephemeralPriv) \<Rightarrow> (case ComputeSharedSecret P ephemeralPriv recipientX25519PubKey of
          Inl e \<Rightarrow> Inl (Wrap ''failed to compute shared secret'' e)
        | Inr sharedSecret \<Rightarrow> (case EncryptWithSharedSecret P rndNonce sharedSecret plaintext of
            Inl e \<Rightarrow> Inl (Wrap ''failed to encrypt'' e)
          | Inr (nonce, ciphertext) \<Rightarrow>
              Inr (\<lparr>ev_Ciphertext = ciphertext, ev_EphemeralPubkey = ephemeralPub, ev_Nonce = nonce\<rparr>, ephemeralPriv))))"

definition SignEnvelope :: "prims \<Rightarrow> Envelope codec \<Rightarrow> Envelope \<Rightarrow> bytes \<Rightarrow> SignedEnvelope res" where
  "SignEnvelope P K envelope senderPrivKey =
     (case marshal K envelope of
        Inl e \<Rightarrow> Inl (Wrap ''failed to marshal envelope'' e)
      | Inr envelopeBytes \<Rightarrow> (case ed25519_Sign P senderPrivKey envelopeBytes of
          Inl e \<Rightarrow> Inl e
        | Inr signature \<Rightarrow> Inr \<lparr>se_Envelope = envelopeBytes, se_Signature = signature, se_SenderPubkey = ed_public P senderPrivKey,
            se_EncryptedEphemeralPriv = []\<rparr>))"

definition ParseSignedEnvelope :: "SignedEnvelope codec \<Rightarrow> bytes \<Rightarrow> SignedEnvelope res" where
  "ParseSignedEnvelope K data =
     (case unmarshal K data of
        Inl e \<Rightarrow> Inl (Wrap ''failed to unmarshal signed envelope'' e)
      | Inr se \<Rightarrow>
          if length (se_Envelope se) = 0 then Inl (Wrap ''empty envelope'' ErrInvalidEnvelope)
          else if length (se_Signature se) \<noteq> SignatureSize then Inl (Wrap ''invalid signature length'' ErrInvalidEnvelope)
          else if length (se_SenderPubkey se) \<noteq> PublicKeySize then Inl (Wrap ''invalid sender public key length'' ErrInvalidEnvelope)
          else Inr se)"

definition VerifyEnvelope :: "prims \<Rightarrow> SignedEnvelope option \<Rightarrow> bool res" where
  "VerifyEnvelope P signedEnvelope =
     (case signedEnvelope of
        None \<Rightarrow> Inl (Err ''nil envelope'')
      | Some se \<Rightarrow>
          if length (se_SenderPubkey se) \<noteq> PublicKeySize then Inl (Err ''invalid sender public key length'')
          else if \<not> ed_verify P (se_SenderPubkey se) (se_Envelope se) (se_Signature se) then Inl ErrInvalidSignature
          else Inr True)"

definition ParseEnvelope :: "Envelope codec \<Rightarrow> SignedEnvelope option \<Rightarrow> Envelope res" where
  "ParseEnvelope K signedEnvelope =
     (case signedEnvelope of
        None \<Rightarrow> Inl ErrInvalidEnvelope
      | Some se \<Rightarrow>
          if length (se_Envelope se) = 0 then Inl ErrInvalidEnvelope
          else case unmarshal K (se_Envelope se) of
            Inl e \<Rightarrow> Inl (Wrap ''failed to unmarshal envelope'' e)
          | Inr env \<Rightarrow>
              if length (ev_Ciphertext env) = 0 then Inl (Wrap ''empty ciphertext'' ErrInvalidEnvelope)
              else if length (ev_EphemeralPubkey env) \<noteq> SharedSecretSize then Inl (Wrap ''invalid ephemeral pubkey length'' ErrInvalidEnvelope)
              else if length (ev_Nonce env) \<noteq> NonceSize then Inl (Wrap ''invalid nonce length'' ErrInvalidEnvelope)
              else Inr env)"

definition DecryptEnvelope :: "prims \<Rightarrow> Envelope option \<Rightarrow> bytes \<Rightarrow> bytes res" where
  "DecryptEnvelope P envelope recipientX25519PrivKey =
     (case envelope of
        None \<Rightarrow> Inl ErrInvalidEnvelope
      | Some env \<Rightarrow>
          if length recipientX25519PrivKey \<noteq> SharedSecretSize then Inl (Err ''invalid recipient private key length'')
          else if length (ev_EphemeralPubkey env) < 8 then Inl (Panic ''slice bounds out of range'')
          else case ComputeSharedSecret P recipientX25519PrivKey (ev_EphemeralPubkey env) of
            Inl e \<Rightarrow> Inl (Wrap ''failed to compute shared secret'' e)
          | Inr sharedSecret \<Rightarrow> (case DecryptWithSharedSecret P sharedSecret (ev_Nonce env) (ev_Ciphertext env) of
              Inl e \<Rightarrow> Inl (Wrap (err_text e) MErrDecryptionFailed)
            | Inr plaintext \<Rightarrow> Inr plaintext))"

definition ParseMessage :: "Message codec \<Rightarrow> bytes \<Rightarrow> Message res" where
  "ParseMessage K data = wrapped ''failed to unmarshal message'' (unmarshal K data)"

definition CreateOutgoingMessage :: "prims \<Rightarrow> codecs \<Rightarrow> Message codec \<Rightarrow> time \<Rightarrow> bytes res \<Rightarrow> bytes res \<Rightarrow> string \<Rightarrow> bytes \<Rightarrow> bytes \<Rightarrow> SignedEnvelope res" where
  "CreateOutgoingMessage P C KM now rndKey rndNonce body recipientX25519PubKey senderEd25519PrivKey =
     (case marshal KM (BuildMessageNow now body) of
        Inl e \<Rightarrow> Inl (Wrap ''failed to marshal message'' e)
      | Inr plaintext \<Rightarrow> (case BuildEnvelope P rndKey rndNonce plaintext recipientX25519PubKey of
          Inl e \<Rightarrow> Inl (Wrap ''failed to build envelope'' e)
        | Inr (envelope, _) \<Rightarrow> SignEnvelope P (c_envelope C) envelope senderEd25519PrivKey))"

text \<open>The steps from a signed envelope to its message, as \<open>ProcessIncomingMessage\<close> and the three receiving
  functions of the service take them.\<close>

definition ProcessIncomingMessage :: "prims \<Rightarrow> codecs \<Rightarrow> Message codec \<Rightarrow> SignedEnvelope option \<Rightarrow> bytes \<Rightarrow> (Message \<times> bytes) res" where
  "ProcessIncomingMessage P C KM signedEnvelope recipientX25519PrivKey =
     (case VerifyEnvelope P signedEnvelope of
        Inl e \<Rightarrow> Inl (Wrap ''signature verification failed'' e)
      | Inr valid \<Rightarrow>
          if \<not> valid then Inl ErrInvalidSignature
          else case ParseEnvelope (c_envelope C) signedEnvelope of
            Inl e \<Rightarrow> Inl (Wrap ''failed to parse envelope'' e)
          | Inr envelope \<Rightarrow> (case rewrapped ''failed to decrypt envelope'' (DecryptEnvelope P (Some envelope) recipientX25519PrivKey) of
              Inl e \<Rightarrow> Inl e
            | Inr plaintext \<Rightarrow> (case ParseMessage KM plaintext of
                Inl e \<Rightarrow> Inl (Wrap ''failed to parse message'' e)
              | Inr msg \<Rightarrow> Inr (msg, se_SenderPubkey (the signedEnvelope)))))"

section \<open>The ephemeral key in the sender's history\<close>

definition ephemeral_storage_key :: "prims \<Rightarrow> bytes \<Rightarrow> bytes \<Rightarrow> bytes res" where
  "ephemeral_storage_key P senderX25519PrivKey recipientX25519PubKey =
     (case ComputeSharedSecret P senderX25519PrivKey recipientX25519PubKey of
        Inl e \<Rightarrow> Inl (Wrap ''failed to compute shared secret'' e)
      | Inr sharedSecret \<Rightarrow> wrapped ''failed to derive encryption key''
          (DeriveKey P sharedSecret [] (str_bytes ''ephemeral-key-encryption'') (int KeySize)))"

definition encryptEphemeralKey :: "prims \<Rightarrow> bytes res \<Rightarrow> bytes \<Rightarrow> bytes \<Rightarrow> bytes \<Rightarrow> bytes res" where
  "encryptEphemeralKey P rnd ephemeralPrivKey senderX25519PrivKey recipientX25519PubKey =
     (case ephemeral_storage_key P senderX25519PrivKey recipientX25519PubKey of
        Inl e \<Rightarrow> Inl e
      | Inr encryptionKey \<Rightarrow> (case GenerateNonce rnd of
          Inl e \<Rightarrow> Inl (Wrap ''failed to generate nonce'' e)
        | Inr nonce \<Rightarrow> (case Encrypt_X P encryptionKey nonce ephemeralPrivKey of
            Inl e \<Rightarrow> Inl (Wrap ''failed to encrypt ephemeral key'' e)
          | Inr ciphertext \<Rightarrow> Inr (nonce @ ciphertext))))"

definition decryptEphemeralKey :: "prims \<Rightarrow> bytes \<Rightarrow> bytes \<Rightarrow> bytes \<Rightarrow> bytes res" where
  "decryptEphemeralKey P encryptedData senderX25519PrivKey recipientX25519PubKey =
     (if length encryptedData < NonceSize then Inl (Err ''encrypted data too short'')
      else case ephemeral_storage_key P senderX25519PrivKey recipientX25519PubKey of
        Inl e \<Rightarrow> Inl e
      | Inr encryptionKey \<Rightarrow> wrapped ''failed to decrypt ephemeral key''
          (Decrypt_X P encryptionKey (take NonceSize encryptedData) (drop NonceSize encryptedData)))"

text \<open>\<open>None\<close> is the nil slice.\<close>

definition decryptEphemeralKeyFromEnvelope :: "prims \<Rightarrow> SignedEnvelope \<Rightarrow> bytes \<Rightarrow> bytes \<Rightarrow> bytes option res" where
  "decryptEphemeralKeyFromEnvelope P signedEnvelope ownX25519PrivKey recipientX25519PubKey =
     (if length (se_EncryptedEphemeralPriv signedEnvelope) = 0 then Inr None
      else case decryptEphemeralKey P (se_EncryptedEphemeralPriv signedEnvelope) ownX25519PrivKey recipientX25519PubKey of
        Inl e \<Rightarrow> Inl e
      | Inr k \<Rightarrow> Inr (Some k))"

section \<open>Sealing and opening\<close>

lemma shared_secret_opens:
  assumes "key_sizes P" "aead_correct P" "length ss = 32" "length nonce = 24"
  obtains key ct where "DeriveKey P ss [] (str_bytes ''encryption'') 32 = Inr key" "length key = 32"
    "EncryptWithSharedSecret P (Inr nonce) ss m = Inr (nonce, ct)" "ct = xchacha_seal P key nonce m []"
    "DecryptWithSharedSecret P ss nonce ct = Inr m" "Decrypt_X P key nonce ct = Inr m"
proof -
  obtain key where key: "hkdf_sha256 P ss [] (str_bytes ''encryption'') 32 = Inr key" "length key = 32"
    using key_sizes_hkdf[OF assms(1), of 32] by fastforce
  show ?thesis
    by (rule that[of key "xchacha_seal P key nonce m []"])
      (use assms key in \<open>simp_all add: EncryptWithSharedSecret_def DecryptWithSharedSecret_def DeriveKey_def
      GenerateNonce_def Encrypt_X_def Decrypt_X_def crypto_sizes key_sizes_simps xaead_open_seal\<close>)
qed

text \<open>An envelope built for a key opens with its private key, and with the ephemeral key.\<close>

lemma envelope_opens:
  assumes laws: "dh_commutes P" "key_sizes P" "aead_correct P" "dh_sizes P" "seal_nonempty P"
    and keys: "X25519 P b (Basepoint P) = Inr B" "X25519 P e (Basepoint P) = Inr E" "X25519 P e B = Inr ss" "length nonce = 24"
  obtains env key where "BuildEnvelope P (Inr e) (Inr nonce) m B = Inr (env, e)" "DecryptEnvelope P (Some env) b = Inr m"
    "ev_EphemeralPubkey env = E" "ev_Nonce env = nonce" "ev_Ciphertext env \<noteq> []" "length E = 32"
    "ComputeSharedSecret P e B = Inr ss" "DeriveKey P ss [] (str_bytes ''encryption'') 32 = Inr key" "Decrypt_X P key nonce (ev_Ciphertext env) = Inr m"
proof -
  have len: "length b = 32" "length B = 32" "length e = 32" "length E = 32" "length ss = 32"
    using keys laws(4) unfolding dh_sizes_def by blast+
  have same: "X25519 P b E = Inr ss" using dh_commutesD[OF laws(1) keys(1,2)] keys(3) by simp
  obtain key ct where k: "DeriveKey P ss [] (str_bytes ''encryption'') 32 = Inr key" "length key = 32"
    "EncryptWithSharedSecret P (Inr nonce) ss m = Inr (nonce, ct)" "ct = xchacha_seal P key nonce m []"
    "DecryptWithSharedSecret P ss nonce ct = Inr m" "Decrypt_X P key nonce ct = Inr m"
    by (rule shared_secret_opens[OF laws(2,3) len(5) keys(4)])
  let ?env = "\<lparr>ev_Ciphertext = ct, ev_EphemeralPubkey = E, ev_Nonce = nonce\<rparr>"
  have "ct \<noteq> []" using k(2,4) laws(5) by (simp add: seal_nonempty_def)
  then show ?thesis
    by (intro that[of ?env key]) (use len keys same k in \<open>simp_all add: BuildEnvelope_def DecryptEnvelope_def generateEphemeralKeyPair_def
      ComputeSharedSecret_def crypto_sizes\<close>)
qed

lemma ephemeral_key_returns:
  assumes laws: "key_sizes P" "aead_correct P" "dh_sizes P" and keys: "X25519 P a B = Inr ss" "length nonce = 24"
  obtains c where "encryptEphemeralKey P (Inr nonce) e a B = Inr c" "length c \<ge> 24" "decryptEphemeralKey P c a B = Inr e"
proof -
  have len: "length a = 32" "length B = 32" "length ss = 32" using keys(1) laws(3) unfolding dh_sizes_def by blast+
  obtain key where key: "hkdf_sha256 P ss [] (str_bytes ''ephemeral-key-encryption'') 32 = Inr key" "length key = 32"
    using key_sizes_hkdf[OF laws(1), of 32] by fastforce
  have "ephemeral_storage_key P a B = Inr key"
    using len keys(1) key by (simp add: ephemeral_storage_key_def ComputeSharedSecret_def DeriveKey_def crypto_sizes)
  then show ?thesis
    by (intro that[of "nonce @ xchacha_seal P key nonce e []"])
      (use keys(2) key laws(1,2) in \<open>simp_all add: encryptEphemeralKey_def decryptEphemeralKey_def GenerateNonce_def Encrypt_X_def Decrypt_X_def
        crypto_sizes key_sizes_simps xaead_open_seal\<close>)
qed

text \<open>A signed envelope that was built for a recipient goes through the whole receiving side.\<close>

lemma incoming_opens:
  assumes laws: "dh_commutes P" "key_sizes P" "aead_correct P" "dh_sizes P" "seal_nonempty P" "sig_correct P"
    and C: "codec_ok (c_envelope C)" "codec_ok KM"
    and keys: "X25519 P b (Basepoint P) = Inr B" "X25519 P e (Basepoint P) = Inr E" "X25519 P e B = Inr ss" "length nonce = 24" "length sk = 64"
    and nonempty: "marshal (c_envelope C) env \<noteq> Inr []"
    and built: "marshal KM msg = Inr plain" "BuildEnvelope P (Inr e) (Inr nonce) plain B = Inr (env, e')" "SignEnvelope P (c_envelope C) env sk = Inr se"
  shows "ProcessIncomingMessage P C KM (Some se) b = Inr (msg, ed_public P sk)"
    and "VerifyEnvelope P (Some se) = Inr True" "ParseEnvelope (c_envelope C) (Some se) = Inr env" "DecryptEnvelope P (Some env) b = Inr plain"
    and "ParseMessage KM plain = Inr msg" "se_SenderPubkey se = ed_public P sk" "length (se_Signature se) = 64" "se_Envelope se \<noteq> []"
    "se_EncryptedEphemeralPriv se = []" "unmarshal (c_envelope C) (se_Envelope se) = Inr env" "ev_Nonce env = nonce" "e' = e"
proof -
  obtain env' key where o: "BuildEnvelope P (Inr e) (Inr nonce) plain B = Inr (env', e)" "DecryptEnvelope P (Some env') b = Inr plain"
    "ev_EphemeralPubkey env' = E" "ev_Nonce env' = nonce" "ev_Ciphertext env' \<noteq> []" "length E = 32"
    by (rule envelope_opens[OF laws(1-5) keys(1-4)])
  have env: "env' = env" "e' = e" using o(1) built(2) by auto
  obtain bs where bs: "marshal (c_envelope C) env = Inr bs" "unmarshal (c_envelope C) bs = Inr env" using codec_okD[OF C(1)] by blast
  note sg = sig_correctD[OF laws(6) keys(5)]
  have se: "se = \<lparr>se_Envelope = bs, se_Signature = ed_sign P sk bs, se_SenderPubkey = ed_public P sk, se_EncryptedEphemeralPriv = []\<rparr>"
    using built(3) bs keys(5) by (simp add: SignEnvelope_def ed25519_Sign_def crypto_sizes)
  have msg: "ParseMessage KM plain = Inr msg" using codec_okD[OF C(2), of msg] built(1) by (auto simp: ParseMessage_def)
  have "bs \<noteq> []" using nonempty bs(1) by auto
  then show parse: "VerifyEnvelope P (Some se) = Inr True" "ParseEnvelope (c_envelope C) (Some se) = Inr env" "DecryptEnvelope P (Some env) b = Inr plain"
    "se_SenderPubkey se = ed_public P sk" "length (se_Signature se) = 64" "se_Envelope se \<noteq> []" "se_EncryptedEphemeralPriv se = []"
    "unmarshal (c_envelope C) (se_Envelope se) = Inr env" "ev_Nonce env = nonce" "e' = e"
    using o bs sg keys(4) env by (simp_all add: se VerifyEnvelope_def ParseEnvelope_def crypto_sizes)
  show "ParseMessage KM plain = Inr msg" by (rule msg)
  then show "ProcessIncomingMessage P C KM (Some se) b = Inr (msg, ed_public P sk)"
    using parse by (simp add: ProcessIncomingMessage_def)
qed

end
