(* ===== verification/Messaging.thy ===== *)
theory Messaging
  imports MessageEnvelope
begin

text \<open>
  \<open>pkg/messaging\<close>, the service (\<open>outgoing.go\<close>, \<open>incoming.go\<close>, \<open>protocol.go\<close>): sending, receiving and reading back direct messages, and
  the peers known for contacts. The service reaches its store through the \<open>Storage\<close> interface, here the
  record \<open>message_store\<close>, and the network through the record \<open>ipfs_node\<close>, whose operations work on the network's own
  state. \<open>badger_store\<close> and \<open>memory_store\<close> are the two implementations of the store; the locale \<open>message_backend\<close> is what the
  service relies on. The background attempt to connect before a message is sent changes nothing the
  service reads and is left out.
\<close>

section \<open>Interfaces\<close>

record 'd message_store =
  st_AddMessage :: "u64 \<Rightarrow> bytes \<Rightarrow> SignedEnvelope \<Rightarrow> 'd \<Rightarrow> ('d, unit) eff"
  st_GetMessages :: "bytes \<Rightarrow> int \<Rightarrow> int \<Rightarrow> 'd \<Rightarrow> SignedEnvelope list res"
  st_GetMessagesWithTimestamps :: "bytes \<Rightarrow> int \<Rightarrow> int \<Rightarrow> 'd \<Rightarrow> MessageWithKey list res"
  st_GetContact :: "bytes \<Rightarrow> 'd \<Rightarrow> Contact option res"
  st_GetContactX25519Key :: "bytes \<Rightarrow> 'd \<Rightarrow> bytes res"
  st_AddContact :: "Contact \<Rightarrow> 'd \<Rightarrow> ('d, unit) eff"
  st_ListContacts :: "'d \<Rightarrow> Contact list res"

definition badger_store :: "'d badger \<Rightarrow> codecs \<Rightarrow> 'd message_store" where
  "badger_store B C = \<lparr>st_AddMessage = Badger_AddMessage B C, st_GetMessages = Badger_GetMessages B C,
     st_GetMessagesWithTimestamps = Badger_GetMessagesWithTimestamps B C, st_GetContact = Badger_GetContact B C,
     st_GetContactX25519Key = Badger_GetContactX25519Key B C, st_AddContact = Badger_AddContact B C, st_ListContacts = Badger_ListContacts B C\<rparr>"

definition memory_store :: "MemoryStorage message_store" where
  "memory_store = \<lparr>st_AddMessage = (\<lambda>now k e s. (AddMessage k e s, Inr ())), st_GetMessages = GetMessages,
     st_GetMessagesWithTimestamps = GetMessagesWithTimestamps, st_GetContact = (\<lambda>k s. Inr (GetContact k s)),
     st_GetContactX25519Key = GetContactX25519Key, st_AddContact = (\<lambda>c s. (AddContact c s, Inr ())), st_ListContacts = (\<lambda>s. Inr (ListContacts s))\<rparr>"

record 'n ipfs_node =
  nd_IsStarted :: "'n \<Rightarrow> bool"
  nd_Subscribe :: "string \<Rightarrow> 'n \<Rightarrow> ('n, unit) eff"
  nd_PublishTo :: "bytes \<Rightarrow> bytes \<Rightarrow> 'n \<Rightarrow> ('n, unit) eff"
  nd_Get :: "string \<Rightarrow> 'n \<Rightarrow> bytes res"
  nd_Peers :: "'n \<Rightarrow> string list"
  nd_FindPeer :: "string \<Rightarrow> 'n \<Rightarrow> string list res"
  nd_ConnectToPeer :: "string \<Rightarrow> 'n \<Rightarrow> ('n, unit) eff"
  nd_MeshSize :: "string \<Rightarrow> 'n \<Rightarrow> int option"

section \<open>State\<close>

definition ErrServiceNotStarted :: go_error where "ErrServiceNotStarted = Err ''messaging service not started''"
definition ErrUnknownContact :: go_error where "ErrUnknownContact = Err ''unknown contact''"
definition ErrSelfMessage :: go_error where "ErrSelfMessage = Err ''cannot send message to self''"

record Config =
  cf_OwnEd25519PrivKey :: bytes
  cf_OwnEd25519PubKey :: bytes
  cf_OwnX25519PrivKey :: bytes
  cf_OwnX25519PubKey :: bytes

record MessageEvent =
  me_ContactPubKey :: bytes
  me_Message :: Message
  me_Envelope :: SignedEnvelope

record ContactPeerInfo =
  cpi_PeerID :: string
  cpi_Multiaddrs :: "string list"
  cpi_LastSeen :: time
  cpi_IsOnline :: bool
  cpi_Connected :: bool

record 'd MessagingService =
  sv_config :: Config
  sv_storage :: 'd
  sv_isStarted :: bool
  sv_messageChan :: "MessageEvent list"
  sv_contactPeers :: "(bytes, ContactPeerInfo) gomap"

definition channel_capacity :: nat where "channel_capacity = 100"

definition NewMessagingService :: "Config \<Rightarrow> 'd \<Rightarrow> 'd MessagingService" where
  "NewMessagingService config storage = \<lparr>sv_config = config, sv_storage = storage, sv_isStarted = False, sv_messageChan = [], sv_contactPeers = []\<rparr>"

definition TopicFromPublicKey :: "prims \<Rightarrow> bytes \<Rightarrow> string" where
  "TopicFromPublicKey P pubKey = ''babylon-'' @ hex_encode (take 8 (sha256 P pubKey))"

text \<open>The node and the store are there, so the checks for nil do not apply.\<close>

definition Messaging_Start :: "prims \<Rightarrow> 'n ipfs_node \<Rightarrow> 'd MessagingService \<times> 'n \<Rightarrow> ('d MessagingService \<times> 'n, unit) eff" where
  "Messaging_Start P N sn =
     (case sn of (s, n) \<Rightarrow>
        if sv_isStarted s then (sn, Inr ())
        else if \<not> nd_IsStarted N n then (sn, Inl (Err ''IPFS node not started''))
        else case nd_Subscribe N (TopicFromPublicKey P (cf_OwnEd25519PubKey (sv_config s))) n of
          (n1, Inl e) \<Rightarrow> ((s, n1), Inl (Wrap ''failed to subscribe to topic'' e))
        | (n1, Inr _) \<Rightarrow> ((s\<lparr>sv_isStarted := True\<rparr>, n1), Inr ()))"

definition Messaging_Stop :: "'d MessagingService \<Rightarrow> 'd MessagingService" where
  "Messaging_Stop s = s\<lparr>sv_isStarted := False\<rparr>"

section \<open>Sending\<close>

record SendResult =
  sr_SignedEnvelope :: SignedEnvelope
  sr_CID :: string
  sr_Message :: Message

text \<open>The randomness for the ephemeral key, its nonce, and the nonce of the copy of the key kept in the history. What could
  not be encrypted or stored locally is only logged.\<close>

definition SendMessage :: "prims \<Rightarrow> codecs \<Rightarrow> Message codec \<Rightarrow> 'd message_store \<Rightarrow> 'n ipfs_node \<Rightarrow> (nat \<Rightarrow> time) \<Rightarrow> bytes res \<Rightarrow> bytes res \<Rightarrow> bytes res \<Rightarrow>
    string \<Rightarrow> bytes \<Rightarrow> bytes \<Rightarrow> 'd MessagingService \<times> 'n \<Rightarrow> ('d MessagingService \<times> 'n, SendResult) eff" where
  "SendMessage P C KM S N c rndKey rndNonce rndStore body recipientEd25519PubKey recipientX25519PubKey sn =
     (case sn of (s, n) \<Rightarrow>
        if \<not> sv_isStarted s then (sn, Inl ErrServiceNotStarted)
        else if length recipientEd25519PubKey \<noteq> PublicKeySize then (sn, Inl (Err ''invalid recipient Ed25519 public key length''))
        else if length recipientX25519PubKey \<noteq> 32 then (sn, Inl (Err ''invalid recipient X25519 public key length''))
        else if recipientEd25519PubKey = cf_OwnEd25519PubKey (sv_config s) then (sn, Inl ErrSelfMessage)
        else
          let msg = BuildMessageNow (c 0) body
          in case marshal KM msg of
            Inl e \<Rightarrow> (sn, Inl (Wrap ''failed to marshal message'' e))
          | Inr plaintext \<Rightarrow> (case BuildEnvelope P rndKey rndNonce plaintext recipientX25519PubKey of
              Inl e \<Rightarrow> (sn, Inl (Wrap ''failed to build envelope'' e))
            | Inr (envelope, ephemeralPriv) \<Rightarrow> (case rewrapped ''failed to sign envelope'' (SignEnvelope P (c_envelope C) envelope (cf_OwnEd25519PrivKey (sv_config s))) of
                Inl e \<Rightarrow> (sn, Inl e)
              | Inr signedEnvelope \<Rightarrow>
                  let encryptedEphemeral = (case encryptEphemeralKey P rndStore ephemeralPriv (cf_OwnX25519PrivKey (sv_config s)) recipientX25519PubKey of
                        Inl _ \<Rightarrow> [] | Inr b \<Rightarrow> b);
                      signedEnvelopeForStorage = signedEnvelope\<lparr>se_EncryptedEphemeralPriv := encryptedEphemeral\<rparr>
                  in (case marshal (c_signed C) signedEnvelope of
                      Inl e \<Rightarrow> (sn, Inl (Wrap ''failed to marshal signed envelope'' e))
                    | Inr envelopeBytes \<Rightarrow> (case nd_PublishTo N recipientEd25519PubKey envelopeBytes n of
                        (n1, Inl e) \<Rightarrow> ((s, n1), Inl (Wrap ''failed to publish envelope'' e))
                      | (n1, Inr _) \<Rightarrow>
                          let s1 = s\<lparr>sv_storage := fst (st_AddMessage S (unix (c 1)) recipientEd25519PubKey signedEnvelopeForStorage (sv_storage s))\<rparr>
                          in if length envelopeBytes < 8 then ((s1, n1), Inl (Panic ''slice bounds out of range''))
                             else ((s1, n1), Inr \<lparr>sr_SignedEnvelope = signedEnvelope, sr_CID = ''poc-'' @ hex_encode (take 8 envelopeBytes),
                               sr_Message = msg\<rparr>))))))"

section \<open>Receiving\<close>

record ReceiveResult =
  rr_Message :: Message
  rr_SenderPubKey :: bytes
  rr_Envelope :: SignedEnvelope

text \<open>The signature, the envelope and the message of a parsed signed envelope are checked as in \<open>ProcessIncomingMessage\<close>.\<close>

definition store_received :: "'d message_store \<Rightarrow> time \<Rightarrow> SignedEnvelope \<Rightarrow> 'd MessagingService \<Rightarrow> 'd MessagingService" where
  "store_received S now signedEnvelope s =
     s\<lparr>sv_storage := fst (st_AddMessage S (unix now) (se_SenderPubkey signedEnvelope) signedEnvelope (sv_storage s))\<rparr>"

definition ReceiveMessageDirect :: "prims \<Rightarrow> codecs \<Rightarrow> Message codec \<Rightarrow> 'd message_store \<Rightarrow> time \<Rightarrow> SignedEnvelope option \<Rightarrow>
    'd MessagingService \<Rightarrow> ('d MessagingService, ReceiveResult) eff" where
  "ReceiveMessageDirect P C KM S now signedEnvelope s =
     (if \<not> sv_isStarted s then (s, Inl ErrServiceNotStarted)
      else case ProcessIncomingMessage P C KM signedEnvelope (cf_OwnX25519PrivKey (sv_config s)) of
        Inl e \<Rightarrow> (s, Inl e)
      | Inr (msg, senderPubKey) \<Rightarrow>
          let se = the signedEnvelope
          in (store_received S now se s, Inr \<lparr>rr_Message = msg, rr_SenderPubKey = senderPubKey, rr_Envelope = se\<rparr>))"

definition ReceiveMessage :: "prims \<Rightarrow> codecs \<Rightarrow> Message codec \<Rightarrow> 'd message_store \<Rightarrow> time \<Rightarrow> bytes \<Rightarrow>
    'd MessagingService \<Rightarrow> ('d MessagingService, ReceiveResult) eff" where
  "ReceiveMessage P C KM S now envelopeBytes s =
     (if \<not> sv_isStarted s then (s, Inl ErrServiceNotStarted)
      else case ParseSignedEnvelope (c_signed C) envelopeBytes of
        Inl e \<Rightarrow> (s, Inl (Wrap ''failed to parse signed envelope'' e))
      | Inr signedEnvelope \<Rightarrow> ReceiveMessageDirect P C KM S now (Some signedEnvelope) s)"

definition FetchAndReceiveMessage :: "prims \<Rightarrow> codecs \<Rightarrow> Message codec \<Rightarrow> 'd message_store \<Rightarrow> 'n ipfs_node \<Rightarrow> time \<Rightarrow> string \<Rightarrow>
    'd MessagingService \<times> 'n \<Rightarrow> ('d MessagingService, ReceiveResult) eff" where
  "FetchAndReceiveMessage P C KM S N now cidStr sn =
     (case sn of (s, n) \<Rightarrow>
        if \<not> sv_isStarted s then (s, Inl ErrServiceNotStarted)
        else case nd_Get N cidStr n of
          Inl e \<Rightarrow> (s, Inl (Wrap ''failed to fetch envelope from IPFS'' e))
        | Inr envelopeBytes \<Rightarrow> ReceiveMessage P C KM S now envelopeBytes s)"

text \<open>The handler for the topic of the owner: as receiving, and the message goes to the event channel unless that is full.\<close>

definition processEnvelope :: "prims \<Rightarrow> codecs \<Rightarrow> Message codec \<Rightarrow> 'd message_store \<Rightarrow> time \<Rightarrow> bytes \<Rightarrow>
    'd MessagingService \<Rightarrow> ('d MessagingService, unit) eff" where
  "processEnvelope P C KM S now envelopeBytes s =
     (case ParseSignedEnvelope (c_signed C) envelopeBytes of
        Inl e \<Rightarrow> (s, Inl (Wrap ''failed to parse signed envelope'' e))
      | Inr signedEnvelope \<Rightarrow> (case ProcessIncomingMessage P C KM (Some signedEnvelope) (cf_OwnX25519PrivKey (sv_config s)) of
          Inl e \<Rightarrow> (s, Inl e)
        | Inr (msg, senderPubKey) \<Rightarrow>
            let s1 = store_received S now signedEnvelope s;
                event = \<lparr>me_ContactPubKey = senderPubKey, me_Message = msg, me_Envelope = signedEnvelope\<rparr>
            in (if length (sv_messageChan s1) < channel_capacity then s1\<lparr>sv_messageChan := sv_messageChan s1 @ [event]\<rparr> else s1, Inr ())))"

text \<open>A reader takes the oldest event from the channel.\<close>

definition take_event :: "'d MessagingService \<Rightarrow> 'd MessagingService \<times> MessageEvent option" where
  "take_event s = (case sv_messageChan s of [] \<Rightarrow> (s, None) | e # es \<Rightarrow> (s\<lparr>sv_messageChan := es\<rparr>, Some e))"

section \<open>History\<close>

definition Messaging_GetMessages :: "'d message_store \<Rightarrow> bytes \<Rightarrow> int \<Rightarrow> int \<Rightarrow> 'd MessagingService \<Rightarrow> SignedEnvelope list res" where
  "Messaging_GetMessages S contactPubKey limit offset s =
     (if \<not> sv_isStarted s then Inl ErrServiceNotStarted else st_GetMessages S contactPubKey limit offset (sv_storage s))"

record MessageWithMeta =
  mm_Message :: Message
  mm_IsOutgoing :: bool
  mm_Timestamp :: u64

definition placeholderMessage :: "u64 \<Rightarrow> string \<Rightarrow> Message" where
  "placeholderMessage timestamp body = \<lparr>mg_Text = body, mg_Timestamp = timestamp\<rparr>"

definition isOutgoingMessage :: "Config \<Rightarrow> bytes \<Rightarrow> bool" where
  "isOutgoingMessage config senderPubKey \<longleftrightarrow> length senderPubKey = length (cf_OwnEd25519PubKey config) \<and> senderPubKey = cf_OwnEd25519PubKey config"

definition decryptWithEphemeralKey :: "prims \<Rightarrow> Message codec \<Rightarrow> Envelope \<Rightarrow> bytes \<Rightarrow> bytes \<Rightarrow> Message res" where
  "decryptWithEphemeralKey P KM envelope ephemeralPriv recipientX25519PubKey =
     (case ComputeSharedSecret P ephemeralPriv recipientX25519PubKey of
        Inl e \<Rightarrow> Inl (Wrap ''failed to compute shared secret'' e)
      | Inr sharedSecret \<Rightarrow> (case DeriveKey P sharedSecret [] (str_bytes ''encryption'') (int KeySize) of
          Inl e \<Rightarrow> Inl (Wrap ''failed to derive encryption key'' e)
        | Inr encryptionKey \<Rightarrow> (case Decrypt_X P encryptionKey (ev_Nonce envelope) (ev_Ciphertext envelope) of
            Inl e \<Rightarrow> Inl (Wrap ''failed to decrypt'' e)
          | Inr plaintext \<Rightarrow> ParseMessage KM plaintext)))"

definition with_time :: "u64 \<Rightarrow> Message \<Rightarrow> Message \<times> u64" where
  "with_time storageTimestamp msg = (msg, if mg_Timestamp msg = 0 then storageTimestamp else mg_Timestamp msg)"

definition decryptOutgoingMessage :: "prims \<Rightarrow> Message codec \<Rightarrow> 'd message_store \<Rightarrow> SignedEnvelope \<Rightarrow> Envelope \<Rightarrow> u64 \<Rightarrow> bytes \<Rightarrow>
    'd MessagingService \<Rightarrow> Message \<times> u64" where
  "decryptOutgoingMessage P KM S signedEnv envelope storageTimestamp contactPubKey s =
     (let placeholder = (placeholderMessage storageTimestamp ''[Sent message]'', storageTimestamp)
      in case st_GetContactX25519Key S contactPubKey (sv_storage s) of
        Inl _ \<Rightarrow> placeholder
      | Inr recipientX25519PubKey \<Rightarrow> (case decryptEphemeralKeyFromEnvelope P signedEnv (cf_OwnX25519PrivKey (sv_config s)) recipientX25519PubKey of
          Inl _ \<Rightarrow> placeholder
        | Inr None \<Rightarrow> placeholder
        | Inr (Some ephemeralPriv) \<Rightarrow> (case decryptWithEphemeralKey P KM envelope ephemeralPriv recipientX25519PubKey of
            Inl _ \<Rightarrow> placeholder
          | Inr msg \<Rightarrow> with_time storageTimestamp msg)))"

definition decryptIncomingMessage :: "prims \<Rightarrow> Message codec \<Rightarrow> Envelope \<Rightarrow> u64 \<Rightarrow> 'd MessagingService \<Rightarrow> Message \<times> u64" where
  "decryptIncomingMessage P KM envelope storageTimestamp s =
     (case DecryptEnvelope P (Some envelope) (cf_OwnX25519PrivKey (sv_config s)) of
        Inl _ \<Rightarrow> (placeholderMessage storageTimestamp ''[Undecryptable message]'', storageTimestamp)
      | Inr plaintext \<Rightarrow> (case ParseMessage KM plaintext of
          Inl _ \<Rightarrow> (placeholderMessage storageTimestamp ''[Corrupted message]'', storageTimestamp)
        | Inr msg \<Rightarrow> with_time storageTimestamp msg))"

definition decryptMessageContent :: "prims \<Rightarrow> Message codec \<Rightarrow> 'd message_store \<Rightarrow> SignedEnvelope \<Rightarrow> Envelope \<Rightarrow> u64 \<Rightarrow> bool \<Rightarrow> bytes \<Rightarrow>
    'd MessagingService \<Rightarrow> Message \<times> u64" where
  "decryptMessageContent P KM S signedEnv envelope storageTimestamp isOutgoing contactPubKey s =
     (if isOutgoing then decryptOutgoingMessage P KM S signedEnv envelope storageTimestamp contactPubKey s
      else decryptIncomingMessage P KM envelope storageTimestamp s)"

text \<open>\<open>None\<close> is the nil result for an entry that does not verify or parse; it is skipped. No error is ever returned.\<close>

definition decryptMessageWithMeta :: "prims \<Rightarrow> codecs \<Rightarrow> Message codec \<Rightarrow> 'd message_store \<Rightarrow> MessageWithKey \<Rightarrow> bytes \<Rightarrow>
    'd MessagingService \<Rightarrow> MessageWithMeta option" where
  "decryptMessageWithMeta P C KM S mwk contactPubKey s =
     (let signedEnv = mk_Envelope mwk
      in case VerifyEnvelope P (Some signedEnv) of
        Inl _ \<Rightarrow> None
      | Inr valid \<Rightarrow>
          if \<not> valid then None
          else case ParseEnvelope (c_envelope C) (Some signedEnv) of
            Inl _ \<Rightarrow> None
          | Inr envelope \<Rightarrow>
              let isOutgoing = isOutgoingMessage (sv_config s) (se_SenderPubkey signedEnv);
                  (msg, timestamp) = decryptMessageContent P KM S signedEnv envelope (mk_Timestamp mwk) isOutgoing contactPubKey s
              in Some \<lparr>mm_Message = msg, mm_IsOutgoing = isOutgoing, mm_Timestamp = timestamp\<rparr>)"

definition GetDecryptedMessagesWithMeta :: "prims \<Rightarrow> codecs \<Rightarrow> Message codec \<Rightarrow> 'd message_store \<Rightarrow> bytes \<Rightarrow> int \<Rightarrow> int \<Rightarrow>
    'd MessagingService \<Rightarrow> MessageWithMeta list res" where
  "GetDecryptedMessagesWithMeta P C KM S contactPubKey limit offset s =
     (if \<not> sv_isStarted s then Inl ErrServiceNotStarted
      else case st_GetMessagesWithTimestamps S contactPubKey limit offset (sv_storage s) of
        Inl e \<Rightarrow> Inl e
      | Inr msgsWithKeys \<Rightarrow> Inr (List.map_filter (\<lambda>mwk. decryptMessageWithMeta P C KM S mwk contactPubKey s) msgsWithKeys))"

definition GetDecryptedMessages :: "prims \<Rightarrow> codecs \<Rightarrow> Message codec \<Rightarrow> 'd message_store \<Rightarrow> bytes \<Rightarrow> int \<Rightarrow> int \<Rightarrow> 'd MessagingService \<Rightarrow> Message list res" where
  "GetDecryptedMessages P C KM S contactPubKey limit offset s =
     (case GetDecryptedMessagesWithMeta P C KM S contactPubKey limit offset s of Inl e \<Rightarrow> Inl e | Inr meta \<Rightarrow> Inr (map mm_Message meta))"

section \<open>Peers of contacts\<close>

record FindAndConnectResult =
  fc_PeerID :: string
  fc_Addresses :: "string list"
  fc_Source :: string

text \<open>The addresses of a peer are strings as \<open>String()\<close> gives them.\<close>

definition connectToPeerID :: "'n ipfs_node \<Rightarrow> string \<Rightarrow> 'n \<Rightarrow> ('n, unit) eff" where
  "connectToPeerID N peerID n =
     (if peerID = '''' then (n, Inl (Err ''empty peer ID''))
      else if peerID \<in> set (nd_Peers N n) then (n, Inr ())
      else case nd_FindPeer N peerID n of
        Inl e \<Rightarrow> (n, Inl (Wrap ''DHT lookup failed'' e))
      | Inr [] \<Rightarrow> (n, Inl (Err ''no addresses found for peer''))
      | Inr (addr # _) \<Rightarrow> nd_ConnectToPeer N (addr @ ''/p2p/'' @ peerID) n)"

definition multiaddrsEqual :: "string list \<Rightarrow> string list \<Rightarrow> bool" where
  "multiaddrsEqual a b \<longleftrightarrow> length a = length b \<and> list_all2 (=) a b"

definition persistContactPeer :: "'d message_store \<Rightarrow> time \<Rightarrow> bytes \<Rightarrow> string \<Rightarrow> string list \<Rightarrow> 'd \<Rightarrow> 'd" where
  "persistContactPeer S now contactPubKey peerID multiaddrs d =
     (case st_GetContact S contactPubKey d of
        Inl _ \<Rightarrow> d
      | Inr None \<Rightarrow> d
      | Inr (Some contact) \<Rightarrow>
          let changePeer = (peerID \<noteq> '''' \<and> ct_PeerId contact \<noteq> peerID);
              changeAddrs = (length multiaddrs > 0 \<and> \<not> multiaddrsEqual (ct_Multiaddrs contact) multiaddrs);
              contact1 = (if changePeer then contact\<lparr>ct_PeerId := peerID\<rparr> else contact);
              contact2 = (if changeAddrs then contact1\<lparr>ct_Multiaddrs := multiaddrs\<rparr> else contact1)
          in if changePeer \<or> changeAddrs then fst (st_AddContact S (contact2\<lparr>ct_LastSeen := unix now\<rparr>) d) else d)"

definition updateContactPeer :: "'d message_store \<Rightarrow> (nat \<Rightarrow> time) \<Rightarrow> bytes \<Rightarrow> string \<Rightarrow> string list \<Rightarrow> bool \<Rightarrow> 'd MessagingService \<Rightarrow> 'd MessagingService" where
  "updateContactPeer S c contactPubKey peerID multiaddrs connected s =
     s\<lparr>sv_contactPeers := gm_set contactPubKey \<lparr>cpi_PeerID = peerID, cpi_Multiaddrs = multiaddrs, cpi_LastSeen = c 0, cpi_IsOnline = connected,
         cpi_Connected = connected\<rparr> (sv_contactPeers s),
       sv_storage := persistContactPeer S (c 1) contactPubKey peerID multiaddrs (sv_storage s)\<rparr>"

text \<open>The addresses of a contact, tried in order; \<open>True\<close> when one of them connected.\<close>

fun connect_first :: "'n ipfs_node \<Rightarrow> string list \<Rightarrow> 'n \<Rightarrow> 'n \<times> bool" where
  "connect_first N [] n = (n, False)"
| "connect_first N (addr # addrs) n =
     (case nd_ConnectToPeer N addr n of (n1, Inr _) \<Rightarrow> (n1, True) | (n1, Inl _) \<Rightarrow> connect_first N addrs n1)"

definition connected_result :: "'d message_store \<Rightarrow> (nat \<Rightarrow> time) \<Rightarrow> bytes \<Rightarrow> string \<Rightarrow> string list \<Rightarrow> string \<Rightarrow> 'd MessagingService \<times> 'n \<Rightarrow>
    ('d MessagingService \<times> 'n, FindAndConnectResult) eff" where
  "connected_result S c contactPubKey peerID addrs source sn =
     ((updateContactPeer S c contactPubKey peerID addrs True (fst sn), snd sn), Inr \<lparr>fc_PeerID = peerID, fc_Addresses = addrs, fc_Source = source\<rparr>)"

text \<open>The last attempt: a lookup in the DHT.\<close>

definition connect_dht :: "'d message_store \<Rightarrow> 'n ipfs_node \<Rightarrow> (nat \<Rightarrow> time) \<Rightarrow> bytes \<Rightarrow> string \<Rightarrow> 'd MessagingService \<times> 'n \<Rightarrow>
    ('d MessagingService \<times> 'n, FindAndConnectResult) eff" where
  "connect_dht S N c contactPubKey peerID sn =
     (let offline = Inl (Err ''failed to find and connect to contact - they may be offline'')
      in if peerID = '''' then (sn, offline)
         else case nd_FindPeer N peerID (snd sn) of
           Inl _ \<Rightarrow> (sn, offline)
         | Inr [] \<Rightarrow> (sn, offline)
         | Inr (addr # rest) \<Rightarrow> (case nd_ConnectToPeer N (addr @ ''/p2p/'' @ peerID) (snd sn) of
             (n1, Inl _) \<Rightarrow> ((fst sn, n1), offline)
           | (n1, Inr _) \<Rightarrow> connected_result S c contactPubKey peerID (addr # rest) ''dht'' (fst sn, n1)))"

text \<open>Steps 2 to 6, when the cache does not say that the contact is connected.\<close>

definition find_contact :: "'d message_store \<Rightarrow> 'n ipfs_node \<Rightarrow> (nat \<Rightarrow> time) \<Rightarrow> bytes \<Rightarrow> ContactPeerInfo option \<Rightarrow> 'd MessagingService \<times> 'n \<Rightarrow>
    ('d MessagingService \<times> 'n, FindAndConnectResult) eff" where
  "find_contact S N c contactPubKey cachedInfo sn =
     (case sn of (s, n) \<Rightarrow> case st_GetContact S contactPubKey (sv_storage s) of
        Inl e \<Rightarrow> (sn, Inl (Wrap ''failed to get contact'' e))
      | Inr None \<Rightarrow> (sn, Inl ErrUnknownContact)
      | Inr (Some contact) \<Rightarrow>
          let (n1, viaCache) = (case cachedInfo of
                None \<Rightarrow> (n, False)
              | Some info \<Rightarrow> if cpi_PeerID info \<noteq> '''' then (case connectToPeerID N (cpi_PeerID info) n of (n', r) \<Rightarrow> (n', is_ok r)) else (n, False))
          in if viaCache then connected_result S c contactPubKey (cpi_PeerID (the cachedInfo)) (cpi_Multiaddrs (the cachedInfo)) ''cached'' (s, n1)
             else
               let (n2, viaStored) = (if ct_PeerId contact \<noteq> '''' then (case connectToPeerID N (ct_PeerId contact) n1 of (n', r) \<Rightarrow> (n', is_ok r))
                     else (n1, False))
               in if viaStored then connected_result S c contactPubKey (ct_PeerId contact) (ct_Multiaddrs contact) ''stored'' (s, n2)
                  else
                    let (n3, viaAddr) = connect_first N (ct_Multiaddrs contact) n2
                    in if viaAddr then connected_result S c contactPubKey (ct_PeerId contact) (ct_Multiaddrs contact) ''multiaddr'' (s, n3)
                       else connect_dht S N c contactPubKey (ct_PeerId contact) (s, n3))"

definition FindAndConnectToContact :: "'d message_store \<Rightarrow> 'n ipfs_node \<Rightarrow> (nat \<Rightarrow> time) \<Rightarrow> bytes \<Rightarrow> 'd MessagingService \<times> 'n \<Rightarrow>
    ('d MessagingService \<times> 'n, FindAndConnectResult) eff" where
  "FindAndConnectToContact S N c contactPubKey sn =
     (if \<not> sv_isStarted (fst sn) then (sn, Inl ErrServiceNotStarted)
      else case gm_get (sv_contactPeers (fst sn)) contactPubKey of
        None \<Rightarrow> find_contact S N c contactPubKey None sn
      | Some info \<Rightarrow>
          if cpi_Connected info then (sn, Inr \<lparr>fc_PeerID = cpi_PeerID info, fc_Addresses = cpi_Multiaddrs info, fc_Source = ''cached''\<rparr>)
          else find_contact S N c contactPubKey (Some info) sn)"

definition IsContactOnline :: "'d message_store \<Rightarrow> 'n ipfs_node \<Rightarrow> (nat \<Rightarrow> time) \<Rightarrow> bytes \<Rightarrow> 'd MessagingService \<times> 'n \<Rightarrow> ('d MessagingService \<times> 'n, bool) eff" where
  "IsContactOnline S N c contactPubKey sn =
     (case sn of (s, n) \<Rightarrow>
        if \<not> sv_isStarted s then (sn, Inl ErrServiceNotStarted)
        else if (case gm_get (sv_contactPeers s) contactPubKey of None \<Rightarrow> False | Some info \<Rightarrow> cpi_Connected info) then (sn, Inr True)
        else case st_GetContact S contactPubKey (sv_storage s) of
          Inl e \<Rightarrow> (sn, Inl (Wrap ''failed to get contact'' e))
        | Inr None \<Rightarrow> (sn, Inl ErrUnknownContact)
        | Inr (Some contact) \<Rightarrow>
            if ct_PeerId contact = '''' then (sn, Inl (Err ''contact has no peer ID''))
            else case nd_FindPeer N (ct_PeerId contact) n of
              Inl _ \<Rightarrow> (sn, Inr False)
            | Inr addrs \<Rightarrow>
                ((if addrs \<noteq> [] then updateContactPeer S c contactPubKey (ct_PeerId contact) addrs True s else s, n), Inr True))"

definition GetContactPeerInfo :: "bytes \<Rightarrow> 'd MessagingService \<Rightarrow> ContactPeerInfo option" where
  "GetContactPeerInfo contactPubKey s = gm_get (sv_contactPeers s) contactPubKey"

definition GetAllContactStats :: "'d MessagingService \<Rightarrow> (bytes, ContactPeerInfo) gomap" where
  "GetAllContactStats s = sv_contactPeers s"

definition FindAndConnect :: "'n ipfs_node \<Rightarrow> string \<Rightarrow> 'd MessagingService \<times> 'n \<Rightarrow> ('d MessagingService \<times> 'n, FindAndConnectResult) eff" where
  "FindAndConnect N multiaddr sn =
     (case sn of (s, n) \<Rightarrow>
        if \<not> sv_isStarted s then (sn, Inl ErrServiceNotStarted)
        else if multiaddr \<noteq> '''' then
          (case nd_ConnectToPeer N multiaddr n of
             (n1, Inl e) \<Rightarrow> ((s, n1), Inl (Wrap ''failed to connect to peer'' e))
           | (n1, Inr _) \<Rightarrow> ((s, n1), Inr \<lparr>fc_PeerID = '''', fc_Addresses = [multiaddr], fc_Source = ''manual''\<rparr>))
        else (sn, Inl (Err ''peer not found - provide multiaddr or add contact to address book'')))"

definition GetTopicMeshSize :: "prims \<Rightarrow> 'n ipfs_node \<Rightarrow> bytes \<Rightarrow> 'n \<Rightarrow> int" where
  "GetTopicMeshSize P N contactPubKey n = (case nd_MeshSize N (TopicFromPublicKey P contactPubKey) n of None \<Rightarrow> 0 | Some k \<Rightarrow> k)"

record ContactStatus =
  cs_PubKey :: bytes
  cs_DisplayName :: string
  cs_IsOnline :: bool
  cs_Connected :: bool
  cs_PeerID :: string
  cs_MeshSize :: int
  cs_IsActive :: bool

definition GetContactStatus :: "prims \<Rightarrow> 'd message_store \<Rightarrow> 'n ipfs_node \<Rightarrow> bytes \<Rightarrow> 'd MessagingService \<times> 'n \<Rightarrow> ContactStatus res" where
  "GetContactStatus P S N contactPubKey sn =
     (case st_GetContact S contactPubKey (sv_storage (fst sn)) of
        Inl e \<Rightarrow> Inl (Wrap ''failed to get contact'' e)
      | Inr None \<Rightarrow> Inl ErrUnknownContact
      | Inr (Some contact) \<Rightarrow>
          let (peerID, isOnline, connected) = (case gm_get (sv_contactPeers (fst sn)) contactPubKey of
                None \<Rightarrow> ('''', False, False) | Some info \<Rightarrow> (cpi_PeerID info, cpi_IsOnline info, cpi_Connected info))
          in Inr \<lparr>cs_PubKey = ct_PublicKey contact, cs_DisplayName = ct_DisplayName contact, cs_IsOnline = isOnline, cs_Connected = connected,
               cs_PeerID = peerID, cs_MeshSize = GetTopicMeshSize P N contactPubKey (snd sn), cs_IsActive = connected\<rparr>)"

definition GetAllContactStatuses :: "prims \<Rightarrow> 'd message_store \<Rightarrow> 'n ipfs_node \<Rightarrow> 'd MessagingService \<times> 'n \<Rightarrow> ContactStatus list res" where
  "GetAllContactStatuses P S N sn =
     (case st_ListContacts S (sv_storage (fst sn)) of
        Inl e \<Rightarrow> Inl (Wrap ''failed to list contacts'' e)
      | Inr contacts \<Rightarrow> Inr (List.map_filter (\<lambda>contact. case GetContactStatus P S N (ct_PublicKey contact) sn of Inl _ \<Rightarrow> None | Inr st \<Rightarrow> Some st) contacts))"

section \<open>Histories of the service\<close>

inductive ms_step :: "prims \<Rightarrow> codecs \<Rightarrow> Message codec \<Rightarrow> 'd message_store \<Rightarrow> 'n ipfs_node \<Rightarrow> 'd MessagingService \<times> 'n \<Rightarrow> 'd MessagingService \<times> 'n \<Rightarrow> bool"
  for P C KM S N where
  ms_start: "Messaging_Start P N sn = (sn', r) \<Longrightarrow> ms_step P C KM S N sn sn'"
| ms_stop: "ms_step P C KM S N (s, n) (Messaging_Stop s, n)"
| ms_send: "SendMessage P C KM S N c r1 r2 r3 body ed x sn = (sn', r') \<Longrightarrow> ms_step P C KM S N sn sn'"
| ms_direct: "ReceiveMessageDirect P C KM S now se s = (s', r'') \<Longrightarrow> ms_step P C KM S N (s, n) (s', n)"
| ms_receive: "ReceiveMessage P C KM S now b s = (s', r'') \<Longrightarrow> ms_step P C KM S N (s, n) (s', n)"
| ms_fetch: "FetchAndReceiveMessage P C KM S N now cid (s, n) = (s', r'') \<Longrightarrow> ms_step P C KM S N (s, n) (s', n)"
| ms_deliver: "processEnvelope P C KM S now b s = (s', r) \<Longrightarrow> ms_step P C KM S N (s, n) (s', n)"
| ms_take: "take_event s = (s', ev) \<Longrightarrow> ms_step P C KM S N (s, n) (s', n)"
| ms_find: "FindAndConnectToContact S N c k sn = (sn', fr) \<Longrightarrow> ms_step P C KM S N sn sn'"
| ms_online: "IsContactOnline S N c k sn = (sn', br) \<Longrightarrow> ms_step P C KM S N sn sn'"
| ms_connect: "FindAndConnect N addr sn = (sn', fr) \<Longrightarrow> ms_step P C KM S N sn sn'"
| ms_network: "ms_step P C KM S N (s, n) (s, n')"

section \<open>What the service relies on\<close>

text \<open>A message with a nonce that was added is read back from its conversation, and adding it leaves the contacts alone.\<close>

locale message_backend =
  fixes C :: codecs and S :: "'d message_store" and ok :: "'d \<Rightarrow> bool"
  assumes add: "ok d \<Longrightarrow> unmarshal (c_envelope C) (se_Envelope e) = Inr env \<Longrightarrow> ev_Nonce env \<noteq> [] \<Longrightarrow>
      \<exists>d' ms m. st_AddMessage S now k e d = (d', Inr ()) \<and> ok d' \<and> st_GetMessagesWithTimestamps S k 0 0 d' = Inr ms \<and> m \<in> set ms \<and> mk_Envelope m = e"
    and contact_kept: "ok d \<Longrightarrow> st_GetContactX25519Key S k (fst (st_AddMessage S now k' e d)) = st_GetContactX25519Key S k d"
begin

lemma stored_message_shown:
  fixes now :: u64 and k :: bytes
  assumes "ok (sv_storage s)" "sv_isStarted s" "unmarshal (c_envelope C) (se_Envelope e) = Inr env" "ev_Nonce env \<noteq> []"
  defines "s' \<equiv> s\<lparr>sv_storage := fst (st_AddMessage S now k e (sv_storage s))\<rparr>"
  obtains m metas where "mk_Envelope m = e" "GetDecryptedMessagesWithMeta P C KM S k 0 0 s' = Inr metas" "ok (sv_storage s')"
    "set_option (decryptMessageWithMeta P C KM S m k s') \<subseteq> set metas"
proof -
  obtain d' ms m where a: "st_AddMessage S now k e (sv_storage s) = (d', Inr ())" "ok d'" "st_GetMessagesWithTimestamps S k 0 0 d' = Inr ms"
    "m \<in> set ms" "mk_Envelope m = e" using add[OF assms(1,3,4)] by blast
  let ?metas = "List.map_filter (\<lambda>mwk. decryptMessageWithMeta P C KM S mwk k s') ms"
  have "GetDecryptedMessagesWithMeta P C KM S k 0 0 s' = Inr ?metas"
    using a(1,3) assms(2) by (simp add: GetDecryptedMessagesWithMeta_def s'_def)
  moreover have "x \<in> set ?metas" if "decryptMessageWithMeta P C KM S m k s' = Some x" for x
    using a(4) that by (force simp: List.map_filter_def)
  ultimately show ?thesis using that a by (auto simp: s'_def)
qed

text \<open>A message that is stored as received shows in the history as incoming.\<close>

lemma incoming_shown:
  assumes "ok (sv_storage s)" "sv_isStarted s" "unmarshal (c_envelope C) (se_Envelope e) = Inr env" "ev_Nonce env \<noteq> []"
    and opens: "VerifyEnvelope P (Some e) = Inr True" "ParseEnvelope (c_envelope C) (Some e) = Inr env"
      "DecryptEnvelope P (Some env) (cf_OwnX25519PrivKey (sv_config s)) = Inr plain" "ParseMessage KM plain = Inr msg"
      "se_SenderPubkey e \<noteq> cf_OwnEd25519PubKey (sv_config s)"
  shows "\<exists>metas x. GetDecryptedMessagesWithMeta P C KM S (se_SenderPubkey e) 0 0 (store_received S now e s) = Inr metas \<and> x \<in> set metas
    \<and> mm_Message x = msg \<and> \<not> mm_IsOutgoing x"
proof -
  obtain m metas where m: "mk_Envelope m = e" "GetDecryptedMessagesWithMeta P C KM S (se_SenderPubkey e) 0 0 (store_received S now e s) = Inr metas"
    "set_option (decryptMessageWithMeta P C KM S m (se_SenderPubkey e) (store_received S now e s)) \<subseteq> set metas"
    unfolding store_received_def by (rule stored_message_shown[OF assms(1-4), where now = "unix now" and k = "se_SenderPubkey e" and P = P and KM = KM])
  have "decryptMessageWithMeta P C KM S m (se_SenderPubkey e) (store_received S now e s) =
      Some \<lparr>mm_Message = msg, mm_IsOutgoing = False, mm_Timestamp = snd (with_time (mk_Timestamp m) msg)\<rparr>"
    using m(1) opens by (simp add: decryptMessageWithMeta_def isOutgoingMessage_def decryptMessageContent_def decryptIncomingMessage_def
        store_received_def with_time_def)
  then show ?thesis using m by (intro exI[of _ metas] exI conjI) (assumption | force)+
qed

text \<open>A message the owner sent shows in the history as outgoing, when the contact's key is stored.\<close>

lemma outgoing_shown:
  assumes "ok (sv_storage s)" "sv_isStarted s" "unmarshal (c_envelope C) (se_Envelope e) = Inr env" "ev_Nonce env \<noteq> []"
    and opens: "VerifyEnvelope P (Some e) = Inr True" "ParseEnvelope (c_envelope C) (Some e) = Inr env"
      "se_SenderPubkey e = cf_OwnEd25519PubKey (sv_config s)" "st_GetContactX25519Key S k (sv_storage s) = Inr B"
      "decryptEphemeralKeyFromEnvelope P e (cf_OwnX25519PrivKey (sv_config s)) B = Inr (Some eph)"
      "decryptWithEphemeralKey P KM env eph B = Inr msg"
  shows "\<exists>metas x. GetDecryptedMessagesWithMeta P C KM S k 0 0 (s\<lparr>sv_storage := fst (st_AddMessage S now k e (sv_storage s))\<rparr>) = Inr metas \<and> x \<in> set metas
    \<and> mm_Message x = msg \<and> mm_IsOutgoing x"
proof -
  let ?s' = "s\<lparr>sv_storage := fst (st_AddMessage S now k e (sv_storage s))\<rparr>"
  obtain m metas where m: "mk_Envelope m = e" "GetDecryptedMessagesWithMeta P C KM S k 0 0 ?s' = Inr metas"
    "set_option (decryptMessageWithMeta P C KM S m k ?s') \<subseteq> set metas"
    by (rule stored_message_shown[OF assms(1-4), where now = now and k = k and P = P and KM = KM])
  have "decryptMessageWithMeta P C KM S m k ?s' =
      Some \<lparr>mm_Message = msg, mm_IsOutgoing = True, mm_Timestamp = snd (with_time (mk_Timestamp m) msg)\<rparr>"
    using m(1) opens contact_kept[OF assms(1)]
    by (simp add: decryptMessageWithMeta_def isOutgoingMessage_def decryptMessageContent_def decryptOutgoingMessage_def with_time_def)
  then show ?thesis using m by (intro exI[of _ metas] exI conjI) (assumption | force)+
qed

end

text \<open>Both stores are such backends.\<close>

definition badger_good :: "'d badger \<Rightarrow> codecs \<Rightarrow> ('d \<Rightarrow> bytes \<Rightarrow> bytes option) \<Rightarrow> 'd \<Rightarrow> bool" where
  "badger_good B C view d \<longleftrightarrow> kv_ok B view \<and> codecs_ok C \<and> messages_ok view C d"

interpretation badger_messages: message_backend C "badger_store B C" "badger_good B C view" for B :: "'d badger" and C view
proof unfold_locales
  fix d :: 'd and e :: SignedEnvelope and env :: Envelope and now k
  assume good: "badger_good B C view d" and env: "unmarshal (c_envelope C) (se_Envelope e) = Inr env" "ev_Nonce env \<noteq> []"
  then have laws: "kv_ok B view" "codecs_ok C" "messages_ok view C d" by (simp_all add: badger_good_def)
  let ?d = "fst (Badger_AddMessage B C now k e d)" and ?k = "messageKey k now (ev_Nonce env)"
  have ok: "messages_ok view C ?d" by (rule mok_step_message[OF laws])
  obtain b where b: "unmarshal (c_signed C) b = Inr e"
    "view (fst (store_msg B (c_signed C) ''failed to marshal envelope'' ''failed to store message'' ?k e d)) = (view d)(?k \<mapsto> b)"
    "snd (store_msg B (c_signed C) ''failed to marshal envelope'' ''failed to store message'' ?k e d) = Inr ()"
    by (rule store_msg_view[OF laws(1) codecs_okD(2)[OF laws(2)]])
  then have v: "view ?d ?k = Some b" "snd (Badger_AddMessage B C now k e d) = Inr ()"
    using env(1) by (simp_all add: Badger_AddMessage_def)
  obtain ms where ms: "Badger_GetMessagesWithTimestamps B C k 0 0 ?d = Inr ms"
    "\<forall>m. m \<in> set ms \<longleftrightarrow> mk_Nonce m \<noteq> [] \<and> (\<exists>b. view ?d (messageKey k (mk_Timestamp m) (mk_Nonce m)) = Some b \<and>
       unmarshal (c_signed C) b = Inr (mk_Envelope m))" using read_conversation[OF laws(1) ok, of k] by blast
  have "\<lparr>mk_Envelope = e, mk_Timestamp = now, mk_Nonce = ev_Nonce env\<rparr> \<in> set ms" using ms(2) v(1) b(1) env(2) by simp
  then show "\<exists>d' ms m. st_AddMessage (badger_store B C) now k e d = (d', Inr ()) \<and> badger_good B C view d'
      \<and> st_GetMessagesWithTimestamps (badger_store B C) k 0 0 d' = Inr ms \<and> m \<in> set ms \<and> mk_Envelope m = e"
    using v(2) ms(1) laws ok by (intro exI[of _ ?d] exI[of _ ms] exI conjI)
      (auto simp: badger_store_def badger_good_def prod_eq_iff)
next
  fix d k now k' e
  assume "badger_good B C view d"
  then have laws: "kv_ok B view" "codecs_ok C" by (simp_all add: badger_good_def)
  have "view (fst (Badger_AddMessage B C now k' e d)) (contactKey k) = view d (contactKey k)"
  proof (cases "unmarshal (c_envelope C) (se_Envelope e)")
    case (Inr env)
    obtain b where "view (fst (store_msg B (c_signed C) ''failed to marshal envelope'' ''failed to store message'' (messageKey k' now (ev_Nonce env)) e d)) =
        (view d)(messageKey k' now (ev_Nonce env) \<mapsto> b)"
      by (rule store_msg_view[OF laws(1) codecs_okD(2)[OF laws(2)]])
    then show ?thesis using Inr by (simp add: Badger_AddMessage_def messageKey_def contactKey_def)
  qed (simp add: Badger_AddMessage_def)
  then show "st_GetContactX25519Key (badger_store B C) k (fst (st_AddMessage (badger_store B C) now k' e d)) = st_GetContactX25519Key (badger_store B C) k d"
    by (simp add: badger_store_def Badger_GetContactX25519Key_def Badger_GetContact_def load_msg_def kv_get[OF laws(1)])
qed

interpretation memory_messages: message_backend C memory_store "\<lambda>_. True" for C
proof unfold_locales
  fix d e env now k
  have "\<exists>ms. GetMessages k 0 0 (AddMessage k e d) = Inr (ms @ [e])"
    by (cases "gm_get (ms_messages d) k") (simp_all add: GetMessages_def AddMessage_def Let_def)
  then show "\<exists>d' ms m. st_AddMessage memory_store now k e d = (d', Inr ()) \<and> True \<and> st_GetMessagesWithTimestamps memory_store k 0 0 d' = Inr ms
      \<and> m \<in> set ms \<and> mk_Envelope m = e"
    by (fastforce simp: memory_store_def GetMessagesWithTimestamps_def)
qed (simp add: memory_store_def GetContactX25519Key_def GetContact_def AddMessage_def)

section \<open>Properties\<close>

text \<open>Documented of protobuf: an encoding contains the byte fields of its message.\<close>

definition field_sizes :: "codecs \<Rightarrow> bool" where
  "field_sizes C \<longleftrightarrow> (\<forall>env b. marshal (c_envelope C) env = Inr b \<longrightarrow> length (ev_Ciphertext env) \<le> length b) \<and>
     (\<forall>se b. marshal (c_signed C) se = Inr b \<longrightarrow> length (se_Signature se) \<le> length b)"

text \<open>The parties to a message, as the keys of sender and recipient and the randomness of the sender.\<close>

definition message_keys :: "prims \<Rightarrow> Config \<Rightarrow> Config \<Rightarrow> bytes \<Rightarrow> bytes \<Rightarrow> bool" where
  "message_keys P cfgA cfgB eph X \<longleftrightarrow> length (cf_OwnEd25519PrivKey cfgA) = 64 \<and> cf_OwnEd25519PubKey cfgA = ed_public P (cf_OwnEd25519PrivKey cfgA) \<and>
     length (cf_OwnEd25519PubKey cfgB) = 32 \<and> cf_OwnEd25519PubKey cfgA \<noteq> cf_OwnEd25519PubKey cfgB \<and>
     X25519 P (cf_OwnX25519PrivKey cfgB) (Basepoint P) = Inr X \<and> is_ok (X25519 P eph (Basepoint P)) \<and> is_ok (X25519 P eph X) \<and>
     is_ok (X25519 P (cf_OwnX25519PrivKey cfgA) X)"

definition crypto_laws :: "prims \<Rightarrow> bool" where
  "crypto_laws P \<longleftrightarrow> dh_commutes P \<and> key_sizes P \<and> aead_correct P \<and> dh_sizes P \<and> seal_nonempty P \<and> sig_correct P"

text \<open>What \<open>SendMessage\<close> publishes and stores.\<close>

lemma SendMessage_sends:
  fixes c :: "nat \<Rightarrow> time" and body :: string
  assumes laws: "crypto_laws P" "codecs_ok C" "codec_ok KM" "field_sizes C" and keys: "message_keys P (sv_config s) cfgB eph X"
    and rnd: "length nonce = 24" "length nonce' = 24" and st: "sv_isStarted s"
    and net: "\<forall>b. snd (nd_PublishTo N (cf_OwnEd25519PubKey cfgB) b n) = Inr ()"
  defines "msg \<equiv> BuildMessageNow (c 0) body"
  obtains env se keyenc b res where
    "SendMessage P C KM S N c (Inr eph) (Inr nonce) (Inr nonce') body (cf_OwnEd25519PubKey cfgB) X (s, n) =
      ((s\<lparr>sv_storage := fst (st_AddMessage S (unix (c 1)) (cf_OwnEd25519PubKey cfgB) (se\<lparr>se_EncryptedEphemeralPriv := keyenc\<rparr>) (sv_storage s))\<rparr>,
        fst (nd_PublishTo N (cf_OwnEd25519PubKey cfgB) b n)), Inr res)"
    "marshal (c_signed C) se = Inr b" "VerifyEnvelope P (Some se) = Inr True" "ParseEnvelope (c_envelope C) (Some se) = Inr env"
    "ProcessIncomingMessage P C KM (Some se) (cf_OwnX25519PrivKey cfgB) = Inr (msg, cf_OwnEd25519PubKey (sv_config s))"
    "unmarshal (c_envelope C) (se_Envelope se) = Inr env" "ev_Nonce env = nonce" "se_SenderPubkey se = cf_OwnEd25519PubKey (sv_config s)"
    "length (se_Signature se) = 64" "se_Envelope se \<noteq> []" "\<exists>plain. DecryptEnvelope P (Some env) (cf_OwnX25519PrivKey cfgB) = Inr plain \<and> ParseMessage KM plain = Inr msg"
    "keyenc \<noteq> []" "decryptEphemeralKey P keyenc (cf_OwnX25519PrivKey (sv_config s)) X = Inr eph" "decryptWithEphemeralKey P KM env eph X = Inr msg"
proof -
  let ?cfg = "sv_config s" and ?pubB = "cf_OwnEd25519PubKey cfgB"
  have P: "dh_commutes P" "key_sizes P" "aead_correct P" "dh_sizes P" "seal_nonempty P" "sig_correct P" using laws(1) by (simp_all add: crypto_laws_def)
  have K: "codec_ok (c_signed C)" "codec_ok (c_envelope C)" using laws(2) by (simp_all add: codecs_ok_def)
  obtain E ss ss' where k: "length (cf_OwnEd25519PrivKey ?cfg) = 64" "cf_OwnEd25519PubKey ?cfg = ed_public P (cf_OwnEd25519PrivKey ?cfg)"
    "length ?pubB = 32" "cf_OwnEd25519PubKey ?cfg \<noteq> ?pubB" "X25519 P (cf_OwnX25519PrivKey cfgB) (Basepoint P) = Inr X"
    "X25519 P eph (Basepoint P) = Inr E" "X25519 P eph X = Inr ss" "X25519 P (cf_OwnX25519PrivKey ?cfg) X = Inr ss'"
    using keys by (auto simp: message_keys_def is_ok_iff)
  have X: "length X = 32" using k(7) P(4) unfolding dh_sizes_def by blast
  obtain plain where plain: "marshal KM msg = Inr plain" "unmarshal KM plain = Inr msg" using codec_okD[OF laws(3)] by blast
  obtain env key where o: "BuildEnvelope P (Inr eph) (Inr nonce) plain X = Inr (env, eph)" "ev_Ciphertext env \<noteq> []" "ev_Nonce env = nonce"
    "ComputeSharedSecret P eph X = Inr ss" "DeriveKey P ss [] (str_bytes ''encryption'') 32 = Inr key" "Decrypt_X P key nonce (ev_Ciphertext env) = Inr plain"
    by (rule envelope_opens[OF P(1-5) k(5-7) rnd(1)])
  obtain bs where bs: "marshal (c_envelope C) env = Inr bs" using codec_okD[OF K(2)] by blast
  then have ne: "marshal (c_envelope C) env \<noteq> Inr []" using o(2) laws(4) unfolding field_sizes_def by (metis le_zero_eq length_0_conv)
  obtain se where se: "SignEnvelope P (c_envelope C) env (cf_OwnEd25519PrivKey ?cfg) = Inr se"
    using bs k(1) by (simp add: SignEnvelope_def ed25519_Sign_def crypto_sizes)
  note inc = incoming_opens[OF P K(2) laws(3) k(5-7) rnd(1) k(1) ne plain(1) o(1) se]
  obtain b where b: "marshal (c_signed C) se = Inr b" using codec_okD[OF K(1)] by blast
  then have long: "8 \<le> length b" using inc(7) laws(4) unfolding field_sizes_def by (metis le_trans numeral_le_iff semiring_norm(68,71,79))
  obtain keyenc where ke: "encryptEphemeralKey P (Inr nonce') eph (cf_OwnX25519PrivKey ?cfg) X = Inr keyenc" "24 \<le> length keyenc"
    "decryptEphemeralKey P keyenc (cf_OwnX25519PrivKey ?cfg) X = Inr eph" by (rule ephemeral_key_returns[OF P(2-4) k(8) rnd(2)])
  have pub: "nd_PublishTo N ?pubB b n = (fst (nd_PublishTo N ?pubB b n), Inr ())" using net by (simp add: prod_eq_iff)
  have send: "\<exists>res. SendMessage P C KM S N c (Inr eph) (Inr nonce) (Inr nonce') body ?pubB X (s, n) =
      ((s\<lparr>sv_storage := fst (st_AddMessage S (unix (c 1)) ?pubB (se\<lparr>se_EncryptedEphemeralPriv := keyenc\<rparr>) (sv_storage s))\<rparr>,
        fst (nd_PublishTo N ?pubB b n)), Inr res)"
    unfolding SendMessage_def using st k(3,4) X plain(1) o(1) se ke(1) b long
    by (simp add: msg_def[symmetric] crypto_sizes Let_def) (subst pub, simp)
  have dec: "decryptWithEphemeralKey P KM env eph X = Inr msg"
    using o(3-6) plain(2) by (simp add: decryptWithEphemeralKey_def ParseMessage_def crypto_sizes)
  obtain res where res: "SendMessage P C KM S N c (Inr eph) (Inr nonce) (Inr nonce') body ?pubB X (s, n) =
      ((s\<lparr>sv_storage := fst (st_AddMessage S (unix (c 1)) ?pubB (se\<lparr>se_EncryptedEphemeralPriv := keyenc\<rparr>) (sv_storage s))\<rparr>,
        fst (nd_PublishTo N ?pubB b n)), Inr res)" using send by blast
  have "keyenc \<noteq> []" using ke(2) by auto
  then show ?thesis
    using inc(1-8,10,11) k(2) by (intro that[OF res b _ _ _ _ _ _ _ _ _ _ ke(3) dec]) auto
qed

lemma badger_good_run:
  assumes "kv_ok B view" "codecs_ok C" "view d0 = (\<lambda>_. None)"
  shows "badger_good B C view (Badger_run B C ops d0)"
  using assms mok_run[OF assms(1,2), of d0 ops] by (simp add: badger_good_def messages_ok_def)

lemma processEnvelope_accepts:
  assumes "marshal (c_signed C) se = Inr data" "codec_ok (c_signed C)"
    and "se_Envelope se \<noteq> []" "length (se_Signature se) = 64" "length (se_SenderPubkey se) = 32"
    and "ProcessIncomingMessage P C KM (Some se) (cf_OwnX25519PrivKey (sv_config s)) = Inr (msg, k)"
  shows "processEnvelope P C KM S now data s =
    ((store_received S now se s)\<lparr>sv_messageChan := if length (sv_messageChan s) < channel_capacity
       then sv_messageChan s @ [\<lparr>me_ContactPubKey = k, me_Message = msg, me_Envelope = se\<rparr>] else sv_messageChan s\<rparr>, Inr ())"
proof -
  have "unmarshal (c_signed C) data = Inr se" using codec_okD[OF assms(2), of se] assms(1) by auto
  then show ?thesis
    using assms by (simp add: processEnvelope_def ParseSignedEnvelope_def crypto_sizes store_received_def Let_def)
qed

lemma history_ignores_channel:
  "GetDecryptedMessagesWithMeta P C KM S k l off (s\<lparr>sv_messageChan := q\<rparr>) = GetDecryptedMessagesWithMeta P C KM S k l off s"
proof -
  have "decryptMessageWithMeta P C KM S mwk k (s\<lparr>sv_messageChan := q\<rparr>) = decryptMessageWithMeta P C KM S mwk k s" for mwk
    by (simp add: decryptMessageWithMeta_def decryptMessageContent_def decryptOutgoingMessage_def decryptIncomingMessage_def Let_def
        split: sum.split option.split)
  then show ?thesis by (simp add: GetDecryptedMessagesWithMeta_def split: sum.split)
qed

lemma local_copy_checks [simp]:
  "VerifyEnvelope P (Some (se\<lparr>se_EncryptedEphemeralPriv := x\<rparr>)) = VerifyEnvelope P (Some se)"
  "ParseEnvelope K (Some (se\<lparr>se_EncryptedEphemeralPriv := x\<rparr>)) = ParseEnvelope K (Some se)"
  by (simp_all add: VerifyEnvelope_def ParseEnvelope_def)

text \<open>C8. A direct message arrives and stays readable on both sides. With databases after any histories, when the network accepts
  the message: sending succeeds; what was published, processed by the recipient, is accepted and puts exactly the message,
  under the sender's key, on the recipient's event channel unless that is full; and both histories then show the
  message, the sender's as outgoing and the recipient's as incoming.\<close>

theorem message_delivery:
  fixes B :: "'d badger" and a b :: "'d MessagingService" and c :: "nat \<Rightarrow> time" and body :: string
  assumes laws: "crypto_laws P" "codecs_ok C" "codec_ok KM" "field_sizes C" "kv_ok B view"
    and hist: "view d0 = (\<lambda>_. None)" "sv_storage a = Badger_run B C opsA d0" "sv_storage b = Badger_run B C opsB d0"
    and started: "sv_isStarted a" "sv_isStarted b"
    and keys: "message_keys P (sv_config a) (sv_config b) eph X" "length nonce = 24" "length nonce' = 24"
    and contact: "Badger_GetContactX25519Key B C (cf_OwnEd25519PubKey (sv_config b)) (sv_storage a) = Inr X"
    and net: "\<forall>data. snd (nd_PublishTo N (cf_OwnEd25519PubKey (sv_config b)) data n) = Inr ()"
  defines "S \<equiv> badger_store B C" and "pubA \<equiv> cf_OwnEd25519PubKey (sv_config a)" and "pubB \<equiv> cf_OwnEd25519PubKey (sv_config b)"
    and "msg \<equiv> BuildMessageNow (c 0) body"
  shows "\<exists>a' b' data res. SendMessage P C KM S N c (Inr eph) (Inr nonce) (Inr nonce') body pubB X (a, n) = ((a', fst (nd_PublishTo N pubB data n)), Inr res)
    \<and> processEnvelope P C KM S now data b = (b', Inr ())
    \<and> (length (sv_messageChan b) < channel_capacity \<longrightarrow>
        (\<exists>e. sv_messageChan b' = sv_messageChan b @ [\<lparr>me_ContactPubKey = pubA, me_Message = msg, me_Envelope = e\<rparr>]))
    \<and> (\<exists>ms x. GetDecryptedMessagesWithMeta P C KM S pubB 0 0 a' = Inr ms \<and> x \<in> set ms \<and> mm_Message x = msg \<and> mm_IsOutgoing x)
    \<and> (\<exists>ms x. GetDecryptedMessagesWithMeta P C KM S pubA 0 0 b' = Inr ms \<and> x \<in> set ms \<and> mm_Message x = msg \<and> \<not> mm_IsOutgoing x)"
proof -
  have K: "codec_ok (c_signed C)" using laws(2) by (simp add: codecs_ok_def)
  have good: "badger_good B C view (sv_storage a)" "badger_good B C view (sv_storage b)"
    using badger_good_run[OF laws(5,2) hist(1)] hist(2,3) by simp_all
  obtain env se keyenc data res where
    send: "SendMessage P C KM S N c (Inr eph) (Inr nonce) (Inr nonce') body pubB X (a, n) =
      ((a\<lparr>sv_storage := fst (st_AddMessage S (unix (c 1)) pubB (se\<lparr>se_EncryptedEphemeralPriv := keyenc\<rparr>) (sv_storage a))\<rparr>,
        fst (nd_PublishTo N pubB data n)), Inr res)"
    and se: "marshal (c_signed C) se = Inr data" "VerifyEnvelope P (Some se) = Inr True" "ParseEnvelope (c_envelope C) (Some se) = Inr env"
      "ProcessIncomingMessage P C KM (Some se) (cf_OwnX25519PrivKey (sv_config b)) = Inr (msg, pubA)"
      "unmarshal (c_envelope C) (se_Envelope se) = Inr env" "ev_Nonce env = nonce" "se_SenderPubkey se = pubA"
      "length (se_Signature se) = 64" "se_Envelope se \<noteq> []"
      "\<exists>plain. DecryptEnvelope P (Some env) (cf_OwnX25519PrivKey (sv_config b)) = Inr plain \<and> ParseMessage KM plain = Inr msg"
    and own: "keyenc \<noteq> []" "decryptEphemeralKey P keyenc (cf_OwnX25519PrivKey (sv_config a)) X = Inr eph" "decryptWithEphemeralKey P KM env eph X = Inr msg"
    unfolding S_def pubA_def pubB_def msg_def by (rule SendMessage_sends[OF laws(1-4) keys started(1) net])
  obtain plain where plain: "DecryptEnvelope P (Some env) (cf_OwnX25519PrivKey (sv_config b)) = Inr plain" "ParseMessage KM plain = Inr msg" using se(10) by blast
  have ne: "ev_Nonce env \<noteq> []" using se(6) keys(2) by auto
  have pub: "length pubA = 32" "pubA \<noteq> pubB"
    using keys(1) laws(1) sig_correctD(2) by (auto simp: message_keys_def pubA_def pubB_def crypto_laws_def)
  let ?b' = "(store_received S now se b)\<lparr>sv_messageChan := if length (sv_messageChan b) < channel_capacity
       then sv_messageChan b @ [\<lparr>me_ContactPubKey = pubA, me_Message = msg, me_Envelope = se\<rparr>] else sv_messageChan b\<rparr>"
  have recv: "processEnvelope P C KM S now data b = (?b', Inr ())"
    using processEnvelope_accepts[OF se(1) K se(9,8) _ se(4)] se(7) pub(1) by simp
  let ?se = "se\<lparr>se_EncryptedEphemeralPriv := keyenc\<rparr>"
  have out: "\<exists>ms x. GetDecryptedMessagesWithMeta P C KM S pubB 0 0 (a\<lparr>sv_storage := fst (st_AddMessage S (unix (c 1)) pubB ?se (sv_storage a))\<rparr>) = Inr ms
      \<and> x \<in> set ms \<and> mm_Message x = msg \<and> mm_IsOutgoing x"
    unfolding S_def
  proof (rule badger_messages.outgoing_shown[OF good(1) started(1)])
    show "unmarshal (c_envelope C) (se_Envelope ?se) = Inr env" "ev_Nonce env \<noteq> []" using se(5) ne by simp_all
    show "VerifyEnvelope P (Some ?se) = Inr True" "ParseEnvelope (c_envelope C) (Some ?se) = Inr env"
      using se(2,3) by simp_all
    show "se_SenderPubkey ?se = cf_OwnEd25519PubKey (sv_config a)" using se(7) by (simp add: pubA_def)
    show "st_GetContactX25519Key (badger_store B C) pubB (sv_storage a) = Inr X" using contact by (simp add: badger_store_def pubB_def)
    show "decryptEphemeralKeyFromEnvelope P ?se (cf_OwnX25519PrivKey (sv_config a)) X = Inr (Some eph)"
      using own by (simp add: decryptEphemeralKeyFromEnvelope_def)
  qed (rule own(3))
  have inc: "\<exists>ms x. GetDecryptedMessagesWithMeta P C KM S pubA 0 0 ?b' = Inr ms \<and> x \<in> set ms \<and> mm_Message x = msg \<and> \<not> mm_IsOutgoing x"
    unfolding history_ignores_channel
    using badger_messages.incoming_shown[OF good(2) started(2) se(5) ne se(2,3) plain, of now] pub(2) se(7)
    by (simp add: S_def pubA_def pubB_def)
  have chan: "length (sv_messageChan b) < channel_capacity \<longrightarrow>
      (\<exists>e. sv_messageChan ?b' = sv_messageChan b @ [\<lparr>me_ContactPubKey = pubA, me_Message = msg, me_Envelope = e\<rparr>])" by simp
  from send recv chan out inc show ?thesis by blast
qed

definition ser_Message :: "Message ser" where
  "ser_Message = s_iso (\<lambda>m. (mg_Text m, mg_Timestamp m)) (\<lambda>(a, b). \<lparr>mg_Text = a, mg_Timestamp = b\<rparr>) (s_pair s_string s_u64)"

lemma ser_Message_ok: "codec_ok (codec_of ser_Message)"
  unfolding ser_Message_def by (rule codec_of_ok, rule s_iso_ok, intro ser_intros, simp)

lemma ref_field_sizes: "field_sizes ref_codecs"
  by (simp add: field_sizes_def ref_codecs_def codec_of_def ser_Envelope_def ser_SignedEnvelope_def s_iso_def s_pair_def put_bytes_length)

lemma toy_crypto_laws: "crypto_laws toy"
  by (simp add: crypto_laws_def toy_laws toy_dh_sizes)

definition alice_keys :: Config where
  "alice_keys = \<lparr>cf_OwnEd25519PrivKey = replicate 64 1, cf_OwnEd25519PubKey = replicate 32 1, cf_OwnX25519PrivKey = replicate 32 2, cf_OwnX25519PubKey = replicate 32 2\<rparr>"

definition bob_keys :: Config where
  "bob_keys = \<lparr>cf_OwnEd25519PrivKey = replicate 64 3, cf_OwnEd25519PubKey = replicate 32 3, cf_OwnX25519PrivKey = replicate 32 4, cf_OwnX25519PubKey = replicate 32 4\<rparr>"

lemma example_message_keys: "message_keys toy alice_keys bob_keys (replicate 32 5) (replicate 32 4)"
  by (simp add: message_keys_def alice_keys_def bob_keys_def vec_add_zero replicate_eq_replicate)

text \<open>A network that takes every message.\<close>

definition open_network :: "(bytes \<times> bytes) list ipfs_node" where
  "open_network = \<lparr>nd_IsStarted = (\<lambda>_. True), nd_Subscribe = (\<lambda>_ n. (n, Inr ())), nd_PublishTo = (\<lambda>k b n. (n @ [(k, b)], Inr ())),
     nd_Get = (\<lambda>_ _. Inl (Err ''not found'')), nd_Peers = (\<lambda>_. []), nd_FindPeer = (\<lambda>_ _. Inl (Err ''not found'')),
     nd_ConnectToPeer = (\<lambda>_ n. (n, Inl (Err ''unreachable''))), nd_MeshSize = (\<lambda>_ _. None)\<rparr>"

definition bob_contact :: Contact where
  "bob_contact = \<lparr>ct_PublicKey = replicate 32 3, ct_DisplayName = ''Bob'', ct_CreatedAt = 0, ct_X25519PublicKey = replicate 32 4, ct_PeerId = '''',
     ct_Multiaddrs = [], ct_LastSeen = 0\<rparr>"

definition started_service :: "Config \<Rightarrow> 'd \<Rightarrow> 'd MessagingService" where
  "started_service cfg d = (NewMessagingService cfg d)\<lparr>sv_isStarted := True\<rparr>"

lemma bob_is_contact:
  "Badger_GetContactX25519Key alist_db ref_codecs (replicate 32 3) (Badger_run alist_db ref_codecs [(0, OAddContact bob_contact)] []) = Inr (replicate 32 4)"
proof -
  obtain b where b: "unmarshal (c_contact ref_codecs) b = Inr bob_contact"
    "map_of (fst (store_msg alist_db (c_contact ref_codecs) ''failed to marshal contact'' ''failed to store contact'' (contactKey (replicate 32 3)) bob_contact [])) =
      (map_of [])(contactKey (replicate 32 3) \<mapsto> b)"
    by (rule store_msg_view[OF alist_db_ok codecs_okD(1)[OF ref_codecs_ok]])
  have k: "ct_PublicKey bob_contact = replicate 32 3" by (simp add: bob_contact_def)
  show ?thesis
    using b by (simp add: Badger_run_def Badger_AddContact_def k Badger_GetContactX25519Key_def Badger_GetContact_def load_msg_def kv_get[OF alist_db_ok])
      (simp add: bob_contact_def)
qed

theorem message_delivery_witness:
  "\<exists>a' b' data res. SendMessage toy ref_codecs (codec_of ser_Message) (badger_store alist_db ref_codecs) open_network (\<lambda>_. 7000000000) (Inr (replicate 32 5))
      (Inr (replicate 24 6)) (Inr (replicate 24 7)) ''hello'' (replicate 32 3) (replicate 32 4)
      (started_service alice_keys (Badger_run alist_db ref_codecs [(0, OAddContact bob_contact)] []), []) = ((a', [(replicate 32 3, data)]), Inr res)
    \<and> processEnvelope toy ref_codecs (codec_of ser_Message) (badger_store alist_db ref_codecs) 0 data (started_service bob_keys []) = (b', Inr ())
    \<and> map me_Message (sv_messageChan b') = [\<lparr>mg_Text = ''hello'', mg_Timestamp = 7\<rparr>]"
proof -
  let ?a = "started_service alice_keys (Badger_run alist_db ref_codecs [(0, OAddContact bob_contact)] [])" and ?b = "started_service bob_keys ([] :: (bytes, bytes) gomap)"
  have cfg: "sv_config ?a = alice_keys" "sv_config ?b = bob_keys" "sv_isStarted ?a" "sv_isStarted ?b" "sv_messageChan ?b = []"
    "sv_storage ?a = Badger_run alist_db ref_codecs [(0, OAddContact bob_contact)] []" "sv_storage ?b = Badger_run alist_db ref_codecs [] []"
    by (simp_all add: started_service_def NewMessagingService_def Badger_run_def)
  have pub: "cf_OwnEd25519PubKey bob_keys = replicate 32 3" by (simp add: bob_keys_def)
  have m: "BuildMessageNow 7000000000 ''hello'' = \<lparr>mg_Text = ''hello'', mg_Timestamp = 7\<rparr>"
    by (simp add: BuildMessageNow_def BuildMessage_def unix_def)
  have keys: "message_keys toy (sv_config ?a) (sv_config ?b) (replicate 32 5) (replicate 32 4)" unfolding cfg by (rule example_message_keys)
  have contact: "Badger_GetContactX25519Key alist_db ref_codecs (cf_OwnEd25519PubKey (sv_config ?b)) (sv_storage ?a) = Inr (replicate 32 4)"
    unfolding cfg pub by (rule bob_is_contact)
  have net: "\<forall>data. snd (nd_PublishTo open_network (cf_OwnEd25519PubKey (sv_config ?b)) data []) = Inr ()" by (simp add: open_network_def)
  have pubs: "fst (nd_PublishTo open_network k data []) = [(k, data)]" for k data by (simp add: open_network_def)
  have cap: "length ([] :: MessageEvent list) < channel_capacity" by (simp add: channel_capacity_def)
  note d = message_delivery[OF toy_crypto_laws ref_codecs_ok ser_Message_ok ref_field_sizes alist_db_ok map_of.simps(1) cfg(6,7,3,4) keys length_replicate
      length_replicate contact net, of "\<lambda>_. 7000000000" 6 7 "''hello''" 0, unfolded cfg(1,2,5) pub m pubs]
  then obtain a' b' data res e where
    "SendMessage toy ref_codecs (codec_of ser_Message) (badger_store alist_db ref_codecs) open_network (\<lambda>_. 7000000000) (Inr (replicate 32 5))
      (Inr (replicate 24 6)) (Inr (replicate 24 7)) ''hello'' (replicate 32 3) (replicate 32 4) (?a, []) = ((a', [(replicate 32 3, data)]), Inr res)"
    "processEnvelope toy ref_codecs (codec_of ser_Message) (badger_store alist_db ref_codecs) 0 data ?b = (b', Inr ())"
    "sv_messageChan b' = [\<lparr>me_ContactPubKey = cf_OwnEd25519PubKey alice_keys, me_Message = \<lparr>mg_Text = ''hello'', mg_Timestamp = 7\<rparr>, me_Envelope = e\<rparr>]"
    using cap by (elim exE conjE) auto
  then show ?thesis by (intro exI conjI) auto
qed

section \<open>Invariants of the service\<close>

definition online :: "bytes \<Rightarrow> 'd MessagingService \<Rightarrow> bool" where
  "online k s \<longleftrightarrow> (\<exists>info. gm_get (sv_contactPeers s) k = Some info \<and> cpi_Connected info)"

text \<open>Everything but receiving leaves the channel alone, and the cache of peers only gains connected peers.\<close>

definition quiet :: "'d MessagingService \<Rightarrow> 'd MessagingService \<Rightarrow> bool" where
  "quiet s s' \<longleftrightarrow> sv_config s' = sv_config s \<and> sv_messageChan s' = sv_messageChan s \<and> (\<forall>k. online k s \<longrightarrow> online k s')"

lemma quiet_refl [simp]: "quiet s s"
  by (simp add: quiet_def)

lemma quiet_update:
  "quiet s (updateContactPeer S c k p addrs True s)" "online k (updateContactPeer S c k p addrs True s)"
  "quiet s (s\<lparr>sv_storage := d\<rparr>)" "quiet s (s\<lparr>sv_isStarted := st\<rparr>)"
  by (auto simp: quiet_def online_def updateContactPeer_def)

lemma quiet_result: "quiet s (fst (fst (connected_result S c k p addrs src (s, n))))" "online k (fst (fst (connected_result S c k p addrs src (s, n))))"
  by (simp_all add: connected_result_def quiet_update)

lemma dht_result:
  "quiet s (fst (fst (connect_dht S N c k p (s, n))))" "is_ok (snd (connect_dht S N c k p (s, n))) \<Longrightarrow> online k (fst (fst (connect_dht S N c k p (s, n))))"
  by (cases "p = []"; auto simp: connect_dht_def Let_def quiet_result split: sum.splits list.splits prod.splits)+

lemma find_result:
  "quiet s (fst (fst (find_contact S N c k info (s, n)))) \<and> (is_ok (snd (find_contact S N c k info (s, n))) \<longrightarrow> online k (fst (fst (find_contact S N c k info (s, n)))))"
proof (cases "st_GetContact S k (sv_storage s)")
  case (Inr co)
  then show ?thesis
    by (cases co) (simp_all add: find_contact_def Let_def quiet_result dht_result split_beta)
qed (simp add: find_contact_def)

lemma FindAndConnect_result:
  "quiet (fst sn) (fst (fst (FindAndConnectToContact S N c k sn)))
   \<and> (is_ok (snd (FindAndConnectToContact S N c k sn)) \<longrightarrow> online k (fst (fst (FindAndConnectToContact S N c k sn))))"
  using find_result[of "fst sn" S N c k _ "snd sn"]
  by (auto simp: FindAndConnectToContact_def online_def split: option.splits)

lemma IsContactOnline_quiet: "quiet (fst sn) (fst (fst (IsContactOnline S N c k sn)))"
  by (cases sn) (auto simp: IsContactOnline_def quiet_update split: sum.splits option.splits)

lemma SendMessage_quiet: "quiet (fst sn) (fst (fst (SendMessage P C KM S N c r1 r2 r3 body ed x sn)))"
  by (cases sn) (auto simp: SendMessage_def Let_def quiet_update split: sum.splits prod.splits)

lemma receive_quiet:
  "quiet s (fst (ReceiveMessageDirect P C KM S now se s))" "quiet s (fst (ReceiveMessage P C KM S now b s))"
  "quiet s (fst (FetchAndReceiveMessage P C KM S N now cid (s, n)))"
proof -
  show d: "quiet s (fst (ReceiveMessageDirect P C KM S now se s))" for se
    by (auto simp: ReceiveMessageDirect_def Let_def store_received_def quiet_update split: sum.splits)
  show r: "quiet s (fst (ReceiveMessage P C KM S now b s))" for b
    by (auto simp: ReceiveMessage_def d split: sum.splits)
  show "quiet s (fst (FetchAndReceiveMessage P C KM S N now cid (s, n)))"
    by (auto simp: FetchAndReceiveMessage_def r split: sum.splits)
qed

definition authentic :: "prims \<Rightarrow> codecs \<Rightarrow> Message codec \<Rightarrow> Config \<Rightarrow> MessageEvent \<Rightarrow> bool" where
  "authentic P C KM cfg ev \<longleftrightarrow> ProcessIncomingMessage P C KM (Some (me_Envelope ev)) (cf_OwnX25519PrivKey cfg) = Inr (me_Message ev, me_ContactPubKey ev)"

lemma process_result:
  "sv_config (fst (processEnvelope P C KM S now b s)) = sv_config s \<and> (online k s \<longrightarrow> online k (fst (processEnvelope P C KM S now b s)))
   \<and> (sv_messageChan (fst (processEnvelope P C KM S now b s)) = sv_messageChan s
     \<or> (\<exists>ev. authentic P C KM (sv_config s) ev \<and> length (sv_messageChan s) < channel_capacity
          \<and> sv_messageChan (fst (processEnvelope P C KM S now b s)) = sv_messageChan s @ [ev]))"
  by (auto simp: processEnvelope_def Let_def store_received_def authentic_def online_def split: sum.splits)

lemma ms_step_result:
  assumes "ms_step P C KM S N sn sn'"
  shows "sv_config (fst sn') = sv_config (fst sn) \<and> (\<forall>k. online k (fst sn) \<longrightarrow> online k (fst sn'))
    \<and> (sv_messageChan (fst sn') = sv_messageChan (fst sn) \<or> (\<exists>e. sv_messageChan (fst sn) = e # sv_messageChan (fst sn'))
      \<or> (\<exists>ev. authentic P C KM (sv_config (fst sn)) ev \<and> length (sv_messageChan (fst sn)) < channel_capacity
          \<and> sv_messageChan (fst sn') = sv_messageChan (fst sn) @ [ev]))"
  using assms
proof (cases rule: ms_step.cases)
  case (ms_start r)
  have "quiet (fst sn) (fst (fst (Messaging_Start P N sn)))"
    by (cases sn) (auto simp: Messaging_Start_def quiet_update split: sum.splits prod.splits)
  then show ?thesis using ms_start by (simp add: quiet_def)
next
  case (ms_send c r1 r2 r3 body ed x r')
  then show ?thesis using SendMessage_quiet[where sn = sn and P = P and C = C and KM = KM and S = S and N = N and c = c and ?r1.0 = r1 and ?r2.0 = r2 and ?r3.0 = r3
    and body = body and ed = ed and x = x] by (simp add: quiet_def)
next
  case (ms_direct now se s s' r'' n)
  then show ?thesis using receive_quiet(1)[of s P C KM S now se] by (simp add: quiet_def)
next
  case (ms_receive now b s s' r'' n)
  then show ?thesis using receive_quiet(2)[of s P C KM S now b] by (simp add: quiet_def)
next
  case (ms_fetch now cid s n s' r'')
  then show ?thesis using receive_quiet(3)[of s P C KM S N now cid n] by (simp add: quiet_def)
next
  case (ms_deliver now b s s' r n)
  then show ?thesis using process_result[of P C KM S now b s] by auto
next
  case (ms_take s s' ev n)
  then show ?thesis by (auto simp: take_event_def online_def split: list.splits)
next
  case (ms_find c k fr)
  then show ?thesis using FindAndConnect_result[of sn S N c k] by (simp add: quiet_def)
next
  case (ms_online c k br)
  then show ?thesis using IsContactOnline_quiet[of sn S N c k] by (simp add: quiet_def)
next
  case (ms_connect addr fr)
  have "fst (fst (FindAndConnect N addr sn)) = fst sn"
    by (cases sn) (auto simp: FindAndConnect_def split: sum.splits prod.splits)
  then show ?thesis using ms_connect by simp
qed (auto simp: Messaging_Stop_def online_def)

definition events_ok :: "prims \<Rightarrow> codecs \<Rightarrow> Message codec \<Rightarrow> Config \<Rightarrow> 'd MessagingService \<times> 'n \<Rightarrow> bool" where
  "events_ok P C KM cfg sn \<longleftrightarrow> sv_config (fst sn) = cfg \<and> length (sv_messageChan (fst sn)) \<le> channel_capacity \<and>
     (\<forall>ev\<in>set (sv_messageChan (fst sn)). authentic P C KM cfg ev)"

interpretation events: kept_invariant "ms_step P C KM S N" "events_ok P C KM cfg" for P C KM S N cfg
proof unfold_locales
  fix sn sn' assume "ms_step P C KM S N sn sn'" "events_ok P C KM cfg sn"
  then show "events_ok P C KM cfg sn'" using ms_step_result[of P C KM S N sn sn'] by (auto simp: events_ok_def)
qed

interpretation peers_online: kept_invariant "ms_step P C KM S N" "\<lambda>sn. online k (fst sn)" for P C KM S N k
  by unfold_locales (use ms_step_result in blast)

lemma incoming_authentic:
  "ProcessIncomingMessage P C KM (Some se) x = Inr (m, k) \<Longrightarrow> VerifyEnvelope P (Some se) = Inr True \<and> se_SenderPubkey se = k"
  by (auto simp: ProcessIncomingMessage_def split: sum.splits if_splits)

text \<open>C13. In every state the service reaches, under any sequence of calls, deliveries and changes of the network, at most 100
  events wait in the channel, and each of them carries an envelope whose signature verifies under the key it names as its sender and
  which the owner's key decrypts to the message of the event.\<close>

theorem events_authentic:
  assumes "(ms_step P C KM S N)\<^sup>*\<^sup>* (NewMessagingService cfg d, n) (s, n')"
  shows "length (sv_messageChan s) \<le> 100 \<and>
    (\<forall>ev\<in>set (sv_messageChan s). VerifyEnvelope P (Some (me_Envelope ev)) = Inr True \<and> se_SenderPubkey (me_Envelope ev) = me_ContactPubKey ev \<and>
      ProcessIncomingMessage P C KM (Some (me_Envelope ev)) (cf_OwnX25519PrivKey cfg) = Inr (me_Message ev, me_ContactPubKey ev))"
proof -
  have "events_ok P C KM cfg (s, n')"
    by (rule events.reachable_inv[OF assms]) (simp add: events_ok_def NewMessagingService_def)
  then show ?thesis
    using incoming_authentic[of P C KM] by (auto simp: events_ok_def authentic_def channel_capacity_def)
qed

text \<open>A contact that was connected once counts as online for ever: after any further calls and whatever happened to the network, a
  running service answers that the contact is online and that it connected to it, without any attempt to reach it.\<close>

theorem contact_online_forever:
  assumes "FindAndConnectToContact S N c k sn = (sn1, Inr r)" "(ms_step P C KM S N)\<^sup>*\<^sup>* sn1 sn2" "sv_isStarted (fst sn2)"
  shows "IsContactOnline S N c' k sn2 = (sn2, Inr True) \<and>
    (\<exists>r'. FindAndConnectToContact S N c' k sn2 = (sn2, Inr r') \<and> fc_Source r' = ''cached'')"
proof -
  have "online k (fst sn1)" using FindAndConnect_result[of sn S N c k] assms(1) by simp
  then have "online k (fst sn2)" using peers_online.reachable_inv[OF assms(2)] by blast
  then obtain info where "gm_get (sv_contactPeers (fst sn2)) k = Some info" "cpi_Connected info" by (auto simp: online_def)
  then show ?thesis
    using assms(3) by (cases sn2) (simp add: IsContactOnline_def FindAndConnectToContact_def)
qed

theorem events_authentic_witness:
  "\<exists>s ev. (ms_step toy ref_codecs (codec_of ser_Message) (badger_store alist_db ref_codecs) open_network)\<^sup>*\<^sup>* (NewMessagingService bob_keys [], []) (s, [])
    \<and> sv_messageChan s = [ev] \<and> VerifyEnvelope toy (Some (me_Envelope ev)) = Inr True \<and> se_SenderPubkey (me_Envelope ev) = me_ContactPubKey ev"
proof -
  let ?S = "badger_store alist_db ref_codecs" and ?KM = "codec_of ser_Message" and ?a = "started_service alice_keys ([] :: (bytes, bytes) gomap)"
    and ?b = "NewMessagingService bob_keys ([] :: (bytes, bytes) gomap)"
  have a: "sv_config ?a = alice_keys" "sv_isStarted ?a" by (simp_all add: started_service_def NewMessagingService_def)
  have b: "sv_config ?b = bob_keys" "sv_messageChan ?b = []" by (simp_all add: NewMessagingService_def)
  have net: "\<forall>data. snd (nd_PublishTo open_network (cf_OwnEd25519PubKey bob_keys) data []) = Inr ()" by (simp add: open_network_def)
  have keys: "message_keys toy (sv_config ?a) bob_keys (replicate 32 5) (replicate 32 4)" unfolding a by (rule example_message_keys)
  obtain se data msg where se: "marshal (c_signed ref_codecs) se = Inr data" "se_Envelope se \<noteq> []" "length (se_Signature se) = 64"
    "se_SenderPubkey se = cf_OwnEd25519PubKey alice_keys"
    "ProcessIncomingMessage toy ref_codecs ?KM (Some se) (cf_OwnX25519PrivKey bob_keys) = Inr (msg, cf_OwnEd25519PubKey alice_keys)"
    by (rule SendMessage_sends[OF toy_crypto_laws ref_codecs_ok ser_Message_ok ref_field_sizes keys
      length_replicate[of 24 "6 :: 8 word"] length_replicate[of 24 "7 :: 8 word"] a(2) net, where S = ?S and c = "\<lambda>_. 7000000000" and body = "''hello''", unfolded a]) blast
  have 32: "length (se_SenderPubkey se) = 32" using se(4) by (simp add: alice_keys_def)
  have K: "codec_ok (c_signed ref_codecs)" using ref_codecs_ok by (simp add: codecs_ok_def)
  obtain s ev where s: "processEnvelope toy ref_codecs ?KM ?S 0 data ?b = (s, Inr ())" "sv_messageChan s = [ev]"
    using processEnvelope_accepts[OF se(1) K se(2,3) 32, where P = toy and KM = ?KM and s = ?b and msg = msg and S = ?S and now = 0] se(5) b by (auto simp: channel_capacity_def)
  have r: "(ms_step toy ref_codecs ?KM ?S open_network)\<^sup>*\<^sup>* (?b, []) (s, [])"
    by (rule r_into_rtranclp, rule ms_deliver, rule s(1))
  from events_authentic[OF r] s(2) r show ?thesis by auto
qed

text \<open>A network that reaches the peer \<open>bob\<close> as long as it is up.\<close>

definition switched_network :: "bool ipfs_node" where
  "switched_network = \<lparr>nd_IsStarted = (\<lambda>_. True), nd_Subscribe = (\<lambda>_ n. (n, Inr ())), nd_PublishTo = (\<lambda>k b n. (n, Inr ())),
     nd_Get = (\<lambda>_ _. Inl (Err ''not found'')), nd_Peers = (\<lambda>up. if up then [''bob''] else []),
     nd_FindPeer = (\<lambda>_ up. if up then Inr [''/ip4/1.2.3.4/tcp/1''] else Inl (Err ''not found'')),
     nd_ConnectToPeer = (\<lambda>_ up. (up, if up then Inr () else Inl (Err ''unreachable''))), nd_MeshSize = (\<lambda>_ _. None)\<rparr>"

definition peer_contact :: Contact where
  "peer_contact = bob_contact\<lparr>ct_PeerId := ''bob''\<rparr>"

theorem contact_online_forever_witness:
  "\<exists>s. IsContactOnline memory_store switched_network (\<lambda>_. 0) (replicate 32 3) (s, False) = ((s, False), Inr True)"
proof -
  let ?s = "started_service alice_keys (AddContact peer_contact NewMemoryStorage)"
  obtain s r where f: "FindAndConnectToContact memory_store switched_network (\<lambda>_. 0) (replicate 32 3) (?s, True) = ((s, True), Inr r)" "sv_isStarted s"
    by (simp add: FindAndConnectToContact_def find_contact_def connectToPeerID_def connected_result_def updateContactPeer_def started_service_def
        NewMessagingService_def memory_store_def switched_network_def AddContact_def GetContact_def NewMemoryStorage_def peer_contact_def bob_contact_def)
  have "(ms_step toy ref_codecs (codec_of ser_Message) memory_store switched_network)\<^sup>*\<^sup>* (s, True) (s, False)"
    by (intro r_into_rtranclp ms_network)
  from contact_online_forever[OF f(1) this, of "\<lambda>_. 0"] f(2) show ?thesis by auto
qed

end
