(* ===== verification/Identity.thy ===== *)
theory Identity
  imports Crypto GoTime RefCodec
begin

text \<open>
  \<open>pkg/identity\<close>: the keys of an identity (\<open>identity.go\<close>, \<open>identity_v1.go\<close>), the device certificates and prekeys it signs, the signed identity
  document (\<open>identity_document.go\<close>) and its publication in the DHT (\<open>dht_identity.go\<close>).

  BIP39, Base58 and the expansion of an Ed25519 seed are fields of the record \<open>id_prims\<close>, protobuf coding the record
  \<open>id_codecs\<close>, the DHT the record \<open>dht\<close> over a state of its own. Randomness and the time are arguments. An array pointer
  \<open>*[32]byte\<close> is its bytes; the zero time is \<open>None\<close>.
\<close>

section \<open>Parameters\<close>

record id_prims =
  bip39_IsMnemonicValid :: "string \<Rightarrow> bool"
  bip39_NewSeed :: "string \<Rightarrow> bytes"
  ed25519_NewKeyFromSeed :: "bytes \<Rightarrow> bytes"
  base58_Encode :: "bytes \<Rightarrow> string"

text \<open>The documented sizes: a BIP39 seed has 64 bytes, the private key of a 32-byte seed has 64.\<close>

definition id_sizes :: "id_prims \<Rightarrow> bool" where
  "id_sizes I \<longleftrightarrow> (\<forall>s. length (bip39_NewSeed I s) = 64) \<and> (\<forall>s. length s = 32 \<longrightarrow> length (ed25519_NewKeyFromSeed I s) = 64)"

record FeatureFlags =
  ff_SupportsReadReceipts :: bool
  ff_SupportsTypingIndicators :: bool
  ff_SupportsReactions :: bool
  ff_SupportsEdits :: bool
  ff_SupportsMedia :: bool
  ff_SupportsVoiceCalls :: bool
  ff_SupportsVideoCalls :: bool
  ff_SupportsGroups :: bool
  ff_SupportsChannels :: bool
  ff_SupportsOfflineMessages :: bool
  ff_CustomFeatures :: "string list"

record DeviceCertificate =
  dc_DeviceId :: bytes
  dc_DeviceSignPub :: bytes
  dc_DeviceDhPub :: bytes
  dc_DeviceName :: string
  dc_CreatedAt :: u64
  dc_ExpiresAt :: u64
  dc_IdentityPub :: bytes
  dc_Signature :: bytes

record SignedPrekey =
  sp_DeviceId :: bytes
  sp_PrekeyPub :: bytes
  sp_PrekeyId :: u64
  sp_CreatedAt :: u64
  sp_ExpiresAt :: u64
  sp_Signature :: bytes

record OneTimePrekey =
  op_DeviceId :: bytes
  op_PrekeyPub :: bytes
  op_PrekeyId :: u64

record RevocationCertificate =
  rv_RevokedKey :: bytes
  rv_RevocationType :: string
  rv_Reason :: string
  rv_RevokedAt :: u64
  rv_Signature :: bytes

record IdentityDocument =
  do_IdentitySignPub :: bytes
  do_IdentityDhPub :: bytes
  do_Sequence :: u64
  do_PreviousHash :: bytes
  do_CreatedAt :: u64
  do_UpdatedAt :: u64
  do_Devices :: "DeviceCertificate list"
  do_SignedPrekeys :: "SignedPrekey list"
  do_OneTimePrekeys :: "OneTimePrekey list"
  do_SupportedVersions :: "u32 list"
  do_SupportedCipherSuites :: "string list"
  do_PreferredVersion :: u32
  do_DisplayName :: string
  do_AvatarCid :: string
  do_Revocations :: "RevocationCertificate list"
  do_Features :: "FeatureFlags option"
  do_Signature :: bytes

record PrekeyBundle =
  pk_SignedPrekeys :: "SignedPrekey list"
  pk_OneTimePrekeys :: "OneTimePrekey list"
  pk_PublishedAt :: u64

record id_codecs =
  ic_device :: "DeviceCertificate codec"
  ic_spk :: "SignedPrekey codec"
  ic_opk :: "OneTimePrekey codec"
  ic_revocation :: "RevocationCertificate codec"
  ic_features :: "FeatureFlags codec"
  ic_document :: "IdentityDocument codec"
  ic_bundle :: "PrekeyBundle codec"

definition id_codecs_ok :: "id_codecs \<Rightarrow> bool" where
  "id_codecs_ok C \<longleftrightarrow> codec_ok (ic_device C) \<and> codec_ok (ic_spk C) \<and> codec_ok (ic_opk C) \<and> codec_ok (ic_revocation C) \<and>
     codec_ok (ic_features C) \<and> codec_ok (ic_document C) \<and> codec_ok (ic_bundle C)"

record 'n dht =
  dht_PutToDHT :: "string \<Rightarrow> bytes \<Rightarrow> int \<Rightarrow> 'n \<Rightarrow> ('n, unit) eff"
  dht_GetFromDHT :: "string \<Rightarrow> 'n \<Rightarrow> bytes res"
  dht_GetClosestPeers :: "string \<Rightarrow> 'n \<Rightarrow> string list res"

section \<open>Keys\<close>

definition SeedLength :: nat where "SeedLength = 64"
definition DeviceIDSize :: nat where "DeviceIDSize = 16"
definition OPKReplenishThreshold :: int where "OPKReplenishThreshold = 20"
definition SPKRotationDays :: int where "SPKRotationDays = 7"
definition SPKOverlapHours :: int where "SPKOverlapHours = 24"

definition hour :: int where "hour = 3600 * 1000000000"

record Identity_rec =
  idn_Mnemonic :: string
  idn_Seed :: bytes
  idn_Ed25519PubKey :: bytes
  idn_Ed25519PrivKey :: bytes
  idn_X25519PubKey :: bytes
  idn_X25519PrivKey :: bytes

definition DeriveSeed :: "id_prims \<Rightarrow> string \<Rightarrow> bytes res" where
  "DeriveSeed I mnemonic =
     (if \<not> bip39_IsMnemonicValid I mnemonic then Inl (Err ''invalid mnemonic'')
      else let seed = bip39_NewSeed I mnemonic
           in if length seed \<noteq> SeedLength then Inl (Err (''unexpected seed length: '' @ dec_of_nat (length seed))) else Inr seed)"

text \<open>Both key pairs from HKDF outputs. The functions that use these differ in the labels and in the texts of their errors.\<close>

definition derive_ed :: "prims \<Rightarrow> id_prims \<Rightarrow> string \<Rightarrow> bytes \<Rightarrow> string \<Rightarrow> string \<Rightarrow> (bytes \<times> bytes) res" where
  "derive_ed P I msg secret salt info =
     (case hkdf_sha256 P secret (str_bytes salt) (str_bytes info) 32 of
        Inl e \<Rightarrow> Inl (Wrap msg e)
      | Inr edSeed \<Rightarrow> let edPriv = ed25519_NewKeyFromSeed I edSeed in Inr (ed_public P edPriv, edPriv))"

definition derive_x :: "prims \<Rightarrow> string \<Rightarrow> string \<Rightarrow> bytes \<Rightarrow> string \<Rightarrow> string \<Rightarrow> (bytes \<times> bytes) res" where
  "derive_x P msg msg' secret salt info =
     (case hkdf_sha256 P secret (str_bytes salt) (str_bytes info) 32 of
        Inl e \<Rightarrow> Inl (Wrap msg e)
      | Inr dhSeed \<Rightarrow> (case X25519 P (copy32 dhSeed) (Basepoint P) of
          Inl e \<Rightarrow> Inl (Wrap msg' e)
        | Inr dhResult \<Rightarrow> Inr (copy32 dhResult, copy32 dhSeed)))"

definition deriveEd25519Keys :: "prims \<Rightarrow> id_prims \<Rightarrow> bytes \<Rightarrow> (bytes \<times> bytes) res" where
  "deriveEd25519Keys P I seed = derive_ed P I ''failed to derive Ed25519 key'' seed ''ed25519-derive'' ''index-0''"

definition deriveX25519Keys :: "prims \<Rightarrow> bytes \<Rightarrow> (bytes \<times> bytes) res" where
  "deriveX25519Keys P seed = derive_x P ''failed to derive X25519 key'' ''X25519 key derivation failed'' seed ''x25519-derive'' ''index-1''"

definition NewIdentity :: "prims \<Rightarrow> id_prims \<Rightarrow> string \<Rightarrow> Identity_rec res" where
  "NewIdentity P I mnemonic =
     rbind (wrapped ''failed to derive seed'' (DeriveSeed I mnemonic)) (\<lambda>seed.
     rbind (wrapped ''failed to derive Ed25519 keys'' (deriveEd25519Keys P I seed)) (\<lambda>(edPub, edPriv).
     rbind (wrapped ''failed to derive X25519 keys'' (deriveX25519Keys P seed)) (\<lambda>(xPub, xPriv).
     Inr \<lparr>idn_Mnemonic = mnemonic, idn_Seed = seed, idn_Ed25519PubKey = edPub, idn_Ed25519PrivKey = edPriv,
       idn_X25519PubKey = xPub, idn_X25519PrivKey = xPriv\<rparr>)))"

definition DeriveMasterSecret :: "prims \<Rightarrow> bytes \<Rightarrow> bytes res" where
  "DeriveMasterSecret P seed =
     (if length seed \<noteq> SeedLength then Inl (Err (''invalid seed length: '' @ dec_of_nat (length seed) @ '', expected 64''))
      else wrapped ''failed to derive master secret'' (hkdf_sha256 P seed (str_bytes ''bt-master-key'') (str_bytes ''babylon-tower-v1'') 32))"

definition DeriveIdentityKeysV1 :: "prims \<Rightarrow> id_prims \<Rightarrow> bytes \<Rightarrow> (bytes \<times> bytes \<times> bytes \<times> bytes) res" where
  "DeriveIdentityKeysV1 P I masterSecret =
     rbind (derive_ed P I ''failed to derive Ed25519 seed'' masterSecret ''bt-identity'' ''identity-signing-key-0'') (\<lambda>(edPub, edPriv).
     rbind (derive_x P ''failed to derive X25519 seed'' ''X25519 key derivation failed'' masterSecret ''bt-identity'' ''identity-dh-key-0'') (\<lambda>(dhPub, dhPriv).
     Inr (edPub, edPriv, dhPub, dhPriv)))"

definition DeriveIdentityKeysPoC :: "prims \<Rightarrow> id_prims \<Rightarrow> bytes \<Rightarrow> (bytes \<times> bytes \<times> bytes \<times> bytes) res" where
  "DeriveIdentityKeysPoC P I seed =
     rbind (derive_ed P I ''failed to derive Ed25519 seed (PoC)'' seed ''ed25519-derive'' ''index-0'') (\<lambda>(edPub, edPriv).
     rbind (derive_x P ''failed to derive X25519 seed (PoC)'' ''X25519 key derivation failed (PoC)'' seed ''x25519-derive'' ''index-0'') (\<lambda>(dhPub, dhPriv).
     Inr (edPub, edPriv, dhPub, dhPriv)))"

definition DeriveDeviceID :: "prims \<Rightarrow> bytes \<Rightarrow> bytes" where
  "DeriveDeviceID P dkSignPub = take DeviceIDSize (sha256 P dkSignPub)"

text \<open>Randomness: the seed of the signing key and the private DH key.\<close>

definition GenerateDeviceKeys :: "prims \<Rightarrow> id_prims \<Rightarrow> bytes res \<Rightarrow> bytes res \<Rightarrow> (bytes \<times> bytes \<times> bytes \<times> bytes \<times> bytes) res" where
  "GenerateDeviceKeys P I rndSign rndDH =
     rbind (wrapped ''failed to generate device Ed25519 key'' rndSign) (\<lambda>seed.
     let dkSignPriv = ed25519_NewKeyFromSeed I seed; dkSignPub = ed_public P dkSignPriv in
     rbind (wrapped ''failed to generate random X25519 seed'' rndDH) (\<lambda>dkDHPriv.
     rbind (wrapped ''X25519 device key derivation failed'' (X25519 P dkDHPriv (Basepoint P))) (\<lambda>dhResult.
     Inr (DeriveDeviceID P dkSignPub, dkSignPub, dkSignPriv, copy32 dhResult, dkDHPriv))))"

record IdentityV1 =
  iv_IKSignPub :: bytes
  iv_IKSignPriv :: bytes
  iv_IKDHPriv :: bytes
  iv_IKDHPub :: bytes
  iv_DeviceID :: bytes
  iv_DKSignPub :: bytes
  iv_DKSignPriv :: bytes
  iv_DKDHPriv :: bytes
  iv_DKDHPub :: bytes
  iv_DeviceName :: string
  iv_CreatedAt :: time
  iv_ExpiresAt :: "time option"
  iv_Mnemonic :: string

definition NewIdentityV1 :: "prims \<Rightarrow> id_prims \<Rightarrow> time \<Rightarrow> bytes res \<Rightarrow> bytes res \<Rightarrow> string \<Rightarrow> string \<Rightarrow> IdentityV1 res" where
  "NewIdentityV1 P I now rndSign rndDH mnemonic deviceName =
     rbind (wrapped ''failed to derive seed'' (DeriveSeed I mnemonic)) (\<lambda>seed.
     rbind (wrapped ''failed to derive master secret'' (DeriveMasterSecret P seed)) (\<lambda>masterSecret.
     rbind (wrapped ''failed to derive identity keys'' (DeriveIdentityKeysV1 P I masterSecret)) (\<lambda>(ikSignPub, ikSignPriv, ikDHPub, ikDHPriv).
     rbind (wrapped ''failed to generate device keys'' (GenerateDeviceKeys P I rndSign rndDH)) (\<lambda>(deviceID, dkSignPub, dkSignPriv, dkDHPub, dkDHPriv).
     Inr \<lparr>iv_IKSignPub = ikSignPub, iv_IKSignPriv = ikSignPriv, iv_IKDHPriv = ikDHPriv, iv_IKDHPub = ikDHPub, iv_DeviceID = deviceID,
       iv_DKSignPub = dkSignPub, iv_DKSignPriv = dkSignPriv, iv_DKDHPriv = dkDHPriv, iv_DKDHPub = dkDHPub, iv_DeviceName = deviceName,
       iv_CreatedAt = now, iv_ExpiresAt = None, iv_Mnemonic = mnemonic\<rparr>))))"

definition EncodeBase58 :: "id_prims \<Rightarrow> bytes \<Rightarrow> string" where
  "EncodeBase58 I input = (if length input = 0 then '''' else base58_Encode I input)"

definition IdentityFingerprint :: "prims \<Rightarrow> id_prims \<Rightarrow> IdentityV1 \<Rightarrow> string" where
  "IdentityFingerprint P I i = EncodeBase58 I (take 20 (sha256 P (iv_IKSignPub i @ iv_IKDHPub i)))"

section \<open>Certificates and prekeys\<close>

definition cert_data :: "DeviceCertificate \<Rightarrow> bytes" where
  "cert_data cert = dc_DeviceId cert @ dc_DeviceSignPub cert @ dc_DeviceDhPub cert @ str_bytes (dc_DeviceName cert) @
     le_bytes 8 (dc_CreatedAt cert) @ le_bytes 8 (dc_ExpiresAt cert) @ dc_IdentityPub cert"

definition SignDeviceCertificate :: "prims \<Rightarrow> bytes \<Rightarrow> DeviceCertificate \<Rightarrow> bytes res" where
  "SignDeviceCertificate P ikSignPriv cert = ed25519_Sign P ikSignPriv (cert_data cert)"

definition VerifyDeviceCertificate :: "prims \<Rightarrow> DeviceCertificate \<Rightarrow> unit res" where
  "VerifyDeviceCertificate P cert =
     (if length (dc_IdentityPub cert) \<noteq> PublicKeySize then Inl (Err ''invalid identity public key length'')
      else if \<not> ed_verify P (dc_IdentityPub cert) (cert_data cert) (dc_Signature cert) then Inl (Err ''invalid device certificate signature'')
      else Inr ())"

definition CreateDeviceCertificate :: "prims \<Rightarrow> IdentityV1 \<Rightarrow> DeviceCertificate res" where
  "CreateDeviceCertificate P i =
     (let expiresAt = (case iv_ExpiresAt i of None \<Rightarrow> 0 | Some t \<Rightarrow> unix t);
          cert = \<lparr>dc_DeviceId = iv_DeviceID i, dc_DeviceSignPub = iv_DKSignPub i, dc_DeviceDhPub = iv_DKDHPub i, dc_DeviceName = iv_DeviceName i,
            dc_CreatedAt = unix (iv_CreatedAt i), dc_ExpiresAt = expiresAt, dc_IdentityPub = iv_IKSignPub i, dc_Signature = []\<rparr>
      in case SignDeviceCertificate P (iv_IKSignPriv i) cert of
        Inl e \<Rightarrow> Inl e
      | Inr signature \<Rightarrow> Inr (cert\<lparr>dc_Signature := signature\<rparr>))"

definition prekey_data :: "SignedPrekey \<Rightarrow> bytes" where
  "prekey_data spk = sp_DeviceId spk @ sp_PrekeyPub spk @ le_bytes 8 (sp_PrekeyId spk) @ le_bytes 8 (sp_CreatedAt spk) @ le_bytes 8 (sp_ExpiresAt spk)"

definition SignSignedPrekey :: "prims \<Rightarrow> bytes \<Rightarrow> SignedPrekey \<Rightarrow> bytes res" where
  "SignSignedPrekey P ikSignPriv spk = ed25519_Sign P ikSignPriv (prekey_data spk)"

definition VerifySignedPrekey :: "prims \<Rightarrow> SignedPrekey \<Rightarrow> bytes \<Rightarrow> unit res" where
  "VerifySignedPrekey P spk identityPub =
     (if length identityPub \<noteq> PublicKeySize then Inl (Err ''invalid identity public key length'')
      else if \<not> ed_verify P identityPub (prekey_data spk) (sp_Signature spk) then Inl (Err ''invalid signed prekey signature'')
      else Inr ())"

text \<open>\<open>AddDate\<close> adds days of 24 hours, as in a zone without changes of the clock. The private key is dropped.\<close>

definition GenerateSignedPrekey :: "prims \<Rightarrow> time \<Rightarrow> bytes res \<Rightarrow> u64 \<Rightarrow> IdentityV1 \<Rightarrow> SignedPrekey res" where
  "GenerateSignedPrekey P now rnd prekeyID i =
     rbind (wrapped ''failed to generate random SPK seed'' rnd) (\<lambda>spPriv.
     rbind (wrapped ''X25519 SPK derivation failed'' (X25519 P spPriv (Basepoint P))) (\<lambda>dhResult.
     let spk = \<lparr>sp_DeviceId = iv_DeviceID i, sp_PrekeyPub = copy32 dhResult, sp_PrekeyId = prekeyID, sp_CreatedAt = unix now,
           sp_ExpiresAt = unix (now + SPKRotationDays * 24 * hour), sp_Signature = []\<rparr>
     in case SignSignedPrekey P (iv_IKSignPriv i) spk of
       Inl e \<Rightarrow> Inl e
     | Inr signature \<Rightarrow> Inr (spk\<lparr>sp_Signature := signature\<rparr>)))"

fun opk_loop :: "prims \<Rightarrow> IdentityV1 \<Rightarrow> u64 \<Rightarrow> (nat \<Rightarrow> bytes res) \<Rightarrow> nat \<Rightarrow> OneTimePrekey list res" where
  "opk_loop P i startID rnd 0 = Inr []"
| "opk_loop P i startID rnd (Suc idx) =
     rbind (opk_loop P i startID rnd idx) (\<lambda>opks.
     rbind (wrapped ''failed to generate random OPK seed'' (rnd idx)) (\<lambda>opPriv.
     rbind (wrapped ''X25519 OPK derivation failed'' (X25519 P opPriv (Basepoint P))) (\<lambda>dhResult.
     Inr (opks @ [\<lparr>op_DeviceId = iv_DeviceID i, op_PrekeyPub = copy32 dhResult, op_PrekeyId = startID + of_nat idx\<rparr>]))))"

definition GenerateOneTimePrekeys :: "prims \<Rightarrow> (nat \<Rightarrow> bytes res) \<Rightarrow> u64 \<Rightarrow> int \<Rightarrow> IdentityV1 \<Rightarrow> OneTimePrekey list res" where
  "GenerateOneTimePrekeys P rnd startID count i =
     (if count < 0 then Inl (Panic ''makeslice: len out of range'') else opk_loop P i startID rnd (nat count))"

definition ShouldReplenishOPKs :: "int \<Rightarrow> bool" where
  "ShouldReplenishOPKs currentCount \<longleftrightarrow> currentCount < OPKReplenishThreshold"

definition SPKNeedsRotation :: "time \<Rightarrow> SignedPrekey option \<Rightarrow> bool" where
  "SPKNeedsRotation now spk =
     (case spk of None \<Rightarrow> True | Some k \<Rightarrow> unixTime (sp_ExpiresAt k) - SPKOverlapHours * hour < now)"

section \<open>Identity documents\<close>

text \<open>A field with its length in front, and a list of messages that the protobuf library encodes so.\<close>

definition len_prefixed :: "bytes \<Rightarrow> bytes" where
  "len_prefixed b = le_bytes 4 (of_nat (length b) :: u32) @ b"

fun put_messages :: "'m codec \<Rightarrow> string \<Rightarrow> 'm list \<Rightarrow> bytes res" where
  "put_messages K msg [] = Inr []"
| "put_messages K msg (m # ms) =
     rbind (wrapped msg (marshal K m)) (\<lambda>b. rbind (put_messages K msg ms) (\<lambda>bs. Inr (len_prefixed b @ bs)))"

definition serializeDocumentForSigning :: "id_codecs \<Rightarrow> IdentityDocument \<Rightarrow> bytes res" where
  "serializeDocumentForSigning C doc =
     rbind (put_messages (ic_device C) ''failed to marshal device'' (do_Devices doc)) (\<lambda>devices.
     rbind (put_messages (ic_spk C) ''failed to marshal signed prekey'' (do_SignedPrekeys doc)) (\<lambda>spks.
     rbind (put_messages (ic_opk C) ''failed to marshal one-time prekey'' (do_OneTimePrekeys doc)) (\<lambda>opks.
     rbind (put_messages (ic_revocation C) ''failed to marshal revocation'' (do_Revocations doc)) (\<lambda>revocations.
     rbind (case do_Features doc of None \<Rightarrow> Inr [] | Some f \<Rightarrow> put_messages (ic_features C) ''failed to marshal features'' [f]) (\<lambda>features.
     Inr (do_IdentitySignPub doc @ do_IdentityDhPub doc @ le_bytes 8 (do_Sequence doc) @ do_PreviousHash doc @
       le_bytes 8 (do_CreatedAt doc) @ le_bytes 8 (do_UpdatedAt doc) @ devices @ spks @ opks @
       concat (map (le_bytes 4) (do_SupportedVersions doc)) @ concat (map (len_prefixed \<circ> str_bytes) (do_SupportedCipherSuites doc)) @
       le_bytes 4 (do_PreferredVersion doc) @ len_prefixed (str_bytes (do_DisplayName doc)) @ len_prefixed (str_bytes (do_AvatarCid doc)) @
       revocations @ features))))))"

text \<open>Signing does not call this function but a method of the manager with a body of its own; a document
  verifies only because the two copies agree.\<close>

definition m_serializeDocumentForSigning :: "id_codecs \<Rightarrow> IdentityDocument \<Rightarrow> bytes res" where
  "m_serializeDocumentForSigning C doc =
     rbind (put_messages (ic_device C) ''failed to marshal device'' (do_Devices doc)) (\<lambda>devices.
     rbind (put_messages (ic_spk C) ''failed to marshal signed prekey'' (do_SignedPrekeys doc)) (\<lambda>spks.
     rbind (put_messages (ic_opk C) ''failed to marshal one-time prekey'' (do_OneTimePrekeys doc)) (\<lambda>opks.
     rbind (put_messages (ic_revocation C) ''failed to marshal revocation'' (do_Revocations doc)) (\<lambda>revocations.
     rbind (case do_Features doc of None \<Rightarrow> Inr [] | Some f \<Rightarrow> put_messages (ic_features C) ''failed to marshal features'' [f]) (\<lambda>features.
     Inr (do_IdentitySignPub doc @ do_IdentityDhPub doc @ le_bytes 8 (do_Sequence doc) @ do_PreviousHash doc @
       le_bytes 8 (do_CreatedAt doc) @ le_bytes 8 (do_UpdatedAt doc) @ devices @ spks @ opks @
       concat (map (le_bytes 4) (do_SupportedVersions doc)) @ concat (map (len_prefixed \<circ> str_bytes) (do_SupportedCipherSuites doc)) @
       le_bytes 4 (do_PreferredVersion doc) @ len_prefixed (str_bytes (do_DisplayName doc)) @ len_prefixed (str_bytes (do_AvatarCid doc)) @
       revocations @ features))))))"

lemma serializers_agree [simp]: "m_serializeDocumentForSigning = serializeDocumentForSigning"
  by (intro ext) (simp only: m_serializeDocumentForSigning_def serializeDocumentForSigning_def)

definition SignIdentityDocument :: "prims \<Rightarrow> id_codecs \<Rightarrow> IdentityV1 \<Rightarrow> IdentityDocument \<Rightarrow> bytes res" where
  "SignIdentityDocument P C i doc =
     rbind (wrapped ''failed to serialize document'' (m_serializeDocumentForSigning C doc)) (\<lambda>data. ed25519_Sign P (iv_IKSignPriv i) data)"

definition default_features :: FeatureFlags where
  "default_features = \<lparr>ff_SupportsReadReceipts = True, ff_SupportsTypingIndicators = True, ff_SupportsReactions = True, ff_SupportsEdits = True,
     ff_SupportsMedia = True, ff_SupportsVoiceCalls = True, ff_SupportsVideoCalls = True, ff_SupportsGroups = True, ff_SupportsChannels = True,
     ff_SupportsOfflineMessages = True, ff_CustomFeatures = []\<rparr>"

definition CreateIdentityDocument :: "prims \<Rightarrow> id_codecs \<Rightarrow> time \<Rightarrow> IdentityV1 \<Rightarrow> u64 \<Rightarrow> bytes \<Rightarrow> DeviceCertificate list \<Rightarrow> SignedPrekey list \<Rightarrow>
    OneTimePrekey list \<Rightarrow> string \<Rightarrow> IdentityDocument res" where
  "CreateIdentityDocument P C now i prevSequence prevHash devices signedPrekeys oneTimePrekeys displayName =
     (let sequence = (if prevSequence + 1 = 0 then 1 else prevSequence + 1);
          doc = \<lparr>do_IdentitySignPub = iv_IKSignPub i, do_IdentityDhPub = iv_IKDHPub i, do_Sequence = sequence, do_PreviousHash = prevHash,
            do_CreatedAt = (if prevSequence > 0 then prevSequence else unix now), do_UpdatedAt = unix now, do_Devices = devices,
            do_SignedPrekeys = signedPrekeys, do_OneTimePrekeys = oneTimePrekeys, do_SupportedVersions = [1],
            do_SupportedCipherSuites = [''BT-X25519-XChaCha20Poly1305-SHA256''], do_PreferredVersion = 1, do_DisplayName = displayName,
            do_AvatarCid = '''', do_Revocations = [], do_Features = Some default_features, do_Signature = []\<rparr>
      in rbind (wrapped ''failed to sign identity document'' (SignIdentityDocument P C i doc)) (\<lambda>signature. Inr (doc\<lparr>do_Signature := signature\<rparr>)))"

fun all_ok :: "('a \<Rightarrow> unit res) \<Rightarrow> 'a list \<Rightarrow> unit res" where
  "all_ok f [] = Inr ()"
| "all_ok f (x # xs) = rbind (f x) (\<lambda>_. all_ok f xs)"

definition VerifyIdentityDocument :: "prims \<Rightarrow> id_codecs \<Rightarrow> time \<Rightarrow> IdentityDocument \<Rightarrow> unit res" where
  "VerifyIdentityDocument P C now doc =
     (if length (do_IdentitySignPub doc) \<noteq> PublicKeySize then Inl (Err ''invalid identity public key length'')
      else rbind (wrapped ''failed to serialize document'' (serializeDocumentForSigning C doc)) (\<lambda>data.
        if \<not> ed_verify P (do_IdentitySignPub doc) data (do_Signature doc) then Inl (Err ''invalid identity document signature'')
        else rbind (wrapped ''invalid device certificate'' (all_ok (VerifyDeviceCertificate P) (do_Devices doc))) (\<lambda>_.
          rbind (wrapped ''invalid signed prekey'' (all_ok (\<lambda>spk. VerifySignedPrekey P spk (do_IdentitySignPub doc)) (do_SignedPrekeys doc))) (\<lambda>_.
          if do_Sequence doc = 0 then Inl (Err ''invalid sequence number'')
          else let docTime = unixTime (do_UpdatedAt doc)
               in if docTime < now - 24 * hour \<or> docTime > now + 24 * hour then Inl (Err ''document timestamp out of reasonable range'')
                  else Inr ()))))"

definition ComputeDocumentHash :: "prims \<Rightarrow> id_codecs \<Rightarrow> IdentityDocument \<Rightarrow> bytes res" where
  "ComputeDocumentHash P C doc = rbind (wrapped ''failed to marshal document'' (marshal (ic_document C) doc)) (\<lambda>data. Inr (sha256 P data))"

section \<open>Publication\<close>

definition DeriveIdentityDHTKey :: "prims \<Rightarrow> bytes \<Rightarrow> string" where
  "DeriveIdentityDHTKey P identityPub = ''/bt/id/'' @ hex_encode (take 16 (sha256 P identityPub))"

definition DerivePrekeyBundleDHTKey :: "prims \<Rightarrow> bytes \<Rightarrow> string" where
  "DerivePrekeyBundleDHTKey P identityPub = ''/bt/prekeys/'' @ hex_encode (take 16 (sha256 P identityPub))"

definition dht_store :: "'n dht \<Rightarrow> string \<Rightarrow> string \<Rightarrow> bytes \<Rightarrow> 'n \<Rightarrow> ('n, unit) eff" where
  "dht_store D msg key data n = (case dht_PutToDHT D key data (24 * hour) n of (n1, r) \<Rightarrow> (n1, wrapped msg r))"

definition PublishIdentityDocument :: "prims \<Rightarrow> id_codecs \<Rightarrow> 'n dht \<Rightarrow> IdentityDocument \<Rightarrow> 'n \<Rightarrow> ('n, unit) eff" where
  "PublishIdentityDocument P C D doc n =
     (case marshal (ic_document C) doc of
        Inl e \<Rightarrow> (n, Inl (Wrap ''failed to marshal identity document'' e))
      | Inr data \<Rightarrow> dht_store D ''failed to publish identity document to DHT'' (DeriveIdentityDHTKey P (do_IdentitySignPub doc)) data n)"

definition FetchIdentityDocument :: "prims \<Rightarrow> id_codecs \<Rightarrow> 'n dht \<Rightarrow> time \<Rightarrow> bytes \<Rightarrow> 'n \<Rightarrow> IdentityDocument res" where
  "FetchIdentityDocument P C D now identityPub n =
     rbind (wrapped ''failed to fetch identity document from DHT'' (dht_GetFromDHT D (DeriveIdentityDHTKey P identityPub) n)) (\<lambda>data.
     rbind (wrapped ''failed to unmarshal identity document'' (unmarshal (ic_document C) data)) (\<lambda>doc.
     rbind (wrapped ''invalid identity document'' (VerifyIdentityDocument P C now doc)) (\<lambda>_. Inr doc)))"

definition PublishPrekeyBundle :: "prims \<Rightarrow> id_codecs \<Rightarrow> 'n dht \<Rightarrow> time \<Rightarrow> bytes \<Rightarrow> SignedPrekey list \<Rightarrow> OneTimePrekey list \<Rightarrow> 'n \<Rightarrow> ('n, unit) eff" where
  "PublishPrekeyBundle P C D now identityPub signedPrekeys oneTimePrekeys n =
     (case marshal (ic_bundle C) \<lparr>pk_SignedPrekeys = signedPrekeys, pk_OneTimePrekeys = oneTimePrekeys, pk_PublishedAt = unix now\<rparr> of
        Inl e \<Rightarrow> (n, Inl (Wrap ''failed to marshal prekey bundle'' e))
      | Inr data \<Rightarrow> dht_store D ''failed to publish prekey bundle to DHT'' (DerivePrekeyBundleDHTKey P identityPub) data n)"

definition FetchPrekeyBundle :: "prims \<Rightarrow> id_codecs \<Rightarrow> 'n dht \<Rightarrow> bytes \<Rightarrow> 'n \<Rightarrow> PrekeyBundle res" where
  "FetchPrekeyBundle P C D identityPub n =
     rbind (wrapped ''failed to fetch prekey bundle from DHT'' (dht_GetFromDHT D (DerivePrekeyBundleDHTKey P identityPub) n)) (\<lambda>data.
     wrapped ''failed to unmarshal prekey bundle'' (unmarshal (ic_bundle C) data))"

definition FindClosestPeers :: "prims \<Rightarrow> 'n dht \<Rightarrow> bytes \<Rightarrow> 'n \<Rightarrow> string list res" where
  "FindClosestPeers P D identityPub n = dht_GetClosestPeers D (DeriveIdentityDHTKey P identityPub) n"

definition ValidatePrekeyBundle :: "prims \<Rightarrow> PrekeyBundle \<Rightarrow> bytes \<Rightarrow> unit res" where
  "ValidatePrekeyBundle P bundle identityPub =
     all_ok (\<lambda>spk. wrapped (''invalid signed prekey '' @ dec_of_nat (unat (sp_PrekeyId spk))) (VerifySignedPrekey P spk identityPub)) (pk_SignedPrekeys bundle)"

section \<open>Signing and verifying\<close>

text \<open>What a key holder of the package has: a 64-byte signing key and its public key.\<close>

definition signer :: "prims \<Rightarrow> IdentityV1 \<Rightarrow> bool" where
  "signer P i \<longleftrightarrow> length (iv_IKSignPriv i) = 64 \<and> iv_IKSignPub i = ed_public P (iv_IKSignPriv i)"

definition dht_ok :: "'n dht \<Rightarrow> bool" where
  "dht_ok D \<longleftrightarrow> (\<forall>key data ttl n n'. dht_PutToDHT D key data ttl n = (n', Inr ()) \<longrightarrow> dht_GetFromDHT D key n' = Inr data)"

lemma all_ok_iff: "all_ok f xs = Inr () \<longleftrightarrow> (\<forall>x\<in>set xs. f x = Inr ())"
  by (induction xs) (auto simp: rbind_Inr_iff)

lemma put_messages_ok: "codec_ok K \<Longrightarrow> \<exists>b. put_messages K msg ms = Inr b"
proof (induction ms)
  case (Cons m ms)
  obtain b where "marshal K m = Inr b" using codec_okD[OF Cons.prems, of m] by blast
  moreover obtain bs where "put_messages K msg ms = Inr bs" using Cons by blast
  ultimately show ?case by simp
qed simp

lemma serialize_ok:
  assumes "id_codecs_ok C"
  shows "\<exists>b. serializeDocumentForSigning C doc = Inr b"
proof -
  have K: "codec_ok (ic_device C)" "codec_ok (ic_spk C)" "codec_ok (ic_opk C)" "codec_ok (ic_revocation C)" "codec_ok (ic_features C)"
    using assms by (simp_all add: id_codecs_ok_def)
  have "\<exists>b. (case do_Features doc of None \<Rightarrow> Inr [] | Some f \<Rightarrow> put_messages (ic_features C) ''failed to marshal features'' [f]) = Inr b"
    using put_messages_ok[OF K(5)] by (cases "do_Features doc") (simp_all del: put_messages.simps)
  moreover obtain a b c d where "put_messages (ic_device C) ''failed to marshal device'' (do_Devices doc) = Inr a"
    "put_messages (ic_spk C) ''failed to marshal signed prekey'' (do_SignedPrekeys doc) = Inr b"
    "put_messages (ic_opk C) ''failed to marshal one-time prekey'' (do_OneTimePrekeys doc) = Inr c"
    "put_messages (ic_revocation C) ''failed to marshal revocation'' (do_Revocations doc) = Inr d"
    using put_messages_ok[OF K(1)] put_messages_ok[OF K(2)] put_messages_ok[OF K(3)] put_messages_ok[OF K(4)] by blast
  ultimately show ?thesis by (auto simp: serializeDocumentForSigning_def)
qed

lemma serialize_unsigned [simp]: "serializeDocumentForSigning C (doc\<lparr>do_Signature := s\<rparr>) = serializeDocumentForSigning C doc"
  by (simp add: serializeDocumentForSigning_def)

lemma signer_signs:
  assumes "sig_correct P" "signer P i"
  shows "ed25519_Sign P (iv_IKSignPriv i) m = Inr (ed_sign P (iv_IKSignPriv i) m)" "length (iv_IKSignPub i) = 32"
    "ed_verify P (iv_IKSignPub i) m (ed_sign P (iv_IKSignPriv i) m)"
  using assms sig_correctD[OF assms(1)] by (simp_all add: signer_def ed25519_Sign_def crypto_sizes)

lemma certificate_verifies:
  assumes "sig_correct P" "signer P i"
  shows "\<exists>cert. CreateDeviceCertificate P i = Inr cert \<and> VerifyDeviceCertificate P cert = Inr () \<and> dc_DeviceId cert = iv_DeviceID i
    \<and> dc_IdentityPub cert = iv_IKSignPub i"
  by (simp add: CreateDeviceCertificate_def SignDeviceCertificate_def VerifyDeviceCertificate_def signer_signs[OF assms] cert_data_def crypto_sizes Let_def)

lemma prekey_verifies:
  assumes "sig_correct P" "signer P i" "GenerateSignedPrekey P now rnd k i = Inr spk"
  shows "VerifySignedPrekey P spk (iv_IKSignPub i) = Inr ()"
  using assms(3) by (auto simp: GenerateSignedPrekey_def SignSignedPrekey_def VerifySignedPrekey_def signer_signs[OF assms(1,2)] prekey_data_def
      crypto_sizes Let_def rbind_Inr_iff)

lemma derive_ed_Inr: "derive_ed P I msg sec salt info = Inr (pub, priv) \<longleftrightarrow>
    (\<exists>s. hkdf_sha256 P sec (str_bytes salt) (str_bytes info) 32 = Inr s \<and> priv = ed25519_NewKeyFromSeed I s \<and> pub = ed_public P priv)"
  by (auto simp: derive_ed_def Let_def split: sum.split)

lemma NewIdentityV1_signer:
  assumes "key_sizes P" "sig_correct P" "id_sizes I" "NewIdentityV1 P I t r1 r2 mn dn = Inr i"
  shows "signer P i"
proof -
  have "length (ed25519_NewKeyFromSeed I s) = 64" if "hkdf_sha256 P x y z 32 = Inr s" for x y z s
    using key_sizes_hkdf[OF assms(1), of 32 x y z] assms(3) that by (auto simp: id_sizes_def)
  then show ?thesis
    using assms(4) by (auto simp: NewIdentityV1_def DeriveIdentityKeysV1_def derive_ed_Inr rbind_Inr_iff signer_def)
qed

lemma next_sequence: "(if p + 1 = 0 then 1 else p + 1 :: u64) \<noteq> 0"
  by simp

lemma document_verifies:
  fixes now now' :: time and prevSeq :: u64
  assumes laws: "sig_correct P" "id_codecs_ok C" and i: "signer P i" and t: "time_ok now"
    and parts: "\<forall>d\<in>set devices. VerifyDeviceCertificate P d = Inr ()" "\<forall>k\<in>set spks. VerifySignedPrekey P k (iv_IKSignPub i) = Inr ()"
  obtains doc where "CreateIdentityDocument P C now i prevSeq ph devices spks opks name = Inr doc"
    "do_IdentitySignPub doc = iv_IKSignPub i" "do_Devices doc = devices"
    "\<And>now'. VerifyIdentityDocument P C now' doc =
      (if \<bar>now' - whole_second now\<bar> \<le> 24 * hour then Inr () else Inl (Err ''document timestamp out of reasonable range''))"
proof -
  let ?seq = "if prevSeq + 1 = 0 then 1 else prevSeq + 1"
  let ?doc = "\<lparr>do_IdentitySignPub = iv_IKSignPub i, do_IdentityDhPub = iv_IKDHPub i, do_Sequence = ?seq, do_PreviousHash = ph,
            do_CreatedAt = (if prevSeq > 0 then prevSeq else unix now), do_UpdatedAt = unix now, do_Devices = devices,
            do_SignedPrekeys = spks, do_OneTimePrekeys = opks, do_SupportedVersions = [1],
            do_SupportedCipherSuites = [''BT-X25519-XChaCha20Poly1305-SHA256''], do_PreferredVersion = 1, do_DisplayName = name,
            do_AvatarCid = '''', do_Revocations = [], do_Features = Some default_features, do_Signature = []\<rparr>"
  obtain b where b: "serializeDocumentForSigning C ?doc = Inr b" using serialize_ok[OF laws(2)] by blast
  let ?doc' = "?doc\<lparr>do_Signature := ed_sign P (iv_IKSignPriv i) b\<rparr>"
  have b': "serializeDocumentForSigning C ?doc' = Inr b" unfolding serialize_unsigned by (rule b)
  have 1: "CreateIdentityDocument P C now i prevSeq ph devices spks opks name = Inr ?doc'"
    unfolding CreateIdentityDocument_def Let_def SignIdentityDocument_def serializers_agree b by (simp add: signer_signs[OF laws(1) i])
  have parts': "all_ok (VerifyDeviceCertificate P) devices = Inr ()" "all_ok (\<lambda>spk. VerifySignedPrekey P spk (iv_IKSignPub i)) spks = Inr ()"
    using parts by (simp_all add: all_ok_iff)
  have 4: "VerifyIdentityDocument P C now' ?doc' =
      (if \<bar>now' - whole_second now\<bar> \<le> 24 * hour then Inr () else Inl (Err ''document timestamp out of reasonable range''))" for now'
    unfolding VerifyIdentityDocument_def b' using next_sequence[of prevSeq]
    by (auto simp: crypto_sizes signer_signs[OF laws(1) i] parts' Let_def unixTime_unix[OF t])
  show ?thesis by (rule that[OF 1 _ _ 4]) simp_all
qed

lemma fetch_verified:
  assumes "dht_GetFromDHT D (DeriveIdentityDHTKey P k) n = Inr data" "unmarshal (ic_document C) data = Inr doc"
  shows "FetchIdentityDocument P C D now k n = rbind (wrapped ''invalid identity document'' (VerifyIdentityDocument P C now doc)) (\<lambda>_. Inr doc)"
  using assms by (simp add: FetchIdentityDocument_def)

section \<open>Properties\<close>

text \<open>C19.An identity document is served for a day. An identity made from a mnemonic certifies its device, creates a document with that and other
  verifying certificates and prekeys, and once the document is in the DHT, whoever fetches it gets exactly that document as long as the clocks
  are at most 24 hours apart, and an error about its timestamp otherwise.\<close>

theorem identity_document_served:
  fixes now now' :: time and prevSeq :: u64
  assumes laws: "key_sizes P" "sig_correct P" "id_sizes I" "id_codecs_ok C" "dht_ok D" "time_ok now"
    and ident: "NewIdentityV1 P I t0 rndSign rndDH mnemonic deviceName = Inr i"
    and parts: "\<forall>d\<in>set devices. VerifyDeviceCertificate P d = Inr ()" "\<forall>k\<in>set spks. VerifySignedPrekey P k (iv_IKSignPub i) = Inr ()"
  shows "\<exists>cert doc. CreateDeviceCertificate P i = Inr cert \<and> CreateIdentityDocument P C now i prevSeq prevHash (cert # devices) spks opks name = Inr doc \<and>
    (\<forall>n n'. PublishIdentityDocument P C D doc n = (n', Inr ()) \<longrightarrow>
       FetchIdentityDocument P C D now' (iv_IKSignPub i) n' =
         (if \<bar>now' - whole_second now\<bar> \<le> 24 * hour then Inr doc
          else Inl (Wrap ''invalid identity document'' (Err ''document timestamp out of reasonable range''))))"
proof -
  have i: "signer P i" by (rule NewIdentityV1_signer[OF laws(1-3) ident])
  obtain cert where cert: "CreateDeviceCertificate P i = Inr cert" "VerifyDeviceCertificate P cert = Inr ()"
    using certificate_verifies[OF laws(2) i] by blast
  have devs: "\<forall>d\<in>set (cert # devices). VerifyDeviceCertificate P d = Inr ()" using parts(1) cert(2) by simp
  obtain doc where doc: "CreateIdentityDocument P C now i prevSeq prevHash (cert # devices) spks opks name = Inr doc"
    "do_IdentitySignPub doc = iv_IKSignPub i"
    "\<And>now'. VerifyIdentityDocument P C now' doc =
      (if \<bar>now' - whole_second now\<bar> \<le> 24 * hour then Inr () else Inl (Err ''document timestamp out of reasonable range''))"
    using document_verifies[OF laws(2,4) i laws(6) devs parts(2)] by metis
  obtain b where b: "marshal (ic_document C) doc = Inr b" "unmarshal (ic_document C) b = Inr doc"
    using codec_okD[of "ic_document C" doc] laws(4) by (auto simp: id_codecs_ok_def)
  have "FetchIdentityDocument P C D now' (iv_IKSignPub i) n' = rbind (wrapped ''invalid identity document'' (VerifyIdentityDocument P C now' doc)) (\<lambda>_. Inr doc)"
    if "PublishIdentityDocument P C D doc n = (n', Inr ())" for n n'
    using that laws(5) b by (intro fetch_verified[OF _ b(2)]) (auto simp: PublishIdentityDocument_def dht_store_def dht_ok_def doc(2) split: prod.splits)
  then have "\<forall>n n'. PublishIdentityDocument P C D doc n = (n', Inr ()) \<longrightarrow>
       FetchIdentityDocument P C D now' (iv_IKSignPub i) n' =
         (if \<bar>now' - whole_second now\<bar> \<le> 24 * hour then Inr doc
          else Inl (Wrap ''invalid identity document'' (Err ''document timestamp out of reasonable range'')))"
    by (simp add: doc(3))
  then show ?thesis using cert(1) doc(1) by blast
qed

text \<open>The document fetched for an identity may belong to anyone: a document that one identity creates for itself, stored under the DHT key
  of any other public key, is returned to whoever asks for that other key.\<close>

theorem fetch_returns_foreign_document:
  fixes now now' :: time and prevSeq :: u64
  assumes laws: "key_sizes P" "sig_correct P" "id_sizes I" "id_codecs_ok C" "dht_ok D" "time_ok now" "\<bar>now' - whole_second now\<bar> \<le> 24 * hour"
    and ident: "NewIdentityV1 P I t0 rndSign rndDH mnemonic deviceName = Inr attacker"
  shows "\<exists>doc data. CreateIdentityDocument P C now attacker prevSeq prevHash [] [] opks name = Inr doc \<and> marshal (ic_document C) doc = Inr data \<and>
    do_IdentitySignPub doc = iv_IKSignPub attacker \<and>
    (\<forall>victim n n' ttl. dht_PutToDHT D (DeriveIdentityDHTKey P victim) data ttl n = (n', Inr ()) \<longrightarrow> FetchIdentityDocument P C D now' victim n' = Inr doc)"
proof -
  have i: "signer P attacker" by (rule NewIdentityV1_signer[OF laws(1-3) ident])
  obtain doc where doc: "CreateIdentityDocument P C now attacker prevSeq prevHash [] [] opks name = Inr doc"
    "do_IdentitySignPub doc = iv_IKSignPub attacker" "VerifyIdentityDocument P C now' doc = Inr ()"
    using document_verifies[OF laws(2,4) i laws(6), of "[]" "[]"] laws(7) by (metis empty_iff empty_set)
  obtain b where b: "marshal (ic_document C) doc = Inr b" "unmarshal (ic_document C) b = Inr doc"
    using codec_okD[of "ic_document C" doc] laws(4) by (auto simp: id_codecs_ok_def)
  have "FetchIdentityDocument P C D now' victim n' = Inr doc" if "dht_PutToDHT D (DeriveIdentityDHTKey P victim) b ttl n = (n', Inr ())" for victim n n' ttl
    using fetch_verified[OF _ b(2), of D P victim n' now'] that laws(5) doc(3) by (simp add: dht_ok_def)
  then show ?thesis using doc(1,2) b(1) by blast
qed

text \<open>C29.The mnemonic decides the identity and nothing of the device: two devices set up from it have the same identity keys whatever their
  randomness. Keys derived for compatibility with the first version agree with that version's signing key; its DH key is derived with another
  label, so they agree on the private DH key only if the two HKDF outputs happen to coincide.\<close>

theorem keys_from_mnemonic:
  assumes a: "NewIdentityV1 P I t rs rd mnemonic name = Inr i" "NewIdentityV1 P I t' rs' rd' mnemonic name' = Inr i'"
    and b: "NewIdentity P I mnemonic = Inr old" "DeriveIdentityKeysPoC P I (idn_Seed old) = Inr (edPub, edPriv, dhPub, dhPriv)" and k: "key_sizes P"
  shows "iv_IKSignPub i = iv_IKSignPub i' \<and> iv_IKSignPriv i = iv_IKSignPriv i' \<and> iv_IKDHPub i = iv_IKDHPub i' \<and> iv_IKDHPriv i = iv_IKDHPriv i'
    \<and> iv_DeviceID i = DeriveDeviceID P (iv_DKSignPub i)
    \<and> edPub = idn_Ed25519PubKey old \<and> edPriv = idn_Ed25519PrivKey old
    \<and> (dhPriv = idn_X25519PrivKey old \<longleftrightarrow> hkdf_sha256 P (idn_Seed old) (str_bytes ''x25519-derive'') (str_bytes ''index-0'') 32 =
         hkdf_sha256 P (idn_Seed old) (str_bytes ''x25519-derive'') (str_bytes ''index-1'') 32)"
proof -
  have same: "iv_IKSignPub i = iv_IKSignPub i' \<and> iv_IKSignPriv i = iv_IKSignPriv i' \<and> iv_IKDHPub i = iv_IKDHPub i' \<and> iv_IKDHPriv i = iv_IKDHPriv i'
    \<and> iv_DeviceID i = DeriveDeviceID P (iv_DKSignPub i)"
    using a by (auto simp: NewIdentityV1_def GenerateDeviceKeys_def Let_def rbind_Inr_iff)
  have x: "\<exists>s. hkdf_sha256 P sec (str_bytes salt) (str_bytes info) 32 = Inr s \<and> s = priv" if "derive_x P m m' sec salt info = Inr (pub, priv)"
    for m m' sec salt info pub priv
    using that key_sizes_hkdf[OF k, of 32 sec "str_bytes salt" "str_bytes info"] by (auto simp: derive_x_def split: sum.splits)
  have old: "deriveEd25519Keys P I (idn_Seed old) = Inr (idn_Ed25519PubKey old, idn_Ed25519PrivKey old)"
    "deriveX25519Keys P (idn_Seed old) = Inr (idn_X25519PubKey old, idn_X25519PrivKey old)"
    using b(1) by (auto simp: NewIdentity_def rbind_Inr_iff)
  have poc: "derive_ed P I ''failed to derive Ed25519 seed (PoC)'' (idn_Seed old) ''ed25519-derive'' ''index-0'' = Inr (edPub, edPriv)"
    "derive_x P ''failed to derive X25519 seed (PoC)'' ''X25519 key derivation failed (PoC)'' (idn_Seed old) ''x25519-derive'' ''index-0'' = Inr (dhPub, dhPriv)"
    using b(2) by (auto simp: DeriveIdentityKeysPoC_def rbind_Inr_iff)
  have ed: "edPub = idn_Ed25519PubKey old \<and> edPriv = idn_Ed25519PrivKey old"
    using old(1) poc(1) by (auto simp: deriveEd25519Keys_def derive_ed_Inr)
  show ?thesis using same ed x[OF poc(2)] x[OF old(2)[unfolded deriveX25519Keys_def]] by auto
qed

section \<open>An instance of the parameters\<close>

definition ser_FeatureFlags :: "FeatureFlags ser" where
  "ser_FeatureFlags = s_iso (\<lambda>r. (ff_SupportsReadReceipts r, ff_SupportsTypingIndicators r, ff_SupportsReactions r, ff_SupportsEdits r, ff_SupportsMedia r, ff_SupportsVoiceCalls r, ff_SupportsVideoCalls r, ff_SupportsGroups r, ff_SupportsChannels r, ff_SupportsOfflineMessages r, ff_CustomFeatures r))
     (\<lambda>(x0, x1, x2, x3, x4, x5, x6, x7, x8, x9, x10). \<lparr>ff_SupportsReadReceipts = x0, ff_SupportsTypingIndicators = x1, ff_SupportsReactions = x2, ff_SupportsEdits = x3, ff_SupportsMedia = x4, ff_SupportsVoiceCalls = x5, ff_SupportsVideoCalls = x6, ff_SupportsGroups = x7, ff_SupportsChannels = x8, ff_SupportsOfflineMessages = x9, ff_CustomFeatures = x10\<rparr>)
     (s_pair s_bool (s_pair s_bool (s_pair s_bool (s_pair s_bool (s_pair s_bool (s_pair s_bool (s_pair s_bool (s_pair s_bool (s_pair s_bool (s_pair s_bool (s_list s_string)))))))))))"

definition ser_DeviceCertificate :: "DeviceCertificate ser" where
  "ser_DeviceCertificate = s_iso (\<lambda>r. (dc_DeviceId r, dc_DeviceSignPub r, dc_DeviceDhPub r, dc_DeviceName r, dc_CreatedAt r, dc_ExpiresAt r, dc_IdentityPub r, dc_Signature r))
     (\<lambda>(x0, x1, x2, x3, x4, x5, x6, x7). \<lparr>dc_DeviceId = x0, dc_DeviceSignPub = x1, dc_DeviceDhPub = x2, dc_DeviceName = x3, dc_CreatedAt = x4, dc_ExpiresAt = x5, dc_IdentityPub = x6, dc_Signature = x7\<rparr>)
     (s_pair s_bytes (s_pair s_bytes (s_pair s_bytes (s_pair s_string (s_pair s_u64 (s_pair s_u64 (s_pair s_bytes s_bytes)))))))"

definition ser_SignedPrekey :: "SignedPrekey ser" where
  "ser_SignedPrekey = s_iso (\<lambda>r. (sp_DeviceId r, sp_PrekeyPub r, sp_PrekeyId r, sp_CreatedAt r, sp_ExpiresAt r, sp_Signature r))
     (\<lambda>(x0, x1, x2, x3, x4, x5). \<lparr>sp_DeviceId = x0, sp_PrekeyPub = x1, sp_PrekeyId = x2, sp_CreatedAt = x3, sp_ExpiresAt = x4, sp_Signature = x5\<rparr>)
     (s_pair s_bytes (s_pair s_bytes (s_pair s_u64 (s_pair s_u64 (s_pair s_u64 s_bytes)))))"

definition ser_OneTimePrekey :: "OneTimePrekey ser" where
  "ser_OneTimePrekey = s_iso (\<lambda>r. (op_DeviceId r, op_PrekeyPub r, op_PrekeyId r))
     (\<lambda>(x0, x1, x2). \<lparr>op_DeviceId = x0, op_PrekeyPub = x1, op_PrekeyId = x2\<rparr>)
     (s_pair s_bytes (s_pair s_bytes s_u64))"

definition ser_RevocationCertificate :: "RevocationCertificate ser" where
  "ser_RevocationCertificate = s_iso (\<lambda>r. (rv_RevokedKey r, rv_RevocationType r, rv_Reason r, rv_RevokedAt r, rv_Signature r))
     (\<lambda>(x0, x1, x2, x3, x4). \<lparr>rv_RevokedKey = x0, rv_RevocationType = x1, rv_Reason = x2, rv_RevokedAt = x3, rv_Signature = x4\<rparr>)
     (s_pair s_bytes (s_pair s_string (s_pair s_string (s_pair s_u64 s_bytes))))"

definition ser_IdentityDocument :: "IdentityDocument ser" where
  "ser_IdentityDocument = s_iso (\<lambda>r. (do_IdentitySignPub r, do_IdentityDhPub r, do_Sequence r, do_PreviousHash r, do_CreatedAt r, do_UpdatedAt r, do_Devices r, do_SignedPrekeys r, do_OneTimePrekeys r, do_SupportedVersions r, do_SupportedCipherSuites r, do_PreferredVersion r, do_DisplayName r, do_AvatarCid r, do_Revocations r, do_Features r, do_Signature r))
     (\<lambda>(x0, x1, x2, x3, x4, x5, x6, x7, x8, x9, x10, x11, x12, x13, x14, x15, x16). \<lparr>do_IdentitySignPub = x0, do_IdentityDhPub = x1, do_Sequence = x2, do_PreviousHash = x3, do_CreatedAt = x4, do_UpdatedAt = x5, do_Devices = x6, do_SignedPrekeys = x7, do_OneTimePrekeys = x8, do_SupportedVersions = x9, do_SupportedCipherSuites = x10, do_PreferredVersion = x11, do_DisplayName = x12, do_AvatarCid = x13, do_Revocations = x14, do_Features = x15, do_Signature = x16\<rparr>)
     (s_pair s_bytes (s_pair s_bytes (s_pair s_u64 (s_pair s_bytes (s_pair s_u64 (s_pair s_u64 (s_pair (s_list ser_DeviceCertificate) (s_pair (s_list ser_SignedPrekey) (s_pair (s_list ser_OneTimePrekey) (s_pair (s_list s_u32) (s_pair (s_list s_string) (s_pair s_u32 (s_pair s_string (s_pair s_string (s_pair (s_list ser_RevocationCertificate) (s_pair (s_opt ser_FeatureFlags) s_bytes))))))))))))))))"

definition ser_PrekeyBundle :: "PrekeyBundle ser" where
  "ser_PrekeyBundle = s_iso (\<lambda>r. (pk_SignedPrekeys r, pk_OneTimePrekeys r, pk_PublishedAt r))
     (\<lambda>(x0, x1, x2). \<lparr>pk_SignedPrekeys = x0, pk_OneTimePrekeys = x1, pk_PublishedAt = x2\<rparr>)
     (s_pair (s_list ser_SignedPrekey) (s_pair (s_list ser_OneTimePrekey) s_u64))"

lemma ser_FeatureFlags_ok [ser_intros]: "ser_ok ser_FeatureFlags"
  unfolding ser_FeatureFlags_def by (rule s_iso_ok, intro ser_intros, simp)

lemma ser_DeviceCertificate_ok [ser_intros]: "ser_ok ser_DeviceCertificate"
  unfolding ser_DeviceCertificate_def by (rule s_iso_ok, intro ser_intros, simp)

lemma ser_SignedPrekey_ok [ser_intros]: "ser_ok ser_SignedPrekey"
  unfolding ser_SignedPrekey_def by (rule s_iso_ok, intro ser_intros, simp)

lemma ser_OneTimePrekey_ok [ser_intros]: "ser_ok ser_OneTimePrekey"
  unfolding ser_OneTimePrekey_def by (rule s_iso_ok, intro ser_intros, simp)

lemma ser_RevocationCertificate_ok [ser_intros]: "ser_ok ser_RevocationCertificate"
  unfolding ser_RevocationCertificate_def by (rule s_iso_ok, intro ser_intros, simp)

lemma ser_IdentityDocument_ok [ser_intros]: "ser_ok ser_IdentityDocument"
  unfolding ser_IdentityDocument_def by (rule s_iso_ok, intro ser_intros, simp)

lemma ser_PrekeyBundle_ok [ser_intros]: "ser_ok ser_PrekeyBundle"
  unfolding ser_PrekeyBundle_def by (rule s_iso_ok, intro ser_intros, simp)

definition id_ref_codecs :: id_codecs where
  "id_ref_codecs = \<lparr>ic_device = codec_of ser_DeviceCertificate, ic_spk = codec_of ser_SignedPrekey, ic_opk = codec_of ser_OneTimePrekey,
     ic_revocation = codec_of ser_RevocationCertificate, ic_features = codec_of ser_FeatureFlags, ic_document = codec_of ser_IdentityDocument,
     ic_bundle = codec_of ser_PrekeyBundle\<rparr>"

lemma id_ref_codecs_ok: "id_codecs_ok id_ref_codecs"
  by (simp add: id_codecs_ok_def id_ref_codecs_def) (intro conjI codec_of_ok ser_intros)

definition toy_id :: id_prims where
  "toy_id = \<lparr>bip39_IsMnemonicValid = (\<lambda>_. True), bip39_NewSeed = (\<lambda>m. replicate 64 (of_nat (length m))), ed25519_NewKeyFromSeed = (\<lambda>s. s @ s),
     base58_Encode = hex_encode\<rparr>"

lemma toy_id_sizes: "id_sizes toy_id"
  by (simp add: id_sizes_def toy_id_def)

definition alist_dht :: "(string, bytes) gomap dht" where
  "alist_dht = \<lparr>dht_PutToDHT = (\<lambda>k v ttl m. (gm_set k v m, Inr ())),
     dht_GetFromDHT = (\<lambda>k m. case gm_get m k of None \<Rightarrow> Inl (Err ''not found'') | Some v \<Rightarrow> Inr v), dht_GetClosestPeers = (\<lambda>_ _. Inr [])\<rparr>"

lemma alist_dht_ok: "dht_ok alist_dht"
  by (simp add: dht_ok_def alist_dht_def)

lemma toy_identity: "\<exists>i. NewIdentityV1 toy toy_id 0 (Inr (replicate 32 7)) (Inr (replicate 32 8)) m name = Inr i"
  by (simp add: NewIdentityV1_def DeriveSeed_def toy_id_def SeedLength_def DeriveMasterSecret_def DeriveIdentityKeysV1_def derive_ed_def derive_x_def
      GenerateDeviceKeys_def Let_def)

theorem identity_document_served_witness:
  "\<exists>doc n. PublishIdentityDocument toy id_ref_codecs alist_dht doc [] = (n, Inr ()) \<and>
     FetchIdentityDocument toy id_ref_codecs alist_dht (23 * hour) (do_IdentitySignPub doc) n = Inr doc \<and>
     FetchIdentityDocument toy id_ref_codecs alist_dht (25 * hour) (do_IdentitySignPub doc) n =
       Inl (Wrap ''invalid identity document'' (Err ''document timestamp out of reasonable range''))"
proof -
  obtain i where i: "NewIdentityV1 toy toy_id 0 (Inr (replicate 32 7)) (Inr (replicate 32 8)) ''abandon'' ''phone'' = Inr i"
    using toy_identity by blast
  note s = identity_document_served[OF toy_key_sizes toy_sig toy_id_sizes id_ref_codecs_ok alist_dht_ok _ i, of 0 "[]" "[]"]
  obtain cert doc where doc: "CreateDeviceCertificate toy i = Inr cert" "CreateIdentityDocument toy id_ref_codecs 0 i 0 [] [cert] [] [] ''Ann'' = Inr doc"
    "\<forall>n n'. PublishIdentityDocument toy id_ref_codecs alist_dht doc n = (n', Inr ()) \<longrightarrow>
       FetchIdentityDocument toy id_ref_codecs alist_dht (23 * hour) (iv_IKSignPub i) n' = Inr doc"
    using s[of 0 "[]" "[]" "''Ann''" "23 * hour"] by (auto simp: time_ok_def whole_second_def hour_def)
  have late: "\<forall>n n'. PublishIdentityDocument toy id_ref_codecs alist_dht doc n = (n', Inr ()) \<longrightarrow>
       FetchIdentityDocument toy id_ref_codecs alist_dht (25 * hour) (iv_IKSignPub i) n' =
       Inl (Wrap ''invalid identity document'' (Err ''document timestamp out of reasonable range''))"
    using s[of 0 "[]" "[]" "''Ann''" "25 * hour"] doc(1,2) by (auto simp: time_ok_def whole_second_def hour_def)
  obtain b where b: "marshal (ic_document id_ref_codecs) doc = Inr b"
    using codec_okD[of "ic_document id_ref_codecs" doc] id_ref_codecs_ok by (auto simp: id_codecs_ok_def)
  have p: "\<exists>n. PublishIdentityDocument toy id_ref_codecs alist_dht doc [] = (n, Inr ())"
    by (simp add: PublishIdentityDocument_def b dht_store_def alist_dht_def)
  have "do_IdentitySignPub doc = iv_IKSignPub i"
    using doc(2) by (auto simp: CreateIdentityDocument_def Let_def rbind_Inr_iff)
  then show ?thesis using p doc(3) late by metis
qed

theorem fetch_returns_foreign_document_witness:
  "\<exists>doc n victim. FetchIdentityDocument toy id_ref_codecs alist_dht 0 victim n = Inr doc \<and> do_IdentitySignPub doc \<noteq> victim"
proof -
  obtain i where i: "NewIdentityV1 toy toy_id 0 (Inr (replicate 32 7)) (Inr (replicate 32 8)) ''abandon'' ''phone'' = Inr i"
    using toy_identity by blast
  obtain doc b where d: "do_IdentitySignPub doc = iv_IKSignPub i"
    "\<forall>victim n n' ttl. dht_PutToDHT alist_dht (DeriveIdentityDHTKey toy victim) b ttl n = (n', Inr ()) \<longrightarrow>
      FetchIdentityDocument toy id_ref_codecs alist_dht 0 victim n' = Inr doc"
    using fetch_returns_foreign_document[OF toy_key_sizes toy_sig toy_id_sizes id_ref_codecs_ok alist_dht_ok _ _ i, of 0 0 0 "[]" "[]" "''''"]
    by (auto simp: time_ok_def whole_second_def hour_def)
  have "dht_PutToDHT alist_dht (DeriveIdentityDHTKey toy victim) b 0 [] = (gm_set (DeriveIdentityDHTKey toy victim) b [], Inr ())" for victim
    by (simp add: alist_dht_def)
  moreover have "\<exists>victim. iv_IKSignPub i \<noteq> victim" by (metis list.discI)
  ultimately show ?thesis using d by metis
qed

theorem keys_from_mnemonic_witness:
  "\<exists>i i'. NewIdentityV1 toy toy_id 0 (Inr (replicate 32 7)) (Inr (replicate 32 8)) ''abandon'' ''phone'' = Inr i
    \<and> NewIdentityV1 toy toy_id 0 (Inr (replicate 32 7)) (Inr (replicate 32 8)) ''abandon'' ''laptop'' = Inr i' \<and> iv_IKSignPriv i = iv_IKSignPriv i'"
proof -
  obtain i i' where i: "NewIdentityV1 toy toy_id 0 (Inr (replicate 32 7)) (Inr (replicate 32 8)) ''abandon'' ''phone'' = Inr i"
    "NewIdentityV1 toy toy_id 0 (Inr (replicate 32 7)) (Inr (replicate 32 8)) ''abandon'' ''laptop'' = Inr i'"
    using toy_identity by meson
  obtain old where old: "NewIdentity toy toy_id ''abandon'' = Inr old"
    by (simp add: NewIdentity_def DeriveSeed_def toy_id_def SeedLength_def deriveEd25519Keys_def deriveX25519Keys_def derive_ed_def derive_x_def Let_def)
  obtain a b c d where poc: "DeriveIdentityKeysPoC toy toy_id (idn_Seed old) = Inr (a, b, c, d)"
    by (simp add: DeriveIdentityKeysPoC_def derive_ed_def derive_x_def Let_def)
  from keys_from_mnemonic[OF i old poc toy_key_sizes] i show ?thesis by blast
qed

end
