(* ===== verification/Devices.thy ===== *)
theory Devices
  imports Identity
begin

text \<open>
  \<open>pkg/multidevice\<close>: the devices of an identity. Registration and certificates (\<open>device.go\<close>), revocation (\<open>revocation.go\<close>, but for the
  clean-up of sessions, which is with the fan-out) and the synchronisation of state between devices (\<open>sync.go\<close>).
  The device manager that the other managers share through a pointer is part of their state. What \<open>BroadcastSync\<close>
  would publish is the result of \<open>sync_message\<close>; the code itself leaves publishing to its caller.
\<close>

section \<open>Devices\<close>

record DeviceManager =
  dm_identitySignPub :: bytes
  dm_identitySignPriv :: bytes
  dm_identityDHPub :: bytes
  dm_identityDHPriv :: bytes
  dm_deviceSignPub :: bytes
  dm_deviceSignPriv :: bytes
  dm_deviceDHPub :: bytes
  dm_deviceDHPriv :: bytes
  dm_deviceID :: bytes
  dm_deviceName :: string
  dm_deviceGroupKey :: bytes

record DeviceConfig =
  dcf_IdentitySignPub :: bytes
  dcf_IdentitySignPriv :: bytes
  dcf_IdentityDHPub :: bytes
  dcf_IdentityDHPriv :: bytes
  dcf_DeviceName :: string
  dcf_DeviceGroupKey :: bytes

definition NewDeviceManager :: "DeviceConfig \<Rightarrow> DeviceManager" where
  "NewDeviceManager config = \<lparr>dm_identitySignPub = dcf_IdentitySignPub config, dm_identitySignPriv = dcf_IdentitySignPriv config,
     dm_identityDHPub = dcf_IdentityDHPub config, dm_identityDHPriv = dcf_IdentityDHPriv config, dm_deviceSignPub = [], dm_deviceSignPriv = [],
     dm_deviceDHPub = [], dm_deviceDHPriv = [], dm_deviceID = [], dm_deviceName = dcf_DeviceName config, dm_deviceGroupKey = dcf_DeviceGroupKey config\<rparr>"

text \<open>The timestamps are in big-endian order here, in little-endian order in \<open>pkg/identity\<close>.\<close>

definition device_cert_data :: "DeviceCertificate \<Rightarrow> bytes" where
  "device_cert_data cert = dc_DeviceId cert @ dc_DeviceSignPub cert @ dc_DeviceDhPub cert @ str_bytes (dc_DeviceName cert) @
     be_bytes 8 (dc_CreatedAt cert) @ be_bytes 8 (dc_ExpiresAt cert) @ dc_IdentityPub cert"

definition dm_signDeviceCertificate :: "prims \<Rightarrow> DeviceManager \<Rightarrow> DeviceCertificate \<Rightarrow> bytes res" where
  "dm_signDeviceCertificate P dm cert = ed25519_Sign P (dm_identitySignPriv dm) (device_cert_data cert)"

definition Devices_VerifyDeviceCertificate :: "prims \<Rightarrow> DeviceCertificate \<Rightarrow> unit res" where
  "Devices_VerifyDeviceCertificate P cert =
     rbind (ed25519_Verify P (dc_IdentityPub cert) (device_cert_data cert) (dc_Signature cert)) (\<lambda>valid.
     if \<not> valid then Inl (Err ''invalid device certificate signature'') else Inr ())"

definition ComputeDeviceID :: "prims \<Rightarrow> bytes \<Rightarrow> bytes" where
  "ComputeDeviceID P deviceSignPub = take 16 (sha256 P deviceSignPub)"

definition RegisterNewDevice :: "prims \<Rightarrow> id_prims \<Rightarrow> time \<Rightarrow> bytes res \<Rightarrow> bytes res \<Rightarrow> DeviceManager \<Rightarrow> (DeviceManager, DeviceCertificate) eff" where
  "RegisterNewDevice P I now rndSign rndDH dm =
     (case rndSign of
        Inl e \<Rightarrow> (dm, Inl (Wrap ''failed to generate device signing key'' e))
      | Inr seed \<Rightarrow>
          let deviceSignPriv = ed25519_NewKeyFromSeed I seed; deviceSignPub = ed_public P deviceSignPriv
          in case rndDH of
            Inl e \<Rightarrow> (dm, Inl (Wrap ''failed to generate device DH private key'' e))
          | Inr deviceDHPriv \<Rightarrow> (case X25519 P deviceDHPriv (Basepoint P) of
              Inl e \<Rightarrow> (dm, Inl (Wrap ''failed to compute device DH public key'' e))
            | Inr deviceDHPub \<Rightarrow>
                let deviceID = take 16 (sha256 P deviceSignPub);
                    cert = \<lparr>dc_DeviceId = deviceID, dc_DeviceSignPub = deviceSignPub, dc_DeviceDhPub = deviceDHPub, dc_DeviceName = dm_deviceName dm,
                      dc_CreatedAt = unix now, dc_ExpiresAt = 0, dc_IdentityPub = dm_identitySignPub dm, dc_Signature = []\<rparr>
                in case dm_signDeviceCertificate P dm cert of
                  Inl e \<Rightarrow> (dm, Inl e)
                | Inr signature \<Rightarrow>
                    (dm\<lparr>dm_deviceSignPub := deviceSignPub, dm_deviceSignPriv := deviceSignPriv, dm_deviceDHPub := deviceDHPub,
                       dm_deviceDHPriv := deviceDHPriv, dm_deviceID := deviceID\<rparr>, Inr (cert\<lparr>dc_Signature := signature\<rparr>))))"

definition DeviceIDToHex :: "bytes \<Rightarrow> string" where
  "DeviceIDToHex deviceID = hex_encode deviceID"

definition DeviceIDFromHex :: "string \<Rightarrow> bytes res" where
  "DeviceIDFromHex hexStr = hex_decode hexStr"

section \<open>Revocation\<close>

definition revocation_data :: "RevocationCertificate \<Rightarrow> bytes" where
  "revocation_data cert = rv_RevokedKey cert @ str_bytes (rv_RevocationType cert) @ str_bytes (rv_Reason cert) @ be_bytes 8 (rv_RevokedAt cert)"

definition signRevocation :: "prims \<Rightarrow> DeviceManager \<Rightarrow> RevocationCertificate \<Rightarrow> bytes res" where
  "signRevocation P dm cert = ed25519_Sign P (dm_identitySignPriv dm) (revocation_data cert)"

definition RevokeDevice :: "prims \<Rightarrow> time \<Rightarrow> bytes \<Rightarrow> string \<Rightarrow> DeviceManager \<Rightarrow> RevocationCertificate res" where
  "RevokeDevice P now deviceID reason dm =
     (let cert = \<lparr>rv_RevokedKey = deviceID, rv_RevocationType = ''device'', rv_Reason = reason, rv_RevokedAt = unix now, rv_Signature = []\<rparr>
      in rbind (signRevocation P dm cert) (\<lambda>signature. Inr (cert\<lparr>rv_Signature := signature\<rparr>)))"

definition VerifyRevocation :: "prims \<Rightarrow> RevocationCertificate \<Rightarrow> bytes \<Rightarrow> unit res" where
  "VerifyRevocation P cert identityPub =
     rbind (ed25519_Verify P identityPub (revocation_data cert) (rv_Signature cert)) (\<lambda>valid.
     if \<not> valid then Inl (Err ''invalid revocation signature'') else Inr ())"

definition PublishRevocation :: "id_codecs \<Rightarrow> RevocationCertificate \<Rightarrow> unit res" where
  "PublishRevocation C cert = rbind (wrapped ''failed to marshal certificate'' (marshal (ic_revocation C) cert)) (\<lambda>_. Inr ())"

definition getRevocationTopic :: "prims \<Rightarrow> bytes \<Rightarrow> string" where
  "getRevocationTopic P identityPub = ''babylon-rev-'' @ hex_encode (take 8 (sha256 P identityPub))"

definition HandleRevocation :: "prims \<Rightarrow> RevocationCertificate \<Rightarrow> DeviceManager \<Rightarrow> unit res" where
  "HandleRevocation P cert dm = wrapped ''invalid revocation'' (VerifyRevocation P cert (dm_identitySignPub dm))"

definition IsDeviceRevoked :: "IdentityDocument \<Rightarrow> bytes \<Rightarrow> bool" where
  "IsDeviceRevoked identityDoc deviceID =
     (if list_ex (\<lambda>revocation. rv_RevokedKey revocation = deviceID) (do_Revocations identityDoc) then True
      else if list_ex (\<lambda>device. dc_DeviceId device = deviceID) (do_Devices identityDoc) then False
      else True)"

definition GetActiveDevices :: "IdentityDocument \<Rightarrow> DeviceCertificate list" where
  "GetActiveDevices identityDoc =
     filter (\<lambda>device. \<not> list_ex (\<lambda>revocation. rv_RevokedKey revocation = dc_DeviceId device) (do_Revocations identityDoc)) (do_Devices identityDoc)"

section \<open>Synchronisation\<close>

record ContactSync =
  cs_ContactPubkey :: bytes
  cs_DisplayName :: string
  cs_X25519Pubkey :: bytes
  cs_PeerId :: string
  cs_Multiaddrs :: "string list"
  cs_CreatedAt :: u64
  cs_UpdatedAt :: u64
  cs_IsRemoved :: bool

record ReadReceiptSync =
  rs_ContactPubkey :: bytes
  rs_MessageIds :: "bytes list"
  rs_ReadAt :: u64

record GroupSync =
  gs_GroupId :: bytes
  gs_Name :: string
  gs_Epoch :: u64
  gs_Joined :: bool
  gs_Timestamp :: u64

record SettingsSync =
  ss_Key :: string
  ss_Value :: bytes
  ss_UpdatedAt :: u64

record HistoryRequest =
  hq_ContactPubkey :: bytes
  hq_StartTime :: u64
  hq_EndTime :: u64
  hq_MaxMessages :: u32

record HistoryMessage =
  hm_MessageId :: bytes
  hm_Text :: string
  hm_Timestamp :: u64
  hm_IsSent :: bool
  hm_RecipientPubkey :: bytes
  hm_SenderPubkey :: bytes

record HistoryBatch =
  hb_ContactPubkey :: bytes
  hb_Messages :: "HistoryMessage list"
  hb_BatchNumber :: u32
  hb_IsLastBatch :: bool

datatype SyncPayload = PContact ContactSync | PReadReceipt ReadReceiptSync | PGroup GroupSync | PSettings SettingsSync
  | PHistoryRequest HistoryRequest | PHistoryBatch HistoryBatch

type_synonym SyncType = u32
type_synonym VectorClock = "(string, u64) gomap"

record DeviceSyncMessage =
  sm_SourceDeviceId :: u32
  sm_Type :: SyncType
  sm_EncryptedPayload :: bytes
  sm_Nonce :: bytes
  sm_Timestamp :: u64
  sm_VectorClock :: "VectorClock option"

record sync_codecs =
  yc_contact :: "ContactSync codec"
  yc_read :: "ReadReceiptSync codec"
  yc_group :: "GroupSync codec"
  yc_settings :: "SettingsSync codec"
  yc_history_request :: "HistoryRequest codec"
  yc_history_batch :: "HistoryBatch codec"
  yc_message :: "DeviceSyncMessage codec"

fun marshal_payload :: "sync_codecs \<Rightarrow> SyncPayload \<Rightarrow> bytes res" where
  "marshal_payload Y (PContact m) = marshal (yc_contact Y) m"
| "marshal_payload Y (PReadReceipt m) = marshal (yc_read Y) m"
| "marshal_payload Y (PGroup m) = marshal (yc_group Y) m"
| "marshal_payload Y (PSettings m) = marshal (yc_settings Y) m"
| "marshal_payload Y (PHistoryRequest m) = marshal (yc_history_request Y) m"
| "marshal_payload Y (PHistoryBatch m) = marshal (yc_history_batch Y) m"

text \<open>The payload by the type of the message: 1 to 3 contacts, 4 read receipts, 5 and 6 groups, 7 settings, 8 and 9 history.\<close>

definition parse_payload :: "sync_codecs \<Rightarrow> SyncType \<Rightarrow> bytes \<Rightarrow> SyncPayload res" where
  "parse_payload Y t b =
     (let msg = ''failed to unmarshal payload'' in
      if t = 1 \<or> t = 2 \<or> t = 3 then wrapped msg (map_sum id PContact (unmarshal (yc_contact Y) b))
      else if t = 4 then wrapped msg (map_sum id PReadReceipt (unmarshal (yc_read Y) b))
      else if t = 5 \<or> t = 6 then wrapped msg (map_sum id PGroup (unmarshal (yc_group Y) b))
      else if t = 7 then wrapped msg (map_sum id PSettings (unmarshal (yc_settings Y) b))
      else if t = 8 then wrapped msg (map_sum id PHistoryRequest (unmarshal (yc_history_request Y) b))
      else if t = 9 then wrapped msg (map_sum id PHistoryBatch (unmarshal (yc_history_batch Y) b))
      else Inl (Err (''unknown sync type: '' @ (if t = 0 then ''SYNC_TYPE_UNSPECIFIED'' else if sint t < 0 then ''-'' @ dec_of_nat (nat (- sint t))
        else dec_of_nat (unat t)))))"

record SyncEvent =
  ye_Type :: SyncType
  ye_SourceDeviceID :: u32
  ye_Timestamp :: u64
  ye_Payload :: SyncPayload
  ye_VectorClock :: "VectorClock option"

record HistoryRequestState =
  hr_RequestID :: string
  hr_ContactPubKey :: bytes
  hr_StartTime :: u64
  hr_EndTime :: u64
  hr_MaxMessages :: u32
  hr_Received :: "HistoryMessage list"
  hr_Complete :: bool

record SyncManager =
  sy_deviceManager :: DeviceManager
  sy_vectorClock :: VectorClock
  sy_eventChan :: "SyncEvent list"
  sy_historyRequests :: "(string, HistoryRequestState) gomap"

definition NewSyncManager :: "DeviceManager \<Rightarrow> SyncManager" where
  "NewSyncManager dm = \<lparr>sy_deviceManager = dm, sy_vectorClock = [], sy_eventChan = [], sy_historyRequests = []\<rparr>"

definition GetSyncTopic :: "prims \<Rightarrow> bytes \<Rightarrow> string" where
  "GetSyncTopic P identityPub = ''babylon-sync-'' @ hex_encode (take 8 (sha256 P identityPub))"

definition updateVectorClock :: "SyncManager \<Rightarrow> SyncManager" where
  "updateVectorClock sm =
     (let deviceID = hex_encode (dm_deviceID (sy_deviceManager sm));
          n = (case gm_get (sy_vectorClock sm) deviceID of None \<Rightarrow> 0 | Some v \<Rightarrow> v)
      in sm\<lparr>sy_vectorClock := gm_set deviceID (n + 1) (sy_vectorClock sm)\<rparr>)"

definition getVectorClock :: "SyncManager \<Rightarrow> VectorClock" where
  "getVectorClock sm = sy_vectorClock sm"

definition clock_of :: "VectorClock \<Rightarrow> string \<Rightarrow> u64" where
  "clock_of c k = (case gm_get c k of None \<Rightarrow> 0 | Some v \<Rightarrow> v)"

fun merge_clocks :: "VectorClock \<Rightarrow> VectorClock \<Rightarrow> VectorClock" where
  "merge_clocks [] c = c"
| "merge_clocks ((deviceID, remoteCounter) # r) c =
     merge_clocks r (if clock_of c deviceID < remoteCounter then gm_set deviceID remoteCounter c else c)"

definition mergeVectorClock :: "VectorClock option \<Rightarrow> SyncManager \<Rightarrow> SyncManager" where
  "mergeVectorClock remote sm = (case remote of None \<Rightarrow> sm | Some r \<Rightarrow> sm\<lparr>sy_vectorClock := merge_clocks r (sy_vectorClock sm)\<rparr>)"

text \<open>The first four bytes of the device identifier, 0 when it has fewer.\<close>

definition device_prefix :: "bytes \<Rightarrow> u32" where
  "device_prefix deviceID = (if length deviceID \<ge> 4 then be_uint (take 4 deviceID) else 0)"

definition sync_message :: "prims \<Rightarrow> sync_codecs \<Rightarrow> time \<Rightarrow> bytes res \<Rightarrow> SyncType \<Rightarrow> SyncPayload \<Rightarrow> SyncManager \<Rightarrow> (SyncManager, bytes) eff" where
  "sync_message P Y now rnd syncType payload sm =
     (case marshal_payload Y payload of
        Inl e \<Rightarrow> (sm, Inl (Wrap ''failed to marshal payload'' e))
      | Inr payloadBytes \<Rightarrow> (case rnd of
          Inl e \<Rightarrow> (sm, Inl (Wrap ''failed to generate nonce'' e))
        | Inr nonce \<Rightarrow> (case Encrypt_X P (dm_deviceGroupKey (sy_deviceManager sm)) nonce payloadBytes of
            Inl e \<Rightarrow> (sm, Inl (Wrap ''failed to encrypt payload'' e))
          | Inr ciphertext \<Rightarrow>
              let sm1 = updateVectorClock sm;
                  syncMsg = \<lparr>sm_SourceDeviceId = device_prefix (dm_deviceID (sy_deviceManager sm)), sm_Type = syncType, sm_EncryptedPayload = ciphertext,
                    sm_Nonce = nonce, sm_Timestamp = unix now, sm_VectorClock = Some (getVectorClock sm1)\<rparr>
              in (sm1, wrapped ''failed to marshal sync message'' (marshal (yc_message Y) syncMsg)))))"

definition BroadcastSync :: "prims \<Rightarrow> sync_codecs \<Rightarrow> time \<Rightarrow> bytes res \<Rightarrow> SyncType \<Rightarrow> SyncPayload \<Rightarrow> SyncManager \<Rightarrow> (SyncManager, unit) eff" where
  "BroadcastSync P Y now rnd syncType payload sm =
     (case sync_message P Y now rnd syncType payload sm of (sm1, r) \<Rightarrow> (sm1, rbind r (\<lambda>_. Inr ())))"

definition HandleSyncMessage :: "prims \<Rightarrow> sync_codecs \<Rightarrow> bytes \<Rightarrow> SyncManager \<Rightarrow> (SyncManager, unit) eff" where
  "HandleSyncMessage P Y data sm =
     (case unmarshal (yc_message Y) data of
        Inl e \<Rightarrow> (sm, Inl (Wrap ''failed to unmarshal sync message'' e))
      | Inr syncMsg \<Rightarrow>
          if length (dm_deviceID (sy_deviceManager sm)) \<ge> 4 \<and> sm_SourceDeviceId syncMsg = device_prefix (dm_deviceID (sy_deviceManager sm)) then (sm, Inr ())
          else case Decrypt_X P (sm_EncryptedPayload syncMsg) (dm_deviceGroupKey (sy_deviceManager sm)) (sm_Nonce syncMsg) of
            Inl e \<Rightarrow> (sm, Inl (Wrap ''failed to decrypt payload'' e))
          | Inr plaintext \<Rightarrow> (case parse_payload Y (sm_Type syncMsg) plaintext of
              Inl e \<Rightarrow> (sm, Inl e)
            | Inr payload \<Rightarrow>
                let sm1 = mergeVectorClock (sm_VectorClock syncMsg) sm;
                    event = \<lparr>ye_Type = sm_Type syncMsg, ye_SourceDeviceID = sm_SourceDeviceId syncMsg, ye_Timestamp = sm_Timestamp syncMsg,
                      ye_Payload = payload, ye_VectorClock = sm_VectorClock syncMsg\<rparr>
                in (if length (sy_eventChan sm1) < 100 then sm1\<lparr>sy_eventChan := sy_eventChan sm1 @ [event]\<rparr> else sm1, Inr ())))"

definition RequestHistory :: "prims \<Rightarrow> sync_codecs \<Rightarrow> time \<Rightarrow> bytes res \<Rightarrow> bytes \<Rightarrow> u64 \<Rightarrow> u64 \<Rightarrow> u32 \<Rightarrow> SyncManager \<Rightarrow> (SyncManager, string) eff" where
  "RequestHistory P Y now rnd contactPubKey startTime endTime maxMessages sm =
     (let requestID = hex_encode (replicate 16 0);
          request = \<lparr>hq_ContactPubkey = contactPubKey, hq_StartTime = startTime, hq_EndTime = endTime, hq_MaxMessages = maxMessages\<rparr>;
          sm1 = sm\<lparr>sy_historyRequests := gm_set requestID \<lparr>hr_RequestID = requestID, hr_ContactPubKey = contactPubKey, hr_StartTime = startTime,
            hr_EndTime = endTime, hr_MaxMessages = maxMessages, hr_Received = [], hr_Complete = False\<rparr> (sy_historyRequests sm)\<rparr>
      in case BroadcastSync P Y now rnd 8 (PHistoryRequest request) sm1 of
        (sm2, Inl e) \<Rightarrow> (sm2, Inl e)
      | (sm2, Inr _) \<Rightarrow> (sm2, Inr requestID))"

definition SendHistoryBatch :: "prims \<Rightarrow> sync_codecs \<Rightarrow> time \<Rightarrow> bytes res \<Rightarrow> bytes \<Rightarrow> HistoryMessage list \<Rightarrow> u32 \<Rightarrow> bool \<Rightarrow> SyncManager \<Rightarrow> (SyncManager, unit) eff" where
  "SendHistoryBatch P Y now rnd contactPubKey messages batchNumber isLastBatch sm =
     BroadcastSync P Y now rnd 9 (PHistoryBatch \<lparr>hb_ContactPubkey = contactPubKey, hb_Messages = messages, hb_BatchNumber = batchNumber,
       hb_IsLastBatch = isLastBatch\<rparr>) sm"

text \<open>The first request for the contact, in the order in which the map is ranged over, takes the batch.\<close>

fun take_batch :: "HistoryBatch \<Rightarrow> (string, HistoryRequestState) gomap \<Rightarrow> (string, HistoryRequestState) gomap" where
  "take_batch batch [] = []"
| "take_batch batch ((k, req) # rest) =
     (if hr_ContactPubKey req = hb_ContactPubkey batch
      then (k, req\<lparr>hr_Received := hr_Received req @ hb_Messages batch, hr_Complete := hr_Complete req \<or> hb_IsLastBatch batch\<rparr>) # rest
      else (k, req) # take_batch batch rest)"

definition HandleHistoryBatch :: "HistoryBatch \<Rightarrow> SyncManager \<Rightarrow> SyncManager" where
  "HandleHistoryBatch batch sm = sm\<lparr>sy_historyRequests := take_batch batch (sy_historyRequests sm)\<rparr>"

definition take_sync_event :: "SyncManager \<Rightarrow> SyncManager \<times> SyncEvent option" where
  "take_sync_event sm = (case sy_eventChan sm of [] \<Rightarrow> (sm, None) | e # es \<Rightarrow> (sm\<lparr>sy_eventChan := es\<rparr>, Some e))"

definition CreateContactSync :: "time \<Rightarrow> bytes \<Rightarrow> bytes \<Rightarrow> string \<Rightarrow> string \<Rightarrow> string list \<Rightarrow> bool \<Rightarrow> ContactSync" where
  "CreateContactSync now contactPubKey x25519PubKey displayName peerID multiaddrs isRemoved =
     \<lparr>cs_ContactPubkey = contactPubKey, cs_DisplayName = displayName, cs_X25519Pubkey = x25519PubKey, cs_PeerId = peerID, cs_Multiaddrs = multiaddrs,
      cs_CreatedAt = unix now, cs_UpdatedAt = 0, cs_IsRemoved = isRemoved\<rparr>"

definition CreateReadReceiptSync :: "time \<Rightarrow> bytes \<Rightarrow> bytes list \<Rightarrow> ReadReceiptSync" where
  "CreateReadReceiptSync now contactPubKey messageIDs = \<lparr>rs_ContactPubkey = contactPubKey, rs_MessageIds = messageIDs, rs_ReadAt = unix now\<rparr>"

definition CreateGroupSync :: "time \<Rightarrow> bytes \<Rightarrow> string \<Rightarrow> u64 \<Rightarrow> bool \<Rightarrow> GroupSync" where
  "CreateGroupSync now groupID name epoch joined = \<lparr>gs_GroupId = groupID, gs_Name = name, gs_Epoch = epoch, gs_Joined = joined, gs_Timestamp = unix now\<rparr>"

definition CreateSettingsSync :: "time \<Rightarrow> string \<Rightarrow> bytes \<Rightarrow> SettingsSync" where
  "CreateSettingsSync now key value = \<lparr>ss_Key = key, ss_Value = value, ss_UpdatedAt = unix now\<rparr>"

text \<open>What can happen to a manager, in any order: the calls above and the registration of its device.\<close>

inductive sync_step :: "prims \<Rightarrow> id_prims \<Rightarrow> sync_codecs \<Rightarrow> SyncManager \<Rightarrow> SyncManager \<Rightarrow> bool" for P I Y where
  sy_broadcast: "BroadcastSync P Y now rnd t p sm = (sm', r) \<Longrightarrow> sync_step P I Y sm sm'"
| sy_handle: "HandleSyncMessage P Y data sm = (sm', r) \<Longrightarrow> sync_step P I Y sm sm'"
| sy_request: "RequestHistory P Y now rnd k t0 t1 n sm = (sm', q) \<Longrightarrow> sync_step P I Y sm sm'"
| sy_send_batch: "SendHistoryBatch P Y now rnd k ms n l sm = (sm', r) \<Longrightarrow> sync_step P I Y sm sm'"
| sy_batch: "sync_step P I Y sm (HandleHistoryBatch batch sm)"
| sy_take: "take_sync_event sm = (sm', ev) \<Longrightarrow> sync_step P I Y sm sm'"
| sy_register: "RegisterNewDevice P I now r1 r2 (sy_deviceManager sm) = (dm', c) \<Longrightarrow> sync_step P I Y sm (sm\<lparr>sy_deviceManager := dm'\<rparr>)"

section \<open>Lemmas\<close>

lemma hex_roundtrip: "DeviceIDFromHex (hex_encode b) = Inr b"
  by (simp add: DeviceIDFromHex_def)

lemma drop_bit_high: "unat (w :: u64) < 2 ^ 32 \<Longrightarrow> 4 \<le> i \<Longrightarrow> drop_bit (8 * i) w = 0"
proof -
  assume "unat w < 2 ^ 32" "4 \<le> i"
  moreover have "(2 :: nat) ^ 32 \<le> 2 ^ (8 * i)" using \<open>4 \<le> i\<close> by (intro power_increasing) auto
  ultimately have "drop_bit (8 * i) (unat w) = 0" by (simp add: drop_bit_eq_div)
  then have "unat (drop_bit (8 * i) w) = 0" by (simp only: unat_drop_bit_eq)
  then show ?thesis by (simp only: unat_eq_0)
qed

text \<open>A number of less than 33 bits reads the same in both byte orders only when it is 0.\<close>

lemma byte_orders_differ:
  assumes "unat (w :: u64) < 2 ^ 32" "be_bytes 8 w = le_bytes 8 w"
  shows "w = 0"
proof -
  have hi: "le_bytes 8 w ! i = 0" if "4 \<le> i" "i < 8" for i
    using that drop_bit_high[OF assms(1)] by (simp add: le_bytes_def)
  have "le_bytes 8 w ! i = 0" if "i < 8" for i
  proof (cases "4 \<le> i")
    case False
    have "le_bytes 8 w ! i = rev (le_bytes 8 w) ! i" using assms(2) by (simp add: be_bytes_def)
    also have "\<dots> = le_bytes 8 w ! (7 - i)" using that by (simp add: rev_nth)
    finally show ?thesis using hi[of "7 - i"] False that by simp
  qed (use hi that in simp)
  then have "le_bytes 8 w = le_bytes 8 (0 :: u64)" by (intro nth_equalityI) (auto simp: le_bytes_def)
  then show ?thesis by (metis le_uint_roundtrip64)
qed

lemma cert_formats:
  assumes "0 < unat (dc_CreatedAt cert)" "unat (dc_CreatedAt cert) < 2 ^ 32"
  shows "device_cert_data cert \<noteq> cert_data cert"
proof
  assume "device_cert_data cert = cert_data cert"
  then have "be_bytes 8 (dc_CreatedAt cert) = le_bytes 8 (dc_CreatedAt cert)"
    by (simp add: device_cert_data_def cert_data_def)
  then show False using byte_orders_differ[OF assms(2)] assms(1) by simp
qed

lemma merge_clocks_get: "gm_ok r \<Longrightarrow> clock_of (merge_clocks r c) k = max (clock_of c k) (clock_of r k)"
proof (induction r arbitrary: c)
  case (Cons p r)
  obtain d v where p: "p = (d, v)" by (cases p)
  have r: "gm_ok r" "gm_get r d = None" using Cons.prems p by (auto simp: gm_ok_def gm_get_def map_of_eq_None_iff)
  have "clock_of (if clock_of c d < v then gm_set d v c else c) k = (if k = d then max (clock_of c d) v else clock_of c k)"
    by (auto simp: clock_of_def max_def)
  then show ?case
    using Cons.IH[OF r(1)] p r(2) by (auto simp: clock_of_def gm_get_def)
qed (simp add: clock_of_def)

text \<open>A device never accepts what another one of the same group sends: the arguments of \<open>Decrypt\<close> are in the wrong order.\<close>

lemma sync_ignored:
  assumes "length (dm_deviceGroupKey (sy_deviceManager sm)) = 32"
  shows "fst (HandleSyncMessage P Y data sm) = sm"
  using assms by (simp add: HandleSyncMessage_def Decrypt_X_def crypto_sizes split: sum.split)

lemma RegisterNewDevice_key: "dm_deviceGroupKey (fst (RegisterNewDevice P I now r1 r2 dm)) = dm_deviceGroupKey dm"
  by (simp add: RegisterNewDevice_def Let_def split: sum.split)

definition sync_idle :: "bytes \<Rightarrow> SyncManager \<Rightarrow> bool" where
  "sync_idle key sm \<longleftrightarrow> dm_deviceGroupKey (sy_deviceManager sm) = key \<and> sy_eventChan sm = [] \<and> gm_dom (sy_historyRequests sm) \<subseteq> {hex_encode (replicate 16 0)}"

lemma take_batch_keys: "map fst (take_batch b m) = map fst m"
  by (induction m) auto

lemma gm_dom_set: "gm_dom (gm_set k v m) = insert k (gm_dom m)"
  by (auto simp: gm_dom_get split: if_splits)

lemma broadcast_idle: "sync_idle key (fst (BroadcastSync P Y now rnd t p sm)) = sync_idle key sm"
  by (simp add: BroadcastSync_def sync_message_def sync_idle_def updateVectorClock_def Let_def split: sum.split prod.split)

lemma request_idle: "sync_idle key sm \<Longrightarrow> sync_idle key (fst (RequestHistory P Y now rnd k t0 t1 n sm))"
proof -
  assume s: "sync_idle key sm"
  let ?id = "hex_encode (replicate 16 0)"
  let ?sm1 = "sm\<lparr>sy_historyRequests := gm_set ?id \<lparr>hr_RequestID = ?id, hr_ContactPubKey = k, hr_StartTime = t0, hr_EndTime = t1, hr_MaxMessages = n,
    hr_Received = [], hr_Complete = False\<rparr> (sy_historyRequests sm)\<rparr>"
    and ?p = "PHistoryRequest \<lparr>hq_ContactPubkey = k, hq_StartTime = t0, hq_EndTime = t1, hq_MaxMessages = n\<rparr>"
  have "fst (RequestHistory P Y now rnd k t0 t1 n sm) = fst (BroadcastSync P Y now rnd 8 ?p ?sm1)"
    by (simp add: RequestHistory_def Let_def split: prod.split sum.split)
  moreover have "sync_idle key ?sm1" using s by (simp add: sync_idle_def gm_dom_set)
  ultimately show ?thesis by (simp add: broadcast_idle)
qed

interpretation idle: kept_invariant "sync_step P I Y" "\<lambda>sm. length key = 32 \<and> sync_idle key sm" for P I Y key
proof unfold_locales
  fix sm sm' assume s: "length key = 32 \<and> sync_idle key sm" and "sync_step P I Y sm sm'"
  from this(2) show "length key = 32 \<and> sync_idle key sm'"
  proof (cases rule: sync_step.cases)
    case (sy_broadcast now rnd t p r)
    then show ?thesis using s broadcast_idle[of key P Y now rnd t p sm] by simp
  next
    case (sy_handle data r)
    then show ?thesis using s sync_ignored[of sm P Y data] by (simp add: sync_idle_def)
  next
    case (sy_request now rnd k t0 t1 n q)
    then show ?thesis using s request_idle[of key sm P Y now rnd k t0 t1 n] by simp
  next
    case (sy_send_batch now rnd k ms n l r)
    then show ?thesis using s unfolding SendHistoryBatch_def by (metis broadcast_idle fst_conv)
  next
    case (sy_batch batch)
    have "gm_dom (take_batch batch m) = gm_dom m" for m by (metis gm_dom_def list.set_map take_batch_keys)
    then show ?thesis using s sy_batch by (simp add: HandleHistoryBatch_def sync_idle_def)
  next
    case (sy_take ev)
    then show ?thesis using s by (auto simp: take_sync_event_def sync_idle_def)
  next
    case (sy_register now r1 r2 dm' c)
    then show ?thesis using s RegisterNewDevice_key[of P I now r1 r2 "sy_deviceManager sm"] by (simp add: sync_idle_def)
  qed
qed

section \<open>Properties\<close>

text \<open>C18.A registered device is certified: the certificate verifies under the identity, its identifier is computed from its signing key and is
  the manager's device identifier, which survives the way through hexadecimal text. The bytes that were signed are not the bytes that
  the identity package verifies, for any time from the second second of 1970 until 2106: the two packages use different byte orders.\<close>

theorem device_registration:
  assumes "sig_correct P" "length (dm_identitySignPriv dm) = 64" "dm_identitySignPub dm = ed_public P (dm_identitySignPriv dm)"
    and r: "RegisterNewDevice P I now rndSign rndDH dm = (dm', Inr cert)"
  shows "Devices_VerifyDeviceCertificate P cert = Inr () \<and> dc_DeviceId cert = ComputeDeviceID P (dc_DeviceSignPub cert) \<and> dm_deviceID dm' = dc_DeviceId cert
    \<and> DeviceIDFromHex (DeviceIDToHex (dm_deviceID dm')) = Inr (dm_deviceID dm')
    \<and> (0 < unat (unix now) \<and> unat (unix now) < 2 ^ 32 \<longrightarrow> device_cert_data cert \<noteq> cert_data cert)"
proof -
  have v: "Devices_VerifyDeviceCertificate P cert = Inr () \<and> dc_DeviceId cert = ComputeDeviceID P (dc_DeviceSignPub cert) \<and> dm_deviceID dm' = dc_DeviceId cert
      \<and> dc_CreatedAt cert = unix now"
    using r sig_correctD[OF assms(1,2)] assms(2,3)
    by (auto simp: RegisterNewDevice_def Let_def dm_signDeviceCertificate_def ed25519_Sign_def Devices_VerifyDeviceCertificate_def ed25519_Verify_def
        device_cert_data_def ComputeDeviceID_def crypto_sizes split: sum.splits if_splits)
  then show ?thesis using cert_formats[of cert] by (simp add: hex_roundtrip DeviceIDToHex_def)
qed


text \<open>C38.Synchronisation between devices never delivers anything. With a group key of 32 bytes, the only size with which a device can send, and under
  every sequence of calls, no event is ever queued, every incoming message leaves the manager as it is, and at most one history request is kept.\<close>

theorem sync_never_received:
  assumes "(sync_step P I Y)\<^sup>*\<^sup>* (NewSyncManager dm) sm" "length (dm_deviceGroupKey dm) = 32"
  shows "sy_eventChan sm = [] \<and> (\<forall>data. fst (HandleSyncMessage P Y data sm) = sm) \<and> card (gm_dom (sy_historyRequests sm)) \<le> 1
    \<and> (\<forall>sm0 now rnd t p. length (dm_deviceGroupKey (sy_deviceManager sm0)) \<noteq> 32 \<longrightarrow> \<not> is_ok (snd (BroadcastSync P Y now rnd t p sm0)))"
proof -
  have i: "length (dm_deviceGroupKey dm) = 32 \<and> sync_idle (dm_deviceGroupKey dm) sm"
    by (rule idle.reachable_inv[OF assms(1)]) (use assms(2) in \<open>simp add: sync_idle_def NewSyncManager_def gm_dom_def\<close>)
  then have "card (gm_dom (sy_historyRequests sm)) \<le> card {hex_encode (replicate 16 0)}" by (intro card_mono) (simp_all add: sync_idle_def)
  moreover have "\<not> is_ok (snd (BroadcastSync P Y now rnd t p sm0))" if "length (dm_deviceGroupKey (sy_deviceManager sm0)) \<noteq> 32" for sm0 now rnd t p
    using that by (auto simp: BroadcastSync_def sync_message_def Encrypt_X_def crypto_sizes is_ok_iff split: sum.splits)
  ultimately show ?thesis using i sync_ignored[of sm P Y] by (simp add: sync_idle_def)
qed

lemma merge_all: "\<forall>r\<in>set rs. gm_ok r \<Longrightarrow> clock_of (fold merge_clocks rs c) k = Max (insert (clock_of c k) ((\<lambda>r. clock_of r k) ` set rs))"
proof (induction rs arbitrary: c)
  case (Cons r rs)
  then have "clock_of (fold merge_clocks (r # rs) c) k = Max (insert (max (clock_of c k) (clock_of r k)) ((\<lambda>r. clock_of r k) ` set rs))"
    by (simp add: merge_clocks_get)
  also have "\<dots> = Max (insert (clock_of c k) (insert (clock_of r k) ((\<lambda>r. clock_of r k) ` set rs)))"
    by (cases "rs = []") (simp_all add: Max_insert max.assoc)
  finally show ?case by simp
qed simp

text \<open>C23.Vector clocks converge: merging clocks in any order and any number of times gives every device the maximum of its counters.\<close>

theorem vector_clocks_converge:
  assumes "\<forall>r\<in>set rs. gm_ok r" "set rs' = set rs"
  shows "clock_of (sy_vectorClock (fold (\<lambda>r. mergeVectorClock (Some r)) rs sm)) k = Max (insert (clock_of (sy_vectorClock sm) k) ((\<lambda>r. clock_of r k) ` set rs))
    \<and> clock_of (sy_vectorClock (fold (\<lambda>r. mergeVectorClock (Some r)) rs' sm)) k = clock_of (sy_vectorClock (fold (\<lambda>r. mergeVectorClock (Some r)) rs sm)) k"
proof -
  have "sy_vectorClock (fold (\<lambda>r. mergeVectorClock (Some r)) xs sm) = fold merge_clocks xs (sy_vectorClock sm)" for xs
    by (induction xs arbitrary: sm) (simp_all add: mergeVectorClock_def)
  then show ?thesis using merge_all[of rs] merge_all[of rs'] assms by simp
qed

section \<open>Witnesses\<close>

definition example_manager :: DeviceManager where
  "example_manager = NewDeviceManager \<lparr>dcf_IdentitySignPub = replicate 32 1, dcf_IdentitySignPriv = replicate 64 1, dcf_IdentityDHPub = replicate 32 2,
     dcf_IdentityDHPriv = replicate 32 2, dcf_DeviceName = ''phone'', dcf_DeviceGroupKey = replicate 32 3\<rparr>"

lemma example_manager_keys:
  "length (dm_identitySignPriv example_manager) = 64" "dm_identitySignPub example_manager = ed_public toy (dm_identitySignPriv example_manager)"
  "length (dm_deviceGroupKey example_manager) = 32"
  by (simp_all add: example_manager_def NewDeviceManager_def)

theorem device_registration_witness:
  "\<exists>dm' cert. RegisterNewDevice toy toy_id 2000000000 (Inr (replicate 32 7)) (Inr (replicate 32 8)) example_manager = (dm', Inr cert)
    \<and> Devices_VerifyDeviceCertificate toy cert = Inr () \<and> device_cert_data cert \<noteq> cert_data cert"
proof -
  obtain dm' cert where r: "RegisterNewDevice toy toy_id 2000000000 (Inr (replicate 32 7)) (Inr (replicate 32 8)) example_manager = (dm', Inr cert)"
    by (simp add: RegisterNewDevice_def toy_id_def dm_signDeviceCertificate_def ed25519_Sign_def crypto_sizes example_manager_keys Let_def)
  have "unat (unix 2000000000) = 2" by (simp add: unix_def)
  then show ?thesis using device_registration[OF toy_sig example_manager_keys(1,2) r] r by simp
qed


theorem sync_never_received_witness:
  "sy_eventChan (HandleHistoryBatch \<lparr>hb_ContactPubkey = [], hb_Messages = [], hb_BatchNumber = 0, hb_IsLastBatch = True\<rparr> (NewSyncManager example_manager)) = []"
proof -
  have "(sync_step toy toy_id Y)\<^sup>*\<^sup>* (NewSyncManager example_manager)
      (HandleHistoryBatch \<lparr>hb_ContactPubkey = [], hb_Messages = [], hb_BatchNumber = 0, hb_IsLastBatch = True\<rparr> (NewSyncManager example_manager))" for Y
    by (intro r_into_rtranclp sy_batch)
  from sync_never_received[OF this example_manager_keys(3)] show ?thesis by blast
qed

theorem vector_clocks_converge_witness:
  "clock_of (sy_vectorClock (fold (\<lambda>r. mergeVectorClock (Some r)) [[(''a'', 3)], [(''a'', 5), (''b'', 1)]] (NewSyncManager example_manager))) ''a'' = 5"
  using vector_clocks_converge[of "[[(''a'', 3)], [(''a'', 5), (''b'', 1)]]" "[[(''a'', 3)], [(''a'', 5), (''b'', 1)]]" "NewSyncManager example_manager" "''a''"]
  by (simp add: gm_ok_def clock_of_def gm_get_def NewSyncManager_def)

end
