(* ===== verification/Fanout.thy ===== *)
theory Fanout
  imports Devices Mailbox Messaging
begin

text \<open>
  \<open>pkg/multidevice/fanout.go\<close> (with \<open>CleanupRevokedDevices\<close> of \<open>revocation.go\<close>): sending a message to every device of a recipient. The network, the
  store's \<open>SetConfig\<close>, the JSON text of a session and the protobuf library are fields of the record \<open>fanout_env\<close>; \<open>rnd size i\<close> is what
  the random reader returns for the \<open>i\<close>-th request of a call, which asked for \<open>size\<close> bytes. Sessions are pointers in the code, so an
  update of a session reaches the map.
\<close>

section \<open>Types\<close>

record DeviceSession =
  ds_DeviceID :: bytes
  ds_DeviceSignPub :: bytes
  ds_DeviceDHPub :: bytes
  ds_SessionKey :: bytes
  ds_ChainKey :: bytes
  ds_DHRatchet :: bytes
  ds_CreatedAt :: time
  ds_LastUsedAt :: time
  ds_MessageCounter :: u32

record 'd FanoutManager =
  fm_deviceManager :: DeviceManager
  fm_storage :: "'d option"
  fm_sessions :: "(string, (string, DeviceSession) gomap) gomap"
  fm_symmetricKeys :: "(string, bytes) gomap"

record EncryptedDeviceKey =
  ek_DeviceId :: bytes
  ek_EncryptedKey :: bytes
  ek_EncryptedNonce :: bytes
  ek_EphemeralPub :: bytes

record MultiDeviceEnvelope =
  mv_ProtocolVersion :: u32
  mv_MessageType :: u32
  mv_SenderIdentity :: bytes
  mv_RecipientIdentity :: bytes
  mv_Timestamp :: u64
  mv_MessageId :: bytes
  mv_Payload :: bytes
  mv_Nonce :: bytes
  mv_SenderDeviceId :: bytes
  mv_Signature :: bytes
  mv_CipherSuiteId :: u32
  mv_EncryptedKeys :: "EncryptedDeviceKey list"

text \<open>A payload with a text, the only content the fan-out sends.\<close>

record DMPayload =
  dp_DhRatchetPub :: bytes
  dp_PreviousChainLength :: u32
  dp_MessageNumber :: u32
  dp_Text :: string

record DeviceSendResult =
  dr_DeviceID :: bytes
  dr_Success :: bool

record FanoutResult =
  fr_SuccessCount :: nat
  fr_TotalDevices :: nat
  fr_DeviceResults :: "DeviceSendResult list"
  fr_OptimizationUsed :: string

record EncryptedKey_rec =
  ey_DeviceID :: bytes
  ey_EncryptedKey :: bytes
  ey_EncryptedNonce :: bytes
  ey_EphemeralPub :: bytes

record ('d, 'n) fanout_env =
  fe_Publish :: "string \<Rightarrow> bytes \<Rightarrow> 'n \<Rightarrow> ('n, unit) eff"
  fe_SetConfig :: "string \<Rightarrow> string \<Rightarrow> 'd \<Rightarrow> ('d, unit) eff"
  fe_json :: "DeviceSession \<Rightarrow> string res"
  fe_text :: "string \<Rightarrow> bytes res"
  fe_payload :: "DMPayload \<Rightarrow> bytes res"
  fe_babylon :: "BabylonEnvelope \<Rightarrow> bytes res"
  fe_multi :: "MultiDeviceEnvelope \<Rightarrow> bytes res"

type_synonym reader = "nat \<Rightarrow> nat \<Rightarrow> bytes res"

definition NewFanoutManager :: "DeviceManager \<Rightarrow> 'd option \<Rightarrow> 'd FanoutManager" where
  "NewFanoutManager dm storage = \<lparr>fm_deviceManager = dm, fm_storage = storage, fm_sessions = [], fm_symmetricKeys = []\<rparr>"

section \<open>Sessions and keys\<close>

definition new_device_session :: "time \<Rightarrow> DeviceCertificate \<Rightarrow> DeviceSession" where
  "new_device_session now device = \<lparr>ds_DeviceID = dc_DeviceId device, ds_DeviceSignPub = dc_DeviceSignPub device, ds_DeviceDHPub = dc_DeviceDhPub device,
     ds_SessionKey = replicate 32 0, ds_ChainKey = replicate 32 0, ds_DHRatchet = replicate 32 0, ds_CreatedAt = now, ds_LastUsedAt = now, ds_MessageCounter = 0\<rparr>"

definition find_session :: "string \<Rightarrow> string \<Rightarrow> 'd FanoutManager \<Rightarrow> DeviceSession option" where
  "find_session identityHex deviceID fm =
     (case gm_get (fm_sessions fm) identityHex of None \<Rightarrow> None | Some identitySessions \<Rightarrow> gm_get identitySessions deviceID)"

definition put_device_session :: "string \<Rightarrow> string \<Rightarrow> DeviceSession \<Rightarrow> 'd FanoutManager \<Rightarrow> 'd FanoutManager" where
  "put_device_session identityHex deviceID session fm =
     (let m = (case gm_get (fm_sessions fm) identityHex of None \<Rightarrow> [] | Some m \<Rightarrow> m)
      in fm\<lparr>fm_sessions := gm_set identityHex (gm_set deviceID session m) (fm_sessions fm)\<rparr>)"

definition getOrCreateSession :: "time \<Rightarrow> bytes \<Rightarrow> DeviceCertificate \<Rightarrow> 'd FanoutManager \<Rightarrow> 'd FanoutManager \<times> DeviceSession" where
  "getOrCreateSession now recipientIdentityPub device fm =
     (let identityHex = hex_encode recipientIdentityPub; deviceID = hex_encode (dc_DeviceId device)
      in case find_session identityHex deviceID fm of
        Some session \<Rightarrow> (fm, session)
      | None \<Rightarrow> let session = new_device_session now device in (put_device_session identityHex deviceID session fm, session))"

definition deriveMessageKey :: "prims \<Rightarrow> DeviceSession \<Rightarrow> bytes" where
  "deriveMessageKey P session = take 32 (sha256 P (ds_SessionKey session @ ds_ChainKey session))"

definition getOrCreateSymmetricKey :: "reader \<Rightarrow> bytes \<Rightarrow> 'd FanoutManager \<Rightarrow> ('d FanoutManager, bytes) eff" where
  "getOrCreateSymmetricKey rnd recipientIdentityPub fm =
     (let identityHex = hex_encode recipientIdentityPub
      in case gm_get (fm_symmetricKeys fm) identityHex of
        Some key \<Rightarrow> (fm, Inr key)
      | None \<Rightarrow> (case rnd 32 0 of
          Inl e \<Rightarrow> (fm, Inl (Wrap ''failed to generate symmetric key'' e))
        | Inr key \<Rightarrow> (fm\<lparr>fm_symmetricKeys := gm_set identityHex key (fm_symmetricKeys fm)\<rparr>, Inr key)))"

definition encryptKeyForDevice :: "prims \<Rightarrow> reader \<Rightarrow> bytes \<Rightarrow> DeviceCertificate \<Rightarrow> EncryptedKey_rec res" where
  "encryptKeyForDevice P rnd symKey device =
     rbind (GenerateX25519KeyPair P (rnd 32 0)) (\<lambda>(ephemeralPub, ephemeralPriv).
     rbind (ComputeSharedSecret P ephemeralPriv (dc_DeviceDhPub device)) (\<lambda>sharedSecret.
     let encryptionKey = sha256 P sharedSecret in
     rbind (rnd 24 1) (\<lambda>nonce.
     rbind (Encrypt_X P symKey encryptionKey nonce) (\<lambda>encryptedKey.
     Inr \<lparr>ey_DeviceID = dc_DeviceId device, ey_EncryptedKey = encryptedKey, ey_EncryptedNonce = nonce, ey_EphemeralPub = ephemeralPub\<rparr>))))"

text \<open>The keys for the devices that succeed; the others are logged.\<close>

fun encrypt_keys :: "prims \<Rightarrow> (nat \<Rightarrow> reader) \<Rightarrow> bytes \<Rightarrow> nat \<Rightarrow> DeviceCertificate list \<Rightarrow> EncryptedKey_rec list" where
  "encrypt_keys P rnd symKey i [] = []"
| "encrypt_keys P rnd symKey i (device # devices) =
     (case encryptKeyForDevice P (rnd i) symKey device of Inl _ \<Rightarrow> [] | Inr k \<Rightarrow> [k]) @ encrypt_keys P rnd symKey (Suc i) devices"

section \<open>Envelopes\<close>

definition babylon_signing_data :: "BabylonEnvelope \<Rightarrow> bytes" where
  "babylon_signing_data envelope = [ucast (be_ProtocolVersion envelope), ucast (be_MessageType envelope)] @ be_SenderIdentity envelope @
     be_RecipientIdentity envelope @ be_bytes 8 (be_Timestamp envelope) @ be_MessageId envelope @ be_Payload envelope @ be_SenderDeviceId envelope @
     be_bytes 4 (be_CipherSuiteId envelope)"

definition signBabylonEnvelope :: "prims \<Rightarrow> DeviceManager \<Rightarrow> BabylonEnvelope \<Rightarrow> bytes res" where
  "signBabylonEnvelope P dm envelope = ed25519_Sign P (dm_deviceSignPriv dm) (babylon_signing_data envelope)"

definition multi_signing_data :: "MultiDeviceEnvelope \<Rightarrow> bytes" where
  "multi_signing_data envelope = [ucast (mv_ProtocolVersion envelope), ucast (mv_MessageType envelope)] @ mv_SenderIdentity envelope @
     mv_RecipientIdentity envelope @ be_bytes 8 (mv_Timestamp envelope) @ mv_MessageId envelope @ mv_Payload envelope @ mv_SenderDeviceId envelope"

definition signMultiEnvelope :: "prims \<Rightarrow> DeviceManager \<Rightarrow> MultiDeviceEnvelope \<Rightarrow> bytes res" where
  "signMultiEnvelope P dm envelope = ed25519_Sign P (dm_deviceSignPriv dm) (multi_signing_data envelope)"

text \<open>The fallback is the hash of the text of the current time.\<close>

definition generateMessageID :: "prims \<Rightarrow> string \<Rightarrow> bytes res \<Rightarrow> bytes" where
  "generateMessageID P nowText rnd = (case rnd of Inl _ \<Rightarrow> take 16 (sha256 P (str_bytes nowText)) | Inr b \<Rightarrow> b)"

definition persistSession :: "('d, 'n) fanout_env \<Rightarrow> string \<Rightarrow> string \<Rightarrow> DeviceSession \<Rightarrow> 'd FanoutManager \<Rightarrow> 'd FanoutManager" where
  "persistSession E identityHex deviceID session fm =
     (case fm_storage fm of
        None \<Rightarrow> fm
      | Some d \<Rightarrow> (case fe_json E session of
          Inl _ \<Rightarrow> fm
        | Inr data \<Rightarrow> fm\<lparr>fm_storage := Some (fst (fe_SetConfig E (''session:'' @ identityHex @ '':'' @ deviceID) data d))\<rparr>))"

section \<open>Sending\<close>

text \<open>Publishing signed bytes to the recipient's topic, the end of both ways of sending.\<close>

definition publish_envelope :: "prims \<Rightarrow> ('d, 'n) fanout_env \<Rightarrow> bytes \<Rightarrow> bytes res \<Rightarrow> 'n \<Rightarrow> ('n, unit) eff" where
  "publish_envelope P E recipientIdentityPub r n =
     (case r of
        Inl e \<Rightarrow> (n, Inl (Wrap ''failed to marshal envelope'' e))
      | Inr envelopeBytes \<Rightarrow> (case fe_Publish E (TopicFromPublicKey P recipientIdentityPub) envelopeBytes n of
          (n1, r1) \<Rightarrow> (n1, wrapped ''failed to publish'' r1)))"

definition sendToDevice :: "prims \<Rightarrow> ('d, 'n) fanout_env \<Rightarrow> time \<Rightarrow> string \<Rightarrow> reader \<Rightarrow> string \<Rightarrow> bytes \<Rightarrow> DeviceCertificate \<Rightarrow> 'd FanoutManager \<times> 'n \<Rightarrow>
    ('d FanoutManager \<times> 'n, DeviceSendResult) eff" where
  "sendToDevice P E now nowText rnd body recipientIdentityPub device st =
     (let deviceID = hex_encode (dc_DeviceId device); identityHex = hex_encode recipientIdentityPub;
          (fm, session) = getOrCreateSession now recipientIdentityPub device (fst st);
          n = snd st;
          messageKey = deriveMessageKey P session;
          payload = \<lparr>dp_DhRatchetPub = ds_DHRatchet session, dp_PreviousChainLength = 0, dp_MessageNumber = ds_MessageCounter session, dp_Text = body\<rparr>
      in case fe_payload E payload of
        Inl e \<Rightarrow> ((fm, n), Inl (Wrap ''failed to marshal payload'' e))
      | Inr payloadBytes \<Rightarrow> (case rnd 24 0 of
          Inl e \<Rightarrow> ((fm, n), Inl (Wrap ''failed to generate nonce'' e))
        | Inr nonce \<Rightarrow> (case Encrypt_X P payloadBytes messageKey nonce of
            Inl e \<Rightarrow> ((fm, n), Inl (Wrap ''failed to encrypt payload'' e))
          | Inr ciphertext \<Rightarrow>
              let envelope = \<lparr>be_ProtocolVersion = 1, be_MessageType = 1, be_SenderIdentity = dm_identitySignPub (fm_deviceManager fm),
                    be_RecipientIdentity = recipientIdentityPub, be_Timestamp = unix now, be_MessageId = generateMessageID P nowText (rnd 16 1),
                    be_GroupId = [], be_ChannelId = [], be_Payload = ciphertext, be_SenderDeviceId = dm_deviceID (fm_deviceManager fm), be_Signature = [],
                    be_CipherSuiteId = 1, be_X3DhHeader = []\<rparr>
              in case signBabylonEnvelope P (fm_deviceManager fm) envelope of
                Inl e \<Rightarrow> ((fm, n), Inl e)
              | Inr signature \<Rightarrow> (case publish_envelope P E recipientIdentityPub (fe_babylon E (envelope\<lparr>be_Signature := signature\<rparr>)) n of
                  (n1, Inl e) \<Rightarrow> ((fm, n1), Inl e)
                | (n1, Inr _) \<Rightarrow>
                    let session' = session\<lparr>ds_LastUsedAt := now, ds_MessageCounter := ds_MessageCounter session + 1\<rparr>;
                        fm1 = persistSession E identityHex deviceID session' (put_device_session identityHex deviceID session' fm)
                    in ((fm1, n1), Inr \<lparr>dr_DeviceID = dc_DeviceId device, dr_Success = True\<rparr>)))))"

fun fanout_loop :: "prims \<Rightarrow> ('d, 'n) fanout_env \<Rightarrow> time \<Rightarrow> string \<Rightarrow> (nat \<Rightarrow> reader) \<Rightarrow> string \<Rightarrow> bytes \<Rightarrow> nat \<Rightarrow> DeviceCertificate list \<Rightarrow>
    'd FanoutManager \<times> 'n \<Rightarrow> ('d FanoutManager \<times> 'n) \<times> DeviceSendResult list \<times> go_error option" where
  "fanout_loop P E now nowText rnd body pub i [] st = (st, [], None)"
| "fanout_loop P E now nowText rnd body pub i (device # devices) st =
     (case sendToDevice P E now nowText (rnd i) body pub device st of
        (st1, r) \<Rightarrow> (case fanout_loop P E now nowText rnd body pub (Suc i) devices st1 of
          (st2, results, firstError) \<Rightarrow> (case r of
             Inl e \<Rightarrow> (st2, results, Some e)
           | Inr result \<Rightarrow> (st2, result # results, firstError))))"

definition sendWithFanout :: "prims \<Rightarrow> ('d, 'n) fanout_env \<Rightarrow> time \<Rightarrow> string \<Rightarrow> (nat \<Rightarrow> reader) \<Rightarrow> string \<Rightarrow> bytes \<Rightarrow> DeviceCertificate list \<Rightarrow>
    'd FanoutManager \<times> 'n \<Rightarrow> ('d FanoutManager \<times> 'n, FanoutResult) eff" where
  "sendWithFanout P E now nowText rnd body pub devices st =
     (case fanout_loop P E now nowText rnd body pub 0 devices st of
        (st1, results, firstError) \<Rightarrow>
          if length results = 0 then (st1, Inl (case firstError of None \<Rightarrow> Err ''failed to send to all devices: %!w(<nil>)''
            | Some e \<Rightarrow> Wrap ''failed to send to all devices'' e))
          else (st1, Inr \<lparr>fr_SuccessCount = length results, fr_TotalDevices = length devices, fr_DeviceResults = results, fr_OptimizationUsed = ''fanout''\<rparr>))"

text \<open>The ephemeral key of each encrypted key is not copied into the envelope.\<close>

definition device_key :: "EncryptedKey_rec \<Rightarrow> EncryptedDeviceKey" where
  "device_key k = \<lparr>ek_DeviceId = ey_DeviceID k, ek_EncryptedKey = ey_EncryptedKey k, ek_EncryptedNonce = ey_EncryptedNonce k, ek_EphemeralPub = []\<rparr>"

definition sendWithSymmetricKey :: "prims \<Rightarrow> ('d, 'n) fanout_env \<Rightarrow> time \<Rightarrow> string \<Rightarrow> (nat \<Rightarrow> reader) \<Rightarrow> string \<Rightarrow> bytes \<Rightarrow> DeviceCertificate list \<Rightarrow>
    'd FanoutManager \<times> 'n \<Rightarrow> ('d FanoutManager \<times> 'n, FanoutResult) eff" where
  "sendWithSymmetricKey P E now nowText rnd body pub devices st =
     (case getOrCreateSymmetricKey (rnd 0) pub (fst st) of
        (fm, Inl e) \<Rightarrow> ((fm, snd st), Inl (Wrap ''failed to get symmetric key'' e))
      | (fm, Inr symKey) \<Rightarrow> (case fe_text E body of
          Inl e \<Rightarrow> ((fm, snd st), Inl (Wrap ''failed to marshal message'' e))
        | Inr plaintext \<Rightarrow> (case rnd 0 24 1 of
            Inl e \<Rightarrow> ((fm, snd st), Inl (Wrap ''failed to generate nonce'' e))
          | Inr nonce \<Rightarrow> (case Encrypt_X P plaintext symKey nonce of
              Inl e \<Rightarrow> ((fm, snd st), Inl (Wrap ''failed to encrypt message'' e))
            | Inr ciphertext \<Rightarrow>
                let keyResults = encrypt_keys P rnd symKey 1 devices;
                    envelope = \<lparr>mv_ProtocolVersion = 1, mv_MessageType = 1, mv_SenderIdentity = dm_identitySignPub (fm_deviceManager fm), mv_RecipientIdentity = pub,
                      mv_Timestamp = unix now, mv_MessageId = generateMessageID P nowText (rnd 0 16 2), mv_Payload = ciphertext, mv_Nonce = nonce,
                      mv_SenderDeviceId = dm_deviceID (fm_deviceManager fm), mv_Signature = [], mv_CipherSuiteId = 1, mv_EncryptedKeys = map device_key keyResults\<rparr>
                in case signMultiEnvelope P (fm_deviceManager fm) envelope of
                  Inl e \<Rightarrow> ((fm, snd st), Inl e)
                | Inr signature \<Rightarrow> (case publish_envelope P E pub (fe_multi E (envelope\<lparr>mv_Signature := signature\<rparr>)) (snd st) of
                    (n1, Inl e) \<Rightarrow> ((fm, n1), Inl e)
                  | (n1, Inr _) \<Rightarrow> ((fm, n1), Inr \<lparr>fr_SuccessCount = length keyResults, fr_TotalDevices = length devices,
                      fr_DeviceResults = [\<lparr>dr_DeviceID = pub, dr_Success = True\<rparr>], fr_OptimizationUsed = ''symmetric_key''\<rparr>))))))"

definition SendMessageToIdentity :: "prims \<Rightarrow> ('d, 'n) fanout_env \<Rightarrow> time \<Rightarrow> string \<Rightarrow> (nat \<Rightarrow> reader) \<Rightarrow> string \<Rightarrow> bytes \<Rightarrow> DeviceCertificate list \<Rightarrow>
    'd FanoutManager \<times> 'n \<Rightarrow> ('d FanoutManager \<times> 'n, FanoutResult) eff" where
  "SendMessageToIdentity P E now nowText rnd body recipientIdentityPub recipientDevices st =
     (if length recipientDevices = 0 then (st, Inl (Err ''no recipient devices''))
      else if length recipientDevices \<ge> 5 then sendWithSymmetricKey P E now nowText rnd body recipientIdentityPub recipientDevices st
      else sendWithFanout P E now nowText rnd body recipientIdentityPub recipientDevices st)"

definition CleanupRevokedDevices :: "bytes \<Rightarrow> IdentityDocument \<Rightarrow> 'd FanoutManager \<Rightarrow> 'd FanoutManager" where
  "CleanupRevokedDevices identityPub identityDoc fm =
     (let identityHex = hex_encode identityPub
      in case gm_get (fm_sessions fm) identityHex of
        None \<Rightarrow> fm
      | Some identitySessions \<Rightarrow>
          let activeDevices = map (\<lambda>device. hex_encode (dc_DeviceId device)) (GetActiveDevices identityDoc);
              kept = filter (\<lambda>(deviceID, session). hex_encode (ds_DeviceID session) \<in> set activeDevices) identitySessions
          in fm\<lparr>fm_sessions := gm_set identityHex kept (fm_sessions fm)\<rparr>)"

text \<open>The calls on a manager in any order, with random readers that return what was asked for.\<close>

definition reader_ok :: "(nat \<Rightarrow> reader) \<Rightarrow> bool" where
  "reader_ok rnd \<longleftrightarrow> (\<forall>i size j b. rnd i size j = Inr b \<longrightarrow> length b = size)"

inductive fan_step :: "prims \<Rightarrow> id_prims \<Rightarrow> ('d, 'n) fanout_env \<Rightarrow> 'd FanoutManager \<times> 'n \<Rightarrow> 'd FanoutManager \<times> 'n \<Rightarrow> bool" for P I E where
  fan_send: "reader_ok rnd \<Longrightarrow> SendMessageToIdentity P E now nowText rnd body pub devices st = (st', r) \<Longrightarrow> fan_step P I E st st'"
| fan_cleanup: "fan_step P I E (fm, n) (CleanupRevokedDevices pub doc fm, n)"
| fan_register: "RegisterNewDevice P I now r1 r2 (fm_deviceManager fm) = (dm', c) \<Longrightarrow> fan_step P I E (fm, n) (fm\<lparr>fm_deviceManager := dm'\<rparr>, n)"

section \<open>Lemmas\<close>

text \<open>Every call of \<open>Encrypt\<close> here passes a 32-byte key where the nonce belongs.\<close>

lemma encrypt_swapped: "length key = 32 \<Longrightarrow> \<exists>e. Encrypt_X P m key nonce = Inl e"
  by (simp add: Encrypt_X_def crypto_sizes)

definition keys_sized :: "'d FanoutManager \<Rightarrow> bool" where
  "keys_sized fm \<longleftrightarrow> (\<forall>k key. gm_get (fm_symmetricKeys fm) k = Some key \<longrightarrow> length key = 32)"

lemma getOrCreateSession_keys [simp]: "fm_symmetricKeys (fst (getOrCreateSession now pub device fm)) = fm_symmetricKeys fm"
  by (simp add: getOrCreateSession_def put_device_session_def Let_def split: option.split)

lemma sendToDevice_fails:
  assumes "key_sizes P"
  shows "\<exists>fm e. sendToDevice P E now nowText rnd body pub device st = ((fm, snd st), Inl e) \<and> fm_symmetricKeys fm = fm_symmetricKeys (fst st)"
proof -
  obtain fm session where s: "getOrCreateSession now pub device (fst st) = (fm, session)" by fastforce
  have k: "fm_symmetricKeys fm = fm_symmetricKeys (fst st)" using getOrCreateSession_keys[of now pub device "fst st"] s by simp
  have "length (deriveMessageKey P session) = 32" using assms by (simp add: deriveMessageKey_def key_sizes_simps)
  then have e: "\<exists>e. Encrypt_X P m (deriveMessageKey P session) nonce = Inl e" for m nonce by (rule encrypt_swapped)
  show ?thesis
  proof (cases "fe_payload E \<lparr>dp_DhRatchetPub = ds_DHRatchet session, dp_PreviousChainLength = 0, dp_MessageNumber = ds_MessageCounter session, dp_Text = body\<rparr>")
    case (Inr b)
    then show ?thesis
    proof (cases "rnd 24 0")
      case (Inr nonce)
      obtain e' where "Encrypt_X P b (deriveMessageKey P session) nonce = Inl e'" using e by blast
      then show ?thesis using Inr \<open>fe_payload E _ = Inr b\<close> s k by (simp add: sendToDevice_def)
    qed (use s k in \<open>simp add: sendToDevice_def\<close>)
  qed (use s k in \<open>simp add: sendToDevice_def\<close>)
qed

lemma fanout_loop_fails:
  assumes "key_sizes P"
  shows "\<exists>fm fe. fanout_loop P E now nowText rnd body pub i devices st = ((fm, snd st), [], fe) \<and> fm_symmetricKeys fm = fm_symmetricKeys (fst st)"
proof (induction devices arbitrary: i st)
  case Nil
  then show ?case by (cases st) simp
next
  case (Cons device devices)
  obtain fm e where 1: "sendToDevice P E now nowText (rnd i) body pub device st = ((fm, snd st), Inl e)" "fm_symmetricKeys fm = fm_symmetricKeys (fst st)"
    using sendToDevice_fails[OF assms] by blast
  obtain fm' fe where "fanout_loop P E now nowText rnd body pub (Suc i) devices (fm, snd st) = ((fm', snd st), [], fe)" "fm_symmetricKeys fm' = fm_symmetricKeys fm"
    using Cons.IH[of "Suc i" "(fm, snd st)"] by auto
  then show ?case using 1 by simp
qed

lemma symmetric_fails:
  assumes "reader_ok rnd" "keys_sized (fst st)"
  shows "\<exists>fm e. sendWithSymmetricKey P E now nowText rnd body pub devices st = ((fm, snd st), Inl e) \<and> keys_sized fm"
proof -
  obtain fm r where g: "getOrCreateSymmetricKey (rnd 0) pub (fst st) = (fm, r)" by fastforce
  have ok: "keys_sized fm \<and> (\<forall>key. r = Inr key \<longrightarrow> length key = 32)"
    using g assms by (fastforce simp: getOrCreateSymmetricKey_def keys_sized_def reader_ok_def Let_def split: option.splits sum.splits if_splits)
  show ?thesis
  proof (cases r)
    case (Inr key)
    then have e: "\<exists>e. Encrypt_X P m key nonce = Inl e" for m nonce using ok encrypt_swapped by blast
    show ?thesis
    proof (cases "fe_text E body")
      case (Inr b)
      then show ?thesis
      proof (cases "rnd 0 24 1")
        case (Inr nonce)
        obtain e' where "Encrypt_X P b key nonce = Inl e'" using e by blast
        then show ?thesis using Inr \<open>fe_text E body = Inr b\<close> \<open>r = Inr key\<close> g ok by (simp add: sendWithSymmetricKey_def)
      qed (use g \<open>r = Inr key\<close> ok in \<open>simp add: sendWithSymmetricKey_def\<close>)
    qed (use g \<open>r = Inr key\<close> ok in \<open>simp add: sendWithSymmetricKey_def\<close>)
  qed (use g ok in \<open>simp add: sendWithSymmetricKey_def\<close>)
qed

lemma send_fails:
  assumes "key_sizes P" "reader_ok rnd" "keys_sized (fst st)"
  shows "\<exists>fm e. SendMessageToIdentity P E now nowText rnd body pub devices st = ((fm, snd st), Inl e) \<and> keys_sized fm"
proof -
  obtain fm fe where "fanout_loop P E now nowText rnd body pub 0 devices st = ((fm, snd st), [], fe)" "fm_symmetricKeys fm = fm_symmetricKeys (fst st)"
    using fanout_loop_fails[OF assms(1)] by blast
  then have "\<exists>fm e. sendWithFanout P E now nowText rnd body pub devices st = ((fm, snd st), Inl e) \<and> keys_sized fm"
    using assms(3) by (simp add: sendWithFanout_def keys_sized_def)
  then show ?thesis using symmetric_fails[OF assms(2,3)] assms(3) by (cases st) (simp add: SendMessageToIdentity_def)
qed

interpretation silent_fanout: kept_invariant "fan_step P I E" "\<lambda>st. key_sizes P \<and> keys_sized (fst st) \<and> snd st = n" for P I E n
proof unfold_locales
  fix st st' assume inv: "key_sizes P \<and> keys_sized (fst st) \<and> snd st = n" and "fan_step P I E st st'"
  from this(2) show "key_sizes P \<and> keys_sized (fst st') \<and> snd st' = n"
  proof (cases rule: fan_step.cases)
    case (fan_send rnd now nowText body pub devices r)
    then show ?thesis using send_fails[of P rnd st E now nowText body pub devices] inv by auto
  next
    case (fan_cleanup fm m pub doc)
    have "fm_symmetricKeys (CleanupRevokedDevices pub doc fm) = fm_symmetricKeys fm"
      by (simp add: CleanupRevokedDevices_def Let_def split: option.split)
    then show ?thesis using fan_cleanup inv by (simp add: keys_sized_def)
  qed (use inv in \<open>auto simp: keys_sized_def\<close>)
qed

section \<open>Properties\<close>

text \<open>C37.The fan-out never sends a message: from a new manager, after any calls, sending to any identity and any devices fails, and nothing was
  ever published.\<close>

theorem fanout_never_sends:
  assumes "key_sizes P" "reader_ok rnd" "(fan_step P I E)\<^sup>*\<^sup>* (NewFanoutManager dm storage, n) (fm, n')"
  shows "n' = n \<and> (\<exists>fm' e. SendMessageToIdentity P E now nowText rnd body pub devices (fm, n') = ((fm', n), Inl e))"
proof -
  have "key_sizes P \<and> keys_sized (fst (fm, n')) \<and> snd (fm, n') = n"
    by (rule silent_fanout.reachable_inv[OF assms(3)]) (use assms(1) in \<open>simp add: keys_sized_def NewFanoutManager_def\<close>)
  then show ?thesis using send_fails[OF assms(1,2), of "(fm, n')" E now nowText body pub devices] by auto
qed

text \<open>The clean-up of sessions keeps exactly the sessions with active devices of that identity and leaves other identities alone.\<close>

theorem cleanup_keeps_active:
  assumes "\<forall>m. gm_get (fm_sessions fm) (hex_encode pub) = Some m \<longrightarrow> gm_ok m"
  shows "find_session (hex_encode pub) d (CleanupRevokedDevices pub doc fm) =
      (case find_session (hex_encode pub) d fm of None \<Rightarrow> None
       | Some s \<Rightarrow> if IsDeviceRevoked doc (ds_DeviceID s) then None else Some s)
    \<and> (pub' \<noteq> pub \<longrightarrow> find_session (hex_encode pub') d (CleanupRevokedDevices pub doc fm) = find_session (hex_encode pub') d fm)"
proof -
  have rev: "hex_encode x \<in> (\<lambda>dev. hex_encode (dc_DeviceId dev)) ` set (GetActiveDevices doc) \<longleftrightarrow> \<not> IsDeviceRevoked doc x" for x
    by (auto simp: IsDeviceRevoked_def GetActiveDevices_def list_ex_iff)
  have filt: "map_of (filter (\<lambda>(k, v). Q v) m) d = (case map_of m d of None \<Rightarrow> None | Some v \<Rightarrow> if Q v then Some v else None)"
    if "distinct (map fst m)" for Q and m :: "(string, DeviceSession) gomap"
    using that by (induction m) (auto simp: map_of_eq_None_iff split: option.split)
  show ?thesis
  proof (cases "gm_get (fm_sessions fm) (hex_encode pub)")
    case (Some m)
    then have "distinct (map fst m)" using assms by (simp add: gm_ok_def)
    from filt[OF this, of "\<lambda>s. \<not> IsDeviceRevoked doc (ds_DeviceID s)"] show ?thesis
      using Some by (simp add: CleanupRevokedDevices_def Let_def find_session_def rev gm_get_def[of _ d] split: option.split)
  qed (simp add: CleanupRevokedDevices_def find_session_def)
qed

section \<open>Witnesses\<close>

definition open_fanout :: "((string, string) gomap, (string \<times> bytes) list) fanout_env" where
  "open_fanout = \<lparr>fe_Publish = (\<lambda>t b n. (n @ [(t, b)], Inr ())), fe_SetConfig = (\<lambda>k v d. (gm_set k v d, Inr ())), fe_json = (\<lambda>_. Inr ''{}''),
     fe_text = (\<lambda>s. Inr (str_bytes s)), fe_payload = (\<lambda>p. Inr (str_bytes (dp_Text p))), fe_babylon = (\<lambda>b. Inr (be_Payload b)), fe_multi = (\<lambda>m. Inr (mv_Payload m))\<rparr>"

definition example_cert :: DeviceCertificate where
  "example_cert = \<lparr>dc_DeviceId = replicate 16 1, dc_DeviceSignPub = replicate 32 1, dc_DeviceDhPub = replicate 32 2, dc_DeviceName = ''tablet'',
     dc_CreatedAt = 0, dc_ExpiresAt = 0, dc_IdentityPub = replicate 32 3, dc_Signature = []\<rparr>"

theorem fanout_never_sends_witness:
  "\<exists>fm' e. SendMessageToIdentity toy open_fanout 0 '''' (\<lambda>_ size _. Inr (replicate size 5)) ''hello'' (replicate 32 3) [example_cert]
     (NewFanoutManager example_manager (Some []), []) = ((fm', []), Inl e)"
proof -
  have r: "reader_ok (\<lambda>_ size _. Inr (replicate size 5))" by (simp add: reader_ok_def)
  show ?thesis
    using fanout_never_sends[OF toy_key_sizes r rtranclp.rtrancl_refl, where E = open_fanout and now = 0 and nowText = "''''" and
      body = "''hello''" and pub = "replicate 32 3" and devices = "[example_cert]"]
    by blast
qed

theorem cleanup_keeps_active_witness:
  "find_session (hex_encode [3]) (hex_encode [1]) (CleanupRevokedDevices [3]
     \<lparr>do_IdentitySignPub = [], do_IdentityDhPub = [], do_Sequence = 1, do_PreviousHash = [], do_CreatedAt = 0, do_UpdatedAt = 0, do_Devices = [], do_SignedPrekeys = [],
      do_OneTimePrekeys = [], do_SupportedVersions = [], do_SupportedCipherSuites = [], do_PreferredVersion = 1, do_DisplayName = '''', do_AvatarCid = '''',
      do_Revocations = [], do_Features = None, do_Signature = []\<rparr>
     (put_device_session (hex_encode [3]) (hex_encode [1]) (new_device_session 0 example_cert) (NewFanoutManager example_manager (None :: unit option)))) = None"
  by (subst conjunct1[OF cleanup_keeps_active[where pub' = "[]"]])
    (auto simp: put_device_session_def NewFanoutManager_def find_session_def IsDeviceRevoked_def)

end
