(* ===== verification/Protocol.thy ===== *)
theory Protocol
  imports Fanout
begin

text \<open>
  \<open>pkg/protocol/envelope.go\<close>: the builder of Babylon envelopes, their signatures, and the topics of the protocol. The setters of the builder each
  replace one field. The properties say what a signature covers.
\<close>

section \<open>Envelopes\<close>

definition ProtocolVersion1 :: u32 where "ProtocolVersion1 = 1"
definition DefaultCipherSuite :: u32 where "DefaultCipherSuite = 1"

record X3DHHeader =
  xh_InitiatorIdentityDhPub :: bytes
  xh_EphemeralPub :: bytes
  xh_SignedPrekeyId :: u64
  xh_OneTimePrekeyId :: u64
  xh_CipherSuiteId :: u32

record EnvelopeBuilder =
  eb_messageType :: u32
  eb_senderIdentity :: bytes
  eb_senderDeviceID :: bytes
  eb_senderPrivKey :: bytes
  eb_recipientIdentity :: bytes
  eb_groupID :: bytes
  eb_channelID :: bytes
  eb_payload :: bytes
  eb_x3dhHeader :: "X3DHHeader option"
  eb_cipherSuiteID :: u32

definition NewEnvelopeBuilder :: "bytes \<Rightarrow> bytes \<Rightarrow> bytes \<Rightarrow> EnvelopeBuilder" where
  "NewEnvelopeBuilder senderIdentity senderDeviceID senderPrivKey = \<lparr>eb_messageType = 0, eb_senderIdentity = senderIdentity, eb_senderDeviceID = senderDeviceID,
     eb_senderPrivKey = senderPrivKey, eb_recipientIdentity = [], eb_groupID = [], eb_channelID = [], eb_payload = [], eb_x3dhHeader = None,
     eb_cipherSuiteID = DefaultCipherSuite\<rparr>"

definition set_MessageType :: "u32 \<Rightarrow> EnvelopeBuilder \<Rightarrow> EnvelopeBuilder" where "set_MessageType mt b = b\<lparr>eb_messageType := mt\<rparr>"
definition set_Recipient :: "bytes \<Rightarrow> EnvelopeBuilder \<Rightarrow> EnvelopeBuilder" where "set_Recipient r b = b\<lparr>eb_recipientIdentity := r\<rparr>"
definition set_Group :: "bytes \<Rightarrow> EnvelopeBuilder \<Rightarrow> EnvelopeBuilder" where "set_Group g b = b\<lparr>eb_groupID := g\<rparr>"
definition set_Channel :: "bytes \<Rightarrow> EnvelopeBuilder \<Rightarrow> EnvelopeBuilder" where "set_Channel c b = b\<lparr>eb_channelID := c\<rparr>"
definition set_Payload :: "bytes \<Rightarrow> EnvelopeBuilder \<Rightarrow> EnvelopeBuilder" where "set_Payload p b = b\<lparr>eb_payload := p\<rparr>"
definition set_X3DHHeader :: "X3DHHeader option \<Rightarrow> EnvelopeBuilder \<Rightarrow> EnvelopeBuilder" where "set_X3DHHeader h b = b\<lparr>eb_x3dhHeader := h\<rparr>"
definition set_CipherSuite :: "u32 \<Rightarrow> EnvelopeBuilder \<Rightarrow> EnvelopeBuilder" where "set_CipherSuite s b = b\<lparr>eb_cipherSuiteID := s\<rparr>"

text \<open>An empty field is left out, which is the same as appending it.\<close>

definition serializeForSigning :: "BabylonEnvelope \<Rightarrow> bytes" where
  "serializeForSigning env = le_bytes 4 (be_ProtocolVersion env) @ le_bytes 4 (be_MessageType env) @ be_SenderIdentity env @ be_RecipientIdentity env @
     le_bytes 8 (be_Timestamp env) @ be_MessageId env @ be_GroupId env @ be_ChannelId env @
     (if length (be_Payload env) > 0 then le_bytes 4 (of_nat (length (be_Payload env)) :: u32) @ be_Payload env else []) @ be_SenderDeviceId env"

definition Builder_signEnvelope :: "prims \<Rightarrow> EnvelopeBuilder \<Rightarrow> BabylonEnvelope \<Rightarrow> bytes res" where
  "Builder_signEnvelope P b env = ed25519_Sign P (eb_senderPrivKey b) (serializeForSigning env)"

definition Build :: "prims \<Rightarrow> X3DHHeader codec \<Rightarrow> time \<Rightarrow> bytes res \<Rightarrow> EnvelopeBuilder \<Rightarrow> BabylonEnvelope res" where
  "Build P K now rnd b =
     rbind (wrapped ''failed to generate message ID'' rnd) (\<lambda>messageID.
     rbind (case eb_x3dhHeader b of None \<Rightarrow> Inr [] | Some h \<Rightarrow> wrapped ''failed to marshal X3DH header'' (marshal K h)) (\<lambda>x3dhHeaderBytes.
     let envelope = \<lparr>be_ProtocolVersion = ProtocolVersion1, be_MessageType = eb_messageType b, be_SenderIdentity = eb_senderIdentity b,
           be_RecipientIdentity = eb_recipientIdentity b, be_Timestamp = unix now, be_MessageId = messageID, be_GroupId = eb_groupID b,
           be_ChannelId = eb_channelID b, be_Payload = eb_payload b, be_SenderDeviceId = eb_senderDeviceID b, be_Signature = [],
           be_CipherSuiteId = eb_cipherSuiteID b, be_X3DhHeader = x3dhHeaderBytes\<rparr>
     in rbind (Builder_signEnvelope P b envelope) (\<lambda>signature. Inr (envelope\<lparr>be_Signature := signature\<rparr>))))"

definition Protocol_VerifyEnvelope :: "prims \<Rightarrow> BabylonEnvelope \<Rightarrow> unit res" where
  "Protocol_VerifyEnvelope P env =
     (if length (be_SenderIdentity env) \<noteq> PublicKeySize then Inl (Err ''invalid sender identity length'')
      else if \<not> ed_verify P (be_SenderIdentity env) (serializeForSigning env) (be_Signature env) then Inl (Err ''invalid envelope signature'')
      else Inr ())"

section \<open>Topics and payloads\<close>

definition topic_hash :: "prims \<Rightarrow> bytes \<Rightarrow> string" where "topic_hash P b = hex_encode (take 8 (sha256 P b))"

definition DeriveDMTopic :: "prims \<Rightarrow> bytes \<Rightarrow> string" where "DeriveDMTopic P recipientIdentity = ''babylon-dm-'' @ topic_hash P recipientIdentity"
definition DeriveGroupTopic :: "prims \<Rightarrow> bytes \<Rightarrow> string" where "DeriveGroupTopic P groupID = ''babylon-grp-'' @ topic_hash P groupID"
definition DeriveChannelTopic :: "prims \<Rightarrow> bytes \<Rightarrow> string" where "DeriveChannelTopic P channelID = ''babylon-ch-'' @ topic_hash P channelID"
definition DeriveRevocationTopic :: "prims \<Rightarrow> bytes \<Rightarrow> string" where "DeriveRevocationTopic P identityPub = ''babylon-rev-'' @ topic_hash P identityPub"
definition DeriveSyncTopic :: "prims \<Rightarrow> bytes \<Rightarrow> string" where "DeriveSyncTopic P rootIdentityPub = ''babylon-sync-'' @ topic_hash P rootIdentityPub"

definition ParseDMPayload :: "'m codec \<Rightarrow> bytes \<Rightarrow> 'm res" where "ParseDMPayload K b = wrapped ''failed to unmarshal DM payload'' (unmarshal K b)"
definition ParseGroupPayload :: "'m codec \<Rightarrow> bytes \<Rightarrow> 'm res" where "ParseGroupPayload K b = wrapped ''failed to unmarshal group payload'' (unmarshal K b)"
definition ParseX3DHHeader :: "X3DHHeader codec \<Rightarrow> bytes \<Rightarrow> X3DHHeader res" where "ParseX3DHHeader K b = wrapped ''failed to unmarshal X3DH header'' (unmarshal K b)"

section \<open>What a signature covers\<close>

lemma payload_part:
  fixes p q :: bytes
  assumes "(if length p > 0 then le_bytes 4 (of_nat (length p) :: u32) @ p else []) @ d = (if length q > 0 then le_bytes 4 (of_nat (length q) :: u32) @ q else []) @ e"
    and "length d = length e" "length p < 2 ^ 32" "length q < 2 ^ 32"
  shows "p = q \<and> d = e"
proof -
  have len: "length p = length q"
    using arg_cong[OF assms(1), of length] assms(2) by (auto split: if_splits)
  then show ?thesis using assms(1) by (cases "length p > 0") auto
qed

definition same_shape :: "BabylonEnvelope \<Rightarrow> BabylonEnvelope \<Rightarrow> bool" where
  "same_shape a b \<longleftrightarrow> length (be_SenderIdentity a) = length (be_SenderIdentity b) \<and> length (be_RecipientIdentity a) = length (be_RecipientIdentity b) \<and>
     length (be_MessageId a) = length (be_MessageId b) \<and> length (be_GroupId a) = length (be_GroupId b) \<and> length (be_ChannelId a) = length (be_ChannelId b) \<and>
     length (be_SenderDeviceId a) = length (be_SenderDeviceId b) \<and> length (be_Payload a) < 2 ^ 32 \<and> length (be_Payload b) < 2 ^ 32"

lemma le32_inj: "le_bytes 4 (a :: u32) = le_bytes 4 b \<longleftrightarrow> a = b"
  by (metis le_uint_roundtrip32)

lemma le64_inj: "le_bytes 8 (a :: u64) = le_bytes 8 b \<longleftrightarrow> a = b"
  by (metis le_uint_roundtrip64)

definition covered :: "BabylonEnvelope \<Rightarrow> BabylonEnvelope" where
  "covered env = env\<lparr>be_Signature := [], be_CipherSuiteId := 0, be_X3DhHeader := []\<rparr>"

lemma signing_data_inj:
  assumes "same_shape a b" "serializeForSigning a = serializeForSigning b"
  shows "covered a = covered b"
proof -
  have "be_ProtocolVersion a = be_ProtocolVersion b \<and> be_MessageType a = be_MessageType b \<and> be_SenderIdentity a = be_SenderIdentity b \<and>
      be_RecipientIdentity a = be_RecipientIdentity b \<and> be_Timestamp a = be_Timestamp b \<and> be_MessageId a = be_MessageId b \<and> be_GroupId a = be_GroupId b \<and>
      be_ChannelId a = be_ChannelId b \<and> be_Payload a = be_Payload b \<and> be_SenderDeviceId a = be_SenderDeviceId b"
    using assms payload_part[of "be_Payload a" "be_SenderDeviceId a" "be_Payload b" "be_SenderDeviceId b"]
    unfolding serializeForSigning_def same_shape_def by (simp only: append_eq_append_conv length_le_bytes le32_inj le64_inj simp_thms)
  then show ?thesis by (simp add: covered_def)
qed

section \<open>Properties\<close>

text \<open>C21.What the signature of an envelope covers. An envelope that was built verifies. Among envelopes whose identifiers have the same lengths, the signed
  bytes determine every field but the cipher suite and the X3DH header, which can be replaced without affecting the signature; and since
  the identifiers are written without lengths, a group identifier can be moved to the front of the channel identifier.\<close>

theorem envelope_signature_coverage:
  assumes "sig_correct P" "length (eb_senderPrivKey b) = 64" "eb_senderIdentity b = ed_public P (eb_senderPrivKey b)"
  shows "(\<forall>K now rnd env. Build P K now rnd b = Inr env \<longrightarrow> Protocol_VerifyEnvelope P env = Inr ())
    \<and> (\<forall>x y. same_shape x y \<longrightarrow> (serializeForSigning x = serializeForSigning y \<longleftrightarrow> covered x = covered y))
    \<and> (\<forall>env s h. Protocol_VerifyEnvelope P (env\<lparr>be_CipherSuiteId := s, be_X3DhHeader := h\<rparr>) = Protocol_VerifyEnvelope P env)
    \<and> (\<forall>env. Protocol_VerifyEnvelope P (env\<lparr>be_GroupId := [], be_ChannelId := be_GroupId env @ be_ChannelId env\<rparr>) = Protocol_VerifyEnvelope P env)"
proof -
  have 1: "Protocol_VerifyEnvelope P env = Inr ()" if "Build P K now rnd b = Inr env" for K now rnd env
    using that sig_correctD[OF assms(1,2)] assms(2,3)
    by (auto simp: Build_def Let_def rbind_Inr_iff Builder_signEnvelope_def ed25519_Sign_def Protocol_VerifyEnvelope_def serializeForSigning_def crypto_sizes)
  have 2: "serializeForSigning x = serializeForSigning y \<longleftrightarrow> covered x = covered y" if "same_shape x y" for x y
  proof
    assume "covered x = covered y"
    moreover have "serializeForSigning (covered z) = serializeForSigning z" for z by (simp add: covered_def serializeForSigning_def)
    ultimately show "serializeForSigning x = serializeForSigning y" by metis
  qed (rule signing_data_inj[OF that])
  show ?thesis using 1 2 by (simp add: Protocol_VerifyEnvelope_def serializeForSigning_def)
qed

lemma topic_parts: "length (sha256 P b) = 32 \<Longrightarrow> length (topic_hash P b) = 16"
  by (simp add: topic_hash_def length_hex_encode)

text \<open>The packages agree on the topics for revocation and synchronisation; topics of different kinds never coincide; and the topic that the
  messaging service listens to is never the topic that this package derives for direct messages.\<close>

theorem topics_of_the_protocol:
  assumes "key_sizes P"
  shows "DeriveRevocationTopic P a = getRevocationTopic P a \<and> DeriveSyncTopic P a = GetSyncTopic P a
    \<and> distinct [DeriveDMTopic P a, DeriveGroupTopic P b, DeriveChannelTopic P c, DeriveRevocationTopic P d, DeriveSyncTopic P e, TopicFromPublicKey P f]"
proof -
  have "length (topic_hash P x) = 16" for x by (rule topic_parts) (simp add: key_sizes_simps[OF assms])
  then have "DeriveDMTopic P a \<noteq> TopicFromPublicKey P f" "DeriveGroupTopic P b \<noteq> TopicFromPublicKey P f" "DeriveChannelTopic P c \<noteq> TopicFromPublicKey P f"
    "DeriveRevocationTopic P d \<noteq> TopicFromPublicKey P f" "DeriveSyncTopic P e \<noteq> TopicFromPublicKey P f"
    unfolding DeriveDMTopic_def DeriveGroupTopic_def DeriveChannelTopic_def DeriveRevocationTopic_def DeriveSyncTopic_def TopicFromPublicKey_def topic_hash_def[symmetric]
    by (auto dest!: arg_cong[where f = length])
  then show ?thesis
    by (auto simp: DeriveDMTopic_def DeriveGroupTopic_def DeriveChannelTopic_def DeriveRevocationTopic_def DeriveSyncTopic_def getRevocationTopic_def GetSyncTopic_def topic_hash_def)
qed

theorem envelope_signature_coverage_witness:
  "Protocol_VerifyEnvelope toy (\<lparr>be_ProtocolVersion = 1, be_MessageType = 1, be_SenderIdentity = replicate 32 1, be_RecipientIdentity = replicate 32 2, be_Timestamp = 0,
     be_MessageId = replicate 16 3, be_GroupId = [7], be_ChannelId = [8], be_Payload = [9], be_SenderDeviceId = replicate 16 4, be_Signature = [],
     be_CipherSuiteId = 1, be_X3DhHeader = []\<rparr>\<lparr>be_GroupId := [], be_ChannelId := [7, 8]\<rparr>) =
   Protocol_VerifyEnvelope toy \<lparr>be_ProtocolVersion = 1, be_MessageType = 1, be_SenderIdentity = replicate 32 1, be_RecipientIdentity = replicate 32 2, be_Timestamp = 0,
     be_MessageId = replicate 16 3, be_GroupId = [7], be_ChannelId = [8], be_Payload = [9], be_SenderDeviceId = replicate 16 4, be_Signature = [],
     be_CipherSuiteId = 1, be_X3DhHeader = []\<rparr>"
proof -
  let ?b = "NewEnvelopeBuilder (replicate 32 1) (replicate 16 4) (replicate 64 1)"
  let ?e = "\<lparr>be_ProtocolVersion = 1, be_MessageType = 1, be_SenderIdentity = replicate 32 1, be_RecipientIdentity = replicate 32 2, be_Timestamp = 0,
     be_MessageId = replicate 16 3, be_GroupId = [7], be_ChannelId = [8], be_Payload = [9], be_SenderDeviceId = replicate 16 4, be_Signature = [],
     be_CipherSuiteId = 1, be_X3DhHeader = []\<rparr>"
  have "length (eb_senderPrivKey ?b) = 64" "eb_senderIdentity ?b = ed_public toy (eb_senderPrivKey ?b)" by (simp_all add: NewEnvelopeBuilder_def)
  from envelope_signature_coverage[OF toy_sig this, THEN conjunct2, THEN conjunct2, THEN conjunct2, rule_format, of ?e] show ?thesis by simp
qed

theorem topics_of_the_protocol_witness: "DeriveSyncTopic toy [1] = GetSyncTopic toy [1]"
  using topics_of_the_protocol[OF toy_key_sizes, of "[1]"] by blast

end
