(* ===== verification/IdentityStorage.thy ===== *)
theory IdentityStorage
  imports Identity BadgerStorage
begin

text \<open>
  \<open>pkg/storage/identity_v1.go\<close>: identity documents, device certificates, prekeys, ratchet sessions and cached prekey bundles in the Badger
  store. Records stored as JSON have a codec of their own in \<open>json_codecs\<close>, with the round trip of \<open>encoding/json\<close> as its law.
  The locale \<open>table\<close> is what the six kinds of record share; the theory shows that together with all other users of the
  database they behave as independent maps.
\<close>

section \<open>Records\<close>

record IdentityDocumentRecord =
  dr_Document :: IdentityDocument
  dr_FetchedAt :: time
  dr_Source :: string
  dr_DocumentHash :: bytes

record SkippedKeyRecord =
  sk_DHRatchetPub :: bytes
  sk_Counter :: u32
  sk_Key :: bytes

record SessionRecord =
  st_SessionID :: string
  st_RemoteIdentityPub :: bytes
  st_LocalIdentityPub :: bytes
  st_DHSendingKeyPriv :: bytes
  st_DHSendingKeyPub :: bytes
  st_DHReceivingPub :: bytes
  st_RootKey :: bytes
  st_SendingChainKey :: bytes
  st_SendingChainCounter :: u32
  st_ReceivingChainKey :: bytes
  st_ReceivingChainCounter :: u32
  st_SkippedKeys :: "SkippedKeyRecord list"
  st_CreatedAt :: time
  st_LastUsedAt :: time
  st_CipherSuiteID :: u32

record PrekeyBundleCache =
  bc_IdentityPub :: bytes
  bc_SignedPrekeys :: "SignedPrekey list"
  bc_OneTimePrekeys :: "OneTimePrekey list"
  bc_FetchedAt :: time
  bc_ConsumedOPKs :: "(u64, bool) gomap"

record json_codecs =
  j_document :: "IdentityDocumentRecord codec"
  j_session :: "SessionRecord codec"
  j_bundle :: "PrekeyBundleCache codec"

definition json_ok :: "json_codecs \<Rightarrow> bool" where
  "json_ok J \<longleftrightarrow> codec_ok (j_document J) \<and> codec_ok (j_session J) \<and> codec_ok (j_bundle J)"

section \<open>Keys\<close>

definition identityKey :: "bytes \<Rightarrow> bytes" where "identityKey identityPubHash = str_bytes ''id:'' @ identityPubHash"
definition deviceKey :: "bytes \<Rightarrow> bytes" where "deviceKey deviceID = str_bytes ''dev:'' @ deviceID"
definition spkKey :: "u64 \<Rightarrow> bytes" where "spkKey prekeyID = str_bytes ''spk:'' @ le_bytes 8 prekeyID"
definition opkKey :: "u64 \<Rightarrow> bytes" where "opkKey prekeyID = str_bytes ''opk:'' @ le_bytes 8 prekeyID"
definition sessionKey :: "string \<Rightarrow> bytes" where "sessionKey sessionID = str_bytes ''dr:'' @ str_bytes sessionID"
definition prekeyBundleKey :: "bytes \<Rightarrow> bytes" where "prekeyBundleKey identityPubHash = str_bytes ''pb:'' @ identityPubHash"

definition hash16 :: "prims \<Rightarrow> bytes \<Rightarrow> bytes" where "hash16 P identityPub = take 16 (sha256 P identityPub)"

section \<open>Operations\<close>

definition SaveIdentityDocument :: "prims \<Rightarrow> 'd badger \<Rightarrow> json_codecs \<Rightarrow> bytes \<Rightarrow> IdentityDocumentRecord \<Rightarrow> 'd \<Rightarrow> ('d, unit) eff" where
  "SaveIdentityDocument P B J identityPub r d = store_msg B (j_document J) ''failed to marshal identity document record'' ''failed to store identity document''
     (identityKey (hash16 P identityPub)) r d"

definition GetIdentityDocument :: "prims \<Rightarrow> 'd badger \<Rightarrow> json_codecs \<Rightarrow> bytes \<Rightarrow> 'd \<Rightarrow> IdentityDocumentRecord option res" where
  "GetIdentityDocument P B J identityPub d =
     load_msg B (j_document J) ''failed to retrieve identity document'' (Inr None) Some (identityKey (hash16 P identityPub)) d"

definition SaveDeviceCertificate :: "'d badger \<Rightarrow> id_codecs \<Rightarrow> bytes \<Rightarrow> DeviceCertificate \<Rightarrow> 'd \<Rightarrow> ('d, unit) eff" where
  "SaveDeviceCertificate B C deviceID cert d =
     store_msg B (ic_device C) ''failed to marshal device certificate'' ''failed to store device certificate'' (deviceKey deviceID) cert d"

definition GetDeviceCertificate :: "'d badger \<Rightarrow> id_codecs \<Rightarrow> bytes \<Rightarrow> 'd \<Rightarrow> DeviceCertificate option res" where
  "GetDeviceCertificate B C deviceID d = load_msg B (ic_device C) ''failed to retrieve device certificate'' (Inr None) Some (deviceKey deviceID) d"

definition SaveSignedPrekey :: "'d badger \<Rightarrow> id_codecs \<Rightarrow> SignedPrekey \<Rightarrow> 'd \<Rightarrow> ('d, unit) eff" where
  "SaveSignedPrekey B C spk d = store_msg B (ic_spk C) ''failed to marshal signed prekey'' ''failed to store signed prekey'' (spkKey (sp_PrekeyId spk)) spk d"

definition GetSignedPrekey :: "'d badger \<Rightarrow> id_codecs \<Rightarrow> u64 \<Rightarrow> 'd \<Rightarrow> SignedPrekey option res" where
  "GetSignedPrekey B C prekeyID d = load_msg B (ic_spk C) ''failed to retrieve signed prekey'' (Inr None) Some (spkKey prekeyID) d"

definition SaveOneTimePrekey :: "'d badger \<Rightarrow> id_codecs \<Rightarrow> OneTimePrekey \<Rightarrow> 'd \<Rightarrow> ('d, unit) eff" where
  "SaveOneTimePrekey B C opk d = store_msg B (ic_opk C) ''failed to marshal one-time prekey'' ''failed to store one-time prekey'' (opkKey (op_PrekeyId opk)) opk d"

definition GetOneTimePrekey :: "'d badger \<Rightarrow> id_codecs \<Rightarrow> u64 \<Rightarrow> 'd \<Rightarrow> OneTimePrekey option res" where
  "GetOneTimePrekey B C prekeyID d = load_msg B (ic_opk C) ''failed to retrieve one-time prekey'' (Inr None) Some (opkKey prekeyID) d"

definition DeleteOneTimePrekey :: "'d badger \<Rightarrow> u64 \<Rightarrow> 'd \<Rightarrow> ('d, unit) eff" where
  "DeleteOneTimePrekey B prekeyID d = db_update B ''failed to delete one-time prekey'' [WDel (opkKey prekeyID)] d"

definition ListOneTimePrekeys :: "'d badger \<Rightarrow> id_codecs \<Rightarrow> 'd \<Rightarrow> OneTimePrekey list res" where
  "ListOneTimePrekeys B C d = list_msgs B (ic_opk C) ''failed to list one-time prekeys'' (str_bytes ''opk:'') d"

definition CountOneTimePrekeys :: "'d badger \<Rightarrow> 'd \<Rightarrow> nat res" where
  "CountOneTimePrekeys B d = (case db_scan B d (str_bytes ''opk:'') of
     Inl e \<Rightarrow> Inl (Wrap ''failed to count one-time prekeys'' e) | Inr kvs \<Rightarrow> Inr (length kvs))"

definition SaveSessionState :: "'d badger \<Rightarrow> json_codecs \<Rightarrow> SessionRecord \<Rightarrow> 'd \<Rightarrow> ('d, unit) eff" where
  "SaveSessionState B J s d = store_msg B (j_session J) ''failed to marshal session state'' ''failed to store session state'' (sessionKey (st_SessionID s)) s d"

definition Badger_GetSessionState :: "'d badger \<Rightarrow> json_codecs \<Rightarrow> string \<Rightarrow> 'd \<Rightarrow> SessionRecord option res" where
  "Badger_GetSessionState B J sessionID d = load_msg B (j_session J) ''failed to retrieve session state'' (Inr None) Some (sessionKey sessionID) d"

definition SavePrekeyBundleCache :: "prims \<Rightarrow> 'd badger \<Rightarrow> json_codecs \<Rightarrow> bytes \<Rightarrow> PrekeyBundleCache \<Rightarrow> 'd \<Rightarrow> ('d, unit) eff" where
  "SavePrekeyBundleCache P B J identityPub cache d = store_msg B (j_bundle J) ''failed to marshal prekey bundle cache'' ''failed to store prekey bundle cache''
     (prekeyBundleKey (hash16 P identityPub)) cache d"

definition GetPrekeyBundleCache :: "prims \<Rightarrow> 'd badger \<Rightarrow> json_codecs \<Rightarrow> bytes \<Rightarrow> 'd \<Rightarrow> PrekeyBundleCache option res" where
  "GetPrekeyBundleCache P B J identityPub d =
     load_msg B (j_bundle J) ''failed to retrieve prekey bundle cache'' (Inr None) Some (prekeyBundleKey (hash16 P identityPub)) d"

text \<open>All writers of the database: these operations and those of the rest of the store.\<close>

datatype id_op = ISaveDocument bytes IdentityDocumentRecord | ISaveDevice bytes DeviceCertificate | ISaveSigned SignedPrekey | ISaveOneTime OneTimePrekey
  | IDeleteOneTime u64 | ISaveSession SessionRecord | ISaveBundle bytes PrekeyBundleCache | IOther u64 mem_op

fun id_exec :: "prims \<Rightarrow> 'd badger \<Rightarrow> codecs \<Rightarrow> id_codecs \<Rightarrow> json_codecs \<Rightarrow> id_op \<Rightarrow> 'd \<Rightarrow> 'd" where
  "id_exec P B C CI J (ISaveDocument pub r) d = fst (SaveIdentityDocument P B J pub r d)"
| "id_exec P B C CI J (ISaveDevice i cert) d = fst (SaveDeviceCertificate B CI i cert d)"
| "id_exec P B C CI J (ISaveSigned spk) d = fst (SaveSignedPrekey B CI spk d)"
| "id_exec P B C CI J (ISaveOneTime opk) d = fst (SaveOneTimePrekey B CI opk d)"
| "id_exec P B C CI J (IDeleteOneTime i) d = fst (DeleteOneTimePrekey B i d)"
| "id_exec P B C CI J (ISaveSession s) d = fst (SaveSessionState B J s d)"
| "id_exec P B C CI J (ISaveBundle pub c) d = fst (SavePrekeyBundleCache P B J pub c d)"
| "id_exec P B C CI J (IOther now op) d = fst (Badger_exec B C now op d)"

section \<open>Specification\<close>

record id_maps =
  im_documents :: "bytes \<Rightarrow> IdentityDocumentRecord option"
  im_devices :: "bytes \<Rightarrow> DeviceCertificate option"
  im_signed :: "u64 \<Rightarrow> SignedPrekey option"
  im_one_time :: "u64 \<Rightarrow> OneTimePrekey option"
  im_sessions :: "string \<Rightarrow> SessionRecord option"
  im_bundles :: "bytes \<Rightarrow> PrekeyBundleCache option"

definition no_records :: id_maps where
  "no_records = \<lparr>im_documents = Map.empty, im_devices = Map.empty, im_signed = Map.empty, im_one_time = Map.empty, im_sessions = Map.empty, im_bundles = Map.empty\<rparr>"

fun id_spec :: "prims \<Rightarrow> id_op \<Rightarrow> id_maps \<Rightarrow> id_maps" where
  "id_spec P (ISaveDocument pub r) m = m\<lparr>im_documents := (im_documents m)(hash16 P pub \<mapsto> r)\<rparr>"
| "id_spec P (ISaveDevice i cert) m = m\<lparr>im_devices := (im_devices m)(i \<mapsto> cert)\<rparr>"
| "id_spec P (ISaveSigned spk) m = m\<lparr>im_signed := (im_signed m)(sp_PrekeyId spk \<mapsto> spk)\<rparr>"
| "id_spec P (ISaveOneTime opk) m = m\<lparr>im_one_time := (im_one_time m)(op_PrekeyId opk \<mapsto> opk)\<rparr>"
| "id_spec P (IDeleteOneTime i) m = m\<lparr>im_one_time := (im_one_time m)(i := None)\<rparr>"
| "id_spec P (ISaveSession s) m = m\<lparr>im_sessions := (im_sessions m)(st_SessionID s \<mapsto> s)\<rparr>"
| "id_spec P (ISaveBundle pub c) m = m\<lparr>im_bundles := (im_bundles m)(hash16 P pub \<mapsto> c)\<rparr>"
| "id_spec P (IOther now op) m = m"

section \<open>Tables\<close>

text \<open>A table represents a map when the bytes under each key decode to the value of the map.\<close>

definition tab_rep :: "'m codec \<Rightarrow> ('k \<Rightarrow> bytes) \<Rightarrow> (bytes \<Rightarrow> bytes option) \<Rightarrow> ('k \<Rightarrow> 'm option) \<Rightarrow> bool" where
  "tab_rep K key v m \<longleftrightarrow> (\<forall>k. rel_option (\<lambda>b x. unmarshal K b = Inr x) (v (key k)) (m k))"

locale table =
  fixes key :: "'k \<Rightarrow> bytes" and tag :: string
  assumes inj: "key a = key b \<longleftrightarrow> a = b" and tagged: "take 2 (key a) = str_bytes tag"
begin

lemma stored:
  assumes "kv_ok B view" "codec_ok K" "tab_rep K key (view d) m"
  shows "tab_rep K key (view (fst (store_msg B K e1 e2 (key k) x d))) (m(k \<mapsto> x))"
proof -
  obtain b where b: "unmarshal K b = Inr x" "view (fst (store_msg B K e1 e2 (key k) x d)) = (view d)(key k \<mapsto> b)"
    by (rule store_msg_view[OF assms(1,2)])
  then show ?thesis using assms(3) by (auto simp: tab_rep_def inj)
qed

lemma deleted: "tab_rep K key v m \<Longrightarrow> tab_rep K key (v(key k := None)) (m(k := None))"
  by (auto simp: tab_rep_def inj)

lemma untouched: "tab_rep K key v m \<Longrightarrow> (\<And>k. take 2 k = str_bytes tag \<Longrightarrow> v' k = v k) \<Longrightarrow> tab_rep K key v' m"
  by (simp add: tab_rep_def tagged)

lemma loaded:
  assumes "kv_ok B view" "tab_rep K key (view d) m"
  shows "load_msg B K e (Inr None) Some (key k) d = Inr (m k)"
proof -
  have "rel_option (\<lambda>b x. unmarshal K b = Inr x) (view d (key k)) (m k)" using assms(2) by (simp add: tab_rep_def)
  then show ?thesis by (cases "view d (key k)"; cases "m k") (simp_all add: load_msg_def kv_get[OF assms(1)])
qed

end

lemmas id_key_defs = identityKey_def deviceKey_def spkKey_def opkKey_def sessionKey_def prekeyBundleKey_def

interpretation documents: table identityKey "''id''" by unfold_locales (simp_all add: id_key_defs)
interpretation devices: table deviceKey "''de''" by unfold_locales (simp_all add: id_key_defs)
interpretation signed: table spkKey "''sp''" by unfold_locales (auto simp: id_key_defs dest: arg_cong[where f = "le_uint :: bytes \<Rightarrow> u64"])
interpretation one_time: table opkKey "''op''" by unfold_locales (auto simp: id_key_defs dest: arg_cong[where f = "le_uint :: bytes \<Rightarrow> u64"])
interpretation sessions: table sessionKey "''dr''" by unfold_locales (simp_all add: id_key_defs)
interpretation bundles: table prekeyBundleKey "''pb''" by unfold_locales (simp_all add: id_key_defs)

section \<open>Frames\<close>

text \<open>The first two bytes of a key tell the tables apart from each other and from the rest of the store.\<close>

definition id_tags :: "string list" where "id_tags = [''id'', ''de'', ''sp'', ''op'', ''dr'', ''pb'']"

lemma store_msg_frame:
  assumes "kv_ok B view" "k \<noteq> key"
  shows "view (fst (store_msg B K e1 e2 key m d)) k = view d k"
  using assms(2) by (simp add: store_msg_def kv_update[OF assms(1)] split: sum.split)

lemma db_update_frame:
  assumes "kv_ok B view" "\<forall>w\<in>set ws. write_key w \<noteq> k"
  shows "view (fst (db_update B e ws d)) k = view d k"
proof -
  have "apply_writes ws v k = v k" if "\<forall>w\<in>set ws. write_key w \<noteq> k" for v
    using that
  proof (induction ws arbitrary: v)
    case (Cons w ws)
    then show ?case by (cases w) auto
  qed simp
  then show ?thesis using assms by (simp add: kv_update)
qed

lemma log8_state [simp]: "fst (log8 i r) = fst r"
  by (simp add: log8_def split: prod.split sum.split)

lemma take2_prefix: "2 \<le> length p \<Longrightarrow> prefix p k \<Longrightarrow> take 2 k = take 2 p"
  by (auto elim!: prefixE)

lemma exec_frame:
  assumes "kv_ok B view" "take 2 k \<in> str_bytes ` set id_tags"
  shows "view (fst (Badger_exec B C now op d)) k = view d k"
proof -
  have keys: "k \<noteq> contactKey a" "k \<noteq> peerKey s" "k \<noteq> configKey s" "k \<noteq> blacklistKey s" "k \<noteq> groupKey a" "k \<noteq> senderKeyKey a b" "k \<noteq> channelKey a"
    "k \<noteq> channelPostKey a b" "k \<noteq> messageKey a t b" for a b s t
    using assms(2) by (auto simp: id_tags_def contactKey_def peerKey_def configKey_def blacklistKey_def groupKey_def senderKeyKey_def channelKey_def
        channelPostKey_def messageKey_def)
  have pre: "\<not> prefix (messages_prefix a) k" "\<not> prefix (senderKeys_prefix a) k" for a
    using assms(2) take2_prefix[of "messages_prefix a" k] take2_prefix[of "senderKeys_prefix a" k]
    by (auto simp: id_tags_def messages_prefix_def senderKeys_prefix_def)
  note frames = store_msg_frame[OF assms(1)] db_update_frame[OF assms(1)] delete_prefix_view(1)[OF assms(1)]
  show ?thesis
    by (cases op) (simp_all add: badger_writes frames keys pre Badger_AddMessage_def Badger_DeleteMessages_def Badger_SetConfig_def
        Badger_DeleteAllSenderKeys_def Badger_SaveChannelPost_def Let_def keys[symmetric] split: sum.split)
qed

definition id_rep :: "id_codecs \<Rightarrow> json_codecs \<Rightarrow> (bytes \<Rightarrow> bytes option) \<Rightarrow> id_maps \<Rightarrow> bool" where
  "id_rep CI J v m \<longleftrightarrow> tab_rep (j_document J) identityKey v (im_documents m) \<and> tab_rep (ic_device CI) deviceKey v (im_devices m) \<and>
     tab_rep (ic_spk CI) spkKey v (im_signed m) \<and> tab_rep (ic_opk CI) opkKey v (im_one_time m) \<and>
     tab_rep (j_session J) sessionKey v (im_sessions m) \<and> tab_rep (j_bundle J) prekeyBundleKey v (im_bundles m)"

lemmas id_tagged = documents.tagged devices.tagged signed.tagged one_time.tagged sessions.tagged bundles.tagged
lemmas id_untouched = documents.untouched devices.untouched signed.untouched one_time.untouched sessions.untouched bundles.untouched

section \<open>Refinement\<close>

lemma other_tables:
  assumes "id_rep CI J v m" "\<And>k. take 2 k \<noteq> str_bytes t \<Longrightarrow> v' k = v k"
  shows "t \<noteq> ''id'' \<Longrightarrow> tab_rep (j_document J) identityKey v' (im_documents m)" "t \<noteq> ''de'' \<Longrightarrow> tab_rep (ic_device CI) deviceKey v' (im_devices m)"
    "t \<noteq> ''sp'' \<Longrightarrow> tab_rep (ic_spk CI) spkKey v' (im_signed m)" "t \<noteq> ''op'' \<Longrightarrow> tab_rep (ic_opk CI) opkKey v' (im_one_time m)"
    "t \<noteq> ''dr'' \<Longrightarrow> tab_rep (j_session J) sessionKey v' (im_sessions m)" "t \<noteq> ''pb'' \<Longrightarrow> tab_rep (j_bundle J) prekeyBundleKey v' (im_bundles m)"
proof -
  have u: "v' k = v k" if "take 2 k = str_bytes s" "t \<noteq> s" for k s
    using that by (intro assms(2)) (simp del: str_bytes_Cons)
  have r: "tab_rep (j_document J) identityKey v (im_documents m)" "tab_rep (ic_device CI) deviceKey v (im_devices m)"
    "tab_rep (ic_spk CI) spkKey v (im_signed m)" "tab_rep (ic_opk CI) opkKey v (im_one_time m)"
    "tab_rep (j_session J) sessionKey v (im_sessions m)" "tab_rep (j_bundle J) prekeyBundleKey v (im_bundles m)"
    using assms(1) by (simp_all add: id_rep_def)
  show "t \<noteq> ''id'' \<Longrightarrow> tab_rep (j_document J) identityKey v' (im_documents m)" by (rule documents.untouched[OF r(1) u])
  show "t \<noteq> ''de'' \<Longrightarrow> tab_rep (ic_device CI) deviceKey v' (im_devices m)" by (rule devices.untouched[OF r(2) u])
  show "t \<noteq> ''sp'' \<Longrightarrow> tab_rep (ic_spk CI) spkKey v' (im_signed m)" by (rule signed.untouched[OF r(3) u])
  show "t \<noteq> ''op'' \<Longrightarrow> tab_rep (ic_opk CI) opkKey v' (im_one_time m)" by (rule one_time.untouched[OF r(4) u])
  show "t \<noteq> ''dr'' \<Longrightarrow> tab_rep (j_session J) sessionKey v' (im_sessions m)" by (rule sessions.untouched[OF r(5) u])
  show "t \<noteq> ''pb'' \<Longrightarrow> tab_rep (j_bundle J) prekeyBundleKey v' (im_bundles m)" by (rule bundles.untouched[OF r(6) u])
qed

lemma store_others:
  fixes K :: "'m codec" and e1 e2 :: string and x :: 'm
  assumes "kv_ok B view" "id_rep CI J (view d) m" "take 2 key = str_bytes t"
  defines "v' \<equiv> view (fst (store_msg B K e1 e2 key x d))"
  shows "t \<noteq> ''id'' \<Longrightarrow> tab_rep (j_document J) identityKey v' (im_documents m)" "t \<noteq> ''de'' \<Longrightarrow> tab_rep (ic_device CI) deviceKey v' (im_devices m)"
    "t \<noteq> ''sp'' \<Longrightarrow> tab_rep (ic_spk CI) spkKey v' (im_signed m)" "t \<noteq> ''op'' \<Longrightarrow> tab_rep (ic_opk CI) opkKey v' (im_one_time m)"
    "t \<noteq> ''dr'' \<Longrightarrow> tab_rep (j_session J) sessionKey v' (im_sessions m)" "t \<noteq> ''pb'' \<Longrightarrow> tab_rep (j_bundle J) prekeyBundleKey v' (im_bundles m)"
proof -
  have "v' k = view d k" if "take 2 k \<noteq> str_bytes t" for k
    unfolding v'_def using that assms(3) by (intro store_msg_frame[OF assms(1)]) auto
  note o = other_tables[OF assms(2) this]
  show "t \<noteq> ''id'' \<Longrightarrow> tab_rep (j_document J) identityKey v' (im_documents m)" by (rule o(1))
  show "t \<noteq> ''de'' \<Longrightarrow> tab_rep (ic_device CI) deviceKey v' (im_devices m)" by (rule o(2))
  show "t \<noteq> ''sp'' \<Longrightarrow> tab_rep (ic_spk CI) spkKey v' (im_signed m)" by (rule o(3))
  show "t \<noteq> ''op'' \<Longrightarrow> tab_rep (ic_opk CI) opkKey v' (im_one_time m)" by (rule o(4))
  show "t \<noteq> ''dr'' \<Longrightarrow> tab_rep (j_session J) sessionKey v' (im_sessions m)" by (rule o(5))
  show "t \<noteq> ''pb'' \<Longrightarrow> tab_rep (j_bundle J) prekeyBundleKey v' (im_bundles m)" by (rule o(6))
qed

lemma id_step:
  assumes kv: "kv_ok B view" and ok: "id_codecs_ok CI" "json_ok J" and r: "id_rep CI J (view d) m"
  shows "id_rep CI J (view (id_exec P B C CI J op d)) (id_spec P op m)"
proof -
  have K: "codec_ok (j_document J)" "codec_ok (j_session J)" "codec_ok (j_bundle J)" "codec_ok (ic_device CI)" "codec_ok (ic_spk CI)" "codec_ok (ic_opk CI)"
    using ok by (simp_all add: id_codecs_ok_def json_ok_def)
  have tabs: "tab_rep (j_document J) identityKey (view d) (im_documents m)" "tab_rep (ic_device CI) deviceKey (view d) (im_devices m)"
    "tab_rep (ic_spk CI) spkKey (view d) (im_signed m)" "tab_rep (ic_opk CI) opkKey (view d) (im_one_time m)"
    "tab_rep (j_session J) sessionKey (view d) (im_sessions m)" "tab_rep (j_bundle J) prekeyBundleKey (view d) (im_bundles m)"
    using r by (simp_all add: id_rep_def)
  show ?thesis
  proof (cases op)
    case (ISaveDocument pub x)
    show ?thesis using ISaveDocument by (simp add: id_rep_def SaveIdentityDocument_def store_others[OF kv r documents.tagged] documents.stored[OF kv K(1) tabs(1)])
  next
    case (ISaveDevice i x)
    show ?thesis using ISaveDevice by (simp add: id_rep_def SaveDeviceCertificate_def store_others[OF kv r devices.tagged] devices.stored[OF kv K(4) tabs(2)])
  next
    case (ISaveSigned x)
    show ?thesis using ISaveSigned by (simp add: id_rep_def SaveSignedPrekey_def store_others[OF kv r signed.tagged] signed.stored[OF kv K(5) tabs(3)])
  next
    case (ISaveOneTime x)
    show ?thesis using ISaveOneTime by (simp add: id_rep_def SaveOneTimePrekey_def store_others[OF kv r one_time.tagged] one_time.stored[OF kv K(6) tabs(4)])
  next
    case (ISaveSession x)
    show ?thesis using ISaveSession by (simp add: id_rep_def SaveSessionState_def store_others[OF kv r sessions.tagged] sessions.stored[OF kv K(2) tabs(5)])
  next
    case (ISaveBundle pub x)
    show ?thesis using ISaveBundle by (simp add: id_rep_def SavePrekeyBundleCache_def store_others[OF kv r bundles.tagged] bundles.stored[OF kv K(3) tabs(6)])
  next
    case (IDeleteOneTime i)
    have v: "view (fst (DeleteOneTimePrekey B i d)) = (view d)(opkKey i := None)" by (simp add: DeleteOneTimePrekey_def kv_update[OF kv])
    have f: "view (fst (DeleteOneTimePrekey B i d)) k = view d k" if "take 2 k \<noteq> str_bytes ''op''" for k
      using that one_time.tagged[of i] by (auto simp: v)
    have del: "tab_rep (ic_opk CI) opkKey (view (fst (DeleteOneTimePrekey B i d))) ((im_one_time m)(i := None))" unfolding v by (rule one_time.deleted[OF tabs(4)])
    show ?thesis using other_tables[where t = "''op''", OF r f] del IDeleteOneTime by (simp add: id_rep_def)
  next
    case (IOther now mop)
    have "view (fst (Badger_exec B C now mop d)) k = view d k" if "take 2 k \<in> str_bytes ` set id_tags" for k
      by (rule exec_frame[OF kv that])
    then have f: "view (fst (Badger_exec B C now mop d)) k = view d k" if "take 2 k = str_bytes s" "s \<in> set id_tags" for k s using that by simp
    have "tab_rep (j_document J) identityKey (view (fst (Badger_exec B C now mop d))) (im_documents m)"
      by (rule documents.untouched[OF tabs(1)], erule f) (simp add: id_tags_def)
    moreover have "tab_rep (ic_device CI) deviceKey (view (fst (Badger_exec B C now mop d))) (im_devices m)"
      by (rule devices.untouched[OF tabs(2)], erule f) (simp add: id_tags_def)
    moreover have "tab_rep (ic_spk CI) spkKey (view (fst (Badger_exec B C now mop d))) (im_signed m)"
      by (rule signed.untouched[OF tabs(3)], erule f) (simp add: id_tags_def)
    moreover have "tab_rep (ic_opk CI) opkKey (view (fst (Badger_exec B C now mop d))) (im_one_time m)"
      by (rule one_time.untouched[OF tabs(4)], erule f) (simp add: id_tags_def)
    moreover have "tab_rep (j_session J) sessionKey (view (fst (Badger_exec B C now mop d))) (im_sessions m)"
      by (rule sessions.untouched[OF tabs(5)], erule f) (simp add: id_tags_def)
    moreover have "tab_rep (j_bundle J) prekeyBundleKey (view (fst (Badger_exec B C now mop d))) (im_bundles m)"
      by (rule bundles.untouched[OF tabs(6)], erule f) (simp add: id_tags_def)
    ultimately show ?thesis using IOther by (simp add: id_rep_def)
  qed
qed

lemma id_run_rep:
  assumes "kv_ok B view" "id_codecs_ok CI" "json_ok J" "id_rep CI J (view d) m"
  shows "id_rep CI J (view (fold (id_exec P B C CI J) ops d)) (fold (id_spec P) ops m)"
  using assms(4)
proof (induction ops arbitrary: d m)
  case (Cons op ops)
  then show ?case using id_step[OF assms(1-3)] by simp
qed simp

text \<open>Every key of the table of one-time prekeys that is present belongs to a prekey.\<close>

definition opk_keys :: "(bytes \<Rightarrow> bytes option) \<Rightarrow> bool" where
  "opk_keys v \<longleftrightarrow> (\<forall>k. v k \<noteq> None \<longrightarrow> take 2 k = str_bytes ''op'' \<longrightarrow> k \<in> range opkKey)"

lemma opk_keys_step:
  assumes kv: "kv_ok B view" and i: "opk_keys (view d)"
  shows "opk_keys (view (id_exec P B C CI J op d))"
proof -
  have same: "opk_keys (view d')" if "\<And>k. take 2 k = str_bytes ''op'' \<Longrightarrow> view d' k = view d k" for d'
    using i that unfolding opk_keys_def by metis
  have other: "opk_keys (view (fst (store_msg B K e1 e2 key x d)))" if "take 2 key \<noteq> str_bytes ''op''" for K :: "'m codec" and e1 e2 key x
    using that by (intro same store_msg_frame[OF kv]) auto
  have tags: "take 2 (identityKey a) \<noteq> str_bytes ''op''" "take 2 (deviceKey a) \<noteq> str_bytes ''op''" "take 2 (spkKey n) \<noteq> str_bytes ''op''"
    "take 2 (sessionKey s) \<noteq> str_bytes ''op''" "take 2 (prekeyBundleKey a) \<noteq> str_bytes ''op''" for a n s
    unfolding id_tagged by simp_all
  show ?thesis
  proof (cases op)
    case (ISaveOneTime x)
    have "opk_keys (view (fst (store_msg B K e1 e2 (opkKey n) x d)))" for K :: "OneTimePrekey codec" and e1 e2 n
    proof (cases "marshal K x")
      case (Inr b)
      then show ?thesis using i by (simp add: store_msg_def kv_update[OF kv] opk_keys_def)
    qed (use i in \<open>simp add: store_msg_def\<close>)
    then show ?thesis using ISaveOneTime by (simp add: SaveOneTimePrekey_def)
  next
    case (IDeleteOneTime n)
    then show ?thesis using i by (simp add: DeleteOneTimePrekey_def kv_update[OF kv] opk_keys_def)
  next
    case (IOther now mop)
    have "opk_keys (view (fst (Badger_exec B C now mop d)))" by (rule same, rule exec_frame[OF kv]) (simp add: id_tags_def)
    then show ?thesis using IOther by simp
  next
    case (ISaveDocument pub x)
    then show ?thesis using other[OF tags(1)] by (simp add: SaveIdentityDocument_def)
  next
    case (ISaveDevice a x)
    show ?thesis using ISaveDevice by (simp add: SaveDeviceCertificate_def) (intro same store_msg_frame[OF kv], use tags(2)[of a] in auto)
  next
    case (ISaveSigned x)
    show ?thesis using ISaveSigned by (simp add: SaveSignedPrekey_def) (intro same store_msg_frame[OF kv], use tags(3)[of "sp_PrekeyId x"] in auto)
  next
    case (ISaveSession x)
    show ?thesis using ISaveSession by (simp add: SaveSessionState_def) (intro same store_msg_frame[OF kv], use tags(4)[of "st_SessionID x"] in auto)
  next
    case (ISaveBundle pub x)
    show ?thesis using ISaveBundle by (simp add: SavePrekeyBundleCache_def) (intro same store_msg_frame[OF kv], use tags(5)[of "hash16 P pub"] in auto)
  qed
qed

lemma opk_keys_run:
  assumes "kv_ok B view" "opk_keys (view d)"
  shows "opk_keys (view (fold (id_exec P B C CI J) ops d))"
  using assms(2) by (induction ops arbitrary: d) (simp_all add: opk_keys_step[OF assms(1)])

lemma list_prekeys:
  assumes kv: "kv_ok B view" and rep: "tab_rep (ic_opk CI) opkKey (view d) m" and keys: "opk_keys (view d)"
  shows "\<exists>l. ListOneTimePrekeys B CI d = Inr l \<and> set l = ran m \<and> length l = card (dom m) \<and> CountOneTimePrekeys B d = Inr (card (dom m))"
proof -
  obtain kvs where kvs: "db_scan B d (str_bytes ''opk:'') = Inr kvs" "distinct (map fst kvs)"
    "set kvs = {(k, v). view d k = Some v \<and> prefix (str_bytes ''opk:'') k}" by (rule kv_scan[OF kv])
  have entry: "(k, b) \<in> set kvs \<longleftrightarrow> (\<exists>i x. k = opkKey i \<and> view d (opkKey i) = Some b \<and> m i = Some x \<and> unmarshal (ic_opk CI) b = Inr x)" for k b
  proof
    assume "(k, b) \<in> set kvs"
    then have v: "view d k = Some b" "prefix (str_bytes ''opk:'') k" using kvs(3) by auto
    then have "take 2 k = str_bytes ''op''" using take2_prefix[OF _ v(2)] by simp
    then obtain i where i: "k = opkKey i" using keys v(1) by (auto simp: opk_keys_def simp del: str_bytes_Cons)
    then have "rel_option (\<lambda>b x. unmarshal (ic_opk CI) b = Inr x) (Some b) (m i)" using rep v(1) unfolding tab_rep_def by metis
    then show "\<exists>i x. k = opkKey i \<and> view d (opkKey i) = Some b \<and> m i = Some x \<and> unmarshal (ic_opk CI) b = Inr x"
      using v(1) i by (auto simp: option_rel_Some1)
  next
    assume "\<exists>i x. k = opkKey i \<and> view d (opkKey i) = Some b \<and> m i = Some x \<and> unmarshal (ic_opk CI) b = Inr x"
    then show "(k, b) \<in> set kvs" using kvs(3) by (auto simp: opkKey_def)
  qed
  let ?dec = "\<lambda>kv. case unmarshal (ic_opk CI) (snd kv) of Inr x \<Rightarrow> x"
  have dec: "(unmarshal (ic_opk CI) \<circ> snd) kv = Inr (?dec kv)" if "kv \<in> set kvs" for kv
    using that entry[of "fst kv" "snd kv"] by auto
  have l: "ListOneTimePrekeys B CI d = Inr (map ?dec kvs)"
    using each_Inr[of kvs "unmarshal (ic_opk CI) \<circ> snd" ?dec] dec by (simp add: ListOneTimePrekeys_def list_msgs_def kvs(1) del: str_bytes_Cons)
  have present: "m i = Some x \<Longrightarrow> \<exists>b. view d (opkKey i) = Some b \<and> unmarshal (ic_opk CI) b = Inr x" for i x
    using rep[unfolded tab_rep_def, rule_format, of i] by (auto simp: option_rel_Some2)
  have ran: "set (map ?dec kvs) = ran m"
  proof (rule set_eqI, rule iffI)
    fix x assume "x \<in> set (map ?dec kvs)"
    then obtain k b where "(k, b) \<in> set kvs" "x = ?dec (k, b)" by auto
    then show "x \<in> ran m" using entry[of k b] by (auto simp: ran_def)
  next
    fix x assume "x \<in> ran m"
    then obtain i b where "m i = Some x" "view d (opkKey i) = Some b" "unmarshal (ic_opk CI) b = Inr x" using present unfolding ran_def by blast
    then have "(opkKey i, b) \<in> set kvs" "?dec (opkKey i, b) = x" using entry by auto
    then show "x \<in> set (map ?dec kvs)" by force
  qed
  have "fst ` set kvs = opkKey ` dom m" using entry present by (force simp: image_iff)
  moreover have "inj_on opkKey (dom m)" by (simp add: inj_on_def one_time.inj)
  ultimately have "length kvs = card (dom m)" using kvs(2) by (metis card_image distinct_card length_map set_map)
  then show ?thesis using l ran by (simp add: CountOneTimePrekeys_def kvs(1) del: str_bytes_Cons)
qed

section \<open>Properties\<close>

text \<open>C20.The identity store refines six independent maps. From an empty database, after any history of its own operations and of those of
  the rest of the store, each lookup returns what the abstract map holds, and the one-time prekeys are listed and counted exactly.\<close>

theorem identity_store_refines_maps:
  fixes P :: prims and C :: codecs and ops :: "id_op list"
  assumes laws: "kv_ok B view" "id_codecs_ok CI" "json_ok J" and empty: "view d0 = (\<lambda>_. None)"
  defines "d \<equiv> fold (id_exec P B C CI J) ops d0" and "m \<equiv> fold (id_spec P) ops no_records"
  shows "GetIdentityDocument P B J pub d = Inr (im_documents m (hash16 P pub)) \<and> GetDeviceCertificate B CI device d = Inr (im_devices m device)
    \<and> GetSignedPrekey B CI i d = Inr (im_signed m i) \<and> GetOneTimePrekey B CI i d = Inr (im_one_time m i)
    \<and> Badger_GetSessionState B J s d = Inr (im_sessions m s) \<and> GetPrekeyBundleCache P B J pub d = Inr (im_bundles m (hash16 P pub))
    \<and> (\<exists>l. ListOneTimePrekeys B CI d = Inr l \<and> set l = ran (im_one_time m) \<and> length l = card (dom (im_one_time m))
         \<and> CountOneTimePrekeys B d = Inr (card (dom (im_one_time m))))"
proof -
  have "id_rep CI J (view d) m" unfolding d_def m_def
    by (rule id_run_rep[OF laws]) (simp add: id_rep_def tab_rep_def no_records_def empty)
  then have tabs: "tab_rep (j_document J) identityKey (view d) (im_documents m)" "tab_rep (ic_device CI) deviceKey (view d) (im_devices m)"
    "tab_rep (ic_spk CI) spkKey (view d) (im_signed m)" "tab_rep (ic_opk CI) opkKey (view d) (im_one_time m)"
    "tab_rep (j_session J) sessionKey (view d) (im_sessions m)" "tab_rep (j_bundle J) prekeyBundleKey (view d) (im_bundles m)"
    by (simp_all add: id_rep_def)
  have "opk_keys (view d)" unfolding d_def by (rule opk_keys_run[OF laws(1)]) (simp add: opk_keys_def empty)
  note l = list_prekeys[OF laws(1) tabs(4) this]
  show ?thesis
    using l by (simp add: GetIdentityDocument_def GetDeviceCertificate_def GetSignedPrekey_def GetOneTimePrekey_def Badger_GetSessionState_def GetPrekeyBundleCache_def
        documents.loaded[OF laws(1) tabs(1)] devices.loaded[OF laws(1) tabs(2)] signed.loaded[OF laws(1) tabs(3)] one_time.loaded[OF laws(1) tabs(4)]
        sessions.loaded[OF laws(1) tabs(5)] bundles.loaded[OF laws(1) tabs(6)])
qed

section \<open>Witness\<close>

definition ser_IdentityDocumentRecord :: "IdentityDocumentRecord ser" where
  "ser_IdentityDocumentRecord = s_iso (\<lambda>r. (dr_Document r, dr_FetchedAt r, dr_Source r, dr_DocumentHash r))
     (\<lambda>(x0, x1, x2, x3). \<lparr>dr_Document = x0, dr_FetchedAt = x1, dr_Source = x2, dr_DocumentHash = x3\<rparr>)
     (s_pair ser_IdentityDocument (s_pair s_int (s_pair s_string s_bytes)))"

definition ser_SkippedKey :: "SkippedKeyRecord ser" where
  "ser_SkippedKey = s_iso (\<lambda>r. (sk_DHRatchetPub r, sk_Counter r, sk_Key r))
     (\<lambda>(x0, x1, x2). \<lparr>sk_DHRatchetPub = x0, sk_Counter = x1, sk_Key = x2\<rparr>)
     (s_pair s_bytes (s_pair s_u32 s_bytes))"

definition ser_SessionState :: "SessionRecord ser" where
  "ser_SessionState = s_iso (\<lambda>r. (st_SessionID r, st_RemoteIdentityPub r, st_LocalIdentityPub r, st_DHSendingKeyPriv r, st_DHSendingKeyPub r, st_DHReceivingPub r, st_RootKey r, st_SendingChainKey r, st_SendingChainCounter r, st_ReceivingChainKey r, st_ReceivingChainCounter r, st_SkippedKeys r, st_CreatedAt r, st_LastUsedAt r, st_CipherSuiteID r))
     (\<lambda>(x0, x1, x2, x3, x4, x5, x6, x7, x8, x9, x10, x11, x12, x13, x14). \<lparr>st_SessionID = x0, st_RemoteIdentityPub = x1, st_LocalIdentityPub = x2, st_DHSendingKeyPriv = x3, st_DHSendingKeyPub = x4, st_DHReceivingPub = x5, st_RootKey = x6, st_SendingChainKey = x7, st_SendingChainCounter = x8, st_ReceivingChainKey = x9, st_ReceivingChainCounter = x10, st_SkippedKeys = x11, st_CreatedAt = x12, st_LastUsedAt = x13, st_CipherSuiteID = x14\<rparr>)
     (s_pair s_string (s_pair s_bytes (s_pair s_bytes (s_pair s_bytes (s_pair s_bytes (s_pair s_bytes (s_pair s_bytes (s_pair s_bytes (s_pair s_u32 (s_pair s_bytes (s_pair s_u32 (s_pair (s_list ser_SkippedKey) (s_pair s_int (s_pair s_int s_u32))))))))))))))"

definition ser_PrekeyBundleCache :: "PrekeyBundleCache ser" where
  "ser_PrekeyBundleCache = s_iso (\<lambda>r. (bc_IdentityPub r, bc_SignedPrekeys r, bc_OneTimePrekeys r, bc_FetchedAt r, bc_ConsumedOPKs r))
     (\<lambda>(x0, x1, x2, x3, x4). \<lparr>bc_IdentityPub = x0, bc_SignedPrekeys = x1, bc_OneTimePrekeys = x2, bc_FetchedAt = x3, bc_ConsumedOPKs = x4\<rparr>)
     (s_pair s_bytes (s_pair (s_list ser_SignedPrekey) (s_pair (s_list ser_OneTimePrekey) (s_pair s_int (s_list (s_pair s_u64 s_bool))))))"

lemma ser_IdentityDocumentRecord_ok [ser_intros]: "ser_ok ser_IdentityDocumentRecord"
  unfolding ser_IdentityDocumentRecord_def by (rule s_iso_ok, intro ser_intros, simp)

lemma ser_SkippedKey_ok [ser_intros]: "ser_ok ser_SkippedKey"
  unfolding ser_SkippedKey_def by (rule s_iso_ok, intro ser_intros, simp)

lemma ser_SessionState_ok [ser_intros]: "ser_ok ser_SessionState"
  unfolding ser_SessionState_def by (rule s_iso_ok, intro ser_intros, simp)

lemma ser_PrekeyBundleCache_ok [ser_intros]: "ser_ok ser_PrekeyBundleCache"
  unfolding ser_PrekeyBundleCache_def by (rule s_iso_ok, intro ser_intros, simp)

definition ref_json :: json_codecs where
  "ref_json = \<lparr>j_document = codec_of ser_IdentityDocumentRecord, j_session = codec_of ser_SessionState, j_bundle = codec_of ser_PrekeyBundleCache\<rparr>"

lemma ref_json_ok: "json_ok ref_json"
  by (simp add: json_ok_def ref_json_def) (intro conjI codec_of_ok ser_intros)

theorem identity_store_refines_maps_witness:
  "GetOneTimePrekey alist_db id_ref_codecs 7 (fold (id_exec toy alist_db ref_codecs id_ref_codecs ref_json)
     [ISaveOneTime \<lparr>op_DeviceId = [1], op_PrekeyPub = [2], op_PrekeyId = 7\<rparr>, IOther 0 (OSetConfig ''a'' ''b''), ISaveSigned \<lparr>sp_DeviceId = [1], sp_PrekeyPub = [3],
      sp_PrekeyId = 7, sp_CreatedAt = 0, sp_ExpiresAt = 0, sp_Signature = []\<rparr>] []) = Inr (Some \<lparr>op_DeviceId = [1], op_PrekeyPub = [2], op_PrekeyId = 7\<rparr>)"
proof -
  have "map_of [] = (\<lambda>_. None)" by (rule ext) simp
  note r = identity_store_refines_maps[OF alist_db_ok id_ref_codecs_ok ref_json_ok this]
  show ?thesis by (subst r[THEN conjunct2, THEN conjunct2, THEN conjunct2, THEN conjunct1]) (simp add: no_records_def)
qed

end
