(* ===== verification/ExchangeSort.thy ===== *)
theory ExchangeSort
  imports Prelude "HOL-Library.Multiset"
begin

text \<open>
  The exchange sort that the program writes out wherever it sorts in descending order: for every \<open>i\<close>, every later element that belongs before the
  element at \<open>i\<close> is exchanged with it. \<open>lt\<close> is the test of the inner loop; \<open>lt x y\<close> means that \<open>y\<close> belongs before \<open>x\<close>.
  When the test compares keys of a linear order, the result is a permutation of the list with descending keys.
\<close>

function exch_inner :: "('a \<Rightarrow> 'a \<Rightarrow> bool) \<Rightarrow> nat \<Rightarrow> nat \<Rightarrow> 'a list \<Rightarrow> 'a list" where
  "exch_inner lt i j xs =
     (if j < length xs then exch_inner lt i (Suc j) (if lt (xs ! i) (xs ! j) then xs[i := xs ! j, j := xs ! i] else xs) else xs)"
  by pat_completeness auto
termination
  by (relation "measure (\<lambda>(lt, i, j, xs). length xs - j)") auto

declare exch_inner.simps [simp del]

lemma length_exch_inner [simp]: "length (exch_inner lt i j xs) = length xs"
  by (induction lt i j xs rule: exch_inner.induct) (subst exch_inner.simps, simp)

text \<open>\<open>n\<close> is the bound of the outer loop.\<close>

function exch_outer :: "('a \<Rightarrow> 'a \<Rightarrow> bool) \<Rightarrow> nat \<Rightarrow> nat \<Rightarrow> 'a list \<Rightarrow> 'a list" where
  "exch_outer lt n i xs = (if i < n then exch_outer lt n (Suc i) (exch_inner lt i (Suc i) xs) else xs)"
  by pat_completeness auto
termination
  by (relation "measure (\<lambda>(lt, n, i, xs). n - i)") auto

declare exch_outer.simps [simp del]

lemma mset_exchange: "i < length xs \<Longrightarrow> j < length xs \<Longrightarrow> mset (xs[i := xs ! j, j := xs ! i]) = mset xs"
  by (rule mset_swap[symmetric, THEN sym])

lemma exch_inner_mset: "i < length xs \<Longrightarrow> mset (exch_inner lt i j xs) = mset xs"
proof (induction lt i j xs rule: exch_inner.induct)
  case (1 lt i j xs)
  show ?case
  proof (cases "j < length xs")
    case True
    then show ?thesis using 1 by (subst exch_inner.simps) (simp add: mset_exchange)
  next
    case False
    then show ?thesis by (subst exch_inner.simps) simp
  qed
qed

lemma exch_inner_below: "i < j \<Longrightarrow> a < i \<Longrightarrow> exch_inner lt i j xs ! a = xs ! a"
proof (induction lt i j xs rule: exch_inner.induct)
  case (1 lt i j xs)
  show ?case
  proof (cases "j < length xs")
    case True
    then show ?thesis using 1 by (subst exch_inner.simps) simp
  next
    case False
    then show ?thesis by (subst exch_inner.simps) simp
  qed
qed

lemma exch_outer_mset: "n \<le> length xs \<Longrightarrow> mset (exch_outer lt n i xs) = mset xs"
proof (induction lt n i xs rule: exch_outer.induct)
  case (1 lt n i xs)
  then show ?case by (subst exch_outer.simps) (simp add: exch_inner_mset)
qed

text \<open>The test compares keys on the elements of \<open>A\<close>.\<close>

locale descending =
  fixes lt :: "'a \<Rightarrow> 'a \<Rightarrow> bool" and key :: "'a \<Rightarrow> 'k::linorder" and A :: "'a set"
  assumes lt_key: "x \<in> A \<Longrightarrow> y \<in> A \<Longrightarrow> lt x y \<longleftrightarrow> key x < key y"
begin

definition front :: "nat \<Rightarrow> 'a list \<Rightarrow> bool" where
  "front n xs \<longleftrightarrow> (\<forall>a b. a < n \<longrightarrow> a < b \<longrightarrow> b < length xs \<longrightarrow> key (xs ! b) \<le> key (xs ! a))"

lemma inner_max:
  assumes "i < j" "i < length xs" "set xs \<subseteq> A" "\<And>k. i < k \<Longrightarrow> k < j \<Longrightarrow> k < length xs \<Longrightarrow> key (xs ! k) \<le> key (xs ! i)"
    "i < k" "k < length xs"
  shows "key (exch_inner lt i j xs ! k) \<le> key (exch_inner lt i j xs ! i)"
  using assms
proof (induction "length xs - j" arbitrary: j xs k)
  case 0
  then show ?case by (subst (1 2) exch_inner.simps) simp
next
  case (Suc n)
  let ?xs = "if lt (xs ! i) (xs ! j) then xs[i := xs ! j, j := xs ! i] else xs"
  have j: "j < length xs" using Suc.hyps(2) by simp
  have A: "xs ! i \<in> A" "xs ! j \<in> A" using Suc.prems(2,3) j nth_mem by blast+
  have "key (exch_inner lt i (Suc j) ?xs ! k) \<le> key (exch_inner lt i (Suc j) ?xs ! i)"
  proof (rule Suc.hyps(1))
    show "n = length ?xs - Suc j" "i < Suc j" "i < length ?xs" "i < k" "k < length ?xs" using Suc.hyps(2) Suc.prems by simp_all
    have "set ?xs = set xs" using mset_exchange[OF Suc.prems(2) j] by (auto dest: mset_eq_setD)
    then show "set ?xs \<subseteq> A" using Suc.prems(3) by simp
    fix l assume l: "i < l" "l < Suc j" "l < length ?xs"
    show "key (?xs ! l) \<le> key (?xs ! i)"
      using l j Suc.prems(1,2) Suc.prems(4)[of l] lt_key[OF A] by (cases "l = j") (auto simp: less_Suc_eq)
  qed
  then show ?case using j by (subst (1 2) exch_inner.simps) simp
qed

lemma inner_front:
  assumes "i < length xs" "set xs \<subseteq> A" "front i xs"
  shows "front (Suc i) (exch_inner lt i (Suc i) xs)"
  unfolding front_def
proof (intro allI impI)
  let ?r = "exch_inner lt i (Suc i) xs"
  fix a b assume ab: "a < Suc i" "a < b" "b < length ?r"
  show "key (?r ! b) \<le> key (?r ! a)"
  proof (cases "a = i")
    case True
    then show ?thesis using inner_max[of i "Suc i" xs b] assms ab by simp
  next
    case False
    then have a: "a < i" using ab by simp
    have tk: "take (Suc a) ?r = take (Suc a) xs" by (rule nth_take_lemma) (use a assms(1) in \<open>simp_all add: exch_inner_below\<close>)
    have "mset (take (Suc a) ?r) + mset (drop (Suc a) ?r) = mset (take (Suc a) xs) + mset (drop (Suc a) xs)"
      using exch_inner_mset[OF assms(1), of lt "Suc i"] by (metis append_take_drop_id mset_append)
    then have "mset (drop (Suc a) ?r) = mset (drop (Suc a) xs)" unfolding tk by simp
    then have st: "set (drop (Suc a) ?r) = set (drop (Suc a) xs)" by (rule mset_eq_setD)
    have "drop (Suc a) ?r ! (b - Suc a) = ?r ! b" "b - Suc a < length (drop (Suc a) ?r)" using ab by auto
    then have "?r ! b \<in> set (drop (Suc a) ?r)" by (metis nth_mem)
    then have "?r ! b \<in> set (drop (Suc a) xs)" unfolding st .
    then obtain c where "c < length xs - Suc a" "?r ! b = xs ! (Suc a + c)" by (auto simp: in_set_conv_nth)
    then show ?thesis using assms(3)[unfolded front_def, rule_format, OF a, of "Suc a + c"] exch_inner_below[of i "Suc i" a lt xs] a by simp
  qed
qed

lemma outer_front: "set xs \<subseteq> A \<Longrightarrow> n \<le> length xs \<Longrightarrow> i \<le> n \<Longrightarrow> front i xs \<Longrightarrow> front n (exch_outer lt n i xs)"
proof (induction "n - i" arbitrary: i xs)
  case 0
  then show ?case by (subst exch_outer.simps) simp
next
  case (Suc m)
  let ?r = "exch_inner lt i (Suc i) xs"
  have i: "i < n" "i < length xs" using Suc.hyps(2) Suc.prems(2) by simp_all
  have "set ?r = set xs" using exch_inner_mset[OF i(2)] by (rule mset_eq_setD)
  then have "front n (exch_outer lt n (Suc i) ?r)"
    using Suc.hyps(1)[of "Suc i" ?r] Suc.hyps(2) Suc.prems i inner_front[OF i(2) Suc.prems(1,4)] by simp
  then show ?case using i by (subst exch_outer.simps) simp
qed

text \<open>The loop may stop at the last element or before it.\<close>

lemma sorts:
  assumes "set xs \<subseteq> A" "length xs - 1 \<le> n" "n \<le> length xs"
  shows "sorted_wrt (\<lambda>x y. key y \<le> key x) (exch_outer lt n 0 xs)"
proof -
  have "front n (exch_outer lt n 0 xs)" by (rule outer_front) (use assms in \<open>simp_all add: front_def\<close>)
  moreover have "length (exch_outer lt n 0 xs) = length xs" by (rule mset_eq_length[OF exch_outer_mset[OF assms(3)]])
  ultimately show ?thesis using assms(2) by (auto simp: front_def sorted_wrt_iff_nth_less)
qed

end

end
