(* ===== verification/Channels.thy ===== *)
theory Channels
  imports PublicGroup ExchangeSort
begin

text \<open>
  \<open>pkg/groups/channel.go\<close>: channels, their posts and their subscribers. The service reaches its store
  through three methods of the \<open>Storage\<close> interface, the record \<open>channel_store\<close>; the locale
  \<open>channel_backend\<close> states what it relies on, and both stores of the repository satisfy it. The cached
  channel states are written through their pointers, so an error return keeps what was changed before
  it. Clock readings and random identifiers are arguments.
\<close>

section \<open>Types\<close>

definition ErrNotChannelOwner :: go_error where "ErrNotChannelOwner = Err ''not channel owner''"
definition ErrChannelNotFound :: go_error where "ErrChannelNotFound = Err ''channel not found''"
definition ErrInvalidChannelType :: go_error where "ErrInvalidChannelType = Err ''invalid channel type''"

record Channel =
  chn_ChannelID :: bytes
  chn_Name :: string
  chn_Description :: string
  chn_AvatarCID :: string
  chn_Type :: GroupType
  chn_OwnerPubkey :: bytes
  chn_CreatedAt :: u64
  chn_UpdatedAt :: u64
  chn_LatestPostCID :: bytes
  chn_SubscriberCount :: u64
  chn_StateSignature :: bytes

text \<open>The content of a post is an \<open>interface{}\<close>: one of four messages, raw bytes, or any other value, of which
  the code uses only what \<open>json.Marshal\<close> makes of it.\<close>

datatype PostContent =
    TextContent TextMessage
  | MediaContent MediaMessage
  | EditContent EditMessage
  | DeleteContent pb_DeleteMessage
  | RawContent bytes
  | OtherContent "bytes res"

record Post =
  pst_PostID :: bytes
  pst_ChannelID :: bytes
  pst_AuthorPubkey :: bytes
  pst_Timestamp :: u64
  pst_Content :: PostContent
  pst_PreviousPostCID :: bytes
  pst_Signature :: bytes

record 's channel_store =
  st_SaveChannel :: "ChannelState \<Rightarrow> 's \<Rightarrow> ('s, unit) eff"
  st_SaveChannelPost :: "ChannelPost \<Rightarrow> 's \<Rightarrow> ('s, unit) eff"
  st_DeleteChannel :: "bytes \<Rightarrow> 's \<Rightarrow> ('s, unit) eff"

record 's ChannelService =
  cv_storage :: 's
  cv_identitySignPub :: bytes
  cv_identitySignPriv :: bytes
  cv_channels :: "(string, Channel) gomap"
  cv_posts :: "(string, (string, Post) gomap) gomap"
  cv_subscribers :: "(string, (string, u64) gomap) gomap"

definition NewChannelService :: "'s \<Rightarrow> bytes \<Rightarrow> bytes \<Rightarrow> 's ChannelService" where
  "NewChannelService storage pub priv = \<lparr>cv_storage = storage, cv_identitySignPub = pub, cv_identitySignPriv = priv,
     cv_channels = [], cv_posts = [], cv_subscribers = []\<rparr>"

section \<open>Channel states\<close>

definition Channel_ToProto :: "Channel \<Rightarrow> ChannelState" where
  "Channel_ToProto cs = \<lparr>ch_ChannelId = chn_ChannelID cs, ch_Name = chn_Name cs, ch_Description = chn_Description cs,
     ch_AvatarCid = chn_AvatarCID cs, ch_Type = chn_Type cs, ch_OwnerPubkey = chn_OwnerPubkey cs, ch_CreatedAt = chn_CreatedAt cs,
     ch_UpdatedAt = chn_UpdatedAt cs, ch_LatestPostCid = chn_LatestPostCID cs, ch_SubscriberCount = chn_SubscriberCount cs,
     ch_StateSignature = chn_StateSignature cs\<rparr>"

definition ChannelStateFromProto :: "ChannelState \<Rightarrow> Channel" where
  "ChannelStateFromProto p = \<lparr>chn_ChannelID = ch_ChannelId p, chn_Name = ch_Name p, chn_Description = ch_Description p,
     chn_AvatarCID = ch_AvatarCid p, chn_Type = ch_Type p, chn_OwnerPubkey = ch_OwnerPubkey p, chn_CreatedAt = ch_CreatedAt p,
     chn_UpdatedAt = ch_UpdatedAt p, chn_LatestPostCID = ch_LatestPostCid p, chn_SubscriberCount = ch_SubscriberCount p,
     chn_StateSignature = ch_StateSignature p\<rparr>"

definition Channel_Serialize :: "ChannelState codec \<Rightarrow> Channel \<Rightarrow> bytes res" where
  "Channel_Serialize K cs = marshal K ((Channel_ToProto cs)\<lparr>ch_StateSignature := []\<rparr>)"

definition Channel_Sign :: "prims \<Rightarrow> ChannelState codec \<Rightarrow> bytes \<Rightarrow> Channel \<Rightarrow> (Channel, unit) eff" where
  "Channel_Sign P K privKey cs =
     (case Channel_Serialize K cs of
        Inl e \<Rightarrow> (cs, Inl (Wrap ''failed to serialize'' e))
      | Inr data \<Rightarrow> (case ed25519_Sign P privKey data of
          Inl e \<Rightarrow> (cs, Inl e)
        | Inr signature \<Rightarrow> (cs\<lparr>chn_StateSignature := signature\<rparr>, Inr ())))"

definition Channel_Verify :: "prims \<Rightarrow> ChannelState codec \<Rightarrow> bytes \<Rightarrow> Channel \<Rightarrow> bool res" where
  "Channel_Verify P K pubKey cs =
     (if length (chn_StateSignature cs) = 0 then Inr False
      else case Channel_Serialize K cs of
        Inl e \<Rightarrow> Inr False
      | Inr data \<Rightarrow> ed25519_Verify P pubKey data (chn_StateSignature cs))"

section \<open>Posts\<close>

definition text_content :: "string \<Rightarrow> isChannelPost_Content" where
  "text_content s = ChannelPost_Text \<lparr>tm_Text = s, tm_Language = ''''\<rparr>"

fun content_to_proto :: "PostContent \<Rightarrow> isChannelPost_Content res" where
  "content_to_proto (TextContent m) = Inr (ChannelPost_Text m)"
| "content_to_proto (MediaContent m) = Inr (ChannelPost_Media m)"
| "content_to_proto (EditContent m) = Inr (ChannelPost_Edit m)"
| "content_to_proto (DeleteContent m) = Inr (ChannelPost_DeleteMsg m)"
| "content_to_proto (RawContent b) = Inr (text_content (bytes_str b))"
| "content_to_proto (OtherContent json) = (case json of
     Inl e \<Rightarrow> Inl (Err ''unsupported content type'') | Inr jsonData \<Rightarrow> Inr (text_content (bytes_str jsonData)))"

definition Post_ToProto :: "Post \<Rightarrow> ChannelPost res" where
  "Post_ToProto cp = rbind (content_to_proto (pst_Content cp)) (\<lambda>c.
     Inr \<lparr>cp_PostId = pst_PostID cp, cp_ChannelId = pst_ChannelID cp, cp_AuthorPubkey = pst_AuthorPubkey cp,
       cp_Timestamp = pst_Timestamp cp, cp_Content = Some c, cp_PreviousPostCid = pst_PreviousPostCID cp,
       cp_Signature = pst_Signature cp\<rparr>)"

fun content_from_proto :: "isChannelPost_Content option \<Rightarrow> PostContent" where
  "content_from_proto (Some (ChannelPost_Text m)) = TextContent m"
| "content_from_proto (Some (ChannelPost_Media m)) = MediaContent m"
| "content_from_proto (Some (ChannelPost_Edit m)) = EditContent m"
| "content_from_proto (Some (ChannelPost_DeleteMsg m)) = DeleteContent m"
| "content_from_proto None = RawContent []"

definition ChannelPostFromProto :: "ChannelPost \<Rightarrow> Post" where
  "ChannelPostFromProto p = \<lparr>pst_PostID = cp_PostId p, pst_ChannelID = cp_ChannelId p, pst_AuthorPubkey = cp_AuthorPubkey p,
     pst_Timestamp = cp_Timestamp p, pst_Content = content_from_proto (cp_Content p),
     pst_PreviousPostCID = cp_PreviousPostCid p, pst_Signature = cp_Signature p\<rparr>"

definition Post_Serialize :: "ChannelPost codec \<Rightarrow> Post \<Rightarrow> bytes res" where
  "Post_Serialize K cp = rbind (Post_ToProto cp) (\<lambda>p. marshal K (p\<lparr>cp_Signature := []\<rparr>))"

definition Post_Sign :: "prims \<Rightarrow> ChannelPost codec \<Rightarrow> bytes \<Rightarrow> Post \<Rightarrow> (Post, unit) eff" where
  "Post_Sign P K privKey cp =
     (case Post_Serialize K cp of
        Inl e \<Rightarrow> (cp, Inl (Wrap ''failed to serialize'' e))
      | Inr data \<Rightarrow> (case ed25519_Sign P privKey data of
          Inl e \<Rightarrow> (cp, Inl e)
        | Inr signature \<Rightarrow> (cp\<lparr>pst_Signature := signature\<rparr>, Inr ())))"

definition Post_Verify :: "prims \<Rightarrow> ChannelPost codec \<Rightarrow> bytes \<Rightarrow> Post \<Rightarrow> bool res" where
  "Post_Verify P K pubKey cp =
     (if length (pst_Signature cp) = 0 then Inr False
      else case Post_Serialize K cp of
        Inl e \<Rightarrow> Inr False
      | Inr data \<Rightarrow> ed25519_Verify P pubKey data (pst_Signature cp))"

definition ComputeChannelID :: "prims \<Rightarrow> string \<Rightarrow> bytes" where
  "ComputeChannelID P name = take 16 (sha256 P (str_bytes name))"

definition GetChannelTopic :: "prims \<Rightarrow> bytes \<Rightarrow> string" where
  "GetChannelTopic P channelID = ''babylon-ch-'' @ hex_encode (take 8 (sha256 P channelID))"

section \<open>Operations\<close>

definition storeChannel :: "'s channel_store \<Rightarrow> Channel \<Rightarrow> 's ChannelService \<Rightarrow> ('s ChannelService, unit) eff" where
  "storeChannel S state s = (case st_SaveChannel S (Channel_ToProto state) (cv_storage s) of (d, r) \<Rightarrow> (s\<lparr>cv_storage := d\<rparr>, r))"

definition storePost :: "'s channel_store \<Rightarrow> Post \<Rightarrow> 's ChannelService \<Rightarrow> ('s ChannelService, unit) eff" where
  "storePost S post s =
     (case Post_ToProto post of
        Inl e \<Rightarrow> (s, Inl (Wrap ''failed to convert post to proto'' e))
      | Inr p \<Rightarrow> (case st_SaveChannelPost S p (cv_storage s) of (d, r) \<Rightarrow> (s\<lparr>cv_storage := d\<rparr>, r)))"

text \<open>The identifier stays all zero when either of the two calls of the random reader fails.\<close>

definition new_channel_id :: "bytes res \<Rightarrow> bytes res \<Rightarrow> bytes" where
  "new_channel_id rnd1 rnd2 =
     (case rnd1 of Inl _ \<Rightarrow> replicate 32 0 | Inr _ \<Rightarrow> (case rnd2 of Inl _ \<Rightarrow> replicate 32 0 | Inr randID \<Rightarrow> randID))"

definition CreateChannel :: "prims \<Rightarrow> codecs \<Rightarrow> 's channel_store \<Rightarrow> bytes res \<Rightarrow> bytes res \<Rightarrow> u64 \<Rightarrow> string \<Rightarrow> string \<Rightarrow> GroupType \<Rightarrow>
    's ChannelService \<Rightarrow> ('s ChannelService, Channel) eff" where
  "CreateChannel P C S rnd1 rnd2 now name description channelType s =
     (if channelType \<noteq> PrivateChannel \<and> channelType \<noteq> PublicChannel then (s, Inl ErrInvalidChannelType)
      else
        let channelID = new_channel_id rnd1 rnd2;
            state0 = \<lparr>chn_ChannelID = channelID, chn_Name = name, chn_Description = description, chn_AvatarCID = '''',
              chn_Type = channelType, chn_OwnerPubkey = cv_identitySignPub s, chn_CreatedAt = now, chn_UpdatedAt = now,
              chn_LatestPostCID = [], chn_SubscriberCount = 0, chn_StateSignature = []\<rparr>
        in (case Channel_Sign P (c_channel C) (cv_identitySignPriv s) state0 of
              (state, Inl e) \<Rightarrow> (s, Inl (Wrap ''failed to sign channel state'' e))
            | (state, Inr _) \<Rightarrow> (case storeChannel S state s of
                (s1, Inl e) \<Rightarrow> (s1, Inl (Wrap ''failed to store channel'' e))
              | (s1, Inr _) \<Rightarrow>
                  let channelKey = hex_encode channelID;
                      s2 = s1\<lparr>cv_channels := gm_set channelKey state (cv_channels s1), cv_posts := gm_set channelKey [] (cv_posts s1)\<rparr>;
                      s3 = (if channelType = PublicChannel then s2\<lparr>cv_subscribers := gm_set channelKey [] (cv_subscribers s2)\<rparr> else s2)
                  in (s3, Inr state))))"

definition put_channel :: "string \<Rightarrow> Channel \<Rightarrow> 's ChannelService \<Rightarrow> 's ChannelService" where
  "put_channel k state s = s\<lparr>cv_channels := gm_set k state (cv_channels s)\<rparr>"

definition cache_post :: "string \<Rightarrow> Post \<Rightarrow> 's ChannelService \<Rightarrow> 's ChannelService" where
  "cache_post k post s =
     (let m = (case gm_get (cv_posts s) k of None \<Rightarrow> [] | Some m \<Rightarrow> m)
      in s\<lparr>cv_posts := gm_set k (gm_set (hex_encode (pst_PostID post)) post m) (cv_posts s)\<rparr>)"

definition CreatePost :: "prims \<Rightarrow> codecs \<Rightarrow> 's channel_store \<Rightarrow> bytes res \<Rightarrow> u64 \<Rightarrow> bytes \<Rightarrow> PostContent \<Rightarrow>
    's ChannelService \<Rightarrow> ('s ChannelService, Post) eff" where
  "CreatePost P C S rnd now channelID content s =
     (let k = hex_encode channelID
      in case gm_get (cv_channels s) k of
        None \<Rightarrow> (s, Inl ErrChannelNotFound)
      | Some state \<Rightarrow>
          if chn_Type state = PrivateChannel \<and> chn_OwnerPubkey state \<noteq> cv_identitySignPub s then (s, Inl ErrNotChannelOwner)
          else
            let postID = (case rnd of Inl _ \<Rightarrow> replicate 16 0 | Inr randID \<Rightarrow> randID)
            in (case Post_Sign P (c_post C) (cv_identitySignPriv s)
                  \<lparr>pst_PostID = postID, pst_ChannelID = channelID, pst_AuthorPubkey = cv_identitySignPub s, pst_Timestamp = now,
                   pst_Content = content, pst_PreviousPostCID = chn_LatestPostCID state, pst_Signature = []\<rparr> of
                (post, Inl e) \<Rightarrow> (s, Inl (Wrap ''failed to sign channel post'' e))
              | (post, Inr _) \<Rightarrow> (case storePost S post s of
                  (s1, Inl e) \<Rightarrow> (s1, Inl (Wrap ''failed to store channel post'' e))
                | (s1, Inr _) \<Rightarrow>
                    (case Channel_Sign P (c_channel C) (cv_identitySignPriv s) (state\<lparr>chn_LatestPostCID := postID, chn_UpdatedAt := now\<rparr>) of
                       (state1, Inl e) \<Rightarrow> (put_channel k state1 s1, Inl (Wrap ''failed to sign updated channel'' e))
                     | (state1, Inr _) \<Rightarrow> (case storeChannel S state1 (put_channel k state1 s1) of
                         (s2, Inl e) \<Rightarrow> (s2, Inl (Wrap ''failed to update channel'' e))
                       | (s2, Inr _) \<Rightarrow>
                           let s3 = cache_post k post s2
                           in (if chn_Type state1 = PublicChannel
                               then put_channel k (state1\<lparr>chn_SubscriberCount := chn_SubscriberCount state1 + 1\<rparr>) s3 else s3,
                               Inr post))))))"

text \<open>Sorting by exchange: position \<open>i\<close> is compared with every later position \<open>j\<close>.\<close>

definition sort_posts :: "Post list \<Rightarrow> Post list" where
  "sort_posts posts = exch_outer (\<lambda>p q. pst_Timestamp p < pst_Timestamp q) (length posts - 1) 0 posts"

definition GetPosts :: "bytes \<Rightarrow> int \<Rightarrow> int \<Rightarrow> 's ChannelService \<Rightarrow> Post list res" where
  "GetPosts channelID limit offset s =
     (case gm_get (cv_posts s) (hex_encode channelID) of
        None \<Rightarrow> Inr []
      | Some postsMap \<Rightarrow>
          let posts = sort_posts (map snd postsMap)
          in if offset \<ge> int (length posts) then Inr []
             else if offset < 0 then Inl (Panic ''slice bounds out of range'')
             else let posts2 = drop (nat offset) posts
                  in Inr (if limit > 0 \<and> int (length posts2) > limit then take (nat limit) posts2 else posts2))"

definition subscribers_of :: "string \<Rightarrow> 's ChannelService \<Rightarrow> (string, u64) gomap" where
  "subscribers_of k s = (case gm_get (cv_subscribers s) k of None \<Rightarrow> [] | Some m \<Rightarrow> m)"

definition Subscribe :: "'s channel_store \<Rightarrow> u64 \<Rightarrow> bytes \<Rightarrow> bytes \<Rightarrow> 's ChannelService \<Rightarrow> ('s ChannelService, unit) eff" where
  "Subscribe S now channelID subscriberPubkey s =
     (let k = hex_encode channelID
      in case gm_get (cv_channels s) k of
        None \<Rightarrow> (s, Inl ErrChannelNotFound)
      | Some state \<Rightarrow>
          if chn_Type state \<noteq> PublicChannel then (s, Inl ErrInvalidChannelType)
          else
            let subs = gm_set (hex_encode subscriberPubkey) now (subscribers_of k s);
                state1 = state\<lparr>chn_SubscriberCount := of_nat (gm_len subs)\<rparr>
            in storeChannel S state1 (put_channel k state1 (s\<lparr>cv_subscribers := gm_set k subs (cv_subscribers s)\<rparr>)))"

text \<open>Deleting from the nil map of a channel without subscribers changes nothing.\<close>

definition Unsubscribe :: "'s channel_store \<Rightarrow> bytes \<Rightarrow> bytes \<Rightarrow> 's ChannelService \<Rightarrow> ('s ChannelService, unit) eff" where
  "Unsubscribe S channelID subscriberPubkey s =
     (let k = hex_encode channelID
      in case gm_get (cv_channels s) k of
        None \<Rightarrow> (s, Inl ErrChannelNotFound)
      | Some state \<Rightarrow>
          let subs = gm_del (hex_encode subscriberPubkey) (subscribers_of k s);
              s1 = (case gm_get (cv_subscribers s) k of None \<Rightarrow> s | Some _ \<Rightarrow> s\<lparr>cv_subscribers := gm_set k subs (cv_subscribers s)\<rparr>);
              state1 = state\<lparr>chn_SubscriberCount := of_nat (gm_len subs)\<rparr>
          in storeChannel S state1 (put_channel k state1 s1))"

definition IsSubscribed :: "bytes \<Rightarrow> bytes \<Rightarrow> 's ChannelService \<Rightarrow> bool" where
  "IsSubscribed channelID subscriberPubkey s =
     (gm_get (subscribers_of (hex_encode channelID) s) (hex_encode subscriberPubkey) \<noteq> None)"

definition Service_GetChannel :: "bytes \<Rightarrow> 's ChannelService \<Rightarrow> Channel res" where
  "Service_GetChannel channelID s =
     (case gm_get (cv_channels s) (hex_encode channelID) of None \<Rightarrow> Inl ErrChannelNotFound | Some state \<Rightarrow> Inr state)"

definition Service_ListChannels :: "'s ChannelService \<Rightarrow> Channel list" where
  "Service_ListChannels s = map snd (cv_channels s)"

definition Service_DeleteChannel :: "'s channel_store \<Rightarrow> bytes \<Rightarrow> 's ChannelService \<Rightarrow> ('s ChannelService, unit) eff" where
  "Service_DeleteChannel S channelID s =
     (let k = hex_encode channelID
      in case gm_get (cv_channels s) k of
        None \<Rightarrow> (s, Inl ErrChannelNotFound)
      | Some state \<Rightarrow>
          if chn_OwnerPubkey state \<noteq> cv_identitySignPub s then (s, Inl ErrNotChannelOwner)
          else (case st_DeleteChannel S channelID (cv_storage s) of
              (d, Inl e) \<Rightarrow> (s\<lparr>cv_storage := d\<rparr>, Inl (Wrap ''failed to delete channel'' e))
            | (d, Inr _) \<Rightarrow> (s\<lparr>cv_storage := d, cv_channels := gm_del k (cv_channels s), cv_posts := gm_del k (cv_posts s),
                  cv_subscribers := gm_del k (cv_subscribers s)\<rparr>, Inr ())))"

text \<open>The random reader returns an error or as many bytes as it was asked for.\<close>

definition reads :: "nat \<Rightarrow> bytes res \<Rightarrow> bool" where
  "reads n r = (case r of Inl _ \<Rightarrow> True | Inr b \<Rightarrow> length b = n)"

inductive ch_step :: "prims \<Rightarrow> codecs \<Rightarrow> 's channel_store \<Rightarrow> 's ChannelService \<Rightarrow> 's ChannelService \<Rightarrow> bool"
  for P C S where
  create: "ch_step P C S s (fst (CreateChannel P C S rnd1 rnd2 now name description channelType s))"
    if "reads 32 rnd2"
| post: "ch_step P C S s (fst (CreatePost P C S rnd now channelID content s))" if "reads 16 rnd"
| subscribe: "ch_step P C S s (fst (Subscribe S now channelID pub s))"
| unsubscribe: "ch_step P C S s (fst (Unsubscribe S channelID pub s))"
| delete_channel: "ch_step P C S s (fst (Service_DeleteChannel S channelID s))"

section \<open>Sorting\<close>

interpretation newest: descending "\<lambda>p q. pst_Timestamp p < pst_Timestamp q" pst_Timestamp UNIV
  by unfold_locales simp

lemma sort_posts_correct:
  shows "sorted_wrt (\<lambda>p q. pst_Timestamp q \<le> pst_Timestamp p) (sort_posts posts)"
    and "mset (sort_posts posts) = mset posts"
  unfolding sort_posts_def by (rule newest.sorts) (simp_all add: exch_outer_mset)

section \<open>Conversion and signatures\<close>

lemma Channel_FromProto_ToProto [simp]: "ChannelStateFromProto (Channel_ToProto cs) = cs"
  by (simp add: ChannelStateFromProto_def Channel_ToProto_def)

lemma Channel_Serialize_unsigned [simp]: "Channel_Serialize K (cs\<lparr>chn_StateSignature := x\<rparr>) = Channel_Serialize K cs"
  by (simp add: Channel_Serialize_def Channel_ToProto_def)

lemma Post_Serialize_unsigned [simp]: "Post_Serialize K (cp\<lparr>pst_Signature := x\<rparr>) = Post_Serialize K cp"
  by (simp add: Post_Serialize_def Post_ToProto_def rbind_def split: sum.split)

lemma content_roundtrip: "content_to_proto c = Inr x \<Longrightarrow> content_to_proto (content_from_proto (Some x)) = Inr x"
  by (cases c) (auto simp: text_content_def split: sum.splits)

lemma Post_ToProto_back: "Post_ToProto cp = Inr p \<Longrightarrow> Post_ToProto (ChannelPostFromProto p) = Inr p"
  by (auto simp: Post_ToProto_def ChannelPostFromProto_def rbind_Inr_iff content_roundtrip)

lemma Post_Verify_proto:
  assumes "Post_ToProto cp = Inr p"
  shows "Post_Verify P K k (ChannelPostFromProto p) = Post_Verify P K k cp"
proof -
  have "pst_Signature (ChannelPostFromProto p) = pst_Signature cp"
    using assms by (auto simp: Post_ToProto_def ChannelPostFromProto_def rbind_Inr_iff)
  then show ?thesis by (simp add: Post_Verify_def Post_Serialize_def assms Post_ToProto_back[OF assms] cong: sum.case_cong)
qed

lemma signed_verifies:
  assumes "sig_correct P" "length sk = 64"
  obtains sig where "ed25519_Sign P sk m = Inr sig" "ed25519_Verify P (ed_public P sk) m sig = Inr True" "sig \<noteq> []"
  using ed25519_Verify_Sign[OF assms, of m] that by force

lemma Channel_Sign_ok:
  assumes "sig_correct P" "length sk = 64" "codec_ok K"
  obtains sig where "Channel_Sign P K sk cs = (cs\<lparr>chn_StateSignature := sig\<rparr>, Inr ())"
    "Channel_Verify P K (ed_public P sk) (cs\<lparr>chn_StateSignature := sig\<rparr>) = Inr True"
proof -
  obtain data where data: "Channel_Serialize K cs = Inr data"
    using codec_okD[OF assms(3)] unfolding Channel_Serialize_def by blast
  obtain sig where "ed25519_Sign P sk data = Inr sig" "ed25519_Verify P (ed_public P sk) data sig = Inr True" "sig \<noteq> []"
    by (rule signed_verifies[OF assms(1,2)])
  then show ?thesis using data that by (simp add: Channel_Sign_def Channel_Verify_def)
qed

lemma Post_Sign_ok:
  assumes "sig_correct P" "length sk = 64" "codec_ok K" "content_to_proto (pst_Content cp) = Inr c"
  obtains sig where "Post_Sign P K sk cp = (cp\<lparr>pst_Signature := sig\<rparr>, Inr ())"
    "Post_Verify P K (ed_public P sk) (cp\<lparr>pst_Signature := sig\<rparr>) = Inr True"
proof -
  obtain data where data: "Post_Serialize K cp = Inr data"
    using codec_okD[OF assms(3)] assms(4) by (auto simp: Post_Serialize_def Post_ToProto_def)
  obtain sig where "ed25519_Sign P sk data = Inr sig" "ed25519_Verify P (ed_public P sk) data sig = Inr True" "sig \<noteq> []"
    by (rule signed_verifies[OF assms(1,2)])
  then show ?thesis using data that by (simp add: Post_Sign_def Post_Verify_def)
qed

section \<open>The interface of the store\<close>

text \<open>What the service relies on, for identifiers of at least eight bytes: saving and deleting succeed, a saved channel is
  loaded, and saving a post leaves the other channels alone.\<close>

locale channel_backend =
  fixes S :: "'s channel_store" and load :: "bytes \<Rightarrow> 's \<Rightarrow> ChannelState option" and ok :: "'s \<Rightarrow> bool"
  assumes save_channel: "ok d \<Longrightarrow> 8 \<le> length (ch_ChannelId c) \<Longrightarrow> \<exists>d'. st_SaveChannel S c d = (d', Inr ()) \<and> ok d' \<and>
      (\<forall>k. load k d' = (if k = ch_ChannelId c then Some c else load k d))"
    and save_post: "ok d \<Longrightarrow> 8 \<le> length (cp_ChannelId p) \<Longrightarrow> 8 \<le> length (cp_PostId p) \<Longrightarrow>
      \<exists>d'. st_SaveChannelPost S p d = (d', Inr ()) \<and> ok d' \<and> (\<forall>k. k \<noteq> cp_ChannelId p \<longrightarrow> load k d' = load k d)"
    and delete_channel: "ok d \<Longrightarrow> 8 \<le> length cid \<Longrightarrow>
      \<exists>d'. st_DeleteChannel S cid d = (d', Inr ()) \<and> ok d' \<and> (\<forall>k. load k d' = (if k = cid then None else load k d))"

definition channel_ok :: "(bytes \<Rightarrow> 's \<Rightarrow> ChannelState option) \<Rightarrow> 's ChannelService \<Rightarrow> string \<Rightarrow> Channel \<Rightarrow> bool" where
  "channel_ok load s k st \<longleftrightarrow> k = hex_encode (chn_ChannelID st) \<and> length (chn_ChannelID st) = 32 \<and>
     chn_OwnerPubkey st = cv_identitySignPub s \<and> (chn_Type st = PrivateChannel \<or> chn_Type st = PublicChannel) \<and>
     (\<exists>n. load (chn_ChannelID st) (cv_storage s) = Some (Channel_ToProto (st\<lparr>chn_SubscriberCount := n\<rparr>)))"

definition post_ok :: "prims \<Rightarrow> codecs \<Rightarrow> bytes \<Rightarrow> string \<Rightarrow> string \<Rightarrow> Post \<Rightarrow> bool" where
  "post_ok P C pub k i p \<longleftrightarrow> k = hex_encode (pst_ChannelID p) \<and> i = hex_encode (pst_PostID p) \<and> pst_AuthorPubkey p = pub \<and>
     Post_Verify P (c_post C) pub p = Inr True"

definition service_ok :: "prims \<Rightarrow> codecs \<Rightarrow> (bytes \<Rightarrow> 's \<Rightarrow> ChannelState option) \<Rightarrow> ('s \<Rightarrow> bool) \<Rightarrow> 's ChannelService \<Rightarrow> bool" where
  "service_ok P C load ok s \<longleftrightarrow> ok (cv_storage s) \<and> length (cv_identitySignPriv s) = 64 \<and>
     cv_identitySignPub s = ed_public P (cv_identitySignPriv s) \<and>
     (\<forall>k st. gm_get (cv_channels s) k = Some st \<longrightarrow> channel_ok load s k st \<and> gm_get (cv_posts s) k \<noteq> None) \<and>
     (\<forall>k m. gm_get (cv_posts s) k = Some m \<longrightarrow> gm_ok m \<and> (\<forall>i p. gm_get m i = Some p \<longrightarrow> post_ok P C (cv_identitySignPub s) k i p)) \<and>
     (\<forall>k. gm_get (cv_channels s) k = None \<longrightarrow> gm_get (cv_posts s) k = None \<and> gm_get (cv_subscribers s) k = None) \<and>
     (\<forall>k m. gm_get (cv_subscribers s) k = Some m \<longrightarrow> gm_ok m)"

lemma service_okD:
  assumes "service_ok P C load ok s"
  shows "ok (cv_storage s)" "length (cv_identitySignPriv s) = 64" "cv_identitySignPub s = ed_public P (cv_identitySignPriv s)"
    "gm_get (cv_channels s) k = Some st \<Longrightarrow> channel_ok load s k st"
    "gm_get (cv_channels s) k = Some st \<Longrightarrow> \<exists>m. gm_get (cv_posts s) k = Some m"
    "gm_get (cv_posts s) k = Some m \<Longrightarrow> gm_ok m" "gm_get (cv_posts s) k = Some m \<Longrightarrow> gm_get m i = Some p \<Longrightarrow> post_ok P C (cv_identitySignPub s) k i p"
    "gm_get (cv_channels s) k = None \<Longrightarrow> gm_get (cv_posts s) k = None"
    "gm_get (cv_channels s) k = None \<Longrightarrow> gm_get (cv_subscribers s) k = None" "gm_ok (subscribers_of k s)"
    "gm_get (cv_subscribers s) k = Some subs \<Longrightarrow> gm_ok subs"
  using assms by (auto simp: service_ok_def subscribers_of_def split: option.split)

lemma reads_length: "reads n rnd \<Longrightarrow> length (case rnd of Inl _ \<Rightarrow> replicate n 0 | Inr b \<Rightarrow> b) = n"
  by (auto simp: reads_def split: sum.splits)

lemma new_channel_id_length: "reads 32 rnd2 \<Longrightarrow> length (new_channel_id rnd1 rnd2) = 32"
  by (auto simp: new_channel_id_def reads_def split: sum.splits)

lemma put_channel_simps [simp]:
  "cv_storage (put_channel k st s) = cv_storage s" "cv_identitySignPub (put_channel k st s) = cv_identitySignPub s"
  "cv_identitySignPriv (put_channel k st s) = cv_identitySignPriv s" "cv_posts (put_channel k st s) = cv_posts s"
  "cv_subscribers (put_channel k st s) = cv_subscribers s"
  "gm_get (cv_channels (put_channel k st s)) k' = (if k' = k then Some st else gm_get (cv_channels s) k')"
  by (simp_all add: put_channel_def)

lemma cache_post_simps [simp]:
  "cv_storage (cache_post k p s) = cv_storage s" "cv_identitySignPub (cache_post k p s) = cv_identitySignPub s"
  "cv_identitySignPriv (cache_post k p s) = cv_identitySignPriv s" "cv_channels (cache_post k p s) = cv_channels s"
  "cv_subscribers (cache_post k p s) = cv_subscribers s"
  "gm_get (cv_posts (cache_post k p s)) k' =
     (if k' = k then Some (gm_set (hex_encode (pst_PostID p)) p (case gm_get (cv_posts s) k of None \<Rightarrow> [] | Some m \<Rightarrow> m)) else gm_get (cv_posts s) k')"
  by (simp_all add: cache_post_def Let_def)

lemma Channel_ToProto_id [simp]: "ch_ChannelId (Channel_ToProto st) = chn_ChannelID st"
  by (simp add: Channel_ToProto_def)

lemma subscribers_of_put [simp]: "subscribers_of k' (put_channel k st s) = subscribers_of k' s" "subscribers_of k' (cache_post k p s) = subscribers_of k' s"
  "subscribers_of k' (s\<lparr>cv_storage := d\<rparr>) = subscribers_of k' s"
  by (simp_all add: subscribers_of_def)

text \<open>An operation changes the entries of one channel only.\<close>

lemma service_ok_at:
  assumes inv: "service_ok P C load ok s" and keys: "cv_identitySignPub s' = cv_identitySignPub s" "cv_identitySignPriv s' = cv_identitySignPriv s"
    and store: "ok (cv_storage s')" "\<And>c. c \<noteq> cid \<Longrightarrow> load c (cv_storage s') = load c (cv_storage s)"
    and others: "\<And>k. k \<noteq> hex_encode cid \<Longrightarrow> gm_get (cv_channels s') k = gm_get (cv_channels s) k"
      "\<And>k. k \<noteq> hex_encode cid \<Longrightarrow> gm_get (cv_posts s') k = gm_get (cv_posts s) k"
      "\<And>k. k \<noteq> hex_encode cid \<Longrightarrow> gm_get (cv_subscribers s') k = gm_get (cv_subscribers s) k"
    and chan: "\<And>st. gm_get (cv_channels s') (hex_encode cid) = Some st \<Longrightarrow> channel_ok load s' (hex_encode cid) st \<and> gm_get (cv_posts s') (hex_encode cid) \<noteq> None"
    and gone: "gm_get (cv_channels s') (hex_encode cid) = None \<Longrightarrow> gm_get (cv_posts s') (hex_encode cid) = None \<and> gm_get (cv_subscribers s') (hex_encode cid) = None"
    and posts: "\<And>m. gm_get (cv_posts s') (hex_encode cid) = Some m \<Longrightarrow>
      gm_ok m \<and> (\<forall>i p. gm_get m i = Some p \<longrightarrow> post_ok P C (cv_identitySignPub s) (hex_encode cid) i p)"
    and subs: "\<And>m. gm_get (cv_subscribers s') (hex_encode cid) = Some m \<Longrightarrow> gm_ok m"
  shows "service_ok P C load ok s'"
proof -
  have "channel_ok load s' k st \<and> gm_get (cv_posts s') k \<noteq> None" if "gm_get (cv_channels s') k = Some st" for k st
  proof (cases "k = hex_encode cid")
    case True
    then show ?thesis using chan that by simp
  next
    case False
    then have st: "gm_get (cv_channels s) k = Some st" using that others(1) by simp
    have c: "channel_ok load s k st" by (rule service_okD(4)[OF inv st])
    then have "chn_ChannelID st \<noteq> cid" using False by (auto simp: channel_ok_def)
    then have "channel_ok load s' k st" using c False others(3) store(2) keys(1) by (auto simp: channel_ok_def subscribers_of_def)
    then show ?thesis using service_okD(5)[OF inv st] False others(2) by simp
  qed
  moreover have "gm_ok m \<and> (\<forall>i p. gm_get m i = Some p \<longrightarrow> post_ok P C (cv_identitySignPub s) k i p)" if "gm_get (cv_posts s') k = Some m" for k m
    using posts others(2) service_okD(6,7)[OF inv] that by (cases "k = hex_encode cid") simp_all
  moreover have "gm_get (cv_posts s') k = None \<and> gm_get (cv_subscribers s') k = None" if "gm_get (cv_channels s') k = None" for k
    using gone others service_okD(8,9)[OF inv] that by (cases "k = hex_encode cid") simp_all
  moreover have "gm_ok m" if "gm_get (cv_subscribers s') k = Some m" for k m
    using subs others(3) service_okD(10)[OF inv, of k] that by (cases "k = hex_encode cid") (simp_all add: subscribers_of_def)
  ultimately show ?thesis using service_okD(2,3)[OF inv] store(1) keys by (simp add: service_ok_def)
qed

definition posted :: "(bytes \<Rightarrow> 's \<Rightarrow> ChannelState option) \<Rightarrow> bytes \<Rightarrow> Channel \<Rightarrow> Channel \<Rightarrow> Post \<Rightarrow> 's ChannelService \<Rightarrow> 's ChannelService \<Rightarrow> bool" where
  "posted load cid st st' post s s' \<longleftrightarrow>
     pst_ChannelID post = cid \<and> pst_AuthorPubkey post = cv_identitySignPub s \<and> pst_PreviousPostCID post = chn_LatestPostCID st \<and>
     chn_LatestPostCID st' = pst_PostID post \<and> chn_ChannelID st' = chn_ChannelID st \<and> chn_Type st' = chn_Type st \<and>
     chn_OwnerPubkey st' = chn_OwnerPubkey st \<and>
     cv_identitySignPub s' = cv_identitySignPub s \<and> cv_identitySignPriv s' = cv_identitySignPriv s \<and> cv_subscribers s' = cv_subscribers s \<and>
     (\<forall>k. gm_get (cv_channels s') k = (if k = hex_encode cid then Some st' else gm_get (cv_channels s) k)) \<and>
     (\<forall>k. gm_get (cv_posts s') k = (if k = hex_encode cid
       then Some (gm_set (hex_encode (pst_PostID post)) post (case gm_get (cv_posts s) k of None \<Rightarrow> [] | Some m \<Rightarrow> m)) else gm_get (cv_posts s) k)) \<and>
     (\<exists>n. load cid (cv_storage s') = Some (Channel_ToProto (st'\<lparr>chn_SubscriberCount := n\<rparr>))) \<and>
     (\<forall>c. c \<noteq> cid \<longrightarrow> load c (cv_storage s') = load c (cv_storage s))"

context channel_backend
begin

lemma storeChannel_ok:
  assumes "ok (cv_storage s)" "length (chn_ChannelID st) = 32"
  obtains d where "storeChannel S st s = (s\<lparr>cv_storage := d\<rparr>, Inr ())" "ok d"
    "\<And>k. load k d = (if k = chn_ChannelID st then Some (Channel_ToProto st) else load k (cv_storage s))"
  using save_channel[of "cv_storage s" "Channel_ToProto st"] assms that by (auto simp: storeChannel_def)

lemma CreateChannel_ok:
  assumes inv: "service_ok P C load ok s" and laws: "codecs_ok C" "sig_correct P" and r: "reads 32 rnd2"
    and t: "channelType = PrivateChannel \<or> channelType = PublicChannel" 
  obtains s' st where "CreateChannel P C S rnd1 rnd2 now name description channelType s = (s', Inr st)" "service_ok P C load ok s'"
    "gm_get (cv_channels s') (hex_encode (new_channel_id rnd1 rnd2)) = Some st" "Channel_Verify P (c_channel C) (cv_identitySignPub s) st = Inr True"
    "load (new_channel_id rnd1 rnd2) (cv_storage s') = Some (Channel_ToProto st)" "chn_Type st = channelType"
proof -
  let ?id = "new_channel_id rnd1 rnd2"
  let ?st = "\<lparr>chn_ChannelID = ?id, chn_Name = name, chn_Description = description, chn_AvatarCID = '''',
              chn_Type = channelType, chn_OwnerPubkey = cv_identitySignPub s, chn_CreatedAt = now, chn_UpdatedAt = now,
              chn_LatestPostCID = [], chn_SubscriberCount = 0, chn_StateSignature = []\<rparr>"
  obtain sig where sig: "Channel_Sign P (c_channel C) (cv_identitySignPriv s) ?st = (?st\<lparr>chn_StateSignature := sig\<rparr>, Inr ())"
    "Channel_Verify P (c_channel C) (ed_public P (cv_identitySignPriv s)) (?st\<lparr>chn_StateSignature := sig\<rparr>) = Inr True"
    by (rule Channel_Sign_ok[OF laws(2) service_okD(2)[OF inv] codecs_okD(6)[OF laws(1)]])
  define st where "st = ?st\<lparr>chn_StateSignature := sig\<rparr>"
  have st: "chn_ChannelID st = ?id" "length (chn_ChannelID st) = 32" "chn_Type st = channelType" "chn_OwnerPubkey st = cv_identitySignPub s"
    "st\<lparr>chn_SubscriberCount := 0\<rparr> = st"
    using new_channel_id_length[OF r] by (simp_all add: st_def)
  obtain d where d: "storeChannel S st s = (s\<lparr>cv_storage := d\<rparr>, Inr ())" "ok d"
    "\<And>k. load k d = (if k = chn_ChannelID st then Some (Channel_ToProto st) else load k (cv_storage s))"
    by (rule storeChannel_ok[OF service_okD(1)[OF inv] st(2)]) blast
  let ?k = "hex_encode ?id"
  let ?s2 = "s\<lparr>cv_storage := d, cv_channels := gm_set ?k st (cv_channels s), cv_posts := gm_set ?k [] (cv_posts s)\<rparr>"
  let ?s3 = "if channelType = PublicChannel then ?s2\<lparr>cv_subscribers := gm_set ?k [] (cv_subscribers s)\<rparr> else ?s2"
  have res: "CreateChannel P C S rnd1 rnd2 now name description channelType s = (?s3, Inr st)"
    using t sig(1) d(1) by (auto simp: CreateChannel_def Let_def st_def)
  show ?thesis
  proof (rule that[OF res])
    show "service_ok P C load ok ?s3"
    proof (rule service_ok_at[OF inv, where cid = ?id])
      fix st' assume "gm_get (cv_channels ?s3) ?k = Some st'"
      then have "st' = st" by (simp split: if_splits)
      moreover have "load ?id d = Some (Channel_ToProto (st\<lparr>chn_SubscriberCount := 0\<rparr>))" using d(3) st(1,5) by simp
      moreover have "cv_identitySignPub ?s3 = cv_identitySignPub s" "cv_storage ?s3 = d" "gm_get (cv_posts ?s3) ?k = Some []" by simp_all
      ultimately show "channel_ok load ?s3 ?k st' \<and> gm_get (cv_posts ?s3) ?k \<noteq> None"
        using st(1-4) t unfolding channel_ok_def by auto
    qed (use d st(1) service_okD(11)[OF inv] in \<open>simp_all split: if_splits\<close>)
  qed (use sig(2) d(3) st(1) service_okD(3)[OF inv] in \<open>simp_all add: st_def\<close>)
qed

lemma CreatePost_refused:
  "gm_get (cv_channels s) (hex_encode cid) = None \<Longrightarrow> CreatePost P C S rnd now cid content s = (s, Inl ErrChannelNotFound)"
  by (simp add: CreatePost_def)

lemma CreatePost_unsupported:
  assumes "service_ok P C load ok s" "gm_get (cv_channels s) (hex_encode cid) = Some st" "content_to_proto content = Inl e"
  shows "CreatePost P C S rnd now cid content s = (s, Inl (Wrap ''failed to sign channel post'' (Wrap ''failed to serialize'' e)))"
  using assms service_okD(4)[OF assms(1,2)]
  by (simp add: CreatePost_def Let_def channel_ok_def Post_Sign_def Post_Serialize_def Post_ToProto_def)

text \<open>What a post that is accepted changes, \<open>posted\<close>, and that it keeps the service well-formed.\<close>

lemma CreatePost_run:
  assumes inv: "service_ok P C load ok s" and laws: "codecs_ok C" "sig_correct P" and r: "reads 16 rnd"
    and st: "gm_get (cv_channels s) (hex_encode cid) = Some st" and c: "content_to_proto content = Inr c"
  obtains s' post st' where "CreatePost P C S rnd now cid content s = (s', Inr post)" "posted load cid st st' post s s'"
    "ok (cv_storage s')" "Post_Verify P (c_post C) (cv_identitySignPub s) post = Inr True" "length cid = 32"
    "pst_Content post = content" "pst_Timestamp post = now" "pst_PostID post = (case rnd of Inl _ \<Rightarrow> replicate 16 0 | Inr b \<Rightarrow> b)"
proof -
  let ?k = "hex_encode cid" and ?sk = "cv_identitySignPriv s"
  note keys = service_okD(2,3)[OF inv]
  have ch: "chn_ChannelID st = cid" "length cid = 32" "chn_OwnerPubkey st = cv_identitySignPub s" "chn_Type st = PrivateChannel \<or> chn_Type st = PublicChannel"
    using service_okD(4)[OF inv st] by (auto simp: channel_ok_def)
  obtain pid where pid: "pid = (case rnd of Inl _ \<Rightarrow> replicate 16 0 | Inr b \<Rightarrow> b)" "length pid = 16" using reads_length[OF r] by blast
  let ?p0 = "\<lparr>pst_PostID = pid, pst_ChannelID = cid, pst_AuthorPubkey = cv_identitySignPub s, pst_Timestamp = now,
                   pst_Content = content, pst_PreviousPostCID = chn_LatestPostCID st, pst_Signature = []\<rparr>"
  have "content_to_proto (pst_Content ?p0) = Inr c" using c by simp
  then obtain sig where sig: "Post_Sign P (c_post C) ?sk ?p0 = (?p0\<lparr>pst_Signature := sig\<rparr>, Inr ())"
    "Post_Verify P (c_post C) (ed_public P ?sk) (?p0\<lparr>pst_Signature := sig\<rparr>) = Inr True"
    by (rule Post_Sign_ok[OF laws(2) keys(1) codecs_okD(7)[OF laws(1)]])
  define post where "post = ?p0\<lparr>pst_Signature := sig\<rparr>"
  have post: "pst_PostID post = pid" "pst_ChannelID post = cid" "pst_Content post = content" "pst_AuthorPubkey post = cv_identitySignPub s"
    "pst_Timestamp post = now" "pst_PreviousPostCID post = chn_LatestPostCID st"
    by (simp_all add: post_def)
  then obtain p where p: "Post_ToProto post = Inr p" "cp_ChannelId p = cid" "cp_PostId p = pid"
    using c by (auto simp: Post_ToProto_def)
  obtain d1 where d1: "st_SaveChannelPost S p (cv_storage s) = (d1, Inr ())" "ok d1" "\<And>k. k \<noteq> cid \<Longrightarrow> load k d1 = load k (cv_storage s)"
    using save_post[OF service_okD(1)[OF inv], of p] p ch(2) pid(2) by auto
  let ?st0 = "st\<lparr>chn_LatestPostCID := pid, chn_UpdatedAt := now\<rparr>"
  obtain sig1 where sig1: "Channel_Sign P (c_channel C) ?sk ?st0 = (?st0\<lparr>chn_StateSignature := sig1\<rparr>, Inr ())"
    by (rule Channel_Sign_ok[OF laws(2) keys(1) codecs_okD(6)[OF laws(1)]])
  define st1 where "st1 = ?st0\<lparr>chn_StateSignature := sig1\<rparr>"
  have st1: "chn_ChannelID st1 = cid" "chn_Type st1 = chn_Type st" "chn_OwnerPubkey st1 = cv_identitySignPub s" "chn_LatestPostCID st1 = pid"
    using ch by (simp_all add: st1_def)
  let ?s1 = "put_channel ?k st1 (s\<lparr>cv_storage := d1\<rparr>)"
  have "ok (cv_storage ?s1)" "length (chn_ChannelID st1) = 32" using d1(2) ch(2) st1(1) by simp_all
  then obtain d where d: "storeChannel S st1 ?s1 = (?s1\<lparr>cv_storage := d\<rparr>, Inr ())" "ok d"
    "\<And>k. load k d = (if k = chn_ChannelID st1 then Some (Channel_ToProto st1) else load k (cv_storage ?s1))"
    by (rule storeChannel_ok) blast
  note d = d(1,2) d(3)[unfolded st1(1) put_channel_simps(1), simplified]
  let ?s3 = "cache_post ?k post (?s1\<lparr>cv_storage := d\<rparr>)"
  define st2 where "st2 = (if chn_Type st = PublicChannel then st1\<lparr>chn_SubscriberCount := chn_SubscriberCount st1 + 1\<rparr> else st1)"
  define s4 where "s4 = (if chn_Type st = PublicChannel then put_channel ?k st2 ?s3 else ?s3)"
  have res: "CreatePost P C S rnd now cid content s = (s4, Inr post)"
    using st ch(3) sig(1)[folded post_def] p(1) d1(1) sig1[folded st1_def] d(1) st1(2)
    by (simp add: CreatePost_def Let_def pid(1)[symmetric] storePost_def s4_def st2_def)
  have st2: "st2\<lparr>chn_SubscriberCount := chn_SubscriberCount st1\<rparr> = st1" "chn_ChannelID st2 = cid" "chn_Type st2 = chn_Type st"
    "chn_OwnerPubkey st2 = cv_identitySignPub s" "chn_LatestPostCID st2 = pid"
    using st1 by (simp_all add: st2_def)
  have chans: "gm_get (cv_channels s4) k = (if k = ?k then Some st2 else gm_get (cv_channels s) k)" for k
    by (simp add: s4_def st2_def)
  have posts: "gm_get (cv_posts s4) k = (if k = ?k
       then Some (gm_set (hex_encode (pst_PostID post)) post (case gm_get (cv_posts s) k of None \<Rightarrow> [] | Some m \<Rightarrow> m)) else gm_get (cv_posts s) k)" for k
    by (simp add: s4_def)
  have rest: "cv_storage s4 = d" "cv_identitySignPub s4 = cv_identitySignPub s" "cv_identitySignPriv s4 = ?sk" "cv_subscribers s4 = cv_subscribers s"
    by (simp_all add: s4_def)
  have "load cid d = Some (Channel_ToProto (st2\<lparr>chn_SubscriberCount := chn_SubscriberCount st1\<rparr>))" unfolding st2(1) using d(3) by simp
  then have "posted load cid st st2 post s s4"
    using d(3) d1(3) st2(2-5) post ch(1,3) unfolding posted_def chans posts rest by (simp add: exI[of _ "chn_SubscriberCount st1"])
  then show ?thesis
    by (rule that[OF res]) (use rest d(2) sig(2) keys(2) ch(2) post pid(1) in \<open>simp_all add: post_def\<close>)
qed

lemma posted_ok:
  assumes inv: "service_ok P C load ok s" and st: "gm_get (cv_channels s) (hex_encode cid) = Some st"
    and p: "posted load cid st st' post s s'" and ok: "ok (cv_storage s')" "Post_Verify P (c_post C) (cv_identitySignPub s) post = Inr True"
  shows "service_ok P C load ok s'"
proof (rule service_ok_at[OF inv, where cid = cid])
  fix st'' assume "gm_get (cv_channels s') (hex_encode cid) = Some st''"
  then have "st'' = st'" using p by (simp add: posted_def)
  then show "channel_ok load s' (hex_encode cid) st'' \<and> gm_get (cv_posts s') (hex_encode cid) \<noteq> None"
    using p service_okD(4)[OF inv st] by (auto simp: posted_def channel_ok_def)
next
  fix m assume m: "gm_get (cv_posts s') (hex_encode cid) = Some m"
  have "post_ok P C (cv_identitySignPub s) (hex_encode cid) (hex_encode (pst_PostID post)) post"
    using ok(2) p by (simp add: post_ok_def posted_def)
  then show "gm_ok m \<and> (\<forall>i p. gm_get m i = Some p \<longrightarrow> post_ok P C (cv_identitySignPub s) (hex_encode cid) i p)"
    using m p service_okD(6,7)[OF inv] by (auto simp: posted_def split: option.splits if_splits)
next
  fix m assume "gm_get (cv_subscribers s') (hex_encode cid) = Some m"
  then show "gm_ok m" using p service_okD(11)[OF inv] by (simp add: posted_def)
qed (use p ok(1) in \<open>simp_all add: posted_def\<close>)

end

context channel_backend
begin

text \<open>Both subscription operations store a channel of which only the subscriber count has changed.\<close>

lemma counted_ok:
  assumes inv: "service_ok P C load ok s" and st: "gm_get (cv_channels s) (hex_encode cid) = Some st"
    and s1: "cv_storage s1 = cv_storage s" "cv_identitySignPub s1 = cv_identitySignPub s" "cv_identitySignPriv s1 = cv_identitySignPriv s"
      "cv_channels s1 = cv_channels s" "cv_posts s1 = cv_posts s"
      "\<And>k. k \<noteq> hex_encode cid \<Longrightarrow> gm_get (cv_subscribers s1) k = gm_get (cv_subscribers s) k"
      "\<And>m. gm_get (cv_subscribers s1) (hex_encode cid) = Some m \<Longrightarrow> gm_ok m"
  obtains d where "storeChannel S (st\<lparr>chn_SubscriberCount := n\<rparr>) (put_channel (hex_encode cid) (st\<lparr>chn_SubscriberCount := n\<rparr>) s1) =
      (put_channel (hex_encode cid) (st\<lparr>chn_SubscriberCount := n\<rparr>) s1\<lparr>cv_storage := d\<rparr>, Inr ())"
    "service_ok P C load ok (put_channel (hex_encode cid) (st\<lparr>chn_SubscriberCount := n\<rparr>) s1\<lparr>cv_storage := d\<rparr>)"
    "load cid d = Some (Channel_ToProto (st\<lparr>chn_SubscriberCount := n\<rparr>))"
proof -
  let ?st = "st\<lparr>chn_SubscriberCount := n\<rparr>"
  let ?s2 = "put_channel (hex_encode cid) ?st s1"
  have ch: "channel_ok load s (hex_encode cid) st" by (rule service_okD(4)[OF inv st])
  then have id: "chn_ChannelID ?st = cid" "length (chn_ChannelID ?st) = 32" by (auto simp: channel_ok_def)
  have "ok (cv_storage ?s2)" using service_okD(1)[OF inv] s1(1) by simp
  then obtain d where d: "storeChannel S ?st ?s2 = (?s2\<lparr>cv_storage := d\<rparr>, Inr ())" "ok d"
    "\<And>k. load k d = (if k = chn_ChannelID ?st then Some (Channel_ToProto ?st) else load k (cv_storage ?s2))"
    using id(2) by (rule storeChannel_ok) blast
  have ld: "load k d = (if k = cid then Some (Channel_ToProto (?st\<lparr>chn_SubscriberCount := n\<rparr>)) else load k (cv_storage s))" for k
    using d(3)[of k] id(1) s1(1) by simp
  have "service_ok P C load ok (?s2\<lparr>cv_storage := d\<rparr>)"
  proof (rule service_ok_at[OF inv, where cid = cid])
    fix st' assume "gm_get (cv_channels (?s2\<lparr>cv_storage := d\<rparr>)) (hex_encode cid) = Some st'"
    then have "st' = ?st" by simp
    moreover have "channel_ok load (?s2\<lparr>cv_storage := d\<rparr>) (hex_encode cid) ?st"
      using ch s1(2) id ld[of cid] unfolding channel_ok_def by (auto intro: exI[of _ n])
    ultimately show "channel_ok load (?s2\<lparr>cv_storage := d\<rparr>) (hex_encode cid) st' \<and> gm_get (cv_posts (?s2\<lparr>cv_storage := d\<rparr>)) (hex_encode cid) \<noteq> None"
      using service_okD(5)[OF inv st] s1(5) by simp
  next
    fix m assume "gm_get (cv_posts (?s2\<lparr>cv_storage := d\<rparr>)) (hex_encode cid) = Some m"
    then show "gm_ok m \<and> (\<forall>i p. gm_get m i = Some p \<longrightarrow> post_ok P C (cv_identitySignPub s) (hex_encode cid) i p)"
      using service_okD(6,7)[OF inv] s1(5) by simp
  qed (use d(2) s1 ld in simp_all)
  then show ?thesis using that[of d] d(1) ld[of cid] by simp
qed

lemma Subscribe_ok:
  assumes inv: "service_ok P C load ok s" and st: "gm_get (cv_channels s) (hex_encode cid) = Some st" and t: "chn_Type st = PublicChannel"
  obtains s' st' where "Subscribe S now cid pub s = (s', Inr ())" "service_ok P C load ok s'"
    "\<And>c. subscribers_of (hex_encode c) s' = (if c = cid then gm_set (hex_encode pub) now (subscribers_of (hex_encode cid) s) else subscribers_of (hex_encode c) s)"
    "gm_get (cv_channels s') (hex_encode cid) = Some st'" "chn_SubscriberCount st' = of_nat (gm_len (subscribers_of (hex_encode cid) s'))"
    "load cid (cv_storage s') = Some (Channel_ToProto st')"
proof -
  let ?subs = "gm_set (hex_encode pub) now (subscribers_of (hex_encode cid) s)"
  let ?s1 = "s\<lparr>cv_subscribers := gm_set (hex_encode cid) ?subs (cv_subscribers s)\<rparr>"
  let ?st = "st\<lparr>chn_SubscriberCount := of_nat (gm_len ?subs)\<rparr>"
  obtain d where d: "storeChannel S ?st (put_channel (hex_encode cid) ?st ?s1) = (put_channel (hex_encode cid) ?st ?s1\<lparr>cv_storage := d\<rparr>, Inr ())"
    "service_ok P C load ok (put_channel (hex_encode cid) ?st ?s1\<lparr>cv_storage := d\<rparr>)" "load cid d = Some (Channel_ToProto ?st)"
    by (rule counted_ok[OF inv st, of ?s1 "of_nat (gm_len ?subs)"]) (use service_okD(10)[OF inv, of "hex_encode cid"] in auto)
  show ?thesis
    by (rule that[of "put_channel (hex_encode cid) ?st ?s1\<lparr>cv_storage := d\<rparr>" ?st])
      (use d st t in \<open>simp_all add: Subscribe_def Let_def subscribers_of_def\<close>)
qed

lemma Unsubscribe_ok:
  assumes inv: "service_ok P C load ok s" and st: "gm_get (cv_channels s) (hex_encode cid) = Some st"
  obtains s' st' where "Unsubscribe S cid pub s = (s', Inr ())" "service_ok P C load ok s'"
    "\<And>c. subscribers_of (hex_encode c) s' = (if c = cid then gm_del (hex_encode pub) (subscribers_of (hex_encode cid) s) else subscribers_of (hex_encode c) s)"
    "gm_get (cv_channels s') (hex_encode cid) = Some st'" "chn_SubscriberCount st' = of_nat (gm_len (subscribers_of (hex_encode cid) s'))"
    "load cid (cv_storage s') = Some (Channel_ToProto st')"
proof -
  let ?subs = "gm_del (hex_encode pub) (subscribers_of (hex_encode cid) s)"
  let ?s1 = "case gm_get (cv_subscribers s) (hex_encode cid) of None \<Rightarrow> s | Some _ \<Rightarrow> s\<lparr>cv_subscribers := gm_set (hex_encode cid) ?subs (cv_subscribers s)\<rparr>"
  let ?st = "st\<lparr>chn_SubscriberCount := of_nat (gm_len ?subs)\<rparr>"
  have s1: "cv_storage ?s1 = cv_storage s" "cv_identitySignPub ?s1 = cv_identitySignPub s" "cv_identitySignPriv ?s1 = cv_identitySignPriv s"
      "cv_channels ?s1 = cv_channels s" "cv_posts ?s1 = cv_posts s"
      "\<And>k. k \<noteq> hex_encode cid \<Longrightarrow> gm_get (cv_subscribers ?s1) k = gm_get (cv_subscribers s) k"
      "\<And>m. gm_get (cv_subscribers ?s1) (hex_encode cid) = Some m \<Longrightarrow> gm_ok m"
    using service_okD(10)[OF inv, of "hex_encode cid"] by (auto split: option.splits)
  have subs: "subscribers_of (hex_encode c) ?s1 = (if c = cid then ?subs else subscribers_of (hex_encode c) s)" for c
    by (auto simp: subscribers_of_def gm_del_def split: option.split)
  obtain d where d: "storeChannel S ?st (put_channel (hex_encode cid) ?st ?s1) = (put_channel (hex_encode cid) ?st ?s1\<lparr>cv_storage := d\<rparr>, Inr ())"
    "service_ok P C load ok (put_channel (hex_encode cid) ?st ?s1\<lparr>cv_storage := d\<rparr>)" "load cid d = Some (Channel_ToProto ?st)"
    by (rule counted_ok[OF inv st s1])
  show ?thesis
    by (rule that[of "put_channel (hex_encode cid) ?st ?s1\<lparr>cv_storage := d\<rparr>" ?st])
      (use d st in \<open>simp_all add: Unsubscribe_def Let_def subs\<close>)
qed

lemma DeleteChannel_ok:
  assumes inv: "service_ok P C load ok s" and st: "gm_get (cv_channels s) (hex_encode cid) = Some st"
  obtains s' where "Service_DeleteChannel S cid s = (s', Inr ())" "service_ok P C load ok s'"
    "\<And>c. gm_get (cv_channels s') (hex_encode c) = (if c = cid then None else gm_get (cv_channels s) (hex_encode c))"
    "\<And>c. load c (cv_storage s') = (if c = cid then None else load c (cv_storage s))"
proof -
  have ch: "length cid = 32" "chn_OwnerPubkey st = cv_identitySignPub s" using service_okD(4)[OF inv st] by (auto simp: channel_ok_def)
  obtain d where d: "st_DeleteChannel S cid (cv_storage s) = (d, Inr ())" "ok d" "\<And>k. load k d = (if k = cid then None else load k (cv_storage s))"
    using delete_channel[OF service_okD(1)[OF inv], of cid] ch(1) by auto
  let ?k = "hex_encode cid"
  let ?s' = "s\<lparr>cv_storage := d, cv_channels := gm_del ?k (cv_channels s), cv_posts := gm_del ?k (cv_posts s), cv_subscribers := gm_del ?k (cv_subscribers s)\<rparr>"
  have "service_ok P C load ok ?s'" by (rule service_ok_at[OF inv, where cid = cid]) (use d in simp_all)
  then show ?thesis using that[of ?s'] d st ch(2) by (simp add: Service_DeleteChannel_def Let_def)
qed

end

text \<open>Both stores satisfy the interface, each through its refinement of the abstract slots.\<close>

definition slot_channel :: "slots \<Rightarrow> bytes \<Rightarrow> ChannelState option" where
  "slot_channel m c = (case m (SChannel c) of Some (VChannel v) \<Rightarrow> Some v | _ \<Rightarrow> None)"

lemma slot_channel_ops:
  "slot_channel (slot_op (OSaveChannel c) m) k = (if k = ch_ChannelId c then Some c else slot_channel m k)"
  "slot_channel (slot_op (ODeleteChannel cid) m) k = (if k = cid then None else slot_channel m k)"
  "k \<noteq> cp_ChannelId p \<Longrightarrow> slot_channel (slot_op (OSaveChannelPost p) m) k = slot_channel m k"
  by (auto simp: slot_channel_def Let_def split: option.splits store_val.splits)

definition mem_channel_store :: "MemoryStorage channel_store" where
  "mem_channel_store = \<lparr>st_SaveChannel = SaveChannel, st_SaveChannelPost = SaveChannelPost,
     st_DeleteChannel = (\<lambda>c s. (DeleteChannel c s, Inr ()))\<rparr>"

definition badger_channel_store :: "'d badger \<Rightarrow> codecs \<Rightarrow> 'd channel_store" where
  "badger_channel_store B C = \<lparr>st_SaveChannel = Badger_SaveChannel B C, st_SaveChannelPost = Badger_SaveChannelPost B C,
     st_DeleteChannel = Badger_DeleteChannel B\<rparr>"

lemma channel_view_slot: "channel_view c s = slot_channel (mem_slot s) c"
  by (simp add: slot_channel_def split: option.split)

interpretation mem_channels: channel_backend mem_channel_store channel_view mem_ok
proof unfold_locales
  fix d c p cid assume ok: "mem_ok d"
  then obtain m q where m: "ms_channels d = Some m" "ms_channelPosts d = Some q" by (auto simp: mem_ok_def split: option.splits)
  have step: "channel_view k (mem_exec op d) = slot_channel (slot_op op (mem_slot d)) k" for k op
    unfolding channel_view_slot mem_slot_step[OF ok] ..
  have "snd (SaveChannel c d) = Inr ()" "snd (SaveChannelPost p d) = Inr ()"
    using m by (simp_all add: SaveChannel_def SaveChannelPost_def Let_def nm_get_def split: option.split)
  then have eq: "SaveChannel c d = (fst (SaveChannel c d), Inr ())" "SaveChannelPost p d = (fst (SaveChannelPost p d), Inr ())"
    by (simp_all add: prod_eq_iff)
  note sel = mem_channel_store_def channel_store.select_convs
  show "\<exists>d'. st_SaveChannel mem_channel_store c d = (d', Inr ()) \<and> mem_ok d' \<and> (\<forall>k. channel_view k d' = (if k = ch_ChannelId c then Some c else channel_view k d))"
    using eq(1) mem_ok_simple(13)[OF ok] step[of _ "OSaveChannel c", unfolded slot_channel_ops channel_view_slot[symmetric]]
    unfolding sel by (intro exI[of _ "fst (SaveChannel c d)"]) simp
  show "\<exists>d'. st_SaveChannelPost mem_channel_store p d = (d', Inr ()) \<and> mem_ok d' \<and> (\<forall>k. k \<noteq> cp_ChannelId p \<longrightarrow> channel_view k d' = channel_view k d)"
    using eq(2) mem_ok_SaveChannelPost[OF ok] step[of _ "OSaveChannelPost p"] slot_channel_ops(3)[of _ p "mem_slot d", unfolded channel_view_slot[symmetric]]
    unfolding sel by (intro exI[of _ "fst (SaveChannelPost p d)"]) (simp del: slot_op.simps)
  show "\<exists>d'. st_DeleteChannel mem_channel_store cid d = (d', Inr ()) \<and> mem_ok d' \<and> (\<forall>k. channel_view k d' = (if k = cid then None else channel_view k d))"
    using mem_ok_simple(14)[OF ok] step[of _ "ODeleteChannel cid", unfolded slot_channel_ops channel_view_slot[symmetric]]
    unfolding sel by (intro exI[of _ "DeleteChannel cid d"]) simp
qed

definition badger_channel :: "'d badger \<Rightarrow> codecs \<Rightarrow> bytes \<Rightarrow> 'd \<Rightarrow> ChannelState option" where
  "badger_channel B C c d = ok_opt (Badger_GetChannel B C c d)"

definition readable :: "('d \<Rightarrow> bytes \<Rightarrow> bytes option) \<Rightarrow> codecs \<Rightarrow> 'd \<Rightarrow> bool" where
  "readable view C d \<longleftrightarrow> (\<exists>m. db_rep view C d m)"

lemma badger_channel_slot:
  assumes "kv_ok B view" "db_rep view C d m"
  shows "badger_channel B C c d = slot_channel m c"
  using rep_slot[OF assms(2), of "SChannel c"]
  by (auto simp: badger_channel_def Badger_GetChannel_def load_msg_kv[OF assms(1)] slot_channel_def slot_ok_def ok_opt_def
      split: option.splits sum.splits)

lemma log8_success: "8 \<le> length i \<Longrightarrow> snd r = Inr () \<Longrightarrow> log8 i r = (fst r, Inr ())"
  by (cases r) (simp add: log8_def)

lemma badger_saves:
  assumes "kv_ok B view" "codecs_ok C"
  shows "8 \<le> length (ch_ChannelId c) \<Longrightarrow> snd (Badger_SaveChannel B C c d) = Inr ()"
    "8 \<le> length (cp_ChannelId p) \<Longrightarrow> 8 \<le> length (cp_PostId p) \<Longrightarrow> snd (Badger_SaveChannelPost B C p d) = Inr ()"
    "8 \<le> length cid \<Longrightarrow> snd (Badger_DeleteChannel B cid d) = Inr ()"
proof -
  show "snd (Badger_SaveChannel B C c d) = Inr ()" if "8 \<le> length (ch_ChannelId c)"
    unfolding Badger_SaveChannel_def
    by (subst log8_success[OF that]) (use store_msg_view[OF assms(1) codecs_okD(6)[OF assms(2)]] in blast, simp)
  obtain b where "marshal (c_post C) p = Inr b" by (rule codec_ok_marshal[OF codecs_okD(7)[OF assms(2)]])
  then show "snd (Badger_SaveChannelPost B C p d) = Inr ()" if "8 \<le> length (cp_ChannelId p)" "8 \<le> length (cp_PostId p)"
    using that by (simp add: Badger_SaveChannelPost_def Let_def log8_success kv_update[OF assms(1)])
  show "snd (Badger_DeleteChannel B cid d) = Inr ()" if "8 \<le> length cid"
    unfolding Badger_DeleteChannel_def by (subst log8_success[OF that]) (simp_all add: kv_update[OF assms(1)])
qed

lemma badger_backend:
  assumes laws: "kv_ok B view" "codecs_ok C"
  shows "channel_backend (badger_channel_store B C) (badger_channel B C) (readable view C)"
proof
  fix d c p cid assume "readable view C d"
  then obtain m where m: "db_rep view C d m" by (auto simp: readable_def)
  have step: "readable view C (fst (Badger_exec B C 0 op d)) \<and> badger_channel B C k (fst (Badger_exec B C 0 op d)) = slot_channel (slot_op op m) k" for k op
    using rep_step[OF laws m, of 0 op] badger_channel_slot[OF laws(1)] by (auto simp: readable_def)
  note now = badger_channel_slot[OF laws(1) m]
  show "\<exists>d'. st_SaveChannel (badger_channel_store B C) c d = (d', Inr ()) \<and> readable view C d' \<and>
      (\<forall>k. badger_channel B C k d' = (if k = ch_ChannelId c then Some c else badger_channel B C k d))" if "8 \<le> length (ch_ChannelId c)"
    using badger_saves(1)[OF laws that, of d] step[of "OSaveChannel c"]
    by (intro exI[of _ "fst (Badger_SaveChannel B C c d)"])
      (simp add: badger_channel_store_def now slot_channel_ops(1) prod_eq_iff del: slot_op.simps)
  show "\<exists>d'. st_SaveChannelPost (badger_channel_store B C) p d = (d', Inr ()) \<and> readable view C d' \<and>
      (\<forall>k. k \<noteq> cp_ChannelId p \<longrightarrow> badger_channel B C k d' = badger_channel B C k d)" if "8 \<le> length (cp_ChannelId p)" "8 \<le> length (cp_PostId p)"
    using badger_saves(2)[OF laws that, of d] step[of "OSaveChannelPost p"]
    by (intro exI[of _ "fst (Badger_SaveChannelPost B C p d)"])
      (simp add: badger_channel_store_def now slot_channel_ops(3) prod_eq_iff del: slot_op.simps)
  show "\<exists>d'. st_DeleteChannel (badger_channel_store B C) cid d = (d', Inr ()) \<and> readable view C d' \<and>
      (\<forall>k. badger_channel B C k d' = (if k = cid then None else badger_channel B C k d))" if "8 \<le> length cid"
    using badger_saves(3)[OF laws that, of d] step[of "ODeleteChannel cid"]
    by (intro exI[of _ "fst (Badger_DeleteChannel B cid d)"])
      (simp add: badger_channel_store_def now slot_channel_ops(2) prod_eq_iff del: slot_op.simps)
qed

section \<open>Reachable services\<close>

context channel_backend
begin

lemma CreateChannel_keeps:
  assumes "service_ok P C load ok s" "codecs_ok C" "sig_correct P" "reads 32 rnd2"
  shows "service_ok P C load ok (fst (CreateChannel P C S rnd1 rnd2 now name description t s))"
proof (cases "t = PrivateChannel \<or> t = PublicChannel")
  case True
  then show ?thesis by (rule CreateChannel_ok[OF assms, of t rnd1 now name description]) simp
next
  case False
  then show ?thesis using assms(1) by (simp add: CreateChannel_def)
qed

lemma CreatePost_keeps:
  assumes inv: "service_ok P C load ok s" and laws: "codecs_ok C" "sig_correct P" "reads 16 rnd"
  shows "service_ok P C load ok (fst (CreatePost P C S rnd now cid content s))"
    and "is_ok (snd (CreatePost P C S rnd now cid content s)) \<longleftrightarrow> gm_get (cv_channels s) (hex_encode cid) \<noteq> None \<and> is_ok (content_to_proto content)"
proof -
  have "service_ok P C load ok (fst (CreatePost P C S rnd now cid content s)) \<and>
    (is_ok (snd (CreatePost P C S rnd now cid content s)) \<longleftrightarrow> gm_get (cv_channels s) (hex_encode cid) \<noteq> None \<and> is_ok (content_to_proto content))"
  proof (cases "gm_get (cv_channels s) (hex_encode cid)")
    case None
    then show ?thesis using inv by (simp add: CreatePost_refused)
  next
    case (Some st)
    show ?thesis
    proof (cases "content_to_proto content")
      case (Inl e)
      then show ?thesis using CreatePost_unsupported[OF inv Some Inl] inv by simp
    next
      case (Inr c)
      show ?thesis
        by (rule CreatePost_run[OF inv laws Some Inr, of now]) (use posted_ok[OF inv Some] Some Inr in simp)
    qed
  qed
  then show "service_ok P C load ok (fst (CreatePost P C S rnd now cid content s))"
    "is_ok (snd (CreatePost P C S rnd now cid content s)) \<longleftrightarrow> gm_get (cv_channels s) (hex_encode cid) \<noteq> None \<and> is_ok (content_to_proto content)"
    by blast+
qed

lemma subscriptions_keep:
  assumes inv: "service_ok P C load ok s"
  shows "service_ok P C load ok (fst (Subscribe S now cid pub s))" "service_ok P C load ok (fst (Unsubscribe S cid pub s))"
    "service_ok P C load ok (fst (Service_DeleteChannel S cid s))"
proof -
  have "service_ok P C load ok (fst (Subscribe S now cid pub s)) \<and> service_ok P C load ok (fst (Unsubscribe S cid pub s)) \<and>
    service_ok P C load ok (fst (Service_DeleteChannel S cid s))"
  proof (cases "gm_get (cv_channels s) (hex_encode cid)")
    case None
    then show ?thesis using inv by (simp add: Subscribe_def Unsubscribe_def Service_DeleteChannel_def)
  next
    case (Some st)
    have "service_ok P C load ok (fst (Subscribe S now cid pub s))"
    proof (cases "chn_Type st = PublicChannel")
      case True
      then show ?thesis by (rule Subscribe_ok[OF inv Some, of now pub]) simp
    next
      case False
      then show ?thesis using inv Some by (simp add: Subscribe_def)
    qed
    moreover have "service_ok P C load ok (fst (Unsubscribe S cid pub s))" by (rule Unsubscribe_ok[OF inv Some, of pub]) simp
    moreover have "service_ok P C load ok (fst (Service_DeleteChannel S cid s))" by (rule DeleteChannel_ok[OF inv Some]) simp
    ultimately show ?thesis by blast
  qed
  then show "service_ok P C load ok (fst (Subscribe S now cid pub s))" "service_ok P C load ok (fst (Unsubscribe S cid pub s))"
    "service_ok P C load ok (fst (Service_DeleteChannel S cid s))" by blast+
qed

lemma reachable_ok:
  assumes laws: "codecs_ok C" "sig_correct P" and start: "ok d0" "length sk = 64"
    and run: "(ch_step P C S)\<^sup>*\<^sup>* (NewChannelService d0 (ed_public P sk) sk) s"
  shows "service_ok P C load ok s"
  using run
proof (induction rule: rtranclp_induct)
  case base
  then show ?case using start by (simp add: service_ok_def NewChannelService_def)
next
  case (step s s')
  from step.hyps(2) step.IH show ?case
    by (cases rule: ch_step.cases) (simp_all add: CreateChannel_keeps CreatePost_keeps(1) subscriptions_keep laws)
qed

lemma keys_constant: "ch_step P C S s s' \<Longrightarrow> cv_identitySignPub s' = cv_identitySignPub s"
  by (induction rule: ch_step.induct)
    (auto simp: CreateChannel_def CreatePost_def Subscribe_def Unsubscribe_def Service_DeleteChannel_def storeChannel_def storePost_def Let_def
      split: prod.splits option.splits sum.splits)

lemma reachable_pub: "(ch_step P C S)\<^sup>*\<^sup>* (NewChannelService d0 pub sk) s \<Longrightarrow> cv_identitySignPub s = pub"
  by (induction rule: rtranclp_induct) (simp_all add: keys_constant NewChannelService_def)

end

section \<open>The chain of posts\<close>

fun make_posts :: "prims \<Rightarrow> codecs \<Rightarrow> 's channel_store \<Rightarrow> bytes \<Rightarrow> (bytes res \<times> u64 \<times> PostContent) list \<Rightarrow> 's ChannelService \<Rightarrow>
    ('s ChannelService, Post list) eff" where
  "make_posts P C S cid [] s = (s, Inr [])"
| "make_posts P C S cid ((rnd, now, content) # xs) s =
     (case CreatePost P C S rnd now cid content s of
        (s1, Inl e) \<Rightarrow> (s1, Inl e)
      | (s1, Inr p) \<Rightarrow> (case make_posts P C S cid xs s1 of (s2, Inl e) \<Rightarrow> (s2, Inl e) | (s2, Inr ps) \<Rightarrow> (s2, Inr (p # ps))))"

text \<open>Following the links from a post identifier, at most \<open>n\<close> posts.\<close>

fun follow :: "(string, Post) gomap \<Rightarrow> nat \<Rightarrow> bytes \<Rightarrow> Post list" where
  "follow m 0 c = []"
| "follow m (Suc n) c = (case gm_get m (hex_encode c) of None \<Rightarrow> [] | Some p \<Rightarrow> p # follow m n (pst_PreviousPostCID p))"

lemma follow_extend:
  "length (follow m n c) = n \<Longrightarrow> follow m (n + k) c = follow m n c @ follow m k (if n = 0 then c else pst_PreviousPostCID (last (follow m n c)))"
proof (induction n arbitrary: c)
  case (Suc n)
  then obtain p where p: "gm_get m (hex_encode c) = Some p" "length (follow m n (pst_PreviousPostCID p)) = n"
    by (auto split: option.splits)
  then show ?case using Suc.IH[OF p(2)] by (cases n) auto
qed simp

context channel_backend
begin

lemma make_posts_chain:
  assumes laws: "codecs_ok C" "sig_correct P"
  shows "service_ok P C load ok s \<Longrightarrow> gm_get (cv_channels s) (hex_encode cid) = Some st \<Longrightarrow> gm_get (cv_posts s) (hex_encode cid) = Some m \<Longrightarrow>
    \<forall>(b, now, content)\<in>set xs. length b = 16 \<and> is_ok (content_to_proto content) \<Longrightarrow> distinct (map fst xs) \<Longrightarrow>
    \<exists>s' ps st' m'. make_posts P C S cid (map (apfst Inr) xs) s = (s', Inr ps) \<and> service_ok P C load ok s' \<and>
      gm_get (cv_channels s') (hex_encode cid) = Some st' \<and> gm_get (cv_posts s') (hex_encode cid) = Some m' \<and>
      map pst_Content ps = map (snd \<circ> snd) xs \<and> follow m' (length ps) (chn_LatestPostCID st') = rev ps \<and>
      (if ps = [] then chn_LatestPostCID st' else pst_PreviousPostCID (hd ps)) = chn_LatestPostCID st \<and>
      (\<forall>b. b \<notin> fst ` set xs \<longrightarrow> gm_get m' (hex_encode b) = gm_get m (hex_encode b))"
proof (induction xs arbitrary: s st m)
  case Nil
  then show ?case by simp
next
  case (Cons x xs)
  obtain b now content where x: "x = (b, now, content)" by (cases x)
  then obtain c where c: "content_to_proto content = Inr c" and b: "length b = 16" using Cons.prems(4) by (auto simp: is_ok_iff)
  have r: "reads 16 (Inr b)" using b by (simp add: reads_def)
  obtain s1 p st1 where p: "CreatePost P C S (Inr b) now cid content s = (s1, Inr p)" "posted load cid st st1 p s s1" "ok (cv_storage s1)"
    "Post_Verify P (c_post C) (cv_identitySignPub s) p = Inr True" "pst_Content p = content" "pst_PostID p = b"
    by (rule CreatePost_run[OF Cons.prems(1) laws r Cons.prems(2) c, of now]) auto
  have inv1: "service_ok P C load ok s1" by (rule posted_ok[OF Cons.prems(1,2) p(2-4)])
  define m1 where "m1 = gm_set (hex_encode b) p m"
  have s1: "gm_get (cv_channels s1) (hex_encode cid) = Some st1" "gm_get (cv_posts s1) (hex_encode cid) = Some m1"
    "chn_LatestPostCID st1 = b" "pst_PreviousPostCID p = chn_LatestPostCID st"
    using p(2,6) Cons.prems(3) by (simp_all add: posted_def m1_def)
  obtain s' ps st' m' where IH: "make_posts P C S cid (map (apfst Inr) xs) s1 = (s', Inr ps)" "service_ok P C load ok s'"
      "gm_get (cv_channels s') (hex_encode cid) = Some st'" "gm_get (cv_posts s') (hex_encode cid) = Some m'"
      "map pst_Content ps = map (snd \<circ> snd) xs" "follow m' (length ps) (chn_LatestPostCID st') = rev ps"
      "(if ps = [] then chn_LatestPostCID st' else pst_PreviousPostCID (hd ps)) = b"
      "\<forall>b. b \<notin> fst ` set xs \<longrightarrow> gm_get m' (hex_encode b) = gm_get m1 (hex_encode b)"
    using Cons.IH[OF inv1 s1(1,2)] Cons.prems(4,5) s1(3) by auto
  have "gm_get m' (hex_encode b) = Some p" using IH(8) Cons.prems(5) x by (auto simp: m1_def)
  then have "follow m' (length ps + 1) (chn_LatestPostCID st') = rev ps @ [p]"
    using follow_extend[of m' "length ps" "chn_LatestPostCID st'" 1] IH(6,7) by (auto simp: last_rev split: if_splits)
  then have f: "follow m' (length (p # ps)) (chn_LatestPostCID st') = rev (p # ps)" by simp
  have e: "gm_get m' (hex_encode b') = gm_get m (hex_encode b')" if "b' \<notin> fst ` set (x # xs)" for b'
    using IH(8) that x by (auto simp: m1_def)
  show ?case
    using p(1,5) IH(1-5) s1(4) f e x by (intro exI[of _ s'] exI[of _ "p # ps"] exI[of _ st'] exI[of _ m']) simp
qed

end

lemma codec_ok_eq: "codec_ok K \<Longrightarrow> marshal K a = marshal K b \<longleftrightarrow> a = b"
  by (metis codec_okD codec_unmarshal_marshal sum.inject(2))

lemma GetChannel_iff: "Service_GetChannel cid s = Inr st \<longleftrightarrow> gm_get (cv_channels s) (hex_encode cid) = Some st"
  by (simp add: Service_GetChannel_def split: option.split)

lemma GetPosts_from:
  assumes "GetPosts cid limit offset s = Inr posts" "p \<in> set posts"
  obtains m where "gm_get (cv_posts s) (hex_encode cid) = Some m" "p \<in> snd ` set m"
proof -
  obtain m where m: "gm_get (cv_posts s) (hex_encode cid) = Some m" using assms by (auto simp: GetPosts_def split: option.splits)
  have "set posts \<subseteq> set (sort_posts (map snd m))"
    using assms(1) by (auto simp: GetPosts_def m Let_def split: if_splits dest: in_set_takeD in_set_dropD)
  then show ?thesis using that[OF m] assms(2) mset_eq_setD[OF sort_posts_correct(2), of "map snd m"] by auto
qed

section \<open>A concrete service\<close>

definition example_channels :: "(bytes, bytes) gomap ChannelService" where
  "example_channels = fst (CreateChannel toy ref_codecs (badger_channel_store alist_db ref_codecs) (Inr []) (Inr (replicate 32 1)) 5 ''news'' ''''
     PublicChannel (NewChannelService [] (ed_public toy (replicate 64 0)) (replicate 64 0)))"

lemma example_start: "readable map_of ref_codecs []" "length (replicate 64 (0 :: byte)) = 64"
  by (auto simp: readable_def db_rep_def intro: exI[of _ "\<lambda>_. None"])

lemma example_run: "(ch_step toy ref_codecs (badger_channel_store alist_db ref_codecs))\<^sup>*\<^sup>*
    (NewChannelService [] (ed_public toy (replicate 64 0)) (replicate 64 0)) example_channels"
  unfolding example_channels_def by (rule r_into_rtranclp, rule ch_step.create) (simp add: reads_def)

lemma example_channel: "\<exists>st. Service_GetChannel (replicate 32 1) example_channels = Inr st \<and> chn_Type st = PublicChannel"
proof -
  have inv: "service_ok toy ref_codecs (badger_channel alist_db ref_codecs) (readable map_of ref_codecs)
      (NewChannelService [] (ed_public toy (replicate 64 0)) (replicate 64 0))"
    by (rule channel_backend.reachable_ok[OF badger_backend[OF alist_db_ok ref_codecs_ok] ref_codecs_ok toy_sig example_start]) simp
  show ?thesis
    by (rule channel_backend.CreateChannel_ok[OF badger_backend[OF alist_db_ok ref_codecs_ok] inv ref_codecs_ok toy_sig,
          of "Inr (replicate 32 1)" PublicChannel "Inr []" 5 "''news''" "''''"])
      (auto simp: reads_def example_channels_def new_channel_id_def GetChannel_iff)
qed

lemmas example_laws = alist_db_ok ref_codecs_ok toy_sig example_start example_run

definition example_text :: "string \<Rightarrow> PostContent" where
  "example_text s = TextContent \<lparr>tm_Text = s, tm_Language = ''''\<rparr>"

definition example_post :: "byte \<Rightarrow> u64 \<Rightarrow> Post" where
  "example_post i t = \<lparr>pst_PostID = [i], pst_ChannelID = [7], pst_AuthorPubkey = [], pst_Timestamp = t, pst_Content = example_text ''hi'',
     pst_PreviousPostCID = [], pst_Signature = []\<rparr>"

section \<open>Properties\<close>



text \<open>Pages of posts: the posts of a channel are returned newest first, all of them and each once; an offset past the end gives no posts, a
  negative one panics, and otherwise the result is the page of at most \<open>limit\<close> posts at the offset, or all the rest without a positive limit.\<close>

theorem GetPosts_pages:
  assumes "gm_get (cv_posts s) (hex_encode cid) = Some m"
  shows "\<exists>l. sorted_wrt (\<lambda>p q. pst_Timestamp q \<le> pst_Timestamp p) l \<and> mset l = mset (map snd m) \<and>
    (\<forall>limit offset. GetPosts cid limit offset s =
       (if int (length m) \<le> offset then Inr []
        else if offset < 0 then Inl (Panic ''slice bounds out of range'')
        else Inr (if limit \<le> 0 then drop (nat offset) l else take (nat limit) (drop (nat offset) l))))"
proof (intro exI conjI allI)
  let ?l = "sort_posts (map snd m)"
  show "sorted_wrt (\<lambda>p q. pst_Timestamp q \<le> pst_Timestamp p) ?l" "mset ?l = mset (map snd m)" by (rule sort_posts_correct)+
  have "length ?l = length m" using mset_eq_length[OF sort_posts_correct(2), of "map snd m"] by simp
  then show "GetPosts cid limit offset s = (if int (length m) \<le> offset then Inr [] else if offset < 0 then Inl (Panic ''slice bounds out of range'')
      else Inr (if limit \<le> 0 then drop (nat offset) ?l else take (nat limit) (drop (nat offset) ?l)))" for limit offset
    by (auto simp: GetPosts_def assms Let_def)
qed

theorem GetPosts_pages_witness:
  "\<exists>l. mset l = {#example_post 1 10, example_post 2 20#} \<and> sorted_wrt (\<lambda>p q. pst_Timestamp q \<le> pst_Timestamp p) l \<and>
    GetPosts [7] 1 1 ((NewChannelService () [] [])\<lparr>cv_posts := [(''07'', [(''01'', example_post 1 10), (''02'', example_post 2 20)])]\<rparr>) =
      Inr (take 1 (drop 1 l))"
proof -
  let ?s = "(NewChannelService () [] [])\<lparr>cv_posts := [(''07'', [(''01'', example_post 1 10), (''02'', example_post 2 20)])]\<rparr>"
  have "gm_get (cv_posts ?s) (hex_encode [7]) = Some [(''01'', example_post 1 10), (''02'', example_post 2 20)]"
    by code_simp
  from GetPosts_pages[OF this] show ?thesis by auto
qed

text \<open>The posts of a channel form a chain. When posts with different identifiers are made in a channel of a reachable service, all succeed, and
  following the links from the latest post gives them back in reverse order, down to what was the latest post before.\<close>

theorem post_chain:
  assumes "kv_ok B view" "codecs_ok C" "sig_correct P" "readable view C d0" "length sk = 64"
    and run: "(ch_step P C (badger_channel_store B C))\<^sup>*\<^sup>* (NewChannelService d0 (ed_public P sk) sk) s"
    and "Service_GetChannel cid s = Inr st" "distinct (map fst xs)" "\<forall>(b, now, content)\<in>set xs. length b = 16 \<and> is_ok (content_to_proto content)"
  shows "\<exists>s' ps st' m. make_posts P C (badger_channel_store B C) cid (map (apfst Inr) xs) s = (s', Inr ps) \<and> map pst_Content ps = map (snd \<circ> snd) xs
    \<and> Service_GetChannel cid s' = Inr st' \<and> gm_get (cv_posts s') (hex_encode cid) = Some m
    \<and> follow m (length ps) (chn_LatestPostCID st') = rev ps
    \<and> (if ps = [] then chn_LatestPostCID st' else pst_PreviousPostCID (hd ps)) = chn_LatestPostCID st"
proof -
  note backend = badger_backend[OF assms(1,2)]
  have inv: "service_ok P C (badger_channel B C) (readable view C) s"
    by (rule channel_backend.reachable_ok[OF backend assms(2-5) run])
  have st: "gm_get (cv_channels s) (hex_encode cid) = Some st" using assms(7) by (simp add: GetChannel_iff)
  obtain m where m: "gm_get (cv_posts s) (hex_encode cid) = Some m" using service_okD(5)[OF inv st] by blast
  show ?thesis
    unfolding GetChannel_iff using channel_backend.make_posts_chain[OF backend assms(2,3) inv st m assms(9,8)] by blast
qed

theorem post_chain_witness:
  "\<exists>s' p q st' m. make_posts toy ref_codecs (badger_channel_store alist_db ref_codecs) (replicate 32 1)
      [(Inr (replicate 16 2), 6, example_text ''a''), (Inr (replicate 16 3), 7, example_text ''b'')] example_channels = (s', Inr [p, q]) \<and>
    Service_GetChannel (replicate 32 1) s' = Inr st' \<and> gm_get (cv_posts s') (hex_encode (replicate 32 1)) = Some m \<and>
    follow m 2 (chn_LatestPostCID st') = [q, p]"
proof -
  obtain st where st: "Service_GetChannel (replicate 32 1) example_channels = Inr st" using example_channel by blast
  let ?xs = "[(replicate 16 (2 :: byte), 6, example_text ''a''), (replicate 16 3, 7, example_text ''b'')]"
  have "distinct (map fst ?xs)" "\<forall>(b, now, content)\<in>set ?xs. length b = 16 \<and> is_ok (content_to_proto content)"
    by (simp_all add: example_text_def numeral_eq_Suc)
  from post_chain[OF example_laws st this] show ?thesis
    by (auto simp: numeral_2_eq_2 length_Suc_conv dest!: arg_cong[of "map pst_Content _" _ length])
qed

text \<open>Posts survive the wire: a signed post, marshalled, unmarshalled and converted back, still verifies and has the same fields; its content
  is the same for the four kinds of message, and a text message with the bytes or the JSON text for anything else.\<close>

theorem post_wire_roundtrip:
  assumes "sig_correct P" "length sk = 64" "codec_ok K" "is_ok (content_to_proto (pst_Content cp))"
  shows "\<exists>signed p data p' back. Post_Sign P K sk cp = (signed, Inr ()) \<and> Post_ToProto signed = Inr p \<and> marshal K p = Inr data
    \<and> unmarshal K data = Inr p' \<and> back = ChannelPostFromProto p' \<and> Post_Verify P K (ed_public P sk) back = Inr True
    \<and> back\<lparr>pst_Content := pst_Content cp\<rparr> = signed
    \<and> pst_Content back = (case pst_Content cp of RawContent b \<Rightarrow> TextContent \<lparr>tm_Text = bytes_str b, tm_Language = ''''\<rparr>
        | OtherContent (Inr b) \<Rightarrow> TextContent \<lparr>tm_Text = bytes_str b, tm_Language = ''''\<rparr> | c \<Rightarrow> c)"
proof -
  obtain c where c: "content_to_proto (pst_Content cp) = Inr c" using assms(4) by (auto simp: is_ok_iff)
  obtain sig where sig: "Post_Sign P K sk cp = (cp\<lparr>pst_Signature := sig\<rparr>, Inr ())" "Post_Verify P K (ed_public P sk) (cp\<lparr>pst_Signature := sig\<rparr>) = Inr True"
    by (rule Post_Sign_ok[OF assms(1-3) c])
  let ?signed = "cp\<lparr>pst_Signature := sig\<rparr>"
  obtain p where p: "Post_ToProto ?signed = Inr p" using c by (auto simp: Post_ToProto_def)
  obtain data where data: "marshal K p = Inr data" "unmarshal K data = Inr p" by (rule codec_ok_marshal[OF assms(3)])
  have "(ChannelPostFromProto p)\<lparr>pst_Content := pst_Content cp\<rparr> = ?signed" "pst_Content (ChannelPostFromProto p) = content_from_proto (Some c)"
    using p c by (auto simp: Post_ToProto_def ChannelPostFromProto_def)
  moreover have "content_from_proto (Some c) = (case pst_Content cp of RawContent b \<Rightarrow> TextContent \<lparr>tm_Text = bytes_str b, tm_Language = ''''\<rparr>
        | OtherContent (Inr b) \<Rightarrow> TextContent \<lparr>tm_Text = bytes_str b, tm_Language = ''''\<rparr> | c \<Rightarrow> c)"
    using c by (cases "pst_Content cp") (auto simp: text_content_def split: sum.splits)
  ultimately show ?thesis using sig data p Post_Verify_proto[OF p, of P K "ed_public P sk"] by metis
qed

theorem post_wire_roundtrip_witness:
  "\<exists>signed p data p'. Post_Sign toy (c_post ref_codecs) (replicate 64 0) (example_post 1 10) = (signed, Inr ()) \<and> Post_ToProto signed = Inr p \<and>
     marshal (c_post ref_codecs) p = Inr data \<and> unmarshal (c_post ref_codecs) data = Inr p' \<and>
     pst_Content (ChannelPostFromProto p') = example_text ''hi''"
  using post_wire_roundtrip[OF toy_sig, of "replicate 64 0" "c_post ref_codecs" "example_post 1 10"] codecs_okD(7)[OF ref_codecs_ok]
  by (auto simp: example_post_def example_text_def)

text \<open>Subscriptions: subscribing to a public channel of a reachable service makes exactly that key subscribed and the stored count the number of
  subscribers, unsubscribing undoes it. But neither signs the state again, and with another count the bytes to verify are not those that were signed.\<close>

theorem subscriptions_counted:
  assumes "kv_ok B view" "codecs_ok C" "sig_correct P" "readable view C d0" "length sk = 64"
    and run: "(ch_step P C (badger_channel_store B C))\<^sup>*\<^sup>* (NewChannelService d0 (ed_public P sk) sk) s"
    and st: "Service_GetChannel cid s = Inr st" "chn_Type st = PublicChannel"
  shows "\<exists>s' st'. Subscribe (badger_channel_store B C) now cid pub s = (s', Inr ()) \<and> Service_GetChannel cid s' = Inr st'
    \<and> (\<forall>c k. IsSubscribed c k s' \<longleftrightarrow> c = cid \<and> k = pub \<or> IsSubscribed c k s)
    \<and> chn_SubscriberCount st' = of_nat (card (gm_dom (subscribers_of (hex_encode cid) s')))
    \<and> Badger_GetChannel B C cid (cv_storage s') = Inr (Channel_ToProto st')
    \<and> (\<exists>s''. Unsubscribe (badger_channel_store B C) cid pub s' = (s'', Inr ()) \<and>
         (\<forall>c k. IsSubscribed c k s'' \<longleftrightarrow> (c, k) \<noteq> (cid, pub) \<and> IsSubscribed c k s'))
    \<and> (\<forall>n. n \<noteq> chn_SubscriberCount st \<longrightarrow> Channel_Serialize (c_channel C) (st\<lparr>chn_SubscriberCount := n\<rparr>) \<noteq> Channel_Serialize (c_channel C) st)"
proof -
  note backend = badger_backend[OF assms(1,2)]
  have inv: "service_ok P C (badger_channel B C) (readable view C) s"
    by (rule channel_backend.reachable_ok[OF backend assms(2-5) run])
  have st': "gm_get (cv_channels s) (hex_encode cid) = Some st" using st(1) by (simp add: GetChannel_iff)
  obtain s1 st1 where 1: "Subscribe (badger_channel_store B C) now cid pub s = (s1, Inr ())" "service_ok P C (badger_channel B C) (readable view C) s1"
    "\<And>c. subscribers_of (hex_encode c) s1 = (if c = cid then gm_set (hex_encode pub) now (subscribers_of (hex_encode cid) s) else subscribers_of (hex_encode c) s)"
    "gm_get (cv_channels s1) (hex_encode cid) = Some st1" "chn_SubscriberCount st1 = of_nat (gm_len (subscribers_of (hex_encode cid) s1))"
    "badger_channel B C cid (cv_storage s1) = Some (Channel_ToProto st1)"
    by (rule channel_backend.Subscribe_ok[OF backend inv st' st(2), of now pub]) blast
  obtain s2 where 2: "Unsubscribe (badger_channel_store B C) cid pub s1 = (s2, Inr ())"
    "\<And>c. subscribers_of (hex_encode c) s2 = (if c = cid then gm_del (hex_encode pub) (subscribers_of (hex_encode cid) s1) else subscribers_of (hex_encode c) s1)"
    by (rule channel_backend.Unsubscribe_ok[OF backend 1(2,4), of pub]) blast
  have inj: "Channel_Serialize (c_channel C) (st\<lparr>chn_SubscriberCount := n\<rparr>) \<noteq> Channel_Serialize (c_channel C) st" if "n \<noteq> chn_SubscriberCount st" for n
    using that codec_ok_eq[OF codecs_okD(6)[OF assms(2)]] by (simp add: Channel_Serialize_def Channel_ToProto_def)
  have "Badger_GetChannel B C cid (cv_storage s1) = Inr (Channel_ToProto st1)"
    using 1(6) by (auto simp: badger_channel_def ok_opt_def split: sum.splits)
  moreover have "gm_len (subscribers_of (hex_encode cid) s1) = card (gm_dom (subscribers_of (hex_encode cid) s1))"
    by (rule gm_len_card[OF service_okD(10)[OF 1(2)]])
  moreover have "IsSubscribed c k s1 \<longleftrightarrow> c = cid \<and> k = pub \<or> IsSubscribed c k s" "IsSubscribed c k s2 \<longleftrightarrow> (c, k) \<noteq> (cid, pub) \<and> IsSubscribed c k s1" for c k
    by (auto simp: IsSubscribed_def 1(3) 2(2))
  ultimately show ?thesis using 1(1,4,5) 2(1) inj unfolding GetChannel_iff by auto
qed

theorem subscriptions_counted_witness:
  "\<exists>s'. Subscribe (badger_channel_store alist_db ref_codecs) 9 (replicate 32 1) [4] example_channels = (s', Inr ()) \<and> IsSubscribed (replicate 32 1) [4] s'"
proof -
  obtain st where "Service_GetChannel (replicate 32 1) example_channels = Inr st" "chn_Type st = PublicChannel" using example_channel by blast
  from subscriptions_counted[OF example_laws this, of 9 "[4]"] show ?thesis by blast
qed

end
