(* ===== verification/GroupCall.thy ===== *)
theory GroupCall
  imports CallSession Identity "HOL-Library.Char_ord" "HOL-Library.List_Lexorder" "HOL-Library.Multiset"
begin

text \<open>
  \<open>pkg/rtc/groupcall.go\<close>: group calls. The manager keeps the open calls and its topic subscriptions. A
  participant is an object shared by the session and a running election, so a participant carries the
  address \<open>pi_ref\<close> it was allocated at. An election confirms its candidate five seconds later in a goroutine:
  the waiting ones are the list \<open>gc_pending\<close>. A confirmation for a call that has ended writes to an object
  the manager no longer holds and leaves the model unchanged. \<open>publishToGroupCallTopic\<close> only writes a log
  line; the callback setters store nothing. \<open>sort.Slice\<close> is stable sorting here, which differs from
  what Go allows only between participants with the same key.
\<close>

section \<open>Types\<close>

definition MeshTopologyMaxParticipants :: nat where "MeshTopologyMaxParticipants = 6"
definition SFUTopologyMinParticipants :: nat where "SFUTopologyMinParticipants = 7"
definition SFUTopologyMaxParticipants :: int where "SFUTopologyMaxParticipants = 25"

type_synonym GroupCallType = u32
type_synonym GroupCallState = u32
type_synonym ParticipantState = u32

definition GROUP_CALL_TYPE_MESH :: GroupCallType where "GROUP_CALL_TYPE_MESH = 0"
definition GROUP_CALL_TYPE_SFU :: GroupCallType where "GROUP_CALL_TYPE_SFU = 1"
definition GROUP_CALL_STATE_INITIATING :: GroupCallState where "GROUP_CALL_STATE_INITIATING = 1"
definition GROUP_CALL_STATE_ENDED :: GroupCallState where "GROUP_CALL_STATE_ENDED = 4"
definition PARTICIPANT_STATE_JOINING :: ParticipantState where "PARTICIPANT_STATE_JOINING = 0"

record ParticipantInfo =
  pi_ref :: nat
  pi_IdentityPubkey :: bytes
  pi_DeviceId :: bytes
  pi_DisplayName :: string
  pi_State :: ParticipantState
  pi_JoinedAt :: u64
  pi_IsSfu :: bool
  pi_IsOwner :: bool
  pi_Sdp :: string
  pi_IceCandidates :: "string list"
  pi_Ssrc :: u32

record BufferedMediaPacket =
  bp_SenderIdentity :: bytes
  bp_Payload :: bytes
  bp_SSRC :: u32
  bp_Timestamp :: u64
  bp_Sequence :: u32

record SFUState =
  sfu_forwardingTable :: "(string, bytes list) gomap"
  sfu_ssrcMap :: "(string, u32) gomap"
  sfu_packetBuffer :: "BufferedMediaPacket list"

record GroupCallSession =
  gcs_CallId :: string
  gcs_GroupId :: bytes
  gcs_CallType :: GroupCallType
  gcs_State :: GroupCallState
  gcs_OwnerIdentity :: bytes
  gcs_SfuIdentity :: bytes
  gcs_Participants :: "ParticipantInfo list"
  gcs_CreatedAt :: u64
  gcs_StartedAt :: u64
  gcs_EndedAt :: u64
  gcs_HangupReason :: string
  gcs_IsVideo :: bool
  gcs_MaxParticipants :: u64
  gcs_sfuState :: SFUState

record GroupCallJoin =
  gj_CallId :: string
  gj_ParticipantIdentity :: bytes
  gj_DeviceId :: bytes
  gj_DisplayName :: string
  gj_Timestamp :: u64
  gj_Signature :: bytes

record GroupCallLeave =
  gl_CallId :: string
  gl_ParticipantIdentity :: bytes
  gl_Reason :: string
  gl_Timestamp :: u64
  gl_Signature :: bytes

record GroupCallSFUElection =
  ge_CallId :: string
  ge_CandidateIdentity :: bytes
  ge_Timestamp :: u64
  ge_Signature :: bytes

record GroupCallStateUpdate =
  gsu_CallId :: string
  gsu_State :: GroupCallState
  gsu_Participants :: "ParticipantInfo list"
  gsu_CallType :: GroupCallType
  gsu_SfuIdentity :: bytes
  gsu_Timestamp :: u64
  gsu_Signature :: bytes

record gc_codecs =
  gk_join :: "GroupCallJoin codec"
  gk_leave :: "GroupCallLeave codec"
  gk_election :: "GroupCallSFUElection codec"
  gk_update :: "GroupCallStateUpdate codec"

record GroupCallConfig =
  gcc_AutoSwitchToSFU :: bool
  gcc_MaxParticipants :: int
  gcc_EnableVideo :: bool
  gcc_MediaBufferDuration :: int
  gcc_ParticipantInactivityTimeout :: int

definition DefaultGroupCallConfig :: GroupCallConfig where
  "DefaultGroupCallConfig = \<lparr>gcc_AutoSwitchToSFU = True, gcc_MaxParticipants = SFUTopologyMaxParticipants, gcc_EnableVideo = True,
     gcc_MediaBufferDuration = 5000000000, gcc_ParticipantInactivityTimeout = 30000000000\<rparr>"

text \<open>A subscription is its channel, open or closed.\<close>

datatype mockSubscription = Open_channel | Closed_channel

record GroupCallManager =
  gc_identity :: Identity_rec
  gc_calls :: "(string, GroupCallSession) gomap"
  gc_subscriptions :: "(string, mockSubscription) gomap"
  gc_config :: GroupCallConfig
  gc_next :: nat
  gc_pending :: "(string \<times> ParticipantInfo) list"
  gc_stopped :: bool

definition NewGroupCallManager :: "Identity_rec \<Rightarrow> GroupCallConfig option \<Rightarrow> GroupCallManager" where
  "NewGroupCallManager ident config = \<lparr>gc_identity = ident, gc_calls = [], gc_subscriptions = [],
     gc_config = (case config of None \<Rightarrow> DefaultGroupCallConfig | Some c \<Rightarrow> c), gc_next = 0, gc_pending = [], gc_stopped = False\<rparr>"

section \<open>Topics\<close>

definition deriveGroupCallTopic :: "prims \<Rightarrow> bytes \<Rightarrow> string" where
  "deriveGroupCallTopic P groupID = ''babylon-grpcall-'' @ hex_encode (take 8 (sha256 P groupID))"

definition GroupCall_computeDeviceID :: "prims \<Rightarrow> bytes \<Rightarrow> bytes" where
  "GroupCall_computeDeviceID P identityPubkey = take 16 (sha256 P identityPubkey)"

definition subscribeToGroupCallTopic :: "prims \<Rightarrow> bytes \<Rightarrow> GroupCallManager \<Rightarrow> GroupCallManager" where
  "subscribeToGroupCallTopic P groupID gcm =
     (let topic = deriveGroupCallTopic P groupID
      in case gm_get (gc_subscriptions gcm) topic of
           Some _ \<Rightarrow> gcm
         | None \<Rightarrow> gcm\<lparr>gc_subscriptions := gm_set topic Open_channel (gc_subscriptions gcm)\<rparr>)"

text \<open>Closing a closed channel panics.\<close>

definition Cancel :: "mockSubscription \<Rightarrow> mockSubscription res" where
  "Cancel sub = (case sub of Closed_channel \<Rightarrow> Inl (Panic ''close of closed channel'') | Open_channel \<Rightarrow> Inr Closed_channel)"

definition unsubscribeFromGroupCallTopic :: "prims \<Rightarrow> bytes \<Rightarrow> GroupCallManager \<Rightarrow> (GroupCallManager, unit) eff" where
  "unsubscribeFromGroupCallTopic P groupID gcm =
     (let topic = deriveGroupCallTopic P groupID
      in case gm_get (gc_subscriptions gcm) topic of
           None \<Rightarrow> (gcm, Inr ())
         | Some sub \<Rightarrow> (case Cancel sub of
             Inl e \<Rightarrow> (gcm, Inl e)
           | Inr _ \<Rightarrow> (gcm\<lparr>gc_subscriptions := gm_del topic (gc_subscriptions gcm)\<rparr>, Inr ())))"

definition publishToGroupCallTopic :: "bytes \<Rightarrow> 'm \<Rightarrow> unit res" where
  "publishToGroupCallTopic groupID message = Inr ()"

section \<open>Elections\<close>

definition put_call :: "GroupCallSession \<Rightarrow> GroupCallManager \<Rightarrow> GroupCallManager" where
  "put_call session gcm = gcm\<lparr>gc_calls := gm_set (gcs_CallId session) session (gc_calls gcm)\<rparr>"

text \<open>The first sixteen hexadecimal digits of a key, as the log lines print them.\<close>

definition hex16 :: "bytes \<Rightarrow> string res" where
  "hex16 b = (if length (hex_encode b) < 16 then Inl (Panic ''slice bounds out of range'') else Inr (take 16 (hex_encode b)))"

definition signed_by :: "prims \<Rightarrow> 'm codec \<Rightarrow> GroupCallManager \<Rightarrow> 'm \<Rightarrow> bytes res" where
  "signed_by P K gcm message = rbind (marshal K message) (Sign P (idn_Ed25519PrivKey (gc_identity gcm)))"

definition runSFUElection :: "prims \<Rightarrow> gc_codecs \<Rightarrow> u64 \<Rightarrow> GroupCallSession \<Rightarrow> GroupCallManager \<Rightarrow> (GroupCallManager, GroupCallSession) eff" where
  "runSFUElection P K now session gcm =
     (case sort_key (\<lambda>p. hex_encode (pi_IdentityPubkey p)) (gcs_Participants session) of
        [] \<Rightarrow> (gcm, Inr session)
      | candidate # rest \<Rightarrow>
          let session1 = session\<lparr>gcs_Participants := candidate # rest\<rparr>;
              gcm1 = put_call session1 gcm
          in case hex16 (pi_IdentityPubkey candidate) of
               Inl e \<Rightarrow> (gcm1, Inl e)
             | Inr _ \<Rightarrow>
                 let electionMsg = \<lparr>ge_CallId = gcs_CallId session1, ge_CandidateIdentity = pi_IdentityPubkey candidate, ge_Timestamp = now, ge_Signature = []\<rparr>
                 in case signed_by P (gk_election K) gcm electionMsg of
                      Inl _ \<Rightarrow> (gcm1, Inr session1)
                    | Inr signature \<Rightarrow> (case publishToGroupCallTopic (gcs_GroupId session1) (electionMsg\<lparr>ge_Signature := signature\<rparr>) of
                        Inl _ \<Rightarrow> (gcm1, Inr session1)
                      | Inr _ \<Rightarrow> (gcm1\<lparr>gc_pending := gc_pending gcm1 @ [(gcs_CallId session1, candidate)]\<rparr>, Inr session1)))"

text \<open>The state update that is handed to the topic, if it can be signed.\<close>

definition broadcastStateUpdate :: "prims \<Rightarrow> gc_codecs \<Rightarrow> u64 \<Rightarrow> GroupCallSession \<Rightarrow> GroupCallManager \<Rightarrow> GroupCallStateUpdate option" where
  "broadcastStateUpdate P K now session gcm =
     (let stateUpdate = \<lparr>gsu_CallId = gcs_CallId session, gsu_State = gcs_State session, gsu_Participants = gcs_Participants session,
            gsu_CallType = gcs_CallType session, gsu_SfuIdentity = gcs_SfuIdentity session, gsu_Timestamp = now, gsu_Signature = []\<rparr>
      in case signed_by P (gk_update K) gcm stateUpdate of
           Inl _ \<Rightarrow> None
         | Inr signature \<Rightarrow> Some (stateUpdate\<lparr>gsu_Signature := signature\<rparr>))"

definition elected :: "ParticipantInfo \<Rightarrow> GroupCallSession \<Rightarrow> GroupCallSession" where
  "elected candidate session = session\<lparr>gcs_SfuIdentity := pi_IdentityPubkey candidate,
     gcs_Participants := map (\<lambda>p. if pi_ref p = pi_ref candidate then p\<lparr>pi_IsSfu := True\<rparr> else p) (gcs_Participants session)\<rparr>"

text \<open>The goroutine of the \<open>i\<close>-th waiting election, after its timeout or when the manager has stopped.\<close>

definition confirmElection :: "nat \<Rightarrow> GroupCallManager \<Rightarrow> GroupCallManager" where
  "confirmElection i gcm =
     (if i < length (gc_pending gcm) then
        let (callID, candidate) = gc_pending gcm ! i;
            gcm1 = gcm\<lparr>gc_pending := take i (gc_pending gcm) @ drop (Suc i) (gc_pending gcm)\<rparr>
        in if gc_stopped gcm then gcm1
           else case gm_get (gc_calls gcm1) callID of
             None \<Rightarrow> gcm1
           | Some session \<Rightarrow> gcm1\<lparr>gc_calls := gm_set callID (elected candidate session) (gc_calls gcm1)\<rparr>
      else gcm)"

section \<open>Operations\<close>

definition new_participant :: "prims \<Rightarrow> string \<Rightarrow> bool \<Rightarrow> u64 \<Rightarrow> u32 \<Rightarrow> GroupCallManager \<Rightarrow> ParticipantInfo" where
  "new_participant P displayName owner now ssrc gcm =
     \<lparr>pi_ref = gc_next gcm, pi_IdentityPubkey = idn_Ed25519PubKey (gc_identity gcm),
      pi_DeviceId = GroupCall_computeDeviceID P (idn_Ed25519PubKey (gc_identity gcm)), pi_DisplayName = displayName,
      pi_State = PARTICIPANT_STATE_JOINING, pi_JoinedAt = now, pi_IsSfu = False, pi_IsOwner = owner, pi_Sdp = '''',
      pi_IceCandidates = [], pi_Ssrc = ssrc\<rparr>"

definition add_participant :: "ParticipantInfo \<Rightarrow> GroupCallSession \<Rightarrow> GroupCallSession" where
  "add_participant p session = session\<lparr>gcs_Participants := gcs_Participants session @ [p],
     gcs_sfuState := (gcs_sfuState session)\<lparr>sfu_ssrcMap := gm_set (hex_encode (pi_IdentityPubkey p)) (pi_Ssrc p) (sfu_ssrcMap (gcs_sfuState session))\<rparr>\<rparr>"

definition CreateGroupCall :: "prims \<Rightarrow> string \<Rightarrow> u64 \<Rightarrow> bytes res \<Rightarrow> int \<Rightarrow> bytes \<Rightarrow> bool \<Rightarrow> GroupCallManager \<Rightarrow> (GroupCallManager, GroupCallSession) eff" where
  "CreateGroupCall P uuid now rnd nano groupID isVideo gcm =
     (let session = add_participant (new_participant P ''Owner'' True now (generateSSRC rnd nano) gcm)
            \<lparr>gcs_CallId = uuid, gcs_GroupId = groupID, gcs_CallType = GROUP_CALL_TYPE_MESH, gcs_State = GROUP_CALL_STATE_INITIATING,
             gcs_OwnerIdentity = idn_Ed25519PubKey (gc_identity gcm), gcs_SfuIdentity = [], gcs_Participants = [], gcs_CreatedAt = now,
             gcs_StartedAt = 0, gcs_EndedAt = 0, gcs_HangupReason = '''', gcs_IsVideo = isVideo,
             gcs_MaxParticipants = word_of_int (gcc_MaxParticipants (gc_config gcm)),
             gcs_sfuState = \<lparr>sfu_forwardingTable = [], sfu_ssrcMap = [], sfu_packetBuffer = []\<rparr>\<rparr>;
          gcm1 = subscribeToGroupCallTopic P groupID (put_call session (gcm\<lparr>gc_next := Suc (gc_next gcm)\<rparr>))
      in case hex16 groupID of Inl e \<Rightarrow> (gcm1, Inl e) | Inr _ \<Rightarrow> (gcm1, Inr session))"

definition call_not_found :: "string \<Rightarrow> go_error" where
  "call_not_found callID = Err (''group call not found: '' @ callID)"

definition JoinGroupCall :: "prims \<Rightarrow> gc_codecs \<Rightarrow> u64 \<Rightarrow> u64 \<Rightarrow> bytes res \<Rightarrow> int \<Rightarrow> string \<Rightarrow> string \<Rightarrow> GroupCallManager \<Rightarrow>
    (GroupCallManager, GroupCallSession) eff" where
  "JoinGroupCall P K now nowElection rnd nano callID displayName gcm =
     (case gm_get (gc_calls gcm) callID of
        None \<Rightarrow> (gcm, Inl (call_not_found callID))
      | Some session \<Rightarrow>
          if list_ex (\<lambda>p. pi_IdentityPubkey p = idn_Ed25519PubKey (gc_identity gcm)) (gcs_Participants session) then (gcm, Inr session)
          else if of_nat (length (gcs_Participants session)) \<ge> gcs_MaxParticipants session then (gcm, Inl (Err ''group call is full''))
          else
            let participant = new_participant P displayName False now (generateSSRC rnd nano) gcm;
                session1 = add_participant participant session;
                gcm1 = gcm\<lparr>gc_next := Suc (gc_next gcm), gc_calls := gm_set callID session1 (gc_calls gcm)\<rparr>;
                switched = (if gcc_AutoSwitchToSFU (gc_config gcm) \<and> length (gcs_Participants session1) \<ge> SFUTopologyMinParticipants
                  then let session2 = session1\<lparr>gcs_CallType := GROUP_CALL_TYPE_SFU\<rparr>
                       in runSFUElection P K nowElection session2 (gcm1\<lparr>gc_calls := gm_set callID session2 (gc_calls gcm1)\<rparr>)
                  else (gcm1, Inr session1))
            in case switched of
                 (gcm2, Inl e) \<Rightarrow> (gcm2, Inl e)
               | (gcm2, Inr session3) \<Rightarrow>
                   let joinMsg = \<lparr>gj_CallId = callID, gj_ParticipantIdentity = idn_Ed25519PubKey (gc_identity gcm), gj_DeviceId = pi_DeviceId participant,
                         gj_DisplayName = displayName, gj_Timestamp = now, gj_Signature = []\<rparr>
                   in case marshal (gk_join K) joinMsg of
                        Inl e \<Rightarrow> (gcm2, Inl (Wrap ''failed to marshal join message'' e))
                      | Inr data \<Rightarrow> (case Sign P (idn_Ed25519PrivKey (gc_identity gcm)) data of
                          Inl e \<Rightarrow> (gcm2, Inl (Wrap ''failed to sign join message'' e))
                        | Inr signature \<Rightarrow>
                            let published = publishToGroupCallTopic (gcs_GroupId session3) (joinMsg\<lparr>gj_Signature := signature\<rparr>)
                            in (gcm2, Inr session3)))"

text \<open>The removal of the first entry of the own identity; a failure to sign is only logged.\<close>

fun remove_first :: "bytes \<Rightarrow> ParticipantInfo list \<Rightarrow> (ParticipantInfo \<times> ParticipantInfo list) option" where
  "remove_first pub [] = None"
| "remove_first pub (p # ps) = (if pi_IdentityPubkey p = pub then Some (p, ps)
     else map_option (\<lambda>(q, qs). (q, p # qs)) (remove_first pub ps))"

definition leave_message :: "prims \<Rightarrow> gc_codecs \<Rightarrow> u64 \<Rightarrow> string \<Rightarrow> string \<Rightarrow> GroupCallManager \<Rightarrow> GroupCallLeave" where
  "leave_message P K now callID reason gcm =
     (let leaveMsg = \<lparr>gl_CallId = callID, gl_ParticipantIdentity = idn_Ed25519PubKey (gc_identity gcm), gl_Reason = reason,
            gl_Timestamp = now, gl_Signature = []\<rparr>
      in leaveMsg\<lparr>gl_Signature := (case signed_by P (gk_leave K) gcm leaveMsg of Inl _ \<Rightarrow> [] | Inr signature \<Rightarrow> signature)\<rparr>)"

definition LeaveGroupCall :: "prims \<Rightarrow> gc_codecs \<Rightarrow> u64 \<Rightarrow> u64 \<Rightarrow> string \<Rightarrow> string \<Rightarrow> GroupCallManager \<Rightarrow> (GroupCallManager, unit) eff" where
  "LeaveGroupCall P K now nowElection callID reason gcm =
     (case gm_get (gc_calls gcm) callID of
        None \<Rightarrow> (gcm, Inl (call_not_found callID))
      | Some session \<Rightarrow> (case remove_first (idn_Ed25519PubKey (gc_identity gcm)) (gcs_Participants session) of
          None \<Rightarrow> (gcm, Inr ())
        | Some (ourParticipant, others) \<Rightarrow>
            let session1 = session\<lparr>gcs_Participants := others\<rparr>;
                published = publishToGroupCallTopic (gcs_GroupId session1) (leave_message P K now callID reason gcm);
                gcm1 = gcm\<lparr>gc_calls := gm_set callID session1 (gc_calls gcm)\<rparr>
            in if pi_IsSfu ourParticipant then (case runSFUElection P K nowElection session1 gcm1 of
                   (gcm2, Inl e) \<Rightarrow> (gcm2, Inl e) | (gcm2, Inr _) \<Rightarrow> (gcm2, Inr ()))
               else (gcm1, Inr ())))"

text \<open>The ended session is only seen through pointers that callers kept.\<close>

definition ended_session :: "u64 \<Rightarrow> string \<Rightarrow> GroupCallSession \<Rightarrow> GroupCallSession" where
  "ended_session now reason session = session\<lparr>gcs_State := GROUP_CALL_STATE_ENDED, gcs_HangupReason := reason, gcs_EndedAt := now\<rparr>"

definition endCallInternal :: "prims \<Rightarrow> u64 \<Rightarrow> string \<Rightarrow> GroupCallSession \<Rightarrow> GroupCallManager \<Rightarrow> (GroupCallManager, GroupCallSession) eff" where
  "endCallInternal P now reason session gcm =
     (let ended = ended_session now reason session
      in case unsubscribeFromGroupCallTopic P (gcs_GroupId session) gcm of
           (gcm1, Inl e) \<Rightarrow> (gcm1, Inl e)
         | (gcm1, Inr _) \<Rightarrow> (gcm1\<lparr>gc_calls := gm_del (gcs_CallId session) (gc_calls gcm1)\<rparr>, Inr ended))"

definition EndGroupCall :: "prims \<Rightarrow> u64 \<Rightarrow> string \<Rightarrow> string \<Rightarrow> GroupCallManager \<Rightarrow> (GroupCallManager, unit) eff" where
  "EndGroupCall P now callID reason gcm =
     (case gm_get (gc_calls gcm) callID of
        None \<Rightarrow> (gcm, Inl (call_not_found callID))
      | Some session \<Rightarrow> (case gcs_Participants session of
          [] \<Rightarrow> (gcm, Inl (Panic ''index out of range''))
        | p # _ \<Rightarrow>
            if \<not> pi_IsOwner p \<or> pi_IdentityPubkey p \<noteq> idn_Ed25519PubKey (gc_identity gcm)
            then (gcm, Inl (Err ''only the call owner can end the call''))
            else (case endCallInternal P now reason session gcm of (gcm1, Inl e) \<Rightarrow> (gcm1, Inl e) | (gcm1, Inr _) \<Rightarrow> (gcm1, Inr ()))))"

fun end_all :: "prims \<Rightarrow> u64 \<Rightarrow> GroupCallSession list \<Rightarrow> GroupCallManager \<Rightarrow> (GroupCallManager, unit) eff" where
  "end_all P now [] gcm = (gcm, Inr ())"
| "end_all P now (call # calls) gcm =
     (case endCallInternal P now ''manager_stopped'' call gcm of (gcm1, Inl e) \<Rightarrow> (gcm1, Inl e) | (gcm1, Inr _) \<Rightarrow> end_all P now calls gcm1)"

fun cancel_all :: "(string, mockSubscription) gomap \<Rightarrow> (string, mockSubscription) gomap res" where
  "cancel_all [] = Inr []"
| "cancel_all ((topic, sub) # subs) = rbind (Cancel sub) (\<lambda>sub1. rbind (cancel_all subs) (\<lambda>subs1. Inr ((topic, sub1) # subs1)))"

definition GroupCall_Stop :: "prims \<Rightarrow> u64 \<Rightarrow> GroupCallManager \<Rightarrow> (GroupCallManager, unit) eff" where
  "GroupCall_Stop P now gcm =
     (case end_all P now (map snd (gc_calls gcm)) gcm of
        (gcm1, Inl e) \<Rightarrow> (gcm1, Inl e)
      | (gcm1, Inr _) \<Rightarrow> (case cancel_all (gc_subscriptions gcm1) of
          Inl e \<Rightarrow> (gcm1, Inl e)
        | Inr subs \<Rightarrow> (gcm1\<lparr>gc_subscriptions := subs, gc_stopped := True\<rparr>, Inr ())))"

definition GetGroupCall :: "string \<Rightarrow> GroupCallManager \<Rightarrow> GroupCallSession res" where
  "GetGroupCall callID gcm = (case gm_get (gc_calls gcm) callID of None \<Rightarrow> Inl (call_not_found callID) | Some session \<Rightarrow> Inr session)"

definition GetAllGroupCalls :: "GroupCallManager \<Rightarrow> GroupCallSession list" where
  "GetAllGroupCalls gcm = map snd (gc_calls gcm)"

definition GetParticipantCount :: "GroupCallSession \<Rightarrow> nat" where
  "GetParticipantCount session = length (gcs_Participants session)"

definition IsSFU :: "GroupCallSession \<Rightarrow> bool" where
  "IsSFU session = (gcs_CallType session = GROUP_CALL_TYPE_SFU)"

definition IsOwner :: "bytes \<Rightarrow> GroupCallSession \<Rightarrow> bool" where
  "IsOwner identityPubkey session = (gcs_OwnerIdentity session = identityPubkey)"

definition IsSFUParticipant :: "bytes \<Rightarrow> GroupCallSession \<Rightarrow> bool" where
  "IsSFUParticipant identityPubkey session = (gcs_SfuIdentity session = identityPubkey)"

definition GetParticipant :: "bytes \<Rightarrow> GroupCallSession \<Rightarrow> ParticipantInfo res" where
  "GetParticipant identityPubkey session =
     (case find (\<lambda>p. pi_IdentityPubkey p = identityPubkey) (gcs_Participants session) of
        None \<Rightarrow> Inl (Err ''participant not found'') | Some p \<Rightarrow> Inr p)"

text \<open>A duration is a signed 64-bit number of nanoseconds.\<close>

definition GroupCall_Duration :: "u64 \<Rightarrow> GroupCallSession \<Rightarrow> int" where
  "GroupCall_Duration now session =
     (if gcs_StartedAt session = 0 then 0
      else let endTime = (if gcs_EndedAt session > 0 then gcs_EndedAt session else now)
           in sint ((endTime - gcs_StartedAt session) * 1000000000))"

inductive gc_step :: "prims \<Rightarrow> gc_codecs \<Rightarrow> GroupCallManager \<Rightarrow> GroupCallManager \<Rightarrow> bool" for P K where
  create: "gc_step P K gcm (fst (CreateGroupCall P uuid now rnd nano groupID isVideo gcm))" if "gm_get (gc_calls gcm) uuid = None"
| join: "gc_step P K gcm (fst (JoinGroupCall P K now now' rnd nano callID name gcm))"
| leave: "gc_step P K gcm (fst (LeaveGroupCall P K now now' callID reason gcm))"
| end_call: "gc_step P K gcm (fst (EndGroupCall P now callID reason gcm))"
| stop: "gc_step P K gcm (fst (GroupCall_Stop P now gcm))"
| confirm: "gc_step P K gcm (confirmElection i gcm)"

section \<open>Reachable managers\<close>

lemma gm_empty: "(\<And>k. gm_get m k = None) \<Longrightarrow> m = []"
proof (cases m)
  case (Cons a list)
  assume "\<And>k. gm_get m k = None"
  from this[of "fst a"] show ?thesis using Cons by (simp add: gm_get_def)
qed simp

definition my_pub :: "GroupCallManager \<Rightarrow> bytes" where
  "my_pub gcm = idn_Ed25519PubKey (gc_identity gcm)"

definition call_alone :: "bytes \<Rightarrow> string \<Rightarrow> GroupCallSession \<Rightarrow> bool" where
  "call_alone me callID s \<longleftrightarrow> gcs_CallId s = callID \<and> gcs_CallType s = GROUP_CALL_TYPE_MESH \<and> gcs_State s = GROUP_CALL_STATE_INITIATING \<and>
     gcs_SfuIdentity s = [] \<and> gcs_OwnerIdentity s = me \<and> length (gcs_Participants s) \<le> 1 \<and>
     (\<forall>p\<in>set (gcs_Participants s). pi_IdentityPubkey p = me \<and> \<not> pi_IsSfu p)"

definition gc_ok :: "prims \<Rightarrow> GroupCallManager \<Rightarrow> bool" where
  "gc_ok P gcm \<longleftrightarrow> gc_pending gcm = [] \<and> gm_ok (gc_calls gcm) \<and>
     (\<forall>callID s. gm_get (gc_calls gcm) callID = Some s \<longrightarrow> call_alone (my_pub gcm) callID s) \<and>
     (\<forall>topic sub. gm_get (gc_subscriptions gcm) topic = Some sub \<longrightarrow>
        sub = Open_channel \<and> (\<exists>callID s. gm_get (gc_calls gcm) callID = Some s \<and> topic = deriveGroupCallTopic P (gcs_GroupId s)))"

lemma gc_okD:
  assumes "gc_ok P gcm"
  shows "gc_pending gcm = []" "gm_ok (gc_calls gcm)" "gm_get (gc_calls gcm) callID = Some s \<Longrightarrow> call_alone (my_pub gcm) callID s"
    "gm_get (gc_subscriptions gcm) topic = Some sub \<Longrightarrow> sub = Open_channel"
    "gm_get (gc_subscriptions gcm) topic = Some sub \<Longrightarrow> \<exists>callID s. gm_get (gc_calls gcm) callID = Some s \<and> topic = deriveGroupCallTopic P (gcs_GroupId s)"
  using assms by (auto simp: gc_ok_def)

lemma call_alone_participants:
  assumes "call_alone me callID s"
  shows "gcs_Participants s = [] \<or> (\<exists>p. gcs_Participants s = [p] \<and> pi_IdentityPubkey p = me \<and> \<not> pi_IsSfu p)"
  using assms by (cases "gcs_Participants s") (auto simp: call_alone_def Suc_le_eq)

text \<open>A change of one call that keeps its group.\<close>

lemma gc_ok_set:
  assumes "gc_ok P gcm" "gm_get (gc_calls gcm) callID = Some s" "call_alone (my_pub gcm) callID s'" "gcs_GroupId s' = gcs_GroupId s"
  shows "gc_ok P (gcm\<lparr>gc_calls := gm_set callID s' (gc_calls gcm)\<rparr>)" "gc_ok P (gcm\<lparr>gc_next := n, gc_calls := gm_set callID s' (gc_calls gcm)\<rparr>)"
proof -
  have "\<exists>c t. (if c = callID then Some s' else gm_get (gc_calls gcm) c) = Some t \<and> topic = deriveGroupCallTopic P (gcs_GroupId t)"
    if "gm_get (gc_subscriptions gcm) topic = Some sub" for topic sub
    using gc_okD(5)[OF assms(1) that] assms(2,4) by (metis option.inject)
  then show "gc_ok P (gcm\<lparr>gc_calls := gm_set callID s' (gc_calls gcm)\<rparr>)" "gc_ok P (gcm\<lparr>gc_next := n, gc_calls := gm_set callID s' (gc_calls gcm)\<rparr>)"
    using gc_okD[OF assms(1)] assms(3) by (simp_all add: gc_ok_def my_pub_def)
qed

lemma CreateGroupCall_keeps:
  assumes "gc_ok P gcm" "gm_get (gc_calls gcm) uuid = None"
  shows "gc_ok P (fst (CreateGroupCall P uuid now rnd nano groupID isVideo gcm))"
proof -
  define s where "s = add_participant (new_participant P ''Owner'' True now (generateSSRC rnd nano) gcm)
            \<lparr>gcs_CallId = uuid, gcs_GroupId = groupID, gcs_CallType = GROUP_CALL_TYPE_MESH, gcs_State = GROUP_CALL_STATE_INITIATING,
             gcs_OwnerIdentity = idn_Ed25519PubKey (gc_identity gcm), gcs_SfuIdentity = [], gcs_Participants = [], gcs_CreatedAt = now,
             gcs_StartedAt = 0, gcs_EndedAt = 0, gcs_HangupReason = '''', gcs_IsVideo = isVideo,
             gcs_MaxParticipants = word_of_int (gcc_MaxParticipants (gc_config gcm)),
             gcs_sfuState = \<lparr>sfu_forwardingTable = [], sfu_ssrcMap = [], sfu_packetBuffer = []\<rparr>\<rparr>"
  have s: "call_alone (my_pub gcm) uuid s" "gcs_CallId s = uuid" "gcs_GroupId s = groupID"
    by (simp_all add: s_def call_alone_def add_participant_def new_participant_def my_pub_def)
  let ?g = "subscribeToGroupCallTopic P groupID (put_call s (gcm\<lparr>gc_next := Suc (gc_next gcm)\<rparr>))"
  have fst: "fst (CreateGroupCall P uuid now rnd nano groupID isVideo gcm) = ?g"
    by (simp add: CreateGroupCall_def s_def Let_def split: sum.split)
  have g: "gc_calls ?g = gm_set uuid s (gc_calls gcm)" "my_pub ?g = my_pub gcm" "gc_pending ?g = gc_pending gcm"
    "gm_get (gc_subscriptions ?g) t = (if t = deriveGroupCallTopic P groupID \<and> gm_get (gc_subscriptions gcm) t = None then Some Open_channel
       else gm_get (gc_subscriptions gcm) t)" for t
    by (auto simp: subscribeToGroupCallTopic_def put_call_def Let_def s(2) my_pub_def split: option.split)
  have "sub = Open_channel \<and> (\<exists>c t. gm_get (gc_calls ?g) c = Some t \<and> topic = deriveGroupCallTopic P (gcs_GroupId t))"
    if "gm_get (gc_subscriptions ?g) topic = Some sub" for topic sub
  proof (cases "gm_get (gc_subscriptions gcm) topic")
    case None
    then show ?thesis using that s(3) unfolding g by (auto split: if_splits)
  next
    case (Some sub')
    then obtain c t where "gm_get (gc_calls gcm) c = Some t" "topic = deriveGroupCallTopic P (gcs_GroupId t)" "sub' = Open_channel"
      using gc_okD(4,5)[OF assms(1) Some] by blast
    then show ?thesis using that Some assms(2) unfolding g by (auto intro!: exI[of _ c])
  qed
  then show ?thesis unfolding fst using gc_okD(1-3)[OF assms(1)] s(1) unfolding gc_ok_def g by simp
qed

lemma JoinGroupCall_keeps:
  assumes "gc_ok P gcm"
  shows "gc_ok P (fst (JoinGroupCall P K now now' rnd nano callID name gcm))"
proof (cases "gm_get (gc_calls gcm) callID")
  case None
  then show ?thesis using assms by (simp add: JoinGroupCall_def)
next
  case (Some s)
  have alone: "call_alone (my_pub gcm) callID s" by (rule gc_okD(3)[OF assms Some])
  show ?thesis
  proof (cases "gcs_Participants s")
    case Nil
    let ?s = "add_participant (new_participant P name False now (generateSSRC rnd nano) gcm) s"
    have "call_alone (my_pub gcm) callID ?s"
      using alone Nil by (simp add: call_alone_def add_participant_def new_participant_def my_pub_def)
    then have "gc_ok P (gcm\<lparr>gc_next := Suc (gc_next gcm), gc_calls := gm_set callID ?s (gc_calls gcm)\<rparr>)"
      by (rule gc_ok_set(2)[OF assms Some]) (simp add: add_participant_def)
    then show ?thesis using Some Nil assms
      by (auto simp: JoinGroupCall_def Let_def add_participant_def SFUTopologyMinParticipants_def split: sum.split)
  next
    case (Cons p ps)
    then have "pi_IdentityPubkey p = idn_Ed25519PubKey (gc_identity gcm)" using alone by (simp add: call_alone_def my_pub_def)
    then show ?thesis using Some Cons assms by (simp add: JoinGroupCall_def)
  qed
qed

lemma LeaveGroupCall_keeps:
  assumes "gc_ok P gcm"
  shows "gc_ok P (fst (LeaveGroupCall P K now now' callID reason gcm))"
proof (cases "gm_get (gc_calls gcm) callID")
  case None
  then show ?thesis using assms by (simp add: LeaveGroupCall_def)
next
  case (Some s)
  have alone: "call_alone (my_pub gcm) callID s" by (rule gc_okD(3)[OF assms Some])
  then have "call_alone (my_pub gcm) callID (s\<lparr>gcs_Participants := []\<rparr>)" by (simp add: call_alone_def)
  then have set: "gc_ok P (gcm\<lparr>gc_calls := gm_set callID (s\<lparr>gcs_Participants := []\<rparr>) (gc_calls gcm)\<rparr>)"
    by (rule gc_ok_set(1)[OF assms Some]) simp
  show ?thesis using call_alone_participants[OF alone] Some assms set by (auto simp: LeaveGroupCall_def Let_def my_pub_def)
qed

lemma endCallInternal_ok:
  assumes ok: "gc_ok P gcm" and s: "gm_get (gc_calls gcm) (gcs_CallId s) = Some s"
  obtains gcm' where "endCallInternal P now reason s gcm = (gcm', Inr (ended_session now reason s))" "gc_ok P gcm'"
    "\<And>c. gm_get (gc_calls gcm') c = (if c = gcs_CallId s then None else gm_get (gc_calls gcm) c)"
proof -
  let ?t = "deriveGroupCallTopic P (gcs_GroupId s)"
  define subs where "subs = (case gm_get (gc_subscriptions gcm) ?t of None \<Rightarrow> gc_subscriptions gcm | Some _ \<Rightarrow> gm_del ?t (gc_subscriptions gcm))"
  let ?g = "gcm\<lparr>gc_subscriptions := subs, gc_calls := gm_del (gcs_CallId s) (gc_calls gcm)\<rparr>"
  have get: "gm_get subs t = (if t = ?t then None else gm_get (gc_subscriptions gcm) t)" for t
    by (auto simp: subs_def split: option.split)
  have res: "endCallInternal P now reason s gcm = (?g, Inr (ended_session now reason s))"
    using gc_okD(4)[OF ok, of ?t]
    by (auto simp: endCallInternal_def unsubscribeFromGroupCallTopic_def Let_def subs_def Cancel_def split: option.split)
  have "\<exists>c s'. c \<noteq> gcs_CallId s \<and> gm_get (gc_calls gcm) c = Some s' \<and> t = deriveGroupCallTopic P (gcs_GroupId s')"
    if "gm_get subs t = Some sub" for t sub
  proof -
    have t: "t \<noteq> ?t" "gm_get (gc_subscriptions gcm) t = Some sub" using that by (auto simp: get split: if_splits)
    then obtain c s' where "gm_get (gc_calls gcm) c = Some s'" "t = deriveGroupCallTopic P (gcs_GroupId s')" using gc_okD(5)[OF ok] by blast
    then show ?thesis using t(1) s by (intro exI[of _ c] exI[of _ s']) auto
  qed
  then have "gc_ok P ?g"
    using gc_okD(1-4)[OF ok] unfolding gc_ok_def by (auto simp: my_pub_def get split: if_splits) metis
  then show ?thesis by (rule that[OF res]) simp
qed

lemma EndGroupCall_keeps:
  assumes "gc_ok P gcm"
  shows "gc_ok P (fst (EndGroupCall P now callID reason gcm))"
proof (cases "gm_get (gc_calls gcm) callID")
  case None
  then show ?thesis using assms by (simp add: EndGroupCall_def)
next
  case (Some s)
  then have "gm_get (gc_calls gcm) (gcs_CallId s) = Some s" using gc_okD(3)[OF assms Some] by (simp add: call_alone_def)
  then show ?thesis
    by (rule endCallInternal_ok[OF assms, of _ now reason]) (use Some assms in \<open>simp add: EndGroupCall_def split: list.split\<close>)
qed

lemma end_all_ok:
  "gc_ok P gcm \<Longrightarrow> \<forall>s\<in>set calls. gm_get (gc_calls gcm) (gcs_CallId s) = Some s \<Longrightarrow> distinct (map gcs_CallId calls) \<Longrightarrow>
   \<exists>gcm'. end_all P now calls gcm = (gcm', Inr ()) \<and> gc_ok P gcm' \<and>
     (\<forall>c. gm_get (gc_calls gcm') c = (if c \<in> gcs_CallId ` set calls then None else gm_get (gc_calls gcm) c))"
proof (induction calls arbitrary: gcm)
  case (Cons s calls)
  obtain g1 where g1: "endCallInternal P now ''manager_stopped'' s gcm = (g1, Inr (ended_session now ''manager_stopped'' s))" "gc_ok P g1"
    "\<And>c. gm_get (gc_calls g1) c = (if c = gcs_CallId s then None else gm_get (gc_calls gcm) c)"
    using endCallInternal_ok[OF Cons.prems(1) Cons.prems(2)[rule_format, OF list.set_intros(1)]] by metis
  have "\<forall>x\<in>set calls. gm_get (gc_calls g1) (gcs_CallId x) = Some x"
  proof
    fix x assume x: "x \<in> set calls"
    then have "gcs_CallId x \<noteq> gcs_CallId s" using Cons.prems(3) by (metis distinct.simps(2) image_eqI list.set_map list.simps(9))
    then show "gm_get (gc_calls g1) (gcs_CallId x) = Some x" using Cons.prems(2) x g1(3) by simp
  qed
  then obtain g2 where "end_all P now calls g1 = (g2, Inr ())" "gc_ok P g2"
    "\<forall>c. gm_get (gc_calls g2) c = (if c \<in> gcs_CallId ` set calls then None else gm_get (gc_calls g1) c)"
    using Cons.IH[OF g1(2)] Cons.prems(3) by auto
  then show ?case using g1(1,3) by auto
qed simp

lemma Stop_ok:
  assumes "gc_ok P gcm"
  shows "GroupCall_Stop P now gcm = (fst (GroupCall_Stop P now gcm), Inr ())" "gc_calls (fst (GroupCall_Stop P now gcm)) = []"
    "gc_subscriptions (fst (GroupCall_Stop P now gcm)) = []" "gc_ok P (fst (GroupCall_Stop P now gcm))"
proof -
  have mem: "gm_get (gc_calls gcm) c = Some s" "gcs_CallId s = c" if "(c, s) \<in> set (gc_calls gcm)" for c s
    using that gm_in_set_get[OF gc_okD(2)[OF assms]] gc_okD(3)[OF assms] by (auto simp: call_alone_def)
  have ids: "map gcs_CallId (map snd (gc_calls gcm)) = map fst (gc_calls gcm)" using mem(2) by auto
  have "distinct (map gcs_CallId (map snd (gc_calls gcm)))" unfolding ids using gc_okD(2)[OF assms] by (simp add: gm_ok_def)
  moreover have "\<forall>s\<in>set (map snd (gc_calls gcm)). gm_get (gc_calls gcm) (gcs_CallId s) = Some s" using mem by auto
  ultimately obtain g where g: "end_all P now (map snd (gc_calls gcm)) gcm = (g, Inr ())" "gc_ok P g"
    "\<forall>c. gm_get (gc_calls g) c = (if c \<in> gcs_CallId ` set (map snd (gc_calls gcm)) then None else gm_get (gc_calls gcm) c)"
    using end_all_ok[OF assms] by blast
  have "gm_get (gc_calls g) c = None" for c
  proof (cases "gm_get (gc_calls gcm) c")
    case (Some s)
    then have "(c, s) \<in> set (gc_calls gcm)" by (rule gm_get_in_set)
    then have "c \<in> gcs_CallId ` set (map snd (gc_calls gcm))" using mem(2) by force
    then show ?thesis using g(3) by simp
  qed (use g(3) in auto)
  then have c: "gc_calls g = []" by (rule gm_empty)
  then have "gm_get (gc_subscriptions g) t = None" for t using gc_okD(5)[OF g(2)] by (cases "gm_get (gc_subscriptions g) t") auto
  then have s: "gc_subscriptions g = []" by (rule gm_empty)
  have "GroupCall_Stop P now gcm = (g\<lparr>gc_stopped := True\<rparr>, Inr ())" using g(1) s by (simp add: GroupCall_Stop_def)
  then show "GroupCall_Stop P now gcm = (fst (GroupCall_Stop P now gcm), Inr ())" "gc_calls (fst (GroupCall_Stop P now gcm)) = []"
    "gc_subscriptions (fst (GroupCall_Stop P now gcm)) = []" "gc_ok P (fst (GroupCall_Stop P now gcm))"
    using c s gc_okD(1)[OF g(2)] by (simp_all add: gc_ok_def)
qed

lemma gc_reachable_ok:
  assumes "(gc_step P K)\<^sup>*\<^sup>* (NewGroupCallManager ident config) gcm"
  shows "gc_ok P gcm"
  using assms
proof (induction rule: rtranclp_induct)
  case base
  then show ?case by (simp add: gc_ok_def NewGroupCallManager_def)
next
  case (step g g')
  from step.hyps(2) step.IH show ?case
    by (cases rule: gc_step.cases)
      (simp_all add: CreateGroupCall_keeps JoinGroupCall_keeps LeaveGroupCall_keeps EndGroupCall_keeps Stop_ok(4) confirmElection_def gc_okD(1))
qed

section \<open>Elections\<close>

text \<open>Hexadecimal text is ordered as the bytes it stands for.\<close>

lemma hexdigit_less: "a < 16 \<Longrightarrow> b < 16 \<Longrightarrow> hexdigit a < hexdigit b \<longleftrightarrow> a < b"
  by (simp add: less_char_def of_char_hexdigit)

lemma byte_less_hex:
  fixes x y :: byte
  shows "x < y \<longleftrightarrow> unat x div 16 < unat y div 16 \<or> unat x div 16 = unat y div 16 \<and> unat x mod 16 < unat y mod 16"
proof -
  have "a < b \<longleftrightarrow> a div 16 < b div 16 \<or> a div 16 = b div 16 \<and> a mod 16 < b mod 16" for a b :: nat
  proof (cases "a div 16 = b div 16")
    case True
    then show ?thesis using div_mult_mod_eq[of a 16] div_mult_mod_eq[of b 16] by linarith
  next
    case False
    then show ?thesis by (metis div_le_mono leD linorder_less_linear less_imp_le)
  qed
  then show ?thesis unfolding u_less_unat .
qed

lemma hex_encode_less: "hex_encode a < hex_encode b \<longleftrightarrow> a < b"
proof (induction a arbitrary: b)
  case Nil
  then show ?case by (cases b) simp_all
next
  case (Cons x a)
  show ?case
  proof (cases b)
    case (Cons y b')
    have d: "unat z div 16 < 16" for z :: byte using unat_byte_less[of z] by linarith
    show ?thesis using Cons.IH[of b'] d[of x] d[of y] unfolding Cons
      by (auto simp: hexdigit_less hexdigit_inj byte_less_hex hex_byte_inj)
  qed simp
qed

lemma sort_key_head:
  assumes "ps \<noteq> []"
  obtains c r where "sort_key (\<lambda>p. hex_encode (f p)) ps = c # r" "f c = Min (f ` set ps)" "mset (c # r) = mset ps"
proof -
  let ?l = "sort_key (\<lambda>p. hex_encode (f p)) ps"
  have ms: "mset ?l = mset ps" by simp
  then obtain c r where l: "?l = c # r" using assms by (cases ?l) auto
  have st: "set (c # r) = set ps" using mset_eq_setD[OF ms] l by simp
  have "sorted (map (\<lambda>p. hex_encode (f p)) (c # r))" using sorted_sort_key[of "\<lambda>p. hex_encode (f p)" ps] l by simp
  then have "\<not> f p < f c" if "p \<in> set (c # r)" for p using that by (auto simp flip: hex_encode_less)
  then have "Min (f ` set (c # r)) = f c" by (intro Min_eqI) (auto simp: not_less)
  then have "f c = Min (f ` set ps)" unfolding st by simp
  moreover have "mset (c # r) = mset ps" using ms l by simp
  ultimately show ?thesis using that l by blast
qed

definition can_sign :: "prims \<Rightarrow> gc_codecs \<Rightarrow> GroupCallManager \<Rightarrow> bool" where
  "can_sign P K gcm \<longleftrightarrow> codec_ok (gk_election K) \<and> codec_ok (gk_join K) \<and> length (idn_Ed25519PrivKey (gc_identity gcm)) = 64"

lemma runSFUElection_ok:
  assumes "gcs_Participants s \<noteq> []" "\<forall>p\<in>set (gcs_Participants s). 8 \<le> length (pi_IdentityPubkey p)" "can_sign P K gcm"
  obtains c r where "runSFUElection P K now s gcm = ((put_call (s\<lparr>gcs_Participants := c # r\<rparr>) gcm)\<lparr>gc_pending := gc_pending gcm @ [(gcs_CallId s, c)]\<rparr>,
      Inr (s\<lparr>gcs_Participants := c # r\<rparr>))"
    "pi_IdentityPubkey c = Min (pi_IdentityPubkey ` set (gcs_Participants s))" "mset (c # r) = mset (gcs_Participants s)"
proof -
  obtain c r where c: "sort_key (\<lambda>p. hex_encode (pi_IdentityPubkey p)) (gcs_Participants s) = c # r"
    "pi_IdentityPubkey c = Min (pi_IdentityPubkey ` set (gcs_Participants s))" "mset (c # r) = mset (gcs_Participants s)"
    by (rule sort_key_head[OF assms(1)])
  have "c \<in> set (gcs_Participants s)" using mset_eq_setD[OF c(3)] by auto
  then obtain h where h: "hex16 (pi_IdentityPubkey c) = Inr h" using assms(2) by (force simp: hex16_def length_hex_encode)
  obtain sg where sg: "signed_by P (gk_election K) gcm \<lparr>ge_CallId = gcs_CallId s, ge_CandidateIdentity = pi_IdentityPubkey c, ge_Timestamp = now, ge_Signature = []\<rparr> = Inr sg"
    using assms(3) codec_okD[of "gk_election K" "\<lparr>ge_CallId = gcs_CallId s, ge_CandidateIdentity = pi_IdentityPubkey c, ge_Timestamp = now, ge_Signature = []\<rparr>"]
    by (auto simp: can_sign_def signed_by_def Sign_def crypto_sizes)
  have "runSFUElection P K now s gcm = ((put_call (s\<lparr>gcs_Participants := c # r\<rparr>) gcm)\<lparr>gc_pending := gc_pending gcm @ [(gcs_CallId s, c)]\<rparr>,
      Inr (s\<lparr>gcs_Participants := c # r\<rparr>))"
    by (simp add: runSFUElection_def c(1) Let_def publishToGroupCallTopic_def put_call_def h sg)
  then show ?thesis using that c(2,3) by blast
qed

lemma confirm_last:
  "gc_pending gcm = pend @ [(callID, c)] \<Longrightarrow> \<not> gc_stopped gcm \<Longrightarrow> gm_get (gc_calls gcm) callID = Some s \<Longrightarrow>
   gm_get (gc_calls (confirmElection (length pend) gcm)) callID = Some (elected c s)"
  by (simp add: confirmElection_def)

section \<open>A concrete manager\<close>

definition ser_GroupCallJoin :: "GroupCallJoin ser" where
  "ser_GroupCallJoin = s_iso (\<lambda>r. (gj_CallId r, gj_ParticipantIdentity r, gj_DeviceId r, gj_DisplayName r, gj_Timestamp r, gj_Signature r))
     (\<lambda>(x0, x1, x2, x3, x4, x5). \<lparr>gj_CallId = x0, gj_ParticipantIdentity = x1, gj_DeviceId = x2, gj_DisplayName = x3, gj_Timestamp = x4, gj_Signature = x5\<rparr>)
     (s_pair s_string (s_pair s_bytes (s_pair s_bytes (s_pair s_string (s_pair s_u64 s_bytes)))))"

definition ser_GroupCallLeave :: "GroupCallLeave ser" where
  "ser_GroupCallLeave = s_iso (\<lambda>r. (gl_CallId r, gl_ParticipantIdentity r, gl_Reason r, gl_Timestamp r, gl_Signature r))
     (\<lambda>(x0, x1, x2, x3, x4). \<lparr>gl_CallId = x0, gl_ParticipantIdentity = x1, gl_Reason = x2, gl_Timestamp = x3, gl_Signature = x4\<rparr>)
     (s_pair s_string (s_pair s_bytes (s_pair s_string (s_pair s_u64 s_bytes))))"

definition ser_GroupCallSFUElection :: "GroupCallSFUElection ser" where
  "ser_GroupCallSFUElection = s_iso (\<lambda>r. (ge_CallId r, ge_CandidateIdentity r, ge_Timestamp r, ge_Signature r))
     (\<lambda>(x0, x1, x2, x3). \<lparr>ge_CallId = x0, ge_CandidateIdentity = x1, ge_Timestamp = x2, ge_Signature = x3\<rparr>)
     (s_pair s_string (s_pair s_bytes (s_pair s_u64 s_bytes)))"

lemma ser_GroupCallJoin_ok [ser_intros]: "ser_ok ser_GroupCallJoin"
  unfolding ser_GroupCallJoin_def by (rule s_iso_ok, intro ser_intros, simp)

lemma ser_GroupCallLeave_ok [ser_intros]: "ser_ok ser_GroupCallLeave"
  unfolding ser_GroupCallLeave_def by (rule s_iso_ok, intro ser_intros, simp)

lemma ser_GroupCallSFUElection_ok [ser_intros]: "ser_ok ser_GroupCallSFUElection"
  unfolding ser_GroupCallSFUElection_def by (rule s_iso_ok, intro ser_intros, simp)

definition ref_gc_codecs :: gc_codecs where
  "ref_gc_codecs = \<lparr>gk_join = codec_of ser_GroupCallJoin, gk_leave = codec_of ser_GroupCallLeave, gk_election = codec_of ser_GroupCallSFUElection,
     gk_update = \<lparr>marshal = (\<lambda>_. Inl (Err ''not marshalled'')), unmarshal = (\<lambda>_. Inl (Err ''not marshalled''))\<rparr>\<rparr>"

definition example_ident :: "byte \<Rightarrow> Identity_rec" where
  "example_ident b = \<lparr>idn_Mnemonic = [], idn_Seed = [], idn_Ed25519PubKey = replicate 32 b, idn_Ed25519PrivKey = replicate 64 b,
     idn_X25519PubKey = [], idn_X25519PrivKey = []\<rparr>"

definition example_group_call :: GroupCallManager where
  "example_group_call = fst (CreateGroupCall toy ''c1'' 5 (Inr [1, 2, 3, 4]) 0 (replicate 32 9) True (NewGroupCallManager (example_ident 7) None))"

definition example_participant :: "byte \<Rightarrow> ParticipantInfo" where
  "example_participant b = new_participant toy ''p'' False 5 6 (NewGroupCallManager (example_ident b) None)"

lemma example_can_sign: "can_sign toy ref_gc_codecs (NewGroupCallManager (example_ident b) c)" "can_sign toy ref_gc_codecs example_group_call"
  by (simp_all add: can_sign_def ref_gc_codecs_def codec_of_ok ser_GroupCallSFUElection_ok ser_GroupCallJoin_ok NewGroupCallManager_def example_ident_def
      example_group_call_def CreateGroupCall_def Let_def subscribeToGroupCallTopic_def put_call_def split: option.split sum.split)

lemma example_group_call_run: "(gc_step toy ref_gc_codecs)\<^sup>*\<^sup>* (NewGroupCallManager (example_ident 7) None) example_group_call"
  unfolding example_group_call_def by (rule r_into_rtranclp, rule gc_step.create) (simp add: NewGroupCallManager_def)

lemma example_group_call_get: "\<exists>s. GetGroupCall ''c1'' example_group_call = Inr s \<and> 0 < gcs_MaxParticipants s \<and> gcs_GroupId s = replicate 32 9"
  by (simp add: GetGroupCall_def example_group_call_def CreateGroupCall_def Let_def subscribeToGroupCallTopic_def put_call_def add_participant_def
      NewGroupCallManager_def DefaultGroupCallConfig_def SFUTopologyMaxParticipants_def split: option.split sum.split)

section \<open>Properties\<close>

text \<open>A group call never has a second participant. In every state that the operations of a manager can reach, each call has at most one participant, the
  manager's own identity; it is in mesh mode, initiating, without an SFU, and no election runs. Every open subscription belongs to
  an open call, and stopping always succeeds and leaves neither.\<close>

theorem group_calls_stay_alone:
  assumes "(gc_step P K)\<^sup>*\<^sup>* (NewGroupCallManager ident config) gcm"
  shows "(\<forall>callID s. GetGroupCall callID gcm = Inr s \<longrightarrow> GetParticipantCount s \<le> 1 \<and> \<not> IsSFU s \<and> gcs_State s = GROUP_CALL_STATE_INITIATING \<and>
      (\<forall>p\<in>set (gcs_Participants s). pi_IdentityPubkey p = idn_Ed25519PubKey (gc_identity gcm) \<and> \<not> pi_IsSfu p))
    \<and> gc_pending gcm = []
    \<and> (\<forall>topic sub. gm_get (gc_subscriptions gcm) topic = Some sub \<longrightarrow>
         (\<exists>callID s. GetGroupCall callID gcm = Inr s \<and> topic = deriveGroupCallTopic P (gcs_GroupId s)))
    \<and> (\<exists>gcm'. GroupCall_Stop P now gcm = (gcm', Inr ()) \<and> GetAllGroupCalls gcm' = [] \<and> gc_subscriptions gcm' = [])"
proof -
  have ok: "gc_ok P gcm" by (rule gc_reachable_ok[OF assms])
  have get: "GetGroupCall callID gcm = Inr s \<longleftrightarrow> gm_get (gc_calls gcm) callID = Some s" for callID s
    by (simp add: GetGroupCall_def split: option.split)
  show ?thesis
    unfolding get using gc_okD(1,3,5)[OF ok] Stop_ok(1-3)[OF ok, of now]
    by (auto simp: call_alone_def GetParticipantCount_def IsSFU_def GROUP_CALL_TYPE_MESH_def GROUP_CALL_TYPE_SFU_def my_pub_def GetAllGroupCalls_def)
qed

theorem group_calls_stay_alone_witness:
  "(\<forall>callID s. GetGroupCall callID example_group_call = Inr s \<longrightarrow> GetParticipantCount s \<le> 1) \<and>
   (\<exists>gcm'. GroupCall_Stop toy 9 example_group_call = (gcm', Inr ()) \<and> GetAllGroupCalls gcm' = []) \<and> is_ok (GetGroupCall ''c1'' example_group_call)"
  using group_calls_stay_alone[OF example_group_call_run, of 9] example_group_call_get by (auto simp: is_ok_iff)

text \<open>C34.Elections agree: two managers that see the same participants of a call, in whatever order, elect the same SFU, the
  participant with the smallest key in byte order, and no participant is lost.\<close>

theorem sfu_election_agrees:
  assumes "can_sign P K g1" "can_sign P K g2" "\<not> gc_stopped g1" "\<not> gc_stopped g2"
    and "gcs_Participants s1 \<noteq> []" "pi_IdentityPubkey ` set (gcs_Participants s1) = pi_IdentityPubkey ` set (gcs_Participants s2)"
    and "\<forall>p\<in>set (gcs_Participants s1) \<union> set (gcs_Participants s2). 8 \<le> length (pi_IdentityPubkey p)"
  shows "\<exists>t1 t2. GetGroupCall (gcs_CallId s1) (confirmElection (length (gc_pending g1)) (fst (runSFUElection P K now1 s1 g1))) = Inr t1
    \<and> GetGroupCall (gcs_CallId s2) (confirmElection (length (gc_pending g2)) (fst (runSFUElection P K now2 s2 g2))) = Inr t2
    \<and> gcs_SfuIdentity t1 = gcs_SfuIdentity t2 \<and> gcs_SfuIdentity t1 = Min (pi_IdentityPubkey ` set (gcs_Participants s1))
    \<and> (\<exists>p\<in>set (gcs_Participants t1). pi_IsSfu p \<and> IsSFUParticipant (pi_IdentityPubkey p) t1)
    \<and> mset (map pi_IdentityPubkey (gcs_Participants t1)) = mset (map pi_IdentityPubkey (gcs_Participants s1))"
proof -
  have one: "\<exists>t. GetGroupCall (gcs_CallId s) (confirmElection (length (gc_pending g)) (fst (runSFUElection P K now s g))) = Inr t
    \<and> gcs_SfuIdentity t = Min (pi_IdentityPubkey ` set (gcs_Participants s))
    \<and> (\<exists>p\<in>set (gcs_Participants t). pi_IsSfu p \<and> IsSFUParticipant (pi_IdentityPubkey p) t)
    \<and> mset (map pi_IdentityPubkey (gcs_Participants t)) = mset (map pi_IdentityPubkey (gcs_Participants s))"
    if a: "can_sign P K g" "\<not> gc_stopped g" "gcs_Participants s \<noteq> []" "\<forall>p\<in>set (gcs_Participants s). 8 \<le> length (pi_IdentityPubkey p)" for g s now
  proof -
    obtain c r where c: "runSFUElection P K now s g = ((put_call (s\<lparr>gcs_Participants := c # r\<rparr>) g)\<lparr>gc_pending := gc_pending g @ [(gcs_CallId s, c)]\<rparr>,
      Inr (s\<lparr>gcs_Participants := c # r\<rparr>))"
      "pi_IdentityPubkey c = Min (pi_IdentityPubkey ` set (gcs_Participants s))" "mset (c # r) = mset (gcs_Participants s)"
      by (rule runSFUElection_ok[OF a(3,4,1)])
    let ?t = "elected c (s\<lparr>gcs_Participants := c # r\<rparr>)"
    have "gm_get (gc_calls (confirmElection (length (gc_pending g)) (fst (runSFUElection P K now s g)))) (gcs_CallId s) = Some ?t"
      unfolding c(1) fst_conv by (rule confirm_last) (use a(2) in \<open>simp_all add: put_call_def\<close>)
    moreover have "map pi_IdentityPubkey (gcs_Participants ?t) = map pi_IdentityPubkey (c # r)" by (simp add: elected_def)
    then have "mset (map pi_IdentityPubkey (gcs_Participants ?t)) = mset (map pi_IdentityPubkey (gcs_Participants s))" using c(3) by (metis mset_map)
    moreover have "\<exists>p\<in>set (gcs_Participants ?t). pi_IsSfu p \<and> IsSFUParticipant (pi_IdentityPubkey p) ?t"
      by (simp add: elected_def IsSFUParticipant_def)
    moreover have "gcs_SfuIdentity ?t = Min (pi_IdentityPubkey ` set (gcs_Participants s))" using c(2) by (simp add: elected_def)
    ultimately show ?thesis by (intro exI[of _ ?t]) (simp only: GetGroupCall_def option.case simp_thms)
  qed
  have "gcs_Participants s2 \<noteq> []" using assms(5,6) by auto
  then show ?thesis using one[OF assms(1,3,5), of now1] one[OF assms(2,4), of s2 now2] assms(6,7) by auto
qed

theorem sfu_election_agrees_witness:
  "\<exists>t1 t2. GetGroupCall ''c1'' (confirmElection 0 (fst (runSFUElection toy ref_gc_codecs 5
      \<lparr>gcs_CallId = ''c1'', gcs_GroupId = [], gcs_CallType = GROUP_CALL_TYPE_SFU, gcs_State = GROUP_CALL_STATE_INITIATING, gcs_OwnerIdentity = [],
       gcs_SfuIdentity = [], gcs_Participants = [example_participant 4, example_participant 3], gcs_CreatedAt = 0, gcs_StartedAt = 0, gcs_EndedAt = 0,
       gcs_HangupReason = [], gcs_IsVideo = True, gcs_MaxParticipants = 25,
       gcs_sfuState = \<lparr>sfu_forwardingTable = [], sfu_ssrcMap = [], sfu_packetBuffer = []\<rparr>\<rparr> (NewGroupCallManager (example_ident 4) None)))) = Inr t1 \<and>
     GetGroupCall ''c1'' (confirmElection 0 (fst (runSFUElection toy ref_gc_codecs 6
      \<lparr>gcs_CallId = ''c1'', gcs_GroupId = [], gcs_CallType = GROUP_CALL_TYPE_SFU, gcs_State = GROUP_CALL_STATE_INITIATING, gcs_OwnerIdentity = [],
       gcs_SfuIdentity = [], gcs_Participants = [example_participant 3, example_participant 4], gcs_CreatedAt = 0, gcs_StartedAt = 0, gcs_EndedAt = 0,
       gcs_HangupReason = [], gcs_IsVideo = True, gcs_MaxParticipants = 25,
       gcs_sfuState = \<lparr>sfu_forwardingTable = [], sfu_ssrcMap = [], sfu_packetBuffer = []\<rparr>\<rparr> (NewGroupCallManager (example_ident 3) None)))) = Inr t2 \<and>
     gcs_SfuIdentity t1 = gcs_SfuIdentity t2"
proof -
  let ?s = "\<lambda>ps. \<lparr>gcs_CallId = ''c1'', gcs_GroupId = [], gcs_CallType = GROUP_CALL_TYPE_SFU, gcs_State = GROUP_CALL_STATE_INITIATING, gcs_OwnerIdentity = [],
       gcs_SfuIdentity = [], gcs_Participants = ps, gcs_CreatedAt = 0, gcs_StartedAt = 0, gcs_EndedAt = 0,
       gcs_HangupReason = [], gcs_IsVideo = True, gcs_MaxParticipants = 25,
       gcs_sfuState = \<lparr>sfu_forwardingTable = [], sfu_ssrcMap = [], sfu_packetBuffer = []\<rparr>\<rparr>"
  have "gc_pending (NewGroupCallManager i c) = []" "\<not> gc_stopped (NewGroupCallManager i c)" for i c by (simp_all add: NewGroupCallManager_def)
  then show ?thesis
    using sfu_election_agrees[OF example_can_sign(1) example_can_sign(1), of 4 None 3 None "?s [example_participant 4, example_participant 3]"
        "?s [example_participant 3, example_participant 4]" 5 6]
    by (auto simp: example_participant_def new_participant_def NewGroupCallManager_def example_ident_def)
qed

text \<open>An owner can lose the call. Once the owner has left, ending the call panics for want of a first participant; once back in, the owner is an ordinary
  participant and may not end the call. And in any session, an election puts the participant with the smallest key first, so that every manager
  with another key may no longer end the call.\<close>

theorem owner_loses_call:
  assumes "(gc_step P K)\<^sup>*\<^sup>* (NewGroupCallManager ident config) gcm" "GetGroupCall callID gcm = Inr s" "can_sign P K gcm"
    "0 < gcs_MaxParticipants s"
  shows "(let left = fst (LeaveGroupCall P K now now' callID reason gcm); back_in = fst (JoinGroupCall P K now now' rnd nano callID name left)
     in snd (EndGroupCall P now callID reason left) = Inl (Panic ''index out of range'')
       \<and> is_ok (snd (JoinGroupCall P K now now' rnd nano callID name left))
       \<and> snd (EndGroupCall P now callID reason back_in) = Inl (Err ''only the call owner can end the call''))
    \<and> (\<forall>s' g. gcs_Participants s' \<noteq> [] \<and> (\<forall>p\<in>set (gcs_Participants s'). 8 \<le> length (pi_IdentityPubkey p)) \<and> can_sign P K g
         \<and> idn_Ed25519PubKey (gc_identity g) \<noteq> Min (pi_IdentityPubkey ` set (gcs_Participants s')) \<longrightarrow>
         snd (EndGroupCall P now (gcs_CallId s') reason (fst (runSFUElection P K now s' g))) = Inl (Err ''only the call owner can end the call''))"
proof -
  have get: "gm_get (gc_calls gcm) callID = Some s" using assms(2) by (simp add: GetGroupCall_def split: option.splits)
  have ok: "gc_ok P gcm" by (rule gc_reachable_ok[OF assms(1)])
  have alone: "call_alone (my_pub gcm) callID s" by (rule gc_okD(3)[OF ok get])
  let ?left = "fst (LeaveGroupCall P K now now' callID reason gcm)"
  let ?in = "fst (JoinGroupCall P K now now' rnd nano callID name ?left)"
  have left: "gm_get (gc_calls ?left) callID = Some (s\<lparr>gcs_Participants := []\<rparr>)" "gc_identity ?left = gc_identity gcm"
    using call_alone_participants[OF alone] get by (auto simp: LeaveGroupCall_def Let_def my_pub_def)
  have sig: "marshal (gk_join K) m \<noteq> Inl e" "Sign P (idn_Ed25519PrivKey (gc_identity gcm)) data \<noteq> Inl e" for m data e
    using assms(3) codec_okD[of "gk_join K" m] by (auto simp: can_sign_def Sign_def crypto_sizes)
  have join: "is_ok (snd (JoinGroupCall P K now now' rnd nano callID name ?left))"
    "\<exists>p s'. gm_get (gc_calls ?in) callID = Some s' \<and> gcs_Participants s' = [p] \<and> \<not> pi_IsOwner p"
    using left assms(4) sig
    by (auto simp: JoinGroupCall_def Let_def add_participant_def new_participant_def SFUTopologyMinParticipants_def
        split: sum.splits)
  have refused: "snd (EndGroupCall P now (gcs_CallId s') reason (fst (runSFUElection P K now s' g))) = Inl (Err ''only the call owner can end the call'')"
    if h: "gcs_Participants s' \<noteq> []" "\<forall>p\<in>set (gcs_Participants s'). 8 \<le> length (pi_IdentityPubkey p)" "can_sign P K g"
      "idn_Ed25519PubKey (gc_identity g) \<noteq> Min (pi_IdentityPubkey ` set (gcs_Participants s'))" for s' g
    by (rule runSFUElection_ok[OF h(1-3), of now]) (use h(4) in \<open>auto simp: EndGroupCall_def put_call_def\<close>)
  show ?thesis using left(1) join refused by (auto simp: Let_def EndGroupCall_def)
qed

theorem owner_loses_call_witness:
  "snd (EndGroupCall toy 6 ''c1'' ''bye'' (fst (LeaveGroupCall toy ref_gc_codecs 6 7 ''c1'' ''bye'' example_group_call))) = Inl (Panic ''index out of range'')"
proof -
  obtain s where s: "GetGroupCall ''c1'' example_group_call = Inr s" "0 < gcs_MaxParticipants s" using example_group_call_get by blast
  from owner_loses_call[OF example_group_call_run s(1) example_can_sign(2) s(2), of 6 7 "''bye''" "Inr []" 0 "''x''"] show ?thesis by (simp add: Let_def)
qed

end
