(* ===== verification/Peerstore.thy ===== *)
theory Peerstore
  imports Messaging
begin

text \<open>
  \<open>pkg/peerstore\<close>: the address book (\<open>addrbook.go\<close>), a map of peers that is written to a JSON file after its changes, and the contact
  tracker (\<open>contact_tracker.go\<close>), a cache of the presence of contacts over the store and the network. The file is reached through the record
  \<open>book_file\<close>, JSON is a codec, the store and the network are the records of \<open>Messaging\<close>. A multiaddress is its text, and
  \<open>NewMultiaddr\<close> is the parser of the third-party package. The zero \<open>time.Time\<close> is \<open>None\<close>.
\<close>

section \<open>The address book\<close>

definition ErrPeerNotFound :: go_error where "ErrPeerNotFound = Err ''peer not found in address book''"
definition MaxPeers :: nat where "MaxPeers = 1000"

record AddrRecord =
  ar_PublicKey :: string
  ar_PeerID :: string
  ar_Addresses :: "string list"
  ar_LastSeen :: int
  ar_Connected :: bool

type_synonym AddrBook = "(string, AddrRecord) gomap"

text \<open>\<open>os.ReadFile\<close> (\<open>None\<close>: there is no file), \<open>os.MkdirAll\<close> and \<open>os.WriteFile\<close> for the file of the book.\<close>

record 'f book_file =
  bf_ReadFile :: "'f \<Rightarrow> bytes option res"
  bf_MkdirAll :: "'f \<Rightarrow> ('f, unit) eff"
  bf_WriteFile :: "bytes \<Rightarrow> 'f \<Rightarrow> ('f, unit) eff"

text \<open>The loop of \<open>load\<close>: an element of the array may be \<open>null\<close>, and the loop reads its key.\<close>

fun book_of :: "AddrRecord option list \<Rightarrow> AddrBook \<Rightarrow> AddrBook res" where
  "book_of [] peers = Inr peers"
| "book_of (None # ps) peers = Inl (Panic ''nil pointer dereference'')"
| "book_of (Some p # ps) peers = book_of ps (gm_set (ar_PublicKey p) p peers)"

definition AddrBook_load :: "'f book_file \<Rightarrow> AddrRecord option list codec \<Rightarrow> 'f \<Rightarrow> AddrBook option res" where
  "AddrBook_load F J f =
     rbind (bf_ReadFile F f) (\<lambda>file. case file of
        None \<Rightarrow> Inr None
      | Some data \<Rightarrow> rbind (wrapped ''failed to parse address book'' (unmarshal J data)) (\<lambda>peers. rbind (book_of peers []) (\<lambda>ab. Inr (Some ab))))"

definition NewAddrBook :: "'f book_file \<Rightarrow> AddrRecord option list codec \<Rightarrow> 'f \<Rightarrow> AddrBook res" where
  "NewAddrBook F J f = rbind (wrapped ''failed to load address book'' (AddrBook_load F J f)) (\<lambda>b. Inr (case b of None \<Rightarrow> [] | Some ab \<Rightarrow> ab))"

definition saveLocked :: "'f book_file \<Rightarrow> AddrRecord option list codec \<Rightarrow> AddrBook \<Rightarrow> 'f \<Rightarrow> ('f, unit) eff" where
  "saveLocked F J ab f =
     (case bf_MkdirAll F f of
        (f1, Inl e) \<Rightarrow> (f1, Inl (Wrap ''failed to create repo directory'' e))
      | (f1, Inr _) \<Rightarrow> (case marshal J (map (Some \<circ> snd) ab) of
          Inl e \<Rightarrow> (f1, Inl (Wrap ''failed to marshal address book'' e))
        | Inr data \<Rightarrow> (case bf_WriteFile F data f1 of
            (f2, Inl e) \<Rightarrow> (f2, Inl (Wrap ''failed to write address book'' e))
          | (f2, Inr _) \<Rightarrow> (f2, Inr ()))))"

definition saved :: "'f book_file \<Rightarrow> AddrRecord option list codec \<Rightarrow> AddrBook \<Rightarrow> 'f \<Rightarrow> (AddrBook \<times> 'f, unit) eff" where
  "saved F J ab f = (case saveLocked F J ab f of (f1, r) \<Rightarrow> ((ab, f1), wrapped ''failed to save address book'' r))"

text \<open>The loop of \<open>removeOldestPeer\<close>, with the empty text as the mark that no peer was seen yet.\<close>

fun oldest :: "AddrBook \<Rightarrow> string \<Rightarrow> int \<Rightarrow> string" where
  "oldest [] oldestKey oldestTime = oldestKey"
| "oldest ((key, rec) # rest) oldestKey oldestTime =
     (if oldestKey = '''' \<or> ar_LastSeen rec < oldestTime then oldest rest key (ar_LastSeen rec) else oldest rest oldestKey oldestTime)"

definition removeOldestPeer :: "AddrBook \<Rightarrow> AddrBook" where
  "removeOldestPeer ab = (let k = oldest ab '''' 0 in if k \<noteq> '''' then gm_del k ab else ab)"

definition AddrBook_AddContact :: "'f book_file \<Rightarrow> AddrRecord option list codec \<Rightarrow> int \<Rightarrow> bytes \<Rightarrow> string \<Rightarrow> string list \<Rightarrow> AddrBook \<times> 'f \<Rightarrow> (AddrBook \<times> 'f, unit) eff" where
  "AddrBook_AddContact F J now pubKey peerID addrs abf =
     (case abf of (ab, f) \<Rightarrow>
        let k = hex_encode pubKey
        in case gm_get ab k of
             Some existing \<Rightarrow> saved F J (gm_set k (existing\<lparr>ar_PeerID := peerID, ar_Addresses := addrs, ar_LastSeen := now\<rparr>) ab) f
           | None \<Rightarrow>
               let ab1 = gm_set k \<lparr>ar_PublicKey = k, ar_PeerID = peerID, ar_Addresses = addrs, ar_LastSeen = now, ar_Connected = False\<rparr> ab
               in saved F J (if gm_len ab1 > MaxPeers then removeOldestPeer ab1 else ab1) f)"

definition AddrBook_GetContact :: "bytes \<Rightarrow> AddrBook \<Rightarrow> AddrRecord res" where
  "AddrBook_GetContact pubKey ab = (case gm_get ab (hex_encode pubKey) of None \<Rightarrow> Inl ErrPeerNotFound | Some r \<Rightarrow> Inr r)"

definition AddrBook_GetContactByPeerID :: "string \<Rightarrow> AddrBook \<Rightarrow> AddrRecord res" where
  "AddrBook_GetContactByPeerID peerID ab =
     (case find (\<lambda>r. ar_PeerID r = peerID) (map snd ab) of None \<Rightarrow> Inl ErrPeerNotFound | Some r \<Rightarrow> Inr r)"

definition UpdateAddresses :: "'f book_file \<Rightarrow> AddrRecord option list codec \<Rightarrow> int \<Rightarrow> bytes \<Rightarrow> string list \<Rightarrow> AddrBook \<times> 'f \<Rightarrow> (AddrBook \<times> 'f, unit) eff" where
  "UpdateAddresses F J now pubKey addrs abf =
     (case abf of (ab, f) \<Rightarrow> (case gm_get ab (hex_encode pubKey) of
        None \<Rightarrow> (abf, Inl ErrPeerNotFound)
      | Some r \<Rightarrow> saved F J (gm_set (hex_encode pubKey) (r\<lparr>ar_Addresses := addrs, ar_LastSeen := now\<rparr>) ab) f))"

definition AddrBook_SetConnected :: "bytes \<Rightarrow> bool \<Rightarrow> AddrBook \<Rightarrow> (AddrBook, unit) eff" where
  "AddrBook_SetConnected pubKey connected ab =
     (case gm_get ab (hex_encode pubKey) of
        None \<Rightarrow> (ab, Inl ErrPeerNotFound)
      | Some r \<Rightarrow> (gm_set (hex_encode pubKey) (r\<lparr>ar_Connected := connected\<rparr>) ab, Inr ()))"

definition GetAllContacts :: "AddrBook \<Rightarrow> AddrRecord list" where
  "GetAllContacts ab = map snd ab"

fun connect_loop :: "'n ipfs_node \<Rightarrow> string list \<Rightarrow> nat \<Rightarrow> AddrBook \<times> 'n \<Rightarrow> AddrBook \<times> 'n \<times> nat" where
  "connect_loop N [] connected (ab, n) = (ab, n, connected)"
| "connect_loop N (k # ks) connected (ab, n) =
     (case gm_get ab k of
        None \<Rightarrow> connect_loop N ks connected (ab, n)
      | Some r \<Rightarrow> (case ar_Addresses r of
          [] \<Rightarrow> connect_loop N ks connected (ab, n)
        | addr # _ \<Rightarrow> (case nd_ConnectToPeer N addr n of
            (n1, Inl _) \<Rightarrow> connect_loop N ks connected (ab, n1)
          | (n1, Inr _) \<Rightarrow> connect_loop N ks (Suc connected) (gm_set k (r\<lparr>ar_Connected := True\<rparr>) ab, n1))))"

definition ConnectToAll :: "'f book_file \<Rightarrow> AddrRecord option list codec \<Rightarrow> 'n ipfs_node \<Rightarrow> (AddrBook \<times> 'f) \<times> 'n \<Rightarrow> ((AddrBook \<times> 'f) \<times> 'n, unit) eff" where
  "ConnectToAll F J N s =
     (case s of ((ab, f), n) \<Rightarrow> (case connect_loop N (map fst ab) 0 (ab, n) of (ab1, n1, connected) \<Rightarrow>
        if connected > 0 then (case saved F J ab1 f of (abf, r) \<Rightarrow> ((abf, n1), r)) else (((ab1, f), n1), Inr ())))"

definition AddrBook_DeleteContact :: "'f book_file \<Rightarrow> AddrRecord option list codec \<Rightarrow> bytes \<Rightarrow> AddrBook \<times> 'f \<Rightarrow> (AddrBook \<times> 'f, unit) eff" where
  "AddrBook_DeleteContact F J pubKey abf =
     (case abf of (ab, f) \<Rightarrow> (case gm_get ab (hex_encode pubKey) of
        None \<Rightarrow> (abf, Inl ErrPeerNotFound)
      | Some _ \<Rightarrow> saved F J (gm_del (hex_encode pubKey) ab) f))"

definition AddrBook_Count :: "AddrBook \<Rightarrow> nat" where
  "AddrBook_Count ab = gm_len ab"

inductive book_step :: "'f book_file \<Rightarrow> AddrRecord option list codec \<Rightarrow> 'n ipfs_node \<Rightarrow> (AddrBook \<times> 'f) \<times> 'n \<Rightarrow> (AddrBook \<times> 'f) \<times> 'n \<Rightarrow> bool" for F J N where
  add: "book_step F J N (s, n) (fst (AddrBook_AddContact F J now pubKey peerID addrs s), n)" if "pubKey \<noteq> []"
| update: "book_step F J N (s, n) (fst (UpdateAddresses F J now pubKey addrs s), n)"
| connected: "book_step F J N ((ab, f), n) ((fst (AddrBook_SetConnected pubKey c ab), f), n)"
| connect: "book_step F J N s (fst (ConnectToAll F J N s))"
| remove: "book_step F J N (s, n) (fst (AddrBook_DeleteContact F J pubKey s), n)"

section \<open>The contact tracker\<close>

record TrackedPeer =
  tp_Ed25519PubKey :: bytes
  tp_PeerID :: string
  tp_Multiaddrs :: "string list"
  tp_IsOnline :: bool
  tp_LastSeen :: "time option"
  tp_ConnectedByUs :: bool

record 'd ContactTracker =
  ct_storage :: 'd
  ct_contactPeers :: "(string, TrackedPeer) gomap"
  ct_lastRefresh :: "time option"

definition NewContactTracker :: "'d \<Rightarrow> 'd ContactTracker" where
  "NewContactTracker storage = \<lparr>ct_storage = storage, ct_contactPeers = [], ct_lastRefresh = None\<rparr>"

text \<open>Addresses that do not parse are dropped.\<close>

definition parse_addrs :: "(string \<Rightarrow> string res) \<Rightarrow> string list \<Rightarrow> string list" where
  "parse_addrs NewMultiaddr addrs = List.map_filter (\<lambda>a. case NewMultiaddr a of Inl _ \<Rightarrow> None | Inr m \<Rightarrow> Some m) addrs"

definition tracked :: "(string \<Rightarrow> string res) \<Rightarrow> Contact \<Rightarrow> TrackedPeer" where
  "tracked NewMultiaddr contact = \<lparr>tp_Ed25519PubKey = ct_PublicKey contact, tp_PeerID = ct_PeerId contact,
     tp_Multiaddrs = parse_addrs NewMultiaddr (ct_Multiaddrs contact), tp_IsOnline = False,
     tp_LastSeen = (if ct_LastSeen contact > 0 then Some (unixTime (ct_LastSeen contact)) else None), tp_ConnectedByUs = False\<rparr>"

definition LoadContacts :: "(string \<Rightarrow> string res) \<Rightarrow> 'd message_store \<Rightarrow> 'd ContactTracker \<Rightarrow> ('d ContactTracker, unit) eff" where
  "LoadContacts NewMultiaddr S t =
     (case st_ListContacts S (ct_storage t) of
        Inl e \<Rightarrow> (t, Inl (Wrap ''failed to list contacts'' e))
      | Inr contacts \<Rightarrow> (t\<lparr>ct_contactPeers := fold (\<lambda>c m. gm_set (hex_encode (ct_PublicKey c)) (tracked NewMultiaddr c) m) contacts []\<rparr>, Inr ()))"

definition UpdateContact :: "(string \<Rightarrow> string res) \<Rightarrow> Contact \<Rightarrow> 'd ContactTracker \<Rightarrow> 'd ContactTracker" where
  "UpdateContact NewMultiaddr contact t =
     t\<lparr>ct_contactPeers := gm_set (hex_encode (ct_PublicKey contact)) (tracked NewMultiaddr contact) (ct_contactPeers t)\<rparr>"

definition GetContactInfo :: "bytes \<Rightarrow> 'd ContactTracker \<Rightarrow> TrackedPeer option" where
  "GetContactInfo pubKey t = gm_get (ct_contactPeers t) (hex_encode pubKey)"

definition GetContactPeerID :: "bytes \<Rightarrow> 'd ContactTracker \<Rightarrow> string option" where
  "GetContactPeerID pubKey t =
     (case gm_get (ct_contactPeers t) (hex_encode pubKey) of None \<Rightarrow> None | Some info \<Rightarrow> if tp_PeerID info = '''' then None else Some (tp_PeerID info))"

definition updateContactInStorage :: "'d message_store \<Rightarrow> time \<Rightarrow> bytes \<Rightarrow> string \<Rightarrow> string list \<Rightarrow> 'd ContactTracker \<Rightarrow> ('d ContactTracker, unit) eff" where
  "updateContactInStorage S now pubKey peerID addrs t =
     (case st_GetContact S pubKey (ct_storage t) of
        Inl e \<Rightarrow> (t, Inl e)
      | Inr None \<Rightarrow> (t, Inr ())
      | Inr (Some contact) \<Rightarrow>
          (case st_AddContact S (contact\<lparr>ct_PeerId := peerID, ct_LastSeen := unix now, ct_Multiaddrs := addrs\<rparr>) (ct_storage t) of
             (d, r) \<Rightarrow> (t\<lparr>ct_storage := d\<rparr>, r)))"

definition SetContactOnline :: "'d message_store \<Rightarrow> time \<Rightarrow> time \<Rightarrow> bytes \<Rightarrow> string \<Rightarrow> string list \<Rightarrow> 'd ContactTracker \<Rightarrow> ('d ContactTracker, unit) eff" where
  "SetContactOnline S now now' pubKey peerID addrs t =
     (let k = hex_encode pubKey;
          info = (case gm_get (ct_contactPeers t) k of
              None \<Rightarrow> \<lparr>tp_Ed25519PubKey = pubKey, tp_PeerID = peerID, tp_Multiaddrs = [], tp_IsOnline = False, tp_LastSeen = None, tp_ConnectedByUs = False\<rparr>
            | Some i \<Rightarrow> i);
          info1 = info\<lparr>tp_PeerID := peerID, tp_Multiaddrs := addrs, tp_IsOnline := True, tp_LastSeen := Some now\<rparr>
      in case updateContactInStorage S now' pubKey peerID addrs (t\<lparr>ct_contactPeers := gm_set k info1 (ct_contactPeers t)\<rparr>) of
           (t1, r) \<Rightarrow> (t1, wrapped ''failed to update contact in storage'' r))"

text \<open>An assignment through the pointer to a cached entry, if there is one.\<close>

definition alter :: "string \<Rightarrow> (TrackedPeer \<Rightarrow> TrackedPeer) \<Rightarrow> 'd ContactTracker \<Rightarrow> 'd ContactTracker" where
  "alter k g t = (case gm_get (ct_contactPeers t) k of None \<Rightarrow> t | Some i \<Rightarrow> t\<lparr>ct_contactPeers := gm_set k (g i) (ct_contactPeers t)\<rparr>)"

definition SetContactOffline :: "bytes \<Rightarrow> 'd ContactTracker \<Rightarrow> 'd ContactTracker" where
  "SetContactOffline pubKey = alter (hex_encode pubKey) (\<lambda>i. i\<lparr>tp_IsOnline := False\<rparr>)"

definition Tracker_SetConnected :: "time \<Rightarrow> bytes \<Rightarrow> bool \<Rightarrow> 'd ContactTracker \<Rightarrow> 'd ContactTracker" where
  "Tracker_SetConnected now pubKey connected =
     alter (hex_encode pubKey) (\<lambda>i. if connected then i\<lparr>tp_ConnectedByUs := True, tp_LastSeen := Some now\<rparr> else i\<lparr>tp_ConnectedByUs := False\<rparr>)"

text \<open>\<open>c i\<close> are the two readings of the clock for the \<open>i\<close>-th contact of the loop.\<close>

fun refresh_loop :: "'d message_store \<Rightarrow> 'n ipfs_node \<Rightarrow> 'n \<Rightarrow> (nat \<Rightarrow> time \<times> time) \<Rightarrow> nat \<Rightarrow> string list \<Rightarrow> 'd ContactTracker \<Rightarrow> 'd ContactTracker" where
  "refresh_loop S N n c i [] t = t"
| "refresh_loop S N n c i (k # ks) t =
     (case gm_get (ct_contactPeers t) k of
        None \<Rightarrow> refresh_loop S N n c (Suc i) ks t
      | Some info \<Rightarrow> (case nd_FindPeer N (tp_PeerID info) n of
          Inl _ \<Rightarrow> refresh_loop S N n c (Suc i) ks (alter k (\<lambda>x. x\<lparr>tp_IsOnline := False\<rparr>) t)
        | Inr [] \<Rightarrow> refresh_loop S N n c (Suc i) ks (alter k (\<lambda>x. x\<lparr>tp_IsOnline := False\<rparr>) t)
        | Inr (a # as) \<Rightarrow>
            let t1 = alter k (\<lambda>x. x\<lparr>tp_IsOnline := True, tp_LastSeen := Some (fst (c i)), tp_Multiaddrs := a # as\<rparr>) t
            in refresh_loop S N n c (Suc i) ks (fst (updateContactInStorage S (snd (c i)) (tp_Ed25519PubKey info) (tp_PeerID info) (a # as) t1))))"

definition RefreshOnlineStatus :: "'d message_store \<Rightarrow> 'n ipfs_node \<Rightarrow> 'n \<Rightarrow> (nat \<Rightarrow> time \<times> time) \<Rightarrow> time \<Rightarrow> 'd ContactTracker \<Rightarrow> ('d ContactTracker, unit) eff" where
  "RefreshOnlineStatus S N n c now t =
     (if \<not> nd_IsStarted N n then (t, Inl (Err ''IPFS node not started''))
      else
        let contacts = map fst (filter (\<lambda>(k, info). tp_PeerID info \<noteq> '''') (ct_contactPeers t))
        in ((refresh_loop S N n c 0 contacts t)\<lparr>ct_lastRefresh := Some now\<rparr>, Inr ()))"

definition GetOnlineContacts :: "'d ContactTracker \<Rightarrow> TrackedPeer list" where
  "GetOnlineContacts t = filter tp_IsOnline (map snd (ct_contactPeers t))"

definition Tracker_GetContactByPeerID :: "string \<Rightarrow> 'd ContactTracker \<Rightarrow> TrackedPeer option" where
  "Tracker_GetContactByPeerID peerID t = find (\<lambda>i. tp_PeerID i = peerID) (map snd (ct_contactPeers t))"

record ContactTrackerStats =
  cs_TotalContacts :: nat
  cs_OnlineContacts :: nat
  cs_ConnectedPeers :: nat
  cs_WithPeerID :: nat
  cs_LastRefresh :: "time option"

definition count_peers :: "(TrackedPeer \<Rightarrow> bool) \<Rightarrow> 'd ContactTracker \<Rightarrow> nat" where
  "count_peers p t = fold (\<lambda>i n. if p i then Suc n else n) (map snd (ct_contactPeers t)) 0"

definition Tracker_GetStats :: "'d ContactTracker \<Rightarrow> ContactTrackerStats" where
  "Tracker_GetStats t = \<lparr>cs_TotalContacts = gm_len (ct_contactPeers t), cs_OnlineContacts = count_peers tp_IsOnline t,
     cs_ConnectedPeers = count_peers tp_ConnectedByUs t, cs_WithPeerID = count_peers (\<lambda>i. tp_PeerID i \<noteq> '''') t, cs_LastRefresh = ct_lastRefresh t\<rparr>"

section \<open>Facts on the address book\<close>

lemma book_of_get:
  "distinct (map ar_PublicKey ps) \<Longrightarrow> \<exists>ab. book_of (map Some ps) m = Inr ab \<and>
     (\<forall>k. gm_get ab k = (case map_of (map (\<lambda>p. (ar_PublicKey p, p)) ps) k of None \<Rightarrow> gm_get m k | Some v \<Rightarrow> Some v))"
proof (induction ps arbitrary: m)
  case (Cons p ps)
  obtain ab where ab: "book_of (map Some ps) (gm_set (ar_PublicKey p) p m) = Inr ab"
    "\<And>k. gm_get ab k = (case map_of (map (\<lambda>p. (ar_PublicKey p, p)) ps) k of None \<Rightarrow> gm_get (gm_set (ar_PublicKey p) p m) k | Some v \<Rightarrow> Some v)"
    using Cons by fastforce
  have "map_of (map (\<lambda>p. (ar_PublicKey p, p)) ps) (ar_PublicKey p) = None" using Cons.prems by (auto simp: map_of_eq_None_iff)
  then show ?case using ab by (auto split: option.split)
qed simp

lemma book_of_keyed: "keyed_by ar_PublicKey m \<Longrightarrow> book_of ps m = Inr ab \<Longrightarrow> keyed_by ar_PublicKey ab"
  by (induction ps m rule: book_of.induct) (auto intro: keyed_by_set)

text \<open>Reading back the records of a book gives the book.\<close>

lemma book_of_saved:
  assumes "keyed_by ar_PublicKey ab"
  obtains ab' where "book_of (map (Some \<circ> snd) ab) [] = Inr ab'" "\<And>k. gm_get ab' k = gm_get ab k" "keyed_by ar_PublicKey ab'"
proof -
  have pairs: "map (\<lambda>p. (ar_PublicKey p, p)) (map snd ab) = ab" using assms by (auto simp: keyed_by_def intro!: map_idI)
  obtain ab' where ab': "book_of (map Some (map snd ab)) [] = Inr ab'" "\<And>k. gm_get ab' k = (case map_of ab k of None \<Rightarrow> None | Some v \<Rightarrow> Some v)"
    using book_of_get[OF keyed_by_distinct[OF assms], of "[]"] unfolding pairs by (auto cong: option.case_cong)
  show ?thesis
  proof (rule that)
    show "book_of (map (Some \<circ> snd) ab) [] = Inr ab'" using ab'(1) by simp
    show "gm_get ab' k = gm_get ab k" for k using ab'(2)[of k] by (simp add: gm_get_def split: option.splits)
    show "keyed_by ar_PublicKey ab'" using book_of_keyed[OF _ ab'(1)] by simp
  qed
qed

lemma oldest_min:
  assumes "k0 \<noteq> ''''" "'''' \<notin> fst ` set ab"
  shows "oldest ab k0 t0 = k0 \<and> (\<forall>(c, r)\<in>set ab. t0 \<le> ar_LastSeen r) \<or>
    (\<exists>r. (oldest ab k0 t0, r) \<in> set ab \<and> ar_LastSeen r \<le> t0 \<and> (\<forall>(c, r')\<in>set ab. ar_LastSeen r \<le> ar_LastSeen r'))"
  using assms
proof (induction ab arbitrary: k0 t0)
  case (Cons x ab)
  obtain c r where x: "x = (c, r)" by (cases x)
  have ne: "c \<noteq> ''''" "'''' \<notin> fst ` set ab" using Cons.prems(2) x by auto
  show ?case
  proof (cases "ar_LastSeen r < t0")
    case True
    then have o: "oldest (x # ab) k0 t0 = oldest ab c (ar_LastSeen r)" using x by simp
    show ?thesis using Cons.IH[OF ne, of "ar_LastSeen r"]
    proof (elim disjE exE conjE)
      assume "oldest ab c (ar_LastSeen r) = c" "\<forall>(c, r')\<in>set ab. ar_LastSeen r \<le> ar_LastSeen r'"
      then show ?thesis using True unfolding o x by (intro disjI2 exI[of _ r]) auto
    next
      fix r' assume "(oldest ab c (ar_LastSeen r), r') \<in> set ab" "ar_LastSeen r' \<le> ar_LastSeen r" "\<forall>(c, s)\<in>set ab. ar_LastSeen r' \<le> ar_LastSeen s"
      then show ?thesis using True unfolding o x by (intro disjI2 exI[of _ r']) auto
    qed
  next
    case False
    then have o: "oldest (x # ab) k0 t0 = oldest ab k0 t0" using x Cons.prems(1) by auto
    show ?thesis using Cons.IH[OF Cons.prems(1) ne(2), of t0]
    proof (elim disjE exE conjE)
      assume "oldest ab k0 t0 = k0" "\<forall>(c, r')\<in>set ab. t0 \<le> ar_LastSeen r'"
      then have "\<forall>(c, r')\<in>set (x # ab). t0 \<le> ar_LastSeen r'" using False x by simp
      then show ?thesis using \<open>oldest ab k0 t0 = k0\<close> unfolding o by blast
    next
      fix r' assume "(oldest ab k0 t0, r') \<in> set ab" "ar_LastSeen r' \<le> t0" "\<forall>(c, s)\<in>set ab. ar_LastSeen r' \<le> ar_LastSeen s"
      then show ?thesis using False Cons.prems(1) unfolding o x by (intro disjI2 exI[of _ r']) auto
    qed
  qed
qed simp

lemma removeOldest_spec:
  assumes "ab \<noteq> []" "gm_ok ab" "gm_get ab '''' = None"
  obtains k r where "removeOldestPeer ab = gm_del k ab" "gm_get ab k = Some r" "\<And>c s. gm_get ab c = Some s \<Longrightarrow> ar_LastSeen r \<le> ar_LastSeen s"
proof -
  obtain c r rest where ab: "ab = (c, r) # rest" using assms(1) by (cases ab) auto
  have no: "'''' \<notin> fst ` set ab" using assms(3) by (simp add: gm_get_def map_of_eq_None_iff)
  then have c: "c \<noteq> ''''" "'''' \<notin> fst ` set rest" using ab by auto
  have k: "oldest ab '''' 0 = oldest rest c (ar_LastSeen r)" by (simp add: ab)
  obtain r' where r': "(oldest ab '''' 0, r') \<in> set ab" "\<forall>(c, s)\<in>set ab. ar_LastSeen r' \<le> ar_LastSeen s"
    using oldest_min[OF c, of "ar_LastSeen r"] unfolding k by (auto simp: ab)
  moreover from r' no have "oldest ab '''' 0 \<noteq> ''''" by force
  ultimately show ?thesis using that[of "oldest ab '''' 0" r'] assms(2) by (force simp: removeOldestPeer_def gm_in_set_get)
qed


lemma saved_parts:
  assumes "saved F J ab f = ((ab', f'), r)"
  shows "ab' = ab" "r = Inr () \<Longrightarrow> \<exists>data f1. marshal J (map (Some \<circ> snd) ab) = Inr data \<and> bf_WriteFile F data f1 = (f', Inr ())"
  using assms by (auto simp: saved_def saveLocked_def wrapped_def split: prod.splits sum.splits)

lemma connect_loop_spec:
  "keyed_by ar_PublicKey ab \<Longrightarrow> connect_loop N ks c (ab, n) = (ab', n', c') \<Longrightarrow>
     keyed_by ar_PublicKey ab' \<and> gm_len ab' = gm_len ab \<and> gm_dom ab' = gm_dom ab"
proof (induction ks arbitrary: c ab n)
  case (Cons k ks)
  show ?case
  proof (cases "gm_get ab k")
    case (Some r)
    have k: "keyed_by ar_PublicKey (gm_set k (r\<lparr>ar_Connected := True\<rparr>) ab)" "gm_len (gm_set k (r\<lparr>ar_Connected := True\<rparr>) ab) = gm_len ab"
      "gm_dom (gm_set k (r\<lparr>ar_Connected := True\<rparr>) ab) = gm_dom ab"
      using Some keyed_by_get[OF Cons.prems(1) Some] Cons.prems(1) by (auto intro!: keyed_by_set simp: gm_len_set gm_dom_get split: if_splits)
    show ?thesis using Cons.prems(2) Some Cons.IH[OF Cons.prems(1)] Cons.IH[OF k(1)] k(2,3) by (auto split: list.splits prod.splits sum.splits)
  qed (use Cons in auto)
qed simp

text \<open>The invariant: one record per key, none without a key, and never more records than the bound.\<close>

definition book_ok :: "nat \<Rightarrow> AddrBook \<Rightarrow> bool" where
  "book_ok b ab \<longleftrightarrow> keyed_by ar_PublicKey ab \<and> gm_get ab '''' = None \<and> gm_len ab \<le> b"

lemma hex_encode_Nil_iff: "hex_encode b = '''' \<longleftrightarrow> b = []"
  by (cases b) (auto simp: hex_encode_def)

lemma book_ok_overwrite:
  assumes "book_ok b ab" "gm_get ab k = Some r" "ar_PublicKey r' = ar_PublicKey r"
  shows "book_ok b (gm_set k r' ab)"
  using assms keyed_by_get[of ar_PublicKey ab k r] by (auto simp: book_ok_def gm_len_set intro!: keyed_by_set)

lemma book_ok_del: "book_ok b ab \<Longrightarrow> book_ok b (gm_del k ab)"
  using gm_len_del_le[of k ab] by (auto simp: book_ok_def keyed_by_del)

lemma book_ok_insert:
  assumes "book_ok b ab" "gm_get ab k = None" "k \<noteq> ''''" "ar_PublicKey r = k" "MaxPeers \<le> b"
  shows "book_ok b (if gm_len (gm_set k r ab) > MaxPeers then removeOldestPeer (gm_set k r ab) else gm_set k r ab)"
proof (cases "gm_len (gm_set k r ab) > MaxPeers")
  case True
  have ok: "keyed_by ar_PublicKey (gm_set k r ab)" "gm_get (gm_set k r ab) '''' = None" "gm_len (gm_set k r ab) \<le> Suc b"
    using assms by (auto simp: book_ok_def gm_len_set intro!: keyed_by_set)
  have "gm_set k r ab \<noteq> []" using True by auto
  then obtain c s where c: "removeOldestPeer (gm_set k r ab) = gm_del c (gm_set k r ab)" "gm_get (gm_set k r ab) c = Some s"
    by (rule removeOldest_spec[of "gm_set k r ab"]) (use ok in \<open>simp_all only: keyed_by_def\<close>)
  have "gm_len (gm_del c (gm_set k r ab)) = gm_len (gm_set k r ab) - 1" using c(2) ok(1) by (subst gm_len_del) (auto simp: keyed_by_def)
  then show ?thesis using True ok c(1) by (auto simp: book_ok_def keyed_by_del)
qed (use assms in \<open>auto simp: book_ok_def gm_len_set intro!: keyed_by_set\<close>)

lemma saved_book [simp]: "fst (fst (saved F J ab f)) = ab"
  by (simp add: saved_def split: prod.split)

lemma AddContact_book_ok:
  assumes "book_ok b ab" "pubKey \<noteq> []" "MaxPeers \<le> b"
  shows "book_ok b (fst (fst (AddrBook_AddContact F J now pubKey peerID addrs (ab, f))))"
proof (cases "gm_get ab (hex_encode pubKey)")
  case None
  then show ?thesis
    using book_ok_insert[OF assms(1) None _ _ assms(3)] assms(2) by (simp add: AddrBook_AddContact_def Let_def hex_encode_Nil_iff)
qed (use assms in \<open>simp add: AddrBook_AddContact_def Let_def book_ok_overwrite\<close>)

lemma book_step_ok:
  assumes "book_step F J N s t" "book_ok b (fst (fst s))" "MaxPeers \<le> b"
  shows "book_ok b (fst (fst t))"
  using assms(1,2)
proof cases
  case (add pubKey s n now peerID addrs)
  then show ?thesis using assms(2,3) by (cases s) (auto intro: AddContact_book_ok)
next
  case (connect)
  obtain ab f n where s: "s = ((ab, f), n)" by (metis prod.collapse)
  obtain ab1 n1 c where l: "connect_loop N (map fst ab) 0 (ab, n) = (ab1, n1, c)" by (metis prod.collapse)
  have "book_ok b ab1" using assms(2) connect_loop_spec[OF _ l] unfolding s book_ok_def by (force simp: gm_dom_get)
  then show ?thesis unfolding connect(1) ConnectToAll_def s by (auto simp: l dest: saved_parts(1) split: prod.split)
qed (use assms(2) in \<open>auto simp: UpdateAddresses_def AddrBook_SetConnected_def AddrBook_DeleteContact_def
  intro: book_ok_overwrite book_ok_del split: prod.split option.split\<close>)

interpretation book: kept_invariant "book_step F J N" "\<lambda>s. MaxPeers \<le> b \<and> book_ok b (fst (fst s))" for F J N b
  by unfold_locales (auto intro: book_step_ok)


text \<open>The documented behaviour of the file and of JSON: a read returns what was last written, and texts of ASCII characters survive.\<close>

definition file_ok :: "'f book_file \<Rightarrow> bool" where
  "file_ok F \<longleftrightarrow> (\<forall>data f f'. bf_WriteFile F data f = (f', Inr ()) \<longrightarrow> bf_ReadFile F f' = Inr (Some data))"

definition ascii_record :: "AddrRecord \<Rightarrow> bool" where
  "ascii_record r \<longleftrightarrow> (\<forall>s \<in> set (ar_PublicKey r # ar_PeerID r # ar_Addresses r). \<forall>c \<in> set s. (of_char c :: nat) < 128)"

definition book_json_ok :: "AddrRecord option list codec \<Rightarrow> bool" where
  "book_json_ok J \<longleftrightarrow> (\<forall>ps data. (\<forall>r. Some r \<in> set ps \<longrightarrow> ascii_record r) \<longrightarrow> marshal J ps = Inr data \<longrightarrow> unmarshal J data = Inr ps)"

lemma saved_reloads:
  assumes "book_json_ok J" "file_ok F" "keyed_by ar_PublicKey ab" "\<forall>r \<in> set (GetAllContacts ab). ascii_record r" "saved F J ab f = ((ab', f'), Inr ())"
  obtains ab2 where "NewAddrBook F J f' = Inr ab2" "\<And>k. gm_get ab2 k = gm_get ab k"
proof -
  obtain data f1 where d: "marshal J (map (Some \<circ> snd) ab) = Inr data" "bf_WriteFile F data f1 = (f', Inr ())" using saved_parts(2)[OF assms(5)] by auto
  have "ascii_record r" if "Some r \<in> set (map (Some \<circ> snd) ab)" for r using assms(4) that by (auto simp: GetAllContacts_def)
  then have "unmarshal J data = Inr (map (Some \<circ> snd) ab)" using assms(1) d(1) unfolding book_json_ok_def by blast
  moreover have "bf_ReadFile F f' = Inr (Some data)" using assms(2) d(2) by (auto simp: file_ok_def)
  moreover obtain ab2 where "book_of (map (Some \<circ> snd) ab) [] = Inr ab2" "\<And>k. gm_get ab2 k = gm_get ab k" using book_of_saved[OF assms(3)] by blast
  ultimately show ?thesis using that by (simp add: NewAddrBook_def AddrBook_load_def wrapped_def rbind_def)
qed


text \<open>The changes of the book that write the file.\<close>

definition book_change :: "'f book_file \<Rightarrow> AddrRecord option list codec \<Rightarrow> AddrBook \<times> 'f \<Rightarrow> (AddrBook \<times> 'f, unit) eff \<Rightarrow> bool" where
  "book_change F J s r \<longleftrightarrow> (\<exists>now pubKey peerID addrs. pubKey \<noteq> [] \<and> r = AddrBook_AddContact F J now pubKey peerID addrs s) \<or>
     (\<exists>now pubKey addrs. r = UpdateAddresses F J now pubKey addrs s) \<or> (\<exists>pubKey. r = AddrBook_DeleteContact F J pubKey s)"

lemma book_change_saves:
  assumes "book_change F J (ab, f) ((ab', f'), Inr ())"
  shows "saved F J ab' f = ((ab', f'), Inr ())"
proof -
  have "((ab', f'), Inr ()) = saved F J x f \<Longrightarrow> ?thesis" for x using saved_parts(1)[of F J x f ab' f' "Inr ()"] by metis
  then show ?thesis using assms
    by (auto simp: book_change_def AddrBook_AddContact_def UpdateAddresses_def AddrBook_DeleteContact_def Let_def split: option.splits if_splits)
qed

lemma book_change_step: "book_change F J s r \<Longrightarrow> book_step F J N (s, n) (fst r, n)"
  unfolding book_change_def by (auto intro: book_step.intros)

lemma NewAddrBook_ok:
  assumes "NewAddrBook F J f = Inr ab" "AddrBook_GetContact [] ab = Inl ErrPeerNotFound"
  shows "book_ok (max MaxPeers (AddrBook_Count ab)) ab"
proof -
  have "keyed_by ar_PublicKey ab"
    using assms(1) by (auto simp: NewAddrBook_def AddrBook_load_def wrapped_def rbind_def intro: book_of_keyed[OF keyed_by_Nil] split: sum.splits option.splits)
  then show ?thesis using assms(2) by (auto simp: book_ok_def AddrBook_Count_def AddrBook_GetContact_def split: option.splits)
qed

lemma reached_book_ok:
  assumes "NewAddrBook F J f0 = Inr ab0" "AddrBook_GetContact [] ab0 = Inl ErrPeerNotFound" "(book_step F J N)\<^sup>*\<^sup>* ((ab0, f0), n0) ((ab, f), n)"
  shows "book_ok (max MaxPeers (AddrBook_Count ab0)) ab"
  using book.reachable_inv[OF assms(3), of "max MaxPeers (AddrBook_Count ab0)"] NewAddrBook_ok[OF assms(1,2)] by simp

lemma eviction:
  assumes "book_ok b ab" "gm_get ab k = None" "k \<noteq> ''''" "ar_PublicKey r = k"
  obtains v where "v \<in> insert r (set (GetAllContacts ab))" "\<forall>s \<in> insert r (set (GetAllContacts ab)). ar_LastSeen v \<le> ar_LastSeen s"
    "set (GetAllContacts (removeOldestPeer (gm_set k r ab))) = insert r (set (GetAllContacts ab)) - {v}"
proof -
  have keyed: "keyed_by ar_PublicKey (gm_set k r ab)" "keyed_by ar_PublicKey ab" using assms by (auto simp: book_ok_def intro: keyed_by_set)
  have all: "set (GetAllContacts (gm_set k r ab)) = insert r (set (GetAllContacts ab))"
    using keyed_by_vals[OF keyed(1)] keyed_by_vals[OF keyed(2)] assms(2,4) by (auto simp: GetAllContacts_def)
  have ne: "gm_set k r ab \<noteq> []" using gm_len_set[of k r ab] assms(2) by auto
  have "gm_ok (gm_set k r ab)" "gm_get (gm_set k r ab) '''' = None" using keyed assms by (auto simp: book_ok_def keyed_by_def)
  then obtain c v where c: "removeOldestPeer (gm_set k r ab) = gm_del c (gm_set k r ab)" "gm_get (gm_set k r ab) c = Some v"
      "\<And>d s. gm_get (gm_set k r ab) d = Some s \<Longrightarrow> ar_LastSeen v \<le> ar_LastSeen s"
    by (rule removeOldest_spec[OF ne]) (rule that; assumption)
  have v: "ar_PublicKey v = c" using keyed_by_get[OF keyed(1) c(2)] .
  have vals: "s \<in> set (GetAllContacts (gm_set k r ab)) \<longleftrightarrow> gm_get (gm_set k r ab) (ar_PublicKey s) = Some s" for s
    using keyed_by_vals[OF keyed(1)] by (auto simp only: GetAllContacts_def mem_Collect_eq)
  show ?thesis
  proof (rule that)
    show "v \<in> insert r (set (GetAllContacts ab))" using vals[of v] c(2) v by (simp only: all)
    show "\<forall>s \<in> insert r (set (GetAllContacts ab)). ar_LastSeen v \<le> ar_LastSeen s" using vals c(3) by (simp only: all) blast
    have "set (GetAllContacts (gm_del c (gm_set k r ab))) = {s. gm_get (gm_del c (gm_set k r ab)) (ar_PublicKey s) = Some s}"
      using keyed_by_vals[OF keyed_by_del[OF keyed(1)]] by (simp only: GetAllContacts_def)
    also have "\<dots> = set (GetAllContacts (gm_set k r ab)) - {v}"
    proof (intro set_eqI)
      fix s show "s \<in> {s. gm_get (gm_del c (gm_set k r ab)) (ar_PublicKey s) = Some s} \<longleftrightarrow> s \<in> set (GetAllContacts (gm_set k r ab)) - {v}"
        unfolding Diff_iff vals using c(2) v by (auto split: if_splits)
    qed
    finally show "set (GetAllContacts (removeOldestPeer (gm_set k r ab))) = insert r (set (GetAllContacts ab)) - {v}" by (simp only: all c(1))
  qed
qed

definition ser_AddrRecord :: "AddrRecord ser" where
  "ser_AddrRecord = s_iso (\<lambda>r. (ar_PublicKey r, ar_PeerID r, ar_Addresses r, ar_LastSeen r, ar_Connected r))
     (\<lambda>(x0, x1, x2, x3, x4). \<lparr>ar_PublicKey = x0, ar_PeerID = x1, ar_Addresses = x2, ar_LastSeen = x3, ar_Connected = x4\<rparr>)
     (s_pair s_string (s_pair s_string (s_pair (s_list s_string) (s_pair s_int s_bool))))"

lemma ser_AddrRecord_ok [ser_intros]: "ser_ok ser_AddrRecord"
  unfolding ser_AddrRecord_def by (rule s_iso_ok, intro ser_intros, simp)

text \<open>A file system of one file, and a full book.\<close>

definition one_file :: "bytes option book_file" where
  "one_file = \<lparr>bf_ReadFile = Inr, bf_MkdirAll = (\<lambda>f. (f, Inr ())), bf_WriteFile = (\<lambda>data f. (Some data, Inr ()))\<rparr>"

definition json_book :: "AddrRecord option list codec" where
  "json_book = codec_of (s_list (s_opt ser_AddrRecord))"

lemma one_file_ok: "file_ok one_file"
  by (simp add: file_ok_def one_file_def)

lemma json_book_ok: "book_json_ok json_book"
proof -
  have "codec_ok json_book" unfolding json_book_def by (intro codec_of_ok ser_intros)
  then show ?thesis unfolding book_json_ok_def by (metis codec_unmarshal_marshal)
qed


text \<open>The address book is bounded: a book that was loaded without an entry under the empty key never has more than \<open>MaxPeers\<close> entries (or as many as the file
  had, if it had more), through every sequence of its operations; and adding a new peer to a full book drops exactly one record, one whose
  \<open>LastSeen\<close> is the least of all.
\<close>

theorem addr_book_bounded:
  fixes pubKey peerID addrs now
  assumes "NewAddrBook F J f0 = Inr ab0" "AddrBook_GetContact [] ab0 = Inl ErrPeerNotFound" "(book_step F J N)\<^sup>*\<^sup>* ((ab0, f0), n0) ((ab, f), n)"
  defines "new \<equiv> \<lparr>ar_PublicKey = hex_encode pubKey, ar_PeerID = peerID, ar_Addresses = addrs, ar_LastSeen = now, ar_Connected = False\<rparr>"
    and "ab' \<equiv> fst (fst (AddrBook_AddContact F J now pubKey peerID addrs (ab, f)))"
  shows "AddrBook_Count ab \<le> max MaxPeers (AddrBook_Count ab0) \<and>
    (pubKey \<noteq> [] \<longrightarrow> AddrBook_GetContact pubKey ab = Inl ErrPeerNotFound \<longrightarrow>
       (if AddrBook_Count ab < MaxPeers then set (GetAllContacts ab') = insert new (set (GetAllContacts ab))
        else \<exists>v \<in> insert new (set (GetAllContacts ab)). (\<forall>s \<in> insert new (set (GetAllContacts ab)). ar_LastSeen v \<le> ar_LastSeen s) \<and>
               set (GetAllContacts ab') = insert new (set (GetAllContacts ab)) - {v}))"
proof (intro conjI impI)
  have ok: "book_ok (max MaxPeers (AddrBook_Count ab0)) ab" using reached_book_ok[OF assms(1,2,3)] .
  then show "AddrBook_Count ab \<le> max MaxPeers (AddrBook_Count ab0)" by (simp add: book_ok_def AddrBook_Count_def)
  assume p: "pubKey \<noteq> []" "AddrBook_GetContact pubKey ab = Inl ErrPeerNotFound"
  then have k: "gm_get ab (hex_encode pubKey) = None" "hex_encode pubKey \<noteq> []"
    by (auto simp: AddrBook_GetContact_def hex_encode_Nil_iff split: option.splits)
  have len: "gm_len (gm_set (hex_encode pubKey) new ab) = Suc (AddrBook_Count ab)" using k(1) by (simp add: gm_len_set AddrBook_Count_def)
  have ab': "ab' = (if AddrBook_Count ab < MaxPeers then gm_set (hex_encode pubKey) new ab else removeOldestPeer (gm_set (hex_encode pubKey) new ab))"
    using k(1) len by (simp add: assms(5) AddrBook_AddContact_def new_def Let_def)
  obtain v where "v \<in> insert new (set (GetAllContacts ab))" "\<forall>s \<in> insert new (set (GetAllContacts ab)). ar_LastSeen v \<le> ar_LastSeen s"
    "set (GetAllContacts (removeOldestPeer (gm_set (hex_encode pubKey) new ab))) = insert new (set (GetAllContacts ab)) - {v}"
    by (rule eviction[OF ok k, of new]) (simp add: new_def)
  moreover have "set (GetAllContacts (gm_set (hex_encode pubKey) new ab)) = insert new (set (GetAllContacts ab))"
    using k(1) ok keyed_by_vals[of ar_PublicKey ab] keyed_by_vals[OF keyed_by_set, of ar_PublicKey ab new "hex_encode pubKey"]
    by (auto simp: GetAllContacts_def book_ok_def new_def split: if_splits)
  ultimately show "if AddrBook_Count ab < MaxPeers then set (GetAllContacts ab') = insert new (set (GetAllContacts ab))
        else \<exists>v \<in> insert new (set (GetAllContacts ab)). (\<forall>s \<in> insert new (set (GetAllContacts ab)). ar_LastSeen v \<le> ar_LastSeen s) \<and>
               set (GetAllContacts ab') = insert new (set (GetAllContacts ab)) - {v}"
    unfolding ab' by auto
qed



definition old_book :: AddrBook where
  "old_book = [(hex_encode [1], \<lparr>ar_PublicKey = hex_encode [1], ar_PeerID = ''p'', ar_Addresses = [''/ip4''], ar_LastSeen = 5, ar_Connected = False\<rparr>)]"

lemma old_book_loaded: "NewAddrBook one_file json_book (Some (sum.projr (marshal json_book (map (Some \<circ> snd) old_book)))) = Inr old_book"
  by code_simp

theorem addr_book_bounded_witness:
  "AddrBook_Count old_book \<le> max MaxPeers 1 \<and>
   set (GetAllContacts (fst (fst (AddrBook_AddContact one_file json_book 9 [2] ''q'' [] (old_book, Some (sum.projr (marshal json_book (map (Some \<circ> snd) old_book)))))))) =
     insert \<lparr>ar_PublicKey = hex_encode [2], ar_PeerID = ''q'', ar_Addresses = [], ar_LastSeen = 9, ar_Connected = False\<rparr> (set (GetAllContacts old_book))"
proof -
  have "AddrBook_GetContact [] old_book = Inl ErrPeerNotFound" "AddrBook_GetContact [2] old_book = Inl ErrPeerNotFound"
    "AddrBook_Count old_book < MaxPeers" "AddrBook_Count old_book = 1" by code_simp+
  then show ?thesis
    using addr_book_bounded[OF old_book_loaded _ rtranclp.rtrancl_refl, of "[2]" 9 "''q''" "[]"] by simp
qed


section \<open>Facts on the contact tracker\<close>

inductive ct_step :: "(string \<Rightarrow> string res) \<Rightarrow> 'd message_store \<Rightarrow> 'n ipfs_node \<Rightarrow> 'd ContactTracker \<Rightarrow> 'd ContactTracker \<Rightarrow> bool" for M S N where
  load: "ct_step M S N t (fst (LoadContacts M S t))"
| update: "ct_step M S N t (UpdateContact M contact t)"
| online: "ct_step M S N t (fst (SetContactOnline S now now' pubKey peerID addrs t))"
| offline: "ct_step M S N t (SetContactOffline pubKey t)"
| connected: "ct_step M S N t (Tracker_SetConnected now pubKey c t)"
| refresh: "ct_step M S N t (fst (RefreshOnlineStatus S N n clock now t))"

definition tracker_ok :: "'d ContactTracker \<Rightarrow> bool" where
  "tracker_ok t \<longleftrightarrow> keyed_by (hex_encode \<circ> tp_Ed25519PubKey) (ct_contactPeers t)"

text \<open>One turn of the loop of \<open>RefreshOnlineStatus\<close>.\<close>

definition refresh_one :: "'d message_store \<Rightarrow> 'n ipfs_node \<Rightarrow> 'n \<Rightarrow> time \<times> time \<Rightarrow> string \<Rightarrow> 'd ContactTracker \<Rightarrow> 'd ContactTracker" where
  "refresh_one S N n c k t = refresh_loop S N n (\<lambda>_. c) 0 [k] t"

lemma refresh_loop_Cons: "refresh_loop S N n c i (k # ks) t = refresh_loop S N n c (Suc i) ks (refresh_one S N n (c i) k t)"
  by (simp add: refresh_one_def Let_def split: option.split sum.split list.split)

lemma alter_get: "gm_get (ct_contactPeers (alter k g t)) k' = (if k' = k then map_option g (gm_get (ct_contactPeers t) k) else gm_get (ct_contactPeers t) k')"
  by (simp add: alter_def split: option.split)

lemma alter_storage [simp]: "ct_storage (alter k g t) = ct_storage t"
  by (simp add: alter_def split: option.split)

lemma alter_ok:
  assumes "tracker_ok t" "\<And>i. tp_Ed25519PubKey (g i) = tp_Ed25519PubKey i"
  shows "tracker_ok (alter k g t)"
  using assms keyed_by_get[of "hex_encode \<circ> tp_Ed25519PubKey" "ct_contactPeers t" k]
  by (auto simp: tracker_ok_def alter_def intro!: keyed_by_set split: option.split)

lemma updateContactInStorage_peers [simp]: "ct_contactPeers (fst (updateContactInStorage S now pk pid addrs t)) = ct_contactPeers t"
  by (simp add: updateContactInStorage_def split: sum.split option.split prod.split)

lemma updateContactInStorage_ok [simp]: "tracker_ok (fst (updateContactInStorage S now pk pid addrs t)) = tracker_ok t"
  by (simp add: tracker_ok_def)

lemma refresh_one_ok: "tracker_ok t \<Longrightarrow> tracker_ok (refresh_one S N n c k t)"
  by (auto simp: refresh_one_def Let_def intro!: alter_ok split: option.split sum.split list.split)

lemma refresh_loop_ok: "tracker_ok t \<Longrightarrow> tracker_ok (refresh_loop S N n c i ks t)"
  by (induction ks arbitrary: i t) (simp_all only: refresh_loop.simps(1) refresh_loop_Cons refresh_one_ok)

lemma tracked_key: "tp_Ed25519PubKey (tracked M c) = ct_PublicKey c"
  by (simp add: tracked_def)

lemma LoadContacts_ok: "tracker_ok t \<Longrightarrow> tracker_ok (fst (LoadContacts M S t))"
proof -
  have "keyed_by (hex_encode \<circ> tp_Ed25519PubKey) m \<Longrightarrow>
      keyed_by (hex_encode \<circ> tp_Ed25519PubKey) (fold (\<lambda>c m. gm_set (hex_encode (ct_PublicKey c)) (tracked M c) m) cs m)" for cs m
    by (induction cs arbitrary: m) (simp_all add: keyed_by_set tracked_key)
  then show "tracker_ok t \<Longrightarrow> tracker_ok (fst (LoadContacts M S t))" by (auto simp: tracker_ok_def LoadContacts_def split: sum.split)
qed

lemma SetContactOnline_ok: "tracker_ok t \<Longrightarrow> tracker_ok (fst (SetContactOnline S now now' pk pid addrs t))"
  using keyed_by_get[of "hex_encode \<circ> tp_Ed25519PubKey" "ct_contactPeers t" "hex_encode pk"]
  by (auto simp: tracker_ok_def SetContactOnline_def Let_def case_prod_beta intro!: keyed_by_set split: option.split)

lemma UpdateContact_ok: "tracker_ok t \<Longrightarrow> tracker_ok (UpdateContact M c t)"
  by (auto simp: tracker_ok_def UpdateContact_def tracked_key intro!: keyed_by_set)

interpretation tracker: kept_invariant "ct_step M S N" tracker_ok for M S N
proof unfold_locales
  fix s t assume ok: "tracker_ok s" and "ct_step M S N s t"
  from this(2) show "tracker_ok t"
  proof cases
    case refresh
    then show ?thesis using ok refresh_loop_ok[OF ok] by (auto simp: RefreshOnlineStatus_def tracker_ok_def Let_def)
  qed (use ok in \<open>auto intro: LoadContacts_ok SetContactOnline_ok UpdateContact_ok alter_ok simp: SetContactOffline_def Tracker_SetConnected_def\<close>)
qed


text \<open>What a refresh makes of the entry and of the stored contact of a peer, given what the network found.\<close>

definition presence_after :: "string list res \<Rightarrow> TrackedPeer \<Rightarrow> TrackedPeer \<Rightarrow> bool" where
  "presence_after found info info' \<longleftrightarrow> (case found of
      Inr (a # as) \<Rightarrow> \<exists>now. info' = info\<lparr>tp_IsOnline := True, tp_LastSeen := Some now, tp_Multiaddrs := a # as\<rparr>
    | _ \<Rightarrow> info' = info\<lparr>tp_IsOnline := False\<rparr>)"

definition stored_after :: "string list res \<Rightarrow> string \<Rightarrow> Contact option res \<Rightarrow> Contact option res \<Rightarrow> bool" where
  "stored_after found peerID r r' \<longleftrightarrow> (case (found, r) of
      (Inr (a # as), Inr (Some c)) \<Rightarrow> \<exists>now. r' = Inr (Some (c\<lparr>ct_PeerId := peerID, ct_LastSeen := unix now, ct_Multiaddrs := a # as\<rparr>))
    | _ \<Rightarrow> r' = r)"

text \<open>The tracker's interface to the store: a contact that was added is read back, the others stay, and a contact is stored under its key.\<close>

locale contact_store =
  fixes S :: "'d message_store" and ok :: "'d \<Rightarrow> bool"
  assumes add_get: "ok d \<Longrightarrow> \<exists>d'. st_AddContact S c d = (d', Inr ()) \<and> ok d' \<and>
      (\<forall>k. st_GetContact S k d' = (if k = ct_PublicKey c then Inr (Some c) else st_GetContact S k d))"
    and contact_key: "ok d \<Longrightarrow> st_GetContact S k d = Inr (Some c) \<Longrightarrow> ct_PublicKey c = k"
begin

lemma update_stored:
  assumes "ok (ct_storage t)"
  shows "ok (ct_storage (fst (updateContactInStorage S now pk pid (a # as) t))) \<and>
    (\<forall>k. if k = pk then stored_after (Inr (a # as)) pid (st_GetContact S k (ct_storage t)) (st_GetContact S k (ct_storage (fst (updateContactInStorage S now pk pid (a # as) t))))
       else st_GetContact S k (ct_storage (fst (updateContactInStorage S now pk pid (a # as) t))) = st_GetContact S k (ct_storage t))"
proof (cases "\<exists>c. st_GetContact S pk (ct_storage t) = Inr (Some c)")
  case True
  then obtain c where c: "st_GetContact S pk (ct_storage t) = Inr (Some c)" by blast
  show ?thesis using add_get[OF assms, of "c\<lparr>ct_PeerId := pid, ct_LastSeen := unix now, ct_Multiaddrs := a # as\<rparr>"] contact_key[OF assms c] c
    by (auto simp: updateContactInStorage_def stored_after_def)
qed (auto simp: updateContactInStorage_def stored_after_def assms split: sum.split option.split)

lemma refresh_one_spec:
  fixes N :: "'n ipfs_node"
  assumes "tracker_ok t" "ok (ct_storage t)" "gm_get (ct_contactPeers t) k = Some info"
    and t'_def: "t' = refresh_one S N n c k t" and found_def: "found = nd_FindPeer N (tp_PeerID info) n"
  shows "ok (ct_storage t')" "\<exists>info'. gm_get (ct_contactPeers t') k = Some info' \<and> presence_after found info info'"
    "stored_after found (tp_PeerID info) (st_GetContact S (tp_Ed25519PubKey info) (ct_storage t)) (st_GetContact S (tp_Ed25519PubKey info) (ct_storage t'))"
    "k' \<noteq> k \<Longrightarrow> gm_get (ct_contactPeers t') k' = gm_get (ct_contactPeers t) k'"
    "pk \<noteq> tp_Ed25519PubKey info \<Longrightarrow> st_GetContact S pk (ct_storage t') = st_GetContact S pk (ct_storage t)"
proof -
  define t1 where "t1 as = alter k (\<lambda>x. x\<lparr>tp_IsOnline := True, tp_LastSeen := Some (fst c), tp_Multiaddrs := as\<rparr>) t" for as
  have t': "t' = (case found of Inr (a # as) \<Rightarrow> fst (updateContactInStorage S (snd c) (tp_Ed25519PubKey info) (tp_PeerID info) (a # as) (t1 (a # as)))
      | _ \<Rightarrow> alter k (\<lambda>x. x\<lparr>tp_IsOnline := False\<rparr>) t)"
    using assms(3) by (simp add: t'_def found_def refresh_one_def t1_def Let_def split: sum.split list.split)
  have st: "ok (ct_storage (t1 as))" "ct_storage (t1 as) = ct_storage t" for as by (simp_all add: t1_def assms(2))
  note upd = update_stored[OF st(1), unfolded st(2)]
  show "ok (ct_storage t')" using upd assms(2) by (simp add: t' split: sum.split list.split)
  show "\<exists>info'. gm_get (ct_contactPeers t') k = Some info' \<and> presence_after found info info'"
    using assms(3) by (auto simp: t' t1_def alter_get presence_after_def split: sum.split list.split)
  show "stored_after found (tp_PeerID info) (st_GetContact S (tp_Ed25519PubKey info) (ct_storage t)) (st_GetContact S (tp_Ed25519PubKey info) (ct_storage t'))"
  proof (cases "\<exists>a as. found = Inr (a # as)")
    case True
    then show ?thesis using upd by (auto simp: t')
  qed (auto simp: t' stored_after_def split: sum.splits list.splits)
  show "k' \<noteq> k \<Longrightarrow> gm_get (ct_contactPeers t') k' = gm_get (ct_contactPeers t) k'"
    by (simp add: t' t1_def alter_get split: sum.split list.split)
  show "pk \<noteq> tp_Ed25519PubKey info \<Longrightarrow> st_GetContact S pk (ct_storage t') = st_GetContact S pk (ct_storage t)"
    using upd by (simp add: t' split: sum.split list.split)
qed


lemma refresh_loop_spec:
  fixes N :: "'n ipfs_node"
  assumes "tracker_ok t" "ok (ct_storage t)" "distinct ks" "gm_get (ct_contactPeers t) (hex_encode pk) = Some info"
    and t'_def: "t' = refresh_loop S N n c i ks t" and "set ks \<subseteq> gm_dom (ct_contactPeers t)"
  shows "if hex_encode pk \<in> set ks
    then (\<exists>info'. gm_get (ct_contactPeers t') (hex_encode pk) = Some info' \<and> presence_after (nd_FindPeer N (tp_PeerID info) n) info info') \<and>
      stored_after (nd_FindPeer N (tp_PeerID info) n) (tp_PeerID info) (st_GetContact S pk (ct_storage t)) (st_GetContact S pk (ct_storage t'))
    else gm_get (ct_contactPeers t') (hex_encode pk) = Some info \<and> st_GetContact S pk (ct_storage t') = st_GetContact S pk (ct_storage t)"
  using assms
proof (induction ks arbitrary: i t info)
  case (Cons k ks)
  let ?t1 = "refresh_one S N n (c i) k t"
  obtain ik where ik: "gm_get (ct_contactPeers t) k = Some ik" using Cons.prems(6) by (auto simp: gm_dom_get)
  note one = refresh_one_spec[OF Cons.prems(1,2) ik refl refl, where N = N and n = n and c = "c i"]
  have key: "k = hex_encode (tp_Ed25519PubKey ik)" using keyed_by_get[of "hex_encode \<circ> tp_Ed25519PubKey"] Cons.prems(1) ik by (auto simp: tracker_ok_def)
  have dom: "set ks \<subseteq> gm_dom (ct_contactPeers ?t1)"
  proof
    fix k' assume "k' \<in> set ks"
    then have "k' \<noteq> k" "k' \<in> gm_dom (ct_contactPeers t)" using Cons.prems(3,6) by auto
    then show "k' \<in> gm_dom (ct_contactPeers ?t1)" using one(4)[where k' = k'] by (simp add: gm_dom_get)
  qed
  note IH = Cons.IH[OF refresh_one_ok[OF Cons.prems(1)] one(1) _ _ _ dom]
  have loop: "t' = refresh_loop S N n c (Suc i) ks ?t1" using Cons.prems(5) by (simp only: refresh_loop_Cons)
  show ?case
  proof (cases "hex_encode pk = k")
    case True
    then have pk: "tp_Ed25519PubKey ik = pk" "ik = info" "hex_encode pk \<notin> set ks" using key ik Cons.prems(3,4) by auto
    obtain info' where i': "gm_get (ct_contactPeers ?t1) (hex_encode pk) = Some info'" "presence_after (nd_FindPeer N (tp_PeerID info) n) info info'"
      using one(2) True pk(2) by auto
    show ?thesis using IH[OF _ i'(1) loop] one(3) pk i'(2) True Cons.prems(3) by simp
  next
    case False
    then have other: "pk \<noteq> tp_Ed25519PubKey ik" using key by auto
    show ?thesis using IH[OF _ _ loop, of info, unfolded one(5)[OF other]] False one(4)[OF False] Cons.prems(3,4) by simp
  qed
qed simp

end


text \<open>Both stores are such stores.\<close>

definition contacts_keyed :: "'d badger \<Rightarrow> codecs \<Rightarrow> 'd \<Rightarrow> bool" where
  "contacts_keyed B C d \<longleftrightarrow> (\<forall>k c. Badger_GetContact B C k d = Inr (Some c) \<longrightarrow> ct_PublicKey c = k)"

interpretation badger_contacts: contact_store "badger_store B C" "\<lambda>d. kv_ok B view \<and> codecs_ok C \<and> contacts_keyed B C d" for B :: "'d badger" and C view
proof unfold_locales
  fix d :: 'd and c :: Contact
  assume "kv_ok B view \<and> codecs_ok C \<and> contacts_keyed B C d"
  then have laws: "kv_ok B view" "codec_ok (c_contact C)" "codecs_ok C" "contacts_keyed B C d" by (simp_all add: codecs_okD)
  obtain b where b: "unmarshal (c_contact C) b = Inr c" "view (fst (Badger_AddContact B C c d)) = (view d)(contactKey (ct_PublicKey c) \<mapsto> b)"
    "snd (Badger_AddContact B C c d) = Inr ()"
    using store_msg_view[OF laws(1,2)] unfolding Badger_AddContact_def by metis
  have get: "Badger_GetContact B C k (fst (Badger_AddContact B C c d)) = (if k = ct_PublicKey c then Inr (Some c) else Badger_GetContact B C k d)" for k
    using b(1,2) by (simp add: Badger_GetContact_def load_msg_kv[OF laws(1)] contactKey_def)
  then have "contacts_keyed B C (fst (Badger_AddContact B C c d))" using laws(4) by (auto simp: contacts_keyed_def)
  then show "\<exists>d'. st_AddContact (badger_store B C) c d = (d', Inr ()) \<and> (kv_ok B view \<and> codecs_ok C \<and> contacts_keyed B C d') \<and>
      (\<forall>k. st_GetContact (badger_store B C) k d' = (if k = ct_PublicKey c then Inr (Some c) else st_GetContact (badger_store B C) k d))"
    using laws b(3) get by (intro exI[of _ "fst (Badger_AddContact B C c d)"]) (simp add: badger_store_def prod_eq_iff)
qed (auto simp: badger_store_def contacts_keyed_def)

interpretation memory_contacts: contact_store memory_store mem_ok
proof unfold_locales
  fix d c assume "mem_ok d"
  then show "\<exists>d'. st_AddContact memory_store c d = (d', Inr ()) \<and> mem_ok d' \<and>
      (\<forall>k. st_GetContact memory_store k d' = (if k = ct_PublicKey c then Inr (Some c) else st_GetContact memory_store k d))"
    using contacts.get_put contacts.ok_put by (simp add: memory_store_def)
next
  fix d k c assume "mem_ok d" "st_GetContact memory_store k d = Inr (Some c)"
  then show "ct_PublicKey c = k" by (auto simp: memory_store_def GetContact_def mem_ok_def dest: keyed_by_get)
qed

text \<open>Presence of contacts: whatever was done to a tracker before, a refresh over a started node asks the network for every tracked contact with a peer ID; the
  entry becomes online, with the addresses that were found and the time, exactly when some address was found, and its stored contact gets the same addresses;
  otherwise it becomes offline and the stored contact stays. Contacts without a peer ID keep entry and stored contact.
\<close>

theorem refresh_presence:
  fixes N :: "'n ipfs_node" and B :: "'d badger"
  assumes "kv_ok B view" "codecs_ok C" "(ct_step M (badger_store B C) N)\<^sup>*\<^sup>* (NewContactTracker d0) t" "contacts_keyed B C (ct_storage t)"
    and "nd_IsStarted N n" "GetContactInfo pubKey t = Some info" "RefreshOnlineStatus (badger_store B C) N n clock now t = (t', r)"
  shows "r = Inr () \<and> ct_lastRefresh t' = Some now \<and>
    (if tp_PeerID info = [] then GetContactInfo pubKey t' = Some info \<and> Badger_GetContact B C pubKey (ct_storage t') = Badger_GetContact B C pubKey (ct_storage t)
     else (\<exists>info'. GetContactInfo pubKey t' = Some info' \<and> presence_after (nd_FindPeer N (tp_PeerID info) n) info info') \<and>
       stored_after (nd_FindPeer N (tp_PeerID info) n) (tp_PeerID info) (Badger_GetContact B C pubKey (ct_storage t)) (Badger_GetContact B C pubKey (ct_storage t')))"
proof -
  define ks where "ks = map fst (filter (\<lambda>(k, info). tp_PeerID info \<noteq> []) (ct_contactPeers t))"
  have ok: "tracker_ok t" using tracker.reachable_inv[OF assms(3)] by (simp add: tracker_ok_def NewContactTracker_def)
  then have "gm_ok (ct_contactPeers t)" by (simp add: tracker_ok_def keyed_by_def)
  then have ks: "distinct ks" "set ks \<subseteq> gm_dom (ct_contactPeers t)" "hex_encode pubKey \<in> set ks \<longleftrightarrow> tp_PeerID info \<noteq> []"
    using assms(6) by (auto simp: ks_def gm_ok_def gm_dom_get GetContactInfo_def gm_in_set_get distinct_map_filter image_iff split: prod.splits)
  have t': "t' = (refresh_loop (badger_store B C) N n clock 0 ks t)\<lparr>ct_lastRefresh := Some now\<rparr>" "r = Inr ()"
    using assms(5,7) by (auto simp: RefreshOnlineStatus_def ks_def Let_def)
  have "kv_ok B view \<and> codecs_ok C \<and> contacts_keyed B C (ct_storage t)" using assms by simp
  note loop = badger_contacts.refresh_loop_spec[OF ok this ks(1) assms(6)[unfolded GetContactInfo_def] refl ks(2), where N = N and n = n and c = clock and i = 0]
  then show ?thesis using ks(3) t' by (simp add: GetContactInfo_def badger_store_def split: if_splits)
qed


definition lone_contact :: Contact where
  "lone_contact = \<lparr>ct_PublicKey = [7], ct_DisplayName = ''a'', ct_CreatedAt = 0, ct_X25519PublicKey = [], ct_PeerId = ''p'', ct_Multiaddrs = [], ct_LastSeen = 0\<rparr>"

definition lone_tracker :: "(bytes \<times> bytes) list ContactTracker" where
  "lone_tracker = UpdateContact Inr lone_contact (NewContactTracker [])"

definition found_network :: "(bytes \<times> bytes) list ipfs_node" where
  "found_network = open_network\<lparr>nd_FindPeer := \<lambda>_ _. Inr [''/ip4'']\<rparr>"

theorem refresh_presence_witness:
  "\<exists>info'. GetContactInfo [7] (fst (RefreshOnlineStatus (badger_store alist_db ref_codecs) found_network [] (\<lambda>_. (unixTime 5, unixTime 5)) (unixTime 5) lone_tracker)) = Some info' \<and>
     presence_after (Inr [''/ip4'']) (tracked Inr lone_contact) info'"
proof -
  have step: "(ct_step Inr (badger_store alist_db ref_codecs) found_network)\<^sup>*\<^sup>* (NewContactTracker []) lone_tracker"
    unfolding lone_tracker_def by (rule r_into_rtranclp, rule ct_step.update)
  have keyed: "contacts_keyed alist_db ref_codecs (ct_storage lone_tracker)"
    by (simp add: contacts_keyed_def lone_tracker_def UpdateContact_def NewContactTracker_def Badger_GetContact_def load_msg_kv[OF alist_db_ok])
  have info: "GetContactInfo [7] lone_tracker = Some (tracked Inr lone_contact)"
    by (simp add: GetContactInfo_def lone_tracker_def UpdateContact_def lone_contact_def)
  have "nd_IsStarted found_network []" "tp_PeerID (tracked Inr lone_contact) = ''p''" "nd_FindPeer found_network ''p'' [] = Inr [''/ip4'']" by (simp_all add: found_network_def open_network_def tracked_def lone_contact_def)
  then show ?thesis
    using refresh_presence[OF alist_db_ok ref_codecs_ok step keyed _ info prod.collapse[symmetric], of "[]" "\<lambda>_. (unixTime 5, unixTime 5)" "unixTime 5"] by simp
qed

end
