(* ===== verification/GoFloat.thy ===== *)
theory GoFloat
  imports Prelude Complex_Main
begin

text \<open>
  Go's \<open>float64\<close> and \<open>float32\<close>: a number, an infinity or NaN, where the numbers are rationals and every operation rounds its exact result to the
  nearest number of the format, ties to even, with overflow to an infinity (each operation on its own, as on amd64). Comparisons with NaN are
  false. The two zeros are one value: the code never divides by a zero, so that nothing it computes tells them apart.
\<close>

datatype go_float = NaN | Infin bool | Fin rat

type_synonym float64 = go_float
type_synonym float32 = go_float

section \<open>Rounding\<close>

fun bit_len :: "nat \<Rightarrow> nat" where
  "bit_len n = (if n = 0 then 0 else Suc (bit_len (n div 2)))"

declare bit_len.simps [simp del]

definition pow2 :: "int \<Rightarrow> rat" where
  "pow2 e = (if e < 0 then 1 / of_int (2 ^ nat (- e)) else of_int (2 ^ nat e))"

text \<open>The exponent of a positive number: \<open>pow2 e \<le> x < pow2 (e + 1)\<close>.\<close>

definition exponent :: "rat \<Rightarrow> int" where
  "exponent x = (case quotient_of x of (a, b) \<Rightarrow>
     let e = int (bit_len (nat a)) - int (bit_len (nat b)) in if pow2 e \<le> x then e else e - 1)"

definition round_even :: "rat \<Rightarrow> int" where
  "round_even x = (let f = \<lfloor>x\<rfloor>; d = x - of_int f in if d < 1 / 2 then f else if 1 / 2 < d then f + 1 else if even f then f else f + 1)"

text \<open>The distance of neighbouring numbers around \<open>x\<close>, in a format of precision \<open>p\<close> whose least number is \<open>pow2 l\<close>.\<close>

definition spacing :: "nat \<Rightarrow> int \<Rightarrow> rat \<Rightarrow> rat" where
  "spacing p l x = pow2 (max (exponent \<bar>x\<bar> - int p + 1) l)"

definition nearest :: "nat \<Rightarrow> int \<Rightarrow> rat \<Rightarrow> rat" where
  "nearest p l x = (if x = 0 then 0 else of_int (round_even (x / spacing p l x)) * spacing p l x)"

definition rounded :: "nat \<Rightarrow> int \<Rightarrow> int \<Rightarrow> rat \<Rightarrow> go_float" where
  "rounded p l h x = (let r = nearest p l x in if pow2 h \<le> \<bar>r\<bar> then Infin (r < 0) else Fin r)"

definition f64 :: "rat \<Rightarrow> float64" where "f64 = rounded 53 (-1074) 1024"
definition f32 :: "rat \<Rightarrow> float32" where "f32 = rounded 24 (-149) 128"

section \<open>Operations\<close>

fun f_add :: "float64 \<Rightarrow> float64 \<Rightarrow> float64" where
  "f_add NaN y = NaN"
| "f_add x NaN = NaN"
| "f_add (Infin a) (Infin b) = (if a = b then Infin a else NaN)"
| "f_add (Infin a) (Fin y) = Infin a"
| "f_add (Fin x) (Infin b) = Infin b"
| "f_add (Fin x) (Fin y) = f64 (x + y)"

fun f_neg :: "float64 \<Rightarrow> float64" where
  "f_neg NaN = NaN"
| "f_neg (Infin a) = Infin (\<not> a)"
| "f_neg (Fin x) = Fin (- x)"

definition f_sub :: "float64 \<Rightarrow> float64 \<Rightarrow> float64" where "f_sub x y = f_add x (f_neg y)"

fun f_mul :: "float64 \<Rightarrow> float64 \<Rightarrow> float64" where
  "f_mul NaN y = NaN"
| "f_mul x NaN = NaN"
| "f_mul (Infin a) (Infin b) = Infin (a \<noteq> b)"
| "f_mul (Infin a) (Fin y) = (if y = 0 then NaN else Infin (a \<noteq> (y < 0)))"
| "f_mul (Fin x) (Infin b) = (if x = 0 then NaN else Infin ((x < 0) \<noteq> b))"
| "f_mul (Fin x) (Fin y) = f64 (x * y)"

fun f_div :: "float64 \<Rightarrow> float64 \<Rightarrow> float64" where
  "f_div NaN y = NaN"
| "f_div x NaN = NaN"
| "f_div (Infin a) (Infin b) = NaN"
| "f_div (Infin a) (Fin y) = Infin (a \<noteq> (y < 0))"
| "f_div (Fin x) (Infin b) = Fin 0"
| "f_div (Fin x) (Fin y) = (if y = 0 then (if x = 0 then NaN else Infin (x < 0)) else f64 (x / y))"

fun f_less :: "float64 \<Rightarrow> float64 \<Rightarrow> bool" where
  "f_less (Fin x) (Fin y) = (x < y)"
| "f_less (Fin x) (Infin b) = (\<not> b)"
| "f_less (Infin a) (Fin y) = a"
| "f_less (Infin a) (Infin b) = (a \<and> \<not> b)"
| "f_less _ _ = False"

fun f_le :: "float64 \<Rightarrow> float64 \<Rightarrow> bool" where
  "f_le NaN y = False"
| "f_le x NaN = False"
| "f_le x y = (\<not> f_less y x)"

definition f_of_u64 :: "u64 \<Rightarrow> float64" where "f_of_u64 n = f64 (of_nat (unat n))"
definition f_of_int :: "int \<Rightarrow> float64" where "f_of_int n = f64 (of_int n)"

text \<open>A value kept between two bounds, as the program writes it: NaN passes.\<close>

definition f_clamp :: "rat \<Rightarrow> rat \<Rightarrow> float64 \<Rightarrow> float64" where
  "f_clamp lo hi x = (let y = (if f_less x (Fin lo) then Fin lo else x) in if f_less (Fin hi) y then Fin hi else y)"

text \<open>\<open>float32(x)\<close>, and \<open>float64(x)\<close> of a \<open>float32\<close>, which is exact.\<close>

fun to_f32 :: "float64 \<Rightarrow> float32" where
  "to_f32 (Fin x) = f32 x"
| "to_f32 x = x"

definition of_f32 :: "float32 \<Rightarrow> float64" where "of_f32 x = x"

text \<open>\<open>uint64(x)\<close> drops the fraction; what it gives for a value out of range depends on the processor.\<close>

definition f_to_u64 :: "(float64 \<Rightarrow> u64) \<Rightarrow> float64 \<Rightarrow> u64" where
  "f_to_u64 other x = (case x of Fin q \<Rightarrow> if -1 < q \<and> q < 2 ^ 64 then word_of_int (if q < 0 then 0 else \<lfloor>q\<rfloor>) else other x | _ \<Rightarrow> other x)"

section \<open>Facts on rounding\<close>

lemma pow2_pos [simp]: "0 < pow2 e"
  by (simp add: pow2_def)

lemma pow2_add: "pow2 (a + b) = pow2 a * pow2 b"
proof -
  have "pow2 e = 2 powi e" for e by (simp add: pow2_def power_int_def inverse_eq_divide power_one_over)
  then show ?thesis by (simp add: power_int_add)
qed

lemma pow2_nat: "pow2 (int n) = 2 ^ n"
  by (simp add: pow2_def)

lemma pow2_less: "pow2 a < pow2 b \<longleftrightarrow> a < b"
proof -
  have less: "pow2 a < pow2 b" if "a < b" for a b
  proof -
    have "pow2 b = pow2 a * 2 ^ nat (b - a)" using pow2_add[of a "b - a"] that pow2_nat[of "nat (b - a)"] by simp
    moreover have "(1::rat) < 2 ^ nat (b - a)" using that by (simp add: one_less_power)
    ultimately show ?thesis using pow2_pos[of a] by simp
  qed
  then show ?thesis by (metis linorder_neq_iff order_less_asym)
qed

lemma pow2_le: "pow2 a \<le> pow2 b \<longleftrightarrow> a \<le> b"
  using pow2_less[of b a] by (simp add: linorder_not_less[symmetric])

lemma bit_len_bounds: "0 < n \<Longrightarrow> 2 ^ (bit_len n - 1) \<le> n \<and> n < 2 ^ bit_len n \<and> 0 < bit_len n"
proof (induction n rule: bit_len.induct)
  case (1 n)
  show ?case
  proof (cases "n div 2 = 0")
    case True
    then have "n = 1" using 1 by linarith
    then show ?thesis by (simp add: bit_len.simps)
  next
    case False
    then have IH: "2 ^ (bit_len (n div 2) - 1) \<le> n div 2" "n div 2 < 2 ^ bit_len (n div 2)" "0 < bit_len (n div 2)" using 1 by auto
    have b: "bit_len n = Suc (bit_len (n div 2))" using 1 by (subst bit_len.simps) simp
    obtain k where k: "bit_len (n div 2) = Suc k" using IH(3) by (cases "bit_len (n div 2)") auto
    show ?thesis using IH(1,2) unfolding b k by simp linarith
  qed
qed

lemma pow2_nonneg [simp]: "0 \<le> pow2 e" "pow2 e \<noteq> 0"
  by (rule less_imp_le[OF pow2_pos], metis less_irrefl pow2_pos)

lemma exponent_bounds:
  assumes "0 < x"
  shows "pow2 (exponent x) \<le> x \<and> x < pow2 (exponent x + 1)"
proof -
  obtain a b where q: "quotient_of x = (a, b)" by (cases "quotient_of x")
  have b: "0 < b" and x: "x = of_int a / of_int b" using quotient_of_denom_pos[OF q] quotient_of_div[OF q] by auto
  have a: "0 < a" using assms b unfolding x by (simp add: zero_less_divide_iff)
  define la lb where "la = bit_len (nat a)" and "lb = bit_len (nat b)"
  note ba = bit_len_bounds[of "nat a", folded la_def] and bb = bit_len_bounds[of "nat b", folded lb_def]
  have "(of_nat (2 ^ (la - 1)) :: rat) \<le> of_nat (nat a)" "(of_nat (nat a) :: rat) < of_nat (2 ^ la)"
    "(of_nat (2 ^ (lb - 1)) :: rat) \<le> of_nat (nat b)" "(of_nat (nat b) :: rat) < of_nat (2 ^ lb)"
    using ba bb a b by (simp_all only: of_nat_le_iff of_nat_less_iff zero_less_nat_eq)
  then have p: "pow2 (int la - 1) \<le> of_int a" "of_int a < pow2 (int la)" "pow2 (int lb - 1) \<le> of_int b" "of_int b < pow2 (int lb)"
    using a b ba bb pow2_nat[of "la - 1"] pow2_nat[of "lb - 1"] by (simp_all add: pow2_nat of_nat_diff)
  have "x < pow2 (int la) / of_int b" unfolding x using p(2) b by (simp add: divide_strict_right_mono)
  also have "\<dots> \<le> pow2 (int la) / pow2 (int lb - 1)" using p(3) by (intro divide_left_mono) (simp_all add: b)
  also have "\<dots> = pow2 (int la - int lb + 1)" using pow2_add[of "int la - int lb + 1" "int lb - 1"] by (simp add: divide_eq_eq)
  finally have up: "x < pow2 (int la - int lb + 1)" .
  have "pow2 (int la - int lb - 1) = pow2 (int la - 1) / pow2 (int lb)" using pow2_add[of "int la - int lb - 1" "int lb"] by (simp add: eq_divide_eq)
  also have "\<dots> \<le> of_int a / pow2 (int lb)" using p(1) by (simp add: divide_right_mono)
  also have "\<dots> \<le> x" unfolding x using p(4) a b by (intro divide_left_mono) simp_all
  finally have low: "pow2 (int la - int lb - 1) \<le> x" .
  have e: "exponent x = (if pow2 (int la - int lb) \<le> x then int la - int lb else int la - int lb - 1)" by (simp add: exponent_def q la_def lb_def)
  show ?thesis using up low unfolding e by auto
qed

lemma round_even_of_int [simp]: "round_even (of_int k) = k"
  by (simp add: round_even_def)

lemma round_even_minus_bound: "- (\<bar>x\<bar> * 2) \<le> of_int (round_even x) \<and> of_int (round_even x) \<le> \<bar>x\<bar> * 2"
proof -
  have f: "of_int \<lfloor>x\<rfloor> \<le> x" "x < of_int \<lfloor>x\<rfloor> + 1" by linarith+
  show ?thesis
  proof (cases "round_even x = \<lfloor>x\<rfloor>")
    case True
    then show ?thesis
    proof (cases "0 \<le> x")
      case False
      then have "\<lfloor>x\<rfloor> \<le> -1" by linarith
      then have "(of_int \<lfloor>x\<rfloor> :: rat) \<le> -1" by linarith
      moreover have "x - of_int \<lfloor>x\<rfloor> \<le> 1 / 2" using True by (auto simp: round_even_def Let_def split: if_splits)
      ultimately show ?thesis using True False f by (simp add: abs_if)
    next
      case pos: True
      have "(0::rat) \<le> of_int \<lfloor>x\<rfloor>" using pos by simp
      then show ?thesis unfolding True abs_of_nonneg[OF pos] using f pos by (intro conjI) linarith+
    qed
  next
    case False
    then have r: "round_even x = \<lfloor>x\<rfloor> + 1" "1 / 2 \<le> x - of_int \<lfloor>x\<rfloor>" by (auto simp: round_even_def Let_def split: if_splits)
    show ?thesis
    proof (cases "0 \<le> x")
      case True
      have "(0::rat) \<le> of_int \<lfloor>x\<rfloor>" using True by simp
      then show ?thesis unfolding r(1) abs_of_nonneg[OF True] of_int_add of_int_1 using r(2) f True by (intro conjI) linarith+
    next
      case neg: False
      then have "\<lfloor>x\<rfloor> \<le> -1" by linarith
      then have "(of_int \<lfloor>x\<rfloor> :: rat) \<le> -1" by linarith
      then show ?thesis using r f neg by (simp add: abs_if)
    qed
  qed
qed

lemma round_even_abs: "\<bar>of_int (round_even x)\<bar> \<le> (2::rat) * \<bar>x\<bar>"
  using round_even_minus_bound[of x] by (simp add: abs_le_iff mult.commute)

lemma round_even_le: "\<bar>x\<bar> \<le> of_int k \<Longrightarrow> \<bar>round_even x\<bar> \<le> k"
proof -
  assume k: "\<bar>x\<bar> \<le> of_int k"
  have up: "round_even x \<le> k"
  proof (cases "\<lfloor>x\<rfloor> < k")
    case True
    then show ?thesis by (auto simp: round_even_def Let_def)
  next
    case False
    then have "x = of_int k" using k by linarith
    then show ?thesis by simp
  qed
  have "- k \<le> \<lfloor>x\<rfloor>" using k by (simp add: le_floor_iff)
  then have "- k \<le> round_even x" by (auto simp: round_even_def Let_def)
  then show ?thesis using up by simp
qed

lemma spacing_pos [simp]: "0 < spacing p l x" "0 \<le> spacing p l x" "spacing p l x \<noteq> 0"
  by (simp_all add: spacing_def)

lemma nearest_abs: "\<bar>nearest p l x\<bar> \<le> 2 * \<bar>x\<bar>"
proof -
  have "\<bar>of_int (round_even (x / spacing p l x)) * spacing p l x\<bar> \<le> 2 * \<bar>x / spacing p l x\<bar> * spacing p l x"
    unfolding abs_mult by (rule order_trans[OF mult_right_mono[OF round_even_abs]]) simp_all
  then show ?thesis by (simp add: nearest_def)
qed

lemma nearest_nonneg: "0 \<le> x \<Longrightarrow> 0 \<le> nearest p l x"
proof -
  assume "0 \<le> x"
  then have "0 \<le> \<lfloor>x / spacing p l x\<rfloor>" by simp
  then have "0 \<le> round_even (x / spacing p l x)" by (auto simp: round_even_def Let_def)
  then show ?thesis by (simp add: nearest_def)
qed


text \<open>A number of the format is rounded to itself.\<close>

lemma nearest_multiple:
  assumes "r = of_int m * pow2 k" "max (exponent \<bar>r\<bar> - int p + 1) l \<le> k"
  shows "nearest p l r = r"
proof -
  define k' where "k' = max (exponent \<bar>r\<bar> - int p + 1) l"
  have "pow2 k = pow2 k' * 2 ^ nat (k - k')" using pow2_add[of k' "k - k'"] pow2_nat[of "nat (k - k')"] assms(2) by (simp add: k'_def)
  then have q: "r / pow2 k' = of_int (m * 2 ^ nat (k - k'))" using assms(1) by simp
  have "spacing p l r = pow2 k'" by (simp add: spacing_def k'_def)
  then have "nearest p l r = (if r = 0 then 0 else r / pow2 k' * pow2 k')" unfolding nearest_def by (simp only: q round_even_of_int)
  then show ?thesis by simp
qed

lemma nearest_idem:
  assumes "0 < p"
  shows "nearest p l (nearest p l x) = nearest p l x"
proof (cases "nearest p l x = 0")
  case False
  define k m r where "k = max (exponent \<bar>x\<bar> - int p + 1) l" and "m = round_even (x / pow2 k)" and "r = nearest p l x"
  have x: "x \<noteq> 0" and r: "r = of_int m * pow2 k" using False by (auto simp: nearest_def spacing_def k_def m_def r_def split: if_splits)
  have "\<bar>x\<bar> < pow2 (exponent \<bar>x\<bar> + 1)" using exponent_bounds[of "\<bar>x\<bar>"] x by simp
  also have "\<dots> \<le> pow2 (int p + k)" by (simp add: pow2_le k_def)
  finally have "\<bar>x / pow2 k\<bar> \<le> of_int (2 ^ p)" by (simp add: abs_divide divide_le_eq pow2_add pow2_nat)
  then have m: "\<bar>m\<bar> \<le> 2 ^ p" unfolding m_def by (rule round_even_le)
  have r0: "0 < \<bar>r\<bar>" using False by (simp add: r_def)
  have abs: "\<bar>r\<bar> = of_int \<bar>m\<bar> * pow2 k" unfolding r by (simp add: abs_mult)
  show ?thesis
  proof (cases "\<bar>m\<bar> = 2 ^ p")
    case True
    then have pw: "\<bar>r\<bar> = pow2 (int p + k)" unfolding abs by (simp add: pow2_add pow2_nat)
    have "pow2 (exponent \<bar>r\<bar>) \<le> pow2 (int p + k)" using exponent_bounds[OF r0] pw by simp
    then have "max (exponent \<bar>r\<bar> - int p + 1) l \<le> k + 1" by (simp add: pow2_le k_def)
    moreover have "r = of_int (sgn m * 2 ^ (p - 1)) * pow2 (k + 1)"
    proof -
      have "m = sgn m * 2 ^ p" using True by (metis mult_sgn_abs)
      also have "\<dots> = sgn m * 2 ^ (p - 1) * 2" using assms by (cases p) simp_all
      finally have "(of_int m :: rat) = of_int (sgn m * 2 ^ (p - 1)) * 2" by (metis of_int_mult of_int_numeral)
      moreover have "pow2 (k + 1) = 2 * pow2 k" using pow2_add[of k 1] by (simp add: pow2_def[of 1])
      ultimately show ?thesis unfolding r by simp
    qed
    ultimately show ?thesis unfolding r_def[symmetric] by (rule nearest_multiple[rotated])
  next
    case ne: False
    then have "(of_int \<bar>m\<bar> :: rat) < of_int (2 ^ p)" using m by linarith
    then have "\<bar>r\<bar> < pow2 (int p + k)" unfolding abs by (simp add: pow2_add pow2_nat)
    then have "pow2 (exponent \<bar>r\<bar>) < pow2 (int p + k)" using exponent_bounds[OF r0] by (meson le_less_trans)
    then have "max (exponent \<bar>r\<bar> - int p + 1) l \<le> k" by (auto simp: pow2_less k_def)
    then show ?thesis unfolding r_def[symmetric] by (rule nearest_multiple[OF r])
  qed
qed (simp add: nearest_def)

lemma to_f32_idem [simp]: "to_f32 (of_f32 (to_f32 x)) = to_f32 x"
  by (cases x) (auto simp: of_f32_def f32_def rounded_def Let_def nearest_idem)

lemma of_f32_to_f32: "of_f32 x = x"
  by (simp add: of_f32_def)


lemma f64_not_NaN [simp]: "f64 x \<noteq> NaN"
  by (simp add: f64_def rounded_def Let_def)

lemma f64_finite:
  assumes "\<bar>x\<bar> \<le> 2 ^ 1000"
  obtains q where "f64 x = Fin q" "\<bar>q\<bar> \<le> 2 * \<bar>x\<bar>" "0 \<le> x \<Longrightarrow> 0 \<le> q"
proof (rule that)
  have "\<bar>nearest 53 (-1074) x\<bar> \<le> 2 ^ 1001" using nearest_abs[of 53 "-1074" x] assms by simp
  also have "\<dots> < pow2 1024" using pow2_less[of 1001 1024] by (simp add: pow2_def)
  finally show "f64 x = Fin (nearest 53 (-1074) x)" by (simp add: f64_def rounded_def Let_def)
qed (simp_all add: nearest_abs nearest_nonneg)

lemma f_add_finite: "f_add x y = NaN \<longleftrightarrow> x = NaN \<or> y = NaN \<or> (\<exists>a. x = Infin a \<and> y = Infin (\<not> a))"
  by (cases "(x, y)" rule: f_add.cases) auto

lemma f64_0 [simp]: "f64 0 = Fin 0"
  by (simp add: f64_def rounded_def nearest_def Let_def linorder_not_le)

lemma f_clamp_cases:
  assumes "lo \<le> hi"
  shows "(x = NaN \<and> f_clamp lo hi x = NaN) \<or> (x \<noteq> NaN \<and> (\<exists>q. f_clamp lo hi x = Fin q \<and> lo \<le> q \<and> q \<le> hi))"
proof (cases x)
  case (Infin b)
  then show ?thesis using assms by (cases b) (auto simp: f_clamp_def Let_def)
qed (use assms in \<open>auto simp: f_clamp_def Let_def\<close>)

text \<open>Values without a sign, and values far from overflow.\<close>

definition nonneg :: "float64 \<Rightarrow> bool" where
  "nonneg x \<longleftrightarrow> x = Infin False \<or> (\<exists>q\<ge>0. x = Fin q)"

definition bounded :: "nat \<Rightarrow> float64 \<Rightarrow> bool" where
  "bounded b x \<longleftrightarrow> (\<exists>q. x = Fin q \<and> \<bar>q\<bar> \<le> 2 ^ b)"

lemma nonneg_f64: "0 \<le> x \<Longrightarrow> nonneg (f64 x)"
  using nearest_nonneg[of x 53 "-1074"] by (auto simp: nonneg_def f64_def rounded_def Let_def)

lemma nonneg_simps [simp]: "nonneg (Infin b) \<longleftrightarrow> \<not> b" "nonneg (Fin q) \<longleftrightarrow> 0 \<le> q" "\<not> nonneg NaN"
  by (auto simp: nonneg_def)

lemma nonnegE: "nonneg x \<Longrightarrow> (x = Infin False \<Longrightarrow> P) \<Longrightarrow> (\<And>q. x = Fin q \<Longrightarrow> 0 \<le> q \<Longrightarrow> P) \<Longrightarrow> P"
  by (auto simp: nonneg_def)

lemma nonneg_add: "nonneg x \<Longrightarrow> nonneg y \<Longrightarrow> nonneg (f_add x y)"
  by (elim nonnegE) (simp_all add: nonneg_f64)

lemma nonneg_mul: "0 < q \<Longrightarrow> nonneg y \<Longrightarrow> nonneg (f_mul (Fin q) y)"
  by (elim nonnegE) (simp_all add: nonneg_f64)

lemma nonneg_div: "nonneg x \<Longrightarrow> 0 < q \<Longrightarrow> nonneg (f_div x (Fin q))"
  by (elim nonnegE) (simp_all add: nonneg_f64)

lemma nearest_half:
  assumes "1 \<le> x"
  shows "x / 2 \<le> nearest 53 (-1074) x"
proof -
  let ?u = "spacing 53 (-1074) x"
  have e: "pow2 (exponent x) \<le> x" using exponent_bounds[of x] assms by simp
  have "x < pow2 (exponent x + 1)" using exponent_bounds[of x] assms by simp
  then have "pow2 0 < pow2 (exponent x + 1)" using assms by (simp add: pow2_def[of 0])
  then have "0 \<le> exponent x" by (simp add: pow2_less)
  then have "?u \<le> pow2 (exponent x)" using assms by (simp add: spacing_def pow2_le)
  then have ux: "?u \<le> x" using e by simp
  then have "1 \<le> \<lfloor>x / ?u\<rfloor>" by (simp add: le_floor_iff le_divide_eq)
  then have f: "(1 :: rat) \<le> of_int \<lfloor>x / ?u\<rfloor>" by linarith
  have "y / 2 \<le> of_int \<lfloor>y\<rfloor>" if "(1 :: rat) \<le> of_int \<lfloor>y\<rfloor>" for y :: rat using that floor_correct[of y] by linarith
  from this[OF f] have "x / ?u / 2 \<le> of_int \<lfloor>x / ?u\<rfloor>" .
  also have "of_int \<lfloor>x / ?u\<rfloor> \<le> (of_int (round_even (x / ?u)) :: rat)" by (auto simp: round_even_def Let_def)
  finally have "x / ?u / 2 * ?u \<le> of_int (round_even (x / ?u)) * ?u" by (rule mult_right_mono) simp
  then show ?thesis using assms by (simp add: nearest_def)
qed

lemma f_of_u64_finite: obtains q where "f_of_u64 n = Fin q" "0 \<le> q" "q \<le> 2 ^ 65" "n \<noteq> 0 \<longrightarrow> 1 / 2 \<le> q" "n = 0 \<longrightarrow> q = 0"
proof -
  define x :: rat where "x = of_nat (unat n)"
  have "unat n \<le> 2 ^ 64" using order_less_imp_le[OF unsigned_less[of n, simplified]] by simp
  then have x: "0 \<le> x" "x \<le> 2 ^ 64" unfolding x_def by (metis of_nat_0_le_iff, metis of_nat_le_iff of_nat_numeral of_nat_power)
  have "1 \<le> unat n" if "n \<noteq> 0" using that by (simp add: Suc_leI unat_gt_0)
  then have x1: "1 \<le> x" if "n \<noteq> 0" unfolding x_def using that by (metis of_nat_1 of_nat_le_iff)
  have x0: "x = 0" if "n = 0" unfolding x_def that by simp
  have "\<bar>x\<bar> \<le> 2 ^ 1000" unfolding abs_of_nonneg[OF x(1)] by (rule order_trans[OF x(2)]) (rule power_increasing, simp_all)
  then obtain q where q: "f64 x = Fin q" "\<bar>q\<bar> \<le> 2 * \<bar>x\<bar>" "0 \<le> q" by (rule f64_finite) (use x(1) in simp)
  have "q = nearest 53 (-1074) x" using q(1) by (auto simp: f64_def rounded_def Let_def split: if_splits)
  then have "1 / 2 \<le> q" if "n \<noteq> 0" using nearest_half[OF x1[OF that]] x1[OF that] by simp
  moreover have "q = 0" if "n = 0" using q(1) x0[OF that] by simp
  moreover have "f_of_u64 n = Fin q" unfolding f_of_u64_def using q(1) by (simp only: x_def)
  moreover have "q \<le> 2 ^ 65" using q(2,3) x by simp
  ultimately show ?thesis using that[of q] q(3) by blast
qed

end
