(* ===== verification/Reputation.thy ===== *)
theory Reputation
  imports GoFloat GoTime Crypto Badger RefCodec ExchangeSort
begin

text \<open>
  \<open>pkg/reputation\<close>: the tracker of the behaviour of peers (\<open>tracker.go\<close>), its persistence (\<open>storage.go\<close>) and the exchange of signed attestations
  (\<open>exchange.go\<close>). Scores are the floating-point numbers of \<open>GoFloat\<close>, counters wrap at 64 bits, a \<open>peer.ID\<close> is its bytes. The tracker is a map
  of records, and a method that changes a record through its pointer returns the updated map; \<open>c\<close> gives the readings of the clock in their order.
  The database is the record of \<open>Badger\<close>, the network the record \<open>rep_node\<close>, and marshalling is by codecs.
\<close>

section \<open>Data\<close>

definition HoursPerWeek :: nat where "HoursPerWeek = 168"
definition MaxDHTLatencyMS :: rat where "MaxDHTLatencyMS = 5000"

definition ErrAttestationExpired :: go_error where "ErrAttestationExpired = Err ''attestation has expired''"
definition ErrAttesterNotTrusted :: go_error where "ErrAttesterNotTrusted = Err ''attester has not been observed long enough''"
definition Reputation_ErrInvalidSignature :: go_error where "Reputation_ErrInvalidSignature = Err ''invalid attestation signature''"

text \<open>The zero \<open>time.Time\<close>: the first of January of the year 1.\<close>

definition zero_time :: time where "zero_time = - 62135596800 * 1000000000"

type_synonym Tier = int

definition TierBasic :: Tier where "TierBasic = 0"
definition TierContributor :: Tier where "TierContributor = 1"
definition TierReliable :: Tier where "TierReliable = 2"
definition TierTrusted :: Tier where "TierTrusted = 3"

record Metrics =
  rm_RelayReliability :: float64
  rm_RelaySuccessCount :: u64
  rm_RelayTotalCount :: u64
  rm_UptimeConsistency :: float64
  rm_HoursOnline7d :: u64
  rm_LastSeen :: time
  rm_MailboxReliability :: float64
  rm_MailboxRetrievedCount :: u64
  rm_MailboxDepositedCount :: u64
  rm_DHTResponsiveness :: float64
  rm_AvgResponseMS :: float64
  rm_DHTQueryCount :: u64
  rm_ContentServing :: float64
  rm_BlocksServedCount :: u64
  rm_BlocksRequestedCount :: u64
  rm_FirstObserved :: time
  rm_ObservationCount :: u64

record Attestation =
  ra_AttesterPeerID :: bytes
  ra_AttesterIdentityPub :: string
  ra_SubjectPeerID :: bytes
  ra_Score :: float64
  ra_ObservationPeriodHours :: u64
  ra_Timestamp :: time
  ra_Signature :: bytes

record Record =
  rr_peerID :: bytes
  rr_metrics :: Metrics
  rr_compositeScore :: float64
  rr_tier :: Tier
  rr_attestations :: "Attestation list"
  rr_trustAdjustment :: float64
  rr_lastUpdated :: time

record ReputationConfig =
  rc_RelayReliabilityWeight :: float64
  rc_UptimeConsistencyWeight :: float64
  rc_MailboxReliabilityWeight :: float64
  rc_DHTResponsivenessWeight :: float64
  rc_ContentServingWeight :: float64
  rc_MinConnectionHours :: u64
  rc_MaxAttestationInfluence :: float64
  rc_AttestationExpiryHours :: u64
  rc_MaxAttestationsPerPeer :: u32
  rc_TierContributorThreshold :: float64
  rc_TierReliableThreshold :: float64
  rc_TierTrustedThreshold :: float64
  rc_MetricUpdateIntervalSeconds :: u64
  rc_AttestationPublishInterval :: u64

record Tracker =
  rt_records :: "(bytes, Record) gomap"
  rt_config :: ReputationConfig
  rt_selfPeerID :: bytes
  rt_selfIdentity :: string

definition Reputation_DefaultConfig :: ReputationConfig where
  "Reputation_DefaultConfig = \<lparr>rc_RelayReliabilityWeight = f64 (1/4), rc_UptimeConsistencyWeight = f64 (1/5), rc_MailboxReliabilityWeight = f64 (1/4),
     rc_DHTResponsivenessWeight = f64 (3/20), rc_ContentServingWeight = f64 (3/20), rc_MinConnectionHours = 24, rc_MaxAttestationInfluence = f64 (1/10),
     rc_AttestationExpiryHours = 168, rc_MaxAttestationsPerPeer = 50, rc_TierContributorThreshold = f64 (3/10), rc_TierReliableThreshold = f64 (3/5),
     rc_TierTrustedThreshold = f64 (4/5), rc_MetricUpdateIntervalSeconds = 300, rc_AttestationPublishInterval = 24\<rparr>"

definition NewTracker :: "bytes \<Rightarrow> string \<Rightarrow> ReputationConfig option \<Rightarrow> Tracker" where
  "NewTracker selfPeerID selfIdentity config = \<lparr>rt_records = [], rt_config = (case config of None \<Rightarrow> Reputation_DefaultConfig | Some c \<Rightarrow> c),
     rt_selfPeerID = selfPeerID, rt_selfIdentity = selfIdentity\<rparr>"

definition new_metrics :: "time \<Rightarrow> Metrics" where
  "new_metrics now = \<lparr>rm_RelayReliability = Fin 0, rm_RelaySuccessCount = 0, rm_RelayTotalCount = 0, rm_UptimeConsistency = Fin 0, rm_HoursOnline7d = 0,
     rm_LastSeen = zero_time, rm_MailboxReliability = Fin 0, rm_MailboxRetrievedCount = 0, rm_MailboxDepositedCount = 0, rm_DHTResponsiveness = Fin 0,
     rm_AvgResponseMS = Fin 0, rm_DHTQueryCount = 0, rm_ContentServing = Fin 0, rm_BlocksServedCount = 0, rm_BlocksRequestedCount = 0,
     rm_FirstObserved = now, rm_ObservationCount = 0\<rparr>"

section \<open>The tracker\<close>

definition new_record :: "(nat \<Rightarrow> time) \<Rightarrow> bytes \<Rightarrow> Record" where
  "new_record c pid = \<lparr>rr_peerID = pid, rr_metrics = new_metrics (c 0), rr_compositeScore = Fin 0, rr_tier = TierBasic, rr_attestations = [],
     rr_trustAdjustment = Fin 0, rr_lastUpdated = c 1\<rparr>"

text \<open>Returns the record of a peer and the map that holds it.\<close>

definition GetOrCreateRecord :: "(nat \<Rightarrow> time) \<Rightarrow> bytes \<Rightarrow> Tracker \<Rightarrow> Tracker \<times> Record" where
  "GetOrCreateRecord c pid t = (case gm_get (rt_records t) pid of
      Some r \<Rightarrow> (t, r)
    | None \<Rightarrow> (t\<lparr>rt_records := gm_set pid (new_record c pid) (rt_records t)\<rparr>, new_record c pid))"

definition GetRecord :: "bytes \<Rightarrow> Tracker \<Rightarrow> Record option" where
  "GetRecord pid t = gm_get (rt_records t) pid"

definition f_cap :: "float64 \<Rightarrow> float64" where
  "f_cap x = (if f_less (Fin 1) x then Fin 1 else x)"

definition weighted_sum :: "ReputationConfig \<Rightarrow> Metrics \<Rightarrow> float64" where
  "weighted_sum config m =
     f_add (f_add (f_add (f_add (f_mul (rm_RelayReliability m) (rc_RelayReliabilityWeight config))
       (f_mul (rm_UptimeConsistency m) (rc_UptimeConsistencyWeight config)))
       (f_mul (rm_MailboxReliability m) (rc_MailboxReliabilityWeight config)))
       (f_mul (rm_DHTResponsiveness m) (rc_DHTResponsivenessWeight config)))
       (f_mul (rm_ContentServing m) (rc_ContentServingWeight config))"

definition tier_of :: "ReputationConfig \<Rightarrow> float64 \<Rightarrow> Tier" where
  "tier_of config score =
     (if f_le (rc_TierTrustedThreshold config) score then TierTrusted
      else if f_le (rc_TierReliableThreshold config) score then TierReliable
      else if f_le (rc_TierContributorThreshold config) score then TierContributor
      else TierBasic)"

definition updateCompositeScore :: "ReputationConfig \<Rightarrow> Record \<Rightarrow> Record" where
  "updateCompositeScore config r =
     (let score = f_clamp 0 1 (f_add (weighted_sum config (rr_metrics r)) (rr_trustAdjustment r))
      in r\<lparr>rr_compositeScore := score, rr_tier := tier_of config score\<rparr>)"

text \<open>The common frame of the events: the record of the peer is found or created, changed, scored anew and stamped.\<close>

definition record_event :: "(nat \<Rightarrow> time) \<Rightarrow> bytes \<Rightarrow> (Record \<Rightarrow> Record) \<Rightarrow> Tracker \<Rightarrow> Tracker" where
  "record_event c pid g t = (case GetOrCreateRecord c pid t of (t1, r) \<Rightarrow>
     t1\<lparr>rt_records := gm_set pid ((updateCompositeScore (rt_config t1) (g r))\<lparr>rr_lastUpdated := c 2\<rparr>) (rt_records t1)\<rparr>)"

definition on_metrics :: "(Metrics \<Rightarrow> Metrics) \<Rightarrow> Record \<Rightarrow> Record" where
  "on_metrics g r = r\<lparr>rr_metrics := g (rr_metrics r)\<rparr>"

definition relay_metrics :: "bool \<Rightarrow> Metrics \<Rightarrow> Metrics" where
  "relay_metrics success m =
     (let m1 = m\<lparr>rm_RelayTotalCount := rm_RelayTotalCount m + 1\<rparr>;
          m2 = (if success then m1\<lparr>rm_RelaySuccessCount := rm_RelaySuccessCount m1 + 1\<rparr> else m1)
      in if rm_RelayTotalCount m2 > 0
         then m2\<lparr>rm_RelayReliability := f_div (f_of_u64 (rm_RelaySuccessCount m2)) (f_of_u64 (rm_RelayTotalCount m2))\<rparr> else m2)"

definition RecordRelayEvent :: "(nat \<Rightarrow> time) \<Rightarrow> bytes \<Rightarrow> bool \<Rightarrow> Tracker \<Rightarrow> Tracker" where
  "RecordRelayEvent c pid success = record_event c pid (on_metrics (relay_metrics success))"

definition uptime_metrics :: "time \<Rightarrow> bool \<Rightarrow> Metrics \<Rightarrow> Metrics" where
  "uptime_metrics now online m =
     (let m1 = (if online then m\<lparr>rm_HoursOnline7d := rm_HoursOnline7d m + 1, rm_LastSeen := now\<rparr> else m);
          m2 = (if rm_HoursOnline7d m1 > of_nat HoursPerWeek then m1\<lparr>rm_HoursOnline7d := of_nat HoursPerWeek\<rparr> else m1)
      in m2\<lparr>rm_UptimeConsistency := f_div (f_of_u64 (rm_HoursOnline7d m2)) (Fin (of_nat HoursPerWeek))\<rparr>)"

text \<open>An online observation reads the clock once more, before the stamp.\<close>

definition RecordUptimeObservation :: "(nat \<Rightarrow> time) \<Rightarrow> bytes \<Rightarrow> bool \<Rightarrow> Tracker \<Rightarrow> Tracker" where
  "RecordUptimeObservation c pid online = record_event c pid (on_metrics (uptime_metrics (c 3) online))"

definition mailbox_metrics :: "bool \<Rightarrow> bool \<Rightarrow> Metrics \<Rightarrow> Metrics" where
  "mailbox_metrics deposited retrieved m =
     (let m1 = (if deposited then m\<lparr>rm_MailboxDepositedCount := rm_MailboxDepositedCount m + 1\<rparr> else m);
          m2 = (if retrieved then m1\<lparr>rm_MailboxRetrievedCount := rm_MailboxRetrievedCount m1 + 1\<rparr> else m1)
      in if rm_MailboxDepositedCount m2 > 0
         then m2\<lparr>rm_MailboxReliability := f_cap (f_div (f_of_u64 (rm_MailboxRetrievedCount m2)) (f_of_u64 (rm_MailboxDepositedCount m2)))\<rparr> else m2)"

definition RecordMailboxEvent :: "(nat \<Rightarrow> time) \<Rightarrow> bytes \<Rightarrow> bool \<Rightarrow> bool \<Rightarrow> Tracker \<Rightarrow> Tracker" where
  "RecordMailboxEvent c pid deposited retrieved = record_event c pid (on_metrics (mailbox_metrics deposited retrieved))"

definition dht_metrics :: "float64 \<Rightarrow> Metrics \<Rightarrow> Metrics" where
  "dht_metrics responseMS m =
     (let totalQueries = f_of_u64 (rm_DHTQueryCount m);
          newAvg = f_div (f_add (f_mul totalQueries (rm_AvgResponseMS m)) responseMS) (f_add totalQueries (Fin 1));
          m1 = m\<lparr>rm_AvgResponseMS := newAvg, rm_DHTQueryCount := rm_DHTQueryCount m + 1\<rparr>
      in m1\<lparr>rm_DHTResponsiveness := f_clamp 0 1 (f_sub (Fin 1) (f_div newAvg (Fin MaxDHTLatencyMS)))\<rparr>)"

definition RecordDHTQuery :: "(nat \<Rightarrow> time) \<Rightarrow> bytes \<Rightarrow> float64 \<Rightarrow> Tracker \<Rightarrow> Tracker" where
  "RecordDHTQuery c pid responseMS = record_event c pid (on_metrics (dht_metrics responseMS))"

definition content_metrics :: "bool \<Rightarrow> bool \<Rightarrow> Metrics \<Rightarrow> Metrics" where
  "content_metrics served requested m =
     (let m1 = (if served then m\<lparr>rm_BlocksServedCount := rm_BlocksServedCount m + 1\<rparr> else m);
          m2 = (if requested then m1\<lparr>rm_BlocksRequestedCount := rm_BlocksRequestedCount m1 + 1\<rparr> else m1)
      in if rm_BlocksRequestedCount m2 > 0
         then m2\<lparr>rm_ContentServing := f_cap (f_div (f_of_u64 (rm_BlocksServedCount m2)) (f_of_u64 (rm_BlocksRequestedCount m2)))\<rparr> else m2)"

definition RecordContentEvent :: "(nat \<Rightarrow> time) \<Rightarrow> bytes \<Rightarrow> bool \<Rightarrow> bool \<Rightarrow> Tracker \<Rightarrow> Tracker" where
  "RecordContentEvent c pid served requested = record_event c pid (on_metrics (content_metrics served requested))"

definition SetTrustAdjustment :: "(nat \<Rightarrow> time) \<Rightarrow> bytes \<Rightarrow> float64 \<Rightarrow> Tracker \<Rightarrow> Tracker" where
  "SetTrustAdjustment c pid adjustment = record_event c pid (\<lambda>r. r\<lparr>rr_trustAdjustment := f_clamp (- (1/2)) (1/2) adjustment\<rparr>)"

definition GetCompositeScore :: "bytes \<Rightarrow> Tracker \<Rightarrow> float64" where
  "GetCompositeScore pid t = (case GetRecord pid t of None \<Rightarrow> Fin 0 | Some r \<Rightarrow> rr_compositeScore r)"

definition GetTier :: "bytes \<Rightarrow> Tracker \<Rightarrow> Tier" where
  "GetTier pid t = (case GetRecord pid t of None \<Rightarrow> TierBasic | Some r \<Rightarrow> rr_tier r)"

text \<open>\<open>d.Hours()\<close> of a duration in nanoseconds; \<open>/\<close> and \<open>%\<close> truncate towards zero.\<close>

definition hours_of :: "int \<Rightarrow> float64" where
  "hours_of d = (let h = (if d < 0 then - ((- d) div 3600000000000) else d div 3600000000000)
     in f_add (f_of_int h) (f_div (f_of_int (d - h * 3600000000000)) (Fin 3600000000000)))"

text \<open>\<open>c 4\<close> and \<open>c 5\<close> are the clock at the check of the expiry and at \<open>time.Since\<close>. A slice from 1 of an empty slice panics.\<close>

definition AddAttestation :: "(float64 \<Rightarrow> u64) \<Rightarrow> (nat \<Rightarrow> time) \<Rightarrow> Attestation \<Rightarrow> Tracker \<Rightarrow> (Tracker, unit) eff" where
  "AddAttestation other c attestation t =
     (if whole_second (ra_Timestamp attestation) + sint (rc_AttestationExpiryHours (rt_config t) * 3600000000000 :: u64) < c 4 then (t, Inl ErrAttestationExpired)
      else if (case GetRecord (ra_AttesterPeerID attestation) t of
          None \<Rightarrow> False
        | Some ar \<Rightarrow> f_to_u64 other (hours_of (time_sub (c 5) (rm_FirstObserved (rr_metrics ar)))) < rc_MinConnectionHours (rt_config t))
        then (t, Inl ErrAttesterNotTrusted)
      else (case GetOrCreateRecord c (ra_SubjectPeerID attestation) t of (t1, r) \<Rightarrow>
        if (of_nat (length (rr_attestations r)) :: u32) \<ge> rc_MaxAttestationsPerPeer (rt_config t) \<and> rr_attestations r = []
        then (t1, Inl (Panic ''slice bounds out of range''))
        else
          let kept = (if (of_nat (length (rr_attestations r)) :: u32) \<ge> rc_MaxAttestationsPerPeer (rt_config t) then tl (rr_attestations r) else rr_attestations r)
          in (record_event c (ra_SubjectPeerID attestation) (\<lambda>r. r\<lparr>rr_attestations := kept @ [attestation]\<rparr>) t1, Inr ())))"

definition GetAllRecords :: "Tracker \<Rightarrow> (bytes, Record) gomap" where
  "GetAllRecords t = rt_records t"

definition GetPeersByTier :: "Tier \<Rightarrow> Tracker \<Rightarrow> bytes list" where
  "GetPeersByTier tier t = map fst (filter (\<lambda>(pid, r). rr_tier r = tier) (rt_records t))"

definition GetTopPeers :: "int \<Rightarrow> Tracker \<Rightarrow> bytes list res" where
  "GetTopPeers n t =
     (let peers = map (\<lambda>(pid, r). (pid, rr_compositeScore r)) (rt_records t);
          ranked = exch_outer (\<lambda>p q. f_less (snd p) (snd q)) (length peers) 0 peers
      in if n < 0 then Inl (Panic ''makeslice: cap out of range'') else Inr (map fst (take (nat n) ranked)))"

definition Tier_String :: "Tier \<Rightarrow> string" where
  "Tier_String t = (if t = TierBasic then ''Basic'' else if t = TierContributor then ''Contributor'' else if t = TierReliable then ''Reliable''
     else if t = TierTrusted then ''Trusted'' else ''Unknown'')"

text \<open>Conversions to and from the \<open>int32\<close> of the protocol enumeration.\<close>

definition Tier_ToProto :: "Tier \<Rightarrow> u32" where "Tier_ToProto t = word_of_int t"
definition TierFromProto :: "u32 \<Rightarrow> Tier" where "TierFromProto t = sint t"

definition PeerIDToHex :: "bytes \<Rightarrow> string" where "PeerIDToHex pid = hex_encode pid"
definition HexToPeerID :: "string \<Rightarrow> bytes res" where "HexToPeerID s = hex_decode s"

section \<open>Protocol messages\<close>

record ReputationAttestation =
  pa_AttesterPeerId :: bytes
  pa_SubjectPeerId :: bytes
  pa_Score :: float32
  pa_ObservationPeriodHours :: u64
  pa_Timestamp :: u64
  pa_Signature :: bytes
  pa_AttesterIdentityPub :: string

record PeerReputationMetrics =
  pm_RelayReliability :: float32
  pm_RelaySuccessCount :: u64
  pm_RelayTotalCount :: u64
  pm_UptimeConsistency :: float32
  pm_HoursOnline_7D :: u64
  pm_LastSeen :: u64
  pm_MailboxReliability :: float32
  pm_MailboxRetrievedCount :: u64
  pm_MailboxDepositedCount :: u64
  pm_DhtResponsiveness :: float32
  pm_AvgResponseMs :: float32
  pm_DhtQueryCount :: u64
  pm_ContentServing :: float32
  pm_BlocksServedCount :: u64
  pm_BlocksRequestedCount :: u64
  pm_FirstObserved :: u64
  pm_LastUpdated :: u64
  pm_ObservationCount :: u64

record PeerReputationRecord =
  pp_PeerId :: bytes
  pp_Metrics :: "PeerReputationMetrics option"
  pp_CompositeScore :: float32
  pp_Tier :: u32
  pp_Attestations :: "ReputationAttestation list"
  pp_TrustAdjustment :: float32

record ReputationAttestationEnvelope =
  pe_Attestation :: "ReputationAttestation option"
  pe_AttesterSignature :: bytes

record ReputationQuery =
  pq_TargetPeerId :: bytes
  pq_Timestamp :: u64
  pq_QuerierPubkey :: bytes

record ReputationResponse =
  ps_TargetPeerId :: bytes
  ps_Record :: "PeerReputationRecord option"
  ps_Attestations :: "ReputationAttestation list"
  ps_Timestamp :: u64
  ps_ResponderPubkey :: bytes

definition attestation_proto :: "Attestation \<Rightarrow> ReputationAttestation" where
  "attestation_proto att = \<lparr>pa_AttesterPeerId = ra_AttesterPeerID att, pa_SubjectPeerId = ra_SubjectPeerID att, pa_Score = to_f32 (ra_Score att),
     pa_ObservationPeriodHours = ra_ObservationPeriodHours att, pa_Timestamp = unix (ra_Timestamp att), pa_Signature = ra_Signature att,
     pa_AttesterIdentityPub = ra_AttesterIdentityPub att\<rparr>"

definition attestation_of :: "ReputationAttestation \<Rightarrow> Attestation" where
  "attestation_of p = \<lparr>ra_AttesterPeerID = pa_AttesterPeerId p, ra_AttesterIdentityPub = pa_AttesterIdentityPub p, ra_SubjectPeerID = pa_SubjectPeerId p,
     ra_Score = of_f32 (pa_Score p), ra_ObservationPeriodHours = pa_ObservationPeriodHours p, ra_Timestamp = unixTime (pa_Timestamp p), ra_Signature = pa_Signature p\<rparr>"

definition metrics_proto :: "time \<Rightarrow> Metrics \<Rightarrow> PeerReputationMetrics" where
  "metrics_proto lastUpdated m = \<lparr>pm_RelayReliability = to_f32 (rm_RelayReliability m), pm_RelaySuccessCount = rm_RelaySuccessCount m,
     pm_RelayTotalCount = rm_RelayTotalCount m, pm_UptimeConsistency = to_f32 (rm_UptimeConsistency m), pm_HoursOnline_7D = rm_HoursOnline7d m,
     pm_LastSeen = unix (rm_LastSeen m), pm_MailboxReliability = to_f32 (rm_MailboxReliability m), pm_MailboxRetrievedCount = rm_MailboxRetrievedCount m,
     pm_MailboxDepositedCount = rm_MailboxDepositedCount m, pm_DhtResponsiveness = to_f32 (rm_DHTResponsiveness m), pm_AvgResponseMs = to_f32 (rm_AvgResponseMS m),
     pm_DhtQueryCount = rm_DHTQueryCount m, pm_ContentServing = to_f32 (rm_ContentServing m), pm_BlocksServedCount = rm_BlocksServedCount m,
     pm_BlocksRequestedCount = rm_BlocksRequestedCount m, pm_FirstObserved = unix (rm_FirstObserved m), pm_LastUpdated = unix lastUpdated,
     pm_ObservationCount = rm_ObservationCount m\<rparr>"

definition Record_ToProto :: "Record \<Rightarrow> PeerReputationRecord" where
  "Record_ToProto r = \<lparr>pp_PeerId = rr_peerID r, pp_Metrics = Some (metrics_proto (rr_lastUpdated r) (rr_metrics r)), pp_CompositeScore = to_f32 (rr_compositeScore r),
     pp_Tier = Tier_ToProto (rr_tier r), pp_Attestations = map attestation_proto (rr_attestations r), pp_TrustAdjustment = to_f32 (rr_trustAdjustment r)\<rparr>"

definition metrics_of :: "PeerReputationMetrics \<Rightarrow> Metrics" where
  "metrics_of p = \<lparr>rm_RelayReliability = of_f32 (pm_RelayReliability p), rm_RelaySuccessCount = pm_RelaySuccessCount p, rm_RelayTotalCount = pm_RelayTotalCount p,
     rm_UptimeConsistency = of_f32 (pm_UptimeConsistency p), rm_HoursOnline7d = pm_HoursOnline_7D p, rm_LastSeen = unixTime (pm_LastSeen p),
     rm_MailboxReliability = of_f32 (pm_MailboxReliability p), rm_MailboxRetrievedCount = pm_MailboxRetrievedCount p,
     rm_MailboxDepositedCount = pm_MailboxDepositedCount p, rm_DHTResponsiveness = of_f32 (pm_DhtResponsiveness p), rm_AvgResponseMS = of_f32 (pm_AvgResponseMs p),
     rm_DHTQueryCount = pm_DhtQueryCount p, rm_ContentServing = of_f32 (pm_ContentServing p), rm_BlocksServedCount = pm_BlocksServedCount p,
     rm_BlocksRequestedCount = pm_BlocksRequestedCount p, rm_FirstObserved = unixTime (pm_FirstObserved p), rm_ObservationCount = pm_ObservationCount p\<rparr>"

text \<open>The conversion back, which three functions write out: it reads the fields of the metrics without a check for nil.\<close>

definition record_of :: "time \<Rightarrow> bytes \<Rightarrow> PeerReputationRecord \<Rightarrow> Record res" where
  "record_of now pid p = (case pp_Metrics p of
      None \<Rightarrow> Inl (Panic ''nil pointer dereference'')
    | Some pm \<Rightarrow> Inr \<lparr>rr_peerID = pid, rr_metrics = metrics_of pm, rr_compositeScore = of_f32 (pp_CompositeScore p), rr_tier = TierFromProto (pp_Tier p),
        rr_attestations = map attestation_of (pp_Attestations p), rr_trustAdjustment = of_f32 (pp_TrustAdjustment p), rr_lastUpdated = now\<rparr>)"

section \<open>Persistence\<close>

definition reputationKey :: "bytes \<Rightarrow> bytes" where "reputationKey pid = str_bytes ''rep:'' @ pid"

text \<open>An \<open>Update\<close> whose error is returned as it is.\<close>

definition plain_update :: "'d badger \<Rightarrow> kv_write list \<Rightarrow> 'd \<Rightarrow> ('d, unit) eff" where
  "plain_update B ws d = (case db_commit B d ws of Inl e \<Rightarrow> (d, Inl e) | Inr d' \<Rightarrow> (d', Inr ()))"

definition SaveRecord :: "'d badger \<Rightarrow> PeerReputationRecord codec \<Rightarrow> Record \<Rightarrow> 'd \<Rightarrow> ('d, unit) eff" where
  "SaveRecord B K r d = (case marshal K (Record_ToProto r) of
      Inl e \<Rightarrow> (d, Inl (Wrap ''failed to marshal record'' e))
    | Inr data \<Rightarrow> plain_update B [WSet (reputationKey (rr_peerID r)) data] d)"

definition LoadRecord :: "'d badger \<Rightarrow> PeerReputationRecord codec \<Rightarrow> time \<Rightarrow> bytes \<Rightarrow> 'd \<Rightarrow> Record option res" where
  "LoadRecord B K now pid d = (case db_get B d (reputationKey pid) of
      Inl e \<Rightarrow> Inl e
    | Inr None \<Rightarrow> Inr None
    | Inr (Some data) \<Rightarrow> rbind (wrapped ''failed to unmarshal record'' (unmarshal K data)) (\<lambda>p. rbind (record_of now pid p) (\<lambda>r. Inr (Some r))))"

definition DeleteRecord :: "'d badger \<Rightarrow> bytes \<Rightarrow> 'd \<Rightarrow> ('d, unit) eff" where
  "DeleteRecord B pid d = plain_update B [WDel (reputationKey pid)] d"

definition ListRecords :: "'d badger \<Rightarrow> PeerReputationRecord codec \<Rightarrow> time \<Rightarrow> 'd \<Rightarrow> Record list res" where
  "ListRecords B K now d = rbind (db_scan B d (str_bytes ''rep:'')) (\<lambda>items.
     each (\<lambda>(key, data). rbind (unmarshal K data) (record_of now (drop 4 key))) items)"

definition reputation_config_key :: bytes where "reputation_config_key = str_bytes ''cfg:reputation''"

definition SaveConfig :: "'d badger \<Rightarrow> ReputationConfig codec \<Rightarrow> ReputationConfig \<Rightarrow> 'd \<Rightarrow> ('d, unit) eff" where
  "SaveConfig B J config d = (case marshal J config of
      Inl e \<Rightarrow> (d, Inl (Wrap ''failed to marshal config'' e))
    | Inr data \<Rightarrow> plain_update B [WSet reputation_config_key data] d)"

definition LoadConfig :: "'d badger \<Rightarrow> ReputationConfig codec \<Rightarrow> 'd \<Rightarrow> ReputationConfig res" where
  "LoadConfig B J d = (case db_get B d reputation_config_key of
      Inl e \<Rightarrow> Inl e
    | Inr None \<Rightarrow> Inr Reputation_DefaultConfig
    | Inr (Some data) \<Rightarrow> wrapped ''failed to unmarshal config'' (unmarshal J data))"

record Stats =
  ss_TotalRecords :: nat
  ss_TierBasicCount :: nat
  ss_TierContributorCount :: nat
  ss_TierReliableCount :: nat
  ss_TierTrustedCount :: nat
  ss_AverageScore :: float64

definition count_tier :: "Tier \<Rightarrow> Record list \<Rightarrow> nat" where
  "count_tier tier records = length (filter (\<lambda>r. rr_tier r = tier) records)"

definition Reputation_GetStats :: "'d badger \<Rightarrow> PeerReputationRecord codec \<Rightarrow> time \<Rightarrow> 'd \<Rightarrow> Stats res" where
  "Reputation_GetStats B K now d = rbind (ListRecords B K now d) (\<lambda>records.
     let totalScore = fold (\<lambda>r total. f_add total (rr_compositeScore r)) records (Fin 0)
     in Inr \<lparr>ss_TotalRecords = length records, ss_TierBasicCount = count_tier TierBasic records, ss_TierContributorCount = count_tier TierContributor records,
          ss_TierReliableCount = count_tier TierReliable records, ss_TierTrustedCount = count_tier TierTrusted records,
          ss_AverageScore = (if length records > 0 then f_div totalScore (f_of_int (int (length records))) else Fin 0)\<rparr>)"

section \<open>Exchange of attestations\<close>

text \<open>The node of the network: publishing on a topic, subscribing to one, adding and fetching content, and publishing to a peer.\<close>

record 'n rep_node =
  rn_Publish :: "string \<Rightarrow> bytes \<Rightarrow> 'n \<Rightarrow> ('n, unit) eff"
  rn_Subscribe :: "string \<Rightarrow> 'n \<Rightarrow> ('n, unit) eff"
  rn_Add :: "bytes \<Rightarrow> 'n \<Rightarrow> ('n, string) eff"
  rn_Get :: "string \<Rightarrow> 'n \<Rightarrow> bytes res"
  rn_PublishTo :: "bytes \<Rightarrow> bytes \<Rightarrow> 'n \<Rightarrow> ('n, unit) eff"

record rep_codecs =
  k_attestation :: "ReputationAttestation codec"
  k_envelope :: "ReputationAttestationEnvelope codec"
  k_query :: "ReputationQuery codec"
  k_response :: "ReputationResponse codec"
  k_record :: "PeerReputationRecord codec"

record AttestationExchange =
  ax_tracker :: Tracker
  ax_privKey :: bytes
  ax_identityPub :: string

definition NewAttestationExchange :: "Tracker \<Rightarrow> bytes \<Rightarrow> string \<Rightarrow> AttestationExchange" where
  "NewAttestationExchange tracker privKey identityPub = \<lparr>ax_tracker = tracker, ax_privKey = privKey, ax_identityPub = identityPub\<rparr>"

text \<open>What is signed: the attestation without its signature.\<close>

definition canonical :: "Attestation \<Rightarrow> ReputationAttestation" where
  "canonical att = (attestation_proto att)\<lparr>pa_Signature := []\<rparr>"

definition CreateAttestation :: "prims \<Rightarrow> rep_codecs \<Rightarrow> time \<Rightarrow> bytes \<Rightarrow> float64 \<Rightarrow> u64 \<Rightarrow> AttestationExchange \<Rightarrow> Attestation res" where
  "CreateAttestation P K now subject score observationHours e =
     (let attestation = \<lparr>ra_AttesterPeerID = rt_selfPeerID (ax_tracker e), ra_AttesterIdentityPub = ax_identityPub e, ra_SubjectPeerID = subject, ra_Score = score,
            ra_ObservationPeriodHours = observationHours, ra_Timestamp = now, ra_Signature = []\<rparr>
      in rbind (wrapped ''failed to marshal attestation'' (marshal (k_attestation K) (canonical attestation))) (\<lambda>data.
         rbind (wrapped ''failed to sign attestation'' (Sign P (ax_privKey e) data)) (\<lambda>signature.
           Inr (attestation\<lparr>ra_Signature := signature\<rparr>))))"

definition VerifyAttestation :: "prims \<Rightarrow> rep_codecs \<Rightarrow> Attestation \<Rightarrow> unit res" where
  "VerifyAttestation P K attestation =
     rbind (wrapped ''failed to decode attester identity pubkey'' (hex_decode (ra_AttesterIdentityPub attestation))) (\<lambda>identityPubBytes.
     rbind (wrapped ''failed to marshal attestation'' (marshal (k_attestation K) (canonical attestation))) (\<lambda>data.
       if \<not> Verify P identityPubBytes data (ra_Signature attestation) then Inl Reputation_ErrInvalidSignature else Inr ()))"

definition envelope_of :: "Attestation \<Rightarrow> ReputationAttestationEnvelope" where
  "envelope_of attestation = \<lparr>pe_Attestation = Some (attestation_proto attestation), pe_AttesterSignature = ra_Signature attestation\<rparr>"

definition PublishAttestation :: "prims \<Rightarrow> rep_codecs \<Rightarrow> 'n rep_node \<Rightarrow> Attestation \<Rightarrow> 'n \<Rightarrow> ('n, string) eff" where
  "PublishAttestation P K N attestation n =
     (case VerifyAttestation P K attestation of
        Inl e \<Rightarrow> (n, Inl e)
      | Inr _ \<Rightarrow> (case marshal (k_envelope K) (envelope_of attestation) of
          Inl e \<Rightarrow> (n, Inl (Wrap ''failed to marshal envelope'' e))
        | Inr data \<Rightarrow> (case rn_Add N data n of (n1, r) \<Rightarrow> (n1, wrapped ''failed to add attestation to IPFS'' r))))"

definition PublishAttestationToPeer :: "prims \<Rightarrow> rep_codecs \<Rightarrow> 'n rep_node \<Rightarrow> bytes \<Rightarrow> Attestation \<Rightarrow> 'n \<Rightarrow> ('n, unit) eff" where
  "PublishAttestationToPeer P K N target attestation n =
     (case VerifyAttestation P K attestation of
        Inl e \<Rightarrow> (n, Inl e)
      | Inr _ \<Rightarrow> (case marshal (k_envelope K) (envelope_of attestation) of
          Inl e \<Rightarrow> (n, Inl (Wrap ''failed to marshal envelope'' e))
        | Inr data \<Rightarrow> rn_PublishTo N target data n))"

definition GetAttestation :: "prims \<Rightarrow> rep_codecs \<Rightarrow> 'n rep_node \<Rightarrow> string \<Rightarrow> 'n \<Rightarrow> Attestation res" where
  "GetAttestation P K N c n =
     rbind (wrapped ''failed to get attestation from IPFS'' (rn_Get N c n)) (\<lambda>data.
     rbind (wrapped ''failed to unmarshal envelope'' (unmarshal (k_envelope K) data)) (\<lambda>envelope.
       case pe_Attestation envelope of
         None \<Rightarrow> Inl (Panic ''nil pointer dereference'')
       | Some p \<Rightarrow> rbind (VerifyAttestation P K (attestation_of p)) (\<lambda>_. Inr (attestation_of p))))"

definition rep_topic :: "bytes \<Rightarrow> string res" where
  "rep_topic target = (if length target < 8 then Inl (Panic ''slice bounds out of range'') else Inr (''babylon-rep-'' @ hex_encode (take 8 target)))"

text \<open>The attestations of one response that verify.\<close>

definition verified :: "prims \<Rightarrow> rep_codecs \<Rightarrow> bytes \<Rightarrow> Attestation list" where
  "verified P K data = (case unmarshal (k_response K) data of
      Inl _ \<Rightarrow> []
    | Inr response \<Rightarrow> filter (\<lambda>a. VerifyAttestation P K a = Inr ()) (map attestation_of (ps_Attestations response)))"

text \<open>\<open>received\<close> are the messages that came in on the topic before the end of the loop, by the timeout or by the end of the context with its error.\<close>

definition RequestAttestations ::
    "prims \<Rightarrow> rep_codecs \<Rightarrow> 'n rep_node \<Rightarrow> time \<Rightarrow> bytes list \<Rightarrow> go_error option \<Rightarrow> bytes \<Rightarrow> AttestationExchange \<Rightarrow> 'n \<Rightarrow> ('n, Attestation list \<times> go_error option) eff" where
  "RequestAttestations P K N now received ended target e n =
     (case marshal (k_query K) \<lparr>pq_TargetPeerId = target, pq_Timestamp = unix now, pq_QuerierPubkey = rt_selfPeerID (ax_tracker e)\<rparr> of
        Inl err \<Rightarrow> (n, Inl (Wrap ''failed to marshal query'' err))
      | Inr data \<Rightarrow> (case rep_topic target of
          Inl err \<Rightarrow> (n, Inl err)
        | Inr topic \<Rightarrow> (case rn_Publish N topic data n of
            (n1, Inl err) \<Rightarrow> (n1, Inl (Wrap ''failed to publish query'' err))
          | (n1, Inr _) \<Rightarrow> (case rn_Subscribe N topic n1 of
              (n2, Inl err) \<Rightarrow> (n2, Inl (Wrap ''failed to subscribe for responses'' err))
            | (n2, Inr _) \<Rightarrow> (n2, Inr (concat (map (verified P K) received), ended))))))"

definition RespondToAttestationRequest :: "rep_codecs \<Rightarrow> 'n rep_node \<Rightarrow> time \<Rightarrow> ReputationQuery \<Rightarrow> AttestationExchange \<Rightarrow> 'n \<Rightarrow> ('n, unit) eff" where
  "RespondToAttestationRequest K N now query e n =
     (case GetRecord (pq_TargetPeerId query) (ax_tracker e) of
        None \<Rightarrow> (n, Inr ())
      | Some r \<Rightarrow>
          (case marshal (k_response K) \<lparr>ps_TargetPeerId = pq_TargetPeerId query, ps_Record = Some (Record_ToProto r), ps_Attestations = map attestation_proto (rr_attestations r),
              ps_Timestamp = unix now, ps_ResponderPubkey = rt_selfPeerID (ax_tracker e)\<rparr> of
             Inl err \<Rightarrow> (n, Inl (Wrap ''failed to marshal response'' err))
           | Inr data \<Rightarrow> (case rep_topic (pq_TargetPeerId query) of
               Inl err \<Rightarrow> (n, Inl err)
             | Inr topic \<Rightarrow> rn_Publish N topic data n)))"

text \<open>\<open>multihash_Sum\<close> is the function of the third-party package, applied to the identifier with SHA2-256.\<close>

definition ComputeDHTKey :: "(bytes \<Rightarrow> bytes res) \<Rightarrow> bytes \<Rightarrow> string res" where
  "ComputeDHTKey multihash_Sum peerID = (case multihash_Sum peerID of
      Inl _ \<Rightarrow> Inr []
    | Inr hash \<Rightarrow> if length hash < 2 then Inl (Panic ''slice bounds out of range'') else Inr (''/bt/rep/'' @ hex_encode (drop 2 hash)))"

definition PublishReputationRecord :: "rep_codecs \<Rightarrow> 'n rep_node \<Rightarrow> bytes \<Rightarrow> AttestationExchange \<Rightarrow> 'n \<Rightarrow> ('n, string) eff" where
  "PublishReputationRecord K N pid e n =
     (case GetRecord pid (ax_tracker e) of
        None \<Rightarrow> (n, Inl (Err ''no record found for peer''))
      | Some r \<Rightarrow> (case marshal (k_record K) (Record_ToProto r) of
          Inl err \<Rightarrow> (n, Inl (Wrap ''failed to marshal record'' err))
        | Inr data \<Rightarrow> (case rn_Add N data n of (n1, res) \<Rightarrow> (n1, wrapped ''failed to add record to IPFS'' res))))"

definition GetReputationRecord :: "rep_codecs \<Rightarrow> 'n rep_node \<Rightarrow> time \<Rightarrow> bytes \<Rightarrow> string \<Rightarrow> 'n \<Rightarrow> Record res" where
  "GetReputationRecord K N now pid c n =
     rbind (wrapped ''failed to get record from IPFS'' (rn_Get N c n)) (\<lambda>data.
     rbind (wrapped ''failed to unmarshal record'' (unmarshal (k_record K) data)) (record_of now pid))"

section \<open>Events\<close>

text \<open>What can happen to a tracker, one event after the other.\<close>

datatype rep_event =
    Relay "nat \<Rightarrow> time" bytes bool
  | Uptime "nat \<Rightarrow> time" bytes bool
  | MailboxEv "nat \<Rightarrow> time" bytes bool bool
  | DHT "nat \<Rightarrow> time" bytes float64
  | Content "nat \<Rightarrow> time" bytes bool bool
  | Trust "nat \<Rightarrow> time" bytes float64
  | Attest "float64 \<Rightarrow> u64" "nat \<Rightarrow> time" Attestation
  | Lookup "nat \<Rightarrow> time" bytes

fun tracker_step :: "rep_event \<Rightarrow> Tracker \<Rightarrow> Tracker" where
  "tracker_step (Relay c pid b) t = RecordRelayEvent c pid b t"
| "tracker_step (Uptime c pid b) t = RecordUptimeObservation c pid b t"
| "tracker_step (MailboxEv c pid d r) t = RecordMailboxEvent c pid d r t"
| "tracker_step (DHT c pid x) t = RecordDHTQuery c pid x t"
| "tracker_step (Content c pid s r) t = RecordContentEvent c pid s r t"
| "tracker_step (Trust c pid x) t = SetTrustAdjustment c pid x t"
| "tracker_step (Attest other c a) t = fst (AddAttestation other c a t)"
| "tracker_step (Lookup c pid) t = fst (GetOrCreateRecord c pid t)"

definition tracker_run :: "rep_event list \<Rightarrow> Tracker \<Rightarrow> Tracker" where
  "tracker_run evs t = fold tracker_step evs t"

section \<open>Facts on the numbers\<close>

lemma ratio_bounded:
  assumes "0 < d"
  shows "bounded 70 (f_div (f_of_u64 n) (f_of_u64 d)) \<and> nonneg (f_div (f_of_u64 n) (f_of_u64 d))"
proof -
  obtain p where p: "f_of_u64 n = Fin p" "0 \<le> p" "p \<le> 2 ^ 65" by (rule f_of_u64_finite)
  obtain q where q: "f_of_u64 d = Fin q" "1 / 2 \<le> q" using f_of_u64_finite[of d] assms by (metis less_irrefl)
  have "p / q \<le> p / (1 / 2)" using p(2) q(2) by (intro divide_left_mono) simp_all
  then have b: "0 \<le> p / q" "p / q \<le> 2 ^ 66" using p q(2) by simp_all
  have "\<bar>p / q\<bar> \<le> 2 ^ 1000" unfolding abs_of_nonneg[OF b(1)] by (rule order_trans[OF b(2)]) (rule power_increasing, simp_all)
  then obtain r where r: "f64 (p / q) = Fin r" "\<bar>r\<bar> \<le> 2 * \<bar>p / q\<bar>" by (rule f64_finite)
  have "\<bar>r\<bar> \<le> 2 * 2 ^ 66" using r(2) b unfolding abs_of_nonneg[OF b(1)] by linarith
  then have "bounded 70 (Fin r)" unfolding bounded_def by (intro exI[of _ r]) simp
  then show ?thesis using p(1) q r(1) nonneg_f64[OF b(1)] by simp
qed

lemma bounded_cap: "bounded 70 x \<Longrightarrow> bounded 70 (f_cap x)"
  by (auto simp: bounded_def f_cap_def)


lemma bounded_f64:
  assumes "\<bar>x\<bar> \<le> 2 ^ b" "b \<le> 1000"
  shows "bounded (Suc b) (f64 x)"
proof -
  have "\<bar>x\<bar> \<le> 2 ^ 1000" by (rule order_trans[OF assms(1)]) (rule power_increasing[OF assms(2)], simp)
  then obtain q where "f64 x = Fin q" "\<bar>q\<bar> \<le> 2 * \<bar>x\<bar>" by (rule f64_finite)
  then show ?thesis using assms(1) by (simp add: bounded_def)
qed

lemma bounded_mono: "bounded a x \<Longrightarrow> a \<le> b \<Longrightarrow> bounded b x"
  unfolding bounded_def by (elim exE conjE, intro exI conjI, assumption, erule order_trans) (simp add: power_increasing)

lemma bounded_add:
  assumes "bounded b x" "bounded b y" "Suc b \<le> 1000"
  shows "bounded (b + 2) (f_add x y)"
proof -
  obtain p q where x: "x = Fin p" "\<bar>p\<bar> \<le> 2 ^ b" "y = Fin q" "\<bar>q\<bar> \<le> 2 ^ b" using assms(1,2) by (auto simp: bounded_def)
  have "\<bar>p + q\<bar> \<le> 2 ^ Suc b" using x(2,4) by (simp add: abs_if split: if_splits)
  then show ?thesis using bounded_f64[OF _ assms(3)] x(1,3) by simp
qed

lemma bounded_mul:
  assumes "bounded a x" "bounded b y" "a + b \<le> 1000"
  shows "bounded (Suc (a + b)) (f_mul x y)"
proof -
  obtain p q where x: "x = Fin p" "\<bar>p\<bar> \<le> 2 ^ a" "y = Fin q" "\<bar>q\<bar> \<le> 2 ^ b" using assms(1,2) by (auto simp: bounded_def)
  have "\<bar>p * q\<bar> \<le> 2 ^ a * 2 ^ b" unfolding abs_mult by (rule mult_mono) (use x(2,4) in simp_all)
  then have "\<bar>p * q\<bar> \<le> 2 ^ (a + b)" by (simp add: power_add)
  then show ?thesis using bounded_f64[OF _ assms(3)] x(1,3) by simp
qed

lemma default_values:
  "rc_RelayReliabilityWeight Reputation_DefaultConfig = Fin (1/4)" "rc_UptimeConsistencyWeight Reputation_DefaultConfig = Fin (3602879701896397 / 18014398509481984)"
  "rc_MailboxReliabilityWeight Reputation_DefaultConfig = Fin (1/4)" "rc_DHTResponsivenessWeight Reputation_DefaultConfig = Fin (5404319552844595 / 36028797018963968)"
  "rc_ContentServingWeight Reputation_DefaultConfig = Fin (5404319552844595 / 36028797018963968)"
  "rc_TierContributorThreshold Reputation_DefaultConfig = Fin (5404319552844595 / 18014398509481984)"
  "rc_TierReliableThreshold Reputation_DefaultConfig = Fin (5404319552844595 / 9007199254740992)"
  "rc_TierTrustedThreshold Reputation_DefaultConfig = Fin (3602879701896397 / 4503599627370496)"
  by code_simp+

section \<open>Invariants of the tracker\<close>

text \<open>A property of single records holds of all records of a tracker.\<close>

definition all_records :: "(Record \<Rightarrow> bool) \<Rightarrow> Tracker \<Rightarrow> bool" where
  "all_records I t \<longleftrightarrow> (\<forall>pid r. GetRecord pid t = Some r \<longrightarrow> I r)"

lemma all_records_New [simp]: "all_records I (NewTracker self ident config)"
  by (simp add: all_records_def GetRecord_def NewTracker_def)

lemma GetOrCreate_inv:
  assumes "all_records I t" "\<And>c pid. I (new_record c pid)" "GetOrCreateRecord c pid t = (t1, r)"
  shows "all_records I t1" "I r" "rt_config t1 = rt_config t" "GetRecord pid t1 = Some r"
    "pid' \<noteq> pid \<Longrightarrow> GetRecord pid' t1 = GetRecord pid' t"
  using assms by (auto simp: all_records_def GetRecord_def GetOrCreateRecord_def split: option.splits if_splits)

lemma record_event_config [simp]: "rt_config (record_event c pid g t) = rt_config t"
  by (simp add: record_event_def GetOrCreateRecord_def split: option.split)

text \<open>The steps of a tracker in terms of the change of one record.\<close>

fun event_peer :: "rep_event \<Rightarrow> bytes" where
  "event_peer (Relay c pid b) = pid"
| "event_peer (Uptime c pid b) = pid"
| "event_peer (MailboxEv c pid d r) = pid"
| "event_peer (DHT c pid x) = pid"
| "event_peer (Content c pid s r) = pid"
| "event_peer (Trust c pid x) = pid"
| "event_peer (Attest other c a) = ra_SubjectPeerID a"
| "event_peer (Lookup c pid) = pid"

inductive changes :: "rep_event \<Rightarrow> (Record \<Rightarrow> Record) \<Rightarrow> bool" where
  "changes (Relay c pid b) (on_metrics (relay_metrics b))"
| "changes (Uptime c pid b) (on_metrics (uptime_metrics now b))"
| "changes (MailboxEv c pid d r) (on_metrics (mailbox_metrics d r))"
| "changes (DHT c pid x) (on_metrics (dht_metrics x))"
| "changes (Content c pid s r) (on_metrics (content_metrics s r))"
| "changes (Trust c pid x) (\<lambda>r. r\<lparr>rr_trustAdjustment := f_clamp (- (1/2)) (1/2) x\<rparr>)"
| "changes (Attest other c a) (\<lambda>r. r\<lparr>rr_attestations := as\<rparr>)"

text \<open>Every event leaves the tracker, or only looks a record up, or changes the record of its peer.\<close>

lemma rep_step_cases:
  obtains (same) "tracker_step ev t = t"
  | (lookup) c where "tracker_step ev t = fst (GetOrCreateRecord c (event_peer ev) t)"
  | (change) c g t1 r where "tracker_step ev t = record_event c (event_peer ev) g t1" "changes ev g" "t1 = t \<or> (t1, r) = GetOrCreateRecord c (event_peer ev) t"
proof (cases ev)
  case (Attest other c a)
  obtain t1 r where g: "GetOrCreateRecord c (ra_SubjectPeerID a) t = (t1, r)" by (cases "GetOrCreateRecord c (ra_SubjectPeerID a) t")
  consider "tracker_step ev t = t" | "tracker_step ev t = t1" | as where "tracker_step ev t = record_event c (ra_SubjectPeerID a) (\<lambda>r. r\<lparr>rr_attestations := as\<rparr>) t1"
  proof -
    have "fst (AddAttestation other c a t) \<in> {t, t1} \<union> range (\<lambda>as. record_event c (ra_SubjectPeerID a) (\<lambda>r. r\<lparr>rr_attestations := as\<rparr>) t1)"
      unfolding AddAttestation_def g prod.case Let_def by (simp split: if_split)
    then show ?thesis using that unfolding Attest by auto
  qed
  then show ?thesis
  proof cases
    case 2
    then show ?thesis using lookup[of c] g by (simp add: Attest)
  next
    case (3 as)
    moreover have "changes ev (\<lambda>r. r\<lparr>rr_attestations := as\<rparr>)" unfolding Attest by (rule changes.intros)
    ultimately show ?thesis using change[of c _ t1 r] g by (simp add: Attest)
  qed (rule same)
qed (use same lookup change changes.intros in \<open>auto simp: RecordRelayEvent_def RecordUptimeObservation_def RecordMailboxEvent_def RecordDHTQuery_def
  RecordContentEvent_def SetTrustAdjustment_def\<close>)

lemma record_event_inv:
  assumes "all_records I t" "\<And>c pid. I (new_record c pid)" "\<And>r now. I r \<Longrightarrow> I ((updateCompositeScore (rt_config t) (g r))\<lparr>rr_lastUpdated := now\<rparr>)"
  shows "all_records I (record_event c pid g t)"
proof -
  obtain t1 r where g: "GetOrCreateRecord c pid t = (t1, r)" by (cases "GetOrCreateRecord c pid t")
  note inv = GetOrCreate_inv[OF assms(1,2) g]
  show ?thesis unfolding all_records_def
  proof (intro allI impI)
    fix p s assume "GetRecord p (record_event c pid g t) = Some s"
    then show "I s" using inv(1,2) assms(3)[OF inv(2)] inv(3) by (auto simp: record_event_def g GetRecord_def all_records_def split: if_splits)
  qed
qed

lemma rep_step_inv:
  assumes "all_records I t" "\<And>c pid. I (new_record c pid)"
    and "\<And>g r now. changes ev g \<Longrightarrow> I r \<Longrightarrow> I ((updateCompositeScore (rt_config t) (g r))\<lparr>rr_lastUpdated := now\<rparr>)"
  shows "all_records I (tracker_step ev t)" "rt_config (tracker_step ev t) = rt_config t"
proof -
  have "all_records I (tracker_step ev t) \<and> rt_config (tracker_step ev t) = rt_config t"
  proof (cases rule: rep_step_cases[of ev t])
    case same
    then show ?thesis using assms(1) by simp
  next
    case (lookup c)
    then show ?thesis using GetOrCreate_inv(1,3)[OF assms(1,2) prod.collapse[symmetric]] by simp
  next
    case (change c g t1 r)
    have "all_records I t1 \<and> rt_config t1 = rt_config t"
      using change(3) assms(1) GetOrCreate_inv(1,3)[OF assms(1,2), of c "event_peer ev" t1 r] by auto
    then show ?thesis using change(1) record_event_inv[of I t1] assms(2,3) change(2) by simp
  qed
  then show "all_records I (tracker_step ev t)" "rt_config (tracker_step ev t) = rt_config t" by auto
qed

definition composite :: "ReputationConfig \<Rightarrow> Record \<Rightarrow> float64" where
  "composite C r = f_clamp 0 1 (f_add (weighted_sum C (rr_metrics r)) (rr_trustAdjustment r))"

definition scored :: "ReputationConfig \<Rightarrow> Record \<Rightarrow> bool" where
  "scored C r \<longleftrightarrow> rr_compositeScore r = composite C r \<and> rr_tier r = tier_of C (rr_compositeScore r) \<and> unat (rm_HoursOnline7d (rr_metrics r)) \<le> HoursPerWeek"

lemma scored_update: "unat (rm_HoursOnline7d (rr_metrics (g r))) \<le> HoursPerWeek \<Longrightarrow> scored C ((updateCompositeScore C (g r))\<lparr>rr_lastUpdated := now\<rparr>)"
  by (simp add: scored_def composite_def updateCompositeScore_def Let_def)

lemma scored_new: "scored Reputation_DefaultConfig (new_record c pid)"
  by (simp add: scored_def composite_def new_record_def new_metrics_def weighted_sum_def default_values f_clamp_def tier_of_def)

lemma changes_hours:
  assumes "changes ev g" "unat (rm_HoursOnline7d (rr_metrics r)) \<le> HoursPerWeek"
  shows "unat (rm_HoursOnline7d (rr_metrics (g r))) \<le> HoursPerWeek"
  using assms(1)
proof cases
  case 2
  then show ?thesis using assms(2)
    by (auto simp: on_metrics_def uptime_metrics_def Let_def HoursPerWeek_def word_less_nat_alt word_le_nat_alt linorder_not_less)
qed (use assms(2) in \<open>simp_all add: on_metrics_def relay_metrics_def mailbox_metrics_def dht_metrics_def content_metrics_def Let_def\<close>)

lemma scored_change: "changes ev g \<Longrightarrow> scored C r \<Longrightarrow> scored C ((updateCompositeScore C (g r))\<lparr>rr_lastUpdated := now\<rparr>)"
  by (rule scored_update, erule changes_hours) (simp add: scored_def)

lemma run_scored:
  "rt_config t = Reputation_DefaultConfig \<Longrightarrow> all_records (scored Reputation_DefaultConfig) t \<Longrightarrow>
     all_records (scored Reputation_DefaultConfig) (tracker_run evs t) \<and> rt_config (tracker_run evs t) = Reputation_DefaultConfig"
proof (induction evs arbitrary: t)
  case (Cons ev evs)
  have "all_records (scored Reputation_DefaultConfig) (tracker_step ev t)" "rt_config (tracker_step ev t) = rt_config t"
    using rep_step_inv[OF Cons.prems(2) scored_new, of ev] scored_change by (simp_all add: Cons.prems(1))
  then show ?case using Cons by (simp add: tracker_run_def)
qed (simp add: tracker_run_def)

text \<open>No overflow: what keeps a score a number.\<close>

definition clean :: "nat \<Rightarrow> Record \<Rightarrow> bool" where
  "clean k r \<longleftrightarrow> (let m = rr_metrics r in
     bounded 70 (rm_RelayReliability m) \<and> bounded 70 (rm_UptimeConsistency m) \<and> bounded 70 (rm_MailboxReliability m) \<and> bounded 70 (rm_DHTResponsiveness m) \<and>
     bounded 70 (rm_ContentServing m) \<and> nonneg (rm_AvgResponseMS m) \<and> (rm_DHTQueryCount m = 0 \<longrightarrow> rm_AvgResponseMS m = Fin 0) \<and>
     unat (rm_DHTQueryCount m) \<le> k \<and> bounded 0 (rr_trustAdjustment r))"

fun clean_event :: "rep_event \<Rightarrow> bool" where
  "clean_event (DHT c pid x) = nonneg x"
| "clean_event (Trust c pid x) = (x \<noteq> NaN)"
| "clean_event ev = True"

lemma bounded_Fin: "bounded b (Fin q) \<longleftrightarrow> \<bar>q\<bar> \<le> 2 ^ b"
  by (auto simp: bounded_def)

lemma clean_new: "clean k (new_record c pid)"
  by (simp add: clean_def new_record_def new_metrics_def Let_def bounded_Fin)

lemma dht_clean:
  assumes "nonneg x" "nonneg (rm_AvgResponseMS m)" "rm_DHTQueryCount m = 0 \<longrightarrow> rm_AvgResponseMS m = Fin 0"
  shows "nonneg (rm_AvgResponseMS (dht_metrics x m)) \<and> bounded 70 (rm_DHTResponsiveness (dht_metrics x m))"
proof -
  let ?n = "f_of_u64 (rm_DHTQueryCount m)"
  obtain q where q: "?n = Fin q" "0 \<le> q" "q \<le> 2 ^ 65" "rm_DHTQueryCount m \<noteq> 0 \<longrightarrow> 1 / 2 \<le> q" "rm_DHTQueryCount m = 0 \<longrightarrow> q = 0"
    by (rule f_of_u64_finite)
  have "nonneg (f_mul ?n (rm_AvgResponseMS m))"
  proof (cases "rm_DHTQueryCount m = 0")
    case False
    then have "0 < q" using q(4) by simp
    then show ?thesis unfolding q(1) by (rule nonneg_mul[OF _ assms(2)])
  qed (use q(1,5) assms(3) in simp)
  then have sum: "nonneg (f_add (f_mul ?n (rm_AvgResponseMS m)) x)" using assms(1) by (rule nonneg_add)
  have "1 \<le> q + 1" using q(2) by simp
  then have "(q + 1) / 2 \<le> nearest 53 (-1074) (q + 1)" by (rule nearest_half)
  moreover have "\<bar>q + 1\<bar> \<le> 2 ^ 66" using q(2,3) by simp
  then obtain d where "f64 (q + 1) = Fin d" using bounded_f64[of "q + 1" 66] by (auto simp: bounded_def)
  moreover from this have "d = nearest 53 (-1074) (q + 1)" by (auto simp: f64_def rounded_def Let_def split: if_splits)
  ultimately have d: "f_add ?n (Fin 1) = Fin d" "0 < d" using q(1,2) by auto
  have avg: "nonneg (f_div (f_add (f_mul ?n (rm_AvgResponseMS m)) x) (f_add ?n (Fin 1)))" unfolding d(1) by (rule nonneg_div[OF sum d(2)])
  have "nonneg (f_div (f_div (f_add (f_mul ?n (rm_AvgResponseMS m)) x) (f_add ?n (Fin 1))) (Fin MaxDHTLatencyMS))"
    by (rule nonneg_div[OF avg]) (simp add: MaxDHTLatencyMS_def)
  then have "f_sub (Fin 1) (f_div (f_div (f_add (f_mul ?n (rm_AvgResponseMS m)) x) (f_add ?n (Fin 1))) (Fin MaxDHTLatencyMS)) \<noteq> NaN"
    by (elim nonnegE) (simp_all add: f_sub_def)
  then obtain r where "rm_DHTResponsiveness (dht_metrics x m) = Fin r" "0 \<le> r" "r \<le> 1"
    using f_clamp_cases[of 0 1 "f_sub (Fin 1) (f_div (f_div (f_add (f_mul ?n (rm_AvgResponseMS m)) x) (f_add ?n (Fin 1))) (Fin MaxDHTLatencyMS))"]
    by (auto simp: dht_metrics_def Let_def)
  then show ?thesis using avg by (simp add: dht_metrics_def Let_def bounded_Fin)
qed

lemma clean_change:
  assumes "changes ev g" "clean_event ev" "clean k r" "Suc k < 2 ^ 64"
  shows "clean (Suc k) (g r)"
  using assms(1)
proof cases
  case (4 c pid x)
  let ?m = "rr_metrics r"
  have m: "nonneg x" "nonneg (rm_AvgResponseMS ?m)" "rm_DHTQueryCount ?m = 0 \<longrightarrow> rm_AvgResponseMS ?m = Fin 0" "unat (rm_DHTQueryCount ?m) \<le> k"
    using assms(2,3) 4 by (simp_all add: clean_def Let_def)
  have "unat (rm_DHTQueryCount ?m + 1) = Suc (unat (rm_DHTQueryCount ?m))" using m(4) assms(4) by (simp add: unat_word_ariths)
  then have "rm_DHTQueryCount ?m + 1 \<noteq> 0" "unat (rm_DHTQueryCount ?m + 1) \<le> Suc k" using m(4) by (auto simp: unat_eq_0[symmetric] simp del: unat_eq_0)
  then show ?thesis using dht_clean[OF m(1-3)] assms(3) unfolding 4 by (auto simp: clean_def on_metrics_def dht_metrics_def Let_def)
next
  case (6 c pid x)
  then have "x \<noteq> NaN" using assms(2) by simp
  then obtain q where "f_clamp (- (1/2)) (1/2) x = Fin q" "- (1/2) \<le> q" "q \<le> 1/2" using f_clamp_cases[of "- (1/2)" "1/2" x] by auto
  then show ?thesis using assms(3) unfolding 6 by (simp add: clean_def Let_def bounded_Fin abs_le_iff)
next
  case (2 c pid b now)
  have w: "f_of_u64 168 = Fin 168" "(168 :: u64) > 0" by code_simp+
  have "bounded 70 (f_div (f_of_u64 h) (Fin 168))" for h using ratio_bounded[OF w(2), of h] by (simp add: w(1))
  then show ?thesis using assms(3) unfolding 2 by (auto simp: clean_def on_metrics_def uptime_metrics_def Let_def HoursPerWeek_def)
qed (use assms(3) in \<open>auto simp: clean_def on_metrics_def relay_metrics_def mailbox_metrics_def content_metrics_def Let_def ratio_bounded bounded_cap\<close>)

lemma clean_update [simp]: "clean k ((updateCompositeScore C r)\<lparr>rr_lastUpdated := now\<rparr>) = clean k r"
  by (simp add: clean_def updateCompositeScore_def Let_def)

lemma clean_Suc: "clean k r \<Longrightarrow> clean (Suc k) r"
  by (auto simp: clean_def Let_def)

lemma run_clean:
  "\<forall>ev \<in> set evs. clean_event ev \<Longrightarrow> k + length evs < 2 ^ 64 \<Longrightarrow> all_records (clean k) t \<Longrightarrow> all_records (clean (k + length evs)) (tracker_run evs t)"
proof (induction evs arbitrary: k t)
  case (Cons ev evs)
  have "all_records (clean (Suc k)) t" using Cons.prems(3) clean_Suc by (auto simp: all_records_def)
  have "all_records (clean (Suc k)) (tracker_step ev t)"
  proof (cases rule: rep_step_cases[of ev t])
    case same
    then show ?thesis using \<open>all_records (clean (Suc k)) t\<close> by simp
  next
    case (lookup c)
    then show ?thesis using GetOrCreate_inv(1)[OF \<open>all_records (clean (Suc k)) t\<close> clean_new prod.collapse[symmetric]] by simp
  next
    case (change c g t1 r)
    have k: "all_records (clean k) t1"
      using change(3) Cons.prems(3) GetOrCreate_inv(1)[OF Cons.prems(3) clean_new, of c "event_peer ev" t1 r] by auto
    obtain t2 s where g: "GetOrCreateRecord c (event_peer ev) t1 = (t2, s)" by (cases "GetOrCreateRecord c (event_peer ev) t1")
    note inv = GetOrCreate_inv[OF k clean_new g]
    have "clean (Suc k) (g s)" by (rule clean_change[OF change(2) _ inv(2)]) (use Cons.prems in simp_all)
    then show ?thesis using inv(1) clean_Suc unfolding change(1) record_event_def g
      by (auto simp: all_records_def GetRecord_def split: if_splits)
  qed
  then show ?case using Cons.IH[of "Suc k" "tracker_step ev t"] Cons.prems(1,2) by (simp add: tracker_run_def)
qed (simp add: tracker_run_def)

lemma clean_score:
  assumes "clean k r"
  shows "composite Reputation_DefaultConfig r \<noteq> NaN"
proof -
  have b: "bounded 70 (rm_RelayReliability (rr_metrics r))" "bounded 70 (rm_UptimeConsistency (rr_metrics r))" "bounded 70 (rm_MailboxReliability (rr_metrics r))"
    "bounded 70 (rm_DHTResponsiveness (rr_metrics r))" "bounded 70 (rm_ContentServing (rr_metrics r))" "bounded 0 (rr_trustAdjustment r)"
    using assms by (simp_all add: clean_def Let_def)
  have w: "bounded 71 (f_mul x (Fin w))" if "bounded 70 x" "\<bar>w\<bar> \<le> 1" for x w using bounded_mul[OF that(1), of 0 "Fin w"] that(2) by (simp add: bounded_Fin)
  have s: "bounded (n + 2) (f_add x y)" if "bounded n x" "bounded 71 y" "71 \<le> n" "Suc n \<le> 1000" for n x y
    using bounded_add[OF that(1) bounded_mono[OF that(2,3)] that(4)] .
  have "bounded 79 (weighted_sum Reputation_DefaultConfig (rr_metrics r))"
    unfolding weighted_sum_def default_values using s[OF s[OF s[OF s[OF w[OF b(1)] w[OF b(2)]] w[OF b(3)]] w[OF b(4)]] w[OF b(5)]] by simp
  then have "bounded 81 (f_add (weighted_sum Reputation_DefaultConfig (rr_metrics r)) (rr_trustAdjustment r))"
    using s[of 79, OF _ bounded_mono[OF b(6)]] by simp
  then have "f_add (weighted_sum Reputation_DefaultConfig (rr_metrics r)) (rr_trustAdjustment r) \<noteq> NaN" by (auto simp: bounded_def)
  then show ?thesis using f_clamp_cases[of 0 1] unfolding composite_def by (metis zero_le_one go_float.distinct(3))
qed

lemma rep_step_record:
  assumes "GetRecord pid t = Some r"
  obtains "GetRecord pid (tracker_step ev t) = Some r"
  | g now where "changes ev g" "GetRecord pid (tracker_step ev t) = Some ((updateCompositeScore (rt_config t) (g r))\<lparr>rr_lastUpdated := now\<rparr>)"
proof (cases rule: rep_step_cases[of ev t])
  case (lookup c)
  have "GetRecord pid (fst (GetOrCreateRecord c (event_peer ev) t)) = Some r"
    using assms by (auto simp: GetOrCreateRecord_def GetRecord_def split: option.split)
  then show ?thesis using that(1) by (simp only: lookup)
next
  case (change c g t1 s)
  have "t1 = t \<or> t1 = fst (GetOrCreateRecord c (event_peer ev) t)" using change(3) by (metis fst_conv)
  then have t1: "GetRecord pid t1 = Some r" "rt_config t1 = rt_config t"
    using assms by (auto simp: GetOrCreateRecord_def GetRecord_def split: option.splits)
  show ?thesis
  proof (cases "event_peer ev = pid")
    case True
    then have "GetRecord pid (tracker_step ev t) = Some ((updateCompositeScore (rt_config t) (g r))\<lparr>rr_lastUpdated := c 2\<rparr>)"
      using t1 by (simp add: change(1) record_event_def GetOrCreateRecord_def GetRecord_def)
    then show ?thesis using that(2) change(2) by blast
  next
    case False
    then have "GetRecord pid (tracker_step ev t) = Some r"
      using t1 by (simp add: change(1) record_event_def GetOrCreateRecord_def GetRecord_def split: option.split)
    then show ?thesis using that(1) by blast
  qed
qed (use assms that(1) in simp)

definition poisoned :: "Record \<Rightarrow> bool" where
  "poisoned r \<longleftrightarrow> rm_AvgResponseMS (rr_metrics r) = NaN \<and> rm_DHTResponsiveness (rr_metrics r) = NaN \<and> rr_compositeScore r = NaN \<and> rr_tier r = TierBasic"

lemma f_NaN [simp]: "f_mul x NaN = NaN" "f_add x NaN = NaN" "\<not> f_le x NaN" "f_clamp lo hi NaN = NaN" "f_sub x NaN = NaN" "\<not> f_less x NaN"
  by (cases x; simp add: f_clamp_def f_sub_def)+

lemma poisoned_update:
  "rm_AvgResponseMS (rr_metrics r) = NaN \<Longrightarrow> rm_DHTResponsiveness (rr_metrics r) = NaN \<Longrightarrow> poisoned ((updateCompositeScore C r)\<lparr>rr_lastUpdated := now\<rparr>)"
  by (simp add: poisoned_def updateCompositeScore_def weighted_sum_def tier_of_def Let_def)

lemma poisoned_change: "changes ev g \<Longrightarrow> poisoned r \<Longrightarrow> poisoned ((updateCompositeScore C (g r))\<lparr>rr_lastUpdated := now\<rparr>)"
  by (rule poisoned_update; erule changes.cases)
    (simp_all add: poisoned_def on_metrics_def relay_metrics_def uptime_metrics_def mailbox_metrics_def dht_metrics_def content_metrics_def Let_def)

lemma run_poisoned: "GetRecord pid t = Some r \<Longrightarrow> poisoned r \<Longrightarrow> \<exists>r'. GetRecord pid (tracker_run evs t) = Some r' \<and> poisoned r'"
proof (induction evs arbitrary: t r)
  case (Cons ev evs)
  have "\<exists>r'. GetRecord pid (tracker_step ev t) = Some r' \<and> poisoned r'"
    by (cases rule: rep_step_record[OF Cons.prems(1), of ev]) (use Cons.prems(2) poisoned_change in blast)+
  then show ?case using Cons.IH by (auto simp: tracker_run_def)
qed (simp add: tracker_run_def)

lemma run_ok: "gm_ok (rt_records t) \<Longrightarrow> gm_ok (rt_records (tracker_run evs t))"
proof (induction evs arbitrary: t)
  case (Cons ev evs)
  have g: "gm_ok (rt_records (fst (GetOrCreateRecord c pid t)))" if "gm_ok (rt_records t)" for c pid t
    using that by (simp add: GetOrCreateRecord_def split: option.split)
  have e: "gm_ok (rt_records (record_event c pid g t))" if "gm_ok (rt_records t)" for c pid g t
    using that by (simp add: record_event_def GetOrCreateRecord_def split: option.split)
  have "gm_ok (rt_records (tracker_step ev t))"
    by (cases rule: rep_step_cases[of ev t]) (use Cons.prems g e in \<open>metis fst_conv\<close>)+
  then show ?case using Cons.IH by (simp add: tracker_run_def)
qed (simp add: tracker_run_def)

lemma reputation_scores_range:
  "GetCompositeScore pid (tracker_run evs (NewTracker self ident None)) = NaN \<or> (\<exists>q. GetCompositeScore pid (tracker_run evs (NewTracker self ident None)) = Fin q \<and> 0 \<le> q \<and> q \<le> 1)"
  using run_scored[of "NewTracker self ident None" evs] f_clamp_cases[of 0 1]
  by (auto simp: GetCompositeScore_def NewTracker_def all_records_def GetRecord_def scored_def composite_def split: option.split)

lemma reputation_score_number:
  assumes "\<forall>ev \<in> set evs. clean_event ev" "length evs < 2 ^ 64"
  shows "GetCompositeScore pid (tracker_run evs (NewTracker self ident None)) \<noteq> NaN"
proof (cases "GetRecord pid (tracker_run evs (NewTracker self ident None))")
  case (Some r)
  have "clean (length evs) r" using run_clean[OF assms(1), of 0 "NewTracker self ident None"] assms(2) Some by (simp add: all_records_def[of _ "tracker_run evs t" for t])
  moreover have "scored Reputation_DefaultConfig r"
    using run_scored[of "NewTracker self ident None" evs] Some by (auto simp: NewTracker_def all_records_def GetRecord_def)
  ultimately show ?thesis using clean_score Some by (simp add: GetCompositeScore_def scored_def)
qed (simp add: GetCompositeScore_def)

lemma reputation_tier:
  "GetTier pid (tracker_run evs (NewTracker self ident None)) = tier_of Reputation_DefaultConfig (GetCompositeScore pid (tracker_run evs (NewTracker self ident None)))"
  using run_scored[of "NewTracker self ident None" evs] scored_new[of undefined undefined]
  by (auto simp: GetCompositeScore_def GetTier_def NewTracker_def all_records_def GetRecord_def scored_def new_record_def split: option.split)

text \<open>C33.Scores are sound: after any history of a tracker with the default configuration, the score of a peer is a number between 0 and 1, or NaN, and its tier
  is the one of that score. It is a number whenever the measured response times and trust adjustments were (response times without a sign), for up to
  2 to the 64 events: no rounding, overflow or wrapped counter leaves the range.\<close>

theorem reputation_scores_sound:
  fixes self ident evs
  defines "t \<equiv> tracker_run evs (NewTracker self ident None)"
  shows "(GetCompositeScore pid t = NaN \<or> (\<exists>q. GetCompositeScore pid t = Fin q \<and> 0 \<le> q \<and> q \<le> 1)) \<and>
    GetTier pid t = tier_of Reputation_DefaultConfig (GetCompositeScore pid t) \<and>
    ((\<forall>ev \<in> set evs. clean_event ev) \<longrightarrow> length evs < 2 ^ 64 \<longrightarrow> GetCompositeScore pid t \<noteq> NaN)"
  unfolding t_def using reputation_scores_range reputation_tier reputation_score_number by blast

theorem reputation_scores_sound_witness:
  "GetCompositeScore [1] (tracker_run [DHT (\<lambda>_. 0) [1] (Fin 250), Relay (\<lambda>_. 0) [1] True] (NewTracker [9] ''self'' None)) \<noteq> NaN"
  using reputation_scores_sound[where evs = "[DHT (\<lambda>_. 0) [1] (Fin 250), Relay (\<lambda>_. 0) [1] True]" and self = "[9]" and ident = "''self''" and pid = "[1]"] by simp

text \<open>One response time that is not a number spoils a peer for good: whatever is recorded afterwards, its score stays NaN and its tier stays basic.\<close>

theorem nan_response_is_permanent:
  "GetCompositeScore pid (tracker_run evs (RecordDHTQuery c pid NaN t)) = NaN \<and> GetTier pid (tracker_run evs (RecordDHTQuery c pid NaN t)) = TierBasic"
proof -
  obtain t1 r where g: "GetOrCreateRecord c pid t = (t1, r)" by (cases "GetOrCreateRecord c pid t")
  let ?r = "(updateCompositeScore (rt_config t1) (on_metrics (dht_metrics NaN) r))\<lparr>rr_lastUpdated := c 2\<rparr>"
  have "GetRecord pid (RecordDHTQuery c pid NaN t) = Some ?r" by (simp add: RecordDHTQuery_def record_event_def g GetRecord_def)
  moreover have "poisoned ?r" by (rule poisoned_update) (simp_all add: on_metrics_def dht_metrics_def Let_def)
  ultimately obtain r' where "GetRecord pid (tracker_run evs (RecordDHTQuery c pid NaN t)) = Some r'" "poisoned r'" using run_poisoned[of pid _ _ evs] by blast
  then show ?thesis by (simp add: GetCompositeScore_def GetTier_def poisoned_def)
qed

text \<open>The record of a peer, or the record it would get.\<close>

definition effective :: "bytes \<Rightarrow> Tracker \<Rightarrow> Record" where
  "effective pid t = (case GetRecord pid t of None \<Rightarrow> new_record (\<lambda>_. 0) pid | Some r \<Rightarrow> r)"

lemma effective_score:
  assumes "all_records (scored Reputation_DefaultConfig) t"
  shows "GetCompositeScore pid t = composite Reputation_DefaultConfig (effective pid t)"
    "GetTier pid t = tier_of Reputation_DefaultConfig (composite Reputation_DefaultConfig (effective pid t))"
  using assms scored_new[of "\<lambda>_. 0" pid]
  by (auto simp: GetCompositeScore_def GetTier_def effective_def all_records_def scored_def new_record_def split: option.split)

lemma composite_new: "composite C (new_record c p) = composite C (new_record c' p')"
  by (simp add: composite_def new_record_def new_metrics_def weighted_sum_def)

lemma effective_create: "composite C (effective p (fst (GetOrCreateRecord c pid t))) = composite C (effective p t)"
  by (auto simp: effective_def GetOrCreateRecord_def GetRecord_def composite_new[of C c pid] split: option.split)

lemma effective_attested:
  "composite C (effective p (record_event c pid (\<lambda>r. r\<lparr>rr_attestations := as\<rparr>) t)) = composite C (effective p t)"
proof -
  obtain t1 r where g: "GetOrCreateRecord c pid t = (t1, r)" by (cases "GetOrCreateRecord c pid t")
  have "GetRecord pid t1 = Some r" using GetOrCreate_inv(4)[of "\<lambda>_. True", OF _ _ g] by (simp add: all_records_def)
  then have "composite C (effective p (record_event c pid (\<lambda>r. r\<lparr>rr_attestations := as\<rparr>) t)) = composite C (effective p t1)"
    by (simp add: effective_def record_event_def g GetRecord_def composite_def updateCompositeScore_def Let_def)
  then show ?thesis using effective_create[of C p c pid t] g by simp
qed

lemma effective_attest: "composite C (effective p (tracker_step (Attest other c a) t)) = composite C (effective p t)"
proof (cases rule: rep_step_cases[of "Attest other c a" t])
  case (lookup c')
  then show ?thesis using effective_create by simp
next
  case (change c' g t1 s)
  obtain as where g: "g = (\<lambda>r. r\<lparr>rr_attestations := as\<rparr>)" using change(2) by (auto elim: changes.cases)
  have "t1 = t \<or> t1 = fst (GetOrCreateRecord c' (event_peer (Attest other c a)) t)" using change(3) by (metis fst_conv)
  then show ?thesis unfolding change(1) g using effective_attested effective_create by metis
qed simp

text \<open>Attestations of others never count: adding one changes no score and no tier, of no peer, whether it is accepted, refused or panics.\<close>

theorem attestations_ignored:
  fixes self ident evs
  defines "t \<equiv> tracker_run evs (NewTracker self ident None)"
  shows "GetCompositeScore pid (fst (AddAttestation other c a t)) = GetCompositeScore pid t \<and> GetTier pid (fst (AddAttestation other c a t)) = GetTier pid t"
proof -
  let ?t' = "tracker_step (Attest other c a) t"
  have ok: "all_records (scored Reputation_DefaultConfig) t" "rt_config t = Reputation_DefaultConfig"
    using run_scored[of "NewTracker self ident None" evs] by (auto simp: t_def NewTracker_def all_records_def GetRecord_def)
  have "all_records (scored Reputation_DefaultConfig) ?t'" using rep_step_inv(1)[OF ok(1) scored_new] scored_change ok(2) by metis
  then have "GetCompositeScore pid ?t' = GetCompositeScore pid t \<and> GetTier pid ?t' = GetTier pid t"
    using effective_score[OF ok(1)] effective_score[of ?t'] effective_attest by simp
  then show ?thesis by simp
qed

interpretation top: descending "\<lambda>p q. f_less (snd p) (snd q)" "\<lambda>p. case snd p of Fin q \<Rightarrow> q | _ \<Rightarrow> 0" "{p :: bytes \<times> float64. \<exists>q. snd p = Fin q}"
  by unfold_locales auto

text \<open>The ranking is right: as long as no score is NaN, the \<open>n\<close> top peers are distinct peers of the tracker, in descending order of their scores, as many as
  there are up to \<open>n\<close>, and no peer that is left out has a higher score than one that is returned.\<close>

theorem top_peers_ranked:
  fixes self ident evs
  defines "t \<equiv> tracker_run evs (NewTracker self ident None)"
  assumes "0 \<le> n" "\<forall>pid. GetCompositeScore pid t \<noteq> NaN"
  shows "\<exists>ps. GetTopPeers n t = Inr ps \<and> distinct ps \<and> length ps = min (nat n) (gm_len (rt_records t)) \<and> set ps \<subseteq> gm_dom (rt_records t) \<and>
    sorted_wrt (\<lambda>p q. f_le (GetCompositeScore q t) (GetCompositeScore p t)) ps \<and>
    (\<forall>p \<in> set ps. \<forall>q \<in> gm_dom (rt_records t) - set ps. f_le (GetCompositeScore q t) (GetCompositeScore p t))"
proof -
  define peers where "peers = map (\<lambda>(pid, r). (pid, rr_compositeScore r)) (rt_records t)"
  define ranked where "ranked = exch_outer (\<lambda>p q. f_less (snd p) (snd q)) (length peers) 0 peers"
  have ok: "gm_ok (rt_records t)" unfolding t_def by (rule run_ok) (simp add: NewTracker_def)
  have keys: "map fst peers = map fst (rt_records t)" by (simp add: peers_def comp_def case_prod_beta)
  have score: "s = GetCompositeScore p t" if "(p, s) \<in> set peers" for p s
    using that ok by (auto simp: peers_def GetCompositeScore_def GetRecord_def gm_in_set_get)
  have fin: "\<exists>q. GetCompositeScore p t = Fin q" for p
    using reputation_scores_range[of p evs self ident] assms(3) by (auto simp: t_def)
  have m: "mset ranked = mset peers" unfolding ranked_def by (rule exch_outer_mset) simp
  have srt: "sorted_wrt (\<lambda>x y. (case snd y of Fin q \<Rightarrow> q | _ \<Rightarrow> 0) \<le> (case snd x of Fin q \<Rightarrow> q | _ \<Rightarrow> 0)) ranked"
    unfolding ranked_def
  proof (rule top.sorts)
    show "set peers \<subseteq> {p. \<exists>q. snd p = Fin q}" using score fin by (auto dest!: score)
  qed simp_all
  have set_ranked: "set ranked = set peers" using m by (rule mset_eq_setD)
  have le: "f_le (GetCompositeScore (fst y) t) (GetCompositeScore (fst x) t)"
    if "x \<in> set ranked" "y \<in> set ranked" "(case snd y of Fin q \<Rightarrow> q | _ \<Rightarrow> 0) \<le> (case snd x of Fin q \<Rightarrow> q | _ \<Rightarrow> 0)" for x y
  proof -
    have "snd x = GetCompositeScore (fst x) t" "snd y = GetCompositeScore (fst y) t" using that(1,2) score by (simp_all add: set_ranked)
    then show ?thesis using that(3) fin[of "fst x"] fin[of "fst y"] by auto
  qed
  have "mset (map fst ranked) = mset (map fst peers)" using m by simp
  then have d: "distinct (map fst ranked)" using ok by (metis keys gm_ok_def mset_eq_imp_distinct_iff)
  have dom: "gm_dom (rt_records t) = fst ` set ranked" using keys by (metis gm_dom_def image_set set_ranked)
  let ?ps = "map fst (take (nat n) ranked)" and ?ds = "map fst (drop (nat n) ranked)"
  have split: "map fst ranked = ?ps @ ?ds" by (metis append_take_drop_id map_append)
  have "sorted_wrt (\<lambda>p q. f_le (GetCompositeScore q t) (GetCompositeScore p t)) (map fst ranked)"
    unfolding sorted_wrt_map using srt le by (rule sorted_wrt_mono_rel[rotated])
  then have s: "sorted_wrt (\<lambda>p q. f_le (GetCompositeScore q t) (GetCompositeScore p t)) ?ps"
      "\<forall>p \<in> set ?ps. \<forall>q \<in> set ?ds. f_le (GetCompositeScore q t) (GetCompositeScore p t)"
    unfolding split by (simp_all add: sorted_wrt_append)
  have "GetTopPeers n t = Inr ?ps" using assms(2) by (simp add: GetTopPeers_def Let_def peers_def[symmetric] ranked_def[symmetric])
  moreover have "length ?ps = min (nat n) (gm_len (rt_records t))" using mset_eq_length[OF m] by (simp add: peers_def gm_len_def min.commute)
  moreover have "gm_dom (rt_records t) = set ?ps \<union> set ?ds" unfolding dom using split by (metis image_set set_append)
  ultimately show ?thesis using s d unfolding split by auto
qed


theorem top_peers_ranked_witness:
  "\<exists>ps. GetTopPeers 1 (tracker_run [Relay (\<lambda>_. 0) [1] True] (NewTracker [9] ''self'' None)) = Inr ps \<and>
     length ps = min 1 (gm_len (rt_records (tracker_run [Relay (\<lambda>_. 0) [1] True] (NewTracker [9] ''self'' None))))"
proof -
  have "\<forall>pid. GetCompositeScore pid (tracker_run [Relay (\<lambda>_. 0) [1] True] (NewTracker [9] ''self'' None)) \<noteq> NaN"
  proof
    fix pid
    have "length [Relay (\<lambda>_. 0) [1] True] < 2 ^ 64" "\<forall>ev \<in> set [Relay (\<lambda>_. 0) [1] True]. clean_event ev" by simp_all
    then show "GetCompositeScore pid (tracker_run [Relay (\<lambda>_. 0) [1] True] (NewTracker [9] ''self'' None)) \<noteq> NaN"
      using reputation_score_number[of "[Relay (\<lambda>_. 0) [1] True]"] by blast
  qed
  then show ?thesis using top_peers_ranked[of 1 "[Relay (\<lambda>_. 0) [1] True]" "[9]" "''self''"] by auto
qed

section \<open>Attestations on the network, records in the database\<close>

text \<open>The documented behaviour of content addressing: what was added is found under its identifier.\<close>

definition content_ok :: "'n rep_node \<Rightarrow> bool" where
  "content_ok N \<longleftrightarrow> (\<forall>data n n' c. rn_Add N data n = (n', Inr c) \<longrightarrow> rn_Get N c n' = Inr data)"

text \<open>What the wire keeps of an attestation: the score to the precision of a \<open>float32\<close> and the time to the second.\<close>

definition on_wire :: "Attestation \<Rightarrow> Attestation" where
  "on_wire a = a\<lparr>ra_Score := of_f32 (to_f32 (ra_Score a)), ra_Timestamp := whole_second (ra_Timestamp a)\<rparr>"

lemma attestation_of_proto: "time_ok (ra_Timestamp a) \<Longrightarrow> attestation_of (attestation_proto a) = on_wire a"
  by (simp add: attestation_of_def attestation_proto_def on_wire_def unixTime_unix)

lemma whole_second_unix [simp]: "unix (whole_second t) = unix t"
  by (simp add: unix_def whole_second_def)

lemma canonical_on_wire [simp]: "canonical (on_wire a) = canonical a" "canonical (a\<lparr>ra_Signature := s\<rparr>) = canonical a"
  by (simp_all add: canonical_def attestation_proto_def on_wire_def)

lemma Verify_on_wire [simp]: "VerifyAttestation P K (on_wire a) = VerifyAttestation P K a"
  by (simp add: VerifyAttestation_def) (simp add: on_wire_def)

text \<open>C37.Attestations travel: an attestation that was created verifies, and once it is published under an identifier, fetching that identifier returns it with
  its score rounded to a \<open>float32\<close> and its time to the second, verified again: rounding on the way does not break the signature.\<close>

theorem attestation_travels:
  assumes "sig_correct P" "codec_ok (k_attestation K)" "codec_ok (k_envelope K)" "content_ok N" "time_ok now"
    and "length (ax_privKey e) = 64" "ax_identityPub e = hex_encode (ed_public P (ax_privKey e))"
  shows "\<exists>a. CreateAttestation P K now subject score hours e = Inr a \<and> VerifyAttestation P K a = Inr () \<and> ra_Score a = score \<and> ra_SubjectPeerID a = subject \<and>
    (\<forall>n n' c. PublishAttestation P K N a n = (n', Inr c) \<longrightarrow> GetAttestation P K N c n' = Inr (on_wire a))"
proof -
  define a0 where "a0 = \<lparr>ra_AttesterPeerID = rt_selfPeerID (ax_tracker e), ra_AttesterIdentityPub = ax_identityPub e, ra_SubjectPeerID = subject, ra_Score = score,
    ra_ObservationPeriodHours = hours, ra_Timestamp = now, ra_Signature = []\<rparr>"
  obtain data where data: "marshal (k_attestation K) (canonical a0) = Inr data" by (rule codec_ok_marshal[OF assms(2)])
  define a where "a = a0\<lparr>ra_Signature := ed_sign P (ax_privKey e) data\<rparr>"
  have create: "CreateAttestation P K now subject score hours e = Inr a"
    using data assms(6) by (simp add: CreateAttestation_def a0_def[symmetric] a_def Let_def wrapped_def Sign_def crypto_sizes)
  have verify: "VerifyAttestation P K a = Inr ()"
    using data assms(7) sig_correctD[OF assms(1,6)]
    by (simp add: VerifyAttestation_def a_def wrapped_def Verify_def crypto_sizes) (simp add: a0_def wrapped_def crypto_sizes)
  obtain env where env: "marshal (k_envelope K) (envelope_of a) = Inr env" "unmarshal (k_envelope K) env = Inr (envelope_of a)"
    by (rule codec_ok_marshal[OF assms(3)])
  have "GetAttestation P K N c n' = Inr (on_wire a)" if "PublishAttestation P K N a n = (n', Inr c)" for n n' c
  proof -
    have "rn_Add N env n = (n', Inr c)" using that env(1) verify by (auto simp: PublishAttestation_def wrapped_def split: prod.splits sum.splits)
    then have "rn_Get N c n' = Inr env" using assms(4) by (simp add: content_ok_def)
    moreover have "attestation_of (attestation_proto a) = on_wire a" by (rule attestation_of_proto) (simp add: a_def a0_def assms(5))
    ultimately show ?thesis using env(2) verify by (simp add: GetAttestation_def wrapped_def envelope_of_def)
  qed
  then show ?thesis using create verify by (auto simp: a_def a0_def)
qed

text \<open>Reference codecs for the witnesses.\<close>

definition s_float :: "go_float ser" where
  "s_float = s_iso (\<lambda>x. case x of NaN \<Rightarrow> Inl 0 | Infin b \<Rightarrow> Inl (if b then 1 else 2) | Fin q \<Rightarrow> Inr (quotient_of q))
     (\<lambda>x. case x of Inl n \<Rightarrow> if n = 0 then NaN else Infin (n = 1) | Inr (a, b) \<Rightarrow> Fin (of_int a / of_int b)) (s_sum s_byte (s_pair s_int s_int))"

lemma s_float_ok [ser_intros]: "ser_ok s_float"
  unfolding s_float_def
proof (rule s_iso_ok, intro ser_intros)
  show "(case case x of NaN \<Rightarrow> Inl 0 | Infin b \<Rightarrow> Inl (if b then 1 else 2) | Fin q \<Rightarrow> Inr (quotient_of q) of
      Inl n \<Rightarrow> if n = 0 then NaN else Infin (n = (1 :: byte)) | Inr (a, b) \<Rightarrow> Fin (of_int a / of_int b)) = x" for x
    using quotient_of_div by (cases x) (auto split: prod.split dest: quotient_of_div)
qed

definition ser_ReputationAttestation :: "ReputationAttestation ser" where
  "ser_ReputationAttestation = s_iso (\<lambda>r. (pa_AttesterPeerId r, pa_SubjectPeerId r, pa_Score r, pa_ObservationPeriodHours r, pa_Timestamp r, pa_Signature r, pa_AttesterIdentityPub r))
     (\<lambda>(x0, x1, x2, x3, x4, x5, x6). \<lparr>pa_AttesterPeerId = x0, pa_SubjectPeerId = x1, pa_Score = x2, pa_ObservationPeriodHours = x3, pa_Timestamp = x4, pa_Signature = x5, pa_AttesterIdentityPub = x6\<rparr>)
     (s_pair s_bytes (s_pair s_bytes (s_pair s_float (s_pair s_u64 (s_pair s_u64 (s_pair s_bytes s_string))))))"

definition ser_PeerReputationMetrics :: "PeerReputationMetrics ser" where
  "ser_PeerReputationMetrics = s_iso (\<lambda>r. (pm_RelayReliability r, pm_RelaySuccessCount r, pm_RelayTotalCount r, pm_UptimeConsistency r, pm_HoursOnline_7D r, pm_LastSeen r, pm_MailboxReliability r, pm_MailboxRetrievedCount r, pm_MailboxDepositedCount r, pm_DhtResponsiveness r, pm_AvgResponseMs r, pm_DhtQueryCount r, pm_ContentServing r, pm_BlocksServedCount r, pm_BlocksRequestedCount r, pm_FirstObserved r, pm_LastUpdated r, pm_ObservationCount r))
     (\<lambda>(x0, x1, x2, x3, x4, x5, x6, x7, x8, x9, x10, x11, x12, x13, x14, x15, x16, x17). \<lparr>pm_RelayReliability = x0, pm_RelaySuccessCount = x1, pm_RelayTotalCount = x2, pm_UptimeConsistency = x3, pm_HoursOnline_7D = x4, pm_LastSeen = x5, pm_MailboxReliability = x6, pm_MailboxRetrievedCount = x7, pm_MailboxDepositedCount = x8, pm_DhtResponsiveness = x9, pm_AvgResponseMs = x10, pm_DhtQueryCount = x11, pm_ContentServing = x12, pm_BlocksServedCount = x13, pm_BlocksRequestedCount = x14, pm_FirstObserved = x15, pm_LastUpdated = x16, pm_ObservationCount = x17\<rparr>)
     (s_pair s_float (s_pair s_u64 (s_pair s_u64 (s_pair s_float (s_pair s_u64 (s_pair s_u64 (s_pair s_float (s_pair s_u64 (s_pair s_u64 (s_pair s_float (s_pair s_float (s_pair s_u64 (s_pair s_float (s_pair s_u64 (s_pair s_u64 (s_pair s_u64 (s_pair s_u64 s_u64)))))))))))))))))"

lemma ser_ReputationAttestation_ok [ser_intros]: "ser_ok ser_ReputationAttestation"
  unfolding ser_ReputationAttestation_def by (rule s_iso_ok, intro ser_intros, simp)

lemma ser_PeerReputationMetrics_ok [ser_intros]: "ser_ok ser_PeerReputationMetrics"
  unfolding ser_PeerReputationMetrics_def by (rule s_iso_ok, intro ser_intros, simp)

definition ser_PeerReputationRecord :: "PeerReputationRecord ser" where
  "ser_PeerReputationRecord = s_iso (\<lambda>r. (pp_PeerId r, pp_Metrics r, pp_CompositeScore r, pp_Tier r, pp_Attestations r, pp_TrustAdjustment r))
     (\<lambda>(x0, x1, x2, x3, x4, x5). \<lparr>pp_PeerId = x0, pp_Metrics = x1, pp_CompositeScore = x2, pp_Tier = x3, pp_Attestations = x4, pp_TrustAdjustment = x5\<rparr>)
     (s_pair s_bytes (s_pair (s_opt ser_PeerReputationMetrics) (s_pair s_float (s_pair s_u32 (s_pair (s_list ser_ReputationAttestation) s_float)))))"

definition ser_ReputationAttestationEnvelope :: "ReputationAttestationEnvelope ser" where
  "ser_ReputationAttestationEnvelope = s_iso (\<lambda>r. (pe_Attestation r, pe_AttesterSignature r))
     (\<lambda>(x0, x1). \<lparr>pe_Attestation = x0, pe_AttesterSignature = x1\<rparr>)
     (s_pair (s_opt ser_ReputationAttestation) s_bytes)"

definition ser_ReputationQuery :: "ReputationQuery ser" where
  "ser_ReputationQuery = s_iso (\<lambda>r. (pq_TargetPeerId r, pq_Timestamp r, pq_QuerierPubkey r))
     (\<lambda>(x0, x1, x2). \<lparr>pq_TargetPeerId = x0, pq_Timestamp = x1, pq_QuerierPubkey = x2\<rparr>)
     (s_pair s_bytes (s_pair s_u64 s_bytes))"

lemma ser_PeerReputationRecord_ok [ser_intros]: "ser_ok ser_PeerReputationRecord"
  unfolding ser_PeerReputationRecord_def by (rule s_iso_ok, intro ser_intros, simp)

lemma ser_ReputationAttestationEnvelope_ok [ser_intros]: "ser_ok ser_ReputationAttestationEnvelope"
  unfolding ser_ReputationAttestationEnvelope_def by (rule s_iso_ok, intro ser_intros, simp)

lemma ser_ReputationQuery_ok [ser_intros]: "ser_ok ser_ReputationQuery"
  unfolding ser_ReputationQuery_def by (rule s_iso_ok, intro ser_intros, simp)

definition ser_ReputationResponse :: "ReputationResponse ser" where
  "ser_ReputationResponse = s_iso (\<lambda>r. (ps_TargetPeerId r, ps_Record r, ps_Attestations r, ps_Timestamp r, ps_ResponderPubkey r))
     (\<lambda>(x0, x1, x2, x3, x4). \<lparr>ps_TargetPeerId = x0, ps_Record = x1, ps_Attestations = x2, ps_Timestamp = x3, ps_ResponderPubkey = x4\<rparr>)
     (s_pair s_bytes (s_pair (s_opt ser_PeerReputationRecord) (s_pair (s_list ser_ReputationAttestation) (s_pair s_u64 s_bytes))))"

definition ref_rep :: rep_codecs where
  "ref_rep = \<lparr>k_attestation = codec_of ser_ReputationAttestation, k_envelope = codec_of ser_ReputationAttestationEnvelope, k_query = codec_of ser_ReputationQuery,
     k_response = codec_of ser_ReputationResponse, k_record = codec_of ser_PeerReputationRecord\<rparr>"

lemma ref_rep_ok: "codec_ok (k_attestation ref_rep)" "codec_ok (k_envelope ref_rep)" "codec_ok (k_record ref_rep)"
  unfolding ref_rep_def rep_codecs.simps by (rule codec_of_ok, intro ser_intros)+

text \<open>A network that keeps the last content it was given.\<close>

definition one_content :: "bytes rep_node" where
  "one_content = \<lparr>rn_Publish = (\<lambda>_ _ n. (n, Inr ())), rn_Subscribe = (\<lambda>_ n. (n, Inr ())), rn_Add = (\<lambda>data n. (data, Inr ''cid'')), rn_Get = (\<lambda>_ n. Inr n),
     rn_PublishTo = (\<lambda>_ _ n. (n, Inr ()))\<rparr>"

definition attester :: AttestationExchange where
  "attester = NewAttestationExchange (NewTracker [9] ''self'' None) (replicate 64 3) (hex_encode (replicate 32 3))"

theorem attestation_travels_witness:
  "\<exists>a. CreateAttestation toy ref_rep 5000000000 [7] (Fin (1/3)) 24 attester = Inr a \<and>
    (\<forall>n n' c. PublishAttestation toy ref_rep one_content a n = (n', Inr c) \<longrightarrow> GetAttestation toy ref_rep one_content c n' = Inr (on_wire a))"
proof -
  have "content_ok one_content" by (auto simp: content_ok_def one_content_def)
  moreover have "length (ax_privKey attester) = 64" "ax_identityPub attester = hex_encode (ed_public toy (ax_privKey attester))" "time_ok 5000000000"
    by (simp_all add: attester_def NewAttestationExchange_def time_ok_def)
  ultimately show ?thesis
    using attestation_travels[OF toy_sig ref_rep_ok(1,2), of one_content 5000000000 attester "[7]" "Fin (1/3)" 24] by blast
qed

text \<open>What the database keeps of a record: the same roundings, and the time of loading.\<close>

definition stored_metrics :: "Metrics \<Rightarrow> Metrics" where
  "stored_metrics m = m\<lparr>rm_RelayReliability := of_f32 (to_f32 (rm_RelayReliability m)), rm_UptimeConsistency := of_f32 (to_f32 (rm_UptimeConsistency m)),
     rm_LastSeen := whole_second (rm_LastSeen m), rm_MailboxReliability := of_f32 (to_f32 (rm_MailboxReliability m)),
     rm_DHTResponsiveness := of_f32 (to_f32 (rm_DHTResponsiveness m)), rm_AvgResponseMS := of_f32 (to_f32 (rm_AvgResponseMS m)),
     rm_ContentServing := of_f32 (to_f32 (rm_ContentServing m)), rm_FirstObserved := whole_second (rm_FirstObserved m)\<rparr>"

definition kept_record :: "time \<Rightarrow> Record \<Rightarrow> Record" where
  "kept_record now r = r\<lparr>rr_metrics := stored_metrics (rr_metrics r), rr_compositeScore := of_f32 (to_f32 (rr_compositeScore r)),
     rr_attestations := map on_wire (rr_attestations r), rr_trustAdjustment := of_f32 (to_f32 (rr_trustAdjustment r)), rr_lastUpdated := now\<rparr>"

definition times_ok :: "Record \<Rightarrow> bool" where
  "times_ok r \<longleftrightarrow> time_ok (rm_LastSeen (rr_metrics r)) \<and> time_ok (rm_FirstObserved (rr_metrics r)) \<and> (\<forall>a \<in> set (rr_attestations r). time_ok (ra_Timestamp a))"

lemma record_of_proto:
  assumes "times_ok r" "- (2 ^ 31) \<le> rr_tier r" "rr_tier r < 2 ^ 31"
  shows "record_of now (rr_peerID r) (Record_ToProto r) = Inr (kept_record now r)"
proof -
  have "TierFromProto (Tier_ToProto (rr_tier r)) = rr_tier r"
    using assms(2,3) by (simp add: TierFromProto_def Tier_ToProto_def signed_of_int signed_take_bit_int_eq_self)
  moreover have "metrics_of (metrics_proto (rr_lastUpdated r) (rr_metrics r)) = stored_metrics (rr_metrics r)"
    using assms(1) by (simp add: metrics_of_def metrics_proto_def stored_metrics_def times_ok_def unixTime_unix)
  moreover have "map (attestation_of \<circ> attestation_proto) (rr_attestations r) = map on_wire (rr_attestations r)"
    using assms(1) by (auto simp: times_ok_def attestation_of_proto)
  ultimately show ?thesis by (simp add: record_of_def Record_ToProto_def kept_record_def)
qed

text \<open>Records persist: saving a record succeeds, loading it returns it with its numbers rounded to \<open>float32\<close>, its times to the second and the time of
  loading, its counters and tier unchanged; the records of other peers stay as they were. Saving the loaded record again loses nothing more.\<close>

theorem record_persists:
  assumes "kv_ok B view" "codec_ok K" "times_ok r" "rr_tier r \<in> {TierBasic, TierContributor, TierReliable, TierTrusted}"
  shows "\<exists>d'. SaveRecord B K r d = (d', Inr ()) \<and> LoadRecord B K now (rr_peerID r) d' = Inr (Some (kept_record now r)) \<and>
    (\<forall>pid. pid \<noteq> rr_peerID r \<longrightarrow> LoadRecord B K now pid d' = LoadRecord B K now pid d) \<and> kept_record now (kept_record now r) = kept_record now r"
proof -
  obtain b where b: "marshal K (Record_ToProto r) = Inr b" "unmarshal K b = Inr (Record_ToProto r)" by (rule codec_ok_marshal[OF assms(2)])
  obtain d' where d': "db_commit B d [WSet (reputationKey (rr_peerID r)) b] = Inr d'" "view d' = (view d)(reputationKey (rr_peerID r) \<mapsto> b)"
    using kv_commit[OF assms(1), of d "[WSet (reputationKey (rr_peerID r)) b]"] by auto
  have "record_of now (rr_peerID r) (Record_ToProto r) = Inr (kept_record now r)"
    by (rule record_of_proto[OF assms(3)]) (use assms(4) in \<open>auto simp: TierBasic_def TierContributor_def TierReliable_def TierTrusted_def\<close>)
  moreover have "kept_record now (kept_record now r) = kept_record now r"
    by (simp add: kept_record_def stored_metrics_def on_wire_def whole_second_def)
  ultimately show ?thesis using b d'
    by (intro exI[of _ d'])
      (simp add: SaveRecord_def plain_update_def LoadRecord_def kv_get[OF assms(1)] reputationKey_def wrapped_def)
qed

theorem record_persists_witness:
  "\<exists>d'. SaveRecord alist_db (k_record ref_rep) (new_record (\<lambda>_. 0) [7]) [] = (d', Inr ()) \<and>
     LoadRecord alist_db (k_record ref_rep) 0 [7] d' = Inr (Some (kept_record 0 (new_record (\<lambda>_. 0) [7])))"
proof -
  have "times_ok (new_record (\<lambda>_. 0) [7])" "rr_tier (new_record (\<lambda>_. 0) [7]) \<in> {TierBasic, TierContributor, TierReliable, TierTrusted}"
    "rr_peerID (new_record (\<lambda>_. 0) [7]) = [7]"
    by (simp_all add: times_ok_def new_record_def new_metrics_def time_ok_def zero_time_def)
  then show ?thesis using record_persists[OF alist_db_ok ref_rep_ok(3), of "new_record (\<lambda>_. 0) [7]" "[]" 0] by auto
qed

end

