(* ===== verification/GoText.thy ===== *)
theory GoText
  imports Prelude
begin

text \<open>
  What the program uses of \<open>strings\<close> and of \<open>fmt.Sscanf\<close>. A Go string is its bytes, here a list of 8-bit characters. White space is Unicode's: a space is
  one of the byte sequences of \<open>space_codes\<close>, the encodings of the white-space runes; since an encoding starts with a byte that no encoding continues
  with, taking spaces off either end is taking these sequences off. Letter case is that of ASCII, and case folding also knows the two runes outside ASCII
  that fold with an ASCII letter (the long s and the Kelvin sign), which is exact when one of the two texts compared is ASCII.
\<close>

section \<open>Spaces\<close>

definition space_codes :: "string list" where
  "space_codes = map (map char_of) ([[9], [10], [11], [12], [13], [32], [194, 133], [194, 160], [225, 154, 128]] @
     map (\<lambda>n. [226, 128, n]) ([128..<139] @ [168, 169, 175]) @ [[226, 129, 159], [227, 128, 128 :: nat]])"

function skip_codes :: "string list \<Rightarrow> string \<Rightarrow> string" where
  "skip_codes ps s = (case find (\<lambda>p. p \<noteq> [] \<and> take (length p) s = p) ps of None \<Rightarrow> s | Some p \<Rightarrow> skip_codes ps (drop (length p) s))"
  by pat_completeness auto
termination
proof (relation "measure (\<lambda>(ps, s). length s)")
  fix ps :: "string list" and s p
  assume "find (\<lambda>p. p \<noteq> [] \<and> take (length p) s = p) ps = Some p"
  then have "p \<noteq> []" "take (length p) s = p" by (auto simp: find_Some_iff)
  then show "((ps, drop (length p) s), ps, s) \<in> measure (\<lambda>(ps, s). length s)" by (cases s) auto
qed simp

declare skip_codes.simps [simp del]

definition TrimSpace :: "string \<Rightarrow> string" where
  "TrimSpace s = rev (skip_codes (map rev space_codes) (rev (skip_codes space_codes s)))"

section \<open>Splitting and joining\<close>

definition newline :: char where "newline = CHR 0x0A"

text \<open>\<open>strings.Split\<close> at a separator of one byte, and \<open>strings.SplitN\<close> into at most two parts.\<close>

fun split_on :: "char \<Rightarrow> string \<Rightarrow> string list" where
  "split_on c [] = [[]]"
| "split_on c (x # xs) = (if x = c then [] # split_on c xs else (case split_on c xs of [] \<Rightarrow> [[x]] | y # ys \<Rightarrow> (x # y) # ys))"

definition split_two :: "char \<Rightarrow> string \<Rightarrow> string list" where
  "split_two c s = (if c \<in> set s then [takeWhile (\<lambda>x. x \<noteq> c) s, tl (dropWhile (\<lambda>x. x \<noteq> c) s)] else [s])"

fun join_with :: "string \<Rightarrow> string list \<Rightarrow> string" where
  "join_with sep [] = []"
| "join_with sep [x] = x"
| "join_with sep (x # y # ys) = x @ sep @ join_with sep (y # ys)"

definition HasPrefix :: "string \<Rightarrow> string \<Rightarrow> bool" where "HasPrefix s p = (take (length p) s = p)"

definition TrimPrefix :: "string \<Rightarrow> string \<Rightarrow> string" where "TrimPrefix s p = (if HasPrefix s p then drop (length p) s else s)"

section \<open>Letter case\<close>

definition upper_char :: "char \<Rightarrow> char" where
  "upper_char c = (let n = (of_char c :: nat) in if 97 \<le> n \<and> n \<le> 122 then char_of (n - 32) else c)"

definition lower_char :: "char \<Rightarrow> char" where
  "lower_char c = (let n = (of_char c :: nat) in if 65 \<le> n \<and> n \<le> 90 then char_of (n + 32) else c)"

fun fold_case :: "string \<Rightarrow> string" where
  "fold_case [] = []"
| "fold_case (a # s) =
     (case s of
        b # c # s' \<Rightarrow> if a = CHR 0xE2 \<and> b = CHR 0x84 \<and> c = CHR 0xAA then CHR ''k'' # fold_case s'
                      else if a = CHR 0xC5 \<and> b = CHR 0xBF then CHR ''s'' # fold_case (c # s') else lower_char a # fold_case s
      | [b] \<Rightarrow> if a = CHR 0xC5 \<and> b = CHR 0xBF then [CHR ''s''] else lower_char a # fold_case s
      | [] \<Rightarrow> [lower_char a])"

definition EqualFold :: "string \<Rightarrow> string \<Rightarrow> bool" where "EqualFold s t = (fold_case s = fold_case t)"

section \<open>Numbers\<close>

text \<open>\<open>Sscanf(s, "%d", &v)\<close>: spaces but no newline, a sign for a signed \<open>v\<close>, at least one digit, a number that fits. What follows the digits is ignored.\<close>

definition is_digit :: "char \<Rightarrow> bool" where "is_digit c = (48 \<le> (of_char c :: nat) \<and> (of_char c :: nat) \<le> 57)"

definition scan_skip :: "string \<Rightarrow> string option" where
  "scan_skip s = (let r = skip_codes (remove1 [newline] space_codes) s in if r \<noteq> [] \<and> hd r = newline then None else Some r)"

definition scan_digits :: "string \<Rightarrow> nat option" where
  "scan_digits s = (let ds = takeWhile is_digit s in if ds = [] then None else Some (dec_val ds))"

definition scan_int :: "string \<Rightarrow> int option" where
  "scan_int s = Option.bind (scan_skip s) (\<lambda>r.
     let neg = (r \<noteq> [] \<and> hd r = CHR ''-''); r1 = (if r \<noteq> [] \<and> hd r \<in> {CHR ''-'', CHR ''+''} then tl r else r)
     in Option.bind (scan_digits r1) (\<lambda>n.
          let v = (if neg then - int n else int n) in if - (2 ^ 63) \<le> v \<and> v < 2 ^ 63 then Some v else None))"

definition scan_uint8 :: "string \<Rightarrow> byte option" where
  "scan_uint8 s = Option.bind (scan_skip s) (\<lambda>r. Option.bind (scan_digits r) (\<lambda>n. if n < 256 then Some (of_nat n) else None))"

section \<open>Lemmas\<close>

definition plain :: "char \<Rightarrow> bool" where "plain c \<longleftrightarrow> 33 \<le> (of_char c :: nat) \<and> (of_char c :: nat) \<le> 126"

lemma skip_codes_stop:
  assumes "\<And>p. p \<in> set ps \<Longrightarrow> p \<noteq> [] \<Longrightarrow> s \<noteq> [] \<Longrightarrow> hd p \<noteq> hd s"
  shows "skip_codes ps s = s"
proof -
  have "p \<notin> set ps" if "p \<noteq> []" "take (length p) s = p" for p
    using assms[of p] that by (cases p; cases s) auto
  then have "find (\<lambda>p. p \<noteq> [] \<and> take (length p) s = p) ps = None" by (auto simp: find_None_iff)
  then show ?thesis by (subst skip_codes.simps) simp
qed

lemma space_ends: "p \<in> set space_codes \<Longrightarrow> p \<noteq> [] \<and> \<not> plain (hd p) \<and> \<not> plain (last p)"
  by (auto simp: space_codes_def plain_def)

lemma skip_plain:
  assumes "s = [] \<or> plain (hd s)"
  shows "skip_codes space_codes s = s" "skip_codes (map rev space_codes) s = s" "skip_codes (remove1 q space_codes) s = s"
proof -
  have no: "hd p \<noteq> hd s" "last p \<noteq> hd s" if "p \<in> set space_codes" "s \<noteq> []" for p
    using that assms space_ends[OF that(1)] by metis+
  show "skip_codes space_codes s = s" "skip_codes (map rev space_codes) s = s" "skip_codes (remove1 q space_codes) s = s"
    using no set_remove1_subset[of q space_codes] by (auto intro!: skip_codes_stop simp: hd_rev)
qed

lemma TrimSpace_plain:
  assumes "plain (hd s)" "plain (last s)" "s \<noteq> []"
  shows "TrimSpace s = s"
  using assms by (simp add: TrimSpace_def skip_plain hd_rev)

lemma newline_code: "char_of (10 :: nat) = newline" "char_of (9 :: nat) \<noteq> newline"
proof -
  have n: "of_char newline = (10 :: nat)" by (simp add: newline_def)
  show "char_of (10 :: nat) = newline" unfolding n[symmetric] by simp
  have "of_char (char_of (9 :: nat)) \<noteq> (of_char newline :: nat)" unfolding n by simp
  then show "char_of (9 :: nat) \<noteq> newline" by metis
qed

lemma TrimSpace_line:
  assumes "plain (hd s)" "plain (last s)" "s \<noteq> []"
  shows "TrimSpace (s @ [newline]) = s"
proof -
  have hd: "plain (hd (s @ [newline]))" "plain (hd (rev s))" using assms by (simp_all add: hd_rev)
  have "find (\<lambda>p. p \<noteq> [] \<and> take (length p) (newline # rev s) = p) (map rev space_codes) = Some [newline]"
    by (simp add: space_codes_def newline_code)
  then have "skip_codes (map rev space_codes) (newline # rev s) = rev s"
    by (subst skip_codes.simps) (simp add: skip_plain hd)
  then show ?thesis using skip_plain(1)[OF disjI2[OF hd(1)]] by (simp add: TrimSpace_def)
qed

text \<open>A space in front is skipped.\<close>

lemma space_code: "char_of (32 :: nat) = CHR '' ''" "char_of (9 :: nat) \<noteq> CHR '' ''" "char_of (10 :: nat) \<noteq> CHR '' ''" "char_of (11 :: nat) \<noteq> CHR '' ''"
  "char_of (12 :: nat) \<noteq> CHR '' ''" "char_of (13 :: nat) \<noteq> CHR '' ''"
  by (simp_all add: char_of_eq_iff)

lemma skip_space:
  assumes "r = [] \<or> plain (hd r)"
  shows "skip_codes space_codes (CHR '' '' # r) = r" "skip_codes (remove1 [newline] space_codes) (CHR '' '' # r) = r"
proof -
  have "find (\<lambda>p. p \<noteq> [] \<and> take (length p) (CHR '' '' # r) = p) space_codes = Some '' ''"
    by (simp add: space_codes_def space_code)
  then show "skip_codes space_codes (CHR '' '' # r) = r" by (subst skip_codes.simps) (simp add: skip_plain assms)
  have "find (\<lambda>p. p \<noteq> [] \<and> take (length p) (CHR '' '' # r) = p) (remove1 [newline] space_codes) = Some '' ''"
    by (simp add: space_codes_def space_code newline_code)
  then show "skip_codes (remove1 [newline] space_codes) (CHR '' '' # r) = r" by (subst skip_codes.simps) (simp add: skip_plain assms)
qed

lemma split_on_plain [simp]: "c \<notin> set x \<Longrightarrow> split_on c x = [x]"
  by (induction x) auto

lemma split_on_sep [simp]: "c \<notin> set x \<Longrightarrow> split_on c (x @ c # r) = x # split_on c r"
  by (induction x) (auto split: list.splits)

lemma split_two_sep [simp]: "c \<notin> set x \<Longrightarrow> split_two c (x @ c # r) = [x, r]"
  by (induction x) (auto simp: split_two_def)

text \<open>Digits.\<close>

lemma dec_digits: "list_all is_digit (dec_of_nat n)" "dec_of_nat n \<noteq> []"
proof (induction n rule: dec_of_nat.induct)
  case (1 n)
  { case 1 show ?case using "1.IH"
      by (subst dec_of_nat.simps) (auto, simp_all add: is_digit_def of_char_hexdigit) }
  { case 2 show ?case by (subst dec_of_nat.simps) auto }
qed

lemma digit_char: "is_digit c \<Longrightarrow> plain c \<and> c \<notin> {CHR ''-'', CHR ''+'', CHR ''/'', CHR '' '', newline}"
  by (auto simp: is_digit_def plain_def newline_def)

lemma hd_dec: "is_digit (hd (dec_of_nat n))" "is_digit (last (dec_of_nat n))"
  using dec_digits[of n] by (simp_all add: list_all_iff)

lemma dec_clean [simp]: "\<not> is_digit c \<Longrightarrow> c \<notin> set (dec_of_nat n)"
  using dec_digits(1)[of n] by (auto simp: list_all_iff)

lemma not_digits [simp]: "\<not> is_digit (CHR ''/'')" "\<not> is_digit (CHR '' '')" "\<not> is_digit newline" "\<not> is_digit (CHR ''-'')"
  by (simp_all add: is_digit_def newline_def)

lemma scan_digits_dec [simp]: "scan_digits (dec_of_nat n) = Some n"
  using dec_digits[of n] by (simp add: scan_digits_def takeWhile_eq_all_conv[THEN iffD2] list_all_iff dec_val_of_nat)

lemma scan_skip_plain: "s = [] \<or> plain (hd s) \<Longrightarrow> scan_skip s = Some s"
  by (auto simp: scan_skip_def skip_plain plain_def newline_def)

lemma scan_uint8_dec [simp]: "scan_uint8 (dec_of_nat (unat b)) = Some b"
  using digit_char[OF hd_dec(1)[of "unat b"]] unsigned_less[of b] by (simp add: scan_uint8_def scan_skip_plain)

lemma scan_int_dec [simp]:
  assumes "- (2 ^ 63) \<le> i" "i < 2 ^ 63"
  shows "scan_int (dec_of_int i) = Some i"
proof (cases "i < 0")
  case True
  have "plain (CHR ''-'')" by (simp add: plain_def)
  then show ?thesis using True assms by (simp add: scan_int_def dec_of_int_def scan_skip_plain)
next
  case False
  then show ?thesis
    using assms digit_char[OF hd_dec(1)[of "nat i"]] dec_digits(2)[of "nat i"] by (simp add: scan_int_def dec_of_int_def scan_skip_plain)
qed

lemma dec_of_int_ends: "plain (hd (dec_of_int i))" "plain (last (dec_of_int i))" "dec_of_int i \<noteq> []"
  using digit_char[OF hd_dec(1)] digit_char[OF hd_dec(2)] dec_digits(2)
  by (auto simp: dec_of_int_def plain_def)

lemma dec_of_int_clean [simp]: "\<not> is_digit c \<Longrightarrow> c \<noteq> CHR ''-'' \<Longrightarrow> c \<notin> set (dec_of_int i)"
  by (simp add: dec_of_int_def)

lemma fold_case_refl [simp]: "EqualFold s s"
  by (simp add: EqualFold_def)

lemma hexdigit_plain: "n < 16 \<Longrightarrow> plain (hexdigit n)"
  by (auto simp: plain_def of_char_hexdigit)

lemma hex_encode_plain: "list_all plain (hex_encode b)"
proof (induction b)
  case (Cons x b)
  have "unat x div 16 < 16" "unat x mod 16 < 16" by (simp_all add: less_mult_imp_div_less)
  then show ?case using Cons by (simp add: hexdigit_plain)
qed (simp add: hex_encode_def)

end
