(* ===== verification/Media.thy ===== *)
theory Media
  imports GoText GoFloat CallSession
begin

text \<open>
  \<open>pkg/rtc/codec.go\<close> and \<open>media.go\<close>: the codecs of the program, their negotiation through session descriptions (SDP), and the media service, which counts what
  it is given to send. \<open>sort.Slice\<close> sorts slices of at most twelve elements by insertion; the lists of local codecs have three and four.
\<close>

section \<open>Codecs\<close>

record Codec =
  co_Name :: string
  co_Type :: string
  co_ClockRate :: int
  co_Channels :: int
  co_PayloadType :: byte
  co_Parameters :: "(string, string) gomap"
  co_Priority :: int
  co_Required :: bool

record CodecCapabilities =
  cc_AudioCodecs :: "Codec list"
  cc_VideoCodecs :: "Codec list"

definition ErrCodecNotFound :: go_error where "ErrCodecNotFound = Err ''codec not found''"
definition ErrCodecNegotiationFailed :: go_error where "ErrCodecNegotiationFailed = Err ''codec negotiation failed''"

definition CodecOpus :: string where "CodecOpus = ''opus''"
definition CodecPCMU :: string where "CodecPCMU = ''PCMU''"
definition CodecPCMA :: string where "CodecPCMA = ''PCMA''"
definition CodecVP8 :: string where "CodecVP8 = ''VP8''"
definition CodecVP9 :: string where "CodecVP9 = ''VP9''"
definition CodecH264 :: string where "CodecH264 = ''H264''"
definition CodecAV1 :: string where "CodecAV1 = ''AV1''"
definition MediaAudio :: string where "MediaAudio = ''audio''"
definition MediaVideo :: string where "MediaVideo = ''video''"

lemmas codec_names = CodecOpus_def CodecPCMU_def CodecPCMA_def CodecVP8_def CodecVP9_def CodecH264_def CodecAV1_def MediaAudio_def MediaVideo_def

definition DefaultCapabilities :: CodecCapabilities where
  "DefaultCapabilities = \<lparr>
     cc_AudioCodecs = [
       \<lparr>co_Name = CodecOpus, co_Type = MediaAudio, co_ClockRate = 48000, co_Channels = 2, co_PayloadType = 111,
        co_Parameters = [(''minptime'', ''10''), (''useinbandfec'', ''1'')], co_Priority = 100, co_Required = True\<rparr>,
       \<lparr>co_Name = CodecPCMU, co_Type = MediaAudio, co_ClockRate = 8000, co_Channels = 1, co_PayloadType = 0, co_Parameters = [], co_Priority = 50, co_Required = False\<rparr>,
       \<lparr>co_Name = CodecPCMA, co_Type = MediaAudio, co_ClockRate = 8000, co_Channels = 1, co_PayloadType = 8, co_Parameters = [], co_Priority = 50, co_Required = False\<rparr>],
     cc_VideoCodecs = [
       \<lparr>co_Name = CodecVP9, co_Type = MediaVideo, co_ClockRate = 90000, co_Channels = 0, co_PayloadType = 98,
        co_Parameters = [(''profile-id'', ''0'')], co_Priority = 100, co_Required = False\<rparr>,
       \<lparr>co_Name = CodecVP8, co_Type = MediaVideo, co_ClockRate = 90000, co_Channels = 0, co_PayloadType = 96, co_Parameters = [], co_Priority = 90, co_Required = True\<rparr>,
       \<lparr>co_Name = CodecH264, co_Type = MediaVideo, co_ClockRate = 90000, co_Channels = 0, co_PayloadType = 102,
        co_Parameters = [(''profile-level-id'', ''42e01f''), (''level-asymmetry-allowed'', ''1''), (''packetization-mode'', ''1'')], co_Priority = 70, co_Required = False\<rparr>,
       \<lparr>co_Name = CodecAV1, co_Type = MediaVideo, co_ClockRate = 90000, co_Channels = 0, co_PayloadType = 99, co_Parameters = [], co_Priority = 60, co_Required = False\<rparr>]\<rparr>"

section \<open>Session descriptions\<close>

record MediaSection =
  me_MediaType :: string
  me_Port :: int
  me_Protocol :: string
  me_Formats :: "string list"
  me_Attributes :: "string list"
  me_Direction :: string
  me_SSRC :: u32
  me_SSRCGroup :: "u32 list"

record SDP =
  sp_Version :: int
  sp_Origin :: string
  sp_SessionName :: string
  sp_Connection :: string
  sp_Timing :: string
  sp_MediaSections :: "MediaSection list"
  sp_Attributes :: "string list"

definition attr_lines :: "string list \<Rightarrow> string" where
  "attr_lines as = concat (map (\<lambda>a. ''a='' @ a @ [newline]) as)"

definition media_lines :: "MediaSection \<Rightarrow> string" where
  "media_lines me = ''m='' @ me_MediaType me @ '' '' @ dec_of_int (me_Port me) @ '' '' @ me_Protocol me @ '' '' @ join_with '' '' (me_Formats me) @ [newline]
     @ attr_lines (me_Attributes me) @ (if me_Direction me \<noteq> [] then ''a='' @ me_Direction me @ [newline] else [])"

definition SDP_Marshal :: "SDP \<Rightarrow> string" where
  "SDP_Marshal s = TrimSpace (''v='' @ dec_of_int (sp_Version s) @ [newline] @ ''o='' @ sp_Origin s @ [newline] @ ''s='' @ sp_SessionName s @ [newline]
     @ ''c='' @ sp_Connection s @ [newline] @ ''t='' @ sp_Timing s @ [newline] @ attr_lines (sp_Attributes s) @ concat (map media_lines (sp_MediaSections s)))"

text \<open>Upper-casing a text that is not ASCII gives none of the four names, so ASCII is enough here.\<close>

definition isVideoCodec :: "string \<Rightarrow> bool" where
  "isVideoCodec name = (\<exists>vc \<in> set [CodecVP8, CodecVP9, CodecH264, CodecAV1]. map upper_char name = map upper_char vc)"

definition parseUint8 :: "string \<Rightarrow> byte" where
  "parseUint8 s = (case scan_uint8 s of None \<Rightarrow> 0 | Some v \<Rightarrow> v)"

definition parseRTPMap :: "string \<Rightarrow> Codec option" where
  "parseRTPMap line =
     (case split_two (CHR '' '') (TrimPrefix line ''a=rtpmap:'') of
        [payloadType, codec] \<Rightarrow>
          (case split_on (CHR ''/'') codec of
             name # rate # rest \<Rightarrow>
               (case scan_int rate of
                  None \<Rightarrow> None
                | Some clockRate \<Rightarrow>
                    let channels = (case rest of [] \<Rightarrow> 0 | ch # _ \<Rightarrow> (case scan_int ch of None \<Rightarrow> 0 | Some c \<Rightarrow> c))
                    in Some \<lparr>co_Name = name, co_Type = (if isVideoCodec name then MediaVideo else MediaAudio), co_ClockRate = clockRate, co_Channels = channels,
                         co_PayloadType = parseUint8 payloadType, co_Parameters = [], co_Priority = 0, co_Required = False\<rparr>)
           | _ \<Rightarrow> None)
      | _ \<Rightarrow> None)"

definition parse_codecs :: "string \<Rightarrow> string \<Rightarrow> Codec list" where
  "parse_codecs ty sdp = List.map_filter (\<lambda>l. let line = TrimSpace l in
     if HasPrefix line ''a=rtpmap:'' then (case parseRTPMap line of Some c \<Rightarrow> if co_Type c = ty then Some c else None | None \<Rightarrow> None) else None) (split_on newline sdp)"

definition parseAudioCodecs :: "string \<Rightarrow> Codec list res" where "parseAudioCodecs sdp = Inr (parse_codecs MediaAudio sdp)"

definition parseVideoCodecs :: "string \<Rightarrow> Codec list res" where "parseVideoCodecs sdp = Inr (parse_codecs MediaVideo sdp)"

section \<open>Negotiation\<close>

record CodecNegotiator =
  cn_localCaps :: CodecCapabilities

definition NewCodecNegotiator :: CodecNegotiator where
  "NewCodecNegotiator = \<lparr>cn_localCaps = DefaultCapabilities\<rparr>"

text \<open>Insertion: an element moves to the left past the elements it belongs before.\<close>

definition insert_last :: "('a \<Rightarrow> 'a \<Rightarrow> bool) \<Rightarrow> 'a list \<Rightarrow> 'a \<Rightarrow> 'a list" where
  "insert_last lt xs x = (let moved = takeWhile (lt x) (rev xs) in take (length xs - length moved) xs @ x # rev moved)"

definition sort_slice :: "('a \<Rightarrow> 'a \<Rightarrow> bool) \<Rightarrow> 'a list \<Rightarrow> 'a list" where
  "sort_slice lt xs = foldl (insert_last lt) [] xs"

definition by_priority :: "Codec list \<Rightarrow> Codec list" where
  "by_priority cs = sort_slice (\<lambda>a b. co_Priority b < co_Priority a) cs"

fun first_match :: "Codec list \<Rightarrow> Codec list \<Rightarrow> Codec option" where
  "first_match [] remote = None"
| "first_match (l # ls) remote =
     (case find (\<lambda>r. EqualFold (co_Name l) (co_Name r)) remote of
        Some r \<Rightarrow> Some (l\<lparr>co_PayloadType := co_PayloadType r\<rparr>)
      | None \<Rightarrow> first_match ls remote)"

definition selectBestAudioCodec :: "CodecNegotiator \<Rightarrow> Codec list \<Rightarrow> Codec option" where
  "selectBestAudioCodec n remote = first_match (by_priority (cc_AudioCodecs (cn_localCaps n))) remote"

definition selectBestVideoCodec :: "CodecNegotiator \<Rightarrow> Codec list \<Rightarrow> Codec option" where
  "selectBestVideoCodec n remote = first_match (by_priority (cc_VideoCodecs (cn_localCaps n))) remote"

definition answer_sdp :: "string \<Rightarrow> string \<Rightarrow> byte \<Rightarrow> string \<Rightarrow> SDP" where
  "answer_sdp name ty pt rtpmap = \<lparr>sp_Version = 0, sp_Origin = ''- 0 0 IN IP4 127.0.0.1'', sp_SessionName = name, sp_Connection = ''IN IP4 127.0.0.1'', sp_Timing = ''0 0'',
     sp_MediaSections = [\<lparr>me_MediaType = ty, me_Port = 9, me_Protocol = ''UDP/TLS/RTP/SAVPF'', me_Formats = [dec_of_nat (unat pt)], me_Attributes = [rtpmap],
       me_Direction = ''sendrecv'', me_SSRC = 0, me_SSRCGroup = []\<rparr>], sp_Attributes = []\<rparr>"

definition generateAudioAnswer :: "Codec \<Rightarrow> string" where
  "generateAudioAnswer c = SDP_Marshal (answer_sdp ''Babylon Tower Audio'' ''audio'' (co_PayloadType c)
     (''rtpmap:'' @ dec_of_nat (unat (co_PayloadType c)) @ '' '' @ co_Name c @ ''/'' @ dec_of_int (co_ClockRate c) @ ''/'' @ dec_of_int (co_Channels c)))"

definition generateVideoAnswer :: "Codec \<Rightarrow> string" where
  "generateVideoAnswer c = SDP_Marshal (answer_sdp ''Babylon Tower Video'' ''video'' (co_PayloadType c)
     (''rtpmap:'' @ dec_of_nat (unat (co_PayloadType c)) @ '' '' @ co_Name c @ ''/'' @ dec_of_int (co_ClockRate c)))"

definition NegotiateAudio :: "CodecNegotiator \<Rightarrow> string \<Rightarrow> (string \<times> Codec) res" where
  "NegotiateAudio n remoteSDP = rbind (wrapped ''failed to parse remote audio codecs'' (parseAudioCodecs remoteSDP)) (\<lambda>remote.
     case selectBestAudioCodec n remote of None \<Rightarrow> Inl ErrCodecNegotiationFailed | Some c \<Rightarrow> Inr (generateAudioAnswer c, c))"

definition NegotiateVideo :: "CodecNegotiator \<Rightarrow> string \<Rightarrow> (string \<times> Codec) res" where
  "NegotiateVideo n remoteSDP = rbind (wrapped ''failed to parse remote video codecs'' (parseVideoCodecs remoteSDP)) (\<lambda>remote.
     case selectBestVideoCodec n remote of None \<Rightarrow> Inl ErrCodecNegotiationFailed | Some c \<Rightarrow> Inr (generateVideoAnswer c, c))"

definition GetSupportedAudioCodecs :: "CodecNegotiator \<Rightarrow> string list" where
  "GetSupportedAudioCodecs n = map co_Name (cc_AudioCodecs (cn_localCaps n))"

definition GetSupportedVideoCodecs :: "CodecNegotiator \<Rightarrow> string list" where
  "GetSupportedVideoCodecs n = map co_Name (cc_VideoCodecs (cn_localCaps n))"

definition GetCodecParameters :: "CodecNegotiator \<Rightarrow> string \<Rightarrow> (string, string) gomap res" where
  "GetCodecParameters n name =
     (let matches = (\<lambda>c. EqualFold (co_Name c) (map lower_char name)) in
      case find matches (cc_AudioCodecs (cn_localCaps n)) of
        Some c \<Rightarrow> Inr (co_Parameters c)
      | None \<Rightarrow> (case find matches (cc_VideoCodecs (cn_localCaps n)) of Some c \<Rightarrow> Inr (co_Parameters c) | None \<Rightarrow> Inl ErrCodecNotFound))"

section \<open>The media service\<close>

record MediaStats =
  mt_AudioPacketsSent :: u64
  mt_AudioPacketsReceived :: u64
  mt_AudioBytesSent :: u64
  mt_AudioBytesReceived :: u64
  mt_VideoPacketsSent :: u64
  mt_VideoPacketsReceived :: u64
  mt_VideoBytesSent :: u64
  mt_VideoBytesReceived :: u64
  mt_JitterMs :: float64
  mt_PacketLossRate :: float64
  mt_RTTMs :: float64

record 'w MediaService =
  ms_session :: "CallSession option"
  ms_stats :: MediaStats
  ms_onMediaStarted :: "('w \<Rightarrow> 'w) option"
  ms_onMediaStopped :: "('w \<Rightarrow> 'w) option"

definition ErrMediaNotStarted :: go_error where "ErrMediaNotStarted = Err ''media service not started''"
definition ErrNoMediaKey :: go_error where "ErrNoMediaKey = Err ''no media key available''"

definition NewMediaService :: "'w MediaService" where
  "NewMediaService = \<lparr>ms_session = None, ms_stats = \<lparr>mt_AudioPacketsSent = 0, mt_AudioPacketsReceived = 0, mt_AudioBytesSent = 0, mt_AudioBytesReceived = 0,
     mt_VideoPacketsSent = 0, mt_VideoPacketsReceived = 0, mt_VideoBytesSent = 0, mt_VideoBytesReceived = 0, mt_JitterMs = Fin 0, mt_PacketLossRate = Fin 0, mt_RTTMs = Fin 0\<rparr>,
     ms_onMediaStarted = None, ms_onMediaStopped = None\<rparr>"

text \<open>The callback runs on the rest of the world, with the lock held.\<close>

definition StartOutgoing :: "CallSession \<Rightarrow> 'w MediaService \<times> 'w \<Rightarrow> ('w MediaService \<times> 'w, unit) eff" where
  "StartOutgoing session mw =
     (case mw of (m, w) \<Rightarrow>
        if cs_MediaKey session = [] then (mw, Inl ErrNoMediaKey)
        else ((m\<lparr>ms_session := Some session\<rparr>, case ms_onMediaStarted m of None \<Rightarrow> w | Some f \<Rightarrow> f w), Inr ()))"

definition SendAudio :: "bytes \<Rightarrow> 'w MediaService \<Rightarrow> ('w MediaService, nat) eff" where
  "SendAudio data m =
     (if ms_session m = None then (m, Inl ErrMediaNotStarted)
      else (m\<lparr>ms_stats := (ms_stats m)\<lparr>mt_AudioPacketsSent := mt_AudioPacketsSent (ms_stats m) + 1,
              mt_AudioBytesSent := mt_AudioBytesSent (ms_stats m) + of_nat (length data)\<rparr>\<rparr>, Inr (length data)))"

definition SendVideo :: "bytes \<Rightarrow> 'w MediaService \<Rightarrow> ('w MediaService, nat) eff" where
  "SendVideo data m =
     (if ms_session m = None then (m, Inl ErrMediaNotStarted)
      else (m\<lparr>ms_stats := (ms_stats m)\<lparr>mt_VideoPacketsSent := mt_VideoPacketsSent (ms_stats m) + 1,
              mt_VideoBytesSent := mt_VideoBytesSent (ms_stats m) + of_nat (length data)\<rparr>\<rparr>, Inr (length data)))"

definition SendRTCP :: "bytes \<Rightarrow> 'w MediaService \<Rightarrow> unit res" where
  "SendRTCP packet m = (if ms_session m = None then Inl ErrMediaNotStarted else Inr ())"

definition MediaService_GetStats :: "'w MediaService \<Rightarrow> MediaStats" where "MediaService_GetStats m = ms_stats m"

definition SetOnMediaStarted :: "('w \<Rightarrow> 'w) option \<Rightarrow> 'w MediaService \<Rightarrow> 'w MediaService" where
  "SetOnMediaStarted f m = m\<lparr>ms_onMediaStarted := f\<rparr>"

definition SetOnMediaStopped :: "('w \<Rightarrow> 'w) option \<Rightarrow> 'w MediaService \<Rightarrow> 'w MediaService" where
  "SetOnMediaStopped f m = m\<lparr>ms_onMediaStopped := f\<rparr>"

definition UpdateStats :: "float64 \<Rightarrow> float64 \<Rightarrow> float64 \<Rightarrow> 'w MediaService \<Rightarrow> 'w MediaService" where
  "UpdateStats jitter packetLoss rtt m = m\<lparr>ms_stats := (ms_stats m)\<lparr>mt_JitterMs := jitter, mt_PacketLossRate := packetLoss, mt_RTTMs := rtt\<rparr>\<rparr>"

definition IsStreaming :: "'w MediaService \<Rightarrow> bool" where "IsStreaming m = (ms_session m \<noteq> None)"

definition MediaService_GetSession :: "'w MediaService \<Rightarrow> CallSession option" where "MediaService_GetSession m = ms_session m"

definition SetSession :: "CallSession option \<Rightarrow> 'w MediaService \<Rightarrow> 'w MediaService" where "SetSession session m = m\<lparr>ms_session := session\<rparr>"

section \<open>Choosing a codec\<close>

lemma insert_last_append:
  "insert_last lt xs x = rev (dropWhile (lt x) (rev xs)) @ x # rev (takeWhile (lt x) (rev xs))"
proof -
  have "take (length xs - length (takeWhile (lt x) (rev xs))) xs = rev (drop (length (takeWhile (lt x) (rev xs))) (rev xs))"
    by (simp add: rev_drop)
  then show ?thesis by (simp add: insert_last_def dropWhile_eq_drop Let_def)
qed

lemma insert_last_set: "set (insert_last lt xs x) = insert x (set xs)"
proof -
  have "set (takeWhile (lt x) (rev xs)) \<union> set (dropWhile (lt x) (rev xs)) = set xs"
    by (metis set_append set_rev takeWhile_dropWhile_id)
  then show ?thesis by (auto simp: insert_last_append)
qed

lemma by_priority_set: "set (by_priority cs) = set cs"
proof -
  have "set (foldl (insert_last lt) acc xs) = set acc \<union> set xs" for lt acc and xs :: "Codec list"
    by (induction xs arbitrary: acc) (auto simp: insert_last_set)
  then show ?thesis by (simp add: by_priority_def sort_slice_def)
qed

lemma insert_last_sorted:
  assumes "sorted_wrt (\<lambda>a b. co_Priority b \<le> co_Priority a) xs"
  shows "sorted_wrt (\<lambda>a b. co_Priority b \<le> co_Priority a) (insert_last (\<lambda>a b. co_Priority b < co_Priority a) xs x)"
proof -
  let ?lt = "\<lambda>b. co_Priority b < co_Priority x"
  have s: "sorted_wrt (\<lambda>a b. co_Priority b \<le> co_Priority a) (rev (dropWhile ?lt (rev xs)) @ rev (takeWhile ?lt (rev xs)))"
    using assms by (metis rev_append rev_rev_ident takeWhile_dropWhile_id)
  have "co_Priority x \<le> co_Priority y" if "y \<in> set (dropWhile ?lt (rev xs))" for y
  proof -
    obtain z zs where z: "dropWhile ?lt (rev xs) = z # zs" using \<open>y \<in> _\<close> by (cases "dropWhile ?lt (rev xs)") auto
    then have "\<not> ?lt z" by (metis dropWhile_eq_Cons_conv)
    moreover have "co_Priority z \<le> co_Priority y" using s that z by (auto simp: sorted_wrt_append)
    ultimately show ?thesis by simp
  qed
  moreover have "co_Priority y \<le> co_Priority x" if "y \<in> set (takeWhile ?lt (rev xs))" for y
    using set_takeWhileD[OF that] by simp
  ultimately show ?thesis using s by (auto simp: insert_last_append sorted_wrt_append)
qed

lemma by_priority_sorted: "sorted_wrt (\<lambda>a b. co_Priority b \<le> co_Priority a) (by_priority cs)"
proof -
  have "sorted_wrt (\<lambda>a b. co_Priority b \<le> co_Priority a) (foldl (insert_last (\<lambda>a b. co_Priority b < co_Priority a)) acc xs)"
    if "sorted_wrt (\<lambda>a b. co_Priority b \<le> co_Priority a) acc" for acc and xs :: "Codec list"
    using that by (induction xs arbitrary: acc) (auto intro: insert_last_sorted)
  then show ?thesis by (simp add: by_priority_def sort_slice_def)
qed

definition offered :: "Codec \<Rightarrow> Codec list \<Rightarrow> bool" where
  "offered l remote \<longleftrightarrow> (\<exists>r \<in> set remote. EqualFold (co_Name l) (co_Name r))"

text \<open>What a choice promises: it is a local codec, with the payload type of the first offer of that name, and nothing of a higher priority was offered.\<close>

definition best_of :: "Codec list \<Rightarrow> Codec list \<Rightarrow> Codec \<Rightarrow> bool" where
  "best_of local remote c \<longleftrightarrow> (\<exists>l \<in> set local. offered l remote
     \<and> c = l\<lparr>co_PayloadType := co_PayloadType (the (find (\<lambda>r. EqualFold (co_Name l) (co_Name r)) remote))\<rparr>
     \<and> (\<forall>l' \<in> set local. offered l' remote \<longrightarrow> co_Priority l' \<le> co_Priority l))"

lemma first_match_None: "first_match ls remote = None \<longleftrightarrow> (\<forall>l \<in> set ls. \<not> offered l remote)"
  by (induction ls) (auto simp: offered_def find_None_iff split: option.splits dest!: find_Some_iff[THEN iffD1] intro!: nth_mem)

lemma first_match_Some:
  assumes "first_match ls remote = Some c" "sorted_wrt (\<lambda>a b. co_Priority b \<le> co_Priority a) ls"
  shows "best_of ls remote c"
  using assms
proof (induction ls)
  case (Cons l ls)
  show ?case
  proof (cases "find (\<lambda>r. EqualFold (co_Name l) (co_Name r)) remote")
    case None
    then have "\<not> offered l remote" by (auto simp: offered_def find_None_iff)
    then show ?thesis using Cons None by (auto simp: best_of_def)
  next
    case (Some r)
    then have "offered l remote" by (auto simp: offered_def find_Some_iff)
    then show ?thesis using Cons.prems Some by (auto simp: best_of_def)
  qed
qed simp

lemma best_of_set: "set a = set b \<Longrightarrow> best_of a remote c = best_of b remote c"
  by (simp add: best_of_def)

lemma match_by_priority:
  "(case first_match (by_priority local) remote of None \<Rightarrow> \<forall>l \<in> set local. \<not> offered l remote | Some c \<Rightarrow> best_of local remote c)"
  using first_match_Some[OF _ by_priority_sorted, of local remote] first_match_None[of "by_priority local" remote]
  by (auto simp: by_priority_set best_of_set[OF by_priority_set] split: option.splits)

text \<open>Negotiation picks the best common codec: whatever the other side sends, audio and video negotiation either answer with a local codec that the other side
  names, of the highest priority among the local codecs it names and with the payload type it gave, or fail, exactly when it names none of the local codecs.\<close>

theorem negotiation_picks_best:
  "(case NegotiateAudio n sdp of
      Inl e \<Rightarrow> e = ErrCodecNegotiationFailed \<and> (\<forall>l \<in> set (cc_AudioCodecs (cn_localCaps n)). \<not> offered l (parse_codecs MediaAudio sdp))
    | Inr (answer, c) \<Rightarrow> answer = generateAudioAnswer c \<and> best_of (cc_AudioCodecs (cn_localCaps n)) (parse_codecs MediaAudio sdp) c)
   \<and> (case NegotiateVideo n sdp of
      Inl e \<Rightarrow> e = ErrCodecNegotiationFailed \<and> (\<forall>l \<in> set (cc_VideoCodecs (cn_localCaps n)). \<not> offered l (parse_codecs MediaVideo sdp))
    | Inr (answer, c) \<Rightarrow> answer = generateVideoAnswer c \<and> best_of (cc_VideoCodecs (cn_localCaps n)) (parse_codecs MediaVideo sdp) c)"
  using match_by_priority[of "cc_AudioCodecs (cn_localCaps n)" "parse_codecs MediaAudio sdp"] match_by_priority[of "cc_VideoCodecs (cn_localCaps n)" "parse_codecs MediaVideo sdp"]
  by (auto simp: NegotiateAudio_def NegotiateVideo_def parseAudioCodecs_def parseVideoCodecs_def wrapped_def selectBestAudioCodec_def selectBestVideoCodec_def split: option.splits)

section \<open>Answers are understood\<close>

definition clean_name :: "string \<Rightarrow> bool" where
  "clean_name s \<longleftrightarrow> s \<noteq> [] \<and> (\<forall>c \<in> set s. plain c \<and> c \<noteq> CHR ''/'')"

definition fits_int64 :: "int \<Rightarrow> bool" where "fits_int64 i \<longleftrightarrow> - (2 ^ 63) \<le> i \<and> i < 2 ^ 63"

lemma clean_nameD: "clean_name s \<Longrightarrow> CHR ''/'' \<notin> set s \<and> CHR '' '' \<notin> set s \<and> newline \<notin> set s"
proof -
  assume "clean_name s"
  moreover have "\<not> plain (CHR '' '')" "\<not> plain newline" by (simp_all add: plain_def newline_def)
  ultimately show ?thesis unfolding clean_name_def by blast
qed

text \<open>The lines of an answer, between which the description has newlines.\<close>

definition answer_lines :: "string \<Rightarrow> string \<Rightarrow> byte \<Rightarrow> string \<Rightarrow> string list" where
  "answer_lines name ty pt rtpmap = [''v=0'', ''o=- 0 0 IN IP4 127.0.0.1'', ''s='' @ name, ''c=IN IP4 127.0.0.1'', ''t=0 0'',
     ''m='' @ ty @ '' 9 UDP/TLS/RTP/SAVPF '' @ dec_of_nat (unat pt), ''a='' @ rtpmap, ''a=sendrecv'']"

lemma dec_small: "dec_of_int 0 = ''0''" "dec_of_int 9 = ''9''"
  by code_simp+

lemma Marshal_answer:
  assumes "newline \<notin> set name" "newline \<notin> set ty" "newline \<notin> set rtpmap"
  shows "split_on newline (SDP_Marshal (answer_sdp name ty pt rtpmap)) = answer_lines name ty pt rtpmap"
proof -
  define body where "body = ''v=0'' @ newline # ''o=- 0 0 IN IP4 127.0.0.1'' @ newline # (''s='' @ name) @ newline # ''c=IN IP4 127.0.0.1'' @ newline # ''t=0 0'' @ newline
    # (''m='' @ ty @ '' 9 UDP/TLS/RTP/SAVPF '' @ dec_of_nat (unat pt)) @ newline # (''a='' @ rtpmap) @ newline # ''a=sendrecv''"
  have "SDP_Marshal (answer_sdp name ty pt rtpmap) = TrimSpace (body @ [newline])"
    by (simp add: SDP_Marshal_def answer_sdp_def attr_lines_def media_lines_def dec_small body_def)
  also have "\<dots> = body" by (rule TrimSpace_line) (simp_all add: body_def plain_def)
  finally have *: "SDP_Marshal (answer_sdp name ty pt rtpmap) = body" .
  have nl: "newline \<notin> set ''v=0''" "newline \<notin> set ''o=- 0 0 IN IP4 127.0.0.1''" "newline \<notin> set ''c=IN IP4 127.0.0.1''" "newline \<notin> set ''t=0 0''" "newline \<notin> set ''a=sendrecv''"
    "newline \<notin> set (''s='' @ name)" "newline \<notin> set (''m='' @ ty @ '' 9 UDP/TLS/RTP/SAVPF '' @ dec_of_nat (unat pt))" "newline \<notin> set (''a='' @ rtpmap)"
    using assms by (simp_all add: newline_def[symmetric]) (simp_all add: newline_def)
  show ?thesis unfolding * body_def answer_lines_def using nl by (simp only: split_on_sep split_on_plain simp_thms)
qed

lemma rtpmap_line:
  assumes "clean_name name" "fits_int64 rate"
  shows "parseRTPMap (''a=rtpmap:'' @ dec_of_nat (unat pt) @ '' '' @ name @ ''/'' @ dec_of_int rate) = Some \<lparr>co_Name = name,
      co_Type = (if isVideoCodec name then MediaVideo else MediaAudio), co_ClockRate = rate, co_Channels = 0, co_PayloadType = pt, co_Parameters = [], co_Priority = 0, co_Required = False\<rparr>" (is ?v)
    and "fits_int64 channels \<Longrightarrow> parseRTPMap (''a=rtpmap:'' @ dec_of_nat (unat pt) @ '' '' @ name @ ''/'' @ dec_of_int rate @ ''/'' @ dec_of_int channels) = Some \<lparr>co_Name = name,
      co_Type = (if isVideoCodec name then MediaVideo else MediaAudio), co_ClockRate = rate, co_Channels = channels, co_PayloadType = pt, co_Parameters = [], co_Priority = 0, co_Required = False\<rparr>"
      (is "_ \<Longrightarrow> ?a")
proof -
  have pre: "TrimPrefix (''a=rtpmap:'' @ s) ''a=rtpmap:'' = s" for s by (simp add: TrimPrefix_def HasPrefix_def)
  have sp: "split_two (CHR '' '') (dec_of_nat (unat pt) @ CHR '' '' # r) = [dec_of_nat (unat pt), r]" for r by (rule split_two_sep) simp
  have sl: "split_on (CHR ''/'') (name @ CHR ''/'' # r) = name # split_on (CHR ''/'') r" for r
    using clean_nameD[OF assms(1)] by (intro split_on_sep) simp
  have "split_on (CHR ''/'') (dec_of_int rate) = [dec_of_int rate]" by (rule split_on_plain) simp
  moreover have "split_on (CHR ''/'') (dec_of_int rate @ CHR ''/'' # dec_of_int channels) = [dec_of_int rate, dec_of_int channels]"
    by (simp add: split_on_sep)
  ultimately show ?v "fits_int64 channels \<Longrightarrow> ?a"
    using assms(2) pre sp sl by (simp_all add: parseRTPMap_def parseUint8_def fits_int64_def)
qed

lemma map_filter_same: "(\<And>x. x \<in> set xs \<Longrightarrow> f x = g x) \<Longrightarrow> List.map_filter f xs = List.map_filter g xs"
  by (induction xs) (simp_all add: List.map_filter_simps split: option.split)

text \<open>The one line of an answer that names a codec is the second last.\<close>

lemma parse_answer:
  assumes "newline \<notin> set name" "newline \<notin> set ty" "newline \<notin> set rtpmap" and last: "rtpmap \<noteq> []" "plain (last rtpmap)"
    and nm: "plain (last name)" "name \<noteq> []" and line: "''a='' @ rtpmap = ''a=rtpmap:'' @ m" and c: "parseRTPMap (''a='' @ rtpmap) = Some c"
  shows "parse_codecs t (SDP_Marshal (answer_sdp name ty pt rtpmap)) = (if co_Type c = t then [c] else [])"
proof -
  have trim: "TrimSpace x = x" if "x \<in> set (answer_lines name ty pt rtpmap)" for x
  proof (rule TrimSpace_plain)
    show "plain (hd x)" "plain (last x)" "x \<noteq> []"
      using that last nm digit_char[OF hd_dec(2)[of "unat pt"]] dec_digits(2)[of "unat pt"] by (auto simp: answer_lines_def plain_def)
  qed
  have "parse_codecs t (SDP_Marshal (answer_sdp name ty pt rtpmap)) = List.map_filter (\<lambda>line. if HasPrefix line ''a=rtpmap:'' then
      (case parseRTPMap line of Some c \<Rightarrow> if co_Type c = t then Some c else None | None \<Rightarrow> None) else None) (answer_lines name ty pt rtpmap)"
    unfolding parse_codecs_def Marshal_answer[OF assms(1-3)] by (rule map_filter_same) (simp add: trim)
  moreover have "HasPrefix (''a='' @ rtpmap) ''a=rtpmap:''" unfolding line by (simp add: HasPrefix_def)
  ultimately show ?thesis using c
    by (simp add: answer_lines_def List.map_filter_simps HasPrefix_def)
qed

lemma default_order:
  "by_priority (cc_AudioCodecs DefaultCapabilities) = cc_AudioCodecs DefaultCapabilities" "by_priority (cc_VideoCodecs DefaultCapabilities) = cc_VideoCodecs DefaultCapabilities"
  "distinct (map (\<lambda>c. fold_case (co_Name c)) (cc_AudioCodecs DefaultCapabilities))" "distinct (map (\<lambda>c. fold_case (co_Name c)) (cc_VideoCodecs DefaultCapabilities))"
  by code_simp+

lemma default_codecs:
  "list_all (\<lambda>c. \<not> isVideoCodec (co_Name c) \<and> co_Type c = MediaAudio \<and> clean_name (co_Name c) \<and> fits_int64 (co_ClockRate c) \<and> fits_int64 (co_Channels c)) (cc_AudioCodecs DefaultCapabilities)"
  "list_all (\<lambda>c. isVideoCodec (co_Name c) \<and> co_Type c = MediaVideo \<and> clean_name (co_Name c) \<and> fits_int64 (co_ClockRate c) \<and> co_Channels c = 0) (cc_VideoCodecs DefaultCapabilities)"
  by code_simp+

lemma first_match_same:
  assumes "distinct (map (\<lambda>c. fold_case (co_Name c)) ls)" "l \<in> set ls" "co_Name r = co_Name l"
  shows "first_match ls [r] = Some (l\<lparr>co_PayloadType := co_PayloadType r\<rparr>)"
  using assms by (induction ls) (auto simp: EqualFold_def)

definition as_parsed :: "Codec \<Rightarrow> Codec" where
  "as_parsed c = c\<lparr>co_Parameters := [], co_Priority := 0, co_Required := False\<rparr>"

lemma audio_answer_parsed:
  assumes "clean_name (co_Name c)" "fits_int64 (co_ClockRate c)" "fits_int64 (co_Channels c)" "\<not> isVideoCodec (co_Name c)" "co_Type c = MediaAudio"
  shows "parse_codecs t (generateAudioAnswer c) = (if t = MediaAudio then [as_parsed c] else [])"
proof -
  let ?m = "dec_of_nat (unat (co_PayloadType c)) @ '' '' @ co_Name c @ ''/'' @ dec_of_int (co_ClockRate c) @ ''/'' @ dec_of_int (co_Channels c)"
  have clean: "newline \<notin> set (''rtpmap:'' @ ?m)" "newline \<notin> set ''Babylon Tower Audio''" "newline \<notin> set ''audio''"
    using clean_nameD[OF assms(1)] dec_of_int_clean[OF not_digits(3)] dec_clean[OF not_digits(3)] by (auto simp: newline_def)
  have "parseRTPMap (''a='' @ ''rtpmap:'' @ ?m) = Some (as_parsed c)"
    using rtpmap_line(2)[OF assms(1,2,3), of "co_PayloadType c"] assms(4,5) by (simp add: as_parsed_def)
  note * = parse_answer[OF clean(2,3,1) _ _ _ _ _ this, where t = t and pt = "co_PayloadType c"]
  show ?thesis unfolding generateAudioAnswer_def
    by (subst *[where m = ?m]) (use dec_of_int_ends[of "co_Channels c"] in \<open>simp_all add: plain_def as_parsed_def assms(5) eq_commute\<close>)
qed

lemma video_answer_parsed:
  assumes "clean_name (co_Name c)" "fits_int64 (co_ClockRate c)" "co_Channels c = 0" "isVideoCodec (co_Name c)" "co_Type c = MediaVideo"
  shows "parse_codecs t (generateVideoAnswer c) = (if t = MediaVideo then [as_parsed c] else [])"
proof -
  let ?m = "dec_of_nat (unat (co_PayloadType c)) @ '' '' @ co_Name c @ ''/'' @ dec_of_int (co_ClockRate c)"
  have clean: "newline \<notin> set (''rtpmap:'' @ ?m)" "newline \<notin> set ''Babylon Tower Video''" "newline \<notin> set ''video''"
    using clean_nameD[OF assms(1)] dec_of_int_clean[OF not_digits(3)] dec_clean[OF not_digits(3)] by (auto simp: newline_def)
  have "parseRTPMap (''a='' @ ''rtpmap:'' @ ?m) = Some (as_parsed c)"
    using rtpmap_line(1)[OF assms(1,2), of "co_PayloadType c"] assms(3,4,5) by (simp add: as_parsed_def)
  note * = parse_answer[OF clean(2,3,1) _ _ _ _ _ this, where t = t and pt = "co_PayloadType c"]
  show ?thesis unfolding generateVideoAnswer_def
    by (subst *[where m = ?m]) (use dec_of_int_ends[of "co_ClockRate c"] in \<open>simp_all add: plain_def as_parsed_def assms(5) eq_commute\<close>)
qed

text \<open>C17.Answers are understood: the description with which the program answers names exactly the chosen codec when it is parsed again, under its media type and
  under no other, and a peer that negotiates on the answer chooses the same codec with the same payload type and gives the same answer.\<close>

theorem answers_understood:
  assumes n: "n = NewCodecNegotiator"
  shows "(\<forall>answer c. NegotiateAudio n sdp = Inr (answer, c) \<longrightarrow>
      parse_codecs MediaAudio answer = [as_parsed c] \<and> parse_codecs MediaVideo answer = [] \<and> NegotiateAudio n answer = Inr (answer, c))
    \<and> (\<forall>answer c. NegotiateVideo n sdp = Inr (answer, c) \<longrightarrow>
      parse_codecs MediaVideo answer = [as_parsed c] \<and> parse_codecs MediaAudio answer = [] \<and> NegotiateVideo n answer = Inr (answer, c))"
proof (intro conjI allI impI)
  have types: "MediaAudio \<noteq> MediaVideo" by (simp add: codec_names)
  fix answer c
  { assume "NegotiateAudio n sdp = Inr (answer, c)"
    then have a: "answer = generateAudioAnswer c" and "best_of (cc_AudioCodecs DefaultCapabilities) (parse_codecs MediaAudio sdp) c"
      using match_by_priority[of "cc_AudioCodecs DefaultCapabilities" "parse_codecs MediaAudio sdp"]
      by (auto simp: n NewCodecNegotiator_def NegotiateAudio_def parseAudioCodecs_def wrapped_def selectBestAudioCodec_def split: option.splits)
    then obtain l p where l: "l \<in> set (cc_AudioCodecs DefaultCapabilities)" and c: "c = l\<lparr>co_PayloadType := p\<rparr>" unfolding best_of_def by blast
    have parsed: "parse_codecs t answer = (if t = MediaAudio then [as_parsed c] else [])" for t
      unfolding a using default_codecs(1) l by (intro audio_answer_parsed) (auto simp: list_all_iff c)
    show "parse_codecs MediaAudio answer = [as_parsed c]" "parse_codecs MediaVideo answer = []" using types by (simp_all add: parsed)
    have "first_match (cc_AudioCodecs DefaultCapabilities) [as_parsed c] = Some c"
      using first_match_same[OF default_order(3) l, of "as_parsed c"] by (simp add: c as_parsed_def)
    then show "NegotiateAudio n answer = Inr (answer, c)"
      by (simp add: NegotiateAudio_def parseAudioCodecs_def parsed n NewCodecNegotiator_def selectBestAudioCodec_def default_order wrapped_def) (simp add: a) }
  { assume "NegotiateVideo n sdp = Inr (answer, c)"
    then have a: "answer = generateVideoAnswer c" and "best_of (cc_VideoCodecs DefaultCapabilities) (parse_codecs MediaVideo sdp) c"
      using match_by_priority[of "cc_VideoCodecs DefaultCapabilities" "parse_codecs MediaVideo sdp"]
      by (auto simp: n NewCodecNegotiator_def NegotiateVideo_def parseVideoCodecs_def wrapped_def selectBestVideoCodec_def split: option.splits)
    then obtain l p where l: "l \<in> set (cc_VideoCodecs DefaultCapabilities)" and c: "c = l\<lparr>co_PayloadType := p\<rparr>" unfolding best_of_def by blast
    have parsed: "parse_codecs t answer = (if t = MediaVideo then [as_parsed c] else [])" for t
      unfolding a using default_codecs(2) l by (intro video_answer_parsed) (auto simp: list_all_iff c)
    show "parse_codecs MediaVideo answer = [as_parsed c]" "parse_codecs MediaAudio answer = []" using types by (simp_all add: parsed)
    have "first_match (cc_VideoCodecs DefaultCapabilities) [as_parsed c] = Some c"
      using first_match_same[OF default_order(4) l, of "as_parsed c"] by (simp add: c as_parsed_def)
    then show "NegotiateVideo n answer = Inr (answer, c)"
      by (simp add: NegotiateVideo_def parseVideoCodecs_def parsed n NewCodecNegotiator_def selectBestVideoCodec_def default_order wrapped_def) (simp add: a) }
qed

theorem answers_understood_witness:
  "\<exists>sdp answer c. NegotiateVideo NewCodecNegotiator sdp = Inr (answer, c) \<and> co_Name c = ''VP8'' \<and> co_PayloadType c = 120 \<and>
     NegotiateVideo NewCodecNegotiator answer = Inr (answer, c)"
proof -
  define vp8 where "vp8 = (cc_VideoCodecs DefaultCapabilities ! 1)\<lparr>co_PayloadType := 120\<rparr>"
  have l: "cc_VideoCodecs DefaultCapabilities ! 1 \<in> set (cc_VideoCodecs DefaultCapabilities)" by (simp add: DefaultCapabilities_def)
  have name: "co_Name vp8 = ''VP8''" by (simp add: vp8_def DefaultCapabilities_def codec_names)
  have "parse_codecs MediaVideo (generateVideoAnswer vp8) = [as_parsed vp8]"
    using default_codecs(2) l by (subst video_answer_parsed) (auto simp: list_all_iff vp8_def)
  moreover have "first_match (cc_VideoCodecs DefaultCapabilities) [as_parsed vp8] = Some vp8"
    using first_match_same[OF default_order(4) l, of "as_parsed vp8"] by (simp add: vp8_def as_parsed_def)
  ultimately have "NegotiateVideo NewCodecNegotiator (generateVideoAnswer vp8) = Inr (generateVideoAnswer vp8, vp8)"
    by (simp add: NegotiateVideo_def parseVideoCodecs_def wrapped_def selectBestVideoCodec_def NewCodecNegotiator_def default_order)
  then show ?thesis using answers_understood[OF refl, of "generateVideoAnswer vp8"] name by (metis (no_types, lifting) Codec.select_convs(5) Codec.surjective Codec.update_convs(5) vp8_def)
qed

section \<open>What the media service counts\<close>

datatype media_call = Start_call CallSession | Audio_call bytes | Video_call bytes | Set_call "CallSession option" | Stats_call float64 float64 float64

fun media_run :: "media_call list \<Rightarrow> 'w MediaService \<times> 'w \<Rightarrow> 'w MediaService \<times> 'w" where
  "media_run [] mw = mw"
| "media_run (x # xs) (m, w) = media_run xs (case x of
       Start_call s \<Rightarrow> fst (StartOutgoing s (m, w))
     | Audio_call d \<Rightarrow> (fst (SendAudio d m), w)
     | Video_call d \<Rightarrow> (fst (SendVideo d m), w)
     | Set_call s \<Rightarrow> (SetSession s m, w)
     | Stats_call j l r \<Rightarrow> (UpdateStats j l r m, w))"

text \<open>The packets that are sent while a session is set, seen from the calls alone.\<close>

fun sent_packets :: "media_call list \<Rightarrow> bool \<Rightarrow> (bytes list \<times> bytes list) \<times> bool" where
  "sent_packets [] on = (([], []), on)"
| "sent_packets (x # xs) on = (case x of
       Start_call s \<Rightarrow> sent_packets xs (on \<or> cs_MediaKey s \<noteq> [])
     | Audio_call d \<Rightarrow> (case sent_packets xs on of ((a, v), r) \<Rightarrow> ((if on then d # a else a, v), r))
     | Video_call d \<Rightarrow> (case sent_packets xs on of ((a, v), r) \<Rightarrow> ((a, if on then d # v else v), r))
     | Set_call s \<Rightarrow> sent_packets xs (s \<noteq> None)
     | Stats_call j l r \<Rightarrow> sent_packets xs on)"

definition byte_total :: "bytes list \<Rightarrow> u64" where "byte_total ds = of_nat (sum_list (map length ds))"

lemma media_run_counts:
  assumes "sent_packets xs (IsStreaming m) = ((a, v), on)" "media_run xs (m, w) = (m', w')"
  shows "mt_AudioPacketsSent (ms_stats m') = mt_AudioPacketsSent (ms_stats m) + of_nat (length a) \<and> mt_AudioBytesSent (ms_stats m') = mt_AudioBytesSent (ms_stats m) + byte_total a
    \<and> mt_VideoPacketsSent (ms_stats m') = mt_VideoPacketsSent (ms_stats m) + of_nat (length v) \<and> mt_VideoBytesSent (ms_stats m') = mt_VideoBytesSent (ms_stats m) + byte_total v
    \<and> mt_AudioPacketsReceived (ms_stats m') = mt_AudioPacketsReceived (ms_stats m) \<and> mt_VideoPacketsReceived (ms_stats m') = mt_VideoPacketsReceived (ms_stats m)
    \<and> IsStreaming m' = on"
  using assms
proof (induction xs arbitrary: m w a v)
  case (Cons x xs)
  show ?case
  proof (cases x)
    case (Start_call s)
    obtain m1 w1 where m1: "fst (StartOutgoing s (m, w)) = (m1, w1)" by (cases "fst (StartOutgoing s (m, w))")
    then have "ms_stats m1 = ms_stats m" "IsStreaming m1 = (IsStreaming m \<or> cs_MediaKey s \<noteq> [])"
      by (auto simp: StartOutgoing_def IsStreaming_def split: if_splits)
    then show ?thesis using Cons.IH[of m1 a v w1] Cons.prems Start_call m1 by simp
  next
    case (Audio_call d)
    obtain a1 v1 on1 where s: "sent_packets xs (IsStreaming m) = ((a1, v1), on1)" by (metis prod.exhaust)
    have k: "IsStreaming (fst (SendAudio d m)) = IsStreaming m" by (simp add: SendAudio_def IsStreaming_def)
    show ?thesis using Cons.IH[of "fst (SendAudio d m)" a1 v1 w] Cons.prems Audio_call s k
      by (auto simp: SendAudio_def IsStreaming_def byte_total_def split: if_splits)
  next
    case (Video_call d)
    obtain a1 v1 on1 where s: "sent_packets xs (IsStreaming m) = ((a1, v1), on1)" by (metis prod.exhaust)
    have k: "IsStreaming (fst (SendVideo d m)) = IsStreaming m" by (simp add: SendVideo_def IsStreaming_def)
    show ?thesis using Cons.IH[of "fst (SendVideo d m)" a1 v1 w] Cons.prems Video_call s k
      by (auto simp: SendVideo_def IsStreaming_def byte_total_def split: if_splits)
  next
    case (Set_call s)
    then show ?thesis using Cons.IH[of "SetSession s m" a v w] Cons.prems by (simp add: SetSession_def IsStreaming_def)
  next
    case (Stats_call j l r)
    then show ?thesis using Cons.IH[of "UpdateStats j l r m" a v w] Cons.prems by (simp add: UpdateStats_def IsStreaming_def)
  qed
qed (auto simp: byte_total_def)

text \<open>The media statistics are the packets sent: after any calls on a new media service the packet and byte counters are, modulo \<open>2 ^ 64\<close>, the numbers and the
  total lengths of the audio and the video packets that were given while a session was set. Nothing is ever counted as received.\<close>

theorem media_statistics:
  assumes "sent_packets xs False = ((a, v), on)" "media_run xs (NewMediaService, w) = (m, w')"
  shows "mt_AudioPacketsSent (MediaService_GetStats m) = of_nat (length a) \<and> mt_AudioBytesSent (MediaService_GetStats m) = byte_total a
    \<and> mt_VideoPacketsSent (MediaService_GetStats m) = of_nat (length v) \<and> mt_VideoBytesSent (MediaService_GetStats m) = byte_total v
    \<and> mt_AudioPacketsReceived (MediaService_GetStats m) = 0 \<and> mt_VideoPacketsReceived (MediaService_GetStats m) = 0 \<and> IsStreaming m = on"
  using media_run_counts[of xs "NewMediaService" a v on w m w'] assms
  by (simp add: MediaService_GetStats_def NewMediaService_def IsStreaming_def)

end
