(* ===== verification/Configuration.thy ===== *)
theory Configuration
  imports Crypto GoTime
begin

text \<open>
  \<open>pkg/config\<close>: the application's configuration (\<open>app.go\<close>), its defaults and validation (\<open>defaults.go\<close>, \<open>validate.go\<close>), and the configuration of the
  network node that is made from it (\<open>config.go\<close>). Durations are nanoseconds. Whether a text is a multiaddress is decided by a third-party package, the
  parameter \<open>ma\<close>; reading the configuration file and the environment (\<open>loader.go\<close>) is that of the third-party package viper and is not modelled.
\<close>

section \<open>The configurations\<close>

record NetworkConfig =
  nc_BootstrapPeers :: "string list"
  nc_DialTimeout :: int
  nc_ConnectionTimeout :: int
  nc_BootstrapTimeout :: int
  nc_MaxConnections :: int
  nc_LowWater :: int
  nc_HighWater :: int
  nc_EnableRelay :: bool
  nc_EnableHolePunching :: bool
  nc_EnableAutoNAT :: bool
  nc_DHTMode :: string
  nc_DHTBootstrapTimeout :: int
  nc_ListenAddrs :: "string list"
  nc_ProtocolID :: string
  nc_MaxStoredPeers :: int
  nc_MinPeerConnections :: int

record StorageConfig =
  sg_Path :: string
  sg_InMemory :: bool

record LoggingConfig =
  lc_Level :: string
  lc_File :: string

record MessagingConfig =
  gc_ChannelBufferSize :: int

record mailbox_settings =
  xc_MaxMessagesPerTarget :: u32
  xc_MaxMessageSize :: u32
  xc_MaxTotalBytesPerTarget :: u64
  xc_DefaultTTL :: int
  xc_RateLimitPerMinute :: int

record RTCConfig =
  rc_CallTimeout :: int
  rc_EnableVideo :: bool
  rc_MaxParticipants :: int

record MultideviceConfig =
  vc_DeviceName :: string
  vc_MaxDevices :: int
  vc_SyncInterval :: int

record IdentityConfig =
  ic_DHTPublish :: bool
  ic_RefreshInterval :: int

record AppConfig =
  ac_Network :: NetworkConfig
  ac_Storage :: StorageConfig
  ac_Logging :: LoggingConfig
  ac_Messaging :: MessagingConfig
  ac_Mailbox :: mailbox_settings
  ac_RTC :: RTCConfig
  ac_Multidevice :: MultideviceConfig
  ac_Identity :: IdentityConfig

record IPFSConfig =
  fc_BootstrapPeers :: "string list"
  fc_BootstrapTimeout :: int
  fc_MaxStoredPeers :: int
  fc_MinPeerConnections :: int
  fc_ConnectionTimeout :: int
  fc_DialTimeout :: int
  fc_MaxConnections :: int
  fc_LowWater :: int
  fc_HighWater :: int
  fc_EnableRelay :: bool
  fc_EnableHolePunching :: bool
  fc_EnableAutoNAT :: bool
  fc_DHTMode :: string
  fc_DHTBootstrapTimeout :: int
  fc_ListenAddrs :: "string list"
  fc_ProtocolID :: string

section \<open>Defaults\<close>

definition second :: int where "second = 1000000000"

definition DefaultProtocolID :: string where "DefaultProtocolID = ''/babylontower/1.0.0''"
definition DefaultBootstrapTimeout :: int where "DefaultBootstrapTimeout = 60 * second"
definition DefaultConnectionTimeout :: int where "DefaultConnectionTimeout = 30 * second"
definition DefaultDialTimeout :: int where "DefaultDialTimeout = 15 * second"
definition DefaultDHTBootstrapTimeout :: int where "DefaultDHTBootstrapTimeout = 60 * second"
definition DefaultMaxConnections :: int where "DefaultMaxConnections = 400"
definition DefaultLowWater :: int where "DefaultLowWater = 50"
definition DefaultHighWater :: int where "DefaultHighWater = 400"
definition DefaultMaxStoredPeers :: int where "DefaultMaxStoredPeers = 100"
definition DefaultMinPeerConnections :: int where "DefaultMinPeerConnections = 10"
definition DefaultListenAddrTCP :: string where "DefaultListenAddrTCP = ''/ip4/0.0.0.0/tcp/0''"
definition DefaultListenAddrWS :: string where "DefaultListenAddrWS = ''/ip4/0.0.0.0/tcp/0/ws''"
definition DefaultListenAddrTCPv6 :: string where "DefaultListenAddrTCPv6 = ''/ip6/::/tcp/0''"

lemmas config_defaults = second_def DefaultProtocolID_def DefaultBootstrapTimeout_def DefaultConnectionTimeout_def DefaultDialTimeout_def DefaultDHTBootstrapTimeout_def
  DefaultMaxConnections_def DefaultLowWater_def DefaultHighWater_def DefaultMaxStoredPeers_def DefaultMinPeerConnections_def DefaultListenAddrTCP_def DefaultListenAddrWS_def
  DefaultListenAddrTCPv6_def

definition DefaultIPFSConfig :: IPFSConfig where
  "DefaultIPFSConfig = \<lparr>
     fc_BootstrapPeers = [
       ''/dnsaddr/bootstrap.libp2p.io/p2p/QmNnooDu7bfjPFoTZYxMNLWUQJyrVwtbZg5gBMjTezGAJN'',
       ''/dnsaddr/bootstrap.libp2p.io/p2p/QmQCU2EcMqAqQPR2i9bChDtGNJchTbq5TbXJJ16u19uLTa'',
       ''/dnsaddr/bootstrap.libp2p.io/p2p/QmbLHAnMoJPWSCR5Zhtx6BHJX9KiRNN6vEC9qmL9egu92p'',
       ''/dnsaddr/bootstrap.libp2p.io/p2p/QmcZf59bWwK5XFi76CZX8cbJ4BhTzzA3gU1ZjYZcYW3dwt'',
       ''/dnsaddr/bootstrap.libp2p.io/p2p/QmSoLPppuBtQSGwKDZT2M73ULpjvfd3aZ6ha4oFGL1KrGM'',
       ''/ip4/104.131.131.82/tcp/4001/p2p/QmaCpDMGvV2BGHeYERUEnRQAwe3N8SzbUtfsmvsqQLuvuJ'',
       ''/ip4/104.236.179.241/tcp/4001/p2p/QmSoLPppuBtQSGwKDZT2M73ULpjvfd3aZ6ha4oFGL1KrGM'',
       ''/ip4/128.199.219.111/tcp/4001/p2p/QmSoLV4Bbm51jM9C4gDYZQ9Cy3U6aXMJDAbzgu2fzaDs64'',
       ''/ip4/104.236.76.40/tcp/4001/p2p/QmSoLPppuBtQSGwKDZT2M73ULpjvfd3aZ6ha4oFGL1KrGM'',
       ''/ip4/178.62.158.147/tcp/4001/p2p/QmSoLer265NRgSp2LA3dPaeykiS1J6DifTC88f5uVQKNAd'',
       ''/ip4/178.62.61.185/tcp/4001/p2p/QmSoLMeWqB7YGVLJN3pNLQpmmEk35v6wYtsMGLzSr5QBU3''],
     fc_BootstrapTimeout = DefaultBootstrapTimeout, fc_MaxStoredPeers = DefaultMaxStoredPeers, fc_MinPeerConnections = DefaultMinPeerConnections,
     fc_ConnectionTimeout = DefaultConnectionTimeout, fc_DialTimeout = DefaultDialTimeout, fc_MaxConnections = DefaultMaxConnections, fc_LowWater = DefaultLowWater,
     fc_HighWater = DefaultHighWater, fc_EnableRelay = False, fc_EnableHolePunching = True, fc_EnableAutoNAT = True, fc_DHTMode = ''auto'',
     fc_DHTBootstrapTimeout = DefaultDHTBootstrapTimeout, fc_ListenAddrs = [DefaultListenAddrTCP, DefaultListenAddrWS, DefaultListenAddrTCPv6],
     fc_ProtocolID = DefaultProtocolID\<rparr>"

definition DefaultAppConfig :: AppConfig where
  "DefaultAppConfig = \<lparr>
     ac_Network = \<lparr>nc_BootstrapPeers = [
       ''/dnsaddr/bootstrap.libp2p.io/p2p/QmNnooDu7bfjPFoTZYxMNLWUQJyrVwtbZg5gBMjTezGAJN'',
       ''/dnsaddr/bootstrap.libp2p.io/p2p/QmQCU2EcMqAqQPR2i9bChDtGNJchTbq5TbXJJ16u19uLTa'',
       ''/dnsaddr/bootstrap.libp2p.io/p2p/QmbLHAnMoJPWSCR5Zhtx6BHJX9KiRNN6vEC9qmL9egu92p'',
       ''/dnsaddr/bootstrap.libp2p.io/p2p/QmcZf59bWwK5XFi76CZX8cbJ4BhTzzA3gU1ZjYZcYW3dwt'',
       ''/dnsaddr/bootstrap.libp2p.io/p2p/QmSoLPppuBtQSGwKDZT2M73ULpjvfd3aZ6ha4oFGL1KrGM'',
       ''/ip4/104.131.131.82/tcp/4001/p2p/QmaCpDMGvV2BGHeYERUEnRQAwe3N8SzbUtfsmvsqQLuvuJ'',
       ''/ip4/104.236.179.241/tcp/4001/p2p/QmSoLPppuBtQSGwKDZT2M73ULpjvfd3aZ6ha4oFGL1KrGM'',
       ''/ip4/128.199.219.111/tcp/4001/p2p/QmSoLV4Bbm51jM9C4gDYZQ9Cy3U6aXMJDAbzgu2fzaDs64'',
       ''/ip4/104.236.76.40/tcp/4001/p2p/QmSoLPppuBtQSGwKDZT2M73ULpjvfd3aZ6ha4oFGL1KrGM'',
       ''/ip4/178.62.158.147/tcp/4001/p2p/QmSoLer265NRgSp2LA3dPaeykiS1J6DifTC88f5uVQKNAd'',
       ''/ip4/178.62.61.185/tcp/4001/p2p/QmSoLMeWqB7YGVLJN3pNLQpmmEk35v6wYtsMGLzSr5QBU3''],
       nc_DialTimeout = 15 * second, nc_ConnectionTimeout = 30 * second, nc_BootstrapTimeout = 60 * second, nc_MaxConnections = 400, nc_LowWater = 50,
       nc_HighWater = 400, nc_EnableRelay = False, nc_EnableHolePunching = True, nc_EnableAutoNAT = True, nc_DHTMode = ''auto'', nc_DHTBootstrapTimeout = 60 * second,
       nc_ListenAddrs = [''/ip4/0.0.0.0/tcp/0'', ''/ip4/0.0.0.0/tcp/0/ws'', ''/ip6/::/tcp/0''], nc_ProtocolID = ''/babylontower/1.0.0'', nc_MaxStoredPeers = 100,
       nc_MinPeerConnections = 10\<rparr>,
     ac_Storage = \<lparr>sg_Path = [], sg_InMemory = False\<rparr>, ac_Logging = \<lparr>lc_Level = ''warn'', lc_File = []\<rparr>, ac_Messaging = \<lparr>gc_ChannelBufferSize = 100\<rparr>,
     ac_Mailbox = \<lparr>xc_MaxMessagesPerTarget = 500, xc_MaxMessageSize = 256 * 1024, xc_MaxTotalBytesPerTarget = 64 * 1024 * 1024, xc_DefaultTTL = 7 * 24 * 3600 * second,
       xc_RateLimitPerMinute = 60\<rparr>,
     ac_RTC = \<lparr>rc_CallTimeout = 30 * second, rc_EnableVideo = True, rc_MaxParticipants = 25\<rparr>,
     ac_Multidevice = \<lparr>vc_DeviceName = [], vc_MaxDevices = 5, vc_SyncInterval = 30 * second\<rparr>, ac_Identity = \<lparr>ic_DHTPublish = True, ic_RefreshInterval = 4 * 3600 * second\<rparr>\<rparr>"

section \<open>Conversion and validation\<close>

definition ToIPFSConfig :: "AppConfig \<Rightarrow> IPFSConfig" where
  "ToIPFSConfig c = (let n = ac_Network c in
     \<lparr>fc_BootstrapPeers = nc_BootstrapPeers n, fc_BootstrapTimeout = nc_BootstrapTimeout n, fc_MaxStoredPeers = nc_MaxStoredPeers n,
      fc_MinPeerConnections = nc_MinPeerConnections n, fc_ConnectionTimeout = nc_ConnectionTimeout n, fc_DialTimeout = nc_DialTimeout n,
      fc_MaxConnections = nc_MaxConnections n, fc_LowWater = nc_LowWater n, fc_HighWater = nc_HighWater n, fc_EnableRelay = nc_EnableRelay n,
      fc_EnableHolePunching = nc_EnableHolePunching n, fc_EnableAutoNAT = nc_EnableAutoNAT n, fc_DHTMode = nc_DHTMode n, fc_DHTBootstrapTimeout = nc_DHTBootstrapTimeout n,
      fc_ListenAddrs = nc_ListenAddrs n, fc_ProtocolID = nc_ProtocolID n\<rparr>)"

text \<open>The first check that fails decides the error.\<close>

fun first_failure :: "(bool \<times> go_error) list \<Rightarrow> unit res" where
  "first_failure [] = Inr ()"
| "first_failure ((bad, e) # checks) = (if bad then Inl e else first_failure checks)"

definition ErrInvalidConfig :: go_error where "ErrInvalidConfig = Err ''invalid configuration''"

definition invalid_config :: "string \<Rightarrow> go_error" where "invalid_config s = Wrap s ErrInvalidConfig"

definition ValidateAppConfig :: "AppConfig \<Rightarrow> unit res" where
  "ValidateAppConfig cfg = (let n = ac_Network cfg in first_failure
     [(nc_LowWater n < 0, invalid_config ''low_water must be non-negative''),
      (nc_HighWater n < nc_LowWater n, invalid_config ''high_water must be >= low_water''),
      (nc_MaxConnections n < nc_HighWater n, invalid_config ''max_connections must be >= high_water''),
      (nc_DialTimeout n \<le> 0, invalid_config ''dial_timeout must be positive''),
      (nc_ConnectionTimeout n \<le> 0, invalid_config ''connection_timeout must be positive''),
      (nc_BootstrapTimeout n \<le> 0, invalid_config ''bootstrap_timeout must be positive''),
      (nc_DHTMode n \<notin> {''auto'', ''client'', ''server''}, invalid_config ''invalid dht_mode''),
      (nc_MaxStoredPeers n < 10, invalid_config ''max_stored_peers must be >= 10''),
      (nc_MinPeerConnections n < 1, invalid_config ''min_peer_connections must be >= 1''),
      (lc_Level (ac_Logging cfg) \<notin> {''debug'', ''info'', ''warn'', ''error'', []}, invalid_config ''invalid log level''),
      (gc_ChannelBufferSize (ac_Messaging cfg) < 1, invalid_config ''channel_buffer_size must be >= 1''),
      (xc_MaxMessageSize (ac_Mailbox cfg) = 0, invalid_config ''max_message_size must be > 0''),
      (rc_MaxParticipants (ac_RTC cfg) < 2, invalid_config ''max_participants must be >= 2''),
      (vc_MaxDevices (ac_Multidevice cfg) < 1, invalid_config ''max_devices must be >= 1'')])"

definition validateMultiaddr :: "(string \<Rightarrow> 'a res) \<Rightarrow> string \<Rightarrow> unit res" where
  "validateMultiaddr ma addr = rbind (wrapped ''invalid multiaddr'' (ma addr)) (\<lambda>_. Inr ())"

fun validate_addrs :: "(string \<Rightarrow> 'a res) \<Rightarrow> string \<Rightarrow> string list \<Rightarrow> unit res" where
  "validate_addrs ma what [] = Inr ()"
| "validate_addrs ma what (a # as) = rbind (wrapped what (validateMultiaddr ma a)) (\<lambda>_. validate_addrs ma what as)"

definition IPFSConfig_Validate :: "(string \<Rightarrow> 'a res) \<Rightarrow> IPFSConfig \<Rightarrow> unit res" where
  "IPFSConfig_Validate ma c =
     rbind (validate_addrs ma ''invalid bootstrap peer'' (fc_BootstrapPeers c)) (\<lambda>_.
     rbind (validate_addrs ma ''invalid listen address'' (fc_ListenAddrs c)) (\<lambda>_. first_failure
       [(fc_LowWater c < 0, Err ''low_water must be non-negative''),
        (fc_HighWater c < fc_LowWater c, Err ''high_water must be >= low_water''),
        (fc_MaxConnections c < fc_HighWater c, Err ''max_connections must be >= high_water''),
        (fc_BootstrapTimeout c \<le> 0, Err ''bootstrap_timeout must be positive''),
        (fc_ConnectionTimeout c \<le> 0, Err ''connection_timeout must be positive''),
        (fc_DialTimeout c \<le> 0, Err ''dial_timeout must be positive''),
        (fc_DHTMode c \<notin> {''auto'', ''client'', ''server''}, Err ''invalid dht_mode''),
        (fc_MaxStoredPeers c < 10, Err ''max_stored_peers must be >= 10''),
        (fc_MinPeerConnections c < 1, Err ''min_peer_connections must be >= 1'')]))"

fun GetBootstrapPeerInfos :: "(string \<Rightarrow> 'a res) \<Rightarrow> string list \<Rightarrow> 'a list res" where
  "GetBootstrapPeerInfos ma [] = Inr []"
| "GetBootstrapPeerInfos ma (p # ps) = rbind (wrapped ''invalid bootstrap peer'' (ma p)) (\<lambda>a. rbind (GetBootstrapPeerInfos ma ps) (\<lambda>as. Inr (a # as)))"

section \<open>What validation guarantees\<close>

lemma first_failure_ok: "first_failure checks = Inr () \<longleftrightarrow> (\<forall>(bad, e) \<in> set checks. \<not> bad)"
  by (induction checks rule: first_failure.induct) auto

lemma validate_addrs_ok: "validate_addrs ma what as = Inr () \<longleftrightarrow> (\<forall>a \<in> set as. \<exists>x. ma a = Inr x)"
  by (induction as) (auto simp: validateMultiaddr_def wrapped_def rbind_def split: sum.splits)

lemma peer_infos_ok: "(\<forall>a \<in> set as. \<exists>x. ma a = Inr x) \<Longrightarrow> \<exists>xs. GetBootstrapPeerInfos ma as = Inr xs \<and> map ma as = map Inr xs"
  by (induction as) (auto simp: wrapped_def)

text \<open>C35.The two validations agree: the node accepts the configuration made from an application configuration exactly when the addresses in it are addresses and the
  nine network checks hold, so an application configuration that was validated is rejected by the node for nothing but an address; its bootstrap peers are then all
  parsed, in order. The default configuration of the application is valid and gives exactly the default configuration of the node.\<close>

theorem config_validation_agrees:
  assumes valid: "ValidateAppConfig cfg = Inr ()"
  shows "(IPFSConfig_Validate ma (ToIPFSConfig cfg) = Inr () \<longleftrightarrow> (\<forall>a \<in> set (nc_BootstrapPeers (ac_Network cfg) @ nc_ListenAddrs (ac_Network cfg)). \<exists>x. ma a = Inr x))
    \<and> (IPFSConfig_Validate ma (ToIPFSConfig cfg) = Inr () \<longrightarrow>
        (\<exists>xs. GetBootstrapPeerInfos ma (nc_BootstrapPeers (ac_Network cfg)) = Inr xs \<and> map ma (nc_BootstrapPeers (ac_Network cfg)) = map Inr xs))
    \<and> ValidateAppConfig DefaultAppConfig = Inr () \<and> ToIPFSConfig DefaultAppConfig = DefaultIPFSConfig"
proof -
  let ?n = "ac_Network cfg"
  have rbind_ok: "rbind r f = Inr () \<longleftrightarrow> r = Inr () \<and> f () = Inr ()" for r :: "unit res" and f by (cases r) auto
  have checks: "0 \<le> nc_LowWater ?n" "nc_LowWater ?n \<le> nc_HighWater ?n" "nc_HighWater ?n \<le> nc_MaxConnections ?n" "0 < nc_DialTimeout ?n" "0 < nc_ConnectionTimeout ?n"
    "0 < nc_BootstrapTimeout ?n" "nc_DHTMode ?n \<in> {''auto'', ''client'', ''server''}" "10 \<le> nc_MaxStoredPeers ?n" "1 \<le> nc_MinPeerConnections ?n"
    using valid unfolding ValidateAppConfig_def Let_def first_failure_ok by (simp_all only: list.set ball_simps prod.case not_less not_le not_not)
  then have nine: "first_failure
       [(nc_LowWater ?n < 0, e1), (nc_HighWater ?n < nc_LowWater ?n, e2), (nc_MaxConnections ?n < nc_HighWater ?n, e3), (nc_BootstrapTimeout ?n \<le> 0, e4),
        (nc_ConnectionTimeout ?n \<le> 0, e5), (nc_DialTimeout ?n \<le> 0, e6), (nc_DHTMode ?n \<notin> {''auto'', ''client'', ''server''}, e7), (nc_MaxStoredPeers ?n < 10, e8),
        (nc_MinPeerConnections ?n < 1, e9)] = Inr ()" for e1 e2 e3 e4 e5 e6 e7 e8 e9
    unfolding first_failure_ok by (simp only: list.set ball_simps prod.case not_less not_le not_not)
  have "IPFSConfig_Validate ma (ToIPFSConfig cfg) = Inr () \<longleftrightarrow> (\<forall>a \<in> set (nc_BootstrapPeers ?n @ nc_ListenAddrs ?n). \<exists>x. ma a = Inr x)"
    by (simp only: IPFSConfig_Validate_def ToIPFSConfig_def Let_def IPFSConfig.simps rbind_ok validate_addrs_ok nine set_append ball_Un simp_thms)
  moreover have "ValidateAppConfig DefaultAppConfig = Inr ()" by (simp add: ValidateAppConfig_def DefaultAppConfig_def Let_def second_def)
  moreover have "ToIPFSConfig DefaultAppConfig = DefaultIPFSConfig" by (simp add: ToIPFSConfig_def DefaultAppConfig_def DefaultIPFSConfig_def Let_def config_defaults)
  ultimately show ?thesis using peer_infos_ok[of "nc_BootstrapPeers ?n" ma] by auto
qed

theorem config_validation_agrees_witness:
  "IPFSConfig_Validate (\<lambda>a. if a = [] then Inl (Err ''empty multiaddr'') else Inr a) (ToIPFSConfig DefaultAppConfig) = Inr ()"
proof -
  have "ValidateAppConfig DefaultAppConfig = Inr ()" by (simp add: ValidateAppConfig_def DefaultAppConfig_def Let_def second_def)
  from config_validation_agrees[OF this, of "\<lambda>a. if a = [] then Inl (Err ''empty multiaddr'') else Inr a"] show ?thesis by (auto simp: DefaultAppConfig_def)
qed

end
