(* ===== verification/CryptoText.thy ===== *)
theory CryptoText
  imports Crypto GoText
begin

text \<open>
  The helpers of \<open>pkg/crypto/sign.go\<close> that write and read signatures as hexadecimal text. \<open>hexDecode\<close> does not use \<open>encoding/hex\<close> but scans two characters at
  a time with \<open>fmt.Sscanf\<close>, which skips spaces and stops at the first character that is no digit.
\<close>

definition SignAndEncode :: "prims \<Rightarrow> bytes \<Rightarrow> bytes \<Rightarrow> string res" where
  "SignAndEncode P privKey message = rbind (Sign P privKey message) (\<lambda>signature. Inr (hex_encode signature))"

definition hex_val :: "string \<Rightarrow> byte" where
  "hex_val ds = foldl (\<lambda>acc c. 16 * acc + (case unhex c of None \<Rightarrow> 0 | Some d \<Rightarrow> d)) 0 ds"

text \<open>\<open>Sscanf(s, "%02x", &b)\<close> with a \<open>byte\<close>.\<close>

definition scan_hex_byte :: "string \<Rightarrow> byte res" where
  "scan_hex_byte s = (case scan_skip s of
     None \<Rightarrow> Inl (Err ''unexpected newline'')
   | Some r \<Rightarrow> (let ds = takeWhile (\<lambda>c. unhex c \<noteq> None) (take 2 r) in
       if r = [] then Inl (Err ''unexpected EOF'') else if ds = [] then Inl (Err ''expected integer'') else Inr (hex_val ds)))"

fun hex_pairs :: "string \<Rightarrow> bytes res" where
  "hex_pairs (a # b # s) = rbind (scan_hex_byte [a, b]) (\<lambda>x. rbind (hex_pairs s) (\<lambda>xs. Inr (x # xs)))"
| "hex_pairs _ = Inr []"

definition hexDecode :: "string \<Rightarrow> bytes res" where
  "hexDecode s = (if length s mod 2 \<noteq> 0 then Inl (Err ''odd length hex string'') else hex_pairs s)"

definition VerifyAndDecode :: "prims \<Rightarrow> bytes \<Rightarrow> bytes \<Rightarrow> string \<Rightarrow> bool" where
  "VerifyAndDecode P pubKey message signatureHex = (case hexDecode signatureHex of Inl _ \<Rightarrow> False | Inr signature \<Rightarrow> Verify P pubKey message signature)"

text \<open>\<open>read n\<close> is what the system's source of randomness gives for \<open>n\<close> bytes.\<close>

definition RandomBytes :: "(nat \<Rightarrow> bytes res) \<Rightarrow> int \<Rightarrow> bytes res" where
  "RandomBytes read len = (if len \<le> 0 then Inl (Err ''length must be positive'') else wrapped ''failed to generate random bytes'' (read (nat len)))"

section \<open>Encoded signatures\<close>

lemma scan_hex_byte_encoded: "scan_hex_byte [hexdigit (unat x div 16), hexdigit (unat x mod 16)] = Inr x"
proof -
  have lt: "unat x div 16 < 16" "unat x mod 16 < 16" by (simp_all add: less_mult_imp_div_less)
  have "16 * of_nat (unat x div 16) + of_nat (unat x mod 16) = (of_nat (16 * (unat x div 16) + unat x mod 16) :: byte)"
    by (simp only: of_nat_add of_nat_mult of_nat_numeral)
  also have "\<dots> = x" unfolding mult_div_mod_eq by simp
  finally have "16 * of_nat (unat x div 16) + of_nat (unat x mod 16) = x" .
  then show ?thesis
    using hexdigit_plain[OF lt(1)] by (simp add: scan_hex_byte_def scan_skip_plain unhex_hexdigit[OF lt(1)] unhex_hexdigit[OF lt(2)] hex_val_def)
qed

lemma hexDecode_encode: "hexDecode (hex_encode b) = Inr b"
proof -
  have "length (hex_encode b) mod 2 = 0 \<and> hex_pairs (hex_encode b) = Inr b"
  proof (induction b)
    case (Cons x b)
    then show ?case unfolding hex_encode_Cons by (simp only: hex_pairs.simps scan_hex_byte_encoded rbind_simps) simp
  qed (simp add: hex_encode_def)
  then show ?thesis by (simp add: hexDecode_def)
qed

text \<open>An encoded signature verifies: signing and encoding with a key of the right size gives a text that decodes to the signature and verifies under the key's
  public half; with a key of another size it is an error. The decoder, however, reads different texts as the same signature.\<close>

theorem encoded_signature_verifies:
  assumes "sig_correct P"
  shows "(length priv = 64 \<longrightarrow> (\<exists>h. SignAndEncode P priv m = Inr h \<and> hexDecode h = Inr (ed_sign P priv m) \<and> VerifyAndDecode P (ed_public P priv) m h))
    \<and> (length priv \<noteq> 64 \<longrightarrow> (\<exists>e. SignAndEncode P priv m = Inl e))
    \<and> hexDecode (''ag'' @ hex_encode b) = hexDecode (''0a'' @ hex_encode b) \<and> hexDecode ('' a'' @ hex_encode b) = hexDecode (''0a'' @ hex_encode b)"
proof -
  have digits: "unhex (CHR ''a'') = Some 10" "unhex (CHR ''g'') = None" "unhex (CHR ''0'') = Some 0" by (simp_all add: unhex_def)
  have "plain (CHR ''a'')" "plain (CHR ''0'')" "plain (CHR ''a'') \<Longrightarrow> CHR ''a'' \<noteq> newline" by (simp_all add: plain_def newline_def)
  then have "scan_hex_byte ''ag'' = Inr 10" "scan_hex_byte '' a'' = Inr 10" "scan_hex_byte ''0a'' = Inr 10"
    using skip_space(2)[of "''a''"] by (simp_all add: scan_hex_byte_def scan_skip_plain digits hex_val_def, simp add: scan_skip_def digits hex_val_def)
  then have "hexDecode (''ag'' @ s) = hexDecode (''0a'' @ s)" "hexDecode ('' a'' @ s) = hexDecode (''0a'' @ s)" for s
    by (simp_all add: hexDecode_def)
  then show ?thesis using sig_correctD[OF assms] by (auto simp: SignAndEncode_def Sign_def crypto_sizes hexDecode_encode VerifyAndDecode_def Verify_def)
qed

theorem encoded_signature_verifies_witness:
  "\<exists>h. SignAndEncode toy (replicate 64 1) [2] = Inr h \<and> VerifyAndDecode toy (ed_public toy (replicate 64 1)) [2] h"
  using encoded_signature_verifies[OF toy_sig, of "replicate 64 1" "[2]" "[]"] by (auto simp del: toy_simps)

end
