(* ===== verification/NodeHealth.thy ===== *)
theory NodeHealth
  imports GoFloat GoTime "HOL-Library.Signed_Division"
begin

text \<open>
  \<open>pkg/ipfsnode/metrics.go\<close> and the part of \<open>node.go\<close> that judges peers: the counters and the connection history of the metrics collector, the scores of
  peers, and the health check that reconnects to peers and closes connections. Go's \<open>int\<close>, \<open>int64\<close> and \<open>int32\<close> are words read with their sign. The
  network of libp2p is the record \<open>peer_net\<close> over its own state; \<open>c i\<close> is the \<open>i\<close>-th reading of the clock in a call, the zero time is \<open>None\<close>.
\<close>

type_synonym i64 = "64 word"
type_synonym i32 = "32 word"

section \<open>Metrics\<close>

record NetworkMetrics =
  nm_PeerID :: string
  nm_TotalConnections :: i64
  nm_TotalDisconnections :: i64
  nm_CurrentConnections :: i32
  nm_DHTDiscoveries :: i64
  nm_MDNSDiscoveries :: i64
  nm_PeerExchangeDiscoveries :: i64
  nm_BootstrapAttempts :: i64
  nm_BootstrapSuccesses :: i64
  nm_LastBootstrapTime :: "time option"
  nm_AverageLatencyMs :: i64
  nm_SuccessfulMessages :: i64
  nm_FailedMessages :: i64
  nm_StartTime :: time
  nm_UptimeSeconds :: i64

record ConnectionEvent =
  ce_PeerID :: string
  ce_Connected :: bool
  ce_Timestamp :: time
  ce_LatencyMs :: i64

record MetricsCollector =
  mk_metrics :: NetworkMetrics
  mk_connectionHistory :: "ConnectionEvent list"
  mk_maxHistorySize :: nat
  mk_discoveryBySource :: "(string, i64) gomap"

definition NewMetricsCollector :: "time \<Rightarrow> MetricsCollector" where
  "NewMetricsCollector now = \<lparr>mk_metrics = \<lparr>nm_PeerID = [], nm_TotalConnections = 0, nm_TotalDisconnections = 0, nm_CurrentConnections = 0, nm_DHTDiscoveries = 0,
     nm_MDNSDiscoveries = 0, nm_PeerExchangeDiscoveries = 0, nm_BootstrapAttempts = 0, nm_BootstrapSuccesses = 0, nm_LastBootstrapTime = None, nm_AverageLatencyMs = 0,
     nm_SuccessfulMessages = 0, nm_FailedMessages = 0, nm_StartTime = now, nm_UptimeSeconds = 0\<rparr>, mk_connectionHistory = [], mk_maxHistorySize = 100, mk_discoveryBySource = []\<rparr>"

text \<open>\<open>int64(d.Seconds())\<close>: whole seconds and the fraction are added as floating-point numbers, then the fraction is dropped.\<close>

definition whole_seconds :: "int \<Rightarrow> i64" where
  "whole_seconds d = (let s = d sdiv 1000000000 in
     case f_add (f_of_int s) (f_div (f_of_int (d - s * 1000000000)) (Fin 1000000000)) of
       Fin q \<Rightarrow> word_of_int (if q < 0 then - \<lfloor>- q\<rfloor> else \<lfloor>q\<rfloor>) | _ \<Rightarrow> 0)"

definition addConnectionEvent :: "ConnectionEvent \<Rightarrow> MetricsCollector \<Rightarrow> MetricsCollector" where
  "addConnectionEvent event mc =
     (let h = mk_connectionHistory mc @ [event]
      in mc\<lparr>mk_connectionHistory := if mk_maxHistorySize mc < length h then drop (length h - mk_maxHistorySize mc) h else h\<rparr>)"

text \<open>The number of connections was raised before, so the divisor is not zero until it has wrapped around.\<close>

definition updateAverageLatency :: "i64 \<Rightarrow> NetworkMetrics \<Rightarrow> NetworkMetrics" where
  "updateAverageLatency newLatency m =
     (let total = nm_TotalConnections m in
      if total = 1 then m\<lparr>nm_AverageLatencyMs := newLatency\<rparr>
      else let oldTotal = nm_AverageLatencyMs m * (total - 1)
           in m\<lparr>nm_AverageLatencyMs := word_of_int (sint (oldTotal + newLatency) sdiv sint total)\<rparr>)"

definition on_net_metrics :: "(NetworkMetrics \<Rightarrow> NetworkMetrics) \<Rightarrow> MetricsCollector \<Rightarrow> MetricsCollector" where
  "on_net_metrics f mc = mc\<lparr>mk_metrics := f (mk_metrics mc)\<rparr>"

definition RecordConnection :: "(nat \<Rightarrow> time) \<Rightarrow> string \<Rightarrow> i64 \<Rightarrow> MetricsCollector \<Rightarrow> MetricsCollector" where
  "RecordConnection c peerID latencyMs mc =
     (let mc1 = on_net_metrics (\<lambda>m. m\<lparr>nm_TotalConnections := nm_TotalConnections m + 1, nm_CurrentConnections := nm_CurrentConnections m + 1,
            nm_UptimeSeconds := whole_seconds (c 0 - nm_StartTime m)\<rparr>) mc
      in on_net_metrics (updateAverageLatency latencyMs)
           (addConnectionEvent \<lparr>ce_PeerID = peerID, ce_Connected = True, ce_Timestamp = c 1, ce_LatencyMs = latencyMs\<rparr> mc1))"

definition RecordDisconnection :: "(nat \<Rightarrow> time) \<Rightarrow> string \<Rightarrow> MetricsCollector \<Rightarrow> MetricsCollector" where
  "RecordDisconnection c peerID mc =
     (let mc1 = on_net_metrics (\<lambda>m. m\<lparr>nm_TotalDisconnections := nm_TotalDisconnections m + 1,
            nm_CurrentConnections := (if 0 < sint (nm_CurrentConnections m) then nm_CurrentConnections m - 1 else nm_CurrentConnections m),
            nm_UptimeSeconds := whole_seconds (c 0 - nm_StartTime m)\<rparr>) mc
      in addConnectionEvent \<lparr>ce_PeerID = peerID, ce_Connected = False, ce_Timestamp = c 1, ce_LatencyMs = 0\<rparr> mc1)"

definition count_source :: "string \<Rightarrow> MetricsCollector \<Rightarrow> MetricsCollector" where
  "count_source s mc = mc\<lparr>mk_discoveryBySource := gm_set s ((case gm_get (mk_discoveryBySource mc) s of None \<Rightarrow> 0 | Some n \<Rightarrow> n) + 1) (mk_discoveryBySource mc)\<rparr>"

definition RecordDiscovery :: "string \<Rightarrow> MetricsCollector \<Rightarrow> MetricsCollector" where
  "RecordDiscovery source mc =
     (if source = ''dht'' then count_source ''dht'' (on_net_metrics (\<lambda>m. m\<lparr>nm_DHTDiscoveries := nm_DHTDiscoveries m + 1\<rparr>) mc)
      else if source = ''mdns'' then count_source ''mdns'' (on_net_metrics (\<lambda>m. m\<lparr>nm_MDNSDiscoveries := nm_MDNSDiscoveries m + 1\<rparr>) mc)
      else if source = ''peer_exchange'' then count_source ''peer_exchange'' (on_net_metrics (\<lambda>m. m\<lparr>nm_PeerExchangeDiscoveries := nm_PeerExchangeDiscoveries m + 1\<rparr>) mc)
      else count_source source mc)"

definition RecordBootstrapAttempt :: "MetricsCollector \<Rightarrow> MetricsCollector" where
  "RecordBootstrapAttempt = on_net_metrics (\<lambda>m. m\<lparr>nm_BootstrapAttempts := nm_BootstrapAttempts m + 1\<rparr>)"

definition RecordBootstrapSuccess :: "time \<Rightarrow> MetricsCollector \<Rightarrow> MetricsCollector" where
  "RecordBootstrapSuccess now = on_net_metrics (\<lambda>m. m\<lparr>nm_BootstrapSuccesses := nm_BootstrapSuccesses m + 1, nm_LastBootstrapTime := Some now\<rparr>)"

definition RecordMessageSuccess :: "MetricsCollector \<Rightarrow> MetricsCollector" where
  "RecordMessageSuccess = on_net_metrics (\<lambda>m. m\<lparr>nm_SuccessfulMessages := nm_SuccessfulMessages m + 1\<rparr>)"

definition RecordMessageFailure :: "MetricsCollector \<Rightarrow> MetricsCollector" where
  "RecordMessageFailure = on_net_metrics (\<lambda>m. m\<lparr>nm_FailedMessages := nm_FailedMessages m + 1\<rparr>)"

definition Collector_GetMetrics :: "time \<Rightarrow> MetricsCollector \<Rightarrow> NetworkMetrics" where
  "Collector_GetMetrics now mc = (mk_metrics mc)\<lparr>nm_UptimeSeconds := whole_seconds (now - nm_StartTime (mk_metrics mc))\<rparr>"

definition GetDiscoveryBySource :: "MetricsCollector \<Rightarrow> (string, i64) gomap" where "GetDiscoveryBySource mc = mk_discoveryBySource mc"

definition GetConnectionHistory :: "MetricsCollector \<Rightarrow> ConnectionEvent list" where "GetConnectionHistory mc = mk_connectionHistory mc"

definition GetConnectionSuccessRate :: "MetricsCollector \<Rightarrow> float64" where
  "GetConnectionSuccessRate mc = (let total = nm_BootstrapAttempts (mk_metrics mc) in
     if total = 0 then Fin 0 else f_div (f_of_int (sint (nm_BootstrapSuccesses (mk_metrics mc)))) (f_of_int (sint total)))"

definition GetMessageSuccessRate :: "MetricsCollector \<Rightarrow> float64" where
  "GetMessageSuccessRate mc = (let total = nm_SuccessfulMessages (mk_metrics mc) + nm_FailedMessages (mk_metrics mc) in
     if total = 0 then Fin 1 else f_div (f_of_int (sint (nm_SuccessfulMessages (mk_metrics mc)))) (f_of_int (sint total)))"

section \<open>Scores of peers\<close>

record PeerScore =
  ps_PeerID :: string
  ps_ConnectCount :: i64
  ps_DisconnectCount :: i64
  ps_FailCount :: i64
  ps_SuccessCount :: i64
  ps_LastConnected :: "time option"
  ps_LastDisconnected :: "time option"
  ps_LatencyMs :: i64
  ps_Score :: float64

definition new_score :: "string \<Rightarrow> PeerScore" where
  "new_score peerID = \<lparr>ps_PeerID = peerID, ps_ConnectCount = 0, ps_DisconnectCount = 0, ps_FailCount = 0, ps_SuccessCount = 0, ps_LastConnected = None,
     ps_LastDisconnected = None, ps_LatencyMs = 0, ps_Score = Fin 0\<rparr>"

definition one_hour :: int where "one_hour = 3600000000000"

definition disconnect_penalty :: "i64 \<Rightarrow> float64" where
  "disconnect_penalty n =
     (if 5 < sint n then (let p = f_mul (f64 (1 / 10)) (f_of_int (sint (n - 5))) in if f_less (f64 (3 / 10)) p then f64 (3 / 10) else p) else Fin 0)"

definition recency_bonus :: "time \<Rightarrow> time option \<Rightarrow> float64" where
  "recency_bonus now connectedAt = (case connectedAt of None \<Rightarrow> Fin 0 | Some t \<Rightarrow> if now - t < one_hour then f64 (1 / 10) else if now - t < 24 * one_hour then f64 (1 / 20) else Fin 0)"

text \<open>The score is the method's result and is stored, except for a peer without a connection or failure, whose stored score stays as it is.\<close>

definition computeScore :: "time \<Rightarrow> PeerScore \<Rightarrow> PeerScore \<times> float64" where
  "computeScore now p =
     (let total = ps_ConnectCount p + ps_FailCount p in
      if total = 0 then (p, f64 (1 / 2))
      else let successRate = f_div (f_of_int (sint (ps_SuccessCount p))) (f_of_int (sint total));
               score = f_clamp 0 1 (f_add (f_sub successRate (disconnect_penalty (ps_DisconnectCount p))) (recency_bonus now (ps_LastConnected p)))
           in (p\<lparr>ps_Score := score\<rparr>, score))"

type_synonym peer_scores = "(string, PeerScore) gomap"

definition updatePeerScore :: "(nat \<Rightarrow> time) \<Rightarrow> string \<Rightarrow> bool \<Rightarrow> bool \<Rightarrow> peer_scores \<Rightarrow> peer_scores" where
  "updatePeerScore c peerID online failed scores =
     (let p = (case gm_get scores peerID of Some p \<Rightarrow> p | None \<Rightarrow> new_score peerID);
          p1 = (if online \<and> \<not> failed then p\<lparr>ps_ConnectCount := ps_ConnectCount p + 1, ps_SuccessCount := ps_SuccessCount p + 1, ps_LastConnected := Some (c 0)\<rparr>
                else if failed then p\<lparr>ps_FailCount := ps_FailCount p + 1\<rparr>
                else p\<lparr>ps_DisconnectCount := ps_DisconnectCount p + 1, ps_LastDisconnected := Some (c 0)\<rparr>)
      in gm_set peerID (fst (computeScore (c 1) p1)) scores)"

definition getPeerScore :: "string \<Rightarrow> peer_scores \<Rightarrow> float64" where
  "getPeerScore peerID scores = (case gm_get scores peerID of Some p \<Rightarrow> ps_Score p | None \<Rightarrow> f64 (1 / 2))"

definition getLowScorePeers :: "float64 \<Rightarrow> peer_scores \<Rightarrow> string list" where
  "getLowScorePeers threshold scores = map fst (filter (\<lambda>(_, p). f_less (ps_Score p) threshold) scores)"

section \<open>The health check\<close>

record 'h peer_net =
  pn_Peers :: "'h \<Rightarrow> bytes list"
  pn_Decode :: "string \<Rightarrow> bytes res"
  pn_Connected :: "bytes \<Rightarrow> 'h \<Rightarrow> bool"
  pn_ClosePeer :: "bytes \<Rightarrow> 'h \<Rightarrow> ('h, unit) eff"
  pn_HasAddrs :: "bytes \<Rightarrow> 'h \<Rightarrow> bool"
  pn_Connect :: "bytes \<Rightarrow> 'h \<Rightarrow> ('h, unit) eff"

record 'h node_health =
  nh_host :: 'h
  nh_peerCount :: i32
  nh_peerScores :: peer_scores
  nh_metrics :: MetricsCollector
  nh_lastHealthCheck :: "time option"

text \<open>The handler of connectedness events in \<open>subscribePeerEvents\<close>.\<close>

definition peer_event :: "(nat \<Rightarrow> time) \<Rightarrow> string \<Rightarrow> bool \<Rightarrow> 'h node_health \<Rightarrow> 'h node_health" where
  "peer_event c peerID online n =
     (if online then n\<lparr>nh_peerCount := nh_peerCount n + 1, nh_peerScores := updatePeerScore c peerID True False (nh_peerScores n),
        nh_metrics := RecordConnection (\<lambda>i. c (2 + i)) peerID 0 (nh_metrics n)\<rparr>
      else n\<lparr>nh_peerCount := nh_peerCount n - 1, nh_peerScores := updatePeerScore c peerID False False (nh_peerScores n),
        nh_metrics := RecordDisconnection (\<lambda>i. c (2 + i)) peerID (nh_metrics n)\<rparr>)"

text \<open>At most the first five of the peers found are tried; \<open>c i\<close> is the clock of the \<open>i\<close>-th.\<close>

fun reconnect_loop :: "'h peer_net \<Rightarrow> (nat \<Rightarrow> nat \<Rightarrow> time) \<Rightarrow> nat \<Rightarrow> string list \<Rightarrow> 'h node_health \<Rightarrow> 'h node_health" where
  "reconnect_loop N c i [] n = n"
| "reconnect_loop N c i (peerID # ps) n =
     (if 5 \<le> i then n
      else case pn_Decode N peerID of
        Inl _ \<Rightarrow> reconnect_loop N c (Suc i) ps n
      | Inr pid \<Rightarrow>
          if pn_Connected N pid (nh_host n) then reconnect_loop N c (Suc i) ps n
          else if \<not> pn_HasAddrs N pid (nh_host n) then reconnect_loop N c (Suc i) ps n
          else (case pn_Connect N pid (nh_host n) of
              (h, Inl _) \<Rightarrow> reconnect_loop N c (Suc i) ps (n\<lparr>nh_host := h, nh_peerScores := updatePeerScore (c i) peerID False True (nh_peerScores n)\<rparr>)
            | (h, Inr _) \<Rightarrow> reconnect_loop N c (Suc i) ps (n\<lparr>nh_host := h\<rparr>)))"

definition reconnectToLowScorePeers :: "'h peer_net \<Rightarrow> (nat \<Rightarrow> nat \<Rightarrow> time) \<Rightarrow> 'h node_health \<Rightarrow> 'h node_health" where
  "reconnectToLowScorePeers N c n = reconnect_loop N c 0 (getLowScorePeers (f64 (4 / 10)) (nh_peerScores n)) n"

text \<open>The threshold and the number of peers to close, by the number of peers.\<close>

definition prune_limits :: "nat \<Rightarrow> (float64 \<times> nat) option" where
  "prune_limits peerCount = (if 100 < peerCount then Some (f64 (3 / 10), 20) else if 50 < peerCount then Some (f64 (1 / 4), 10)
     else if 20 < peerCount then Some (f64 (2 / 10), 5) else None)"

fun prune_loop :: "'h peer_net \<Rightarrow> (nat \<Rightarrow> nat \<Rightarrow> time) \<Rightarrow> nat \<Rightarrow> nat \<Rightarrow> string list \<Rightarrow> 'h node_health \<Rightarrow> 'h node_health" where
  "prune_loop N c maxPrune pruned [] n = n"
| "prune_loop N c maxPrune pruned (peerID # ps) n =
     (if maxPrune \<le> pruned then n
      else case pn_Decode N peerID of
        Inl _ \<Rightarrow> prune_loop N c maxPrune pruned ps n
      | Inr pid \<Rightarrow>
          if \<not> pn_Connected N pid (nh_host n) then prune_loop N c maxPrune pruned ps n
          else prune_loop N c maxPrune (Suc pruned) ps
            (n\<lparr>nh_host := fst (pn_ClosePeer N pid (nh_host n)), nh_metrics := RecordDisconnection (c pruned) peerID (nh_metrics n)\<rparr>))"

definition performHealthCheck :: "'h peer_net \<Rightarrow> time \<Rightarrow> (nat \<Rightarrow> nat \<Rightarrow> time) \<Rightarrow> (nat \<Rightarrow> nat \<Rightarrow> time) \<Rightarrow> 'h node_health \<Rightarrow> 'h node_health" where
  "performHealthCheck N now c c' n0 =
     (let n1 = n0\<lparr>nh_lastHealthCheck := Some now\<rparr>;
          peerCount = length (pn_Peers N (nh_host n1));
          n = (if peerCount < 5 then reconnectToLowScorePeers N c n1 else n1)
      in case prune_limits peerCount of
           None \<Rightarrow> n
         | Some (threshold, maxPrune) \<Rightarrow> prune_loop N c' maxPrune 0 (getLowScorePeers threshold (nh_peerScores n)) n)"

section \<open>Scores stay scores\<close>

lemma f64_small: "\<bar>x\<bar> \<le> 2 ^ 1000 \<Longrightarrow> \<exists>q. f64 x = Fin q"
  by (meson f64_finite)

lemma f_of_nat_finite:
  assumes "n < 2 ^ 64"
  obtains q where "f_of_int (int n) = Fin q" "0 \<le> q" "q \<le> 2 ^ 65" "n \<noteq> 0 \<Longrightarrow> 1 / 2 \<le> q"
proof -
  have n: "unat (of_nat n :: u64) = n" using assms by (simp add: unat_of_nat)
  have "f_of_int (int n) = f_of_u64 (of_nat n)" unfolding f_of_int_def f_of_u64_def n by simp
  moreover have "(of_nat n :: u64) \<noteq> 0" if "n \<noteq> 0" using n that by (metis unat_0)
  ultimately show ?thesis using f_of_u64_finite[of "of_nat n"] that by metis
qed

lemma sint_of_nat64: "n < 2 ^ 63 \<Longrightarrow> sint (of_nat n :: i64) = int n"
  by (simp add: signed_of_nat signed_take_bit_int_eq_self)

lemma rate_not_NaN:
  assumes "a < 2 ^ 63" "b < 2 ^ 63" "b \<noteq> 0"
  shows "f_div (f_of_int (sint (of_nat a :: i64))) (f_of_int (sint (of_nat b :: i64))) \<noteq> NaN"
proof -
  obtain p where p: "f_of_int (int a) = Fin p" by (rule f_of_nat_finite[of a]) (use assms(1) in simp)
  obtain q where "f_of_int (int b) = Fin q" "1 / 2 \<le> q" by (rule f_of_nat_finite[of b]) (use assms(2,3) in simp_all)
  then show ?thesis using p assms by (simp add: sint_of_nat64)
qed

lemma penalty_finite:
  assumes "d < 2 ^ 63"
  shows "\<exists>q. disconnect_penalty (of_nat d) = Fin q"
proof (cases "5 < d")
  case True
  have s: "(of_nat d - 5 :: i64) = of_nat (d - 5)" using True by (simp add: of_nat_diff)
  have lt: "d - 5 < 2 ^ 63" "d - 5 < 2 ^ 64" using assms by simp_all
  obtain q where q: "f_of_int (int (d - 5)) = Fin q" "0 \<le> q" "q \<le> 2 ^ 65" by (rule f_of_nat_finite[OF lt(2)])
  obtain a where a: "f64 (1 / 10) = Fin a" "\<bar>a\<bar> \<le> 2 * \<bar>1 / 10\<bar>" by (rule f64_finite[of "1 / 10"]) (auto intro: order_trans[OF _ one_le_power])
  obtain b where b: "f64 (3 / 10) = Fin b" by (rule f64_finite[of "3 / 10"]) (auto intro: order_trans[OF _ one_le_power])
  have "\<bar>a * q\<bar> \<le> 1 * 2 ^ 65" unfolding abs_mult using a(2) q(2,3) by (intro mult_mono) auto
  also have "\<dots> \<le> 2 ^ 1000" by (simp add: power_increasing)
  finally obtain r where r: "f64 (a * q) = Fin r" using f64_small by blast
  have "f_mul (f64 (1 / 10)) (f_of_int (sint (of_nat d - 5 :: i64))) = Fin r" unfolding s sint_of_nat64[OF lt(1)] a(1) q(1) using r by simp
  then show ?thesis by (simp add: disconnect_penalty_def b Let_def)
next
  case False
  then show ?thesis using assms by (simp add: disconnect_penalty_def sint_of_nat64)
qed

lemma bonus_finite: "\<exists>q. recency_bonus now t = Fin q"
  using f64_small[of "1 / 10"] f64_small[of "1 / 20"] order_trans[OF _ one_le_power, of _ "2 :: rat" 1000] by (auto simp: recency_bonus_def split: option.splits)

definition unit_score :: "float64 \<Rightarrow> bool" where "unit_score x \<longleftrightarrow> (\<exists>q. x = Fin q \<and> 0 \<le> q \<and> q \<le> 1)"

definition score_ok :: "nat \<Rightarrow> PeerScore \<Rightarrow> bool" where
  "score_ok n p \<longleftrightarrow> (\<exists>a f d. ps_ConnectCount p = of_nat a \<and> ps_SuccessCount p = of_nat a \<and> ps_FailCount p = of_nat f \<and> ps_DisconnectCount p = of_nat d \<and> a + f + d \<le> n)
     \<and> unit_score (ps_Score p)"

definition scores_ok :: "nat \<Rightarrow> peer_scores \<Rightarrow> bool" where
  "scores_ok n scores \<longleftrightarrow> (\<forall>k p. gm_get scores k = Some p \<longrightarrow> score_ok n p)"

lemma score_ok_mono: "score_ok n p \<Longrightarrow> n \<le> m \<Longrightarrow> score_ok m p"
  unfolding score_ok_def by (meson le_trans)

lemma computeScore_ok:
  assumes "score_ok n p" "n < 2 ^ 63"
  shows "score_ok n (fst (computeScore now p))"
proof (cases "ps_ConnectCount p + ps_FailCount p = 0")
  case True
  then show ?thesis using assms by (simp add: computeScore_def)
next
  case False
  obtain a f d where p: "ps_ConnectCount p = of_nat a" "ps_SuccessCount p = of_nat a" "ps_FailCount p = of_nat f" "ps_DisconnectCount p = of_nat d" "a + f + d \<le> n"
    using assms(1) by (auto simp: score_ok_def)
  have t: "ps_ConnectCount p + ps_FailCount p = of_nat (a + f)" by (simp add: p)
  have lt: "a < 2 ^ 63" "a + f < 2 ^ 63" "d < 2 ^ 63" "a + f \<noteq> 0" using p(5) assms(2) False t by (auto intro: ccontr)
  obtain x y where xy: "disconnect_penalty (of_nat d) = Fin x" "recency_bonus now (ps_LastConnected p) = Fin y" using penalty_finite[OF lt(3)] bonus_finite by blast
  have "f_add (f_sub (f_div (f_of_int (sint (of_nat a :: i64))) (f_of_int (sint (of_nat (a + f) :: i64)))) (disconnect_penalty (of_nat d))) (recency_bonus now (ps_LastConnected p)) \<noteq> NaN"
    using rate_not_NaN[OF lt(1,2,4)] by (simp add: xy f_sub_def f_add_finite)
  then have "unit_score (snd (computeScore now p))"
    using f_clamp_cases[of 0 1] False t p by (simp add: computeScore_def unit_score_def Let_def) blast
  moreover have "fst (computeScore now p) = p\<lparr>ps_Score := snd (computeScore now p)\<rparr>" using False by (simp add: computeScore_def Let_def)
  ultimately show ?thesis using p by (auto simp: score_ok_def)
qed

lemma updatePeerScore_ok:
  assumes "scores_ok n scores" "Suc n < 2 ^ 63"
  shows "scores_ok (Suc n) (updatePeerScore c pid online failed scores)"
proof -
  define p where "p = (case gm_get scores pid of Some p \<Rightarrow> p | None \<Rightarrow> new_score pid)"
  define p1 where "p1 = (if online \<and> \<not> failed then p\<lparr>ps_ConnectCount := ps_ConnectCount p + 1, ps_SuccessCount := ps_SuccessCount p + 1, ps_LastConnected := Some (c 0)\<rparr>
                else if failed then p\<lparr>ps_FailCount := ps_FailCount p + 1\<rparr>
                else p\<lparr>ps_DisconnectCount := ps_DisconnectCount p + 1, ps_LastDisconnected := Some (c 0)\<rparr>)"
  have new: "score_ok n (new_score pid)" unfolding score_ok_def new_score_def unit_score_def by (intro conjI exI[of _ 0]) simp_all
  have "score_ok n p" using assms(1) new by (auto simp: p_def scores_ok_def split: option.splits)
  then obtain a f d where abd: "ps_ConnectCount p = of_nat a" "ps_SuccessCount p = of_nat a" "ps_FailCount p = of_nat f" "ps_DisconnectCount p = of_nat d" "a + f + d \<le> n" and u: "unit_score (ps_Score p)"
    by (auto simp: score_ok_def)
  have "score_ok (Suc n) p1"
    unfolding score_ok_def
    by (rule conjI, rule exI[of _ "if online \<and> \<not> failed then Suc a else a"], rule exI[of _ "if failed then Suc f else f"], rule exI[of _ "if \<not> online \<and> \<not> failed then Suc d else d"])
       (use abd u in \<open>simp_all add: p1_def\<close>)
  then have "score_ok (Suc n) (fst (computeScore (c 1) p1))" by (rule computeScore_ok[OF _ assms(2)])
  then show ?thesis using assms(1) score_ok_mono[OF _ le_SucI[OF order_refl]] by (auto simp: updatePeerScore_def Let_def p_def[symmetric] p1_def[symmetric] scores_ok_def)
qed

datatype health_op = Event_op "nat \<Rightarrow> time" string bool | Check_op time "nat \<Rightarrow> nat \<Rightarrow> time" "nat \<Rightarrow> nat \<Rightarrow> time"

fun health_step :: "'h peer_net \<Rightarrow> health_op \<Rightarrow> 'h node_health \<Rightarrow> 'h node_health" where
  "health_step N (Event_op c pid online) n = peer_event c pid online n"
| "health_step N (Check_op now c c') n = performHealthCheck N now c c' n"

lemma scores_ok_mono: "scores_ok n s \<Longrightarrow> n \<le> m \<Longrightarrow> scores_ok m s"
  by (auto simp: scores_ok_def intro: score_ok_mono)

lemma reconnect_step:
  assumes "scores_ok k (nh_peerScores n)" "Suc k < 2 ^ 63" "i < 5"
  shows "\<exists>n'. reconnect_loop N c i (p # ps) n = reconnect_loop N c (Suc i) ps n' \<and> scores_ok (Suc k) (nh_peerScores n')"
proof -
  have ok: "scores_ok (Suc k) (nh_peerScores n)" by (rule scores_ok_mono[OF assms(1)]) simp
  show ?thesis using assms(3) ok updatePeerScore_ok[OF assms(1,2), of "c i" p False True] by (auto split: sum.splits prod.splits)
qed

lemma reconnect_loop_ok:
  "scores_ok k (nh_peerScores n) \<Longrightarrow> i \<le> 5 \<Longrightarrow> k + (5 - i) < 2 ^ 63 \<Longrightarrow> scores_ok (k + (5 - i)) (nh_peerScores (reconnect_loop N c i ps n))"
proof (induction ps arbitrary: i k n)
  case (Cons p ps)
  show ?case
  proof (cases "i < 5")
    case True
    then have k: "Suc k < 2 ^ 63" "Suc k + (5 - Suc i) = k + (5 - i)" "Suc i \<le> 5" using Cons.prems(3) by simp_all
    obtain n' where "reconnect_loop N c i (p # ps) n = reconnect_loop N c (Suc i) ps n'" "scores_ok (Suc k) (nh_peerScores n')"
      using reconnect_step[OF Cons.prems(1) k(1) True] by blast
    then show ?thesis using Cons.IH[of "Suc k" n' "Suc i"] k Cons.prems(3) by (simp only: k(2))
  qed (use Cons.prems in simp)
qed (auto intro: scores_ok_mono)

lemma prune_loop_scores [simp]: "nh_peerScores (prune_loop N c k i ps n) = nh_peerScores n"
  by (induction N c k i ps n rule: prune_loop.induct) (auto split: sum.splits)

lemma health_step_ok:
  assumes "scores_ok k (nh_peerScores n)" "k + 5 < 2 ^ 63"
  shows "scores_ok (k + 5) (nh_peerScores (health_step N op n))"
proof (cases op)
  case (Event_op c pid b)
  then show ?thesis using scores_ok_mono[OF updatePeerScore_ok[OF assms(1)], of "k + 5"] assms(2) by (auto simp: peer_event_def)
next
  case (Check_op now c c')
  have "scores_ok (k + 5) (nh_peerScores (reconnectToLowScorePeers N c (n\<lparr>nh_lastHealthCheck := Some now\<rparr>)))"
    using reconnect_loop_ok[of k "n\<lparr>nh_lastHealthCheck := Some now\<rparr>" 0 N c] assms by (simp add: reconnectToLowScorePeers_def)
  then show ?thesis using Check_op assms scores_ok_mono[OF assms(1), of "k + 5"]
    by (auto simp: performHealthCheck_def Let_def split: option.splits prod.splits)
qed

lemma health_run_ok:
  "scores_ok k (nh_peerScores n) \<Longrightarrow> k + 5 * length ops < 2 ^ 63 \<Longrightarrow> scores_ok (k + 5 * length ops) (nh_peerScores (fold (health_step N) ops n))"
proof (induction ops arbitrary: k n)
  case (Cons op ops)
  then show ?case using health_step_ok[of k n N op] Cons.IH[of "k + 5" "health_step N op n"] by (simp add: algebra_simps)
qed simp

definition new_health :: "'h \<Rightarrow> time \<Rightarrow> 'h node_health" where
  "new_health h now = \<lparr>nh_host = h, nh_peerCount = 0, nh_peerScores = [], nh_metrics = NewMetricsCollector now, nh_lastHealthCheck = None\<rparr>"

text \<open>Scores stay scores: after any connection events and health checks on a new node, whatever the network and the clock do, the score of every peer is a number
  between 0 and 1, never NaN or infinite, so that a score always compares with a threshold.\<close>

theorem peer_scores_bounded:
  assumes "length ops < 2 ^ 60"
  shows "unit_score (getPeerScore pid (nh_peerScores (fold (health_step N) ops (new_health h now))))"
proof -
  have "scores_ok (0 + 5 * length ops) (nh_peerScores (fold (health_step N) ops (new_health h now)))"
    using assms by (intro health_run_ok) (simp_all add: scores_ok_def new_health_def)
  moreover have "f64 (1 / 2) = Fin (1 / 2)" by code_simp
  then have "unit_score (f64 (1 / 2))" unfolding unit_score_def by (intro exI[of _ "1 / 2"]) simp
  ultimately show ?thesis by (auto simp: getPeerScore_def scores_ok_def score_ok_def split: option.splits)
qed

text \<open>A network without peers, for the witness.\<close>

definition empty_net :: "unit peer_net" where
  "empty_net = \<lparr>pn_Peers = (\<lambda>_. []), pn_Decode = hex_decode, pn_Connected = (\<lambda>_ _. False), pn_ClosePeer = (\<lambda>_ h. (h, Inr ())), pn_HasAddrs = (\<lambda>_ _. True),
     pn_Connect = (\<lambda>_ h. (h, Inl (Err ''no route'')))\<rparr>"

theorem peer_scores_bounded_witness:
  "unit_score (getPeerScore ''p'' (nh_peerScores (fold (health_step empty_net)
     [Event_op int ''p'' True, Event_op int ''p'' False, Check_op 9 (\<lambda>_. int) (\<lambda>_. int)] (new_health () 0))))"
  by (rule peer_scores_bounded) simp

text \<open>A first disconnection counts as the worst score: the method answers one half for a peer without connections and failures but does not store it, so a peer
  whose first event is a disconnection has the score 0, below every threshold of the health check, whereas an unknown peer has one half.\<close>

theorem first_disconnect_scores_zero:
  assumes "gm_get scores pid = None"
  shows "getPeerScore pid scores = f64 (1 / 2) \<and> getPeerScore pid (updatePeerScore c pid False False scores) = Fin 0
    \<and> pid \<in> set (getLowScorePeers (f64 (2 / 10)) (updatePeerScore c pid False False scores))"
proof -
  let ?s = "updatePeerScore c pid False False scores"
  obtain p where p: "gm_get ?s pid = Some p" "ps_Score p = Fin 0"
    using assms by (simp add: updatePeerScore_def computeScore_def new_score_def Let_def)
  have "f_less (Fin 0) (f64 (2 / 10))" by code_simp
  moreover have "(pid, p) \<in> set ?s" using p(1) by (simp add: gm_get_def map_of_SomeD)
  ultimately have "pid \<in> set (getLowScorePeers (f64 (2 / 10)) ?s)" using p(2) by (force simp: getLowScorePeers_def)
  then show ?thesis using assms p by (simp add: getPeerScore_def)
qed

theorem first_disconnect_scores_zero_witness:
  "getPeerScore ''p'' (updatePeerScore int ''p'' False False []) = Fin 0"
  using first_disconnect_scores_zero[of "[]" "''p''" int] by simp

section \<open>What the collector counts\<close>

datatype metric_op = Conn_op "nat \<Rightarrow> time" string i64 | Disc_op "nat \<Rightarrow> time" string | Found_op string | Try_op | Boot_op time | Sent_op | Lost_op

fun metric_step :: "metric_op \<Rightarrow> MetricsCollector \<Rightarrow> MetricsCollector" where
  "metric_step (Conn_op c pid l) mc = RecordConnection c pid l mc"
| "metric_step (Disc_op c pid) mc = RecordDisconnection c pid mc"
| "metric_step (Found_op s) mc = RecordDiscovery s mc"
| "metric_step Try_op mc = RecordBootstrapAttempt mc"
| "metric_step (Boot_op now) mc = RecordBootstrapSuccess now mc"
| "metric_step Sent_op mc = RecordMessageSuccess mc"
| "metric_step Lost_op mc = RecordMessageFailure mc"

fun op_event :: "metric_op \<Rightarrow> ConnectionEvent list" where
  "op_event (Conn_op c pid l) = [\<lparr>ce_PeerID = pid, ce_Connected = True, ce_Timestamp = c 1, ce_LatencyMs = l\<rparr>]"
| "op_event (Disc_op c pid) = [\<lparr>ce_PeerID = pid, ce_Connected = False, ce_Timestamp = c 1, ce_LatencyMs = 0\<rparr>]"
| "op_event _ = []"

fun is_conn :: "metric_op \<Rightarrow> bool" where "is_conn (Conn_op c p l) = True" | "is_conn _ = False"
fun is_disc :: "metric_op \<Rightarrow> bool" where "is_disc (Disc_op c p) = True" | "is_disc _ = False"

definition occ :: "('a \<Rightarrow> bool) \<Rightarrow> 'a list \<Rightarrow> i64" where "occ P xs = of_nat (length (filter P xs))"

definition source_count :: "MetricsCollector \<Rightarrow> string \<Rightarrow> i64" where
  "source_count mc s = (case gm_get (GetDiscoveryBySource mc) s of None \<Rightarrow> 0 | Some n \<Rightarrow> n)"

text \<open>What the collector knows after the calls \<open>ops\<close>.\<close>

definition counted_ops :: "metric_op list \<Rightarrow> MetricsCollector \<Rightarrow> bool" where
  "counted_ops ops mc \<longleftrightarrow>
     (let evs = concat (map op_event ops); m = mk_metrics mc in
      mk_maxHistorySize mc = 100 \<and> GetConnectionHistory mc = drop (length evs - 100) evs
      \<and> nm_TotalConnections m = occ is_conn ops \<and> nm_TotalDisconnections m = occ is_disc ops
      \<and> nm_BootstrapAttempts m = occ (\<lambda>x. x = Try_op) ops \<and> nm_SuccessfulMessages m = occ (\<lambda>x. x = Sent_op) ops \<and> nm_FailedMessages m = occ (\<lambda>x. x = Lost_op) ops
      \<and> (\<forall>s. source_count mc s = occ (\<lambda>x. x = Found_op s) ops)
      \<and> nm_DHTDiscoveries m = occ (\<lambda>x. x = Found_op ''dht'') ops \<and> nm_MDNSDiscoveries m = occ (\<lambda>x. x = Found_op ''mdns'') ops
      \<and> nm_PeerExchangeDiscoveries m = occ (\<lambda>x. x = Found_op ''peer_exchange'') ops)"

lemma occ_snoc [simp]: "occ P (xs @ [x]) = occ P xs + (if P x then 1 else 0)" "occ P [] = 0"
  by (simp_all add: occ_def)

lemma average_keeps [simp]:
  "nm_TotalConnections (updateAverageLatency l m) = nm_TotalConnections m" "nm_TotalDisconnections (updateAverageLatency l m) = nm_TotalDisconnections m"
  "nm_BootstrapAttempts (updateAverageLatency l m) = nm_BootstrapAttempts m" "nm_SuccessfulMessages (updateAverageLatency l m) = nm_SuccessfulMessages m"
  "nm_FailedMessages (updateAverageLatency l m) = nm_FailedMessages m" "nm_DHTDiscoveries (updateAverageLatency l m) = nm_DHTDiscoveries m"
  "nm_MDNSDiscoveries (updateAverageLatency l m) = nm_MDNSDiscoveries m" "nm_PeerExchangeDiscoveries (updateAverageLatency l m) = nm_PeerExchangeDiscoveries m"
  by (simp_all add: updateAverageLatency_def Let_def)

lemma add_event_simps [simp]:
  "mk_metrics (addConnectionEvent e mc) = mk_metrics mc" "mk_discoveryBySource (addConnectionEvent e mc) = mk_discoveryBySource mc"
  "mk_maxHistorySize (addConnectionEvent e mc) = mk_maxHistorySize mc"
  by (simp_all add: addConnectionEvent_def Let_def)

lemma add_event_history:
  assumes "mk_maxHistorySize mc = 100" "mk_connectionHistory mc = drop (length xs - 100) xs"
  shows "mk_connectionHistory (addConnectionEvent e mc) = drop (length (xs @ [e]) - 100) (xs @ [e])"
proof (cases "length xs < 100")
  case True
  then show ?thesis using assms by (simp add: addConnectionEvent_def)
next
  case False
  then have "Suc (length xs - 100) = length xs - 99" by linarith
  then show ?thesis using assms False by (simp add: addConnectionEvent_def)
qed

lemma on_metrics_simps [simp]:
  "mk_metrics (on_net_metrics f mc) = f (mk_metrics mc)" "mk_discoveryBySource (on_net_metrics f mc) = mk_discoveryBySource mc"
  "mk_maxHistorySize (on_net_metrics f mc) = mk_maxHistorySize mc" "mk_connectionHistory (on_net_metrics f mc) = mk_connectionHistory mc"
  by (simp_all add: on_net_metrics_def)

lemma metric_step_counted:
  assumes "counted_ops ops mc"
  shows "counted_ops (ops @ [x]) (metric_step x mc)"
proof (cases x)
  case (Conn_op c pid l)
  then show ?thesis using assms unfolding counted_ops_def Let_def
    by (auto simp: RecordConnection_def GetConnectionHistory_def source_count_def GetDiscoveryBySource_def Let_def add_event_history simp del: length_append)
next
  case (Disc_op c pid)
  then show ?thesis using assms unfolding counted_ops_def Let_def
    by (auto simp: RecordDisconnection_def GetConnectionHistory_def source_count_def GetDiscoveryBySource_def Let_def add_event_history simp del: length_append)
next
  case (Found_op s)
  then show ?thesis using assms unfolding counted_ops_def Let_def
    by (auto simp: RecordDiscovery_def count_source_def GetConnectionHistory_def source_count_def GetDiscoveryBySource_def split: option.splits)
qed (use assms in \<open>auto simp: counted_ops_def Let_def RecordBootstrapAttempt_def RecordBootstrapSuccess_def RecordMessageSuccess_def RecordMessageFailure_def
    GetConnectionHistory_def source_count_def GetDiscoveryBySource_def\<close>)

text \<open>The collector counts what it is told: after any calls on a new collector the counters of connections, disconnections, attempts and messages and the
  discoveries of every source are the numbers of the calls modulo \<open>2 ^ 64\<close>, the three named sources are counted in both places alike, and the history is exactly the
  last hundred connection events in order.\<close>

theorem collector_counts: "counted_ops ops (fold metric_step ops (NewMetricsCollector now))"
proof (induction ops rule: rev_induct)
  case Nil
  show ?case by (simp add: counted_ops_def NewMetricsCollector_def GetConnectionHistory_def source_count_def GetDiscoveryBySource_def)
next
  case (snoc x ops)
  then show ?case by (simp add: metric_step_counted)
qed

section \<open>What a health check closes\<close>

definition close_peers :: "'h peer_net \<Rightarrow> string list \<Rightarrow> 'h \<Rightarrow> 'h" where
  "close_peers N ids h = fold (\<lambda>i h. case pn_Decode N i of Inl _ \<Rightarrow> h | Inr pid \<Rightarrow> fst (pn_ClosePeer N pid h)) ids h"

lemma disconnection_total [simp]: "nm_TotalDisconnections (mk_metrics (RecordDisconnection c pid mc)) = nm_TotalDisconnections (mk_metrics mc) + 1"
  by (simp add: RecordDisconnection_def Let_def)

lemma prune_loop_closes:
  "\<exists>ids. length ids \<le> k - i \<and> set ids \<subseteq> set ps \<and> nh_host (prune_loop N c k i ps n) = close_peers N ids (nh_host n)
     \<and> nm_TotalDisconnections (mk_metrics (nh_metrics (prune_loop N c k i ps n))) = nm_TotalDisconnections (mk_metrics (nh_metrics n)) + of_nat (length ids)"
proof (induction ps arbitrary: i n)
  case (Cons p ps)
  have skip: ?case if "prune_loop N c k i (p # ps) n = prune_loop N c k i ps n" using that Cons[of i n] by auto
  show ?case
  proof (cases "k \<le> i")
    case True
    then show ?thesis by (intro exI[of _ "[]"]) (simp add: close_peers_def)
  next
    case i: False
    show ?thesis
    proof (cases "pn_Decode N p")
      case (Inl e)
      then show ?thesis using i by (intro skip) simp
    next
      case (Inr pid)
      show ?thesis
      proof (cases "pn_Connected N pid (nh_host n)")
        case True
        let ?n = "n\<lparr>nh_host := fst (pn_ClosePeer N pid (nh_host n)), nh_metrics := RecordDisconnection (c i) p (nh_metrics n)\<rparr>"
        obtain ids where "length ids \<le> k - Suc i" "set ids \<subseteq> set ps" "nh_host (prune_loop N c k (Suc i) ps ?n) = close_peers N ids (nh_host ?n)"
          "nm_TotalDisconnections (mk_metrics (nh_metrics (prune_loop N c k (Suc i) ps ?n))) = nm_TotalDisconnections (mk_metrics (nh_metrics ?n)) + of_nat (length ids)"
          using Cons[of "Suc i" ?n] by auto
        then show ?thesis using i Inr True by (intro exI[of _ "p # ids"]) (auto simp: close_peers_def)
      next
        case False
        then show ?thesis using i Inr by (intro skip) simp
      qed
    qed
  qed
qed (simp add: close_peers_def)

lemma low_score_peer: "gm_ok scores \<Longrightarrow> pid \<in> set (getLowScorePeers t scores) \<Longrightarrow> f_less (getPeerScore pid scores) t"
proof -
  assume ok: "gm_ok scores" and "pid \<in> set (getLowScorePeers t scores)"
  then obtain p where p: "(pid, p) \<in> set scores" "f_less (ps_Score p) t" by (auto simp: getLowScorePeers_def)
  have "gm_get scores pid = Some p" using ok p(1) by (simp add: gm_get_def gm_ok_def)
  then show ?thesis using p(2) by (simp add: getPeerScore_def)
qed

text \<open>C38.The health check closes few and only bad connections: with at most twenty peers it closes none, otherwise at most five, ten or twenty, only to peers whose
  score lies below the threshold, and each of them is counted as one disconnection.\<close>

theorem health_check_closes:
  assumes ok: "gm_ok (nh_peerScores n)" and many: "5 \<le> length (pn_Peers N (nh_host n))"
  shows "\<exists>ids. nh_host (performHealthCheck N now c c' n) = close_peers N ids (nh_host n)
    \<and> (case prune_limits (length (pn_Peers N (nh_host n))) of None \<Rightarrow> ids = []
       | Some (t, k) \<Rightarrow> length ids \<le> k \<and> (\<forall>pid \<in> set ids. f_less (getPeerScore pid (nh_peerScores n)) t))
    \<and> nm_TotalDisconnections (mk_metrics (nh_metrics (performHealthCheck N now c c' n))) = nm_TotalDisconnections (mk_metrics (nh_metrics n)) + of_nat (length ids)
    \<and> nh_peerScores (performHealthCheck N now c c' n) = nh_peerScores n"
proof (cases "prune_limits (length (pn_Peers N (nh_host n)))")
  case None
  then show ?thesis using many by (intro exI[of _ "[]"]) (simp add: performHealthCheck_def Let_def close_peers_def)
next
  case (Some tk)
  obtain t k where tk: "tk = (t, k)" by (cases tk)
  let ?n = "n\<lparr>nh_lastHealthCheck := Some now\<rparr>"
  obtain ids where "length ids \<le> k - 0" "set ids \<subseteq> set (getLowScorePeers t (nh_peerScores n))"
    "nh_host (prune_loop N c' k 0 (getLowScorePeers t (nh_peerScores n)) ?n) = close_peers N ids (nh_host ?n)"
    "nm_TotalDisconnections (mk_metrics (nh_metrics (prune_loop N c' k 0 (getLowScorePeers t (nh_peerScores n)) ?n))) = nm_TotalDisconnections (mk_metrics (nh_metrics ?n)) + of_nat (length ids)"
    using prune_loop_closes[of k 0 "getLowScorePeers t (nh_peerScores n)" N c' ?n] by blast
  then show ?thesis
    using Some tk many low_score_peer[OF ok] by (intro exI[of _ ids]) (auto simp: performHealthCheck_def Let_def)
qed

theorem health_check_closes_witness:
  "\<exists>ids. length ids \<le> 5 \<and> nh_host (performHealthCheck (empty_net\<lparr>pn_Peers := \<lambda>_. replicate 30 [1]\<rparr>) 0 (\<lambda>_. int) (\<lambda>_. int) (new_health () 0)) = close_peers (empty_net\<lparr>pn_Peers := \<lambda>_. replicate 30 [1]\<rparr>) ids ()"
  using health_check_closes[of "new_health () 0" "empty_net\<lparr>pn_Peers := \<lambda>_. replicate 30 [1]\<rparr>" 0 "\<lambda>_. int" "\<lambda>_. int"]
  by (auto simp: new_health_def prune_limits_def)

text \<open>A connection that the health check closes is counted as lost twice: once by the check and once more when the network reports it, so the number of current
  connections is one too low for every one of them.\<close>

theorem closed_peers_counted_twice:
  assumes "pn_Decode N p = Inr pid" "pn_Connected N pid (nh_host n)" "nm_CurrentConnections (mk_metrics (nh_metrics n)) = of_nat k" "2 \<le> k" "k < 2 ^ 31"
  shows "let n' = peer_event ev p False (prune_loop N c 5 0 [p] n) in
      nm_CurrentConnections (mk_metrics (nh_metrics n')) = of_nat (k - 2) \<and> nm_TotalDisconnections (mk_metrics (nh_metrics n')) = nm_TotalDisconnections (mk_metrics (nh_metrics n)) + 2
      \<and> nh_peerCount n' = nh_peerCount n - 1"
proof -
  have s: "sint (of_nat j :: i32) = int j" if "j < 2 ^ 31" for j using that by (simp add: signed_of_nat signed_take_bit_int_eq_self)
  have dec: "nm_CurrentConnections (mk_metrics (RecordDisconnection cl q mc)) = of_nat (j - 1)" if "nm_CurrentConnections (mk_metrics mc) = of_nat j" "0 < j" "j < 2 ^ 31" for cl q mc j
    using that s[of j] by (simp add: RecordDisconnection_def Let_def of_nat_diff)
  have "nm_CurrentConnections (mk_metrics (RecordDisconnection cl q (RecordDisconnection cl' q' (nh_metrics n)))) = of_nat (k - 2)" for cl cl' q q'
    using dec[of "RecordDisconnection cl' q' (nh_metrics n)" "k - 1" cl q] dec[of "nh_metrics n" k cl' q'] assms(3-5) by (simp add: numeral_2_eq_2)
  then show ?thesis using assms(1,2) by (simp add: peer_event_def Let_def)
qed

end
