(* ===== verification/PubSub.thy ===== *)
theory PubSub
  imports Messaging "HOL-Library.Sublist"
begin

text \<open>
  \<open>pkg/ipfsnode/pubsub.go\<close>: publishing and subscribing over the third-party PubSub, which is the record \<open>pubsub\<close> over its own state \<open>'s\<close> with handles
  \<open>'t\<close> of joined topics. A subscription is a state machine: the goroutine that forwards what the network delivers, the reader of its two channels, and
  \<open>Close\<close> run as interleaved steps.
\<close>

section \<open>Topics\<close>

record ('s, 't) pubsub =
  pb_Join :: "string \<Rightarrow> 's \<Rightarrow> ('s, 't) eff"
  pb_Publish :: "'t \<Rightarrow> bytes \<Rightarrow> 's \<Rightarrow> ('s, unit) eff"
  pb_Subscribe :: "'t \<Rightarrow> 's \<Rightarrow> ('s, unit) eff"
  pb_Close :: "'t \<Rightarrow> 's \<Rightarrow> ('s, unit) eff"
  pb_GetTopics :: "'s \<Rightarrow> string list"
  pb_ListPeers :: "string \<Rightarrow> 's \<Rightarrow> bytes list"

record ('s, 't) pubsub_node =
  po_isStarted :: bool
  po_pubsub :: "'s option"
  po_topics :: "(string, 't) gomap"

definition ErrNodeNotStarted :: go_error where "ErrNodeNotStarted = Err ''IPFS node not started''"

text \<open>The second look under the write lock finds what the first did not only if another call joined in between; calls of the model run one at a time.\<close>

definition getOrJoin :: "('s, 't) pubsub \<Rightarrow> string \<Rightarrow> (string, 't) gomap \<times> 's \<Rightarrow> ((string, 't) gomap \<times> 's, 't) eff" where
  "getOrJoin B topic ts =
     (case ts of (topics, s) \<Rightarrow> (case gm_get topics topic of
        Some t \<Rightarrow> (ts, Inr t)
      | None \<Rightarrow> (case pb_Join B topic s of
          (s1, Inl e) \<Rightarrow> ((topics, s1), Inl e)
        | (s1, Inr t) \<Rightarrow> ((gm_set topic t topics, s1), Inr t))))"

fun close_loop :: "('s, 't) pubsub \<Rightarrow> 't list \<Rightarrow> 's \<Rightarrow> 's" where
  "close_loop B [] s = s"
| "close_loop B (t # ts) s = close_loop B ts (fst (pb_Close B t s))"

definition closeAll :: "('s, 't) pubsub \<Rightarrow> (string, 't) gomap \<times> 's \<Rightarrow> (string, 't) gomap \<times> 's" where
  "closeAll B ts = (case ts of (topics, s) \<Rightarrow> ([], close_loop B (map snd topics) s))"

text \<open>The guards and the call of \<open>getOrJoin\<close> that the operations share, then what they do with the handle.\<close>

definition with_topic :: "('s, 't) pubsub \<Rightarrow> string \<Rightarrow> ('t \<Rightarrow> 's \<Rightarrow> ('s, 'a) eff) \<Rightarrow> ('s, 't) pubsub_node \<Rightarrow> (('s, 't) pubsub_node, 'a) eff" where
  "with_topic B topic f n =
     (if \<not> po_isStarted n then (n, Inl ErrNodeNotStarted)
      else case po_pubsub n of
        None \<Rightarrow> (n, Inl (Err ''PubSub not initialized''))
      | Some s \<Rightarrow> (case getOrJoin B topic (po_topics n, s) of
          ((topics, s1), Inl e) \<Rightarrow> (n\<lparr>po_pubsub := Some s1, po_topics := topics\<rparr>, Inl (Wrap ''failed to join topic'' e))
        | ((topics, s1), Inr t) \<Rightarrow> (case f t s1 of (s2, r) \<Rightarrow> (n\<lparr>po_pubsub := Some s2, po_topics := topics\<rparr>, r))))"

definition Node_Publish :: "('s, 't) pubsub \<Rightarrow> string \<Rightarrow> bytes \<Rightarrow> ('s, 't) pubsub_node \<Rightarrow> (('s, 't) pubsub_node, unit) eff" where
  "Node_Publish B topic data = with_topic B topic (\<lambda>t s. case pb_Publish B t data s of (s1, r) \<Rightarrow> (s1, wrapped ''failed to publish'' r))"

definition PublishTo :: "prims \<Rightarrow> ('s, 't) pubsub \<Rightarrow> bytes \<Rightarrow> bytes \<Rightarrow> ('s, 't) pubsub_node \<Rightarrow> (('s, 't) pubsub_node, unit) eff" where
  "PublishTo P B pubKey data = Node_Publish B (TopicFromPublicKey P pubKey) data"

text \<open>Every branch of the \<open>select\<close> in the waiting loop leaves the loop, the one without peers by the \<open>break\<close> after it, so it waits once, for the ticker or the
  timeout, whichever comes first; \<open>meanwhile\<close> is what happens in the network until then.\<close>

definition PublishWithPeerWait :: "('s, 't) pubsub \<Rightarrow> ('s \<Rightarrow> 's) \<Rightarrow> string \<Rightarrow> bytes \<Rightarrow> int \<Rightarrow> ('s, 't) pubsub_node \<Rightarrow> (('s, 't) pubsub_node, unit) eff" where
  "PublishWithPeerWait B meanwhile topic data timeout n =
     (if \<not> po_isStarted n then (n, Inl ErrNodeNotStarted)
      else case po_pubsub n of
        None \<Rightarrow> (n, Inl (Err ''PubSub not initialized''))
      | Some s \<Rightarrow> Node_Publish B topic data (if 0 < timeout then n\<lparr>po_pubsub := Some (meanwhile s)\<rparr> else n))"

definition Node_Subscribe :: "('s, 't) pubsub \<Rightarrow> string \<Rightarrow> ('s, 't) pubsub_node \<Rightarrow> (('s, 't) pubsub_node, unit) eff" where
  "Node_Subscribe B topic = with_topic B topic (\<lambda>t s. case pb_Subscribe B t s of (s1, r) \<Rightarrow> (s1, wrapped ''failed to subscribe'' r))"

definition ListTopics :: "('s, 't) pubsub \<Rightarrow> ('s, 't) pubsub_node \<Rightarrow> string list" where
  "ListTopics B n = (case po_pubsub n of None \<Rightarrow> [] | Some s \<Rightarrow> pb_GetTopics B s)"

definition Node_ListPeers :: "('s, 't) pubsub \<Rightarrow> string \<Rightarrow> ('s, 't) pubsub_node \<Rightarrow> bytes list" where
  "Node_ListPeers B topic n = (case po_pubsub n of None \<Rightarrow> [] | Some s \<Rightarrow> pb_ListPeers B topic s)"

record TopicInfo =
  ti_Topic :: string
  ti_MeshSize :: nat
  ti_FanoutSize :: nat
  ti_SubscribedPeers :: nat

definition GetTopicInfo :: "('s, 't) pubsub \<Rightarrow> string \<Rightarrow> ('s, 't) pubsub_node \<Rightarrow> TopicInfo option" where
  "GetTopicInfo B topic n = (case po_pubsub n of None \<Rightarrow> None
     | Some s \<Rightarrow> (let k = length (pb_ListPeers B topic s) in Some \<lparr>ti_Topic = topic, ti_MeshSize = k, ti_FanoutSize = 0, ti_SubscribedPeers = k\<rparr>))"

section \<open>Subscriptions\<close>

record pubsub_message =
  pm_Data :: bytes
  pm_From :: bytes
  pm_Topic :: string
  pm_SeqNo :: bytes

text \<open>Where the goroutine is: at the top of its loop, about to send a message on the channel, or returned (with both channels closed).\<close>

datatype forwarder = Waiting | Sending pubsub_message | Returned

text \<open>\<open>su_input\<close> is what \<open>psSub.Next\<close> will give, \<open>su_taken\<close> what the reader has received.\<close>

record Subscription =
  su_input :: "(go_error + pubsub_message) list"
  su_forwarder :: forwarder
  su_msgChan :: "pubsub_message list"
  su_errChan :: "go_error list"
  su_cancelled :: bool
  su_closed :: bool
  su_taken :: "pubsub_message list"

definition new_subscription :: "(go_error + pubsub_message) list \<Rightarrow> Subscription" where
  "new_subscription input = \<lparr>su_input = input, su_forwarder = Waiting, su_msgChan = [], su_errChan = [], su_cancelled = False, su_closed = False, su_taken = []\<rparr>"

definition forwarder_returns :: "Subscription \<Rightarrow> Subscription" where
  "forwarder_returns s = s\<lparr>su_forwarder := Returned, su_closed := True\<rparr>"

text \<open>\<open>Close\<close>; cancelling the context of the node cancels the subscription too.\<close>

definition Subscription_Close :: "Subscription \<Rightarrow> Subscription" where
  "Subscription_Close s = (if su_closed s then s else s\<lparr>su_closed := True, su_cancelled := True\<rparr>)"

definition IsClosed :: "Subscription \<Rightarrow> bool" where "IsClosed s = su_closed s"

inductive sub_step :: "Subscription \<Rightarrow> Subscription \<Rightarrow> bool" where
  sub_stop: "su_forwarder s = Waiting \<Longrightarrow> su_cancelled s \<Longrightarrow> sub_step s (forwarder_returns s)"
| sub_next: "su_forwarder s = Waiting \<Longrightarrow> su_input s = Inr m # rest \<Longrightarrow> sub_step s (s\<lparr>su_input := rest, su_forwarder := Sending m\<rparr>)"
| sub_error: "su_forwarder s = Waiting \<Longrightarrow> su_input s = Inl e # rest \<Longrightarrow>
    sub_step s (s\<lparr>su_input := rest, su_errChan := if length (su_errChan s) < 1 then su_errChan s @ [e] else su_errChan s\<rparr>)"
| sub_send: "su_forwarder s = Sending m \<Longrightarrow> length (su_msgChan s) < 32 \<Longrightarrow> sub_step s (s\<lparr>su_forwarder := Waiting, su_msgChan := su_msgChan s @ [m]\<rparr>)"
| sub_abort: "su_forwarder s = Sending m \<Longrightarrow> su_cancelled s \<Longrightarrow> sub_step s (forwarder_returns s)"
| sub_read: "su_msgChan s = m # rest \<Longrightarrow> sub_step s (s\<lparr>su_msgChan := rest, su_taken := su_taken s @ [m]\<rparr>)"
| sub_read_error: "su_errChan s = e # rest \<Longrightarrow> sub_step s (s\<lparr>su_errChan := rest\<rparr>)"
| sub_close: "sub_step s (Subscription_Close s)"
| sub_cancel: "sub_step s (s\<lparr>su_cancelled := True\<rparr>)"

inductive_cases sub_stepE: "sub_step s t"

definition messages_of :: "(go_error + pubsub_message) list \<Rightarrow> pubsub_message list" where
  "messages_of = List.map_filter (\<lambda>x. case x of Inl _ \<Rightarrow> None | Inr m \<Rightarrow> Some m)"

definition in_flight :: "Subscription \<Rightarrow> pubsub_message list" where
  "in_flight s = (case su_forwarder s of Sending m \<Rightarrow> [m] | _ \<Rightarrow> [])"

text \<open>What was taken and what waits come in the order of the network; only a message that was about to be sent when the subscription was cancelled can be lost.\<close>

definition in_order :: "pubsub_message list \<Rightarrow> Subscription \<Rightarrow> bool" where
  "in_order ms s \<longleftrightarrow> prefix (su_taken s @ su_msgChan s) ms \<and> (su_forwarder s \<noteq> Returned \<longrightarrow> ms = su_taken s @ su_msgChan s @ in_flight s @ messages_of (su_input s))
     \<and> length (su_msgChan s) \<le> 32 \<and> length (su_errChan s) \<le> 1 \<and> (su_forwarder s = Returned \<longrightarrow> su_closed s \<and> su_cancelled s)"

lemma messages_of_simps [simp]: "messages_of [] = []" "messages_of (Inl e # xs) = messages_of xs" "messages_of (Inr m # xs) = m # messages_of xs"
  by (simp_all add: messages_of_def List.map_filter_simps)

interpretation subscription: kept_invariant sub_step "in_order ms"
proof
  fix s t assume inv: "in_order ms s" and step: "sub_step s t"
  from step show "in_order ms t"
    by (cases rule: sub_step.cases) (use inv in \<open>auto simp: in_order_def in_flight_def forwarder_returns_def Subscription_Close_def split: forwarder.splits\<close>)
qed

text \<open>C10.A subscription delivers in order: in every state that the forwarding goroutine, the reader and \<open>Close\<close> can reach in any interleaving, what the reader has
  received and what waits for it is an initial part of the messages of the network, in their order, none repeated and none left out; at most 32 messages and one error
  wait. Until the goroutine has returned, nothing is lost at all, and when it has returned the subscription is closed.\<close>

theorem subscription_in_order:
  assumes "sub_step\<^sup>*\<^sup>* (new_subscription input) s"
  shows "prefix (su_taken s @ su_msgChan s) (messages_of input) \<and> length (su_msgChan s) \<le> 32 \<and> length (su_errChan s) \<le> 1
    \<and> (su_forwarder s = Returned \<longrightarrow> IsClosed s) \<and> (su_forwarder s \<noteq> Returned \<longrightarrow> messages_of input = su_taken s @ su_msgChan s @ in_flight s @ messages_of (su_input s))"
proof -
  have "in_order (messages_of input) (new_subscription input)" by (simp add: in_order_def new_subscription_def in_flight_def)
  from subscription.reachable_inv[OF assms this] show ?thesis by (auto simp: in_order_def IsClosed_def)
qed

definition example_message :: pubsub_message where "example_message = \<lparr>pm_Data = [1], pm_From = [2], pm_Topic = ''t'', pm_SeqNo = [3]\<rparr>"

theorem subscription_in_order_witness:
  "\<exists>s. sub_step\<^sup>*\<^sup>* (new_subscription [Inl (Err ''lost''), Inr example_message]) s \<and> su_msgChan s = [example_message] \<and> prefix (su_msgChan s) [example_message]"
proof -
  define s0 where "s0 = new_subscription [Inl (Err ''lost''), Inr example_message]"
  define s1 where "s1 = s0\<lparr>su_input := [Inr example_message], su_errChan := [Err ''lost'']\<rparr>"
  define s2 where "s2 = s1\<lparr>su_input := [], su_forwarder := Sending example_message\<rparr>"
  define s3 where "s3 = s2\<lparr>su_forwarder := Waiting, su_msgChan := [example_message]\<rparr>"
  have "sub_step s0 s1" using sub_error[of s0 "Err ''lost''" "[Inr example_message]"] by (simp add: s0_def s1_def new_subscription_def)
  moreover have "sub_step s1 s2" using sub_next[of s1 example_message "[]"] by (simp add: s0_def s1_def s2_def new_subscription_def)
  moreover have "sub_step s2 s3" using sub_send[of s2 example_message] by (simp add: s0_def s1_def s2_def s3_def new_subscription_def)
  ultimately have "sub_step\<^sup>*\<^sup>* s0 s3" by (meson converse_rtranclp_into_rtranclp r_into_rtranclp)
  then show ?thesis
    using subscription_in_order[of "[Inl (Err ''lost''), Inr example_message]" s3] by (auto simp: s0_def s1_def s2_def s3_def new_subscription_def)
qed

section \<open>Topics are joined once\<close>

text \<open>What PubSub requires: a topic that is joined and not closed cannot be joined again. \<open>joined\<close> are those topics; a handle knows its topic.\<close>

definition join_once :: "('s, 't) pubsub \<Rightarrow> ('s \<Rightarrow> string set) \<Rightarrow> bool" where
  "join_once B joined \<longleftrightarrow>
     (\<forall>topic s s1 r. pb_Join B topic s = (s1, r) \<longrightarrow> (topic \<notin> joined s \<longrightarrow> (\<exists>t. r = Inr t) \<and> joined s1 = insert topic (joined s)))
     \<and> (\<forall>t d s. joined (fst (pb_Publish B t d s)) = joined s) \<and> (\<forall>t s. joined (fst (pb_Subscribe B t s)) = joined s)"

definition topics_cached :: "('s \<Rightarrow> string set) \<Rightarrow> ('s, 't) pubsub_node \<Rightarrow> bool" where
  "topics_cached joined n \<longleftrightarrow> (\<forall>s. po_pubsub n = Some s \<longrightarrow> joined s \<subseteq> dom (gm_get (po_topics n)))"

lemma with_topic_joins:
  assumes B: "join_once B joined" and n: "topics_cached joined n" "po_isStarted n" "po_pubsub n = Some s" and f: "\<And>t s. joined (fst (f t s)) = joined s"
  shows "topics_cached joined (fst (with_topic B topic f n)) \<and> (\<exists>t s1. snd (with_topic B topic f n) = snd (f t s1))
    \<and> po_isStarted (fst (with_topic B topic f n)) \<and> po_pubsub (fst (with_topic B topic f n)) \<noteq> None"
proof (cases "gm_get (po_topics n) topic")
  case (Some t)
  have "with_topic B topic f n = (n\<lparr>po_pubsub := Some (fst (f t s)), po_topics := po_topics n\<rparr>, snd (f t s))"
    using Some n by (simp add: with_topic_def getOrJoin_def split: prod.split)
  then show ?thesis using n f[of t s] by (auto simp: topics_cached_def)
next
  case None
  then have new: "topic \<notin> joined s" using n by (auto simp: topics_cached_def)
  obtain s1 t where j: "pb_Join B topic s = (s1, Inr t)" "joined s1 = insert topic (joined s)"
    using B new by (metis (no_types, lifting) join_once_def prod.exhaust)
  have "with_topic B topic f n = (n\<lparr>po_pubsub := Some (fst (f t s1)), po_topics := gm_set topic t (po_topics n)\<rparr>, snd (f t s1))"
    using None n j by (simp add: with_topic_def getOrJoin_def split: prod.split)
  then show ?thesis using n f[of t s1] j(2) by (auto simp: topics_cached_def dom_def)
qed

datatype pubsub_op = Publish_op string bytes | Wait_op string bytes int | Subscribe_op string

fun pubsub_step :: "('s, 't) pubsub \<Rightarrow> pubsub_op \<Rightarrow> ('s, 't) pubsub_node \<Rightarrow> (('s, 't) pubsub_node, unit) eff" where
  "pubsub_step B (Publish_op topic data) n = Node_Publish B topic data n"
| "pubsub_step B (Wait_op topic data timeout) n = PublishWithPeerWait B id topic data timeout n"
| "pubsub_step B (Subscribe_op topic) n = Node_Subscribe B topic n"

text \<open>What an operation may fail with: nothing but the failure of publishing or subscribing itself.\<close>

fun own_failure :: "pubsub_op \<Rightarrow> unit res \<Rightarrow> bool" where
  "own_failure (Subscribe_op topic) r = (\<forall>e. r = Inl e \<longrightarrow> (\<exists>e'. e = Wrap ''failed to subscribe'' e'))"
| "own_failure _ r = (\<forall>e. r = Inl e \<longrightarrow> (\<exists>e'. e = Wrap ''failed to publish'' e'))"

lemma pubsub_step_joins:
  fixes B :: "('s, 't) pubsub"
  assumes B: "join_once B joined" and n: "topics_cached joined n" "po_isStarted n" "po_pubsub n = Some s"
  shows "topics_cached joined (fst (pubsub_step B x n)) \<and> own_failure x (snd (pubsub_step B x n)) \<and> po_isStarted (fst (pubsub_step B x n))
    \<and> po_pubsub (fst (pubsub_step B x n)) \<noteq> None"
proof -
  have keep: "joined (fst (case pb_Publish B t d s of (s1, r) \<Rightarrow> (s1, wrapped m r))) = joined s" "joined (fst (case pb_Subscribe B t s of (s1, r) \<Rightarrow> (s1, wrapped m r))) = joined s" for t d s m
    using B by (auto simp: join_once_def split: prod.splits) (metis fst_conv)+
  have w: "snd (case q of (s1, r) \<Rightarrow> (s1, wrapped m r)) = Inl e \<Longrightarrow> \<exists>e'. e = Wrap m e'" for m e and q :: "('s, unit) eff"
    by (auto simp: wrapped_def split: sum.splits prod.splits)
  have "own_failure (Publish_op topic d) (snd (Node_Publish B topic d n)) \<and> own_failure (Wait_op topic d 0) (snd (Node_Publish B topic d n))
      \<and> topics_cached joined (fst (Node_Publish B topic d n)) \<and> po_isStarted (fst (Node_Publish B topic d n)) \<and> po_pubsub (fst (Node_Publish B topic d n)) \<noteq> None" for topic d
    using with_topic_joins[OF B n, of "\<lambda>t s. case pb_Publish B t d s of (s1, r) \<Rightarrow> (s1, wrapped ''failed to publish'' r)" topic, OF keep(1)] w
    unfolding Node_Publish_def own_failure.simps by metis
  moreover have "own_failure (Subscribe_op topic) (snd (Node_Subscribe B topic n))
      \<and> topics_cached joined (fst (Node_Subscribe B topic n)) \<and> po_isStarted (fst (Node_Subscribe B topic n)) \<and> po_pubsub (fst (Node_Subscribe B topic n)) \<noteq> None" for topic
    using with_topic_joins[OF B n, of "\<lambda>t s. case pb_Subscribe B t s of (s1, r) \<Rightarrow> (s1, wrapped ''failed to subscribe'' r)" topic, OF keep(2)] w
    unfolding Node_Subscribe_def own_failure.simps by metis
  moreover have "PublishWithPeerWait B id topic d timeout n = Node_Publish B topic d n" for topic d timeout
    using n(2,3) by (cases n) (simp add: PublishWithPeerWait_def)
  ultimately show ?thesis by (cases x) simp_all
qed

text \<open>Topics are joined once: on a started node no sequence of publications and subscriptions ever joins a topic twice, so an operation never fails because its
  topic was joined before; it fails only when publishing or subscribing itself fails.\<close>

theorem topics_joined_once:
  assumes B: "join_once B joined" and n: "topics_cached joined n" "po_isStarted n" "po_pubsub n = Some s"
  shows "own_failure x (snd (pubsub_step B x (fold (\<lambda>y m. fst (pubsub_step B y m)) ys n)))"
  using n
proof (induction ys arbitrary: n s)
  case Nil
  then show ?case using pubsub_step_joins[OF B] by (metis fold_simps(1))
next
  case (Cons y ys)
  then show ?case using pubsub_step_joins[OF B Cons.prems, of y] by auto
qed

end
