(* ===== verification/ChatCommands.thy ===== *)
theory ChatCommands
  imports Peerstore GoText
begin

text \<open>
  The command handler of \<open>pkg/cli\<close>: contacts (\<open>commands_contacts.go\<close>), chat and history (\<open>commands_chat.go\<close>), the dispatch of a line (\<open>commands.go\<close>) and the texts
  it prints (\<open>display.go\<close>). It runs over the messaging service and its store; a call returns the lines it prints. The base58 package, the format of a time and the
  handlers of the commands that only talk to the node, the groups or the reputation tracker are parameters of \<open>cli_env\<close>.
\<close>

section \<open>Texts\<close>

definition char_codes :: "nat list \<Rightarrow> string" where "char_codes ns = map char_of ns"

definition FormatErrorString :: "string \<Rightarrow> string" where
  "FormatErrorString message = (if message = [] then [] else char_codes [0xE2, 0x9D, 0x8C] @ '' Error: '' @ message)"

definition FormatSuccess :: "string \<Rightarrow> string" where "FormatSuccess message = char_codes [0xE2, 0x9C, 0x85] @ '' '' @ message"

definition FormatInfo :: "string \<Rightarrow> string" where "FormatInfo message = char_codes [0xE2, 0x84, 0xB9, 0xEF, 0xB8, 0x8F] @ ''  '' @ message"

definition FormatSystemMessage :: "string \<Rightarrow> string" where "FormatSystemMessage message = char_codes [0xF0, 0x9F, 0x93, 0x8C] @ '' '' @ message"

definition FormatIncomingNotification :: "string \<Rightarrow> string" where
  "FormatIncomingNotification contactName = newline # char_codes [0xF0, 0x9F, 0x93, 0xAC] @ '' New message from '' @ contactName"

definition FormatChatExit :: string where "FormatChatExit = newline # ''Exited chat mode.'' @ [newline]"

definition bar :: "nat \<Rightarrow> string" where "bar n = concat (replicate n (char_codes [0xE2, 0x94, 0x81]))"

definition FormatChatHeader :: "string \<Rightarrow> string \<Rightarrow> string" where
  "FormatChatHeader contactName contactPubKey = newline # bar 3 @ '' Chat with '' @ contactName @ '' '' @ bar 3 @ newline # ''Public key: '' @ contactPubKey @ newline
     # ''Type your message and press Enter to send.'' @ newline # ''Press Enter on an empty line to exit chat.'' @ newline # bar 38 @ [newline]"

definition keyDisplayLen :: nat where "keyDisplayLen = 16"

definition truncated :: "string \<Rightarrow> string" where
  "truncated s = (if keyDisplayLen < length s then take keyDisplayLen s @ ''...'' else s)"

definition FormatPublicKey :: "bytes \<Rightarrow> string" where "FormatPublicKey pubKey = truncated (hex_encode pubKey)"

section \<open>The handler and what it runs on\<close>

record ('d, 'n) cli_env =
  cl_store :: "'d message_store"
  cl_SendMessage :: "string \<Rightarrow> bytes \<Rightarrow> bytes \<Rightarrow> 'd MessagingService \<times> 'n \<Rightarrow> ('d MessagingService \<times> 'n, SendResult) eff"
  cl_GetDecryptedMessagesWithMeta :: "bytes \<Rightarrow> int \<Rightarrow> int \<Rightarrow> 'd MessagingService \<Rightarrow> MessageWithMeta list res"
  cl_base58_Encode :: "bytes \<Rightarrow> string"
  cl_base58_Decode :: "string \<Rightarrow> bytes res"
  cl_time_text :: "u64 \<Rightarrow> string"
  cl_now :: u64

record CommandHandler =
  hd_ed25519PubKey :: bytes
  hd_x25519PubKey :: bytes
  hd_inChatMode :: bool
  hd_chatContactPubKey :: bytes
  hd_chatContactName :: string
  hd_inInteractiveMode :: bool

type_synonym ('d, 'n) cli_state = "CommandHandler \<times> 'd MessagingService \<times> 'n"

definition NewCommandHandler :: "bytes \<Rightarrow> bytes \<Rightarrow> CommandHandler" where
  "NewCommandHandler ed x = \<lparr>hd_ed25519PubKey = ed, hd_x25519PubKey = x, hd_inChatMode = False, hd_chatContactPubKey = [], hd_chatContactName = [], hd_inInteractiveMode = False\<rparr>"

definition FormatPublicKeyBase58 :: "('d, 'n) cli_env \<Rightarrow> bytes \<Rightarrow> string" where
  "FormatPublicKeyBase58 E pubKey = truncated (cl_base58_Encode E pubKey)"

definition FormatContact :: "('d, 'n) cli_env \<Rightarrow> nat \<Rightarrow> Contact \<Rightarrow> string" where
  "FormatContact E index contact = ''['' @ dec_of_nat index @ ''] '' @ (if ct_DisplayName contact = [] then ''(no name)'' else ct_DisplayName contact)
     @ '' - '' @ FormatPublicKeyBase58 E (ct_PublicKey contact)"

definition FormatContactList :: "('d, 'n) cli_env \<Rightarrow> Contact list \<Rightarrow> string" where
  "FormatContactList E contacts =
     (if contacts = [] then ''No contacts found.'' @ newline # ''Use /add <pubkey> [nickname] to add a contact.''
      else newline # ''=== Contacts ==='' @ newline # concat (map (\<lambda>(i, c). FormatContact E (i + 1) c @ [newline]) (enumerate 0 contacts)) @ ''================'' @ [newline])"

definition FormatMessage :: "('d, 'n) cli_env \<Rightarrow> Message \<Rightarrow> string \<Rightarrow> bool \<Rightarrow> string" where
  "FormatMessage E msg senderName isOutgoing = ''['' @ cl_time_text E (mg_Timestamp msg) @ ''] ''
     @ (if isOutgoing then ''You'' else if senderName = [] then ''Unknown'' else senderName) @ '': '' @ mg_Text msg"

section \<open>Contacts\<close>

definition decodePublicKey :: "('d, 'n) cli_env \<Rightarrow> string \<Rightarrow> bytes res" where
  "decodePublicKey E s = (case cl_base58_Decode E s of Inr k \<Rightarrow> Inr k | Inl _ \<Rightarrow> hex_decode s)"

definition key_of_arg :: "('d, 'n) cli_env \<Rightarrow> string \<Rightarrow> bytes option" where
  "key_of_arg E s = (case hex_decode s of
      Inr k \<Rightarrow> if length k = 32 then Some k else (case cl_base58_Decode E s of Inr k' \<Rightarrow> if length k' = 32 then Some k' else None | Inl _ \<Rightarrow> None)
    | Inl _ \<Rightarrow> (case cl_base58_Decode E s of Inr k' \<Rightarrow> if length k' = 32 then Some k' else None | Inl _ \<Rightarrow> None))"

definition parseContactArgs :: "('d, 'n) cli_env \<Rightarrow> string list \<Rightarrow> string \<times> bytes" where
  "parseContactArgs E args =
     (if length args < 2 then ([], [])
      else case key_of_arg E (last args) of
        Some key \<Rightarrow> (if 2 < length args then join_with '' '' (tl (butlast args)) else [], key)
      | None \<Rightarrow> (join_with '' '' (tl args), []))"

definition handleAdd :: "('d, 'n) cli_env \<Rightarrow> string list \<Rightarrow> ('d, 'n) cli_state \<Rightarrow> ('d, 'n) cli_state \<times> string list" where
  "handleAdd E args st =
     (case st of (h, s, n) \<Rightarrow>
        if args = [] then (st, [FormatErrorString ''Usage: /add <pubkey> [nickname]'', FormatInfo ''Public key can be in hex or base58 format.'',
          FormatInfo ''To enable encryption, also share your X25519 key:'', FormatInfo ''  /add <ed25519_pubkey> <nickname> <x25519_pubkey>''])
        else case decodePublicKey E (hd args) of
          Inl _ \<Rightarrow> (st, [FormatErrorString ''Invalid public key format. Use hex or base58.''])
        | Inr pubKey \<Rightarrow>
            if length pubKey \<noteq> PublicKeySize then
              (st, [FormatErrorString (''Invalid public key length: expected '' @ dec_of_nat PublicKeySize @ '' bytes, got '' @ dec_of_nat (length pubKey))])
            else (case st_GetContact (cl_store E) pubKey (sv_storage s) of
                Inl e \<Rightarrow> (st, [FormatErrorString (''Error checking contacts: '' @ err_text e)])
              | Inr (Some existing) \<Rightarrow> (st, [FormatInfo ''Contact already exists.'', FormatContact E 0 existing])
              | Inr None \<Rightarrow>
                  let (displayName, x25519PubKey) = parseContactArgs E args;
                      contact = \<lparr>ct_PublicKey = pubKey, ct_DisplayName = displayName, ct_CreatedAt = cl_now E, ct_X25519PublicKey = x25519PubKey, ct_PeerId = [],
                        ct_Multiaddrs = [], ct_LastSeen = 0\<rparr>;
                      name = (if displayName = [] then FormatPublicKeyBase58 E pubKey else displayName)
                  in (case st_AddContact (cl_store E) contact (sv_storage s) of
                      (d, Inl e) \<Rightarrow> ((h, s\<lparr>sv_storage := d\<rparr>, n), [FormatErrorString (''Failed to add contact: '' @ err_text e)])
                    | (d, Inr _) \<Rightarrow> ((h, s\<lparr>sv_storage := d\<rparr>, n),
                        if x25519PubKey \<noteq> [] then [FormatSuccess (''Contact added: '' @ name @ '' (with encryption)'')]
                        else [FormatSuccess (''Contact added: '' @ name), FormatInfo ''Note: No X25519 key provided. Message encryption will not work.'',
                          FormatInfo ''Ask contact to share their X25519 public key.'']))))"

definition handleList :: "('d, 'n) cli_env \<Rightarrow> ('d, 'n) cli_state \<Rightarrow> string list" where
  "handleList E st = (case st of (h, s, n) \<Rightarrow> (case st_ListContacts (cl_store E) (sv_storage s) of
     Inl e \<Rightarrow> [FormatErrorString (''Failed to list contacts: '' @ err_text e)]
   | Inr contacts \<Rightarrow> [FormatContactList E contacts]))"

text \<open>\<open>strconv.Atoi\<close>: a sign or none, digits and nothing else, and a number of 64 bits.\<close>

definition Atoi :: "string \<Rightarrow> int option" where
  "Atoi s = (let ds = (if s \<noteq> [] \<and> hd s \<in> {CHR ''-'', CHR ''+''} then tl s else s);
       v = (if s \<noteq> [] \<and> hd s = CHR ''-'' then - int (dec_val ds) else int (dec_val ds))
     in if ds = [] \<or> \<not> list_all is_digit ds then None else if - (2 ^ 63) \<le> v \<and> v < 2 ^ 63 then Some v else None)"

definition findContact :: "('d, 'n) cli_env \<Rightarrow> string \<Rightarrow> 'd MessagingService \<Rightarrow> Contact res" where
  "findContact E contactArg s =
     (case Atoi contactArg of
        Some idx \<Rightarrow> (case st_ListContacts (cl_store E) (sv_storage s) of
            Inl e \<Rightarrow> Inl (Wrap ''failed to list contacts'' e)
          | Inr contacts \<Rightarrow>
              if idx < 1 \<or> int (length contacts) < idx then Inl (Err (''invalid contact index: '' @ dec_of_int idx @ ''. Use /list to see contacts''))
              else Inr (contacts ! nat (idx - 1)))
      | None \<Rightarrow> (case decodePublicKey E contactArg of
            Inl _ \<Rightarrow> Inl (Err ''invalid contact identifier. Use index or valid public key'')
          | Inr pubKey \<Rightarrow> (case st_GetContact (cl_store E) pubKey (sv_storage s) of
              Inl e \<Rightarrow> Inl (Wrap ''failed to find contact'' e)
            | Inr None \<Rightarrow> Inl (Err ''contact not found. Use /add to add them first'')
            | Inr (Some contact) \<Rightarrow> Inr contact)))"

section \<open>Chat and history\<close>

definition show_messages :: "('d, 'n) cli_env \<Rightarrow> string \<Rightarrow> MessageWithMeta list \<Rightarrow> string list" where
  "show_messages E contactName messages = map (\<lambda>m. FormatMessage E (mm_Message m) contactName (mm_IsOutgoing m)) messages"

definition loadAndDisplayHistory :: "('d, 'n) cli_env \<Rightarrow> bytes \<Rightarrow> nat \<Rightarrow> ('d, 'n) cli_state \<Rightarrow> string list" where
  "loadAndDisplayHistory E contactPubKey limit st =
     (case st of (h, s, n) \<Rightarrow> (case cl_GetDecryptedMessagesWithMeta E contactPubKey (int limit) 0 s of
        Inl _ \<Rightarrow> []
      | Inr messages \<Rightarrow>
          if messages = [] then [FormatSystemMessage ''No previous messages'']
          else let contactName = (case st_GetContact (cl_store E) contactPubKey (sv_storage s) of
                     Inr (Some c) \<Rightarrow> if ct_DisplayName c \<noteq> [] then ct_DisplayName c else hd_chatContactName h | _ \<Rightarrow> hd_chatContactName h)
               in FormatSystemMessage (''Loading '' @ dec_of_nat (length messages) @ '' previous messages...'') # show_messages E contactName messages
                  @ (if length messages = limit then [FormatSystemMessage (''Showing last '' @ dec_of_nat limit @ '' messages'')] else [])))"

definition handleChat :: "('d, 'n) cli_env \<Rightarrow> string list \<Rightarrow> ('d, 'n) cli_state \<Rightarrow> ('d, 'n) cli_state \<times> string list" where
  "handleChat E args st =
     (case st of (h, s, n) \<Rightarrow>
        if args = [] then (st, [FormatErrorString ''Usage: /chat <contact>'', FormatInfo ''Contact can be specified by index (from /list) or public key.''])
        else case findContact E (hd args) s of
          Inl e \<Rightarrow> (st, [FormatErrorString (err_text e)])
        | Inr contact \<Rightarrow>
            let name = (if ct_DisplayName contact = [] then FormatPublicKeyBase58 E (ct_PublicKey contact) else ct_DisplayName contact);
                st1 = (h\<lparr>hd_inChatMode := True, hd_chatContactPubKey := ct_PublicKey contact, hd_chatContactName := name\<rparr>, s, n)
            in (st1, FormatChatHeader name (FormatPublicKeyBase58 E (ct_PublicKey contact)) # loadAndDisplayHistory E (ct_PublicKey contact) 20 st1))"

definition CLI_sendMessage :: "('d, 'n) cli_env \<Rightarrow> string \<Rightarrow> ('d, 'n) cli_state \<Rightarrow> ('d, 'n) cli_state \<times> string list res" where
  "CLI_sendMessage E body st =
     (case st of (h, s, n) \<Rightarrow>
        if hd_chatContactPubKey h = [] then (st, Inl (Err ''no active chat''))
        else case st_GetContact (cl_store E) (hd_chatContactPubKey h) (sv_storage s) of
          Inl e \<Rightarrow> (st, Inl (Wrap ''failed to get contact'' e))
        | Inr None \<Rightarrow> (st, Inl (Err ''contact not found''))
        | Inr (Some contact) \<Rightarrow>
            if length (ct_X25519PublicKey contact) \<noteq> 32 then
              (st, Inl (Err ''recipient X25519 key not available - ask contact to share their X25519 public key''))
            else (case cl_SendMessage E body (hd_chatContactPubKey h) (ct_X25519PublicKey contact) (s, n) of
                (sn, Inl e) \<Rightarrow> ((h, sn), Inl (Wrap ''failed to send message'' e))
              | (sn, Inr _) \<Rightarrow> ((h, sn), Inr [FormatMessage E \<lparr>mg_Text = body, mg_Timestamp = cl_now E\<rparr> (hd_chatContactName h) True])))"

definition handleChatInput :: "('d, 'n) cli_env \<Rightarrow> string \<Rightarrow> ('d, 'n) cli_state \<Rightarrow> ('d, 'n) cli_state \<times> string list" where
  "handleChatInput E input st =
     (case st of (h, s, n) \<Rightarrow>
        if TrimSpace input = [] then ((h\<lparr>hd_inChatMode := False, hd_chatContactPubKey := [], hd_chatContactName := []\<rparr>, s, n), [FormatChatExit])
        else case CLI_sendMessage E input st of
          (st1, Inl e) \<Rightarrow> (st1, [FormatErrorString (''Failed to send message: '' @ err_text e)])
        | (st1, Inr out) \<Rightarrow> (st1, out))"

definition handleHistory :: "('d, 'n) cli_env \<Rightarrow> string list \<Rightarrow> ('d, 'n) cli_state \<Rightarrow> string list" where
  "handleHistory E args st =
     (case st of (h, s, n) \<Rightarrow>
        if args = [] then [FormatErrorString ''Usage: /history <contact> [limit]'', FormatInfo ''Contact can be specified by index or public key.'']
        else let limit = (if 1 < length args then (case Atoi (args ! 1) of Some l \<Rightarrow> if 0 < l then l else 10 | None \<Rightarrow> 10) else 10)
          in case findContact E (hd args) s of
            Inl e \<Rightarrow> [FormatErrorString (err_text e)]
          | Inr contact \<Rightarrow> (case cl_GetDecryptedMessagesWithMeta E (ct_PublicKey contact) limit 0 s of
              Inl e \<Rightarrow> [FormatErrorString (''Failed to get messages: '' @ err_text e)]
            | Inr messages \<Rightarrow>
                if messages = [] then [FormatInfo (''No messages with '' @ ct_DisplayName contact @ ''.'')]
                else (newline # ''=== History with '' @ ct_DisplayName contact @ '' ==='' @ [newline])
                  # show_messages E (if ct_DisplayName contact = [] then FormatPublicKeyBase58 E (ct_PublicKey contact) else ct_DisplayName contact) messages
                  @ [''=========================='' @ [newline]]))"

section \<open>Lines\<close>

text \<open>\<open>strings.Fields\<close>: the pieces between white space.\<close>

definition starts_space :: "string \<Rightarrow> bool" where
  "starts_space s = list_ex (\<lambda>p. take (length p) s = p) space_codes"

fun word_end :: "string \<Rightarrow> nat" where
  "word_end [] = 0"
| "word_end (c # s) = (if starts_space (c # s) then 0 else Suc (word_end s))"

lemma skip_codes_length: "length (skip_codes ps s) \<le> length s"
proof (induction ps s rule: skip_codes.induct)
  case (1 ps s)
  show ?case
  proof (cases "find (\<lambda>p. p \<noteq> [] \<and> take (length p) s = p) ps")
    case None
    then show ?thesis by (subst skip_codes.simps) simp
  next
    case (Some p)
    then have "length (skip_codes ps (drop (length p) s)) \<le> length (drop (length p) s)" by (rule 1)
    moreover have "skip_codes ps s = skip_codes ps (drop (length p) s)" by (subst skip_codes.simps) (simp only: Some option.case)
    ultimately show ?thesis by (simp only: length_drop)
  qed
qed

function Fields :: "string \<Rightarrow> string list" where
  "Fields s = (let r = skip_codes space_codes s in if word_end r = 0 then [] else take (word_end r) r # Fields (drop (word_end r) r))"
  by pat_completeness auto

termination
proof (relation "measure length")
  fix s r assume "r = skip_codes space_codes s" "word_end r \<noteq> 0"
  then have "length r \<le> length s" "r \<noteq> []" "0 < word_end r" using skip_codes_length[of space_codes s] by auto
  then have "length (drop (word_end r) r) < length s" by (simp only: length_drop length_greater_0_conv[symmetric])
  then show "(drop (word_end r) r, s) \<in> measure length" by simp
qed simp

declare Fields.simps [simp del]

text \<open>Lower case, with the two runes outside ASCII whose lower case is an ASCII letter.\<close>

fun lower_text :: "string \<Rightarrow> string" where
  "lower_text [] = []"
| "lower_text (a # s) =
     (case s of
        b # c # s' \<Rightarrow> if a = CHR 0xE2 \<and> b = CHR 0x84 \<and> c = CHR 0xAA then CHR ''k'' # lower_text s'
                      else if a = CHR 0xC4 \<and> b = CHR 0xB0 then CHR ''i'' # lower_text (c # s') else lower_char a # lower_text s
      | [b] \<Rightarrow> if a = CHR 0xC4 \<and> b = CHR 0xB0 then [CHR ''i''] else lower_char a # lower_text s
      | [] \<Rightarrow> [lower_char a])"


text \<open>The commands whose handlers are a parameter.\<close>

definition other_commands :: "string list" where
  "other_commands = [''/help'', ''/myid'', ''/connect'', ''/find'', ''/advertise'', ''/bootstrap'', ''/bs'', ''/reconnect'', ''/retry'', ''/debug'', ''/netdebug'', ''/ipfslogs'', ''/ipfs'',
     ''/netstatus'', ''/netlog'', ''/netinfo'', ''/peers'', ''/myaddr'', ''/dht'', ''/dhtinfo'', ''/waitdht'', ''/mdns'', ''/network'', ''/netmetrics'', ''/contactstatus'', ''/contacts'',
     ''/creategroup'', ''/listgroups'', ''/invite'', ''/groupchat'', ''/reputation'', ''/rep'']"

type_synonym ('d, 'n) other_handler = "string \<Rightarrow> string list \<Rightarrow> ('d, 'n) cli_state \<Rightarrow> ('d, 'n) cli_state \<times> string list"

definition HandleCommand :: "('d, 'n) cli_env \<Rightarrow> ('d, 'n) other_handler \<Rightarrow> string \<Rightarrow> ('d, 'n) cli_state \<Rightarrow> ('d, 'n) cli_state \<times> string list \<times> bool" where
  "HandleCommand E other line st =
     (case st of (h, s, n) \<Rightarrow>
        let input = TrimSpace line; go = (\<lambda>(st1, out). (st1, out, False)) in
        if hd_inInteractiveMode h then
          (if TrimSpace input = [] then ((h\<lparr>hd_inInteractiveMode := False\<rparr>, s, n), [newline # ''Exited interactive mode.''], False) else (st, [], False))
        else if hd_inChatMode h then go (handleChatInput E input st)
        else if input = [] then (st, [], False)
        else if \<not> HasPrefix input ''/'' then (st, [FormatInfo ''Not a command. Type /help for available commands.''], False)
        else case Fields input of
          [] \<Rightarrow> (st, [], False)
        | w # args \<Rightarrow>
            let cmd = lower_text w in
            if cmd = ''/add'' then go (handleAdd E args st)
            else if cmd = ''/list'' then (st, handleList E st, False)
            else if cmd = ''/chat'' then go (handleChat E args st)
            else if cmd = ''/history'' then (st, handleHistory E args st, False)
            else if cmd = ''/exit'' then (st, [], True)
            else if cmd \<in> set other_commands then go (other cmd args st)
            else (st, [FormatErrorString (''Unknown command: '' @ cmd @ ''. Type /help for help.'')], False))"

text \<open>\<open>cli.go\<close>: what is printed for an incoming message.\<close>

definition handleIncomingMessage :: "('d, 'n) cli_env \<Rightarrow> MessageEvent \<Rightarrow> ('d, 'n) cli_state \<Rightarrow> string list" where
  "handleIncomingMessage E event st =
     (case st of (h, s, n) \<Rightarrow>
        let stored = (case st_GetContact (cl_store E) (me_ContactPubKey event) (sv_storage s) of Inr (Some c) \<Rightarrow> ct_DisplayName c | _ \<Rightarrow> []);
            name = (if stored = [] then FormatPublicKeyBase58 E (me_ContactPubKey event) else stored);
            inChat = (hd_inChatMode h \<and> hd_chatContactPubKey h = me_ContactPubKey event)
        in (if inChat then [] else [FormatIncomingNotification name]) @ [FormatMessage E (me_Message event) name False]
           @ (if inChat then [] else [FormatInfo ''Type /chat to reply.'']))"

section \<open>Lines and their words\<close>

definition is_word :: "string \<Rightarrow> bool" where "is_word w \<longleftrightarrow> w \<noteq> [] \<and> list_all plain w"

lemma is_word_hd: "is_word w \<Longrightarrow> plain (hd w) \<and> plain (last w) \<and> w \<noteq> []"
  by (auto simp: is_word_def list_all_iff)

lemma not_starts_space:
  assumes "plain c"
  shows "\<not> starts_space (c # s)"
proof
  assume "starts_space (c # s)"
  then obtain p where p: "p \<in> set space_codes" "take (length p) (c # s) = p" by (auto simp: starts_space_def list_ex_iff)
  have "p \<noteq> []" "\<not> plain (hd p)" using space_ends[OF p(1)] by auto
  moreover have "hd p = c" if "p \<noteq> []" using p(2) that by (metis length_greater_0_conv hd_take list.sel(1))
  ultimately show False using assms by simp
qed

lemma starts_space_space: "starts_space (CHR '' '' # r)"
  by (simp add: starts_space_def space_codes_def space_code)

lemma word_end_word: "list_all plain w \<Longrightarrow> r = [] \<or> starts_space r \<Longrightarrow> word_end (w @ r) = length w"
proof (induction w)
  case Nil
  then show ?case by (cases r) auto
qed (simp add: not_starts_space)

lemma Fields_Nil [simp]: "Fields [] = []"
  by (subst Fields.simps) (simp add: skip_plain)

lemma Fields_word:
  assumes "is_word w" "r = [] \<or> starts_space r"
  shows "Fields (w @ r) = w # Fields r"
proof -
  have "skip_codes space_codes (w @ r) = w @ r" using is_word_hd[OF assms(1)] by (intro skip_plain(1)) simp
  then show ?thesis using word_end_word[of w r] assms by (subst Fields.simps) (simp add: is_word_def)
qed

lemma Fields_space: "r = [] \<or> plain (hd r) \<Longrightarrow> Fields (CHR '' '' # r) = Fields r"
  by (subst Fields.simps, subst (2) Fields.simps) (simp add: skip_space(1) skip_plain(1))

lemma Fields_words:
  assumes "list_all is_word ws"
  shows "Fields (join_with '' '' ws) = ws"
  using assms
proof (induction "'' ''" ws rule: join_with.induct)
  case (2 x)
  then show ?case using Fields_word[of x "[]"] by simp
next
  case (3 x y ys)
  have "join_with '' '' (y # ys) \<noteq> [] \<and> plain (hd (join_with '' '' (y # ys)))" using 3 is_word_hd[of y] by (cases ys) auto
  then show ?case using 3 Fields_word[of x "'' '' @ join_with '' '' (y # ys)"] Fields_space[of "join_with '' '' (y # ys)"] by (simp add: starts_space_space)
qed simp

lemma join_ends: "list_all is_word ws \<Longrightarrow> ws \<noteq> [] \<Longrightarrow> join_with '' '' ws \<noteq> [] \<and> plain (hd (join_with '' '' ws)) \<and> plain (last (join_with '' '' ws)) \<and> hd (join_with '' '' ws) = hd (hd ws)"
  by (induction "'' ''" ws rule: join_with.induct) (auto dest: is_word_hd)

lemma Trim_words: "list_all is_word ws \<Longrightarrow> ws \<noteq> [] \<Longrightarrow> TrimSpace (join_with '' '' ws) = join_with '' '' ws"
  using join_ends[of ws] by (intro TrimSpace_plain) auto

text \<open>A line made of words, outside the modes, is split into these words.\<close>

lemma HandleCommand_words:
  assumes "list_all is_word (w # args)" "hd w = CHR ''/''" "\<not> hd_inInteractiveMode h" "\<not> hd_inChatMode h"
  shows "lower_text w = ''/add'' \<Longrightarrow> HandleCommand E other (join_with '' '' (w # args)) (h, s, n) = (\<lambda>(st, out). (st, out, False)) (handleAdd E args (h, s, n))"
    and "lower_text w = ''/chat'' \<Longrightarrow> HandleCommand E other (join_with '' '' (w # args)) (h, s, n) = (\<lambda>(st, out). (st, out, False)) (handleChat E args (h, s, n))"
proof -
  let ?l = "join_with '' '' (w # args)"
  have l: "TrimSpace ?l = ?l" "Fields ?l = w # args" "?l \<noteq> []" "hd ?l = CHR ''/''" using Trim_words[OF assms(1)] Fields_words[OF assms(1)] join_ends[OF assms(1)] assms(2) by simp_all
  then have "HasPrefix ?l ''/''" by (cases ?l) (auto simp: HasPrefix_def)
  then show "lower_text w = ''/add'' \<Longrightarrow> HandleCommand E other ?l (h, s, n) = (\<lambda>(st, out). (st, out, False)) (handleAdd E args (h, s, n))"
    "lower_text w = ''/chat'' \<Longrightarrow> HandleCommand E other ?l (h, s, n) = (\<lambda>(st, out). (st, out, False)) (handleChat E args (h, s, n))"
    using l assms(3,4) by (simp_all add: HandleCommand_def Let_def)
qed

section \<open>From a contact to a message\<close>

text \<open>What is printed for the outcome of sending.\<close>

definition sent :: "('d, 'n) cli_env \<Rightarrow> string \<Rightarrow> CommandHandler \<Rightarrow> ('d MessagingService \<times> 'n, SendResult) eff \<Rightarrow> ('d, 'n) cli_state \<times> string list \<times> bool" where
  "sent E body h r = (case r of
     (sn, Inl e) \<Rightarrow> ((h, sn), [FormatErrorString (''Failed to send message: failed to send message: '' @ err_text e)], False)
   | (sn, Inr _) \<Rightarrow> ((h, sn), [FormatMessage E \<lparr>mg_Text = body, mg_Timestamp = cl_now E\<rparr> (hd_chatContactName h) True], False))"

definition added_contact :: "('d, 'n) cli_env \<Rightarrow> bytes \<Rightarrow> string \<Rightarrow> bytes \<Rightarrow> Contact" where
  "added_contact E k nick x = \<lparr>ct_PublicKey = k, ct_DisplayName = nick, ct_CreatedAt = cl_now E, ct_X25519PublicKey = x, ct_PeerId = [], ct_Multiaddrs = [], ct_LastSeen = 0\<rparr>"

definition chatting :: "bytes \<Rightarrow> string \<Rightarrow> CommandHandler \<Rightarrow> CommandHandler" where
  "chatting k nick h = h\<lparr>hd_inChatMode := True, hd_chatContactPubKey := k, hd_chatContactName := nick\<rparr>"

lemma chat_sends:
  assumes "hd_inChatMode h" "\<not> hd_inInteractiveMode h" "hd_chatContactPubKey h \<noteq> []" "TrimSpace body = body" "body \<noteq> []"
    and "st_GetContact (cl_store E) (hd_chatContactPubKey h) (sv_storage s) = Inr (Some c)" "length (ct_X25519PublicKey c) = 32"
  shows "HandleCommand E other body (h, s, n) = sent E body h (cl_SendMessage E body (hd_chatContactPubKey h) (ct_X25519PublicKey c) (s, n))"
  using assms by (auto simp: HandleCommand_def handleChatInput_def CLI_sendMessage_def sent_def Let_def split: prod.splits sum.splits)

context contact_store
begin

lemma added_contact_gets_messages:
  assumes E: "cl_store E = S" and d: "ok (sv_storage s)" and h: "\<not> hd_inInteractiveMode h" "\<not> hd_inChatMode h"
    and key: "is_word kt" "cl_base58_Decode E kt = Inr k" "length k = 32" "Atoi kt = None" "st_GetContact S k (sv_storage s) = Inr None"
    and nick: "is_word nick" and x: "length x = 32" and body: "TrimSpace body = body" "body \<noteq> []"
  shows "\<exists>s1 out. HandleCommand E other (join_with '' '' [''/add'', kt, nick, hex_encode x]) (h, s, n) = ((h, s1, n), [FormatSuccess (''Contact added: '' @ nick @ '' (with encryption)'')], False)
    \<and> ok (sv_storage s1) \<and> st_GetContact S k (sv_storage s1) = Inr (Some (added_contact E k nick x))
    \<and> HandleCommand E other (join_with '' '' [''/chat'', kt]) (h, s1, n) = ((chatting k nick h, s1, n), out, False)
    \<and> HandleCommand E other body (chatting k nick h, s1, n) = sent E body (chatting k nick h) (cl_SendMessage E body k x (s1, n))"
proof -
  obtain d' where add: "st_AddContact S (added_contact E k nick x) (sv_storage s) = (d', Inr ())" "ok d'"
    "st_GetContact S k d' = Inr (Some (added_contact E k nick x))"
    using add_get[OF d, of "added_contact E k nick x"] by (auto simp: added_contact_def)
  define s1 where "s1 = s\<lparr>sv_storage := d'\<rparr>"
  have hx: "is_word (hex_encode x)" using hex_encode_plain[of x] x by (cases x) (simp_all add: is_word_def hex_encode_Cons)
  have nonempty: "x \<noteq> []" "nick \<noteq> []" "k \<noteq> []" using x nick key(3) by (auto simp: is_word_def)
  have cmds: "is_word ''/add''" "is_word ''/chat''" "lower_text ''/add'' = ''/add''" "lower_text ''/chat'' = ''/chat''"
    by (simp_all add: is_word_def plain_def lower_char_def)
  have "handleAdd E [kt, nick, hex_encode x] (h, s, n) = ((h, s1, n), [FormatSuccess (''Contact added: '' @ nick @ '' (with encryption)'')])"
    using key x nonempty add(1) E by (simp add: handleAdd_def decodePublicKey_def crypto_sizes parseContactArgs_def key_of_arg_def added_contact_def s1_def)
  then have 1: "HandleCommand E other (join_with '' '' [''/add'', kt, nick, hex_encode x]) (h, s, n) = ((h, s1, n), [FormatSuccess (''Contact added: '' @ nick @ '' (with encryption)'')], False)"
    using HandleCommand_words(1)[of "''/add''" "[kt, nick, hex_encode x]" h E other s n] cmds key(1) nick hx h by simp
  have "\<exists>out. handleChat E [kt] (h, s1, n) = ((chatting k nick h, s1, n), out)"
    using key(2,4) add(3) E nonempty by (simp add: handleChat_def findContact_def decodePublicKey_def s1_def chatting_def added_contact_def Let_def)
  then obtain out where "handleChat E [kt] (h, s1, n) = ((chatting k nick h, s1, n), out)" by blast
  then have 2: "HandleCommand E other (join_with '' '' [''/chat'', kt]) (h, s1, n) = ((chatting k nick h, s1, n), out, False)"
    using HandleCommand_words(2)[of "''/chat''" "[kt]" h E other s1 n] cmds key(1) h by simp
  have "HandleCommand E other body (chatting k nick h, s1, n) = sent E body (chatting k nick h) (cl_SendMessage E body k x (s1, n))"
    using chat_sends[of "chatting k nick h" body E s1 "added_contact E k nick x"] h body add(3) nonempty E x by (simp add: chatting_def s1_def added_contact_def)
  then show ?thesis using 1 2 add by (auto simp: s1_def)
qed

end

text \<open>The handler on the messaging service over the Badger store.\<close>

definition messaging_env :: "prims \<Rightarrow> codecs \<Rightarrow> Message codec \<Rightarrow> 'd badger \<Rightarrow> 'n ipfs_node \<Rightarrow> (nat \<Rightarrow> time) \<Rightarrow> bytes res \<Rightarrow> bytes res \<Rightarrow> bytes res \<Rightarrow> (bytes \<Rightarrow> string) \<Rightarrow>
    (string \<Rightarrow> bytes res) \<Rightarrow> (u64 \<Rightarrow> string) \<Rightarrow> u64 \<Rightarrow> ('d, 'n) cli_env" where
  "messaging_env P C KM B N c rndKey rndNonce rndStore enc58 dec58 timeText now =
     \<lparr>cl_store = badger_store B C, cl_SendMessage = SendMessage P C KM (badger_store B C) N c rndKey rndNonce rndStore,
      cl_GetDecryptedMessagesWithMeta = GetDecryptedMessagesWithMeta P C KM (badger_store B C), cl_base58_Encode = enc58, cl_base58_Decode = dec58, cl_time_text = timeText, cl_now = now\<rparr>"

text \<open>C9.From a key to a message: on a handler outside its modes, adding a new contact by its base58 key with a name and an encryption key prints success and stores the
  contact, \<open>/chat\<close> with that key enters the chat, and the next line that is not blank is handed to the messaging service for exactly this identity and this encryption
  key; what is printed is the message, or the error of sending.\<close>

theorem contact_to_message:
  assumes B: "kv_ok B view" "codecs_ok C" "contacts_keyed B C (sv_storage s)" and h: "\<not> hd_inInteractiveMode h" "\<not> hd_inChatMode h"
    and key: "is_word kt" "dec58 kt = Inr k" "length k = 32" "Atoi kt = None" "Badger_GetContact B C k (sv_storage s) = Inr None"
    and words: "is_word nick" "length x = 32" "TrimSpace body = body" "body \<noteq> []"
    and E: "E = messaging_env P C KM B N c rndKey rndNonce rndStore enc58 dec58 timeText now"
  shows "\<exists>s1 out. HandleCommand E other (join_with '' '' [''/add'', kt, nick, hex_encode x]) (h, s, n) = ((h, s1, n), [FormatSuccess (''Contact added: '' @ nick @ '' (with encryption)'')], False)
    \<and> Badger_GetContact B C k (sv_storage s1) = Inr (Some (added_contact E k nick x))
    \<and> HandleCommand E other (join_with '' '' [''/chat'', kt]) (h, s1, n) = ((chatting k nick h, s1, n), out, False)
    \<and> HandleCommand E other body (chatting k nick h, s1, n) = sent E body (chatting k nick h) (SendMessage P C KM (badger_store B C) N c rndKey rndNonce rndStore body k x (s1, n))"
proof -
  have e: "cl_store E = badger_store B C" "cl_base58_Decode E = dec58" "cl_SendMessage E = SendMessage P C KM (badger_store B C) N c rndKey rndNonce rndStore"
    by (simp_all add: E messaging_env_def)
  have get: "st_GetContact (badger_store B C) = Badger_GetContact B C" by (simp add: badger_store_def)
  show ?thesis
    using badger_contacts.added_contact_gets_messages[OF e(1), where view = view and s = s and h = h and kt = kt and k = k and nick = nick and x = x and body = body and other = other and n = n]
      B h key words by (simp add: e get) blast
qed

definition example_cli :: "((bytes, bytes) gomap, (bytes \<times> bytes) list) cli_env" where
  "example_cli = messaging_env toy ref_codecs (codec_of ser_Message) alist_db open_network (\<lambda>_. 0) (Inr (replicate 32 1)) (Inr (replicate 24 2)) (Inr (replicate 24 3)) hex_encode
     (\<lambda>t. if t = ''K'' then Inr (replicate 32 7) else Inl (Err ''invalid base58 digit'')) (\<lambda>t. dec_of_nat (unat t)) 9"

theorem contact_to_message_witness:
  "\<exists>s1 out. HandleCommand example_cli (\<lambda>_ _ st. (st, [])) (join_with '' '' [''/chat'', ''K'']) (NewCommandHandler [1] [2], s1, []) = ((chatting (replicate 32 7) ''bob'' (NewCommandHandler [1] [2]), s1, []), out, False)
    \<and> Badger_GetContact alist_db ref_codecs (replicate 32 7) (sv_storage s1) = Inr (Some (added_contact example_cli (replicate 32 7) ''bob'' (replicate 32 8)))"
proof -
  let ?s = "started_service alice_keys ([] :: (bytes, bytes) gomap)"
  have s: "contacts_keyed alist_db ref_codecs (sv_storage ?s)" "Badger_GetContact alist_db ref_codecs (replicate 32 7) (sv_storage ?s) = Inr None"
    by (simp_all add: contacts_keyed_def started_service_def NewMessagingService_def Badger_GetContact_def load_msg_kv[OF alist_db_ok])
  have w: "is_word ''K''" "Atoi ''K'' = None" "is_word ''bob''" "TrimSpace ''hi'' = ''hi''"
    by (simp_all add: is_word_def plain_def Atoi_def is_digit_def TrimSpace_plain)
  show ?thesis
    using contact_to_message[OF alist_db_ok ref_codecs_ok s(1) _ _ w(1) _ _ w(2) s(2) w(3) _ w(4) _ example_cli_def, of "NewCommandHandler [1] [2]" "replicate 32 8" "\<lambda>_ _ st. (st, [])" "[]"]
    by (auto simp: NewCommandHandler_def)
qed

section \<open>Keys in hexadecimal\<close>

definition base58_alphabet :: string where
  "base58_alphabet = ''123456789ABCDEFGHJKLMNPQRSTUVWXYZabcdefghijkmnopqrstuvwxyz''"

text \<open>What is known of the base58 decoder: it accepts every text over its alphabet, and 64 characters stand for more than 32 bytes.\<close>

definition base58_ok :: "(string \<Rightarrow> bytes res) \<Rightarrow> bool" where
  "base58_ok dec58 \<longleftrightarrow> (\<forall>t. set t \<subseteq> set base58_alphabet \<longrightarrow> (\<exists>b. dec58 t = Inr b \<and> (64 \<le> length t \<longrightarrow> 32 < length b)))"

lemma hexdigit_alphabet: "n < 16 \<Longrightarrow> hexdigit n \<noteq> CHR ''0'' \<Longrightarrow> hexdigit n \<in> set base58_alphabet"
proof -
  have "list_all (\<lambda>n. hexdigit n = CHR ''0'' \<or> hexdigit n \<in> set base58_alphabet) [0..<16]" by code_simp
  then show "n < 16 \<Longrightarrow> hexdigit n \<noteq> CHR ''0'' \<Longrightarrow> hexdigit n \<in> set base58_alphabet" by (auto simp: list_all_iff)
qed

lemma hex_encode_alphabet: "CHR ''0'' \<notin> set (hex_encode b) \<Longrightarrow> set (hex_encode b) \<subseteq> set base58_alphabet"
proof (induction b)
  case (Cons x b)
  have "unat x div 16 < 16" "unat x mod 16 < 16" by (simp_all add: less_mult_imp_div_less)
  then show ?case using Cons hexdigit_alphabet by (auto simp: hex_encode_Cons)
qed (simp add: hex_encode_def)

text \<open>A key in hexadecimal without the digit 0 is refused: the decoder tries base58 first, which accepts such a text and gives more than 32 bytes, so the contact is not
  added although the text is a key in one of the two announced formats.\<close>

theorem hex_key_refused:
  assumes "base58_ok (cl_base58_Decode E)" "length k = 32" "CHR ''0'' \<notin> set (hex_encode k)"
  shows "hex_decode (hex_encode k) = Inr k \<and> (\<exists>m. 32 < m \<and> handleAdd E (hex_encode k # args) st =
    (st, [FormatErrorString (''Invalid public key length: expected '' @ dec_of_nat 32 @ '' bytes, got '' @ dec_of_nat m)]))"
proof -
  obtain b where b: "cl_base58_Decode E (hex_encode k) = Inr b" "32 < length b"
    using assms hex_encode_alphabet[OF assms(3)] by (auto simp: base58_ok_def length_hex_encode)
  then show ?thesis by (auto simp: handleAdd_def decodePublicKey_def crypto_sizes split: prod.split)
qed

theorem hex_key_refused_witness:
  "\<exists>m. handleAdd (example_cli\<lparr>cl_base58_Decode := \<lambda>t. if set t \<subseteq> set base58_alphabet then Inr (replicate (length t) 0) else Inl (Err ''invalid base58 digit'')\<rparr>)
     [hex_encode (replicate 32 17)] (NewCommandHandler [1] [2], started_service alice_keys [], []) =
    ((NewCommandHandler [1] [2], started_service alice_keys [], []), [FormatErrorString (''Invalid public key length: expected '' @ dec_of_nat 32 @ '' bytes, got '' @ dec_of_nat m)])"
proof -
  let ?E = "example_cli\<lparr>cl_base58_Decode := \<lambda>t. if set t \<subseteq> set base58_alphabet then Inr (replicate (length t) 0) else Inl (Err ''invalid base58 digit'')\<rparr>"
  have "base58_ok (cl_base58_Decode ?E)" by (simp add: base58_ok_def)
  moreover have "CHR ''0'' \<notin> set (hex_encode (replicate 32 17))" by code_simp
  ultimately show ?thesis using hex_key_refused[of ?E "replicate 32 17" "[]" "(NewCommandHandler [1] [2], started_service alice_keys [], [])"] by auto
qed

end
