(* ===== verification/Spec2Isabelle.thy ===== *)
theory Spec2Isabelle
  imports RatchetSession PublicGroup CallManager MailboxNode Messaging Protocol IdentityStorage Channels GroupCall Peerstore Reputation Media Configuration CryptoText NodeHealth PubSub ChatCommands
begin

text \<open>
  Babylon Tower is a peer-to-peer messenger written in Go. Two peers agree on a secret with X3DH and talk over a Double Ratchet session or with
  signed envelopes over PubSub; contacts, messages, peers, groups and channels are kept in a local store; members of a group share signed
  states and sender keys; messages for a peer that is offline wait at a mailbox node; an identity has documents, prekeys and several devices; peers call each
  other, score each other and exchange attestations of the scores. This library models these parts and proves what makes them correct.

  \<^bold>\<open>Parts, sources and theories.\<close>

  \<^item> The language. \<open>Prelude\<close>: Go's errors as values (\<open>go_error\<close>, a panic included, and the result type \<open>res\<close>), operations that change state and may fail
    (\<open>eff\<close>: the state is returned in the error case too, because Go keeps the writes made before an error return), Go maps as association lists
    (\<open>gomap\<close>), byte strings, fixed-width integers, hexadecimal and big-endian encodings, and the locale \<open>kept_invariant\<close> of step relations.
    \<open>GoTime\<close>: times and durations in nanoseconds. \<open>GoFloat\<close>: floating-point numbers as rationals that every operation rounds, with infinities and NaN.
    \<open>GoText\<close>: white space, case folding and scanning of texts. \<open>ExchangeSort\<close>: the exchange sort the program writes out by hand.
  \<^item> \<open>Crypto\<close>, \<open>CryptoText\<close>: \<open>pkg/crypto\<close>. The primitives of Go's cryptographic packages are the fields of the parameter record \<open>prims\<close>;
    \<open>dh_commutes\<close>, \<open>aead_correct\<close>, \<open>sig_correct\<close> and the like state their documented behaviour; the record \<open>toy\<close> satisfies them and serves the witnesses.
  \<^item> \<open>X3DH\<close> (\<open>pkg/ratchet/x3dh.go\<close>), \<open>Ratchet\<close> (\<open>pkg/ratchet/ratchet.go\<close>), \<open>RatchetDelivery\<close> (delivery within one chain) and \<open>RatchetSession\<close> (whole
    conversations): the handshake, the session state as the record \<open>DoubleRatchetState\<close>, and one definition per Go function.
  \<^item> \<open>Wire\<close>: the protobuf messages of \<open>pkg/proto\<close> that the modelled code uses, as records, and marshalling as the parameter \<open>codec\<close> with \<open>codec_ok\<close> (what
    was marshalled unmarshals to the same message). \<open>RefCodec\<close> constructs codecs that satisfy it.
  \<^item> Storage. \<open>MemStorage\<close>: \<open>pkg/storage/storage.go\<close> and \<open>memory.go\<close>. \<open>Badger\<close>: the key-value database as a parameter (\<open>badger\<close>, contract \<open>kv_ok\<close>), with
    transactions. \<open>BadgerStorage\<close>: \<open>badger.go\<close>, \<open>groups.go\<close> and \<open>channels.go\<close> on top of it; \<open>IdentityStorage\<close>: \<open>identity_v1.go\<close>; \<open>KeySpace\<close>: what all
    users of the database need to know of its keys.
  \<^item> Groups. \<open>GroupState\<close>, \<open>GroupService\<close>, \<open>PublicGroup\<close> and \<open>Channels\<close>: \<open>pkg/groups/state.go\<close>, \<open>service.go\<close>, \<open>public.go\<close> and \<open>channel.go\<close>.
  \<^item> Direct messages. \<open>MessageEnvelope\<close> and \<open>Messaging\<close>: \<open>pkg/messaging\<close>; \<open>Protocol\<close>: the envelopes of \<open>pkg/protocol\<close>; \<open>ChatCommands\<close>: the commands of
    \<open>pkg/cli\<close> for contacts, chat and history, from the line typed to the message sent.
  \<^item> Mailboxes. \<open>MailboxStorage\<close>, \<open>Mailbox\<close> and \<open>MailboxNode\<close>: \<open>pkg/mailbox\<close>, its store, the protocol of deposits and retrievals over byte streams,
    announcements in the DHT and the manager.
  \<^item> Identity. \<open>Identity\<close>: \<open>pkg/identity\<close>; \<open>Devices\<close> and \<open>Fanout\<close>: \<open>pkg/multidevice\<close>.
  \<^item> Calls. \<open>CallSession\<close>, \<open>Signaling\<close>, \<open>CallManager\<close>, \<open>GroupCall\<close> and \<open>Media\<close>: \<open>pkg/rtc\<close>.
  \<^item> Network. \<open>PubSub\<close> and \<open>NodeHealth\<close>: \<open>pkg/ipfsnode\<close> but for starting the node; \<open>Peerstore\<close>: \<open>pkg/peerstore\<close>; \<open>Reputation\<close>: \<open>pkg/reputation\<close>;
    \<open>Configuration\<close>: \<open>pkg/config\<close>.

  \<^bold>\<open>How the model corresponds to the code.\<close> A definition has the name of the Go function it translates, with its type or component in front where two
  share a name (\<open>Badger_GetGroup\<close>, \<open>Service_GetGroup\<close>, \<open>AddrBook_GetContact\<close>). A struct is a record with one field per field; a pointer that may be nil and
  the zero time are options. Randomness and the clock are arguments, one per reading or a function of the number of the reading. Third-party code is a parameter: a
  record of the operations called, over a state of its own where it has one (\<open>badger\<close>, \<open>ipfs_node\<close>, \<open>pubsub\<close>, \<open>peer_net\<close>, \<open>mailbox_dht\<close>, \<open>dht\<close>,
  \<open>rep_node\<close>, \<open>book_file\<close>), with its documented behaviour as named predicates that the theorems assume and the witnesses discharge.
  Most operations hold the lock of their component from beginning to end and are atomic steps. Where the lock matters it is state: the call manager can block on
  its own mutex, and an operation that never returns has the result \<open>None\<close>. Goroutines that outlive a call are pending work, run as steps of their own
  (\<open>cm_pending\<close>, \<open>gc_pending\<close>, the forwarder of a subscription); the clean-up that \<open>IsBlacklisted\<close> starts in the background is run at once. A stream is the bytes it
  carries, behind a buffered writer that has to be flushed. Log lines are left out unless they can panic: slices such as \<open>id[:8]\<close> in log calls do. Formatted
  numbers in error texts are dropped.

  \<^bold>\<open>Interfaces.\<close> \<open>keyed_store\<close> and \<open>listed_store\<close> are what a client of one map of the store relies on; every map of the in-memory store interprets them.
  \<open>group_backend\<close>, \<open>channel_backend\<close>, \<open>message_backend\<close> and \<open>contact_store\<close> are what public groups, channels, messaging and the contact tracker rely on of the
  \<open>Storage\<close> interface, interpreted by the repository's stores. \<open>table\<close> is what the six record kinds of the identity store share. \<open>descending\<close> is what the exchange
  sort needs of its test, interpreted for posts and for scores. \<open>kept_invariant\<close> carries an invariant along every history; call sessions, the call manager,
  synchronisation, fan-out, messaging, address book, contact tracker and subscriptions interpret it on their step relations.

  \<^bold>\<open>What the lemmas show.\<close> Of the secure channel: both sides of X3DH derive the same secret; any subset of a chain's messages decrypts in any order of delivery, up to the
  256 keys the cache may hold; a conversation with turns in any pattern decrypts throughout; the cache never grows past its bound; and how a replayed or late
  message breaks the session. Of the stores: each refines abstract maps under every history of operations, the two implementations of the interface agree,
  conversations are read back in order and deleted in isolation, pages cover a conversation. Of groups: which state updates are accepted, that they
  cannot be replayed, that replicas converge, that membership stays well formed, that creating, adding, removing, banning and muting do what they promise on caches and
  database, that sender keys stay in step, that rate limiting is an exact sliding window and proof of work is sound and complete, and that the posts of a channel
  verify and are listed newest first. Of messages: a line typed after adding a contact is one send to that contact, what is sent arrives and is read back on both
  sides, every event shown is authentic, a subscription keeps the order of the topic, and what the signature of an envelope covers. Of mailboxes: a
  started mailbox is found, a deposit reaches its recipient and nobody else reads or deletes it, and the rate limit is kept. Of identities: keys and documents made from a
  mnemonic verify and are served, revocations take effect, vector clocks converge. Of calls: sessions follow their state machine, when the manager
  blocks, that elections agree and that negotiated codecs are understood by the other side. Of the network: scores stay within bounds, health checks close only
  peers with low scores, the address book survives a restart, attestations verify where they arrive, and the two validations of a configuration agree.
  Several theorems state where the code does not do what it means to: they are written as what the code does.

  \<^bold>\<open>Bounds and loops.\<close> Counters keep their width: chain and message counters are 32-bit words, timestamps, epochs, quotas and durations 64-bit words, and
  wrap-around is visible in the statements. Loops over lists are structural recursion. The receiving-chain loops of the ratchet run up to the message number of the
  header, a 32-bit word, and are functions with a measure; so are the proof-of-work search (1000001 minus the nonce), the exchange sort and the trimming of texts. The
  advance loop of \<open>DecryptGroupMessage\<close> can run forever and is a partial function into \<open>option\<close>; the theorem about it says exactly when it returns. No definition uses
  fuel.

  \<^bold>\<open>Not modelled.\<close> Starting, bootstrapping and stopping the libp2p node (calls of third-party code with timeouts); the terminal loop, the commands that only display what
  other components return, and \<open>cmd\<close>; reading configuration files, which the third-party package viper does; error wrapping of \<open>pkg/errors\<close>; opening and closing the
  database and \<open>PrunePeers\<close>; timers that only call a modelled operation; the JSON file of an identity; the generated accessors of \<open>pkg/proto\<close>.
\<close>

end
